(* ===== verification/Prelude.thy ===== *)
theory Prelude
  imports Main "HOL-Library.Word"
begin

text \<open>
  Shared vocabulary of the development: machine types, time and the clock, error values,
  the strings of the Go standard library the sources use, and the parameters that stand
  for the third-party libraries the repository calls (decimal arithmetic, protobuf
  timestamps). Generic lemmas used by several components are collected here.
\<close>

unbundle bit_operations_syntax

section \<open>Machine types\<close>

type_synonym byte = "8 word"
type_synonym bytes = "byte list"
type_synonym uint32 = "32 word"
type_synonym uint64 = "64 word"

section \<open>Time\<close>

text \<open>
  An instant of \<open>time.Time\<close> is its distance in nanoseconds from the zero time (year 1),
  so \<open>IsZero\<close> is equality with 0. Every call of \<open>time.Now()\<close> consumes one reading
  of a clock: a sequence of readings and the number of readings already taken. Nothing
  is assumed of the readings unless a theorem says so.
\<close>

type_synonym time = int
type_synonym clock = "(nat \<Rightarrow> time) \<times> nat"

definition now :: "clock \<Rightarrow> time \<times> clock" where
  "now c = (fst c (snd c), (fst c, Suc (snd c)))"

definition unix_epoch :: time where
  "unix_epoch = 62135596800 * 1000000000"

definition unix_nano :: "time \<Rightarrow> int" where
  "unix_nano t = t - unix_epoch"

section \<open>Errors\<close>

text \<open>
  The sentinel errors of the sources keep their names. Errors built by \<open>fmt.Errorf\<close>
  from a message become \<open>ErrMsg\<close> with the fixed part of the message.
\<close>

datatype err =
    ErrMsg string
  | ErrSymbolRequired
  | ErrSymbolReadOnly
  | ErrSpreadViolation
  | ErrRecordTooShort
  | ErrInvalidLength
  | ErrCRCMismatch
  | ErrEOF
  | ErrUnexpectedEOF
  | ErrWriterClosed
  | ErrNonMonotonic
  | ErrIO
  | ErrChecksum
  | ErrOrderNotFound
  | ErrSkippableEvent
  | ErrInsufficientBalance
  | ErrDuplicateClientOrder
  | ErrOrderNotCancelable
  | ErrBalanceNotFound
  | ErrInvalidArgument
  | ErrNotFound
  | ErrFailedPrecondition
  | ErrUnavailable
  | ErrSymbolNotMapped
  | ErrSymbolNotOnShard
  | ErrDuplicateSymbol
  | ErrInvalidConfig
  | ErrMigrationActive
  | ErrMigrationNotActive
  | ErrMigrationNotAllowed
  | ErrInvalidPhase
  | ErrTooManyConnections
  | ErrSkipMatchEvent

section \<open>Strings\<close>

text \<open>
  Go strings are byte strings. \<open>TrimSpace\<close> and \<open>ToUpper\<close> are modelled on the ASCII
  range.
\<close>

definition is_space :: "char \<Rightarrow> bool" where
  "is_space c \<longleftrightarrow> c \<in> {CHR '' '', CHR 0x09, CHR 0x0A, CHR 0x0B, CHR 0x0C, CHR 0x0D}"

definition trim_space :: "string \<Rightarrow> string" where
  "trim_space s = rev (dropWhile is_space (rev (dropWhile is_space s)))"

definition to_upper_char :: "char \<Rightarrow> char" where
  "to_upper_char c =
     (let n = of_char c :: nat in if 97 \<le> n \<and> n \<le> 122 then char_of (n - 32) else c)"

definition to_upper :: "string \<Rightarrow> string" where
  "to_upper s = map to_upper_char s"

fun has_prefix :: "string \<Rightarrow> string \<Rightarrow> bool" where
  "has_prefix s [] = True"
| "has_prefix [] (p # ps) = False"
| "has_prefix (c # s) (p # ps) = (c = p \<and> has_prefix s ps)"

definition has_suffix :: "string \<Rightarrow> string \<Rightarrow> bool" where
  "has_suffix s p = has_prefix (rev s) (rev p)"

definition trim_prefix :: "string \<Rightarrow> string \<Rightarrow> string" where
  "trim_prefix s p = (if has_prefix s p then drop (length p) s else s)"

definition trim_suffix :: "string \<Rightarrow> string \<Rightarrow> string" where
  "trim_suffix s p = (if has_suffix s p then take (length s - length p) s else s)"

text \<open>\<open>strings.Split\<close> with a separator of one character.\<close>

fun split_on :: "char \<Rightarrow> string \<Rightarrow> string list" where
  "split_on d [] = [[]]"
| "split_on d (c # s) =
     (if c = d then [] # split_on d s
      else (case split_on d s of [] \<Rightarrow> [[c]] | w # ws \<Rightarrow> (c # w) # ws))"

lemma has_prefix_append [simp]: "has_prefix (p @ s) p"
  by (induction p) auto

lemma has_prefix_iff: "has_prefix s p \<longleftrightarrow> (\<exists>r. s = p @ r)"
  by (induction s p rule: has_prefix.induct) auto

lemma has_suffix_append [simp]: "has_suffix (s @ p) p"
  by (simp add: has_suffix_def)

lemma trim_prefix_append [simp]: "trim_prefix (p @ s) p = s"
  by (simp add: trim_prefix_def)

lemma trim_suffix_append [simp]: "trim_suffix (s @ p) p = s"
  by (simp add: trim_suffix_def)

lemma dropWhile_hd: "dropWhile P xs = y # ys \<Longrightarrow> \<not> P y"
  using hd_dropWhile [of P xs] by simp

lemma trim_trim: "trim_space (trim_space s) = trim_space s"
proof -
  define t where "t = dropWhile is_space s"
  define u where "u = rev (dropWhile is_space (rev t))"
  have u: "trim_space s = u" by (simp add: trim_space_def u_def t_def)
  have "dropWhile is_space u = u"
  proof (cases u)
    case (Cons c cs)
    have "rev t = takeWhile is_space (rev t) @ rev u" by (simp add: u_def)
    then have "t = u @ rev (takeWhile is_space (rev t))" by (metis rev_append rev_rev_ident)
    then have "t = c # cs @ rev (takeWhile is_space (rev t))" using Cons by simp
    then have "\<not> is_space c" using dropWhile_hd unfolding t_def by metis
    with Cons show ?thesis by simp
  qed simp
  moreover have "dropWhile is_space (rev u) = rev u" by (simp add: u_def)
  ultimately show ?thesis unfolding u by (simp add: trim_space_def)
qed

lemma trim_space_id: "\<not> is_space a \<Longrightarrow> \<not> is_space b \<Longrightarrow> trim_space (a # s @ [b]) = a # s @ [b]"
  by (simp add: trim_space_def)

lemma split_on_nonempty: "split_on d s \<noteq> []"
  by (induction s) (auto split: list.splits)

subsection \<open>Decimal numerals\<close>

definition digit_char :: "nat \<Rightarrow> char" where
  "digit_char d = char_of (48 + d)"

definition is_digit :: "char \<Rightarrow> bool" where
  "is_digit c \<longleftrightarrow> 48 \<le> (of_char c :: nat) \<and> (of_char c :: nat) \<le> 57"

definition digit_val :: "char \<Rightarrow> nat" where
  "digit_val c = of_char c - 48"

fun show_nat :: "nat \<Rightarrow> string" where
  "show_nat n = (if n < 10 then [digit_char n] else show_nat (n div 10) @ [digit_char (n mod 10)])"

declare show_nat.simps [simp del]

definition digits_val :: "string \<Rightarrow> nat" where
  "digits_val s = foldl (\<lambda>a c. 10 * a + digit_val c) 0 s"

text \<open>\<open>strconv.ParseUint(s, 10, 64)\<close>: only digits, at least one, and the value fits.\<close>

definition parse_uint64 :: "string \<Rightarrow> nat option" where
  "parse_uint64 s =
     (if s \<noteq> [] \<and> list_all is_digit s \<and> digits_val s < 2 ^ 64 then Some (digits_val s) else None)"

text \<open>\<open>strconv.Atoi\<close>: an optional sign, then digits, in the range of a 64-bit int.\<close>

definition atoi :: "string \<Rightarrow> int option" where
  "atoi s =
     (let neg = (s \<noteq> [] \<and> hd s = CHR ''-'');
          body = (if s \<noteq> [] \<and> (hd s = CHR ''-'' \<or> hd s = CHR ''+'') then tl s else s)
      in if body \<noteq> [] \<and> list_all is_digit body
         then (if neg then (if digits_val body \<le> 2 ^ 63 then Some (- int (digits_val body)) else None)
               else (if digits_val body < 2 ^ 63 then Some (int (digits_val body)) else None))
         else None)"

text \<open>\<open>%0wd\<close> of \<open>fmt.Sprintf\<close> for a non-negative number.\<close>

definition pad_zero :: "nat \<Rightarrow> string \<Rightarrow> string" where
  "pad_zero w s = replicate (w - length s) (CHR ''0'') @ s"

lemma of_char_digit: "d < 10 \<Longrightarrow> (of_char (digit_char d) :: nat) = 48 + d"
  by (simp add: digit_char_def)

lemma digit_char_props [simp]:
  "d < 10 \<Longrightarrow> is_digit (digit_char d)"
  "d < 10 \<Longrightarrow> digit_val (digit_char d) = d"
  by (simp_all add: is_digit_def digit_val_def of_char_digit)

lemma digits_val_snoc: "digits_val (s @ [c]) = 10 * digits_val s + digit_val c"
  by (simp add: digits_val_def)

lemma show_nat_nonempty [simp]: "show_nat n \<noteq> []"
  by (subst show_nat.simps) simp

lemma show_nat_digits: "list_all is_digit (show_nat n)"
proof (induction n rule: show_nat.induct)
  case (1 n)
  then show ?case by (subst show_nat.simps) simp
qed

lemma digits_val_show [simp]: "digits_val (show_nat n) = n"
proof (induction n rule: show_nat.induct)
  case (1 n)
  show ?case
  proof (cases "n < 10")
    case True
    then show ?thesis by (subst show_nat.simps) (simp add: digits_val_def)
  next
    case False
    then have "digits_val (show_nat n) = 10 * digits_val (show_nat (n div 10)) + n mod 10"
      by (subst show_nat.simps) (simp add: digits_val_snoc)
    with False 1 show ?thesis by simp
  qed
qed

lemma parse_show_uint64: "n < 2 ^ 64 \<Longrightarrow> parse_uint64 (show_nat n) = Some n"
  by (simp add: parse_uint64_def show_nat_digits)

lemma digits_val_pad [simp]: "digits_val (pad_zero w s) = digits_val s"
proof -
  have z: "digit_val (CHR ''0'') = 0" by (simp add: digit_val_def)
  have "foldl (\<lambda>a c. 10 * a + digit_val c) 0 (replicate k (CHR ''0'')) = 0" for k
    by (induction k) (simp_all add: z)
  then show ?thesis by (simp add: digits_val_def pad_zero_def)
qed

lemma pad_zero_digits: "list_all is_digit s \<Longrightarrow> list_all is_digit (pad_zero w s)"
proof -
  have "is_digit (CHR ''0'')" by (simp add: is_digit_def)
  then have "list_all is_digit (replicate k (CHR ''0''))" for k
    by (simp add: list_all_iff)
  then show "list_all is_digit s \<Longrightarrow> list_all is_digit (pad_zero w s)"
    by (simp add: pad_zero_def)
qed

lemma pad_zero_nonempty: "s \<noteq> [] \<Longrightarrow> pad_zero w s \<noteq> []"
  by (simp add: pad_zero_def)

lemma atoi_digits:
  assumes "s \<noteq> []" "list_all is_digit s" "digits_val s < 2 ^ 63"
  shows "atoi s = Some (int (digits_val s))"
proof -
  from assms(1,2) have "is_digit (hd s)" by (cases s) auto
  then have "hd s \<noteq> CHR ''-''" "hd s \<noteq> CHR ''+''" by (auto simp: is_digit_def)
  with assms show ?thesis by (simp add: atoi_def)
qed

section \<open>Third-party libraries as parameters\<close>

text \<open>
  Decimal values (\<open>shopspring/decimal\<close>) range over an arbitrary ordered integral domain:
  \<open>Add\<close>, \<open>Sub\<close>, \<open>Mul\<close> and the comparisons of that package are exact, and nothing else
  of them is used. Its inexact or textual operations, and the conversions of
  \<open>timestamppb\<close>, are fields of a record that the definitions take as an argument.
\<close>

type_synonym tstamp = "int \<times> int"

record 'd libs =
  dec_of_string :: "string \<Rightarrow> 'd option"
  dec_to_string :: "'d \<Rightarrow> string"
  dec_div :: "'d \<Rightarrow> 'd \<Rightarrow> 'd"
  dec_trunc :: "int \<Rightarrow> 'd \<Rightarrow> 'd"
  dec_new :: "int \<Rightarrow> int \<Rightarrow> 'd"
  ts_new :: "time \<Rightarrow> tstamp"
  ts_as_time :: "tstamp option \<Rightarrow> time"

text \<open>
  What is relied on, where a theorem needs it: a printed decimal parses to itself and is
  not the empty string, and a timestamp converts back to the instant it was made from.
\<close>

definition codec_ok :: "'d libs \<Rightarrow> bool" where
  "codec_ok L \<longleftrightarrow>
     (\<forall>d. dec_of_string L (dec_to_string L d) = Some d) \<and>
     (\<forall>d. dec_to_string L d \<noteq> []) \<and>
     (\<forall>t. ts_as_time L (Some (ts_new L t)) = t)"

lemma codec_okD:
  assumes "codec_ok L"
  shows "dec_of_string L (dec_to_string L d) = Some d"
    and "dec_to_string L d \<noteq> []"
    and "ts_as_time L (Some (ts_new L t)) = t"
  using assms by (auto simp: codec_ok_def)

text \<open>
  \<open>Truncate(p)\<close> drops the digits after the \<open>p\<close>-th decimal place, towards zero;
  \<open>New(1, -p)\<close> is one unit of that place.
\<close>

definition trunc_ok :: "('d::linordered_idom) libs \<Rightarrow> bool" where
  "trunc_ok L \<longleftrightarrow>
     (\<forall>p v. 0 \<le> v \<longrightarrow> 0 \<le> p \<longrightarrow>
        0 \<le> dec_trunc L p v \<and> dec_trunc L p v \<le> v \<and> v < dec_trunc L p v + dec_new L 1 (- p)) \<and>
     (\<forall>p v. 0 \<le> p \<longrightarrow> dec_trunc L p (dec_trunc L p v) = dec_trunc L p v) \<and>
     (\<forall>p v. 0 \<le> p \<longrightarrow>
        dec_trunc L p (dec_trunc L p v + dec_new L 1 (- p)) = dec_trunc L p v + dec_new L 1 (- p))"

lemma trunc_okD:
  assumes "trunc_ok L" "0 \<le> p"
  shows "0 \<le> v \<Longrightarrow> 0 \<le> dec_trunc L p v"
    and "0 \<le> v \<Longrightarrow> dec_trunc L p v \<le> v"
    and "0 \<le> v \<Longrightarrow> v < dec_trunc L p v + dec_new L 1 (- p)"
    and "dec_trunc L p (dec_trunc L p v) = dec_trunc L p v"
    and "dec_trunc L p (dec_trunc L p v + dec_new L 1 (- p)) = dec_trunc L p v + dec_new L 1 (- p)"
  using assms by (auto simp: trunc_ok_def)

text \<open>
  A concrete instance over the integers, for the witnesses: no digits after the point,
  so truncation is the identity.
\<close>

definition int_to_string :: "int \<Rightarrow> string" where
  "int_to_string i = (if i < 0 then CHR ''-'' # show_nat (nat (- i)) else show_nat (nat i))"

definition int_of_string :: "string \<Rightarrow> int option" where
  "int_of_string s =
     (case s of [] \<Rightarrow> None
      | c # r \<Rightarrow>
          if c = CHR ''-'' then (if r \<noteq> [] \<and> list_all is_digit r then Some (- int (digits_val r)) else None)
          else if list_all is_digit s then Some (int (digits_val s)) else None)"

definition int_libs :: "int libs" where
  "int_libs =
     \<lparr> dec_of_string = int_of_string, dec_to_string = int_to_string,
       dec_div = (\<lambda>a b. if b = 0 then 0 else sgn a * sgn b * (\<bar>a\<bar> div \<bar>b\<bar>)),
       dec_trunc = (\<lambda>p v. v), dec_new = (\<lambda>v e. v),
       ts_new = (\<lambda>t. (t div 1000000000, t mod 1000000000)),
       ts_as_time = (\<lambda>ts. case ts of None \<Rightarrow> unix_epoch | Some (s, n) \<Rightarrow> s * 1000000000 + n) \<rparr>"

lemma int_of_string_to_string: "int_of_string (int_to_string i) = Some i"
proof (cases "i < 0")
  case True
  then show ?thesis
    by (simp add: int_of_string_def int_to_string_def show_nat_digits)
next
  case False
  obtain c r where s: "show_nat (nat i) = c # r"
    using show_nat_nonempty by (cases "show_nat (nat i)") auto
  have d: "list_all is_digit (c # r)" using show_nat_digits [of "nat i"] s by simp
  then have "c \<noteq> CHR ''-''" by (auto simp: is_digit_def)
  moreover have "digits_val (c # r) = nat i" using digits_val_show [of "nat i"] s by simp
  ultimately show ?thesis using False d s
    by (simp add: int_of_string_def int_to_string_def)
qed

lemma codec_ok_int_libs: "codec_ok int_libs"
  unfolding codec_ok_def
  by (simp add: int_libs_def int_of_string_to_string) (simp add: int_to_string_def)

lemma trunc_ok_int_libs: "trunc_ok int_libs"
  by (simp add: trunc_ok_def int_libs_def)

section \<open>Lists\<close>

lemma takeWhile_filter_sorted:
  assumes mono: "\<And>x y. R x y \<Longrightarrow> P y \<Longrightarrow> P x"
  shows "sorted_wrt R xs \<Longrightarrow> takeWhile P (filter Q xs) = filter Q (takeWhile P xs)"
proof (induction xs)
  case Nil
  then show ?case by simp
next
  case (Cons x xs)
  show ?case
  proof (cases "P x")
    case True
    with Cons show ?thesis by simp
  next
    case False
    have "\<forall>y \<in> set xs. \<not> P y" using Cons.prems False mono by fastforce
    then have "takeWhile P (filter Q xs) = []"
      by (cases "filter Q xs") (auto simp: filter_eq_Cons_iff)
    with False show ?thesis by simp
  qed
qed

lemma distinct_map_filter: "distinct (map f xs) \<Longrightarrow> distinct (map f (filter P xs))"
  by (induction xs) auto

lemma map_of_map_key:
  "distinct (map f xs) \<Longrightarrow> x \<in> set xs \<Longrightarrow> map_of (map (\<lambda>y. (f y, y)) xs) (f x) = Some x"
  by (induction xs) (auto simp: image_iff)

lemma map_of_map_key_None:
  "k \<notin> f ` set xs \<Longrightarrow> map_of (map (\<lambda>y. (f y, y)) xs) k = None"
  by (induction xs) auto

lemma map_of_map_key_iff:
  "distinct (map f xs) \<Longrightarrow>
     map_of (map (\<lambda>y. (f y, y)) xs) k = Some x \<longleftrightarrow> x \<in> set xs \<and> f x = k"
  by (induction xs) (auto simp: image_iff)

section \<open>Bytes of machine words\<close>

text \<open>
  \<open>encoding/binary\<close>: \<open>le_bytes n w\<close> is what \<open>LittleEndian.PutUint32/64\<close> writes for
  \<open>n\<close> = 4, 8, and \<open>of_le_bytes\<close> what \<open>Uint32/64\<close> reads.
\<close>

definition le_bytes :: "nat \<Rightarrow> 'a::len word \<Rightarrow> bytes" where
  "le_bytes n w = map (\<lambda>i. ucast (drop_bit (8 * i) w)) [0..<n]"

definition be_bytes :: "nat \<Rightarrow> 'a::len word \<Rightarrow> bytes" where
  "be_bytes n w = rev (le_bytes n w)"

fun le_val :: "bytes \<Rightarrow> nat" where
  "le_val [] = 0"
| "le_val (b # bs) = unat b + 256 * le_val bs"

definition of_le_bytes :: "bytes \<Rightarrow> 'a::len word" where
  "of_le_bytes bs = of_nat (le_val bs)"

lemma length_le_bytes [simp]: "length (le_bytes n w) = n"
  by (simp add: le_bytes_def)

lemma le_bytes_Nil [simp]: "le_bytes n w = [] \<longleftrightarrow> n = 0"
  by (simp add: le_bytes_def)

lemma le_bytes_Suc: "le_bytes (Suc n) w = ucast w # le_bytes n (drop_bit 8 w)"
proof -
  have "drop_bit 8 (drop_bit k w) = drop_bit (8 + k) w" for k
    by (simp add: add.commute)
  then show ?thesis
    by (simp add: le_bytes_def map_upt_Suc add.commute del: upt_Suc)
qed

lemma le_val_le_bytes: "le_val (le_bytes n w) = unat w mod 256 ^ n"
proof (induction n arbitrary: w)
  case 0
  then show ?case by (simp add: le_bytes_def)
next
  case (Suc n)
  have u: "unat (ucast w :: byte) = unat w mod 256"
    by (simp add: unsigned_ucast_eq take_bit_eq_mod)
  have d: "unat (drop_bit 8 w) = unat w div 256"
    by (simp only: unat_drop_bit_eq) (simp add: drop_bit_eq_div)
  have "unat w mod 256 + 256 * (unat w div 256 mod 256 ^ n) = unat w mod 256 ^ Suc n"
    by (simp add: mod_mult2_eq mult.commute)
  with Suc show ?case by (simp add: le_bytes_Suc u d)
qed

lemma of_le_bytes_64 [simp]: "of_le_bytes (le_bytes 8 (w :: uint64)) = w"
proof -
  have "unat w < 256 ^ 8" using unsigned_less [of w] by simp
  then show ?thesis by (simp add: of_le_bytes_def le_val_le_bytes)
qed

lemma of_le_bytes_32 [simp]: "of_le_bytes (le_bytes 4 (w :: uint32)) = w"
proof -
  have "unat w < 256 ^ 4" using unsigned_less [of w] by simp
  then show ?thesis by (simp add: of_le_bytes_def le_val_le_bytes)
qed

text \<open>\<open>hash/fnv\<close>, 64-bit FNV-1a.\<close>

definition fnv64a :: "bytes \<Rightarrow> uint64" where
  "fnv64a bs = foldl (\<lambda>h b. (h XOR ucast b) * 1099511628211) 14695981039346656037 bs"

text \<open>\<open>hash/crc32\<close> with the IEEE polynomial.\<close>

definition crc32_step :: "uint32 \<Rightarrow> uint32" where
  "crc32_step c = (if bit c 0 then drop_bit 1 c XOR 0xEDB88320 else drop_bit 1 c)"

definition crc32_byte :: "uint32 \<Rightarrow> byte \<Rightarrow> uint32" where
  "crc32_byte c b = (crc32_step ^^ 8) (c XOR ucast b)"

definition crc32_ieee :: "bytes \<Rightarrow> uint32" where
  "crc32_ieee bs = NOT (foldl crc32_byte (NOT 0) bs)"

section \<open>Proof-method collections\<close>

named_theorems book_simps \<open>effect of the order-book updates on its fields\<close>
named_theorems inv_intros \<open>operations preserve the component invariants\<close>
named_theorems state_simps \<open>fields that an operation leaves alone\<close>

end
