(* ===== verification/OrderStatus.thy ===== *)
theory OrderStatus
  imports Prelude
begin

text \<open>
  Model of \<open>internal/order/status/machine.go\<close>: the statuses of an order, the status a
  match event asks for, and which transitions are legal.
\<close>

section \<open>Statuses and transitions\<close>

definition Pending :: string where "Pending = ''PENDING''"
definition Accepted :: string where "Accepted = ''ACCEPTED''"
definition Partial :: string where "Partial = ''PARTIAL''"
definition Canceling :: string where "Canceling = ''CANCELING''"
definition Filled :: string where "Filled = ''FILLED''"
definition Canceled :: string where "Canceled = ''CANCELED''"
definition Rejected :: string where "Rejected = ''REJECTED''"

lemmas status_defs = Pending_def Accepted_def Partial_def Canceling_def Filled_def Canceled_def Rejected_def

lemma status_distinct [simp]:
  "Pending \<noteq> Accepted" "Pending \<noteq> Partial" "Pending \<noteq> Canceling" "Pending \<noteq> Filled" "Pending \<noteq> Canceled" "Pending \<noteq> Rejected"
  "Accepted \<noteq> Pending" "Accepted \<noteq> Partial" "Accepted \<noteq> Canceling" "Accepted \<noteq> Filled" "Accepted \<noteq> Canceled" "Accepted \<noteq> Rejected"
  "Partial \<noteq> Pending" "Partial \<noteq> Accepted" "Partial \<noteq> Canceling" "Partial \<noteq> Filled" "Partial \<noteq> Canceled" "Partial \<noteq> Rejected"
  "Canceling \<noteq> Pending" "Canceling \<noteq> Accepted" "Canceling \<noteq> Partial" "Canceling \<noteq> Filled" "Canceling \<noteq> Canceled" "Canceling \<noteq> Rejected"
  "Filled \<noteq> Pending" "Filled \<noteq> Accepted" "Filled \<noteq> Partial" "Filled \<noteq> Canceling" "Filled \<noteq> Canceled" "Filled \<noteq> Rejected"
  "Canceled \<noteq> Pending" "Canceled \<noteq> Accepted" "Canceled \<noteq> Partial" "Canceled \<noteq> Canceling" "Canceled \<noteq> Filled" "Canceled \<noteq> Rejected"
  "Rejected \<noteq> Pending" "Rejected \<noteq> Accepted" "Rejected \<noteq> Partial" "Rejected \<noteq> Canceling" "Rejected \<noteq> Filled" "Rejected \<noteq> Canceled"
  by (simp_all add: status_defs)

definition MatchOrderAccepted :: int where "MatchOrderAccepted = 1"
definition MatchOrderFilled :: int where "MatchOrderFilled = 2"
definition MatchOrderPartial :: int where "MatchOrderPartial = 3"
definition MatchOrderCanceled :: int where "MatchOrderCanceled = 4"

lemmas match_event_defs = MatchOrderAccepted_def MatchOrderFilled_def MatchOrderPartial_def MatchOrderCanceled_def

definition TargetStatus :: "int \<Rightarrow> err + string" where
  "TargetStatus ev =
     (if ev = MatchOrderAccepted then Inr Accepted
      else if ev = MatchOrderPartial then Inr Partial
      else if ev = MatchOrderFilled then Inr Filled
      else if ev = MatchOrderCanceled then Inr Canceled
      else Inl (ErrMsg ''unsupported match event type''))"

definition IsTerminal :: "string \<Rightarrow> bool" where
  "IsTerminal s \<longleftrightarrow> s \<in> {Filled, Canceled, Rejected}"

definition IsProgressFromMatching :: "string \<Rightarrow> bool" where
  "IsProgressFromMatching target \<longleftrightarrow> target \<in> {Accepted, Partial, Filled}"

definition FillWinsOverCancel :: "string \<Rightarrow> string \<Rightarrow> bool" where
  "FillWinsOverCancel from target \<longleftrightarrow> from = Canceling \<and> IsProgressFromMatching target"

definition AllowedFromStatuses :: "string \<Rightarrow> string list" where
  "AllowedFromStatuses target =
     (if target = Accepted then [Pending, Canceling]
      else if target = Partial then [Pending, Accepted, Partial, Canceling]
      else if target = Filled then [Pending, Accepted, Partial, Canceling]
      else if target = Canceling then [Pending, Accepted, Partial]
      else if target = Canceled then [Pending, Accepted, Partial, Canceling]
      else if target = Rejected then [Pending]
      else [])"

definition CanTransition :: "string \<Rightarrow> string \<Rightarrow> bool" where
  "CanTransition from to \<longleftrightarrow> from = to \<or> list_ex (\<lambda>s. s = from) (AllowedFromStatuses to)"

section \<open>Lifecycles\<close>

text \<open>\<open>lifecycle s ts t\<close>: from \<open>s\<close>, through the targets \<open>ts\<close> in turn, to \<open>t\<close>.\<close>

inductive lifecycle :: "string \<Rightarrow> string list \<Rightarrow> string \<Rightarrow> bool" where
  stay: "lifecycle s [] s"
| move: "lifecycle s ts t \<Longrightarrow> CanTransition t u \<Longrightarrow> lifecycle s (ts @ [u]) u"

inductive_cases lifecycle_NilE [elim!]: "lifecycle s [] t"
inductive_simps lifecycle_simps: "lifecycle s ts t"

definition known_status :: "string \<Rightarrow> bool" where
  "known_status s \<longleftrightarrow> s \<in> {Pending, Accepted, Partial, Canceling, Filled, Canceled, Rejected}"

lemma CanTransition_terminal: "IsTerminal s \<Longrightarrow> CanTransition s t \<longleftrightarrow> t = s"
  by (auto simp: IsTerminal_def CanTransition_def AllowedFromStatuses_def split: if_splits)

lemma CanTransition_known: "CanTransition s t \<Longrightarrow> known_status s \<Longrightarrow> known_status t"
  by (auto simp: known_status_def CanTransition_def AllowedFromStatuses_def split: if_splits)

lemma CanTransition_Pending: "CanTransition s Pending \<Longrightarrow> s = Pending"
  by (auto simp: CanTransition_def AllowedFromStatuses_def)

lemma CanTransition_Rejected: "CanTransition s Rejected \<Longrightarrow> s = Pending \<or> s = Rejected"
  by (auto simp: CanTransition_def AllowedFromStatuses_def)

lemma AllowedFrom_not_terminal: "s \<in> set (AllowedFromStatuses t) \<Longrightarrow> \<not> IsTerminal s"
  by (auto simp: IsTerminal_def AllowedFromStatuses_def split: if_splits)

lemma lifecycle_known: "lifecycle s ts t \<Longrightarrow> known_status s \<Longrightarrow> known_status t"
  by (induction rule: lifecycle.induct) (auto intro: CanTransition_known)

lemma lifecycle_terminal: "lifecycle s ts t \<Longrightarrow> IsTerminal s \<Longrightarrow> t = s \<and> (\<forall>u \<in> set ts. u = s)"
  by (induction rule: lifecycle.induct) (auto simp: CanTransition_terminal)

lemma lifecycle_split: "lifecycle s us t \<Longrightarrow> us = ts @ v # vs \<Longrightarrow> lifecycle v vs t"
proof (induction arbitrary: vs rule: lifecycle.induct)
  case (stay s)
  then show ?case by simp
next
  case (move s us t u)
  show ?case
  proof (cases vs rule: rev_cases)
    case Nil
    with move.prems show ?thesis by (simp add: lifecycle.stay)
  next
    case (snoc ws w)
    with move.prems have "us = ts @ v # ws" "w = u" by (simp_all add: append_eq_append_conv2)
    with move.IH move.hyps(2) snoc show ?thesis by (auto intro: lifecycle.move)
  qed
qed

lemma lifecycle_rejected: "lifecycle s ts t \<Longrightarrow> s = Pending \<Longrightarrow> t = Rejected \<Longrightarrow> set ts \<subseteq> {Pending, Rejected}"
proof (induction rule: lifecycle.induct)
  case (stay s)
  then show ?case by simp
next
  case (move s ts t u)
  have pend: "lifecycle s ts t \<Longrightarrow> t = Pending \<Longrightarrow> set ts \<subseteq> {Pending}" for s ts t
    by (induction rule: lifecycle.induct) (auto dest: CanTransition_Pending)
  from move.hyps(2) move.prems have "t = Pending \<or> t = Rejected" by (auto dest: CanTransition_Rejected)
  with move pend show ?case by auto
qed

section \<open>Properties\<close>

text \<open>
  Whatever targets an order that starts PENDING is moved to, one legal transition at a
  time: its status is one of the seven; after FILLED, CANCELED or REJECTED it never changes
  again; it is REJECTED only if it was never accepted, filled or asked to be canceled.
\<close>

theorem status_lifecycle:
  assumes "lifecycle Pending ts s"
  shows "known_status s \<and> (\<forall>us v vs. ts = us @ v # vs \<longrightarrow> IsTerminal v \<longrightarrow> s = v) \<and>
    (s = Rejected \<longrightarrow> set ts \<subseteq> {Pending, Rejected})"
proof (intro conjI allI impI)
  show "known_status s" by (rule lifecycle_known [OF assms]) (simp add: known_status_def)
  show "s = v" if "ts = us @ v # vs" "IsTerminal v" for us v vs
    using lifecycle_terminal [OF lifecycle_split [OF assms that(1)] that(2)] by simp
  show "set ts \<subseteq> {Pending, Rejected}" if "s = Rejected" by (rule lifecycle_rejected [OF assms refl that])
qed

theorem status_lifecycle_witness:
  "known_status Filled \<and> lifecycle Pending [Accepted, Canceling, Partial, Filled] Filled"
proof -
  have "lifecycle Pending ([] @ [Accepted]) Accepted"
    by (rule lifecycle.move [OF lifecycle.stay]) (simp add: CanTransition_def AllowedFromStatuses_def)
  then have "lifecycle Pending (([] @ [Accepted]) @ [Canceling]) Canceling"
    by (rule lifecycle.move) (simp add: CanTransition_def AllowedFromStatuses_def)
  then have "lifecycle Pending ((([] @ [Accepted]) @ [Canceling]) @ [Partial]) Partial"
    by (rule lifecycle.move) (simp add: CanTransition_def AllowedFromStatuses_def)
  then have "lifecycle Pending (((([] @ [Accepted]) @ [Canceling]) @ [Partial]) @ [Filled]) Filled"
    by (rule lifecycle.move) (simp add: CanTransition_def AllowedFromStatuses_def)
  then have l: "lifecycle Pending [Accepted, Canceling, Partial, Filled] Filled" by simp
  with status_lifecycle [OF l] show ?thesis by simp
qed

end
