(* ===== verification/SkipList.thy ===== *)
theory SkipList
  imports Prelude
begin

text \<open>
  Model of \<open>pkg/skiplist/skiplist.go\<close>. A skip list is an explicit store of nodes with
  their arrays of forward pointers, and the operations follow the pointers as the code
  does; a walk that never ends is the result \<open>None\<close>. The abstraction is the list of
  values along level 0. The operations are shown to terminate, to keep the structure
  well formed for every outcome of the random levels, and to act on the abstraction as
  insertion, search and deletion in an ordered list. The interface the order book uses
  is the locale \<open>ordered_store\<close>, interpreted by the pointer structure and by
  its ordered-list abstraction.
\<close>

section \<open>Ordered lists: the abstract specification\<close>

fun ol_insert :: "('v \<Rightarrow> 'v \<Rightarrow> int) \<Rightarrow> 'v \<Rightarrow> 'v list \<Rightarrow> 'v list" where
  "ol_insert cmp v [] = [v]"
| "ol_insert cmp v (x # xs) =
     (if cmp x v < 0 then x # ol_insert cmp v xs
      else if cmp x v = 0 then v # xs else v # x # xs)"

fun ol_search :: "('v \<Rightarrow> 'v \<Rightarrow> int) \<Rightarrow> 'v \<Rightarrow> 'v list \<Rightarrow> 'v option" where
  "ol_search cmp v [] = None"
| "ol_search cmp v (x # xs) =
     (if cmp x v < 0 then ol_search cmp v xs
      else if cmp x v = 0 then Some x else None)"

fun ol_delete :: "('v \<Rightarrow> 'v \<Rightarrow> int) \<Rightarrow> 'v \<Rightarrow> 'v list \<Rightarrow> 'v list" where
  "ol_delete cmp v [] = []"
| "ol_delete cmp v (x # xs) =
     (if cmp x v < 0 then x # ol_delete cmp v xs
      else if cmp x v = 0 then xs else x # xs)"

definition ol_contains :: "('v \<Rightarrow> 'v \<Rightarrow> int) \<Rightarrow> 'v \<Rightarrow> 'v list \<Rightarrow> bool" where
  "ol_contains cmp v xs = (ol_search cmp v xs \<noteq> None)"

definition ol_front :: "'v list \<Rightarrow> 'v option" where
  "ol_front xs = (case xs of [] \<Rightarrow> None | x # _ \<Rightarrow> Some x)"

abbreviation ordered :: "('v \<Rightarrow> 'v \<Rightarrow> int) \<Rightarrow> 'v list \<Rightarrow> bool" where
  "ordered cmp xs \<equiv> sorted_wrt (\<lambda>x y. cmp x y < 0) xs"

text \<open>
  What the skip list needs of its comparison callback: the signs of a total preorder.
\<close>

locale comparator =
  fixes cmp :: "'v \<Rightarrow> 'v \<Rightarrow> int"
  assumes cmp_refl: "cmp x x = 0"
    and cmp_swap: "cmp x y < 0 \<longleftrightarrow> cmp y x > 0"
    and cmp_trans: "cmp x y < 0 \<Longrightarrow> cmp y z < 0 \<Longrightarrow> cmp x z < 0"
    and cmp_eq_less: "cmp x y = 0 \<Longrightarrow> cmp y z < 0 \<longleftrightarrow> cmp x z < 0"
begin

lemma eq_sym: "cmp x y = 0 \<Longrightarrow> cmp y x = 0"
  using cmp_swap [of x y] cmp_swap [of y x] by linarith

lemma eq_less2: "cmp x y = 0 \<Longrightarrow> cmp z x < 0 \<longleftrightarrow> cmp z y < 0"
  using cmp_eq_less [of x y z] cmp_swap [of z x] cmp_swap [of z y] cmp_swap [of x z]
    cmp_swap [of y z] cmp_eq_less [of y x z] eq_sym [of x y]
  by (metis cmp_swap linorder_neqE_linordered_idom eq_sym cmp_trans cmp_eq_less)

lemma less_irrefl: "\<not> cmp x x < 0"
  by (simp add: cmp_refl)

lemma insert_set_less: "y \<in> set (ol_insert cmp v xs) \<Longrightarrow> y = v \<or> y \<in> set xs"
  by (induction xs) (auto split: if_splits)

lemma insert_ordered: "ordered cmp xs \<Longrightarrow> ordered cmp (ol_insert cmp v xs)"
proof (induction xs)
  case Nil
  then show ?case by simp
next
  case (Cons x xs)
  consider "cmp x v < 0" | "cmp x v = 0" | "cmp x v > 0" by linarith
  then show ?case
  proof cases
    case 1
    with Cons show ?thesis by (auto dest: insert_set_less)
  next
    case 2
    have "cmp v y < 0" if "y \<in> set xs" for y
      using that Cons.prems 2 cmp_eq_less [OF eq_sym [OF 2]] by auto
    with 2 Cons.prems show ?thesis by simp
  next
    case 3
    then have vx: "cmp v x < 0" by (simp add: cmp_swap)
    then have "cmp v y < 0" if "y \<in> set xs" for y
      using that Cons.prems cmp_trans by (metis list.set_intros(2) sorted_wrt.simps(2))
    with 3 vx Cons.prems show ?thesis by simp
  qed
qed

lemma search_insert: "ordered cmp xs \<Longrightarrow> ol_search cmp v (ol_insert cmp v xs) = Some v"
  by (induction xs) (auto simp: cmp_refl)

lemma delete_set: "y \<in> set (ol_delete cmp v xs) \<Longrightarrow> y \<in> set xs"
  by (induction xs) (auto split: if_splits)

lemma delete_ordered: "ordered cmp xs \<Longrightarrow> ordered cmp (ol_delete cmp v xs)"
  by (induction xs) (auto dest: delete_set)

lemma search_None_less: "\<forall>y \<in> set xs. cmp v y < 0 \<Longrightarrow> ol_search cmp v xs = None"
proof (cases xs)
  case (Cons x r)
  moreover assume "\<forall>y \<in> set xs. cmp v y < 0"
  ultimately have "cmp x v > 0" by (simp add: cmp_swap)
  with Cons show ?thesis by simp
qed simp

lemma search_delete: "ordered cmp xs \<Longrightarrow> ol_search cmp v (ol_delete cmp v xs) = None"
proof (induction xs)
  case Nil
  then show ?case by simp
next
  case (Cons x xs)
  show ?case
  proof (cases "cmp x v = 0")
    case True
    then have "\<forall>y \<in> set xs. cmp v y < 0"
      using Cons.prems cmp_eq_less [OF eq_sym [OF True]] by auto
    with True show ?thesis by (simp add: search_None_less)
  next
    case False
    with Cons show ?thesis by auto
  qed
qed

lemma search_Some_iff:
  "ordered cmp xs \<Longrightarrow> ol_search cmp v xs = Some x \<longleftrightarrow> x \<in> set xs \<and> cmp x v = 0"
proof (induction xs)
  case Nil
  then show ?case by simp
next
  case (Cons y xs)
  have gt: "\<forall>z \<in> set xs. cmp y z < 0" using Cons.prems by simp
  consider "cmp y v < 0" | "cmp y v = 0" | "cmp y v > 0" by linarith
  then show ?case
  proof cases
    case 1
    with Cons show ?thesis by auto
  next
    case 2
    have "cmp z v \<noteq> 0" if "z \<in> set xs" for z
      using gt that cmp_eq_less [OF 2] cmp_swap [of v z] eq_sym [OF 2]
      by (metis cmp_eq_less eq_less2 eq_sym cmp_refl less_irrefl)
    with 2 show ?thesis by auto
  next
    case 3
    then have "cmp v y < 0" by (simp add: cmp_swap)
    then have "cmp v z < 0" if "z \<in> set xs" for z using gt that cmp_trans by blast
    then have "cmp z v \<noteq> 0" if "z \<in> set xs" for z
      using that eq_sym less_irrefl by fastforce
    with 3 show ?thesis by auto
  qed
qed

lemma set_delete:
  "ordered cmp xs \<Longrightarrow> set (ol_delete cmp v xs) = {x \<in> set xs. cmp x v \<noteq> 0}"
proof (induction xs)
  case Nil
  then show ?case by simp
next
  case (Cons y xs)
  have "cmp z v \<noteq> 0" if "cmp y v = 0 \<or> cmp y v > 0" "z \<in> set xs" for z
  proof -
    have "cmp v z < 0"
      using that Cons.prems cmp_trans [of v y z] cmp_swap [of v y] cmp_eq_less [of v y z] eq_sym
      by auto
    then show ?thesis using eq_sym less_irrefl by fastforce
  qed
  with Cons show ?case by (auto split: if_splits)
qed

lemma set_insert:
  "ordered cmp xs \<Longrightarrow> set (ol_insert cmp v xs) = insert v {x \<in> set xs. cmp x v \<noteq> 0}"
proof (induction xs)
  case Nil
  then show ?case by simp
next
  case (Cons y xs)
  have "cmp z v \<noteq> 0" if "cmp y v = 0 \<or> cmp y v > 0" "z \<in> set xs" for z
  proof -
    have "cmp v z < 0"
      using that Cons.prems cmp_trans [of v y z] cmp_swap [of v y] cmp_eq_less [of v y z] eq_sym
      by auto
    then show ?thesis using eq_sym less_irrefl by fastforce
  qed
  with Cons show ?case by (auto split: if_splits)
qed

lemma delete_member:
  assumes "ordered cmp (as @ x # bs)"
  shows "ol_delete cmp x (as @ x # bs) = as @ bs"
  using assms by (induction as) (auto simp: cmp_refl)

lemma ordered_distinct: "ordered cmp xs \<Longrightarrow> distinct xs"
  by (induction xs) (use less_irrefl in auto)

lemma insert_position:
  assumes "ordered cmp (as @ bs)" "\<forall>x \<in> set as. cmp x v < 0" "\<forall>x \<in> set bs. cmp v x < 0"
  shows "ol_insert cmp v (as @ bs) = as @ v # bs"
  using assms
proof (induction as)
  case Nil
  then show ?case
  proof (cases bs)
    case (Cons b r)
    with Nil have "cmp b v > 0" by (simp add: cmp_swap)
    with Cons show ?thesis by simp
  qed simp
qed auto

end

section \<open>The pointer structure\<close>

definition maxSkiplistLevel :: nat where
  "maxSkiplistLevel = 16"

type_synonym addr = nat

record 'v node =
  nvalue :: "'v option"
  forward :: "addr option list"

text \<open>
  \<open>coins\<close> stands for the generator \<open>sl.rand\<close>: the outcomes of the successive tests
  \<open>Float64() < 0.25\<close>, with the number of tests already made. Address 0 is the head.
\<close>

record 'v skiplist =
  level :: nat
  slen :: nat
  store :: "addr \<Rightarrow> 'v node option"
  next_addr :: addr
  coins :: "nat \<Rightarrow> bool"
  coin_pos :: nat

definition head_addr :: addr where
  "head_addr = 0"

definition NewSkipList :: "(nat \<Rightarrow> bool) \<Rightarrow> 'v skiplist" where
  "NewSkipList cs =
     \<lparr> level = 1, slen = 0,
       store = [head_addr \<mapsto> \<lparr> nvalue = None, forward = replicate maxSkiplistLevel None \<rparr>],
       next_addr = 1, coins = cs, coin_pos = 0 \<rparr>"

text \<open>\<open>RandomLevel\<close>: the level grows while the test succeeds and the maximum is not reached.\<close>

function random_level :: "(nat \<Rightarrow> bool) \<Rightarrow> nat \<Rightarrow> nat \<Rightarrow> nat \<times> nat" where
  "random_level cs pos lv =
     (if cs pos then
        (if lv < maxSkiplistLevel then random_level cs (Suc pos) (Suc lv) else (lv, Suc pos))
      else (lv, Suc pos))"
  by pat_completeness auto
termination
  by (relation "measure (\<lambda>(cs, pos, lv). maxSkiplistLevel - lv)") auto

declare random_level.simps [simp del]

text \<open>The pointer \<open>n.forward[i]\<close> and the update of it.\<close>

definition fwd :: "(addr \<Rightarrow> 'v node option) \<Rightarrow> nat \<Rightarrow> addr \<Rightarrow> addr option" where
  "fwd h i a =
     (case h a of None \<Rightarrow> None
      | Some nd \<Rightarrow> if i < length (forward nd) then forward nd ! i else None)"

definition val :: "(addr \<Rightarrow> 'v node option) \<Rightarrow> addr \<Rightarrow> 'v option" where
  "val h a = (case h a of None \<Rightarrow> None | Some nd \<Rightarrow> nvalue nd)"

definition set_fwd :: "(addr \<Rightarrow> 'v node option) \<Rightarrow> addr \<Rightarrow> nat \<Rightarrow> addr option \<Rightarrow> (addr \<Rightarrow> 'v node option)" where
  "set_fwd h a i p =
     (case h a of None \<Rightarrow> h | Some nd \<Rightarrow> h(a \<mapsto> nd\<lparr>forward := (forward nd)[i := p]\<rparr>))"

text \<open>
  The inner loop of every search: move right along level \<open>i\<close> while the next value is
  smaller. Following the pointers need not end in an arbitrary store.
\<close>

partial_function (option) advance ::
  "('v \<Rightarrow> 'v \<Rightarrow> int) \<Rightarrow> (addr \<Rightarrow> 'v node option) \<Rightarrow> nat \<Rightarrow> 'v \<Rightarrow> addr \<Rightarrow> addr option" where
  "advance cmp h i v cur =
     (case fwd h i cur of
        None \<Rightarrow> Some cur
      | Some nx \<Rightarrow>
          (case val h nx of
             None \<Rightarrow> Some cur
           | Some x \<Rightarrow> if cmp x v < 0 then advance cmp h i v nx else Some cur))"

text \<open>
  The outer loop, from the highest level down: the result lists \<open>update[0..level-1]\<close>.
\<close>

fun find_update ::
  "('v \<Rightarrow> 'v \<Rightarrow> int) \<Rightarrow> (addr \<Rightarrow> 'v node option) \<Rightarrow> 'v \<Rightarrow> nat \<Rightarrow> addr \<Rightarrow> addr list option" where
  "find_update cmp h v 0 cur = Some []"
| "find_update cmp h v (Suc i) cur =
     (case advance cmp h i v cur of
        None \<Rightarrow> None
      | Some c \<Rightarrow> map_option (\<lambda>us. us @ [c]) (find_update cmp h v i c))"

text \<open>The node at which all three operations look after the descent: \<open>current.forward[0]\<close>.\<close>

definition candidate :: "(addr \<Rightarrow> 'v node option) \<Rightarrow> addr list \<Rightarrow> addr option" where
  "candidate h upd = (case upd of [] \<Rightarrow> fwd h 0 head_addr | u # _ \<Rightarrow> fwd h 0 u)"

definition cand_match :: "('v \<Rightarrow> 'v \<Rightarrow> int) \<Rightarrow> (addr \<Rightarrow> 'v node option) \<Rightarrow> 'v \<Rightarrow> addr option \<Rightarrow> addr option" where
  "cand_match cmp h v c =
     (case c of None \<Rightarrow> None
      | Some a \<Rightarrow> (case val h a of None \<Rightarrow> None
                  | Some x \<Rightarrow> if cmp x v = 0 then Some a else None))"

fun link_levels :: "addr \<Rightarrow> addr list \<Rightarrow> nat \<Rightarrow> (addr \<Rightarrow> 'v node option) \<Rightarrow> (addr \<Rightarrow> 'v node option)" where
  "link_levels a upd 0 h = h"
| "link_levels a upd (Suc i) h =
     (let h1 = link_levels a upd i h;
          h2 = set_fwd h1 a i (fwd h1 i (upd ! i))
      in set_fwd h2 (upd ! i) i (Some a))"

definition extend_head :: "nat \<Rightarrow> (addr \<Rightarrow> 'v node option) \<Rightarrow> (addr \<Rightarrow> 'v node option)" where
  "extend_head n h =
     (case h head_addr of None \<Rightarrow> h
      | Some nd \<Rightarrow> h(head_addr \<mapsto> nd\<lparr>forward := forward nd @ replicate (n - length (forward nd)) None\<rparr>))"

definition sl_insert :: "('v \<Rightarrow> 'v \<Rightarrow> int) \<Rightarrow> 'v \<Rightarrow> 'v skiplist \<Rightarrow> 'v skiplist option" where
  "sl_insert cmp v sl =
     (case find_update cmp (store sl) v (level sl) head_addr of
        None \<Rightarrow> None
      | Some upd \<Rightarrow>
          (case cand_match cmp (store sl) v (candidate (store sl) upd) of
             Some a \<Rightarrow>
               Some (sl\<lparr>store := (store sl)(a \<mapsto> (the (store sl a))\<lparr>nvalue := Some v\<rparr>)\<rparr>)
           | None \<Rightarrow>
               (let (nl, pos) = random_level (coins sl) (coin_pos sl) 1;
                    upd' = upd @ replicate (nl - level sl) head_addr;
                    h0 = (if level sl < nl then extend_head nl (store sl) else store sl);
                    a = next_addr sl;
                    h1 = h0(a \<mapsto> \<lparr> nvalue = Some v, forward = replicate nl None \<rparr>)
                in Some (sl\<lparr>level := max (level sl) nl, slen := Suc (slen sl),
                            store := link_levels a upd' nl h1,
                            next_addr := Suc a, coin_pos := pos\<rparr>))))"

definition sl_search :: "('v \<Rightarrow> 'v \<Rightarrow> int) \<Rightarrow> 'v \<Rightarrow> 'v skiplist \<Rightarrow> 'v option option" where
  "sl_search cmp v sl =
     (case find_update cmp (store sl) v (level sl) head_addr of
        None \<Rightarrow> None
      | Some upd \<Rightarrow>
          Some (case cand_match cmp (store sl) v (candidate (store sl) upd) of
                  None \<Rightarrow> None | Some a \<Rightarrow> val (store sl) a))"

fun unlink_levels :: "addr \<Rightarrow> addr list \<Rightarrow> nat \<Rightarrow> (addr \<Rightarrow> 'v node option) \<Rightarrow> (addr \<Rightarrow> 'v node option)" where
  "unlink_levels a upd 0 h = h"
| "unlink_levels a upd (Suc i) h =
     (let h1 = unlink_levels a upd i h
      in if fwd h1 i (upd ! i) = Some a then set_fwd h1 (upd ! i) i (fwd h1 i a) else h1)"

fun shrink_level :: "(addr \<Rightarrow> 'v node option) \<Rightarrow> nat \<Rightarrow> nat" where
  "shrink_level h 0 = 0"
| "shrink_level h (Suc 0) = Suc 0"
| "shrink_level h (Suc (Suc i)) =
     (if fwd h (Suc i) head_addr = None then shrink_level h (Suc i) else Suc (Suc i))"

definition sl_delete :: "('v \<Rightarrow> 'v \<Rightarrow> int) \<Rightarrow> 'v \<Rightarrow> 'v skiplist \<Rightarrow> ('v skiplist \<times> bool) option" where
  "sl_delete cmp v sl =
     (case find_update cmp (store sl) v (level sl) head_addr of
        None \<Rightarrow> None
      | Some upd \<Rightarrow>
          (case cand_match cmp (store sl) v (candidate (store sl) upd) of
             None \<Rightarrow> Some (sl, False)
           | Some a \<Rightarrow>
               (let h = unlink_levels a upd (level sl) (store sl)
                in Some (sl\<lparr>store := h, level := shrink_level h (level sl), slen := slen sl - 1\<rparr>, True))))"

definition sl_contains :: "('v \<Rightarrow> 'v \<Rightarrow> int) \<Rightarrow> 'v \<Rightarrow> 'v skiplist \<Rightarrow> bool option" where
  "sl_contains cmp v sl = map_option (\<lambda>r. r \<noteq> None) (sl_search cmp v sl)"

definition sl_front :: "'v skiplist \<Rightarrow> 'v option" where
  "sl_front sl = (case fwd (store sl) 0 head_addr of None \<Rightarrow> None | Some a \<Rightarrow> val (store sl) a)"

definition sl_is_empty :: "'v skiplist \<Rightarrow> bool" where
  "sl_is_empty sl = (slen sl = 0)"

definition sl_clear :: "'v skiplist \<Rightarrow> 'v skiplist" where
  "sl_clear sl =
     sl\<lparr>level := 1, slen := 0,
        store := (store sl)(head_addr \<mapsto> \<lparr> nvalue = None, forward = replicate maxSkiplistLevel None \<rparr>)\<rparr>"

text \<open>An iterator is a pointer to the node it returns next; \<open>iter_next\<close> is \<open>Next\<close>.\<close>

definition iter_new :: "'v skiplist \<Rightarrow> addr option" where
  "iter_new sl = fwd (store sl) 0 head_addr"

definition iter_next :: "(addr \<Rightarrow> 'v node option) \<Rightarrow> addr option \<Rightarrow> ('v \<times> addr option) option" where
  "iter_next h it =
     (case it of None \<Rightarrow> None
      | Some a \<Rightarrow> (case val h a of None \<Rightarrow> None | Some x \<Rightarrow> Some (x, fwd h 0 a)))"

section \<open>Well-formedness and the abstraction\<close>

fun chain :: "(addr \<Rightarrow> addr option) \<Rightarrow> addr list \<Rightarrow> bool" where
  "chain f [] = True"
| "chain f [a] = (f a = None)"
| "chain f (a # b # r) = (f a = Some b \<and> chain f (b # r))"

definition ht :: "(addr \<Rightarrow> 'v node option) \<Rightarrow> addr \<Rightarrow> nat" where
  "ht h a = (case h a of None \<Rightarrow> 0 | Some nd \<Rightarrow> length (forward nd))"

definition valof :: "(addr \<Rightarrow> 'v node option) \<Rightarrow> addr \<Rightarrow> 'v" where
  "valof h a = the (val h a)"

definition heap_inv :: "('v \<Rightarrow> 'v \<Rightarrow> int) \<Rightarrow> (addr \<Rightarrow> 'v node option) \<Rightarrow> nat \<Rightarrow> addr list \<Rightarrow> bool" where
  "heap_inv cmp h lv ns \<longleftrightarrow>
     distinct (head_addr # ns) \<and>
     ht h head_addr = maxSkiplistLevel \<and>
     (\<forall>a \<in> set ns. val h a \<noteq> None \<and> 1 \<le> ht h a \<and> ht h a \<le> lv) \<and>
     ordered cmp (map (valof h) ns) \<and>
     (\<forall>i. chain (fwd h i) (head_addr # filter (\<lambda>a. i < ht h a) ns))"

definition sl_inv :: "('v \<Rightarrow> 'v \<Rightarrow> int) \<Rightarrow> 'v skiplist \<Rightarrow> addr list \<Rightarrow> bool" where
  "sl_inv cmp sl ns \<longleftrightarrow>
     heap_inv cmp (store sl) (level sl) ns \<and>
     1 \<le> level sl \<and> level sl \<le> maxSkiplistLevel \<and>
     slen sl = length ns \<and>
     (\<forall>a \<in> set (head_addr # ns). a < next_addr sl)"

text \<open>The values along level 0, by walking the list from the head.\<close>

fun walk :: "(addr \<Rightarrow> 'v node option) \<Rightarrow> nat \<Rightarrow> addr option \<Rightarrow> 'v list" where
  "walk h 0 it = []"
| "walk h (Suc n) it =
     (case iter_next h it of None \<Rightarrow> [] | Some (x, it') \<Rightarrow> x # walk h n it')"

definition items :: "'v skiplist \<Rightarrow> 'v list" where
  "items sl = walk (store sl) (slen sl) (iter_new sl)"

definition sl_ok :: "('v \<Rightarrow> 'v \<Rightarrow> int) \<Rightarrow> 'v skiplist \<Rightarrow> bool" where
  "sl_ok cmp sl \<longleftrightarrow> (\<exists>ns. sl_inv cmp sl ns)"

subsection \<open>Chains\<close>

lemma chain_suffix: "chain f (xs @ ys) \<Longrightarrow> chain f ys"
proof (induction xs rule: chain.induct [where ?a0.0 = f, case_names nil one cons])
  case (one f a)
  then show ?case by (cases ys) auto
qed auto

lemma chain_cong: "(\<And>a. a \<in> set xs \<Longrightarrow> f a = g a) \<Longrightarrow> chain f xs = chain g xs"
  by (induction f xs rule: chain.induct) auto

lemma chain_insert:
  "chain f (xs @ p # ys) \<Longrightarrow> g p = Some a \<Longrightarrow> g a = f p \<Longrightarrow>
     (\<And>b. b \<in> set (xs @ ys) \<Longrightarrow> g b = f b) \<Longrightarrow> chain g (xs @ p # a # ys)"
proof (induction xs)
  case Nil
  have "chain g ys = chain f ys" by (rule chain_cong) (use Nil in auto)
  with Nil show ?case by (cases ys) auto
next
  case (Cons x xs)
  then show ?case by (cases xs) auto
qed

lemma chain_delete:
  "chain f (xs @ p # a # ys) \<Longrightarrow> g p = f a \<Longrightarrow>
     (\<And>b. b \<in> set (xs @ ys) \<Longrightarrow> g b = f b) \<Longrightarrow> chain g (xs @ p # ys)"
proof (induction xs)
  case Nil
  have "chain g ys = chain f ys" by (rule chain_cong) (use Nil in auto)
  with Nil show ?case by (cases ys) auto
next
  case (Cons x xs)
  then show ?case by (cases xs) auto
qed

lemma advance_chain:
  "chain (fwd h i) (cur # L) \<Longrightarrow> \<forall>a \<in> set L. val h a \<noteq> None \<Longrightarrow>
     advance cmp h i v cur = Some (last (cur # takeWhile (\<lambda>a. cmp (valof h a) v < 0) L))"
proof (induction L arbitrary: cur)
  case Nil
  then show ?case by (simp add: advance.simps)
next
  case (Cons b L)
  then obtain x where x: "val h b = Some x" by auto
  have f: "fwd h i cur = Some b" using Cons.prems by simp
  show ?case
  proof (cases "cmp x v < 0")
    case True
    have "advance cmp h i v b = Some (last (b # takeWhile (\<lambda>a. cmp (valof h a) v < 0) L))"
      using Cons by auto
    with True f x show ?thesis by (subst advance.simps) (simp add: valof_def)
  next
    case False
    with f x show ?thesis by (subst advance.simps) (simp add: valof_def)
  qed
qed

definition pred_at :: "(addr \<Rightarrow> 'v node option) \<Rightarrow> addr list \<Rightarrow> nat \<Rightarrow> addr" where
  "pred_at h ps i = last (head_addr # filter (\<lambda>a. i < ht h a) ps)"

lemma advance_to_pred:
  assumes ch: "chain (fwd h i) (head_addr # filter (\<lambda>a. i < ht h a) (ps @ qs))"
    and vs: "\<forall>a \<in> set (ps @ qs). val h a \<noteq> None"
    and P: "\<forall>a \<in> set ps. cmp (valof h a) v < 0" and Q: "\<forall>a \<in> set qs. \<not> cmp (valof h a) v < 0"
    and cur: "cur = head_addr \<or> cur \<in> set ps \<and> i < ht h cur"
  shows "advance cmp h i v cur = Some (pred_at h ps i)"
proof -
  let ?F = "filter (\<lambda>a. i < ht h a)"
  let ?T = "takeWhile (\<lambda>a. cmp (valof h a) v < 0)"
  obtain xs ps' where split: "head_addr # ?F ps = xs @ cur # ?F ps'" and sub: "set ps' \<subseteq> set ps"
  proof (cases "cur = head_addr")
    case True
    then show ?thesis using that [of "[]" ps] by simp
  next
    case False
    then obtain p1 p2 where "ps = p1 @ cur # p2" using cur by (auto simp: in_set_conv_decomp)
    then show ?thesis using that [of "head_addr # ?F p1" p2] cur False by auto
  qed
  have "chain (fwd h i) (xs @ cur # ?F ps' @ ?F qs)"
    using ch split by (simp flip: append_Cons append_assoc)
  then have c: "chain (fwd h i) (cur # ?F ps' @ ?F qs)" by (rule chain_suffix)
  have "?T (?F ps' @ ?F qs) = ?F ps'"
  proof -
    have "?T (?F qs) = []" using Q by (cases "?F qs") (auto simp: filter_eq_Cons_iff)
    then show ?thesis using P sub by (subst takeWhile_append2) auto
  qed
  moreover have "\<forall>a \<in> set (?F ps' @ ?F qs). val h a \<noteq> None" using vs sub by auto
  ultimately have "advance cmp h i v cur = Some (last (cur # ?F ps'))"
    using advance_chain [OF c, of cmp v] by simp
  moreover have "last (cur # ?F ps') = pred_at h ps i"
    unfolding pred_at_def split by simp
  ultimately show ?thesis by simp
qed

lemma pred_at_cases: "pred_at h ps i = head_addr \<or> pred_at h ps i \<in> set ps \<and> i < ht h (pred_at h ps i)"
proof (cases "filter (\<lambda>a. i < ht h a) ps = []")
  case True
  then show ?thesis by (simp add: pred_at_def)
next
  case False
  then have "last (filter (\<lambda>a. i < ht h a) ps) \<in> set (filter (\<lambda>a. i < ht h a) ps)"
    by (rule last_in_set)
  with False show ?thesis by (simp add: pred_at_def)
qed

lemma heap_inv_chain: "heap_inv cmp h lv ns \<Longrightarrow> chain (fwd h i) (head_addr # filter (\<lambda>a. i < ht h a) ns)"
  by (simp add: heap_inv_def)

lemma heap_inv_vals: "heap_inv cmp h lv ns \<Longrightarrow> \<forall>a \<in> set ns. val h a \<noteq> None"
  by (auto simp: heap_inv_def)

lemma find_update_preds:
  assumes inv: "heap_inv cmp h lv (ps @ qs)"
    and P: "\<forall>a \<in> set ps. cmp (valof h a) v < 0" and Q: "\<forall>a \<in> set qs. \<not> cmp (valof h a) v < 0"
  shows "cur = head_addr \<or> cur \<in> set ps \<and> n \<le> ht h cur \<Longrightarrow>
     find_update cmp h v n cur = Some (map (pred_at h ps) [0..<n])"
proof (induction n arbitrary: cur)
  case 0
  then show ?case by simp
next
  case (Suc i)
  have cur: "cur = head_addr \<or> cur \<in> set ps \<and> i < ht h cur" using Suc.prems by auto
  have "advance cmp h i v cur = Some (pred_at h ps i)"
    by (rule advance_to_pred [where ps = ps and qs = qs])
      (rule heap_inv_chain [OF inv] heap_inv_vals [OF inv] P Q cur)+
  moreover have "find_update cmp h v i (pred_at h ps i) = Some (map (pred_at h ps) [0..<i])"
    by (rule Suc.IH) (use pred_at_cases [of h ps i] in auto)
  ultimately show ?case by simp
qed

subsection \<open>Effect of the pointer updates\<close>

lemma fwd_set_fwd:
  "fwd (set_fwd h a i p) j b = (if b = a \<and> j = i \<and> i < ht h a then p else fwd h j b)"
  by (auto simp: fwd_def set_fwd_def ht_def split: option.splits)

lemma val_set_fwd [simp]: "val (set_fwd h a i p) b = val h b"
  by (auto simp: val_def set_fwd_def split: option.splits)

lemma ht_set_fwd [simp]: "ht (set_fwd h a i p) b = ht h b"
  by (auto simp: ht_def set_fwd_def split: option.splits)

lemma valof_set_fwd [simp]: "valof (set_fwd h a i p) = valof h"
  by (simp add: valof_def fun_eq_iff)

lemma fwd_Some_ht: "fwd h i a = Some b \<Longrightarrow> i < ht h a"
  by (auto simp: fwd_def ht_def split: option.splits if_splits)

lemma fwd_beyond: "ht h a \<le> i \<Longrightarrow> fwd h i a = None"
  by (auto simp: fwd_def ht_def split: option.splits)

lemma link_levels_keep:
  "val (link_levels a upd n h) b = val h b" "ht (link_levels a upd n h) b = ht h b"
  by (induction n arbitrary: b) (simp_all add: Let_def)

lemma link_levels_fwd:
  "n \<le> ht h a \<Longrightarrow> (\<And>i. i < n \<Longrightarrow> i < ht h (upd ! i) \<and> upd ! i \<noteq> a) \<Longrightarrow>
     fwd (link_levels a upd n h) i b =
       (if i < n \<and> b = upd ! i then Some a
        else if i < n \<and> b = a then fwd h i (upd ! i) else fwd h i b)"
proof (induction n arbitrary: i b)
  case 0
  then show ?case by simp
next
  case (Suc n)
  then show ?case
    by (auto simp: Let_def fwd_set_fwd link_levels_keep less_Suc_eq)
qed

lemma unlink_levels_keep:
  "val (unlink_levels a upd n h) b = val h b" "ht (unlink_levels a upd n h) b = ht h b"
  by (induction n arbitrary: b) (simp_all add: Let_def)

lemma unlink_levels_fwd:
  "(\<And>i. i < n \<Longrightarrow> upd ! i \<noteq> a) \<Longrightarrow>
     fwd (unlink_levels a upd n h) i b =
       (if i < n \<and> b = upd ! i \<and> fwd h i b = Some a then fwd h i a else fwd h i b)"
proof (induction n arbitrary: i b)
  case 0
  then show ?case by simp
next
  case (Suc n)
  then show ?case
    by (auto simp: Let_def fwd_set_fwd unlink_levels_keep less_Suc_eq dest: fwd_Some_ht)
qed

lemma extend_head_id: "n \<le> ht h head_addr \<Longrightarrow> extend_head n h = h"
  by (auto simp: extend_head_def ht_def fun_eq_iff split: option.splits)

lemma random_level_bounds:
  "lv \<le> maxSkiplistLevel \<Longrightarrow>
     lv \<le> fst (random_level cs pos lv) \<and> fst (random_level cs pos lv) \<le> maxSkiplistLevel"
proof (induction cs pos lv rule: random_level.induct)
  case (1 cs pos lv)
  then show ?case by (subst (1 2) random_level.simps) fastforce
qed

subsection \<open>Splitting the nodes at a value\<close>

lemma ol_insert_append: "\<forall>x \<in> set as. cmp x v < 0 \<Longrightarrow> ol_insert cmp v (as @ bs) = as @ ol_insert cmp v bs"
  by (induction as) auto

lemma ol_search_append: "\<forall>x \<in> set as. cmp x v < 0 \<Longrightarrow> ol_search cmp v (as @ bs) = ol_search cmp v bs"
  by (induction as) auto

lemma ol_delete_append: "\<forall>x \<in> set as. cmp x v < 0 \<Longrightarrow> ol_delete cmp v (as @ bs) = as @ ol_delete cmp v bs"
  by (induction as) auto

lemma ordered_drop_ge:
  assumes "comparator cmp"
  shows "ordered cmp xs \<Longrightarrow> x \<in> set (dropWhile (\<lambda>x. cmp x v < 0) xs) \<Longrightarrow> \<not> cmp x v < 0"
proof (induction xs)
  case Nil
  then show ?case by simp
next
  case (Cons y ys)
  show ?case
  proof (cases "cmp y v < 0")
    case True
    with Cons show ?thesis by simp
  next
    case False
    then have "x = y \<or> cmp y x < 0" using Cons.prems by auto
    with False show ?thesis using comparator.cmp_trans [OF assms, of y x v] by blast
  qed
qed

lemma split_at_value:
  assumes c: "comparator cmp" and o: "ordered cmp (map (valof h) ns)"
  obtains ps qs where "ns = ps @ qs" "\<forall>a \<in> set ps. cmp (valof h a) v < 0"
    "\<forall>a \<in> set qs. \<not> cmp (valof h a) v < 0"
proof
  let ?P = "\<lambda>a. cmp (valof h a) v < 0"
  show "ns = takeWhile ?P ns @ dropWhile ?P ns" by simp
  show "\<forall>a \<in> set (takeWhile ?P ns). ?P a" by (blast dest: set_takeWhileD)
  show "\<forall>a \<in> set (dropWhile ?P ns). \<not> ?P a"
  proof
    fix a assume "a \<in> set (dropWhile ?P ns)"
    then have "valof h a \<in> set (dropWhile (\<lambda>x. cmp x v < 0) (map (valof h) ns))"
      by (simp add: dropWhile_map o_def)
    then show "\<not> ?P a" by (rule ordered_drop_ge [OF c o])
  qed
qed

lemma heap_inv_filter0: "heap_inv cmp h lv ns \<Longrightarrow> \<forall>a \<in> set ns. 0 < ht h a"
  by (auto simp: heap_inv_def)

lemma heap_inv_update:
  assumes "heap_inv cmp h lv (ps @ qs)" "\<forall>a \<in> set ps. cmp (valof h a) v < 0"
    "\<forall>a \<in> set qs. \<not> cmp (valof h a) v < 0"
  shows "find_update cmp h v lv head_addr = Some (map (pred_at h ps) [0..<lv])"
  using find_update_preds [OF assms, of head_addr lv] by simp

lemma pred_at_split: "\<exists>xs. head_addr # filter (\<lambda>a. i < ht h a) ps = xs @ [pred_at h ps i]"
  unfolding pred_at_def by (metis append_butlast_last_id list.distinct(1))

lemma chain_nth_last: "chain f (xs @ p # ys) \<Longrightarrow> f p = (case ys of [] \<Rightarrow> None | y # _ \<Rightarrow> Some y)"
  by (drule chain_suffix) (auto split: list.split)

lemma pred_at_fwd:
  assumes "heap_inv cmp h lv (ps @ qs)"
  shows "fwd h i (pred_at h ps i) =
    (case filter (\<lambda>a. i < ht h a) qs of [] \<Rightarrow> None | y # _ \<Rightarrow> Some y)"
proof -
  obtain xs where "head_addr # filter (\<lambda>a. i < ht h a) ps = xs @ [pred_at h ps i]"
    using pred_at_split by metis
  then have "head_addr # filter (\<lambda>a. i < ht h a) (ps @ qs)
      = xs @ pred_at h ps i # filter (\<lambda>a. i < ht h a) qs"
    by (metis append_Cons append_Nil append_assoc filter_append)
  with heap_inv_chain [OF assms, of i] have "chain (fwd h i) (xs @ pred_at h ps i # filter (\<lambda>a. i < ht h a) qs)"
    by (simp only:)
  then show ?thesis by (rule chain_nth_last)
qed

lemma candidate_pred:
  assumes "heap_inv cmp h lv (ps @ qs)" "1 \<le> lv"
  shows "candidate h (map (pred_at h ps) [0..<lv]) = (case qs of [] \<Rightarrow> None | y # _ \<Rightarrow> Some y)"
proof -
  have "filter (\<lambda>a. 0 < ht h a) qs = qs"
    using heap_inv_filter0 [OF assms(1)] by (auto simp: filter_id_conv)
  then show ?thesis using assms(2) pred_at_fwd [OF assms(1), of 0]
    by (cases lv) (simp_all add: candidate_def upt_conv_Cons del: upt_Suc)
qed

subsection \<open>Linking and unlinking a node preserve the invariant\<close>

lemma heap_inv_distinct: "heap_inv cmp h lv ns \<Longrightarrow> distinct (head_addr # filter (\<lambda>a. i < ht h a) ns)"
  by (auto simp: heap_inv_def)

lemma heap_inv_decomp:
  obtains xs where "head_addr # filter (\<lambda>a. i < ht h a) ps = xs @ [pred_at h ps i]"
    "\<And>qs. head_addr # filter (\<lambda>a. i < ht h a) (ps @ qs)
       = xs @ pred_at h ps i # filter (\<lambda>a. i < ht h a) qs"
proof -
  obtain xs where x: "head_addr # filter (\<lambda>a. i < ht h a) ps = xs @ [pred_at h ps i]"
    using pred_at_split by metis
  have "head_addr # filter (\<lambda>a. i < ht h a) (ps @ qs)
      = xs @ pred_at h ps i # filter (\<lambda>a. i < ht h a) qs" for qs
    using x by (metis append_Cons append_Nil append_assoc filter_append)
  with x that show ?thesis by blast
qed

lemma heap_inv_link:
  assumes inv: "heap_inv cmp h lv (ps @ qs)" and fresh: "a \<notin> set (head_addr # ps @ qs)"
    and nl: "1 \<le> nl"
    and vals: "\<And>b. val h2 b = (if b = a then Some v else val h b)"
    and hts: "\<And>b. ht h2 b = (if b = a then nl else ht h b)"
    and old: "\<And>i b. b \<noteq> a \<Longrightarrow> fwd h2 i b = (if i < nl \<and> b = pred_at h ps i then Some a else fwd h i b)"
    and new: "\<And>i. i < nl \<Longrightarrow> fwd h2 i a = fwd h i (pred_at h ps i)"
    and ord: "ordered cmp (map (valof h2) (ps @ a # qs))"
  shows "heap_inv cmp h2 (max lv nl) (ps @ a # qs)"
proof -
  have hta: "ht h2 a = nl" by (simp add: hts)
  have flt: "filter (\<lambda>b. i < ht h2 b) xs = filter (\<lambda>b. i < ht h b) xs" if "a \<notin> set xs" for i xs
    using that by (intro filter_cong) (auto simp: hts)
  have "chain (fwd h2 i) (head_addr # filter (\<lambda>b. i < ht h2 b) (ps @ a # qs))" for i
  proof -
    obtain xs where x: "head_addr # filter (\<lambda>a. i < ht h a) ps = xs @ [pred_at h ps i]"
      and xq: "head_addr # filter (\<lambda>a. i < ht h a) (ps @ qs)
         = xs @ pred_at h ps i # filter (\<lambda>a. i < ht h a) qs"
      using heap_inv_decomp by metis
    have c: "chain (fwd h i) (xs @ pred_at h ps i # filter (\<lambda>a. i < ht h a) qs)"
      using heap_inv_chain [OF inv, of i] by (simp only: xq)
    have d: "distinct (xs @ pred_at h ps i # filter (\<lambda>a. i < ht h a) qs)"
      using heap_inv_distinct [OF inv, of i] by (simp only: xq)
    have "set (xs @ pred_at h ps i # filter (\<lambda>a. i < ht h a) qs) \<subseteq> set (head_addr # ps @ qs)"
      unfolding xq [symmetric] by auto
    then have fr: "a \<notin> set (xs @ pred_at h ps i # filter (\<lambda>a. i < ht h a) qs)" using fresh by blast
    show ?thesis
    proof (cases "i < nl")
      case True
      have "head_addr # filter (\<lambda>b. i < ht h2 b) (ps @ a # qs)
          = (head_addr # filter (\<lambda>b. i < ht h b) ps) @ a # filter (\<lambda>b. i < ht h b) qs"
        using fresh True by (simp add: flt hta)
      also have "\<dots> = xs @ pred_at h ps i # a # filter (\<lambda>b. i < ht h b) qs" by (simp only: x) simp
      finally have e: "head_addr # filter (\<lambda>b. i < ht h2 b) (ps @ a # qs)
          = xs @ pred_at h ps i # a # filter (\<lambda>b. i < ht h b) qs" .
      show ?thesis unfolding e
      proof (rule chain_insert [OF c])
        show "fwd h2 i (pred_at h ps i) = Some a" using fr True by (auto simp: old)
        show "fwd h2 i a = fwd h i (pred_at h ps i)" using True by (rule new)
        fix b assume "b \<in> set (xs @ filter (\<lambda>a. i < ht h a) qs)"
        then show "fwd h2 i b = fwd h i b" using d fr by (subst old) auto
      qed
    next
      case False
      then have e: "head_addr # filter (\<lambda>b. i < ht h2 b) (ps @ a # qs)
          = head_addr # filter (\<lambda>b. i < ht h b) (ps @ qs)"
        using fresh by (simp add: flt hta)
      have "chain (fwd h2 i) (head_addr # filter (\<lambda>b. i < ht h b) (ps @ qs))
          = chain (fwd h i) (head_addr # filter (\<lambda>b. i < ht h b) (ps @ qs))"
        by (rule chain_cong, subst old) (use False fresh in auto)
      then show ?thesis unfolding e using heap_inv_chain [OF inv] by blast
    qed
  qed
  with inv fresh nl ord show ?thesis
    unfolding heap_inv_def by (auto simp: vals hts le_max_iff_disj)
qed

lemma heap_inv_unlink:
  assumes inv: "heap_inv cmp h lv (ps @ a # qs)"
    and vals: "\<And>b. val h2 b = val h b" and hts: "\<And>b. ht h2 b = ht h b"
    and fwds: "\<And>i b. fwd h2 i b =
      (if i < lv \<and> b = pred_at h ps i \<and> fwd h i b = Some a then fwd h i a else fwd h i b)"
  shows "heap_inv cmp h2 lv (ps @ qs)"
proof -
  have flt: "filter (\<lambda>b. i < ht h2 b) xs = filter (\<lambda>b. i < ht h b) xs" for i xs
    by (simp add: hts)
  have vo: "valof h2 = valof h" by (simp add: valof_def vals fun_eq_iff)
  have alv: "ht h a \<le> lv" using inv by (simp add: heap_inv_def)
  have "chain (fwd h2 i) (head_addr # filter (\<lambda>b. i < ht h b) (ps @ qs))" for i
  proof -
    obtain xs where xq: "\<And>qs. head_addr # filter (\<lambda>a. i < ht h a) (ps @ qs)
         = xs @ pred_at h ps i # filter (\<lambda>a. i < ht h a) qs"
      using heap_inv_decomp by metis
    let ?F = "filter (\<lambda>a. i < ht h a)"
    have c: "chain (fwd h i) (xs @ pred_at h ps i # ?F (a # qs))"
      using heap_inv_chain [OF inv, of i] by (simp only: xq)
    have d: "distinct (xs @ pred_at h ps i # ?F (a # qs))"
      using heap_inv_distinct [OF inv, of i] by (simp only: xq)
    show ?thesis
    proof (cases "i < ht h a")
      case True
      show ?thesis unfolding xq
      proof (rule chain_delete)
        show "chain (fwd h i) (xs @ pred_at h ps i # a # ?F qs)" using c True by simp
        then have "fwd h i (pred_at h ps i) = Some a" using chain_nth_last by fastforce
        then show "fwd h2 i (pred_at h ps i) = fwd h i a" using True alv by (simp add: fwds)
        fix b assume "b \<in> set (xs @ ?F qs)"
        then have "b \<noteq> pred_at h ps i" using d True by (auto simp: True)
        then show "fwd h2 i b = fwd h i b" by (simp add: fwds)
      qed
    next
      case False
      then have c': "chain (fwd h i) (xs @ pred_at h ps i # ?F qs)" using c by simp
      have "a \<notin> set qs" using inv by (auto simp: heap_inv_def)
      then have "a \<notin> set (?F qs)" by simp
      then have "fwd h i (pred_at h ps i) \<noteq> Some a"
        using chain_nth_last [OF c'] by (cases "?F qs") auto
      then have "fwd h2 i b = fwd h i b" for b by (auto simp: fwds)
      then have "fwd h2 i = fwd h i" by (rule ext)
      then show ?thesis unfolding xq using c' by simp
    qed
  qed
  with inv show ?thesis
    unfolding heap_inv_def by (simp add: vals hts vo sorted_wrt_append)
qed

lemma heap_inv_lower:
  assumes inv: "heap_inv cmp h lv ns" and none: "\<And>i. lv' \<le> i \<Longrightarrow> i < lv \<Longrightarrow> fwd h i head_addr = None"
  shows "heap_inv cmp h lv' ns"
proof -
  have "ht h a \<le> lv'" if a: "a \<in> set ns" for a
  proof (rule ccontr)
    assume big: "\<not> ht h a \<le> lv'"
    have "ht h a \<le> lv" using inv a by (simp add: heap_inv_def)
    with big none have n: "fwd h lv' head_addr = None" by simp
    obtain b r where "filter (\<lambda>a. lv' < ht h a) ns = b # r"
      using a big by (cases "filter (\<lambda>a. lv' < ht h a) ns") (auto simp: filter_empty_conv)
    with heap_inv_chain [OF inv, of lv'] n show False by simp
  qed
  with inv show ?thesis by (simp add: heap_inv_def)
qed

lemma shrink_level_bounds: "1 \<le> lv \<Longrightarrow> 1 \<le> shrink_level h lv \<and> shrink_level h lv \<le> lv"
  by (induction h lv rule: shrink_level.induct) auto

lemma shrink_level_none: "shrink_level h lv \<le> i \<Longrightarrow> i < lv \<Longrightarrow> fwd h i head_addr = None"
proof (induction h lv rule: shrink_level.induct)
  case (3 h i')
  then show ?case by (cases "i = Suc i'") (auto split: if_splits)
qed auto

section \<open>The operations refine the ordered-list operations\<close>

lemma sl_inv_heap: "sl_inv cmp sl ns \<Longrightarrow> heap_inv cmp (store sl) (level sl) ns"
  by (simp add: sl_inv_def)

lemma heap_inv_ordered: "heap_inv cmp h lv ns \<Longrightarrow> ordered cmp (map (valof h) ns)"
  by (simp add: heap_inv_def)

lemma sl_inv_split:
  assumes "comparator cmp" "sl_inv cmp sl ns"
  obtains ps qs where "ns = ps @ qs" "\<forall>a \<in> set ps. cmp (valof (store sl) a) v < 0"
    "\<forall>a \<in> set qs. \<not> cmp (valof (store sl) a) v < 0"
    "find_update cmp (store sl) v (level sl) head_addr = Some (map (pred_at (store sl) ps) [0..<level sl])"
    "candidate (store sl) (map (pred_at (store sl) ps) [0..<level sl]) = (case qs of [] \<Rightarrow> None | y # _ \<Rightarrow> Some y)"
proof -
  have inv: "heap_inv cmp (store sl) (level sl) ns" using assms(2) by (rule sl_inv_heap)
  obtain ps qs where s: "ns = ps @ qs" "\<forall>a \<in> set ps. cmp (valof (store sl) a) v < 0"
    "\<forall>a \<in> set qs. \<not> cmp (valof (store sl) a) v < 0"
    using split_at_value [OF assms(1) heap_inv_ordered [OF inv]] by metis
  with heap_inv_update [of cmp "store sl" "level sl" ps qs v] candidate_pred [of cmp "store sl" "level sl" ps qs]
    inv assms(2) that show ?thesis by (auto simp: sl_inv_def)
qed

lemma val_valof: "val h a \<noteq> None \<Longrightarrow> val h a = Some (valof h a)"
  by (auto simp: valof_def)

lemma sl_search_ok:
  assumes "comparator cmp" "sl_inv cmp sl ns"
  shows "sl_search cmp v sl = Some (ol_search cmp v (map (valof (store sl)) ns))"
proof -
  obtain ps qs where s: "ns = ps @ qs" "\<forall>a \<in> set ps. cmp (valof (store sl) a) v < 0"
    "\<forall>a \<in> set qs. \<not> cmp (valof (store sl) a) v < 0"
    and u: "find_update cmp (store sl) v (level sl) head_addr = Some (map (pred_at (store sl) ps) [0..<level sl])"
      "candidate (store sl) (map (pred_at (store sl) ps) [0..<level sl]) = (case qs of [] \<Rightarrow> None | y # _ \<Rightarrow> Some y)"
    using sl_inv_split [OF assms] by metis
  have vq: "val (store sl) a = Some (valof (store sl) a)" if "a \<in> set qs" for a
    using heap_inv_vals [OF sl_inv_heap [OF assms(2)]] that s(1) by (intro val_valof) auto
  have "ol_search cmp v (map (valof (store sl)) ns) = ol_search cmp v (map (valof (store sl)) qs)"
    using s by (simp add: ol_search_append)
  with s(3) u vq show ?thesis
    by (cases qs) (auto simp: sl_search_def cand_match_def)
qed

lemma sl_inv_replace:
  assumes c: "comparator cmp" and inv: "sl_inv cmp sl (ps @ q # qs)"
    and P: "\<forall>a \<in> set ps. cmp (valof (store sl) a) v < 0" and q: "cmp (valof (store sl) q) v = 0"
    and h2: "h2 = (store sl)(q \<mapsto> (the (store sl q))\<lparr>nvalue := Some v\<rparr>)"
  shows "sl_inv cmp (sl\<lparr>store := h2\<rparr>) (ps @ q # qs)"
    and "map (valof h2) (ps @ q # qs) = ol_insert cmp v (map (valof (store sl)) (ps @ q # qs))"
proof -
  let ?h = "store sl"
  have hi: "heap_inv cmp ?h (level sl) (ps @ q # qs)" using inv by (rule sl_inv_heap)
  then obtain nd where nd: "?h q = Some nd" by (auto simp: heap_inv_def val_def split: option.splits)
  have d: "q \<notin> set ps" "q \<notin> set qs" "q \<noteq> head_addr" using hi by (auto simp: heap_inv_def)
  have vo: "valof h2 b = (if b = q then v else valof ?h b)" for b
    by (auto simp: h2 valof_def val_def)
  have vl: "val h2 b = (if b = q then Some v else val ?h b)" for b
    by (auto simp: h2 val_def)
  have hts: "ht h2 = ht ?h" and fw: "fwd h2 = fwd ?h"
    by (auto simp: h2 ht_def fwd_def nd fun_eq_iff)
  have m: "map (valof h2) (ps @ q # qs) = map (valof ?h) ps @ v # map (valof ?h) qs"
    using d by (simp add: vo cong: map_cong)
  show e: "map (valof h2) (ps @ q # qs) = ol_insert cmp v (map (valof ?h) (ps @ q # qs))"
    unfolding m using P q by (simp add: ol_insert_append)
  have "ordered cmp (map (valof h2) (ps @ q # qs))"
    unfolding e by (rule comparator.insert_ordered [OF c heap_inv_ordered [OF hi]])
  then have "heap_inv cmp h2 (level sl) (ps @ q # qs)"
    using hi d unfolding heap_inv_def by (simp only: hts fw vl) auto
  with inv show "sl_inv cmp (sl\<lparr>store := h2\<rparr>) (ps @ q # qs)" by (simp add: sl_inv_def)
qed

lemma max_level_pos: "0 < maxSkiplistLevel"
  by (simp add: maxSkiplistLevel_def)

lemma ht_none: "h a = None \<Longrightarrow> ht h a = 0"
  by (simp add: ht_def)

lemma pred_at_high: "\<forall>a \<in> set ps. ht h a \<le> i \<Longrightarrow> pred_at h ps i = head_addr"
  by (simp add: pred_at_def filter_empty_conv[THEN iffD2] not_less)

lemma sl_inv_new_node:
  assumes c: "comparator cmp" and inv: "sl_inv cmp sl (ps @ qs)"
    and P: "\<forall>a \<in> set ps. cmp (valof (store sl) a) v < 0"
    and Q: "\<forall>a \<in> set qs. cmp (valof (store sl) a) v > 0"
    and nl: "1 \<le> nl" "nl \<le> maxSkiplistLevel"
    and upd: "upd' = map (pred_at (store sl) ps) [0..<level sl] @ replicate (nl - level sl) head_addr"
    and a: "a = next_addr sl"
    and h2: "h2 = link_levels a upd' nl ((store sl)(a \<mapsto> \<lparr>nvalue = Some v, forward = replicate nl None\<rparr>))"
  shows "heap_inv cmp h2 (max (level sl) nl) (ps @ a # qs)"
    and "map (valof h2) (ps @ a # qs) = ol_insert cmp v (map (valof (store sl)) (ps @ qs))"
proof -
  let ?h = "store sl" and ?lv = "level sl"
  let ?h1 = "?h(a \<mapsto> \<lparr>nvalue = Some v, forward = replicate nl None\<rparr>)"
  have hi: "heap_inv cmp ?h ?lv (ps @ qs)" using inv by (rule sl_inv_heap)
  have fresh: "a \<notin> set (head_addr # ps @ qs)" using inv a by (auto simp: sl_inv_def)
  have updn: "upd' ! i = pred_at ?h ps i" if "i < nl" for i
  proof (cases "i < ?lv")
    case True
    then show ?thesis by (simp add: upd nth_append)
  next
    case False
    have "\<forall>a \<in> set ps. ht ?h a \<le> ?lv" using hi by (auto simp: heap_inv_def)
    with False have "pred_at ?h ps i = head_addr" by (intro pred_at_high) fastforce
    with False that show ?thesis by (simp add: upd nth_append)
  qed
  have h1: "fwd ?h1 i b = (if b = a then None else fwd ?h i b)"
    "val ?h1 b = (if b = a then Some v else val ?h b)"
    "ht ?h1 b = (if b = a then nl else ht ?h b)" for i b
    by (auto simp: fwd_def val_def ht_def)
  have pr: "pred_at ?h ps i \<noteq> a \<and> i < ht ?h (pred_at ?h ps i)" if "i < nl" for i
    using pred_at_cases [of ?h ps i] that fresh nl hi by (auto simp: heap_inv_def)
  have fw: "fwd h2 i b = (if i < nl \<and> b = pred_at ?h ps i then Some a
      else if i < nl \<and> b = a then fwd ?h1 i (pred_at ?h ps i) else fwd ?h1 i b)" for i b
    unfolding h2 using pr by (subst link_levels_fwd) (auto simp: h1(3) updn)
  have vl: "val h2 b = (if b = a then Some v else val ?h b)" for b
    by (simp add: h2 link_levels_keep h1)
  have vo: "valof h2 b = (if b = a then v else valof ?h b)" for b
    by (simp add: valof_def vl)
  have m: "map (valof h2) (ps @ a # qs) = map (valof ?h) ps @ v # map (valof ?h) qs"
    using fresh by (simp add: vo cong: map_cong)
  show e: "map (valof h2) (ps @ a # qs) = ol_insert cmp v (map (valof ?h) (ps @ qs))"
    using ol_insert_append [of "map (valof ?h) ps" cmp v "map (valof ?h) qs"] m P Q by (cases qs) simp_all
  show "heap_inv cmp h2 (max ?lv nl) (ps @ a # qs)"
  proof (rule heap_inv_link [OF hi fresh nl(1) vl])
    show "ht h2 b = (if b = a then nl else ht ?h b)" for b
      by (simp add: h2 link_levels_keep h1)
    show "fwd h2 i b = (if i < nl \<and> b = pred_at ?h ps i then Some a else fwd ?h i b)" if "b \<noteq> a" for i b
      using that by (simp add: fw h1(1))
    show "fwd h2 i a = fwd ?h i (pred_at ?h ps i)" if "i < nl" for i
      using that pr by (auto simp: fw h1(1))
    show "ordered cmp (map (valof h2) (ps @ a # qs))"
      unfolding e by (rule comparator.insert_ordered [OF c heap_inv_ordered [OF hi]])
  qed
qed

lemma sl_insert_ok:
  assumes c: "comparator cmp" and inv: "sl_inv cmp sl ns"
  obtains sl' ns' where "sl_insert cmp v sl = Some sl'" "sl_inv cmp sl' ns'"
    "map (valof (store sl')) ns' = ol_insert cmp v (map (valof (store sl)) ns)"
proof -
  let ?h = "store sl" and ?lv = "level sl"
  obtain ps qs where s: "ns = ps @ qs" "\<forall>a \<in> set ps. cmp (valof ?h a) v < 0"
    "\<forall>a \<in> set qs. \<not> cmp (valof ?h a) v < 0"
    and u: "find_update cmp ?h v ?lv head_addr = Some (map (pred_at ?h ps) [0..<?lv])"
      "candidate ?h (map (pred_at ?h ps) [0..<?lv]) = (case qs of [] \<Rightarrow> None | y # _ \<Rightarrow> Some y)"
    using sl_inv_split [OF assms] by metis
  have hi: "heap_inv cmp ?h ?lv (ps @ qs)" using sl_inv_heap [OF inv] s(1) by simp
  have vq: "val ?h a = Some (valof ?h a)" if "a \<in> set qs" for a
    using heap_inv_vals [OF hi] that by (intro val_valof) auto
  show ?thesis
  proof (cases "\<exists>q qs'. qs = q # qs' \<and> cmp (valof ?h q) v = 0")
    case True
    then obtain q qs' where q: "qs = q # qs'" "cmp (valof ?h q) v = 0" by blast
    then have "sl_insert cmp v sl = Some (sl\<lparr>store := ?h(q \<mapsto> (the (?h q))\<lparr>nvalue := Some v\<rparr>)\<rparr>)"
      using u vq by (simp add: sl_insert_def cand_match_def)
    with sl_inv_replace [OF c inv [unfolded s(1) q(1)] s(2) q(2) refl] that s(1) q(1)
    show ?thesis by simp
  next
    case False
    then have nm: "cand_match cmp ?h v (case qs of [] \<Rightarrow> None | y # _ \<Rightarrow> Some y) = None"
      using vq by (cases qs) (auto simp: cand_match_def)
    have Q: "\<forall>a \<in> set qs. cmp (valof ?h a) v > 0"
    proof (cases qs)
      case (Cons q qs')
      with False s(3) have qv: "cmp (valof ?h q) v > 0" by force
      have "cmp (valof ?h b) v > 0" if "b \<in> set qs'" for b
      proof -
        have "cmp (valof ?h q) (valof ?h b) < 0"
          using heap_inv_ordered [OF hi] that Cons by (auto simp: sorted_wrt_append)
        then show ?thesis using qv comparator.cmp_swap [OF c] comparator.cmp_trans [OF c] by metis
      qed
      with Cons qv show ?thesis by simp
    qed simp
    obtain nl pos where rl: "random_level (coins sl) (coin_pos sl) 1 = (nl, pos)" by fastforce
    then have nl: "1 \<le> nl" "nl \<le> maxSkiplistLevel"
      using random_level_bounds [of 1 "coins sl" "coin_pos sl"] max_level_pos by auto
    have eh: "(if ?lv < nl then extend_head nl ?h else ?h) = ?h"
      using nl hi by (simp add: extend_head_id heap_inv_def)
    let ?upd = "map (pred_at ?h ps) [0..<?lv] @ replicate (nl - ?lv) head_addr"
    let ?a = "next_addr sl"
    let ?h2 = "link_levels ?a ?upd nl (?h(?a \<mapsto> \<lparr>nvalue = Some v, forward = replicate nl None\<rparr>))"
    let ?sl = "sl\<lparr>level := max ?lv nl, slen := Suc (slen sl), store := ?h2, next_addr := Suc ?a, coin_pos := pos\<rparr>"
    have r: "sl_insert cmp v sl = Some ?sl"
      using u nm rl by (simp add: sl_insert_def eh Let_def)
    note new = sl_inv_new_node [OF c inv [unfolded s(1)] s(2) Q nl refl refl refl]
    have "sl_inv cmp ?sl (ps @ ?a # qs)"
      using new(1) inv nl s(1) by (auto simp: sl_inv_def intro: less_SucI)
    then show ?thesis using that [OF r] new(2) s(1) by simp
  qed
qed

lemma sl_delete_ok:
  assumes c: "comparator cmp" and inv: "sl_inv cmp sl ns"
  obtains sl' ns' where "sl_delete cmp v sl = Some (sl', ol_contains cmp v (map (valof (store sl)) ns))"
    "sl_inv cmp sl' ns'"
    "map (valof (store sl')) ns' = ol_delete cmp v (map (valof (store sl)) ns)"
proof -
  let ?h = "store sl" and ?lv = "level sl"
  obtain ps qs where s: "ns = ps @ qs" "\<forall>a \<in> set ps. cmp (valof ?h a) v < 0"
    "\<forall>a \<in> set qs. \<not> cmp (valof ?h a) v < 0"
    and u: "find_update cmp ?h v ?lv head_addr = Some (map (pred_at ?h ps) [0..<?lv])"
      "candidate ?h (map (pred_at ?h ps) [0..<?lv]) = (case qs of [] \<Rightarrow> None | y # _ \<Rightarrow> Some y)"
    using sl_inv_split [OF assms] by metis
  have hi: "heap_inv cmp ?h ?lv (ps @ qs)" using sl_inv_heap [OF inv] s(1) by simp
  have vq: "val ?h a = Some (valof ?h a)" if "a \<in> set qs" for a
    using heap_inv_vals [OF hi] that by (intro val_valof) auto
  show ?thesis
  proof (cases "\<exists>q qs'. qs = q # qs' \<and> cmp (valof ?h q) v = 0")
    case True
    then obtain q qs' where q: "qs = q # qs'" "cmp (valof ?h q) v = 0" by blast
    let ?upd = "map (pred_at ?h ps) [0..<?lv]"
    let ?h2 = "unlink_levels q ?upd ?lv ?h"
    let ?sl = "sl\<lparr>store := ?h2, level := shrink_level ?h2 ?lv, slen := slen sl - 1\<rparr>"
    have ct: "ol_contains cmp v (map (valof ?h) ns)"
      using s q by (simp add: ol_contains_def ol_search_append)
    have r: "sl_delete cmp v sl = Some (?sl, ol_contains cmp v (map (valof ?h) ns))"
      using u q vq ct by (simp add: sl_delete_def cand_match_def Let_def)
    have pq: "pred_at ?h ps i \<noteq> q" for i
      using pred_at_cases [of ?h ps i] hi q(1) by (auto simp: heap_inv_def)
    have hi2: "heap_inv cmp ?h2 ?lv (ps @ qs')"
    proof (rule heap_inv_unlink [OF hi [unfolded q(1)] unlink_levels_keep])
      show "fwd ?h2 i b = (if i < ?lv \<and> b = pred_at ?h ps i \<and> fwd ?h i b = Some q
          then fwd ?h i q else fwd ?h i b)" for i b
        by (subst unlink_levels_fwd) (use pq in auto)
    qed
    have lv: "1 \<le> shrink_level ?h2 ?lv" "shrink_level ?h2 ?lv \<le> ?lv"
      using shrink_level_bounds [of ?lv ?h2] inv by (auto simp: sl_inv_def)
    have "heap_inv cmp ?h2 (shrink_level ?h2 ?lv) (ps @ qs')"
      by (rule heap_inv_lower [OF hi2 shrink_level_none])
    then have "sl_inv cmp ?sl (ps @ qs')"
      using inv lv s(1) q(1) by (auto simp: sl_inv_def)
    moreover have "map (valof ?h2) (ps @ qs') = ol_delete cmp v (map (valof ?h) ns)"
      using s q by (simp add: ol_delete_append valof_def unlink_levels_keep)
    ultimately show ?thesis using that [OF r] by simp
  next
    case False
    then have nm: "cand_match cmp ?h v (case qs of [] \<Rightarrow> None | y # _ \<Rightarrow> Some y) = None"
      using vq by (cases qs) (auto simp: cand_match_def)
    have q0: "ol_search cmp v (map (valof ?h) qs) = None" "ol_delete cmp v (map (valof ?h) qs) = map (valof ?h) qs"
      using s(3) False by (cases qs; simp)+
    have nc: "\<not> ol_contains cmp v (map (valof ?h) ns)"
      "ol_delete cmp v (map (valof ?h) ns) = map (valof ?h) ns"
      using s(1,2) q0 by (simp_all add: ol_contains_def ol_search_append ol_delete_append)
    with u nm have "sl_delete cmp v sl = Some (sl, ol_contains cmp v (map (valof ?h) ns))"
      by (simp add: sl_delete_def)
    then show ?thesis using that [of sl ns] inv nc(2) by simp
  qed
qed

subsection \<open>Walking the list\<close>

lemma walk_chain:
  "chain (fwd h 0) (a # L) \<Longrightarrow> \<forall>b \<in> set L. val h b \<noteq> None \<Longrightarrow>
     walk h (length L) (fwd h 0 a) = map (valof h) L"
proof (induction L arbitrary: a)
  case Nil
  then show ?case by simp
next
  case (Cons b L)
  then show ?case using val_valof [of h b] by (auto simp: iter_next_def valof_def)
qed

lemma heap_inv_level0: "heap_inv cmp h lv ns \<Longrightarrow> chain (fwd h 0) (head_addr # ns)"
  using heap_inv_chain [of cmp h lv ns 0] heap_inv_filter0 [of cmp h lv ns]
  by (simp add: filter_id_conv[THEN iffD2])

lemma items_nodes: "sl_inv cmp sl ns \<Longrightarrow> items sl = map (valof (store sl)) ns"
  unfolding items_def iter_new_def
  using walk_chain [OF heap_inv_level0 heap_inv_vals] by (auto simp: sl_inv_def)

lemma sl_inv_New: "sl_inv cmp (NewSkipList cs) []"
  by (auto simp: sl_inv_def heap_inv_def NewSkipList_def ht_def fwd_def maxSkiplistLevel_def head_addr_def)

lemma sl_front_ok: "sl_inv cmp sl ns \<Longrightarrow> sl_front sl = ol_front (items sl)"
proof -
  assume inv: "sl_inv cmp sl ns"
  then have "chain (fwd (store sl) 0) (head_addr # ns)" "\<forall>a \<in> set ns. val (store sl) a \<noteq> None"
    using sl_inv_heap heap_inv_level0 heap_inv_vals by blast+
  with items_nodes [OF inv] show ?thesis
    by (cases ns) (auto simp: sl_front_def ol_front_def valof_def)
qed

lemma sl_clear_ok: "sl_inv cmp sl ns \<Longrightarrow> sl_inv cmp (sl_clear sl) []"
  by (auto simp: sl_inv_def heap_inv_def sl_clear_def ht_def fwd_def maxSkiplistLevel_def)

text \<open>
  An iterator that has passed the first value stays valid when that value is deleted:
  it is the iterator of the list that remains.
\<close>

lemma iter_after_delete_front:
  assumes c: "comparator cmp" and inv: "sl_inv cmp sl ns"
    and it: "iter_next (store sl) (iter_new sl) = Some (x, it')"
    and del: "sl_delete cmp x sl = Some (sl', b)"
  shows "items sl' = walk (store sl) (slen sl - 1) it' \<and> b"
proof -
  have hi: "heap_inv cmp (store sl) (level sl) ns" using inv by (rule sl_inv_heap)
  from heap_inv_level0 [OF hi] it obtain a r where ns: "ns = a # r"
    by (cases ns) (auto simp: iter_new_def iter_next_def)
  have x: "x = valof (store sl) a" and it': "it' = fwd (store sl) 0 a"
    using it heap_inv_level0 [OF hi] heap_inv_vals [OF hi] ns
    by (auto simp: iter_new_def iter_next_def valof_def)
  obtain ns' where "sl_inv cmp sl' ns'" and b: "b = ol_contains cmp x (map (valof (store sl)) ns)"
    and m: "map (valof (store sl')) ns' = ol_delete cmp x (map (valof (store sl)) ns)"
    using sl_delete_ok [OF c inv, of x] del by (metis Pair_inject option.inject)
  then have "items sl' = map (valof (store sl)) r"
    using items_nodes comparator.cmp_refl [OF c] by (metis list.simps(9) ns ol_delete.simps(2) x
        less_irrefl)
  moreover have "walk (store sl) (length r) it' = map (valof (store sl)) r"
    unfolding it' by (rule walk_chain) (use heap_inv_level0 [OF hi] heap_inv_vals [OF hi] ns in auto)
  moreover have "b" using b ns x comparator.cmp_refl [OF c] by (simp add: ol_contains_def)
  ultimately show ?thesis using inv ns by (simp add: sl_inv_def)
qed

section \<open>The interface of an ordered store\<close>

text \<open>
  What the order book relies on: a store of values kept in the order of the comparison,
  whose operations return and act as on an ordered list.
\<close>

locale ordered_store = comparator cmp for cmp :: "'v \<Rightarrow> 'v \<Rightarrow> int" +
  fixes ok :: "'s \<Rightarrow> bool"
    and elems :: "'s \<Rightarrow> 'v list"
    and ins :: "'v \<Rightarrow> 's \<Rightarrow> 's option"
    and del :: "'v \<Rightarrow> 's \<Rightarrow> ('s \<times> bool) option"
    and find :: "'v \<Rightarrow> 's \<Rightarrow> 'v option option"
  assumes elems_ordered: "ok s \<Longrightarrow> ordered cmp (elems s)"
    and ins_spec: "ok s \<Longrightarrow> \<exists>s'. ins v s = Some s' \<and> ok s' \<and> elems s' = ol_insert cmp v (elems s)"
    and del_spec: "ok s \<Longrightarrow> \<exists>s'. del v s = Some (s', ol_contains cmp v (elems s)) \<and> ok s' \<and>
          elems s' = ol_delete cmp v (elems s)"
    and find_spec: "ok s \<Longrightarrow> find v s = Some (ol_search cmp v (elems s))"
begin

lemma ins_Some:
  "ok s \<Longrightarrow> ins v s = Some s' \<Longrightarrow> ok s' \<and> elems s' = ol_insert cmp v (elems s)"
  using ins_spec [of s v] by auto

lemma del_Some:
  "ok s \<Longrightarrow> del v s = Some (s', b) \<Longrightarrow>
     ok s' \<and> elems s' = ol_delete cmp v (elems s) \<and> b = ol_contains cmp v (elems s)"
  using del_spec [of s v] by auto

lemma find_ins: "ok s \<Longrightarrow> ins v s = Some s' \<Longrightarrow> ok s' \<and> find v s' = Some (Some v)"
  by (simp add: ins_Some find_spec search_insert elems_ordered)

lemma find_del: "ok s \<Longrightarrow> del v s = Some (s', b) \<Longrightarrow> ok s' \<and> find v s' = Some None"
  by (simp add: del_Some find_spec search_delete elems_ordered)

lemma set_ins:
  "ok s \<Longrightarrow> ins v s = Some s' \<Longrightarrow> set (elems s') = insert v {x \<in> set (elems s). cmp x v \<noteq> 0}"
  by (simp add: ins_Some set_insert elems_ordered)

lemma set_del:
  "ok s \<Longrightarrow> del v s = Some (s', b) \<Longrightarrow> set (elems s') = {x \<in> set (elems s). cmp x v \<noteq> 0}"
  by (simp add: del_Some set_delete elems_ordered)

lemma find_member: "ok s \<Longrightarrow> find v s = Some (Some x) \<longleftrightarrow> x \<in> set (elems s) \<and> cmp x v = 0"
  using find_spec search_Some_iff elems_ordered by simp

end

lemma skiplist_store:
  assumes "comparator cmp"
  shows "ordered_store cmp (sl_ok cmp) items (sl_insert cmp) (sl_delete cmp) (sl_search cmp)"
proof (intro ordered_store.intro ordered_store_axioms.intro assms)
  fix sl :: "'a skiplist" and v
  assume "sl_ok cmp sl"
  then obtain ns where inv: "sl_inv cmp sl ns" by (auto simp: sl_ok_def)
  note it = items_nodes [OF inv]
  show "ordered cmp (items sl)" unfolding it by (rule heap_inv_ordered [OF sl_inv_heap [OF inv]])
  show "\<exists>s'. sl_insert cmp v sl = Some s' \<and> sl_ok cmp s' \<and> items s' = ol_insert cmp v (items sl)"
    by (rule sl_insert_ok [OF assms inv, of v]) (auto simp: sl_ok_def it items_nodes)
  show "\<exists>s'. sl_delete cmp v sl = Some (s', ol_contains cmp v (items sl)) \<and> sl_ok cmp s' \<and>
      items s' = ol_delete cmp v (items sl)"
    by (rule sl_delete_ok [OF assms inv, of v]) (auto simp: sl_ok_def it items_nodes)
  show "sl_search cmp v sl = Some (ol_search cmp v (items sl))"
    unfolding it by (rule sl_search_ok [OF assms inv])
qed

lemma list_store:
  assumes "comparator cmp"
  shows "ordered_store cmp (ordered cmp) (\<lambda>xs. xs) (\<lambda>v xs. Some (ol_insert cmp v xs))
     (\<lambda>v xs. Some (ol_delete cmp v xs, ol_contains cmp v xs)) (\<lambda>v xs. Some (ol_search cmp v xs))"
  by (intro ordered_store.intro ordered_store_axioms.intro assms)
    (auto simp: comparator.insert_ordered [OF assms] comparator.delete_ordered [OF assms])

end
