(* ===== verification/Engine.thy ===== *)
theory Engine
  imports SkipList
begin

text \<open>
  Model of \<open>internal/matching/engine\<close>: \<open>types.go\<close>, \<open>trade_id.go\<close>, \<open>orderbook.go\<close>,
  \<open>matcher.go\<close> and the checks of \<open>snapshot.go\<close>. A side of the book is the list of its
  orders in the order of \<open>compareAsk\<close> or \<open>compareBid\<close>, the abstraction that
  theory \<open>SkipList\<close> justifies. \<open>time.Now()\<close> reads the clock that every
  operation threads through.
\<close>

section \<open>Types\<close>

text \<open>\<open>Side\<close> and \<open>OrderType\<close> are Go integers: the last constructor is any other value.\<close>

datatype side = SideBuy | SideSell | SideOther int

datatype order_type = OrderTypeLimit | OrderTypeMarket | OrderTypeOther int

record 'd order =
  o_OrderID :: uint64
  o_ClientOrderID :: string
  o_Symbol :: string
  o_CreateTime :: time
  o_UpdateTime :: time
  o_Side :: side
  o_Type :: order_type
  o_Price :: 'd
  o_Quantity :: 'd
  o_Remaining :: 'd
  o_Flags :: uint64

record 'd trade =
  t_TradeID :: uint64
  t_Symbol :: string
  t_CreateTime :: time
  t_Price :: 'd
  t_Quantity :: 'd
  t_MakerOrderID :: uint64
  t_TakerOrderID :: uint64

text \<open>\<open>DeriveTradeID\<close> hashes the three numbers, big endian, and clears the sign bit.\<close>

definition DeriveTradeID :: "uint64 \<Rightarrow> uint64 \<Rightarrow> uint64 \<Rightarrow> uint64" where
  "DeriveTradeID commandSeq makerOrderID takerOrderID =
     fnv64a (be_bytes 8 makerOrderID @ be_bytes 8 takerOrderID @ be_bytes 8 commandSeq)
       AND 0x7fffffffffffffff"

section \<open>The order book\<close>

record 'd order_book =
  b_Symbol :: string
  asks :: "'d order list"
  bids :: "'d order list"
  orderMap :: "uint64 \<rightharpoonup> 'd order"

definition NewOrderBook :: "string \<Rightarrow> 'd order_book" where
  "NewOrderBook symbol = \<lparr> b_Symbol = symbol, asks = [], bids = [], orderMap = Map.empty \<rparr>"

text \<open>\<open>Decimal.Cmp\<close>, \<open>Time.Compare\<close> and the comparison of order ids.\<close>

definition cmp_of :: "'a::linorder \<Rightarrow> 'a \<Rightarrow> int" where
  "cmp_of a b = (if a < b then -1 else if b < a then 1 else 0)"

definition compareAsk :: "'d::linorder order \<Rightarrow> 'd order \<Rightarrow> int" where
  "compareAsk ao bo =
     (if cmp_of (o_Price ao) (o_Price bo) \<noteq> 0 then cmp_of (o_Price ao) (o_Price bo)
      else if cmp_of (o_UpdateTime ao) (o_UpdateTime bo) \<noteq> 0
           then cmp_of (o_UpdateTime ao) (o_UpdateTime bo)
      else if o_OrderID ao \<noteq> o_OrderID bo
           then (if o_OrderID ao < o_OrderID bo then -1 else 1)
      else 0)"

definition compareBid :: "'d::linorder order \<Rightarrow> 'd order \<Rightarrow> int" where
  "compareBid ao bo =
     (if cmp_of (o_Price bo) (o_Price ao) \<noteq> 0 then cmp_of (o_Price bo) (o_Price ao)
      else if cmp_of (o_UpdateTime ao) (o_UpdateTime bo) \<noteq> 0
           then cmp_of (o_UpdateTime ao) (o_UpdateTime bo)
      else if o_OrderID ao \<noteq> o_OrderID bo
           then (if o_OrderID ao < o_OrderID bo then -1 else 1)
      else 0)"

text \<open>
  \<open>getSiteBook\<close> and \<open>oppositeBook\<close> return a pointer to one of the two lists: the model
  names which of them, and reads and writes the book through that name.
\<close>

datatype book_side = Asks | Bids

definition getSiteBook :: "side \<Rightarrow> book_side" where
  "getSiteBook s = (if s = SideBuy then Bids else Asks)"

definition oppositeBook :: "side \<Rightarrow> book_side" where
  "oppositeBook takerSide = (if takerSide = SideBuy then Asks else Bids)"

fun book_cmp :: "book_side \<Rightarrow> 'd::linorder order \<Rightarrow> 'd order \<Rightarrow> int" where
  "book_cmp Asks = compareAsk"
| "book_cmp Bids = compareBid"

fun book_list :: "book_side \<Rightarrow> 'd order_book \<Rightarrow> 'd order list" where
  "book_list Asks b = asks b"
| "book_list Bids b = bids b"

fun set_book_list :: "book_side \<Rightarrow> 'd order list \<Rightarrow> 'd order_book \<Rightarrow> 'd order_book" where
  "set_book_list Asks l b = b\<lparr>asks := l\<rparr>"
| "set_book_list Bids l b = b\<lparr>bids := l\<rparr>"

definition book_insert :: "book_side \<Rightarrow> 'd::linorder order \<Rightarrow> 'd order_book \<Rightarrow> 'd order_book" where
  "book_insert w v b = set_book_list w (ol_insert (book_cmp w) v (book_list w b)) b"

definition book_delete :: "book_side \<Rightarrow> 'd::linorder order \<Rightarrow> 'd order_book \<Rightarrow> 'd order_book" where
  "book_delete w v b = set_book_list w (ol_delete (book_cmp w) v (book_list w b)) b"

definition book_contains :: "book_side \<Rightarrow> 'd::linorder order \<Rightarrow> 'd order_book \<Rightarrow> bool" where
  "book_contains w v b = ol_contains (book_cmp w) v (book_list w b)"

definition BestAsk :: "'d order_book \<Rightarrow> 'd option" where
  "BestAsk b = map_option o_Price (ol_front (asks b))"

definition BestBid :: "'d order_book \<Rightarrow> 'd option" where
  "BestBid b = map_option o_Price (ol_front (bids b))"

definition map_put :: "uint64 \<Rightarrow> 'd order \<Rightarrow> 'd order_book \<Rightarrow> 'd order_book" where
  "map_put k v b = b\<lparr>orderMap := (orderMap b)(k \<mapsto> v)\<rparr>"

definition map_del :: "uint64 \<Rightarrow> 'd order_book \<Rightarrow> 'd order_book" where
  "map_del k b = b\<lparr>orderMap := (orderMap b)(k := None)\<rparr>"

text \<open>
  The stale-entry branch of the code deletes the key and sets it again at once: the
  model keeps both writes.
\<close>

definition InsertOrder :: "'d::linorder order \<Rightarrow> 'd order_book \<times> clock \<Rightarrow> 'd order_book \<times> clock" where
  "InsertOrder o0 bc =
     (let (b, clk) = bc;
          (od, clk') = (if o_UpdateTime o0 = 0
                        then (let (t, c) = now clk in (o0\<lparr>o_UpdateTime := t\<rparr>, c))
                        else (o0, clk));
          put = (\<lambda>b'. book_insert (getSiteBook (o_Side od)) od (map_put (o_OrderID od) od b'))
      in case orderMap b (o_OrderID od) of
           Some existing \<Rightarrow>
             if book_contains (getSiteBook (o_Side existing)) existing b then (b, clk')
             else (put (map_del (o_OrderID od) b), clk')
         | None \<Rightarrow> (put b, clk'))"

definition RemoveOrder :: "uint64 \<Rightarrow> 'd::linorder order_book \<Rightarrow> 'd order_book" where
  "RemoveOrder orderID b =
     (case orderMap b orderID of
        None \<Rightarrow> b
      | Some od \<Rightarrow> map_del orderID (book_delete (getSiteBook (o_Side od)) od b))"

definition findInBook :: "uint64 \<Rightarrow> 'd::linorder order_book \<Rightarrow> bool" where
  "findInBook orderID b =
     (case orderMap b orderID of
        None \<Rightarrow> False
      | Some od \<Rightarrow> book_contains (getSiteBook (o_Side od)) od b)"

definition FindOrder :: "uint64 \<Rightarrow> 'd order_book \<Rightarrow> 'd order option" where
  "FindOrder orderID b = orderMap b orderID"

definition HasActiveOrder :: "uint64 \<Rightarrow> 'd::linorder order_book \<Rightarrow> bool" where
  "HasActiveOrder orderID b = findInBook orderID b"

section \<open>The matcher\<close>

definition prepareTaker :: "'d::zero order \<Rightarrow> 'd order" where
  "prepareTaker od = (if o_Remaining od = 0 then od\<lparr>o_Remaining := o_Quantity od\<rparr> else od)"

definition stopMatch :: "'d::linorder order \<Rightarrow> 'd \<Rightarrow> bool" where
  "stopMatch taker makerPrice =
     (if o_Type taker = OrderTypeMarket then False
      else if o_Side taker = SideBuy then o_Price taker < makerPrice
      else makerPrice < o_Price taker)"

text \<open>One iteration of the loop of \<open>matchAgainstBook\<close>, after its two breaks.\<close>

definition consume_maker ::
  "book_side \<Rightarrow> 'd::linordered_idom order \<Rightarrow> 'd order_book \<times> clock \<Rightarrow> 'd order_book \<times> clock" where
  "consume_maker w maker bc =
     (let (b, clk) = bc
      in if o_Remaining maker = 0
         then (map_del (o_OrderID maker) (book_delete w maker b), clk)
         else (let b1 = book_delete w maker b;
                   (t, clk') = now clk;
                   maker' = maker\<lparr>o_UpdateTime := t\<rparr>
               in (map_put (o_OrderID maker') maker' (book_insert w maker' b1), clk')))"

definition match_step ::
  "book_side \<Rightarrow> uint64 \<Rightarrow> 'd::linordered_idom order \<Rightarrow> 'd order \<Rightarrow> 'd order_book \<times> clock \<Rightarrow>
     'd trade \<times> 'd order \<times> 'd order_book \<times> clock" where
  "match_step w commandSeq taker maker0 bc =
     (let matchQty = min (o_Remaining taker) (o_Remaining maker0);
          maker = maker0\<lparr>o_Remaining := o_Remaining maker0 - matchQty\<rparr>;
          (b1, clk1) = consume_maker w maker bc;
          (t, clk2) = now clk1;
          taker' = taker\<lparr>o_Remaining := o_Remaining taker - matchQty, o_UpdateTime := t\<rparr>
      in (\<lparr> t_TradeID = DeriveTradeID commandSeq (o_OrderID maker) (o_OrderID taker'),
            t_Symbol = o_Symbol taker',
            t_CreateTime = o_UpdateTime taker',
            t_Price = o_Price maker,
            t_Quantity = matchQty,
            t_MakerOrderID = o_OrderID maker,
            t_TakerOrderID = o_OrderID taker' \<rparr>, taker', b1, clk2))"

text \<open>
  \<open>iter\<close> lists the orders that the iterator still has to return. A maker re-inserted by
  an iteration is not added to it: such an iteration leaves the taker nothing, so the
  next one breaks (\<open>match_step_reinsert_done\<close> below).
\<close>

fun matchAgainstBook ::
  "book_side \<Rightarrow> uint64 \<Rightarrow> 'd::linordered_idom order list \<Rightarrow> 'd order \<Rightarrow> 'd order_book \<times> clock \<Rightarrow>
     'd trade list \<times> 'd order \<times> 'd order_book \<times> clock" where
  "matchAgainstBook w commandSeq [] taker bc = ([], taker, bc)"
| "matchAgainstBook w commandSeq (maker # iter) taker bc =
     (if o_Remaining taker = 0 then ([], taker, bc)
      else if stopMatch taker (o_Price maker) then ([], taker, bc)
      else (let (tr, taker1, bc1) = match_step w commandSeq taker maker bc;
                (trs, taker2, bc2) = matchAgainstBook w commandSeq iter taker1 bc1
            in (tr # trs, taker2, bc2)))"

definition matchOpposite ::
  "'d::linordered_idom order \<Rightarrow> uint64 \<Rightarrow> 'd order_book \<times> clock \<Rightarrow>
     'd trade list \<times> 'd order \<times> 'd order_book \<times> clock" where
  "matchOpposite taker commandSeq bc =
     matchAgainstBook (oppositeBook (o_Side taker)) commandSeq
       (book_list (oppositeBook (o_Side taker)) (fst bc)) taker bc"

definition matchLimit ::
  "'d::linordered_idom order \<Rightarrow> uint64 \<Rightarrow> 'd order_book \<times> clock \<Rightarrow>
     (err + 'd trade list) \<times> 'd order_book \<times> clock" where
  "matchLimit taker commandSeq bc =
     (let (trs, taker', bc') = matchOpposite taker commandSeq bc
      in (Inr trs, if 0 < o_Remaining taker' then InsertOrder taker' bc' else bc'))"

definition matchMarket ::
  "'d::linordered_idom order \<Rightarrow> uint64 \<Rightarrow> 'd order_book \<times> clock \<Rightarrow>
     (err + 'd trade list) \<times> 'd order_book \<times> clock" where
  "matchMarket taker commandSeq bc =
     (let (trs, _, bc') = matchOpposite taker commandSeq bc in (Inr trs, bc'))"

definition Match ::
  "'d::linordered_idom order \<Rightarrow> uint64 \<Rightarrow> 'd order_book \<times> clock \<Rightarrow>
     (err + 'd trade list) \<times> 'd order_book \<times> clock" where
  "Match taker0 commandSeq bc =
     (let taker = prepareTaker taker0
      in case o_Type taker of
           OrderTypeLimit \<Rightarrow> matchLimit taker commandSeq bc
         | OrderTypeMarket \<Rightarrow> matchMarket taker commandSeq bc
         | OrderTypeOther _ \<Rightarrow> (Inl (ErrMsg ''unsupported order type''), bc))"

section \<open>Checks on a book\<close>

definition Validate :: "'d::linorder order_book \<Rightarrow> err option" where
  "Validate b =
     (case (BestBid b, BestAsk b) of
        (Some bid, Some ask) \<Rightarrow> if \<not> bid < ask then Some ErrSpreadViolation else None
      | _ \<Rightarrow> None)"

definition ActiveOrderCount :: "'d order_book \<Rightarrow> nat" where
  "ActiveOrderCount b = length (bids b) + length (asks b)"

text \<open>
  The code collects the values of the map under their own ids. Every write of the map
  stores an order under its own id (\<open>map_put\<close>), so no entry is lost.
\<close>

definition ActiveOrders :: "'d order_book \<Rightarrow> (uint64 \<rightharpoonup> 'd order)" where
  "ActiveOrders b =
     (\<lambda>k. case orderMap b k of
           Some od \<Rightarrow> (if o_OrderID od = k then Some od else None)
         | None \<Rightarrow> None)"

section \<open>The comparisons\<close>

lemma cmp_of_simps [simp]:
  "cmp_of a b = 0 \<longleftrightarrow> a = b" "cmp_of a b < 0 \<longleftrightarrow> a < b" "0 < cmp_of a b \<longleftrightarrow> b < a"
  by (auto simp: cmp_of_def)

lemma compareAsk_sign:
  "compareAsk x y < 0 \<longleftrightarrow> o_Price x < o_Price y \<or> o_Price x = o_Price y \<and>
     (o_UpdateTime x < o_UpdateTime y \<or> o_UpdateTime x = o_UpdateTime y \<and> o_OrderID x < o_OrderID y)"
  "compareAsk x y = 0 \<longleftrightarrow>
     o_Price x = o_Price y \<and> o_UpdateTime x = o_UpdateTime y \<and> o_OrderID x = o_OrderID y"
  by (auto simp: compareAsk_def)

lemma compareBid_sign:
  "compareBid x y < 0 \<longleftrightarrow> o_Price y < o_Price x \<or> o_Price x = o_Price y \<and>
     (o_UpdateTime x < o_UpdateTime y \<or> o_UpdateTime x = o_UpdateTime y \<and> o_OrderID x < o_OrderID y)"
  "compareBid x y = 0 \<longleftrightarrow>
     o_Price x = o_Price y \<and> o_UpdateTime x = o_UpdateTime y \<and> o_OrderID x = o_OrderID y"
  by (auto simp: compareBid_def)

lemma compareAsk_pos: "0 < compareAsk x y \<longleftrightarrow> compareAsk y x < 0"
  by (auto simp: compareAsk_def)

lemma compareBid_pos: "0 < compareBid x y \<longleftrightarrow> compareBid y x < 0"
  by (auto simp: compareBid_def)

lemma comparator_ask: "comparator (compareAsk :: 'd::linorder order \<Rightarrow> _)"
  by unfold_locales (auto simp: compareAsk_pos compareAsk_sign)

lemma comparator_bid: "comparator (compareBid :: 'd::linorder order \<Rightarrow> _)"
  by unfold_locales (auto simp: compareBid_pos compareBid_sign)

interpretation bk: comparator "book_cmp w" for w
  by (cases w) (simp_all add: comparator_ask comparator_bid)

interpretation sl: ordered_store "book_cmp w" "sl_ok (book_cmp w)" items "sl_insert (book_cmp w)"
  "sl_delete (book_cmp w)" "sl_search (book_cmp w)" for w
  by (rule skiplist_store [OF bk.comparator_axioms])

interpretation ol: ordered_store "book_cmp w" "ordered (book_cmp w)" "\<lambda>xs. xs"
  "\<lambda>v xs. Some (ol_insert (book_cmp w) v xs)"
  "\<lambda>v xs. Some (ol_delete (book_cmp w) v xs, ol_contains (book_cmp w) v xs)"
  "\<lambda>v xs. Some (ol_search (book_cmp w) v xs)" for w
  by (rule list_store [OF bk.comparator_axioms])

text \<open>An order is found by its key: price, update time and id.\<close>

definition same_key :: "'d order \<Rightarrow> 'd order \<Rightarrow> bool" where
  "same_key x y \<longleftrightarrow>
     o_Price x = o_Price y \<and> o_UpdateTime x = o_UpdateTime y \<and> o_OrderID x = o_OrderID y"

lemma book_cmp_eq: "book_cmp w x y = 0 \<longleftrightarrow> same_key x y"
  by (cases w) (simp_all add: compareAsk_sign compareBid_sign same_key_def)

lemma same_key_fields [simp]: "same_key x (x\<lparr>o_Remaining := r\<rparr>)" "same_key x x"
  by (simp_all add: same_key_def)

section \<open>The book invariant\<close>

definition worse :: "book_side \<Rightarrow> 'd::linorder \<Rightarrow> 'd \<Rightarrow> bool" where
  "worse w p q = (case w of Asks \<Rightarrow> q < p | Bids \<Rightarrow> p < q)"

definition book_ok :: "'d::linordered_idom order_book \<Rightarrow> bool" where
  "book_ok b \<longleftrightarrow>
     (\<forall>w. ordered (book_cmp w) (book_list w b)) \<and>
     (\<forall>w. \<forall>x \<in> set (book_list w b). getSiteBook (o_Side x) = w \<and> 0 < o_Remaining x) \<and>
     (\<forall>k x. orderMap b k = Some x \<longleftrightarrow> o_OrderID x = k \<and> (\<exists>w. x \<in> set (book_list w b))) \<and>
     (\<forall>a \<in> set (asks b). \<forall>d \<in> set (bids b). o_Price d < o_Price a)"

fun other_side :: "book_side \<Rightarrow> book_side" where
  "other_side Asks = Bids"
| "other_side Bids = Asks"

lemma oppositeBook_other: "oppositeBook s = other_side (getSiteBook s)"
  by (simp add: oppositeBook_def getSiteBook_def)

lemma other_side_cases: "v = w \<or> v = other_side w"
  by (cases v; cases w) auto

lemma other_side_neq [simp]: "other_side w \<noteq> w" "w \<noteq> other_side w" "other_side (other_side w) = w"
  by (cases w; simp)+

lemma uncrossed_iff:
  "(\<forall>a \<in> set (asks b). \<forall>d \<in> set (bids b). o_Price d < o_Price a) \<longleftrightarrow>
     (\<forall>x \<in> set (book_list w b). \<forall>y \<in> set (book_list (other_side w) b). worse w (o_Price x) (o_Price y))"
  by (cases w) (auto simp: worse_def)

lemma book_list_set [simp]:
  "book_list w (set_book_list w l b) = l"
  "v \<noteq> w \<Longrightarrow> book_list v (set_book_list w l b) = book_list v b"
  "orderMap (set_book_list w l b) = orderMap b"
  "b_Symbol (set_book_list w l b) = b_Symbol b"
  by (cases w; cases v; simp)+

lemma book_list_map [simp]:
  "book_list w (map_put k v b) = book_list w b" "book_list w (map_del k b) = book_list w b"
  "orderMap (map_put k v b) = (orderMap b)(k \<mapsto> v)" "orderMap (map_del k b) = (orderMap b)(k := None)"
  "b_Symbol (map_put k v b) = b_Symbol b" "b_Symbol (map_del k b) = b_Symbol b"
  by (cases w; simp add: map_put_def map_del_def)+

lemma book_updates [simp]:
  "book_list w (book_insert w v b) = ol_insert (book_cmp w) v (book_list w b)"
  "u \<noteq> w \<Longrightarrow> book_list u (book_insert w v b) = book_list u b"
  "orderMap (book_insert w v b) = orderMap b"
  "b_Symbol (book_insert w v b) = b_Symbol b"
  "book_list w (book_delete w v b) = ol_delete (book_cmp w) v (book_list w b)"
  "u \<noteq> w \<Longrightarrow> book_list u (book_delete w v b) = book_list u b"
  "orderMap (book_delete w v b) = orderMap b"
  "b_Symbol (book_delete w v b) = b_Symbol b"
  by (simp_all add: book_insert_def book_delete_def)

lemma book_eqI:
  assumes "\<And>w. book_list w b = book_list w c" "orderMap b = orderMap c" "b_Symbol b = b_Symbol c"
  shows "b = c"
  using assms(1) [of Asks] assms(1) [of Bids] assms(2,3) by simp

lemma book_okD:
  assumes "book_ok b"
  shows "ordered (book_cmp w) (book_list w b)"
    and "x \<in> set (book_list w b) \<Longrightarrow> getSiteBook (o_Side x) = w"
    and "x \<in> set (book_list w b) \<Longrightarrow> 0 < o_Remaining x"
    and "orderMap b k = Some x \<longleftrightarrow> o_OrderID x = k \<and> (\<exists>w. x \<in> set (book_list w b))"
    and "x \<in> set (book_list w b) \<Longrightarrow> y \<in> set (book_list (other_side w) b) \<Longrightarrow> worse w (o_Price x) (o_Price y)"
  using assms uncrossed_iff [of b w] by (auto simp: book_ok_def)

lemma book_okI:
  assumes "\<And>w. ordered (book_cmp w) (book_list w b)"
    and "\<And>w x. x \<in> set (book_list w b) \<Longrightarrow> getSiteBook (o_Side x) = w \<and> 0 < o_Remaining x"
    and "\<And>k x. orderMap b k = Some x \<longleftrightarrow> o_OrderID x = k \<and> (\<exists>w. x \<in> set (book_list w b))"
    and "\<And>x y. x \<in> set (book_list w b) \<Longrightarrow> y \<in> set (book_list (other_side w) b) \<Longrightarrow> worse w (o_Price x) (o_Price y)"
  shows "book_ok b"
  unfolding book_ok_def using assms uncrossed_iff [of b w] by blast

lemma book_list_New [simp]: "book_list w (NewOrderBook s) = []"
  by (cases w) (simp_all add: NewOrderBook_def)

lemma book_ok_New: "book_ok (NewOrderBook s)"
  by (rule book_okI [where w = Asks]) (simp_all, simp add: NewOrderBook_def)

lemma book_ok_mapped: "book_ok b \<Longrightarrow> x \<in> set (book_list w b) \<Longrightarrow> orderMap b (o_OrderID x) = Some x"
  using book_okD(4) [of b "o_OrderID x" x] by blast

lemma book_ok_same_id:
  assumes "book_ok b" "x \<in> set (book_list w b)" "y \<in> set (book_list v b)" "o_OrderID x = o_OrderID y"
  shows "x = y \<and> w = v"
proof -
  have "x = y" using book_ok_mapped [OF assms(1)] assms(2,3,4) by (metis option.inject)
  then show ?thesis using book_okD(2) [OF assms(1)] assms(2,3) by blast
qed

lemma set_book_delete:
  assumes "book_ok b"
  shows "set (book_list v (book_delete w m b)) =
    (if v = w then {x \<in> set (book_list v b). \<not> same_key x m} else set (book_list v b))"
  using bk.set_delete [OF book_okD(1) [OF assms]] by (cases "v = w") (simp_all add: book_cmp_eq)

lemma set_book_insert:
  assumes "book_ok b"
  shows "set (book_list v (book_insert w m b)) =
    (if v = w then insert m {x \<in> set (book_list v b). \<not> same_key x m} else set (book_list v b))"
  using bk.set_insert [OF book_okD(1) [OF assms]] by (cases "v = w") (simp_all add: book_cmp_eq)

lemma set_book_insert_put:
  "book_list v (book_insert w m (map_put k x b)) = book_list v (book_insert w m b)"
  by (cases "v = w") simp_all

lemma book_ok_delete:
  assumes ok: "book_ok b" and m: "m \<in> set (book_list w b)" and k: "same_key m m'"
  shows "book_ok (map_del (o_OrderID m) (book_delete w m' b))"
proof (rule book_okI)
  let ?b = "map_del (o_OrderID m) (book_delete w m' b)"
  have gone: "x \<in> set (book_list v ?b) \<longleftrightarrow> x \<in> set (book_list v b) \<and> o_OrderID x \<noteq> o_OrderID m" for x v
    using book_ok_same_id [OF ok _ m] k by (auto simp: set_book_delete [OF ok] same_key_def)
  show "ordered (book_cmp v) (book_list v ?b)" for v
    using bk.delete_ordered book_okD(1) [OF ok] by (cases "v = w") auto
  show "getSiteBook (o_Side x) = v \<and> 0 < o_Remaining x" if "x \<in> set (book_list v ?b)" for v x
    using that book_okD(2,3) [OF ok] gone by blast
  show "orderMap ?b i = Some x \<longleftrightarrow> o_OrderID x = i \<and> (\<exists>v. x \<in> set (book_list v ?b))" for i x
    unfolding gone using book_okD(4) [OF ok] by auto
  show "worse w (o_Price x) (o_Price y)" if "x \<in> set (book_list w ?b)" "y \<in> set (book_list (other_side w) ?b)" for x y
    using that book_okD(5) [OF ok] gone by blast
qed

lemma book_ok_insert:
  assumes ok: "book_ok b" and new: "orderMap b (o_OrderID x) = None"
    and side: "getSiteBook (o_Side x) = w" and rem: "0 < o_Remaining x"
    and cross: "\<And>y. y \<in> set (book_list (other_side w) b) \<Longrightarrow> worse w (o_Price x) (o_Price y)"
  shows "book_ok (book_insert w x (map_put (o_OrderID x) x b))"
proof (rule book_okI)
  let ?b = "book_insert w x (map_put (o_OrderID x) x b)"
  have fresh: "o_OrderID y \<noteq> o_OrderID x" if "y \<in> set (book_list v b)" for y v
    using book_okD(4) [OF ok, of "o_OrderID x" y] new that by auto
  have mem: "y \<in> set (book_list v ?b) \<longleftrightarrow> (v = w \<and> y = x) \<or> y \<in> set (book_list v b)" for y v
    using fresh set_book_insert [OF ok, of v w x] by (auto simp: set_book_insert_put same_key_def)
  show "ordered (book_cmp v) (book_list v ?b)" for v
    using bk.insert_ordered book_okD(1) [OF ok] by (cases "v = w") auto
  show "getSiteBook (o_Side y) = v \<and> 0 < o_Remaining y" if "y \<in> set (book_list v ?b)" for v y
    using that book_okD(2,3) [OF ok] side rem by (auto simp: mem)
  show "orderMap ?b i = Some y \<longleftrightarrow> o_OrderID y = i \<and> (\<exists>v. y \<in> set (book_list v ?b))" for i y
    using book_okD(4) [OF ok] fresh by (auto simp: mem)
  show "worse w (o_Price y) (o_Price z)" if "y \<in> set (book_list w ?b)" "z \<in> set (book_list (other_side w) ?b)" for y z
    using that book_okD(5) [OF ok] cross unfolding mem by auto
qed

section \<open>One fill\<close>

definition liquidity :: "'d::linordered_idom order list \<Rightarrow> 'd" where
  "liquidity xs = sum_list (map o_Remaining xs)"

definition traded :: "'d::linordered_idom trade list \<Rightarrow> 'd" where
  "traded trs = sum_list (map t_Quantity trs)"

lemma liquidity_simps [simp]:
  "liquidity [] = 0" "liquidity (x # xs) = o_Remaining x + liquidity xs"
  by (simp_all add: liquidity_def)

lemma traded_simps [simp]:
  "traded [] = 0" "traded (t # ts) = t_Quantity t + traded ts"
  by (simp_all add: traded_def)

lemma liquidity_pos: "\<forall>x \<in> set xs. 0 < o_Remaining x \<Longrightarrow> 0 \<le> liquidity xs"
  by (induction xs) (auto simp: add_nonneg_nonneg less_imp_le)

lemma liquidity_insert:
  "\<forall>x \<in> set xs. cmp x v \<noteq> 0 \<Longrightarrow> liquidity (ol_insert cmp v xs) = o_Remaining v + liquidity xs"
  by (induction xs) (auto simp: algebra_simps)

lemma stopMatch_upd [simp]:
  "stopMatch (taker\<lparr>o_Remaining := r, o_UpdateTime := t\<rparr>) p = stopMatch taker p"
  by (simp add: stopMatch_def)

lemma delete_head:
  "book_list w b = m # iter \<Longrightarrow> same_key m m' \<Longrightarrow> book_list w (book_delete w m' b) = iter"
  by (simp add: book_cmp_eq [THEN iffD2])

lemma consume_maker_filled:
  assumes ok: "book_ok b" and m: "book_list w b = m # iter"
  shows "\<exists>b1. consume_maker w (m\<lparr>o_Remaining := 0\<rparr>) (b, clk) = (b1, clk) \<and> book_ok b1 \<and>
    book_list w b1 = iter \<and> book_list (other_side w) b1 = book_list (other_side w) b \<and>
    b_Symbol b1 = b_Symbol b"
  using book_ok_delete [OF ok, of m w "m\<lparr>o_Remaining := 0\<rparr>"] m delete_head [OF m, of "m\<lparr>o_Remaining := 0\<rparr>"]
  by (auto simp: consume_maker_def)

lemma consume_maker_partial:
  assumes ok: "book_ok b" and m: "book_list w b = m # iter" and r: "0 < r"
  shows "\<exists>b1. consume_maker w (m\<lparr>o_Remaining := r\<rparr>) (b, clk) = (b1, snd (now clk)) \<and> book_ok b1 \<and>
    book_list w b1 = ol_insert (book_cmp w) (m\<lparr>o_Remaining := r, o_UpdateTime := fst (now clk)\<rparr>) iter \<and>
    book_list (other_side w) b1 = book_list (other_side w) b \<and> b_Symbol b1 = b_Symbol b"
proof -
  let ?m = "m\<lparr>o_Remaining := r\<rparr>"
  let ?v = "m\<lparr>o_Remaining := r, o_UpdateTime := fst (now clk)\<rparr>"
  let ?d = "map_del (o_OrderID m) (book_delete w ?m b)"
  let ?b = "map_put (o_OrderID m) ?v (book_insert w ?v (book_delete w ?m b))"
  have mem: "m \<in> set (book_list w b)" using m by simp
  have okd: "book_ok ?d" by (rule book_ok_delete [OF ok mem]) simp
  have dl: "book_list w (book_delete w ?m b) = iter" by (rule delete_head [OF m]) simp
  have "?b = book_insert w ?v (map_put (o_OrderID ?v) ?v ?d)"
  proof (rule book_eqI)
    show "book_list v ?b = book_list v (book_insert w ?v (map_put (o_OrderID ?v) ?v ?d))" for v
      by (cases "v = w") simp_all
  qed simp_all
  moreover have "book_ok (book_insert w ?v (map_put (o_OrderID ?v) ?v ?d))"
    by (rule book_ok_insert [OF okd]) (use r book_okD(2,5) [OF ok mem] in auto)
  ultimately have "book_ok ?b" by simp
  moreover have "book_list w ?b = ol_insert (book_cmp w) ?v iter" using dl by simp
  moreover have "consume_maker w ?m (b, clk) = (?b, snd (now clk))"
    using r by (simp add: consume_maker_def split_beta Let_def)
  ultimately show ?thesis by simp
qed

text \<open>
  A maker that goes back to the book leaves the taker nothing: the iterator never
  reaches the re-inserted order.
\<close>

lemma match_step_reinsert_done:
  assumes "match_step w seq taker maker bc = (tr, taker', bc')"
    and "o_Remaining maker - min (o_Remaining taker) (o_Remaining maker) \<noteq> 0"
  shows "o_Remaining taker' = 0"
  using assms by (auto simp: match_step_def Let_def split_beta min_def split: if_splits)

lemma match_step_fields:
  assumes "match_step w seq taker maker bc = (tr, taker', bc')"
  shows "t_Quantity tr = min (o_Remaining taker) (o_Remaining maker)"
    and "t_Price tr = o_Price maker" and "t_MakerOrderID tr = o_OrderID maker"
    and "t_TakerOrderID tr = o_OrderID taker" and "t_Symbol tr = o_Symbol taker"
    and "t_TradeID tr = DeriveTradeID seq (o_OrderID maker) (o_OrderID taker)"
    and "\<exists>t. taker' = taker\<lparr>o_Remaining := o_Remaining taker - t_Quantity tr, o_UpdateTime := t\<rparr>"
  using assms by (auto simp: match_step_def Let_def split_beta)

lemma match_step_book:
  assumes ok: "book_ok b" and m: "book_list w b = m # iter" and pos: "0 < o_Remaining taker"
    and step: "match_step w seq taker m (b, clk) = (tr, taker', b1, clk1)"
  shows "book_ok b1" and "book_list (other_side w) b1 = book_list (other_side w) b"
    and "b_Symbol b1 = b_Symbol b"
    and "liquidity (book_list w b1) + t_Quantity tr = liquidity (book_list w b)"
    and "o_Remaining taker' = 0 \<or> book_list w b1 = iter"
proof -
  let ?q = "min (o_Remaining taker) (o_Remaining m)"
  have mpos: "0 < o_Remaining m" using book_okD(3) [OF ok, of m w] m by simp
  have q: "t_Quantity tr = ?q" using match_step_fields(1) [OF step] .
  have b1: "b1 = fst (consume_maker w (m\<lparr>o_Remaining := o_Remaining m - ?q\<rparr>) (b, clk))"
    using step by (auto simp: match_step_def Let_def split_beta)
  have t: "o_Remaining taker' = o_Remaining taker - ?q"
    using match_step_fields(7) [OF step] q by auto
  have "book_ok b1 \<and> book_list (other_side w) b1 = book_list (other_side w) b \<and> b_Symbol b1 = b_Symbol b \<and>
    liquidity (book_list w b1) + t_Quantity tr = liquidity (book_list w b) \<and>
    (o_Remaining taker' = 0 \<or> book_list w b1 = iter)"
  proof (cases "o_Remaining m \<le> o_Remaining taker")
    case True
    then have "?q = o_Remaining m" by simp
    with consume_maker_filled [OF ok m, of clk] b1 m q t show ?thesis by auto
  next
    case False
    then have qt: "?q = o_Remaining taker" and r: "0 < o_Remaining m - ?q" by (auto simp: min_def)
    have "\<forall>x \<in> set iter. o_OrderID x \<noteq> o_OrderID m"
      using book_ok_same_id [OF ok, of _ w m w] book_okD(1) [OF ok, of w] m bk.less_irrefl by fastforce
    then have f: "\<forall>x \<in> set iter. book_cmp w x
        (m\<lparr>o_Remaining := o_Remaining m - ?q, o_UpdateTime := fst (now clk)\<rparr>) \<noteq> 0"
      by (auto simp: book_cmp_eq same_key_def)
    from consume_maker_partial [OF ok m r, of clk] b1 m q t qt
      liquidity_insert [of iter "book_cmp w", OF f]
    show ?thesis by auto
  qed
  then show "book_ok b1" and "book_list (other_side w) b1 = book_list (other_side w) b"
    and "b_Symbol b1 = b_Symbol b"
    and "liquidity (book_list w b1) + t_Quantity tr = liquidity (book_list w b)"
    and "o_Remaining taker' = 0 \<or> book_list w b1 = iter" by auto
qed

section \<open>The loop\<close>

lemma loop_stops:
  "o_Remaining taker = 0 \<Longrightarrow> matchAgainstBook w seq iter taker bc = ([], taker, bc)"
  by (cases iter) simp_all

lemma loop_cases [consumes 1, case_names stop step]:
  assumes "matchAgainstBook w seq (m # iter) taker bc = (trs, taker', bc')"
  obtains (stop) "o_Remaining taker = 0 \<or> stopMatch taker (o_Price m)"
      "trs = []" "taker' = taker" "bc' = bc"
    | (step) tr taker1 bc1 trs1 where "o_Remaining taker \<noteq> 0" "\<not> stopMatch taker (o_Price m)"
      "match_step w seq taker m bc = (tr, taker1, bc1)"
      "matchAgainstBook w seq iter taker1 bc1 = (trs1, taker', bc')" "trs = tr # trs1"
proof (cases "o_Remaining taker = 0 \<or> stopMatch taker (o_Price m)")
  case True
  then have "trs = []" "taker' = taker" "bc' = bc" using assms by (auto split: if_splits)
  with True show ?thesis by (rule stop)
next
  case False
  obtain tr taker1 bc1 where s: "match_step w seq taker m bc = (tr, taker1, bc1)" by (metis prod_cases3)
  obtain trs1 taker2 bc2 where r: "matchAgainstBook w seq iter taker1 bc1 = (trs1, taker2, bc2)"
    by (metis prod_cases3)
  have "trs = tr # trs1" "taker2 = taker'" "bc2 = bc'" using assms False s r by auto
  with False s r show ?thesis by (intro step) auto
qed

lemma worse_stop:
  assumes "ordered (book_cmp (oppositeBook (o_Side taker))) (m # iter)"
    and "stopMatch taker (o_Price m)" and "x \<in> set iter"
  shows "stopMatch taker (o_Price x)"
  using assms
  by (cases "o_Side taker = SideBuy")
    (auto simp: stopMatch_def oppositeBook_def compareAsk_sign compareBid_sign dest!: bspec split: if_splits)

lemma matchAgainstBook_book:
  assumes "matchAgainstBook w seq iter taker (b, clk) = (trs, taker', b', clk')"
    and "book_ok b" and "book_list w b = iter" and "0 \<le> o_Remaining taker"
    and "w = oppositeBook (o_Side taker)"
  shows "book_ok b' \<and> book_list (other_side w) b' = book_list (other_side w) b \<and>
    b_Symbol b' = b_Symbol b \<and> liquidity (book_list w b') + traded trs = liquidity iter \<and>
    0 \<le> o_Remaining taker' \<and>
    (\<exists>t. taker' = taker\<lparr>o_Remaining := o_Remaining taker - traded trs, o_UpdateTime := t\<rparr>) \<and>
    (0 < o_Remaining taker' \<longrightarrow> (\<forall>m \<in> set (book_list w b'). stopMatch taker (o_Price m)))"
  using assms
proof (induction iter arbitrary: taker b clk trs taker' b' clk')
  case Nil
  then show ?case by (auto intro!: exI [of _ "o_UpdateTime taker"])
next
  case (Cons m iter)
  from Cons.prems(1) show ?case
  proof (cases rule: loop_cases)
    case stop
    have "\<forall>x \<in> set (m # iter). stopMatch taker (o_Price x)" if "stopMatch taker (o_Price m)"
      using that worse_stop [of taker m iter] book_okD(1) [OF Cons.prems(2)] Cons.prems(3,5)
      by (metis set_ConsD)
    moreover have "taker = taker\<lparr>o_Remaining := o_Remaining taker - traded trs, o_UpdateTime := o_UpdateTime taker\<rparr>"
      using stop by simp
    ultimately show ?thesis using stop Cons.prems(2-4) by (metis Pair_inject add_0_right
          less_irrefl traded_simps(1))
  next
    case (step tr taker1 bc1 trs1)
    then obtain b1 clk1 where step3: "match_step w seq taker m (b, clk) = (tr, taker1, b1, clk1)"
      and rest: "matchAgainstBook w seq iter taker1 (b1, clk1) = (trs1, taker', b', clk')"
      by (cases bc1) auto
    note step = step3 and trs = step(5)
    have pos: "0 < o_Remaining taker" using Cons.prems(4) \<open>o_Remaining taker \<noteq> 0\<close> by simp
    note st = match_step_book [OF Cons.prems(2,3) pos step]
    obtain t1 where t1: "taker1 = taker\<lparr>o_Remaining := o_Remaining taker - t_Quantity tr, o_UpdateTime := t1\<rparr>"
      using match_step_fields(7) [OF step] by blast
    have nn: "0 \<le> o_Remaining taker1" using t1 match_step_fields(1) [OF step] by simp
    show ?thesis
    proof (cases "o_Remaining taker1 = 0")
      case True
      then have "trs1 = []" "taker' = taker1" "b' = b1" using rest by (simp_all add: loop_stops)
      with st t1 trs True Cons.prems(3) show ?thesis by auto
    next
      case False
      then have l1: "book_list w b1 = iter" using st(5) by simp
      have "w = oppositeBook (o_Side taker1)" using Cons.prems(5) t1 by simp
      from Cons.IH [OF rest st(1) l1 nn this] show ?thesis
        using st t1 trs l1 Cons.prems(3) by (auto simp: algebra_simps)
    qed
  qed
qed

text \<open>
  Which makers trade, at what price and for how much: the acceptable makers in book
  order, each filled as far as the taker's quantity reaches.
\<close>

definition acceptable :: "'d::linordered_idom order \<Rightarrow> 'd order list \<Rightarrow> 'd order list" where
  "acceptable taker iter = takeWhile (\<lambda>m. \<not> stopMatch taker (o_Price m)) iter"

lemma acceptable_simps [simp]:
  "acceptable taker [] = []"
  "acceptable taker (m # iter) = (if stopMatch taker (o_Price m) then [] else m # acceptable taker iter)"
  "acceptable (taker\<lparr>o_Remaining := r, o_UpdateTime := t\<rparr>) = acceptable taker"
  by (simp_all add: acceptable_def fun_eq_iff)

lemma matchAgainstBook_trades:
  assumes "matchAgainstBook w seq iter taker bc = (trs, taker', bc')"
    and "\<forall>m \<in> set iter. 0 < o_Remaining m" and "0 \<le> o_Remaining taker"
  shows "length trs \<le> length (acceptable taker iter) \<and>
    (\<forall>i < length trs. t_MakerOrderID (trs ! i) = o_OrderID (acceptable taker iter ! i) \<and>
       t_Price (trs ! i) = o_Price (acceptable taker iter ! i) \<and>
       t_Quantity (trs ! i) = min (o_Remaining (acceptable taker iter ! i))
                                 (o_Remaining taker - liquidity (take i (acceptable taker iter))) \<and>
       0 < t_Quantity (trs ! i)) \<and>
    traded trs = min (o_Remaining taker) (liquidity (acceptable taker iter))"
  using assms
proof (induction iter arbitrary: taker bc trs taker' bc')
  case Nil
  then show ?case by simp
next
  case (Cons m iter)
  have mpos: "0 < o_Remaining m" and ipos: "\<forall>m \<in> set iter. 0 < o_Remaining m" using Cons.prems(2) by auto
  have apos: "0 \<le> liquidity (acceptable taker iter)"
    by (rule liquidity_pos) (use ipos in \<open>auto simp: acceptable_def dest: set_takeWhileD\<close>)
  from Cons.prems(1) show ?case
  proof (cases rule: loop_cases)
    case stop
    with Cons.prems apos mpos show ?thesis by (auto simp: min_def)
  next
    case (step tr taker1 bc1 trs1)
    note ns = step(2) and trs = step(5) and rest = step(4) and step = step(3)
    have pos: "0 < o_Remaining taker" using Cons.prems(3) \<open>o_Remaining taker \<noteq> 0\<close> by simp
    note f = match_step_fields [OF step]
    obtain t1 where t1: "taker1 = taker\<lparr>o_Remaining := o_Remaining taker - t_Quantity tr, o_UpdateTime := t1\<rparr>"
      using f(7) by blast
    have nn: "0 \<le> o_Remaining taker1" using t1 f(1) by simp
    have acc: "acceptable taker (m # iter) = m # acceptable taker iter" using ns by simp
    have q: "t_Quantity tr = min (o_Remaining taker) (o_Remaining m)" by (rule f(1))
    note ih = Cons.IH [OF rest ipos nn]
    have at: "acceptable taker1 iter = acceptable taker iter" by (simp add: t1)
    have tot: "traded trs = min (o_Remaining taker) (liquidity (acceptable taker (m # iter)))"
      using ih apos unfolding trs acc at by (auto simp: t1 q min_def split: if_splits)
    show ?thesis
    proof (cases "o_Remaining taker1 = 0")
      case True
      then have "trs1 = []" using rest by (simp add: loop_stops)
      with trs acc f pos mpos tot show ?thesis by (simp add: min.commute)
    next
      case False
      then have qm: "t_Quantity tr = o_Remaining m" using q t1 by (auto simp: min_def split: if_splits)
      let ?ms = "acceptable taker (m # iter)"
      have all: "t_MakerOrderID (trs ! i) = o_OrderID (?ms ! i) \<and> t_Price (trs ! i) = o_Price (?ms ! i) \<and>
          t_Quantity (trs ! i) = min (o_Remaining (?ms ! i)) (o_Remaining taker - liquidity (take i ?ms)) \<and>
          0 < t_Quantity (trs ! i)" if i: "i < length trs" for i
      proof (cases i)
        case 0
        with acc trs f(2,3) q pos mpos show ?thesis by (simp add: min.commute)
      next
        case (Suc j)
        then have "j < length trs1" using i trs by simp
        with ih have h: "t_MakerOrderID (trs1 ! j) = o_OrderID (acceptable taker iter ! j)"
          "t_Price (trs1 ! j) = o_Price (acceptable taker iter ! j)"
          "t_Quantity (trs1 ! j) = min (o_Remaining (acceptable taker iter ! j))
             (o_Remaining taker1 - liquidity (take j (acceptable taker iter)))"
          "0 < t_Quantity (trs1 ! j)" unfolding at by blast+
        have "o_Remaining taker1 - liquidity (take j (acceptable taker iter))
            = o_Remaining taker - liquidity (take i (m # acceptable taker iter))"
          by (simp add: t1 qm Suc algebra_simps)
        with h show ?thesis unfolding acc trs Suc by simp
      qed
      have "length trs \<le> length ?ms" using ih by (simp only: acc at trs) simp
      with all tot show ?thesis by blast
    qed
  qed
qed

section \<open>Insertion and removal\<close>

lemma book_contains_iff: "book_ok b \<Longrightarrow> book_contains w x b \<longleftrightarrow> (\<exists>y \<in> set (book_list w b). same_key y x)"
proof -
  assume ok: "book_ok b"
  have "book_contains w x b \<longleftrightarrow> (\<exists>y. ol_search (book_cmp w) x (book_list w b) = Some y)"
    by (simp add: book_contains_def ol_contains_def)
  then show ?thesis
    using bk.search_Some_iff [OF book_okD(1) [OF ok, of w], of x] by (auto simp: book_cmp_eq)
qed

lemma findInBook_iff: "book_ok b \<Longrightarrow> findInBook k b \<longleftrightarrow> orderMap b k \<noteq> None"
proof -
  assume ok: "book_ok b"
  have "book_contains (getSiteBook (o_Side x)) x b" if "orderMap b k = Some x" for x
    using that book_okD(2,4) [OF ok] book_contains_iff [OF ok] same_key_fields(2) by metis
  then show ?thesis by (auto simp: findInBook_def split: option.splits)
qed

text \<open>The order as it goes into the book, and the clock after that.\<close>

definition stamped :: "'d order \<Rightarrow> clock \<Rightarrow> 'd order" where
  "stamped od clk = (if o_UpdateTime od = 0 then od\<lparr>o_UpdateTime := fst (now clk)\<rparr> else od)"

definition stamp_clock :: "'d order \<Rightarrow> clock \<Rightarrow> clock" where
  "stamp_clock od clk = (if o_UpdateTime od = 0 then snd (now clk) else clk)"

lemma stamped_fields [simp]:
  "o_OrderID (stamped od clk) = o_OrderID od" "o_Side (stamped od clk) = o_Side od"
  "o_Price (stamped od clk) = o_Price od" "o_Remaining (stamped od clk) = o_Remaining od"
  by (simp_all add: stamped_def)

lemma InsertOrder_present:
  assumes "book_ok b" "orderMap b (o_OrderID od) = Some e"
  shows "InsertOrder od (b, clk) = (b, stamp_clock od clk)"
proof -
  have "findInBook (o_OrderID od) b" using findInBook_iff [OF assms(1)] assms(2) by simp
  then have c: "book_contains (getSiteBook (o_Side e)) e b" using assms(2) by (simp add: findInBook_def)
  show ?thesis
  proof (cases "o_UpdateTime od = 0")
    case True
    then show ?thesis using assms(2) c by (simp add: InsertOrder_def stamp_clock_def split_beta Let_def)
  next
    case False
    then show ?thesis using assms(2) c by (simp add: InsertOrder_def stamp_clock_def split_beta Let_def)
  qed
qed

lemma InsertOrder_fresh:
  assumes "orderMap b (o_OrderID od) = None"
  shows "InsertOrder od (b, clk) =
    (book_insert (getSiteBook (o_Side od)) (stamped od clk) (map_put (o_OrderID od) (stamped od clk) b),
     stamp_clock od clk)"
  using assms
  by (cases "o_UpdateTime od = 0") (simp_all add: InsertOrder_def stamped_def stamp_clock_def split_beta Let_def)

lemma InsertOrder_ok:
  assumes ok: "book_ok b" and rem: "0 < o_Remaining od"
    and cross: "\<And>y. y \<in> set (book_list (other_side (getSiteBook (o_Side od))) b) \<Longrightarrow>
        worse (getSiteBook (o_Side od)) (o_Price od) (o_Price y)"
  shows "book_ok (fst (InsertOrder od (b, clk)))"
proof (cases "orderMap b (o_OrderID od)")
  case None
  have "book_ok (book_insert (getSiteBook (o_Side od)) (stamped od clk)
      (map_put (o_OrderID (stamped od clk)) (stamped od clk) b))"
    by (rule book_ok_insert [OF ok]) (use None rem cross in simp_all)
  then show ?thesis by (simp add: InsertOrder_fresh [OF None])
next
  case (Some e)
  then show ?thesis using ok by (simp add: InsertOrder_present)
qed

lemma InsertOrder_symbol: "b_Symbol (fst (InsertOrder od (b, clk))) = b_Symbol b"
  by (cases "orderMap b (o_OrderID od)")
    (auto simp: InsertOrder_def split_beta Let_def split: option.splits)

lemma RemoveOrder_ok: "book_ok b \<Longrightarrow> book_ok (RemoveOrder k b)"
proof (cases "orderMap b k")
  case (Some x)
  assume ok: "book_ok b"
  then obtain w where m: "x \<in> set (book_list w b)" and k: "o_OrderID x = k"
    using book_okD(4) [OF ok, of k x] Some by blast
  have "getSiteBook (o_Side x) = w" by (rule book_okD(2) [OF ok m])
  with book_ok_delete [OF ok m same_key_fields(2)] Some k show ?thesis by (simp add: RemoveOrder_def)
qed (simp add: RemoveOrder_def)

lemma RemoveOrder_map: "orderMap (RemoveOrder k b) = (orderMap b)(k := None)"
  by (auto simp: RemoveOrder_def fun_eq_iff split: option.splits)

lemma RemoveOrder_lists:
  assumes ok: "book_ok b"
  shows "book_list w (RemoveOrder k b) = filter (\<lambda>x. o_OrderID x \<noteq> k) (book_list w b)"
proof (cases "orderMap b k")
  case None
  then have "\<forall>x \<in> set (book_list w b). o_OrderID x \<noteq> k" using book_okD(4) [OF ok, of k] by auto
  with None show ?thesis by (simp add: RemoveOrder_def)
next
  case (Some x)
  then obtain v where m: "x \<in> set (book_list v b)" and k: "o_OrderID x = k"
    using book_okD(4) [OF ok, of k x] by blast
  have v: "getSiteBook (o_Side x) = v" by (rule book_okD(2) [OF ok m])
  show ?thesis
  proof (cases "w = v")
    case True
    obtain as bs where l: "book_list v b = as @ x # bs" using m by (auto simp: in_set_conv_decomp)
    have o: "ordered (book_cmp v) (as @ x # bs)" using book_okD(1) [OF ok, of v] l by simp
    have "distinct (as @ x # bs)" by (rule bk.ordered_distinct [OF o])
    then have "\<forall>y \<in> set (as @ bs). o_OrderID y \<noteq> k"
      using book_ok_same_id [OF ok, of _ v x v] l k m by fastforce
    then have "filter (\<lambda>y. o_OrderID y \<noteq> k) (book_list v b) = as @ bs"
      using l k by (simp add: filter_id_conv)
    with True Some v l bk.delete_member [OF o] show ?thesis by (simp add: RemoveOrder_def)
  next
    case False
    then have "\<forall>y \<in> set (book_list w b). o_OrderID y \<noteq> k"
      using book_ok_same_id [OF ok _ m] k by auto
    with False Some v show ?thesis by (simp add: RemoveOrder_def)
  qed
qed

section \<open>A whole command\<close>

lemma prepareTaker_fields [simp]:
  "o_Side (prepareTaker od) = o_Side od" "o_Type (prepareTaker od) = o_Type od"
  "o_Price (prepareTaker od) = o_Price od" "o_OrderID (prepareTaker od) = o_OrderID od"
  "o_Symbol (prepareTaker od) = o_Symbol od"
  by (simp_all add: prepareTaker_def)

text \<open>The two ways a command that is accepted can end.\<close>

lemma Match_Inr:
  assumes "Match od seq (b, clk) = (Inr trs, b', clk')"
  obtains taker' b1 clk1 where
    "matchAgainstBook (oppositeBook (o_Side od)) seq (book_list (oppositeBook (o_Side od)) b)
       (prepareTaker od) (b, clk) = (trs, taker', b1, clk1)"
    "o_Type od = OrderTypeLimit \<and> 0 < o_Remaining taker' \<and> (b', clk') = InsertOrder taker' (b1, clk1)
     \<or> (o_Type od = OrderTypeLimit \<and> o_Remaining taker' \<le> 0 \<or> o_Type od = OrderTypeMarket) \<and>
        b' = b1 \<and> clk' = clk1"
proof -
  obtain trs1 taker' b1 clk1 where m: "matchAgainstBook (oppositeBook (o_Side od)) seq
      (book_list (oppositeBook (o_Side od)) b) (prepareTaker od) (b, clk) = (trs1, taker', b1, clk1)"
    by (metis prod_cases4)
  then have op: "matchOpposite (prepareTaker od) seq (b, clk) = (trs1, taker', b1, clk1)"
    by (simp add: matchOpposite_def)
  have "trs1 = trs" using assms op
    by (auto simp: Match_def matchLimit_def matchMarket_def Let_def split: order_type.splits)
  with m assms op that show ?thesis
    by (auto simp: Match_def matchLimit_def matchMarket_def Let_def split: order_type.splits if_splits)
qed

lemma Match_Inl: "Match od seq bc = (Inl e, bc') \<Longrightarrow> bc' = bc \<and> (\<exists>n. o_Type od = OrderTypeOther n)"
  by (auto simp: Match_def matchLimit_def matchMarket_def Let_def split: order_type.splits prod.splits)

lemma Match_ok:
  assumes ok: "book_ok b" and pos: "0 < o_Remaining (prepareTaker od)"
    and m: "Match od seq (b, clk) = (r, b', clk')"
  shows "book_ok b' \<and> b_Symbol b' = b_Symbol b"
proof (cases r)
  case (Inl e)
  with m Match_Inl ok show ?thesis by blast
next
  case (Inr trs)
  obtain taker' b1 clk1 where
    l: "matchAgainstBook (oppositeBook (o_Side od)) seq (book_list (oppositeBook (o_Side od)) b)
       (prepareTaker od) (b, clk) = (trs, taker', b1, clk1)"
    and e: "o_Type od = OrderTypeLimit \<and> 0 < o_Remaining taker' \<and> (b', clk') = InsertOrder taker' (b1, clk1)
     \<or> (o_Type od = OrderTypeLimit \<and> o_Remaining taker' \<le> 0 \<or> o_Type od = OrderTypeMarket) \<and>
        b' = b1 \<and> clk' = clk1"
    using Match_Inr [OF m [unfolded Inr]] by metis
  have w: "oppositeBook (o_Side od) = oppositeBook (o_Side (prepareTaker od))" by simp
  note lb = matchAgainstBook_book [OF l ok refl less_imp_le [OF pos] w]
  then obtain t where t: "taker' = (prepareTaker od)\<lparr>o_Remaining := o_Remaining (prepareTaker od) - traded trs, o_UpdateTime := t\<rparr>"
    by auto
  show ?thesis
  proof (cases "o_Type od = OrderTypeLimit \<and> 0 < o_Remaining taker'")
    case True
    then have bb: "(b', clk') = InsertOrder taker' (b1, clk1)" using e by auto
    have st: "\<forall>y \<in> set (book_list (oppositeBook (o_Side od)) b1). stopMatch (prepareTaker od) (o_Price y)"
      using lb True by simp
    have "book_ok (fst (InsertOrder taker' (b1, clk1)))"
    proof (rule InsertOrder_ok)
      fix y assume "y \<in> set (book_list (other_side (getSiteBook (o_Side taker'))) b1)"
      then have "stopMatch (prepareTaker od) (o_Price y)" using st t by (simp add: oppositeBook_other)
      then show "worse (getSiteBook (o_Side taker')) (o_Price taker') (o_Price y)"
        using True t by (auto simp: stopMatch_def worse_def getSiteBook_def split: if_splits)
    qed (use lb True in auto)
    moreover have "b_Symbol b1 = b_Symbol b" using lb by blast
    ultimately show ?thesis using bb InsertOrder_symbol [of taker' b1 clk1] by (metis fst_conv)
  next
    case False
    then have "b' = b1" using e by blast
    with lb show ?thesis by blast
  qed
qed

lemma Match_returns:
  "o_Type od = OrderTypeLimit \<or> o_Type od = OrderTypeMarket \<Longrightarrow>
     \<exists>trs b' clk'. Match od seq bc = (Inr trs, b', clk')"
  using Match_Inl [of od seq bc] by (cases "Match od seq bc"; cases "fst (Match od seq bc)") auto

text \<open>What is left of a trade when its time stamp is ignored.\<close>

definition untimed :: "'d trade \<Rightarrow> 'd trade" where
  "untimed tr = tr\<lparr>t_CreateTime := 0\<rparr>"

lemma match_step_replay:
  assumes "match_step w seq taker m bc = (tr, taker', bc')"
    and "match_step w seq (taker\<lparr>o_UpdateTime := u\<rparr>) m bc2 = (tr2, taker2', bc2')"
  shows "untimed tr2 = untimed tr \<and> (\<exists>v. taker2' = taker'\<lparr>o_UpdateTime := v\<rparr>)"
  using assms by (auto simp: match_step_def untimed_def Let_def split_beta)

lemma stopMatch_time [simp]: "stopMatch (taker\<lparr>o_UpdateTime := u\<rparr>) p = stopMatch taker p"
  by (simp add: stopMatch_def)

lemma matchAgainstBook_replay:
  "matchAgainstBook w seq iter taker bc = (trs, taker', bc') \<Longrightarrow>
   matchAgainstBook w seq iter (taker\<lparr>o_UpdateTime := u\<rparr>) bc2 = (trs2, taker2', bc2') \<Longrightarrow>
     map untimed trs2 = map untimed trs"
proof (induction iter arbitrary: taker bc trs taker' bc' u bc2 trs2 taker2' bc2')
  case Nil
  then show ?case by simp
next
  case (Cons m iter)
  from Cons.prems(1) show ?case
  proof (cases rule: loop_cases)
    case stop
    then have "o_Remaining (taker\<lparr>o_UpdateTime := u\<rparr>) = 0 \<or> stopMatch (taker\<lparr>o_UpdateTime := u\<rparr>) (o_Price m)"
      by simp
    with Cons.prems(2) stop show ?thesis by (auto split: if_splits)
  next
    case (step tr taker1 bc1 trs1)
    note s1 = step
    from Cons.prems(2) show ?thesis
    proof (cases rule: loop_cases)
      case stop
      with s1(1,2) show ?thesis by simp
    next
      case (step tr2 taker21 bc21 trs21)
      obtain v where v: "untimed tr2 = untimed tr" "taker21 = taker1\<lparr>o_UpdateTime := v\<rparr>"
        using match_step_replay [OF s1(3) step(3)] by blast
      with Cons.IH [OF s1(4)] step(4,5) s1(5) show ?thesis by auto
    qed
  qed
qed

lemma partial_fill_position:
  assumes "ordered (book_cmp w) (m # iter)"
    and "\<And>x. x \<in> set iter \<Longrightarrow> o_Price x = o_Price m \<Longrightarrow> o_UpdateTime x < o_UpdateTime m'"
    and "o_Price m' = o_Price m"
  shows "ol_insert (book_cmp w) m' iter =
    takeWhile (\<lambda>x. o_Price x = o_Price m) iter @ m' # dropWhile (\<lambda>x. o_Price x = o_Price m) iter"
  using assms(1,2)
proof (induction iter)
  case Nil
  then show ?case by simp
next
  case (Cons x iter)
  have mx: "book_cmp w m x < 0" and o: "ordered (book_cmp w) (m # iter)" using Cons.prems(1) by auto
  show ?case
  proof (cases "o_Price x = o_Price m")
    case True
    then have "o_UpdateTime x < o_UpdateTime m'" using Cons.prems(2) by simp
    then have "book_cmp w x m' < 0" using True assms(3) by (cases w) (simp_all add: compareAsk_sign compareBid_sign)
    with True Cons o show ?thesis by simp
  next
    case False
    then have "book_cmp w m' x < 0" using mx assms(3)
      by (cases w) (auto simp: compareAsk_sign compareBid_sign)
    then have "\<not> book_cmp w x m' < 0" "book_cmp w x m' \<noteq> 0"
      using bk.cmp_swap [of w m' x] by auto
    with False show ?thesis by simp
  qed
qed

lemma match_step_ids:
  assumes "match_step w seq taker m (b, clk) = (tr, taker', b1, clk1)" "orderMap b1 k \<noteq> None"
  shows "orderMap b k \<noteq> None \<or> k = o_OrderID m"
  using assms
  by (auto simp: match_step_def consume_maker_def Let_def split_beta split: if_splits)

lemma matchAgainstBook_ids:
  "matchAgainstBook w seq iter taker (b, clk) = (trs, taker', b', clk') \<Longrightarrow>
     orderMap b' k \<noteq> None \<Longrightarrow> orderMap b k \<noteq> None \<or> k \<in> o_OrderID ` set iter"
proof (induction iter arbitrary: taker b clk trs)
  case Nil
  then show ?case by simp
next
  case (Cons m iter)
  from Cons.prems(1) show ?case
  proof (cases rule: loop_cases)
    case stop
    with Cons.prems(2) show ?thesis by simp
  next
    case (step tr taker1 bc1 trs1)
    then obtain b1 clk1 where s: "match_step w seq taker m (b, clk) = (tr, taker1, b1, clk1)"
      and r: "matchAgainstBook w seq iter taker1 (b1, clk1) = (trs1, taker', b', clk')"
      by (cases bc1) auto
    show ?thesis using Cons.IH [OF r Cons.prems(2)] match_step_ids [OF s, of k] by auto
  qed
qed

lemma liquidity_insert_fresh:
  assumes ok: "book_ok b" and new: "orderMap b (o_OrderID x) = None"
  shows "liquidity (ol_insert (book_cmp w) x (book_list w b)) = o_Remaining x + liquidity (book_list w b)"
proof (rule liquidity_insert)
  have "o_OrderID y \<noteq> o_OrderID x" if "y \<in> set (book_list w b)" for y
    using book_ok_mapped [OF ok that] new by auto
  then show "\<forall>y \<in> set (book_list w b). book_cmp w y x \<noteq> 0" by (auto simp: book_cmp_eq same_key_def)
qed

text \<open>The book that a command on a fresh id leaves, side by side.\<close>

lemma Match_sides:
  assumes ok: "book_ok b" and pos: "0 < o_Remaining (prepareTaker od)"
    and m: "Match od seq (b, clk) = (Inr trs, b', clk')" and new: "orderMap b (o_OrderID od) = None"
  shows "liquidity (book_list (oppositeBook (o_Side od)) b') + traded trs
       = liquidity (book_list (oppositeBook (o_Side od)) b)"
    and "o_Type od = OrderTypeMarket \<Longrightarrow>
       book_list (getSiteBook (o_Side od)) b' = book_list (getSiteBook (o_Side od)) b"
    and "o_Type od = OrderTypeLimit \<Longrightarrow>
       traded trs = o_Remaining (prepareTaker od) \<Longrightarrow>
       book_list (getSiteBook (o_Side od)) b' = book_list (getSiteBook (o_Side od)) b"
    and "o_Type od = OrderTypeLimit \<Longrightarrow>
       traded trs \<noteq> o_Remaining (prepareTaker od) \<Longrightarrow>
       \<exists>rest. o_OrderID rest = o_OrderID od \<and> o_Price rest = o_Price od \<and>
         o_Remaining rest = o_Remaining (prepareTaker od) - traded trs \<and>
         book_list (getSiteBook (o_Side od)) b' =
           ol_insert (book_cmp (getSiteBook (o_Side od))) rest (book_list (getSiteBook (o_Side od)) b)"
proof -
  let ?w = "oppositeBook (o_Side od)" and ?v = "getSiteBook (o_Side od)"
  have vw: "?v = other_side ?w" "?w \<noteq> ?v" by (simp_all add: oppositeBook_other)
  obtain taker' b1 clk1 where
    l: "matchAgainstBook ?w seq (book_list ?w b) (prepareTaker od) (b, clk) = (trs, taker', b1, clk1)"
    and e: "o_Type od = OrderTypeLimit \<and> 0 < o_Remaining taker' \<and> (b', clk') = InsertOrder taker' (b1, clk1)
     \<or> (o_Type od = OrderTypeLimit \<and> o_Remaining taker' \<le> 0 \<or> o_Type od = OrderTypeMarket) \<and>
        b' = b1 \<and> clk' = clk1"
    using Match_Inr [OF m] by metis
  have w: "?w = oppositeBook (o_Side (prepareTaker od))" by simp
  note lb = matchAgainstBook_book [OF l ok refl less_imp_le [OF pos] w]
  then obtain t where t: "taker' = (prepareTaker od)\<lparr>o_Remaining := o_Remaining (prepareTaker od) - traded trs, o_UpdateTime := t\<rparr>"
    by auto
  have same: "book_list ?v b1 = book_list ?v b" using lb vw by simp
  have new1: "orderMap b1 (o_OrderID taker') = None"
    using matchAgainstBook_ids [OF l, of "o_OrderID od"] new t book_ok_mapped [OF ok] by force
  have ins: "book_list u b' = (if u = ?v then ol_insert (book_cmp ?v) (stamped taker' clk1) (book_list ?v b) else book_list u b1)"
    if "o_Type od = OrderTypeLimit" "0 < o_Remaining taker'" for u
  proof -
    have "b' = fst (InsertOrder taker' (b1, clk1))" using e that by (metis fst_conv linorder_not_less order_type.distinct(1))
    then have "b' = book_insert ?v (stamped taker' clk1) (map_put (o_OrderID taker') (stamped taker' clk1) b1)"
      using InsertOrder_fresh [OF new1] t by simp
    then show ?thesis by (cases "u = ?v") (simp_all add: same)
  qed
  have keep: "b' = b1" if "\<not> (o_Type od = OrderTypeLimit \<and> 0 < o_Remaining taker')"
    using e that by blast
  have lw: "book_list ?w b' = book_list ?w b1"
    using ins [of ?w] keep vw(2) by (cases "o_Type od = OrderTypeLimit \<and> 0 < o_Remaining taker'") auto
  show "liquidity (book_list ?w b') + traded trs = liquidity (book_list ?w b)"
    unfolding lw using lb by blast
  show "book_list ?v b' = book_list ?v b" if "o_Type od = OrderTypeMarket"
    using keep that same by simp
  show "book_list ?v b' = book_list ?v b" if "o_Type od = OrderTypeLimit" "traded trs = o_Remaining (prepareTaker od)"
    using keep that same t by simp
  show "\<exists>rest. o_OrderID rest = o_OrderID od \<and> o_Price rest = o_Price od \<and>
         o_Remaining rest = o_Remaining (prepareTaker od) - traded trs \<and>
         book_list ?v b' = ol_insert (book_cmp ?v) rest (book_list ?v b)"
    if "o_Type od = OrderTypeLimit" "traded trs \<noteq> o_Remaining (prepareTaker od)"
  proof -
    have "0 \<le> o_Remaining taker'" using lb by blast
    then have "0 < o_Remaining taker'" using t that(2) by simp
    with ins [of ?v] that(1) t show ?thesis by (intro exI [of _ "stamped taker' clk1"]) simp
  qed
qed

section \<open>A concrete book\<close>

definition wit_order :: "uint64 \<Rightarrow> side \<Rightarrow> time \<Rightarrow> int \<Rightarrow> int \<Rightarrow> int order" where
  "wit_order i s t p q =
     \<lparr> o_OrderID = i, o_ClientOrderID = '''', o_Symbol = ''BTC-USDT'', o_CreateTime = t,
       o_UpdateTime = t, o_Side = s, o_Type = OrderTypeLimit, o_Price = p, o_Quantity = q,
       o_Remaining = q, o_Flags = 0 \<rparr>"

definition wit_book :: "int order_book" where
  "wit_book =
     \<lparr> b_Symbol = ''BTC-USDT'', asks = [wit_order 1 SideSell 5 100 10, wit_order 2 SideSell 6 100 10],
       bids = [wit_order 3 SideBuy 7 99 4],
       orderMap = [1 \<mapsto> wit_order 1 SideSell 5 100 10, 2 \<mapsto> wit_order 2 SideSell 6 100 10,
                   3 \<mapsto> wit_order 3 SideBuy 7 99 4] \<rparr>"

definition wit_clock :: clock where
  "wit_clock = (\<lambda>n. 1000 + int n, 0)"

definition wit_taker :: "int order" where
  "wit_taker = wit_order 9 SideBuy 8 100 15"

lemma all_book_side: "(\<forall>w. P w) \<longleftrightarrow> P Asks \<and> P Bids"
  by (metis book_side.exhaust)

lemma ex_book_side: "(\<exists>w. P w) \<longleftrightarrow> P Asks \<or> P Bids"
  by (metis book_side.exhaust)

lemma wit_book_ok: "book_ok wit_book"
  unfolding book_ok_def
  by (simp add: all_book_side ex_book_side wit_book_def wit_order_def compareAsk_def cmp_of_def getSiteBook_def)
    (auto split: if_splits)

lemma wit_taker_pos: "0 < o_Remaining (prepareTaker wit_taker)" "o_Type wit_taker = OrderTypeLimit"
  by (simp_all add: wit_taker_def wit_order_def prepareTaker_def)

section \<open>Properties\<close>

text \<open>
  C1. Matching keeps the book well formed: both sides sorted in price-time order with
  positive remaining quantities, the id index equal to the resting orders, and the
  sides not crossed.
\<close>

theorem Match_keeps_book:
  assumes "book_ok b" and "0 < o_Remaining (prepareTaker od)"
    and "Match od commandSeq (b, clk) = (r, b', clk')"
  shows "book_ok b'"
  using Match_ok [OF assms] by blast

theorem Match_keeps_book_witness:
  "\<exists>r b' clk'. Match wit_taker 7 (wit_book, wit_clock) = (r, b', clk') \<and> book_ok b'"
  using Match_keeps_book [OF wit_book_ok wit_taker_pos(1)] by (metis prod_cases3)

text \<open>
  C2. Price-time priority: the trades are those with the first acceptable orders of the
  opposite side, in book order, each at the maker's price and for as much as the
  taker's quantity left by the earlier ones reaches; in total the taker gets the
  smaller of its quantity and of the acceptable quantity on the book.
\<close>

theorem Match_allocation:
  assumes "book_ok b" and "0 < o_Remaining (prepareTaker od)"
    and "Match od commandSeq (b, clk) = (Inr trs, b', clk')"
    and "ms = acceptable (prepareTaker od) (book_list (oppositeBook (o_Side od)) b)"
  shows "length trs \<le> length ms \<and>
    (\<forall>i < length trs.
      t_MakerOrderID (trs ! i) = o_OrderID (ms ! i) \<and> t_Price (trs ! i) = o_Price (ms ! i) \<and>
      t_Quantity (trs ! i) = min (o_Remaining (ms ! i)) (o_Remaining (prepareTaker od) - liquidity (take i ms)) \<and>
      0 < t_Quantity (trs ! i)) \<and>
    traded trs = min (o_Remaining (prepareTaker od)) (liquidity ms)"
proof -
  obtain taker' b1 clk1 where
    l: "matchAgainstBook (oppositeBook (o_Side od)) commandSeq (book_list (oppositeBook (o_Side od)) b)
       (prepareTaker od) (b, clk) = (trs, taker', b1, clk1)"
    using Match_Inr [OF assms(3)] by metis
  have p: "\<forall>m \<in> set (book_list (oppositeBook (o_Side od)) b). 0 < o_Remaining m"
    using book_okD(3) [OF assms(1)] by blast
  from matchAgainstBook_trades [OF l p less_imp_le [OF assms(2)]] show ?thesis unfolding assms(4) .
qed

theorem Match_allocation_witness:
  "\<exists>trs b' clk'. Match wit_taker 7 (wit_book, wit_clock) = (Inr trs, b', clk') \<and> traded trs = 15"
proof -
  obtain trs b' clk' where m: "Match wit_taker 7 (wit_book, wit_clock) = (Inr trs, b', clk')"
    using Match_returns wit_taker_pos(2) by blast
  have "traded trs = 15"
    using Match_allocation [OF wit_book_ok wit_taker_pos(1) m refl]
    by (simp add: wit_taker_def wit_book_def wit_order_def prepareTaker_def oppositeBook_def stopMatch_def)
  with m show ?thesis by blast
qed

text \<open>
  C3. Quantity is conserved: what the opposite side loses is what is traded, and a new
  limit order adds exactly its untraded remainder to its own side, a market order nothing.
\<close>

theorem Match_conserves:
  assumes "book_ok b" and "0 < o_Remaining (prepareTaker od)"
    and "Match od commandSeq (b, clk) = (Inr trs, b', clk')" and "FindOrder (o_OrderID od) b = None"
  shows "liquidity (book_list (oppositeBook (o_Side od)) b') + traded trs
       = liquidity (book_list (oppositeBook (o_Side od)) b) \<and>
    liquidity (book_list (getSiteBook (o_Side od)) b')
       = liquidity (book_list (getSiteBook (o_Side od)) b) +
         (if o_Type od = OrderTypeMarket then 0 else o_Remaining (prepareTaker od) - traded trs)"
proof -
  note s = Match_sides [OF assms(1-3) assms(4) [unfolded FindOrder_def]]
  have ty: "o_Type od = OrderTypeMarket \<or> o_Type od = OrderTypeLimit"
    using Match_Inr [OF assms(3)] by metis
  show ?thesis
  proof (cases "o_Type od = OrderTypeMarket \<or> traded trs = o_Remaining (prepareTaker od)")
    case True
    with s(1-3) ty show ?thesis by auto
  next
    case False
    then obtain rest where "o_OrderID rest = o_OrderID od"
        "o_Remaining rest = o_Remaining (prepareTaker od) - traded trs"
        "book_list (getSiteBook (o_Side od)) b' =
           ol_insert (book_cmp (getSiteBook (o_Side od))) rest (book_list (getSiteBook (o_Side od)) b)"
      using s(4) ty by blast
    with False s(1) liquidity_insert_fresh [OF assms(1), of rest] assms(4) show ?thesis
      by (simp add: FindOrder_def)
  qed
qed

theorem Match_conserves_witness:
  "\<exists>trs b' clk'. Match wit_taker 7 (wit_book, wit_clock) = (Inr trs, b', clk') \<and>
     liquidity (asks b') + traded trs = 20"
proof -
  obtain trs b' clk' where m: "Match wit_taker 7 (wit_book, wit_clock) = (Inr trs, b', clk')"
    using Match_returns wit_taker_pos(2) by blast
  have "FindOrder (o_OrderID wit_taker) wit_book = None"
    by (simp add: FindOrder_def wit_taker_def wit_book_def wit_order_def)
  then have "liquidity (asks b') + traded trs = 20"
    using Match_conserves [OF wit_book_ok wit_taker_pos(1) m]
    by (simp add: wit_taker_def wit_book_def wit_order_def oppositeBook_def)
  with m show ?thesis by blast
qed

text \<open>
  Price protection and price order: a limit order never trades beyond its limit, and
  the prices of one command's trades get no better for the taker.
\<close>

theorem Match_prices:
  assumes "book_ok b" and "0 < o_Remaining (prepareTaker od)"
    and "Match od commandSeq (b, clk) = (Inr trs, b', clk')"
  shows "(o_Type od = OrderTypeLimit \<longrightarrow>
      (\<forall>tr \<in> set trs. if o_Side od = SideBuy then t_Price tr \<le> o_Price od else o_Price od \<le> t_Price tr)) \<and>
    sorted_wrt (\<lambda>x y. if o_Side od = SideBuy then t_Price x \<le> t_Price y else t_Price y \<le> t_Price x) trs"
proof -
  let ?w = "oppositeBook (o_Side od)"
  let ?ms = "acceptable (prepareTaker od) (book_list ?w b)"
  obtain taker' b1 clk1 where
    l: "matchAgainstBook ?w commandSeq (book_list ?w b) (prepareTaker od) (b, clk) = (trs, taker', b1, clk1)"
    using Match_Inr [OF assms(3)] by metis
  have p: "\<forall>m \<in> set (book_list ?w b). 0 < o_Remaining m"
    using book_okD(3) [OF assms(1)] by blast
  from matchAgainstBook_trades [OF l p less_imp_le [OF assms(2)]]
  have len: "length trs \<le> length ?ms" and pr: "\<And>i. i < length trs \<Longrightarrow> t_Price (trs ! i) = o_Price (?ms ! i)" by blast+
  have st: "\<not> stopMatch (prepareTaker od) (o_Price x)" if "x \<in> set ?ms" for x
    using that unfolding acceptable_def by (blast dest: set_takeWhileD)
  have lim: "if o_Side od = SideBuy then t_Price tr \<le> o_Price od else o_Price od \<le> t_Price tr"
    if "o_Type od = OrderTypeLimit" and tr: "tr \<in> set trs" for tr
  proof -
    obtain i where i: "i < length trs" "tr = trs ! i" using tr by (metis in_set_conv_nth)
    then have "\<not> stopMatch (prepareTaker od) (t_Price tr)" using st [of "?ms ! i"] pr len by simp
    with that(1) show ?thesis by (auto simp: stopMatch_def split: if_splits)
  qed
  have "ordered (book_cmp ?w) (book_list ?w b)" by (rule book_okD(1) [OF assms(1)])
  then have "ordered (book_cmp ?w) ?ms" unfolding acceptable_def by (rule sorted_wrt_takeWhile)
  then have srt: "book_cmp ?w (?ms ! i) (?ms ! j) < 0" if "i < j" "j < length trs" for i j
    using that len by (simp add: sorted_wrt_iff_nth_less)
  have "if o_Side od = SideBuy then t_Price (trs ! i) \<le> t_Price (trs ! j) else t_Price (trs ! j) \<le> t_Price (trs ! i)"
    if ij: "i < j" "j < length trs" for i j
  proof -
    have "t_Price (trs ! i) = o_Price (?ms ! i)" "t_Price (trs ! j) = o_Price (?ms ! j)"
      using pr ij by simp_all
    with srt [OF ij] show ?thesis
      by (cases "o_Side od = SideBuy") (auto simp: oppositeBook_def compareAsk_sign compareBid_sign)
  qed
  then have "sorted_wrt (\<lambda>x y. if o_Side od = SideBuy then t_Price x \<le> t_Price y else t_Price y \<le> t_Price x) trs"
    by (simp add: sorted_wrt_iff_nth_less)
  with lim show ?thesis by blast
qed

theorem Match_prices_witness:
  "\<exists>trs b' clk'. Match wit_taker 7 (wit_book, wit_clock) = (Inr trs, b', clk') \<and> (\<forall>tr \<in> set trs. t_Price tr \<le> 100)"
proof -
  obtain trs b' clk' where m: "Match wit_taker 7 (wit_book, wit_clock) = (Inr trs, b', clk')"
    using Match_returns wit_taker_pos(2) by blast
  with Match_prices [OF wit_book_ok wit_taker_pos(1) m] show ?thesis
    by (simp add: wit_taker_def wit_order_def)
qed

text \<open>
  C4. Cancelling an order removes exactly it: both sides lose the order with that id and
  nothing else, the order is no longer active, and cancelling again changes nothing.
\<close>

theorem cancel_exact:
  assumes "book_ok b"
  shows "asks (RemoveOrder k b) = filter (\<lambda>x. o_OrderID x \<noteq> k) (asks b) \<and>
    bids (RemoveOrder k b) = filter (\<lambda>x. o_OrderID x \<noteq> k) (bids b) \<and>
    (\<forall>i. HasActiveOrder i (RemoveOrder k b) \<longleftrightarrow> HasActiveOrder i b \<and> i \<noteq> k) \<and>
    book_ok (RemoveOrder k b) \<and> RemoveOrder k (RemoveOrder k b) = RemoveOrder k b"
proof -
  have ok: "book_ok (RemoveOrder k b)" using assms by (rule RemoveOrder_ok)
  have "HasActiveOrder i (RemoveOrder k b) \<longleftrightarrow> HasActiveOrder i b \<and> i \<noteq> k" for i
    by (simp add: HasActiveOrder_def findInBook_iff [OF ok] findInBook_iff [OF assms] RemoveOrder_map)
  moreover have "orderMap (RemoveOrder k b) k = None" by (simp add: RemoveOrder_map)
  then have "RemoveOrder k (RemoveOrder k b) = RemoveOrder k b" by (simp add: RemoveOrder_def [of k "RemoveOrder k b"])
  ultimately show ?thesis
    using ok RemoveOrder_lists [OF assms, of Asks k] RemoveOrder_lists [OF assms, of Bids k] by simp
qed

theorem cancel_exact_witness: "HasActiveOrder 2 (RemoveOrder 1 wit_book) \<and> \<not> HasActiveOrder 1 (RemoveOrder 1 wit_book)"
proof -
  have "HasActiveOrder 2 wit_book"
    by (simp add: HasActiveOrder_def findInBook_iff [OF wit_book_ok]) (simp add: wit_book_def)
  then show ?thesis using cancel_exact [OF wit_book_ok, of 1] by simp
qed

text \<open>
  A trade id fits in the signed 64-bit column it is stored in.
\<close>

theorem DeriveTradeID_fits: "unat (DeriveTradeID commandSeq makerOrderID takerOrderID) < 2 ^ 63"
proof -
  have e: "(0x7fffffffffffffff :: uint64) = mask 63" by (simp add: mask_eq_exp_minus_1)
  have "unat (x AND mask 63) < 2 ^ 63" for x :: uint64
    by (simp only: take_bit_eq_mask [symmetric] unsigned_take_bit_eq take_bit_nat_less_exp)
  then show ?thesis unfolding DeriveTradeID_def e .
qed

text \<open>
  Replaying a command on the same book gives the same trades (ids, prices,
  quantities, counterparties), whatever the clock shows: only their time stamps differ.
\<close>

theorem Match_replay:
  assumes "Match od commandSeq (b, clk) = (Inr trs, r1)" and "Match od commandSeq (b, clk2) = (Inr trs2, r2)"
  shows "map untimed trs2 = map untimed trs"
proof -
  let ?w = "oppositeBook (o_Side od)"
  obtain t1 b1 c1 where l1: "matchAgainstBook ?w commandSeq (book_list ?w b) (prepareTaker od) (b, clk) = (trs, t1, b1, c1)"
    using Match_Inr [of od commandSeq b clk trs "fst r1" "snd r1"] assms(1) by (metis prod.collapse)
  obtain t2 b2 c2 where l2: "matchAgainstBook ?w commandSeq (book_list ?w b) (prepareTaker od) (b, clk2) = (trs2, t2, b2, c2)"
    using Match_Inr [of od commandSeq b clk2 trs2 "fst r2" "snd r2"] assms(2) by (metis prod.collapse)
  show ?thesis
    by (rule matchAgainstBook_replay [OF l1, where u = "o_UpdateTime (prepareTaker od)"]) (use l2 in simp)
qed

theorem Match_replay_witness:
  "\<exists>trs r1 trs2 r2. Match wit_taker 7 (wit_book, wit_clock) = (Inr trs, r1) \<and>
     Match wit_taker 7 (wit_book, (\<lambda>n. 5, 0)) = (Inr trs2, r2) \<and> map untimed trs2 = map untimed trs"
  using Match_replay Match_returns wit_taker_pos(2) by metis

text \<open>
  A partially filled maker is stamped with the current time and goes back behind every
  other resting order at its price: a partial fill costs an order its time priority.
\<close>

theorem partial_fill_loses_priority:
  assumes "book_ok b" and "book_list w b = maker # iter"
    and "0 < o_Remaining taker" and "o_Remaining taker < o_Remaining maker"
    and "\<forall>x \<in> set iter. o_UpdateTime x < fst (now clk)"
  shows "\<exists>tr taker' b' clk' maker'. match_step w commandSeq taker maker (b, clk) = (tr, taker', b', clk') \<and>
    maker' = maker\<lparr>o_Remaining := o_Remaining maker - o_Remaining taker, o_UpdateTime := fst (now clk)\<rparr> \<and>
    book_list w b' = takeWhile (\<lambda>x. o_Price x = o_Price maker) iter @ maker' #
                     dropWhile (\<lambda>x. o_Price x = o_Price maker) iter"
proof -
  let ?r = "o_Remaining maker - o_Remaining taker"
  let ?m = "maker\<lparr>o_Remaining := ?r, o_UpdateTime := fst (now clk)\<rparr>"
  have q: "min (o_Remaining taker) (o_Remaining maker) = o_Remaining taker" using assms(4) by simp
  obtain tr taker' b' clk' where s: "match_step w commandSeq taker maker (b, clk) = (tr, taker', b', clk')"
    by (metis prod_cases4)
  then have b': "b' = fst (consume_maker w (maker\<lparr>o_Remaining := ?r\<rparr>) (b, clk))"
    by (auto simp: match_step_def Let_def split_beta q)
  have "book_list w b' = ol_insert (book_cmp w) ?m iter"
    using consume_maker_partial [OF assms(1,2), of ?r clk] assms(4) b' by auto
  also have "\<dots> = takeWhile (\<lambda>x. o_Price x = o_Price maker) iter @ ?m # dropWhile (\<lambda>x. o_Price x = o_Price maker) iter"
    by (rule partial_fill_position) (use assms(5) book_okD(1) [OF assms(1), of w] assms(2) in auto)
  finally show ?thesis using s by blast
qed

theorem partial_fill_loses_priority_witness:
  "\<exists>tr taker' b' clk'. match_step Asks 7 (wit_order 9 SideBuy 8 100 4) (wit_order 1 SideSell 5 100 10) (wit_book, wit_clock)
       = (tr, taker', b', clk') \<and> map o_OrderID (asks b') = [2, 1]"
  using partial_fill_loses_priority [OF wit_book_ok, of Asks "wit_order 1 SideSell 5 100 10"
      "[wit_order 2 SideSell 6 100 10]" "wit_order 9 SideBuy 8 100 4" wit_clock 7]
  by (auto simp: wit_book_def wit_order_def wit_clock_def now_def)

text \<open>
  C5. The skip list under each side of the book does what the ordered list does: from
  every well-formed structure, with every outcome of the random levels, insertion,
  deletion and search return, keep it well formed, and agree with the list operations on
  its contents; and a deleted first order leaves the iterator at the rest.
\<close>

theorem skiplist_refines_book_list:
  assumes "sl_ok (book_cmp w) s"
  shows "(\<exists>s'. sl_insert (book_cmp w) v s = Some s' \<and> sl_ok (book_cmp w) s' \<and>
           items s' = ol_insert (book_cmp w) v (items s)) \<and>
    (\<exists>s'. sl_delete (book_cmp w) v s = Some (s', ol_contains (book_cmp w) v (items s)) \<and>
           sl_ok (book_cmp w) s' \<and> items s' = ol_delete (book_cmp w) v (items s)) \<and>
    sl_search (book_cmp w) v s = Some (ol_search (book_cmp w) v (items s)) \<and>
    ordered (book_cmp w) (items s)"
  using sl.ins_spec [OF assms] sl.del_spec [OF assms] sl.find_spec [OF assms] sl.elems_ordered [OF assms] by blast

theorem skiplist_refines_book_list_witness:
  "\<exists>s'. sl_insert compareAsk (wit_order 1 SideSell 5 100 10) (NewSkipList (\<lambda>n. n mod 3 \<noteq> 0)) = Some s' \<and>
     items s' = [wit_order 1 SideSell 5 100 10]"
proof -
  have inv: "sl_inv (book_cmp Asks) (NewSkipList (\<lambda>n. n mod 3 \<noteq> 0) :: int order skiplist) []" by (rule sl_inv_New)
  then have "sl_ok (book_cmp Asks) (NewSkipList (\<lambda>n. n mod 3 \<noteq> 0) :: int order skiplist)"
    unfolding sl_ok_def by blast
  from skiplist_refines_book_list [OF this, of "wit_order 1 SideSell 5 100 10"]
  show ?thesis using items_nodes [OF inv] by auto
qed

end
