(* ===== verification/EngineConvert.thy ===== *)
theory EngineConvert
  imports Engine
begin

text \<open>
  Model of \<open>internal/matching/engine/convert.go\<close>: the conversion of orders and trades
  to and from their protobuf messages. A message is a record with the getters' values; a
  nil sub-message is \<open>None\<close>. A \<open>Decimal\<close> message holds its string.
\<close>

section \<open>Messages\<close>

type_synonym pb_decimal = "string option"

definition Side_SIDE_UNSPECIFIED :: int where "Side_SIDE_UNSPECIFIED = 0"
definition Side_SIDE_BUY :: int where "Side_SIDE_BUY = 1"
definition Side_SIDE_SELL :: int where "Side_SIDE_SELL = 2"
definition OrderType_UNSPECIFIED :: int where "OrderType_UNSPECIFIED = 0"
definition OrderType_LIMIT :: int where "OrderType_LIMIT = 1"
definition OrderType_MARKET :: int where "OrderType_MARKET = 2"

lemmas pb_enum_defs = Side_SIDE_UNSPECIFIED_def Side_SIDE_BUY_def Side_SIDE_SELL_def
  OrderType_UNSPECIFIED_def OrderType_LIMIT_def OrderType_MARKET_def

record pb_order =
  p_OrderId :: uint64
  p_ClientOrderId :: string
  p_Symbol :: string
  p_CreateTime :: "tstamp option"
  p_UpdateTime :: "tstamp option"
  p_Side :: int
  p_Type :: int
  p_Price :: pb_decimal
  p_Quantity :: pb_decimal
  p_Remaining :: pb_decimal
  p_Flags :: uint64

record pb_trade =
  pt_TradeId :: uint64
  pt_Symbol :: string
  pt_CreateTime :: "tstamp option"
  pt_Price :: pb_decimal
  pt_Quantity :: pb_decimal
  pt_MakerOrderId :: uint64
  pt_TakerOrderId :: uint64

text \<open>\<open>d.GetValue()\<close>, also on nil.\<close>

definition GetValue :: "pb_decimal \<Rightarrow> string" where
  "GetValue d = (case d of None \<Rightarrow> '''' | Some s \<Rightarrow> s)"

section \<open>Fields\<close>

definition sideFromProto :: "int \<Rightarrow> err + side" where
  "sideFromProto s =
     (if s = Side_SIDE_BUY then Inr SideBuy
      else if s = Side_SIDE_SELL then Inr SideSell
      else Inl (ErrMsg ''invalid side''))"

definition sideToProto :: "side \<Rightarrow> int" where
  "sideToProto s =
     (case s of SideBuy \<Rightarrow> Side_SIDE_BUY | SideSell \<Rightarrow> Side_SIDE_SELL
      | SideOther _ \<Rightarrow> Side_SIDE_UNSPECIFIED)"

definition orderTypeFromProto :: "int \<Rightarrow> err + order_type" where
  "orderTypeFromProto t =
     (if t = OrderType_LIMIT then Inr OrderTypeLimit
      else if t = OrderType_MARKET then Inr OrderTypeMarket
      else Inl (ErrMsg ''invalid order type''))"

definition orderTypeToProto :: "order_type \<Rightarrow> int" where
  "orderTypeToProto t =
     (case t of OrderTypeLimit \<Rightarrow> OrderType_LIMIT | OrderTypeMarket \<Rightarrow> OrderType_MARKET
      | OrderTypeOther _ \<Rightarrow> OrderType_UNSPECIFIED)"

definition decimalToProto :: "'d libs \<Rightarrow> 'd \<Rightarrow> pb_decimal" where
  "decimalToProto L v = Some (dec_to_string L v)"

definition decimalFromProto :: "('d::linordered_idom) libs \<Rightarrow> pb_decimal \<Rightarrow> err + 'd" where
  "decimalFromProto L d =
     (if d = None \<or> GetValue d = '''' then Inl (ErrMsg ''is required'')
      else case dec_of_string L (GetValue d) of
             None \<Rightarrow> Inl (ErrMsg ''invalid'')
           | Some v \<Rightarrow> if \<not> 0 < v then Inl (ErrMsg ''must be positive'') else Inr v)"

definition remainingFromProto :: "('d::linordered_idom) libs \<Rightarrow> pb_decimal \<Rightarrow> 'd \<Rightarrow> err + 'd" where
  "remainingFromProto L d quantity =
     (if d = None \<or> GetValue d = '''' then Inr quantity
      else case dec_of_string L (GetValue d) of
             None \<Rightarrow> Inl (ErrMsg ''invalid remaining'')
           | Some v \<Rightarrow> if \<not> 0 < v then Inr quantity else Inr v)"

definition effectiveRemaining :: "('d::linordered_idom) order \<Rightarrow> 'd" where
  "effectiveRemaining od = (if 0 < o_Remaining od then o_Remaining od else o_Quantity od)"

definition priceFromOrderProto :: "('d::linordered_idom) libs \<Rightarrow> pb_order \<Rightarrow> err + 'd" where
  "priceFromOrderProto L pb =
     (if p_Type pb = OrderType_MARKET then
        (if p_Price pb \<noteq> None \<and> GetValue (p_Price pb) \<noteq> '''' then decimalFromProto L (p_Price pb)
         else Inr 0)
      else decimalFromProto L (p_Price pb))"

section \<open>Orders and trades\<close>

definition OrderFromProto :: "('d::linordered_idom) libs \<Rightarrow> pb_order option \<Rightarrow> err + 'd order" where
  "OrderFromProto L pbo =
     (case pbo of None \<Rightarrow> Inl (ErrMsg ''order is nil'')
      | Some pb \<Rightarrow>
        if p_OrderId pb = 0 then Inl (ErrMsg ''order_id is required'')
        else if p_Symbol pb = '''' then Inl (ErrMsg ''symbol is required'')
        else (case sideFromProto (p_Side pb) of Inl e \<Rightarrow> Inl e | Inr side \<Rightarrow>
             (case orderTypeFromProto (p_Type pb) of Inl e \<Rightarrow> Inl e | Inr typ \<Rightarrow>
             (case priceFromOrderProto L pb of Inl e \<Rightarrow> Inl e | Inr price \<Rightarrow>
             (case decimalFromProto L (p_Quantity pb) of Inl e \<Rightarrow> Inl e | Inr qty \<Rightarrow>
             (case remainingFromProto L (p_Remaining pb) qty of Inl e \<Rightarrow> Inl e | Inr remaining \<Rightarrow>
               Inr \<lparr> o_OrderID = p_OrderId pb, o_ClientOrderID = p_ClientOrderId pb,
                     o_Symbol = p_Symbol pb, o_CreateTime = ts_as_time L (p_CreateTime pb),
                     o_UpdateTime = ts_as_time L (p_UpdateTime pb), o_Side = side, o_Type = typ,
                     o_Price = price, o_Quantity = qty, o_Remaining = remaining,
                     o_Flags = p_Flags pb \<rparr>))))))"

definition OrderToProto :: "('d::linordered_idom) libs \<Rightarrow> 'd order \<Rightarrow> pb_order" where
  "OrderToProto L od =
     \<lparr> p_OrderId = o_OrderID od, p_ClientOrderId = o_ClientOrderID od, p_Symbol = o_Symbol od,
       p_CreateTime = Some (ts_new L (o_CreateTime od)),
       p_UpdateTime = Some (ts_new L (o_UpdateTime od)),
       p_Side = sideToProto (o_Side od), p_Type = orderTypeToProto (o_Type od),
       p_Price = decimalToProto L (o_Price od), p_Quantity = decimalToProto L (o_Quantity od),
       p_Remaining = decimalToProto L (effectiveRemaining od), p_Flags = o_Flags od \<rparr>"

definition TradeFromProto :: "('d::linordered_idom) libs \<Rightarrow> pb_trade option \<Rightarrow> err + 'd trade" where
  "TradeFromProto L pbo =
     (case pbo of None \<Rightarrow> Inl (ErrMsg ''trade is nil'')
      | Some pb \<Rightarrow>
        if pt_TradeId pb = 0 then Inl (ErrMsg ''trade_id is required'')
        else if pt_Symbol pb = '''' then Inl (ErrMsg ''symbol is required'')
        else (case decimalFromProto L (pt_Price pb) of Inl e \<Rightarrow> Inl e | Inr price \<Rightarrow>
             (case decimalFromProto L (pt_Quantity pb) of Inl e \<Rightarrow> Inl e | Inr qty \<Rightarrow>
               Inr \<lparr> t_TradeID = pt_TradeId pb, t_Symbol = pt_Symbol pb,
                     t_CreateTime = ts_as_time L (pt_CreateTime pb), t_Price = price,
                     t_Quantity = qty, t_MakerOrderID = pt_MakerOrderId pb,
                     t_TakerOrderID = pt_TakerOrderId pb \<rparr>)))"

definition TradeToProto :: "'d libs \<Rightarrow> 'd trade \<Rightarrow> pb_trade" where
  "TradeToProto L t =
     \<lparr> pt_TradeId = t_TradeID t, pt_Symbol = t_Symbol t,
       pt_CreateTime = Some (ts_new L (t_CreateTime t)),
       pt_Price = decimalToProto L (t_Price t), pt_Quantity = decimalToProto L (t_Quantity t),
       pt_MakerOrderId = t_MakerOrderID t, pt_TakerOrderId = t_TakerOrderID t \<rparr>"

section \<open>Round trips\<close>

text \<open>The orders a message can carry.\<close>

definition order_valid :: "('d::linordered_idom) order \<Rightarrow> bool" where
  "order_valid od \<longleftrightarrow>
     o_OrderID od \<noteq> 0 \<and> o_Symbol od \<noteq> '''' \<and>
     (o_Side od = SideBuy \<or> o_Side od = SideSell) \<and>
     (o_Type od = OrderTypeLimit \<or> o_Type od = OrderTypeMarket) \<and>
     0 < o_Price od \<and> 0 < o_Quantity od \<and> 0 < o_Remaining od"

lemma sideFromTo: "s = SideBuy \<or> s = SideSell \<Longrightarrow> sideFromProto (sideToProto s) = Inr s"
  by (auto simp: sideFromProto_def sideToProto_def pb_enum_defs)

lemma orderTypeFromTo:
  "t = OrderTypeLimit \<or> t = OrderTypeMarket \<Longrightarrow> orderTypeFromProto (orderTypeToProto t) = Inr t"
  by (auto simp: orderTypeFromProto_def orderTypeToProto_def pb_enum_defs)

lemma decimalFromTo:
  assumes "codec_ok L"
  shows "decimalFromProto L (decimalToProto L v) = (if 0 < v then Inr v else Inl (ErrMsg ''must be positive''))"
  using codec_okD(1,2) [OF assms]
  by (simp add: decimalFromProto_def decimalToProto_def GetValue_def)

lemma remainingFromTo:
  assumes "codec_ok L"
  shows "remainingFromProto L (decimalToProto L v) q = Inr (if 0 < v then v else q)"
  using codec_okD(1,2) [OF assms]
  by (simp add: remainingFromProto_def decimalToProto_def GetValue_def)

lemma OrderFromTo:
  assumes "codec_ok L" and "order_valid od"
  shows "OrderFromProto L (Some (OrderToProto L od)) = Inr od"
proof -
  have "priceFromOrderProto L (OrderToProto L od) = Inr (o_Price od)"
    using assms decimalFromTo [OF assms(1)] codec_okD(2) [OF assms(1)]
    by (simp add: priceFromOrderProto_def OrderToProto_def order_valid_def decimalToProto_def GetValue_def)
  with assms show ?thesis
    by (simp add: OrderFromProto_def OrderToProto_def order_valid_def sideFromTo orderTypeFromTo
        decimalFromTo remainingFromTo effectiveRemaining_def codec_okD(3))
qed

lemma TradeFromTo:
  assumes "codec_ok L" and "t_TradeID t \<noteq> 0" "t_Symbol t \<noteq> ''''" "0 < t_Price t" "0 < t_Quantity t"
  shows "TradeFromProto L (Some (TradeToProto L t)) = Inr t"
  using assms by (simp add: TradeFromProto_def TradeToProto_def decimalFromTo codec_okD(3))

text \<open>
  What is accepted: an order read from a message has a positive quantity and remainder,
  and a positive price unless it is a market order.
\<close>

lemma decimalFromProto_Inr: "decimalFromProto L d = Inr v \<Longrightarrow> 0 < v"
  by (auto simp: decimalFromProto_def split: if_splits option.splits)

lemma remainingFromProto_Inr: "remainingFromProto L d q = Inr v \<Longrightarrow> 0 < q \<Longrightarrow> 0 < v"
  by (auto simp: remainingFromProto_def split: if_splits option.splits)

lemma sideFromProto_Inr: "sideFromProto s = Inr v \<Longrightarrow> v = SideBuy \<or> v = SideSell"
  by (auto simp: sideFromProto_def split: if_splits)

lemma orderTypeFromProto_Inr:
  "orderTypeFromProto t = Inr v \<Longrightarrow> v = OrderTypeLimit \<and> t = OrderType_LIMIT \<or> v = OrderTypeMarket \<and> t = OrderType_MARKET"
  by (auto simp: orderTypeFromProto_def split: if_splits)

lemma priceFromOrderProto_Inr:
  "priceFromOrderProto L pb = Inr v \<Longrightarrow> 0 < v \<or> v = 0 \<and> p_Type pb = OrderType_MARKET"
  by (auto simp: priceFromOrderProto_def dest: decimalFromProto_Inr split: if_splits)

lemma OrderFromProto_Inr:
  assumes "OrderFromProto L pbo = Inr od"
  shows "o_OrderID od \<noteq> 0 \<and> o_Symbol od \<noteq> '''' \<and> 0 < o_Quantity od \<and> 0 < o_Remaining od \<and>
    (o_Type od = OrderTypeLimit \<and> 0 < o_Price od \<or> o_Type od = OrderTypeMarket \<and> 0 \<le> o_Price od)"
  using assms
  by (auto simp: OrderFromProto_def pb_enum_defs split: option.splits if_splits sum.splits
      dest!: orderTypeFromProto_Inr priceFromOrderProto_Inr decimalFromProto_Inr
      intro: remainingFromProto_Inr)

end
