(* ===== verification/EngineSnapshot.thy ===== *)
theory EngineSnapshot
  imports EngineConvert
begin

text \<open>
  Model of \<open>internal/matching/engine/snapshot.go\<close>: a book is exported as price levels
  and restored by inserting their orders in turn.
\<close>

section \<open>Messages\<close>

record pb_level =
  l_Price :: pb_decimal
  l_Orders :: "pb_order list"

record pb_snapshot =
  s_ShardId :: string
  s_Symbol :: string
  s_SeqId :: uint64
  s_TimestampUnixNano :: int
  s_Bids :: "pb_level list"
  s_Asks :: "pb_level list"
  s_OrderMap :: "(uint64 \<rightharpoonup> pb_order) option"
  s_Checksum :: uint64

section \<open>Export\<close>

text \<open>
  The loop of \<open>exportLevels\<close>: the level being filled with its price (\<open>current\<close>,
  \<open>lastPrice\<close>), or none before the first order.
\<close>

fun export_loop ::
  "('d::linordered_idom) libs \<Rightarrow> (pb_level \<times> 'd) option \<Rightarrow> pb_level list \<Rightarrow> 'd order list \<Rightarrow> pb_level list" where
  "export_loop L cur levels [] =
     (case cur of None \<Rightarrow> levels | Some (c, _) \<Rightarrow> levels @ [c])"
| "export_loop L cur levels (x # it) =
     (let (levels1, c, lastPrice) =
        (case cur of
           Some (c, lastPrice) \<Rightarrow>
             if o_Price x \<noteq> lastPrice
             then (levels @ [c], \<lparr> l_Price = decimalToProto L (o_Price x), l_Orders = [] \<rparr>, o_Price x)
             else (levels, c, lastPrice)
         | None \<Rightarrow> (levels, \<lparr> l_Price = decimalToProto L (o_Price x), l_Orders = [] \<rparr>, o_Price x))
      in export_loop L (Some (c\<lparr>l_Orders := l_Orders c @ [OrderToProto L x]\<rparr>, lastPrice)) levels1 it)"

definition exportLevels :: "('d::linordered_idom) libs \<Rightarrow> side \<Rightarrow> 'd order_book \<Rightarrow> pb_level list" where
  "exportLevels L s b = export_loop L None [] (book_list (getSiteBook s) b)"

definition ExportSnapshot ::
  "('d::linordered_idom) libs \<Rightarrow> string \<Rightarrow> uint64 \<Rightarrow> time \<Rightarrow> 'd order_book \<times> clock \<Rightarrow> pb_snapshot \<times> clock" where
  "ExportSnapshot L shardID seqID ts0 bc =
     (let (b, clk) = bc;
          (ts, clk') = (if ts0 = 0 then now clk else (ts0, clk))
      in (\<lparr> s_ShardId = shardID, s_Symbol = b_Symbol b, s_SeqId = seqID,
            s_TimestampUnixNano = unix_nano ts,
            s_Bids = exportLevels L SideBuy b, s_Asks = exportLevels L SideSell b,
            s_OrderMap = Some (\<lambda>k. map_option (OrderToProto L) (ActiveOrders b k)),
            s_Checksum = 0 \<rparr>, clk'))"

section \<open>Restore\<close>

fun restoreOrders ::
  "('d::linordered_idom) libs \<Rightarrow> pb_order list \<Rightarrow> 'd order_book \<times> clock \<Rightarrow> err option \<times> 'd order_book \<times> clock" where
  "restoreOrders L [] bc = (None, bc)"
| "restoreOrders L (pb # pbs) bc =
     (case OrderFromProto L (Some pb) of
        Inl e \<Rightarrow> (Some e, bc)
      | Inr od \<Rightarrow>
          (let od' = (if o_Symbol od = '''' then od\<lparr>o_Symbol := b_Symbol (fst bc)\<rparr> else od)
           in restoreOrders L pbs (InsertOrder od' bc)))"

fun restoreLevels ::
  "('d::linordered_idom) libs \<Rightarrow> pb_level list \<Rightarrow> 'd order_book \<times> clock \<Rightarrow> err option \<times> 'd order_book \<times> clock" where
  "restoreLevels L [] bc = (None, bc)"
| "restoreLevels L (lv # lvs) bc =
     (case restoreOrders L (l_Orders lv) bc of
        (Some e, bc') \<Rightarrow> (Some e, bc')
      | (None, bc') \<Rightarrow> restoreLevels L lvs bc')"

text \<open>The book is replaced even when an order of the snapshot is refused.\<close>

definition RestoreFromSnapshot ::
  "('d::linordered_idom) libs \<Rightarrow> pb_snapshot option \<Rightarrow> 'd order_book \<times> clock \<Rightarrow> err option \<times> 'd order_book \<times> clock" where
  "RestoreFromSnapshot L snapo bc =
     (case snapo of
        None \<Rightarrow> (Some (ErrMsg ''snapshot is nil''), bc)
      | Some snap \<Rightarrow>
          (case restoreLevels L (s_Bids snap) (NewOrderBook (s_Symbol snap), snd bc) of
             (Some e, bc1) \<Rightarrow> (Some e, bc1)
           | (None, bc1) \<Rightarrow>
               (case restoreLevels L (s_Asks snap) bc1 of
                  (Some e, bc2) \<Rightarrow> (Some e, bc2)
                | (None, bc2) \<Rightarrow> (Validate (fst bc2), bc2))))"

definition ValidateWithOrderMap ::
  "('d::linordered_idom) order_book \<Rightarrow> (uint64 \<rightharpoonup> pb_order) option \<Rightarrow> err option" where
  "ValidateWithOrderMap b om =
     (case Validate b of
        Some e \<Rightarrow> Some e
      | None \<Rightarrow>
          (case om of None \<Rightarrow> None
           | Some m \<Rightarrow>
               if card (dom m) \<noteq> ActiveOrderCount b then Some (ErrMsg ''order_map size'')
               else if \<exists>k \<in> dom m. \<not> findInBook k b then Some (ErrMsg ''order_map contains inactive order_id'')
               else None))"

section \<open>Restoring an export\<close>

lemma export_loop_orders:
  "concat (map l_Orders (export_loop L cur levels xs)) =
     concat (map l_Orders levels) @
     (case cur of None \<Rightarrow> [] | Some (c, _) \<Rightarrow> l_Orders c) @ map (OrderToProto L) xs"
proof (induction xs arbitrary: cur levels)
  case Nil
  then show ?case by (auto split: option.splits)
next
  case (Cons x xs)
  then show ?case by (cases cur) (auto simp: Let_def)
qed

lemma exportLevels_orders:
  "concat (map l_Orders (exportLevels L s b)) = map (OrderToProto L) (book_list (getSiteBook s) b)"
  by (simp add: exportLevels_def export_loop_orders)

lemma restoreOrders_append:
  "restoreOrders L (xs @ ys) bc =
     (case restoreOrders L xs bc of (Some e, bc') \<Rightarrow> (Some e, bc') | (None, bc') \<Rightarrow> restoreOrders L ys bc')"
  by (induction xs arbitrary: bc) (auto split: sum.splits simp: Let_def)

lemma restoreLevels_concat: "restoreLevels L lvs bc = restoreOrders L (concat (map l_Orders lvs)) bc"
  by (induction lvs arbitrary: bc) (auto simp: restoreOrders_append split: prod.splits option.splits)

text \<open>Inserting the orders of a sorted list in turn appends them one by one.\<close>

lemma restore_sorted:
  assumes "codec_ok L"
  shows "ordered (book_cmp w) (book_list w b @ xs) \<Longrightarrow>
    \<forall>x \<in> set xs. order_valid x \<and> getSiteBook (o_Side x) = w \<and> o_UpdateTime x \<noteq> 0 \<and> orderMap b (o_OrderID x) = None \<Longrightarrow>
    distinct (map o_OrderID xs) \<Longrightarrow>
    restoreOrders L (map (OrderToProto L) xs) (b, clk) =
      (None, set_book_list w (book_list w b @ xs) (b\<lparr>orderMap := orderMap b ++ map_of (map (\<lambda>x. (o_OrderID x, x)) (rev xs))\<rparr>), clk)"
proof (induction xs arbitrary: b)
  case Nil
  then show ?case by (cases w) simp_all
next
  case (Cons x xs)
  have v: "order_valid x" "getSiteBook (o_Side x) = w" "o_UpdateTime x \<noteq> 0" "orderMap b (o_OrderID x) = None"
    using Cons.prems(2) by auto
  let ?b = "book_insert w x (map_put (o_OrderID x) x b)"
  have i: "InsertOrder x (b, clk) = (?b, clk)"
    using v by (simp add: InsertOrder_fresh stamped_def stamp_clock_def)
  have "ol_insert (book_cmp w) x (book_list w b @ []) = book_list w b @ x # []"
    by (rule bk.insert_position) (use Cons.prems(1) in \<open>simp_all add: sorted_wrt_append\<close>)
  then have l: "book_list w ?b = book_list w b @ [x]" by simp
  have mp: "orderMap ?b = (orderMap b)(o_OrderID x \<mapsto> x)" by simp
  have "restoreOrders L (map (OrderToProto L) xs) (?b, clk) =
      (None, set_book_list w (book_list w ?b @ xs) (?b\<lparr>orderMap := orderMap ?b ++ map_of (map (\<lambda>x. (o_OrderID x, x)) (rev xs))\<rparr>), clk)"
  proof (rule Cons.IH)
    show "ordered (book_cmp w) (book_list w ?b @ xs)" unfolding l using Cons.prems(1) by simp
    show "\<forall>y \<in> set xs. order_valid y \<and> getSiteBook (o_Side y) = w \<and> o_UpdateTime y \<noteq> 0 \<and> orderMap ?b (o_OrderID y) = None"
    proof
      fix y assume y: "y \<in> set xs"
      then have "o_OrderID y \<noteq> o_OrderID x" using Cons.prems(3) by (metis distinct.simps(2) imageI list.simps(9) list.set_map)
      with y Cons.prems(2) show "order_valid y \<and> getSiteBook (o_Side y) = w \<and> o_UpdateTime y \<noteq> 0 \<and> orderMap ?b (o_OrderID y) = None"
        unfolding mp by simp
    qed
  qed (use Cons.prems(3) in simp)
  moreover have "OrderFromProto L (Some (OrderToProto L x)) = Inr x" by (rule OrderFromTo [OF assms v(1)])
  moreover have "orderMap ?b ++ map_of (map (\<lambda>x. (o_OrderID x, x)) (rev xs)) =
      orderMap b ++ map_of (map (\<lambda>x. (o_OrderID x, x)) (rev (x # xs)))"
    by simp
  moreover have "set_book_list w l (?b\<lparr>orderMap := m\<rparr>) = set_book_list w l (b\<lparr>orderMap := m\<rparr>)" for l m
    by (cases w) (simp_all add: book_insert_def map_put_def)
  ultimately show ?case using v(1) i l by (simp add: order_valid_def)
qed

lemma book_ok_distinct_ids: "book_ok b \<Longrightarrow> distinct (map o_OrderID (book_list w b))"
  unfolding distinct_map
  using bk.ordered_distinct [OF book_okD(1)] book_ok_same_id by (blast intro: inj_onI)

lemma Validate_ok: "book_ok b \<Longrightarrow> Validate b = None"
  using book_okD(5) [of b _ Asks]
  by (auto simp: Validate_def BestBid_def BestAsk_def ol_front_def worse_def split: option.splits list.splits)

lemma map_of_ids:
  assumes "book_ok b"
  shows "map_of (map (\<lambda>x. (o_OrderID x, x)) (rev (book_list w b))) k = Some x \<longleftrightarrow>
    x \<in> set (book_list w b) \<and> o_OrderID x = k"
  using map_of_map_key_iff [of o_OrderID "rev (book_list w b)" k x] book_ok_distinct_ids [OF assms, of w]
  by (simp add: rev_map [symmetric])

lemma book_map_from_lists:
  assumes "book_ok b"
  shows "map_of (map (\<lambda>x. (o_OrderID x, x)) (rev (bids b))) ++ map_of (map (\<lambda>x. (o_OrderID x, x)) (rev (asks b)))
     = orderMap b"
proof
  fix k
  note A = map_of_ids [OF assms, of Asks k] and B = map_of_ids [OF assms, of Bids k]
  show "(map_of (map (\<lambda>x. (o_OrderID x, x)) (rev (bids b))) ++
      map_of (map (\<lambda>x. (o_OrderID x, x)) (rev (asks b)))) k = orderMap b k"
  proof (cases "orderMap b k")
    case (Some x)
    then have k: "o_OrderID x = k" and m: "x \<in> set (asks b) \<or> x \<in> set (bids b)"
      using book_okD(4) [OF assms, of k x] by (auto simp: ex_book_side)
    show ?thesis
    proof (cases "x \<in> set (asks b)")
      case True
      with A [of x] k Some show ?thesis by (simp add: map_add_Some_iff)
    next
      case False
      then have xb: "x \<in> set (bids b)" using m by simp
      have "map_of (map (\<lambda>x. (o_OrderID x, x)) (rev (asks b))) k = None"
      proof (rule ccontr)
        assume "\<not> ?thesis"
        then obtain y where "y \<in> set (asks b)" "o_OrderID y = k" using A by auto
        with book_ok_same_id [OF assms, of y Asks x Bids] xb k show False by simp
      qed
      with B [of x] xb k Some show ?thesis by (simp add: map_add_Some_iff)
    qed
  next
    case None
    have "map_of (map (\<lambda>x. (o_OrderID x, x)) (rev (book_list w b))) k = None" for w
    proof (rule ccontr)
      assume "\<not> ?thesis"
      then obtain y where "y \<in> set (book_list w b)" "o_OrderID y = k" using map_of_ids [OF assms, of w k] by auto
      with book_ok_mapped [OF assms] None show False by fastforce
    qed
    from this [of Asks] this [of Bids] None show ?thesis by simp
  qed
qed

lemma restore_exported:
  assumes L: "codec_ok L" and ok: "book_ok b"
    and valid: "\<And>w x. x \<in> set (book_list w b) \<Longrightarrow> order_valid x \<and> o_UpdateTime x \<noteq> 0"
  shows "restoreLevels L (exportLevels L SideBuy b) (NewOrderBook (b_Symbol b), clk) =
      (None, (NewOrderBook (b_Symbol b))\<lparr>bids := bids b, orderMap := map_of (map (\<lambda>x. (o_OrderID x, x)) (rev (bids b)))\<rparr>, clk)"
    and "restoreLevels L (exportLevels L SideSell b)
        ((NewOrderBook (b_Symbol b))\<lparr>bids := bids b, orderMap := map_of (map (\<lambda>x. (o_OrderID x, x)) (rev (bids b)))\<rparr>, clk)
      = (None, b, clk)"
proof -
  let ?b1 = "(NewOrderBook (b_Symbol b))\<lparr>bids := bids b, orderMap := map_of (map (\<lambda>x. (o_OrderID x, x)) (rev (bids b)))\<rparr>"
  have o: "ordered compareBid (bids b)" "ordered compareAsk (asks b)"
    using book_okD(1) [OF ok, of Bids] book_okD(1) [OF ok, of Asks] by simp_all
  have d: "distinct (map o_OrderID (bids b))" "distinct (map o_OrderID (asks b))"
    using book_ok_distinct_ids [OF ok, of Bids] book_ok_distinct_ids [OF ok, of Asks] by simp_all
  have "\<forall>x \<in> set (bids b). order_valid x \<and> getSiteBook (o_Side x) = Bids \<and> o_UpdateTime x \<noteq> 0 \<and>
      orderMap (NewOrderBook (b_Symbol b)) (o_OrderID x) = None"
    using valid [of _ Bids] book_okD(2) [OF ok, of _ Bids] by (simp add: NewOrderBook_def)
  from restore_sorted [OF L, of Bids "NewOrderBook (b_Symbol b)", OF _ this d(1), of clk] o(1)
  show "restoreLevels L (exportLevels L SideBuy b) (NewOrderBook (b_Symbol b), clk) = (None, ?b1, clk)"
    by (simp add: restoreLevels_concat exportLevels_orders getSiteBook_def NewOrderBook_def)
  have "\<forall>x \<in> set (asks b). order_valid x \<and> getSiteBook (o_Side x) = Asks \<and> o_UpdateTime x \<noteq> 0 \<and>
      orderMap ?b1 (o_OrderID x) = None"
  proof
    fix x assume x: "x \<in> set (asks b)"
    have "map_of (map (\<lambda>x. (o_OrderID x, x)) (rev (bids b))) (o_OrderID x) = None"
    proof (rule ccontr)
      assume "\<not> ?thesis"
      then obtain y where "y \<in> set (bids b)" "o_OrderID y = o_OrderID x"
        using map_of_ids [OF ok, of Bids "o_OrderID x"] by auto
      with book_ok_same_id [OF ok, of y Bids x Asks] x show False by simp
    qed
    with valid [of x Asks] book_okD(2) [OF ok, of x Asks] x
    show "order_valid x \<and> getSiteBook (o_Side x) = Asks \<and> o_UpdateTime x \<noteq> 0 \<and> orderMap ?b1 (o_OrderID x) = None"
      by simp
  qed
  from restore_sorted [OF L, of Asks ?b1, OF _ this d(2), of clk] o(2)
  have "restoreLevels L (exportLevels L SideSell b) (?b1, clk) =
      (None, ?b1\<lparr>asks := asks b, orderMap := orderMap b\<rparr>, clk)"
    by (simp add: restoreLevels_concat exportLevels_orders getSiteBook_def NewOrderBook_def book_map_from_lists [OF ok])
  moreover have "?b1\<lparr>asks := asks b, orderMap := orderMap b\<rparr> = b"
    by (simp add: NewOrderBook_def)
  ultimately show "restoreLevels L (exportLevels L SideSell b) (?b1, clk) = (None, b, clk)" by simp
qed

section \<open>Properties\<close>

text \<open>
  Restoring the exported snapshot of a well-formed book gives back that book, order
  for order, with its id index, whatever was in the target book before.
\<close>

theorem snapshot_round_trip:
  assumes "codec_ok L" and "book_ok b"
    and "\<forall>x \<in> set (asks b) \<union> set (bids b). order_valid x \<and> o_UpdateTime x \<noteq> 0"
    and "ExportSnapshot L shardID seqID ts (b, clk) = (snap, clk')"
  shows "RestoreFromSnapshot L (Some snap) (b0, clk0) = (None, b, clk0)"
proof -
  have v: "order_valid x \<and> o_UpdateTime x \<noteq> 0" if "x \<in> set (book_list w b)" for w x
    using that assms(3) by (cases w) auto
  have s: "s_Symbol snap = b_Symbol b" "s_Bids snap = exportLevels L SideBuy b" "s_Asks snap = exportLevels L SideSell b"
    using assms(4) by (auto simp: ExportSnapshot_def split_beta)
  show ?thesis
    using restore_exported [OF assms(1,2) v] Validate_ok [OF assms(2)]
    by (simp add: RestoreFromSnapshot_def s)
qed

theorem snapshot_round_trip_witness:
  "\<exists>snap clk'. ExportSnapshot int_libs ''s1'' 12 0 (wit_book, wit_clock) = (snap, clk') \<and>
     RestoreFromSnapshot int_libs (Some snap) (NewOrderBook ''x'', wit_clock) = (None, wit_book, wit_clock)"
proof -
  have "\<forall>x \<in> set (asks wit_book) \<union> set (bids wit_book). order_valid x \<and> o_UpdateTime x \<noteq> 0"
    by (simp add: wit_book_def wit_order_def order_valid_def)
  from snapshot_round_trip [OF codec_ok_int_libs wit_book_ok this]
  show ?thesis by (metis surj_pair)
qed

text \<open>
  An order survives the conversion to its message and back, and every order that is
  read from a message is one the matcher can take.
\<close>

theorem order_message_round_trip:
  assumes "codec_ok L" and "order_valid od"
  shows "OrderFromProto L (Some (OrderToProto L od)) = Inr od \<and>
    (\<forall>pb x. OrderFromProto L (Some pb) = Inr x \<longrightarrow> 0 < o_Remaining (prepareTaker x) \<and> o_Symbol x \<noteq> [])"
proof -
  have "0 < o_Remaining (prepareTaker x) \<and> o_Symbol x \<noteq> []" if "OrderFromProto L (Some pb) = Inr x" for pb x
    using OrderFromProto_Inr [OF that] by (simp add: prepareTaker_def)
  with OrderFromTo [OF assms] show ?thesis by blast
qed

theorem order_message_round_trip_witness:
  "OrderFromProto int_libs (Some (OrderToProto int_libs wit_taker)) = Inr wit_taker"
proof -
  have "order_valid wit_taker" by (simp add: wit_taker_def wit_order_def order_valid_def)
  from order_message_round_trip [OF codec_ok_int_libs this] show ?thesis by blast
qed

end
