(* ===== verification/SymbolRules.thy ===== *)
theory SymbolRules
  imports Prelude "HOL-Library.Char_ord" "HOL-Library.List_Lexorder"
begin

text \<open>
  Model of \<open>pkg/symbolrules\<close>: trading-pair rules (\<open>spec.go\<close>), asset precisions
  (\<open>asset.go\<close>), the registry of pairs (\<open>registry.go\<close>, \<open>pair.go\<close>) and the
  part of \<open>load.go\<close> after JSON decoding. A Go map that the code ranges over is the
  list of its entries in the order of that iteration. Error messages are cut to their fixed part.
\<close>

section \<open>Pair names\<close>

definition ParsePair :: "string \<Rightarrow> err + (string \<times> string)" where
  "ParsePair symbol0 =
     (let symbol = trim_space symbol0; parts = split_on (CHR ''-'') symbol
      in if length parts \<noteq> 2 then Inl (ErrMsg ''invalid pair'')
         else (let base = trim_space (parts ! 0); quote = trim_space (parts ! 1)
               in if base = '''' \<or> quote = '''' then Inl (ErrMsg ''invalid pair'') else Inr (base, quote)))"

section \<open>Specifications\<close>

record 'd spec =
  sp_Symbol :: string
  sp_BaseAsset :: string
  sp_QuoteAsset :: string
  sp_PricePrecision :: int
  sp_QuantityPrecision :: int
  sp_MinQuantity :: 'd
  sp_MinNotional :: 'd
  sp_Status :: string

definition assertOnGrid :: "('d::linordered_idom) libs \<Rightarrow> 'd \<Rightarrow> int \<Rightarrow> err option" where
  "assertOnGrid L v places =
     (if places < 0 then Some (ErrMsg ''invalid precision'')
      else if v \<noteq> dec_trunc L places v then Some (ErrMsg ''exceeds allowed precision'')
      else None)"

definition ceilToPlaces :: "('d::linordered_idom) libs \<Rightarrow> 'd \<Rightarrow> int \<Rightarrow> 'd" where
  "ceilToPlaces L v places =
     (if places < 0 then v
      else (let truncated = dec_trunc L places v
            in if v = truncated then truncated else truncated + dec_new L 1 (- places)))"

definition ValidateQuantity :: "('d::linordered_idom) libs \<Rightarrow> 'd spec \<Rightarrow> 'd \<Rightarrow> err + string" where
  "ValidateQuantity L s qty =
     (case assertOnGrid L qty (sp_QuantityPrecision s) of Some e \<Rightarrow> Inl e
      | None \<Rightarrow>
          if 0 < sp_MinQuantity s \<and> qty < sp_MinQuantity s then Inl (ErrMsg ''quantity below min_quantity'')
          else Inr (dec_to_string L qty))"

definition ValidatePrice :: "('d::linordered_idom) libs \<Rightarrow> 'd spec \<Rightarrow> 'd \<Rightarrow> err + string" where
  "ValidatePrice L s price =
     (case assertOnGrid L price (sp_PricePrecision s) of Some e \<Rightarrow> Inl e
      | None \<Rightarrow>
          if \<not> 0 < price then Inl (ErrMsg ''price must be positive'')
          else Inr (dec_to_string L price))"

definition CeilPrice :: "('d::linordered_idom) libs \<Rightarrow> 'd spec \<Rightarrow> 'd \<Rightarrow> err + string" where
  "CeilPrice L s price =
     (if \<not> 0 < price then Inl (ErrMsg ''price must be positive'')
      else Inr (dec_to_string L (ceilToPlaces L price (sp_PricePrecision s))))"

definition CheckMinNotional :: "('d::linordered_idom) spec \<Rightarrow> 'd \<Rightarrow> 'd \<Rightarrow> err option" where
  "CheckMinNotional s price qty =
     (if sp_MinNotional s = 0 then None
      else if price * qty < sp_MinNotional s then Some (ErrMsg ''notional below min_notional'')
      else None)"

section \<open>The registry of pairs\<close>

type_synonym 'd registry = "(string \<times> 'd spec) list"

definition normalizeKey :: "string \<Rightarrow> string" where
  "normalizeKey symbol = trim_space symbol"

fun add_specs :: "'d spec list \<Rightarrow> 'd registry \<Rightarrow> err + 'd registry" where
  "add_specs [] m = Inr m"
| "add_specs (sp # specs) m =
     (let key = normalizeKey (sp_Symbol sp)
      in if key = '''' then Inl (ErrMsg ''symbolrules: empty symbol in spec'')
         else if map_of m key \<noteq> None then Inl ErrDuplicateSymbol
         else if sp_PricePrecision sp < 0 \<or> sp_QuantityPrecision sp < 0
              then Inl (ErrMsg ''symbolrules: invalid precision'')
         else (let sp' = (if sp_Status sp = '''' then sp\<lparr>sp_Status := ''TRADING''\<rparr> else sp)
               in add_specs specs (m @ [(key, sp')])))"

definition NewRegistry :: "'d spec list \<Rightarrow> err + 'd registry" where
  "NewRegistry specs = add_specs specs []"

definition Lookup :: "'d registry option \<Rightarrow> string \<Rightarrow> err + 'd spec" where
  "Lookup r symbol =
     (case r of None \<Rightarrow> Inl (ErrMsg ''symbol registry not configured'')
      | Some m \<Rightarrow>
          (let key = normalizeKey symbol
           in if key = '''' then Inl (ErrMsg ''symbol is required'')
              else (case map_of m key of None \<Rightarrow> Inl (ErrMsg ''unknown or unsupported symbol'')
                    | Some sp \<Rightarrow> Inr sp)))"

definition registry_All :: "'d registry option \<Rightarrow> 'd spec list" where
  "registry_All r = (case r of None \<Rightarrow> [] | Some m \<Rightarrow> sort_key sp_Symbol (map snd m))"

text \<open>\<open>RequireFromString\<close> panics where \<open>the\<close> has no value; the two literals are numerals.\<close>

definition DefaultBTCUSDTSpec :: "'d libs \<Rightarrow> 'd spec" where
  "DefaultBTCUSDTSpec L =
     \<lparr> sp_Symbol = ''BTC-USDT'', sp_BaseAsset = ''BTC'', sp_QuoteAsset = ''USDT'',
       sp_PricePrecision = 2, sp_QuantityPrecision = 6,
       sp_MinQuantity = the (dec_of_string L ''0.000001''), sp_MinNotional = the (dec_of_string L ''5''),
       sp_Status = ''TRADING'' \<rparr>"

definition DefaultRegistry :: "'d libs \<Rightarrow> err + 'd registry" where
  "DefaultRegistry L = NewRegistry [DefaultBTCUSDTSpec L]"

record rule_config =
  rc_BaseAsset :: string
  rc_QuoteAsset :: string
  rc_PricePrecision :: int
  rc_QuantityPrecision :: int
  rc_MinQuantity :: string
  rc_MinNotional :: string
  rc_Status :: string

definition ParseSpec :: "('d::linordered_idom) libs \<Rightarrow> string \<Rightarrow> rule_config \<Rightarrow> err + 'd spec" where
  "ParseSpec L symbol0 rule =
     (let symbol = normalizeKey symbol0
      in if symbol = '''' then Inl (ErrMsg ''symbol is required'')
         else case dec_of_string L (trim_space (rc_MinQuantity rule)) of
           None \<Rightarrow> Inl (ErrMsg ''invalid min_quantity'')
         | Some mq \<Rightarrow>
           if \<not> 0 < mq then Inl (ErrMsg ''invalid min_quantity'')
           else (case dec_of_string L (trim_space (rc_MinNotional rule)) of
             None \<Rightarrow> Inl (ErrMsg ''invalid min_notional'')
           | Some mn \<Rightarrow>
             if mn < 0 then Inl (ErrMsg ''invalid min_notional'')
             else (let base0 = trim_space (rc_BaseAsset rule); quote0 = trim_space (rc_QuoteAsset rule)
                   in case (if base0 = '''' \<or> quote0 = '''' then ParsePair symbol else Inr (base0, quote0)) of
                        Inl e \<Rightarrow> Inl e
                      | Inr (base, quote) \<Rightarrow>
                          (let status = trim_space (rc_Status rule)
                           in Inr \<lparr> sp_Symbol = symbol, sp_BaseAsset = base, sp_QuoteAsset = quote,
                                 sp_PricePrecision = rc_PricePrecision rule,
                                 sp_QuantityPrecision = rc_QuantityPrecision rule,
                                 sp_MinQuantity = mq, sp_MinNotional = mn,
                                 sp_Status = (if status = '''' then ''TRADING'' else status) \<rparr>))))"

fun parse_specs :: "('d::linordered_idom) libs \<Rightarrow> (string \<times> rule_config) list \<Rightarrow> err + 'd spec list" where
  "parse_specs L [] = Inr []"
| "parse_specs L ((symbol, rule) # m) =
     (case ParseSpec L symbol rule of Inl e \<Rightarrow> Inl e
      | Inr sp \<Rightarrow> (case parse_specs L m of Inl e \<Rightarrow> Inl e | Inr sps \<Rightarrow> Inr (sp # sps)))"

definition RegistryFromMap :: "('d::linordered_idom) libs \<Rightarrow> (string \<times> rule_config) list \<Rightarrow> err + 'd registry" where
  "RegistryFromMap L m =
     (case parse_specs L m of Inl e \<Rightarrow> Inl e | Inr specs \<Rightarrow> NewRegistry specs)"

section \<open>Asset precisions\<close>

record asset_registry =
  byAsset :: "string \<rightharpoonup> int"
  defaultPrecision :: int

definition normalizeAsset :: "string \<Rightarrow> string" where
  "normalizeAsset asset = trim_space (to_upper asset)"

fun add_assets :: "(string \<times> int) list \<Rightarrow> int \<Rightarrow> (string \<rightharpoonup> int) \<Rightarrow> err + (string \<rightharpoonup> int)" where
  "add_assets [] dp m = Inr m"
| "add_assets ((asset, prec) # rules) dp m =
     (let key = normalizeAsset asset
      in if key = '''' then Inl (ErrMsg ''symbolrules: empty asset name'')
         else if prec < 0 then Inl (ErrMsg ''symbolrules: invalid precision for asset'')
         else add_assets rules dp (m(key \<mapsto> (if prec = 0 then dp else prec))))"

definition NewAssetRegistry :: "(string \<times> int) list \<Rightarrow> int \<Rightarrow> err + asset_registry" where
  "NewAssetRegistry rules dp0 =
     (if dp0 < 0 then Inl (ErrMsg ''symbolrules: invalid default asset precision'')
      else (let dp = (if dp0 = 0 then 8 else dp0)
            in case add_assets rules dp Map.empty of Inl e \<Rightarrow> Inl e
               | Inr m \<Rightarrow> Inr \<lparr> byAsset = m, defaultPrecision = dp \<rparr>))"

definition Ensure :: "string \<Rightarrow> int \<Rightarrow> asset_registry \<Rightarrow> asset_registry" where
  "Ensure asset precision a =
     (let key = normalizeAsset asset
      in if key = '''' \<or> precision < 0 then a
         else case byAsset a key of
                Some _ \<Rightarrow> a
              | None \<Rightarrow> a\<lparr>byAsset := (byAsset a)(key \<mapsto> (if precision = 0 then defaultPrecision a else precision))\<rparr>)"

definition Precision :: "asset_registry option \<Rightarrow> string \<Rightarrow> int" where
  "Precision ao asset =
     (case ao of None \<Rightarrow> 8
      | Some a \<Rightarrow>
          (case byAsset a (normalizeAsset asset) of
             Some p \<Rightarrow> p
           | None \<Rightarrow> if 0 < defaultPrecision a then defaultPrecision a else 8))"

definition RoundDown :: "('d::linordered_idom) libs \<Rightarrow> asset_registry option \<Rightarrow> string \<Rightarrow> 'd \<Rightarrow> 'd" where
  "RoundDown L a asset v =
     (if v < 0 then dec_trunc L (Precision a asset) v else dec_trunc L (Precision a asset) v)"

definition RoundUp :: "('d::linordered_idom) libs \<Rightarrow> asset_registry option \<Rightarrow> string \<Rightarrow> 'd \<Rightarrow> 'd" where
  "RoundUp L a asset v =
     (if v < 0 then v
      else (let p = Precision a asset; truncated = dec_trunc L p v
            in if v = truncated then truncated else truncated + dec_new L 1 (- p)))"

fun ensure_specs :: "'d spec list \<Rightarrow> int \<Rightarrow> asset_registry \<Rightarrow> asset_registry" where
  "ensure_specs [] dp a = a"
| "ensure_specs (sp # specs) dp a =
     ensure_specs specs dp (Ensure (sp_QuoteAsset sp) dp (Ensure (sp_BaseAsset sp) dp a))"

definition EnrichAssetsFromSymbols :: "'d registry option \<Rightarrow> int \<Rightarrow> asset_registry \<Rightarrow> asset_registry" where
  "EnrichAssetsFromSymbols reg dp0 a =
     (if reg = None then a
      else ensure_specs (registry_All reg) (if dp0 \<le> 0 then 8 else dp0) a)"

text \<open>\<open>ParseFile\<close> after \<open>json.Unmarshal\<close>.\<close>

definition ParseFile ::
  "('d::linordered_idom) libs \<Rightarrow> (string \<times> rule_config) list \<Rightarrow> (string \<times> int) list \<Rightarrow> err + ('d registry \<times> asset_registry)" where
  "ParseFile L symbols assets =
     (case (if symbols = [] then DefaultRegistry L else RegistryFromMap L symbols) of
        Inl e \<Rightarrow> Inl e
      | Inr reg \<Rightarrow>
          (case NewAssetRegistry assets 8 of
             Inl e \<Rightarrow> Inl e
           | Inr a \<Rightarrow> Inr (reg, EnrichAssetsFromSymbols (Some reg) 8 a)))"

text \<open>
  \<open>LoadRulesFromConfig\<close>: the decoded file (or why it cannot be read) when one is
  configured, else the inline rules, else the default pair.
\<close>

definition LoadRulesFromConfig ::
  "('d::linordered_idom) libs \<Rightarrow> (err + (string \<times> rule_config) list \<times> (string \<times> int) list) option \<Rightarrow>
     (string \<times> rule_config) list \<Rightarrow> err + ('d registry \<times> asset_registry)" where
  "LoadRulesFromConfig L symbolsFile inline =
     (case symbolsFile of
        Some (Inl e) \<Rightarrow> Inl e
      | Some (Inr (symbols, assets)) \<Rightarrow> ParseFile L symbols assets
      | None \<Rightarrow>
          (case (if inline \<noteq> [] then RegistryFromMap L inline else DefaultRegistry L) of
             Inl e \<Rightarrow> Inl e
           | Inr reg \<Rightarrow>
               (case NewAssetRegistry [(''BTC'', 8), (''USDT'', 8)] 8 of
                  Inl e \<Rightarrow> Inl e
                | Inr a \<Rightarrow> Inr (reg, if inline \<noteq> [] then EnrichAssetsFromSymbols (Some reg) 8 a else a))))"

section \<open>The registry\<close>

lemma add_specs_Inr:
  "add_specs specs m = Inr m' \<Longrightarrow> distinct (map fst m) \<Longrightarrow>
     distinct (map fst m') \<and>
     (\<exists>r. m' = m @ r \<and> map fst r = map (\<lambda>sp. normalizeKey (sp_Symbol sp)) specs \<and>
        map (sp_Symbol \<circ> snd) r = map sp_Symbol specs \<and> [] \<notin> fst ` set r \<and>
        (\<forall>sp \<in> snd ` set r. 0 \<le> sp_PricePrecision sp \<and> 0 \<le> sp_QuantityPrecision sp \<and> sp_Status sp \<noteq> []))"
proof (induction specs arbitrary: m)
  case Nil
  then show ?case by simp
next
  case (Cons sp specs)
  let ?key = "normalizeKey (sp_Symbol sp)"
  let ?sp = "if sp_Status sp = [] then sp\<lparr>sp_Status := ''TRADING''\<rparr> else sp"
  have c: "?key \<noteq> []" "map_of m ?key = None" "0 \<le> sp_PricePrecision sp" "0 \<le> sp_QuantityPrecision sp"
    and r: "add_specs specs (m @ [(?key, ?sp)]) = Inr m'"
    using Cons.prems(1) by (auto simp: Let_def not_less split: if_splits)
  have "distinct (map fst (m @ [(?key, ?sp)]))" using Cons.prems(2) c(2) by (auto simp: map_of_eq_None_iff)
  from Cons.IH [OF r this] obtain r' where "distinct (map fst m')" "m' = (m @ [(?key, ?sp)]) @ r'"
    "map fst r' = map (\<lambda>sp. normalizeKey (sp_Symbol sp)) specs" "map (sp_Symbol \<circ> snd) r' = map sp_Symbol specs"
    "[] \<notin> fst ` set r'"
    "\<forall>sp \<in> snd ` set r'. 0 \<le> sp_PricePrecision sp \<and> 0 \<le> sp_QuantityPrecision sp \<and> sp_Status sp \<noteq> []"
    by blast
  with c show ?case by (intro conjI exI [of _ "(?key, ?sp) # r'"]) (auto simp: o_def)
qed

lemma NewRegistry_Lookup:
  assumes "NewRegistry specs = Inr reg" and "sp \<in> set specs"
  shows "\<exists>sp'. Lookup (Some reg) (sp_Symbol sp) = Inr sp' \<and> sp_Symbol sp' = sp_Symbol sp"
proof -
  from add_specs_Inr [of specs "[]" reg] assms(1)
  have d: "distinct (map fst reg)" and k: "map fst reg = map (\<lambda>sp. normalizeKey (sp_Symbol sp)) specs"
    and s: "map (sp_Symbol \<circ> snd) reg = map sp_Symbol specs" and ne: "[] \<notin> fst ` set reg"
    by (auto simp: NewRegistry_def)
  obtain i where i: "i < length specs" "sp = specs ! i" using assms(2) by (metis in_set_conv_nth)
  have len: "length reg = length specs" using k by (metis length_map)
  have key: "fst (reg ! i) = normalizeKey (sp_Symbol sp)"
    using arg_cong [OF k, of "\<lambda>l. l ! i"] i len by simp
  have symb: "sp_Symbol (snd (reg ! i)) = sp_Symbol sp"
    using arg_cong [OF s, of "\<lambda>l. l ! i"] i len by simp
  have "map_of reg (normalizeKey (sp_Symbol sp)) = Some (snd (reg ! i))"
    using d i(1) len key by (intro map_of_is_SomeI) (auto intro: nth_mem simp flip: key)
  moreover have "normalizeKey (sp_Symbol sp) \<noteq> []"
    using ne i(1) len key by (metis image_eqI nth_mem)
  ultimately show ?thesis using symb by (simp add: Lookup_def)
qed

section \<open>Asset precisions and rounding\<close>

definition asset_ok :: "asset_registry \<Rightarrow> bool" where
  "asset_ok a \<longleftrightarrow> (\<forall>k p. byAsset a k = Some p \<longrightarrow> 0 < p) \<and> 0 < defaultPrecision a"

lemma add_assets_ok:
  "add_assets rules dp m = Inr m' \<Longrightarrow> 0 < dp \<Longrightarrow> (\<And>k p. m k = Some p \<Longrightarrow> 0 < p) \<Longrightarrow>
     m' k = Some p \<Longrightarrow> 0 < p"
proof (induction rules dp m rule: add_assets.induct)
  case (2 asset prec rules dp m)
  from 2(2) have r: "add_assets rules dp (m(normalizeAsset asset \<mapsto> (if prec = 0 then dp else prec))) = Inr m'"
    and c: "normalizeAsset asset \<noteq> []" "\<not> prec < 0"
    by (auto simp: Let_def split: if_splits)
  show ?case
    by (rule 2(1) [OF refl _ _ r 2(3)]) (use c 2(3,4,5) in \<open>auto split: if_splits\<close>)
qed auto

lemma NewAssetRegistry_ok [inv_intros]: "NewAssetRegistry rules dp = Inr a \<Longrightarrow> asset_ok a"
  using add_assets_ok [of rules "if dp = 0 then 8 else dp" Map.empty]
  by (auto simp: NewAssetRegistry_def asset_ok_def Let_def split: if_splits sum.splits)

lemma Ensure_ok [inv_intros]: "asset_ok a \<Longrightarrow> asset_ok (Ensure asset p a)"
  by (auto simp: Ensure_def asset_ok_def Let_def split: option.splits)

lemma ensure_specs_ok [inv_intros]: "asset_ok a \<Longrightarrow> asset_ok (ensure_specs sps dp a)"
  by (induction sps dp a rule: ensure_specs.induct) (auto intro: inv_intros)

lemma EnrichAssets_ok [inv_intros]: "asset_ok a \<Longrightarrow> asset_ok (EnrichAssetsFromSymbols reg dp a)"
  by (simp add: EnrichAssetsFromSymbols_def ensure_specs_ok)

lemma Precision_nonneg: "(\<And>x. a = Some x \<Longrightarrow> asset_ok x) \<Longrightarrow> 0 \<le> Precision a asset"
  by (auto simp: Precision_def asset_ok_def less_imp_le split: option.splits)

lemma LoadRules_asset_ok: "LoadRulesFromConfig L f inline = Inr (reg, a) \<Longrightarrow> asset_ok a"
  by (auto simp: LoadRulesFromConfig_def ParseFile_def split: option.splits sum.splits prod.splits if_splits
      intro!: EnrichAssets_ok intro: NewAssetRegistry_ok)

lemma rounding_bounds:
  assumes L: "trunc_ok L" and a: "\<And>x. a = Some x \<Longrightarrow> asset_ok x" and v: "0 \<le> v"
  shows "0 \<le> RoundDown L a asset v" "RoundDown L a asset v \<le> v" "v \<le> RoundUp L a asset v"
    "RoundUp L a asset v \<le> RoundDown L a asset v + dec_new L 1 (- Precision a asset)"
    "RoundUp L a asset v = v \<or> v < RoundUp L a asset v"
    "dec_trunc L (Precision a asset) (RoundDown L a asset v) = RoundDown L a asset v"
    "dec_trunc L (Precision a asset) (RoundUp L a asset v) = RoundUp L a asset v"
proof -
  have p: "0 \<le> Precision a asset" by (rule Precision_nonneg [OF a])
  note t = trunc_okD(1-3) [OF L p v] trunc_okD(4,5) [OF L p]
  have step: "0 \<le> dec_new L 1 (- Precision a asset)" using t(2,3) by linarith
  show "0 \<le> RoundDown L a asset v" "RoundDown L a asset v \<le> v" "v \<le> RoundUp L a asset v"
    "RoundUp L a asset v \<le> RoundDown L a asset v + dec_new L 1 (- Precision a asset)"
    "RoundUp L a asset v = v \<or> v < RoundUp L a asset v"
    "dec_trunc L (Precision a asset) (RoundDown L a asset v) = RoundDown L a asset v"
    "dec_trunc L (Precision a asset) (RoundUp L a asset v) = RoundUp L a asset v"
    using t v step by (auto simp: RoundDown_def RoundUp_def Let_def)
qed

section \<open>Properties\<close>


definition wit_rule :: rule_config where
  "wit_rule = \<lparr> rc_BaseAsset = ''ETH'', rc_QuoteAsset = ''USDT'', rc_PricePrecision = 2,
     rc_QuantityPrecision = 4, rc_MinQuantity = ''1'', rc_MinNotional = ''5'', rc_Status = '''' \<rparr>"

lemma wit_rules_load: "\<exists>reg a. LoadRulesFromConfig int_libs None [(''ETH-USDT'', wit_rule)] = Inr (reg, a)"
  by (simp add: LoadRulesFromConfig_def RegistryFromMap_def ParseSpec_def wit_rule_def int_libs_def
      int_of_string_def is_digit_def digits_val_def digit_val_def trim_space_def is_space_def
      normalizeKey_def NewRegistry_def NewAssetRegistry_def normalizeAsset_def to_upper_def
      to_upper_char_def Let_def)


text \<open>
  A registry that is built knows every pair it was built from, under its symbol with
  or without surrounding blanks, and lists all of them in the order of their symbols.
\<close>

theorem registry_complete:
  assumes "NewRegistry specs = Inr reg"
  shows "(\<forall>sp \<in> set specs. \<exists>sp'. Lookup (Some reg) (sp_Symbol sp) = Inr sp' \<and> sp_Symbol sp' = sp_Symbol sp) \<and>
    sorted (map sp_Symbol (registry_All (Some reg))) \<and>
    set (map sp_Symbol (registry_All (Some reg))) = set (map sp_Symbol specs) \<and>
    length (registry_All (Some reg)) = length specs"
proof -
  from add_specs_Inr [of specs "[]" reg] assms
  have s: "map (sp_Symbol \<circ> snd) reg = map sp_Symbol specs" by (auto simp: NewRegistry_def)
  have "set (map sp_Symbol (registry_All (Some reg))) = set (map (sp_Symbol \<circ> snd) reg)"
    by (auto simp: registry_All_def)
  moreover have "length reg = length specs" using s by (metis length_map)
  ultimately show ?thesis
    using NewRegistry_Lookup [OF assms] s by (simp add: registry_All_def)
qed

theorem registry_complete_witness:
  "\<exists>reg. NewRegistry [(DefaultBTCUSDTSpec int_libs)\<lparr>sp_Symbol := ''B''\<rparr>, DefaultBTCUSDTSpec int_libs] = Inr reg \<and>
     length (registry_All (Some reg)) = 2"
proof -
  obtain reg where r: "NewRegistry [(DefaultBTCUSDTSpec int_libs)\<lparr>sp_Symbol := ''B''\<rparr>, DefaultBTCUSDTSpec int_libs] = Inr reg"
    by (simp add: NewRegistry_def DefaultBTCUSDTSpec_def normalizeKey_def trim_space_def is_space_def Let_def)
  with registry_complete [OF r] show ?thesis by simp
qed

end
