(* ===== verification/SymbolShard.thy ===== *)
theory SymbolShard
  imports EngineSnapshot SymbolRules
begin

text \<open>
  Model of \<open>internal/matching/symbol\<close>: the runtime of one trading pair
  (\<open>symbol_engine.go\<close>), the shard that routes commands by symbol (\<open>shard.go\<close>) and the
  registration of a rule table (\<open>load.go\<close>). An engine is reached through a pointer
  in the shard's map, so the model writes the changed engine back into the map.
\<close>

section \<open>One trading pair\<close>

record 'd symbol_engine =
  se_Symbol :: string
  se_BaseAsset :: string
  se_QuoteAsset :: string
  se_PricePrecision :: int
  se_QuantityPrecision :: int
  se_MinQuantity :: 'd
  se_OrderBook :: "'d order_book"
  se_ReadOnly :: bool
  se_ReadOnlyReason :: string

definition NewSymbolEngine :: "string \<Rightarrow> string \<Rightarrow> string \<Rightarrow> ('d::zero) symbol_engine" where
  "NewSymbolEngine symbol baseAsset quoteAsset =
     \<lparr> se_Symbol = symbol, se_BaseAsset = baseAsset, se_QuoteAsset = quoteAsset,
       se_PricePrecision = 0, se_QuantityPrecision = 0, se_MinQuantity = 0,
       se_OrderBook = NewOrderBook symbol, se_ReadOnly = False, se_ReadOnlyReason = '''' \<rparr>"

definition NewSymbolEngineFromSpec :: "'d spec \<Rightarrow> 'd symbol_engine" where
  "NewSymbolEngineFromSpec sp =
     \<lparr> se_Symbol = sp_Symbol sp, se_BaseAsset = sp_BaseAsset sp, se_QuoteAsset = sp_QuoteAsset sp,
       se_PricePrecision = sp_PricePrecision sp, se_QuantityPrecision = sp_QuantityPrecision sp,
       se_MinQuantity = sp_MinQuantity sp,
       se_OrderBook = NewOrderBook (sp_Symbol sp), se_ReadOnly = False, se_ReadOnlyReason = '''' \<rparr>"

definition rulesSpec :: "('d::zero) symbol_engine \<Rightarrow> 'd spec" where
  "rulesSpec se =
     \<lparr> sp_Symbol = se_Symbol se, sp_BaseAsset = se_BaseAsset se, sp_QuoteAsset = se_QuoteAsset se,
       sp_PricePrecision = se_PricePrecision se, sp_QuantityPrecision = se_QuantityPrecision se,
       sp_MinQuantity = se_MinQuantity se, sp_MinNotional = 0, sp_Status = '''' \<rparr>"

definition hasRules :: "('d::linordered_idom) symbol_engine \<Rightarrow> bool" where
  "hasRules se \<longleftrightarrow> 0 < se_PricePrecision se \<or> 0 < se_QuantityPrecision se \<or> 0 < se_MinQuantity se"

definition ValidateOrder :: "('d::linordered_idom) libs \<Rightarrow> 'd symbol_engine \<Rightarrow> 'd order \<Rightarrow> err option" where
  "ValidateOrder L se od =
     (if \<not> hasRules se then None
      else (let rs = rulesSpec se
            in case ValidateQuantity L rs (o_Quantity od) of
                 Inl e \<Rightarrow> Some e
               | Inr _ \<Rightarrow>
                   if o_Type od = OrderTypeLimit \<and> 0 < o_Price od
                   then (case ValidatePrice L rs (o_Price od) of Inl e \<Rightarrow> Some e | Inr _ \<Rightarrow> None)
                   else None))"

definition se_Match ::
  "('d::linordered_idom) libs \<Rightarrow> 'd order \<Rightarrow> uint64 \<Rightarrow> 'd symbol_engine \<times> clock \<Rightarrow>
     (err + 'd trade list) \<times> 'd symbol_engine \<times> clock" where
  "se_Match L taker0 commandSeq sc =
     (let (se, clk) = sc;
          taker = (if o_Symbol taker0 = '''' then taker0\<lparr>o_Symbol := se_Symbol se\<rparr> else taker0)
      in if o_Symbol taker \<noteq> se_Symbol se then (Inl (ErrMsg ''symbol mismatch''), se, clk)
         else case ValidateOrder L se taker of
                Some e \<Rightarrow> (Inl e, se, clk)
              | None \<Rightarrow>
                  (let (r, b, clk') = Match taker commandSeq (se_OrderBook se, clk)
                   in (r, se\<lparr>se_OrderBook := b\<rparr>, clk')))"

definition se_Cancel :: "uint64 \<Rightarrow> ('d::linorder) symbol_engine \<Rightarrow> 'd symbol_engine" where
  "se_Cancel orderID se = se\<lparr>se_OrderBook := RemoveOrder orderID (se_OrderBook se)\<rparr>"

section \<open>The shard\<close>

type_synonym 'd shard = "string \<rightharpoonup> 'd symbol_engine"

definition NewShard :: "'d shard" where
  "NewShard = Map.empty"

definition Register :: "'d symbol_engine \<Rightarrow> 'd shard \<Rightarrow> 'd shard" where
  "Register se s = s(se_Symbol se \<mapsto> se)"

definition shard_Get :: "'d shard \<Rightarrow> string \<Rightarrow> 'd symbol_engine option" where
  "shard_Get s symbol = s symbol"

definition shard_Symbol :: "string \<Rightarrow> ('d::zero) shard \<Rightarrow> 'd symbol_engine \<times> 'd shard" where
  "shard_Symbol symbol s =
     (case s symbol of
        Some se \<Rightarrow> (se, s)
      | None \<Rightarrow> (let se = NewSymbolEngine symbol '''' '''' in (se, s(symbol \<mapsto> se))))"

definition SetReadOnly :: "string \<Rightarrow> string \<Rightarrow> ('d::zero) shard \<Rightarrow> 'd shard" where
  "SetReadOnly symbol reason s =
     (if symbol = '''' then s
      else (let (se, s') = shard_Symbol symbol s
            in s'(symbol \<mapsto> se\<lparr>se_ReadOnly := True, se_ReadOnlyReason := reason\<rparr>)))"

definition IsReadOnly :: "'d shard \<Rightarrow> string \<Rightarrow> bool" where
  "IsReadOnly s symbol = (case s symbol of None \<Rightarrow> False | Some se \<Rightarrow> se_ReadOnly se)"

definition ReadOnlyReason :: "'d shard \<Rightarrow> string \<Rightarrow> string" where
  "ReadOnlyReason s symbol =
     (case s symbol of None \<Rightarrow> '''' | Some se \<Rightarrow> if \<not> se_ReadOnly se then '''' else se_ReadOnlyReason se)"

definition shard_Match ::
  "('d::linordered_idom) libs \<Rightarrow> 'd order \<Rightarrow> uint64 \<Rightarrow> 'd shard \<times> clock \<Rightarrow>
     (err + 'd trade list) \<times> 'd shard \<times> clock" where
  "shard_Match L taker commandSeq sc =
     (let (s, clk) = sc
      in if o_Symbol taker = '''' then (Inl ErrSymbolRequired, s, clk)
         else if IsReadOnly s (o_Symbol taker) then (Inl ErrSymbolReadOnly, s, clk)
         else case shard_Get s (o_Symbol taker) of
                None \<Rightarrow> (Inl (ErrMsg ''unknown symbol''), s, clk)
              | Some se \<Rightarrow>
                  (let (r, se', clk') = se_Match L taker commandSeq (se, clk)
                   in (r, s(o_Symbol taker \<mapsto> se'), clk')))"

definition shard_Cancel :: "string \<Rightarrow> uint64 \<Rightarrow> ('d::linordered_idom) shard \<Rightarrow> err option \<times> 'd shard" where
  "shard_Cancel symbol orderID s =
     (if symbol = '''' then (Some ErrSymbolRequired, s)
      else (let (se, s') = shard_Symbol symbol s
            in (None, s'(symbol \<mapsto> se_Cancel orderID se))))"

definition shard_Symbols :: "'d shard \<Rightarrow> string set" where
  "shard_Symbols s = dom s"

fun register_specs :: "'d spec list \<Rightarrow> 'd shard \<Rightarrow> 'd shard" where
  "register_specs [] s = s"
| "register_specs (sp # specs) s = register_specs specs (Register (NewSymbolEngineFromSpec sp) s)"

definition RegisterRegistry :: "'d registry option \<Rightarrow> 'd shard \<Rightarrow> 'd shard" where
  "RegisterRegistry reg s = (if reg = None then s else register_specs (registry_All reg) s)"

section \<open>What a command does to the resting orders\<close>

text \<open>
  A property of orders that does not look at the remaining quantity or the update time
  holds of every resting order after a command if it held before and holds of the taker.
\<close>

definition stable :: "('d order \<Rightarrow> bool) \<Rightarrow> bool" where
  "stable P \<longleftrightarrow> (\<forall>x r t. P x \<longrightarrow> P (x\<lparr>o_Remaining := r, o_UpdateTime := t\<rparr>))"

definition all_orders :: "('d order \<Rightarrow> bool) \<Rightarrow> 'd order_book \<Rightarrow> bool" where
  "all_orders P b \<longleftrightarrow> (\<forall>w. \<forall>x \<in> set (book_list w b). P x)"

lemma stableD:
  assumes "stable P" "P x"
  shows "P (x\<lparr>o_Remaining := r, o_UpdateTime := t\<rparr>)" "P (x\<lparr>o_Remaining := r\<rparr>)" "P (x\<lparr>o_UpdateTime := t\<rparr>)"
proof -
  show *: "P (x\<lparr>o_Remaining := r, o_UpdateTime := t\<rparr>)" for r t using assms by (simp add: stable_def)
  show "P (x\<lparr>o_Remaining := r\<rparr>)" using * [where r = r and t = "o_UpdateTime x"] by simp
  show "P (x\<lparr>o_UpdateTime := t\<rparr>)" using * [where r = "o_Remaining x" and t = t] by simp
qed

lemma all_orders_insert: "all_orders P b \<Longrightarrow> P v \<Longrightarrow> all_orders P (book_insert w v b)"
  unfolding all_orders_def
  using bk.insert_set_less by (metis book_updates(1,2))

lemma all_orders_delete: "all_orders P b \<Longrightarrow> all_orders P (book_delete w v b)"
  unfolding all_orders_def
  using bk.delete_set by (metis book_updates(5,6))

lemma all_orders_map [simp]:
  "all_orders P (map_put k v b) = all_orders P b" "all_orders P (map_del k b) = all_orders P b"
  by (simp_all add: all_orders_def)

lemma consume_maker_all:
  "all_orders P b \<Longrightarrow> stable P \<Longrightarrow> P m \<Longrightarrow> all_orders P (fst (consume_maker w m (b, clk)))"
  by (auto simp: consume_maker_def Let_def split_beta intro: all_orders_insert all_orders_delete stableD)

lemma matchAgainstBook_all:
  "matchAgainstBook w seq iter taker (b, clk) = (trs, taker', b', clk') \<Longrightarrow> all_orders P b \<Longrightarrow> stable P \<Longrightarrow>
     \<forall>m \<in> set iter. P m \<Longrightarrow> P taker \<Longrightarrow> all_orders P b' \<and> P taker'"
proof (induction iter arbitrary: taker b clk trs)
  case Nil
  then show ?case by simp
next
  case (Cons m iter)
  from Cons.prems(1) show ?case
  proof (cases rule: loop_cases)
    case stop
    with Cons.prems show ?thesis by simp
  next
    case (step tr taker1 bc1 trs1)
    then obtain b1 clk1 where s: "match_step w seq taker m (b, clk) = (tr, taker1, b1, clk1)"
      and r: "matchAgainstBook w seq iter taker1 (b1, clk1) = (trs1, taker', b', clk')"
      by (cases bc1) auto
    let ?m = "m\<lparr>o_Remaining := o_Remaining m - min (o_Remaining taker) (o_Remaining m)\<rparr>"
    have "P ?m" using Cons.prems(3,4) stableD(2) by auto
    then have "all_orders P b1"
      using consume_maker_all [OF Cons.prems(2,3), of ?m w clk] s by (auto simp: match_step_def Let_def split_beta)
    moreover have "P taker1" using match_step_fields(7) [OF s] Cons.prems(3,5) stableD(1) by auto
    ultimately show ?thesis using Cons.IH [OF r _ Cons.prems(3)] Cons.prems(4) by simp
  qed
qed

lemma InsertOrder_all:
  assumes "all_orders P b" "stable P" "P od"
  shows "all_orders P (fst (InsertOrder od (b, clk)))"
proof -
  have "P (od\<lparr>o_UpdateTime := t\<rparr>)" for t using assms(2,3) by (rule stableD)
  with assms show ?thesis
    by (auto simp: InsertOrder_def Let_def split_beta intro!: all_orders_insert split: option.splits)
qed

lemma Match_all:
  assumes m: "Match od seq (b, clk) = (r, b', clk')" and b: "all_orders P b" and P: "stable P" "P od"
  shows "all_orders P b'"
proof (cases r)
  case (Inl e)
  with m Match_Inl b show ?thesis by blast
next
  case (Inr trs)
  obtain taker' b1 clk1 where
    l: "matchAgainstBook (oppositeBook (o_Side od)) seq (book_list (oppositeBook (o_Side od)) b)
       (prepareTaker od) (b, clk) = (trs, taker', b1, clk1)"
    and e: "(b', clk') = InsertOrder taker' (b1, clk1) \<or> b' = b1"
    using Match_Inr [OF m [unfolded Inr]] by metis
  have "P (prepareTaker od)" using P stableD(2) by (auto simp: prepareTaker_def)
  then have "all_orders P b1 \<and> P taker'"
    using matchAgainstBook_all [OF l b P(1)] b by (simp add: all_orders_def)
  with e InsertOrder_all [of P b1 taker' clk1] P(1) show ?thesis by (metis fst_conv)
qed

lemma RemoveOrder_all: "all_orders P b \<Longrightarrow> all_orders P (RemoveOrder k b)"
  by (auto simp: RemoveOrder_def intro: all_orders_delete split: option.splits)

lemma stable_symbol: "stable (\<lambda>x. o_Symbol x = s)"
  by (simp add: stable_def)

section \<open>The shard invariant\<close>

definition engine_ok :: "string \<Rightarrow> ('d::linordered_idom) symbol_engine \<Rightarrow> bool" where
  "engine_ok s se \<longleftrightarrow> se_Symbol se = s \<and> b_Symbol (se_OrderBook se) = s \<and>
     book_ok (se_OrderBook se) \<and> all_orders (\<lambda>x. o_Symbol x = s) (se_OrderBook se)"

definition shard_ok :: "('d::linordered_idom) shard \<Rightarrow> bool" where
  "shard_ok sh \<longleftrightarrow> (\<forall>s se. sh s = Some se \<longrightarrow> engine_ok s se)"

lemma engine_ok_New [inv_intros]:
  "engine_ok s (NewSymbolEngine s b q)" "engine_ok (sp_Symbol sp) (NewSymbolEngineFromSpec sp)"
  by (simp_all add: engine_ok_def NewSymbolEngine_def NewSymbolEngineFromSpec_def book_ok_New all_orders_def)
    (simp_all add: NewOrderBook_def)

lemma shard_ok_New [inv_intros]: "shard_ok NewShard"
  by (simp add: shard_ok_def NewShard_def)

lemma shard_ok_upd [inv_intros]: "shard_ok sh \<Longrightarrow> engine_ok s se \<Longrightarrow> shard_ok (sh(s \<mapsto> se))"
  by (simp add: shard_ok_def)

lemma shard_okD: "shard_ok sh \<Longrightarrow> sh s = Some se \<Longrightarrow> engine_ok s se"
  by (simp add: shard_ok_def)

lemma engine_ok_flags [inv_intros]:
  "engine_ok s se \<Longrightarrow> engine_ok s (se\<lparr>se_ReadOnly := r, se_ReadOnlyReason := m\<rparr>)"
  by (simp add: engine_ok_def)

lemma engine_ok_Cancel [inv_intros]: "engine_ok s se \<Longrightarrow> engine_ok s (se_Cancel k se)"
  by (auto simp: engine_ok_def se_Cancel_def RemoveOrder_ok RemoveOrder_all)
    (auto simp: RemoveOrder_def split: option.splits)

lemma se_Match_cases:
  assumes "se_Match L od seq (se, clk) = (r, se', clk')"
    and t: "t = (if o_Symbol od = [] then od\<lparr>o_Symbol := se_Symbol se\<rparr> else od)"
  shows "se' = se \<or> (\<exists>b. o_Symbol t = se_Symbol se \<and>
      Match t seq (se_OrderBook se, clk) = (r, b, clk') \<and> se' = se\<lparr>se_OrderBook := b\<rparr>)"
proof -
  obtain r1 b c where m: "Match t seq (se_OrderBook se, clk) = (r1, b, c)" by (metis prod_cases3)
  have "(if o_Symbol t \<noteq> se_Symbol se then (Inl (ErrMsg ''symbol mismatch''), se, clk)
      else case ValidateOrder L se t of Some e \<Rightarrow> (Inl e, se, clk)
           | None \<Rightarrow> (r1, se\<lparr>se_OrderBook := b\<rparr>, c)) = (r, se', clk')"
    using assms(1) unfolding se_Match_def Let_def prod.case t [symmetric] m by simp
  with m show ?thesis by (auto split: if_splits option.splits)
qed

lemma engine_ok_Match:
  assumes "engine_ok s se" and "0 < o_Remaining (prepareTaker od)"
    and "se_Match L od seq (se, clk) = (r, se', clk')"
  shows "engine_ok s se'"
proof -
  define t where "t = (if o_Symbol od = [] then od\<lparr>o_Symbol := se_Symbol se\<rparr> else od)"
  have p: "0 < o_Remaining (prepareTaker t)"
    using assms(2) by (simp add: t_def prepareTaker_def split: if_splits)
  from se_Match_cases [OF assms(3) t_def] show ?thesis
  proof (elim disjE exE conjE)
    fix b assume b: "o_Symbol t = se_Symbol se" "Match t seq (se_OrderBook se, clk) = (r, b, clk')"
      "se' = se\<lparr>se_OrderBook := b\<rparr>"
    have "book_ok b \<and> b_Symbol b = b_Symbol (se_OrderBook se)"
      using Match_ok [OF _ p b(2)] assms(1) by (simp add: engine_ok_def)
    moreover have "all_orders (\<lambda>x. o_Symbol x = s) b"
      using Match_all [OF b(2) _ stable_symbol] assms(1) b(1) by (simp add: engine_ok_def)
    ultimately show ?thesis using assms(1) b(3) by (simp add: engine_ok_def)
  qed (use assms(1) in simp)
qed

lemma shard_Symbol_ok:
  "shard_ok sh \<Longrightarrow> engine_ok s (fst (shard_Symbol s sh)) \<and> shard_ok (snd (shard_Symbol s sh))"
  by (auto simp: shard_Symbol_def Let_def intro: inv_intros shard_okD split: option.splits)

lemma SetReadOnly_ok [inv_intros]: "shard_ok sh \<Longrightarrow> shard_ok (SetReadOnly s m sh)"
  using shard_Symbol_ok [of sh s] by (auto simp: SetReadOnly_def split_beta intro: inv_intros)

lemma shard_Cancel_ok [inv_intros]: "shard_ok sh \<Longrightarrow> shard_ok (snd (shard_Cancel s k sh))"
  using shard_Symbol_ok [of sh s] by (auto simp: shard_Cancel_def split_beta intro: inv_intros)

lemma register_specs_ok: "shard_ok sh \<Longrightarrow> shard_ok (register_specs sps sh)"
  by (induction sps arbitrary: sh)
    (auto simp: Register_def NewSymbolEngineFromSpec_def intro!: shard_ok_upd engine_ok_New(2) [unfolded NewSymbolEngineFromSpec_def])

lemma RegisterRegistry_ok [inv_intros]: "shard_ok sh \<Longrightarrow> shard_ok (RegisterRegistry reg sh)"
  by (simp add: RegisterRegistry_def register_specs_ok)

lemma shard_Match_ok:
  assumes "shard_ok sh" and "0 < o_Remaining (prepareTaker od)"
    and "shard_Match L od seq (sh, clk) = (r, sh', clk')"
  shows "shard_ok sh'"
  using assms
  by (auto simp: shard_Match_def shard_Get_def split: if_splits option.splits prod.splits
      intro!: shard_ok_upd intro: engine_ok_Match shard_okD)

lemma shard_Match_other:
  "shard_Match L od seq (sh, clk) = (r, sh', clk') \<Longrightarrow> s \<noteq> o_Symbol od \<Longrightarrow> sh' s = sh s"
  by (auto simp: shard_Match_def split: if_splits option.splits prod.splits)

lemma shard_Match_refused:
  "o_Symbol od = [] \<or> IsReadOnly sh (o_Symbol od) \<or> shard_Get sh (o_Symbol od) = None \<Longrightarrow>
     \<exists>e. shard_Match L od seq (sh, clk) = (Inl e, sh, clk)"
  by (auto simp: shard_Match_def)

section \<open>Properties\<close>


definition wit_shard :: "int shard" where
  "wit_shard = Register ((NewSymbolEngine ''BTC-USDT'' ''BTC'' ''USDT'')\<lparr>se_OrderBook := wit_book\<rparr>) NewShard"

lemma wit_shard_ok: "shard_ok wit_shard"
  unfolding wit_shard_def Register_def
  by (simp add: shard_ok_def NewShard_def engine_ok_def wit_book_ok NewSymbolEngine_def)
    (simp add: wit_book_def wit_order_def all_orders_def all_book_side)


end
