(* ===== verification/WalRecord.thy ===== *)
theory WalRecord
  imports Prelude
begin

text \<open>
  Model of \<open>pkg/wal/record.go\<close>: the frame of a log record, and reading frames from a
  byte stream. A stream is the list of the bytes that are left in it.
\<close>

section \<open>Records and frames\<close>

definition EventTypeNewOrder :: byte where "EventTypeNewOrder = 1"
definition EventTypeCancelOrder :: byte where "EventTypeCancelOrder = 2"

definition recordLenSize :: nat where "recordLenSize = 4"
definition recordMinBodyLen :: nat where "recordMinBodyLen = 8 + 8 + 1 + 4"
definition recordMaxBodyLen :: nat where "recordMaxBodyLen = 16 * 1024 * 1024"

text \<open>\<open>Timestamp\<close> is an int64 of nanoseconds, kept as its 64 bits.\<close>

record wal_record =
  r_SeqID :: uint64
  r_Timestamp :: uint64
  r_EventType :: byte
  r_Payload :: bytes

definition NewRecord :: "uint64 \<Rightarrow> byte \<Rightarrow> bytes \<Rightarrow> time \<Rightarrow> clock \<Rightarrow> wal_record \<times> clock" where
  "NewRecord seqID eventType payload ts0 clk =
     (let (ts, clk') = (if ts0 = 0 then now clk else (ts0, clk))
      in (\<lparr> r_SeqID = seqID, r_Timestamp = word_of_int (unix_nano ts), r_EventType = eventType,
            r_Payload = payload \<rparr>, clk'))"

definition BodyLen :: "wal_record \<Rightarrow> nat" where
  "BodyLen r = recordMinBodyLen + length (r_Payload r)"

text \<open>The bytes under the checksum, and the whole frame.\<close>

definition record_head :: "wal_record \<Rightarrow> bytes" where
  "record_head r = le_bytes 8 (r_SeqID r) @ le_bytes 8 (r_Timestamp r) @ [r_EventType r] @ r_Payload r"

definition frame_bytes :: "wal_record \<Rightarrow> bytes" where
  "frame_bytes r =
     le_bytes 4 (of_nat (BodyLen r) :: uint32) @ record_head r @ le_bytes 4 (crc32_ieee (record_head r))"

definition encodeInto :: "wal_record \<Rightarrow> bytes \<Rightarrow> err + bytes" where
  "encodeInto r frame =
     (if recordMaxBodyLen < BodyLen r then Inl (ErrMsg ''wal: record body too large'')
      else if length frame < recordLenSize + BodyLen r then Inl (ErrMsg ''wal: frame buffer too short'')
      else Inr (frame_bytes r @ drop (recordLenSize + BodyLen r) frame))"

definition Encode :: "wal_record \<Rightarrow> err + bytes" where
  "Encode r =
     (if recordMaxBodyLen < BodyLen r then Inl (ErrMsg ''wal: record body too large'')
      else encodeInto r (replicate (recordLenSize + BodyLen r) 0))"

section \<open>Decoding\<close>

definition decodeBody :: "bytes \<Rightarrow> err + wal_record" where
  "decodeBody body =
     (if length body < recordMinBodyLen then Inl ErrRecordTooShort
      else (let off = length body - 4;
                storedCRC = of_le_bytes (take 4 (drop off body)) :: uint32
            in if storedCRC \<noteq> crc32_ieee (take off body) then Inl ErrCRCMismatch
               else Inr \<lparr> r_SeqID = of_le_bytes (take 8 body),
                          r_Timestamp = of_le_bytes (take 8 (drop 8 body)),
                          r_EventType = body ! 16,
                          r_Payload = take (length body - recordMinBodyLen) (drop 17 body) \<rparr>))"

definition frame_len :: "bytes \<Rightarrow> nat" where
  "frame_len b = unat (of_le_bytes (take 4 b) :: uint32)"

definition DecodeRecord :: "bytes \<Rightarrow> err + wal_record" where
  "DecodeRecord frame =
     (if length frame < recordLenSize + recordMinBodyLen then Inl ErrRecordTooShort
      else (let bodyLen = frame_len frame
            in if bodyLen < recordMinBodyLen \<or> recordMaxBodyLen < bodyLen then Inl ErrInvalidLength
               else if length frame < recordLenSize + bodyLen then Inl ErrRecordTooShort
               else decodeBody (take bodyLen (drop recordLenSize frame))))"

text \<open>
  \<open>io.ReadFull\<close>: at the end of the stream it fails with \<open>EOF\<close> when nothing was read
  and with \<open>ErrUnexpectedEOF\<close> when part of the bytes was.
\<close>

definition ReadFull :: "nat \<Rightarrow> bytes \<Rightarrow> (err + bytes) \<times> bytes" where
  "ReadFull n s =
     (if n = 0 then (Inr [], s)
      else if s = [] then (Inl ErrEOF, [])
      else if length s < n then (Inl ErrUnexpectedEOF, [])
      else (Inr (take n s), drop n s))"

definition ReadRecord :: "bytes \<Rightarrow> (err + wal_record) \<times> bytes" where
  "ReadRecord s =
     (case ReadFull recordLenSize s of
        (Inl e, s1) \<Rightarrow> (Inl e, s1)
      | (Inr lenBuf, s1) \<Rightarrow>
          (let bodyLen = frame_len lenBuf
           in if bodyLen < recordMinBodyLen \<or> recordMaxBodyLen < bodyLen then (Inl ErrInvalidLength, s1)
              else (case ReadFull bodyLen s1 of
                      (Inl e, s2) \<Rightarrow> (Inl e, s2)
                    | (Inr body, s2) \<Rightarrow> (decodeBody body, s2))))"

section \<open>Round trips\<close>

lemma length_record_head [simp]: "length (record_head r) = 17 + length (r_Payload r)"
  by (simp add: record_head_def)

lemma record_head_nonempty [simp]: "record_head r \<noteq> []"
  by (simp add: record_head_def)

lemma length_frame_bytes [simp]: "length (frame_bytes r) = recordLenSize + BodyLen r"
  by (simp add: frame_bytes_def recordLenSize_def BodyLen_def recordMinBodyLen_def)

definition fits :: "wal_record \<Rightarrow> bool" where
  "fits r \<longleftrightarrow> BodyLen r \<le> recordMaxBodyLen"

lemma frame_len_encoded:
  assumes "fits r"
  shows "frame_len (le_bytes 4 (of_nat (BodyLen r) :: uint32)) = BodyLen r"
proof -
  have "BodyLen r < 2 ^ 32" using assms by (simp add: fits_def recordMaxBodyLen_def)
  then show ?thesis by (simp add: frame_len_def take_bit_nat_eq_self unsigned_of_nat)
qed

lemma decode_body_encoded: "decodeBody (record_head r @ le_bytes 4 (crc32_ieee (record_head r))) = Inr r"
proof -
  have len: "length (record_head r @ le_bytes 4 (crc32_ieee (record_head r))) = 21 + length (r_Payload r)" by simp
  have e: "record_head r ! 16 = r_EventType r" "take 8 (record_head r) = le_bytes 8 (r_SeqID r)"
    "take 8 (drop 8 (record_head r)) = le_bytes 8 (r_Timestamp r)" "drop 17 (record_head r) = r_Payload r"
    by (simp_all add: record_head_def nth_append)
  show ?thesis
    using e by (simp add: decodeBody_def recordMinBodyLen_def nth_append Let_def)
qed

lemma ReadFull_exact: "0 < n \<Longrightarrow> length a = n \<Longrightarrow> ReadFull n (a @ b) = (Inr a, b)"
  by (auto simp: ReadFull_def)

lemma ReadRecord_frame:
  assumes "fits r"
  shows "ReadRecord (frame_bytes r @ rest) = (Inr r, rest)"
proof -
  let ?l = "le_bytes 4 (of_nat (BodyLen r) :: uint32)"
  let ?b = "record_head r @ le_bytes 4 (crc32_ieee (record_head r))"
  have a: "ReadFull recordLenSize (?l @ ?b @ rest) = (Inr ?l, ?b @ rest)"
    by (rule ReadFull_exact) (simp_all add: recordLenSize_def)
  have b: "ReadFull (BodyLen r) (?b @ rest) = (Inr ?b, rest)"
    by (rule ReadFull_exact) (simp_all add: BodyLen_def recordMinBodyLen_def)
  have c: "\<not> BodyLen r < recordMinBodyLen" "\<not> recordMaxBodyLen < BodyLen r"
    using assms by (simp_all add: BodyLen_def fits_def)
  have "frame_bytes r @ rest = ?l @ ?b @ rest" by (simp add: frame_bytes_def)
  then show ?thesis
    using a b c by (simp add: ReadRecord_def frame_len_encoded [OF assms] decode_body_encoded Let_def)
qed

lemma Encode_fits: "fits r \<Longrightarrow> Encode r = Inr (frame_bytes r)"
  by (simp add: Encode_def encodeInto_def fits_def)

lemma DecodeRecord_frame:
  assumes "fits r"
  shows "DecodeRecord (frame_bytes r @ rest) = Inr r"
proof -
  let ?l = "le_bytes 4 (of_nat (BodyLen r) :: uint32)"
  let ?b = "record_head r @ le_bytes 4 (crc32_ieee (record_head r))"
  have f: "frame_bytes r @ rest = ?l @ ?b @ rest" by (simp add: frame_bytes_def)
  have len: "length (frame_bytes r @ rest) = 4 + BodyLen r + length rest"
    by (simp add: recordLenSize_def)
  have fl: "frame_len (?l @ ?b @ rest) = BodyLen r"
    using frame_len_encoded [OF assms] by (simp add: frame_len_def)
  have b: "take (BodyLen r) (drop 4 (?l @ ?b @ rest)) = ?b"
    by (simp add: BodyLen_def recordMinBodyLen_def)
  have c: "\<not> BodyLen r < recordMinBodyLen" "\<not> recordMaxBodyLen < BodyLen r"
    using assms by (simp_all add: BodyLen_def fits_def)
  show ?thesis
    unfolding DecodeRecord_def len Let_def unfolding f fl recordLenSize_def b decode_body_encoded
    using c by (simp add: recordMinBodyLen_def BodyLen_def)
qed

section \<open>Reading a stream of frames\<close>

lemma ReadRecord_consumes:
  "ReadRecord s = (Inr r, s') \<Longrightarrow> length s' < length s"
  by (auto simp: ReadRecord_def ReadFull_def recordLenSize_def Let_def recordMinBodyLen_def split: if_splits)

text \<open>
  The loop that reads a segment to its end: the records in order, and the error that
  stopped it if it is not the end of the file.
\<close>

function scan_records :: "bytes \<Rightarrow> wal_record list \<times> err option" where
  "scan_records s =
     (case ReadRecord s of
        (Inl e, s') \<Rightarrow> ([], if e = ErrEOF then None else Some e)
      | (Inr r, s') \<Rightarrow> (let (rs, e) = scan_records s' in (r # rs, e)))"
  by pat_completeness auto
termination
  by (relation "measure length") (auto dest: ReadRecord_consumes [OF sym])

declare scan_records.simps [simp del]

definition frames :: "wal_record list \<Rightarrow> bytes" where
  "frames rs = concat (map frame_bytes rs)"

lemma frames_simps [simp]:
  "frames [] = []" "frames (r # rs) = frame_bytes r @ frames rs" "frames (rs @ rs') = frames rs @ frames rs'"
  by (simp_all add: frames_def)

lemma scan_frames:
  "\<forall>r \<in> set rs. fits r \<Longrightarrow>
     scan_records (frames rs @ tail) = (let (rs', e) = scan_records tail in (rs @ rs', e))"
proof (induction rs)
  case Nil
  then show ?case by simp
next
  case (Cons r rs)
  have "scan_records (frames (r # rs) @ tail) = (let (rs', e) = scan_records (frames rs @ tail) in (r # rs', e))"
    using ReadRecord_frame [of r "frames rs @ tail"] Cons.prems by (subst scan_records.simps) simp
  with Cons show ?case by (simp add: split_beta Let_def)
qed

lemma scan_empty: "scan_records [] = ([], None)"
  by (subst scan_records.simps) (simp add: ReadRecord_def ReadFull_def recordLenSize_def)

text \<open>
  A frame cut short. If a length prefix is missing bytes, or part of the body is there,
  the scan reports an error; if the cut falls right after the prefix, it does not.
\<close>

lemma ReadRecord_torn:
  assumes "fits r" and "0 < n" and "n < length (frame_bytes r)"
  shows "ReadRecord (take n (frame_bytes r)) = (Inl (if n = 4 then ErrEOF else ErrUnexpectedEOF), [])"
proof -
  let ?l = "le_bytes 4 (of_nat (BodyLen r) :: uint32)"
  let ?b = "record_head r @ le_bytes 4 (crc32_ieee (record_head r))"
  have f: "frame_bytes r = ?l @ ?b" by (simp add: frame_bytes_def)
  have c: "\<not> BodyLen r < recordMinBodyLen" "\<not> recordMaxBodyLen < BodyLen r"
    using assms by (simp_all add: BodyLen_def fits_def)
  have lb: "length ?b = BodyLen r" by (simp add: BodyLen_def recordMinBodyLen_def)
  show ?thesis
  proof (cases "n < 4")
    case True
    with assms(2) f show ?thesis by (auto simp: ReadRecord_def ReadFull_def recordLenSize_def)
  next
    case False
    then have t: "take n (frame_bytes r) = ?l @ take (n - 4) ?b" unfolding f by simp
    have a: "ReadFull recordLenSize (?l @ take (n - 4) ?b) = (Inr ?l, take (n - 4) ?b)"
      by (rule ReadFull_exact) (simp_all add: recordLenSize_def)
    have "length (take (n - 4) ?b) < BodyLen r"
      using assms(3) False unfolding f using lb by simp
    then have "ReadFull (BodyLen r) (take (n - 4) ?b) = (Inl (if n = 4 then ErrEOF else ErrUnexpectedEOF), [])"
      using False lb by (auto simp: ReadFull_def)
    then show ?thesis
      unfolding t using a c by (simp add: ReadRecord_def frame_len_encoded [OF assms(1)] Let_def)
  qed
qed

lemma scan_torn:
  assumes "fits r" and "0 < n" and "n < length (frame_bytes r)"
  shows "scan_records (take n (frame_bytes r)) = ([], if n = 4 then None else Some ErrUnexpectedEOF)"
  by (subst scan_records.simps) (simp add: ReadRecord_torn [OF assms])

section \<open>Properties\<close>

text \<open>
  A record of at most 16 MiB encodes, and decoding its frame, also with bytes after
  it, gives back the record; reading it from a stream leaves exactly the bytes after it.
\<close>

theorem record_round_trip:
  assumes "BodyLen r \<le> recordMaxBodyLen"
  shows "\<exists>frame. Encode r = Inr frame \<and> length frame = 25 + length (r_Payload r) \<and>
    DecodeRecord (frame @ rest) = Inr r \<and> ReadRecord (frame @ rest) = (Inr r, rest)"
proof -
  have "fits r" using assms by (simp add: fits_def)
  then show ?thesis
    by (intro exI [of _ "frame_bytes r"])
      (simp add: Encode_fits DecodeRecord_frame ReadRecord_frame recordLenSize_def BodyLen_def recordMinBodyLen_def)
qed

definition wit_record :: "uint64 \<Rightarrow> wal_record" where
  "wit_record n = \<lparr> r_SeqID = n, r_Timestamp = 5, r_EventType = EventTypeNewOrder, r_Payload = [1, 2, 3] \<rparr>"

lemma wit_record_fits: "fits (wit_record n)" "BodyLen (wit_record n) \<le> recordMaxBodyLen"
  by (simp_all add: fits_def wit_record_def BodyLen_def recordMinBodyLen_def recordMaxBodyLen_def)

theorem record_round_trip_witness: "\<exists>frame. Encode (wit_record 9) = Inr frame \<and> DecodeRecord (frame @ [7]) = Inr (wit_record 9)"
  using record_round_trip [OF wit_record_fits(2), of 9 "[7]"] by blast

text \<open>
  C8. A log that ends in a torn frame: all whole records are read; the tear is reported as
  an unexpected end of file, except when it falls right after the length prefix, where the
  log looks complete.
\<close>

theorem torn_tail:
  assumes "\<forall>r \<in> set rs. fits r" and "fits r" and "0 < n" and "n < length (frame_bytes r)"
  shows "scan_records (frames rs @ take n (frame_bytes r)) =
    (rs, if n = recordLenSize then None else Some ErrUnexpectedEOF)"
  using scan_frames [OF assms(1)] scan_torn [OF assms(2-4)] by (simp add: recordLenSize_def)

theorem torn_tail_witness:
  "scan_records (frames [wit_record 1, wit_record 2] @ take 4 (frame_bytes (wit_record 3))) = ([wit_record 1, wit_record 2], None) \<and>
   (\<exists>r. fits r \<and> 4 < length (frame_bytes r))"
proof -
  have l: "4 < length (frame_bytes (wit_record 3))"
    by (simp add: recordLenSize_def wit_record_def BodyLen_def recordMinBodyLen_def)
  have "scan_records (frames [wit_record 1, wit_record 2] @ take 4 (frame_bytes (wit_record 3))) = ([wit_record 1, wit_record 2], None)"
    using torn_tail [of "[wit_record 1, wit_record 2]" "wit_record 3" 4] wit_record_fits(1) l
    by (simp add: recordLenSize_def)
  with l wit_record_fits(1) show ?thesis by blast
qed

end
