(* ===== verification/WalFile.thy ===== *)
theory WalFile
  imports WalRecord
begin

text \<open>
  Model of \<open>pkg/wal/writer.go\<close> and \<open>reader.go\<close>: segment files, the buffered writer
  with its sync policy and rotation, and the iterator over segments. The operating system
  is explicit: what a file holds, how much of it is durable, and whether each call fails.
\<close>

section \<open>Files\<close>

text \<open>
  The segment files of a shard directory, by ascending number; other files of the
  directory are ignored by the code. \<open>sg_synced\<close> bytes of a file survive a crash.
  \<open>d_io\<close> is the outcome of the successive system calls: \<open>None\<close> is success,
  \<open>Some k\<close> failure, for a write after \<open>k\<close> bytes.
\<close>

record segfile =
  sg_num :: nat
  sg_data :: bytes
  sg_synced :: nat

record disk =
  d_segs :: "segfile list"
  d_io :: "nat \<Rightarrow> nat option"
  d_pos :: nat

definition io_next :: "disk \<Rightarrow> nat option \<times> disk" where
  "io_next d = (d_io d (d_pos d), d\<lparr>d_pos := Suc (d_pos d)\<rparr>)"

definition upd_seg :: "nat \<Rightarrow> (segfile \<Rightarrow> segfile) \<Rightarrow> disk \<Rightarrow> disk" where
  "upd_seg n f d = d\<lparr>d_segs := map (\<lambda>s. if sg_num s = n then f s else s) (d_segs d)\<rparr>"

fun insert_seg :: "nat \<Rightarrow> segfile list \<Rightarrow> segfile list" where
  "insert_seg n [] = [\<lparr> sg_num = n, sg_data = [], sg_synced = 0 \<rparr>]"
| "insert_seg n (s # ss) =
     (if sg_num s < n then s # insert_seg n ss
      else if sg_num s = n then s # ss
      else \<lparr> sg_num = n, sg_data = [], sg_synced = 0 \<rparr> # s # ss)"

text \<open>\<open>write(2)\<close> at the end of an append-only file: how many bytes went out, and success.\<close>

definition os_write :: "nat \<Rightarrow> bytes \<Rightarrow> disk \<Rightarrow> nat \<times> bool \<times> disk" where
  "os_write n p d =
     (let (oc, d1) = io_next d;
          k = (case oc of None \<Rightarrow> length p | Some k \<Rightarrow> min k (length p))
      in (k, oc = None, upd_seg n (\<lambda>s. s\<lparr>sg_data := sg_data s @ take k p\<rparr>) d1))"

definition os_sync :: "nat \<Rightarrow> disk \<Rightarrow> bool \<times> disk" where
  "os_sync n d =
     (let (oc, d1) = io_next d
      in if oc = None then (True, upd_seg n (\<lambda>s. s\<lparr>sg_synced := length (sg_data s)\<rparr>) d1)
         else (False, d1))"

definition os_open :: "nat \<Rightarrow> disk \<Rightarrow> bool \<times> disk" where
  "os_open n d =
     (let (oc, d1) = io_next d
      in if oc = None then (True, d1\<lparr>d_segs := insert_seg n (d_segs d1)\<rparr>) else (False, d1))"

definition os_call :: "disk \<Rightarrow> bool \<times> disk" where
  "os_call d = (let (oc, d1) = io_next d in (oc = None, d1))"

definition seg_data :: "nat \<Rightarrow> disk \<Rightarrow> bytes" where
  "seg_data n d = (case find (\<lambda>s. sg_num s = n) (d_segs d) of None \<Rightarrow> [] | Some s \<Rightarrow> sg_data s)"

section \<open>Segment names\<close>

definition segmentFilePrefix :: string where "segmentFilePrefix = ''wal_''"
definition segmentFileSuffix :: string where "segmentFileSuffix = ''.log''"

definition segmentName :: "nat \<Rightarrow> string" where
  "segmentName seg = segmentFilePrefix @ pad_zero 6 (show_nat seg) @ segmentFileSuffix"

definition parseSegmentName :: "string \<Rightarrow> int option" where
  "parseSegmentName name =
     (if \<not> has_prefix name segmentFilePrefix \<or> \<not> has_suffix name segmentFileSuffix then None
      else (case atoi (trim_suffix (trim_prefix name segmentFilePrefix) segmentFileSuffix) of
              None \<Rightarrow> None
            | Some seg \<Rightarrow> if seg \<le> 0 then None else Some seg))"

lemma parse_segmentName:
  assumes "0 < n" "n < 2 ^ 63"
  shows "parseSegmentName (segmentName n) = Some (int n)"
proof -
  let ?m = "pad_zero 6 (show_nat n)"
  have a: "atoi ?m = Some (int n)"
    using atoi_digits [of ?m] pad_zero_digits [OF show_nat_digits] pad_zero_nonempty assms(2) by simp
  have "has_prefix (segmentName n) segmentFilePrefix" by (simp add: segmentName_def)
  moreover have "has_suffix (segmentName n) segmentFileSuffix"
    using has_suffix_append [of "segmentFilePrefix @ ?m" segmentFileSuffix] by (simp add: segmentName_def)
  moreover have "trim_suffix (trim_prefix (segmentName n) segmentFilePrefix) segmentFileSuffix = ?m"
    by (simp add: segmentName_def)
  ultimately show ?thesis using a assms(1) by (simp add: parseSegmentName_def)
qed

section \<open>The writer\<close>

record writer_config =
  MaxSegmentBytes :: int
  WriteBufferSize :: int
  SyncEveryRecords :: int
  SyncIntervalMs :: int

definition GroupCommitEnabled :: "writer_config \<Rightarrow> bool" where
  "GroupCommitEnabled c \<longleftrightarrow> 1 < SyncEveryRecords c \<or> 0 < SyncIntervalMs c"

text \<open>
  \<open>w_file\<close> tells whether the file pointer is set, \<open>w_fd\<close> whether its descriptor is open.
  \<open>w_buf\<close> is the content of the \<open>bufio.Writer\<close>, \<open>None\<close> the nil pointer;
  its error is sticky.
\<close>

record file_writer =
  w_cfg :: writer_config
  w_file :: bool
  w_fd :: bool
  w_buf :: "bytes option"
  w_buf_err :: bool
  w_segment :: nat
  w_lastSeq :: uint64
  w_lastDurableSeq :: uint64
  w_written :: int
  w_closed :: bool
  w_writeBufferSize :: nat
  w_recordsSinceSync :: int
  w_lastSyncAt :: time

type_synonym wstate = "file_writer \<times> disk \<times> clock"

text \<open>\<open>bufio.Writer.Flush\<close>: a short write leaves the rest in the buffer.\<close>

definition buf_flush :: "file_writer \<Rightarrow> disk \<Rightarrow> bool \<times> file_writer \<times> disk" where
  "buf_flush w d =
     (case w_buf w of None \<Rightarrow> (False, w, d)
      | Some buf \<Rightarrow>
          if w_buf_err w then (False, w, d)
          else if buf = [] then (True, w, d)
          else if \<not> w_fd w then (False, w\<lparr>w_buf_err := True\<rparr>, d)
          else (let (k, ok, d1) = os_write (w_segment w) buf d
                in (ok, w\<lparr>w_buf := Some (drop k buf), w_buf_err := \<not> ok\<rparr>, d1)))"

text \<open>
  \<open>bufio.Writer.Write\<close>: what does not fit is written out, directly when the buffer is
  empty, else after filling and flushing the buffer.
\<close>

definition buf_direct :: "bytes \<Rightarrow> file_writer \<Rightarrow> disk \<Rightarrow> bool \<times> file_writer \<times> disk" where
  "buf_direct p w d =
     (if \<not> w_fd w then (False, w\<lparr>w_buf_err := True\<rparr>, d)
      else (let (k, ok, d1) = os_write (w_segment w) p d in (ok, w\<lparr>w_buf_err := \<not> ok\<rparr>, d1)))"

definition buf_write :: "bytes \<Rightarrow> file_writer \<Rightarrow> disk \<Rightarrow> bool \<times> file_writer \<times> disk" where
  "buf_write p w d =
     (case w_buf w of None \<Rightarrow> (False, w, d)
      | Some buf \<Rightarrow>
          if w_buf_err w then (False, w, d)
          else if length p \<le> w_writeBufferSize w - length buf
          then (True, w\<lparr>w_buf := Some (buf @ p)\<rparr>, d)
          else if buf = [] then buf_direct p w d
          else (let n = w_writeBufferSize w - length buf;
                    (ok, w1, d1) = buf_flush (w\<lparr>w_buf := Some (buf @ take n p)\<rparr>) d
                in if \<not> ok then (False, w1, d1)
                   else if length (drop n p) \<le> w_writeBufferSize w
                   then (True, w1\<lparr>w_buf := Some (drop n p)\<rparr>, d1)
                   else buf_direct (drop n p) w1 d1))"

definition durableSync :: "file_writer \<Rightarrow> disk \<Rightarrow> bool \<times> disk" where
  "durableSync w d = (if \<not> w_file w \<or> \<not> w_fd w then (False, d) else os_sync (w_segment w) d)"

definition flushAndSyncLocked :: "file_writer \<Rightarrow> disk \<Rightarrow> err option \<times> file_writer \<times> disk" where
  "flushAndSyncLocked w d =
     (let (ok, w1, d1) = (if w_buf w \<noteq> None then buf_flush w d else (True, w, d))
      in if \<not> ok then (Some ErrIO, w1, d1)
         else (let (ok2, d2) = durableSync w1 d1
               in if \<not> ok2 then (Some ErrIO, w1, d2) else (None, w1, d2)))"

definition maybeSyncLocked :: "bool \<Rightarrow> wstate \<Rightarrow> err option \<times> wstate" where
  "maybeSyncLocked force st =
     (let (w, d, clk) = st
      in if w_recordsSinceSync w = 0 \<and> \<not> force then (None, st)
         else if \<not> force \<and> GroupCommitEnabled (w_cfg w) then (None, st)
         else
           (let (skip, clk1) =
              (if \<not> force \<and> 1 < SyncEveryRecords (w_cfg w) \<and>
                  w_recordsSinceSync w < SyncEveryRecords (w_cfg w)
               then (if SyncIntervalMs (w_cfg w) \<le> 0 then (True, clk)
                     else (let (t, c) = now clk
                           in (t - w_lastSyncAt w < SyncIntervalMs (w_cfg w) * 1000000, c)))
               else (False, clk))
            in if skip then (None, w, d, clk1)
               else
                 (let (e, w1, d1) = flushAndSyncLocked w d
                  in case e of
                       Some er \<Rightarrow> (Some er, w1, d1, clk1)
                     | None \<Rightarrow>
                         (let (t, clk2) = now clk1
                          in (None, w1\<lparr>w_lastDurableSeq := w_lastSeq w1, w_recordsSinceSync := 0,
                                       w_lastSyncAt := t\<rparr>, d1, clk2)))))"

definition openSegment :: "nat \<Rightarrow> wstate \<Rightarrow> err option \<times> wstate" where
  "openSegment segment st0 =
     (let (w0, d0, clk0) = st0;
          (e, st1) =
            (if w_file w0 then
               (case maybeSyncLocked True st0 of
                  (Some er, st1) \<Rightarrow> (Some er, st1)
                | (None, w1, d1, clk1) \<Rightarrow>
                    (let (ok, d2) = os_call d1
                     in if \<not> ok then (Some ErrIO, w1\<lparr>w_fd := False\<rparr>, d2, clk1)
                        else (None, w1\<lparr>w_fd := False, w_buf := None\<rparr>, d2, clk1)))
             else (None, st0))
      in case e of
           Some er \<Rightarrow> (Some er, st1)
         | None \<Rightarrow>
             (let (w1, d1, clk1) = st1; (ok, d2) = os_open segment d1
              in if \<not> ok then (Some ErrIO, w1, d2, clk1)
                 else (None, w1\<lparr>w_file := True, w_fd := True, w_buf := Some [], w_buf_err := False,
                                w_segment := segment, w_written := 0\<rparr>, d2, clk1)))"

definition rotateLocked :: "wstate \<Rightarrow> err option \<times> wstate" where
  "rotateLocked st =
     (let (w, d, clk) = st
      in case openSegment (Suc (w_segment w)) st of
           (Some er, st1) \<Rightarrow> (Some er, st1)
         | (None, w1, d1, clk1) \<Rightarrow>
             (None, w1\<lparr>w_written := int (length (seg_data (w_segment w1) d1))\<rparr>, d1, clk1))"

text \<open>The part of an append that follows the encoding of the record.\<close>

definition write_frame :: "uint64 \<Rightarrow> bytes \<Rightarrow> wstate \<Rightarrow> err option \<times> wstate" where
  "write_frame seq frame st =
     (let (w, d, clk) = st; (ok, w1, d1) = buf_write frame w d
      in if \<not> ok then (Some ErrIO, w1, d1, clk)
         else
           (let w2 = w1\<lparr>w_lastSeq := seq, w_written := w_written w1 + int (length frame),
                       w_recordsSinceSync := w_recordsSinceSync w1 + 1\<rparr>
            in case maybeSyncLocked False (w2, d1, clk) of
                 (Some e, st2) \<Rightarrow> (Some e, st2)
               | (None, w3, d3, clk3) \<Rightarrow>
                   if MaxSegmentBytes (w_cfg w3) \<le> w_written w3
                   then rotateLocked (w3, d3, clk3)
                   else (None, w3, d3, clk3)))"

definition appendLocked :: "uint64 \<Rightarrow> byte \<Rightarrow> bytes \<Rightarrow> wstate \<Rightarrow> err option \<times> wstate" where
  "appendLocked seq eventType payload st =
     (let (w, d, clk) = st
      in if w_closed w then (Some ErrWriterClosed, st)
         else if w_lastSeq w \<noteq> 0 \<and> seq \<le> w_lastSeq w then (Some ErrNonMonotonic, st)
         else
           (let (rec, clk1) = NewRecord seq eventType payload 0 clk
            in case encodeInto rec (replicate (recordLenSize + BodyLen rec) 0) of
                 Inl e \<Rightarrow> (Some e, w, d, clk1)
               | Inr frame \<Rightarrow> write_frame seq frame (w, d, clk1)))"

definition Append :: "uint64 \<Rightarrow> byte \<Rightarrow> bytes \<Rightarrow> wstate \<Rightarrow> err option \<times> wstate" where
  "Append seq eventType payload st = appendLocked seq eventType payload st"

definition AppendNext :: "byte \<Rightarrow> bytes \<Rightarrow> wstate \<Rightarrow> (err + uint64) \<times> wstate" where
  "AppendNext eventType payload st =
     (let (w, d, clk) = st
      in if w_closed w then (Inl ErrWriterClosed, st)
         else (let seq = w_lastSeq w + 1
               in case appendLocked seq eventType payload st of
                    (Some e, st1) \<Rightarrow> (Inl e, st1)
                  | (None, st1) \<Rightarrow> (Inr seq, st1)))"

definition wal_Sync :: "wstate \<Rightarrow> err option \<times> wstate" where
  "wal_Sync st = maybeSyncLocked True st"

definition closeFileLocked :: "wstate \<Rightarrow> err option \<times> wstate" where
  "closeFileLocked st =
     (if \<not> w_file (fst st) then (None, st)
      else case maybeSyncLocked True st of
             (Some e, w1, d1, clk1) \<Rightarrow>
               (let (ok, d2) = os_call d1
                in (Some e, w1\<lparr>w_file := False, w_fd := False, w_buf := None\<rparr>, d2, clk1))
           | (None, w1, d1, clk1) \<Rightarrow>
               (let (ok, d2) = os_call d1
                in (if ok then None else Some ErrIO,
                    w1\<lparr>w_file := False, w_fd := False, w_buf := None\<rparr>, d2, clk1)))"

definition wal_Close :: "wstate \<Rightarrow> err option \<times> wstate" where
  "wal_Close st =
     (let (w, d, clk) = st
      in if w_closed w then (None, st)
         else closeFileLocked (w\<lparr>w_closed := True\<rparr>, d, clk))"

section \<open>Opening\<close>

definition latestSegment :: "disk \<Rightarrow> nat" where
  "latestSegment d =
     (if d_segs d = [] then 1
      else (let maxSeg = fold (\<lambda>s m. if m < sg_num s then sg_num s else m) (d_segs d) 0
            in if maxSeg = 0 then 1 else maxSeg))"

definition scanLastSeq :: "bytes \<Rightarrow> err + uint64" where
  "scanLastSeq data =
     (case scan_records data of
        (rs, Some e) \<Rightarrow> Inl e
      | (rs, None) \<Rightarrow> Inr (fold (\<lambda>r _. r_SeqID r) rs 0))"

definition OpenFileWriter :: "string \<Rightarrow> writer_config \<Rightarrow> disk \<times> clock \<Rightarrow> (err + file_writer) \<times> disk \<times> clock" where
  "OpenFileWriter dir cfg0 dc =
     (let (d0, clk0) = dc
      in if dir = '''' then (Inl (ErrMsg ''wal: shard directory is required''), d0, clk0)
         else
           (let cfg1 = (if MaxSegmentBytes cfg0 = 0 then cfg0\<lparr>MaxSegmentBytes := 100 * 1024 * 1024\<rparr> else cfg0);
                bufSize = (if WriteBufferSize cfg1 \<le> 0 then 64 * 1024 else nat (WriteBufferSize cfg1));
                cfg = (if SyncEveryRecords cfg1 \<le> 0 then cfg1\<lparr>SyncEveryRecords := 1\<rparr> else cfg1);
                (ok, d1) = os_call d0
            in if \<not> ok then (Inl ErrIO, d1, clk0)
               else
                 (let (t, clk1) = now clk0;
                      w = \<lparr> w_cfg = cfg, w_file = False, w_fd = False, w_buf = None, w_buf_err = False,
                            w_segment = 0, w_lastSeq = 0, w_lastDurableSeq = 0, w_written = 0,
                            w_closed = False, w_writeBufferSize = bufSize, w_recordsSinceSync = 0,
                            w_lastSyncAt = t \<rparr>
                  in case openSegment (latestSegment d1) (w, d1, clk1) of
                       (Some e, w1, d2, clk2) \<Rightarrow> (Inl e, d2, clk2)
                     | (None, w1, d2, clk2) \<Rightarrow>
                         (case scanLastSeq (seg_data (w_segment w1) d2) of
                            Inl e \<Rightarrow> (let (e2, w3, d3, clk3) = closeFileLocked (w1, d2, clk2) in (Inl e, d3, clk3))
                          | Inr lastSeq \<Rightarrow>
                              (Inr (w1\<lparr>w_lastSeq := lastSeq, w_lastDurableSeq := lastSeq,
                                       w_written := int (length (seg_data (w_segment w1) d2))\<rparr>), d2, clk2)))))"

section \<open>The reader\<close>

text \<open>
  \<open>it_paths\<close> holds the contents of the segments still to open, in the order of
  \<open>SegmentPaths\<close>, and \<open>it_file\<close> what is left to read of the open one. Opening a file
  for reading is taken to succeed.
\<close>

record iterator =
  it_paths :: "bytes list"
  it_file :: "bytes option"
  it_fromSeq :: uint64
  it_record :: "wal_record option"
  it_err :: "err option"
  it_closed :: bool

definition SegmentPaths :: "disk \<Rightarrow> bytes list" where
  "SegmentPaths d = map sg_data (sort_key sg_num (d_segs d))"

definition newIterator :: "bytes list \<Rightarrow> uint64 \<Rightarrow> iterator" where
  "newIterator paths fromSeq =
     \<lparr> it_paths = paths, it_file = None, it_fromSeq = fromSeq, it_record = None, it_err = None,
       it_closed = False \<rparr>"

definition iter_size :: "iterator \<Rightarrow> nat" where
  "iter_size it =
     sum_list (map (\<lambda>p. Suc (Suc (length p))) (it_paths it)) +
     (case it_file it of None \<Rightarrow> 0 | Some s \<Rightarrow> Suc (length s))"

function iter_loop :: "iterator \<Rightarrow> bool \<times> iterator" where
  "iter_loop it =
     (case it_file it of
        None \<Rightarrow>
          (case it_paths it of
             [] \<Rightarrow> (False, it)
           | p # ps \<Rightarrow> iter_loop (it\<lparr>it_paths := ps, it_file := Some p\<rparr>))
      | Some s \<Rightarrow>
          (case ReadRecord s of
             (Inl e, s') \<Rightarrow>
               if e = ErrEOF then iter_loop (it\<lparr>it_file := None\<rparr>)
               else (False, it\<lparr>it_err := Some e, it_file := None\<rparr>)
           | (Inr rec, s') \<Rightarrow>
               if r_SeqID rec \<le> it_fromSeq it then iter_loop (it\<lparr>it_file := Some s'\<rparr>)
               else (True, it\<lparr>it_record := Some rec, it_file := Some s'\<rparr>)))"
  by pat_completeness auto
termination
proof (relation "measure iter_size", goal_cases)
  case (4 it a x b)
  then show ?case using ReadRecord_consumes [of a _ b, OF sym] by (auto simp: iter_size_def)
qed (auto simp: iter_size_def)

declare iter_loop.simps [simp del]

definition wal_Next :: "iterator \<Rightarrow> bool \<times> iterator" where
  "wal_Next it = (if it_closed it \<or> it_err it \<noteq> None then (False, it) else iter_loop it)"

definition iter_Close :: "iterator \<Rightarrow> iterator" where
  "iter_Close it = (if it_closed it then it else it\<lparr>it_closed := True, it_file := None\<rparr>)"

definition ReadFrom :: "uint64 \<Rightarrow> disk \<Rightarrow> iterator" where
  "ReadFrom fromSeq d = newIterator (SegmentPaths d) fromSeq"

lemma iter_loop_smaller: "iter_loop it = (True, it') \<Longrightarrow> iter_size it' < iter_size it"
proof (induction "iter_size it" arbitrary: it rule: less_induct)
  case less
  show ?case
  proof (cases "it_file it")
    case None
    with less.prems obtain p ps where p: "it_paths it = p # ps"
      by (cases "it_paths it") (simp_all add: iter_loop.simps [of it])
    let ?it = "it\<lparr>it_paths := ps, it_file := Some p\<rparr>"
    have "iter_loop ?it = (True, it')" using less.prems None p by (simp add: iter_loop.simps [of it])
    moreover have "iter_size ?it < iter_size it" using None p by (simp add: iter_size_def)
    ultimately show ?thesis using less.hyps by fastforce
  next
    case (Some s)
    obtain r s' where rr: "ReadRecord s = (r, s')" by fastforce
    show ?thesis
    proof (cases r)
      case (Inl e)
      let ?it = "it\<lparr>it_file := None\<rparr>"
      have "iter_loop ?it = (True, it')"
        using less.prems Some rr Inl by (simp add: iter_loop.simps [of it] split: if_splits)
      moreover have "iter_size ?it < iter_size it" using Some by (simp add: iter_size_def)
      ultimately show ?thesis using less.hyps by fastforce
    next
      case (Inr rec)
      have len: "length s' < length s" using ReadRecord_consumes rr Inr by blast
      show ?thesis
      proof (cases "r_SeqID rec \<le> it_fromSeq it")
        case True
        let ?it = "it\<lparr>it_file := Some s'\<rparr>"
        have "iter_loop ?it = (True, it')"
          using less.prems Some rr Inr True by (simp add: iter_loop.simps [of it])
        moreover have "iter_size ?it < iter_size it" using Some len by (simp add: iter_size_def)
        ultimately show ?thesis using less.hyps by fastforce
      next
        case False
        with less.prems Some rr Inr len show ?thesis
          by (auto simp: iter_loop.simps [of it] iter_size_def)
      qed
    qed
  qed
qed

text \<open>The loop of \<open>ReadAll\<close>.\<close>

function drain :: "iterator \<Rightarrow> wal_record list \<times> iterator" where
  "drain it =
     (case wal_Next it of
        (False, it1) \<Rightarrow> ([], it1)
      | (True, it1) \<Rightarrow> (let (rs, it2) = drain it1 in (the (it_record it1) # rs, it2)))"
  by pat_completeness auto
termination
  by (relation "measure iter_size") (auto simp: wal_Next_def dest: iter_loop_smaller [OF sym] split: if_splits)

declare drain.simps [simp del]

definition ReadAll :: "uint64 \<Rightarrow> disk \<Rightarrow> err + wal_record list" where
  "ReadAll fromSeq d =
     (let (rs, it) = drain (ReadFrom fromSeq d)
      in case it_err it of Some e \<Rightarrow> Inl e | None \<Rightarrow> Inr rs)"

section \<open>What the reader returns\<close>

text \<open>
  The records of the segments in order, up to the first segment that does not scan to its end.
\<close>

fun scan_segments :: "bytes list \<Rightarrow> wal_record list \<times> err option" where
  "scan_segments [] = ([], None)"
| "scan_segments (p # ps) =
     (case scan_records p of
        (rs, Some e) \<Rightarrow> (rs, Some e)
      | (rs, None) \<Rightarrow> (let (rs', e) = scan_segments ps in (rs @ rs', e)))"

lemma drain_next:
  assumes "iter_loop it = iter_loop it1" and "it_closed it = it_closed it1" "it_err it = it_err it1"
    and "\<not> it_closed it1" "it_err it1 = None"
  shows "drain it = drain it1"
proof -
  have "wal_Next it = wal_Next it1" using assms by (simp add: wal_Next_def)
  then show ?thesis by (simp add: drain.simps [of it] drain.simps [of it1])
qed

lemma drain_scan:
  "\<not> it_closed it \<Longrightarrow> it_err it = None \<Longrightarrow>
     fst (drain it) = filter (\<lambda>r. it_fromSeq it < r_SeqID r)
       (fst (scan_segments (case it_file it of None \<Rightarrow> it_paths it | Some s \<Rightarrow> s # it_paths it))) \<and>
     it_err (snd (drain it)) = snd (scan_segments (case it_file it of None \<Rightarrow> it_paths it | Some s \<Rightarrow> s # it_paths it))"
proof (induction "iter_size it" arbitrary: it rule: less_induct)
  case less
  show ?case
  proof (cases "it_file it")
    case None
    show ?thesis
    proof (cases "it_paths it")
      case Nil
      then have "wal_Next it = (False, it)"
        using less.prems None by (simp add: wal_Next_def iter_loop.simps [of it])
      with None Nil less.prems show ?thesis by (simp add: drain.simps [of it])
    next
      case (Cons p ps)
      let ?it = "it\<lparr>it_paths := ps, it_file := Some p\<rparr>"
      have "drain it = drain ?it"
        by (rule drain_next) (use less.prems None Cons in \<open>simp_all add: iter_loop.simps [of it]\<close>)
      with less.hyps [of ?it] less.prems None Cons show ?thesis by (simp add: iter_size_def)
    qed
  next
    case (Some s)
    obtain r s' where rr: "ReadRecord s = (r, s')" by fastforce
    show ?thesis
    proof (cases r)
      case (Inl e)
      then have sc: "scan_records s = ([], if e = ErrEOF then None else Some e)"
        using rr by (simp add: scan_records.simps [of s])
      show ?thesis
      proof (cases "e = ErrEOF")
        case True
        let ?it = "it\<lparr>it_file := None\<rparr>"
        have "drain it = drain ?it"
          by (rule drain_next) (use less.prems Some Inl rr True in \<open>simp_all add: iter_loop.simps [of it]\<close>)
        with less.hyps [of ?it] less.prems Some sc True show ?thesis by (simp add: iter_size_def split_beta)
      next
        case False
        then have "wal_Next it = (False, it\<lparr>it_err := Some e, it_file := None\<rparr>)"
          using less.prems Some Inl rr by (simp add: wal_Next_def iter_loop.simps [of it])
        with Some sc False show ?thesis by (simp add: drain.simps [of it])
      qed
    next
      case (Inr rec)
      then have sc: "scan_records s = (let (rs, e) = scan_records s' in (rec # rs, e))"
        using rr by (simp add: scan_records.simps [of s])
      have len: "length s' < length s" using ReadRecord_consumes rr Inr by blast
      show ?thesis
      proof (cases "r_SeqID rec \<le> it_fromSeq it")
        case True
        let ?it = "it\<lparr>it_file := Some s'\<rparr>"
        have "drain it = drain ?it"
          by (rule drain_next) (use less.prems Some Inr rr True in \<open>simp_all add: iter_loop.simps [of it]\<close>)
        with less.hyps [of ?it] less.prems Some sc True len show ?thesis
          by (simp add: iter_size_def split_beta Let_def split: option.splits)
      next
        case False
        let ?it = "it\<lparr>it_record := Some rec, it_file := Some s'\<rparr>"
        have "wal_Next it = (True, ?it)"
          using less.prems Some Inr rr False by (simp add: wal_Next_def iter_loop.simps [of it])
        then have "drain it = (rec # fst (drain ?it), snd (drain ?it))"
          by (subst drain.simps) (simp add: split_beta)
        with less.hyps [of ?it] less.prems Some sc False len show ?thesis
          by (simp add: iter_size_def split_beta Let_def split: option.splits)
      qed
    qed
  qed
qed

lemma ReadAll_scan:
  "ReadAll fromSeq d =
     (case scan_segments (SegmentPaths d) of
        (rs, None) \<Rightarrow> Inr (filter (\<lambda>r. fromSeq < r_SeqID r) rs)
      | (rs, Some e) \<Rightarrow> Inl e)"
  using drain_scan [of "ReadFrom fromSeq d"]
  by (auto simp: ReadAll_def ReadFrom_def newIterator_def split_beta Let_def split: option.splits)

lemma scan_segments_frames:
  "(\<And>i. i < length rss \<Longrightarrow> \<forall>r \<in> set (rss ! i). fits r) \<Longrightarrow>
     scan_segments (map frames rss @ ps) = (let (rs, e) = scan_segments ps in (concat rss @ rs, e))"
proof (induction rss)
  case Nil
  then show ?case by simp
next
  case (Cons rs rss)
  have "\<forall>r \<in> set rs. fits r" using Cons.prems [of 0] by simp
  then have "scan_records (frames rs) = (rs, None)"
    using scan_frames [of rs "[]"] by (simp add: scan_empty)
  moreover have "\<And>i. i < length rss \<Longrightarrow> \<forall>r \<in> set (rss ! i). fits r" using Cons.prems [of "Suc _"] by simp
  ultimately show ?case using Cons.IH by (simp add: split_beta Let_def)
qed

end
