(* ===== verification/Journal.thy ===== *)
theory Journal
  imports Prelude
begin

text \<open>
  The interface between a log and the components that write to it before they act: an
  put numbers its entry, a sync makes everything appended survive a crash. The laws are
  proved of the write-ahead log in theory \<open>WalDurable\<close>; the lemmas here are what the
  recovery engine uses.
\<close>

fun append_all :: "('k \<Rightarrow> 's \<Rightarrow> (err + uint64) \<times> 's) \<Rightarrow> 'k list \<Rightarrow> 's \<Rightarrow> (err + uint64 list) \<times> 's" where
  "append_all put [] s = (Inr [], s)"
| "append_all put (k # ks) s =
     (case put k s of
        (Inl e, s1) \<Rightarrow> (Inl e, s1)
      | (Inr q, s1) \<Rightarrow>
          (case append_all put ks s1 of
             (Inl e, s2) \<Rightarrow> (Inl e, s2)
           | (Inr qs, s2) \<Rightarrow> (Inr (q # qs), s2)))"

locale journal =
  fixes inv :: "'r list \<Rightarrow> 's \<Rightarrow> bool"
    and put :: "'k \<Rightarrow> 's \<Rightarrow> (err + uint64) \<times> 's"
    and sync :: "'s \<Rightarrow> err option \<times> 's"
    and number :: "'r \<Rightarrow> uint64"
    and body :: "'r \<Rightarrow> 'k"
    and survives :: "'s \<Rightarrow> 'r set \<Rightarrow> bool"
  assumes append_step: "inv h s \<Longrightarrow> put k s = (r, s') \<Longrightarrow>
      \<exists>new. inv (h @ new) s' \<and>
        (\<forall>q. r = Inr q \<longrightarrow> 0 < q \<and> (\<exists>x. new = [x] \<and> number x = q \<and> body x = k))"
    and sync_step: "inv h s \<Longrightarrow> sync s = (e, s') \<Longrightarrow> inv h s'"
    and sync_survives: "inv h s \<Longrightarrow> sync s = (None, s') \<Longrightarrow> survives s' R \<Longrightarrow> x \<in> set h \<Longrightarrow>
      0 < number x \<Longrightarrow> x \<in> R"
begin

lemma append_Inr:
  assumes "inv h s" "put k s = (Inr q, s')"
  obtains x where "inv (h @ [x]) s'" "number x = q" "body x = k" "0 < q"
  using append_step [OF assms] by auto

lemma append_all_inv:
  "inv h s \<Longrightarrow> append_all put ks s = (Inr qs, s') \<Longrightarrow>
     \<exists>xs. inv (h @ xs) s' \<and> map number xs = qs \<and> map body xs = ks \<and> (\<forall>q \<in> set qs. 0 < q)"
proof (induction ks arbitrary: h s qs)
  case Nil
  then show ?case by (intro exI [of _ "[]"]) simp
next
  case (Cons k ks)
  obtain q s1 qs1 where a: "put k s = (Inr q, s1)" "append_all put ks s1 = (Inr qs1, s')" "qs = q # qs1"
    using Cons.prems(2) by (auto split: prod.splits sum.splits)
  obtain x where x: "inv (h @ [x]) s1" "number x = q" "body x = k" "0 < q"
    using append_Inr [OF Cons.prems(1) a(1)] .
  from Cons.IH [OF x(1) a(2)] obtain xs where
    "inv ((h @ [x]) @ xs) s'" "map number xs = qs1" "map body xs = ks" "\<forall>q \<in> set qs1. 0 < q" by blast
  with x a(3) show ?case by (intro exI [of _ "x # xs"]) simp
qed

lemma batch_survives:
  assumes "inv h s" "append_all put ks s = (Inr qs, s1)" "sync s1 = (None, s2)" "survives s2 R"
  shows "\<exists>xs. set xs \<subseteq> R \<and> map number xs = qs \<and> map body xs = ks"
proof -
  obtain xs where xs: "inv (h @ xs) s1" "map number xs = qs" "map body xs = ks" "\<forall>q \<in> set qs. 0 < q"
    using append_all_inv [OF assms(1,2)] by blast
  have "x \<in> R" if "x \<in> set xs" for x
  proof (rule sync_survives [OF xs(1) assms(3,4)])
    show "x \<in> set (h @ xs)" using that by simp
    show "0 < number x" using that xs(2,4) by auto
  qed
  with xs show ?thesis by blast
qed

end

text \<open>A log whose appends survive a crash on their own.\<close>

locale write_through = journal +
  assumes append_survives: "inv h s \<Longrightarrow> put k s = (Inr q, s') \<Longrightarrow> survives s' R \<Longrightarrow>
      \<exists>x \<in> R. number x = q \<and> body x = k"

end
