(* ===== verification/WalDurable.thy ===== *)
theory WalDurable
  imports WalFile Journal
begin

text \<open>
  Durability of the log of theory \<open>WalFile\<close>: whatever system calls fail and wherever a
  crash cuts the files, the records up to the last durable sequence number are read back;
  without failures everything that was appended is.
\<close>

section \<open>The state of the segments\<close>

text \<open>
  \<open>rss\<close> are the records of the closed segments, \<open>dur\<close> those of the open one that are
  durable, and \<open>c\<close> is what the open file and the buffer hold together.
\<close>

definition seg_clean :: "segfile \<Rightarrow> wal_record list \<Rightarrow> bool" where
  "seg_clean p rs \<longleftrightarrow> sg_data p = frames rs \<and> sg_synced p = length (sg_data p)"

definition open_seg :: "wal_record list \<Rightarrow> bytes \<Rightarrow> file_writer \<Rightarrow> segfile \<Rightarrow> bool" where
  "open_seg dur c w s \<longleftrightarrow>
     sg_num s = w_segment w \<and> (\<exists>tl. sg_data s = frames dur @ tl) \<and>
     length (frames dur) \<le> sg_synced s \<and> sg_synced s \<le> length (sg_data s) \<and>
     (w_buf w = None \<longrightarrow> \<not> w_fd w) \<and>
     (\<forall>buf. w_buf w = Some buf \<longrightarrow> \<not> w_buf_err w \<longrightarrow> sg_data s @ buf = c)"

definition seg_state :: "wal_record list list \<Rightarrow> wal_record list \<Rightarrow> bytes \<Rightarrow> file_writer \<Rightarrow> disk \<Rightarrow> bool" where
  "seg_state rss dur c w d \<longleftrightarrow>
     (\<exists>pre s. d_segs d = pre @ [s] \<and> sorted_wrt (<) (map sg_num (pre @ [s])) \<and>
        list_all2 seg_clean pre rss \<and> open_seg dur c w s)"

lemma upd_seg_last:
  assumes "d_segs d = pre @ [s]" "sorted_wrt (<) (map sg_num (pre @ [s]))" "sg_num s = n"
  shows "d_segs (upd_seg n f d) = pre @ [f s]"
proof -
  have "map (\<lambda>s. if sg_num s = n then f s else s) pre = pre"
    by (rule map_idI) (use assms(2,3) in \<open>auto simp: sorted_wrt_append\<close>)
  with assms show ?thesis by (simp add: upd_seg_def)
qed

lemma d_segs_io [simp]: "d_segs (snd (io_next d)) = d_segs d"
  by (simp add: io_next_def)

lemma seg_stateI:
  "d_segs d = pre @ [s] \<Longrightarrow> sorted_wrt (<) (map sg_num (pre @ [s])) \<Longrightarrow> list_all2 seg_clean pre rss \<Longrightarrow>
     open_seg dur c w s \<Longrightarrow> seg_state rss dur c w d"
  unfolding seg_state_def by blast

lemma seg_state_dead:
  "seg_state rss dur c w d \<Longrightarrow> w_buf_err w \<or> w_buf w = None \<Longrightarrow> seg_state rss dur c' w d"
  unfolding seg_state_def open_seg_def by auto

lemma seg_state_fields:
  "w_segment w' = w_segment w \<Longrightarrow> w_buf w' = w_buf w \<Longrightarrow> w_fd w' = w_fd w \<Longrightarrow> w_buf_err w' = w_buf_err w \<Longrightarrow>
     d_segs d' = d_segs d \<Longrightarrow> seg_state rss dur c w d \<Longrightarrow> seg_state rss dur c w' d'"
  unfolding seg_state_def open_seg_def by simp

text \<open>A write at the end of the open file.\<close>

lemma os_write_state:
  assumes st: "seg_state rss dur c w d" and b: "w_buf w = Some buf" "\<not> w_buf_err w"
    and wr: "os_write (w_segment w) p d = (k, ok, d')"
    and w': "w' = w\<lparr>w_buf := Some buf', w_buf_err := e\<rparr>" and fd: "w_fd w"
    and c': "\<not> e \<Longrightarrow> c @ take k p @ buf' = c' @ buf"
    and bb: "buf = [] \<or> (\<exists>x. c = x @ buf \<and> c' = x @ take k p @ buf')"
  shows "seg_state rss dur c' w' d'"
proof -
  obtain pre s where s: "d_segs d = pre @ [s]" "sorted_wrt (<) (map sg_num (pre @ [s]))"
    "list_all2 seg_clean pre rss" "open_seg dur c w s" using st unfolding seg_state_def by blast
  let ?s = "s\<lparr>sg_data := sg_data s @ take k p\<rparr>"
  have "d' = upd_seg (w_segment w) (\<lambda>s. s\<lparr>sg_data := sg_data s @ take k p\<rparr>) (snd (io_next d))"
    using wr by (auto simp: os_write_def split_beta Let_def)
  then have "d_segs d' = pre @ [?s]"
    using upd_seg_last [of "snd (io_next d)" pre s] s by (simp add: open_seg_def)
  moreover have "sg_data s @ buf = c" using s(4) b by (simp add: open_seg_def)
  then have "open_seg dur c' w' ?s"
    using s(4) c' bb fd by (auto simp: open_seg_def w')
  moreover have "sorted_wrt (<) (map sg_num (pre @ [?s]))" using s(2) by simp
  ultimately show ?thesis using s(3) by (rule_tac seg_stateI)
qed

lemma os_write_ok: "os_write n p d = (k, True, d') \<Longrightarrow> k = length p"
  by (auto simp: os_write_def split_beta Let_def split: option.splits)

text \<open>Two writers that differ at most in the buffer and its error.\<close>

definition buf_only :: "file_writer \<Rightarrow> file_writer \<Rightarrow> bool" where
  "buf_only w w' \<longleftrightarrow> w'\<lparr>w_buf := w_buf w, w_buf_err := w_buf_err w\<rparr> = w"

lemma buf_only_simps [simp]:
  "buf_only w w" "buf_only w (w\<lparr>w_buf := b\<rparr>)" "buf_only w (w\<lparr>w_buf_err := e\<rparr>)"
  "buf_only w (w\<lparr>w_buf := b, w_buf_err := e\<rparr>)"
  by (simp_all add: buf_only_def)

lemma buf_onlyE:
  assumes "buf_only w w'"
  obtains b e where "w' = w\<lparr>w_buf := b, w_buf_err := e\<rparr>"
proof -
  have "w' = (w'\<lparr>w_buf := w_buf w, w_buf_err := w_buf_err w\<rparr>)\<lparr>w_buf := w_buf w', w_buf_err := w_buf_err w'\<rparr>" by simp
  then show thesis using that assms unfolding buf_only_def by metis
qed

lemma buf_only_trans: "buf_only w w1 \<Longrightarrow> buf_only w1 w2 \<Longrightarrow> buf_only w w2"
  by (elim buf_onlyE) simp

lemma buf_only_fields:
  assumes "buf_only w w'"
  shows "w_cfg w' = w_cfg w" "w_file w' = w_file w" "w_fd w' = w_fd w" "w_segment w' = w_segment w"
    "w_lastSeq w' = w_lastSeq w" "w_lastDurableSeq w' = w_lastDurableSeq w" "w_closed w' = w_closed w"
    "w_recordsSinceSync w' = w_recordsSinceSync w" "w_written w' = w_written w"
  using assms by (auto elim: buf_onlyE)

lemma buf_flush_state:
  assumes st: "seg_state rss dur c w d" and fl: "buf_flush w d = (ok, w', d')"
  shows "seg_state rss dur c w' d' \<and> buf_only w w' \<and>
    (ok \<longrightarrow> w_buf w' = Some [] \<and> \<not> w_buf_err w')"
proof (cases "w_buf w")
  case None
  then show ?thesis using assms by (auto simp: buf_flush_def)
next
  case (Some buf)
  consider "w_buf_err w" | "\<not> w_buf_err w" "buf = []" | "\<not> w_buf_err w" "buf \<noteq> []" "\<not> w_fd w"
    | "\<not> w_buf_err w" "buf \<noteq> []" "w_fd w" by blast
  then show ?thesis
  proof cases
    case 1
    with Some assms show ?thesis by (auto simp: buf_flush_def)
  next
    case 2
    with Some assms show ?thesis by (auto simp: buf_flush_def)
  next
    case 3
    then have w': "w' = w\<lparr>w_buf_err := True\<rparr>" "d' = d" "\<not> ok" using Some fl by (auto simp: buf_flush_def)
    have "seg_state rss dur c w' d'" using st unfolding w' seg_state_def open_seg_def by auto
    with w' Some show ?thesis by auto
  next
    case 4
    obtain k o1 d1 where wr: "os_write (w_segment w) buf d = (k, o1, d1)" by (metis prod_cases3)
    then have e: "ok = o1" "d' = d1" "w' = w\<lparr>w_buf := Some (drop k buf), w_buf_err := \<not> o1\<rparr>"
      using Some fl 4 by (auto simp: buf_flush_def)
    have "sg_data s @ buf = c" if "open_seg dur c w s" for s using that Some 4 by (simp add: open_seg_def)
    then obtain x where x: "c = x @ buf" using st unfolding seg_state_def by blast
    have "seg_state rss dur c w' d1"
    proof (rule os_write_state [OF st Some 4(1) wr e(3) 4(3)])
      show "c @ take k buf @ drop k buf = c @ buf" by simp
      show "buf = [] \<or> (\<exists>y. c = y @ buf \<and> c = y @ take k buf @ drop k buf)" using x by auto
    qed
    with e os_write_ok [of "w_segment w" buf d k d1] wr show ?thesis by auto
  qed
qed

lemma buf_direct_state:
  assumes st: "seg_state rss dur c w d" and b: "w_buf w = Some []" "\<not> w_buf_err w"
    and wr: "buf_direct p w d = (ok, w', d')"
  shows "buf_only w w' \<and>
    seg_state rss dur (if ok then c @ p else c) w' d'"
proof (cases "w_fd w")
  case False
  then have w': "w' = w\<lparr>w_buf_err := True\<rparr>" "d' = d" "\<not> ok" using wr by (auto simp: buf_direct_def)
  have "seg_state rss dur c w' d'" using st unfolding w' seg_state_def open_seg_def by auto
  with w' b show ?thesis by auto
next
  case True
  obtain k o1 d1 where ow: "os_write (w_segment w) p d = (k, o1, d1)" by (metis prod_cases3)
  then have e: "ok = o1" "d' = d1" "w' = w\<lparr>w_buf := Some [], w_buf_err := \<not> o1\<rparr>"
    using wr True b by (auto simp: buf_direct_def)
  have "seg_state rss dur (c @ take k p) w' d1"
    by (rule os_write_state [OF st b ow e(3) True]) simp_all
  moreover have "seg_state rss dur c w' d1" if "\<not> o1"
    by (rule seg_state_dead [OF calculation]) (simp add: e that)
  ultimately show ?thesis using e ow os_write_ok [of "w_segment w" p d k d1] by auto
qed

lemma seg_state_fill:
  assumes "seg_state rss dur c w d" "w_buf w = Some b" "\<not> w_buf_err w"
  shows "seg_state rss dur (c @ q) (w\<lparr>w_buf := Some (b @ q)\<rparr>) d"
proof -
  obtain pre s where s: "d_segs d = pre @ [s]" "sorted_wrt (<) (map sg_num (pre @ [s]))"
    "list_all2 seg_clean pre rss" "open_seg dur c w s" using assms(1) unfolding seg_state_def by blast
  have "sg_data s @ b = c" using s(4) assms(2,3) by (simp add: open_seg_def)
  then have "open_seg dur (c @ q) (w\<lparr>w_buf := Some (b @ q)\<rparr>) s"
    using s(4) assms(2) by (auto simp: open_seg_def)
  with s(1-3) show ?thesis by (rule seg_stateI)
qed

lemma buf_write_state:
  assumes st: "seg_state rss dur c w d" and wr: "buf_write p w d = (ok, w', d')"
  shows "buf_only w w' \<and> seg_state rss dur (if ok then c @ p else c) w' d'"
proof (cases "w_buf w")
  case None
  with assms show ?thesis by (auto simp: buf_write_def)
next
  case (Some buf)
  let ?n = "w_writeBufferSize w - length buf"
  consider (err) "w_buf_err w" | (fit) "\<not> w_buf_err w" "length p \<le> ?n"
    | (direct) "\<not> w_buf_err w" "\<not> length p \<le> ?n" "buf = []"
    | (fill) "\<not> w_buf_err w" "\<not> length p \<le> ?n" "buf \<noteq> []" by blast
  then show ?thesis
  proof cases
    case err
    with Some assms show ?thesis by (auto simp: buf_write_def)
  next
    case fit
    then have w': "w' = w\<lparr>w_buf := Some (buf @ p)\<rparr>" "d' = d" "ok" using Some wr by (auto simp: buf_write_def)
    have "seg_state rss dur (c @ p) w' d'" using st Some fit(1) unfolding w' seg_state_def open_seg_def by auto
    with w' fit show ?thesis by auto
  next
    case direct
    with Some wr have "buf_direct p w d = (ok, w', d')" by (auto simp: buf_write_def)
    with buf_direct_state [OF st _ direct(1)] Some direct(3) show ?thesis by blast
  next
    case fill
    let ?w = "w\<lparr>w_buf := Some (buf @ take ?n p)\<rparr>"
    have st1: "seg_state rss dur (c @ take ?n p) ?w d"
      using st Some fill(1) unfolding seg_state_def open_seg_def by auto
    obtain ok1 w1 d1 where fl: "buf_flush ?w d = (ok1, w1, d1)" by (metis prod_cases3)
    note f = buf_flush_state [OF st1 fl]
    then have w1: "buf_only w w1" using buf_only_trans [of w ?w w1] by auto
    show ?thesis
    proof (cases ok1)
      case False
      then have r: "ok = False" "w' = w1" "d' = d1" using Some wr fill fl by (auto simp: buf_write_def Let_def)
      have "w_buf_err w1 \<or> w_buf w1 = None"
        using fl False by (auto simp: buf_flush_def Let_def split_beta split: if_splits)
      with f have "seg_state rss dur c w1 d1" using seg_state_dead by blast
      with r w1 show ?thesis by auto
    next
      case True
      with f have b1: "w_buf w1 = Some []" "\<not> w_buf_err w1" and s1: "seg_state rss dur (c @ take ?n p) w1 d1" by auto
      show ?thesis
      proof (cases "length (drop ?n p) \<le> w_writeBufferSize w")
        case True
        then have r: "ok" "w' = w1\<lparr>w_buf := Some (drop ?n p)\<rparr>" "d' = d1"
          using Some wr fill fl \<open>ok1\<close> by (auto simp: buf_write_def Let_def)
        have "seg_state rss dur (c @ p) w' d'"
          using seg_state_fill [OF s1 b1, of "drop ?n p"] unfolding r(2,3) by simp
        with r w1 show ?thesis by (auto intro: buf_only_trans)
      next
        case False
        then have "buf_direct (drop ?n p) w1 d1 = (ok, w', d')"
          using Some wr fill fl \<open>ok1\<close> by (auto simp: buf_write_def Let_def)
        from buf_direct_state [OF s1 b1 this] w1
        have r: "buf_only w w'"
          "seg_state rss dur (if ok then c @ p else c @ take ?n p) w' d'"
          by (auto split: if_splits intro: buf_only_trans)
        have "seg_state rss dur c w' d'" if "\<not> ok"
        proof -
          have "w_buf_err w'" using \<open>buf_direct (drop ?n p) w1 d1 = (ok, w', d')\<close> that
            by (auto simp: buf_direct_def Let_def split_beta split: if_splits)
          with r that show ?thesis using seg_state_dead by auto
        qed
        with r show ?thesis by auto
      qed
    qed
  qed
qed

lemma flushAndSync_state:
  assumes st: "seg_state rss dur (frames all) w d" and fs: "flushAndSyncLocked w d = (e, w', d')"
  shows "buf_only w w' \<and> seg_state rss dur (frames all) w' d' \<and>
    (e = None \<longrightarrow> seg_state rss all (frames all) w' d' \<and> w_buf w' = Some [] \<and> \<not> w_buf_err w' \<and> w_fd w')"
proof -
  obtain ok w1 d1 where fl: "(if w_buf w \<noteq> None then buf_flush w d else (True, w, d)) = (ok, w1, d1)"
    by (metis prod_cases3)
  have s1: "seg_state rss dur (frames all) w1 d1 \<and> buf_only w w1 \<and>
      (ok \<longrightarrow> w_buf w1 = None \<or> w_buf w1 = Some [] \<and> \<not> w_buf_err w1)"
  proof (cases "w_buf w = None")
    case True
    then show ?thesis using fl st by auto
  next
    case False
    then have "buf_flush w d = (ok, w1, d1)" using fl by simp
    from buf_flush_state [OF st this] show ?thesis by auto
  qed
  show ?thesis
  proof (cases ok)
    case False
    then have "w' = w1" "d' = d1" "e \<noteq> None" using fs fl by (auto simp: flushAndSyncLocked_def)
    with s1 show ?thesis by auto
  next
    case True
    obtain ok2 d2 where ds: "durableSync w1 d1 = (ok2, d2)" by fastforce
    have r: "w' = w1" "d' = d2" "e = None \<longleftrightarrow> ok2" using fs fl ds True by (auto simp: flushAndSyncLocked_def split: if_splits)
    obtain pre s where s: "d_segs d1 = pre @ [s]" "sorted_wrt (<) (map sg_num (pre @ [s]))"
      "list_all2 seg_clean pre rss" "open_seg dur (frames all) w1 s" using s1 unfolding seg_state_def by blast
    show ?thesis
    proof (cases ok2)
      case False
      then have "d_segs d2 = d_segs d1" using ds
        by (auto simp: durableSync_def os_sync_def io_next_def split: if_splits)
      with r False s1 seg_state_fields [of w1 w1 d2 d1] show ?thesis by auto
    next
      case True
      then have sy: "w_fd w1" "os_sync (w_segment w1) d1 = (True, d2)"
        using ds by (auto simp: durableSync_def split: if_splits)
      then have b: "w_buf w1 = Some []" "\<not> w_buf_err w1" using s1 s(4) \<open>ok\<close> by (auto simp: open_seg_def)
      let ?s = "s\<lparr>sg_synced := length (sg_data s)\<rparr>"
      have "d2 = upd_seg (w_segment w1) (\<lambda>s. s\<lparr>sg_synced := length (sg_data s)\<rparr>) (snd (io_next d1))"
        using sy(2) by (auto simp: os_sync_def split_beta Let_def split: if_splits)
      then have d2: "d_segs d2 = pre @ [?s]"
        using upd_seg_last [of "snd (io_next d1)" pre s] s by (simp add: open_seg_def)
      have so: "sorted_wrt (<) (map sg_num (pre @ [?s]))" using s(2) by simp
      have data: "sg_data s = frames all" using s(4) b by (simp add: open_seg_def)
      have "open_seg dur (frames all) w1 ?s" "open_seg all (frames all) w1 ?s"
        using s(4) b sy(1) data by (auto simp: open_seg_def)
      with seg_stateI [OF d2 so s(3)] r s1 sy(1) b show ?thesis by auto
    qed
  qed
qed

text \<open>
  \<open>hist\<close> are all records that went into the log; those after \<open>dur\<close> in the open
  segment may still be lost, and they lie above the last durable sequence number.
\<close>

definition wal_inv :: "wal_record list \<Rightarrow> wstate \<Rightarrow> bool" where
  "wal_inv hist st \<longleftrightarrow>
     (let (w, d, clk) = st
      in w_lastDurableSeq w \<le> w_lastSeq w \<and> (\<forall>r \<in> set hist. fits r) \<and>
         (\<exists>rss dur pend. hist = concat rss @ dur @ pend \<and> seg_state rss dur (frames (dur @ pend)) w d \<and>
            (\<forall>r \<in> set pend. w_lastDurableSeq w < r_SeqID r \<or> r_SeqID r = 0)))"

lemma wal_invI:
  "w_lastDurableSeq w \<le> w_lastSeq w \<Longrightarrow> \<forall>r \<in> set hist. fits r \<Longrightarrow> hist = concat rss @ dur @ pend \<Longrightarrow>
     seg_state rss dur (frames (dur @ pend)) w d \<Longrightarrow>
     \<forall>r \<in> set pend. w_lastDurableSeq w < r_SeqID r \<or> r_SeqID r = 0 \<Longrightarrow> wal_inv hist (w, d, clk)"
  unfolding wal_inv_def by auto

lemma maybeSync_inv:
  assumes inv: "wal_inv hist (w, d, clk)" and ms: "maybeSyncLocked force (w, d, clk) = (e, w', d', clk')"
  shows "wal_inv hist (w', d', clk')" and "w_segment w' = w_segment w" and "w_cfg w' = w_cfg w"
    and "w_lastSeq w' = w_lastSeq w" and "w_closed w' = w_closed w"
    and "e = None \<Longrightarrow> force \<or> \<not> GroupCommitEnabled (w_cfg w) \<and> w_recordsSinceSync w \<noteq> 0 \<Longrightarrow>
       w_lastDurableSeq w' = w_lastSeq w \<and> w_file w' = w_file w \<and>
       (\<exists>rss dur. hist = concat rss @ dur \<and> seg_state rss dur (frames dur) w' d') \<and>
       w_buf w' = Some [] \<and> \<not> w_buf_err w'"
    and "w_file w' = w_file w" and "0 \<le> w_recordsSinceSync w \<Longrightarrow> 0 \<le> w_recordsSinceSync w'"
proof -
  obtain rss dur pend where h: "hist = concat rss @ dur @ pend"
    and st: "seg_state rss dur (frames (dur @ pend)) w d"
    and pe: "\<forall>r \<in> set pend. w_lastDurableSeq w < r_SeqID r \<or> r_SeqID r = 0"
    and le: "w_lastDurableSeq w \<le> w_lastSeq w" and ft: "\<forall>r \<in> set hist. fits r"
    using inv by (auto simp: wal_inv_def)
  obtain e1 w1 d1 where fs: "flushAndSyncLocked w d = (e1, w1, d1)" by (metis prod_cases3)
  note f = flushAndSync_state [OF st fs]
  note ff = buf_only_fields [of w w1]
  consider (skip) "e = None" "w' = w" "d' = d" "\<not> force" "GroupCommitEnabled (w_cfg w) \<or> w_recordsSinceSync w = 0"
    | (fail) "e \<noteq> None" "w' = w1" "d' = d1" "e1 \<noteq> None"
    | (synced) t where "e = None" "e1 = None" "d' = d1"
        "w' = w1\<lparr>w_lastDurableSeq := w_lastSeq w1, w_recordsSinceSync := 0, w_lastSyncAt := t\<rparr>"
    using ms fs by (auto simp: maybeSyncLocked_def GroupCommitEnabled_def Let_def split_beta split: if_splits option.splits)
  then have "wal_inv hist (w', d', clk') \<and> w_segment w' = w_segment w \<and> w_cfg w' = w_cfg w \<and>
    w_lastSeq w' = w_lastSeq w \<and> w_closed w' = w_closed w \<and> w_file w' = w_file w \<and>
    (0 \<le> w_recordsSinceSync w \<longrightarrow> 0 \<le> w_recordsSinceSync w') \<and>
    (e = None \<longrightarrow> force \<or> \<not> GroupCommitEnabled (w_cfg w) \<and> w_recordsSinceSync w \<noteq> 0 \<longrightarrow>
       w_lastDurableSeq w' = w_lastSeq w \<and> w_file w' = w_file w \<and>
       (\<exists>rss dur. hist = concat rss @ dur \<and> seg_state rss dur (frames dur) w' d') \<and>
       w_buf w' = Some [] \<and> \<not> w_buf_err w')"
  proof cases
    case skip
    with inv show ?thesis by (auto simp: wal_inv_def)
  next
    case fail
    with f have "seg_state rss dur (frames (dur @ pend)) w' d'" by simp
    with fail f ff h pe le ft show ?thesis unfolding wal_inv_def by auto
  next
    case synced
    with f have s1: "seg_state rss (dur @ pend) (frames (dur @ pend)) w1 d1" by simp
    have s2: "seg_state rss (dur @ pend) (frames (dur @ pend)) w' d'"
      by (rule seg_state_fields [OF _ _ _ _ _ s1]) (simp_all add: synced)
    have "wal_inv hist (w', d', clk')"
      by (rule wal_invI [of _ _ rss "dur @ pend" "[]"]) (use s2 synced(4) h ft in simp_all)
    moreover have "\<exists>rss dur. hist = concat rss @ dur \<and> seg_state rss dur (frames dur) w' d'"
      using s2 h by (intro exI [of _ rss] exI [of _ "dur @ pend"]) simp
    ultimately show ?thesis using synced f ff by simp
  qed
  then show "wal_inv hist (w', d', clk')" and "w_segment w' = w_segment w" and "w_cfg w' = w_cfg w"
    and "w_lastSeq w' = w_lastSeq w" and "w_closed w' = w_closed w"
    and "e = None \<Longrightarrow> force \<or> \<not> GroupCommitEnabled (w_cfg w) \<and> w_recordsSinceSync w \<noteq> 0 \<Longrightarrow>
       w_lastDurableSeq w' = w_lastSeq w \<and> w_file w' = w_file w \<and>
       (\<exists>rss dur. hist = concat rss @ dur \<and> seg_state rss dur (frames dur) w' d') \<and>
       w_buf w' = Some [] \<and> \<not> w_buf_err w'"
    and "w_file w' = w_file w" and "0 \<le> w_recordsSinceSync w \<Longrightarrow> 0 \<le> w_recordsSinceSync w'" by blast+
qed

lemma insert_seg_after:
  "\<forall>s \<in> set ss. sg_num s < n \<Longrightarrow> insert_seg n ss = ss @ [\<lparr> sg_num = n, sg_data = [], sg_synced = 0 \<rparr>]"
  by (induction ss) auto

lemma open_new_segment:
  assumes st: "seg_state rss dur (frames dur) w d" and b: "w_buf w = Some []" "\<not> w_buf_err w"
    and d2: "d_segs d2 = insert_seg (Suc (w_segment w)) (d_segs d)"
    and w2: "w2 = w1\<lparr>w_file := True, w_fd := True, w_buf := Some [], w_buf_err := False,
      w_segment := Suc (w_segment w), w_written := 0\<rparr>"
  shows "seg_state (rss @ [dur]) [] [] w2 d2"
proof -
  obtain pre s where s: "d_segs d = pre @ [s]" "sorted_wrt (<) (map sg_num (pre @ [s]))"
    "list_all2 seg_clean pre rss" "open_seg dur (frames dur) w s" using st unfolding seg_state_def by blast
  let ?n = "\<lparr> sg_num = Suc (w_segment w), sg_data = [], sg_synced = 0 \<rparr>"
  have num: "sg_num s = w_segment w" using s(4) by (simp add: open_seg_def)
  have "\<forall>x \<in> set (pre @ [s]). sg_num x < Suc (w_segment w)"
    using s(2) num by (auto simp: sorted_wrt_append intro: less_SucI)
  then have e: "d_segs d2 = (pre @ [s]) @ [?n]" using d2 s(1) insert_seg_after by simp
  have so: "sorted_wrt (<) (map sg_num ((pre @ [s]) @ [?n]))"
    using s(2) num by (auto simp: sorted_wrt_append intro: less_SucI)
  have "seg_clean s dur" using s(4) b by (auto simp: open_seg_def seg_clean_def)
  then have "list_all2 seg_clean (pre @ [s]) (rss @ [dur])" using s(3) by (simp add: list_all2_appendI)
  moreover have "open_seg [] [] w2 ?n" by (simp add: open_seg_def w2)
  ultimately show ?thesis using e so by (rule_tac seg_stateI)
qed

lemma seg_state_close:
  "seg_state rss dur c w d \<Longrightarrow> w_segment w' = w_segment w \<Longrightarrow> w_buf w' = None \<Longrightarrow> \<not> w_fd w' \<Longrightarrow>
     d_segs d' = d_segs d \<Longrightarrow> seg_state rss dur c' w' d'"
  unfolding seg_state_def open_seg_def by auto

lemma wal_inv_close:
  assumes "wal_inv hist (w, d, clk)" "w_segment w' = w_segment w" "w_buf w' = None" "\<not> w_fd w'"
    "d_segs d' = d_segs d" "w_lastSeq w' = w_lastSeq w" "w_lastDurableSeq w' = w_lastDurableSeq w"
  shows "wal_inv hist (w', d', clk')"
proof -
  obtain rss dur pend where h: "hist = concat rss @ dur @ pend"
    and st: "seg_state rss dur (frames (dur @ pend)) w d"
    and pe: "\<forall>r \<in> set pend. w_lastDurableSeq w < r_SeqID r \<or> r_SeqID r = 0"
    and le: "w_lastDurableSeq w \<le> w_lastSeq w" and ft: "\<forall>r \<in> set hist. fits r"
    using assms(1) by (auto simp: wal_inv_def)
  show ?thesis
    by (rule wal_invI [OF _ _ h seg_state_close [OF st]]) (use assms pe le ft in simp_all)
qed

lemma wal_inv_fields:
  assumes "wal_inv hist (w, d, clk)" "w_segment w' = w_segment w" "w_buf w' = w_buf w" "w_buf_err w' = w_buf_err w"
    "w_fd w' = w_fd w" "d_segs d' = d_segs d" "w_lastSeq w' = w_lastSeq w" "w_lastDurableSeq w' = w_lastDurableSeq w"
  shows "wal_inv hist (w', d', clk')"
proof -
  obtain rss dur pend where h: "hist = concat rss @ dur @ pend"
    and st: "seg_state rss dur (frames (dur @ pend)) w d"
    and pe: "\<forall>r \<in> set pend. w_lastDurableSeq w < r_SeqID r \<or> r_SeqID r = 0"
    and le: "w_lastDurableSeq w \<le> w_lastSeq w" and ft: "\<forall>r \<in> set hist. fits r"
    using assms(1) by (auto simp: wal_inv_def)
  show ?thesis
    by (rule wal_invI [OF _ _ h seg_state_fields [OF _ _ _ _ _ st]]) (use assms pe le ft in simp_all)
qed

lemma os_call_segs: "os_call d = (ok, d') \<Longrightarrow> d_segs d' = d_segs d"
  by (auto simp: os_call_def io_next_def Let_def)

lemma os_open_segs:
  "os_open n d = (ok, d') \<Longrightarrow> d_segs d' = (if ok then insert_seg n (d_segs d) else d_segs d)"
  by (auto simp: os_open_def io_next_def Let_def split: if_splits)

lemma rotate_inv:
  assumes inv: "wal_inv hist (w, d, clk)" and fopen: "w_file w"
    and os: "openSegment (Suc (w_segment w)) (w, d, clk) = (e, w', d', clk')"
  shows "wal_inv hist (w', d', clk') \<and> w_lastSeq w' = w_lastSeq w \<and> w_closed w' = w_closed w \<and> w_cfg w' = w_cfg w \<and>
    w_file w' \<and> (0 \<le> w_recordsSinceSync w \<longrightarrow> 0 \<le> w_recordsSinceSync w') \<and>
    (e = None \<longrightarrow> w_lastDurableSeq w' = w_lastSeq w)"
proof -
  obtain e1 w1 d1 clk1 where ms: "maybeSyncLocked True (w, d, clk) = (e1, w1, d1, clk1)" by (metis prod_cases4)
  note m = maybeSync_inv [OF inv ms]
  show ?thesis
  proof (cases e1)
    case (Some er)
    then have "w' = w1" "d' = d1" "clk' = clk1" "e \<noteq> None" using os ms fopen by (auto simp: openSegment_def)
    with m(1,4,5,3,7,8) fopen show ?thesis by auto
  next
    case None
    note mm = m(6) [OF None]
    then obtain rss dur where s1: "hist = concat rss @ dur" "seg_state rss dur (frames dur) w1 d1"
      and b1: "w_buf w1 = Some []" "\<not> w_buf_err w1" and dl: "w_lastDurableSeq w1 = w_lastSeq w" by auto
    obtain ok d2 where oc: "os_call d1 = (ok, d2)" by fastforce
    have sg2: "d_segs d2 = d_segs d1" using os_call_segs [OF oc] .
    have inv1: "wal_inv hist (w1, d1, clk1)" by (rule m(1))
    show ?thesis
    proof (cases ok)
      case False
      then have r: "w' = w1\<lparr>w_fd := False\<rparr>" "d' = d2" "clk' = clk1" "e \<noteq> None"
        using os ms fopen None oc by (auto simp: openSegment_def)
      have "seg_state rss dur (frames (dur @ [])) w' d'"
        using s1(2) b1 sg2 unfolding r seg_state_def open_seg_def by simp
      then have "wal_inv hist (w', d', clk')"
        by (rule_tac wal_invI [of _ _ rss dur "[]"])
          (use inv1 s1(1) in \<open>simp_all add: r wal_inv_def\<close>)
      with r m fopen show ?thesis by auto
    next
      case True
      let ?w = "w1\<lparr>w_fd := False, w_buf := None\<rparr>"
      obtain ok3 d3 where oo: "os_open (Suc (w_segment w)) d2 = (ok3, d3)" by fastforce
      show ?thesis
      proof (cases ok3)
        case False
        then have r: "w' = ?w" "d' = d3" "clk' = clk1" "e \<noteq> None"
          using os ms fopen None oc True oo by (auto simp: openSegment_def)
        have "wal_inv hist (w', d', clk')"
          by (rule wal_inv_close [OF inv1]) (use r os_open_segs [OF oo] False sg2 in simp_all)
        with r m fopen show ?thesis by auto
      next
        case True
        then have r: "w' = ?w\<lparr>w_file := True, w_fd := True, w_buf := Some [], w_buf_err := False,
            w_segment := Suc (w_segment w), w_written := 0\<rparr>" "d' = d3" "clk' = clk1"
          using os ms fopen None oc \<open>ok\<close> oo by (auto simp: openSegment_def)
        have "seg_state (rss @ [dur]) [] [] w' d'"
          by (rule open_new_segment [OF s1(2) b1])
            (use r os_open_segs [OF oo] True sg2 m(2) in simp_all)
        then have "wal_inv hist (w', d', clk')"
          by (rule_tac wal_invI [of _ _ "rss @ [dur]" "[]" "[]"])
            (use inv1 s1(1) in \<open>simp_all add: r wal_inv_def\<close>)
        with r m dl show ?thesis by simp
      qed
    qed
  qed
qed

section \<open>Appending\<close>

text \<open>The record an append writes, if its time stamp is left aside.\<close>

definition w_ok :: "file_writer \<Rightarrow> bool" where
  "w_ok w \<longleftrightarrow> (w_closed w \<or> w_file w) \<and> 0 \<le> w_recordsSinceSync w"

definition is_rec :: "uint64 \<Rightarrow> byte \<Rightarrow> bytes \<Rightarrow> wal_record \<Rightarrow> bool" where
  "is_rec seq et p r \<longleftrightarrow> r_SeqID r = seq \<and> r_EventType r = et \<and> r_Payload r = p"

lemma NewRecord_is: "NewRecord seq et p 0 clk = (r, clk') \<Longrightarrow> is_rec seq et p r"
  by (auto simp: NewRecord_def is_rec_def now_def)

lemma encodeInto_exact:
  "encodeInto r (replicate (recordLenSize + BodyLen r) 0) = (if fits r then Inr (frame_bytes r) else Inl (ErrMsg ''wal: record body too large''))"
  by (auto simp: encodeInto_def fits_def)

lemma buffered_inv:
  assumes inv: "wal_inv hist (w, d, clk)" and wr: "buf_write (frame_bytes r) w d = (ok, w1, d1)"
    and ft: "fits r" and sq: "r_SeqID r = seq" and mono: "w_lastSeq w = 0 \<or> w_lastSeq w < seq"
  shows "wal_inv (if ok then hist @ [r] else hist)
      (if ok then w1\<lparr>w_lastSeq := seq, w_written := wn, w_recordsSinceSync := rn\<rparr> else w1, d1, clk1)"
proof -
  obtain rss dur pend where h: "hist = concat rss @ dur @ pend"
    and st: "seg_state rss dur (frames (dur @ pend)) w d"
    and pe: "\<forall>r \<in> set pend. w_lastDurableSeq w < r_SeqID r \<or> r_SeqID r = 0"
    and le: "w_lastDurableSeq w \<le> w_lastSeq w" and hf: "\<forall>r \<in> set hist. fits r"
    using inv by (auto simp: wal_inv_def)
  from buf_write_state [OF st wr] have bo: "buf_only w w1"
    and s1: "seg_state rss dur (if ok then frames (dur @ pend) @ frame_bytes r else frames (dur @ pend)) w1 d1" by auto
  note bf = buf_only_fields [OF bo]
  show ?thesis
  proof (cases ok)
    case False
    then show ?thesis
      using s1 pe le hf h by (simp add: wal_invI [of _ _ rss dur pend] bf)
  next
    case True
    let ?w = "w1\<lparr>w_lastSeq := seq, w_written := wn, w_recordsSinceSync := rn\<rparr>"
    have "seg_state rss dur (frames (dur @ pend @ [r])) ?w d1"
      by (rule seg_state_fields [of _ w1 _ d1]) (use s1 True in simp_all)
    moreover have "w_lastDurableSeq w \<le> seq" "w_lastDurableSeq w < seq \<or> seq = 0"
      using le mono word_gt_0 [of seq] by (auto simp: not_less)
    ultimately have "wal_inv (hist @ [r]) (?w, d1, clk1)"
      by (rule_tac wal_invI [of _ _ rss dur "pend @ [r]"]) (use pe hf h ft sq bf in auto)
    with True show ?thesis by simp
  qed
qed

lemma write_frame_inv:
  assumes inv: "wal_inv hist (w, d, clk)" and wo: "w_ok w" and go: "\<not> w_closed w" "w_lastSeq w = 0 \<or> w_lastSeq w < seq"
    and r: "fits r" "r_SeqID r = seq" and wf: "write_frame seq (frame_bytes r) (w, d, clk) = (e, w', d', clk')"
  shows "\<exists>new. wal_inv (hist @ new) (w', d', clk') \<and> w_ok w' \<and> w_cfg w' = w_cfg w \<and>
    (new = [] \<and> e \<noteq> None \<or> new = [r]) \<and>
    (e = None \<longrightarrow> \<not> GroupCommitEnabled (w_cfg w) \<longrightarrow> w_lastDurableSeq w' = seq) \<and> (e = None \<longrightarrow> w_lastSeq w' = seq)"
proof -
  have fo: "w_closed w \<or> w_file w" and nn: "0 \<le> w_recordsSinceSync w" using wo by (simp_all add: w_ok_def)
  obtain ok w1 d1 where wr: "buf_write (frame_bytes r) w d = (ok, w1, d1)" by (metis prod_cases3)
  define w2 where "w2 = w1\<lparr>w_lastSeq := seq, w_written := w_written w1 + int (recordLenSize + BodyLen r),
      w_recordsSinceSync := w_recordsSinceSync w1 + 1\<rparr>"
  note bi = buffered_inv [where wn = "w_written w1 + int (recordLenSize + BodyLen r)" and
      rn = "w_recordsSinceSync w1 + 1" and ?clk1.0 = clk, OF inv wr r go(2), folded w2_def]
  have bo: "buf_only w w1"
    using inv buf_write_state [OF _ wr] by (auto simp: wal_inv_def)
  note bf = buf_only_fields [OF bo]
  show ?thesis
  proof (cases ok)
    case False
    then have "e \<noteq> None" "w' = w1" "d' = d1" "clk' = clk"
      using wf wr by (auto simp: write_frame_def)
    with bi False wo bf show ?thesis by (intro exI [of _ "[]"]) (auto simp: w_ok_def)
  next
    case okT: True
    obtain e2 w3 d3 clk3 where ms: "maybeSyncLocked False (w2, d1, clk) = (e2, w3, d3, clk3)"
      by (metis prod_cases4)
    have i2: "wal_inv (hist @ [r]) (w2, d1, clk)" using bi okT by simp
    note m = maybeSync_inv [OF i2 ms]
    have f2: "w_cfg w2 = w_cfg w" "w_file w2 = w_file w" "w_closed w2 = w_closed w"
      "w_recordsSinceSync w2 = w_recordsSinceSync w + 1" "w_lastSeq w2 = seq"
      by (simp_all add: w2_def bf)
    have res: "(e, w', d', clk') = (case e2 of Some x \<Rightarrow> (Some x, w3, d3, clk3)
        | None \<Rightarrow> if MaxSegmentBytes (w_cfg w3) \<le> w_written w3 then rotateLocked (w3, d3, clk3)
                  else (None, w3, d3, clk3))"
      using wf wr okT ms by (cases e2) (auto simp: write_frame_def Let_def w2_def)
    show ?thesis
    proof (cases "e2 = None \<and> MaxSegmentBytes (w_cfg w3) \<le> w_written w3")
      case False
      then have eq: "e = e2" "w' = w3" "d' = d3" "clk' = clk3" using res by (auto split: option.splits)
      have "w_lastDurableSeq w3 = seq" if "e2 = None" "\<not> GroupCommitEnabled (w_cfg w)"
        using m(6) that f2 nn by simp
      with m f2 eq fo nn show ?thesis by (intro exI [of _ "[r]"]) (auto simp: w_ok_def)
    next
      case True
      obtain e4 w4 d4 clk4 where os: "openSegment (Suc (w_segment w3)) (w3, d3, clk3) = (e4, w4, d4, clk4)"
        by (metis prod_cases4)
      have "w_file w3" using m(7) f2 fo go(1) by simp
      note ri = rotate_inv [OF m(1) this os]
      have "e = e4 \<and> (w' = w4 \<or> (\<exists>n. w' = w4\<lparr>w_written := n\<rparr>)) \<and> d' = d4 \<and> clk' = clk4"
        using res True os by (auto simp: rotateLocked_def split: option.splits)
      moreover have "wal_inv (hist @ [r]) (w4\<lparr>w_written := n\<rparr>, d4, clk4)" for n
        using ri by (auto intro: wal_inv_fields [of _ w4 d4 clk4])
      moreover have "0 \<le> w_recordsSinceSync w4" using ri m(8) f2 nn by simp
      ultimately show ?thesis using ri m f2 by (intro exI [of _ "[r]"]) (auto simp: w_ok_def)
    qed
  qed
qed

lemma appendLocked_inv:
  assumes inv: "wal_inv hist (w, d, clk)" and wo: "w_ok w"
    and ap: "appendLocked seq et p (w, d, clk) = (e, w', d', clk')"
  shows "\<exists>new. wal_inv (hist @ new) (w', d', clk') \<and> w_ok w' \<and> w_cfg w' = w_cfg w \<and>
    (new = [] \<and> e \<noteq> None \<or> (\<exists>r. new = [r] \<and> is_rec seq et p r)) \<and>
    (e = None \<longrightarrow> \<not> GroupCommitEnabled (w_cfg w) \<longrightarrow> w_lastDurableSeq w' = seq)"
proof -
  consider (refused) "e \<noteq> None" "w' = w" "d' = d" "clk' = clk"
    | (go) "\<not> w_closed w" "w_lastSeq w = 0 \<or> w_lastSeq w < seq"
    using ap by (cases "w_closed w"; cases "w_lastSeq w \<noteq> 0 \<and> seq \<le> w_lastSeq w")
      (auto simp: appendLocked_def not_le)
  then show ?thesis
  proof cases
    case refused
    with inv wo show ?thesis by (intro exI [of _ "[]"]) auto
  next
    case go
    obtain r clk1 where nr: "NewRecord seq et p 0 clk = (r, clk1)" by (metis surj_pair)
    have ir: "is_rec seq et p r" by (rule NewRecord_is [OF nr])
    have cond: "\<not> (w_lastSeq w \<noteq> 0 \<and> seq \<le> w_lastSeq w)" using go(2) by auto
    have i1: "wal_inv hist (w, d, clk1)" using inv by (auto simp: wal_inv_def)
    show ?thesis
    proof (cases "fits r")
      case False
      then have "e \<noteq> None \<and> w' = w \<and> d' = d \<and> clk' = clk1"
        using ap nr go(1) cond by (auto simp: appendLocked_def encodeInto_exact Let_def)
      with i1 wo show ?thesis by (intro exI [of _ "[]"]) auto
    next
      case True
      then have wf: "write_frame seq (frame_bytes r) (w, d, clk1) = (e, w', d', clk')"
        using ap nr go(1) cond by (simp add: appendLocked_def encodeInto_exact)
      have sq: "r_SeqID r = seq" using ir by (simp add: is_rec_def)
      from write_frame_inv [OF i1 wo go True sq wf] ir show ?thesis by blast
    qed
  qed
qed

lemma Close_inv:
  assumes inv: "wal_inv hist (w, d, clk)" and wo: "w_ok w"
    and cl: "wal_Close (w, d, clk) = (e, w', d', clk')"
  shows "wal_inv hist (w', d', clk') \<and> w_ok w' \<and> w_cfg w' = w_cfg w"
proof (cases "w_closed w")
  case True
  then show ?thesis using assms by (auto simp: wal_Close_def)
next
  case False
  let ?w = "w\<lparr>w_closed := True\<rparr>"
  have f: "w_file w" using wo False by (simp add: w_ok_def)
  have i1: "wal_inv hist (?w, d, clk)" by (rule wal_inv_fields [OF inv]) simp_all
  obtain e1 w1 d1 clk1 where ms: "maybeSyncLocked True (?w, d, clk) = (e1, w1, d1, clk1)" by (metis prod_cases4)
  note m = maybeSync_inv [OF i1 ms]
  obtain ok d2 where oc: "os_call d1 = (ok, d2)" by fastforce
  have r: "w' = w1\<lparr>w_file := False, w_fd := False, w_buf := None\<rparr>" "d' = d2" "clk' = clk1"
    using cl False f ms oc by (auto simp: wal_Close_def closeFileLocked_def split: option.splits if_splits)
  have "wal_inv hist (w', d', clk')"
    by (rule wal_inv_close [OF m(1)]) (simp_all add: r os_call_segs [OF oc])
  with m r wo show ?thesis by (simp add: w_ok_def)
qed

section \<open>Runs and crashes\<close>

datatype wal_op = OpAppend uint64 byte bytes | OpAppendNext byte bytes | OpSync | OpClose

text \<open>
  One call of the writer; the second component lists what it acknowledged as written: the
  sequence number, type and payload of an append that returned without error.
\<close>

fun exec_op :: "wal_op \<Rightarrow> wstate \<Rightarrow> (uint64 \<times> byte \<times> bytes) list \<times> wstate" where
  "exec_op (OpAppend seq et p) st =
     (case Append seq et p st of (None, st') \<Rightarrow> ([(seq, et, p)], st') | (Some e, st') \<Rightarrow> ([], st'))"
| "exec_op (OpAppendNext et p) st =
     (case AppendNext et p st of (Inr seq, st') \<Rightarrow> ([(seq, et, p)], st') | (Inl e, st') \<Rightarrow> ([], st'))"
| "exec_op OpSync st = ([], snd (wal_Sync st))"
| "exec_op OpClose st = ([], snd (wal_Close st))"

fun exec_ops :: "wal_op list \<Rightarrow> wstate \<Rightarrow> (uint64 \<times> byte \<times> bytes) list \<times> wstate" where
  "exec_ops [] st = ([], st)"
| "exec_ops (op # ops) st =
     (let (a, st1) = exec_op op st; (as, st2) = exec_ops ops st1 in (a @ as, st2))"

definition logged :: "wal_record list \<Rightarrow> uint64 \<times> byte \<times> bytes \<Rightarrow> bool" where
  "logged rs a \<longleftrightarrow> (\<exists>r \<in> set rs. case a of (seq, et, p) \<Rightarrow> is_rec seq et p r)"

lemma logged_append [simp]: "logged (rs @ rs') a \<longleftrightarrow> logged rs a \<or> logged rs' a"
  by (auto simp: logged_def)

lemma exec_op_inv:
  assumes inv: "wal_inv hist st" and wo: "w_ok (fst st)" and ex: "exec_op op st = (as, st')"
  shows "\<exists>new. wal_inv (hist @ new) st' \<and> w_ok (fst st') \<and> (\<forall>a \<in> set as. logged new a)"
proof -
  obtain w d clk where st: "st = (w, d, clk)" by (metis prod_cases3)
  obtain w' d' clk' where st': "st' = (w', d', clk')" by (metis prod_cases3)
  have app: "\<exists>new. wal_inv (hist @ new) (w1, d1, clk1) \<and> w_ok w1 \<and> (e = None \<longrightarrow> logged new (seq, et, p))"
    if "appendLocked seq et p (w, d, clk) = (e, w1, d1, clk1)" for seq et p e w1 d1 clk1
    using appendLocked_inv [OF inv [unfolded st] _ that] wo st by (auto simp: logged_def)
  show ?thesis
  proof (cases op)
    case (OpAppend seq et p)
    obtain e where ap: "appendLocked seq et p (w, d, clk) = (e, w', d', clk')" and ee: "e = None \<longleftrightarrow> as = [(seq, et, p)]" "e \<noteq> None \<longleftrightarrow> as = []"
      using ex OpAppend st st' by (auto simp: Append_def split: option.splits prod.splits)
    with app [OF ap] ee st' show ?thesis by (cases e) auto
  next
    case (OpAppendNext et p)
    show ?thesis
    proof (cases "w_closed w")
      case True
      then have "as = []" "st' = st" using ex OpAppendNext st by (auto simp: AppendNext_def)
      with inv wo show ?thesis by (intro exI [of _ "[]"]) simp
    next
      case False
      obtain e where ap: "appendLocked (w_lastSeq w + 1) et p (w, d, clk) = (e, w', d', clk')"
        and ee: "e = None \<longleftrightarrow> as = [(w_lastSeq w + 1, et, p)]" "e \<noteq> None \<longleftrightarrow> as = []"
        using ex OpAppendNext st st' False by (auto simp: AppendNext_def Let_def split: option.splits prod.splits)
      with app [OF ap] ee st' show ?thesis by (cases e) auto
    qed
  next
    case OpSync
    obtain e where ms: "maybeSyncLocked True (w, d, clk) = (e, w', d', clk')" and "as = []"
      using ex OpSync st st' by (metis exec_op.simps(3) fst_conv prod.collapse snd_conv wal_Sync_def)
    with maybeSync_inv [OF inv [unfolded st] ms] wo st st' show ?thesis
      by (intro exI [of _ "[]"]) (simp add: w_ok_def)
  next
    case OpClose
    obtain e where cl: "wal_Close (w, d, clk) = (e, w', d', clk')" and "as = []"
      using ex OpClose st st' by (metis exec_op.simps(4) fst_conv prod.collapse snd_conv)
    with Close_inv [OF inv [unfolded st] _ cl] wo st st' show ?thesis
      by (intro exI [of _ "[]"]) simp
  qed
qed

lemma exec_ops_inv:
  "wal_inv hist st \<Longrightarrow> w_ok (fst st) \<Longrightarrow> exec_ops ops st = (as, st') \<Longrightarrow>
     \<exists>new. wal_inv (hist @ new) st' \<and> (\<forall>a \<in> set as. logged new a)"
proof (induction ops arbitrary: hist st as)
  case Nil
  then show ?case by (intro exI [of _ "[]"]) simp
next
  case (Cons op ops)
  obtain a st1 where e1: "exec_op op st = (a, st1)" by (metis surj_pair)
  obtain as2 st2 where e2: "exec_ops ops st1 = (as2, st2)" by (metis surj_pair)
  have r: "as = a @ as2" "st' = st2" using Cons.prems(3) e1 e2 by auto
  obtain new1 where n1: "wal_inv (hist @ new1) st1" "w_ok (fst st1)" "\<forall>x \<in> set a. logged new1 x"
    using exec_op_inv [OF Cons.prems(1,2) e1] by blast
  obtain new2 where n2: "wal_inv ((hist @ new1) @ new2) st2" "\<forall>x \<in> set as2. logged new2 x"
    using Cons.IH [OF n1(1,2) e2 [folded r(2)]] r(2) by blast
  have "\<forall>x \<in> set as. logged (new1 @ new2) x"
    using n1(3) n2(2) r(1) by auto
  with n2(1) r(2) show ?case by (intro exI [of _ "new1 @ new2"]) simp
qed

text \<open>A crash keeps of every file at least its synced bytes.\<close>

definition crash_seg :: "segfile \<Rightarrow> segfile \<Rightarrow> bool" where
  "crash_seg s s' \<longleftrightarrow>
     (\<exists>k. sg_synced s \<le> k \<and> s' = s\<lparr>sg_data := take k (sg_data s), sg_synced := length (take k (sg_data s))\<rparr>)"

definition crash :: "disk \<Rightarrow> disk \<Rightarrow> bool" where
  "crash d d' \<longleftrightarrow> list_all2 crash_seg (d_segs d) (d_segs d')"

text \<open>What the iterator yields before it stops, from the start of the log.\<close>

definition read_back :: "disk \<Rightarrow> wal_record list" where
  "read_back d = fst (drain (ReadFrom 0 d))"

lemma sort_key_sorted: "sorted_wrt (<) (map f xs) \<Longrightarrow> sort_key f xs = xs" for f :: "'a \<Rightarrow> nat"
  by (rule sort_key_id_if_sorted) (auto elim: sorted_wrt_mono_rel [rotated])

lemma scan_prefix: "\<forall>r \<in> set rs. fits r \<Longrightarrow> set rs \<subseteq> set (fst (scan_records (frames rs @ rest)))"
  by (simp add: scan_frames split_beta Let_def)

lemma crash_clean: "crash_seg s s' \<Longrightarrow> seg_clean s rs \<Longrightarrow> sg_data s' = frames rs"
  by (auto simp: crash_seg_def seg_clean_def)

lemma crash_clean_all: "list_all2 crash_seg pre pre' \<Longrightarrow> list_all2 seg_clean pre rss \<Longrightarrow> map sg_data pre' = map frames rss"
proof (induction pre pre' arbitrary: rss rule: list_all2_induct)
  case (Cons s ss s' ss')
  then show ?case using crash_clean by (cases rss) auto
qed simp

lemma crash_nums: "list_all2 crash_seg ss ss' \<Longrightarrow> map sg_num ss' = map sg_num ss"
  by (induction rule: list_all2_induct) (auto simp: crash_seg_def)

lemma seg_state_crash_paths:
  assumes st: "seg_state rss dur c w d" and cr: "crash d d'"
  shows "\<exists>tl. SegmentPaths d' = map frames rss @ [frames dur @ tl]"
proof -
  obtain pre s where s: "d_segs d = pre @ [s]" "sorted_wrt (<) (map sg_num (pre @ [s]))"
    "list_all2 seg_clean pre rss" "open_seg dur c w s" using st unfolding seg_state_def by blast
  obtain pre' s' where s': "d_segs d' = pre' @ [s']" "list_all2 crash_seg pre pre'" "crash_seg s s'"
    using cr s(1) unfolding crash_def by (auto simp: list_all2_append1 list_all2_Cons1)
  obtain tl where tl: "sg_data s' = frames dur @ tl"
  proof -
    obtain k where k: "sg_synced s \<le> k" "sg_data s' = take k (sg_data s)" using s'(3) by (auto simp: crash_seg_def)
    obtain t where "sg_data s = frames dur @ t" "length (frames dur) \<le> k"
      using s(4) k(1) by (auto simp: open_seg_def)
    with k(2) that show ?thesis by simp
  qed
  have "map sg_num (d_segs d') = map sg_num (pre @ [s])"
    using crash_nums [of "d_segs d" "d_segs d'"] cr s(1) by (simp add: crash_def)
  then have "sort_key sg_num (d_segs d') = d_segs d'" using s(2) by (intro sort_key_sorted) metis
  then show ?thesis
    using s'(1) crash_clean_all [OF s'(2) s(3)] tl by (simp add: SegmentPaths_def)
qed

lemma seg_state_crash:
  assumes st: "seg_state rss dur c w d" and cr: "crash d d'" and hf: "\<forall>r \<in> set (concat rss @ dur). fits r"
    and rd: "r \<in> set (concat rss @ dur)" "0 < r_SeqID r"
  shows "r \<in> set (read_back d')"
proof -
  obtain tl where sp: "SegmentPaths d' = map frames rss @ [frames dur @ tl]"
    using seg_state_crash_paths [OF st cr] by blast
  have "\<forall>r \<in> set (rss ! i). fits r" if "i < length rss" for i
    using hf nth_mem [OF that] by auto
  then have "scan_segments (SegmentPaths d') = (let (rs, e) = scan_segments [frames dur @ tl] in (concat rss @ rs, e))"
    unfolding sp by (rule scan_segments_frames)
  moreover have "set dur \<subseteq> set (fst (scan_segments [frames dur @ tl]))"
    using scan_prefix [of dur tl] hf by (auto simp: split_beta Let_def split: option.splits)
  ultimately have "r \<in> set (fst (scan_segments (SegmentPaths d')))"
    using rd(1) by (auto simp: split_beta Let_def)
  moreover have "read_back d' = filter (\<lambda>r. 0 < r_SeqID r) (fst (scan_segments (SegmentPaths d')))"
    using drain_scan [of "ReadFrom 0 d'"] by (simp add: read_back_def ReadFrom_def newIterator_def)
  ultimately show ?thesis using rd(2) by simp
qed

lemma wal_inv_crash:
  assumes inv: "wal_inv hist (w, d, clk)" and cr: "crash d d'"
    and r: "r \<in> set hist" "0 < r_SeqID r" "r_SeqID r \<le> w_lastDurableSeq w"
  shows "r \<in> set (read_back d')"
proof -
  obtain rss dur pend where h: "hist = concat rss @ dur @ pend"
    and st: "seg_state rss dur (frames (dur @ pend)) w d"
    and pe: "\<forall>r \<in> set pend. w_lastDurableSeq w < r_SeqID r \<or> r_SeqID r = 0" and hf: "\<forall>r \<in> set hist. fits r"
    using inv by (auto simp: wal_inv_def)
  have "r \<in> set (concat rss @ dur)" using r h pe by (auto dest: bspec)
  with seg_state_crash [OF st cr _ _ r(2)] hf h show ?thesis by auto
qed

section \<open>Opening an existing log\<close>

text \<open>A log without a torn tail whose bytes are all on disk: \<open>rss\<close> are its segments' records.\<close>

definition clean_log :: "disk \<Rightarrow> wal_record list list \<Rightarrow> bool" where
  "clean_log d rss \<longleftrightarrow>
     sorted_wrt (<) (map sg_num (d_segs d)) \<and> (\<forall>s \<in> set (d_segs d). 0 < sg_num s) \<and>
     list_all2 seg_clean (d_segs d) rss \<and> (\<forall>rs \<in> set rss. \<forall>r \<in> set rs. fits r)"

lemma max_seg_less:
  "m < n \<Longrightarrow> \<forall>p \<in> set ps. sg_num p < n \<Longrightarrow>
     fold (\<lambda>s m. if m < sg_num s then sg_num s else m) ps m < n"
  by (induction ps arbitrary: m) auto

lemma latestSegment_last:
  assumes "d_segs d = pre @ [s]" "sorted_wrt (<) (map sg_num (pre @ [s]))" "0 < sg_num s"
  shows "latestSegment d = sg_num s"
proof -
  have "\<forall>p \<in> set pre. sg_num p < sg_num s" using assms(2) by (auto simp: sorted_wrt_append)
  from max_seg_less [OF assms(3) this] assms show ?thesis by (simp add: latestSegment_def Let_def)
qed

lemma insert_seg_present:
  "\<forall>p \<in> set pre. sg_num p < sg_num s \<Longrightarrow> insert_seg (sg_num s) (pre @ [s]) = pre @ [s]"
  by (induction pre) auto

lemma find_last: "\<forall>p \<in> set pre. sg_num p < sg_num s \<Longrightarrow> find (\<lambda>x. sg_num x = sg_num s) (pre @ [s]) = Some s"
  by (induction pre) auto

definition last_seq :: "wal_record list \<Rightarrow> uint64" where
  "last_seq rs = (if rs = [] then 0 else r_SeqID (last rs))"

lemma fold_last: "fold (\<lambda>r _. r_SeqID r) rs x = (if rs = [] then x else r_SeqID (last rs))"
  by (induction rs arbitrary: x) auto

lemma scanLastSeq_frames: "\<forall>r \<in> set rs. fits r \<Longrightarrow> scanLastSeq (frames rs) = Inr (last_seq rs)"
  using scan_frames [of rs "[]"] by (simp add: scanLastSeq_def scan_empty fold_last last_seq_def)

text \<open>The segments after opening: an empty directory gets its first segment.\<close>

lemma Open_inv:
  assumes op: "OpenFileWriter dir cfg (d0, clk0) = (Inr w, d1, clk1)" and cl: "clean_log d0 rss"
  shows "wal_inv (concat rss) (w, d1, clk1) \<and> w_ok w \<and>
    w_lastSeq w = last_seq (if rss = [] then [] else last rss) \<and> w_closed w = False \<and>
    GroupCommitEnabled (w_cfg w) = GroupCommitEnabled cfg"
proof -
  obtain da clka w0 where da: "d_segs da = d_segs d0" and w0: "\<not> w_file w0" "w_recordsSinceSync w0 = 0" "w_lastSeq w0 = 0"
      "w_closed w0 = False" "GroupCommitEnabled (w_cfg w0) = GroupCommitEnabled cfg"
    and os: "(case openSegment (latestSegment da) (w0, da, clka) of
        (Some e, w1, d2, clk2) \<Rightarrow> (Inl e, d2, clk2)
      | (None, w1, d2, clk2) \<Rightarrow>
         (case scanLastSeq (seg_data (w_segment w1) d2) of
            Inl e \<Rightarrow> (let (e2, w3, d3, clk3) = closeFileLocked (w1, d2, clk2) in (Inl e, d3, clk3))
          | Inr lastSeq \<Rightarrow>
              (Inr (w1\<lparr>w_lastSeq := lastSeq, w_lastDurableSeq := lastSeq,
                       w_written := int (length (seg_data (w_segment w1) d2))\<rparr>), d2, clk2)))
      = (Inr w, d1, clk1)"
  proof -
    obtain ok d where oc: "os_call d0 = (ok, d)" by fastforce
    have "d_segs d = d_segs d0" by (rule os_call_segs [OF oc])
    with op oc show ?thesis
      by (intro that [of d]) (auto simp: OpenFileWriter_def Let_def GroupCommitEnabled_def now_def split: if_splits)
  qed
  let ?n = "latestSegment da"
  obtain ok d2 where oo: "os_open ?n da = (ok, d2)" by fastforce
  let ?w1 = "w0\<lparr>w_file := True, w_fd := True, w_buf := Some [], w_buf_err := False, w_segment := ?n, w_written := 0\<rparr>"
  have ok: "ok" using os oo w0(1) by (cases ok) (auto simp: openSegment_def)
  then have segs: "d_segs d2 = insert_seg ?n (d_segs d0)" using os_open_segs [OF oo] da by simp
  have os': "openSegment ?n (w0, da, clka) = (None, ?w1, d2, clka)"
    using oo ok w0(1) by (simp add: openSegment_def)
  obtain pre s rs rss' where ps: "d_segs d2 = pre @ [s]" "sorted_wrt (<) (map sg_num (pre @ [s]))"
      "list_all2 seg_clean pre rss'" "seg_clean s rs" "sg_num s = ?n"
    and rr: "concat rss = concat rss' @ rs" "(if rss = [] then [] else last rss) = rs"
    and ft: "\<forall>r \<in> set rs. fits r"
  proof (cases "d_segs d0 = []")
    case True
    then have "rss = []" "latestSegment da = 1" using cl da by (simp_all add: clean_log_def latestSegment_def)
    with segs True show ?thesis
      by (intro that [of "[]" "\<lparr>sg_num = 1, sg_data = [], sg_synced = 0\<rparr>" "[]" "[]"]) (simp_all add: seg_clean_def)
  next
    case False
    then obtain pre s where p: "d_segs d0 = pre @ [s]" by (metis rev_exhaust)
    have so: "sorted_wrt (<) (map sg_num (pre @ [s]))" "0 < sg_num s" using cl p by (auto simp: clean_log_def)
    then have n: "?n = sg_num s" using latestSegment_last [of da pre s] da p by simp
    have lt: "\<forall>x \<in> set pre. sg_num x < sg_num s" using so(1) by (auto simp: sorted_wrt_append)
    obtain rss' rs where r: "rss = rss' @ [rs]" "list_all2 seg_clean pre rss'" "seg_clean s rs"
      using cl p by (auto simp: clean_log_def list_all2_append1 list_all2_Cons1)
    show ?thesis
      by (rule that [of pre s rss' rs]) (use so r n lt segs p insert_seg_present cl in \<open>auto simp: clean_log_def\<close>)
  qed
  have lt: "\<forall>x \<in> set pre. sg_num x < sg_num s" using ps(2) by (auto simp: sorted_wrt_append)
  have "seg_data ?n d2 = frames rs"
    using find_last [OF lt] ps by (simp add: seg_data_def seg_clean_def)
  then have w: "w = ?w1\<lparr>w_lastSeq := last_seq rs, w_lastDurableSeq := last_seq rs, w_written := int (length (frames rs))\<rparr>" "d1 = d2" "clk1 = clka"
    using os os' scanLastSeq_frames [OF ft] by simp_all
  have "open_seg rs (frames rs) w s" using ps(4,5) by (simp add: open_seg_def seg_clean_def w)
  then have "seg_state rss' rs (frames (rs @ [])) w d1"
    using ps(1-3) by (intro seg_stateI) (simp_all add: w)
  moreover have "\<forall>r \<in> set (concat rss). fits r" using cl by (auto simp: clean_log_def)
  ultimately have "wal_inv (concat rss) (w, d1, clk1)"
    by (intro wal_invI [of _ _ rss' rs "[]"]) (simp_all add: rr w)
  with w w0 rr show ?thesis by (simp add: w_ok_def GroupCommitEnabled_def)
qed

section \<open>The log as a journal\<close>

text \<open>
  Appending with the next number, an explicit sync, and what a crash leaves. Without group
  commit every append is also synced before it returns.
\<close>

definition wal_append :: "byte \<times> bytes \<Rightarrow> wstate \<Rightarrow> (err + uint64) \<times> wstate" where
  "wal_append k st = AppendNext (fst k) (snd k) st"

definition wal_survives :: "wstate \<Rightarrow> wal_record set \<Rightarrow> bool" where
  "wal_survives st R \<longleftrightarrow> (\<exists>d. crash (fst (snd st)) d \<and> R = set (read_back d))"

definition log_inv :: "wal_record list \<Rightarrow> wstate \<Rightarrow> bool" where
  "log_inv hist st \<longleftrightarrow> wal_inv hist st \<and> w_ok (fst st)"

definition log_inv_each :: "wal_record list \<Rightarrow> wstate \<Rightarrow> bool" where
  "log_inv_each hist st \<longleftrightarrow> log_inv hist st \<and> \<not> GroupCommitEnabled (w_cfg (fst st))"

lemma next_pos: "n = 0 \<or> n < n + 1 \<Longrightarrow> 0 < n + (1 :: uint64)"
  by (metis add.left_neutral word_gt_0 order_le_less_trans word_zero_le zero_neq_one)

lemma AppendNext_inv:
  assumes i: "log_inv hist st" and ap: "AppendNext et p st = (r, st')"
  shows "\<exists>new. log_inv (hist @ new) st' \<and> w_cfg (fst st') = w_cfg (fst st) \<and>
    (\<forall>q. r = Inr q \<longrightarrow> 0 < q \<and> (\<exists>x. new = [x] \<and> is_rec q et p x) \<and>
       (\<not> GroupCommitEnabled (w_cfg (fst st)) \<longrightarrow> w_lastDurableSeq (fst st') = q))"
proof -
  obtain w d clk where st: "st = (w, d, clk)" by (metis prod_cases3)
  show ?thesis
  proof (cases "w_closed w")
    case True
    then have "r = Inl ErrWriterClosed" "st' = st" using ap st by (auto simp: AppendNext_def)
    with i show ?thesis by (intro exI [of _ "[]"]) simp
  next
    case False
    obtain e w' d' clk' where al: "appendLocked (w_lastSeq w + 1) et p (w, d, clk) = (e, w', d', clk')"
      by (metis prod_cases4)
    have r: "st' = (w', d', clk')" "r = (case e of None \<Rightarrow> Inr (w_lastSeq w + 1) | Some x \<Rightarrow> Inl x)"
      using ap st False al by (auto simp: AppendNext_def Let_def split: option.splits)
    have pos: "0 < w_lastSeq w + 1" if "e = None"
    proof (rule next_pos)
      show "w_lastSeq w = 0 \<or> w_lastSeq w < w_lastSeq w + 1"
        using al that False
        by (cases "w_lastSeq w \<noteq> 0 \<and> w_lastSeq w + 1 \<le> w_lastSeq w") (auto simp: appendLocked_def not_le)
    qed
    from appendLocked_inv [OF _ _ al, of hist] i st obtain new where
      n: "wal_inv (hist @ new) (w', d', clk')" "w_ok w'" "w_cfg w' = w_cfg w"
        "new = [] \<and> e \<noteq> None \<or> (\<exists>x. new = [x] \<and> is_rec (w_lastSeq w + 1) et p x)"
        "e = None \<longrightarrow> \<not> GroupCommitEnabled (w_cfg w) \<longrightarrow> w_lastDurableSeq w' = w_lastSeq w + 1"
      by (auto simp: log_inv_def)
    show ?thesis using n pos r st by (intro exI [of _ new]) (auto simp: log_inv_def split: option.splits)
  qed
qed

lemma Sync_inv:
  assumes i: "log_inv hist st" and sy: "wal_Sync st = (e, st')"
  shows "log_inv hist st' \<and> w_cfg (fst st') = w_cfg (fst st) \<and> w_lastSeq (fst st') = w_lastSeq (fst st) \<and>
    (\<forall>R x. e = None \<longrightarrow> wal_survives st' R \<longrightarrow> x \<in> set hist \<longrightarrow> 0 < r_SeqID x \<longrightarrow> x \<in> R)"
proof -
  obtain w d clk where st: "st = (w, d, clk)" by (metis prod_cases3)
  obtain w' d' clk' where st': "st' = (w', d', clk')" by (metis prod_cases3)
  have ms: "maybeSyncLocked True (w, d, clk) = (e, w', d', clk')" using sy st st' by (simp add: wal_Sync_def)
  have inv: "wal_inv hist (w, d, clk)" and wo: "w_ok w" using i st by (simp_all add: log_inv_def)
  note m = maybeSync_inv [OF inv ms]
  have "x \<in> R" if h: "e = None" "wal_survives st' R" "x \<in> set hist" "0 < r_SeqID x" for R x
  proof -
    obtain rss dur where rd: "hist = concat rss @ dur" "seg_state rss dur (frames dur) w' d'"
      using m(6) [OF h(1)] by auto
    obtain d2 where "crash d' d2" "R = set (read_back d2)" using h(2) st' by (auto simp: wal_survives_def)
    moreover have "\<forall>r \<in> set hist. fits r" using inv by (auto simp: wal_inv_def)
    ultimately show ?thesis using seg_state_crash [OF rd(2), of d2 x] rd(1) h(3,4) by auto
  qed
  with m wo st st' show ?thesis by (auto simp: log_inv_def w_ok_def)
qed

interpretation log: journal log_inv wal_append wal_Sync r_SeqID "\<lambda>x. (r_EventType x, r_Payload x)" wal_survives
proof unfold_locales
  fix h s k r s' assume "log_inv h s" "wal_append k s = (r, s')"
  from AppendNext_inv [OF this(1), of "fst k" "snd k" r s'] this(2)
  show "\<exists>new. log_inv (h @ new) s' \<and>
      (\<forall>q. r = Inr q \<longrightarrow> 0 < q \<and> (\<exists>x. new = [x] \<and> r_SeqID x = q \<and> (r_EventType x, r_Payload x) = k))"
    by (fastforce simp: wal_append_def is_rec_def)
qed (use Sync_inv in blast)+

interpretation each: write_through log_inv_each wal_append wal_Sync r_SeqID "\<lambda>x. (r_EventType x, r_Payload x)" wal_survives
proof unfold_locales
  fix h s k r s' assume i: "log_inv_each h s" and a: "wal_append k s = (r, s')"
  from AppendNext_inv [of h s "fst k" "snd k" r s'] i a
  show "\<exists>new. log_inv_each (h @ new) s' \<and>
      (\<forall>q. r = Inr q \<longrightarrow> 0 < q \<and> (\<exists>x. new = [x] \<and> r_SeqID x = q \<and> (r_EventType x, r_Payload x) = k))"
    by (fastforce simp: wal_append_def is_rec_def log_inv_each_def)
next
  fix h s k q s' R assume i: "log_inv_each h s" and a: "wal_append k s = (Inr q, s')" and s: "wal_survives s' R"
  obtain x where x: "log_inv (h @ [x]) s'" "0 < q" "is_rec q (fst k) (snd k) x" "w_lastDurableSeq (fst s') = q"
    using AppendNext_inv [of h s "fst k" "snd k" "Inr q" s'] i a by (auto simp: wal_append_def log_inv_each_def)
  obtain w d clk where st: "s' = (w, d, clk)" by (metis prod_cases3)
  obtain d' where d': "crash d d'" "R = set (read_back d')" using s st by (auto simp: wal_survives_def)
  have "x \<in> set (read_back d')"
    by (rule wal_inv_crash [OF _ d'(1)]) (use x st in \<open>auto simp: log_inv_def is_rec_def\<close>)
  with x(3) d'(2) show "\<exists>x \<in> R. r_SeqID x = q \<and> (r_EventType x, r_Payload x) = k"
    by (intro bexI [of _ x]) (auto simp: is_rec_def)
next
  fix h s e s' assume "log_inv_each h s" "wal_Sync s = (e, s')"
  then show "log_inv_each h s'" using Sync_inv [of h s e s'] by (simp add: log_inv_each_def)
next
  fix h s s' R x assume "log_inv_each h s" "wal_Sync s = (None, s')" "wal_survives s' R" "x \<in> set h" "0 < r_SeqID x"
  then show "x \<in> R" using Sync_inv [of h s None s'] by (simp add: log_inv_each_def)
qed

section \<open>Concrete logs\<close>

definition wit_disk :: "segfile list \<Rightarrow> disk" where
  "wit_disk ss = \<lparr> d_segs = ss, d_io = (\<lambda>_. None), d_pos = 0 \<rparr>"

definition wit_cfg :: writer_config where
  "wit_cfg = \<lparr> MaxSegmentBytes = 0, WriteBufferSize = 0, SyncEveryRecords = 0, SyncIntervalMs = 0 \<rparr>"

definition wit_wclock :: clock where
  "wit_wclock = (\<lambda>n. int n + 1, 0)"

definition wit_segs :: "segfile list" where
  "wit_segs = [\<lparr> sg_num = 1, sg_data = frames [wit_record 5], sg_synced = length (frames [wit_record 5]) \<rparr>,
               \<lparr> sg_num = 2, sg_data = [], sg_synced = 0 \<rparr>]"

lemma wit_clean_empty: "clean_log (wit_disk []) []"
  by (simp add: clean_log_def wit_disk_def)

lemma wit_clean: "clean_log (wit_disk wit_segs) [[wit_record 5], []]"
  by (simp add: clean_log_def wit_disk_def wit_segs_def seg_clean_def wit_record_fits)

lemmas wit_eval = OpenFileWriter_def write_frame_def Let_def os_call_def io_next_def wit_disk_def wit_cfg_def now_def wit_wclock_def
  latestSegment_def openSegment_def os_open_def seg_data_def scanLastSeq_def scan_empty

lemma wit_open_empty:
  "\<exists>w d1 clk1. OpenFileWriter ''s1'' wit_cfg (wit_disk [], wit_wclock) = (Inr w, d1, clk1) \<and>
     (\<exists>w' d' clk'. Append 1 1 [7] (w, d1, clk1) = (None, w', d', clk'))"
  by (simp add: wit_eval Append_def appendLocked_def NewRecord_def encodeInto_def BodyLen_def recordMinBodyLen_def
     recordMaxBodyLen_def recordLenSize_def buf_write_def maybeSyncLocked_def GroupCommitEnabled_def
     flushAndSyncLocked_def buf_flush_def os_write_def durableSync_def os_sync_def upd_seg_def)

lemma wit_reopen:
  "\<exists>w d1 clk1. OpenFileWriter ''s1'' wit_cfg (wit_disk wit_segs, wit_wclock) = (Inr w, d1, clk1) \<and>
     (\<exists>seq st'. AppendNext 1 [7] (w, d1, clk1) = (Inr seq, st'))"
  by (simp add: wit_eval wit_segs_def AppendNext_def appendLocked_def NewRecord_def encodeInto_def BodyLen_def recordMinBodyLen_def
     recordMaxBodyLen_def recordLenSize_def buf_write_def maybeSyncLocked_def GroupCommitEnabled_def
     flushAndSyncLocked_def buf_flush_def os_write_def durableSync_def os_sync_def upd_seg_def)

lemma wit_append_durable:
  assumes "OpenFileWriter ''s1'' wit_cfg (wit_disk [], wit_wclock) = (Inr w, d1, clk1)"
    and "Append 1 1 [7] (w, d1, clk1) = (None, w', d', clk')"
  shows "w_lastDurableSeq w' = 1"
  using appendLocked_inv [of "[]" w d1 clk1 1 1 "[7]" None w' d' clk']
    Open_inv [OF assms(1) wit_clean_empty] assms(2)
  by (auto simp: Append_def GroupCommitEnabled_def wit_cfg_def)

section \<open>Properties\<close>



text \<open>
  With the default configuration (no group commit) an append that returns without
  error is durable when it returns.
\<close>

theorem append_is_durable:
  assumes "clean_log d0 rss" and "OpenFileWriter dir cfg (d0, clk0) = (Inr w, d1, clk1)"
    and "\<not> GroupCommitEnabled cfg" and "Append seq et payload (w, d1, clk1) = (None, w', d', clk')"
  shows "w_lastDurableSeq w' = seq"
  using appendLocked_inv [of "concat rss" w d1 clk1 seq et payload None w' d' clk']
    Open_inv [OF assms(2,1)] assms(3,4) by (auto simp: Append_def)

theorem append_is_durable_witness:
  "\<exists>w d1 clk1 w' d' clk'. OpenFileWriter ''s1'' wit_cfg (wit_disk [], wit_wclock) = (Inr w, d1, clk1) \<and>
     Append 1 1 [7] (w, d1, clk1) = (None, w', d', clk') \<and> w_lastDurableSeq w' = 1"
proof -
  have g: "\<not> GroupCommitEnabled wit_cfg" by (simp add: GroupCommitEnabled_def wit_cfg_def)
  show ?thesis using wit_open_empty append_is_durable [OF wit_clean_empty _ g] by blast
qed

text \<open>
  Reopening a log takes the sequence number of the last record of its latest segment
  only: when the log was just rotated that segment is empty and numbering starts again at 1.
\<close>

theorem reopen_sequence:
  assumes "clean_log d0 rss" and "OpenFileWriter dir cfg (d0, clk0) = (Inr w, d1, clk1)"
    and "AppendNext et payload (w, d1, clk1) = (Inr seq, st')"
  shows "seq = last_seq (if rss = [] then [] else last rss) + 1"
  using Open_inv [OF assms(2,1)] assms(3)
  by (auto simp: AppendNext_def Let_def split: option.splits prod.splits)

theorem reopen_sequence_witness:
  "\<exists>w d1 clk1 st'. OpenFileWriter ''s1'' wit_cfg (wit_disk wit_segs, wit_wclock) = (Inr w, d1, clk1) \<and>
     AppendNext 1 [7] (w, d1, clk1) = (Inr 1, st')"
proof -
  obtain w d1 clk1 seq st' where o: "OpenFileWriter ''s1'' wit_cfg (wit_disk wit_segs, wit_wclock) = (Inr w, d1, clk1)"
    and a: "AppendNext 1 [7] (w, d1, clk1) = (Inr seq, st')" using wit_reopen by blast
  have "seq = 1" using reopen_sequence [OF wit_clean o a] by (simp add: last_seq_def)
  with o a show ?thesis by blast
qed

lemma clean_scan:
  assumes "clean_log d rss"
  shows "scan_segments (SegmentPaths d) = (concat rss, None)"
proof -
  have f: "map sg_data (d_segs d) = map frames rss"
  proof -
    have "list_all2 seg_clean (d_segs d) rss" using assms by (simp add: clean_log_def)
    then show ?thesis by (induction rule: list_all2_induct) (auto simp: seg_clean_def)
  qed
  have "SegmentPaths d = map frames rss"
    using assms f sort_key_sorted [of sg_num "d_segs d"] by (simp add: clean_log_def SegmentPaths_def)
  moreover have "\<forall>r \<in> set (rss ! i). fits r" if "i < length rss" for i
    using assms nth_mem [OF that] by (auto simp: clean_log_def)
  ultimately show ?thesis
    using scan_segments_frames [of rss "[]"] by simp
qed

text \<open>
  Reading a log returns the records above the given sequence number, of all segments
  in order.
\<close>

theorem reader_complete:
  assumes "clean_log d rss"
  shows "ReadAll fromSeq d = Inr (filter (\<lambda>r. fromSeq < r_SeqID r) (concat rss))"
  using clean_scan [OF assms] by (simp add: ReadAll_scan)

theorem reader_complete_witness: "ReadAll 3 (wit_disk wit_segs) = Inr [wit_record 5]"
  using reader_complete [OF wit_clean, of 3] by (simp add: wit_record_def)

end
