(* ===== verification/SnapshotStore.thy ===== *)
theory SnapshotStore
  imports EngineSnapshot "HOL-Library.AList" "HOL-Library.List_Lexorder" "HOL-Library.Char_ord"
begin

text \<open>
  Model of \<open>pkg/snapshot/snapshot.go\<close>: snapshot files with a checksum, written to a
  temporary name, synced and renamed; the search for the newest one; the removal of old
  ones. Every system call can fail, and a crash keeps of a file only what was synced.
\<close>

section \<open>Files\<close>

text \<open>
  A path is the list of its components. \<open>f_synced\<close> bytes of a file survive a crash;
  creating, renaming and removing take effect at once and in order. \<open>sf_io\<close> gives the
  outcome of the successive system calls: \<open>None\<close> is success, \<open>Some k\<close> failure after
  \<open>k\<close> bytes (of a write) or directories (of \<open>MkdirAll\<close>).
\<close>

type_synonym path = "string list"

record snap_file =
  f_data :: bytes
  f_synced :: nat

record snap_fs =
  sf_files :: "(path \<times> snap_file) list"
  sf_dirs :: "path list"
  sf_io :: "nat \<Rightarrow> nat option"
  sf_pos :: nat

definition fs_file :: "snap_fs \<Rightarrow> path \<Rightarrow> snap_file option" where
  "fs_file fs p = map_of (sf_files fs) p"

definition fs_call :: "snap_fs \<Rightarrow> nat option \<times> snap_fs" where
  "fs_call fs = (sf_io fs (sf_pos fs), fs\<lparr>sf_pos := Suc (sf_pos fs)\<rparr>)"

definition fs_put :: "path \<Rightarrow> snap_file \<Rightarrow> snap_fs \<Rightarrow> snap_fs" where
  "fs_put p f fs = fs\<lparr>sf_files := AList.update p f (sf_files fs)\<rparr>"

definition fs_del :: "path \<Rightarrow> snap_fs \<Rightarrow> snap_fs" where
  "fs_del p fs = fs\<lparr>sf_files := AList.delete p (sf_files fs)\<rparr>"

definition fs_mkdirAll :: "path \<Rightarrow> snap_fs \<Rightarrow> bool \<times> snap_fs" where
  "fs_mkdirAll dir fs =
     (let (oc, fs1) = fs_call fs;
          n = (case oc of None \<Rightarrow> length dir | Some k \<Rightarrow> min k (length dir))
      in (oc = None, fs1\<lparr>sf_dirs := fold (\<lambda>i. List.insert (take i dir)) [1..<Suc n] (sf_dirs fs1)\<rparr>))"

definition fs_create :: "path \<Rightarrow> snap_fs \<Rightarrow> bool \<times> snap_fs" where
  "fs_create p fs =
     (let (oc, fs1) = fs_call fs
      in if oc = None then (True, fs_put p \<lparr> f_data = [], f_synced = 0 \<rparr> fs1) else (False, fs1))"

definition fs_write :: "path \<Rightarrow> bytes \<Rightarrow> snap_fs \<Rightarrow> bool \<times> snap_fs" where
  "fs_write p data fs =
     (let (oc, fs1) = fs_call fs;
          k = (case oc of None \<Rightarrow> length data | Some k \<Rightarrow> min k (length data))
      in case fs_file fs1 p of
           None \<Rightarrow> (oc = None, fs1)
         | Some f \<Rightarrow> (oc = None, fs_put p (f\<lparr>f_data := f_data f @ take k data\<rparr>) fs1))"

definition fs_sync :: "path \<Rightarrow> snap_fs \<Rightarrow> bool \<times> snap_fs" where
  "fs_sync p fs =
     (let (oc, fs1) = fs_call fs
      in case fs_file fs1 p of
           None \<Rightarrow> (oc = None, fs1)
         | Some f \<Rightarrow> if oc = None then (True, fs_put p (f\<lparr>f_synced := length (f_data f)\<rparr>) fs1) else (False, fs1))"

definition fs_close :: "snap_fs \<Rightarrow> bool \<times> snap_fs" where
  "fs_close fs = (let (oc, fs1) = fs_call fs in (oc = None, fs1))"

definition fs_rename :: "path \<Rightarrow> path \<Rightarrow> snap_fs \<Rightarrow> bool \<times> snap_fs" where
  "fs_rename p q fs =
     (let (oc, fs1) = fs_call fs
      in case fs_file fs1 p of
           None \<Rightarrow> (False, fs1)
         | Some f \<Rightarrow> if oc = None then (True, fs_put q f (fs_del p fs1)) else (False, fs1))"

definition fs_remove :: "path \<Rightarrow> snap_fs \<Rightarrow> bool \<times> snap_fs" where
  "fs_remove p fs = (let (oc, fs1) = fs_call fs in if oc = None then (True, fs_del p fs1) else (False, fs1))"

text \<open>\<open>os.ReadFile\<close>: \<open>ErrNotFound\<close> stands for \<open>os.ErrNotExist\<close>.\<close>

definition fs_read :: "path \<Rightarrow> snap_fs \<Rightarrow> (err + bytes) \<times> snap_fs" where
  "fs_read p fs =
     (let (oc, fs1) = fs_call fs
      in case fs_file fs1 p of
           None \<Rightarrow> (Inl ErrNotFound, fs1)
         | Some f \<Rightarrow> if oc = None then (Inr (f_data f), fs1) else (Inl ErrIO, fs1))"

section \<open>Atomic writes\<close>

definition tmp_path :: "path \<Rightarrow> path" where
  "tmp_path p = butlast p @ [last p @ ''.tmp'']"

definition writeErr :: "path \<Rightarrow> snap_fs \<Rightarrow> err option \<times> snap_fs" where
  "writeErr tmpPath fs = (Some ErrIO, snd (fs_remove tmpPath (snd (fs_close fs))))"

definition writeAtomic :: "path \<Rightarrow> bytes \<Rightarrow> snap_fs \<Rightarrow> err option \<times> snap_fs" where
  "writeAtomic path data fs0 =
     (let tmpPath = tmp_path path;
          (ok1, fs1) = fs_mkdirAll (butlast path) fs0
      in if \<not> ok1 then (Some ErrIO, fs1)
         else let (ok2, fs2) = fs_create tmpPath fs1
         in if \<not> ok2 then (Some ErrIO, fs2)
         else let (ok3, fs3) = fs_write tmpPath data fs2
         in if \<not> ok3 then writeErr tmpPath fs3
         else let (ok4, fs4) = fs_sync tmpPath fs3
         in if \<not> ok4 then writeErr tmpPath fs4
         else let (ok5, fs5) = fs_close fs4
         in if \<not> ok5 then (Some ErrIO, snd (fs_remove tmpPath fs5))
         else let (ok6, fs6) = fs_rename tmpPath path fs5
         in if \<not> ok6 then (Some ErrIO, snd (fs_remove tmpPath fs6))
         else (None, fs6))"

section \<open>Snapshots and manifests\<close>

record manifest =
  mf_ShardId :: string
  mf_RecoveredOffset :: uint64
  mf_SymbolSeq :: "string \<rightharpoonup> uint64"
  mf_UpdatedAtUnixNano :: int

text \<open>
  The protobuf coding of the messages is a parameter. What is relied on: what marshals
  unmarshals to the same message, except that an empty map comes back as nil.
\<close>

record snap_codec =
  marshal_snapshot :: "pb_snapshot \<Rightarrow> bytes option"
  unmarshal_snapshot :: "bytes \<Rightarrow> pb_snapshot option"
  marshal_level :: "pb_level \<Rightarrow> bytes option"
  marshal_manifest :: "manifest \<Rightarrow> bytes option"
  unmarshal_manifest :: "bytes \<Rightarrow> manifest option"

definition norm_snapshot :: "pb_snapshot \<Rightarrow> pb_snapshot" where
  "norm_snapshot s = s\<lparr>s_OrderMap := (if s_OrderMap s = Some Map.empty then None else s_OrderMap s)\<rparr>"

definition snap_codec_ok :: "snap_codec \<Rightarrow> bool" where
  "snap_codec_ok C \<longleftrightarrow>
     (\<forall>m b. marshal_snapshot C m = Some b \<longrightarrow> unmarshal_snapshot C b = Some (norm_snapshot m)) \<and>
     (\<forall>m b. marshal_manifest C m = Some b \<longrightarrow> unmarshal_manifest C b = Some m)"

definition hashPriceLevel :: "snap_codec \<Rightarrow> pb_level \<Rightarrow> bytes \<Rightarrow> bytes" where
  "hashPriceLevel C lv h = (case marshal_level C lv of None \<Rightarrow> h | Some data \<Rightarrow> h @ data)"

text \<open>The hash state is the sequence of bytes written to it.\<close>

definition ComputeChecksum :: "snap_codec \<Rightarrow> pb_snapshot option \<Rightarrow> uint64" where
  "ComputeChecksum C snapo =
     (case snapo of None \<Rightarrow> 0
      | Some snap \<Rightarrow> fnv64a (fold (hashPriceLevel C) (s_Asks snap) (fold (hashPriceLevel C) (s_Bids snap) [])))"

definition VerifyChecksum :: "snap_codec \<Rightarrow> pb_snapshot option \<Rightarrow> err option" where
  "VerifyChecksum C snapo =
     (case snapo of None \<Rightarrow> Some (ErrMsg ''snapshot: snapshot is nil'')
      | Some snap \<Rightarrow> if ComputeChecksum C snapo \<noteq> s_Checksum snap then Some ErrChecksum else None)"

definition snap_Save :: "snap_codec \<Rightarrow> path \<Rightarrow> pb_snapshot option \<Rightarrow> snap_fs \<Rightarrow> err option \<times> snap_fs" where
  "snap_Save C path snapo fs =
     (if path = [] then (Some (ErrMsg ''snapshot: path is required''), fs)
      else case snapo of
             None \<Rightarrow> (Some (ErrMsg ''snapshot: snapshot is nil''), fs)
           | Some snap \<Rightarrow>
               (let toSave = snap\<lparr>s_Checksum := ComputeChecksum C (Some snap)\<rparr>
                in case marshal_snapshot C toSave of
                     None \<Rightarrow> (Some (ErrMsg ''snapshot: marshal''), fs)
                   | Some data \<Rightarrow> writeAtomic path data fs))"

definition snap_Load :: "snap_codec \<Rightarrow> path \<Rightarrow> snap_fs \<Rightarrow> (err + pb_snapshot) \<times> snap_fs" where
  "snap_Load C path fs =
     (if path = [] then (Inl (ErrMsg ''snapshot: path is required''), fs)
      else case fs_read path fs of
             (Inl e, fs1) \<Rightarrow> (Inl e, fs1)
           | (Inr data, fs1) \<Rightarrow>
               (case unmarshal_snapshot C data of
                  None \<Rightarrow> (Inl (ErrMsg ''snapshot: unmarshal''), fs1)
                | Some snap \<Rightarrow>
                    (case VerifyChecksum C (Some snap) of
                       Some e \<Rightarrow> (Inl e, fs1)
                     | None \<Rightarrow> (Inr snap, fs1))))"

definition SaveManifest :: "snap_codec \<Rightarrow> path \<Rightarrow> manifest option \<Rightarrow> snap_fs \<Rightarrow> err option \<times> snap_fs" where
  "SaveManifest C path mo fs =
     (if path = [] then (Some (ErrMsg ''snapshot: path is required''), fs)
      else case mo of
             None \<Rightarrow> (Some (ErrMsg ''snapshot: manifest is nil''), fs)
           | Some m \<Rightarrow>
               (case marshal_manifest C m of
                  None \<Rightarrow> (Some (ErrMsg ''snapshot: marshal manifest''), fs)
                | Some data \<Rightarrow> writeAtomic path data fs))"

definition LoadManifest :: "snap_codec \<Rightarrow> path \<Rightarrow> snap_fs \<Rightarrow> (err + manifest) \<times> snap_fs" where
  "LoadManifest C path fs =
     (if path = [] then (Inl (ErrMsg ''snapshot: path is required''), fs)
      else case fs_read path fs of
             (Inl e, fs1) \<Rightarrow> (Inl e, fs1)
           | (Inr data, fs1) \<Rightarrow>
               (case unmarshal_manifest C data of
                  None \<Rightarrow> (Inl (ErrMsg ''snapshot: unmarshal manifest''), fs1)
                | Some m \<Rightarrow> (Inr m, fs1)))"

section \<open>Names, the newest file and pruning\<close>

definition DefaultKeep :: int where "DefaultKeep = 3"
definition snapshotPrefix :: string where "snapshotPrefix = ''snapshot_''"
definition snapshotSuffix :: string where "snapshotSuffix = ''.pb''"

definition Filename :: "uint64 \<Rightarrow> string" where
  "Filename seqID = snapshotPrefix @ show_nat (unat seqID) @ snapshotSuffix"

definition parseSnapshotSeq :: "string \<Rightarrow> uint64" where
  "parseSnapshotSeq name =
     (if \<not> has_prefix name snapshotPrefix \<or> \<not> has_suffix name snapshotSuffix then 0
      else case parse_uint64 (trim_suffix (trim_prefix name snapshotPrefix) snapshotSuffix) of
             None \<Rightarrow> 0
           | Some n \<Rightarrow> of_nat n)"

text \<open>\<open>filepath.Glob(dir/snapshot_*.pb)\<close>: the matching names of the directory, sorted.\<close>

definition in_dir :: "path \<Rightarrow> path \<Rightarrow> bool" where
  "in_dir dir p \<longleftrightarrow> p \<noteq> [] \<and> butlast p = dir"

definition is_snapshot :: "path \<Rightarrow> path \<Rightarrow> bool" where
  "is_snapshot dir p \<longleftrightarrow> in_dir dir p \<and> has_prefix (last p) snapshotPrefix \<and> has_suffix (last p) snapshotSuffix"

definition listSnapshotPaths :: "path \<Rightarrow> snap_fs \<Rightarrow> path list" where
  "listSnapshotPaths dir fs = sort (filter (is_snapshot dir) (map fst (sf_files fs)))"

text \<open>
  \<open>sort.Slice\<close> is not stable; the order of files with equal numbers, which do not arise
  from \<open>Filename\<close>, is taken to be the order of the names.
\<close>

definition by_seq :: "path \<Rightarrow> uint64" where
  "by_seq p = parseSnapshotSeq (last p)"

definition LatestPath :: "path \<Rightarrow> snap_fs \<Rightarrow> path option" where
  "LatestPath dir fs =
     (let paths = listSnapshotPaths dir fs
      in if paths = [] then None else Some (last (sort_key by_seq paths)))"

fun remove_paths :: "path list \<Rightarrow> snap_fs \<Rightarrow> err option \<times> snap_fs" where
  "remove_paths [] fs = (None, fs)"
| "remove_paths (p # ps) fs =
     (let (ok, fs1) = fs_remove p fs in if \<not> ok then (Some ErrIO, fs1) else remove_paths ps fs1)"

definition Prune :: "path \<Rightarrow> int \<Rightarrow> snap_fs \<Rightarrow> err option \<times> snap_fs" where
  "Prune dir keep0 fs =
     (let keep = (if keep0 \<le> 0 then DefaultKeep else keep0);
          paths = listSnapshotPaths dir fs
      in if int (length paths) \<le> keep then (None, fs)
         else remove_paths (drop (nat keep) (rev (sort_key by_seq paths))) fs)"

section \<open>Effect of the calls on the files\<close>

definition fs_ok :: "snap_fs \<Rightarrow> bool" where
  "fs_ok fs \<longleftrightarrow> distinct (map fst (sf_files fs)) \<and> (\<forall>(p, f) \<in> set (sf_files fs). f_synced f \<le> length (f_data f))"

lemma fs_file_simps [state_simps]:
  "fs_file (fs_put p f fs) q = (if q = p then Some f else fs_file fs q)"
  "fs_file (fs_del p fs) q = (if q = p then None else fs_file fs q)"
  "fs_file (fs\<lparr>sf_pos := n\<rparr>) q = fs_file fs q"
  "fs_file (fs\<lparr>sf_dirs := ds\<rparr>) q = fs_file fs q"
  by (auto simp: fs_file_def fs_put_def fs_del_def update_conv' delete_conv')

lemma fs_ok_simps [state_simps]:
  "fs_ok (fs\<lparr>sf_pos := n\<rparr>) = fs_ok fs" "fs_ok (fs\<lparr>sf_dirs := ds\<rparr>) = fs_ok fs"
  by (simp_all add: fs_ok_def)

lemma fs_ok_del [inv_intros]: "fs_ok fs \<Longrightarrow> fs_ok (fs_del p fs)"
  by (auto simp: fs_ok_def fs_del_def AList.delete_eq distinct_map_filter)

lemma set_update_cases: "(q, g) \<in> set (AList.update p f al) \<Longrightarrow> (q, g) = (p, f) \<or> (q, g) \<in> set al"
  by (induction al) (auto split: if_splits)

lemma fs_ok_put [inv_intros]: "fs_ok fs \<Longrightarrow> f_synced f \<le> length (f_data f) \<Longrightarrow> fs_ok (fs_put p f fs)"
  by (auto simp: fs_ok_def fs_put_def distinct_update dest!: set_update_cases)

lemma fs_file_ok: "fs_ok fs \<Longrightarrow> fs_file fs p = Some f \<Longrightarrow> f_synced f \<le> length (f_data f)"
  by (auto simp: fs_ok_def fs_file_def dest!: map_of_SomeD)

lemma snap_file_eq: "f_data f = d \<Longrightarrow> f_synced f = n \<Longrightarrow> f = \<lparr> f_data = d, f_synced = n \<rparr>"
  by simp

lemmas fs_call_defs = fs_call_def fs_mkdirAll_def fs_create_def fs_write_def fs_sync_def fs_close_def
  fs_rename_def fs_remove_def

lemma mkdirAll_file: "fs_mkdirAll d fs = (ok, fs') \<Longrightarrow> fs_file fs' q = fs_file fs q"
  by (auto simp: fs_call_defs Let_def state_simps)

lemma create_file:
  "fs_create p fs = (ok, fs') \<Longrightarrow> fs_file fs' q = (if q = p \<and> ok then Some \<lparr> f_data = [], f_synced = 0 \<rparr> else fs_file fs q)"
  by (auto simp: fs_call_defs Let_def state_simps split: if_splits)

lemma write_file:
  assumes "fs_write p data fs = (ok, fs')"
  shows "q \<noteq> p \<Longrightarrow> fs_file fs' q = fs_file fs q"
    and "ok \<Longrightarrow> fs_file fs p = Some f \<Longrightarrow> fs_file fs' p = Some (f\<lparr>f_data := f_data f @ data\<rparr>)"
  using assms by (auto simp: fs_call_defs Let_def state_simps split: option.splits)

lemma sync_file:
  assumes "fs_sync p fs = (ok, fs')"
  shows "q \<noteq> p \<Longrightarrow> fs_file fs' q = fs_file fs q"
    and "ok \<Longrightarrow> fs_file fs p = Some f \<Longrightarrow> fs_file fs' p = Some (f\<lparr>f_synced := length (f_data f)\<rparr>)"
  using assms by (auto simp: fs_call_defs Let_def state_simps split: option.splits if_splits)

lemma close_file: "fs_file (snd (fs_close fs)) q = fs_file fs q" "fs_close fs = (ok, fs') \<Longrightarrow> fs_file fs' q = fs_file fs q"
  by (auto simp: fs_call_defs Let_def state_simps)

lemma rename_file:
  assumes "fs_rename p p' fs = (ok, fs')" "p \<noteq> p'"
  shows "q \<noteq> p \<Longrightarrow> q \<noteq> p' \<Longrightarrow> fs_file fs' q = fs_file fs q"
    and "\<not> ok \<Longrightarrow> fs_file fs' q = fs_file fs q"
    and "ok \<Longrightarrow> fs_file fs' p' = fs_file fs p"
  using assms by (auto simp: fs_call_defs Let_def state_simps split: option.splits if_splits)

lemma remove_file: "q \<noteq> p \<Longrightarrow> fs_file (snd (fs_remove p fs)) q = fs_file fs q"
  by (auto simp: fs_call_defs Let_def state_simps)

lemma fs_ok_ops [inv_intros]:
  "fs_ok fs \<Longrightarrow> fs_ok (snd (fs_mkdirAll d fs))" "fs_ok fs \<Longrightarrow> fs_ok (snd (fs_create p fs))"
  "fs_ok fs \<Longrightarrow> fs_ok (snd (fs_write p data fs))" "fs_ok fs \<Longrightarrow> fs_ok (snd (fs_sync p fs))"
  "fs_ok fs \<Longrightarrow> fs_ok (snd (fs_close fs))" "fs_ok fs \<Longrightarrow> fs_ok (snd (fs_rename p p' fs))"
  "fs_ok fs \<Longrightarrow> fs_ok (snd (fs_remove p fs))"
  by (auto simp: fs_call_defs Let_def state_simps split: option.splits intro!: inv_intros trans_le_add1
      dest: fs_file_ok)

lemma tmp_path_neq: "p \<noteq> [] \<Longrightarrow> tmp_path p \<noteq> p"
proof
  assume "p \<noteq> []" "tmp_path p = p"
  then have "last (tmp_path p) = last p" by simp
  then show False by (simp add: tmp_path_def)
qed

text \<open>
  The file at the target changes only when the write succeeds, and then it holds the data
  and is synced; no other file changes, except the temporary one.
\<close>

lemma writeAtomic_file:
  assumes w: "writeAtomic p data fs = (e, fs')" and p: "p \<noteq> []"
  shows "fs_file fs' p = (if e = None then Some \<lparr> f_data = data, f_synced = length data \<rparr> else fs_file fs p)"
    and "q \<noteq> p \<Longrightarrow> q \<noteq> tmp_path p \<Longrightarrow> fs_file fs' q = fs_file fs q"
proof -
  let ?t = "tmp_path p"
  note n = tmp_path_neq [OF p]
  obtain ok1 fs1 ok2 fs2 ok3 fs3 ok4 fs4 ok5 fs5 ok6 fs6 where
    s: "fs_mkdirAll (butlast p) fs = (ok1, fs1)" "fs_create ?t fs1 = (ok2, fs2)" "fs_write ?t data fs2 = (ok3, fs3)"
      "fs_sync ?t fs3 = (ok4, fs4)" "fs_close fs4 = (ok5, fs5)" "fs_rename ?t p fs5 = (ok6, fs6)"
    by (metis surj_pair)
  have o: "fs_file fs5 q = fs_file fs q \<and> fs_file fs4 q = fs_file fs q \<and> fs_file fs3 q = fs_file fs q \<and>
      fs_file fs2 q = fs_file fs q \<and> fs_file fs1 q = fs_file fs q" if "q \<noteq> ?t" for q
    using that s mkdirAll_file [OF s(1)] create_file [OF s(2)] write_file(1) [OF s(3)] sync_file(1) [OF s(4)] close_file(2) [OF s(5)]
    by simp
  have we: "fs_file (snd (writeErr ?t g)) q = fs_file g q" if "q \<noteq> ?t" for q g
    using that by (simp add: writeErr_def remove_file close_file(1))
  have t: "fs_file fs5 ?t = Some \<lparr> f_data = data, f_synced = length data \<rparr>" if "ok2" "ok3" "ok4"
    using that create_file [OF s(2), of ?t] write_file(2) [OF s(3)] sync_file(2) [OF s(4)] close_file(2) [OF s(5)]
    by simp
  have res: "(e, fs') =
    (if \<not> ok1 then (Some ErrIO, fs1) else if \<not> ok2 then (Some ErrIO, fs2)
     else if \<not> ok3 then writeErr ?t fs3 else if \<not> ok4 then writeErr ?t fs4
     else if \<not> ok5 then (Some ErrIO, snd (fs_remove ?t fs5))
     else if \<not> ok6 then (Some ErrIO, snd (fs_remove ?t fs6)) else (None, fs6))"
    using w unfolding writeAtomic_def Let_def s prod.case by (rule sym)
  have e: "e = None \<longleftrightarrow> ok1 \<and> ok2 \<and> ok3 \<and> ok4 \<and> ok5 \<and> ok6"
    using res by (auto simp: writeErr_def split: if_splits)
  show "fs_file fs' p = (if e = None then Some \<lparr> f_data = data, f_synced = length data \<rparr> else fs_file fs p)"
    using res o [of p] we [of p] t n rename_file(2,3) [OF s(6) n] remove_file [of p ?t] e
    by (auto split: if_splits) (metis prod.sel(2))+
  assume q: "q \<noteq> p" "q \<noteq> ?t"
  show "fs_file fs' q = fs_file fs q"
    using res o [of q] we [of q] q rename_file(1) [OF s(6) n] remove_file [of q ?t]
    by (auto split: if_splits) (metis prod.sel(2))+
qed

lemma writeAtomic_ok: "fs_ok fs \<Longrightarrow> fs_ok (snd (writeAtomic p data fs))"
  unfolding writeAtomic_def writeErr_def by (auto simp: Let_def split_beta intro!: inv_intros)

section \<open>The snapshots of a directory\<close>

lemma tmp_not_snapshot: "p \<noteq> [] \<Longrightarrow> \<not> is_snapshot dir (tmp_path p)"
proof -
  have "\<not> has_suffix (s @ ''.tmp'') ''.pb''" for s by (simp add: has_suffix_def)
  then show ?thesis by (simp add: is_snapshot_def tmp_path_def snapshotSuffix_def)
qed

lemma set_listSnapshotPaths: "set (listSnapshotPaths dir fs) = {p. is_snapshot dir p \<and> fs_file fs p \<noteq> None}"
  by (auto simp: listSnapshotPaths_def fs_file_def map_of_eq_None_iff)

lemma listSnapshotPaths_distinct: "fs_ok fs \<Longrightarrow> distinct (listSnapshotPaths dir fs)"
  by (simp add: listSnapshotPaths_def fs_ok_def)

lemma last_sort_key_max:
  assumes "p \<in> set xs" "\<And>q. q \<in> set xs \<Longrightarrow> q \<noteq> p \<Longrightarrow> f q < f p"
  shows "last (sort_key f xs) = p"
proof (rule ccontr)
  let ?s = "sort_key f xs"
  assume n: "last ?s \<noteq> p"
  have ne: "?s \<noteq> []" using assms(1) by (metis empty_iff list.set(1) set_sort)
  then have "last ?s \<in> set xs" using last_in_set by fastforce
  with n assms(2) have lt: "f (last ?s) < f p" by blast
  obtain i where i: "i < length ?s" "?s ! i = p" using assms(1) by (metis in_set_conv_nth set_sort)
  have "sorted (map f ?s)" by simp
  then have "map f ?s ! i \<le> map f ?s ! (length ?s - 1)" using i ne by (intro sorted_nth_mono) auto
  with i ne lt show False by (simp add: last_conv_nth)
qed

lemma LatestPath_max:
  assumes "is_snapshot dir p" "fs_file fs p \<noteq> None"
    and "\<And>q. is_snapshot dir q \<Longrightarrow> fs_file fs q \<noteq> None \<Longrightarrow> q \<noteq> p \<Longrightarrow> by_seq q < by_seq p"
  shows "LatestPath dir fs = Some p"
proof -
  have p: "p \<in> set (listSnapshotPaths dir fs)" using assms(1,2) by (simp add: set_listSnapshotPaths)
  then have "last (sort_key by_seq (listSnapshotPaths dir fs)) = p"
    by (rule last_sort_key_max) (use assms(3) in \<open>simp add: set_listSnapshotPaths\<close>)
  with p show ?thesis by (auto simp: LatestPath_def Let_def)
qed

lemma LatestPath_sort:
  "LatestPath dir fs = (let s = sort_key by_seq (listSnapshotPaths dir fs) in if s = [] then None else Some (last s))"
proof -
  have "sort_key by_seq xs = [] \<longleftrightarrow> xs = []" for xs by (metis length_0_conv length_sort)
  then show ?thesis by (simp add: LatestPath_def Let_def)
qed

lemma LatestPath_None: "LatestPath dir fs = None \<longleftrightarrow> (\<forall>p. is_snapshot dir p \<longrightarrow> fs_file fs p = None)"
proof -
  have "LatestPath dir fs = None \<longleftrightarrow> set (listSnapshotPaths dir fs) = {}" by (simp add: LatestPath_def Let_def)
  then show ?thesis unfolding set_listSnapshotPaths by (auto simp del: not_None_eq)
qed

text \<open>Pruning removes files from the end of the list of the older ones.\<close>

lemma remove_paths_keys:
  "remove_paths ps fs = (e, fs') \<Longrightarrow>
     \<exists>k. sf_files fs' = filter (\<lambda>(q, _). q \<notin> set (take k ps)) (sf_files fs) \<and> (e = None \<longrightarrow> length ps \<le> k)"
proof (induction ps arbitrary: fs)
  case Nil
  then show ?case by simp
next
  case (Cons p ps)
  obtain ok fs1 where r: "fs_remove p fs = (ok, fs1)" by fastforce
  show ?case
  proof (cases ok)
    case False
    with r Cons.prems have "sf_files fs' = sf_files fs" "e \<noteq> None"
      by (auto simp: fs_remove_def fs_call_def Let_def split: if_splits)
    then show ?thesis by (intro exI [of _ 0]) simp
  next
    case True
    with r have f: "sf_files fs1 = filter (\<lambda>(q, _). p \<noteq> q) (sf_files fs)"
      by (auto simp: fs_remove_def fs_call_def fs_del_def Let_def AList.delete_eq split: if_splits)
    from True r Cons.prems have "remove_paths ps fs1 = (e, fs')" by simp
    from Cons.IH [OF this] obtain k where "sf_files fs' = filter (\<lambda>(q, _). q \<notin> set (take k ps)) (sf_files fs1)"
      "e = None \<longrightarrow> length ps \<le> k" by blast
    with f show ?thesis by (intro exI [of _ "Suc k"]) (auto simp: conj_commute intro!: filter_cong)
  qed
qed

lemma map_fst_filter: "map fst (filter (\<lambda>(q, _). P q) al) = filter P (map fst al)"
  by (induction al) auto

lemma Prune_list:
  assumes "Prune dir keep fs = (e, fs')"
  defines "S \<equiv> sort_key by_seq (listSnapshotPaths dir fs)"
  defines "n \<equiv> nat (if keep \<le> 0 then DefaultKeep else keep)"
  shows "\<exists>k. sf_files fs' = filter (\<lambda>(q, _). q \<notin> set (take k (drop n (rev S)))) (sf_files fs) \<and>
    sort_key by_seq (listSnapshotPaths dir fs') = filter (\<lambda>q. q \<notin> set (take k (drop n (rev S)))) S \<and>
    (e = None \<longrightarrow> length (drop n (rev S)) \<le> k)"
proof (cases "length (listSnapshotPaths dir fs) \<le> n")
  case True
  then have "fs' = fs" "e = None" using assms(1) by (auto simp: Prune_def n_def Let_def DefaultKeep_def split: if_splits)
  with True show ?thesis by (simp add: S_def)
next
  case False
  then have "remove_paths (drop n (rev S)) fs = (e, fs')"
    using assms(1) by (auto simp: Prune_def n_def S_def Let_def DefaultKeep_def split: if_splits)
  from remove_paths_keys [OF this] obtain k where
    k: "sf_files fs' = filter (\<lambda>(q, _). q \<notin> set (take k (drop n (rev S)))) (sf_files fs)"
      "e = None \<longrightarrow> length (drop n (rev S)) \<le> k" by blast
  let ?P = "\<lambda>q. q \<notin> set (take k (drop n (rev S)))"
  have "listSnapshotPaths dir fs' = sort (filter ?P (filter (is_snapshot dir) (map fst (sf_files fs))))"
    unfolding listSnapshotPaths_def k(1) map_fst_filter by (simp only: filter_filter conj_commute)
  also have "\<dots> = filter ?P (listSnapshotPaths dir fs)"
    by (simp only: listSnapshotPaths_def filter_sort)
  finally show ?thesis using k by (intro exI [of _ k]) (simp add: S_def filter_sort)
qed

lemma map_of_filter_key: "map_of (filter (\<lambda>(q, _). P q) al) q = (if P q then map_of al q else None)"
  by (induction al) auto

lemma filter_drop_distinct: "distinct xs \<Longrightarrow> filter (\<lambda>q. q \<notin> set (drop n xs)) xs = take n xs"
  by (induction xs arbitrary: n) (auto simp: drop_Cons take_Cons split: nat.splits dest: in_set_dropD)

lemma Prune_keeps:
  assumes pr: "Prune dir keep fs = (e, fs')" and ok: "fs_ok fs"
  shows "LatestPath dir fs' = LatestPath dir fs \<and> fs_ok fs' \<and>
    (\<forall>q. fs_file fs' q = fs_file fs q \<or> is_snapshot dir q \<and> fs_file fs' q = None) \<and>
    (\<forall>p. LatestPath dir fs = Some p \<longrightarrow> fs_file fs' p = fs_file fs p) \<and>
    (e = None \<longrightarrow> int (length (listSnapshotPaths dir fs')) =
       min (int (length (listSnapshotPaths dir fs))) (if keep \<le> 0 then DefaultKeep else keep))"
proof -
  define S where "S = sort_key by_seq (listSnapshotPaths dir fs)"
  define n where "n = nat (if keep \<le> 0 then DefaultKeep else keep)"
  have n: "0 < n" by (simp add: n_def DefaultKeep_def)
  obtain k where k: "sf_files fs' = filter (\<lambda>(q, _). q \<notin> set (take k (drop n (rev S)))) (sf_files fs)"
      "sort_key by_seq (listSnapshotPaths dir fs') = filter (\<lambda>q. q \<notin> set (take k (drop n (rev S)))) S"
      "e = None \<longrightarrow> length (drop n (rev S)) \<le> k"
    using Prune_list [OF pr] unfolding S_def n_def by blast
  let ?R = "set (take k (drop n (rev S)))"
  have d: "distinct S" using listSnapshotPaths_distinct [OF ok] by (simp add: S_def)
  have sub: "?R \<subseteq> set S" by (metis set_rev set_take_subset set_drop_subset subset_trans)
  have fl: "fs_file fs' q = (if q \<in> ?R then None else fs_file fs q)" for q
    unfolding fs_file_def k(1) by (simp add: map_of_filter_key)
  have last: "last S \<notin> ?R" if "S \<noteq> []"
  proof -
    obtain a xs where ax: "rev S = a # xs" using \<open>S \<noteq> []\<close> by (cases "rev S") auto
    then have "last S = a" "a \<notin> set xs" using d by (metis last_rev rev_rev_ident list.sel(1) hd_rev, metis distinct.simps(2) distinct_rev)
    moreover have "?R \<subseteq> set xs" using ax n by (cases n) (auto dest: in_set_takeD in_set_dropD)
    ultimately show ?thesis by blast
  qed
  have latest: "LatestPath dir fs' = LatestPath dir fs"
  proof (cases "S = []")
    case True
    with k(2) have "listSnapshotPaths dir fs' = []" "listSnapshotPaths dir fs = []"
      by (simp_all add: S_def) (metis length_0_conv length_sort)+
    then show ?thesis by (simp add: LatestPath_def)
  next
    case False
    have "filter (\<lambda>q. q \<notin> ?R) (butlast S @ [last S]) = filter (\<lambda>q. q \<notin> ?R) (butlast S) @ [last S]"
      using last [OF False] by simp
    then have l: "last (filter (\<lambda>q. q \<notin> ?R) S) = last S" "filter (\<lambda>q. q \<notin> ?R) S \<noteq> []"
      using append_butlast_last_id [OF False] by simp_all
    have "LatestPath dir fs = Some (last S)" using False by (simp add: LatestPath_sort S_def)
    moreover have "LatestPath dir fs' = Some (last S)" using l k(2) by (simp add: LatestPath_sort)
    ultimately show ?thesis by simp
  qed
  have snap: "is_snapshot dir q" if "q \<in> ?R" for q
    using that sub by (auto simp: S_def set_listSnapshotPaths)
  have lp: "fs_file fs' p = fs_file fs p" if "LatestPath dir fs = Some p" for p
    using that last fl by (auto simp: LatestPath_sort S_def Let_def split: if_splits)
  have len: "length (listSnapshotPaths dir fs') = min (length (listSnapshotPaths dir fs)) n" if "e = None"
  proof -
    have "filter (\<lambda>q. q \<notin> set (drop n (rev S))) (rev S) = take n (rev S)" using d by (intro filter_drop_distinct) simp
    then have "length (filter (\<lambda>q. q \<notin> ?R) S) = length (take n (rev S))"
      using k(3) that by (metis length_rev rev_filter take_all)
    then show ?thesis using k(2) by (metis length_rev length_sort length_take S_def min.commute)
  qed
  have "fs_ok fs'" using ok unfolding fs_ok_def k(1) by (auto simp: distinct_map_filter)
  with latest fl snap lp len show ?thesis by (auto simp: n_def DefaultKeep_def)
qed

lemma parse_Filename: "parseSnapshotSeq (Filename s) = s"
proof -
  have "trim_suffix (trim_prefix (Filename s) snapshotPrefix) snapshotSuffix = show_nat (unat s)"
    by (simp add: Filename_def)
  moreover have "parse_uint64 (show_nat (unat s)) = Some (unat s)"
    by (rule parse_show_uint64) (use unsigned_less [of s] in simp)
  moreover have "has_suffix (Filename s) snapshotSuffix"
    using has_suffix_append [of "snapshotPrefix @ show_nat (unat s)" snapshotSuffix] by (simp add: Filename_def)
  ultimately show ?thesis by (simp add: parseSnapshotSeq_def Filename_def)
qed

lemma is_snapshot_Filename: "is_snapshot dir (dir @ [Filename s])"
  using has_suffix_append [of "snapshotPrefix @ show_nat (unat s)" snapshotSuffix]
  by (simp add: is_snapshot_def in_dir_def Filename_def)

lemma by_seq_Filename [simp]: "by_seq (dir @ [Filename s]) = s"
  by (simp add: by_seq_def parse_Filename)

section \<open>Crashes\<close>

definition fs_crash :: "snap_fs \<Rightarrow> snap_fs \<Rightarrow> bool" where
  "fs_crash fs fs' \<longleftrightarrow> sf_dirs fs' = sf_dirs fs \<and>
     list_all2 (\<lambda>(p, f) (p', f'). p' = p \<and>
       (\<exists>n \<ge> f_synced f. f_data f' = take n (f_data f) \<and> f_synced f' = length (f_data f')))
     (sf_files fs) (sf_files fs')"

lemma fs_crash_file:
  assumes "fs_crash fs fs'"
  shows "case fs_file fs p of None \<Rightarrow> fs_file fs' p = None
    | Some f \<Rightarrow> \<exists>f'. fs_file fs' p = Some f' \<and> f_synced f' = length (f_data f') \<and>
        (f_synced f = length (f_data f) \<longrightarrow> f_data f' = f_data f)"
proof -
  have "list_all2 (\<lambda>(p, f) (p', f'). p' = p \<and>
       (\<exists>n \<ge> f_synced f. f_data f' = take n (f_data f) \<and> f_synced f' = length (f_data f')))
     (sf_files fs) (sf_files fs')"
    using assms by (simp add: fs_crash_def)
  then show ?thesis unfolding fs_file_def
    by (induction rule: list_all2_induct) (auto split: option.splits)
qed

lemma fs_crash_snapshots:
  assumes "fs_crash fs fs'"
  shows "fs_file fs' p = None \<longleftrightarrow> fs_file fs p = None"
  using fs_crash_file [OF assms, of p] by (auto split: option.splits)

section \<open>Properties\<close>

text \<open>
  Writing a snapshot file is atomic: whatever system calls fail and wherever a crash
  stops it (from then on every call fails), the file afterwards holds the new content when
  the write reported success and the old content otherwise, never a part of either.
\<close>

theorem write_atomic:
  assumes "path \<noteq> []" and "fs_file fs path = Some f" and "f_synced f = length (f_data f)"
    and "writeAtomic path data fs = (e, fs1)" and "fs_crash fs1 fs2"
  shows "map_option f_data (fs_file fs2 path) = Some (if e = None then data else f_data f)"
  using writeAtomic_file(1) [OF assms(4,1)] fs_crash_file [OF assms(5), of path] assms(2,3)
  by (auto split: if_splits option.splits)

definition wit_fs :: "(path \<times> snap_file) list \<Rightarrow> (nat \<Rightarrow> nat option) \<Rightarrow> snap_fs" where
  "wit_fs fl io = \<lparr> sf_files = fl, sf_dirs = [], sf_io = io, sf_pos = 0 \<rparr>"

text \<open>The crash that loses nothing.\<close>

definition fs_settled :: "snap_fs \<Rightarrow> snap_fs" where
  "fs_settled fs = fs\<lparr>sf_files := map (\<lambda>(p, f). (p, f\<lparr>f_synced := length (f_data f)\<rparr>)) (sf_files fs)\<rparr>"

lemma fs_crash_settled: "fs_ok fs \<Longrightarrow> fs_crash fs (fs_settled fs)"
  unfolding fs_crash_def fs_ok_def fs_settled_def
  by (auto simp: list_all2_map2 intro!: list.rel_refl_strong exI [where x = "length _"])

theorem write_atomic_witness:
  "\<exists>e fs1. writeAtomic [''s'', ''m.pb''] [1, 2, 3]
       (wit_fs [([''s'', ''m.pb''], \<lparr> f_data = [9], f_synced = 1 \<rparr>)] (\<lambda>i. if i = 2 then Some 1 else None)) = (e, fs1) \<and>
     map_option f_data (fs_file (fs_settled fs1) [''s'', ''m.pb'']) = Some (if e = None then [1, 2, 3] else [9])"
proof -
  let ?fs = "wit_fs [([''s'', ''m.pb''], \<lparr> f_data = [9], f_synced = 1 \<rparr>)] (\<lambda>i. if i = 2 then Some 1 else None)"
  obtain e fs1 where w: "writeAtomic [''s'', ''m.pb''] [1, 2, 3] ?fs = (e, fs1)" by fastforce
  have "fs_ok fs1" using writeAtomic_ok [of ?fs "[''s'', ''m.pb'']" "[1, 2, 3]"] w
    by (simp add: fs_ok_def wit_fs_def)
  with write_atomic [OF _ _ _ w fs_crash_settled] w show ?thesis by (auto simp: wit_fs_def fs_file_def)
qed

text \<open>
  A snapshot that was saved, with a number above those already in its directory, is the
  one found and loaded after old ones were pruned and the machine crashed: its checksum
  verifies, and loading can only fail because a read fails.
\<close>

theorem snapshot_survives:
  assumes "snap_codec_ok C" and "fs_ok fs"
    and "\<forall>q. is_snapshot dir q \<longrightarrow> fs_file fs q \<noteq> None \<longrightarrow> by_seq q < seq"
    and "snap_Save C (dir @ [Filename seq]) (Some snap) fs = (None, fs1)"
    and "Prune dir keep fs1 = (e, fs2)" and "fs_crash fs2 fs3"
    and "snap_Load C (dir @ [Filename seq]) fs3 = (r, fs4)"
  shows "LatestPath dir fs3 = Some (dir @ [Filename seq]) \<and>
    (r = Inr (norm_snapshot (snap\<lparr>s_Checksum := ComputeChecksum C (Some snap)\<rparr>)) \<or> r = Inl ErrIO)"
proof -
  let ?p = "dir @ [Filename seq]" and ?m = "snap\<lparr>s_Checksum := ComputeChecksum C (Some snap)\<rparr>"
  obtain data where d: "marshal_snapshot C ?m = Some data" and w: "writeAtomic ?p data fs = (None, fs1)"
    using assms(4) by (auto simp: snap_Save_def Let_def split: option.splits)
  have f1: "fs_file fs1 ?p = Some \<lparr> f_data = data, f_synced = length data \<rparr>"
    using writeAtomic_file(1) [OF w] by simp
  have others: "by_seq q < seq" if "is_snapshot dir q" "fs_file fs1 q \<noteq> None" "q \<noteq> ?p" for q
  proof -
    have "q \<noteq> tmp_path ?p" using that(1) tmp_not_snapshot [of ?p dir] by auto
    then have "fs_file fs q \<noteq> None" using that(2,3) writeAtomic_file(2) [OF w] by simp
    with that(1) assms(3) show ?thesis by blast
  qed
  have l1: "LatestPath dir fs1 = Some ?p"
    by (rule LatestPath_max) (use f1 others in \<open>auto simp: is_snapshot_Filename\<close>)
  have ok1: "fs_ok fs1" using writeAtomic_ok [OF assms(2)] w by (metis snd_conv)
  note pr = Prune_keeps [OF assms(5) ok1]
  have f2: "fs_file fs2 ?p = Some \<lparr> f_data = data, f_synced = length data \<rparr>" using pr l1 f1 by simp
  have "LatestPath dir fs3 = Some ?p"
  proof (rule LatestPath_max)
    show "is_snapshot dir ?p" by (rule is_snapshot_Filename)
    show "fs_file fs3 ?p \<noteq> None" using fs_crash_snapshots [OF assms(6)] f2 by simp
    fix q assume q: "is_snapshot dir q" "fs_file fs3 q \<noteq> None" "q \<noteq> ?p"
    then have "fs_file fs1 q \<noteq> None" using fs_crash_snapshots [OF assms(6), of q] pr by (metis not_None_eq)
    with others [OF q(1) _ q(3)] show "by_seq q < by_seq ?p" by simp
  qed
  moreover have "r = Inr (norm_snapshot ?m) \<or> r = Inl ErrIO"
  proof -
    obtain f3 where f3: "fs_file fs3 ?p = Some f3" "f_data f3 = data" using fs_crash_file [OF assms(6), of ?p] f2 by auto
    have u: "unmarshal_snapshot C data = Some (norm_snapshot ?m)" using assms(1) d by (simp add: snap_codec_ok_def)
    have "VerifyChecksum C (Some (norm_snapshot ?m)) = None"
      by (simp add: VerifyChecksum_def ComputeChecksum_def norm_snapshot_def)
    with assms(7) f3 u show ?thesis
      by (auto simp: snap_Load_def fs_read_def fs_call_def Let_def state_simps split: if_splits)
  qed
  ultimately show ?thesis by blast
qed

definition wit_snap :: pb_snapshot where
  "wit_snap = \<lparr> s_ShardId = ''s1'', s_Symbol = ''BTC-USDT'', s_SeqId = 12, s_TimestampUnixNano = 5,
     s_Bids = [\<lparr> l_Price = Some ''7'', l_Orders = [] \<rparr>], s_Asks = [], s_OrderMap = None, s_Checksum = 0 \<rparr>"

definition wit_codec :: snap_codec where
  "wit_codec =
     \<lparr> marshal_snapshot = (\<lambda>m. if m\<lparr>s_Checksum := 0\<rparr> = wit_snap then Some (le_bytes 8 (s_Checksum m)) else None),
       unmarshal_snapshot = (\<lambda>b. if length b = 8 then Some (wit_snap\<lparr>s_Checksum := of_le_bytes b\<rparr>) else None),
       marshal_level = (\<lambda>lv. Some (map of_char (GetValue (l_Price lv)))),
       marshal_manifest = (\<lambda>m. None), unmarshal_manifest = (\<lambda>b. None) \<rparr>"

lemma wit_codec_ok: "snap_codec_ok wit_codec"
proof -
  have "wit_snap\<lparr>s_Checksum := s_Checksum m\<rparr> = norm_snapshot m" if m: "m\<lparr>s_Checksum := 0\<rparr> = wit_snap" for m
  proof -
    have "s_OrderMap m = None" using arg_cong [OF m, of s_OrderMap] by (simp add: wit_snap_def)
    then show ?thesis unfolding m [symmetric] by (simp add: norm_snapshot_def)
  qed
  then show ?thesis by (auto simp: snap_codec_ok_def wit_codec_def)
qed

theorem snapshot_survives_witness:
  "\<exists>fs1 e fs2 r fs4. snap_Save wit_codec [''BTC-USDT'', Filename 12] (Some wit_snap) (wit_fs [] (\<lambda>_. None)) = (None, fs1) \<and>
     Prune [''BTC-USDT''] 3 fs1 = (e, fs2) \<and>
     snap_Load wit_codec [''BTC-USDT'', Filename 12] (fs_settled fs2) = (r, fs4) \<and>
     LatestPath [''BTC-USDT''] (fs_settled fs2) = Some [''BTC-USDT'', Filename 12] \<and>
     (r = Inl ErrIO \<or> r = Inr (norm_snapshot (wit_snap\<lparr>s_Checksum := ComputeChecksum wit_codec (Some wit_snap)\<rparr>)))"
proof -
  let ?fs = "wit_fs [] (\<lambda>_. None)" and ?p = "[''BTC-USDT''] @ [Filename 12]"
  have ok: "fs_ok ?fs" "\<forall>q. is_snapshot [''BTC-USDT''] q \<longrightarrow> fs_file ?fs q \<noteq> None \<longrightarrow> by_seq q < 12"
    by (simp_all add: fs_ok_def wit_fs_def fs_file_def)
  have m: "marshal_snapshot wit_codec (wit_snap\<lparr>s_Checksum := c\<rparr>) = Some (le_bytes 8 c)" for c
    by (simp add: wit_codec_def) (simp add: wit_snap_def)
  have w: "\<exists>fs1. writeAtomic ?p d ?fs = (None, fs1)" for d
    by (simp add: writeAtomic_def Let_def fs_call_defs wit_fs_def fs_file_def fs_put_def fs_del_def tmp_path_def)
  then obtain fs1 where s: "snap_Save wit_codec ?p (Some wit_snap) ?fs = (None, fs1)"
    unfolding snap_Save_def Let_def option.case m by auto
  obtain e fs2 r fs4 where p: "Prune [''BTC-USDT''] 3 fs1 = (e, fs2)" "snap_Load wit_codec ?p (fs_settled fs2) = (r, fs4)"
    by (metis surj_pair)
  have "fs_ok fs2"
  proof -
    have "fs_ok fs1" using s writeAtomic_ok [OF ok(1)] unfolding snap_Save_def Let_def option.case m
      by (auto split: if_splits) (metis snd_conv)
    with Prune_keeps [OF p(1)] show ?thesis by blast
  qed
  from snapshot_survives [OF wit_codec_ok ok s p(1) fs_crash_settled [OF this] p(2)] s p
  show ?thesis by auto
qed

end
