(* ===== verification/Recovery.thy ===== *)
theory Recovery
  imports SymbolShard WalDurable SnapshotStore
begin

text \<open>
  Model of \<open>internal/matching/recovery/engine.go\<close> and \<open>group_commit.go\<close>: the persistent
  shard. A command is appended to the write-ahead log before it changes the books;
  snapshots are taken every so many commands; opening restores the newest snapshots and
  replays the log. The machine's state (log directory, snapshot directory, clock) is
  passed along with the engine.
\<close>

section \<open>Commands and environment\<close>

record new_order_cmd =
  no_CommandId :: uint64
  no_Order :: "pb_order option"
  no_KafkaPartition :: uint32
  no_KafkaOffset :: uint64

record cancel_cmd =
  co_CommandId :: uint64
  co_Symbol :: string
  co_OrderId :: uint64
  co_KafkaPartition :: uint32
  co_KafkaOffset :: uint64

text \<open>
  The protobuf coding of the commands is a parameter; what a command marshals to
  unmarshals to it.
\<close>

record cmd_codec =
  marshal_new :: "new_order_cmd \<Rightarrow> bytes option"
  unmarshal_new :: "bytes \<Rightarrow> new_order_cmd option"
  marshal_cancel :: "cancel_cmd \<Rightarrow> bytes option"
  unmarshal_cancel :: "bytes \<Rightarrow> cancel_cmd option"

definition cmd_codec_ok :: "cmd_codec \<Rightarrow> bool" where
  "cmd_codec_ok K \<longleftrightarrow>
     (\<forall>c b. marshal_new K c = Some b \<longrightarrow> unmarshal_new K b = Some c) \<and>
     (\<forall>c b. marshal_cancel K c = Some b \<longrightarrow> unmarshal_cancel K b = Some c)"

text \<open>\<open>env_order\<close> is the order in which ranging over a Go map visits its keys.\<close>

record 'd env =
  env_libs :: "'d libs"
  env_cmd :: cmd_codec
  env_snap :: snap_codec
  env_order :: "string set \<Rightarrow> string list"

record group_commit_config =
  gc_SyncEveryRecords :: int
  gc_SyncIntervalMs :: int
  gc_ConsumerBatchMax :: int
  gc_ConsumerBatchWaitMs :: int

definition gc_GroupCommitEnabled :: "group_commit_config \<Rightarrow> bool" where
  "gc_GroupCommitEnabled c \<longleftrightarrow> 1 < gc_SyncEveryRecords c \<or> 0 < gc_SyncIntervalMs c"

record 'd config =
  c_ShardID :: string
  c_DataDir :: string
  c_SnapshotEvery :: uint64
  c_WALGroupCommit :: group_commit_config
  c_SymbolRegistry :: "'d registry option"

definition WALWriterConfig :: "'d config \<Rightarrow> writer_config" where
  "WALWriterConfig c =
     \<lparr> MaxSegmentBytes = 0, WriteBufferSize = 0,
       SyncEveryRecords = gc_SyncEveryRecords (c_WALGroupCommit c),
       SyncIntervalMs = gc_SyncIntervalMs (c_WALGroupCommit c) \<rparr>"

datatype staged_item =
    StagedNewOrder (si_new: new_order_cmd) (si_seq: uint64) (si_duplicate: bool) (si_readOnly: bool)
  | StagedCancel (si_cancel: cancel_cmd) (si_seq: uint64)

record 'd outcome =
  oc_Trades :: "'d trade list"
  oc_WalSeq :: uint64
  oc_Duplicate :: bool
  oc_ReadOnly :: bool

section \<open>The engine and the machine it runs on\<close>

record 'd engine =
  e_cfg :: "'d config"
  e_shard :: "'d shard"
  e_wal :: file_writer
  e_snapRoot :: path
  e_manifest :: path
  e_recovered :: uint64
  e_snapshotSeq :: uint64
  e_lastSnapshotAt :: time
  e_seen :: "uint64 set"
  e_pending :: "staged_item list"

record world =
  g_disk :: disk
  g_fs :: snap_fs
  g_clk :: clock

type_synonym 'd state = "'d engine \<times> world"

definition wal_state :: "'d state \<Rightarrow> wstate" where
  "wal_state st = (e_wal (fst st), g_disk (snd st), g_clk (snd st))"

definition set_wal_state :: "wstate \<Rightarrow> 'd state \<Rightarrow> 'd state" where
  "set_wal_state s st =
     ((fst st)\<lparr>e_wal := fst s\<rparr>, (snd st)\<lparr>g_disk := fst (snd s), g_clk := snd (snd s)\<rparr>)"

text \<open>\<open>walStart := time.Now()\<close>: the reading only feeds a metric.\<close>

definition tick :: "'d state \<Rightarrow> 'd state" where
  "tick st = (fst st, (snd st)\<lparr>g_clk := snd (now (g_clk (snd st)))\<rparr>)"

definition LastSeq :: "'d state \<Rightarrow> uint64" where
  "LastSeq st = w_lastSeq (e_wal (fst st))"

definition rec_IsSymbolReadOnly :: "'d state \<Rightarrow> string \<Rightarrow> bool" where
  "rec_IsSymbolReadOnly st symbol = IsReadOnly (e_shard (fst st)) symbol"

definition SetSymbolReadOnly :: "string \<Rightarrow> string \<Rightarrow> ('d::zero) state \<Rightarrow> 'd state" where
  "SetSymbolReadOnly symbol reason st =
     ((fst st)\<lparr>e_shard := SetReadOnly symbol reason (e_shard (fst st))\<rparr>, snd st)"

definition ActiveOrderIDs :: "'d state \<Rightarrow> string \<Rightarrow> uint64 set" where
  "ActiveOrderIDs st symbol =
     (case shard_Get (e_shard (fst st)) symbol of
        None \<Rightarrow> {}
      | Some se \<Rightarrow> dom (ActiveOrders (se_OrderBook se)))"

datatype presence = Unknown | InOrderbook | KnownNotInOrderbook

definition LookupOrderPresence :: "('d::linorder) state \<Rightarrow> string \<Rightarrow> uint64 \<Rightarrow> presence" where
  "LookupOrderPresence st symbol orderID =
     (if orderID = 0 \<or> symbol = '''' then Unknown
      else if orderID \<notin> e_seen (fst st) then Unknown
      else case shard_Get (e_shard (fst st)) symbol of
             None \<Rightarrow> KnownNotInOrderbook
           | Some se \<Rightarrow> if HasActiveOrder orderID (se_OrderBook se) then InOrderbook else KnownNotInOrderbook)"

section \<open>Snapshots\<close>

text \<open>The loop of \<open>writeSnapshots\<close> over the symbols; \<open>ts\<close> are those already written.\<close>

fun write_symbols ::
  "('d::linordered_idom) env \<Rightarrow> uint64 \<Rightarrow> string list \<Rightarrow> (string \<rightharpoonup> uint64) \<Rightarrow> 'd state \<Rightarrow>
     err option \<times> (string \<rightharpoonup> uint64) \<times> 'd state" where
  "write_symbols E seq [] done_syms st = (None, done_syms, st)"
| "write_symbols E seq (s # ss) done_syms st =
     (case shard_Get (e_shard (fst st)) s of
        None \<Rightarrow> write_symbols E seq ss done_syms st
      | Some se \<Rightarrow>
          (let (e, g) = st;
               (t, clk1) = now (g_clk g);
               (snap, clk2) = ExportSnapshot (env_libs E) (c_ShardID (e_cfg e)) seq t (se_OrderBook se, clk1);
               g1 = g\<lparr>g_clk := clk2\<rparr>
           in case ValidateWithOrderMap (se_OrderBook se) (s_OrderMap snap) of
                Some er \<Rightarrow> (Some er, done_syms, e, g1)
              | None \<Rightarrow>
                  (case snap_Save (env_snap E) (e_snapRoot e @ [s, Filename seq]) (Some snap) (g_fs g1) of
                     (Some er, fs1) \<Rightarrow> (Some er, done_syms, e, g1\<lparr>g_fs := fs1\<rparr>)
                   | (None, fs1) \<Rightarrow>
                       (case Prune (e_snapRoot e @ [s]) DefaultKeep fs1 of
                          (Some er, fs2) \<Rightarrow> (Some er, done_syms, e, g1\<lparr>g_fs := fs2\<rparr>)
                        | (None, fs2) \<Rightarrow>
                            write_symbols E seq ss (done_syms(s \<mapsto> seq)) (e, g1\<lparr>g_fs := fs2\<rparr>)))))"

definition writeSnapshots :: "('d::linordered_idom) env \<Rightarrow> uint64 \<Rightarrow> 'd state \<Rightarrow> err option \<times> 'd state" where
  "writeSnapshots E seq st =
     (let (e, g) = st;
          (t0, clk0) = now (g_clk g)
      in case write_symbols E seq (env_order E (shard_Symbols (e_shard e))) Map.empty (e, g\<lparr>g_clk := clk0\<rparr>) of
           (Some er, _, st1) \<Rightarrow> (Some er, st1)
         | (None, syms, e1, g1) \<Rightarrow>
             (let m = \<lparr> mf_ShardId = c_ShardID (e_cfg e), mf_RecoveredOffset = seq, mf_SymbolSeq = syms,
                        mf_UpdatedAtUnixNano = unix_nano t0 \<rparr>
              in case SaveManifest (env_snap E) (e_manifest e) (Some m) (g_fs g1) of
                   (Some er, fs2) \<Rightarrow> (Some er, e1, g1\<lparr>g_fs := fs2\<rparr>)
                 | (None, fs2) \<Rightarrow>
                     (let (t, clk2) = now (g_clk g1)
                      in (None, e1\<lparr>e_snapshotSeq := seq, e_lastSnapshotAt := t\<rparr>, g1\<lparr>g_fs := fs2, g_clk := clk2\<rparr>))))"

definition maybeSnapshot :: "('d::linordered_idom) env \<Rightarrow> uint64 \<Rightarrow> 'd state \<Rightarrow> err option \<times> 'd state" where
  "maybeSnapshot E seq st =
     (if c_SnapshotEvery (e_cfg (fst st)) = 0 \<or> seq mod c_SnapshotEvery (e_cfg (fst st)) \<noteq> 0 then (None, st)
      else writeSnapshots E seq st)"

definition SnapshotIfStale :: "('d::linordered_idom) env \<Rightarrow> 'd state \<Rightarrow> err option \<times> 'd state" where
  "SnapshotIfStale E st =
     (if LastSeq st \<le> e_snapshotSeq (fst st) then (None, st) else writeSnapshots E (LastSeq st) st)"

definition SnapshotNow :: "('d::linordered_idom) env \<Rightarrow> 'd state \<Rightarrow> err option \<times> 'd state" where
  "SnapshotNow E st = writeSnapshots E (LastSeq st) st"

section \<open>Applying commands\<close>

definition rec_applyNewOrder ::
  "('d::linordered_idom) env \<Rightarrow> new_order_cmd \<Rightarrow> uint64 \<Rightarrow> 'd state \<Rightarrow> (err + 'd trade list) \<times> 'd state" where
  "rec_applyNewOrder E cmd seq st =
     (case OrderFromProto (env_libs E) (no_Order cmd) of
        Inl er \<Rightarrow> (Inl er, st)
      | Inr od \<Rightarrow>
          (let (e, g) = st;
               (r, sh, clk) = shard_Match (env_libs E) od seq (e_shard e, g_clk g);
               e1 = e\<lparr>e_shard := sh\<rparr>; g1 = g\<lparr>g_clk := clk\<rparr>
           in case r of
                Inl er \<Rightarrow> (Inl er, e1, g1)
              | Inr trades \<Rightarrow> (Inr trades, e1\<lparr>e_seen := insert (o_OrderID od) (e_seen e1)\<rparr>, g1)))"

definition applyNewOrderImmediate ::
  "('d::linordered_idom) env \<Rightarrow> new_order_cmd option \<Rightarrow> 'd state \<Rightarrow> (err + 'd trade list) \<times> 'd state" where
  "applyNewOrderImmediate E cmdo st =
     (case cmdo of None \<Rightarrow> (Inl (ErrMsg ''recovery: new order command is invalid''), st)
      | Some cmd \<Rightarrow>
     (case no_Order cmd of None \<Rightarrow> (Inl (ErrMsg ''recovery: new order command is invalid''), st)
      | Some pb \<Rightarrow>
          if IsReadOnly (e_shard (fst st)) (p_Symbol pb) then (Inl ErrSymbolReadOnly, st)
          else if p_OrderId pb = 0 then (Inl (ErrMsg ''recovery: order_id is required''), st)
          else if p_OrderId pb \<in> e_seen (fst st) then (Inr [], st)
          else case marshal_new (env_cmd E) cmd of
            None \<Rightarrow> (Inl (ErrMsg ''recovery: marshal new order''), st)
          | Some payload \<Rightarrow>
              (let st1 = tick st
               in case AppendNext EventTypeNewOrder payload (wal_state st1) of
                    (Inl er, ws) \<Rightarrow> (Inl er, set_wal_state ws st1)
                  | (Inr seq, ws) \<Rightarrow>
                      (case rec_applyNewOrder E cmd seq (set_wal_state ws st1) of
                         (Inl er, st2) \<Rightarrow> (Inl er, st2)
                       | (Inr trades, e2, g2) \<Rightarrow>
                           (Inr trades, snd (maybeSnapshot E seq (e2\<lparr>e_recovered := seq\<rparr>, g2)))))))"

definition applyCancelImmediate ::
  "('d::linordered_idom) env \<Rightarrow> cancel_cmd option \<Rightarrow> 'd state \<Rightarrow> err option \<times> 'd state" where
  "applyCancelImmediate E cmdo st =
     (case cmdo of None \<Rightarrow> (Some (ErrMsg ''recovery: cancel command is nil''), st)
      | Some cmd \<Rightarrow>
          if co_Symbol cmd = '''' \<or> co_OrderId cmd = 0
          then (Some (ErrMsg ''recovery: symbol and order_id are required''), st)
          else case marshal_cancel (env_cmd E) cmd of
            None \<Rightarrow> (Some (ErrMsg ''recovery: marshal cancel''), st)
          | Some payload \<Rightarrow>
              (let st1 = tick st
               in case AppendNext EventTypeCancelOrder payload (wal_state st1) of
                    (Inl er, ws) \<Rightarrow> (Some er, set_wal_state ws st1)
                  | (Inr seq, ws) \<Rightarrow>
                      (let (e2, g2) = set_wal_state ws st1;
                           (er, sh) = shard_Cancel (co_Symbol cmd) (co_OrderId cmd) (e_shard e2);
                           e3 = e2\<lparr>e_shard := sh\<rparr>
                       in case er of
                            Some x \<Rightarrow> (Some x, e3, g2)
                          | None \<Rightarrow> (None, snd (maybeSnapshot E seq (e3\<lparr>e_recovered := seq\<rparr>, g2))))))"

section \<open>Group commit\<close>

definition push_item :: "staged_item \<Rightarrow> 'd state \<Rightarrow> 'd state" where
  "push_item x st = ((fst st)\<lparr>e_pending := e_pending (fst st) @ [x]\<rparr>, snd st)"

definition StageNewOrder ::
  "('d::linordered_idom) env \<Rightarrow> new_order_cmd option \<Rightarrow> 'd state \<Rightarrow> err option \<times> 'd state" where
  "StageNewOrder E cmdo st =
     (case cmdo of None \<Rightarrow> (Some (ErrMsg ''recovery: new order command is invalid''), st)
      | Some cmd \<Rightarrow>
     (case no_Order cmd of None \<Rightarrow> (Some (ErrMsg ''recovery: new order command is invalid''), st)
      | Some pb \<Rightarrow>
          if IsReadOnly (e_shard (fst st)) (p_Symbol pb)
          then (None, push_item (StagedNewOrder cmd 0 False True) st)
          else if p_OrderId pb = 0 then (Some (ErrMsg ''recovery: order_id is required''), st)
          else if p_OrderId pb \<in> e_seen (fst st) then (None, push_item (StagedNewOrder cmd 0 True False) st)
          else case marshal_new (env_cmd E) cmd of
            None \<Rightarrow> (Some (ErrMsg ''recovery: marshal new order''), st)
          | Some payload \<Rightarrow>
              (case AppendNext EventTypeNewOrder payload (wal_state st) of
                 (Inl er, ws) \<Rightarrow> (Some er, set_wal_state ws st)
               | (Inr seq, ws) \<Rightarrow> (None, push_item (StagedNewOrder cmd seq False False) (set_wal_state ws st)))))"

definition StageCancel ::
  "('d::linordered_idom) env \<Rightarrow> cancel_cmd option \<Rightarrow> 'd state \<Rightarrow> err option \<times> 'd state" where
  "StageCancel E cmdo st =
     (case cmdo of None \<Rightarrow> (Some (ErrMsg ''recovery: cancel command is nil''), st)
      | Some cmd \<Rightarrow>
          if co_Symbol cmd = '''' \<or> co_OrderId cmd = 0
          then (Some (ErrMsg ''recovery: symbol and order_id are required''), st)
          else case marshal_cancel (env_cmd E) cmd of
            None \<Rightarrow> (Some (ErrMsg ''recovery: marshal cancel''), st)
          | Some payload \<Rightarrow>
              (case AppendNext EventTypeCancelOrder payload (wal_state st) of
                 (Inl er, ws) \<Rightarrow> (Some er, set_wal_state ws st)
               | (Inr seq, ws) \<Rightarrow> (None, push_item (StagedCancel cmd seq) (set_wal_state ws st))))"

text \<open>One iteration of the loop of \<open>commitBatchLocked\<close>.\<close>

definition commit_item ::
  "('d::linordered_idom) env \<Rightarrow> staged_item \<Rightarrow> 'd state \<Rightarrow> (err + 'd outcome) \<times> 'd state" where
  "commit_item E item st =
     (case item of
        StagedNewOrder cmd seq duplicate readOnly \<Rightarrow>
          if readOnly
          then (Inr \<lparr> oc_Trades = [], oc_WalSeq = 0, oc_Duplicate = False, oc_ReadOnly = True \<rparr>, st)
          else if duplicate
          then (Inr \<lparr> oc_Trades = [], oc_WalSeq = 0, oc_Duplicate = True, oc_ReadOnly = False \<rparr>, st)
          else (case rec_applyNewOrder E cmd seq st of
                  (Inl er, st1) \<Rightarrow> (Inl er, st1)
                | (Inr trades, e1, g1) \<Rightarrow>
                    (Inr \<lparr> oc_Trades = trades, oc_WalSeq = seq, oc_Duplicate = False, oc_ReadOnly = False \<rparr>,
                     snd (maybeSnapshot E seq (e1\<lparr>e_recovered := seq\<rparr>, g1))))
      | StagedCancel cmd seq \<Rightarrow>
          (let (e, g) = st;
               (er, sh) = shard_Cancel (co_Symbol cmd) (co_OrderId cmd) (e_shard e);
               e1 = e\<lparr>e_shard := sh\<rparr>
           in case er of
                Some x \<Rightarrow> (Inl x, e1, g)
              | None \<Rightarrow>
                  (Inr \<lparr> oc_Trades = [], oc_WalSeq = seq, oc_Duplicate = False, oc_ReadOnly = False \<rparr>,
                   snd (maybeSnapshot E seq (e1\<lparr>e_recovered := seq\<rparr>, g)))))"

fun commit_items ::
  "('d::linordered_idom) env \<Rightarrow> staged_item list \<Rightarrow> 'd state \<Rightarrow> (err + 'd outcome list) \<times> 'd state" where
  "commit_items E [] st = (Inr [], st)"
| "commit_items E (x # xs) st =
     (case commit_item E x st of
        (Inl er, st1) \<Rightarrow> (Inl er, st1)
      | (Inr oc, st1) \<Rightarrow>
          (case commit_items E xs st1 of
             (Inl er, st2) \<Rightarrow> (Inl er, st2)
           | (Inr ocs, st2) \<Rightarrow> (Inr (oc # ocs), st2)))"

definition CommitBatch :: "('d::linordered_idom) env \<Rightarrow> 'd state \<Rightarrow> (err + 'd outcome list) \<times> 'd state" where
  "CommitBatch E st =
     (if e_pending (fst st) = [] then (Inr [], st)
      else (let (er, st1) =
              (if GroupCommitEnabled (w_cfg (e_wal (fst st)))
               then (let (x, ws) = wal_Sync (wal_state (tick st)) in (x, set_wal_state ws (tick st)))
               else (None, st))
            in case er of
                 Some x \<Rightarrow> (Inl x, st1)
               | None \<Rightarrow>
                   (case commit_items E (e_pending (fst st1)) st1 of
                      (Inl x, st2) \<Rightarrow> (Inl x, st2)
                    | (Inr ocs, e2, g2) \<Rightarrow> (Inr ocs, e2\<lparr>e_pending := []\<rparr>, g2))))"

definition ApplyNewOrder ::
  "('d::linordered_idom) env \<Rightarrow> new_order_cmd option \<Rightarrow> 'd state \<Rightarrow> (err + 'd trade list) \<times> 'd state" where
  "ApplyNewOrder E cmdo st =
     (if GroupCommitEnabled (w_cfg (e_wal (fst st)))
      then (case StageNewOrder E cmdo st of
              (Some er, st1) \<Rightarrow> (Inl er, st1)
            | (None, st1) \<Rightarrow>
                (case CommitBatch E st1 of
                   (Inl er, st2) \<Rightarrow> (Inl er, st2)
                 | (Inr [], st2) \<Rightarrow> (Inr [], st2)
                 | (Inr (oc # ocs), st2) \<Rightarrow>
                     if oc_ReadOnly oc then (Inl ErrSymbolReadOnly, st2)
                     else if oc_Duplicate oc then (Inr [], st2)
                     else (Inr (oc_Trades oc), st2)))
      else applyNewOrderImmediate E cmdo st)"

definition ApplyCancel ::
  "('d::linordered_idom) env \<Rightarrow> cancel_cmd option \<Rightarrow> 'd state \<Rightarrow> err option \<times> 'd state" where
  "ApplyCancel E cmdo st =
     (if GroupCommitEnabled (w_cfg (e_wal (fst st)))
      then (case StageCancel E cmdo st of
              (Some er, st1) \<Rightarrow> (Some er, st1)
            | (None, st1) \<Rightarrow>
                (case CommitBatch E st1 of (Inl er, st2) \<Rightarrow> (Some er, st2) | (Inr _, st2) \<Rightarrow> (None, st2)))
      else applyCancelImmediate E cmdo st)"

section \<open>Recovery\<close>

definition listSymbolDirs :: "path \<Rightarrow> snap_fs \<Rightarrow> (err + string list) \<times> snap_fs" where
  "listSymbolDirs root fs =
     (let (oc, fs1) = fs_call fs
      in if root \<notin> set (sf_dirs fs) then (Inr [], fs1)
         else if oc \<noteq> None then (Inl ErrIO, fs1)
         else (Inr (sort (map last (filter (in_dir root) (sf_dirs fs)))), fs1))"

definition restoreSymbol ::
  "('d::linordered_idom) env \<Rightarrow> pb_snapshot \<Rightarrow> 'd state \<Rightarrow> err option \<times> 'd state" where
  "restoreSymbol E snap st =
     (let (e, g) = st;
          (se, sh) = shard_Symbol (s_Symbol snap) (e_shard e);
          (er, b, clk) = RestoreFromSnapshot (env_libs E) (Some snap) (se_OrderBook se, g_clk g);
          st1 = (e\<lparr>e_shard := sh(s_Symbol snap \<mapsto> se\<lparr>se_OrderBook := b\<rparr>)\<rparr>, g\<lparr>g_clk := clk\<rparr>)
      in case er of
           Some x \<Rightarrow> (Some x, st1)
         | None \<Rightarrow> (ValidateWithOrderMap b (s_OrderMap snap), st1))"

fun load_symbols ::
  "('d::linordered_idom) env \<Rightarrow> string list \<Rightarrow> uint64 \<Rightarrow> 'd state \<Rightarrow> (err + uint64) \<times> 'd state" where
  "load_symbols E [] off st = (Inr off, st)"
| "load_symbols E (s # ss) off st =
     (case LatestPath (e_snapRoot (fst st) @ [s]) (g_fs (snd st)) of
        None \<Rightarrow> load_symbols E ss off st
      | Some p \<Rightarrow>
          (case snap_Load (env_snap E) p (g_fs (snd st)) of
             (Inl er, fs1) \<Rightarrow> (Inl er, fst st, (snd st)\<lparr>g_fs := fs1\<rparr>)
           | (Inr snap, fs1) \<Rightarrow>
               (case restoreSymbol E snap (fst st, (snd st)\<lparr>g_fs := fs1\<rparr>) of
                  (Some er, st1) \<Rightarrow> (Inl er, st1)
                | (None, st1) \<Rightarrow> load_symbols E ss (if off < s_SeqId snap then s_SeqId snap else off) st1)))"

definition loadSnapshots :: "('d::linordered_idom) env \<Rightarrow> 'd state \<Rightarrow> (err + uint64) \<times> 'd state" where
  "loadSnapshots E st =
     (let (e, g) = st;
          (r, fs1) = LoadManifest (env_snap E) (e_manifest e) (g_fs g);
          g1 = g\<lparr>g_fs := fs1\<rparr>
      in if \<exists>x. r = Inl x \<and> x \<noteq> ErrNotFound then (Inl (projl r), e, g1)
         else
           (let mo = (case r of Inr m \<Rightarrow> Some m | Inl _ \<Rightarrow> None);
                off0 = (case mo of Some m \<Rightarrow> mf_RecoveredOffset m | None \<Rightarrow> 0);
                (ds, fs2) = listSymbolDirs (e_snapRoot e) fs1
            in case ds of
                 Inl x \<Rightarrow> (Inl x, e, g1\<lparr>g_fs := fs2\<rparr>)
               | Inr dirs \<Rightarrow>
                   (case load_symbols E dirs off0 (e, g1\<lparr>g_fs := fs2\<rparr>) of
                      (Inl x, st1) \<Rightarrow> (Inl x, st1)
                    | (Inr off, e1, g2) \<Rightarrow>
                        (Inr off,
                         e1\<lparr>e_snapshotSeq := off,
                            e_lastSnapshotAt := (case mo of
                                Some m \<Rightarrow> if 0 < mf_UpdatedAtUnixNano m then unix_epoch + mf_UpdatedAtUnixNano m
                                          else e_lastSnapshotAt e1
                              | None \<Rightarrow> e_lastSnapshotAt e1)\<rparr>, g2))))"

definition indexRecord :: "'d env \<Rightarrow> wal_record \<Rightarrow> uint64 set \<Rightarrow> uint64 set" where
  "indexRecord E rec seen =
     (if r_EventType rec \<noteq> EventTypeNewOrder then seen
      else case unmarshal_new (env_cmd E) (r_Payload rec) of
             None \<Rightarrow> seen
           | Some cmd \<Rightarrow>
               (let k = (case no_Order cmd of None \<Rightarrow> 0 | Some pb \<Rightarrow> p_OrderId pb)
                in if k \<noteq> 0 then insert k seen else seen))"

definition buildSeenFromWAL :: "'d env \<Rightarrow> 'd state \<Rightarrow> err option \<times> 'd state" where
  "buildSeenFromWAL E st =
     (let (rs, it) = drain (ReadFrom 0 (g_disk (snd st)))
      in (it_err it, (fst st)\<lparr>e_seen := fold (indexRecord E) rs (e_seen (fst st))\<rparr>, snd st))"

definition applyRecord :: "('d::linordered_idom) env \<Rightarrow> wal_record \<Rightarrow> 'd state \<Rightarrow> err option \<times> 'd state" where
  "applyRecord E rec st =
     (if r_SeqID rec \<le> e_snapshotSeq (fst st) then (None, st)
      else if r_EventType rec = EventTypeNewOrder then
        (case unmarshal_new (env_cmd E) (r_Payload rec) of
           None \<Rightarrow> (Some (ErrMsg ''recovery: decode new order''), st)
         | Some cmd \<Rightarrow>
             if (case no_Order cmd of None \<Rightarrow> 0 | Some pb \<Rightarrow> p_OrderId pb) \<in> e_seen (fst st) then (None, st)
             else (case rec_applyNewOrder E cmd (r_SeqID rec) st of
                     (Inl er, st1) \<Rightarrow> (Some er, st1)
                   | (Inr _, st1) \<Rightarrow> (None, st1)))
      else if r_EventType rec = EventTypeCancelOrder then
        (case unmarshal_cancel (env_cmd E) (r_Payload rec) of
           None \<Rightarrow> (Some (ErrMsg ''recovery: decode cancel''), st)
         | Some cmd \<Rightarrow>
             (let (er, sh) = shard_Cancel (co_Symbol cmd) (co_OrderId cmd) (e_shard (fst st))
              in (er, (fst st)\<lparr>e_shard := sh\<rparr>, snd st)))
      else (Some (ErrMsg ''recovery: unknown event type''), st))"

fun applyRecords :: "('d::linordered_idom) env \<Rightarrow> wal_record list \<Rightarrow> 'd state \<Rightarrow> err option \<times> 'd state" where
  "applyRecords E [] st = (None, st)"
| "applyRecords E (r # rs) st =
     (case applyRecord E r st of (Some er, st1) \<Rightarrow> (Some er, st1) | (None, st1) \<Rightarrow> applyRecords E rs st1)"

definition replayWAL :: "('d::linordered_idom) env \<Rightarrow> uint64 \<Rightarrow> 'd state \<Rightarrow> err option \<times> 'd state" where
  "replayWAL E fromSeq st =
     (let (rs, it) = drain (ReadFrom fromSeq (g_disk (snd st)))
      in case applyRecords E rs st of
           (Some er, st1) \<Rightarrow> (Some er, st1)
         | (None, st1) \<Rightarrow> (it_err it, st1))"

definition recover :: "('d::linordered_idom) env \<Rightarrow> 'd state \<Rightarrow> err option \<times> 'd state" where
  "recover E st =
     (case loadSnapshots E st of
        (Inl er, st1) \<Rightarrow> (Some er, st1)
      | (Inr off, st1) \<Rightarrow>
          (case buildSeenFromWAL E st1 of
             (Some er, st2) \<Rightarrow> (Some er, st2)
           | (None, st2) \<Rightarrow>
               (case replayWAL E off st2 of
                  (Some er, st3) \<Rightarrow> (Some er, st3)
                | (None, e3, g3) \<Rightarrow> (None, e3\<lparr>e_recovered := w_lastSeq (e_wal e3)\<rparr>, g3))))"

section \<open>Opening\<close>

definition defaultSnapshotEvery :: uint64 where "defaultSnapshotEvery = 10000"

definition normalise_config :: "'d config \<Rightarrow> 'd config" where
  "normalise_config cfg0 =
     (let cfg1 = (if c_SnapshotEvery cfg0 = 0 then cfg0\<lparr>c_SnapshotEvery := defaultSnapshotEvery\<rparr> else cfg0);
          gc1 = (if gc_SyncEveryRecords (c_WALGroupCommit cfg1) \<le> 0
                 then (c_WALGroupCommit cfg1)\<lparr>gc_SyncEveryRecords := 1\<rparr> else c_WALGroupCommit cfg1);
          gc2 = (if gc_GroupCommitEnabled gc1
                 then (let a = (if gc_ConsumerBatchMax gc1 \<le> 0
                                then gc1\<lparr>gc_ConsumerBatchMax := gc_SyncEveryRecords gc1\<rparr> else gc1)
                       in if gc_ConsumerBatchWaitMs a \<le> 0 then a\<lparr>gc_ConsumerBatchWaitMs := 2\<rparr> else a)
                 else gc1)
      in cfg1\<lparr>c_WALGroupCommit := gc2\<rparr>)"

text \<open>
  \<open>OpenFileReader\<close> only looks at the directory that the writer has just made, one system
  call; \<open>Close\<close> closes the writer.
\<close>

definition rec_Open ::
  "('d::linordered_idom) env \<Rightarrow> 'd config \<Rightarrow> world \<Rightarrow> (err + 'd engine) \<times> world" where
  "rec_Open E cfg0 g0 =
     (if c_ShardID cfg0 = '''' then (Inl (ErrMsg ''recovery: shard_id is required''), g0)
      else if c_DataDir cfg0 = '''' then (Inl (ErrMsg ''recovery: data_dir is required''), g0)
      else
        (let cfg = normalise_config cfg0;
             walDir = c_DataDir cfg @ ''/wal/'' @ c_ShardID cfg;
             snapRoot = [c_DataDir cfg, ''snapshots'', c_ShardID cfg];
             (r, d1, clk1) = OpenFileWriter walDir (WALWriterConfig cfg) (g_disk g0, g_clk g0);
             g1 = g0\<lparr>g_disk := d1, g_clk := clk1\<rparr>
         in case r of
              Inl er \<Rightarrow> (Inl er, g1)
            | Inr w \<Rightarrow>
                (let (ok, d2) = os_call d1; g2 = g1\<lparr>g_disk := d2\<rparr>
                 in if \<not> ok
                    then (let (_, _, d3, clk3) = wal_Close (w, d2, clk1)
                          in (Inl ErrIO, g2\<lparr>g_disk := d3, g_clk := clk3\<rparr>))
                    else
                      (let e = \<lparr> e_cfg = cfg, e_shard = RegisterRegistry (c_SymbolRegistry cfg) NewShard,
                                 e_wal = w, e_snapRoot = snapRoot, e_manifest = snapRoot @ [''manifest.pb''],
                                 e_recovered = 0, e_snapshotSeq = 0, e_lastSnapshotAt = 0,
                                 e_seen = {}, e_pending = [] \<rparr>
                       in case recover E (e, g2) of
                            (None, e1, g3) \<Rightarrow> (Inr e1, g3)
                          | (Some er, e1, g3) \<Rightarrow>
                              (let (_, _, d4, clk4) = wal_Close (e_wal e1, g_disk g3, g_clk g3)
                               in (Inl er, g3\<lparr>g_disk := d4, g_clk := clk4\<rparr>))))))"

section \<open>Kafka offsets in the log\<close>

definition kafkaOffsetFromRecord :: "'d env \<Rightarrow> wal_record \<Rightarrow> (uint32 \<times> uint64) option" where
  "kafkaOffsetFromRecord E rec =
     (if r_EventType rec = EventTypeNewOrder then
        (case unmarshal_new (env_cmd E) (r_Payload rec) of
           None \<Rightarrow> None
         | Some c \<Rightarrow> if no_KafkaOffset c = 0 then None else Some (no_KafkaPartition c, no_KafkaOffset c))
      else if r_EventType rec = EventTypeCancelOrder then
        (case unmarshal_cancel (env_cmd E) (r_Payload rec) of
           None \<Rightarrow> None
         | Some c \<Rightarrow> if co_KafkaOffset c = 0 then None else Some (co_KafkaPartition c, co_KafkaOffset c))
      else None)"

definition max_offset_step :: "'d env \<Rightarrow> uint32 \<Rightarrow> wal_record \<Rightarrow> uint64 option \<Rightarrow> uint64 option" where
  "max_offset_step E part rec best =
     (case kafkaOffsetFromRecord E rec of
        None \<Rightarrow> best
      | Some (p, off) \<Rightarrow>
          if p \<noteq> part then best
          else (case best of None \<Rightarrow> Some off | Some m \<Rightarrow> if m < off then Some off else best))"

definition MaxKafkaOffset :: "'d env \<Rightarrow> uint32 \<Rightarrow> 'd state \<Rightarrow> uint64 option" where
  "MaxKafkaOffset E part st =
     (let (rs, it) = drain (ReadFrom 0 (g_disk (snd st)))
      in if it_err it \<noteq> None then None else fold (max_offset_step E part) rs None)"

section \<open>What recovery restores\<close>

definition new_order_id :: "new_order_cmd \<Rightarrow> uint64" where
  "new_order_id cmd = (case no_Order cmd of None \<Rightarrow> 0 | Some pb \<Rightarrow> p_OrderId pb)"

lemma OrderFromProto_id0: "new_order_id cmd = 0 \<Longrightarrow> \<exists>e. OrderFromProto L (no_Order cmd) = Inl e"
  by (auto simp: OrderFromProto_def new_order_id_def split: option.splits)

lemma fold_indexRecord:
  "fold (indexRecord E) rs seen = seen \<union>
     {k. k \<noteq> 0 \<and> (\<exists>r \<in> set rs. r_EventType r = EventTypeNewOrder \<and>
        (\<exists>cmd. unmarshal_new (env_cmd E) (r_Payload r) = Some cmd \<and> new_order_id cmd = k))}"
proof (induction rs arbitrary: seen)
  case Nil
  then show ?case by simp
next
  case (Cons r rs)
  have "indexRecord E r seen = seen \<union> {k. k \<noteq> 0 \<and> r_EventType r = EventTypeNewOrder \<and>
      (\<exists>cmd. unmarshal_new (env_cmd E) (r_Payload r) = Some cmd \<and> new_order_id cmd = k)}"
    by (auto simp: indexRecord_def new_order_id_def Let_def split: option.splits)
  with Cons show ?case by auto
qed

text \<open>What a record does when it is replayed: cancellations are applied, nothing else.\<close>

definition replay_cancel :: "('d::linordered_idom) env \<Rightarrow> wal_record \<Rightarrow> 'd shard \<Rightarrow> 'd shard" where
  "replay_cancel E r sh =
     (if r_EventType r = EventTypeCancelOrder then
        (case unmarshal_cancel (env_cmd E) (r_Payload r) of
           None \<Rightarrow> sh
         | Some cmd \<Rightarrow> snd (shard_Cancel (co_Symbol cmd) (co_OrderId cmd) sh))
      else sh)"

definition indexed :: "'d env \<Rightarrow> uint64 set \<Rightarrow> wal_record \<Rightarrow> bool" where
  "indexed E seen r \<longleftrightarrow> (\<forall>cmd. r_EventType r = EventTypeNewOrder \<longrightarrow>
     unmarshal_new (env_cmd E) (r_Payload r) = Some cmd \<longrightarrow> new_order_id cmd \<noteq> 0 \<longrightarrow> new_order_id cmd \<in> seen)"

lemma event_types [simp]: "EventTypeNewOrder \<noteq> EventTypeCancelOrder" "EventTypeCancelOrder \<noteq> EventTypeNewOrder"
  by (simp_all add: EventTypeNewOrder_def EventTypeCancelOrder_def)

lemma rec_applyNewOrder_id0: "new_order_id cmd = 0 \<Longrightarrow> \<exists>er st'. rec_applyNewOrder E cmd seq st = (Inl er, st')"
  using OrderFromProto_id0 [of cmd "env_libs E"] by (auto simp: rec_applyNewOrder_def)

lemma applyRecord_indexed:
  assumes ar: "applyRecord E r st = (None, st')" and ix: "indexed E (e_seen (fst st)) r"
    and sq: "e_snapshotSeq (fst st) < r_SeqID r"
  shows "fst st' = (fst st)\<lparr>e_shard := replay_cancel E r (e_shard (fst st))\<rparr> \<and> snd st' = snd st"
proof (cases "r_EventType r = EventTypeNewOrder")
  case True
  have na: "\<not> r_SeqID r \<le> e_snapshotSeq (fst st)" using sq by (simp add: not_le)
  obtain cmd where u: "unmarshal_new (env_cmd E) (r_Payload r) = Some cmd"
    using ar na True by (cases "unmarshal_new (env_cmd E) (r_Payload r)") (simp_all add: applyRecord_def)
  show ?thesis
  proof (cases "new_order_id cmd \<in> e_seen (fst st)")
    case t: True
    with True u ar na show ?thesis
      by (simp add: applyRecord_def replay_cancel_def new_order_id_def)
  next
    case False
    with ix True u have "new_order_id cmd = 0" by (auto simp: indexed_def)
    from rec_applyNewOrder_id0 [OF this, of E "r_SeqID r" st] False True u ar na show ?thesis
      by (auto simp: applyRecord_def new_order_id_def)
  qed
next
  case False
  have na: "\<not> r_SeqID r \<le> e_snapshotSeq (fst st)" using sq by (simp add: not_le)
  have c: "r_EventType r = EventTypeCancelOrder"
    using ar na False by (cases "r_EventType r = EventTypeCancelOrder") (simp_all add: applyRecord_def)
  obtain cmd where "unmarshal_cancel (env_cmd E) (r_Payload r) = Some cmd"
    using ar na c by (cases "unmarshal_cancel (env_cmd E) (r_Payload r)") (simp_all add: applyRecord_def)
  with c ar na show ?thesis by (auto simp: applyRecord_def replay_cancel_def Let_def split: prod.splits)
qed

lemma applyRecords_indexed:
  "applyRecords E rs st = (None, st') \<Longrightarrow> \<forall>r \<in> set rs. indexed E (e_seen (fst st)) r \<and> e_snapshotSeq (fst st) < r_SeqID r \<Longrightarrow>
     fst st' = (fst st)\<lparr>e_shard := fold (replay_cancel E) rs (e_shard (fst st))\<rparr> \<and> snd st' = snd st"
proof (induction rs arbitrary: st)
  case Nil
  then show ?case by simp
next
  case (Cons r rs)
  obtain st1 where s: "applyRecord E r st = (None, st1)" "applyRecords E rs st1 = (None, st')"
    using Cons.prems(1) by (auto split: prod.splits option.splits)
  have f: "fst st1 = (fst st)\<lparr>e_shard := replay_cancel E r (e_shard (fst st))\<rparr>" "snd st1 = snd st"
    using applyRecord_indexed [OF s(1)] Cons.prems(2) by auto
  have "fst st' = (fst st1)\<lparr>e_shard := fold (replay_cancel E) rs (e_shard (fst st1))\<rparr> \<and> snd st' = snd st1"
    by (rule Cons.IH [OF s(2)]) (use Cons.prems(2) f in simp)
  with f show ?case by simp
qed

lemma drain_from:
  "fst (drain (ReadFrom k d)) = filter (\<lambda>r. k < r_SeqID r) (fst (scan_segments (SegmentPaths d)))"
  "it_err (snd (drain (ReadFrom k d))) = snd (scan_segments (SegmentPaths d))"
  using drain_scan [of "ReadFrom k d"] by (auto simp: ReadFrom_def newIterator_def)

lemma drain_subset: "set (fst (drain (ReadFrom k d))) \<subseteq> set (fst (drain (ReadFrom 0 d)))"
proof -
  have "0 < x" if "k < x" for x :: uint64 using that order_le_less_trans word_zero_le by blast
  then show ?thesis by (auto simp: drain_from)
qed

lemma restoreSymbol_fields:
  assumes "restoreSymbol E snap st = (er, st')"
  shows "\<exists>sh. fst st' = (fst st)\<lparr>e_shard := sh\<rparr>" "g_disk (snd st') = g_disk (snd st)"
  using assms by (auto simp: restoreSymbol_def Let_def split: prod.splits option.splits)

lemma load_symbols_fields:
  "load_symbols E ss off st = (r, st') \<Longrightarrow>
     (\<exists>sh. fst st' = (fst st)\<lparr>e_shard := sh\<rparr>) \<and> g_disk (snd st') = g_disk (snd st)"
proof (induction E ss off st rule: load_symbols.induct)
  case (1 E off st)
  then show ?case by (auto intro: exI [of _ "e_shard (fst st)"])
next
  case (2 E s ss off st)
  show ?case
  proof (cases "LatestPath (e_snapRoot (fst st) @ [s]) (g_fs (snd st))")
    case None
    with 2 show ?thesis by simp
  next
    case (Some p)
    obtain x fs1 where l: "snap_Load (env_snap E) p (g_fs (snd st)) = (x, fs1)" by fastforce
    show ?thesis
    proof (cases x)
      case (Inl er)
      with 2(3) Some l show ?thesis by (auto intro: exI [of _ "e_shard (fst st)"])
    next
      case (Inr snap)
      obtain er st1 where rs: "restoreSymbol E snap (fst st, (snd st)\<lparr>g_fs := fs1\<rparr>) = (er, st1)" by (metis surj_pair)
      note f = restoreSymbol_fields [OF rs]
      show ?thesis
      proof (cases er)
        case None
        with 2(3) Some l Inr rs have "load_symbols E ss (if off < s_SeqId snap then s_SeqId snap else off) st1 = (r, st')"
          by simp
        from 2(2) [OF Some l [symmetric] Inr rs [symmetric] None this] f show ?thesis by auto
      next
        case (Some y)
        with 2(3) \<open>LatestPath _ _ = Some p\<close> l Inr rs f show ?thesis by auto
      qed
    qed
  qed
qed

lemma loadSnapshots_load:
  assumes "loadSnapshots E (e, g) = (Inr off, e1, g1)"
  obtains m fs1 fs2 dirs e2 where "LoadManifest (env_snap E) (e_manifest e) (g_fs g) = (m, fs1)"
    "listSymbolDirs (e_snapRoot e) fs1 = (Inr dirs, fs2)"
    "load_symbols E dirs (case m of Inl _ \<Rightarrow> 0 | Inr x \<Rightarrow> mf_RecoveredOffset x) (e, g\<lparr>g_fs := fs2\<rparr>) = (Inr off, e2, g1)"
    "e_shard e1 = e_shard e2" "e_seen e1 = e_seen e2" "e_wal e1 = e_wal e2" "e_pending e1 = e_pending e2"
    "e_snapshotSeq e1 = off"
proof -
  obtain m fs1 where m: "LoadManifest (env_snap E) (e_manifest e) (g_fs g) = (m, fs1)" by fastforce
  obtain ds fs2 where d: "listSymbolDirs (e_snapRoot e) fs1 = (ds, fs2)" by fastforce
  let ?off = "case m of Inl _ \<Rightarrow> 0 | Inr x \<Rightarrow> mf_RecoveredOffset x"
  have nm: "\<not> (\<exists>x. m = Inl x \<and> x \<noteq> ErrNotFound)"
  proof
    assume "\<exists>x. m = Inl x \<and> x \<noteq> ErrNotFound"
    then obtain x where "m = Inl x" "x \<noteq> ErrNotFound" by blast
    with assms m show False by (simp add: loadSnapshots_def Let_def)
  qed
  have o: "(case (case m of Inl x \<Rightarrow> None | Inr x \<Rightarrow> Some x) of None \<Rightarrow> 0 | Some x \<Rightarrow> mf_RecoveredOffset x) = ?off"
    by (cases m) simp_all
  obtain dirs where ds: "ds = Inr dirs"
    using assms unfolding loadSnapshots_def Let_def prod.case m d if_not_P [OF nm] by (cases ds) simp_all
  obtain r e2 g2 where l: "load_symbols E dirs ?off (e, g\<lparr>g_fs := fs2\<rparr>) = (r, e2, g2)" by (metis prod_cases3)
  have g: "g\<lparr>g_fs := fs1, g_fs := fs2\<rparr> = g\<lparr>g_fs := fs2\<rparr>" by simp
  have "r = Inr off \<and> g2 = g1 \<and> e_shard e1 = e_shard e2 \<and> e_seen e1 = e_seen e2 \<and> e_wal e1 = e_wal e2 \<and>
      e_pending e1 = e_pending e2 \<and> e_snapshotSeq e1 = off"
    using assms unfolding loadSnapshots_def Let_def prod.case m d if_not_P [OF nm] ds sum.case o g l
    by (cases r) auto
  with m d ds l that show thesis by simp
qed

lemma loadSnapshots_fields:
  assumes "loadSnapshots E (e, g) = (Inr off, e1, g1)"
  shows "e_snapshotSeq e1 = off" "e_seen e1 = e_seen e" "g_disk g1 = g_disk g" "e_wal e1 = e_wal e" "e_pending e1 = e_pending e"
proof -
  obtain m fs1 fs2 dirs e2 where f: "LoadManifest (env_snap E) (e_manifest e) (g_fs g) = (m, fs1)"
    "listSymbolDirs (e_snapRoot e) fs1 = (Inr dirs, fs2)"
    "load_symbols E dirs (case m of Inl _ \<Rightarrow> 0 | Inr x \<Rightarrow> mf_RecoveredOffset x) (e, g\<lparr>g_fs := fs2\<rparr>) = (Inr off, e2, g1)"
    "e_shard e1 = e_shard e2" "e_seen e1 = e_seen e2" "e_wal e1 = e_wal e2" "e_pending e1 = e_pending e2"
    "e_snapshotSeq e1 = off" by (rule loadSnapshots_load [OF assms])
  obtain sh where "e2 = e\<lparr>e_shard := sh\<rparr>" "g_disk g1 = g_disk g" using load_symbols_fields [OF f(3)] by auto
  with f show "e_snapshotSeq e1 = off" "e_seen e1 = e_seen e" "g_disk g1 = g_disk g" "e_wal e1 = e_wal e" "e_pending e1 = e_pending e"
    by simp_all
qed

lemma recover_shard:
  assumes rc: "recover E (e, g) = (None, e', g')" and ld: "loadSnapshots E (e, g) = (Inr off, e1, g1)"
  shows "e_shard e' = fold (replay_cancel E) (fst (drain (ReadFrom off (g_disk g)))) (e_shard e1)"
    and "e_seen e' = fold (indexRecord E) (fst (drain (ReadFrom 0 (g_disk g)))) (e_seen e)"
    and "g_disk g' = g_disk g" "e_wal e' = e_wal e" "e_recovered e' = w_lastSeq (e_wal e)" "e_snapshotSeq e' = off"
proof -
  note f = loadSnapshots_fields [OF ld]
  obtain rs it0 where d0: "drain (ReadFrom 0 (g_disk g)) = (rs, it0)" by fastforce
  obtain tail it1 where d1: "drain (ReadFrom off (g_disk g)) = (tail, it1)" by fastforce
  define e2 where "e2 = e1\<lparr>e_seen := fold (indexRecord E) rs (e_seen e)\<rparr>"
  obtain r3 e3 g3 where ap: "applyRecords E tail (e2, g1) = (r3, e3, g3)" by (metis prod_cases3)
  have b: "buildSeenFromWAL E (e1, g1) = (it_err it0, e2, g1)"
    using d0 f by (simp add: buildSeenFromWAL_def e2_def)
  have r: "replayWAL E off (e2, g1) = (case r3 of Some er \<Rightarrow> (Some er, e3, g3) | None \<Rightarrow> (it_err it1, e3, g3))"
    using d1 f ap by (simp add: replayWAL_def)
  have res: "r3 = None" "e' = e3\<lparr>e_recovered := w_lastSeq (e_wal e3)\<rparr>" "g' = g3"
    using rc unfolding recover_def ld by (auto simp: b r split: option.splits)
  have "indexed E (e_seen (fst (e2, g1))) x \<and> e_snapshotSeq (fst (e2, g1)) < r_SeqID x" if "x \<in> set tail" for x
  proof
    have "x \<in> set rs" using that drain_subset [of off "g_disk g"] d0 d1 by auto
    then show "indexed E (e_seen (fst (e2, g1))) x" by (auto simp: indexed_def fold_indexRecord e2_def)
    have "off < r_SeqID x" using that drain_from(1) [of off "g_disk g"] d1 by simp
    then show "e_snapshotSeq (fst (e2, g1)) < r_SeqID x" using f(1) by (simp add: e2_def)
  qed
  with applyRecords_indexed [OF ap [unfolded res(1)]] have
    "e3 = e2\<lparr>e_shard := fold (replay_cancel E) tail (e_shard e1)\<rparr>" "g3 = g1" by (auto simp: e2_def)
  with res f d0 d1 show "e_shard e' = fold (replay_cancel E) (fst (drain (ReadFrom off (g_disk g)))) (e_shard e1)"
    "e_seen e' = fold (indexRecord E) (fst (drain (ReadFrom 0 (g_disk g)))) (e_seen e)"
    "g_disk g' = g_disk g" "e_wal e' = e_wal e" "e_recovered e' = w_lastSeq (e_wal e)" "e_snapshotSeq e' = off"
    by (simp_all add: e2_def)
qed

text \<open>Cancellations only take orders away.\<close>

definition book_orders :: "'d order_book \<Rightarrow> 'd order set" where
  "book_orders b = {x. \<exists>w. x \<in> set (book_list w b)}"

definition resting :: "'d shard \<Rightarrow> string \<Rightarrow> 'd order set" where
  "resting sh s = (case sh s of None \<Rightarrow> {} | Some se \<Rightarrow> book_orders (se_OrderBook se))"

lemma RemoveOrder_subset: "book_orders (RemoveOrder k b) \<subseteq> book_orders b"
  using RemoveOrder_all [of "\<lambda>x. x \<in> book_orders b" b k] by (auto simp: all_orders_def book_orders_def)

lemma resting_cancel: "resting (snd (shard_Cancel s k sh)) t \<subseteq> resting sh t"
proof -
  have "book_orders (NewOrderBook s) = {}" for s
    by (simp add: book_orders_def NewOrderBook_def ex_book_side all_book_side)
  then have "book_orders (RemoveOrder k (NewOrderBook s)) = {}" for s using RemoveOrder_subset by blast
  then show ?thesis using RemoveOrder_subset [of k]
    by (auto simp: shard_Cancel_def shard_Symbol_def resting_def se_Cancel_def Let_def NewSymbolEngine_def
        split: option.splits if_splits)
qed

lemma resting_replay: "resting (fold (replay_cancel E) rs sh) t \<subseteq> resting sh t"
proof (induction rs arbitrary: sh)
  case Nil
  then show ?case by simp
next
  case (Cons r rs)
  have "resting (replay_cancel E r sh) t \<subseteq> resting sh t"
    by (simp add: replay_cancel_def resting_cancel split: option.splits)
  with Cons [of "replay_cancel E r sh"] show ?case by auto
qed

end
