(* ===== verification/RecoveryDurable.thy ===== *)
theory RecoveryDurable
  imports Recovery
begin

text \<open>
  What the engine of theory \<open>Recovery\<close> guarantees: no command changes the books before its
  record is durable, what a batch may contain, and what is left of the books after a
  restart.
\<close>

section \<open>Fields an operation leaves alone\<close>

lemma wal_state_simps [simp]:
  "wal_state (set_wal_state ws st) = ws"
  "e_shard (fst (set_wal_state ws st)) = e_shard (fst st)"
  "e_seen (fst (set_wal_state ws st)) = e_seen (fst st)"
  "e_pending (fst (set_wal_state ws st)) = e_pending (fst st)"
  "fst (tick st) = fst st" "g_disk (snd (tick st)) = g_disk (snd st)"
  "wal_state (push_item x st) = wal_state st"
  "e_pending (fst (push_item x st)) = e_pending (fst st) @ [x]"
  "e_shard (fst (push_item x st)) = e_shard (fst st)"
  "e_seen (fst (push_item x st)) = e_seen (fst st)"
  by (simp_all add: wal_state_def set_wal_state_def tick_def push_item_def)

lemma write_symbols_fields:
  "write_symbols E seq ss m st = (er, m', st') \<Longrightarrow> fst st' = fst st \<and> g_disk (snd st') = g_disk (snd st)"
  by (induction E seq ss m st rule: write_symbols.induct)
    (auto simp: Let_def split: option.splits prod.splits)

text \<open>Engines that differ at most in the record of the last snapshot.\<close>

definition same_engine :: "'d engine \<Rightarrow> 'd engine \<Rightarrow> bool" where
  "same_engine e e' \<longleftrightarrow>
     e\<lparr>e_snapshotSeq := 0, e_lastSnapshotAt := 0\<rparr> = e'\<lparr>e_snapshotSeq := 0, e_lastSnapshotAt := 0\<rparr>"

lemma same_engine_simps [simp]: "same_engine e e" "same_engine (e\<lparr>e_snapshotSeq := n, e_lastSnapshotAt := t\<rparr>) e"
  by (simp_all add: same_engine_def)

lemma same_engine_fields:
  assumes "same_engine e e'"
  shows "e_shard e = e_shard e'" "e_wal e = e_wal e'" "e_seen e = e_seen e'" "e_pending e = e_pending e'"
    "e_recovered e = e_recovered e'" "e_cfg e = e_cfg e'" "e_snapRoot e = e_snapRoot e'" "e_manifest e = e_manifest e'"
proof -
  have *: "f (e\<lparr>e_snapshotSeq := 0, e_lastSnapshotAt := 0\<rparr>) = f (e'\<lparr>e_snapshotSeq := 0, e_lastSnapshotAt := 0\<rparr>)" for f :: "_ \<Rightarrow> 'z"
    using assms by (simp add: same_engine_def)
  show "e_shard e = e_shard e'" using * [of e_shard] by simp
  show "e_wal e = e_wal e'" using * [of e_wal] by simp
  show "e_seen e = e_seen e'" using * [of e_seen] by simp
  show "e_pending e = e_pending e'" using * [of e_pending] by simp
  show "e_recovered e = e_recovered e'" using * [of e_recovered] by simp
  show "e_cfg e = e_cfg e'" using * [of e_cfg] by simp
  show "e_snapRoot e = e_snapRoot e'" using * [of e_snapRoot] by simp
  show "e_manifest e = e_manifest e'" using * [of e_manifest] by simp
qed

lemma writeSnapshots_fields:
  assumes "writeSnapshots E seq st = (er, st')"
  shows "same_engine (fst st') (fst st) \<and> g_disk (snd st') = g_disk (snd st)"
proof -
  obtain e g where st: "st = (e, g)" by fastforce
  obtain t0 clk0 where n: "now (g_clk g) = (t0, clk0)" by (metis surj_pair)
  obtain x m e1 g1 where w: "write_symbols E seq (env_order E (shard_Symbols (e_shard e))) Map.empty (e, g\<lparr>g_clk := clk0\<rparr>)
      = (x, m, e1, g1)" by (metis prod_cases4)
  have f: "e1 = e" "g_disk g1 = g_disk g" using write_symbols_fields [OF w] by simp_all
  have "same_engine (fst st') e \<and> g_disk (snd st') = g_disk g"
    using assms unfolding writeSnapshots_def st prod.case Let_def n w
    by (cases x) (use f in \<open>auto split: prod.splits option.splits\<close>)
  then show ?thesis by (simp add: st)
qed

lemma maybeSnapshot_fields:
  "same_engine (fst (snd (maybeSnapshot E seq st))) (fst st) \<and> g_disk (snd (snd (maybeSnapshot E seq st))) = g_disk (snd st)"
proof -
  obtain er st' where "writeSnapshots E seq st = (er, st')" by (metis surj_pair)
  from this writeSnapshots_fields [OF this] show ?thesis by (simp add: maybeSnapshot_def)
qed

lemma maybeSnapshot_keeps [simp]:
  "e_shard (fst (snd (maybeSnapshot E seq st))) = e_shard (fst st)"
  "e_wal (fst (snd (maybeSnapshot E seq st))) = e_wal (fst st)"
  "e_seen (fst (snd (maybeSnapshot E seq st))) = e_seen (fst st)"
  "e_pending (fst (snd (maybeSnapshot E seq st))) = e_pending (fst st)"
  "e_recovered (fst (snd (maybeSnapshot E seq st))) = e_recovered (fst st)"
  "g_disk (snd (snd (maybeSnapshot E seq st))) = g_disk (snd st)"
  using maybeSnapshot_fields [of E seq st] same_engine_fields by metis+

lemma rec_applyNewOrder_fields:
  assumes "rec_applyNewOrder E cmd seq st = (r, st')"
  shows "e_wal (fst st') = e_wal (fst st)" "g_disk (snd st') = g_disk (snd st)"
    "e_pending (fst st') = e_pending (fst st)"
  using assms by (auto simp: rec_applyNewOrder_def Let_def split: sum.splits prod.splits)

section \<open>The log comes first\<close>

text \<open>What a crash may leave of the log depends on the disk only.\<close>

definition log_survives :: "'d state \<Rightarrow> wal_record set \<Rightarrow> bool" where
  "log_survives st R \<longleftrightarrow> (\<exists>d. crash (g_disk (snd st)) d \<and> R = set (read_back d))"

lemma log_survives_wal: "log_survives st R \<longleftrightarrow> wal_survives (wal_state st) R"
  by (simp add: log_survives_def wal_survives_def wal_state_def)

lemma log_inv_tick: "log_inv hist (wal_state st) \<Longrightarrow> log_inv hist (wal_state (tick st))"
  by (auto simp: log_inv_def wal_inv_def wal_state_def tick_def)

lemma log_inv_each_tick: "log_inv_each hist (wal_state st) \<Longrightarrow> log_inv_each hist (wal_state (tick st))"
  using log_inv_tick [of hist st] by (simp add: log_inv_each_def) (simp add: wal_state_def)

lemma applyNewOrderImmediate_cases:
  assumes "applyNewOrderImmediate E (Some cmd) st = (r, st')"
  obtains (refused) "e_shard (fst st') = e_shard (fst st)" "\<And>tr. r = Inr tr \<Longrightarrow> new_order_id cmd \<in> e_seen (fst st)"
  | (logged) payload seq ws where "marshal_new (env_cmd E) cmd = Some payload"
      "AppendNext EventTypeNewOrder payload (wal_state (tick st)) = (Inr seq, ws)"
      "g_disk (snd st') = fst (snd ws)" "e_wal (fst st') = fst ws"
      "\<And>tr. r = Inr tr \<Longrightarrow> e_recovered (fst st') = seq"
proof (cases "\<exists>pb. no_Order cmd = Some pb \<and> \<not> IsReadOnly (e_shard (fst st)) (p_Symbol pb) \<and> p_OrderId pb \<noteq> 0 \<and>
    p_OrderId pb \<notin> e_seen (fst st) \<and> marshal_new (env_cmd E) cmd \<noteq> None")
  case False
  with assms have "e_shard (fst st') = e_shard (fst st)" "\<And>tr. r = Inr tr \<Longrightarrow> new_order_id cmd \<in> e_seen (fst st)"
    by (auto simp: applyNewOrderImmediate_def new_order_id_def split: option.splits if_splits)
  then show thesis by (rule refused)
next
  case True
  then obtain pb payload where p: "no_Order cmd = Some pb" "\<not> IsReadOnly (e_shard (fst st)) (p_Symbol pb)"
    "p_OrderId pb \<noteq> 0" "p_OrderId pb \<notin> e_seen (fst st)" "marshal_new (env_cmd E) cmd = Some payload" by blast
  obtain a ws where ap: "AppendNext EventTypeNewOrder payload (wal_state (tick st)) = (a, ws)" by (metis surj_pair)
  show thesis
  proof (cases a)
    case (Inl er)
    with assms p ap have "r = Inl er" "st' = set_wal_state ws (tick st)"
      by (simp_all add: applyNewOrderImmediate_def Let_def)
    then show thesis by (intro refused) simp_all
  next
    case (Inr seq)
    obtain x e2 g2 where rn: "rec_applyNewOrder E cmd seq (set_wal_state ws (tick st)) = (x, e2, g2)" by (metis prod_cases3)
    have res: "(r, st') = (case x of Inl er \<Rightarrow> (Inl er, e2, g2)
        | Inr tr \<Rightarrow> (Inr tr, snd (maybeSnapshot E seq (e2\<lparr>e_recovered := seq\<rparr>, g2))))"
      using assms p ap Inr rn by (auto simp: applyNewOrderImmediate_def Let_def split: sum.splits)
    have f: "e_wal e2 = fst ws" "g_disk g2 = fst (snd ws)"
      using rec_applyNewOrder_fields [OF rn] by (simp_all add: set_wal_state_def)
    show thesis
      by (rule logged [OF p(5) ap [unfolded Inr]])
        (use res f in \<open>auto split: sum.splits\<close>)
  qed
qed

lemma new_order_logged:
  assumes K: "cmd_codec_ok (env_cmd E)" and inv: "log_inv_each hist (wal_state st)"
    and ap: "ApplyNewOrder E (Some cmd) st = (r, st')" and sv: "log_survives st' R"
    and ch: "e_shard (fst st') \<noteq> e_shard (fst st) \<or> (\<exists>tr. r = Inr tr \<and> new_order_id cmd \<notin> e_seen (fst st))"
  shows "\<exists>x \<in> R. r_EventType x = EventTypeNewOrder \<and> unmarshal_new (env_cmd E) (r_Payload x) = Some cmd \<and>
    (\<forall>tr. r = Inr tr \<longrightarrow> r_SeqID x = e_recovered (fst st'))"
proof -
  have ng: "\<not> GroupCommitEnabled (w_cfg (e_wal (fst st)))" using inv by (simp add: log_inv_each_def wal_state_def)
  then have "applyNewOrderImmediate E (Some cmd) st = (r, st')" using ap by (simp add: ApplyNewOrder_def)
  then show ?thesis
  proof (cases rule: applyNewOrderImmediate_cases)
    case refused
    with ch show ?thesis by auto
  next
    case (logged payload seq ws)
    have a: "wal_append (EventTypeNewOrder, payload) (wal_state (tick st)) = (Inr seq, ws)"
      using logged(2) by (simp add: wal_append_def)
    have s: "wal_survives ws R" using sv logged(3) by (simp add: log_survives_def wal_survives_def)
    obtain x where x: "x \<in> R" "r_SeqID x = seq" "r_EventType x = EventTypeNewOrder" "r_Payload x = payload"
      using each.append_survives [OF log_inv_each_tick [OF inv] a s] by auto
    have u: "unmarshal_new (env_cmd E) payload = Some cmd" using K logged(1) by (simp add: cmd_codec_ok_def)
    show ?thesis by (rule bexI [of _ x]) (use x u logged(5) in auto)
  qed
qed

lemma cancel_logged:
  assumes K: "cmd_codec_ok (env_cmd E)" and inv: "log_inv_each hist (wal_state st)"
    and ap: "ApplyCancel E (Some cmd) st = (er, st')" and sv: "log_survives st' R"
    and ch: "e_shard (fst st') \<noteq> e_shard (fst st) \<or> er = None"
  shows "\<exists>x \<in> R. r_EventType x = EventTypeCancelOrder \<and> unmarshal_cancel (env_cmd E) (r_Payload x) = Some cmd"
proof -
  have "\<not> GroupCommitEnabled (w_cfg (e_wal (fst st)))" using inv by (simp add: log_inv_each_def wal_state_def)
  then have ai: "applyCancelImmediate E (Some cmd) st = (er, st')" using ap by (simp add: ApplyCancel_def)
  with ch have nz: "\<not> (co_Symbol cmd = [] \<or> co_OrderId cmd = 0)" by (auto simp: applyCancelImmediate_def)
  then obtain payload where m: "marshal_cancel (env_cmd E) cmd = Some payload"
    using ai ch by (cases "marshal_cancel (env_cmd E) cmd") (auto simp: applyCancelImmediate_def)
  obtain a ws where an: "AppendNext EventTypeCancelOrder payload (wal_state (tick st)) = (a, ws)" by (metis surj_pair)
  obtain seq where a: "a = Inr seq"
    using ai ch nz m an by (cases a) (auto simp: applyCancelImmediate_def Let_def)
  have d: "g_disk (snd st') = fst (snd ws)"
    using ai nz m an a by (auto simp: applyCancelImmediate_def Let_def set_wal_state_def split: prod.splits option.splits)
  have ap: "wal_append (EventTypeCancelOrder, payload) (wal_state (tick st)) = (Inr seq, ws)"
    using an a by (simp add: wal_append_def)
  have s: "wal_survives ws R" using sv d by (simp add: log_survives_def wal_survives_def)
  obtain x where x: "x \<in> R" "r_EventType x = EventTypeCancelOrder" "r_Payload x = payload"
    using each.append_survives [OF log_inv_each_tick [OF inv] ap s] by auto
  have "unmarshal_cancel (env_cmd E) payload = Some cmd" using K m by (simp add: cmd_codec_ok_def)
  with x show ?thesis by auto
qed

section \<open>Batches\<close>

text \<open>The record a staged item stands for is among \<open>X\<close>.\<close>

definition item_logged :: "'d env \<Rightarrow> wal_record set \<Rightarrow> staged_item \<Rightarrow> bool" where
  "item_logged E X item =
     (case item of
        StagedNewOrder cmd seq dup ro \<Rightarrow> dup \<or> ro \<or>
          (\<exists>x \<in> X. r_SeqID x = seq \<and> 0 < seq \<and> r_EventType x = EventTypeNewOrder \<and>
             unmarshal_new (env_cmd E) (r_Payload x) = Some cmd)
      | StagedCancel cmd seq \<Rightarrow>
          (\<exists>x \<in> X. r_SeqID x = seq \<and> 0 < seq \<and> r_EventType x = EventTypeCancelOrder \<and>
             unmarshal_cancel (env_cmd E) (r_Payload x) = Some cmd))"

lemma item_logged_mono: "item_logged E X i \<Longrightarrow> X \<subseteq> Y \<Longrightarrow> item_logged E Y i"
  by (auto simp: item_logged_def split: staged_item.splits)

lemma item_logged_pos:
  "item_logged E X i \<Longrightarrow> (\<And>x. x \<in> X \<Longrightarrow> 0 < r_SeqID x \<Longrightarrow> x \<in> Y) \<Longrightarrow> item_logged E Y i"
  by (auto simp: item_logged_def split: staged_item.splits)

definition staged_inv :: "'d env \<Rightarrow> wal_record list \<Rightarrow> 'd state \<Rightarrow> bool" where
  "staged_inv E hist st \<longleftrightarrow>
     log_inv hist (wal_state st) \<and> (\<forall>i \<in> set (e_pending (fst st)). item_logged E (set hist) i)"

lemma staged_inv_push:
  assumes i: "staged_inv E hist st" and ap: "AppendNext et p (wal_state st) = (Inr seq, ws)"
    and it: "\<And>x. is_rec seq et p x \<Longrightarrow> 0 < seq \<Longrightarrow> item_logged E {x} item"
  shows "\<exists>new. staged_inv E (hist @ new) (push_item item (set_wal_state ws st))"
proof -
  have a: "wal_append (et, p) (wal_state st) = (Inr seq, ws)" using ap by (simp add: wal_append_def)
  obtain x where x: "log_inv (hist @ [x]) ws" "r_SeqID x = seq" "(r_EventType x, r_Payload x) = (et, p)" "0 < seq"
    using log.append_Inr [OF _ a] i unfolding staged_inv_def by blast
  have "item_logged E {x} item" by (rule it) (use x in \<open>auto simp: is_rec_def\<close>)
  then have "item_logged E (set (hist @ [x])) item" by (rule item_logged_mono) simp
  moreover have "\<forall>j \<in> set (e_pending (fst st)). item_logged E (set (hist @ [x])) j"
    using i item_logged_mono [of E "set hist" _ "set (hist @ [x])"] by (auto simp: staged_inv_def)
  ultimately have "staged_inv E (hist @ [x]) (push_item item (set_wal_state ws st))"
    using x(1) by (simp add: staged_inv_def)
  then show ?thesis by blast
qed

lemma staged_inv_failed:
  assumes "staged_inv E hist st" and "AppendNext et p (wal_state st) = (Inl er, ws)"
  shows "\<exists>new. staged_inv E (hist @ new) (set_wal_state ws st)"
proof -
  have "wal_append (et, p) (wal_state st) = (Inl er, ws)" using assms(2) by (simp add: wal_append_def)
  then obtain new where "log_inv (hist @ new) ws"
    using log.append_step assms(1) unfolding staged_inv_def by blast
  with assms(1) item_logged_mono [of E "set hist" _ "set (hist @ new)"] have "staged_inv E (hist @ new) (set_wal_state ws st)"
    by (auto simp: staged_inv_def)
  then show ?thesis by blast
qed

lemma staged_inv_skip:
  "staged_inv E hist st \<Longrightarrow> dup \<or> ro \<Longrightarrow> staged_inv E hist (push_item (StagedNewOrder cmd 0 dup ro) st)"
  by (auto simp: staged_inv_def item_logged_def)

lemma StageNewOrder_inv:
  assumes K: "cmd_codec_ok (env_cmd E)" and i: "staged_inv E hist st" and sg: "StageNewOrder E cmdo st = (er, st')"
  shows "\<exists>new. staged_inv E (hist @ new) st'"
proof -
  have keep: "\<exists>new. staged_inv E (hist @ new) st" using i by (intro exI [of _ "[]"]) simp
  have skip: "\<exists>new. staged_inv E (hist @ new) (push_item (StagedNewOrder cmd 0 dup ro) st)" if "dup \<or> ro" for cmd dup ro
    using staged_inv_skip [OF i that] by (intro exI [of _ "[]"]) simp
  show ?thesis
  proof (cases "\<exists>cmd pb payload. cmdo = Some cmd \<and> no_Order cmd = Some pb \<and> \<not> IsReadOnly (e_shard (fst st)) (p_Symbol pb) \<and>
      p_OrderId pb \<noteq> 0 \<and> p_OrderId pb \<notin> e_seen (fst st) \<and> marshal_new (env_cmd E) cmd = Some payload")
    case False
    with sg keep skip show ?thesis
      by (auto simp: StageNewOrder_def split: option.splits if_splits)
  next
    case True
    then obtain cmd pb payload where c: "cmdo = Some cmd" "no_Order cmd = Some pb"
      "\<not> IsReadOnly (e_shard (fst st)) (p_Symbol pb)" "p_OrderId pb \<noteq> 0" "p_OrderId pb \<notin> e_seen (fst st)"
      "marshal_new (env_cmd E) cmd = Some payload" by blast
    obtain a ws where an: "AppendNext EventTypeNewOrder payload (wal_state st) = (a, ws)" by (metis surj_pair)
    have u: "unmarshal_new (env_cmd E) payload = Some cmd" using K c(6) by (simp add: cmd_codec_ok_def)
    show ?thesis
    proof (cases a)
      case (Inl x)
      with sg c an have "st' = set_wal_state ws st" by (simp add: StageNewOrder_def)
      with staged_inv_failed [OF i an [unfolded Inl]] show ?thesis by simp
    next
      case (Inr seq)
      with sg c an have "st' = push_item (StagedNewOrder cmd seq False False) (set_wal_state ws st)"
        by (simp add: StageNewOrder_def)
      with staged_inv_push [OF i an [unfolded Inr], of "StagedNewOrder cmd seq False False"] u show ?thesis
        by (simp add: item_logged_def is_rec_def)
    qed
  qed
qed

lemma StageCancel_inv:
  assumes K: "cmd_codec_ok (env_cmd E)" and i: "staged_inv E hist st" and sg: "StageCancel E cmdo st = (er, st')"
  shows "\<exists>new. staged_inv E (hist @ new) st'"
proof -
  have keep: "\<exists>new. staged_inv E (hist @ new) st" using i by (intro exI [of _ "[]"]) simp
  show ?thesis
  proof (cases "\<exists>cmd payload. cmdo = Some cmd \<and> \<not> (co_Symbol cmd = [] \<or> co_OrderId cmd = 0) \<and>
      marshal_cancel (env_cmd E) cmd = Some payload")
    case False
    with sg keep show ?thesis by (auto simp: StageCancel_def split: option.splits if_splits)
  next
    case True
    then obtain cmd payload where c: "cmdo = Some cmd" "\<not> (co_Symbol cmd = [] \<or> co_OrderId cmd = 0)"
      "marshal_cancel (env_cmd E) cmd = Some payload" by blast
    obtain a ws where an: "AppendNext EventTypeCancelOrder payload (wal_state st) = (a, ws)" by (metis surj_pair)
    have u: "unmarshal_cancel (env_cmd E) payload = Some cmd" using K c(3) by (simp add: cmd_codec_ok_def)
    show ?thesis
    proof (cases a)
      case (Inl x)
      with sg c an have "st' = set_wal_state ws st" by (simp add: StageCancel_def)
      with staged_inv_failed [OF i an [unfolded Inl]] show ?thesis by simp
    next
      case (Inr seq)
      with sg c an have "st' = push_item (StagedCancel cmd seq) (set_wal_state ws st)"
        by (simp add: StageCancel_def)
      with staged_inv_push [OF i an [unfolded Inr], of "StagedCancel cmd seq"] u show ?thesis
        by (simp add: item_logged_def is_rec_def)
    qed
  qed
qed

text \<open>A batch: commands staged in turn.\<close>

datatype command = NewOrder new_order_cmd | CancelOrder cancel_cmd

definition stage :: "('d::linordered_idom) env \<Rightarrow> command \<Rightarrow> 'd state \<Rightarrow> err option \<times> 'd state" where
  "stage E c st = (case c of NewOrder n \<Rightarrow> StageNewOrder E (Some n) st | CancelOrder x \<Rightarrow> StageCancel E (Some x) st)"

fun stage_all :: "('d::linordered_idom) env \<Rightarrow> command list \<Rightarrow> 'd state \<Rightarrow> err option \<times> 'd state" where
  "stage_all E [] st = (None, st)"
| "stage_all E (c # cs) st =
     (case stage E c st of (Some er, st1) \<Rightarrow> (Some er, st1) | (None, st1) \<Rightarrow> stage_all E cs st1)"

lemma stage_all_inv:
  "cmd_codec_ok (env_cmd E) \<Longrightarrow> staged_inv E hist st \<Longrightarrow> stage_all E cs st = (er, st') \<Longrightarrow>
     \<exists>new. staged_inv E (hist @ new) st'"
proof (induction cs arbitrary: hist st)
  case Nil
  then show ?case by (intro exI [of _ "[]"]) simp
next
  case (Cons c cs)
  obtain e1 st1 where s: "stage E c st = (e1, st1)" by (metis surj_pair)
  obtain new where n: "staged_inv E (hist @ new) st1"
  proof (cases c)
    case (NewOrder n)
    from StageNewOrder_inv [OF Cons.prems(1,2), of "Some n" e1 st1] s NewOrder that show ?thesis by (auto simp: stage_def)
  next
    case (CancelOrder x)
    from StageCancel_inv [OF Cons.prems(1,2), of "Some x" e1 st1] s CancelOrder that show ?thesis by (auto simp: stage_def)
  qed
  show ?case
  proof (cases e1)
    case None
    with Cons.prems(3) s have "stage_all E cs st1 = (er, st')" by simp
    from Cons.IH [OF Cons.prems(1) n this] show ?thesis by (metis append.assoc)
  next
    case (Some x)
    with Cons.prems(3) s n show ?thesis by auto
  qed
qed

lemma commit_item_fields:
  assumes "commit_item E i st = (r, st')"
  shows "g_disk (snd st') = g_disk (snd st) \<and> e_wal (fst st') = e_wal (fst st)"
proof (cases i)
  case (StagedNewOrder cmd seq dup ro)
  obtain x e1 g1 where a: "rec_applyNewOrder E cmd seq st = (x, e1, g1)" by (metis prod_cases3)
  from rec_applyNewOrder_fields [OF a] assms StagedNewOrder a show ?thesis
    by (auto simp: commit_item_def split: if_splits sum.splits)
next
  case (StagedCancel cmd seq)
  with assms show ?thesis by (auto simp: commit_item_def Let_def split: prod.splits option.splits)
qed

lemma commit_items_fields:
  "commit_items E its st = (r, st') \<Longrightarrow> g_disk (snd st') = g_disk (snd st) \<and> e_wal (fst st') = e_wal (fst st)"
proof (induction its arbitrary: st r st')
  case Nil
  then show ?case by simp
next
  case (Cons i its)
  obtain a st1 where s: "commit_item E i st = (a, st1)" by (metis surj_pair)
  obtain b st2 where t: "commit_items E its st1 = (b, st2)" by (metis surj_pair)
  from Cons.prems s t Cons.IH [OF t] commit_item_fields [OF s] show ?case by (auto split: sum.splits)
qed

lemma batch_logged:
  assumes i: "staged_inv E hist st" and gc: "GroupCommitEnabled (w_cfg (e_wal (fst st)))"
    and cb: "CommitBatch E st = (r, st')" and ch: "(\<exists>ocs. r = Inr ocs) \<or> e_shard (fst st') \<noteq> e_shard (fst st)"
    and sv: "log_survives st' R" and it: "item \<in> set (e_pending (fst st))"
  shows "item_logged E R item"
proof -
  obtain x ws where sy: "wal_Sync (wal_state (tick st)) = (x, ws)" by (metis surj_pair)
  have inv: "log_inv hist (wal_state (tick st))" using i log_inv_tick [of hist st] by (simp add: staged_inv_def)
  let ?st = "set_wal_state ws (tick st)"
  have ne: "e_pending (fst st) \<noteq> []" using it by auto
  show ?thesis
  proof (cases x)
    case (Some er)
    with cb ne gc sy have "r = Inl er" "st' = ?st" by (simp_all add: CommitBatch_def)
    with ch show ?thesis by simp
  next
    case None
    obtain y e2 g2 where c: "commit_items E (e_pending (fst st)) ?st = (y, e2, g2)" by (metis prod_cases3)
    have "g_disk (snd st') = g_disk g2"
      using cb ne gc sy None c by (auto simp: CommitBatch_def split: sum.splits)
    then have "g_disk (snd st') = fst (snd ws)" using commit_items_fields [OF c] by (simp add: set_wal_state_def)
    then have "wal_survives ws R" using sv by (simp add: log_survives_def wal_survives_def)
    then have "x \<in> R" if "x \<in> set hist" "0 < r_SeqID x" for x
      using log.sync_survives [OF inv sy [unfolded None] _ that] by blast
    with i it item_logged_pos show ?thesis unfolding staged_inv_def by metis
  qed
qed

section \<open>Properties\<close>

definition apply_command :: "('d::linordered_idom) env \<Rightarrow> command \<Rightarrow> 'd state \<Rightarrow> err option \<times> 'd state" where
  "apply_command E c st =
     (case c of
        NewOrder n \<Rightarrow> (case ApplyNewOrder E (Some n) st of (Inl e, st') \<Rightarrow> (Some e, st') | (Inr _, st') \<Rightarrow> (None, st'))
      | CancelOrder x \<Rightarrow> ApplyCancel E (Some x) st)"

definition recorded :: "'d env \<Rightarrow> wal_record set \<Rightarrow> command \<Rightarrow> bool" where
  "recorded E R c =
     (case c of
        NewOrder n \<Rightarrow> \<exists>x \<in> R. r_EventType x = EventTypeNewOrder \<and> unmarshal_new (env_cmd E) (r_Payload x) = Some n
      | CancelOrder n \<Rightarrow> \<exists>x \<in> R. r_EventType x = EventTypeCancelOrder \<and> unmarshal_cancel (env_cmd E) (r_Payload x) = Some n)"


definition wit_new :: new_order_cmd where
  "wit_new = \<lparr> no_CommandId = 1, no_Order = Some (OrderToProto int_libs wit_taker), no_KafkaPartition = 0, no_KafkaOffset = 4 \<rparr>"

definition wit_cancel :: cancel_cmd where
  "wit_cancel = \<lparr> co_CommandId = 2, co_Symbol = ''BTC-USDT'', co_OrderId = 1, co_KafkaPartition = 0, co_KafkaOffset = 5 \<rparr>"

definition wit_cmd_codec :: cmd_codec where
  "wit_cmd_codec =
     \<lparr> marshal_new = (\<lambda>c. if c\<lparr>no_CommandId := 1\<rparr> = wit_new then Some (le_bytes 8 (no_CommandId c)) else None),
       unmarshal_new = (\<lambda>b. if length b = 8 then Some (wit_new\<lparr>no_CommandId := of_le_bytes b\<rparr>) else None),
       marshal_cancel = (\<lambda>c. if c = wit_cancel then Some [2] else None),
       unmarshal_cancel = (\<lambda>b. if b = [2] then Some wit_cancel else None) \<rparr>"

definition wit_env :: "int env" where
  "wit_env = \<lparr> env_libs = int_libs, env_cmd = wit_cmd_codec, env_snap = wit_codec, env_order = (\<lambda>_. [''BTC-USDT'']) \<rparr>"

lemma wit_cmd_codec_ok: "cmd_codec_ok wit_cmd_codec"
proof -
  have "wit_new\<lparr>no_CommandId := no_CommandId c\<rparr> = c" if "c\<lparr>no_CommandId := 1\<rparr> = wit_new" for c
    unfolding that [symmetric] by simp
  then show ?thesis by (auto simp: cmd_codec_ok_def wit_cmd_codec_def)
qed

definition wit_config :: "int config" where
  "wit_config = \<lparr> c_ShardID = ''s1'', c_DataDir = ''data'', c_SnapshotEvery = 10000,
     c_WALGroupCommit = \<lparr> gc_SyncEveryRecords = 1, gc_SyncIntervalMs = 0, gc_ConsumerBatchMax = 0, gc_ConsumerBatchWaitMs = 0 \<rparr>,
     c_SymbolRegistry = None \<rparr>"

definition wit_engine :: "file_writer \<Rightarrow> int engine" where
  "wit_engine w = \<lparr> e_cfg = wit_config, e_shard = wit_shard, e_wal = w, e_snapRoot = [''snap''],
     e_manifest = [''snap'', ''manifest.pb''], e_recovered = 0, e_snapshotSeq = 0, e_lastSnapshotAt = 0,
     e_seen = {}, e_pending = [] \<rparr>"

definition wit_world :: "disk \<Rightarrow> clock \<Rightarrow> world" where
  "wit_world d c = \<lparr> g_disk = d, g_fs = wit_fs [] (\<lambda>_. None), g_clk = c \<rparr>"

lemma ApplyCancel_ok:
  assumes "\<not> GroupCommitEnabled (w_cfg (e_wal (fst st)))" "co_Symbol cmd \<noteq> []" "co_OrderId cmd \<noteq> 0"
    and "marshal_cancel (env_cmd E) cmd = Some payload"
    and "AppendNext EventTypeCancelOrder payload (wal_state (tick st)) = (Inr seq, ws)"
  shows "\<exists>st'. ApplyCancel E (Some cmd) st = (None, st')"
proof -
  obtain e2 g2 where s: "set_wal_state ws (tick st) = (e2, g2)" by fastforce
  obtain sh where "shard_Cancel (co_Symbol cmd) (co_OrderId cmd) (e_shard e2) = (None, sh)"
    using assms(2) by (auto simp: shard_Cancel_def split_beta Let_def)
  with s assms show ?thesis by (simp add: ApplyCancel_def applyCancelImmediate_def Let_def)
qed

lemma wit_open_append:
  "\<exists>w d1 clk1. OpenFileWriter ''s1'' wit_cfg (wit_disk [], wit_wclock) = (Inr w, d1, clk1) \<and>
     (\<exists>seq ws. AppendNext EventTypeCancelOrder [2] (w, d1, snd (now clk1)) = (Inr seq, ws))"
  by (simp add: wit_eval AppendNext_def appendLocked_def NewRecord_def encodeInto_def BodyLen_def recordMinBodyLen_def
     recordMaxBodyLen_def recordLenSize_def buf_write_def maybeSyncLocked_def GroupCommitEnabled_def
     flushAndSyncLocked_def buf_flush_def os_write_def durableSync_def os_sync_def upd_seg_def)

lemma wit_log_inv:
  assumes "OpenFileWriter ''s1'' wit_cfg (wit_disk [], wit_wclock) = (Inr w, d1, clk1)"
  shows "log_inv_each [] (w, d1, clk1)"
  using Open_inv [OF assms wit_clean_empty]
  by (simp add: log_inv_each_def log_inv_def GroupCommitEnabled_def wit_cfg_def)


text \<open>
  With group commit, once a batch is committed, or once it has changed the books, every
  staged command that is neither a duplicate nor refused is read back after every crash,
  under the sequence number it was given.
\<close>

theorem batch_logged_first:
  assumes "cmd_codec_ok (env_cmd E)" and "log_inv hist (wal_state st)" and "e_pending (fst st) = []"
    and "stage_all E cs st = (er, st1)" and "GroupCommitEnabled (w_cfg (e_wal (fst st1)))"
    and "CommitBatch E st1 = (r, st2)" and "(\<exists>ocs. r = Inr ocs) \<or> e_shard (fst st2) \<noteq> e_shard (fst st1)"
    and "log_survives st2 R" and "item \<in> set (e_pending (fst st1))"
  shows "item_logged E R item"
proof -
  have "staged_inv E hist st" using assms(2,3) by (simp add: staged_inv_def)
  from stage_all_inv [OF assms(1) this assms(4)] obtain new where "staged_inv E (hist @ new) st1" ..
  from batch_logged [OF this assms(5-9)] show ?thesis .
qed

definition wit_gc_cfg :: writer_config where
  "wit_gc_cfg = \<lparr> MaxSegmentBytes = 0, WriteBufferSize = 0, SyncEveryRecords = 8, SyncIntervalMs = 0 \<rparr>"

lemma wit_open_gc:
  "\<exists>w d1 clk1. OpenFileWriter ''s1'' wit_gc_cfg (wit_disk [], wit_wclock) = (Inr w, d1, clk1) \<and>
     (\<exists>seq w2 d2 clk2. AppendNext EventTypeCancelOrder [2] (w, d1, clk1) = (Inr seq, w2, d2, clk2) \<and>
        GroupCommitEnabled (w_cfg w2) \<and> (\<exists>ws. wal_Sync (w2, d2, snd (now clk2)) = (None, ws)))"
  by (simp add: wit_eval wit_gc_cfg_def AppendNext_def appendLocked_def NewRecord_def encodeInto_def BodyLen_def recordMinBodyLen_def
     recordMaxBodyLen_def recordLenSize_def buf_write_def maybeSyncLocked_def GroupCommitEnabled_def wal_Sync_def
     flushAndSyncLocked_def buf_flush_def os_write_def durableSync_def os_sync_def upd_seg_def)

text \<open>The crash that loses all that was not synced.\<close>

definition disk_cut :: "disk \<Rightarrow> disk" where
  "disk_cut d = d\<lparr>d_segs := map (\<lambda>s. s\<lparr>sg_data := take (sg_synced s) (sg_data s),
      sg_synced := length (take (sg_synced s) (sg_data s))\<rparr>) (d_segs d)\<rparr>"

lemma log_survives_cut: "log_survives st (set (read_back (disk_cut (g_disk (snd st)))))"
proof -
  have "crash_seg s (s\<lparr>sg_data := take (sg_synced s) (sg_data s),
      sg_synced := length (take (sg_synced s) (sg_data s))\<rparr>)" for s
    unfolding crash_seg_def by blast
  then have "crash (g_disk (snd st)) (disk_cut (g_disk (snd st)))"
    unfolding crash_def disk_cut_def by (simp add: list_all2_map2 list.rel_refl)
  then show ?thesis unfolding log_survives_def by blast
qed

theorem batch_logged_first_witness:
  "\<exists>w d1 clk1 st1 ocs st2 R item. stage_all wit_env [CancelOrder wit_cancel] (wit_engine w, wit_world d1 clk1) = (None, st1) \<and>
     CommitBatch wit_env st1 = (Inr ocs, st2) \<and> e_pending (fst st1) = [item] \<and> log_survives st2 R \<and> item_logged wit_env R item"
proof -
  obtain w d1 clk1 seq w2 d2 clk2 ws where o: "OpenFileWriter ''s1'' wit_gc_cfg (wit_disk [], wit_wclock) = (Inr w, d1, clk1)"
    and a: "AppendNext EventTypeCancelOrder [2] (w, d1, clk1) = (Inr seq, w2, d2, clk2)"
    and g: "GroupCommitEnabled (w_cfg w2)" and sy: "wal_Sync (w2, d2, snd (now clk2)) = (None, ws)"
    using wit_open_gc by blast
  let ?st = "(wit_engine w, wit_world d1 clk1)" and ?i = "StagedCancel wit_cancel seq"
  let ?st1 = "push_item ?i (set_wal_state (w2, d2, clk2) ?st)"
  have s0: "wal_state ?st = (w, d1, clk1)" by (simp add: wal_state_def wit_engine_def wit_world_def)
  have s1: "stage_all wit_env [CancelOrder wit_cancel] ?st = (None, ?st1)"
    using a s0 by (simp add: stage_def StageCancel_def wit_env_def wit_cmd_codec_def) (simp add: wit_cancel_def)
  have p: "e_pending (fst ?st) = []" "e_pending (fst ?st1) = [?i]" by (simp_all add: wit_engine_def)
  have gc: "GroupCommitEnabled (w_cfg (e_wal (fst ?st1)))" using g by (simp add: push_item_def set_wal_state_def)
  have ts: "wal_state (tick ?st1) = (w2, d2, snd (now clk2))"
    by (simp add: wal_state_def tick_def push_item_def set_wal_state_def)
  let ?st2 = "set_wal_state ws (tick ?st1)"
  obtain sh where sh: "shard_Cancel (co_Symbol wit_cancel) (co_OrderId wit_cancel) (e_shard (fst ?st2)) = (None, sh)"
    by (auto simp: shard_Cancel_def split_beta Let_def wit_cancel_def)
  obtain e2 g2 where st2: "?st2 = (e2, g2)" by (metis surj_pair)
  have pe: "e_pending (fst ?st2) = [?i]" using p(2) by simp
  have "\<exists>oc st3. commit_items wit_env (e_pending (fst ?st2)) ?st2 = (Inr [oc], st3)"
    unfolding pe using sh st2 by (simp add: commit_item_def)
  then obtain oc e3 g3 where "commit_items wit_env (e_pending (fst ?st2)) ?st2 = (Inr [oc], e3, g3)" by (metis prod.collapse)
  then have c: "CommitBatch wit_env ?st1 = (Inr [oc], e3\<lparr>e_pending := []\<rparr>, g3)"
    using p(2) gc sy ts by (simp add: CommitBatch_def)
  have K: "cmd_codec_ok (env_cmd wit_env)" by (simp add: wit_env_def wit_cmd_codec_ok)
  have inv: "log_inv [] (wal_state ?st)"
    using Open_inv [OF o wit_clean_empty] s0 by (simp add: log_inv_def)
  note R = log_survives_cut [of "(e3\<lparr>e_pending := []\<rparr>, g3)"]
  have "item_logged wit_env (set (read_back (disk_cut (g_disk (snd (e3\<lparr>e_pending := []\<rparr>, g3)))))) ?i"
    by (rule batch_logged_first [OF K inv p(1) s1 gc c _ R]) (simp_all add: p(2))
  with s1 c p(2) R show ?thesis by blast
qed

text \<open>
  Within one batch duplicates are not recognised: a second command with the id of one
  that is staged but not yet committed is appended to the log and queued for matching,
  although the same command would be ignored had the batch been committed in between.
\<close>

theorem batch_duplicate_staged:
  assumes "new_order_id c1 = new_order_id c2" and "new_order_id c1 \<notin> e_seen (fst st)"
    and "StageNewOrder E (Some c1) st = (None, st1)" and "StageNewOrder E (Some c2) st1 = (None, st2)"
    and "\<forall>pb. no_Order c1 = Some pb \<longrightarrow> \<not> IsReadOnly (e_shard (fst st)) (p_Symbol pb)"
    and "\<forall>pb. no_Order c2 = Some pb \<longrightarrow> \<not> IsReadOnly (e_shard (fst st)) (p_Symbol pb)"
  shows "\<exists>s1 s2. e_pending (fst st2) =
    e_pending (fst st) @ [StagedNewOrder c1 s1 False False, StagedNewOrder c2 s2 False False]"
proof -
  have one: "e_seen (fst st') = e_seen (fst st) \<and> e_shard (fst st') = e_shard (fst st) \<and>
      (\<exists>s. e_pending (fst st') = e_pending (fst st) @ [StagedNewOrder c s False False])"
    if "StageNewOrder E (Some c) st = (None, st')" "new_order_id c \<notin> e_seen (fst st)"
      "\<forall>pb. no_Order c = Some pb \<longrightarrow> \<not> IsReadOnly (e_shard (fst st)) (p_Symbol pb)" for c st st'
    using that by (auto simp: StageNewOrder_def new_order_id_def split: option.splits if_splits prod.splits sum.splits)
  from one [OF assms(3,2,5)] one [OF assms(4)] assms(1,2,6) show ?thesis by auto
qed

lemma wit_open_gc_twice:
  "length p = 8 \<Longrightarrow> \<exists>w d1 clk1. OpenFileWriter ''s1'' wit_gc_cfg (wit_disk [], wit_wclock) = (Inr w, d1, clk1) \<and>
     (\<exists>s1 ws1 s2 ws2. AppendNext EventTypeNewOrder p (w, d1, clk1) = (Inr s1, ws1) \<and>
        AppendNext EventTypeNewOrder p ws1 = (Inr s2, ws2))"
  by (simp add: wit_eval wit_gc_cfg_def AppendNext_def appendLocked_def NewRecord_def encodeInto_def BodyLen_def recordMinBodyLen_def
     recordMaxBodyLen_def recordLenSize_def buf_write_def maybeSyncLocked_def GroupCommitEnabled_def frame_bytes_def record_head_def)
    (simp add: word_le_nat_alt)

theorem batch_duplicate_staged_witness:
  "\<exists>w d1 clk1 st1 st2 s1 s2. StageNewOrder wit_env (Some wit_new) (wit_engine w, wit_world d1 clk1) = (None, st1) \<and>
     StageNewOrder wit_env (Some wit_new) st1 = (None, st2) \<and>
     e_pending (fst st2) = [StagedNewOrder wit_new s1 False False, StagedNewOrder wit_new s2 False False]"
proof -
  let ?p = "le_bytes 8 (1 :: uint64)"
  have m: "marshal_new (env_cmd wit_env) wit_new = Some ?p"
    by (simp add: wit_env_def wit_cmd_codec_def) (simp add: wit_new_def)
  have "length ?p = 8" by simp
  from wit_open_gc_twice [OF this] obtain w d1 clk1 s1 ws1 s2 ws2 where
    a: "AppendNext EventTypeNewOrder ?p (w, d1, clk1) = (Inr s1, ws1)" "AppendNext EventTypeNewOrder ?p ws1 = (Inr s2, ws2)"
    by blast
  let ?st = "(wit_engine w, wit_world d1 clk1)"
  have s0: "wal_state ?st = (w, d1, clk1)" by (simp add: wal_state_def wit_engine_def wit_world_def)
  obtain pb where pb: "no_Order wit_new = Some pb" "p_OrderId pb \<noteq> 0"
    by (simp add: wit_new_def OrderToProto_def wit_taker_def wit_order_def)
  have ro: "\<not> IsReadOnly (e_shard (fst ?st)) s" for s
    by (simp add: wit_engine_def wit_shard_def IsReadOnly_def Register_def NewShard_def NewSymbolEngine_def)
  have f: "e_seen (fst ?st) = {}" "e_pending (fst ?st) = []" by (simp_all add: wit_engine_def)
  let ?st1 = "push_item (StagedNewOrder wit_new s1 False False) (set_wal_state ws1 ?st)"
  have 1: "StageNewOrder wit_env (Some wit_new) ?st = (None, ?st1)"
    using pb ro f m a(1) s0 by (simp add: StageNewOrder_def)
  have 2: "StageNewOrder wit_env (Some wit_new) ?st1 = (None, push_item (StagedNewOrder wit_new s2 False False) (set_wal_state ws2 ?st1))"
    using pb ro f m a(2) by (simp add: StageNewOrder_def)
  from batch_duplicate_staged [OF refl _ 1 2] f ro
  obtain s3 s4 where "e_pending (fst (push_item (StagedNewOrder wit_new s2 False False) (set_wal_state ws2 ?st1))) =
      [StagedNewOrder wit_new s3 False False, StagedNewOrder wit_new s4 False False]" by auto
  with 1 2 show ?thesis by blast
qed

text \<open>
  C11. Recovery restores the snapshots and replays only the cancellations of the rest of the
  log: every order id of the log is indexed as seen before the replay, and the replay skips
  new orders that are seen. An order that was acknowledged after the newest snapshot is
  never put back, although it is in the log.
\<close>

theorem recovery_skips_new_orders:
  assumes "recover E (e, g) = (None, e', g')" and "loadSnapshots E (e, g) = (Inr off, e1, g1)"
  shows "e_shard e' = fold (replay_cancel E) (fst (drain (ReadFrom off (g_disk g)))) (e_shard e1) \<and>
    (\<forall>s. resting (e_shard e') s \<subseteq> resting (e_shard e1) s) \<and>
    (\<forall>r cmd. r \<in> set (fst (drain (ReadFrom 0 (g_disk g)))) \<longrightarrow> r_EventType r = EventTypeNewOrder \<longrightarrow>
       unmarshal_new (env_cmd E) (r_Payload r) = Some cmd \<longrightarrow> new_order_id cmd \<noteq> 0 \<longrightarrow> new_order_id cmd \<in> e_seen e')"
  using recover_shard(1,2) [OF assms] resting_replay [of E _ "e_shard e1"]
  by (auto simp: fold_indexRecord)

definition wit_log_record :: wal_record where
  "wit_log_record = \<lparr> r_SeqID = 1, r_Timestamp = 5, r_EventType = EventTypeNewOrder, r_Payload = le_bytes 8 (1 :: uint64) \<rparr>"

definition wit_log :: disk where
  "wit_log = wit_disk [\<lparr> sg_num = 1, sg_data = frames [wit_log_record], sg_synced = length (frames [wit_log_record]) \<rparr>]"

lemma wit_log_clean: "clean_log wit_log [[wit_log_record]]"
  by (simp add: clean_log_def wit_log_def wit_disk_def seg_clean_def fits_def BodyLen_def wit_log_record_def
      recordMinBodyLen_def recordMaxBodyLen_def)

theorem recovery_skips_new_orders_witness:
  "\<exists>w clk e' g'. recover wit_env ((wit_engine w)\<lparr>e_shard := NewShard\<rparr>, wit_world wit_log clk) = (None, e', g') \<and>
     wit_log_record \<in> set (fst (drain (ReadFrom 0 wit_log))) \<and> 9 \<in> e_seen e' \<and> resting (e_shard e') ''BTC-USDT'' = {}"
proof -
  obtain w d1 clk where "OpenFileWriter ''s1'' wit_cfg (wit_disk [], wit_wclock) = (Inr w, d1, clk)"
    using wit_open_empty by blast
  let ?e = "(wit_engine w)\<lparr>e_shard := NewShard\<rparr>" and ?g = "wit_world wit_log clk"
  have d: "fst (drain (ReadFrom 0 wit_log)) = [wit_log_record]" "it_err (snd (drain (ReadFrom 0 wit_log))) = None"
    using clean_scan [OF wit_log_clean] by (simp_all add: drain_from wit_log_record_def)
  obtain it where dr: "drain (ReadFrom 0 wit_log) = ([wit_log_record], it)" "it_err it = None" using d by (metis prod.collapse)
  have u: "r_EventType wit_log_record = EventTypeNewOrder" "unmarshal_new (env_cmd wit_env) (r_Payload wit_log_record) = Some wit_new"
    "r_SeqID wit_log_record = 1" "new_order_id wit_new = 9" "p_OrderId (OrderToProto int_libs wit_taker) = 9"
    "no_Order wit_new = Some (OrderToProto int_libs wit_taker)"
    by (simp_all add: wit_log_record_def wit_env_def wit_cmd_codec_def)
      (simp_all add: wit_new_def new_order_id_def OrderToProto_def wit_taker_def wit_order_def)
  have "\<exists>e1 g1. loadSnapshots wit_env (?e, ?g) = (Inr 0, e1, g1) \<and> e_shard e1 = NewShard"
    by (simp add: loadSnapshots_def LoadManifest_def fs_read_def fs_call_def fs_file_def listSymbolDirs_def wit_world_def
        wit_fs_def wit_engine_def)
  then obtain e1 g1 where l: "loadSnapshots wit_env (?e, ?g) = (Inr 0, e1, g1)" "e_shard e1 = NewShard" by blast
  note lf = loadSnapshots_fields [OF l(1)]
  have g1: "g_disk g1 = wit_log" using lf(3) by (simp add: wit_world_def)
  have "\<exists>e' g'. recover wit_env (?e, ?g) = (None, e', g')"
    using u lf(1) by (simp add: recover_def l(1) buildSeenFromWAL_def replayWAL_def g1 dr applyRecord_def indexRecord_def)
  then obtain e' g' where r: "recover wit_env (?e, ?g) = (None, e', g')" by blast
  note t = recovery_skips_new_orders [OF r l(1)]
  have "9 \<in> e_seen e'" using t u d(1) by (auto simp: wit_world_def)
  moreover have "resting (e_shard e') ''BTC-USDT'' = {}"
    using t l(2) by (auto simp: resting_def NewShard_def)
  moreover have "wit_log_record \<in> set (fst (drain (ReadFrom 0 wit_log)))" using d(1) by simp
  ultimately show ?thesis using r by blast
qed

end
