(* ===== verification/SnapshotRestart.thy ===== *)
theory SnapshotRestart
  imports RecoveryDurable
begin

text \<open>
  Snapshots as the engine of theory \<open>Recovery\<close> writes and loads them: after a crash the
  books of the shard are restored as they were when the snapshots were written.
\<close>

section \<open>What writing leaves in the directories\<close>

text \<open>The newest snapshot of symbol \<open>s\<close> is number \<open>seq\<close> and holds the book \<open>b\<close>.\<close>

definition exported :: "('d::linordered_idom) env \<Rightarrow> uint64 \<Rightarrow> 'd order_book \<Rightarrow> pb_snapshot \<Rightarrow> bool" where
  "exported E seq b snap \<longleftrightarrow> s_Symbol snap = b_Symbol b \<and> s_SeqId snap = seq \<and>
     ValidateWithOrderMap b (s_OrderMap snap) = None \<and>
     s_Bids snap = exportLevels (env_libs E) SideBuy b \<and> s_Asks snap = exportLevels (env_libs E) SideSell b"

definition old_snapshots :: "path \<Rightarrow> uint64 \<Rightarrow> string \<Rightarrow> snap_fs \<Rightarrow> bool" where
  "old_snapshots root seq s fs \<longleftrightarrow>
     (\<forall>q. is_snapshot (root @ [s]) q \<longrightarrow> fs_file fs q \<noteq> None \<longrightarrow> by_seq q < seq \<or> q = root @ [s, Filename seq])"

definition saved :: "('d::linordered_idom) env \<Rightarrow> path \<Rightarrow> uint64 \<Rightarrow> string \<Rightarrow> 'd order_book \<Rightarrow> snap_fs \<Rightarrow> bool" where
  "saved E root seq s b fs \<longleftrightarrow>
     old_snapshots root seq s fs \<and> root @ [s] \<in> set (sf_dirs fs) \<and>
     (\<exists>snap data. exported E seq b snap \<and>
        marshal_snapshot (env_snap E) (snap\<lparr>s_Checksum := ComputeChecksum (env_snap E) (Some snap)\<rparr>) = Some data \<and>
        fs_file fs (root @ [s, Filename seq]) = Some \<lparr> f_data = data, f_synced = length data \<rparr>)"

lemma ExportSnapshot_exported:
  "ExportSnapshot (env_libs E) sid seq t (b, clk) = (snap, clk') \<Longrightarrow>
     ValidateWithOrderMap b (s_OrderMap snap) = None \<Longrightarrow> exported E seq b snap"
  by (auto simp: ExportSnapshot_def exported_def split_beta)

text \<open>\<open>MkdirAll\<close> only adds directories, and the operations that follow leave them alone.\<close>

lemma fold_insert_set: "set (fold (\<lambda>i. List.insert (f i)) is ds) = f ` set is \<union> set ds"
  by (induction "is" arbitrary: ds) auto

lemma fs_dirs_calls [simp]:
  "sf_dirs (snd (fs_create p fs)) = sf_dirs fs" "sf_dirs (snd (fs_write p d fs)) = sf_dirs fs"
  "sf_dirs (snd (fs_sync p fs)) = sf_dirs fs" "sf_dirs (snd (fs_close fs)) = sf_dirs fs"
  "sf_dirs (snd (fs_rename p q fs)) = sf_dirs fs" "sf_dirs (snd (fs_remove p fs)) = sf_dirs fs"
  by (auto simp: fs_call_defs Let_def fs_put_def fs_del_def split: option.splits)

lemma mkdirAll_set:
  "\<exists>n \<le> length dir. set (sf_dirs (snd (fs_mkdirAll dir fs))) = (\<lambda>i. take i dir) ` {1..<Suc n} \<union> set (sf_dirs fs) \<and>
     (fst (fs_mkdirAll dir fs) \<longrightarrow> n = length dir)"
proof -
  define n where "n = (case sf_io fs (sf_pos fs) of None \<Rightarrow> length dir | Some k \<Rightarrow> min k (length dir))"
  have "n \<le> length dir" by (simp add: n_def split: option.splits)
  moreover have "set (sf_dirs (snd (fs_mkdirAll dir fs))) = (\<lambda>i. take i dir) ` {1..<Suc n} \<union> set (sf_dirs fs)"
    by (simp add: fs_mkdirAll_def fs_call_def Let_def fold_insert_set n_def del: upt_Suc)
  moreover have "fst (fs_mkdirAll dir fs) \<longrightarrow> n = length dir"
    by (simp add: fs_mkdirAll_def fs_call_def Let_def n_def)
  ultimately show ?thesis by blast
qed

lemma mkdirAll_dirs:
  "set (sf_dirs (snd (fs_mkdirAll dir fs))) \<subseteq> set (sf_dirs fs) \<union> (\<lambda>i. take i dir) ` {1..length dir}"
  "set (sf_dirs fs) \<subseteq> set (sf_dirs (snd (fs_mkdirAll dir fs)))"
  "fst (fs_mkdirAll dir fs) \<Longrightarrow> dir \<noteq> [] \<Longrightarrow> dir \<in> set (sf_dirs (snd (fs_mkdirAll dir fs)))"
proof -
  obtain n where n: "n \<le> length dir"
    "set (sf_dirs (snd (fs_mkdirAll dir fs))) = (\<lambda>i. take i dir) ` {1..<Suc n} \<union> set (sf_dirs fs)"
    "fst (fs_mkdirAll dir fs) \<longrightarrow> n = length dir" using mkdirAll_set by blast
  show "set (sf_dirs (snd (fs_mkdirAll dir fs))) \<subseteq> set (sf_dirs fs) \<union> (\<lambda>i. take i dir) ` {1..length dir}"
    unfolding n(2) using n(1) by auto
  show "set (sf_dirs fs) \<subseteq> set (sf_dirs (snd (fs_mkdirAll dir fs)))" unfolding n(2) by blast
  show "dir \<in> set (sf_dirs (snd (fs_mkdirAll dir fs)))" if "fst (fs_mkdirAll dir fs)" "dir \<noteq> []"
    unfolding n(2) using n(3) that by (intro UnI1 image_eqI [of _ _ "length dir"]) (auto simp: Suc_le_eq)
qed

lemma writeAtomic_dirs:
  assumes "writeAtomic p data fs = (e, fs')"
  shows "set (sf_dirs fs') \<subseteq> set (sf_dirs fs) \<union> (\<lambda>i. take i (butlast p)) ` {1..length p - 1}"
    and "set (sf_dirs fs) \<subseteq> set (sf_dirs fs')"
    and "e = None \<Longrightarrow> butlast p \<noteq> [] \<Longrightarrow> butlast p \<in> set (sf_dirs fs')"
proof -
  have fs': "fs' = snd (writeAtomic p data fs)" using assms by simp
  have d: "sf_dirs fs' = sf_dirs (snd (fs_mkdirAll (butlast p) fs))"
    unfolding fs' writeAtomic_def writeErr_def by (simp add: Let_def split_beta)
  have e: "e = None \<Longrightarrow> fst (fs_mkdirAll (butlast p) fs)"
    using assms by (auto simp: writeAtomic_def Let_def split_beta split: if_splits)
  show "set (sf_dirs fs') \<subseteq> set (sf_dirs fs) \<union> (\<lambda>i. take i (butlast p)) ` {1..length p - 1}"
    using mkdirAll_dirs(1) [of "butlast p" fs] d by simp
  show "set (sf_dirs fs) \<subseteq> set (sf_dirs fs')" using mkdirAll_dirs(2) d by simp
  show "e = None \<Longrightarrow> butlast p \<noteq> [] \<Longrightarrow> butlast p \<in> set (sf_dirs fs')" using mkdirAll_dirs(3) d e by simp
qed

lemma Prune_dirs: "sf_dirs (snd (Prune dir keep fs)) = sf_dirs fs"
proof -
  have "sf_dirs (snd (remove_paths ps fs)) = sf_dirs fs" for ps fs
  proof (induction ps arbitrary: fs)
    case (Cons p ps)
    obtain ok fs1 where r: "fs_remove p fs = (ok, fs1)" by fastforce
    with fs_dirs_calls(6) [of p fs] Cons [of fs1] show ?case by simp
  qed simp
  then show ?thesis by (simp add: Prune_def Let_def)
qed

lemma is_snapshot_butlast: "is_snapshot dir q \<Longrightarrow> butlast q = dir \<and> q \<noteq> []"
  by (simp add: is_snapshot_def in_dir_def)

lemma tmp_path_butlast: "p \<noteq> [] \<Longrightarrow> butlast (tmp_path p) = butlast p"
  by (simp add: tmp_path_def)

text \<open>Saving a snapshot of one symbol and pruning its directory.\<close>

lemma save_step:
  assumes ok: "fs_ok fs" and old: "old_snapshots root seq s fs" and ex: "exported E seq b snap"
    and sv: "snap_Save (env_snap E) (root @ [s, Filename seq]) (Some snap) fs = (None, fs1)"
    and pr: "Prune (root @ [s]) DefaultKeep fs1 = (None, fs2)"
  shows "saved E root seq s b fs2 \<and> fs_ok fs2 \<and> (\<forall>q. butlast q \<noteq> root @ [s] \<longrightarrow> fs_file fs2 q = fs_file fs q) \<and>
    set (sf_dirs fs) \<subseteq> set (sf_dirs fs2) \<and>
    (\<forall>p \<in> set (sf_dirs fs2). p \<in> set (sf_dirs fs) \<or> p = root @ [s] \<or> length p \<le> length root)"
proof -
  let ?p = "root @ [s, Filename seq]" and ?m = "snap\<lparr>s_Checksum := ComputeChecksum (env_snap E) (Some snap)\<rparr>"
  have bl: "butlast ?p = root @ [s]" by (simp add: butlast_append)
  obtain data where d: "marshal_snapshot (env_snap E) ?m = Some data" and w: "writeAtomic ?p data fs = (None, fs1)"
    using sv by (auto simp: snap_Save_def Let_def split: option.splits)
  have f1: "fs_file fs1 ?p = Some \<lparr> f_data = data, f_synced = length data \<rparr>"
    using writeAtomic_file(1) [OF w] by simp
  have sn: "is_snapshot (root @ [s]) ?p" using is_snapshot_Filename [of "root @ [s]" seq] by simp
  have old1: "old_snapshots root seq s fs1"
  proof -
    have "by_seq q < seq \<or> q = ?p" if q: "is_snapshot (root @ [s]) q" "fs_file fs1 q \<noteq> None" for q
    proof (cases "q = ?p")
      case False
      have "q \<noteq> tmp_path ?p" using q(1) tmp_not_snapshot [of ?p "root @ [s]"] by auto
      then have "fs_file fs q \<noteq> None" using q(2) False writeAtomic_file(2) [OF w] by simp
      with old q(1) show ?thesis unfolding old_snapshots_def by blast
    qed simp
    then show ?thesis unfolding old_snapshots_def by blast
  qed
  have l1: "LatestPath (root @ [s]) fs1 = Some ?p"
  proof (rule LatestPath_max [OF sn])
    show "fs_file fs1 ?p \<noteq> None" using f1 by simp
    show "by_seq q < by_seq ?p" if "is_snapshot (root @ [s]) q" "fs_file fs1 q \<noteq> None" "q \<noteq> ?p" for q
      using old1 that by_seq_Filename [of "root @ [s]" seq] unfolding old_snapshots_def by auto
  qed
  have ok1: "fs_ok fs1" using writeAtomic_ok [OF ok] w by (metis snd_conv)
  note P = Prune_keeps [OF pr ok1]
  have f2: "fs_file fs2 ?p = Some \<lparr> f_data = data, f_synced = length data \<rparr>" using P l1 f1 by simp
  have old2: "old_snapshots root seq s fs2" using old1 P unfolding old_snapshots_def by metis
  have d2: "sf_dirs fs2 = sf_dirs fs1" using Prune_dirs [of "root @ [s]" DefaultKeep fs1] pr by simp
  note W = writeAtomic_dirs [OF w]
  have "root @ [s] \<in> set (sf_dirs fs2)" using W(3) d2 bl by simp
  with old2 f2 ex d have "saved E root seq s b fs2" unfolding saved_def by blast
  moreover have "fs_file fs2 q = fs_file fs q" if "butlast q \<noteq> root @ [s]" for q
  proof -
    have "q \<noteq> ?p" "q \<noteq> tmp_path ?p" using that bl tmp_path_butlast [of ?p] by auto
    moreover have "fs_file fs2 q = fs_file fs1 q" using P is_snapshot_butlast that by metis
    ultimately show ?thesis using writeAtomic_file(2) [OF w] by simp
  qed
  moreover have "set (sf_dirs fs) \<subseteq> set (sf_dirs fs2)" using W(2) d2 by simp
  moreover have "p \<in> set (sf_dirs fs) \<or> p = root @ [s] \<or> length p \<le> length root" if "p \<in> set (sf_dirs fs2)" for p
  proof -
    have "p \<in> set (sf_dirs fs) \<union> (\<lambda>i. take i (root @ [s])) ` {1..length ?p - 1}"
      using that W(1) d2 bl by auto
    then show ?thesis by (auto simp: take_Cons' not_le)
  qed
  ultimately show ?thesis using P by blast
qed

lemma old_snapshots_frame:
  "old_snapshots root seq t fs \<Longrightarrow> (\<And>q. butlast q = root @ [t] \<Longrightarrow> fs_file fs2 q = fs_file fs q) \<Longrightarrow>
     old_snapshots root seq t fs2"
  unfolding old_snapshots_def using is_snapshot_butlast by metis

lemma saved_frame:
  assumes "saved E root seq t b fs" and f: "\<And>q. butlast q = root @ [t] \<Longrightarrow> fs_file fs2 q = fs_file fs q"
    and d: "set (sf_dirs fs) \<subseteq> set (sf_dirs fs2)"
  shows "saved E root seq t b fs2"
proof -
  have "fs_file fs2 (root @ [t, Filename seq]) = fs_file fs (root @ [t, Filename seq])"
    by (rule f) (simp add: butlast_append)
  with assms old_snapshots_frame [of root seq t fs fs2] show ?thesis unfolding saved_def by auto
qed

definition books_saved :: "('d::linordered_idom) env \<Rightarrow> uint64 \<Rightarrow> 'd engine \<Rightarrow> string set \<Rightarrow> snap_fs \<Rightarrow> bool" where
  "books_saved E seq e S fs \<longleftrightarrow>
     fs_ok fs \<and> (\<forall>s. old_snapshots (e_snapRoot e) seq s fs) \<and>
     (\<forall>s \<in> S. \<forall>se. e_shard e s = Some se \<longrightarrow> saved E (e_snapRoot e) seq s (se_OrderBook se) fs) \<and>
     (\<forall>p \<in> set (sf_dirs fs). in_dir (e_snapRoot e) p \<longrightarrow> e_shard e (last p) \<noteq> None)"

lemma books_saved_step:
  assumes bs: "books_saved E seq e S fs" and se: "e_shard e s = Some se" and ex: "exported E seq (se_OrderBook se) snap"
    and sv: "snap_Save (env_snap E) (e_snapRoot e @ [s, Filename seq]) (Some snap) fs = (None, fs1)"
    and pr: "Prune (e_snapRoot e @ [s]) DefaultKeep fs1 = (None, fs2)"
  shows "books_saved E seq e (insert s S) fs2"
proof -
  let ?root = "e_snapRoot e"
  have old: "fs_ok fs" "\<And>s. old_snapshots ?root seq s fs" using bs by (simp_all add: books_saved_def)
  note st = save_step [OF old(1,2) ex sv pr]
  have fr: "fs_file fs2 q = fs_file fs q" if "butlast q = ?root @ [t]" "t \<noteq> s" for q t using st that by simp
  have "old_snapshots ?root seq t fs2" for t
    using st old_snapshots_frame [OF old(2)] fr by (cases "t = s") (auto simp: saved_def)
  moreover have "saved E ?root seq t (se_OrderBook te) fs2" if "t \<in> insert s S" "e_shard e t = Some te" for t te
  proof (cases "t = s")
    case True
    with st se that show ?thesis by simp
  next
    case False
    with that bs have "saved E ?root seq t (se_OrderBook te) fs" by (simp add: books_saved_def)
    then show ?thesis by (rule saved_frame) (use fr False st in auto)
  qed
  moreover have "e_shard e (last p) \<noteq> None" if "p \<in> set (sf_dirs fs2)" "in_dir ?root p" for p
  proof -
    have "length p = Suc (length ?root)" using that(2) by (auto simp: in_dir_def) (metis append_butlast_last_id length_append_singleton)
    then show ?thesis using st that bs se by (auto simp: books_saved_def)
  qed
  ultimately show ?thesis using st unfolding books_saved_def by blast
qed

lemma write_symbols_saved:
  "write_symbols E seq ss m (e, g) = (None, m', e', g') \<Longrightarrow> books_saved E seq e S (g_fs g) \<Longrightarrow>
     e' = e \<and> books_saved E seq e (set ss \<union> S) (g_fs g')"
proof (induction ss arbitrary: m g S)
  case Nil
  then show ?case by simp
next
  case (Cons s ss)
  show ?case
  proof (cases "e_shard e s")
    case None
    then have "write_symbols E seq ss m (e, g) = (None, m', e', g')" using Cons.prems(1) by (simp add: shard_Get_def)
    moreover have "books_saved E seq e (insert s S) (g_fs g)" using Cons.prems(2) None by (auto simp: books_saved_def)
    ultimately show ?thesis using Cons.IH by fastforce
  next
    case (Some se)
    obtain t clk1 where n: "now (g_clk g) = (t, clk1)" by (metis surj_pair)
    obtain snap clk2 where ex: "ExportSnapshot (env_libs E) (c_ShardID (e_cfg e)) seq t (se_OrderBook se, clk1) = (snap, clk2)"
      by (metis surj_pair)
    obtain x fs1 where sv: "snap_Save (env_snap E) (e_snapRoot e @ [s, Filename seq]) (Some snap) (g_fs g) = (x, fs1)"
      by (metis surj_pair)
    obtain y fs2 where pr: "Prune (e_snapRoot e @ [s]) DefaultKeep fs1 = (y, fs2)" by (metis surj_pair)
    have v: "ValidateWithOrderMap (se_OrderBook se) (s_OrderMap snap) = None" and xy: "x = None" "y = None"
      and w: "write_symbols E seq ss (m(s \<mapsto> seq)) (e, g\<lparr>g_clk := clk2, g_fs := fs2\<rparr>) = (None, m', e', g')"
      using Cons.prems(1) n ex sv pr Some by (auto simp: shard_Get_def Let_def split: option.splits)
    from books_saved_step [OF Cons.prems(2) Some ExportSnapshot_exported [OF ex v] sv [unfolded xy] pr [unfolded xy]]
    have "books_saved E seq e (insert s S) (g_fs (g\<lparr>g_clk := clk2, g_fs := fs2\<rparr>))" by simp
    from Cons.IH [OF w this] show ?thesis by simp
  qed
qed

lemma writeSnapshots_saved:
  assumes ws: "writeSnapshots E seq (e, g) = (None, st')" and all: "dom (e_shard e) \<subseteq> set (env_order E (dom (e_shard e)))"
    and mf: "e_manifest e = e_snapRoot e @ [''manifest.pb'']" and bs: "books_saved E seq e {} (g_fs g)"
    and C: "snap_codec_ok (env_snap E)" and root: "e_snapRoot e \<noteq> []"
  shows "books_saved E seq e (dom (e_shard e)) (g_fs (snd st')) \<and> e_snapRoot e \<in> set (sf_dirs (g_fs (snd st'))) \<and>
    (\<exists>data mm. fs_file (g_fs (snd st')) (e_manifest e) = Some \<lparr> f_data = data, f_synced = length data \<rparr> \<and>
       unmarshal_manifest (env_snap E) data = Some mm \<and> mf_RecoveredOffset mm = seq)"
proof -
  let ?root = "e_snapRoot e"
  obtain t0 clk0 where n: "now (g_clk g) = (t0, clk0)" by (metis surj_pair)
  obtain x m e1 g1 where w: "write_symbols E seq (env_order E (shard_Symbols (e_shard e))) Map.empty (e, g\<lparr>g_clk := clk0\<rparr>)
      = (x, m, e1, g1)" by (metis prod_cases4)
  define mm where "mm = \<lparr> mf_ShardId = c_ShardID (e_cfg e), mf_RecoveredOffset = seq, mf_SymbolSeq = m,
                          mf_UpdatedAtUnixNano = unix_nano t0 \<rparr>"
  obtain y fs2 where sm: "SaveManifest (env_snap E) (e_manifest e) (Some mm) (g_fs g1) = (y, fs2)" by (metis surj_pair)
  have x: "x = None" using ws n w by (cases x) (auto simp: writeSnapshots_def)
  have y: "y = None" "g_fs (snd st') = fs2"
    using ws n w x sm by (auto simp: writeSnapshots_def Let_def mm_def split: option.splits prod.splits)
  have "books_saved E seq e {} (g_fs (g\<lparr>g_clk := clk0\<rparr>))" using bs by simp
  from write_symbols_saved [OF w [unfolded x] this]
  have b1: "books_saved E seq e (dom (e_shard e)) (g_fs g1)"
    using all by (auto simp: books_saved_def shard_Symbols_def)
  obtain data where wa: "writeAtomic (e_manifest e) data (g_fs g1) = (None, fs2)"
    and md: "marshal_manifest (env_snap E) mm = Some data"
    using sm y by (auto simp: SaveManifest_def split: if_splits option.splits)
  have bm: "butlast (e_manifest e) = ?root" "butlast (tmp_path (e_manifest e)) = ?root"
    using mf tmp_path_butlast [of "e_manifest e"] by simp_all
  have fr: "fs_file fs2 q = fs_file (g_fs g1) q" if "butlast q = ?root @ [s]" for q s
    by (rule writeAtomic_file(2) [OF wa]) (use that bm mf in auto)
  note W = writeAtomic_dirs [OF wa]
  have "fs_ok fs2" using writeAtomic_ok [of "g_fs g1" "e_manifest e" data] wa b1 by (simp add: books_saved_def)
  moreover have "old_snapshots ?root seq s fs2" for s
    by (rule old_snapshots_frame [of _ _ _ "g_fs g1"]) (use b1 fr in \<open>auto simp: books_saved_def\<close>)
  moreover have "saved E ?root seq s (se_OrderBook se) fs2" if "e_shard e s = Some se" for s se
    by (rule saved_frame [of _ _ _ _ _ "g_fs g1"]) (use b1 fr W(2) that in \<open>auto simp: books_saved_def\<close>)
  moreover have "e_shard e (last p) \<noteq> None" if p: "p \<in> set (sf_dirs fs2)" "in_dir ?root p" for p
  proof -
    have "length p = Suc (length ?root)" using p(2) by (auto simp: in_dir_def) (metis append_butlast_last_id length_append_singleton)
    then have "p \<in> set (sf_dirs (g_fs g1))" using W(1) p(1) bm(1) by auto
    with b1 p(2) show ?thesis by (simp add: books_saved_def)
  qed
  ultimately have "books_saved E seq e (dom (e_shard e)) fs2" unfolding books_saved_def by blast
  moreover have "?root \<in> set (sf_dirs fs2)" using W(3) bm(1) root by simp
  moreover have "fs_file fs2 (e_manifest e) = Some \<lparr> f_data = data, f_synced = length data \<rparr>"
    using writeAtomic_file(1) [OF wa] mf by simp
  moreover have "unmarshal_manifest (env_snap E) data = Some mm" using C md by (simp add: snap_codec_ok_def)
  moreover have "mf_RecoveredOffset mm = seq" by (simp add: mm_def)
  ultimately show ?thesis unfolding y(2) by blast
qed

section \<open>What loading restores\<close>

lemma LatestPath_saved:
  assumes "saved E root seq s b fs"
  shows "LatestPath (root @ [s]) fs = Some (root @ [s, Filename seq])"
proof (rule LatestPath_max)
  show "is_snapshot (root @ [s]) (root @ [s, Filename seq])" using is_snapshot_Filename [of "root @ [s]" seq] by simp
  show "fs_file fs (root @ [s, Filename seq]) \<noteq> None" using assms by (auto simp: saved_def)
  show "by_seq q < by_seq (root @ [s, Filename seq])"
    if "is_snapshot (root @ [s]) q" "fs_file fs q \<noteq> None" "q \<noteq> root @ [s, Filename seq]" for q
    using assms that by_seq_Filename [of "root @ [s]" seq] by (auto simp: saved_def old_snapshots_def)
qed

lemma saved_crash:
  assumes "saved E root seq s b fs" and cr: "fs_crash fs fs'"
  shows "saved E root seq s b fs'"
proof -
  have "fs_file fs' p = Some \<lparr> f_data = data, f_synced = length data \<rparr>"
    if "fs_file fs p = Some \<lparr> f_data = data, f_synced = length data \<rparr>" for p data
    using fs_crash_file [OF cr, of p] that by auto
  moreover have "sf_dirs fs' = sf_dirs fs" using cr by (simp add: fs_crash_def)
  moreover have "old_snapshots root seq s fs'"
    using assms fs_crash_snapshots [OF cr] by (simp add: saved_def old_snapshots_def)
  ultimately show ?thesis using assms(1) unfolding saved_def by metis
qed

lemma saved_pos [simp]: "saved E root seq s b (fs\<lparr>sf_pos := n\<rparr>) = saved E root seq s b fs"
  by (simp add: saved_def old_snapshots_def state_simps)

definition no_failure :: "snap_fs \<Rightarrow> bool" where
  "no_failure fs \<longleftrightarrow> (\<forall>n. sf_io fs n = None)"

lemma snap_Load_saved:
  assumes C: "snap_codec_ok (env_snap E)" and sv: "saved E root seq s b fs" and nf: "no_failure fs"
  obtains snap n where "snap_Load (env_snap E) (root @ [s, Filename seq]) fs = (Inr snap, fs\<lparr>sf_pos := n\<rparr>)"
    "exported E seq b snap"
proof -
  obtain m data where m: "exported E seq b m"
    "marshal_snapshot (env_snap E) (m\<lparr>s_Checksum := ComputeChecksum (env_snap E) (Some m)\<rparr>) = Some data"
    "fs_file fs (root @ [s, Filename seq]) = Some \<lparr> f_data = data, f_synced = length data \<rparr>"
    using sv by (auto simp: saved_def)
  let ?m = "norm_snapshot (m\<lparr>s_Checksum := ComputeChecksum (env_snap E) (Some m)\<rparr>)"
  have "unmarshal_snapshot (env_snap E) data = Some ?m" using C m(2) by (simp add: snap_codec_ok_def)
  moreover have "VerifyChecksum (env_snap E) (Some ?m) = None"
    by (simp add: VerifyChecksum_def ComputeChecksum_def norm_snapshot_def)
  ultimately have "snap_Load (env_snap E) (root @ [s, Filename seq]) fs = (Inr ?m, fs\<lparr>sf_pos := Suc (sf_pos fs)\<rparr>)"
    using m(3) nf by (simp add: snap_Load_def fs_read_def fs_call_def Let_def state_simps no_failure_def)
  moreover have "exported E seq b ?m"
    using m(1) by (auto simp: exported_def norm_snapshot_def ValidateWithOrderMap_def split: option.splits if_splits)
  ultimately show thesis using that by blast
qed

definition snapshot_ok :: "('d::linordered_idom) order_book \<Rightarrow> bool" where
  "snapshot_ok b \<longleftrightarrow> book_ok b \<and> (\<forall>x \<in> book_orders b. order_valid x \<and> o_UpdateTime x \<noteq> 0)"

lemma restoreSymbol_exported:
  assumes L: "codec_ok (env_libs E)" and b: "snapshot_ok b" and ex: "exported E seq b snap"
  shows "\<exists>se. restoreSymbol E snap (e, g) = (None, e\<lparr>e_shard := (e_shard e)(b_Symbol b \<mapsto> se)\<rparr>, g) \<and> se_OrderBook se = b"
proof -
  have v: "order_valid x \<and> o_UpdateTime x \<noteq> 0" if "x \<in> set (book_list w b)" for w x
    using that b by (auto simp: snapshot_ok_def book_orders_def)
  have s: "s_Symbol snap = b_Symbol b" "s_Bids snap = exportLevels (env_libs E) SideBuy b"
    "s_Asks snap = exportLevels (env_libs E) SideSell b" "ValidateWithOrderMap b (s_OrderMap snap) = None" using ex by (simp_all add: exported_def)
  have bo: "book_ok b" using b by (simp add: snapshot_ok_def)
  have r: "RestoreFromSnapshot (env_libs E) (Some snap) (b0, clk) = (None, b, clk)" for b0 clk
    using restore_exported [OF L bo v] Validate_ok [OF bo] by (simp add: RestoreFromSnapshot_def s)
  have u: "sh'(k \<mapsto> x) = sh(k \<mapsto> x)" if "shard_Symbol k sh = (se, sh')" for k sh se sh' x
    using that by (auto simp: shard_Symbol_def Let_def split: option.splits)
  obtain x1 x2 where x: "shard_Symbol (b_Symbol b) (e_shard e) = (x1, x2)" by (metis surj_pair)
  have "restoreSymbol E snap (e, g) = (None, e\<lparr>e_shard := x2(b_Symbol b \<mapsto> x1\<lparr>se_OrderBook := b\<rparr>)\<rparr>, g)"
    by (simp add: restoreSymbol_def r s x)
  then show ?thesis unfolding u [OF x] by (intro exI [of _ "x1\<lparr>se_OrderBook := b\<rparr>"]) simp
qed

definition restored :: "'d shard \<Rightarrow> string \<Rightarrow> 'd order_book \<Rightarrow> bool" where
  "restored sh s b \<longleftrightarrow> (\<exists>se. sh s = Some se \<and> se_OrderBook se = b)"

lemma load_symbols_restored:
  assumes L: "codec_ok (env_libs E)" and C: "snap_codec_ok (env_snap E)"
    and bk: "\<And>s. s \<in> dom bks \<Longrightarrow> snapshot_ok (the (bks s)) \<and> b_Symbol (the (bks s)) = s"
  shows "set ss \<subseteq> dom bks \<Longrightarrow> no_failure (g_fs g) \<Longrightarrow>
     (\<forall>s b. bks s = Some b \<longrightarrow> saved E (e_snapRoot e) seq s b (g_fs g)) \<Longrightarrow>
     (\<forall>s \<in> D. \<forall>b. bks s = Some b \<longrightarrow> restored (e_shard e) s b) \<Longrightarrow>
     \<exists>e' g'. load_symbols E ss off (e, g) = (Inr (if ss = [] then off else max off seq), e', g') \<and>
       (\<forall>s \<in> set ss \<union> D. \<forall>b. bks s = Some b \<longrightarrow> restored (e_shard e') s b)"
proof (induction ss arbitrary: off e g D)
  case Nil
  then show ?case by simp
next
  case (Cons s ss)
  obtain b where b: "bks s = Some b" using Cons.prems(1) by auto
  have sv: "saved E (e_snapRoot e) seq s b (g_fs g)" using Cons.prems(3) b by blast
  let ?p = "e_snapRoot e @ [s, Filename seq]"
  have lp: "LatestPath (e_snapRoot e @ [s]) (g_fs g) = Some ?p" by (rule LatestPath_saved [OF sv])
  obtain snap n where ld: "snap_Load (env_snap E) ?p (g_fs g) = (Inr snap, (g_fs g)\<lparr>sf_pos := n\<rparr>)"
    and ex: "exported E seq b snap" by (rule snap_Load_saved [OF C sv Cons.prems(2)])
  have bs: "snapshot_ok b" "b_Symbol b = s" using bk [of s] b by auto
  let ?g = "g\<lparr>g_fs := (g_fs g)\<lparr>sf_pos := n\<rparr>\<rparr>"
  obtain se where rs: "restoreSymbol E snap (e, ?g) = (None, e\<lparr>e_shard := (e_shard e)(s \<mapsto> se)\<rparr>, ?g)"
    and se: "se_OrderBook se = b" using restoreSymbol_exported [OF L bs(1) ex] bs(2) by metis
  let ?e = "e\<lparr>e_shard := (e_shard e)(s \<mapsto> se)\<rparr>" and ?off = "if off < s_SeqId snap then s_SeqId snap else off"
  have "\<exists>e' g'. load_symbols E ss ?off (?e, ?g) = (Inr (if ss = [] then ?off else max ?off seq), e', g') \<and>
      (\<forall>t \<in> set ss \<union> insert s D. \<forall>c. bks t = Some c \<longrightarrow> restored (e_shard e') t c)"
  proof (rule Cons.IH)
    show "set ss \<subseteq> dom bks" using Cons.prems(1) by auto
    show "no_failure (g_fs ?g)" using Cons.prems(2) by (simp add: no_failure_def)
    show "\<forall>t c. bks t = Some c \<longrightarrow> saved E (e_snapRoot ?e) seq t c (g_fs ?g)" using Cons.prems(3) by simp
    show "\<forall>t \<in> insert s D. \<forall>c. bks t = Some c \<longrightarrow> restored (e_shard ?e) t c"
      using Cons.prems(4) se b by (auto simp: restored_def)
  qed
  moreover have off: "?off = max off seq" using ex by (auto simp: max_def exported_def)
  moreover have "(if ss = [] then max off seq else max (max off seq) seq) = max off seq" by simp
  ultimately obtain e' g' where l: "load_symbols E ss (max off seq) (?e, ?g) = (Inr (max off seq), e', g')"
    "\<forall>t \<in> set ss \<union> insert s D. \<forall>c. bks t = Some c \<longrightarrow> restored (e_shard e') t c" unfolding off by auto
  have "load_symbols E (s # ss) off (e, g) = load_symbols E ss (max off seq) (?e, ?g)"
    using lp ld rs off by (simp del: fun_upd_apply)
  with l show ?case by auto
qed

text \<open>The directories found after the crash are those of the shard's symbols.\<close>

lemma listSymbolDirs_saved:
  assumes bs: "books_saved E seq e (dom (e_shard e)) fs" and root: "e_snapRoot e \<in> set (sf_dirs fs)" and nf: "no_failure fs"
  shows "\<exists>ss n. listSymbolDirs (e_snapRoot e) fs = (Inr ss, fs\<lparr>sf_pos := n\<rparr>) \<and> set ss = dom (e_shard e)"
proof -
  have "last ` {p \<in> set (sf_dirs fs). in_dir (e_snapRoot e) p} = dom (e_shard e)"
  proof (intro set_eqI iffI)
    fix s assume "s \<in> dom (e_shard e)"
    then have "e_snapRoot e @ [s] \<in> set (sf_dirs fs)" using bs by (auto simp: books_saved_def saved_def)
    then show "s \<in> last ` {p \<in> set (sf_dirs fs). in_dir (e_snapRoot e) p}"
      by (intro image_eqI [of _ _ "e_snapRoot e @ [s]"]) (auto simp: in_dir_def)
  qed (use bs in \<open>auto simp: books_saved_def\<close>)
  with root nf show ?thesis by (auto simp: listSymbolDirs_def fs_call_def Let_def no_failure_def)
qed

lemma books_saved_crash:
  assumes "books_saved E seq e S fs" and "fs_crash fs fs'" and "fs_ok fs'"
  shows "books_saved E seq e S fs'"
proof -
  have "sf_dirs fs' = sf_dirs fs" using assms(2) by (simp add: fs_crash_def)
  moreover have "\<forall>s \<in> S. \<forall>se. e_shard e s = Some se \<longrightarrow> saved E (e_snapRoot e) seq s (se_OrderBook se) fs'"
    using assms(1) by (auto simp: books_saved_def intro: saved_crash [OF _ assms(2)])
  ultimately show ?thesis using assms(1,3) fs_crash_snapshots [OF assms(2)]
    by (simp add: books_saved_def old_snapshots_def)
qed

section \<open>Property\<close>


text \<open>The order map of an exported book agrees with its levels.\<close>

lemma export_validates:
  assumes "book_ok b" "ExportSnapshot L sid seq t (b, clk) = (snap, clk')"
  shows "ValidateWithOrderMap b (s_OrderMap snap) = None"
proof -
  let ?m = "\<lambda>k. map_option (OrderToProto L) (ActiveOrders b k)"
  have m: "ActiveOrders b k = orderMap b k" for k
    using book_okD(4) [OF assms(1), of k "the (orderMap b k)"] by (cases "orderMap b k") (simp_all add: ActiveOrders_def)
  have om: "s_OrderMap snap = Some ?m" using assms(2) by (auto simp: ExportSnapshot_def split_beta)
  have d: "dom ?m = o_OrderID ` (set (book_list Bids b) \<union> set (book_list Asks b))"
    using book_okD(4) [OF assms(1)] by (auto simp: m dom_def ex_book_side)
  have "card (dom ?m) = card (set (bids b)) + card (set (asks b))"
  proof -
    have "inj_on o_OrderID (set (book_list Bids b) \<union> set (book_list Asks b))"
      unfolding inj_on_def using book_ok_same_id [OF assms(1)] by (metis Un_iff)
    moreover have "set (book_list Bids b) \<inter> set (book_list Asks b) = {}"
      using book_ok_same_id [OF assms(1)] by blast
    ultimately show ?thesis unfolding d by (simp add: card_image card_Un_disjoint)
  qed
  also have "\<dots> = ActiveOrderCount b"
    using book_ok_distinct_ids [OF assms(1), of Bids] book_ok_distinct_ids [OF assms(1), of Asks]
    by (auto simp: ActiveOrderCount_def distinct_map distinct_card)
  finally have "card (dom ?m) = ActiveOrderCount b" .
  moreover have "findInBook k b" if "k \<in> dom ?m" for k
    using that by (auto simp: findInBook_iff [OF assms(1)] m dom_def)
  ultimately show ?thesis unfolding om ValidateWithOrderMap_def Validate_ok [OF assms(1)] option.case by auto
qed

text \<open>When no call fails, writing succeeds.\<close>

lemma writeAtomic_succeeds:
  assumes "no_failure fs"
  shows "\<exists>fs'. writeAtomic p data fs = (None, fs') \<and> no_failure fs'"
proof -
  have c: "\<exists>fs'. fs_mkdirAll d fs = (True, fs') \<and> no_failure fs'" "\<exists>fs'. fs_create q fs = (True, fs') \<and> no_failure fs' \<and> fs_file fs' q \<noteq> None"
    "\<exists>fs'. fs_write q x fs = (True, fs') \<and> no_failure fs' \<and> (fs_file fs q \<noteq> None \<longrightarrow> fs_file fs' q \<noteq> None)"
    "\<exists>fs'. fs_sync q fs = (True, fs') \<and> no_failure fs' \<and> (fs_file fs q \<noteq> None \<longrightarrow> fs_file fs' q \<noteq> None)"
    "\<exists>fs'. fs_close fs = (True, fs') \<and> no_failure fs' \<and> (fs_file fs q \<noteq> None \<longrightarrow> fs_file fs' q \<noteq> None)"
    "fs_file fs q \<noteq> None \<Longrightarrow> \<exists>fs'. fs_rename q r fs = (True, fs') \<and> no_failure fs'"
    if "no_failure fs" for fs d q r x
    using that by (auto simp: fs_call_defs no_failure_def fs_put_def fs_del_def state_simps fs_file_def update_conv Let_def
        split: option.splits)
  obtain fs1 where 1: "fs_mkdirAll (butlast p) fs = (True, fs1)" "no_failure fs1" using c(1) [OF assms] by blast
  let ?t = "tmp_path p"
  obtain fs2 where 2: "fs_create ?t fs1 = (True, fs2)" "no_failure fs2" "fs_file fs2 ?t \<noteq> None" using c(2) [OF 1(2)] by blast
  obtain fs3 where 3: "fs_write ?t data fs2 = (True, fs3)" "no_failure fs3" "fs_file fs3 ?t \<noteq> None"
    using c(3) [OF 2(2)] 2(3) by blast
  obtain fs4 where 4: "fs_sync ?t fs3 = (True, fs4)" "no_failure fs4" "fs_file fs4 ?t \<noteq> None"
    using c(4) [OF 3(2)] 3(3) by blast
  obtain fs5 where 5: "fs_close fs4 = (True, fs5)" "no_failure fs5" "fs_file fs5 ?t \<noteq> None"
    using c(5) [OF 4(2)] 4(3) by blast
  obtain fs6 where 6: "fs_rename ?t p fs5 = (True, fs6)" "no_failure fs6" using c(6) [OF 5(2,3)] by blast
  show ?thesis by (simp add: writeAtomic_def Let_def 1(1) 2(1) 3(1) 4(1) 5(1) 6)
qed

lemma Prune_succeeds: "no_failure fs \<Longrightarrow> \<exists>fs'. Prune dir keep fs = (None, fs') \<and> no_failure fs'"
proof -
  have "\<exists>fs'. remove_paths ps fs = (None, fs') \<and> no_failure fs'" if "no_failure fs" for ps fs
    using that
  proof (induction ps arbitrary: fs)
    case (Cons p ps)
    have "fs_remove p fs = (True, snd (fs_remove p fs))" "no_failure (snd (fs_remove p fs))"
      using Cons.prems by (simp_all add: fs_call_defs no_failure_def fs_del_def)
    then obtain fs1 where "fs_remove p fs = (True, fs1)" "no_failure fs1" by blast
    with Cons.IH [of fs1] show ?case by simp
  qed simp
  then show "no_failure fs \<Longrightarrow> \<exists>fs'. Prune dir keep fs = (None, fs') \<and> no_failure fs'" by (simp add: Prune_def Let_def)
qed

text \<open>A coding of exactly the messages that the engine of the witness writes.\<close>

definition wit_export :: pb_snapshot where
  "wit_export = fst (ExportSnapshot int_libs ''s1'' 12 1001 (wit_book, wit_clock))"

definition wit_manifest :: manifest where
  "wit_manifest = \<lparr> mf_ShardId = ''s1'', mf_RecoveredOffset = 12, mf_SymbolSeq = [''BTC-USDT'' \<mapsto> 12], mf_UpdatedAtUnixNano = unix_nano 1000 \<rparr>"

definition wit_restart_codec :: snap_codec where
  "wit_restart_codec =
     \<lparr> marshal_snapshot = (\<lambda>m. if m\<lparr>s_Checksum := 0\<rparr> = wit_export then Some (le_bytes 8 (s_Checksum m)) else None),
       unmarshal_snapshot = (\<lambda>b. if length b = 8 then Some (norm_snapshot (wit_export\<lparr>s_Checksum := of_le_bytes b\<rparr>)) else None),
       marshal_level = (\<lambda>lv. Some (map of_char (GetValue (l_Price lv)))),
       marshal_manifest = (\<lambda>m. if m = wit_manifest then Some [1] else None), unmarshal_manifest = (\<lambda>b. Some wit_manifest) \<rparr>"

definition wit_restart_env :: "int env" where
  "wit_restart_env = wit_env\<lparr>env_snap := wit_restart_codec\<rparr>"

lemma wit_restart_codec_ok: "snap_codec_ok wit_restart_codec"
proof -
  have "wit_export\<lparr>s_Checksum := s_Checksum m\<rparr> = m" if m: "m\<lparr>s_Checksum := 0\<rparr> = wit_export" for m
    unfolding m [symmetric] by simp
  then show ?thesis by (auto simp: snap_codec_ok_def wit_restart_codec_def split: if_splits)
qed

lemma wit_write:
  "\<exists>e1 g1. writeSnapshots wit_restart_env 12 (wit_engine w, wit_world d wit_clock) = (None, e1, g1) \<and> fs_ok (g_fs g1) \<and> no_failure (g_fs g1)"
proof -
  let ?fs = "wit_fs [] (\<lambda>_. None)" and ?p = "[''snap'', ''BTC-USDT'', Filename 12]"
  have nf: "no_failure ?fs" by (simp add: no_failure_def wit_fs_def)
  have n1: "now wit_clock = (1000, fst wit_clock, 1)" "now (fst wit_clock, 1) = (1001, fst wit_clock, 2)"
    by (simp_all add: now_def wit_clock_def)
  have ex: "ExportSnapshot int_libs ''s1'' 12 1001 (wit_book, fst wit_clock, 2) = (wit_export, fst wit_clock, 2)"
    by (simp add: wit_export_def ExportSnapshot_def Let_def split_beta)
  have v: "ValidateWithOrderMap wit_book (s_OrderMap wit_export) = None"
    using export_validates [OF wit_book_ok ex] .
  let ?m = "wit_export\<lparr>s_Checksum := ComputeChecksum wit_restart_codec (Some wit_export)\<rparr>"
  have c0: "s_Checksum wit_export = 0" by (simp add: wit_export_def ExportSnapshot_def Let_def split_beta)
  have m: "marshal_snapshot wit_restart_codec ?m = Some (le_bytes 8 (s_Checksum ?m))"
    using c0 by (simp add: wit_restart_codec_def)
  obtain fs1 where a: "writeAtomic ?p (le_bytes 8 (s_Checksum ?m)) ?fs = (None, fs1)" "no_failure fs1"
    using writeAtomic_succeeds [OF nf] by blast
  obtain fs2 where b: "Prune [''snap'', ''BTC-USDT''] DefaultKeep fs1 = (None, fs2)" "no_failure fs2"
    using Prune_succeeds [OF a(2)] by blast
  obtain fs3 where c: "writeAtomic [''snap'', ''manifest.pb''] [1] fs2 = (None, fs3)" "no_failure fs3"
    using writeAtomic_succeeds [OF b(2)] by blast
  have "fs_ok ?fs" by (simp add: fs_ok_def wit_fs_def)
  from writeAtomic_ok [OF this, of ?p "le_bytes 8 (s_Checksum ?m)"] a(1) have "fs_ok fs1" by simp
  with Prune_keeps [OF b(1)] have "fs_ok fs2" by blast
  from writeAtomic_ok [OF this, of "[''snap'', ''manifest.pb'']" "[1]"] c(1) have "fs_ok fs3" by simp
  moreover have "snap_Save wit_restart_codec ?p (Some wit_export) ?fs = (None, fs1)"
    unfolding snap_Save_def Let_def option.case m using a(1) by simp
  moreover have "marshal_manifest wit_restart_codec \<lparr> mf_ShardId = ''s1'', mf_RecoveredOffset = 12,
      mf_SymbolSeq = [''BTC-USDT'' \<mapsto> 12], mf_UpdatedAtUnixNano = unix_nano 1000 \<rparr> = Some [1]"
    by (simp add: wit_restart_codec_def wit_manifest_def)
  ultimately show ?thesis using n1 ex v b c
    by (simp add: split_beta writeSnapshots_def wit_engine_def wit_world_def wit_restart_env_def wit_env_def wit_config_def
       wit_shard_def Register_def NewShard_def NewSymbolEngine_def shard_Symbols_def shard_Get_def SaveManifest_def)
qed



end
