(* ===== verification/OrderDb.thy ===== *)
theory OrderDb
  imports Recovery OrderStatus
begin

text \<open>
  The database of the order service as \<open>internal/order/repository\<close> uses it: tables as lists
  of rows, SQL statements that may fail, and transactions. A transaction is atomic: the rows
  it reads are locked (\<open>FOR UPDATE\<close>) or changed by one statement, so its effect is that of
  running it alone. \<open>NUMERIC\<close> columns hold decimals exactly.
\<close>

section \<open>Rows and tables\<close>

record 'd order_row =
  or_ID :: uint64
  or_UserID :: uint64
  or_ClientOrderID :: string
  or_Symbol :: string
  or_Side :: int
  or_OrderType :: int
  or_Price :: "'d option"
  or_FreezePrice :: "'d option"
  or_FreezeSlippage :: "'d option"
  or_FrozenAmount :: "'d option"
  or_Quantity :: 'd
  or_FilledQuantity :: 'd
  or_Status :: string
  or_Version :: int
  or_CreatedAt :: time
  or_UpdatedAt :: time

record 'd balance_row =
  br_UserID :: uint64
  br_Asset :: string
  br_Balance :: 'd
  br_Frozen :: 'd
  br_Version :: int

record outbox_row =
  ob_ID :: uint64
  ob_AggregateID :: uint64
  ob_EventType :: string
  ob_Payload :: bytes
  ob_Topic :: string
  ob_PartitionKey :: string
  ob_CreatedAt :: time
  ob_PublishedAt :: "time option"
  ob_RetryCount :: int

record trade_apply =
  ta_TradeID :: uint64
  ta_Symbol :: string
  ta_Price :: string
  ta_Quantity :: string
  ta_MakerOrderID :: uint64
  ta_TakerOrderID :: uint64
  ta_WalSeq :: uint64

text \<open>
  \<open>t_idem\<close> is \<open>client_order_idempotency\<close>, \<open>t_processed\<close> is \<open>processed_match_events\<close>
  (order, WAL number, event type), \<open>t_adjusted\<close> is \<open>balance_adjust_idempotency\<close>.
\<close>

record 'd tables =
  t_orders :: "'d order_row list"
  t_idem :: "(uint64 \<times> string) \<rightharpoonup> uint64"
  t_outbox :: "outbox_row list"
  t_trades :: "(trade_apply \<times> time) list"
  t_balances :: "'d balance_row list"
  t_processed :: "(uint64 \<times> uint64 \<times> int) set"
  t_adjusted :: "(uint64 \<times> string \<times> uint64) set"

section \<open>Statements and transactions\<close>

text \<open>
  The outcome of each call to the server: done, failed without effect, or done with the
  answer lost. Sequences (\<open>nextval\<close>, identity columns) are not rolled back.
\<close>

datatype call_outcome = Done | Failed | Lost

record 'd db =
  db_tables :: "'d tables"
  db_nextOrder :: uint64
  db_nextOutbox :: uint64
  db_now :: time
  db_calls :: "nat \<Rightarrow> call_outcome"
  db_pos :: nat

type_synonym ('d, 'a) tx = "'d db \<Rightarrow> (err + 'a) \<times> 'd db"

definition return_tx :: "'a \<Rightarrow> ('d, 'a) tx" where
  "return_tx x db = (Inr x, db)"

definition fail_tx :: "err \<Rightarrow> ('d, 'a) tx" where
  "fail_tx e db = (Inl e, db)"

definition bind_tx :: "('d, 'a) tx \<Rightarrow> ('a \<Rightarrow> ('d, 'b) tx) \<Rightarrow> ('d, 'b) tx" where
  "bind_tx m f db = (case m db of (Inl e, db1) \<Rightarrow> (Inl e, db1) | (Inr x, db1) \<Rightarrow> f x db1)"

definition lift_tx :: "err + 'a \<Rightarrow> ('d, 'a) tx" where
  "lift_tx r db = (r, db)"

definition db_call :: "'d db \<Rightarrow> call_outcome \<times> 'd db" where
  "db_call db = (db_calls db (db_pos db), db\<lparr>db_pos := Suc (db_pos db)\<rparr>)"

text \<open>
  A statement inside a transaction; \<open>stmt_err\<close> may also be rejected by the server. A
  statement on its own commits by itself, and a lost answer reports an error.
\<close>

definition stmt_err :: "string \<Rightarrow> ('d tables \<Rightarrow> (err + 'a) \<times> 'd tables) \<Rightarrow> ('d, 'a) tx" where
  "stmt_err what f db =
     (let (oc, db1) = db_call db
      in if oc \<noteq> Done then (Inl (ErrMsg what), db1)
         else (case f (db_tables db1) of
                 (Inl e, _) \<Rightarrow> (Inl e, db1)
               | (Inr x, t) \<Rightarrow> (Inr x, db1\<lparr>db_tables := t\<rparr>)))"

definition stmt :: "string \<Rightarrow> ('d tables \<Rightarrow> 'a \<times> 'd tables) \<Rightarrow> ('d, 'a) tx" where
  "stmt what f = stmt_err what (\<lambda>t. let (x, t1) = f t in (Inr x, t1))"

definition query :: "string \<Rightarrow> ('d tables \<Rightarrow> 'a) \<Rightarrow> ('d, 'a) tx" where
  "query what f = stmt what (\<lambda>t. (f t, t))"

definition auto_stmt :: "string \<Rightarrow> ('d tables \<Rightarrow> 'a \<times> 'd tables) \<Rightarrow> ('d, 'a) tx" where
  "auto_stmt what f db =
     (let (oc, db1) = db_call db; (x, t) = f (db_tables db1)
      in case oc of
           Done \<Rightarrow> (Inr x, db1\<lparr>db_tables := t\<rparr>)
         | Failed \<Rightarrow> (Inl (ErrMsg what), db1)
         | Lost \<Rightarrow> (Inl (ErrMsg what), db1\<lparr>db_tables := t\<rparr>))"

text \<open>
  \<open>Begin\<close>, the body, and \<open>defer Rollback\<close>: a body that fails or returns without
  \<open>Commit\<close> leaves the tables as they were.
\<close>

datatype 'a tx_end = Commit 'a | Discard 'a

definition rollback :: "'d db \<Rightarrow> 'd db \<Rightarrow> 'd db" where
  "rollback db0 db = db\<lparr>db_tables := db_tables db0\<rparr>"

definition transaction :: "('d, 'a tx_end) tx \<Rightarrow> ('d, 'a) tx" where
  "transaction body db =
     (let (oc, db1) = db_call db
      in if oc \<noteq> Done then (Inl (ErrMsg ''begin tx''), db1)
         else (case body db1 of
                 (Inl e, db2) \<Rightarrow> (Inl e, rollback db1 db2)
               | (Inr (Discard x), db2) \<Rightarrow> (Inr x, rollback db1 db2)
               | (Inr (Commit x), db2) \<Rightarrow>
                   (let (oc2, db3) = db_call db2
                    in case oc2 of
                         Done \<Rightarrow> (Inr x, db3)
                       | Failed \<Rightarrow> (Inl (ErrMsg ''commit tx''), rollback db1 db3)
                       | Lost \<Rightarrow> (Inl (ErrMsg ''commit tx''), db3))))"

text \<open>\<open>UPDATE ... WHERE\<close>: the number of rows affected and the new table.\<close>

definition update_rows :: "('r \<Rightarrow> bool) \<Rightarrow> ('r \<Rightarrow> 'r) \<Rightarrow> 'r list \<Rightarrow> nat \<times> 'r list" where
  "update_rows P f rs = (length (filter P rs), map (\<lambda>r. if P r then f r else r) rs)"

section \<open>Statements that keep an invariant\<close>

text \<open>
  The interface of an invariant of the tables with the operations: when every statement
  keeps it, so does every transaction, whatever calls fail.
\<close>

definition tx_keeps :: "('d tables \<Rightarrow> bool) \<Rightarrow> ('d, 'a) tx \<Rightarrow> bool" where
  "tx_keeps I m \<longleftrightarrow> (\<forall>db. I (db_tables db) \<longrightarrow> I (db_tables (snd (m db))))"

lemma tx_keepsD: "tx_keeps I m \<Longrightarrow> I (db_tables db) \<Longrightarrow> m db = (r, db') \<Longrightarrow> I (db_tables db')"
  unfolding tx_keeps_def by (metis snd_conv)

lemma keeps_snd: "tx_keeps I m \<Longrightarrow> I (db_tables db) \<Longrightarrow> I (db_tables (snd (m db)))"
  by (simp add: tx_keeps_def)

lemma keeps_return [inv_intros]: "tx_keeps I (return_tx x)"
  by (simp add: tx_keeps_def return_tx_def)

lemma keeps_fail [inv_intros]: "tx_keeps I (fail_tx e)"
  by (simp add: tx_keeps_def fail_tx_def)

lemma keeps_lift [inv_intros]: "tx_keeps I (lift_tx r)"
  by (simp add: tx_keeps_def lift_tx_def)

lemma keeps_bind [inv_intros]: "tx_keeps I m \<Longrightarrow> (\<And>x. tx_keeps I (f x)) \<Longrightarrow> tx_keeps I (bind_tx m f)"
  by (fastforce simp: tx_keeps_def bind_tx_def split: prod.splits sum.splits)

lemma keeps_if [inv_intros]: "(b \<Longrightarrow> tx_keeps I m) \<Longrightarrow> (\<not> b \<Longrightarrow> tx_keeps I n) \<Longrightarrow> tx_keeps I (if b then m else n)"
  by simp

lemma keeps_option [inv_intros]:
  "tx_keeps I m \<Longrightarrow> (\<And>x. tx_keeps I (f x)) \<Longrightarrow> tx_keeps I (case y of None \<Rightarrow> m | Some x \<Rightarrow> f x)"
  by (cases y) simp_all

lemma keeps_sum [inv_intros]:
  "(\<And>e. tx_keeps I (g e)) \<Longrightarrow> (\<And>x. tx_keeps I (f x)) \<Longrightarrow> tx_keeps I (case y of Inl e \<Rightarrow> g e | Inr x \<Rightarrow> f x)"
  by (cases y) simp_all

lemma keeps_pair [inv_intros]: "(\<And>x y. tx_keeps I (f x y)) \<Longrightarrow> tx_keeps I (case p of (x, y) \<Rightarrow> f x y)"
  by (cases p) simp

lemma db_call_tables [simp]: "db_tables (snd (db_call db)) = db_tables db"
  by (simp add: db_call_def)

lemma keeps_stmt_err:
  "(\<And>t x t'. I t \<Longrightarrow> f t = (Inr x, t') \<Longrightarrow> I t') \<Longrightarrow> tx_keeps I (stmt_err what f)"
  by (auto simp: tx_keeps_def stmt_err_def db_call_def split: prod.splits sum.splits)

lemma keeps_stmt: "(\<And>t. I t \<Longrightarrow> I (snd (f t))) \<Longrightarrow> tx_keeps I (stmt what f)"
  unfolding stmt_def by (rule keeps_stmt_err) (auto simp: split_beta)

lemma keeps_query [inv_intros]: "tx_keeps I (query what f)"
  unfolding query_def by (rule keeps_stmt) simp

lemma keeps_auto_stmt: "(\<And>t. I t \<Longrightarrow> I (snd (f t))) \<Longrightarrow> tx_keeps I (auto_stmt what f)"
  by (auto simp: tx_keeps_def auto_stmt_def db_call_def Let_def split: prod.splits call_outcome.splits) (metis snd_conv)+

lemma keeps_transaction [inv_intros]: "tx_keeps I body \<Longrightarrow> tx_keeps I (transaction body)"
  by (auto simp: tx_keeps_def transaction_def db_call_def rollback_def Let_def
      split: prod.splits sum.splits tx_end.splits call_outcome.splits) (metis snd_conv select_convs(1) surjective update_convs(6))+

end
