(* ===== verification/Ledger.thy ===== *)
theory Ledger
  imports OrderDb
begin

text \<open>
  Model of the accounts of \<open>internal/order/repository\<close>: \<open>balance_ops.go\<close>,
  \<open>balance_query.go\<close>, \<open>balance_update.go\<close>, \<open>freeze.go\<close> and the account part of
  \<open>trade_apply.go\<close>. An amount is either available (\<open>balance\<close>) or frozen for an order.
\<close>

section \<open>Environment\<close>

text \<open>
  \<open>de_numeric\<close> is the text of a \<open>NUMERIC\<close> column (\<open>column::text\<close>); what is relied on
  is that it is not blank and parses to the number.
\<close>

record 'd denv =
  de_libs :: "'d libs"
  de_numeric :: "'d \<Rightarrow> string"
  de_assets :: "asset_registry option"

definition numeric_ok :: "'d denv \<Rightarrow> bool" where
  "numeric_ok D \<longleftrightarrow>
     (\<forall>x. dec_of_string (de_libs D) (de_numeric D x) = Some x \<and> trim_space (de_numeric D x) \<noteq> '''')"

definition default_assets :: "asset_registry option" where
  "default_assets = (case NewAssetRegistry [(''BTC'', 8), (''USDT'', 8)] 8 of Inl _ \<Rightarrow> None | Inr a \<Rightarrow> Some a)"

definition repo_roundDown :: "('d::linordered_idom) denv \<Rightarrow> string \<Rightarrow> 'd \<Rightarrow> 'd" where
  "repo_roundDown D asset amount =
     RoundDown (de_libs D) (if de_assets D = None then default_assets else de_assets D) asset amount"

definition repo_roundUp :: "('d::linordered_idom) denv \<Rightarrow> string \<Rightarrow> 'd \<Rightarrow> 'd" where
  "repo_roundUp D asset amount =
     RoundUp (de_libs D) (if de_assets D = None then default_assets else de_assets D) asset amount"

section \<open>Moving funds\<close>

definition account :: "uint64 \<Rightarrow> string \<Rightarrow> 'd balance_row \<Rightarrow> bool" where
  "account u a r \<longleftrightarrow> br_UserID r = u \<and> br_Asset r = a"

definition update_balances ::
  "('d balance_row \<Rightarrow> bool) \<Rightarrow> ('d balance_row \<Rightarrow> 'd balance_row) \<Rightarrow> 'd tables \<Rightarrow> nat \<times> 'd tables" where
  "update_balances P f t =
     (let (n, rs) = update_rows P (\<lambda>r. f (r\<lparr>br_Version := br_Version r + 1\<rparr>)) (t_balances t)
      in (n, t\<lparr>t_balances := rs\<rparr>))"

definition lockFunds :: "uint64 \<Rightarrow> string \<Rightarrow> ('d::linordered_idom) \<Rightarrow> ('d, unit) tx" where
  "lockFunds u a amount =
     (if amount = 0 then return_tx ()
      else if amount < 0 then fail_tx (ErrMsg ''lock funds: negative amount'')
      else bind_tx
        (stmt ''lock funds update''
           (update_balances (\<lambda>r. account u a r \<and> amount \<le> br_Balance r)
              (\<lambda>r. r\<lparr>br_Balance := br_Balance r - amount, br_Frozen := br_Frozen r + amount\<rparr>)))
        (\<lambda>n. if n = 0 then fail_tx ErrInsufficientBalance else return_tx ()))"

definition releaseFunds :: "uint64 \<Rightarrow> string \<Rightarrow> ('d::linordered_idom) \<Rightarrow> ('d, unit) tx" where
  "releaseFunds u a amount =
     (if amount = 0 then return_tx ()
      else if amount < 0 then fail_tx (ErrMsg ''release funds: negative amount'')
      else bind_tx
        (stmt ''release funds update''
           (update_balances (\<lambda>r. account u a r \<and> 0 < br_Frozen r)
              (\<lambda>r. r\<lparr>br_Balance := br_Balance r + min (br_Frozen r) amount,
                     br_Frozen := br_Frozen r - min (br_Frozen r) amount\<rparr>)))
        (\<lambda>n. if 0 < n then return_tx ()
             else bind_tx (query ''release funds check'' (\<lambda>t. find (account u a) (t_balances t)))
               (\<lambda>row. case row of
                  None \<Rightarrow> fail_tx (ErrMsg ''release funds: no balance row'')
                | Some r \<Rightarrow> if br_Frozen r = 0 then return_tx ()
                            else fail_tx (ErrMsg ''release funds update: no rows affected''))))"

definition consumeFrozen :: "uint64 \<Rightarrow> string \<Rightarrow> ('d::linordered_idom) \<Rightarrow> ('d, unit) tx" where
  "consumeFrozen u a amount =
     (if amount = 0 then return_tx ()
      else if amount < 0 then fail_tx (ErrMsg ''consume frozen: negative amount'')
      else bind_tx
        (stmt ''consume frozen update''
           (update_balances (\<lambda>r. account u a r \<and> amount \<le> br_Frozen r)
              (\<lambda>r. r\<lparr>br_Frozen := br_Frozen r - amount\<rparr>)))
        (\<lambda>n. if n = 0 then fail_tx ErrInsufficientBalance else return_tx ()))"

definition insert_balance :: "'d balance_row \<Rightarrow> 'd tables \<Rightarrow> (err + unit) \<times> 'd tables" where
  "insert_balance r t =
     (if \<exists>x \<in> set (t_balances t). account (br_UserID r) (br_Asset r) x then (Inl (ErrMsg ''insert balance''), t)
      else (Inr (), t\<lparr>t_balances := t_balances t @ [r]\<rparr>))"

definition adjustBalance :: "uint64 \<Rightarrow> string \<Rightarrow> ('d::linordered_idom) \<Rightarrow> ('d, unit) tx" where
  "adjustBalance u a delta =
     (if delta = 0 then return_tx ()
      else bind_tx (query ''select balance'' (\<lambda>t. find (account u a) (t_balances t)))
        (\<lambda>row. case row of
           None \<Rightarrow>
             if delta < 0 then fail_tx ErrInsufficientBalance
             else stmt_err ''insert balance''
               (insert_balance \<lparr> br_UserID = u, br_Asset = a, br_Balance = delta, br_Frozen = 0, br_Version = 0 \<rparr>)
         | Some r \<Rightarrow>
             (let nxt = br_Balance r + delta
              in if nxt < 0 then fail_tx ErrInsufficientBalance
                 else bind_tx
                   (stmt ''update balance''
                      (update_balances (\<lambda>x. account u a x \<and> br_Version x = br_Version r) (\<lambda>x. x\<lparr>br_Balance := nxt\<rparr>)))
                   (\<lambda>n. if n = 0 then fail_tx (ErrMsg ''update balance: concurrent conflict'') else return_tx ()))))"

definition creditBalance :: "uint64 \<Rightarrow> string \<Rightarrow> ('d::linordered_idom) \<Rightarrow> ('d, unit) tx" where
  "creditBalance u a amount = (if amount = 0 then return_tx () else adjustBalance u a amount)"

section \<open>Reading balances and adjusting them\<close>

definition Available :: "('d::linordered_idom) balance_row \<Rightarrow> 'd" where
  "Available b = br_Balance b - br_Frozen b"

definition GetBalance :: "uint64 \<Rightarrow> string \<Rightarrow> ('d, 'd balance_row) tx" where
  "GetBalance u a =
     bind_tx (query ''scan balance'' (\<lambda>t. find (account u a) (t_balances t)))
       (\<lambda>row. case row of None \<Rightarrow> fail_tx ErrBalanceNotFound | Some r \<Rightarrow> return_tx r)"

definition ListBalances :: "uint64 \<Rightarrow> ('d, 'd balance_row list) tx" where
  "ListBalances u = query ''list balances'' (\<lambda>t. sort_key br_Asset (filter (\<lambda>r. br_UserID r = u) (t_balances t)))"

record 'd update_balance_input =
  ub_UserID :: uint64
  ub_Asset :: string
  ub_Business :: string
  ub_BusinessID :: uint64
  ub_Change :: 'd

text \<open>\<open>INSERT ... ON CONFLICT DO NOTHING\<close>: whether a row was inserted.\<close>

definition insert_adjusted :: "uint64 \<times> string \<times> uint64 \<Rightarrow> 'd tables \<Rightarrow> bool \<times> 'd tables" where
  "insert_adjusted k t = (k \<notin> t_adjusted t, t\<lparr>t_adjusted := insert k (t_adjusted t)\<rparr>)"

definition UpdateBalance :: "('d::linordered_idom) update_balance_input \<Rightarrow> ('d, 'd balance_row) tx" where
  "UpdateBalance inp = transaction
     (bind_tx (stmt ''insert balance idempotency'' (insert_adjusted (ub_UserID inp, ub_Business inp, ub_BusinessID inp)))
        (\<lambda>inserted.
           if \<not> inserted then bind_tx (GetBalance (ub_UserID inp) (ub_Asset inp)) (\<lambda>b. return_tx (Commit b))
           else bind_tx (adjustBalance (ub_UserID inp) (ub_Asset inp) (ub_Change inp))
             (\<lambda>_. bind_tx (GetBalance (ub_UserID inp) (ub_Asset inp)) (\<lambda>b. return_tx (Commit b)))))"

text \<open>\<open>SeedBalance\<close>: \<open>ON CONFLICT DO UPDATE\<close>; the amount is parsed by the server.\<close>

definition seed_rows :: "uint64 \<Rightarrow> string \<Rightarrow> ('d::linordered_idom) \<Rightarrow> 'd tables \<Rightarrow> unit \<times> 'd tables" where
  "seed_rows u a x t =
     (if \<exists>r \<in> set (t_balances t). account u a r
      then ((), t\<lparr>t_balances := map (\<lambda>r. if account u a r then r\<lparr>br_Balance := x\<rparr> else r) (t_balances t)\<rparr>)
      else ((), t\<lparr>t_balances := t_balances t @
                 [\<lparr> br_UserID = u, br_Asset = a, br_Balance = x, br_Frozen = 0, br_Version = 0 \<rparr>]\<rparr>))"

definition SeedBalance :: "('d::linordered_idom) denv \<Rightarrow> uint64 \<Rightarrow> string \<Rightarrow> string \<Rightarrow> ('d, unit) tx" where
  "SeedBalance D u a amount =
     (case dec_of_string (de_libs D) amount of
        None \<Rightarrow> fail_tx (ErrMsg ''seed balance'')
      | Some x \<Rightarrow> auto_stmt ''seed balance'' (seed_rows u a x))"

section \<open>What an order freezes\<close>

definition SIDE_BUY :: int where "SIDE_BUY = 1"
definition SIDE_SELL :: int where "SIDE_SELL = 2"

record 'd freeze_spec =
  fz_Asset :: string
  fz_Amount :: 'd

definition ComputeFreeze ::
  "('d::linordered_idom) libs \<Rightarrow> int \<Rightarrow> string \<Rightarrow> string option \<Rightarrow> string \<Rightarrow> string option \<Rightarrow> err + 'd freeze_spec" where
  "ComputeFreeze L side symbolName price quantity frozenAmount =
     (case ParsePair symbolName of
        Inl e \<Rightarrow> Inl e
      | Inr (base, quote) \<Rightarrow>
          (case dec_of_string L quantity of
             None \<Rightarrow> Inl (ErrMsg ''invalid quantity'')
           | Some qty \<Rightarrow>
               if \<not> 0 < qty then Inl (ErrMsg ''invalid quantity'')
               else if side = SIDE_BUY then
                 (if frozenAmount \<noteq> None \<and> the frozenAmount \<noteq> '''' then
                    (case dec_of_string L (the frozenAmount) of
                       None \<Rightarrow> Inl (ErrMsg ''invalid frozen_amount'')
                     | Some a \<Rightarrow> if \<not> 0 < a then Inl (ErrMsg ''invalid frozen_amount'')
                                 else Inr \<lparr> fz_Asset = quote, fz_Amount = a \<rparr>)
                  else if price = None \<or> the price = '''' then
                    Inl (ErrMsg ''price required to freeze quote for buy order'')
                  else (case dec_of_string L (the price) of
                          None \<Rightarrow> Inl (ErrMsg ''invalid price'')
                        | Some p \<Rightarrow> if \<not> 0 < p then Inl (ErrMsg ''invalid price'')
                                    else Inr \<lparr> fz_Asset = quote, fz_Amount = p * qty \<rparr>))
               else if side = SIDE_SELL then Inr \<lparr> fz_Asset = base, fz_Amount = qty \<rparr>
               else Inl (ErrMsg ''invalid side'')))"

text \<open>A persisted order as the code holds it, numbers as text.\<close>

record porder =
  po_ID :: uint64
  po_UserID :: uint64
  po_ClientOrderID :: string
  po_Symbol :: string
  po_Side :: int
  po_OrderType :: int
  po_Price :: "string option"
  po_FreezePrice :: "string option"
  po_FreezeSlippage :: "string option"
  po_FrozenAmount :: "string option"
  po_Quantity :: string
  po_FilledQuantity :: string
  po_Status :: string
  po_Version :: int
  po_CreatedAt :: time
  po_UpdatedAt :: time

definition column_text :: "'d denv \<Rightarrow> 'd option \<Rightarrow> string option" where
  "column_text D c =
     (case c of None \<Rightarrow> None
      | Some x \<Rightarrow> if trim_space (de_numeric D x) \<noteq> '''' then Some (de_numeric D x) else None)"

definition scanOrder :: "'d denv \<Rightarrow> 'd order_row \<Rightarrow> porder" where
  "scanOrder D r =
     \<lparr> po_ID = or_ID r, po_UserID = or_UserID r, po_ClientOrderID = or_ClientOrderID r, po_Symbol = or_Symbol r,
       po_Side = or_Side r, po_OrderType = or_OrderType r, po_Price = column_text D (or_Price r),
       po_FreezePrice = column_text D (or_FreezePrice r), po_FreezeSlippage = column_text D (or_FreezeSlippage r),
       po_FrozenAmount = column_text D (or_FrozenAmount r), po_Quantity = de_numeric D (or_Quantity r),
       po_FilledQuantity = de_numeric D (or_FilledQuantity r), po_Status = or_Status r, po_Version = or_Version r,
       po_CreatedAt = or_CreatedAt r, po_UpdatedAt = or_UpdatedAt r \<rparr>"

definition RemainingFreeze :: "('d::linordered_idom) libs \<Rightarrow> porder \<Rightarrow> err + 'd freeze_spec" where
  "RemainingFreeze L od =
     (case ParsePair (po_Symbol od) of
        Inl e \<Rightarrow> Inl e
      | Inr (base, quote) \<Rightarrow>
          (case dec_of_string L (po_Quantity od) of
             None \<Rightarrow> Inl (ErrMsg ''can't convert to decimal'')
           | Some qty \<Rightarrow>
          (case dec_of_string L (po_FilledQuantity od) of
             None \<Rightarrow> Inl (ErrMsg ''can't convert to decimal'')
           | Some filled \<Rightarrow>
               (let remaining = (if qty - filled < 0 then 0 else qty - filled)
                in if remaining = 0 then Inr \<lparr> fz_Asset = '''', fz_Amount = 0 \<rparr>
                   else if po_Side od = SIDE_SELL then Inr \<lparr> fz_Asset = base, fz_Amount = remaining \<rparr>
                   else if po_Side od = SIDE_BUY then
                     (if po_FrozenAmount od \<noteq> None \<and> the (po_FrozenAmount od) \<noteq> '''' then
                        (case dec_of_string L (the (po_FrozenAmount od)) of
                           None \<Rightarrow> Inl (ErrMsg ''can't convert to decimal'')
                         | Some tot \<Rightarrow>
                             if qty = 0 then Inr \<lparr> fz_Asset = '''', fz_Amount = 0 \<rparr>
                             else Inr \<lparr> fz_Asset = quote, fz_Amount = dec_div L (tot * remaining) qty \<rparr>)
                      else if po_Price od = None \<or> the (po_Price od) = '''' then
                        Inl (ErrMsg ''order price required to release buy freeze'')
                      else (case dec_of_string L (the (po_Price od)) of
                              None \<Rightarrow> Inl (ErrMsg ''can't convert to decimal'')
                            | Some p \<Rightarrow> Inr \<lparr> fz_Asset = quote, fz_Amount = p * remaining \<rparr>))
                   else Inl (ErrMsg ''invalid side'')))))"

definition releaseOrderRemainingFreeze :: "('d::linordered_idom) denv \<Rightarrow> porder \<Rightarrow> ('d, unit) tx" where
  "releaseOrderRemainingFreeze D od =
     bind_tx (lift_tx (RemainingFreeze (de_libs D) od))
       (\<lambda>spec. if fz_Amount spec = 0 then return_tx ()
               else releaseFunds (po_UserID od) (fz_Asset spec) (repo_roundDown D (fz_Asset spec) (fz_Amount spec)))"

definition settleTradeForUser ::
  "('d::linordered_idom) denv \<Rightarrow> uint64 \<Rightarrow> int \<Rightarrow> string \<times> string \<Rightarrow> 'd \<Rightarrow> 'd \<Rightarrow> ('d, unit) tx" where
  "settleTradeForUser D u side pair notional0 qty0 =
     (let qty = repo_roundDown D (fst pair) qty0; notional = repo_roundDown D (snd pair) notional0
      in if side = SIDE_BUY then
           bind_tx (consumeFrozen u (snd pair) notional) (\<lambda>_. creditBalance u (fst pair) qty)
         else if side = SIDE_SELL then
           bind_tx (consumeFrozen u (fst pair) qty) (\<lambda>_. creditBalance u (snd pair) notional)
         else fail_tx (ErrMsg ''settle trade: invalid side''))"

end
