(* ===== verification/OrderRepo.thy ===== *)
theory OrderRepo
  imports Ledger
begin

text \<open>
  Model of the order tables of \<open>internal/order/repository\<close> (\<open>repository.go\<close>,
  \<open>match_apply.go\<close>, \<open>trade_apply.go\<close>, \<open>cancel_apply.go\<close>, \<open>reconcile.go\<close>, the query
  files) and of the command payloads of \<open>internal/order/outbox\<close>.
\<close>

section \<open>Command payloads\<close>

datatype envelope = EnvNewOrder new_order_cmd | EnvCancelOrder cancel_cmd

text \<open>
  The protobuf coding of the envelope is a parameter; what is relied on is that what
  marshals unmarshals to the same envelope.
\<close>

record env_codec =
  marshal_env :: "envelope \<Rightarrow> bytes option"
  unmarshal_env :: "bytes \<Rightarrow> envelope option"

definition env_codec_ok :: "env_codec \<Rightarrow> bool" where
  "env_codec_ok C \<longleftrightarrow> (\<forall>m b. marshal_env C m = Some b \<longrightarrow> unmarshal_env C b = Some m)"

definition EventNewOrderCommand :: string where "EventNewOrderCommand = ''NewOrderCommand''"
definition EventCancelOrderCommand :: string where "EventCancelOrderCommand = ''CancelOrderCommand''"

definition buildNewOrderEnvelope :: "'d libs \<Rightarrow> porder \<Rightarrow> uint64 \<Rightarrow> envelope" where
  "buildNewOrderEnvelope L od commandID =
     EnvNewOrder \<lparr> no_CommandId = commandID,
       no_Order = Some \<lparr> p_OrderId = po_ID od, p_ClientOrderId = po_ClientOrderID od, p_Symbol = po_Symbol od,
         p_CreateTime = Some (ts_new L (po_CreatedAt od)), p_UpdateTime = Some (ts_new L (po_UpdatedAt od)),
         p_Side = po_Side od, p_Type = po_OrderType od, p_Price = po_Price od,
         p_Quantity = Some (po_Quantity od), p_Remaining = Some (po_Quantity od), p_Flags = 0 \<rparr>,
       no_KafkaPartition = 0, no_KafkaOffset = 0 \<rparr>"

definition BuildNewOrderPayload :: "'d libs \<Rightarrow> env_codec \<Rightarrow> porder \<Rightarrow> uint64 \<Rightarrow> bytes option" where
  "BuildNewOrderPayload L C od commandID = marshal_env C (buildNewOrderEnvelope L od commandID)"

definition BuildCancelOrderPayload :: "env_codec \<Rightarrow> string \<Rightarrow> uint64 \<Rightarrow> uint64 \<Rightarrow> bytes option" where
  "BuildCancelOrderPayload C symbolName orderID commandID =
     marshal_env C (EnvCancelOrder \<lparr> co_CommandId = commandID, co_Symbol = symbolName, co_OrderId = orderID,
       co_KafkaPartition = 0, co_KafkaOffset = 0 \<rparr>)"

section \<open>The outbox\<close>

definition allocateOutboxID :: "('d, uint64) tx" where
  "allocateOutboxID db =
     (let (oc, db1) = db_call db
      in if oc \<noteq> Done then (Inl (ErrMsg ''allocate outbox id''), db1)
         else (Inr (db_nextOutbox db1), db1\<lparr>db_nextOutbox := db_nextOutbox db1 + 1\<rparr>))"

definition insert_outbox :: "outbox_row \<Rightarrow> 'd tables \<Rightarrow> (err + unit) \<times> 'd tables" where
  "insert_outbox r t =
     (if \<exists>x \<in> set (t_outbox t). ob_ID x = ob_ID r then (Inl (ErrMsg ''insert outbox''), t)
      else (Inr (), t\<lparr>t_outbox := t_outbox t @ [r]\<rparr>))"

definition insertOutboxRow :: "uint64 \<Rightarrow> uint64 \<Rightarrow> string \<Rightarrow> bytes \<Rightarrow> string \<Rightarrow> string \<Rightarrow> ('d, unit) tx" where
  "insertOutboxRow i aggregateID eventType payload topic partitionKey db =
     stmt_err ''insert outbox''
       (insert_outbox \<lparr> ob_ID = i, ob_AggregateID = aggregateID, ob_EventType = eventType, ob_Payload = payload,
          ob_Topic = topic, ob_PartitionKey = partitionKey, ob_CreatedAt = db_now db, ob_PublishedAt = None,
          ob_RetryCount = 0 \<rparr>) db"

definition insertNewOrderOutbox :: "'d denv \<Rightarrow> env_codec \<Rightarrow> porder \<Rightarrow> string \<Rightarrow> ('d, unit) tx" where
  "insertNewOrderOutbox D C od topic =
     bind_tx allocateOutboxID
       (\<lambda>i. case BuildNewOrderPayload (de_libs D) C od i of
              None \<Rightarrow> fail_tx (ErrMsg ''build outbox payload'')
            | Some payload \<Rightarrow> insertOutboxRow i (po_ID od) EventNewOrderCommand payload topic (po_Symbol od))"

definition insertCancelOutbox :: "env_codec \<Rightarrow> porder \<Rightarrow> string \<Rightarrow> ('d, unit) tx" where
  "insertCancelOutbox C od topic =
     bind_tx allocateOutboxID
       (\<lambda>i. case BuildCancelOrderPayload C (po_Symbol od) (po_ID od) i of
              None \<Rightarrow> fail_tx (ErrMsg ''build cancel payload'')
            | Some payload \<Rightarrow> insertOutboxRow i (po_ID od) EventCancelOrderCommand payload topic (po_Symbol od))"

section \<open>Reading and inserting orders\<close>

definition getOrderByID :: "'d denv \<Rightarrow> uint64 \<Rightarrow> ('d, porder) tx" where
  "getOrderByID D i =
     bind_tx (query ''scan order'' (\<lambda>t. find (\<lambda>r. or_ID r = i) (t_orders t)))
       (\<lambda>row. case row of None \<Rightarrow> fail_tx ErrOrderNotFound | Some r \<Rightarrow> return_tx (scanOrder D r))"

definition getOrderForUpdate :: "'d denv \<Rightarrow> uint64 \<Rightarrow> ('d, porder) tx" where
  "getOrderForUpdate D i =
     bind_tx (query ''scan order'' (\<lambda>t. find (\<lambda>r. or_ID r = i) (t_orders t)))
       (\<lambda>row. case row of None \<Rightarrow> fail_tx ErrOrderNotFound | Some r \<Rightarrow> return_tx (scanOrder D r))"

definition GetOrderByUser :: "'d denv \<Rightarrow> uint64 \<Rightarrow> uint64 \<Rightarrow> ('d, porder) tx" where
  "GetOrderByUser D u i =
     bind_tx (query ''scan order'' (\<lambda>t. find (\<lambda>r. or_ID r = i \<and> or_UserID r = u) (t_orders t)))
       (\<lambda>row. case row of None \<Rightarrow> fail_tx ErrOrderNotFound | Some r \<Rightarrow> return_tx (scanOrder D r))"

definition getOrderForUpdateByUser :: "'d denv \<Rightarrow> uint64 \<Rightarrow> uint64 \<Rightarrow> ('d, porder) tx" where
  "getOrderForUpdateByUser D u i =
     bind_tx (query ''scan order'' (\<lambda>t. find (\<lambda>r. or_ID r = i \<and> or_UserID r = u) (t_orders t)))
       (\<lambda>row. case row of None \<Rightarrow> fail_tx ErrOrderNotFound | Some r \<Rightarrow> return_tx (scanOrder D r))"

definition FindByClientOrderID :: "'d denv \<Rightarrow> uint64 \<Rightarrow> string \<Rightarrow> ('d, porder option) tx" where
  "FindByClientOrderID D u cid =
     query ''scan order'' (\<lambda>t. case t_idem t (u, cid) of
         None \<Rightarrow> None
       | Some i \<Rightarrow> map_option (scanOrder D) (find (\<lambda>r. or_ID r = i) (t_orders t)))"

record insert_pending_input =
  ip_UserID :: uint64
  ip_ClientOrderID :: string
  ip_Symbol :: string
  ip_Side :: int
  ip_OrderType :: int
  ip_Price :: "string option"
  ip_FreezePrice :: "string option"
  ip_FreezeSlippage :: "string option"
  ip_FrozenAmount :: "string option"
  ip_Quantity :: string
  ip_OutboxTopic :: string

text \<open>A parameter of a \<open>NUMERIC\<close> column is parsed by the server.\<close>

definition to_numeric :: "'d libs \<Rightarrow> string option \<Rightarrow> 'd option option" where
  "to_numeric L s = (case s of None \<Rightarrow> Some None | Some x \<Rightarrow> map_option Some (dec_of_string L x))"

definition new_row :: "('d::zero) libs \<Rightarrow> insert_pending_input \<Rightarrow> uint64 \<Rightarrow> time \<Rightarrow> 'd order_row option" where
  "new_row L inp i t =
     (case (to_numeric L (ip_Price inp), to_numeric L (ip_FreezePrice inp), to_numeric L (ip_FreezeSlippage inp),
            to_numeric L (ip_FrozenAmount inp), dec_of_string L (ip_Quantity inp)) of
        (Some p, Some fp, Some fs, Some fa, Some q) \<Rightarrow>
          Some \<lparr> or_ID = i, or_UserID = ip_UserID inp, or_ClientOrderID = ip_ClientOrderID inp, or_Symbol = ip_Symbol inp,
            or_Side = ip_Side inp, or_OrderType = ip_OrderType inp, or_Price = p, or_FreezePrice = fp,
            or_FreezeSlippage = fs, or_FrozenAmount = fa, or_Quantity = q, or_FilledQuantity = 0,
            or_Status = Pending, or_Version = 0, or_CreatedAt = t, or_UpdatedAt = t \<rparr>
      | _ \<Rightarrow> None)"

definition insert_row :: "'d order_row option \<Rightarrow> 'd tables \<Rightarrow> (err + 'd order_row) \<times> 'd tables" where
  "insert_row ro t =
     (case ro of
        None \<Rightarrow> (Inl (ErrMsg ''scan order''), t)
      | Some r \<Rightarrow>
          if \<exists>x \<in> set (t_orders t). or_ID x = or_ID r then (Inl (ErrMsg ''scan order''), t)
          else (Inr r, t\<lparr>t_orders := t_orders t @ [r]\<rparr>))"

text \<open>The identity column takes its number whether or not the row is accepted.\<close>

definition insertOrder :: "('d::zero) denv \<Rightarrow> insert_pending_input \<Rightarrow> ('d, porder) tx" where
  "insertOrder D inp db =
     (let i = db_nextOrder db
      in bind_tx (stmt_err ''scan order'' (insert_row (new_row (de_libs D) inp i (db_now db))))
           (\<lambda>r. return_tx (scanOrder D r)) (db\<lparr>db_nextOrder := i + 1\<rparr>))"

definition insert_idem :: "uint64 \<times> string \<Rightarrow> uint64 \<Rightarrow> 'd tables \<Rightarrow> (err + unit) \<times> 'd tables" where
  "insert_idem k i t =
     (if t_idem t k \<noteq> None then (Inl ErrDuplicateClientOrder, t)
      else (Inr (), t\<lparr>t_idem := (t_idem t)(k \<mapsto> i)\<rparr>))"

definition InsertPending ::
  "('d::linordered_idom) denv \<Rightarrow> env_codec \<Rightarrow> insert_pending_input \<Rightarrow> ('d, porder) tx" where
  "InsertPending D C inp = transaction
     (bind_tx (insertOrder D inp)
        (\<lambda>od. bind_tx (stmt_err ''insert idempotency'' (insert_idem (ip_UserID inp, ip_ClientOrderID inp) (po_ID od)))
        (\<lambda>_. bind_tx (lift_tx (ComputeFreeze (de_libs D) (ip_Side inp) (ip_Symbol inp) (ip_Price inp) (ip_Quantity inp)
                                (ip_FrozenAmount inp)))
        (\<lambda>freeze. bind_tx (lockFunds (ip_UserID inp) (fz_Asset freeze) (repo_roundUp D (fz_Asset freeze) (fz_Amount freeze)))
        (\<lambda>_. bind_tx (insertNewOrderOutbox D C od (ip_OutboxTopic inp))
        (\<lambda>_. return_tx (Commit od)))))))"

section \<open>Updating orders\<close>

definition update_orders ::
  "('d order_row \<Rightarrow> bool) \<Rightarrow> ('d order_row \<Rightarrow> 'd order_row) \<Rightarrow> time \<Rightarrow> 'd tables \<Rightarrow> nat \<times> 'd tables" where
  "update_orders P f t0 t =
     (let (n, rs) = update_rows P (\<lambda>r. f (r\<lparr>or_Version := or_Version r + 1, or_UpdatedAt := t0\<rparr>)) (t_orders t)
      in (n, t\<lparr>t_orders := rs\<rparr>))"

definition filled_rows :: "'d libs \<Rightarrow> uint64 \<Rightarrow> int \<Rightarrow> string \<Rightarrow> time \<Rightarrow> 'd tables \<Rightarrow> (err + nat) \<times> 'd tables" where
  "filled_rows L i version s t0 t =
     (case dec_of_string L s of
        None \<Rightarrow> (Inl (ErrMsg ''update filled quantity''), t)
      | Some x \<Rightarrow>
          (let (n, t1) = update_orders (\<lambda>r. or_ID r = i \<and> or_Version r = version)
                 (\<lambda>r. r\<lparr>or_FilledQuantity := x\<rparr>) t0 t
           in (Inr n, t1)))"

definition updateFilledQuantity :: "'d denv \<Rightarrow> uint64 \<Rightarrow> int \<Rightarrow> string option \<Rightarrow> ('d, unit) tx" where
  "updateFilledQuantity D i version filled db =
     (case filled of
        None \<Rightarrow> (Inr (), db)
      | Some s \<Rightarrow> bind_tx (stmt_err ''update filled quantity'' (filled_rows (de_libs D) i version s (db_now db)))
                   (\<lambda>_. return_tx ()) db)"

definition transition_rows ::
  "'d libs \<Rightarrow> porder \<Rightarrow> string \<Rightarrow> string option \<Rightarrow> time \<Rightarrow> 'd tables \<Rightarrow> (err + nat) \<times> 'd tables" where
  "transition_rows L od target filled t0 t =
     (case to_numeric L filled of
        None \<Rightarrow> (Inl (ErrMsg ''update order status''), t)
      | Some fo \<Rightarrow>
          (let (n, t1) = update_orders
                 (\<lambda>r. or_ID r = po_ID od \<and> or_Status r \<in> set (AllowedFromStatuses target) \<and> or_Version r = po_Version od)
                 (\<lambda>r. r\<lparr>or_Status := target,
                        or_FilledQuantity := (case fo of None \<Rightarrow> or_FilledQuantity r | Some x \<Rightarrow> x)\<rparr>)
                 t0 t
           in (Inr n, t1)))"

text \<open>\<open>errCASConflict\<close> is the answer \<open>False\<close>.\<close>

definition transitionOrderStatus :: "'d denv \<Rightarrow> porder \<Rightarrow> string \<Rightarrow> string option \<Rightarrow> ('d, bool) tx" where
  "transitionOrderStatus D od target filled db =
     bind_tx (stmt_err ''update order status'' (transition_rows (de_libs D) od target filled (db_now db)))
       (\<lambda>n. if n = 1 then return_tx True
            else bind_tx (getOrderForUpdate D (po_ID od))
              (\<lambda>cur. if po_Status cur = target \<or> IsTerminal (po_Status cur)
                     then bind_tx (updateFilledQuantity D (po_ID cur) (po_Version cur) filled) (\<lambda>_. return_tx True)
                     else return_tx False)) db"

section \<open>Match events\<close>

record match_apply =
  me_OrderID :: uint64
  me_Symbol :: string
  me_EventType :: int
  me_WalSeq :: uint64
  me_FilledQuantity :: "string option"

definition insertProcessedMatchEvent :: "uint64 \<Rightarrow> uint64 \<Rightarrow> int \<Rightarrow> ('d, bool) tx" where
  "insertProcessedMatchEvent i walSeq eventType =
     stmt ''insert processed match event''
       (\<lambda>t. ((i, walSeq, eventType) \<notin> t_processed t, t\<lparr>t_processed := insert (i, walSeq, eventType) (t_processed t)\<rparr>))"

definition release_canceled :: "('d::linordered_idom) denv \<Rightarrow> uint64 \<Rightarrow> string \<Rightarrow> ('d, unit) tx" where
  "release_canceled D i target =
     (if target = Canceled
      then bind_tx (getOrderForUpdate D i) (\<lambda>cur. releaseOrderRemainingFreeze D cur)
      else return_tx ())"

definition ApplyMatchEvent :: "('d::linordered_idom) denv \<Rightarrow> match_apply \<Rightarrow> ('d, bool) tx" where
  "ApplyMatchEvent D inp =
     (case TargetStatus (me_EventType inp) of
        Inl e \<Rightarrow> fail_tx e
      | Inr target \<Rightarrow> transaction
          (bind_tx (insertProcessedMatchEvent (me_OrderID inp) (me_WalSeq inp) (me_EventType inp))
             (\<lambda>inserted. if \<not> inserted then return_tx (Discard False)
              else bind_tx (getOrderForUpdate D (me_OrderID inp))
             (\<lambda>od. if po_Symbol od \<noteq> me_Symbol inp then fail_tx (ErrMsg ''apply match event: symbol mismatch'')
              else if po_Status od = target then
                bind_tx (updateFilledQuantity D (po_ID od) (po_Version od) (me_FilledQuantity inp))
                  (\<lambda>_. bind_tx (release_canceled D (po_ID od) target) (\<lambda>_. return_tx (Commit True)))
              else if IsTerminal (po_Status od) then return_tx (Commit True)
              else if \<not> CanTransition (po_Status od) target then fail_tx (ErrMsg ''apply match event: invalid transition'')
              else bind_tx (transitionOrderStatus D od target (me_FilledQuantity inp))
                (\<lambda>ok. if \<not> ok then return_tx (Commit True)
                      else bind_tx (release_canceled D (po_ID od) target) (\<lambda>_. return_tx (Commit True)))))))"

definition FilledQuantityFromRemaining :: "('d::linordered_idom) libs \<Rightarrow> string \<Rightarrow> string \<Rightarrow> err + string" where
  "FilledQuantityFromRemaining L quantity remaining =
     (case dec_of_string L quantity of
        None \<Rightarrow> Inl (ErrMsg ''quantity'')
      | Some qty \<Rightarrow>
          (case dec_of_string L remaining of
             None \<Rightarrow> Inl (ErrMsg ''remaining'')
           | Some rem \<Rightarrow> if qty - rem < 0 then Inl (ErrMsg ''filled quantity negative'')
                         else Inr (dec_to_string L (qty - rem))))"

section \<open>Trade events\<close>

definition maxPostgresTradeID :: uint64 where "maxPostgresTradeID = 2 ^ 63 - 1"

definition insert_trade :: "trade_apply \<Rightarrow> time \<Rightarrow> 'd tables \<Rightarrow> bool \<times> 'd tables" where
  "insert_trade inp t0 t =
     (if \<exists>x \<in> set (t_trades t). ta_TradeID (fst x) = ta_TradeID inp then (False, t)
      else (True, t\<lparr>t_trades := t_trades t @ [(inp, t0)]\<rparr>))"

definition insertTrade :: "trade_apply \<Rightarrow> ('d, bool) tx" where
  "insertTrade inp db = stmt ''insert trade'' (insert_trade inp (db_now db)) db"

definition applyOrderTradeFill :: "('d::linordered_idom) denv \<Rightarrow> uint64 \<Rightarrow> 'd \<Rightarrow> ('d, unit) tx" where
  "applyOrderTradeFill D i fillQty =
     bind_tx (getOrderForUpdate D i)
       (\<lambda>od. case dec_of_string (de_libs D) (po_Quantity od) of
               None \<Rightarrow> fail_tx (ErrMsg ''order quantity'')
             | Some orderQty \<Rightarrow>
            (case dec_of_string (de_libs D) (po_FilledQuantity od) of
               None \<Rightarrow> fail_tx (ErrMsg ''order filled_quantity'')
             | Some filled \<Rightarrow>
                 (let newFilled = (if orderQty < filled + fillQty then orderQty else filled + fillQty)
                  in bind_tx (updateFilledQuantity D (po_ID od) (po_Version od) (Some (dec_to_string (de_libs D) newFilled)))
                       (\<lambda>_. if newFilled < orderQty \<and> po_Status od \<noteq> Filled then return_tx ()
                            else bind_tx (getOrderForUpdate D i) (\<lambda>cur. releaseOrderRemainingFreeze D cur)))))"

definition ApplyTradeEvent :: "('d::linordered_idom) denv \<Rightarrow> trade_apply \<Rightarrow> ('d, unit) tx" where
  "ApplyTradeEvent D inp =
     (if ta_TradeID inp = 0 then fail_tx (ErrMsg ''apply trade event: trade_id is required'')
      else if maxPostgresTradeID < ta_TradeID inp then fail_tx ErrSkippableEvent
      else case dec_of_string (de_libs D) (ta_Price inp) of
             None \<Rightarrow> fail_tx (ErrMsg ''apply trade event: invalid price'')
           | Some price \<Rightarrow>
               if \<not> 0 < price then fail_tx (ErrMsg ''apply trade event: invalid price'')
               else (case dec_of_string (de_libs D) (ta_Quantity inp) of
                       None \<Rightarrow> fail_tx (ErrMsg ''apply trade event: invalid quantity'')
                     | Some qty \<Rightarrow>
                         if \<not> 0 < qty then fail_tx (ErrMsg ''apply trade event: invalid quantity'')
                         else (case ParsePair (ta_Symbol inp) of
                                 Inl e \<Rightarrow> fail_tx e
                               | Inr pair \<Rightarrow> transaction
                                   (bind_tx (insertTrade inp)
                                     (\<lambda>inserted. if \<not> inserted then return_tx (Discard ())
                                      else bind_tx (getOrderForUpdate D (ta_MakerOrderID inp))
                                     (\<lambda>maker. bind_tx (getOrderForUpdate D (ta_TakerOrderID inp))
                                     (\<lambda>taker. bind_tx (settleTradeForUser D (po_UserID maker) (po_Side maker) pair (price * qty) qty)
                                     (\<lambda>_. bind_tx (settleTradeForUser D (po_UserID taker) (po_Side taker) pair (price * qty) qty)
                                     (\<lambda>_. bind_tx (applyOrderTradeFill D (po_ID maker) qty)
                                     (\<lambda>_. bind_tx (applyOrderTradeFill D (po_ID taker) qty)
                                     (\<lambda>_. return_tx (Commit ()))))))))))))"

section \<open>Cancelling\<close>

definition canceling_rows :: "uint64 \<Rightarrow> uint64 \<Rightarrow> int \<Rightarrow> time \<Rightarrow> 'd tables \<Rightarrow> nat \<times> 'd tables" where
  "canceling_rows u i version t0 t =
     update_orders
       (\<lambda>r. or_ID r = i \<and> or_UserID r = u \<and> or_Status r \<in> set (AllowedFromStatuses Canceling) \<and> or_Version r = version)
       (\<lambda>r. r\<lparr>or_Status := Canceling\<rparr>) t0 t"

definition begin_cancel_update :: "uint64 \<Rightarrow> uint64 \<Rightarrow> int \<Rightarrow> ('d, nat) tx" where
  "begin_cancel_update u i version db = stmt ''update canceling'' (canceling_rows u i version (db_now db)) db"

definition BeginCancel ::
  "('d::linordered_idom) denv \<Rightarrow> env_codec \<Rightarrow> uint64 \<Rightarrow> uint64 \<Rightarrow> string \<Rightarrow> ('d, porder) tx" where
  "BeginCancel D C u i topic = transaction
     (bind_tx (getOrderForUpdateByUser D u i)
        (\<lambda>od. if po_Status od = Canceling \<or> po_Status od = Canceled then return_tx (Commit od)
              else if po_Status od = Filled \<or> po_Status od = Rejected then fail_tx ErrOrderNotCancelable
              else if \<not> CanTransition (po_Status od) Canceling then fail_tx ErrOrderNotCancelable
              else bind_tx (begin_cancel_update u i (po_Version od))
                (\<lambda>n. if n = 0 then fail_tx ErrOrderNotCancelable
                     else (let od1 = od\<lparr>po_Status := Canceling, po_Version := po_Version od + 1\<rparr>
                           in bind_tx (insertCancelOutbox C od1 topic) (\<lambda>_. return_tx (Commit od1))))))"

section \<open>Reconciliation\<close>

definition RejectStalePending ::
  "('d::linordered_idom) denv \<Rightarrow> env_codec \<Rightarrow> uint64 \<Rightarrow> string \<Rightarrow> ('d, bool) tx" where
  "RejectStalePending D C i topic = transaction
     (bind_tx (getOrderForUpdate D i)
        (\<lambda>od. if po_Status od \<noteq> Pending then return_tx (Discard False)
              else bind_tx (transitionOrderStatus D od Rejected None)
                (\<lambda>ok. if \<not> ok then return_tx (Discard False)
                      else bind_tx (getOrderForUpdate D (po_ID od))
                        (\<lambda>cur. bind_tx (releaseOrderRemainingFreeze D cur)
                        (\<lambda>_. bind_tx (insertCancelOutbox C cur topic) (\<lambda>_. return_tx (Commit True)))))))"

definition ResendCancelCommand :: "'d denv \<Rightarrow> env_codec \<Rightarrow> uint64 \<Rightarrow> string \<Rightarrow> ('d, bool) tx" where
  "ResendCancelCommand D C i topic = transaction
     (bind_tx (getOrderForUpdate D i)
        (\<lambda>od. if po_Status od \<noteq> Canceling then return_tx (Discard False)
              else bind_tx (insertCancelOutbox C od topic) (\<lambda>_. return_tx (Commit True))))"

definition has_outbox :: "uint64 \<Rightarrow> string \<Rightarrow> bool \<Rightarrow> 'd tables \<Rightarrow> bool" where
  "has_outbox i eventType published t \<longleftrightarrow>
     (\<exists>x \<in> set (t_outbox t). ob_AggregateID x = i \<and> ob_EventType x = eventType \<and> (ob_PublishedAt x \<noteq> None) = published)"

definition row_limit :: "int \<Rightarrow> int" where
  "row_limit n = (if n \<le> 0 then 50 else n)"

definition FindStuckCancelingForResend :: "time \<Rightarrow> int \<Rightarrow> ('d, uint64 list) tx" where
  "FindStuckCancelingForResend olderThan lim =
     query ''find stuck canceling'' (\<lambda>t. take (nat (row_limit lim)) (sort (map or_ID (filter
       (\<lambda>r. or_Status r = Canceling \<and> or_UpdatedAt r < olderThan \<and> \<not> has_outbox (or_ID r) EventCancelOrderCommand False t)
       (t_orders t)))))"

definition FindStalePendingForReject :: "time \<Rightarrow> int \<Rightarrow> ('d, (uint64 \<times> string) list) tx" where
  "FindStalePendingForReject olderThan lim =
     query ''find stale pending'' (\<lambda>t. take (nat (row_limit lim)) (map (\<lambda>r. (or_ID r, or_Symbol r)) (sort_key or_ID (filter
       (\<lambda>r. or_Status r = Pending \<and> or_UpdatedAt r < olderThan \<and> has_outbox (or_ID r) EventNewOrderCommand True t)
       (t_orders t)))))"

definition CountStaleUnpublishedOutbox :: "time \<Rightarrow> ('d, nat) tx" where
  "CountStaleUnpublishedOutbox olderThan =
     query ''count stale outbox'' (\<lambda>t. length (filter
       (\<lambda>x. ob_PublishedAt x = None \<and> ob_CreatedAt x < olderThan \<and>
            (\<exists>r \<in> set (t_orders t). or_ID r = ob_AggregateID x \<and> or_Status r = Pending)) (t_outbox t)))"

definition CountUnpublishedOutbox :: "('d, nat) tx" where
  "CountUnpublishedOutbox =
     query ''count unpublished outbox'' (\<lambda>t. length (filter (\<lambda>x. ob_PublishedAt x = None) (t_outbox t)))"

text \<open>In nanoseconds.\<close>

definition MaxStuckPendingSeconds :: "('d, int) tx" where
  "MaxStuckPendingSeconds db =
     query ''max stuck pending seconds''
       (\<lambda>t. let ages = map (\<lambda>r. db_now db - or_UpdatedAt r) (filter
              (\<lambda>r. or_Status r = Pending \<and> has_outbox (or_ID r) ''NewOrder'' True t) (t_orders t))
            in if ages = [] then 0 else Max (set ages)) db"

definition ListReconcileOrders :: "string \<Rightarrow> ('d, (uint64 \<times> string) list) tx" where
  "ListReconcileOrders symbol0 =
     (let symbolName = trim_space symbol0
      in if symbolName = '''' then fail_tx (ErrMsg ''list reconcile orders: symbol required'')
         else query ''list reconcile orders'' (\<lambda>t. map (\<lambda>r. (or_ID r, or_Status r)) (sort_key or_ID (filter
           (\<lambda>r. or_Symbol r = symbolName \<and> or_Status r \<in> {Pending, Partial}) (t_orders t)))))"

definition GetOrderStatuses :: "string \<Rightarrow> uint64 list \<Rightarrow> ('d, uint64 \<rightharpoonup> string) tx" where
  "GetOrderStatuses symbol0 ids =
     (let symbolName = trim_space symbol0
      in if symbolName = '''' then fail_tx (ErrMsg ''get order statuses: symbol required'')
         else if ids = [] then return_tx Map.empty
         else query ''get order statuses'' (\<lambda>t. map_of (map (\<lambda>r. (or_ID r, or_Status r)) (filter
           (\<lambda>r. or_Symbol r = symbolName \<and> or_ID r \<in> set ids) (t_orders t)))))"

section \<open>Lists with filters\<close>

text \<open>
  The clauses that the code appends to the query are the conjuncts of one condition;
  \<open>page_of\<close> is \<open>LIMIT\<close> and \<open>OFFSET\<close>.
\<close>

record list_orders_filter =
  lf_UserID :: uint64
  lf_Symbol :: string
  lf_Side :: int
  lf_OrderType :: int
  lf_Status :: string
  lf_CreatedAtFrom :: "time option"
  lf_CreatedAtTo :: "time option"
  lf_Page :: int
  lf_PageSize :: int

definition page_size :: "int \<Rightarrow> int" where
  "page_size n = (let m = (if n < 1 then 20 else n) in if 100 < m then 100 else m)"

definition page_of :: "int \<Rightarrow> int \<Rightarrow> 'a list \<Rightarrow> 'a list" where
  "page_of page pageSize xs =
     (let p = (if page < 1 then 1 else page); n = page_size pageSize
      in take (nat n) (drop (nat ((p - 1) * n)) xs))"

definition order_matches :: "list_orders_filter \<Rightarrow> 'd order_row \<Rightarrow> bool" where
  "order_matches f r \<longleftrightarrow>
     or_UserID r = lf_UserID f \<and>
     (trim_space (lf_Symbol f) \<noteq> '''' \<longrightarrow> or_Symbol r = trim_space (lf_Symbol f)) \<and>
     (lf_Side f \<noteq> 0 \<longrightarrow> or_Side r = lf_Side f) \<and>
     (lf_OrderType f \<noteq> 0 \<longrightarrow> or_OrderType r = lf_OrderType f) \<and>
     (trim_space (lf_Status f) \<noteq> '''' \<longrightarrow> or_Status r = trim_space (to_upper (lf_Status f))) \<and>
     (case lf_CreatedAtFrom f of None \<Rightarrow> True | Some t \<Rightarrow> t \<le> or_CreatedAt r) \<and>
     (case lf_CreatedAtTo f of None \<Rightarrow> True | Some t \<Rightarrow> or_CreatedAt r \<le> t)"

definition ListOrders :: "'d denv \<Rightarrow> list_orders_filter \<Rightarrow> ('d, porder list) tx" where
  "ListOrders D f =
     (if lf_UserID f = 0 then fail_tx (ErrMsg ''list orders: user_id required'')
      else query ''list orders'' (\<lambda>t. map (scanOrder D) (page_of (lf_Page f) (lf_PageSize f)
        (rev (sort_key or_ID (filter (order_matches f) (t_orders t)))))))"

record list_trades_filter =
  tf_UserID :: uint64
  tf_Symbol :: string
  tf_OrderID :: uint64
  tf_CreatedAtFrom :: "time option"
  tf_CreatedAtTo :: "time option"
  tf_Page :: int
  tf_PageSize :: int

record user_trade =
  ut_Trade :: trade_apply
  ut_CreatedAt :: time
  ut_UserOrderID :: uint64
  ut_Side :: int
  ut_IsMaker :: bool

text \<open>The lateral join: the user's order of the trade, the maker's if both are his.\<close>

definition user_side :: "uint64 \<Rightarrow> 'd order_row list \<Rightarrow> trade_apply \<times> time \<Rightarrow> user_trade option" where
  "user_side u os x =
     (let tr = fst x;
          own = (\<lambda>i. find (\<lambda>r. or_UserID r = u \<and> or_ID r = i) os);
          uo = (case own (ta_MakerOrderID tr) of Some r \<Rightarrow> Some r | None \<Rightarrow> own (ta_TakerOrderID tr))
      in map_option (\<lambda>r. \<lparr> ut_Trade = tr, ut_CreatedAt = snd x, ut_UserOrderID = or_ID r, ut_Side = or_Side r,
                           ut_IsMaker = (or_ID r = ta_MakerOrderID tr) \<rparr>) uo)"

definition trade_matches :: "list_trades_filter \<Rightarrow> user_trade \<Rightarrow> bool" where
  "trade_matches f x \<longleftrightarrow>
     (trim_space (tf_Symbol f) \<noteq> '''' \<longrightarrow> ta_Symbol (ut_Trade x) = trim_space (tf_Symbol f)) \<and>
     (tf_OrderID f \<noteq> 0 \<longrightarrow> ta_MakerOrderID (ut_Trade x) = tf_OrderID f \<or> ta_TakerOrderID (ut_Trade x) = tf_OrderID f) \<and>
     (case tf_CreatedAtFrom f of None \<Rightarrow> True | Some t \<Rightarrow> t \<le> ut_CreatedAt x) \<and>
     (case tf_CreatedAtTo f of None \<Rightarrow> True | Some t \<Rightarrow> ut_CreatedAt x \<le> t)"

definition ListTrades :: "list_trades_filter \<Rightarrow> ('d, user_trade list) tx" where
  "ListTrades f =
     (if tf_UserID f = 0 then fail_tx (ErrMsg ''list trades: user_id required'')
      else query ''list trades'' (\<lambda>t. page_of (tf_Page f) (tf_PageSize f)
        (rev (sort_key (\<lambda>x. ta_TradeID (ut_Trade x)) (filter (trade_matches f)
          (List.map_filter (user_side (tf_UserID f) (t_orders t)) (t_trades t)))))))"

section \<open>Publishing the outbox\<close>

definition unpublished :: "outbox_row list \<Rightarrow> outbox_row list" where
  "unpublished rs = sort_key ob_CreatedAt (filter (\<lambda>x. ob_PublishedAt x = None) rs)"

definition FetchUnpublished :: "int \<Rightarrow> ('d, outbox_row list) tx" where
  "FetchUnpublished lim =
     query ''fetch unpublished outbox'' (\<lambda>t. take (nat (row_limit lim)) (unpublished (t_outbox t)))"

definition mark_rows :: "uint64 set \<Rightarrow> time \<Rightarrow> 'd tables \<Rightarrow> nat \<times> 'd tables" where
  "mark_rows ids t0 t =
     (let (n, rs) = update_rows (\<lambda>x. ob_ID x \<in> ids \<and> ob_PublishedAt x = None) (\<lambda>x. x\<lparr>ob_PublishedAt := Some t0\<rparr>) (t_outbox t)
      in (n, t\<lparr>t_outbox := rs\<rparr>))"

definition MarkPublished :: "uint64 \<Rightarrow> ('d, unit) tx" where
  "MarkPublished i db =
     bind_tx (auto_stmt ''mark outbox published'' (mark_rows {i} (db_now db)))
       (\<lambda>n. if n = 0 then fail_tx (ErrMsg ''mark outbox published: not found or already published'') else return_tx ()) db"

definition MarkPublishedBatch :: "uint64 list \<Rightarrow> ('d, unit) tx" where
  "MarkPublishedBatch ids db =
     (if ids = [] then (Inr (), db)
      else bind_tx (auto_stmt ''mark outbox published batch'' (mark_rows (set ids) (db_now db))) (\<lambda>_. return_tx ()) db)"

definition retry_rows :: "uint64 \<Rightarrow> 'd tables \<Rightarrow> unit \<times> 'd tables" where
  "retry_rows i t =
     ((), t\<lparr>t_outbox := snd (update_rows (\<lambda>x. ob_ID x = i) (\<lambda>x. x\<lparr>ob_RetryCount := ob_RetryCount x + 1\<rparr>) (t_outbox t))\<rparr>)"

definition IncrementRetry :: "uint64 \<Rightarrow> ('d, unit) tx" where
  "IncrementRetry i = auto_stmt ''increment outbox retry'' (retry_rows i)"

definition GetOrderStatusesBatch :: "uint64 list \<Rightarrow> ('d, uint64 \<rightharpoonup> string) tx" where
  "GetOrderStatusesBatch ids =
     (if ids = [] then return_tx Map.empty
      else query ''get order statuses batch''
        (\<lambda>t. map_of (map (\<lambda>r. (or_ID r, or_Status r)) (filter (\<lambda>r. or_ID r \<in> set ids) (t_orders t)))))"

definition GetOrderStatus :: "uint64 \<Rightarrow> ('d, string) tx" where
  "GetOrderStatus i =
     bind_tx (GetOrderStatusesBatch [i])
       (\<lambda>m. case m i of None \<Rightarrow> fail_tx (ErrMsg ''order not found'') | Some s \<Rightarrow> return_tx s)"

end
