(* ===== verification/RepoInvariant.thy ===== *)
theory RepoInvariant
  imports OrderRepo
begin

text \<open>
  The contract between an invariant of the tables and the operations of the repository: the
  few kinds of row updates that the operations are made of. An invariant that respects
  these updates is kept by every operation, whatever statements fail.
\<close>

section \<open>The contract\<close>

definition same_order :: "'d order_row \<Rightarrow> 'd order_row \<Rightarrow> bool" where
  "same_order r r' \<longleftrightarrow> or_ID r' = or_ID r \<and> or_UserID r' = or_UserID r \<and> or_Symbol r' = or_Symbol r \<and>
     or_Side r' = or_Side r \<and> or_Price r' = or_Price r \<and> or_Quantity r' = or_Quantity r \<and>
     or_FrozenAmount r' = or_FrozenAmount r \<and> or_Version r' = or_Version r + 1 \<and>
     (or_Status r' = or_Status r \<or> or_Status r \<in> set (AllowedFromStatuses (or_Status r')) \<and> known_status (or_Status r'))"

locale order_tables =
  fixes I :: "('d::linordered_idom) tables \<Rightarrow> bool"
  assumes other_tables: "I t \<Longrightarrow> t_idem t \<subseteq>\<^sub>m im \<Longrightarrow> set (t_trades t) \<subseteq> set tr \<Longrightarrow>
      t_processed t \<subseteq> pr \<Longrightarrow> t_adjusted t \<subseteq> ad \<Longrightarrow>
      I (t\<lparr>t_idem := im, t_outbox := ob, t_trades := tr, t_processed := pr, t_adjusted := ad\<rparr>)"
    and new_order: "I t \<Longrightarrow> or_ID r \<notin> or_ID ` set (t_orders t) \<Longrightarrow> or_Status r = Pending \<Longrightarrow>
      I (t\<lparr>t_orders := t_orders t @ [r]\<rparr>)"
    and change_order: "I t \<Longrightarrow> (\<And>r. P r \<Longrightarrow> same_order r (f r)) \<Longrightarrow>
      I (t\<lparr>t_orders := map (\<lambda>r. if P r then f r else r) (t_orders t)\<rparr>)"
    and freeze_row: "I t \<Longrightarrow> 0 < x \<Longrightarrow>
      I (snd (update_balances (\<lambda>r. account u a r \<and> x \<le> br_Balance r)
        (\<lambda>r. r\<lparr>br_Balance := br_Balance r - x, br_Frozen := br_Frozen r + x\<rparr>) t))"
    and unfreeze_row: "I t \<Longrightarrow> 0 < x \<Longrightarrow>
      I (snd (update_balances (\<lambda>r. account u a r \<and> 0 < br_Frozen r)
        (\<lambda>r. r\<lparr>br_Balance := br_Balance r + min (br_Frozen r) x, br_Frozen := br_Frozen r - min (br_Frozen r) x\<rparr>) t))"
begin

lemma other [simp, intro]:
  "I t \<Longrightarrow> t_idem t \<subseteq>\<^sub>m im \<Longrightarrow> I (t\<lparr>t_idem := im\<rparr>)" "I t \<Longrightarrow> I (t\<lparr>t_outbox := ob\<rparr>)"
  "I t \<Longrightarrow> set (t_trades t) \<subseteq> set tr \<Longrightarrow> I (t\<lparr>t_trades := tr\<rparr>)"
  "I t \<Longrightarrow> t_processed t \<subseteq> pr \<Longrightarrow> I (t\<lparr>t_processed := pr\<rparr>)"
  "I t \<Longrightarrow> t_adjusted t \<subseteq> ad \<Longrightarrow> I (t\<lparr>t_adjusted := ad\<rparr>)"
  using other_tables [where t = t and im = im and ob = "t_outbox t" and tr = "t_trades t" and pr = "t_processed t" and ad = "t_adjusted t"]
    other_tables [where t = t and im = "t_idem t" and ob = ob and tr = "t_trades t" and pr = "t_processed t" and ad = "t_adjusted t"]
    other_tables [where t = t and im = "t_idem t" and ob = "t_outbox t" and tr = tr and pr = "t_processed t" and ad = "t_adjusted t"]
    other_tables [where t = t and im = "t_idem t" and ob = "t_outbox t" and tr = "t_trades t" and pr = pr and ad = "t_adjusted t"]
    other_tables [where t = t and im = "t_idem t" and ob = "t_outbox t" and tr = "t_trades t" and pr = "t_processed t" and ad = ad]
  by simp_all

lemma keeps_lockFunds [inv_intros]: "tx_keeps I (lockFunds u a x)"
  unfolding lockFunds_def by (intro inv_intros keeps_stmt freeze_row) auto

lemma keeps_releaseFunds [inv_intros]: "tx_keeps I (releaseFunds u a x)"
  unfolding releaseFunds_def by (intro inv_intros keeps_stmt unfreeze_row) auto

lemma keeps_releaseOrder [inv_intros]: "tx_keeps I (releaseOrderRemainingFreeze D od)"
  unfolding releaseOrderRemainingFreeze_def by (intro inv_intros)

lemma keeps_getOrder [inv_intros]: "tx_keeps I (getOrderForUpdate D i)" "tx_keeps I (getOrderForUpdateByUser D u i)"
  unfolding getOrderForUpdate_def getOrderForUpdateByUser_def by (intro inv_intros)+

lemma keeps_insertOutbox [inv_intros]: "tx_keeps I (insertOutboxRow i g e p tp k)"
proof -
  have "tx_keeps I (stmt_err ''insert outbox'' (insert_outbox r))" for r
    by (rule keeps_stmt_err) (auto simp: insert_outbox_def split: if_splits)
  then show ?thesis by (simp add: tx_keeps_def insertOutboxRow_def)
qed

lemma keeps_allocate [inv_intros]: "tx_keeps I allocateOutboxID"
  by (simp add: tx_keeps_def allocateOutboxID_def db_call_def Let_def)

lemma keeps_cancelOutbox [inv_intros]: "tx_keeps I (insertCancelOutbox C od tp)"
  unfolding insertCancelOutbox_def by (intro inv_intros)

lemma keeps_newOutbox [inv_intros]: "tx_keeps I (insertNewOrderOutbox D C od tp)"
  unfolding insertNewOrderOutbox_def by (intro inv_intros)

lemma update_orders_keeps:
  assumes "I t" "update_orders P f t0 t = (n, t')"
    "\<And>r. P r \<Longrightarrow> same_order r (f (r\<lparr>or_Version := or_Version r + 1, or_UpdatedAt := t0\<rparr>))"
  shows "I t'"
  using change_order [OF assms(1,3)] assms(2) by (auto simp: update_orders_def update_rows_def)

lemma keeps_filled_rows: "tx_keeps I (stmt_err w (filled_rows L i v s t0))"
  by (rule keeps_stmt_err)
    (auto simp: filled_rows_def same_order_def split: option.splits prod.splits elim!: update_orders_keeps)

lemma keeps_transition_rows: "known_status target \<Longrightarrow> tx_keeps I (stmt_err w (transition_rows L od target fo t0))"
  by (rule keeps_stmt_err)
    (auto simp: transition_rows_def same_order_def split: option.splits prod.splits elim!: update_orders_keeps)

lemma keeps_updateFilled [inv_intros]: "tx_keeps I (updateFilledQuantity D i v fo)"
proof (cases fo)
  case None
  then show ?thesis by (simp add: tx_keeps_def updateFilledQuantity_def)
next
  case (Some s)
  have "tx_keeps I (bind_tx (stmt_err w (filled_rows L i v s t0)) (\<lambda>_. return_tx ()))" for w L t0
    by (intro inv_intros keeps_filled_rows)
  then show ?thesis by (simp add: tx_keeps_def updateFilledQuantity_def Some)
qed

lemma keeps_transition [inv_intros]:
  assumes "known_status target"
  shows "tx_keeps I (transitionOrderStatus D od target fo)"
proof -
  have "tx_keeps I (bind_tx (stmt_err w (transition_rows L od target fo t0))
      (\<lambda>n. if n = 1 then return_tx True
           else bind_tx (getOrderForUpdate D (po_ID od))
             (\<lambda>cur. if po_Status cur = target \<or> IsTerminal (po_Status cur)
                    then bind_tx (updateFilledQuantity D (po_ID cur) (po_Version cur) fo) (\<lambda>_. return_tx True)
                    else return_tx False)))" for w L t0
    by (intro inv_intros keeps_transition_rows assms)
  then show ?thesis by (simp add: tx_keeps_def transitionOrderStatus_def)
qed

section \<open>Operations\<close>

lemma keeps_InsertPending [inv_intros]: "tx_keeps I (InsertPending D C inp)"
proof -
  have "tx_keeps I (insertOrder D inp)"
  proof -
    have "tx_keeps I (bind_tx (stmt_err w (insert_row (new_row L inp i t0))) (\<lambda>r. return_tx (scanOrder D r)))" for w L i t0
      by (intro inv_intros keeps_stmt_err)
        (auto simp: insert_row_def new_row_def split: option.splits if_splits intro!: new_order)
    then show ?thesis by (simp add: tx_keeps_def insertOrder_def Let_def)
  qed
  moreover have "tx_keeps I (stmt_err w (insert_idem k i))" for w k i
    by (rule keeps_stmt_err) (auto simp: insert_idem_def map_le_def split: if_splits intro!: other(1))
  ultimately show ?thesis unfolding InsertPending_def by (intro inv_intros)
qed

lemma TargetStatus_known: "TargetStatus ev = Inr s \<Longrightarrow> known_status s"
  by (auto simp: TargetStatus_def known_status_def split: if_splits)

lemma keeps_ApplyMatchEvent [inv_intros]: "tx_keeps I (ApplyMatchEvent D inp)"
proof (cases "TargetStatus (me_EventType inp)")
  case (Inl e)
  then show ?thesis by (simp add: ApplyMatchEvent_def keeps_fail)
next
  case (Inr target)
  have "tx_keeps I (insertProcessedMatchEvent i w ev)" for i w ev
    unfolding insertProcessedMatchEvent_def by (rule keeps_stmt) auto
  moreover have "tx_keeps I (release_canceled D i s)" for i s
    unfolding release_canceled_def by (intro inv_intros)
  ultimately show ?thesis unfolding ApplyMatchEvent_def Inr sum.case
    by (intro inv_intros TargetStatus_known [OF Inr])
qed

lemma keeps_BeginCancel [inv_intros]: "tx_keeps I (BeginCancel D C u i tp)"
proof -
  have "I (snd (canceling_rows u j v t0 t))" if "I t" for j v t0 t
    unfolding canceling_rows_def
    by (rule update_orders_keeps [OF that surjective_pairing]) (auto simp: same_order_def known_status_def)
  then have "tx_keeps I (stmt w (canceling_rows u j v t0))" for w j v t0 by (rule keeps_stmt)
  then have "tx_keeps I (begin_cancel_update u j v)" for j v by (simp add: tx_keeps_def begin_cancel_update_def)
  then show ?thesis unfolding BeginCancel_def Let_def by (intro inv_intros)
qed

lemma keeps_RejectStalePending [inv_intros]: "tx_keeps I (RejectStalePending D C i tp)"
proof -
  have "known_status Rejected" by (simp add: known_status_def)
  then show ?thesis unfolding RejectStalePending_def by (intro inv_intros)
qed

lemma keeps_ResendCancel [inv_intros]: "tx_keeps I (ResendCancelCommand D C i tp)"
  unfolding ResendCancelCommand_def by (intro inv_intros)

lemma keeps_mark [inv_intros]: "tx_keeps I (MarkPublished i)" "tx_keeps I (MarkPublishedBatch ids)" "tx_keeps I (IncrementRetry i)"
proof -
  have m: "tx_keeps I (auto_stmt w (mark_rows S t0))" for w S t0
    by (rule keeps_auto_stmt) (auto simp: mark_rows_def split_beta)
  have "tx_keeps I (bind_tx (auto_stmt w (mark_rows S t0)) (\<lambda>n. if n = 0 then fail_tx e else return_tx ()))" for w S t0 e
    by (intro inv_intros m)
  then show "tx_keeps I (MarkPublished i)" by (simp add: tx_keeps_def MarkPublished_def)
  have "tx_keeps I (bind_tx (auto_stmt w (mark_rows S t0)) (\<lambda>_. return_tx ()))" for w S t0
    by (intro inv_intros m)
  then show "tx_keeps I (MarkPublishedBatch ids)" by (simp add: tx_keeps_def MarkPublishedBatch_def)
  show "tx_keeps I (IncrementRetry i)" unfolding IncrementRetry_def
    by (rule keeps_auto_stmt) (auto simp: retry_rows_def)
qed

end

section \<open>The contract of settlement\<close>

locale settled_tables = order_tables +
  assumes consume_row: "I t \<Longrightarrow> 0 < x \<Longrightarrow>
      I (snd (update_balances (\<lambda>r. account u a r \<and> x \<le> br_Frozen r) (\<lambda>r. r\<lparr>br_Frozen := br_Frozen r - x\<rparr>) t))"
    and set_row: "I t \<Longrightarrow> 0 \<le> x \<Longrightarrow>
      I (snd (update_balances (\<lambda>r. account u a r \<and> br_Version r = v) (\<lambda>r. r\<lparr>br_Balance := x\<rparr>) t))"
    and new_row: "I t \<Longrightarrow> 0 < x \<Longrightarrow> \<forall>r \<in> set (t_balances t). \<not> account u a r \<Longrightarrow>
      I (t\<lparr>t_balances := t_balances t @ [\<lparr> br_UserID = u, br_Asset = a, br_Balance = x, br_Frozen = 0, br_Version = 0 \<rparr>]\<rparr>)"
begin

lemma keeps_consume [inv_intros]: "tx_keeps I (consumeFrozen u a x)"
  unfolding consumeFrozen_def by (intro inv_intros keeps_stmt consume_row) auto

lemma keeps_adjust [inv_intros]: "tx_keeps I (adjustBalance u a x)"
  unfolding adjustBalance_def Let_def
  by (intro inv_intros keeps_stmt keeps_stmt_err set_row)
    (auto simp: insert_balance_def split: if_splits intro!: new_row)

lemma keeps_credit [inv_intros]: "tx_keeps I (creditBalance u a x)"
  unfolding creditBalance_def by (intro inv_intros)

lemma keeps_settle [inv_intros]: "tx_keeps I (settleTradeForUser D u s p n q)"
  unfolding settleTradeForUser_def Let_def by (intro inv_intros)

lemma keeps_fill [inv_intros]: "tx_keeps I (applyOrderTradeFill D i q)"
  unfolding applyOrderTradeFill_def Let_def by (intro inv_intros)

lemma keeps_ApplyTradeEvent [inv_intros]: "tx_keeps I (ApplyTradeEvent D inp)"
proof -
  have "tx_keeps I (stmt w (insert_trade inp t0))" for w t0
    by (rule keeps_stmt) (auto simp: insert_trade_def)
  then have "tx_keeps I (insertTrade inp)" by (simp add: tx_keeps_def insertTrade_def)
  then show ?thesis unfolding ApplyTradeEvent_def by (intro inv_intros)
qed

lemma keeps_UpdateBalance [inv_intros]: "tx_keeps I (UpdateBalance inp)"
proof -
  have "tx_keeps I (stmt w (insert_adjusted k))" for w k
    by (rule keeps_stmt) (auto simp: insert_adjusted_def)
  then show ?thesis unfolding UpdateBalance_def GetBalance_def by (intro inv_intros)
qed

end

end
