(* ===== verification/RepoSafety.thy ===== *)
theory RepoSafety
  imports RepoInvariant
begin

text \<open>
  Safety of the order database: accounts never go negative, money is conserved, terminal
  orders never change their status. Each invariant is an instance of the contract of theory
  \<open>RepoInvariant\<close>.
\<close>

section \<open>Runs\<close>

datatype 'd repo_op =
    RInsert insert_pending_input
  | RMatch match_apply
  | RTrade trade_apply
  | RCancel uint64 uint64 string
  | RReject uint64 string
  | RResend uint64 string
  | RAdjust "'d update_balance_input"
  | RMark uint64
  | RMarkBatch "uint64 list"
  | RRetry uint64

fun repo_run :: "('d::linordered_idom) denv \<Rightarrow> env_codec \<Rightarrow> 'd repo_op \<Rightarrow> 'd db \<Rightarrow> 'd db" where
  "repo_run D C (RInsert inp) db = snd (InsertPending D C inp db)"
| "repo_run D C (RMatch inp) db = snd (ApplyMatchEvent D inp db)"
| "repo_run D C (RTrade inp) db = snd (ApplyTradeEvent D inp db)"
| "repo_run D C (RCancel u i tp) db = snd (BeginCancel D C u i tp db)"
| "repo_run D C (RReject i tp) db = snd (RejectStalePending D C i tp db)"
| "repo_run D C (RResend i tp) db = snd (ResendCancelCommand D C i tp db)"
| "repo_run D C (RAdjust inp) db = snd (UpdateBalance inp db)"
| "repo_run D C (RMark i) db = snd (MarkPublished i db)"
| "repo_run D C (RMarkBatch ids) db = snd (MarkPublishedBatch ids db)"
| "repo_run D C (RRetry i) db = snd (IncrementRetry i db)"

text \<open>Operations one after the other, at whatever times and with whatever failures.\<close>

inductive repo_reach :: "('d::linordered_idom) denv \<Rightarrow> env_codec \<Rightarrow> 'd db \<Rightarrow> 'd db \<Rightarrow> bool" for D C where
  start: "repo_reach D C db db"
| step: "repo_reach D C db db1 \<Longrightarrow> repo_reach D C db (repo_run D C op (db1\<lparr>db_now := t0, db_calls := calls\<rparr>))"

context order_tables begin

lemmas keeps_ops = keeps_snd [OF keeps_InsertPending] keeps_snd [OF keeps_ApplyMatchEvent] keeps_snd [OF keeps_BeginCancel]
  keeps_snd [OF keeps_RejectStalePending] keeps_snd [OF keeps_ResendCancel] keeps_snd [OF keeps_mark(1)]
  keeps_snd [OF keeps_mark(2)] keeps_snd [OF keeps_mark(3)]

lemma repo_run_keeps_unsettled:
  assumes "I (db_tables db)" "\<And>inp. op \<noteq> RTrade inp" "\<And>inp. op \<noteq> RAdjust inp"
  shows "I (db_tables (repo_run D C op db))"
proof (cases op)
  case (RTrade inp)
  with assms(2) show ?thesis by blast
next
  case (RAdjust inp)
  with assms(3) show ?thesis by blast
qed (simp_all add: keeps_ops assms(1))

end

context settled_tables begin

lemma repo_run_keeps: "I (db_tables db) \<Longrightarrow> I (db_tables (repo_run D C op db))"
  by (cases op) (simp_all add: keeps_ops keeps_snd [OF keeps_ApplyTradeEvent] keeps_snd [OF keeps_UpdateBalance])

lemma repo_reach_keeps: "repo_reach D C db db' \<Longrightarrow> I (db_tables db) \<Longrightarrow> I (db_tables db')"
  by (induction rule: repo_reach.induct) (auto intro: repo_run_keeps)

end

section \<open>Accounts\<close>

definition accounts_ok :: "('d::linordered_idom) tables \<Rightarrow> bool" where
  "accounts_ok t \<longleftrightarrow>
     distinct (map (\<lambda>r. (br_UserID r, br_Asset r)) (t_balances t)) \<and>
     (\<forall>r \<in> set (t_balances t). 0 \<le> br_Balance r \<and> 0 \<le> br_Frozen r)"

lemma update_balances_rows:
  "t_balances (snd (update_balances P f t)) =
     map (\<lambda>r. if P r then f (r\<lparr>br_Version := br_Version r + 1\<rparr>) else r) (t_balances t)"
  by (simp add: update_balances_def update_rows_def)

lemma accounts_ok_update:
  assumes "accounts_ok t" "\<And>r. P r \<Longrightarrow> 0 \<le> br_Balance r \<Longrightarrow> 0 \<le> br_Frozen r \<Longrightarrow>
     br_UserID (f (r\<lparr>br_Version := br_Version r + 1\<rparr>)) = br_UserID r \<and>
     br_Asset (f (r\<lparr>br_Version := br_Version r + 1\<rparr>)) = br_Asset r \<and>
     0 \<le> br_Balance (f (r\<lparr>br_Version := br_Version r + 1\<rparr>)) \<and> 0 \<le> br_Frozen (f (r\<lparr>br_Version := br_Version r + 1\<rparr>))"
  shows "accounts_ok (snd (update_balances P f t))"
proof -
  have k: "map (\<lambda>r. (br_UserID r, br_Asset r)) (t_balances (snd (update_balances P f t))) =
      map (\<lambda>r. (br_UserID r, br_Asset r)) (t_balances t)"
    using assms by (auto simp: update_balances_rows accounts_ok_def)
  show ?thesis using assms unfolding accounts_ok_def k by (auto simp: update_balances_rows)
qed

interpretation acc: settled_tables accounts_ok
proof unfold_locales
  show "accounts_ok (t\<lparr>t_idem := im, t_outbox := ob, t_trades := tr, t_processed := pr, t_adjusted := ad\<rparr>)"
    if "accounts_ok t" for t :: "'a tables" and im ob tr pr ad using that by (simp add: accounts_ok_def)
  show "accounts_ok (t\<lparr>t_orders := t_orders t @ [r]\<rparr>)" if "accounts_ok t" for t :: "'a tables" and r
    using that by (simp add: accounts_ok_def)
  show "accounts_ok (t\<lparr>t_orders := map (\<lambda>r. if P r then f r else r) (t_orders t)\<rparr>)" if "accounts_ok t" for t :: "'a tables" and P f
    using that by (simp add: accounts_ok_def)
  show "accounts_ok (snd (update_balances (\<lambda>r. account u a r \<and> x \<le> br_Balance r)
        (\<lambda>r. r\<lparr>br_Balance := br_Balance r - x, br_Frozen := br_Frozen r + x\<rparr>) t))"
    if "accounts_ok t" "0 < x" for t :: "'a tables" and x u a
    by (rule accounts_ok_update [OF that(1)]) (use that(2) in auto)
  show "accounts_ok (snd (update_balances (\<lambda>r. account u a r \<and> 0 < br_Frozen r)
        (\<lambda>r. r\<lparr>br_Balance := br_Balance r + min (br_Frozen r) x, br_Frozen := br_Frozen r - min (br_Frozen r) x\<rparr>) t))"
    if "accounts_ok t" "0 < x" for t :: "'a tables" and x u a
    by (rule accounts_ok_update [OF that(1)]) (use that(2) in auto)
  show "accounts_ok (snd (update_balances (\<lambda>r. account u a r \<and> x \<le> br_Frozen r) (\<lambda>r. r\<lparr>br_Frozen := br_Frozen r - x\<rparr>) t))"
    if "accounts_ok t" "0 < x" for t :: "'a tables" and x u a
    by (rule accounts_ok_update [OF that(1)]) auto
  show "accounts_ok (snd (update_balances (\<lambda>r. account u a r \<and> br_Version r = v) (\<lambda>r. r\<lparr>br_Balance := x\<rparr>) t))"
    if "accounts_ok t" "0 \<le> x" for t :: "'a tables" and x u a v
    by (rule accounts_ok_update [OF that(1)]) (use that(2) in auto)
  show "accounts_ok (t\<lparr>t_balances := t_balances t @
      [\<lparr> br_UserID = u, br_Asset = a, br_Balance = x, br_Frozen = 0, br_Version = 0 \<rparr>]\<rparr>)"
    if "accounts_ok t" "0 < x" "\<forall>r \<in> set (t_balances t). \<not> account u a r" for t :: "'a tables" and x u a
    using that by (auto simp: accounts_ok_def account_def)
qed

section \<open>Supply\<close>

text \<open>What all users together have of an asset.\<close>

definition holdings :: "string \<Rightarrow> ('d::linordered_idom) tables \<Rightarrow> 'd" where
  "holdings a t = (\<Sum>r \<leftarrow> t_balances t. if br_Asset r = a then br_Balance r + br_Frozen r else 0)"

lemma holdings_update:
  assumes "\<And>r. P r \<Longrightarrow> br_Asset (f (r\<lparr>br_Version := br_Version r + 1\<rparr>)) = br_Asset r \<and>
     br_Balance (f (r\<lparr>br_Version := br_Version r + 1\<rparr>)) + br_Frozen (f (r\<lparr>br_Version := br_Version r + 1\<rparr>))
       = br_Balance r + br_Frozen r"
  shows "holdings b (snd (update_balances P f t)) = holdings b t"
  unfolding holdings_def update_balances_rows map_map
  by (rule arg_cong [where f = sum_list], rule map_cong) (use assms in auto)

definition supplied :: "string \<Rightarrow> 'd \<Rightarrow> ('d::linordered_idom) tables \<Rightarrow> bool" where
  "supplied b c t \<longleftrightarrow> accounts_ok t \<and> holdings b t = c"

interpretation sup: order_tables "supplied b c"
proof unfold_locales
  show "supplied b c (t\<lparr>t_idem := im, t_outbox := ob, t_trades := tr, t_processed := pr, t_adjusted := ad\<rparr>)"
    if "supplied b c t" for t im ob tr pr ad using that by (simp add: supplied_def holdings_def accounts_ok_def)
  show "supplied b c (t\<lparr>t_orders := t_orders t @ [r]\<rparr>)" if "supplied b c t" for t r
    using that by (simp add: supplied_def holdings_def accounts_ok_def)
  show "supplied b c (t\<lparr>t_orders := map (\<lambda>r. if P r then f r else r) (t_orders t)\<rparr>)" if "supplied b c t" for t P f
    using that by (simp add: supplied_def holdings_def accounts_ok_def)
  show "supplied b c (snd (update_balances (\<lambda>r. account u a r \<and> x \<le> br_Balance r)
        (\<lambda>r. r\<lparr>br_Balance := br_Balance r - x, br_Frozen := br_Frozen r + x\<rparr>) t))"
    if "supplied b c t" "0 < x" for t x u a
    using that by (simp add: supplied_def holdings_update acc.freeze_row)
  show "supplied b c (snd (update_balances (\<lambda>r. account u a r \<and> 0 < br_Frozen r)
        (\<lambda>r. r\<lparr>br_Balance := br_Balance r + min (br_Frozen r) x, br_Frozen := br_Frozen r - min (br_Frozen r) x\<rparr>) t))"
    if "supplied b c t" "0 < x" for t x u a
    using that by (simp add: supplied_def holdings_update acc.unfreeze_row)
qed

section \<open>Order statuses\<close>

definition statuses_known :: "'d tables \<Rightarrow> bool" where
  "statuses_known t \<longleftrightarrow> (\<forall>r \<in> set (t_orders t). known_status (or_Status r))"

text \<open>Order \<open>k\<close> has the terminal status \<open>s\<close>.\<close>

definition ended :: "uint64 \<Rightarrow> string \<Rightarrow> 'd tables \<Rightarrow> bool" where
  "ended k s t \<longleftrightarrow> (IsTerminal s \<longrightarrow> (\<exists>r \<in> set (t_orders t). or_ID r = k \<and> or_Status r = s))"

lemma same_order_known: "same_order r r' \<Longrightarrow> known_status (or_Status r) \<Longrightarrow> known_status (or_Status r')"
  by (auto simp: same_order_def)

lemma same_order_ended: "same_order r r' \<Longrightarrow> IsTerminal (or_Status r) \<Longrightarrow> or_ID r' = or_ID r \<and> or_Status r' = or_Status r"
  by (auto simp: same_order_def dest: AllowedFrom_not_terminal)

interpretation knw: settled_tables statuses_known
proof unfold_locales
  show "statuses_known (t\<lparr>t_orders := map (\<lambda>r. if P r then f r else r) (t_orders t)\<rparr>)"
    if "statuses_known t" "\<And>r. P r \<Longrightarrow> same_order r (f r)" for t :: "'a tables" and P f
    using that by (auto simp: statuses_known_def intro: same_order_known)
qed (auto simp: statuses_known_def update_balances_def split_beta known_status_def)

interpretation fin: settled_tables "ended k s"
proof unfold_locales
  show "ended k s (t\<lparr>t_orders := map (\<lambda>r. if P r then f r else r) (t_orders t)\<rparr>)"
    if e: "ended k s t" and so: "\<And>r. P r \<Longrightarrow> same_order r (f r)" for t :: "'a tables" and P f
    unfolding ended_def
  proof
    assume s: "IsTerminal s"
    with e obtain r where r: "r \<in> set (t_orders t)" "or_ID r = k" "or_Status r = s" by (auto simp: ended_def)
    let ?r = "if P r then f r else r"
    have "or_ID ?r = k" "or_Status ?r = s" using same_order_ended [OF so, of r] r s by auto
    with r(1) show "\<exists>r \<in> set (t_orders (t\<lparr>t_orders := map (\<lambda>r. if P r then f r else r) (t_orders t)\<rparr>)). or_ID r = k \<and> or_Status r = s"
      by force
  qed
qed (auto simp: ended_def update_balances_def split_beta)

section \<open>What a successful transaction did\<close>

lemma bind_InrE:
  assumes "bind_tx m f db = (Inr y, db')"
  obtains x db1 where "m db = (Inr x, db1)" "f x db1 = (Inr y, db')"
  using assms by (auto simp: bind_tx_def split: prod.splits sum.splits)

definition begun :: "'d db \<Rightarrow> 'd db" where
  "begun db = db\<lparr>db_pos := Suc (db_pos db)\<rparr>"

lemma begun_tables [simp]: "db_tables (begun db) = db_tables db" "db_now (begun db) = db_now db"
  "db_nextOrder (begun db) = db_nextOrder db" "db_nextOutbox (begun db) = db_nextOutbox db"
  by (simp_all add: begun_def)

lemma transaction_cases:
  assumes "transaction body db = (r, db')"
  obtains (unchanged) "db_tables db' = db_tables db" "\<And>x. r = Inr x \<Longrightarrow> \<exists>db2. body (begun db) = (Inr (Discard x), db2)"
    | (committed) x db2 where "body (begun db) = (Inr (Commit x), db2)" "db_tables db' = db_tables db2"
        "r = Inr x \<or> r = Inl (ErrMsg ''commit tx'')"
  using assms
  by (auto simp: transaction_def db_call_def Let_def begun_def rollback_def
      split: if_splits prod.splits sum.splits tx_end.splits call_outcome.splits)

lemma stmt_InrE:
  assumes "stmt what f db = (Inr x, db')"
  obtains t where "f (db_tables db) = (x, t)" "db_tables db' = t" "db_now db' = db_now db"
    "db_nextOrder db' = db_nextOrder db" "db_nextOutbox db' = db_nextOutbox db"
  using assms by (auto simp: stmt_def stmt_err_def db_call_def Let_def split: if_splits prod.splits sum.splits)

lemma stmt_err_InrE:
  assumes "stmt_err what f db = (Inr x, db')"
  obtains t where "f (db_tables db) = (Inr x, t)" "db_tables db' = t" "db_now db' = db_now db"
    "db_nextOrder db' = db_nextOrder db" "db_nextOutbox db' = db_nextOutbox db"
  using assms by (auto simp: stmt_err_def db_call_def Let_def split: if_splits prod.splits sum.splits)

lemma query_InrE:
  assumes "query what f db = (Inr x, db')"
  shows "x = f (db_tables db) \<and> db_tables db' = db_tables db \<and> db_now db' = db_now db \<and>
    db_nextOrder db' = db_nextOrder db \<and> db_nextOutbox db' = db_nextOutbox db"
  using assms unfolding query_def by (auto elim!: stmt_InrE)

lemma return_tx_Inr [simp]: "return_tx x db = (r, db') \<longleftrightarrow> r = Inr x \<and> db' = db"
  by (auto simp: return_tx_def)

lemma fail_tx_Inr [simp]: "fail_tx e db = (r, db') \<longleftrightarrow> r = Inl e \<and> db' = db"
  by (auto simp: fail_tx_def)

lemma lift_tx_Inr [simp]: "lift_tx x db = (r, db') \<longleftrightarrow> r = x \<and> db' = db"
  by (auto simp: lift_tx_def)

lemma getOrderForUpdate_InrE:
  assumes "getOrderForUpdate D i db = (Inr od, db')"
  obtains r where "find (\<lambda>r. or_ID r = i) (t_orders (db_tables db)) = Some r" "r \<in> set (t_orders (db_tables db))"
    "or_ID r = i" "od = scanOrder D r" "db_tables db' = db_tables db" "db_now db' = db_now db"
    "db_nextOrder db' = db_nextOrder db" "db_nextOutbox db' = db_nextOutbox db"
proof -
  obtain row db1 where q: "query ''scan order'' (\<lambda>t. find (\<lambda>r. or_ID r = i) (t_orders t)) db = (Inr row, db1)"
    "(case row of None \<Rightarrow> fail_tx ErrOrderNotFound | Some r \<Rightarrow> return_tx (scanOrder D r)) db1 = (Inr od, db')"
    using assms unfolding getOrderForUpdate_def by (rule bind_InrE)
  note f = query_InrE [OF q(1)]
  obtain r where r: "row = Some r" "od = scanOrder D r" "db' = db1" using q(2) by (auto split: option.splits)
  with f have "find (\<lambda>r. or_ID r = i) (t_orders (db_tables db)) = Some r" by simp
  with that f r find_Some_iff [of "\<lambda>r. or_ID r = i" "t_orders (db_tables db)" r] show thesis by (metis nth_mem)
qed

section \<open>What stays recorded\<close>

definition traded :: "uint64 \<Rightarrow> 'd tables \<Rightarrow> bool" where
  "traded k t \<longleftrightarrow> (\<exists>x \<in> set (t_trades t). ta_TradeID (fst x) = k)"

definition matched :: "uint64 \<times> uint64 \<times> int \<Rightarrow> 'd tables \<Rightarrow> bool" where
  "matched k t \<longleftrightarrow> k \<in> t_processed t"

definition bound_to :: "uint64 \<times> string \<Rightarrow> uint64 \<Rightarrow> 'd tables \<Rightarrow> bool" where
  "bound_to k i t \<longleftrightarrow> t_idem t k = Some i"

interpretation trd: settled_tables "traded k"
  by unfold_locales (auto simp: traded_def update_balances_def split_beta)

interpretation mtc: settled_tables "matched k"
  by unfold_locales (auto simp: matched_def update_balances_def split_beta)

interpretation bnd: settled_tables "bound_to k i"
  by unfold_locales (cases k; auto simp: bound_to_def update_balances_def split_beta map_le_def dom_def; fastforce)+

end
