(* ===== verification/RepoMoney.thy ===== *)
theory RepoMoney
  imports RepoSafety
begin

text \<open>
  Money in the order database: what each account operation does to the holdings of an asset,
  and that trades only move holdings between users.
\<close>

section \<open>Updates of one account\<close>

lemma sum_list_update:
  "(\<Sum>x \<leftarrow> xs. v (if P x then f x else x)) = (\<Sum>x \<leftarrow> xs. v x) + (\<Sum>x \<leftarrow> filter P xs. v (f x) - v x)"
  for v :: "'a \<Rightarrow> 'b::ab_group_add"
  by (induction xs) (auto simp: algebra_simps)

lemma filter_one:
  assumes "distinct (map f xs)" "\<And>x y. P x \<Longrightarrow> P y \<Longrightarrow> f x = f y" "r \<in> set xs" "P r"
  shows "filter P xs = [r]"
proof -
  have d: "distinct (map f (filter P xs))" by (rule distinct_map_filter [OF assms(1)])
  have e: "f x = f r" if "x \<in> set (filter P xs)" for x
    by (rule assms(2)) (use that assms(4) in simp_all)
  have r: "r \<in> set (filter P xs)" using assms(3,4) by simp
  then obtain y ys where y: "filter P xs = y # ys" by (cases "filter P xs") auto
  have "ys = []"
  proof (cases ys)
    case (Cons z zs)
    have "f y = f r" "f z = f r" by (rule e, simp add: y Cons)+
    with d show ?thesis by (simp add: y Cons)
  qed
  with y r show ?thesis by simp
qed

lemma account_rows:
  assumes "accounts_ok t" "\<And>r. P r \<Longrightarrow> account u a r" "r \<in> set (t_balances t)" "P r"
  shows "filter P (t_balances t) = [r]"
proof (rule filter_one [where f = "\<lambda>r. (br_UserID r, br_Asset r)"])
  show "distinct (map (\<lambda>r. (br_UserID r, br_Asset r)) (t_balances t))" using assms(1) by (simp add: accounts_ok_def)
qed (use assms in \<open>auto simp: account_def\<close>)

lemma holdings_one:
  assumes ok: "accounts_ok t" and P: "\<And>r. P r \<Longrightarrow> account u a r"
    and up: "update_balances P f t = (n, t')" "n \<noteq> 0"
    and f: "\<And>r. br_Asset (f r) = br_Asset r"
      "\<And>r. P r \<Longrightarrow> br_Balance (f (r\<lparr>br_Version := br_Version r + 1\<rparr>)) + br_Frozen (f (r\<lparr>br_Version := br_Version r + 1\<rparr>))
        = br_Balance r + br_Frozen r + x"
  shows "holdings b t' = holdings b t + (if b = a then x else 0)"
proof -
  have "filter P (t_balances t) \<noteq> []" using up by (auto simp: update_balances_def update_rows_def)
  then obtain r where r: "r \<in> set (t_balances t)" "P r" by (metis filter_False)
  note one = account_rows [where P = P and u = u and a = a, OF ok P r]
  have a: "br_Asset r = a" using P [OF r(2)] by (simp add: account_def)
  let ?v = "\<lambda>r. if br_Asset r = b then br_Balance r + br_Frozen r else 0"
  have "holdings b t' = (\<Sum>r \<leftarrow> t_balances t. ?v (if P r then f (r\<lparr>br_Version := br_Version r + 1\<rparr>) else r))"
    using update_balances_rows [of P f t] up(1) by (simp add: holdings_def comp_def)
  also have "\<dots> = holdings b t + (?v (f (r\<lparr>br_Version := br_Version r + 1\<rparr>)) - ?v r)"
    using sum_list_update [where v = ?v and P = P and f = "\<lambda>r. f (r\<lparr>br_Version := br_Version r + 1\<rparr>)" and xs = "t_balances t"]
    by (simp add: one holdings_def)
  also have "?v (f (r\<lparr>br_Version := br_Version r + 1\<rparr>)) - ?v r = (if b = a then x else 0)"
    using f(2) [OF r(2)] a by (simp add: f(1))
  finally show ?thesis .
qed

lemma consumeFrozen_holdings:
  assumes "accounts_ok (db_tables db)" "consumeFrozen u a x db = (Inr (), db')"
  shows "holdings b (db_tables db') = holdings b (db_tables db) - (if b = a then x else 0)"
proof (cases "x = 0")
  case True
  with assms(2) show ?thesis by (simp add: consumeFrozen_def)
next
  case False
  then obtain n db1 where s: "stmt ''consume frozen update'' (update_balances (\<lambda>r. account u a r \<and> x \<le> br_Frozen r)
      (\<lambda>r. r\<lparr>br_Frozen := br_Frozen r - x\<rparr>)) db = (Inr n, db1)" "n \<noteq> 0" "db' = db1"
    using assms(2) unfolding consumeFrozen_def by (auto split: if_splits elim!: bind_InrE)
  obtain t where "update_balances (\<lambda>r. account u a r \<and> x \<le> br_Frozen r) (\<lambda>r. r\<lparr>br_Frozen := br_Frozen r - x\<rparr>) (db_tables db) = (n, t)"
    "db_tables db1 = t" using s(1) by (rule stmt_InrE)
  with holdings_one [where x = "- x" and a = a and u = u, OF assms(1) _ this(1) s(2)] s(3) show ?thesis by simp
qed

lemma adjustBalance_holdings:
  assumes "accounts_ok (db_tables db)" "adjustBalance u a x db = (Inr (), db')"
  shows "holdings b (db_tables db') = holdings b (db_tables db) + (if b = a then x else 0)"
proof (cases "x = 0")
  case True
  with assms(2) show ?thesis by (simp add: adjustBalance_def)
next
  case False
  then obtain row db1 where q: "query ''select balance'' (\<lambda>t. find (account u a) (t_balances t)) db = (Inr row, db1)"
    "(case row of
        None \<Rightarrow> if x < 0 then fail_tx ErrInsufficientBalance
          else stmt_err ''insert balance''
            (insert_balance \<lparr> br_UserID = u, br_Asset = a, br_Balance = x, br_Frozen = 0, br_Version = 0 \<rparr>)
      | Some r \<Rightarrow> if br_Balance r + x < 0 then fail_tx ErrInsufficientBalance
          else bind_tx (stmt ''update balance''
              (update_balances (\<lambda>y. account u a y \<and> br_Version y = br_Version r) (\<lambda>y. y\<lparr>br_Balance := br_Balance r + x\<rparr>)))
            (\<lambda>n. if n = 0 then fail_tx (ErrMsg ''update balance: concurrent conflict'') else return_tx ())) db1 = (Inr (), db')"
    using assms(2) unfolding adjustBalance_def Let_def by (auto elim!: bind_InrE)
  note t1 = query_InrE [OF q(1)]
  show ?thesis
  proof (cases row)
    case None
    with q(2) have "stmt_err ''insert balance''
        (insert_balance \<lparr> br_UserID = u, br_Asset = a, br_Balance = x, br_Frozen = 0, br_Version = 0 \<rparr>) db1 = (Inr (), db')"
      by (auto split: if_splits)
    then obtain t where "insert_balance \<lparr> br_UserID = u, br_Asset = a, br_Balance = x, br_Frozen = 0, br_Version = 0 \<rparr>
        (db_tables db1) = (Inr (), t)" and t: "db_tables db' = t" by (rule stmt_err_InrE)
    then have "t = (db_tables db)\<lparr>t_balances := t_balances (db_tables db) @
        [\<lparr> br_UserID = u, br_Asset = a, br_Balance = x, br_Frozen = 0, br_Version = 0 \<rparr>]\<rparr>"
      using t1 by (auto simp: insert_balance_def split: if_splits)
    then show ?thesis unfolding t by (simp add: holdings_def)
  next
    case (Some r)
    then have r: "r \<in> set (t_balances (db_tables db))" "account u a r"
      using t1 find_Some_iff [of "account u a" "t_balances (db_tables db)" r] by auto
    from Some q(2) obtain n where s: "stmt ''update balance'' (update_balances (\<lambda>y. account u a y \<and> br_Version y = br_Version r)
        (\<lambda>y. y\<lparr>br_Balance := br_Balance r + x\<rparr>)) db1 = (Inr n, db')" "n \<noteq> 0"
      by (auto split: if_splits elim!: bind_InrE)
    obtain t where "update_balances (\<lambda>y. account u a y \<and> br_Version y = br_Version r)
        (\<lambda>y. y\<lparr>br_Balance := br_Balance r + x\<rparr>) (db_tables db1) = (n, t)" "db_tables db' = t"
      using s(1) by (rule stmt_InrE)
    with t1 have u: "update_balances (\<lambda>y. account u a y \<and> br_Version y = br_Version r)
        (\<lambda>y. y\<lparr>br_Balance := br_Balance r + x\<rparr>) (db_tables db) = (n, t)" "db_tables db' = t" by simp_all
    have same: "y = r" if "account u a y" "y \<in> set (t_balances (db_tables db))" for y
    proof -
      have "filter (account u a) (t_balances (db_tables db)) = [r]"
        by (rule account_rows [where P = "account u a" and u = u and a = a, OF assms(1) _ r])
      moreover have "y \<in> set (filter (account u a) (t_balances (db_tables db)))" using that by simp
      ultimately show ?thesis by simp
    qed
    let ?P = "\<lambda>y. account u a y \<and> br_Version y = br_Version r \<and> y \<in> set (t_balances (db_tables db))"
    have "update_balances ?P (\<lambda>y. y\<lparr>br_Balance := br_Balance r + x\<rparr>) (db_tables db) = (n, t)"
    proof -
      have "filter ?P (t_balances (db_tables db)) = filter (\<lambda>y. account u a y \<and> br_Version y = br_Version r) (t_balances (db_tables db))"
        by (rule filter_cong) auto
      with u(1) show ?thesis by (auto simp: update_balances_def update_rows_def intro!: map_cong)
    qed
    then have "holdings b t = holdings b (db_tables db) + (if b = a then x else 0)"
      by (rule holdings_one [where u = u, OF assms(1), rotated]) (use same s(2) in auto)
    with u(2) show ?thesis by simp
  qed
qed

section \<open>Trades\<close>

text \<open>What settling one side adds to the holdings of an asset.\<close>

definition settled :: "('d::linordered_idom) denv \<Rightarrow> int \<Rightarrow> string \<times> string \<Rightarrow> 'd \<Rightarrow> 'd \<Rightarrow> string \<Rightarrow> 'd" where
  "settled D side pair notional qty b =
     (let q = (if b = fst pair then repo_roundDown D (fst pair) qty else 0);
          n = (if b = snd pair then repo_roundDown D (snd pair) notional else 0)
      in if side = SIDE_BUY then q - n else n - q)"

lemma consume_credit_holdings:
  assumes "accounts_ok (db_tables db)" "bind_tx (consumeFrozen u a x) (\<lambda>_. creditBalance u c y) db = (Inr (), db')"
  shows "holdings b (db_tables db') = holdings b (db_tables db) - (if b = a then x else 0) + (if b = c then y else 0)"
proof -
  obtain db1 where 1: "consumeFrozen u a x db = (Inr (), db1)" "creditBalance u c y db1 = (Inr (), db')"
    using assms(2) by (auto elim!: bind_InrE)
  have "accounts_ok (db_tables db1)" by (rule tx_keepsD [OF acc.keeps_consume assms(1) 1(1)])
  moreover have "adjustBalance u c y db1 = (Inr (), db')"
    using 1(2) by (auto simp: creditBalance_def adjustBalance_def split: if_splits)
  ultimately have "holdings b (db_tables db') = holdings b (db_tables db1) + (if b = c then y else 0)"
    by (rule adjustBalance_holdings)
  with consumeFrozen_holdings [OF assms(1) 1(1)] show ?thesis by simp
qed

lemma settle_holdings:
  assumes "accounts_ok (db_tables db)" "settleTradeForUser D u side pair notional qty db = (Inr (), db')"
  shows "holdings b (db_tables db') = holdings b (db_tables db) + settled D side pair notional qty b"
proof (cases "side = SIDE_BUY")
  case True
  with assms(2) consume_credit_holdings [OF assms(1)] show ?thesis
    by (simp add: settleTradeForUser_def settled_def Let_def)
next
  case False
  with assms(2) have "side = SIDE_SELL" by (auto simp: settleTradeForUser_def Let_def split: if_splits)
  with False assms(2) consume_credit_holdings [OF assms(1)] show ?thesis
    by (simp add: settleTradeForUser_def settled_def Let_def)
qed

lemma settled_opposite:
  "{s1, s2} = {SIDE_BUY, SIDE_SELL} \<Longrightarrow> settled D s1 p n q b + settled D s2 p n q b = 0"
  by (auto simp: settled_def Let_def doubleton_eq_iff SIDE_BUY_def SIDE_SELL_def)

text \<open>The orders of a trade have opposite sides.\<close>

definition trade_sides :: "trade_apply \<Rightarrow> 'd tables \<Rightarrow> bool" where
  "trade_sides inp t \<longleftrightarrow>
     (\<forall>m k. m \<in> set (t_orders t) \<longrightarrow> k \<in> set (t_orders t) \<longrightarrow> or_ID m = ta_MakerOrderID inp \<longrightarrow> or_ID k = ta_TakerOrderID inp \<longrightarrow>
       {or_Side m, or_Side k} = {SIDE_BUY, SIDE_SELL})"

lemma fill_holdings:
  assumes "accounts_ok (db_tables db)" "applyOrderTradeFill D i q db = (r, db')"
  shows "accounts_ok (db_tables db') \<and> holdings b (db_tables db') = holdings b (db_tables db)"
proof -
  have "tx_keeps (supplied b (holdings b (db_tables db))) (applyOrderTradeFill D i q)"
    unfolding applyOrderTradeFill_def Let_def by (intro inv_intros sup.keeps_getOrder sup.keeps_updateFilled sup.keeps_releaseOrder)
  from tx_keepsD [OF this _ assms(2)] assms(1) show ?thesis by (simp add: supplied_def)
qed

lemma trade_body_holdings:
  assumes ok: "accounts_ok (db_tables db)" and sides: "trade_sides inp (db_tables db)"
    and run: "bind_tx (insertTrade inp)
       (\<lambda>inserted. if \<not> inserted then return_tx (Discard ())
        else bind_tx (getOrderForUpdate D (ta_MakerOrderID inp))
       (\<lambda>maker. bind_tx (getOrderForUpdate D (ta_TakerOrderID inp))
       (\<lambda>taker. bind_tx (settleTradeForUser D (po_UserID maker) (po_Side maker) pair n q)
       (\<lambda>_. bind_tx (settleTradeForUser D (po_UserID taker) (po_Side taker) pair n q)
       (\<lambda>_. bind_tx (applyOrderTradeFill D (po_ID maker) q)
       (\<lambda>_. bind_tx (applyOrderTradeFill D (po_ID taker) q)
       (\<lambda>_. return_tx (Commit ())))))))) db = (Inr (Commit x), db')"
  shows "holdings b (db_tables db') = holdings b (db_tables db)"
proof -
  obtain ins db1 where 1: "insertTrade inp db = (Inr ins, db1)" "ins"
    "bind_tx (getOrderForUpdate D (ta_MakerOrderID inp))
       (\<lambda>maker. bind_tx (getOrderForUpdate D (ta_TakerOrderID inp))
       (\<lambda>taker. bind_tx (settleTradeForUser D (po_UserID maker) (po_Side maker) pair n q)
       (\<lambda>_. bind_tx (settleTradeForUser D (po_UserID taker) (po_Side taker) pair n q)
       (\<lambda>_. bind_tx (applyOrderTradeFill D (po_ID maker) q)
       (\<lambda>_. bind_tx (applyOrderTradeFill D (po_ID taker) q)
       (\<lambda>_. return_tx (Commit ()))))))) db1 = (Inr (Commit x), db')"
    using run by (auto elim!: bind_InrE split: if_splits)
  obtain t where t: "insert_trade inp (db_now db) (db_tables db) = (ins, t)" "db_tables db1 = t"
    using 1(1) unfolding insertTrade_def by (rule stmt_InrE)
  have t1: "t_orders (db_tables db1) = t_orders (db_tables db)" "t_balances (db_tables db1) = t_balances (db_tables db)"
    unfolding t(2) using t(1) by (auto simp: insert_trade_def split: if_splits)
  obtain maker db2 taker db3 db4 db5 db6 where
    2: "getOrderForUpdate D (ta_MakerOrderID inp) db1 = (Inr maker, db2)"
    and 3: "getOrderForUpdate D (ta_TakerOrderID inp) db2 = (Inr taker, db3)"
    and 4: "settleTradeForUser D (po_UserID maker) (po_Side maker) pair n q db3 = (Inr (), db4)"
    and 5: "settleTradeForUser D (po_UserID taker) (po_Side taker) pair n q db4 = (Inr (), db5)"
    and 6: "applyOrderTradeFill D (po_ID maker) q db5 = (Inr (), db6)"
    and 7: "applyOrderTradeFill D (po_ID taker) q db6 = (Inr (), db')"
    using 1(3) by (auto elim!: bind_InrE)
  obtain m where m: "m \<in> set (t_orders (db_tables db1))" "or_ID m = ta_MakerOrderID inp" "maker = scanOrder D m"
    "db_tables db2 = db_tables db1" using 2 by (rule getOrderForUpdate_InrE)
  obtain k where k: "k \<in> set (t_orders (db_tables db2))" "or_ID k = ta_TakerOrderID inp" "taker = scanOrder D k"
    "db_tables db3 = db_tables db2" using 3 by (rule getOrderForUpdate_InrE)
  have "{po_Side maker, po_Side taker} = {SIDE_BUY, SIDE_SELL}"
    using sides m k t1 by (auto simp: trade_sides_def scanOrder_def)
  note op = settled_opposite [OF this]
  have ok3: "accounts_ok (db_tables db3)" using ok t1 m(4) k(4) by (simp add: accounts_ok_def)
  have ok4: "accounts_ok (db_tables db4)" by (rule tx_keepsD [OF acc.keeps_settle ok3 4])
  have ok5: "accounts_ok (db_tables db5)" by (rule tx_keepsD [OF acc.keeps_settle ok4 5])
  have h3: "holdings b (db_tables db3) = holdings b (db_tables db)" using t1 m(4) k(4) by (simp add: holdings_def)
  have "holdings b (db_tables db5) = holdings b (db_tables db)"
    using settle_holdings [OF ok3 4, of b] settle_holdings [OF ok4 5, of b] op [of D pair n q b] h3 by simp
  with fill_holdings [OF ok5 6, of b] fill_holdings [of db6 D "po_ID taker" q "Inr ()" db' b] 7 show ?thesis by simp
qed

lemma trade_holdings:
  assumes ok: "accounts_ok (db_tables db)" and sides: "trade_sides inp (db_tables db)"
    and run: "ApplyTradeEvent D inp db = (r, db')"
  shows "holdings b (db_tables db') = holdings b (db_tables db)"
proof (cases "db_tables db' = db_tables db")
  case False
  have e: "\<And>e. fail_tx e db \<noteq> (r, db')" using False by (auto simp: fail_tx_def)
  obtain price qty pair where tr: "transaction (bind_tx (insertTrade inp)
       (\<lambda>inserted. if \<not> inserted then return_tx (Discard ())
        else bind_tx (getOrderForUpdate D (ta_MakerOrderID inp))
       (\<lambda>maker. bind_tx (getOrderForUpdate D (ta_TakerOrderID inp))
       (\<lambda>taker. bind_tx (settleTradeForUser D (po_UserID maker) (po_Side maker) pair (price * qty) qty)
       (\<lambda>_. bind_tx (settleTradeForUser D (po_UserID taker) (po_Side taker) pair (price * qty) qty)
       (\<lambda>_. bind_tx (applyOrderTradeFill D (po_ID maker) qty)
       (\<lambda>_. bind_tx (applyOrderTradeFill D (po_ID taker) qty)
       (\<lambda>_. return_tx (Commit ()))))))))) db = (r, db')"
    using run e unfolding ApplyTradeEvent_def by (auto simp del: fail_tx_Inr split: if_splits option.splits sum.splits)
  then show ?thesis
  proof (cases rule: transaction_cases)
    case unchanged
    with False show ?thesis by simp
  next
    case (committed x db2)
    from trade_body_holdings [OF _ _ committed(1)] ok sides committed(2) show ?thesis by simp
  qed
qed simp

end
