(* ===== verification/RepoProps.thy ===== *)
theory RepoProps
  imports RepoMoney
begin

text \<open>
  The properties of the order database, with a small concrete instance for the witnesses.
\<close>

section \<open>A concrete database\<close>

definition wit_denv :: "int denv" where
  "wit_denv = \<lparr> de_libs = int_libs, de_numeric = int_to_string, de_assets = None \<rparr>"

definition wit_insert :: insert_pending_input where
  "wit_insert = \<lparr> ip_UserID = 1, ip_ClientOrderID = ''c1'', ip_Symbol = ''BTC-USDT'', ip_Side = 1, ip_OrderType = 1,
     ip_Price = Some ''100'', ip_FreezePrice = Some ''100'', ip_FreezeSlippage = None, ip_FrozenAmount = Some ''500'',
     ip_Quantity = ''5'', ip_OutboxTopic = ''order.commands'' \<rparr>"

definition wit_row :: "uint64 \<Rightarrow> uint64 \<Rightarrow> int \<Rightarrow> int order_row" where
  "wit_row i u s = \<lparr> or_ID = i, or_UserID = u, or_ClientOrderID = ''c1'', or_Symbol = ''BTC-USDT'', or_Side = s, or_OrderType = 1,
     or_Price = Some 100, or_FreezePrice = Some 100, or_FreezeSlippage = None,
     or_FrozenAmount = (if s = 1 then Some 500 else None), or_Quantity = 5, or_FilledQuantity = 0,
     or_Status = Pending, or_Version = 0, or_CreatedAt = 7, or_UpdatedAt = 7 \<rparr>"

definition wit_tables :: "int tables" where
  "wit_tables = \<lparr> t_orders = [], t_idem = Map.empty, t_outbox = [], t_trades = [],
     t_balances = [\<lparr> br_UserID = 1, br_Asset = ''USDT'', br_Balance = 1000, br_Frozen = 0, br_Version = 0 \<rparr>,
                   \<lparr> br_UserID = 2, br_Asset = ''BTC'', br_Balance = 5, br_Frozen = 5, br_Version = 0 \<rparr>],
     t_processed = {}, t_adjusted = {} \<rparr>"

definition wit_db :: "int db" where
  "wit_db = \<lparr> db_tables = wit_tables, db_nextOrder = 1, db_nextOutbox = 1, db_now = 7, db_calls = (\<lambda>_. Done), db_pos = 0 \<rparr>"

definition wit_env_codec :: env_codec where
  "wit_env_codec = \<lparr> marshal_env = (\<lambda>m. if m = buildNewOrderEnvelope int_libs (scanOrder wit_denv (wit_row 1 1 1)) 1 then Some [1] else None),
     unmarshal_env = (\<lambda>b. Some (buildNewOrderEnvelope int_libs (scanOrder wit_denv (wit_row 1 1 1)) 1)) \<rparr>"

lemma wit_insert_run: "t_balances (db_tables (snd (InsertPending wit_denv wit_env_codec wit_insert wit_db))) =
   [\<lparr> br_UserID = 1, br_Asset = ''USDT'', br_Balance = 500, br_Frozen = 500, br_Version = 1 \<rparr>,
                   \<lparr> br_UserID = 2, br_Asset = ''BTC'', br_Balance = 5, br_Frozen = 5, br_Version = 0 \<rparr>]"
  by code_simp

definition wit_trade_tables :: "int tables" where
  "wit_trade_tables = wit_tables\<lparr> t_orders := [wit_row 1 2 2, wit_row 2 1 1],
     t_balances := [\<lparr> br_UserID = 1, br_Asset = ''USDT'', br_Balance = 500, br_Frozen = 500, br_Version = 1 \<rparr>,
                    \<lparr> br_UserID = 2, br_Asset = ''BTC'', br_Balance = 0, br_Frozen = 5, br_Version = 1 \<rparr>] \<rparr>"

definition wit_trade_db :: "int db" where
  "wit_trade_db = wit_db\<lparr> db_tables := wit_trade_tables, db_nextOrder := 3 \<rparr>"

definition wit_trade :: trade_apply where
  "wit_trade = \<lparr> ta_TradeID = 11, ta_Symbol = ''BTC-USDT'', ta_Price = ''90'', ta_Quantity = ''5'',
     ta_MakerOrderID = 1, ta_TakerOrderID = 2, ta_WalSeq = 3 \<rparr>"

text \<open>The buyer's 50 saved by the better price stay frozen although the order is filled.\<close>

lemma wit_trade_run:
  "t_balances (db_tables (snd (ApplyTradeEvent wit_denv wit_trade wit_trade_db))) =
     [\<lparr> br_UserID = 1, br_Asset = ''USDT'', br_Balance = 500, br_Frozen = 50, br_Version = 2 \<rparr>,
      \<lparr> br_UserID = 2, br_Asset = ''BTC'', br_Balance = 0, br_Frozen = 0, br_Version = 2 \<rparr>,
      \<lparr> br_UserID = 2, br_Asset = ''USDT'', br_Balance = 450, br_Frozen = 0, br_Version = 0 \<rparr>,
      \<lparr> br_UserID = 1, br_Asset = ''BTC'', br_Balance = 5, br_Frozen = 0, br_Version = 0 \<rparr>]"
  by code_simp

lemma wit_accounts_ok: "accounts_ok wit_tables" "accounts_ok wit_trade_tables"
  by code_simp+

section \<open>Properties\<close>



text \<open>
  C14. Money is conserved: every operation but the explicit balance adjustment leaves the
  total of each asset over all users, available and frozen, as it was, also when it fails
  half way or its commit is lost; for a trade, if its two orders have opposite sides.
\<close>

theorem money_conserved:
  assumes "accounts_ok (db_tables db)" and "\<forall>inp. op = RTrade inp \<longrightarrow> trade_sides inp (db_tables db)"
    and "\<forall>inp. op \<noteq> RAdjust inp"
  shows "holdings b (db_tables (repo_run D C op db)) = holdings b (db_tables db)"
proof (cases op)
  case (RTrade inp)
  with assms(2) trade_holdings [OF assms(1), of inp D "fst (ApplyTradeEvent D inp db)" "repo_run D C op db" b]
  show ?thesis by simp
next
  case (RAdjust inp)
  with assms(3) show ?thesis by simp
qed (use sup.repo_run_keeps_unsettled [of b "holdings b (db_tables db)" db op D C] assms(1) in \<open>auto simp: supplied_def\<close>)

theorem money_conserved_witness:
  "holdings ''USDT'' (db_tables (repo_run wit_denv wit_env_codec (RTrade wit_trade) wit_trade_db)) = 1000 \<and>
   map br_Frozen (t_balances (db_tables (repo_run wit_denv wit_env_codec (RTrade wit_trade) wit_trade_db))) = [50, 0, 0, 0]"
proof -
  have "trade_sides wit_trade (db_tables wit_trade_db)"
    by (auto simp: trade_sides_def wit_trade_db_def wit_trade_tables_def wit_trade_def wit_row_def SIDE_BUY_def SIDE_SELL_def)
  moreover have "holdings ''USDT'' (db_tables wit_trade_db) = 1000"
    by (simp add: holdings_def wit_trade_db_def wit_trade_tables_def)
  ultimately show ?thesis
    using money_conserved [of wit_trade_db "RTrade wit_trade" "''USDT''" wit_denv wit_env_codec] wit_accounts_ok(2) wit_trade_run
    by (simp add: wit_trade_db_def)
qed

text \<open>
  C15. Every order has one of the seven statuses, and an order that is FILLED, CANCELED or
  REJECTED keeps that status whatever events, requests and reconciliation runs follow.
\<close>

theorem order_status_final:
  assumes "repo_reach D C db db'" and "statuses_known (db_tables db)"
    and "r \<in> set (t_orders (db_tables db))" and "IsTerminal (or_Status r)"
  shows "statuses_known (db_tables db') \<and>
    (\<exists>r' \<in> set (t_orders (db_tables db')). or_ID r' = or_ID r \<and> or_Status r' = or_Status r)"
proof
  show "statuses_known (db_tables db')" by (rule knw.repo_reach_keeps [OF assms(1,2)])
  have "ended (or_ID r) (or_Status r) (db_tables db)" using assms(3) by (auto simp: ended_def)
  from fin.repo_reach_keeps [OF assms(1) this] assms(4)
  show "\<exists>r' \<in> set (t_orders (db_tables db')). or_ID r' = or_ID r \<and> or_Status r' = or_Status r"
    by (simp add: ended_def)
qed

definition wit_filled_db :: "int db" where
  "wit_filled_db = wit_db\<lparr> db_tables := wit_tables\<lparr> t_orders := [(wit_row 1 1 1)\<lparr> or_Status := Filled \<rparr>] \<rparr> \<rparr>"

theorem order_status_final_witness:
  "\<exists>r' \<in> set (t_orders (db_tables (repo_run wit_denv wit_env_codec
     (RMatch \<lparr> me_OrderID = 1, me_Symbol = ''BTC-USDT'', me_EventType = 4, me_WalSeq = 9, me_FilledQuantity = None \<rparr>) wit_filled_db))).
     or_ID r' = 1 \<and> or_Status r' = Filled"
proof -
  let ?op = "RMatch \<lparr> me_OrderID = 1, me_Symbol = ''BTC-USDT'', me_EventType = 4, me_WalSeq = 9, me_FilledQuantity = None \<rparr>"
  have w: "wit_filled_db\<lparr>db_now := 7, db_calls := (\<lambda>_. Done)\<rparr> = wit_filled_db" by (simp add: wit_filled_db_def wit_db_def)
  have "repo_reach wit_denv wit_env_codec wit_filled_db (repo_run wit_denv wit_env_codec ?op wit_filled_db)"
    using repo_reach.step [OF repo_reach.start, where D = wit_denv and C = wit_env_codec and db = wit_filled_db and
      op = ?op and ?t0.0 = 7 and calls = "\<lambda>_. Done"] unfolding w .
  from order_status_final [OF this, of "(wit_row 1 1 1)\<lparr> or_Status := Filled \<rparr>"] show ?thesis
    by (simp add: wit_filled_db_def statuses_known_def known_status_def IsTerminal_def) (simp add: wit_row_def)
qed

text \<open>
  C16. A trade event takes effect at most once: when one delivery of it has changed the
  tables (even if its commit was reported as failed), or has succeeded, every later
  delivery of an event with its trade id leaves the tables alone.
\<close>

lemma insertTrade_Inr:
  assumes "insertTrade inp db = (Inr b, db')"
  shows "b = (\<not> traded (ta_TradeID inp) (db_tables db)) \<and> traded (ta_TradeID inp) (db_tables db')"
proof -
  obtain t where t: "insert_trade inp (db_now db) (db_tables db) = (b, t)" "db_tables db' = t"
    using assms unfolding insertTrade_def by (rule stmt_InrE)
  show ?thesis unfolding t(2) using t(1) by (auto simp: insert_trade_def traded_def split: if_splits)
qed

lemma trade_recorded:
  assumes "ApplyTradeEvent D inp db = (r, db')" "db_tables db' \<noteq> db_tables db \<or> r = Inr ()"
  shows "traded (ta_TradeID inp) (db_tables db')"
proof -
  have e: "\<And>e. fail_tx e db \<noteq> (r, db')" using assms(2) by (auto simp: fail_tx_def)
  obtain rest where tr: "transaction (bind_tx (insertTrade inp)
      (\<lambda>inserted. if \<not> inserted then return_tx (Discard ()) else rest)) db = (r, db')"
    and k: "\<And>t. tx_keeps (traded t) rest"
    and c: "\<And>db x db2. rest db = (Inr x, db2) \<Longrightarrow> x = Commit ()"
  proof -
    assume that: "\<And>rest. transaction (bind_tx (insertTrade inp)
      (\<lambda>inserted. if \<not> inserted then return_tx (Discard ()) else rest)) db = (r, db') \<Longrightarrow>
      (\<And>t. tx_keeps (traded t) rest) \<Longrightarrow> (\<And>db x db2. rest db = (Inr x, db2) \<Longrightarrow> x = Commit ()) \<Longrightarrow> thesis"
    obtain price qty pair where tr: "transaction (bind_tx (insertTrade inp)
       (\<lambda>inserted. if \<not> inserted then return_tx (Discard ())
        else bind_tx (getOrderForUpdate D (ta_MakerOrderID inp))
       (\<lambda>maker. bind_tx (getOrderForUpdate D (ta_TakerOrderID inp))
       (\<lambda>taker. bind_tx (settleTradeForUser D (po_UserID maker) (po_Side maker) pair (price * qty) qty)
       (\<lambda>_. bind_tx (settleTradeForUser D (po_UserID taker) (po_Side taker) pair (price * qty) qty)
       (\<lambda>_. bind_tx (applyOrderTradeFill D (po_ID maker) qty)
       (\<lambda>_. bind_tx (applyOrderTradeFill D (po_ID taker) qty)
       (\<lambda>_. return_tx (Commit ()))))))))) db = (r, db')"
      using assms(1) e unfolding ApplyTradeEvent_def by (auto simp del: fail_tx_Inr split: if_splits option.splits sum.splits)
    show thesis
      by (rule that [OF tr]) (auto intro!: inv_intros trd.keeps_getOrder trd.keeps_settle trd.keeps_fill elim!: bind_InrE)
  qed
  from tr show ?thesis
  proof (cases rule: transaction_cases)
    case unchanged
    with assms(2) obtain db2 where "bind_tx (insertTrade inp)
      (\<lambda>inserted. if \<not> inserted then return_tx (Discard ()) else rest) (begun db) = (Inr (Discard ()), db2)" by auto
    then obtain b db1 where "insertTrade inp (begun db) = (Inr b, db1)"
      "(if \<not> b then return_tx (Discard ()) else rest) db1 = (Inr (Discard ()), db2)" by (rule bind_InrE)
    with c insertTrade_Inr unchanged(1) show ?thesis by (cases b) force+
  next
    case (committed x db2)
    then obtain b db1 where "insertTrade inp (begun db) = (Inr b, db1)"
      "(if \<not> b then return_tx (Discard ()) else rest) db1 = (Inr (Commit x), db2)" by (auto elim!: bind_InrE)
    with insertTrade_Inr [OF this(1)] tx_keepsD [OF k] committed(2) show ?thesis by (cases b) auto
  qed
qed

lemma trade_known_unchanged:
  assumes "traded (ta_TradeID inp) (db_tables db)" "ApplyTradeEvent D inp db = (r, db')"
  shows "db_tables db' = db_tables db"
proof (rule ccontr)
  assume ne: "db_tables db' \<noteq> db_tables db"
  then have e: "\<And>e. fail_tx e db \<noteq> (r, db')" by (auto simp: fail_tx_def)
  obtain rest where "transaction (bind_tx (insertTrade inp)
      (\<lambda>inserted. if \<not> inserted then return_tx (Discard ()) else rest)) db = (r, db')"
    using assms(2) e unfolding ApplyTradeEvent_def by (auto simp del: fail_tx_Inr split: if_splits option.splits sum.splits)
  then show False
  proof (cases rule: transaction_cases)
    case (committed x db2)
    then obtain b db1 where b: "insertTrade inp (begun db) = (Inr b, db1)"
      "(if \<not> b then return_tx (Discard ()) else rest) db1 = (Inr (Commit x), db2)" by (auto elim!: bind_InrE)
    have "\<not> b" using insertTrade_Inr [OF b(1)] assms(1) by simp
    with b(2) show False by simp
  qed (use ne in simp)
qed

theorem trade_effect_once:
  assumes "ApplyTradeEvent D inp db = (r1, db1)" and "db_tables db1 \<noteq> db_tables db \<or> r1 = Inr ()"
    and "repo_reach D C db1 db2" and "ta_TradeID inp2 = ta_TradeID inp"
    and "ApplyTradeEvent D inp2 db2 = (r2, db3)"
  shows "db_tables db3 = db_tables db2"
proof -
  have "traded (ta_TradeID inp) (db_tables db2)"
    by (rule trd.repo_reach_keeps [OF assms(3) trade_recorded [OF assms(1,2)]])
  with trade_known_unchanged [of inp2 db2] assms(4,5) show ?thesis by simp
qed

theorem trade_effect_once_witness:
  "db_tables (snd (ApplyTradeEvent wit_denv wit_trade (snd (ApplyTradeEvent wit_denv wit_trade wit_trade_db)))) =
   db_tables (snd (ApplyTradeEvent wit_denv wit_trade wit_trade_db))"
proof -
  obtain r1 db1 where a: "ApplyTradeEvent wit_denv wit_trade wit_trade_db = (r1, db1)" by (metis surj_pair)
  obtain r2 db2 where b: "ApplyTradeEvent wit_denv wit_trade db1 = (r2, db2)" by (metis surj_pair)
  have "length (t_balances (db_tables db1)) = 4" using wit_trade_run a by simp
  then have "db_tables db1 \<noteq> db_tables wit_trade_db" by (auto simp: wit_trade_db_def wit_trade_tables_def)
  from trade_effect_once [OF a disjI1 [OF this] repo_reach.start refl b] a b show ?thesis by simp
qed

text \<open>
  When a trade fills an order completely, the rest of what the order froze is not
  released: the accounts are left as they are. What a buy order froze above the price it
  was filled at stays frozen for ever.
\<close>

lemma updateFilled_Inr:
  assumes "updateFilledQuantity D i v (Some s) db = (Inr (), db')" "dec_of_string (de_libs D) s = Some x"
  shows "db_tables db' = snd (update_orders (\<lambda>r. or_ID r = i \<and> or_Version r = v) (\<lambda>r. r\<lparr>or_FilledQuantity := x\<rparr>) (db_now db) (db_tables db))"
proof -
  obtain n where "stmt_err ''update filled quantity'' (filled_rows (de_libs D) i v s (db_now db)) db = (Inr n, db')"
    using assms(1) unfolding updateFilledQuantity_def by (auto elim!: bind_InrE)
  then obtain t where "filled_rows (de_libs D) i v s (db_now db) (db_tables db) = (Inr n, t)" "db_tables db' = t"
    by (rule stmt_err_InrE)
  with assms(2) show ?thesis by (auto simp: filled_rows_def split: prod.splits)
qed

lemma find_map_same:
  "(\<And>r. Q (f r) = Q r) \<Longrightarrow> find Q (map f rs) = map_option f (find Q rs)"
  by (induction rs) auto

theorem full_fill_releases_nothing:
  assumes "codec_ok (de_libs D)" and "numeric_ok D"
    and "find (\<lambda>r. or_ID r = i) (t_orders (db_tables db)) = Some r"
    and "or_Quantity r \<le> or_FilledQuantity r + q"
    and "applyOrderTradeFill D i q db = (Inr (), db')"
  shows "t_balances (db_tables db') = t_balances (db_tables db) \<and>
    (\<exists>r'. find (\<lambda>r. or_ID r = i) (t_orders (db_tables db')) = Some r' \<and> or_FilledQuantity r' = or_Quantity r)"
proof -
  let ?L = "de_libs D"
  have num: "dec_of_string ?L (de_numeric D x) = Some x" for x using assms(2) by (simp add: numeric_ok_def)
  obtain od db1 where g: "getOrderForUpdate D i db = (Inr od, db1)"
    and rest: "(case dec_of_string ?L (po_Quantity od) of
               None \<Rightarrow> fail_tx (ErrMsg ''order quantity'')
             | Some orderQty \<Rightarrow>
            (case dec_of_string ?L (po_FilledQuantity od) of
               None \<Rightarrow> fail_tx (ErrMsg ''order filled_quantity'')
             | Some filled \<Rightarrow>
                 (let newFilled = (if orderQty < filled + q then orderQty else filled + q)
                  in bind_tx (updateFilledQuantity D (po_ID od) (po_Version od) (Some (dec_to_string ?L newFilled)))
                       (\<lambda>_. if newFilled < orderQty \<and> po_Status od \<noteq> Filled then return_tx ()
                            else bind_tx (getOrderForUpdate D i) (\<lambda>cur. releaseOrderRemainingFreeze D cur))))) db1 = (Inr (), db')"
    using assms(5) unfolding applyOrderTradeFill_def by (rule bind_InrE)
  have od: "od = scanOrder D r" "db_tables db1 = db_tables db"
    using g assms(3) by (auto elim!: getOrderForUpdate_InrE)
  have i: "or_ID r = i" using assms(3) by (auto simp: find_Some_iff)
  have nf: "(if or_Quantity r < or_FilledQuantity r + q then or_Quantity r else or_FilledQuantity r + q) = or_Quantity r"
    using assms(4) by auto
  have "bind_tx (updateFilledQuantity D i (or_Version r) (Some (dec_to_string ?L (or_Quantity r))))
      (\<lambda>_. bind_tx (getOrderForUpdate D i) (\<lambda>cur. releaseOrderRemainingFreeze D cur)) db1 = (Inr (), db')"
    using rest by (simp add: od(1) scanOrder_def num nf Let_def i)
  then obtain db2 db3 cur where u: "updateFilledQuantity D i (or_Version r) (Some (dec_to_string ?L (or_Quantity r))) db1 = (Inr (), db2)"
    and g2: "getOrderForUpdate D i db2 = (Inr cur, db3)" and rel: "releaseOrderRemainingFreeze D cur db3 = (Inr (), db')"
    by (auto elim!: bind_InrE)
  let ?f = "\<lambda>r'. if or_ID r' = i \<and> or_Version r' = or_Version r
      then r'\<lparr>or_Version := or_Version r' + 1, or_UpdatedAt := db_now db1, or_FilledQuantity := or_Quantity r\<rparr> else r'"
  have t2: "db_tables db2 = (db_tables db)\<lparr>t_orders := map ?f (t_orders (db_tables db))\<rparr>"
    using updateFilled_Inr [OF u codec_okD(1) [OF assms(1)]] od(2) by (simp add: update_orders_def update_rows_def)
  then have fd: "find (\<lambda>r. or_ID r = i) (t_orders (db_tables db2)) = Some (?f r)"
    using assms(3) by (simp add: find_map_same)
  obtain r2 where "find (\<lambda>r. or_ID r = i) (t_orders (db_tables db2)) = Some r2" "cur = scanOrder D r2"
    and t3: "db_tables db3 = db_tables db2" using g2 by (rule getOrderForUpdate_InrE)
  with fd have cur: "cur = scanOrder D (?f r)" by simp
  have c: "po_Quantity cur = de_numeric D (or_Quantity r)" "po_FilledQuantity cur = de_numeric D (or_Quantity r)"
    by (simp_all add: cur scanOrder_def i)
  obtain spec db4 where "lift_tx (RemainingFreeze ?L cur) db3 = (Inr spec, db4)"
    using rel unfolding releaseOrderRemainingFreeze_def by (rule bind_InrE)
  then have "RemainingFreeze ?L cur = Inr spec" by simp
  moreover from this have "fz_Amount spec = 0"
    by (auto simp: RemainingFreeze_def c num split: sum.splits prod.splits)
  ultimately have "db' = db3" using rel by (simp add: releaseOrderRemainingFreeze_def bind_tx_def lift_tx_def)
  with t2 t3 fd show ?thesis by (simp add: i)
qed

lemma wit_numeric_ok: "numeric_ok wit_denv"
proof -
  have t: "trim_space s \<noteq> []" if "x \<in> set s" "\<not> is_space x" for s x
  proof
    assume "trim_space s = []"
    then have "\<forall>y \<in> set (dropWhile is_space s). is_space y" by (simp add: trim_space_def dropWhile_eq_Nil_conv)
    moreover have "set (takeWhile is_space s) \<subseteq> Collect is_space" by (auto dest: set_takeWhileD)
    moreover have "set s = set (takeWhile is_space s) \<union> set (dropWhile is_space s)"
      by (metis set_append takeWhile_dropWhile_id)
    ultimately show False using that by auto
  qed
  have "trim_space (int_to_string i) \<noteq> []" for i
  proof -
    obtain c r where s: "show_nat (nat \<bar>i\<bar>) = c # r" using show_nat_nonempty by (cases "show_nat (nat \<bar>i\<bar>)") auto
    with show_nat_digits [of "nat \<bar>i\<bar>"] have "\<not> is_space c" by (auto simp: is_digit_def is_space_def)
    moreover have "c \<in> set (int_to_string i)" using s by (auto simp: int_to_string_def abs_if split: if_splits)
    ultimately show ?thesis by (rule t [rotated])
  qed
  then show ?thesis using codec_okD(1) [OF codec_ok_int_libs]
    by (simp add: numeric_ok_def wit_denv_def) (simp add: int_libs_def int_of_string_to_string)
qed

definition wit_fill_db :: "int db" where
  "wit_fill_db = wit_trade_db\<lparr> db_tables := wit_trade_tables\<lparr> t_orders := [(wit_row 2 1 1)\<lparr> or_Status := Filled \<rparr>] \<rparr> \<rparr>"

lemma wit_fill_run: "\<exists>db'. applyOrderTradeFill wit_denv 2 5 wit_fill_db = (Inr (), db')"
proof -
  have "fst (applyOrderTradeFill wit_denv 2 5 wit_fill_db) = Inr ()" by code_simp
  then show ?thesis by (metis prod.collapse)
qed

theorem full_fill_releases_nothing_witness:
  "\<exists>db'. applyOrderTradeFill wit_denv 2 5 wit_fill_db = (Inr (), db') \<and>
     map br_Frozen (t_balances (db_tables db')) = [500, 5]"
proof -
  obtain db' where a: "applyOrderTradeFill wit_denv 2 5 wit_fill_db = (Inr (), db')" using wit_fill_run by blast
  have f: "find (\<lambda>r. or_ID r = 2) (t_orders (db_tables wit_fill_db)) = Some ((wit_row 2 1 1)\<lparr> or_Status := Filled \<rparr>)"
    "or_Quantity ((wit_row 2 1 1)\<lparr> or_Status := Filled \<rparr>) \<le> or_FilledQuantity ((wit_row 2 1 1)\<lparr> or_Status := Filled \<rparr>) + 5"
    by (simp_all add: wit_fill_db_def wit_row_def)
  have "codec_ok (de_libs wit_denv)" by (simp add: wit_denv_def codec_ok_int_libs)
  from full_fill_releases_nothing [OF this wit_numeric_ok f a] a show ?thesis
    by (auto simp: wit_fill_db_def wit_trade_tables_def)
qed

definition placed ::
  "('d::linordered_idom) denv \<Rightarrow> env_codec \<Rightarrow> insert_pending_input \<Rightarrow> 'd db \<Rightarrow> 'd tables \<Rightarrow> 'd order_row \<Rightarrow> outbox_row \<Rightarrow> bool" where
  "placed D C inp db t row x \<longleftrightarrow>
     t_idem (db_tables db) (ip_UserID inp, ip_ClientOrderID inp) = None \<and>
     t_idem t = (t_idem (db_tables db))((ip_UserID inp, ip_ClientOrderID inp) \<mapsto> or_ID row) \<and>
     t_orders t = t_orders (db_tables db) @ [row] \<and> or_ID row = db_nextOrder db \<and> or_Status row = Pending \<and>
     or_ID row \<notin> or_ID ` set (t_orders (db_tables db)) \<and>
     t_outbox t = t_outbox (db_tables db) @ [x] \<and> ob_AggregateID x = or_ID row \<and> ob_PublishedAt x = None \<and>
     (\<exists>cmd. unmarshal_env C (ob_Payload x) = Some (EnvNewOrder cmd) \<and> no_CommandId cmd = ob_ID x \<and>
        new_order_id cmd = or_ID row)"

lemma lockFunds_tables:
  assumes "lockFunds u a x db = (Inr (), db')"
  shows "\<exists>bs. db_tables db' = (db_tables db)\<lparr>t_balances := bs\<rparr>" "db_now db' = db_now db" "db_nextOutbox db' = db_nextOutbox db"
proof -
  have "(\<exists>bs. db_tables db' = (db_tables db)\<lparr>t_balances := bs\<rparr>) \<and> db_now db' = db_now db \<and> db_nextOutbox db' = db_nextOutbox db"
  proof (cases "x = 0")
    case True
    with assms show ?thesis by (auto simp: lockFunds_def intro: exI [of _ "t_balances (db_tables db)"])
  next
    case False
    then obtain n where "stmt ''lock funds update'' (update_balances (\<lambda>r. account u a r \<and> x \<le> br_Balance r)
        (\<lambda>r. r\<lparr>br_Balance := br_Balance r - x, br_Frozen := br_Frozen r + x\<rparr>)) db = (Inr n, db')"
      using assms unfolding lockFunds_def by (auto split: if_splits elim!: bind_InrE)
    then show ?thesis by (rule stmt_InrE) (auto simp: update_balances_def split_beta)
  qed
  then show "\<exists>bs. db_tables db' = (db_tables db)\<lparr>t_balances := bs\<rparr>" "db_now db' = db_now db" "db_nextOutbox db' = db_nextOutbox db"
    by simp_all
qed

lemma newOutbox_Inr:
  assumes "insertNewOrderOutbox D C od topic db = (Inr (), db')"
  obtains payload where "BuildNewOrderPayload (de_libs D) C od (db_nextOutbox db) = Some payload"
    "db_tables db' = (db_tables db)\<lparr>t_outbox := t_outbox (db_tables db) @ [\<lparr> ob_ID = db_nextOutbox db, ob_AggregateID = po_ID od,
       ob_EventType = EventNewOrderCommand, ob_Payload = payload, ob_Topic = topic, ob_PartitionKey = po_Symbol od,
       ob_CreatedAt = db_now db, ob_PublishedAt = None, ob_RetryCount = 0 \<rparr>]\<rparr>"
proof -
  obtain i db1 where a: "allocateOutboxID db = (Inr i, db1)" and
    r: "(case BuildNewOrderPayload (de_libs D) C od i of
              None \<Rightarrow> fail_tx (ErrMsg ''build outbox payload'')
            | Some payload \<Rightarrow> insertOutboxRow i (po_ID od) EventNewOrderCommand payload topic (po_Symbol od)) db1 = (Inr (), db')"
    using assms unfolding insertNewOrderOutbox_def by (rule bind_InrE)
  have i: "i = db_nextOutbox db" "db_tables db1 = db_tables db" "db_now db1 = db_now db"
    using a by (auto simp: allocateOutboxID_def db_call_def Let_def split: if_splits)
  obtain payload where p: "BuildNewOrderPayload (de_libs D) C od i = Some payload"
    "insertOutboxRow i (po_ID od) EventNewOrderCommand payload topic (po_Symbol od) db1 = (Inr (), db')"
    using r by (auto split: option.splits)
  from p(2) obtain t where t: "insert_outbox \<lparr> ob_ID = i, ob_AggregateID = po_ID od, ob_EventType = EventNewOrderCommand,
      ob_Payload = payload, ob_Topic = topic, ob_PartitionKey = po_Symbol od, ob_CreatedAt = db_now db1,
      ob_PublishedAt = None, ob_RetryCount = 0 \<rparr> (db_tables db1) = (Inr (), t)" "db_tables db' = t"
    unfolding insertOutboxRow_def by (rule stmt_err_InrE)
  show thesis
  proof (rule that)
    show "BuildNewOrderPayload (de_libs D) C od (db_nextOutbox db) = Some payload" using p(1) i by simp
  qed (unfold t(2), use t(1) i in \<open>auto simp: insert_outbox_def split: if_splits\<close>)
qed

lemma insertOrder_Inr:
  assumes "insertOrder D inp db = (Inr od, db')"
  obtains row where "db_tables db' = (db_tables db)\<lparr>t_orders := t_orders (db_tables db) @ [row]\<rparr>" "od = scanOrder D row"
    "or_ID row = db_nextOrder db" "or_Status row = Pending" "or_ID row \<notin> or_ID ` set (t_orders (db_tables db))"
    "new_row (de_libs D) inp (db_nextOrder db) (db_now db) = Some row"
proof -
  let ?db = "db\<lparr>db_nextOrder := db_nextOrder db + 1\<rparr>"
  obtain row db1 where s: "stmt_err ''scan order'' (insert_row (new_row (de_libs D) inp (db_nextOrder db) (db_now db))) ?db = (Inr row, db1)"
    and o: "return_tx (scanOrder D row) db1 = (Inr od, db')"
    using assms unfolding insertOrder_def Let_def by (rule bind_InrE)
  obtain t where i: "insert_row (new_row (de_libs D) inp (db_nextOrder db) (db_now db)) (db_tables ?db) = (Inr row, t)" "db_tables db1 = t"
    using s by (rule stmt_err_InrE)
  then have n: "new_row (de_libs D) inp (db_nextOrder db) (db_now db) = Some row"
    by (auto simp: insert_row_def split: option.splits if_splits)
  from i have "db_tables db1 = (db_tables db)\<lparr>t_orders := t_orders (db_tables db) @ [row]\<rparr>"
    "or_ID row = db_nextOrder db \<and> or_Status row = Pending" "or_ID row \<notin> or_ID ` set (t_orders (db_tables db))"
    by (auto simp: insert_row_def new_row_def split: option.splits if_splits)
  note i3 = this
  have od: "od = scanOrder D row" "db_tables db' = db_tables db1" using o by simp_all
  show thesis by (rule that [of row]) (use od i3 n in simp_all)
qed

lemma InsertPending_placed:
  assumes "InsertPending D C inp db = (r, db')"
  shows "(\<exists>e. r = Inl e) \<and> db_tables db' = db_tables db \<or>
    (\<exists>row x. t_idem (db_tables db) (ip_UserID inp, ip_ClientOrderID inp) = None \<and>
       t_idem (db_tables db') = (t_idem (db_tables db))((ip_UserID inp, ip_ClientOrderID inp) \<mapsto> or_ID row) \<and>
       new_row (de_libs D) inp (db_nextOrder db) (db_now db) = Some row \<and>
       (env_codec_ok C \<longrightarrow> placed D C inp db (db_tables db') row x) \<and>
       (r = Inr (scanOrder D row) \<or> r = Inl (ErrMsg ''commit tx'')))"
  using assms unfolding InsertPending_def
proof (cases rule: transaction_cases)
  case unchanged
  then show ?thesis by (cases r) (auto elim!: bind_InrE)
next
  case (committed od db6)
  from committed(1) obtain od' db1 u2 db2 freeze db3 u4 db4 u5 db5 where s: "insertOrder D inp (begun db) = (Inr od', db1)"
      "stmt_err ''insert idempotency'' (insert_idem (ip_UserID inp, ip_ClientOrderID inp) (po_ID od')) db1 = (Inr u2, db2)"
      "lift_tx (ComputeFreeze (de_libs D) (ip_Side inp) (ip_Symbol inp) (ip_Price inp) (ip_Quantity inp) (ip_FrozenAmount inp)) db2
         = (Inr freeze, db3)"
      "lockFunds (ip_UserID inp) (fz_Asset freeze) (repo_roundUp D (fz_Asset freeze) (fz_Amount freeze)) db3 = (Inr u4, db4)"
      "insertNewOrderOutbox D C od' (ip_OutboxTopic inp) db4 = (Inr u5, db5)"
      "return_tx (Commit od') db5 = (Inr (Commit od), db6)"
    by (elim bind_InrE)
  then have "od' = od" "db5 = db6" "db3 = db2" by (simp_all add: return_tx_def lift_tx_def)
  with s have 1: "insertOrder D inp (begun db) = (Inr od, db1)"
    and 2: "stmt_err ''insert idempotency'' (insert_idem (ip_UserID inp, ip_ClientOrderID inp) (po_ID od)) db1 = (Inr (), db2)"
    and 3: "lockFunds (ip_UserID inp) (fz_Asset freeze) (repo_roundUp D (fz_Asset freeze) (fz_Amount freeze)) db2 = (Inr (), db4)"
    and 4: "insertNewOrderOutbox D C od (ip_OutboxTopic inp) db4 = (Inr (), db6)" by simp_all
  obtain row where row: "db_tables db1 = (db_tables db)\<lparr>t_orders := t_orders (db_tables db) @ [row]\<rparr>" "od = scanOrder D row"
    "or_ID row = db_nextOrder db" "or_Status row = Pending" "or_ID row \<notin> or_ID ` set (t_orders (db_tables db))"
    "new_row (de_libs D) inp (db_nextOrder db) (db_now db) = Some row"
    using insertOrder_Inr [OF 1] by (simp del: fun_upd_apply) blast
  have po: "po_ID od = or_ID row" by (simp add: row(2) scanOrder_def)
  obtain t where "insert_idem (ip_UserID inp, ip_ClientOrderID inp) (po_ID od) (db_tables db1) = (Inr (), t)" "db_tables db2 = t"
    using 2 by (rule stmt_err_InrE)
  then have t2: "db_tables db2 = (db_tables db1)\<lparr>t_idem := (t_idem (db_tables db1))((ip_UserID inp, ip_ClientOrderID inp) \<mapsto> or_ID row)\<rparr>"
    "t_idem (db_tables db1) (ip_UserID inp, ip_ClientOrderID inp) = None"
    by (auto simp: insert_idem_def po split: if_splits)
  obtain bs where t4: "db_tables db4 = (db_tables db2)\<lparr>t_balances := bs\<rparr>" using lockFunds_tables(1) [OF 3] by blast
  let ?x = "\<lambda>payload. \<lparr> ob_ID = db_nextOutbox db4, ob_AggregateID = po_ID od, ob_EventType = EventNewOrderCommand, ob_Payload = payload,
     ob_Topic = ip_OutboxTopic inp, ob_PartitionKey = po_Symbol od, ob_CreatedAt = db_now db4, ob_PublishedAt = None, ob_RetryCount = 0 \<rparr>"
  obtain payload where p: "BuildNewOrderPayload (de_libs D) C od (db_nextOutbox db4) = Some payload"
    "db_tables db6 = (db_tables db4)\<lparr>t_outbox := t_outbox (db_tables db4) @ [?x payload]\<rparr>" using 4 by (rule newOutbox_Inr)
  have "placed D C inp db (db_tables db6) row (?x payload)" if "env_codec_ok C"
  proof -
    have "unmarshal_env C payload = Some (buildNewOrderEnvelope (de_libs D) od (db_nextOutbox db4))"
      using p(1) that by (simp add: BuildNewOrderPayload_def env_codec_ok_def)
    then show ?thesis using row t2 t4 p(2) po by (simp add: placed_def buildNewOrderEnvelope_def new_order_id_def)
  qed
  moreover have "t_idem (db_tables db) (ip_UserID inp, ip_ClientOrderID inp) = None"
    "t_idem (db_tables db6) = (t_idem (db_tables db))((ip_UserID inp, ip_ClientOrderID inp) \<mapsto> or_ID row)"
    using row(1) t2 t4 p(2) by simp_all
  ultimately show ?thesis using committed(2,3) row(2,6) by auto
qed

text \<open>
  Placing an order is atomic: either nothing at all was written, or the order (PENDING,
  with a fresh id), the binding of its client id, which was free, and exactly one outbox
  row were. The payload of that row decodes to the command for that very order, numbered
  by the row. An error that leaves the order in place can only be a lost commit.
\<close>

theorem insert_pending_atomic:
  assumes "env_codec_ok C" and "InsertPending D C inp db = (r, db')"
  shows "(\<exists>e. r = Inl e) \<and> db_tables db' = db_tables db \<or>
    (\<exists>row x. placed D C inp db (db_tables db') row x \<and> (r = Inr (scanOrder D row) \<or> r = Inl (ErrMsg ''commit tx'')))"
  using InsertPending_placed [OF assms(2)] assms(1) by blast

lemma wit_env_codec_ok: "env_codec_ok wit_env_codec"
  by (simp add: env_codec_ok_def wit_env_codec_def)

lemma wit_insert_result: "fst (InsertPending wit_denv wit_env_codec wit_insert wit_db) = Inr (scanOrder wit_denv (wit_row 1 1 1))"
  by code_simp

theorem insert_pending_atomic_witness:
  "\<exists>row x. placed wit_denv wit_env_codec wit_insert wit_db
     (db_tables (snd (InsertPending wit_denv wit_env_codec wit_insert wit_db))) row x"
proof -
  obtain r db' where a: "InsertPending wit_denv wit_env_codec wit_insert wit_db = (r, db')" by (metis surj_pair)
  with wit_insert_result have "r = Inr (scanOrder wit_denv (wit_row 1 1 1))" by simp
  with insert_pending_atomic [OF wit_env_codec_ok a] a show ?thesis by auto
qed

end
