(* ===== verification/Kafka.thy ===== *)
theory Kafka
  imports Prelude
begin

text \<open>
  What the relays see of Kafka through \<open>pkg/kafka\<close>: a log of messages per topic, or per topic
  and partition, and writes of a batch under one key that may fail after part of it arrived.
\<close>

record message =
  ms_key :: string
  ms_value :: bytes

text \<open>\<open>Broken n\<close> is an error after the first \<open>n\<close> messages of the batch reached the log.\<close>

datatype write_outcome = Written | Broken nat

definition written :: "write_outcome \<Rightarrow> 'a list \<Rightarrow> 'a list" where
  "written oc vs = (case oc of Written \<Rightarrow> vs | Broken n \<Rightarrow> take n vs)"

definition messages :: "string \<Rightarrow> bytes list \<Rightarrow> message list" where
  "messages key vs = map (\<lambda>v. \<lparr> ms_key = key, ms_value = v \<rparr>) vs"

definition with_key :: "string \<Rightarrow> message list \<Rightarrow> bytes list" where
  "with_key key ms = map ms_value (filter (\<lambda>m. ms_key m = key) ms)"

lemma with_key_append [simp]: "with_key k (xs @ ys) = with_key k xs @ with_key k ys"
  by (simp add: with_key_def)

lemma with_key_messages [simp]: "with_key k (messages key vs) = (if k = key then vs else [])"
  by (induction vs) (auto simp: with_key_def messages_def o_def)

end
