(* ===== verification/OutboxRelay.thy ===== *)
theory OutboxRelay
  imports OrderRepo Kafka
begin

text \<open>
  Model of the relay that publishes the outbox to Kafka: \<open>internal/order/outbox/relay.go\<close>
  over the claims of \<open>internal/order/repository/outbox_claim.go\<close> and \<open>relay_store.go\<close>.
  A claim is a transaction that holds the row locks of a batch until it commits, so it is
  kept as a value: what it has marked is visible to others at its commit.
\<close>

section \<open>State\<close>

record relay_config =
  rc_PollInterval :: int
  rc_BatchSize :: int
  rc_MaxRetry :: int
  rc_Workers :: int
  rc_Partition :: int
  rc_Resolver :: "(string \<Rightarrow> int option) option"

definition normalizedConfig :: "relay_config \<Rightarrow> relay_config" where
  "normalizedConfig c = c\<lparr>
     rc_PollInterval := (if rc_PollInterval c \<le> 0 then 200000000 else rc_PollInterval c),
     rc_BatchSize := (if rc_BatchSize c \<le> 0 then 50 else rc_BatchSize c),
     rc_MaxRetry := (if rc_MaxRetry c \<le> 0 then 100 else rc_MaxRetry c),
     rc_Workers := (if rc_Workers c \<le> 0 then 1 else rc_Workers c),
     rc_Partition := (if rc_Partition c < 0 then 0 else rc_Partition c)\<rparr>"

text \<open>
  The log of each topic and partition with the outcome of each write. Go visits the groups of
  a batch in the unspecified order of a map: \<open>rl_shuffle\<close>.
\<close>

type_synonym group_key = "string \<times> int \<times> string"
type_synonym group = "group_key \<times> outbox_row list"

record 'd relay =
  rl_db :: "'d db"
  rl_log :: "string \<times> int \<Rightarrow> message list"
  rl_writes :: "nat \<Rightarrow> write_outcome"
  rl_wpos :: nat
  rl_shuffle :: "group list \<Rightarrow> group list"

text \<open>
  A call either returns or waits for a row lock. The context of the relay ends with the
  process, so a call that waits for a lock its own caller holds does not return.
\<close>

datatype 'a wait = Returned 'a | Blocked

section \<open>Claims\<close>

text \<open>\<open>cl_failed\<close>: after a failed statement the server refuses the rest of the transaction.\<close>

record claim =
  cl_entries :: "outbox_row list"
  cl_marks :: "uint64 set"
  cl_failed :: bool
  cl_done :: bool

definition new_claim :: "outbox_row list \<Rightarrow> claim" where
  "new_claim rows = \<lparr> cl_entries = rows, cl_marks = {}, cl_failed = False, cl_done = (rows = []) \<rparr>"

definition claimUnpublished :: "uint64 set \<Rightarrow> int \<Rightarrow> ('d, claim) tx" where
  "claimUnpublished locked lim =
     bind_tx (query ''begin outbox claim'' (\<lambda>_. ()))
       (\<lambda>_. bind_tx (query ''claim unpublished outbox''
                (\<lambda>t. take (nat (row_limit lim)) (filter (\<lambda>x. ob_ID x \<notin> locked) (unpublished (t_outbox t)))))
       (\<lambda>rows. return_tx (new_claim rows)))"

definition claim_mark :: "uint64 list \<Rightarrow> claim \<Rightarrow> 'd db \<Rightarrow> (err + unit) \<times> claim \<times> 'd db" where
  "claim_mark ids c db =
     (if ids = [] \<or> cl_done c then (Inr (), c, db)
      else let (oc, db1) = db_call db
           in if oc = Done \<and> \<not> cl_failed c then (Inr (), c\<lparr>cl_marks := cl_marks c \<union> set ids\<rparr>, db1)
              else (Inl (ErrMsg ''mark outbox published batch in claim''), c\<lparr>cl_failed := True\<rparr>, db1))"

definition claim_commit :: "claim \<Rightarrow> ('d, unit) tx" where
  "claim_commit c db =
     (if cl_done c then (Inr (), db)
      else if cl_failed c then (Inl (ErrMsg ''commit outbox claim''), snd (db_call db))
      else bind_tx (auto_stmt ''commit outbox claim'' (mark_rows (cl_marks c) (db_now db))) (\<lambda>_. return_tx ()) db)"

text \<open>
  \<open>IncrementRetry\<close> runs on another connection: it waits for a row that the claim holds.
\<close>

definition store_IncrementRetry :: "claim \<Rightarrow> uint64 \<Rightarrow> 'd db \<Rightarrow> ((err + unit) \<times> 'd db) wait" where
  "store_IncrementRetry c i db =
     (if i \<in> ob_ID ` set (cl_entries c) \<and> \<not> cl_done c \<and> fst (db_call db) \<noteq> Failed then Blocked
      else Returned (IncrementRetry i db))"

section \<open>Dispatching a batch\<close>

definition isSendableStatus :: "string \<Rightarrow> bool" where
  "isSendableStatus s \<longleftrightarrow> s = Pending \<or> s = Canceling"

definition resolvePartition :: "relay_config \<Rightarrow> string \<Rightarrow> int option" where
  "resolvePartition cfg key = (case rc_Resolver cfg of None \<Rightarrow> Some (rc_Partition cfg) | Some f \<Rightarrow> f key)"

fun add_item :: "group_key \<Rightarrow> outbox_row \<Rightarrow> group list \<Rightarrow> group list" where
  "add_item k x [] = [(k, [x])]"
| "add_item k x ((k1, xs) # gs) = (if k1 = k then (k1, xs @ [x]) # gs else (k1, xs) # add_item k x gs)"

fun sort_entries ::
  "relay_config \<Rightarrow> (uint64 \<rightharpoonup> string) \<Rightarrow> outbox_row list \<Rightarrow> uint64 list \<Rightarrow> group list \<Rightarrow> uint64 list \<times> group list" where
  "sort_entries cfg st [] skip gs = (skip, gs)"
| "sort_entries cfg st (x # xs) skip gs =
     (case st (ob_AggregateID x) of
        None \<Rightarrow> sort_entries cfg st xs skip gs
      | Some s \<Rightarrow>
          if \<not> isSendableStatus s then sort_entries cfg st xs (skip @ [ob_ID x]) gs
          else if rc_MaxRetry cfg \<le> ob_RetryCount x then sort_entries cfg st xs skip gs
          else (case resolvePartition cfg (ob_PartitionKey x) of
                  None \<Rightarrow> sort_entries cfg st xs skip gs
                | Some p \<Rightarrow> sort_entries cfg st xs skip (add_item (ob_Topic x, p, ob_PartitionKey x) x gs)))"

definition WriteBatchAt :: "group_key \<Rightarrow> bytes list \<Rightarrow> 'd relay \<Rightarrow> (err + unit) \<times> 'd relay" where
  "WriteBatchAt k values w =
     (let (topic, p, key) = k;
          oc = rl_writes w (rl_wpos w)
      in (if oc = Written then Inr () else Inl (ErrMsg ''kafka write''),
          w\<lparr>rl_wpos := Suc (rl_wpos w),
            rl_log := (rl_log w)((topic, p) := rl_log w (topic, p) @ messages key (written oc values))\<rparr>))"

fun increment_all :: "claim \<Rightarrow> uint64 list \<Rightarrow> 'd relay \<Rightarrow> 'd relay wait" where
  "increment_all c [] w = Returned w"
| "increment_all c (i # is) w =
     (case store_IncrementRetry c i (rl_db w) of
        Blocked \<Rightarrow> Blocked
      | Returned (Inl e, db) \<Rightarrow> Returned (w\<lparr>rl_db := db\<rparr>)
      | Returned (Inr _, db) \<Rightarrow> increment_all c is (w\<lparr>rl_db := db\<rparr>))"

definition publishGroup :: "claim \<Rightarrow> group \<Rightarrow> 'd relay \<Rightarrow> ((err + nat) \<times> claim \<times> 'd relay) wait" where
  "publishGroup c g w =
     (let (k, xs) = g
      in if xs = [] then Returned (Inr 0, c, w)
         else (case WriteBatchAt k (map ob_Payload xs) w of
             (Inl e, w1) \<Rightarrow>
               (case increment_all c (map ob_ID xs) w1 of
                  Blocked \<Rightarrow> Blocked
                | Returned w2 \<Rightarrow> Returned (Inl e, c, w2))
           | (Inr _, w1) \<Rightarrow>
               (case claim_mark (map ob_ID xs) c (rl_db w1) of
                  (Inl e, c1, db) \<Rightarrow> Returned (Inl e, c1, w1\<lparr>rl_db := db\<rparr>)
                | (Inr _, c1, db) \<Rightarrow> Returned (Inr (length xs), c1, w1\<lparr>rl_db := db\<rparr>))))"

fun publishGroups :: "group list \<Rightarrow> nat \<Rightarrow> claim \<Rightarrow> 'd relay \<Rightarrow> (nat \<times> claim \<times> 'd relay) wait" where
  "publishGroups [] n c w = Returned (n, c, w)"
| "publishGroups (g # gs) n c w =
     (case publishGroup c g w of
        Blocked \<Rightarrow> Blocked
      | Returned (Inl e, c1, w1) \<Rightarrow> publishGroups gs n c1 w1
      | Returned (Inr m, c1, w1) \<Rightarrow> publishGroups gs (n + m) c1 w1)"

definition dispatchBatch ::
  "relay_config \<Rightarrow> claim \<Rightarrow> 'd relay \<Rightarrow> ((err + nat) \<times> claim \<times> 'd relay) wait" where
  "dispatchBatch cfg c w =
     (case GetOrderStatusesBatch (map ob_AggregateID (cl_entries c)) (rl_db w) of
        (Inl e, db1) \<Rightarrow> Returned (Inl e, c, w\<lparr>rl_db := db1\<rparr>)
      | (Inr st, db1) \<Rightarrow>
          (let (skip, gs) = sort_entries cfg st (cl_entries c) [] []
           in case claim_mark skip c db1 of
                (Inl e, c1, db2) \<Rightarrow> Returned (Inl e, c1, w\<lparr>rl_db := db2\<rparr>)
              | (Inr _, c1, db2) \<Rightarrow>
                  (case publishGroups (rl_shuffle w gs) (length skip) c1 (w\<lparr>rl_db := db2\<rparr>) of
                     Blocked \<Rightarrow> Blocked
                   | Returned (n, c2, w2) \<Rightarrow> Returned (Inr n, c2, w2))))"

text \<open>A poll, with the number of entries claimed. What is not committed is rolled back.\<close>

definition pollOnce :: "relay_config \<Rightarrow> uint64 set \<Rightarrow> 'd relay \<Rightarrow> (nat \<times> 'd relay) wait" where
  "pollOnce cfg locked w =
     (case claimUnpublished locked (rc_BatchSize cfg) (rl_db w) of
        (Inl e, db1) \<Rightarrow> Returned (0, w\<lparr>rl_db := db1\<rparr>)
      | (Inr c, db1) \<Rightarrow>
          if cl_entries c = [] then Returned (0, w\<lparr>rl_db := db1\<rparr>)
          else (case dispatchBatch cfg c (w\<lparr>rl_db := db1\<rparr>) of
              Blocked \<Rightarrow> Blocked
            | Returned (Inl e, c1, w1) \<Rightarrow> Returned (length (cl_entries c), w1)
            | Returned (Inr n, c1, w1) \<Rightarrow>
                Returned (length (cl_entries c), w1\<lparr>rl_db := snd (claim_commit c1 (rl_db w1))\<rparr>)))"

text \<open>\<open>runWorker\<close> polls again without waiting while the batches are full.\<close>

partial_function (option) relay_burst :: "relay_config \<Rightarrow> 'd relay \<Rightarrow> 'd relay wait option" where
  "relay_burst cfg w =
     (case pollOnce cfg {} w of
        Blocked \<Rightarrow> Some Blocked
      | Returned (n, w1) \<Rightarrow> if rc_BatchSize cfg \<le> int n then relay_burst cfg w1 else Some (Returned w1))"

end
