(* ===== verification/RelayProps.thy ===== *)
theory RelayProps
  imports OutboxRelay "HOL-Library.Multiset"
begin

text \<open>
  What the relay promises: the messages of each partition key reach the log in the order of
  the outbox, nothing is marked published that was neither sent nor of an order that does not
  wait for a command, and the loop over full batches ends.
\<close>

section \<open>Where a row goes\<close>

definition row_status :: "'d tables \<Rightarrow> outbox_row \<Rightarrow> string option" where
  "row_status t x = map_of (map (\<lambda>r. (or_ID r, or_Status r)) (t_orders t)) (ob_AggregateID x)"

definition skipped :: "(outbox_row \<Rightarrow> string option) \<Rightarrow> outbox_row \<Rightarrow> bool" where
  "skipped st x \<longleftrightarrow> (case st x of None \<Rightarrow> False | Some s \<Rightarrow> \<not> isSendableStatus s)"

definition dest :: "relay_config \<Rightarrow> (outbox_row \<Rightarrow> string option) \<Rightarrow> outbox_row \<Rightarrow> group_key option" where
  "dest cfg st x =
     (case st x of
        None \<Rightarrow> None
      | Some s \<Rightarrow> if isSendableStatus s \<and> ob_RetryCount x < rc_MaxRetry cfg
                  then map_option (\<lambda>p. (ob_Topic x, p, ob_PartitionKey x)) (resolvePartition cfg (ob_PartitionKey x))
                  else None)"

fun group_rows :: "group list \<Rightarrow> group_key \<Rightarrow> outbox_row list" where
  "group_rows [] k = []"
| "group_rows ((k1, xs) # gs) k = (if k1 = k then xs else []) @ group_rows gs k"

lemma group_rows_none: "k \<notin> fst ` set gs \<Longrightarrow> group_rows gs k = []"
  by (induction gs k rule: group_rows.induct) auto

lemma group_rows_add: "distinct (map fst gs) \<Longrightarrow> group_rows (add_item k x gs) k' = group_rows gs k' @ (if k = k' then [x] else [])"
  by (induction k x gs rule: add_item.induct) (auto simp: group_rows_none)

lemma add_item_keys: "fst ` set (add_item k x gs) = insert k (fst ` set gs)"
  by (induction k x gs rule: add_item.induct) auto

lemma add_item_distinct: "distinct (map fst gs) \<Longrightarrow> distinct (map fst (add_item k x gs))"
  by (induction k x gs rule: add_item.induct) (simp, case_tac "k1 = k", simp_all add: add_item_keys)

lemma add_item_nonempty: "\<forall>g \<in> set gs. snd g \<noteq> [] \<Longrightarrow> \<forall>g \<in> set (add_item k x gs). snd g \<noteq> []"
  by (induction k x gs rule: add_item.induct) auto

lemma sort_entries_spec:
  assumes "sort_entries cfg st xs skip gs = (skip', gs')" and "distinct (map fst gs)" and "\<forall>g \<in> set gs. snd g \<noteq> []"
  shows "skip' = skip @ map ob_ID (filter (skipped (\<lambda>x. st (ob_AggregateID x))) xs)" (is ?S)
    and "group_rows gs' k = group_rows gs k @ filter (\<lambda>x. dest cfg (\<lambda>x. st (ob_AggregateID x)) x = Some k) xs" (is ?G)
    and "distinct (map fst gs')" and "\<forall>g \<in> set gs'. snd g \<noteq> []"
proof -
  have "?S \<and> ?G \<and> distinct (map fst gs') \<and> (\<forall>g \<in> set gs'. snd g \<noteq> [])" using assms
  proof (induction xs arbitrary: skip gs)
    case (Cons x xs)
    show ?case
    proof (cases "\<exists>s p. st (ob_AggregateID x) = Some s \<and> isSendableStatus s \<and> ob_RetryCount x < rc_MaxRetry cfg \<and>
        resolvePartition cfg (ob_PartitionKey x) = Some p")
      case True
      then obtain s p where s: "st (ob_AggregateID x) = Some s" "isSendableStatus s" "ob_RetryCount x < rc_MaxRetry cfg"
        "resolvePartition cfg (ob_PartitionKey x) = Some p" by blast
      let ?k = "(ob_Topic x, p, ob_PartitionKey x)"
      have "sort_entries cfg st xs skip (add_item ?k x gs) = (skip', gs')" using Cons.prems(1) s by simp
      from Cons.IH [OF this add_item_distinct [OF Cons.prems(2)] add_item_nonempty [OF Cons.prems(3)]] s
        group_rows_add [OF Cons.prems(2), of ?k x k]
      show ?thesis by (simp add: skipped_def dest_def)
    next
      case False
      let ?skip = "if skipped (\<lambda>x. st (ob_AggregateID x)) x then skip @ [ob_ID x] else skip"
      have "sort_entries cfg st (x # xs) skip gs = sort_entries cfg st xs ?skip gs"
        using False by (cases "st (ob_AggregateID x)"; cases "resolvePartition cfg (ob_PartitionKey x)") (auto simp: skipped_def not_less)
      moreover have "dest cfg (\<lambda>x. st (ob_AggregateID x)) x = None"
        using False by (cases "st (ob_AggregateID x)"; cases "resolvePartition cfg (ob_PartitionKey x)") (simp_all add: dest_def)
      ultimately show ?thesis using Cons.IH [of ?skip gs] Cons.prems by simp
    qed
  qed simp
  then show ?S ?G "distinct (map fst gs')" "\<forall>g \<in> set gs'. snd g \<noteq> []" by blast+
qed

section \<open>What reaches the log\<close>

definition key_log :: "'d relay \<Rightarrow> group_key \<Rightarrow> bytes list" where
  "key_log w k = (let (topic, p, key) = k in with_key key (rl_log w (topic, p)))"

lemma key_log_db [simp]: "key_log (w\<lparr>rl_db := d\<rparr>) k = key_log w k"
  by (simp add: key_log_def)

lemma WriteBatchAt_log:
  assumes "WriteBatchAt k vs w = (r, w')"
  shows "\<exists>n. key_log w' k' = key_log w k' @ (if k' = k then take n vs else []) \<and> (r = Inr () \<longrightarrow> length vs \<le> n)"
    and "rl_db w' = rl_db w" "rl_shuffle w' = rl_shuffle w" "rl_writes w' = rl_writes w" "rl_wpos w' = Suc (rl_wpos w)"
proof -
  obtain topic p key where k: "k = (topic, p, key)" by (cases k)
  obtain topic' p' key' where k': "k' = (topic', p', key')" by (cases k')
  let ?oc = "rl_writes w (rl_wpos w)"
  have w': "r = (if ?oc = Written then Inr () else Inl (ErrMsg ''kafka write''))"
    "w' = w\<lparr>rl_wpos := Suc (rl_wpos w), rl_log := (rl_log w)((topic, p) := rl_log w (topic, p) @ messages key (written ?oc vs))\<rparr>"
    using assms by (simp_all add: WriteBatchAt_def k Let_def)
  obtain n where "written ?oc vs = take n vs" "?oc = Written \<longrightarrow> length vs \<le> n"
    by (cases ?oc) (auto simp: written_def intro: that [of "length vs"])
  then show "\<exists>n. key_log w' k' = key_log w k' @ (if k' = k then take n vs else []) \<and> (r = Inr () \<longrightarrow> length vs \<le> n)"
    by (intro exI [of _ n]) (auto simp: w' key_log_def k k')
  show "rl_db w' = rl_db w" "rl_shuffle w' = rl_shuffle w" "rl_writes w' = rl_writes w" "rl_wpos w' = Suc (rl_wpos w)"
    by (simp_all add: w')
qed

section \<open>A poll when nothing fails\<close>

definition same_relay :: "'d relay \<Rightarrow> 'd relay \<Rightarrow> bool" where
  "same_relay w w' \<longleftrightarrow> (\<exists>n. rl_db w' = (rl_db w)\<lparr>db_pos := n\<rparr>) \<and> rl_writes w' = rl_writes w \<and> rl_shuffle w' = rl_shuffle w"

lemma same_relay_refl: "same_relay w w"
  unfolding same_relay_def by (metis db.surjective db.update_convs(6) old.unit.exhaust)

lemma same_relay_trans: "same_relay w w1 \<Longrightarrow> same_relay w1 w2 \<Longrightarrow> same_relay w w2"
  unfolding same_relay_def by auto

definition no_faults :: "'d relay \<Rightarrow> bool" where
  "no_faults w \<longleftrightarrow> db_calls (rl_db w) = (\<lambda>_. Done) \<and> rl_writes w = (\<lambda>_. Written) \<and> (\<forall>gs. mset (rl_shuffle w gs) = mset gs)"

lemma no_faults_same: "no_faults w \<Longrightarrow> same_relay w w' \<Longrightarrow> no_faults w'"
  by (auto simp: no_faults_def same_relay_def)

definition live_claim :: "claim \<Rightarrow> bool" where
  "live_claim c \<longleftrightarrow> \<not> cl_failed c \<and> \<not> cl_done c"

definition marked :: "uint64 set \<Rightarrow> claim \<Rightarrow> claim" where
  "marked ids c = c\<lparr>cl_marks := cl_marks c \<union> ids\<rparr>"

lemma marked_marked: "marked b (marked a c) = marked (a \<union> b) c"
  by (simp add: marked_def Un_assoc)

lemma live_marked: "live_claim (marked a c) = live_claim c"
  by (simp add: live_claim_def marked_def)

lemma claim_mark_ok:
  assumes "db_calls db = (\<lambda>_. Done)" and "live_claim c"
  shows "\<exists>n. claim_mark ids c db = (Inr (), marked (set ids) c, db\<lparr>db_pos := n\<rparr>)"
  using assms by (cases "ids = []") (auto simp: claim_mark_def marked_def live_claim_def db_call_def Let_def intro: exI [of _ "db_pos db"])

lemma publishGroup_ok:
  assumes "no_faults w" and "live_claim c"
  shows "\<exists>w'. publishGroup c (k, xs) w = Returned (Inr (length xs), marked (ob_ID ` set xs) c, w') \<and> same_relay w w' \<and>
    (\<forall>k'. key_log w' k' = key_log w k' @ (if k' = k then map ob_Payload xs else []))"
proof (cases "xs = []")
  case True
  then show ?thesis by (simp add: publishGroup_def same_relay_refl marked_def)
next
  case False
  obtain r w1 where b: "WriteBatchAt k (map ob_Payload xs) w = (r, w1)" by (metis surj_pair)
  have r: "r = Inr ()" using b assms(1) by (auto simp: WriteBatchAt_def no_faults_def Let_def split: prod.splits)
  have l: "key_log w1 k' = key_log w k' @ (if k' = k then map ob_Payload xs else [])" for k'
    using WriteBatchAt_log(1) [OF b, of k'] r by (auto split: if_splits)
  have d: "rl_db w1 = rl_db w" using WriteBatchAt_log(2) [OF b] .
  obtain n where m: "claim_mark (map ob_ID xs) c (rl_db w1) = (Inr (), marked (set (map ob_ID xs)) c, (rl_db w1)\<lparr>db_pos := n\<rparr>)"
    using claim_mark_ok [of "rl_db w1" c "map ob_ID xs"] assms d unfolding no_faults_def by auto
  have "same_relay w (w1\<lparr>rl_db := (rl_db w1)\<lparr>db_pos := n\<rparr>\<rparr>)"
    using d WriteBatchAt_log(3,4) [OF b] by (auto simp: same_relay_def)
  with False b r m l show ?thesis by (simp add: publishGroup_def)
qed

lemma publishGroups_ok:
  assumes "no_faults w" and "live_claim c"
  shows "\<exists>w' m. publishGroups gs n c w = Returned (m, marked (\<Union>g\<in>set gs. ob_ID ` set (snd g)) c, w') \<and> same_relay w w' \<and>
    (\<forall>k. key_log w' k = key_log w k @ map ob_Payload (group_rows gs k))"
  using assms
proof (induction gs arbitrary: n c w)
  case Nil
  then show ?case by (simp add: same_relay_refl marked_def)
next
  case (Cons g gs)
  obtain k xs where g: "g = (k, xs)" by (cases g)
  obtain w1 where 1: "publishGroup c (k, xs) w = Returned (Inr (length xs), marked (ob_ID ` set xs) c, w1)" "same_relay w w1"
    "\<forall>k'. key_log w1 k' = key_log w k' @ (if k' = k then map ob_Payload xs else [])"
    using publishGroup_ok [OF Cons.prems] by blast
  obtain w2 m where 2: "publishGroups gs (n + length xs) (marked (ob_ID ` set xs) c) w1 =
      Returned (m, marked (\<Union>g\<in>set gs. ob_ID ` set (snd g)) (marked (ob_ID ` set xs) c), w2)" "same_relay w1 w2"
    "\<forall>k. key_log w2 k = key_log w1 k @ map ob_Payload (group_rows gs k)"
    using Cons.IH [OF no_faults_same [OF Cons.prems(1) 1(2)]] Cons.prems(2) live_marked by blast
  from 1 2 g show ?case by (auto simp: marked_marked intro: same_relay_trans)
qed

lemma group_rows_map_of: "distinct (map fst gs) \<Longrightarrow> group_rows gs k = (case map_of gs k of None \<Rightarrow> [] | Some xs \<Rightarrow> xs)"
proof (induction gs k rule: group_rows.induct)
  case (2 k1 xs gs k)
  then show ?case by (cases "k1 = k") (simp_all add: group_rows_none)
qed simp

lemma group_rows_shuffle:
  assumes "mset gs' = mset gs" and "distinct (map fst gs)"
  shows "group_rows gs' k = group_rows gs k"
proof -
  have "mset (map fst gs') = mset (map fst gs)" using assms(1) by simp
  then have d: "distinct (map fst gs')" using assms(2) by (metis mset_eq_imp_distinct_iff)
  have "map_of gs' = map_of gs" using map_of_inject_set [OF d assms(2)] mset_eq_setD [OF assms(1)] by simp
  with group_rows_map_of [OF d] group_rows_map_of [OF assms(2)] show ?thesis by simp
qed

lemma group_rows_Union: "(\<Union>g\<in>set gs. set (snd g)) = (\<Union>k. set (group_rows gs k))"
  by (induction gs) auto

lemma statuses_ok:
  assumes "db_calls db = (\<lambda>_. Done)"
  shows "\<exists>st n. GetOrderStatusesBatch ids db = (Inr st, db\<lparr>db_pos := n\<rparr>) \<and>
    (\<forall>i \<in> set ids. st i = map_of (map (\<lambda>r. (or_ID r, or_Status r)) (t_orders (db_tables db))) i)"
proof (cases "ids = []")
  case True
  then show ?thesis by (auto simp: GetOrderStatusesBatch_def return_tx_def intro: exI [of _ "db_pos db"])
next
  case False
  have "map_of (map (\<lambda>r. (or_ID r, or_Status r)) (filter (\<lambda>r. or_ID r \<in> set ids) os)) i = map_of (map (\<lambda>r. (or_ID r, or_Status r)) os) i"
    if "i \<in> set ids" for i and os :: "'a order_row list" using that by (induction os) auto
  with False assms show ?thesis
    by (auto simp: GetOrderStatusesBatch_def query_def stmt_def stmt_err_def db_call_def)
qed

lemma sort_entries_cong:
  "\<forall>x \<in> set xs. st (ob_AggregateID x) = st' (ob_AggregateID x) \<Longrightarrow> sort_entries cfg st xs skip gs = sort_entries cfg st' xs skip gs"
  by (induction xs arbitrary: skip gs) (auto split: option.splits)

definition handled :: "relay_config \<Rightarrow> (outbox_row \<Rightarrow> string option) \<Rightarrow> outbox_row \<Rightarrow> bool" where
  "handled cfg st x \<longleftrightarrow> skipped st x \<or> dest cfg st x \<noteq> None"

lemma dispatch_ok:
  assumes "no_faults w" and "live_claim c"
  shows "\<exists>m w'. dispatchBatch cfg c w =
      Returned (Inr m, marked (ob_ID ` {x \<in> set (cl_entries c). handled cfg (row_status (db_tables (rl_db w))) x}) c, w') \<and>
    same_relay w w' \<and>
    (\<forall>k. key_log w' k = key_log w k @
       map ob_Payload (filter (\<lambda>x. dest cfg (row_status (db_tables (rl_db w))) x = Some k) (cl_entries c)))"
proof -
  let ?st = "row_status (db_tables (rl_db w))" and ?xs = "cl_entries c"
  have calls: "db_calls (rl_db w) = (\<lambda>_. Done)" using assms(1) by (simp add: no_faults_def)
  obtain st n where st: "GetOrderStatusesBatch (map ob_AggregateID ?xs) (rl_db w) = (Inr st, (rl_db w)\<lparr>db_pos := n\<rparr>)"
    "\<forall>i \<in> ob_AggregateID ` set ?xs. st i = map_of (map (\<lambda>r. (or_ID r, or_Status r)) (t_orders (db_tables (rl_db w)))) i"
    using statuses_ok [OF calls, of "map ob_AggregateID ?xs"] by auto
  let ?all = "map_of (map (\<lambda>r. (or_ID r, or_Status r)) (t_orders (db_tables (rl_db w))))"
  obtain skip gs where sk: "sort_entries cfg st ?xs [] [] = (skip, gs)" by (metis surj_pair)
  then have "sort_entries cfg ?all ?xs [] [] = (skip, gs)" using st(2) sort_entries_cong [of ?xs st ?all] by simp
  note s = sort_entries_spec [OF this, simplified]
  have rs: "(\<lambda>x. ?all (ob_AggregateID x)) = ?st" by (simp add: row_status_def fun_eq_iff)
  note s = s [unfolded rs]
  let ?w1 = "w\<lparr>rl_db := (rl_db w)\<lparr>db_pos := n\<rparr>\<rparr>"
  obtain n2 where cm: "claim_mark skip c ((rl_db w)\<lparr>db_pos := n\<rparr>) = (Inr (), marked (set skip) c, (rl_db w)\<lparr>db_pos := n2\<rparr>)"
    using claim_mark_ok [of "(rl_db w)\<lparr>db_pos := n\<rparr>" c skip] assms(2) calls by auto
  let ?w2 = "w\<lparr>rl_db := (rl_db w)\<lparr>db_pos := n2\<rparr>\<rparr>"
  have sr: "same_relay w ?w2" by (auto simp: same_relay_def)
  define gs' where "gs' = rl_shuffle w gs"
  have ms: "mset gs' = mset gs" using assms(1) by (simp add: no_faults_def gs'_def)
  obtain w' m where g: "publishGroups gs' (length skip) (marked (set skip) c) ?w2 =
      Returned (m, marked (\<Union>g\<in>set gs'. ob_ID ` set (snd g)) (marked (set skip) c), w')" "same_relay ?w2 w'"
    "\<forall>k. key_log w' k = key_log ?w2 k @ map ob_Payload (group_rows gs' k)"
    using publishGroups_ok [OF no_faults_same [OF assms(1) sr], of "marked (set skip) c" gs' "length skip"] assms(2)
    by (auto simp: live_marked)
  have "(\<Union>g\<in>set gs'. ob_ID ` set (snd g)) = ob_ID ` {x \<in> set ?xs. dest cfg ?st x \<noteq> None}"
    using group_rows_Union [of gs] s(2) mset_eq_setD [OF ms] by (auto simp flip: image_UN)
  then have mk: "marked (\<Union>g\<in>set gs'. ob_ID ` set (snd g)) (marked (set skip) c) =
      marked (ob_ID ` {x \<in> set ?xs. handled cfg ?st x}) c"
    using s(1) by (simp add: marked_marked handled_def) (rule arg_cong2 [of _ _ _ _ marked], auto)
  have "dispatchBatch cfg c w = Returned (Inr m, marked (ob_ID ` {x \<in> set ?xs. handled cfg ?st x}) c, w')"
    using st(1) sk cm g(1) mk by (simp add: dispatchBatch_def gs'_def)
  moreover have "key_log w' k = key_log w k @ map ob_Payload (filter (\<lambda>x. dest cfg ?st x = Some k) ?xs)" for k
    using g(3) [rule_format, of k] group_rows_shuffle [OF ms s(3)] s(2) by simp
  ultimately show ?thesis using same_relay_trans [OF sr g(2)] by blast
qed

lemma unpublished_marked:
  assumes "distinct (map ob_ID rs)"
  shows "unpublished (map (\<lambda>x. if ob_ID x \<in> ob_ID ` set (take n (unpublished rs)) \<and> ob_PublishedAt x = None
                         then x\<lparr>ob_PublishedAt := Some t0\<rparr> else x) rs) = drop n (unpublished rs)" (is "unpublished ?rs = _")
proof -
  let ?U = "unpublished rs" and ?ids = "ob_ID ` set (take n (unpublished rs))"
  have f: "filter (\<lambda>x. ob_PublishedAt x = None) (map (\<lambda>x. if ob_ID x \<in> S \<and> ob_PublishedAt x = None
      then x\<lparr>ob_PublishedAt := Some t0\<rparr> else x) xs) = filter (\<lambda>x. ob_ID x \<notin> S) (filter (\<lambda>x. ob_PublishedAt x = None) xs)" for xs S
    by (induction xs) auto
  have d: "distinct (map ob_ID ?U)"
    using assms by (simp add: unpublished_def distinct_map_filter distinct_map inj_on_def)
  have "filter (\<lambda>x. ob_ID x \<notin> ?ids) ?U = drop n ?U"
  proof -
    have "filter (\<lambda>x. ob_ID x \<notin> ob_ID ` set ys) (ys @ zs) = zs" if "distinct (map ob_ID (ys @ zs))" for ys zs :: "outbox_row list"
      using that by (auto simp: filter_empty_conv filter_id_conv)
    from this [of "take n ?U" "drop n ?U"] d show ?thesis by simp
  qed
  then show ?thesis unfolding unpublished_def f filter_sort [symmetric] by (simp add: unpublished_def)
qed

definition published_at :: "uint64 set \<Rightarrow> 'd relay \<Rightarrow> 'd tables" where
  "published_at ids w = snd (mark_rows ids (db_now (rl_db w)) (db_tables (rl_db w)))"

lemma poll_ok:
  assumes "no_faults w" and "0 < rc_BatchSize cfg"
    and U: "U = unpublished (t_outbox (db_tables (rl_db w)))" and B: "B = take (nat (rc_BatchSize cfg)) U"
    and "\<forall>x \<in> set B. handled cfg (row_status (db_tables (rl_db w))) x"
  shows "\<exists>w'. pollOnce cfg {} w = Returned (length B, w') \<and> no_faults w' \<and>
    db_tables (rl_db w') = published_at (ob_ID ` set B) w \<and>
    (\<forall>k. key_log w' k = key_log w k @ map ob_Payload (filter (\<lambda>x. dest cfg (row_status (db_tables (rl_db w))) x = Some k) B))"
proof -
  let ?w1 = "w\<lparr>rl_db := (rl_db w)\<lparr>db_pos := Suc (Suc (db_pos (rl_db w)))\<rparr>\<rparr>"
  have calls: "db_calls (rl_db w) = (\<lambda>_. Done)" using assms(1) by (simp add: no_faults_def)
  have cl: "claimUnpublished {} (rc_BatchSize cfg) (rl_db w) = (Inr (new_claim B), rl_db ?w1)"
    using calls assms(2) by (simp add: claimUnpublished_def query_def stmt_def stmt_err_def bind_tx_def db_call_def return_tx_def row_limit_def B U)
  have sr: "same_relay w ?w1" by (auto simp: same_relay_def)
  show ?thesis
  proof (cases "B = []")
    case True
    have "mark_rows {} t0 t = (0, t)" for t0 and t :: "'a tables" by (simp add: mark_rows_def update_rows_def)
    with True cl no_faults_same [OF assms(1) sr] show ?thesis
      by (simp add: pollOnce_def new_claim_def published_at_def)
  next
    case False
    then have live: "live_claim (new_claim B)" "cl_entries (new_claim B) = B" by (simp_all add: live_claim_def new_claim_def)
    obtain m w2 where d: "dispatchBatch cfg (new_claim B) ?w1 = Returned (Inr m,
        marked (ob_ID ` {x \<in> set B. handled cfg (row_status (db_tables (rl_db w))) x}) (new_claim B), w2)" "same_relay ?w1 w2"
      "\<forall>k. key_log w2 k = key_log w k @ map ob_Payload (filter (\<lambda>x. dest cfg (row_status (db_tables (rl_db w))) x = Some k) B)"
      using dispatch_ok [OF no_faults_same [OF assms(1) sr] live(1), of cfg] live(2) by auto
    have "{x \<in> set B. handled cfg (row_status (db_tables (rl_db w))) x} = set B" using assms(5) by blast
    note d = d [unfolded this]
    obtain n where n: "rl_db w2 = (rl_db w)\<lparr>db_pos := n\<rparr>" using d(2) by (auto simp: same_relay_def)
    have "claim_commit (marked (ob_ID ` set B) (new_claim B)) (rl_db w2) =
        (Inr (), (rl_db w)\<lparr>db_pos := Suc n, db_tables := published_at (ob_ID ` set B) w\<rparr>)"
      using calls n False
      by (simp add: claim_commit_def marked_def new_claim_def auto_stmt_def bind_tx_def return_tx_def db_call_def Let_def split_beta published_at_def)
    with cl d(1) False live(2)
    have "pollOnce cfg {} w = Returned (length B, w2\<lparr>rl_db := (rl_db w)\<lparr>db_pos := Suc n, db_tables := published_at (ob_ID ` set B) w\<rparr>\<rparr>)"
      by (simp add: pollOnce_def)
    moreover have "no_faults w2" using no_faults_same [OF no_faults_same [OF assms(1) sr] d(2)] .
    ultimately show ?thesis using d(3) calls by (simp add: no_faults_def)
  qed
qed

section \<open>The loop over full batches\<close>

definition outbox_keys :: "'d tables \<Rightarrow> bool" where
  "outbox_keys t \<longleftrightarrow> distinct (map ob_ID (t_outbox t))"

text \<open>Every row waiting to be published can be dealt with now.\<close>

definition deliverable :: "relay_config \<Rightarrow> 'd tables \<Rightarrow> bool" where
  "deliverable cfg t \<longleftrightarrow> (\<forall>x \<in> set (t_outbox t). ob_PublishedAt x = None \<longrightarrow> handled cfg (row_status t) x)"

lemma set_unpublished: "set (unpublished rs) = {x \<in> set rs. ob_PublishedAt x = None}"
  by (simp add: unpublished_def)

lemma published_at_next:
  assumes "outbox_keys (db_tables (rl_db w))" and U: "U = unpublished (t_outbox (db_tables (rl_db w)))"
  shows "unpublished (t_outbox (published_at (ob_ID ` set (take n U)) w)) = drop n U"
    and "row_status (published_at ids w) = row_status (db_tables (rl_db w))"
    and "outbox_keys (published_at ids w)"
proof -
  show "unpublished (t_outbox (published_at (ob_ID ` set (take n U)) w)) = drop n U"
    using unpublished_marked [of "t_outbox (db_tables (rl_db w))"] assms
    by (simp add: published_at_def mark_rows_def update_rows_def outbox_keys_def)
  show "row_status (published_at ids w) = row_status (db_tables (rl_db w))"
    by (simp add: row_status_def fun_eq_iff published_at_def mark_rows_def update_rows_def)
  have "map ob_ID (t_outbox (published_at ids w)) = map ob_ID (t_outbox (db_tables (rl_db w)))"
    by (simp add: published_at_def mark_rows_def update_rows_def)
  then show "outbox_keys (published_at ids w)" using assms(1) by (simp add: outbox_keys_def)
qed

text \<open>One poll without faults: what it sends, and what it leaves.\<close>

lemma poll_batch:
  assumes "no_faults w" and "0 < rc_BatchSize cfg" and keys: "outbox_keys (db_tables (rl_db w))" and del: "deliverable cfg (db_tables (rl_db w))"
    and U: "U = unpublished (t_outbox (db_tables (rl_db w)))" and n: "n = nat (rc_BatchSize cfg)"
  shows "\<exists>w1. pollOnce cfg {} w = Returned (length (take n U), w1) \<and> no_faults w1 \<and>
    unpublished (t_outbox (db_tables (rl_db w1))) = drop n U \<and> outbox_keys (db_tables (rl_db w1)) \<and>
    row_status (db_tables (rl_db w1)) = row_status (db_tables (rl_db w)) \<and> deliverable cfg (db_tables (rl_db w1)) \<and>
    (\<forall>k. key_log w1 k = key_log w k @ map ob_Payload (filter (\<lambda>x. dest cfg (row_status (db_tables (rl_db w))) x = Some k) (take n U)))"
proof -
  have "\<forall>x \<in> set (take n U). handled cfg (row_status (db_tables (rl_db w))) x"
    using del set_take_subset [of n U] by (auto simp: deliverable_def U set_unpublished)
  from poll_ok [OF assms(1,2) U n [THEN arg_cong [of _ _ "\<lambda>n. take n U"]] this]
  obtain w1 where 1: "pollOnce cfg {} w = Returned (length (take n U), w1)" "no_faults w1"
    "db_tables (rl_db w1) = published_at (ob_ID ` set (take n U)) w"
    "\<forall>k. key_log w1 k = key_log w k @ map ob_Payload (filter (\<lambda>x. dest cfg (row_status (db_tables (rl_db w))) x = Some k) (take n U))"
    by blast
  have U1: "unpublished (t_outbox (db_tables (rl_db w1))) = drop n U" using published_at_next(1) [OF keys U] 1(3) by simp
  have st1: "row_status (db_tables (rl_db w1)) = row_status (db_tables (rl_db w))" "outbox_keys (db_tables (rl_db w1))"
    using published_at_next(2,3) [OF keys U] 1(3) by simp_all
  have "{x \<in> set (t_outbox (db_tables (rl_db w1))). ob_PublishedAt x = None} \<subseteq> set U"
    using U1 set_drop_subset [of n U] by (simp flip: set_unpublished)
  with del have "deliverable cfg (db_tables (rl_db w1))" unfolding deliverable_def st1 U set_unpublished by blast
  with 1 U1 st1 show ?thesis by blast
qed

text \<open>
  C17. When nothing fails and every waiting row can be dealt with, the relay's loop over full
  batches ends with every row published, and each partition key of each partition has
  received exactly the waiting commands meant for it, once, in the order of the outbox.
\<close>

theorem relay_drains:
  assumes "no_faults w" and "0 < rc_BatchSize cfg"
    and "outbox_keys (db_tables (rl_db w))" and "deliverable cfg (db_tables (rl_db w))"
  shows "\<exists>w'. relay_burst cfg w = Some (Returned w') \<and>
    (\<forall>x \<in> set (t_outbox (db_tables (rl_db w'))). ob_PublishedAt x \<noteq> None) \<and>
    (\<forall>k. key_log w' k = key_log w k @ map ob_Payload
       (filter (\<lambda>x. dest cfg (row_status (db_tables (rl_db w))) x = Some k) (unpublished (t_outbox (db_tables (rl_db w))))))"
  using assms(1,3,4)
proof (induction "length (unpublished (t_outbox (db_tables (rl_db w))))" arbitrary: w rule: less_induct)
  case less
  define U where "U = unpublished (t_outbox (db_tables (rl_db w)))"
  define n where "n = nat (rc_BatchSize cfg)"
  have n: "0 < n" "rc_BatchSize cfg \<le> int (length (take n U)) \<longleftrightarrow> n \<le> length U" using assms(2) by (auto simp: n_def)
  from poll_batch [OF less.prems(1) assms(2) less.prems(2,3) U_def n_def]
  obtain w1 where 1: "pollOnce cfg {} w = Returned (length (take n U), w1)" "no_faults w1"
    "unpublished (t_outbox (db_tables (rl_db w1))) = drop n U" "outbox_keys (db_tables (rl_db w1))"
    "row_status (db_tables (rl_db w1)) = row_status (db_tables (rl_db w))" "deliverable cfg (db_tables (rl_db w1))"
    "\<forall>k. key_log w1 k = key_log w k @ map ob_Payload (filter (\<lambda>x. dest cfg (row_status (db_tables (rl_db w))) x = Some k) (take n U))"
    by blast
  show ?case
  proof (cases "n \<le> length U")
    case False
    then have "relay_burst cfg w = Some (Returned w1)" using 1(1) n(2) by (simp add: relay_burst.simps)
    moreover have "{x \<in> set (t_outbox (db_tables (rl_db w1))). ob_PublishedAt x = None} = {}"
      using 1(3) False by (simp flip: set_unpublished)
    ultimately show ?thesis using 1(7) False by (auto simp: U_def)
  next
    case True
    then have eq: "relay_burst cfg w = relay_burst cfg w1" using 1(1) n(2) by (subst relay_burst.simps) simp
    have "length (unpublished (t_outbox (db_tables (rl_db w1)))) < length (unpublished (t_outbox (db_tables (rl_db w))))"
      using 1(3) n(1) True by (simp add: U_def)
    then obtain w' where w': "relay_burst cfg w1 = Some (Returned w')"
      "\<forall>x \<in> set (t_outbox (db_tables (rl_db w'))). ob_PublishedAt x \<noteq> None"
      "\<forall>k. key_log w' k = key_log w1 k @ map ob_Payload (filter (\<lambda>x. dest cfg (row_status (db_tables (rl_db w))) x = Some k) (drop n U))"
      using less.hyps [OF _ 1(2,4,6)] 1(3,5) by auto
    have "filter P (take n U) @ filter P (drop n U) = filter P U" for P
      by (metis append_take_drop_id filter_append)
    then have "key_log w' k = key_log w k @ map ob_Payload (filter (\<lambda>x. dest cfg (row_status (db_tables (rl_db w))) x = Some k) U)" for k
      using w'(3) [rule_format, of k] 1(7) [rule_format, of k] by (simp flip: map_append)
    with eq w'(1,2) show ?thesis by (auto simp: U_def)
  qed
qed

section \<open>A poll when anything may fail\<close>

definition sent_since :: "'d relay \<Rightarrow> 'd relay \<Rightarrow> group_key \<Rightarrow> bytes \<Rightarrow> bool" where
  "sent_since w w' k v \<longleftrightarrow> (\<exists>us. key_log w' k = key_log w k @ us \<and> v \<in> set us)"

definition grown :: "'d relay \<Rightarrow> 'd relay \<Rightarrow> bool" where
  "grown w w' \<longleftrightarrow> db_tables (rl_db w') = db_tables (rl_db w) \<and> db_now (rl_db w') = db_now (rl_db w) \<and>
     (\<forall>k. \<exists>us. key_log w' k = key_log w k @ us)"

lemma grown_refl: "grown w w"
  by (simp add: grown_def)

lemma grown_trans: "grown w w1 \<Longrightarrow> grown w1 w2 \<Longrightarrow> grown w w2"
  unfolding grown_def by (metis append.assoc)

lemma sent_mono: "sent_since w w1 k v \<Longrightarrow> grown w1 w2 \<Longrightarrow> sent_since w w2 k v"
  unfolding sent_since_def grown_def by (metis Un_iff append.assoc set_append)

lemma sent_earlier: "grown w w1 \<Longrightarrow> sent_since w1 w2 k v \<Longrightarrow> sent_since w w2 k v"
  unfolding sent_since_def grown_def by (metis Un_iff append.assoc set_append)

lemma grown_db: "grown w (w\<lparr>rl_db := db\<rparr>) \<longleftrightarrow> db_tables db = db_tables (rl_db w) \<and> db_now db = db_now (rl_db w)"
  by (simp add: grown_def)

lemma WriteBatchAt_grown:
  assumes "WriteBatchAt k vs w = (r, w1)"
  shows "grown w w1"
proof -
  have "\<exists>us. key_log w1 k' = key_log w k' @ us" for k' using WriteBatchAt_log(1) [OF assms, of k'] by blast
  with WriteBatchAt_log(2) [OF assms] show ?thesis unfolding grown_def by simp
qed

lemma increment_all_any:
  assumes "increment_all c ids w = Returned w'" and "set ids \<subseteq> ob_ID ` set (cl_entries c)" and "\<not> cl_done c"
  shows "grown w w'"
  using assms
proof (induction c ids w rule: increment_all.induct)
  case (2 c i ids w)
  then have i: "i \<in> ob_ID ` set (cl_entries c)" by simp
  show ?case
  proof (cases "fst (db_call (rl_db w)) = Failed")
    case True
    then obtain e where "IncrementRetry i (rl_db w) = (Inl e, snd (db_call (rl_db w)))"
      by (auto simp: IncrementRetry_def auto_stmt_def db_call_def Let_def split_beta)
    with 2(2) True i show ?thesis by (auto simp: store_IncrementRetry_def grown_db db_call_def)
  next
    case False
    with 2(2) i 2(4) show ?thesis by (simp add: store_IncrementRetry_def)
  qed
qed (simp add: grown_refl)

definition claim_of :: "outbox_row list \<Rightarrow> claim \<Rightarrow> bool" where
  "claim_of B c \<longleftrightarrow> cl_entries c = B \<and> \<not> cl_done c"

lemma claim_mark_any:
  assumes "claim_mark ids c db = (r, c', db')" and "claim_of B c"
  shows "claim_of B c'" "db_tables db' = db_tables db" "db_now db' = db_now db"
    "cl_marks c' \<subseteq> cl_marks c \<union> set ids" "r = Inl e \<Longrightarrow> cl_marks c' = cl_marks c"
  using assms by (auto simp: claim_mark_def claim_of_def db_call_def Let_def split: if_splits)

lemma publishGroup_any:
  assumes "publishGroup c (k, xs) w = Returned (r, c', w')" and "claim_of B c" and "set xs \<subseteq> set B"
  shows "grown w w' \<and> claim_of B c' \<and>
    (\<forall>i \<in> cl_marks c'. i \<in> cl_marks c \<or> (\<exists>x \<in> set xs. ob_ID x = i \<and> sent_since w w' k (ob_Payload x)))"
proof (cases "xs = []")
  case True
  with assms show ?thesis by (simp add: publishGroup_def grown_refl)
next
  case False
  obtain rw w1 where b: "WriteBatchAt k (map ob_Payload xs) w = (rw, w1)" by (metis surj_pair)
  note g = WriteBatchAt_grown [OF b]
  show ?thesis
  proof (cases rw)
    case (Inl e)
    with False assms(1) b obtain w2 where "increment_all c (map ob_ID xs) w1 = Returned w2" "c' = c" "w' = w2"
      by (auto simp: publishGroup_def split: wait.splits)
    moreover have "set (map ob_ID xs) \<subseteq> ob_ID ` set (cl_entries c)" using assms(2,3) by (auto simp: claim_of_def)
    ultimately show ?thesis using increment_all_any assms(2) grown_trans [OF g] by (metis claim_of_def)
  next
    case (Inr u)
    obtain rm c1 db where m: "claim_mark (map ob_ID xs) c (rl_db w1) = (rm, c1, db)" by (metis prod_cases3)
    with False assms(1) b Inr have w': "c' = c1" "w' = w1\<lparr>rl_db := db\<rparr>"
      by (auto simp: publishGroup_def split: sum.splits)
    note m = claim_mark_any [OF m assms(2)]
    have g1: "grown w1 w'" using m(2,3) by (simp add: w' grown_db)
    have "key_log w1 k = key_log w k @ map ob_Payload xs" using WriteBatchAt_log(1) [OF b, of k] Inr by auto
    then have "sent_since w w1 k (ob_Payload x)" if "x \<in> set xs" for x using that by (auto simp: sent_since_def)
    with sent_mono [OF _ g1] have "sent_since w w' k (ob_Payload x)" if "x \<in> set xs" for x using that by blast
    then have "\<forall>i \<in> set (map ob_ID xs). \<exists>x \<in> set xs. ob_ID x = i \<and> sent_since w w' k (ob_Payload x)" by auto
    moreover have "cl_marks c' \<subseteq> cl_marks c \<union> set (map ob_ID xs)" "claim_of B c'" using m(1,4) w'(1) by simp_all
    ultimately show ?thesis using grown_trans [OF g g1] by blast
  qed
qed

lemma publishGroups_any:
  assumes "publishGroups gs n c w = Returned (m, c', w')" and "claim_of B c" and "\<forall>g \<in> set gs. set (snd g) \<subseteq> set B"
  shows "grown w w' \<and> claim_of B c' \<and>
    (\<forall>i \<in> cl_marks c'. i \<in> cl_marks c \<or> (\<exists>g \<in> set gs. \<exists>x \<in> set (snd g). ob_ID x = i \<and> sent_since w w' (fst g) (ob_Payload x)))"
  using assms
proof (induction gs arbitrary: n c w)
  case (Cons g gs)
  obtain k xs where g: "g = (k, xs)" by (cases g)
  obtain r c1 w1 where p: "publishGroup c (k, xs) w = Returned (r, c1, w1)"
    using Cons.prems(1) g by (auto split: wait.splits)
  have a: "grown w w1" "claim_of B c1"
    "\<forall>i \<in> cl_marks c1. i \<in> cl_marks c \<or> (\<exists>x \<in> set xs. ob_ID x = i \<and> sent_since w w1 k (ob_Payload x))"
    using publishGroup_any [OF p Cons.prems(2)] Cons.prems(3) g by auto
  obtain n1 where "publishGroups gs n1 c1 w1 = Returned (m, c', w')" using Cons.prems(1) g p by (auto split: sum.splits)
  from Cons.IH [OF this a(2)] Cons.prems(3) have b: "grown w1 w'" "claim_of B c'"
    "\<forall>i \<in> cl_marks c'. i \<in> cl_marks c1 \<or> (\<exists>g \<in> set gs. \<exists>x \<in> set (snd g). ob_ID x = i \<and> sent_since w1 w' (fst g) (ob_Payload x))"
    by auto
  have "\<exists>g \<in> set (g # gs). \<exists>x \<in> set (snd g). ob_ID x = i \<and> sent_since w w' (fst g) (ob_Payload x)"
    if "i \<in> cl_marks c'" "i \<notin> cl_marks c" for i
  proof (cases "i \<in> cl_marks c1")
    note i = that
    case True
    then obtain x where x: "x \<in> set xs" "ob_ID x = i" "sent_since w w1 k (ob_Payload x)" using a(3) i(2) by blast
    with sent_mono [OF x(3) b(1)] g show ?thesis by auto
  next
    note i = that
    case False
    then obtain g x where x: "g \<in> set gs" "x \<in> set (snd g)" "ob_ID x = i" "sent_since w1 w' (fst g) (ob_Payload x)"
      using b(3) i(1) by blast
    with sent_earlier [OF a(1) x(4)] show ?thesis by auto
  qed
  with grown_trans [OF a(1) b(1)] b(2) show ?case by blast
qed (simp add: grown_refl)

lemma statuses_any:
  assumes "GetOrderStatusesBatch ids db = (r, db')"
  shows "db_tables db' = db_tables db" "db_now db' = db_now db"
    "r = Inr st \<Longrightarrow> i \<in> set ids \<Longrightarrow> st i = map_of (map (\<lambda>r. (or_ID r, or_Status r)) (t_orders (db_tables db))) i"
proof -
  have *: "map_of (map (\<lambda>r. (or_ID r, or_Status r)) (filter (\<lambda>r. or_ID r \<in> set ids) os)) i = map_of (map (\<lambda>r. (or_ID r, or_Status r)) os) i"
    if "i \<in> set ids" for i and os :: "'a order_row list" using that by (induction os) auto
  show "db_tables db' = db_tables db" "db_now db' = db_now db"
    "r = Inr st \<Longrightarrow> i \<in> set ids \<Longrightarrow> st i = map_of (map (\<lambda>r. (or_ID r, or_Status r)) (t_orders (db_tables db))) i"
    using assms * by (auto simp: GetOrderStatusesBatch_def query_def stmt_def stmt_err_def db_call_def return_tx_def split: if_splits)
qed

text \<open>What a claim may mark: rows that were skipped or whose payload was sent.\<close>

definition accounted :: "relay_config \<Rightarrow> 'd relay \<Rightarrow> 'd relay \<Rightarrow> outbox_row \<Rightarrow> bool" where
  "accounted cfg w w' x \<longleftrightarrow>
     skipped (row_status (db_tables (rl_db w))) x \<or>
     (\<exists>k. dest cfg (row_status (db_tables (rl_db w))) x = Some k \<and> sent_since w w' k (ob_Payload x))"

lemma in_group_rows: "g \<in> set gs \<Longrightarrow> x \<in> set (snd g) \<Longrightarrow> x \<in> set (group_rows gs (fst g))"
  by (induction gs) auto

lemma dispatch_any:
  assumes "dispatchBatch cfg c w = Returned (r, c', w')" and "claim_of B c" and "cl_marks c = {}"
    and "\<forall>gs. mset (rl_shuffle w gs) = mset gs"
  shows "grown w w' \<and> claim_of B c' \<and> (\<forall>i \<in> cl_marks c'. \<exists>x \<in> set B. ob_ID x = i \<and> accounted cfg w w' x)"
proof -
  let ?st = "row_status (db_tables (rl_db w))"
  obtain rs db1 where st: "GetOrderStatusesBatch (map ob_AggregateID (cl_entries c)) (rl_db w) = (rs, db1)" by (metis surj_pair)
  note s1 = statuses_any [OF st]
  have B: "cl_entries c = B" using assms(2) by (simp add: claim_of_def)
  show ?thesis
  proof (cases rs)
    case (Inl e)
    with assms(1) st have "c' = c" "w' = w\<lparr>rl_db := db1\<rparr>" by (auto simp: dispatchBatch_def)
    with assms(2,3) s1(1,2) show ?thesis by (simp add: grown_db)
  next
    case (Inr st0)
    let ?all = "map_of (map (\<lambda>r. (or_ID r, or_Status r)) (t_orders (db_tables (rl_db w))))"
    obtain skip gs where sk0: "sort_entries cfg st0 B [] [] = (skip, gs)" by (metis surj_pair)
    then have sk: "sort_entries cfg ?all B [] [] = (skip, gs)"
      using s1(3) [OF Inr] sort_entries_cong [of B st0 ?all] B by simp
    have rs: "(\<lambda>x. ?all (ob_AggregateID x)) = ?st" by (simp add: row_status_def fun_eq_iff)
    note s = sort_entries_spec [OF sk, simplified, unfolded rs]
    obtain rm c1 db2 where cm: "claim_mark skip c db1 = (rm, c1, db2)" by (metis prod_cases3)
    note c1 = claim_mark_any [OF cm assms(2)]
    let ?w1 = "w\<lparr>rl_db := db2\<rparr>"
    have g1: "grown w ?w1" using c1(2,3) s1(1,2) by (simp add: grown_db)
    have m1: "\<forall>i \<in> cl_marks c1. \<exists>x \<in> set B. ob_ID x = i \<and> skipped ?st x" using c1(4) s(1) assms(3) by auto
    show ?thesis
    proof (cases rm)
      case (Inl e)
      with assms(1) st Inr sk0 cm B have "c' = c1" "w' = ?w1" by (auto simp: dispatchBatch_def)
      with g1 c1(1) m1 show ?thesis by (auto simp: accounted_def)
    next
      case (Inr u)
      define gs' where "gs' = rl_shuffle w gs"
      obtain n where p: "publishGroups gs' (length skip) c1 ?w1 = Returned (n, c', w')"
        using assms(1) st \<open>rs = Inr st0\<close> sk0 cm B Inr by (auto simp: dispatchBatch_def gs'_def split: wait.splits)
      have sg: "set gs' = set gs" using mset_eq_setD [of gs' gs] assms(4) by (simp add: gs'_def)
      have sub: "x \<in> set B \<and> dest cfg ?st x = Some (fst g)" if "g \<in> set gs'" "x \<in> set (snd g)" for g x
        using in_group_rows [of g gs x] that sg s(2) [of "fst g"] by simp
      then have "\<forall>g \<in> set gs'. set (snd g) \<subseteq> set B" by blast
      from publishGroups_any [OF p c1(1) this]
      have a: "grown ?w1 w'" "claim_of B c'" "\<forall>i \<in> cl_marks c'. i \<in> cl_marks c1 \<or>
          (\<exists>g \<in> set gs'. \<exists>x \<in> set (snd g). ob_ID x = i \<and> sent_since ?w1 w' (fst g) (ob_Payload x))" by blast+
      have "\<exists>x \<in> set B. ob_ID x = i \<and> accounted cfg w w' x" if "i \<in> cl_marks c'" for i
        using a(3) that m1 sub sent_earlier [OF g1] unfolding accounted_def by blast
      with grown_trans [OF g1 a(1)] a(2) show ?thesis by blast
    qed
  qed
qed

lemma claim_commit_any:
  assumes "claim_commit c db = (r, db')"
  shows "db_tables db' = db_tables db \<or> db_tables db' = snd (mark_rows (cl_marks c) (db_now db) (db_tables db))"
  using assms
  by (auto simp: claim_commit_def auto_stmt_def bind_tx_def return_tx_def db_call_def Let_def split_beta
      split: if_splits call_outcome.splits)

lemma claimUnpublished_any:
  assumes "claimUnpublished locked lim db = (r, db')"
  shows "db_tables db' = db_tables db" "db_now db' = db_now db"
    "r = Inr c \<Longrightarrow> c = new_claim (cl_entries c) \<and> set (cl_entries c) \<subseteq> set (unpublished (t_outbox (db_tables db)))"
proof -
  show "db_tables db' = db_tables db" "db_now db' = db_now db"
    using assms by (auto simp: claimUnpublished_def query_def stmt_def stmt_err_def bind_tx_def db_call_def return_tx_def split: if_splits)
  show "r = Inr c \<Longrightarrow> c = new_claim (cl_entries c) \<and> set (cl_entries c) \<subseteq> set (unpublished (t_outbox (db_tables db)))"
    using assms
    by (auto simp: claimUnpublished_def query_def stmt_def stmt_err_def bind_tx_def db_call_def return_tx_def new_claim_def
        split: if_splits dest!: in_set_takeD)
qed

text \<open>A poll marks nothing, or rows of the batch it claimed, each of which it has dealt with.\<close>

lemma poll_any:
  assumes "pollOnce cfg locked w = Returned (n, w')" and "\<forall>gs. mset (rl_shuffle w gs) = mset gs"
  shows "db_tables (rl_db w') = db_tables (rl_db w) \<or>
    (\<exists>B ids. set B \<subseteq> set (unpublished (t_outbox (db_tables (rl_db w)))) \<and> db_tables (rl_db w') = published_at ids w \<and>
       (\<forall>i \<in> ids. \<exists>x \<in> set B. ob_ID x = i \<and> accounted cfg w w' x))"
proof -
  obtain rc db1 where cl: "claimUnpublished locked (rc_BatchSize cfg) (rl_db w) = (rc, db1)" by (metis surj_pair)
  note c0 = claimUnpublished_any [OF cl]
  let ?w1 = "w\<lparr>rl_db := db1\<rparr>"
  have acc: "accounted cfg ?w1 w' x = accounted cfg w w' x" for x w' using c0(1) by (simp add: accounted_def sent_since_def)
  consider "w' = ?w1" | c where "rc = Inr c" "cl_entries c \<noteq> []" using assms(1) cl
    by (cases rc) (auto simp: pollOnce_def split: if_splits)
  then show ?thesis
  proof cases
    case 1
    with c0(1) show ?thesis by simp
  next
    case (2 c)
    let ?B = "cl_entries c"
    have c: "claim_of ?B c" "cl_marks c = {}" using c0(3) [OF 2(1)] 2(2) by (metis claim_of_def new_claim_def claim.select_convs(2,4))+
    obtain rd c1 w2 where d: "dispatchBatch cfg c ?w1 = Returned (rd, c1, w2)"
      using assms(1) cl 2 by (auto simp: pollOnce_def split: wait.splits)
    have "\<forall>gs. mset (rl_shuffle ?w1 gs) = mset gs" using assms(2) by simp
    from dispatch_any [OF d c this]
    have a: "grown ?w1 w2" "\<forall>i \<in> cl_marks c1. \<exists>x \<in> set ?B. ob_ID x = i \<and> accounted cfg w w2 x" by (auto simp: acc)
    have t2: "db_tables (rl_db w2) = db_tables (rl_db w)" "db_now (rl_db w2) = db_now (rl_db w)"
      using a(1) c0(1,2) by (simp_all add: grown_def)
    have w': "w' = w2 \<or> w' = w2\<lparr>rl_db := snd (claim_commit c1 (rl_db w2))\<rparr>"
      using assms(1) cl 2 d by (auto simp: pollOnce_def split: sum.splits)
    then have acc2: "accounted cfg w w' x = accounted cfg w w2 x" for x by (auto simp: accounted_def sent_since_def)
    obtain rr db3 where cc: "claim_commit c1 (rl_db w2) = (rr, db3)" by (metis surj_pair)
    have t: "db_tables (rl_db w') = db_tables (rl_db w) \<or> db_tables (rl_db w') = published_at (cl_marks c1) w"
      using claim_commit_any [OF cc] w' cc t2 by (auto simp: published_at_def)
    have "\<forall>i \<in> cl_marks c1. \<exists>x \<in> set ?B. ob_ID x = i \<and> accounted cfg w w' x" using a(2) acc2 by simp
    moreover have "set ?B \<subseteq> set (unpublished (t_outbox (db_tables (rl_db w))))" using c0(3) [OF 2(1)] by auto
    ultimately show ?thesis using t by blast
  qed
qed

text \<open>
  C18. Whatever calls to the database and writes to Kafka fail, a poll changes the tables only
  by marking rows published, and every row it marks was either sent during the poll to the
  partition resolved for its symbol, or belongs to an order that does not wait for a command.
\<close>

theorem relay_marks_only_sent:
  assumes "pollOnce cfg locked w = Returned (n, w')" and "\<forall>gs. mset (rl_shuffle w gs) = mset gs"
    and "outbox_keys (db_tables (rl_db w))"
  shows "\<exists>ids. db_tables (rl_db w') = published_at ids w \<and>
    (\<forall>x \<in> set (t_outbox (db_tables (rl_db w))). ob_ID x \<in> ids \<longrightarrow> ob_PublishedAt x = None \<and> accounted cfg w w' x)"
proof -
  have none: "published_at {} w = db_tables (rl_db w)" by (simp add: published_at_def mark_rows_def update_rows_def)
  from poll_any [OF assms(1,2)] none show ?thesis
  proof (elim disjE exE conjE)
    fix B ids
    assume B: "set B \<subseteq> set (unpublished (t_outbox (db_tables (rl_db w))))" and t: "db_tables (rl_db w') = published_at ids w"
      and a: "\<forall>i \<in> ids. \<exists>x \<in> set B. ob_ID x = i \<and> accounted cfg w w' x"
    have "ob_PublishedAt x = None \<and> accounted cfg w w' x" if x: "x \<in> set (t_outbox (db_tables (rl_db w)))" "ob_ID x \<in> ids" for x
    proof -
      from a x(2) obtain y where y: "y \<in> set B" "ob_ID y = ob_ID x" "accounted cfg w w' y" by blast
      have "y \<in> set (t_outbox (db_tables (rl_db w)))" "ob_PublishedAt y = None" using y(1) B by (auto simp: set_unpublished)
      moreover have "y = x" using assms(3) x(1) y(2) calculation(1) by (auto simp: outbox_keys_def distinct_map dest: inj_onD)
      ultimately show ?thesis using y(3) by simp
    qed
    with t show ?thesis by blast
  qed (auto intro: exI [of _ "{}"])
qed

text \<open>
  When a write to Kafka fails, the relay adds one to the retry counters of the group on
  another connection, whose rows its own claim holds locked: the call does not return, the
  other groups are not sent, and the counter that limits the retries never grows.
\<close>

theorem relay_write_failure_blocks:
  assumes "rl_writes w (rl_wpos w) = Broken n" and "db_calls (rl_db w) (db_pos (rl_db w)) \<noteq> Failed"
    and "live_claim c" and "set xs \<subseteq> set (cl_entries c)" and "xs \<noteq> []"
  shows "publishGroup c (k, xs) w = Blocked"
proof -
  obtain r w1 where b: "WriteBatchAt k (map ob_Payload xs) w = (r, w1)" by (metis surj_pair)
  moreover from b assms(1) have "r = Inl (ErrMsg ''kafka write'')" by (auto simp: WriteBatchAt_def Let_def split: prod.splits)
  moreover from assms(5) obtain x ys where "xs = x # ys" by (cases xs) auto
  ultimately show ?thesis using assms WriteBatchAt_log(2) [OF b]
    by (simp add: publishGroup_def store_IncrementRetry_def live_claim_def db_call_def)
qed

section \<open>Witnesses\<close>

definition wit_relay_order :: "uint64 \<Rightarrow> string \<Rightarrow> int order_row" where
  "wit_relay_order i s = \<lparr> or_ID = i, or_UserID = 1, or_ClientOrderID = ''c'', or_Symbol = ''BTC-USDT'', or_Side = 1,
     or_OrderType = 1, or_Price = Some 100, or_FreezePrice = None, or_FreezeSlippage = None, or_FrozenAmount = None,
     or_Quantity = 5, or_FilledQuantity = 0, or_Status = s, or_Version = 0, or_CreatedAt = 0, or_UpdatedAt = 0 \<rparr>"

definition wit_relay_row :: "uint64 \<Rightarrow> uint64 \<Rightarrow> outbox_row" where
  "wit_relay_row i agg = \<lparr> ob_ID = i, ob_AggregateID = agg, ob_EventType = EventNewOrderCommand, ob_Payload = [of_nat (unat i)],
     ob_Topic = ''cmd'', ob_PartitionKey = ''BTC-USDT'', ob_CreatedAt = 10 - int (unat i), ob_PublishedAt = None, ob_RetryCount = 0 \<rparr>"

text \<open>Order 2 was accepted while its command waited, order 3 is new, order 1 is being cancelled.\<close>

definition wit_relay_tables :: "int tables" where
  "wit_relay_tables = \<lparr> t_orders = [wit_relay_order 1 Canceling, wit_relay_order 2 Accepted, wit_relay_order 3 Pending],
     t_idem = Map.empty, t_outbox = [wit_relay_row 3 1, wit_relay_row 2 2, wit_relay_row 1 3],
     t_trades = [], t_balances = [], t_processed = {}, t_adjusted = {} \<rparr>"

definition wit_relay :: "(nat \<Rightarrow> write_outcome) \<Rightarrow> int relay" where
  "wit_relay writes = \<lparr> rl_db = \<lparr> db_tables = wit_relay_tables, db_nextOrder = 4, db_nextOutbox = 4, db_now = 7,
       db_calls = (\<lambda>_. Done), db_pos = 0 \<rparr>,
     rl_log = (\<lambda>_. []), rl_writes = writes, rl_wpos = 0, rl_shuffle = (\<lambda>gs. gs) \<rparr>"

definition wit_relay_cfg :: relay_config where
  "wit_relay_cfg = \<lparr> rc_PollInterval = 1, rc_BatchSize = 2, rc_MaxRetry = 100, rc_Workers = 1, rc_Partition = 0, rc_Resolver = None \<rparr>"

lemma wit_relay_keys: "outbox_keys wit_relay_tables"
  by (simp add: outbox_keys_def wit_relay_tables_def wit_relay_row_def)

lemma wit_relay_status:
  "row_status wit_relay_tables (wit_relay_row 3 1) = Some Canceling"
  "row_status wit_relay_tables (wit_relay_row 2 2) = Some Accepted"
  "row_status wit_relay_tables (wit_relay_row 1 3) = Some Pending"
  by (simp_all add: row_status_def wit_relay_tables_def wit_relay_row_def wit_relay_order_def)

lemma wit_relay_dest:
  "dest wit_relay_cfg (row_status wit_relay_tables) (wit_relay_row 3 1) = Some (''cmd'', 0, ''BTC-USDT'')"
  "dest wit_relay_cfg (row_status wit_relay_tables) (wit_relay_row 2 2) = None"
  "dest wit_relay_cfg (row_status wit_relay_tables) (wit_relay_row 1 3) = Some (''cmd'', 0, ''BTC-USDT'')"
  "skipped (row_status wit_relay_tables) (wit_relay_row 2 2)"
  by (simp_all add: dest_def skipped_def wit_relay_status isSendableStatus_def Accepted_def Pending_def Canceling_def)
     (simp_all add: wit_relay_row_def wit_relay_cfg_def resolvePartition_def)

lemma wit_relay_waiting: "unpublished (t_outbox wit_relay_tables) = [wit_relay_row 3 1, wit_relay_row 2 2, wit_relay_row 1 3]"
  by (simp add: unpublished_def wit_relay_tables_def wit_relay_row_def)

theorem relay_drains_witness:
  "\<exists>w'. relay_burst wit_relay_cfg (wit_relay (\<lambda>_. Written)) = Some (Returned w') \<and>
    key_log w' (''cmd'', 0, ''BTC-USDT'') = [[3], [1]]"
proof -
  let ?w = "wit_relay (\<lambda>_. Written)"
  have t: "db_tables (rl_db ?w) = wit_relay_tables" by (simp add: wit_relay_def)
  have "deliverable wit_relay_cfg wit_relay_tables"
    by (simp add: deliverable_def handled_def wit_relay_tables_def [THEN arg_cong [of _ _ t_outbox]] wit_relay_dest)
  then obtain w' where w': "relay_burst wit_relay_cfg ?w = Some (Returned w')"
    "\<forall>k. key_log w' k = key_log ?w k @ map ob_Payload
       (filter (\<lambda>x. dest wit_relay_cfg (row_status wit_relay_tables) x = Some k) (unpublished (t_outbox wit_relay_tables)))"
    using relay_drains [of ?w wit_relay_cfg] wit_relay_keys t
    by (auto simp: no_faults_def wit_relay_def wit_relay_cfg_def)
  have "key_log w' (''cmd'', 0, ''BTC-USDT'') = [[3], [1]]"
    using w'(2) [rule_format, of "(''cmd'', 0, ''BTC-USDT'')"] unfolding wit_relay_waiting
    by (simp add: wit_relay_dest) (simp add: key_log_def with_key_def wit_relay_def wit_relay_row_def)
  with w'(1) show ?thesis by blast
qed

theorem relay_marks_only_sent_witness:
  "\<exists>w'. pollOnce wit_relay_cfg {} (wit_relay (\<lambda>_. Written)) = Returned (2, w') \<and>
    (\<exists>ids. db_tables (rl_db w') = published_at ids (wit_relay (\<lambda>_. Written)) \<and>
      (\<forall>x \<in> set (t_outbox wit_relay_tables). ob_ID x \<in> ids \<longrightarrow>
         ob_PublishedAt x = None \<and> accounted wit_relay_cfg (wit_relay (\<lambda>_. Written)) w' x))"
proof -
  let ?w = "wit_relay (\<lambda>_. Written)"
  have t: "db_tables (rl_db ?w) = wit_relay_tables" by (simp add: wit_relay_def)
  have "no_faults ?w" by (simp add: no_faults_def wit_relay_def)
  from poll_ok [OF this _ refl refl, of wit_relay_cfg]
  obtain w' where w': "pollOnce wit_relay_cfg {} ?w = Returned (2, w')"
    by (auto simp: wit_relay_cfg_def [THEN arg_cong [of _ _ rc_BatchSize]] t wit_relay_waiting handled_def wit_relay_dest)
  from relay_marks_only_sent [OF w'] have "\<exists>ids. db_tables (rl_db w') = published_at ids ?w \<and>
      (\<forall>x \<in> set (t_outbox wit_relay_tables). ob_ID x \<in> ids \<longrightarrow> ob_PublishedAt x = None \<and> accounted wit_relay_cfg ?w w' x)"
    using wit_relay_keys t by (simp add: wit_relay_def)
  with w' show ?thesis by blast
qed

text \<open>
  A cancellation is lost: the late event that order 1 was accepted moves it from CANCELING to
  ACCEPTED, so the relay marks its cancel command (row 3) published without sending it.
\<close>

definition late_accept :: match_apply where
  "late_accept = \<lparr> me_OrderID = 1, me_Symbol = ''BTC-USDT'', me_EventType = MatchOrderAccepted, me_WalSeq = 9, me_FilledQuantity = None \<rparr>"

definition after_late_accept :: "int relay" where
  "after_late_accept = (let w = wit_relay (\<lambda>_. Written)
     in w\<lparr>rl_db := snd (ApplyMatchEvent \<lparr> de_libs = int_libs, de_numeric = int_to_string, de_assets = None \<rparr> late_accept (rl_db w))\<rparr>)"

theorem cancel_lost_example:
  "case pollOnce (wit_relay_cfg\<lparr>rc_BatchSize := 50\<rparr>) {} after_late_accept of
     Returned (n, w') \<Rightarrow> map ob_PublishedAt (t_outbox (db_tables (rl_db w'))) = [Some 7, Some 7, Some 7] \<and>
                        rl_log w' (''cmd'', 0) = [\<lparr> ms_key = ''BTC-USDT'', ms_value = [1] \<rparr>]
   | Blocked \<Rightarrow> False"
  by code_simp

end
