(* ===== verification/Reconciler.thy ===== *)
theory Reconciler
  imports RepoSafety
begin

text \<open>
  Model of \<open>internal/order/reconciler\<close> (\<open>scheduler.go\<close>, \<open>matching.go\<close>): what each tick does
  to orders that wait too long. The ticker is outside; the answers of the matching service
  during a tick are a parameter.
\<close>

section \<open>Configuration\<close>

record reconciler_config =
  rf_Enabled :: bool
  rf_Interval :: int
  rf_BatchSize :: int
  rf_PendingAcceptTimeout :: int
  rf_CancelConfirmTimeout :: int
  rf_OutboxStaleWarn :: int
  rf_CommandTopic :: string

definition seconds :: "int \<Rightarrow> int" where
  "seconds n = n * 1000000000"

definition rec_normalizedConfig :: "reconciler_config \<Rightarrow> reconciler_config" where
  "rec_normalizedConfig c = c\<lparr>
     rf_Interval := (if rf_Interval c \<le> 0 then seconds 60 else rf_Interval c),
     rf_BatchSize := (if rf_BatchSize c \<le> 0 then 50 else rf_BatchSize c),
     rf_PendingAcceptTimeout := (if rf_PendingAcceptTimeout c \<le> 0 then seconds 60 else rf_PendingAcceptTimeout c),
     rf_CancelConfirmTimeout := (if rf_CancelConfirmTimeout c \<le> 0 then seconds 30 else rf_CancelConfirmTimeout c),
     rf_OutboxStaleWarn := (if rf_OutboxStaleWarn c \<le> 0 then seconds 30 else rf_OutboxStaleWarn c)\<rparr>"

definition ORDER_PRESENCE_IN_ORDERBOOK :: int where "ORDER_PRESENCE_IN_ORDERBOOK = 2"
definition ORDER_PRESENCE_KNOWN_NOT_IN_ORDERBOOK :: int where "ORDER_PRESENCE_KNOWN_NOT_IN_ORDERBOOK = 3"

definition shouldRejectAfterMatching :: "int \<Rightarrow> bool" where
  "shouldRejectAfterMatching p \<longleftrightarrow>
     \<not> (p = ORDER_PRESENCE_IN_ORDERBOOK \<or> p = ORDER_PRESENCE_KNOWN_NOT_IN_ORDERBOOK)"

section \<open>A tick\<close>

text \<open>\<open>GetOrderPresence\<close> of each order; \<open>None\<close> when no matching client is configured.\<close>

type_synonym matching_admin = "(string \<Rightarrow> uint64 \<Rightarrow> err + int) option"

definition may_reject :: "matching_admin \<Rightarrow> uint64 \<times> string \<Rightarrow> bool" where
  "may_reject M o1 =
     (case M of
        None \<Rightarrow> True
      | Some f \<Rightarrow> (case f (snd o1) (fst o1) of Inl _ \<Rightarrow> False | Inr p \<Rightarrow> shouldRejectAfterMatching p))"

text \<open>An error of one order is logged and the loop goes on.\<close>

definition try_tx :: "('d, 'a) tx \<Rightarrow> ('d, unit) tx" where
  "try_tx m db = (Inr (), snd (m db))"

fun reject_orders ::
  "('d::linordered_idom) denv \<Rightarrow> env_codec \<Rightarrow> matching_admin \<Rightarrow> string \<Rightarrow> (uint64 \<times> string) list \<Rightarrow> ('d, unit) tx" where
  "reject_orders D C M topic [] = return_tx ()"
| "reject_orders D C M topic (o1 # os) =
     (if may_reject M o1
      then bind_tx (try_tx (RejectStalePending D C (fst o1) topic)) (\<lambda>_. reject_orders D C M topic os)
      else reject_orders D C M topic os)"

definition rejectStalePending ::
  "('d::linordered_idom) denv \<Rightarrow> env_codec \<Rightarrow> matching_admin \<Rightarrow> reconciler_config \<Rightarrow> time \<Rightarrow> ('d, unit) tx" where
  "rejectStalePending D C M cfg t0 =
     bind_tx (FindStalePendingForReject (t0 - rf_PendingAcceptTimeout cfg) (rf_BatchSize cfg))
       (reject_orders D C M (rf_CommandTopic cfg))"

fun resend_cancels :: "'d denv \<Rightarrow> env_codec \<Rightarrow> string \<Rightarrow> uint64 list \<Rightarrow> ('d, unit) tx" where
  "resend_cancels D C topic [] = return_tx ()"
| "resend_cancels D C topic (i # is) =
     bind_tx (try_tx (ResendCancelCommand D C i topic)) (\<lambda>_. resend_cancels D C topic is)"

definition resendStuckCancel :: "'d denv \<Rightarrow> env_codec \<Rightarrow> reconciler_config \<Rightarrow> time \<Rightarrow> ('d, unit) tx" where
  "resendStuckCancel D C cfg t0 =
     bind_tx (FindStuckCancelingForResend (t0 - rf_CancelConfirmTimeout cfg) (rf_BatchSize cfg))
       (resend_cancels D C (rf_CommandTopic cfg))"

definition warnStaleOutbox :: "reconciler_config \<Rightarrow> time \<Rightarrow> ('d, unit) tx" where
  "warnStaleOutbox cfg t0 = try_tx (CountStaleUnpublishedOutbox (t0 - rf_OutboxStaleWarn cfg))"

definition tick ::
  "('d::linordered_idom) denv \<Rightarrow> env_codec \<Rightarrow> matching_admin \<Rightarrow> reconciler_config \<Rightarrow> time \<Rightarrow> ('d, unit) tx" where
  "tick D C M cfg t0 =
     bind_tx (warnStaleOutbox cfg t0)
       (\<lambda>_. bind_tx (try_tx (rejectStalePending D C M cfg t0))
       (\<lambda>_. try_tx (resendStuckCancel D C cfg t0)))"

section \<open>A tick keeps what the operations keep\<close>

lemma keeps_try [inv_intros]: "tx_keeps I m \<Longrightarrow> tx_keeps I (try_tx m)"
  by (simp add: tx_keeps_def try_tx_def)

lemma keeps_reject_orders:
  "(\<And>o1. o1 \<in> set os \<Longrightarrow> may_reject M o1 \<Longrightarrow> tx_keeps I (RejectStalePending D C (fst o1) topic)) \<Longrightarrow>
   tx_keeps I (reject_orders D C M topic os)"
  by (induction os) (auto intro: inv_intros)

context order_tables begin

lemma keeps_tick: "tx_keeps I (tick D C M cfg t0)"
proof -
  have "tx_keeps I (resend_cancels D C topic is)" for topic "is" by (induction "is") (auto intro: inv_intros)
  moreover have "tx_keeps I (reject_orders D C M topic os)" for topic os
    by (intro keeps_reject_orders keeps_RejectStalePending)
  ultimately show ?thesis
    unfolding tick_def warnStaleOutbox_def rejectStalePending_def resendStuckCancel_def
      CountStaleUnpublishedOutbox_def FindStalePendingForReject_def FindStuckCancelingForResend_def
    by (intro inv_intros)
qed

end

section \<open>What a tick rejects\<close>

definition not_rejected :: "uint64 \<Rightarrow> 'd tables \<Rightarrow> bool" where
  "not_rejected k t \<longleftrightarrow> (\<forall>r \<in> set (t_orders t). or_ID r = k \<longrightarrow> or_Status r \<noteq> Rejected)"

lemma not_rejected_orders: "t_orders t' = t_orders t \<Longrightarrow> not_rejected k t' = not_rejected k t"
  by (simp add: not_rejected_def)

lemma keeps_get:
  fixes I :: "'a tables \<Rightarrow> bool"
  shows "(\<And>od. po_ID od = i \<Longrightarrow> tx_keeps I (f od)) \<Longrightarrow> tx_keeps I (bind_tx (getOrderForUpdate D i) f)"
  unfolding tx_keeps_def
proof (intro allI impI)
  fix db :: "'a db" assume f: "\<And>od. po_ID od = i \<Longrightarrow> \<forall>db. I (db_tables db) \<longrightarrow> I (db_tables (snd (f od db)))" and I: "I (db_tables db)"
  obtain r db1 where g: "getOrderForUpdate D i db = (r, db1)" by (metis surj_pair)
  have t: "db_tables db1 = db_tables db" using g
    by (auto simp: getOrderForUpdate_def query_def stmt_def stmt_err_def bind_tx_def db_call_def return_tx_def fail_tx_def
        split: if_splits option.splits)
  show "I (db_tables (snd (bind_tx (getOrderForUpdate D i) f db)))"
  proof (cases r)
    case (Inl e)
    with g t I show ?thesis by (simp add: bind_tx_def)
  next
    case (Inr od)
    from g Inr obtain row where "or_ID row = i" "od = scanOrder D row" using getOrderForUpdate_InrE by (metis (no_types))
    then have "po_ID od = i" by (simp add: scanOrder_def)
    with f [OF this] g Inr t I show ?thesis by (simp add: bind_tx_def)
  qed
qed

lemma keeps_reject_other:
  fixes D :: "('d::linordered_idom) denv"
  assumes "i \<noteq> k"
  shows "tx_keeps (not_rejected k) (RejectStalePending D C i tp)"
proof -
  let ?I = "not_rejected k :: 'd tables \<Rightarrow> bool"
  have upd: "?I t'" if "?I t" "update_orders (\<lambda>r. or_ID r = i \<and> Q r) g t0 t = (n, t')" "\<And>r. or_ID (g r) = or_ID r"
    for t t' :: "'d tables" and Q g t0 n
  proof -
    have t': "t_orders t' = map (\<lambda>r. if or_ID r = i \<and> Q r then g (r\<lparr>or_Version := or_Version r + 1, or_UpdatedAt := t0\<rparr>) else r) (t_orders t)"
      using that(2) by (auto simp: update_orders_def update_rows_def)
    show ?thesis using that(1) assms unfolding not_rejected_def t' by (auto simp: that(3))
  qed
  have bal: "?I (snd (update_balances P g t))" if "?I t" for t P g
    using that by (auto simp: not_rejected_def update_balances_def update_rows_def)
  have rel: "tx_keeps ?I (releaseFunds u a x)" for u a x
    unfolding releaseFunds_def by (intro inv_intros keeps_stmt bal)
  have rel2: "tx_keeps ?I (releaseOrderRemainingFreeze D od)" for od
    unfolding releaseOrderRemainingFreeze_def by (intro inv_intros rel)
  have out: "tx_keeps ?I (insertCancelOutbox C od tp)" for od
  proof -
    have "tx_keeps ?I (stmt_err ''insert outbox'' (insert_outbox r))" for r
      by (rule keeps_stmt_err) (auto simp: insert_outbox_def not_rejected_def split: if_splits)
    then have "tx_keeps ?I (insertOutboxRow j g e p tp key)" for j g e p tp key by (simp add: tx_keeps_def insertOutboxRow_def)
    moreover have "tx_keeps ?I allocateOutboxID" by (simp add: tx_keeps_def allocateOutboxID_def db_call_def Let_def)
    ultimately show ?thesis unfolding insertCancelOutbox_def by (intro inv_intros)
  qed
  have tr: "tx_keeps ?I (transitionOrderStatus D od Rejected None)" if "po_ID od = i" for od
  proof -
    have "tx_keeps ?I (stmt_err w (transition_rows L od Rejected None t0))" for w L t0
      by (rule keeps_stmt_err) (auto simp: transition_rows_def that split: option.splits prod.splits elim!: upd)
    then have "tx_keeps ?I (bind_tx (stmt_err w (transition_rows L od Rejected None t0))
      (\<lambda>n. if n = 1 then return_tx True
           else bind_tx (getOrderForUpdate D (po_ID od))
             (\<lambda>cur. if po_Status cur = Rejected \<or> IsTerminal (po_Status cur)
                    then bind_tx (updateFilledQuantity D (po_ID cur) (po_Version cur) None) (\<lambda>_. return_tx True)
                    else return_tx False)))" for w L t0
      unfolding updateFilledQuantity_def getOrderForUpdate_def by (intro inv_intros) (simp_all add: tx_keeps_def)
    then show ?thesis by (simp add: tx_keeps_def transitionOrderStatus_def)
  qed
  have get: "tx_keeps ?I (getOrderForUpdate D j)" for j unfolding getOrderForUpdate_def by (intro inv_intros)
  show ?thesis unfolding RejectStalePending_def
    by (intro keeps_transaction keeps_get keeps_if keeps_bind keeps_return tr rel2 out get)
qed

text \<open>
  A tick sets an order REJECTED only when it was PENDING and untouched for the timeout with
  its command published, and the matching service, if configured, does not know it.
\<close>

theorem reconciler_rejects_stale_only:
  assumes "rejectStalePending D C M cfg t0 db = (r, db')" and "not_rejected k (db_tables db)" and "\<not> not_rejected k (db_tables db')"
  shows "\<exists>row \<in> set (t_orders (db_tables db)). or_ID row = k \<and> or_Status row = Pending \<and>
    or_UpdatedAt row < t0 - rf_PendingAcceptTimeout cfg \<and> has_outbox k EventNewOrderCommand True (db_tables db) \<and>
    may_reject M (k, or_Symbol row)"
proof (rule ccontr)
  assume none: "\<not> ?thesis"
  obtain rf db1 where f: "FindStalePendingForReject (t0 - rf_PendingAcceptTimeout cfg) (rf_BatchSize cfg) db = (rf, db1)" by (metis surj_pair)
  have t1: "db_tables db1 = db_tables db" using f
    by (auto simp: FindStalePendingForReject_def query_def stmt_def stmt_err_def db_call_def split: if_splits)
  show False
  proof (cases rf)
    case (Inl e)
    with f assms t1 show False by (simp add: rejectStalePending_def bind_tx_def)
  next
    case (Inr os)
    have os: "\<exists>row \<in> set (t_orders (db_tables db)). o1 = (or_ID row, or_Symbol row) \<and> or_Status row = Pending \<and>
        or_UpdatedAt row < t0 - rf_PendingAcceptTimeout cfg \<and> has_outbox (or_ID row) EventNewOrderCommand True (db_tables db)"
      if "o1 \<in> set os" for o1
      using f Inr that
      by (auto simp: FindStalePendingForReject_def query_def stmt_def stmt_err_def db_call_def split: if_splits dest!: in_set_takeD)
    have "tx_keeps (not_rejected k) (reject_orders D C M (rf_CommandTopic cfg) os)"
      using none os by (intro keeps_reject_orders keeps_reject_other) fastforce
    moreover have "db' = snd (reject_orders D C M (rf_CommandTopic cfg) os db1)"
      using assms(1) f Inr by (simp add: rejectStalePending_def bind_tx_def)
    ultimately show False using assms(2,3) t1 by (simp add: tx_keeps_def)
  qed
qed

end
