(* ===== verification/EventOutbox.thy ===== *)
theory EventOutbox
  imports WalDurable
begin

text \<open>
  Model of \<open>pkg/eventoutbox\<close>: the local log of events that wait to be sent to Kafka. Its
  writer is the one of \<open>pkg/wal/writer.go\<close> with other file names, so the segment files, the
  buffer and the sync policy are those of theory \<open>WalFile\<close>; the records and the reader differ.
\<close>

section \<open>Records\<close>

definition TopicMatch :: byte where "TopicMatch = 1"
definition TopicTrade :: byte where "TopicTrade = 2"

record event =
  ev_WalSeq :: uint64
  ev_Timestamp :: uint64
  ev_TopicID :: byte
  ev_KafkaPartition :: uint32
  ev_KafkaOffset :: uint64
  ev_PartitionKey :: string
  ev_Payload :: bytes

record eo_record = event +
  eo_OutboxSeq :: uint64

definition eo_NewRecord ::
  "uint64 \<Rightarrow> uint64 \<Rightarrow> byte \<Rightarrow> uint32 \<Rightarrow> uint64 \<Rightarrow> string \<Rightarrow> bytes \<Rightarrow> time \<Rightarrow> clock \<Rightarrow> eo_record \<times> clock" where
  "eo_NewRecord outboxSeq walSeq topicID part off key payload ts0 clk =
     (let (ts, clk') = (if ts0 = 0 then now clk else (ts0, clk))
      in (\<lparr> ev_WalSeq = walSeq, ev_Timestamp = word_of_int (unix_nano ts), ev_TopicID = topicID, ev_KafkaPartition = part,
            ev_KafkaOffset = off, ev_PartitionKey = key, ev_Payload = payload, eo_OutboxSeq = outboxSeq \<rparr>, clk'))"

definition eo_headerFixed :: nat where "eo_headerFixed = 8 + 8 + 8 + 1 + 4 + 8 + 2"
definition eo_minBodyLen :: nat where "eo_minBodyLen = eo_headerFixed + 4"

definition eo_bodyLen :: "eo_record \<Rightarrow> nat" where
  "eo_bodyLen r = eo_headerFixed + length (ev_PartitionKey r) + length (ev_Payload r) + 4"

definition key_bytes :: "string \<Rightarrow> bytes" where
  "key_bytes s = map (\<lambda>c. of_nat (of_char c)) s"

definition bytes_key :: "bytes \<Rightarrow> string" where
  "bytes_key bs = map (\<lambda>b. char_of (unat b)) bs"

definition eo_head :: "eo_record \<Rightarrow> bytes" where
  "eo_head r =
     le_bytes 8 (eo_OutboxSeq r) @ le_bytes 8 (ev_WalSeq r) @ le_bytes 8 (ev_Timestamp r) @ [ev_TopicID r] @
     le_bytes 4 (ev_KafkaPartition r) @ le_bytes 8 (ev_KafkaOffset r) @
     le_bytes 2 (of_nat (length (ev_PartitionKey r)) :: 16 word) @ key_bytes (ev_PartitionKey r) @ ev_Payload r"

definition eo_encodeInto :: "eo_record \<Rightarrow> bytes \<Rightarrow> err + bytes" where
  "eo_encodeInto r frame =
     (if recordMaxBodyLen < eo_bodyLen r then Inl (ErrMsg ''eventoutbox: record body too large'')
      else if length frame < recordLenSize + eo_bodyLen r then Inl (ErrMsg ''eventoutbox: frame buffer too short'')
      else Inr (le_bytes 4 (of_nat (eo_bodyLen r) :: uint32) @ eo_head r @ le_bytes 4 (crc32_ieee (eo_head r)) @
                drop (recordLenSize + eo_bodyLen r) frame))"

definition eo_Encode :: "eo_record \<Rightarrow> err + bytes" where
  "eo_Encode r = eo_encodeInto r (replicate (recordLenSize + eo_bodyLen r) 0)"

definition eo_decodeBody :: "bytes \<Rightarrow> err + eo_record" where
  "eo_decodeBody body =
     (if length body < eo_minBodyLen then Inl ErrRecordTooShort
      else (let keyLen = unat (of_le_bytes (take 2 (drop 37 body)) :: 16 word);
                off = eo_headerFixed + keyLen;
                payloadEnd = length body - 4
            in if length body < off + 4 then Inl ErrRecordTooShort
               else if payloadEnd < off then Inl ErrRecordTooShort
               else if of_le_bytes (take 4 (drop payloadEnd body)) \<noteq> crc32_ieee (take payloadEnd body) then Inl ErrCRCMismatch
               else Inr \<lparr> ev_WalSeq = of_le_bytes (take 8 (drop 8 body)), ev_Timestamp = of_le_bytes (take 8 (drop 16 body)),
                          ev_TopicID = body ! 24, ev_KafkaPartition = of_le_bytes (take 4 (drop 25 body)),
                          ev_KafkaOffset = of_le_bytes (take 8 (drop 29 body)),
                          ev_PartitionKey = bytes_key (take keyLen (drop eo_headerFixed body)),
                          ev_Payload = drop off (take payloadEnd body), eo_OutboxSeq = of_le_bytes (take 8 body) \<rparr>))"

definition eo_DecodeRecord :: "bytes \<Rightarrow> err + eo_record" where
  "eo_DecodeRecord frame =
     (if length frame < recordLenSize + eo_minBodyLen then Inl ErrRecordTooShort
      else (let bodyLen = frame_len frame
            in if bodyLen < eo_minBodyLen \<or> recordMaxBodyLen < bodyLen then Inl ErrInvalidLength
               else if length frame < recordLenSize + bodyLen then Inl ErrRecordTooShort
               else eo_decodeBody (take bodyLen (drop recordLenSize frame))))"

definition eo_ReadRecord :: "bytes \<Rightarrow> (err + eo_record) \<times> bytes" where
  "eo_ReadRecord s =
     (case ReadFull recordLenSize s of
        (Inl e, s1) \<Rightarrow> (Inl e, s1)
      | (Inr lenBuf, s1) \<Rightarrow>
          (let bodyLen = frame_len lenBuf
           in if bodyLen < eo_minBodyLen \<or> recordMaxBodyLen < bodyLen then (Inl ErrInvalidLength, s1)
              else (case ReadFull bodyLen s1 of
                      (Inl e, s2) \<Rightarrow> (Inl e, s2)
                    | (Inr body, s2) \<Rightarrow> (eo_decodeBody body, s2))))"

section \<open>The writer\<close>

definition eo_appendLocked :: "eo_record \<Rightarrow> wstate \<Rightarrow> err option \<times> wstate" where
  "eo_appendLocked rec0 st =
     (let (w, d, clk) = st;
          rec = (if eo_OutboxSeq rec0 = 0 then rec0\<lparr>eo_OutboxSeq := w_lastSeq w + 1\<rparr> else rec0)
      in if w_closed w then (Some ErrWriterClosed, st)
         else if w_lastSeq w \<noteq> 0 \<and> eo_OutboxSeq rec \<le> w_lastSeq w then (Some ErrNonMonotonic, st)
         else (case eo_encodeInto rec (replicate (recordLenSize + eo_bodyLen rec) 0) of
                 Inl e \<Rightarrow> (Some e, st)
               | Inr frame \<Rightarrow> write_frame (eo_OutboxSeq rec) frame st))"

definition eo_Append :: "eo_record \<Rightarrow> wstate \<Rightarrow> err option \<times> wstate" where
  "eo_Append rec st = eo_appendLocked rec st"

definition eo_AppendNext :: "eo_record \<Rightarrow> wstate \<Rightarrow> (err + uint64) \<times> wstate" where
  "eo_AppendNext rec st =
     (let (w, d, clk) = st
      in if w_closed w then (Inl ErrWriterClosed, st)
         else (let seq = w_lastSeq w + 1
               in case eo_appendLocked (rec\<lparr>eo_OutboxSeq := seq\<rparr>) st of
                    (Some e, st1) \<Rightarrow> (Inl e, st1)
                  | (None, st1) \<Rightarrow> (Inr seq, st1)))"

definition eo_Sync :: "wstate \<Rightarrow> err option \<times> wstate" where
  "eo_Sync st = maybeSyncLocked True st"

text \<open>Reading a segment to its end: the records and the error that stopped it, if any.\<close>

lemma eo_ReadRecord_consumes: "eo_ReadRecord s = (Inr r, s') \<Longrightarrow> length s' < length s"
  by (auto simp: eo_ReadRecord_def ReadFull_def recordLenSize_def Let_def eo_minBodyLen_def eo_headerFixed_def split: if_splits)

function eo_scan :: "bytes \<Rightarrow> eo_record list \<times> err option" where
  "eo_scan s =
     (case eo_ReadRecord s of
        (Inl e, s') \<Rightarrow> ([], if e = ErrEOF then None else Some e)
      | (Inr r, s') \<Rightarrow> (let (rs, e) = eo_scan s' in (r # rs, e)))"
  by pat_completeness auto
termination
  by (relation "measure length") (auto dest: eo_ReadRecord_consumes [OF sym])

declare eo_scan.simps [simp del]

definition eo_scanLastSeq :: "bytes \<Rightarrow> err + uint64" where
  "eo_scanLastSeq data =
     (case eo_scan data of
        (rs, Some e) \<Rightarrow> Inl e
      | (rs, None) \<Rightarrow> Inr (fold (\<lambda>r _. eo_OutboxSeq r) rs 0))"

definition eo_OpenFileWriter :: "string \<Rightarrow> writer_config \<Rightarrow> disk \<times> clock \<Rightarrow> (err + file_writer) \<times> disk \<times> clock" where
  "eo_OpenFileWriter dir cfg0 dc =
     (let (d0, clk0) = dc
      in if dir = '''' then (Inl (ErrMsg ''eventoutbox: directory is required''), d0, clk0)
         else
           (let bufSize = (if WriteBufferSize cfg0 \<le> 0 then 64 * 1024 else nat (WriteBufferSize cfg0));
                cfg1 = (if MaxSegmentBytes cfg0 = 0 then cfg0\<lparr>MaxSegmentBytes := 100 * 1024 * 1024\<rparr> else cfg0);
                cfg = (if SyncEveryRecords cfg1 \<le> 0 then cfg1\<lparr>SyncEveryRecords := 1\<rparr> else cfg1);
                (ok, d1) = os_call d0
            in if \<not> ok then (Inl ErrIO, d1, clk0)
               else
                 (let (t, clk1) = now clk0;
                      w = \<lparr> w_cfg = cfg, w_file = False, w_fd = False, w_buf = None, w_buf_err = False,
                            w_segment = 0, w_lastSeq = 0, w_lastDurableSeq = 0, w_written = 0,
                            w_closed = False, w_writeBufferSize = bufSize, w_recordsSinceSync = 0,
                            w_lastSyncAt = t \<rparr>
                  in case openSegment (latestSegment d1) (w, d1, clk1) of
                       (Some e, w1, d2, clk2) \<Rightarrow> (Inl e, d2, clk2)
                     | (None, w1, d2, clk2) \<Rightarrow>
                         (case eo_scanLastSeq (seg_data (w_segment w1) d2) of
                            Inl e \<Rightarrow> (let (e2, w3, d3, clk3) = closeFileLocked (w1, d2, clk2) in (Inl e, d3, clk3))
                          | Inr lastSeq \<Rightarrow>
                              (Inr (w1\<lparr>w_lastSeq := lastSeq, w_lastDurableSeq := lastSeq,
                                       w_written := int (length (seg_data (w_segment w1) d2))\<rparr>), d2, clk2)))))"

section \<open>The reader\<close>

record eo_reader =
  er_paths :: "bytes list"
  er_file :: "bytes option"

definition OpenReader :: "disk \<Rightarrow> eo_reader" where
  "OpenReader d = \<lparr> er_paths = SegmentPaths d, er_file = None \<rparr>"

definition er_size :: "eo_reader \<Rightarrow> nat" where
  "er_size r = sum_list (map (\<lambda>p. Suc (Suc (length p))) (er_paths r)) + (case er_file r of None \<Rightarrow> 0 | Some s \<Rightarrow> Suc (length s))"

function ReadNext :: "eo_reader \<Rightarrow> (err + eo_record) \<times> eo_reader" where
  "ReadNext r =
     (case er_file r of
        None \<Rightarrow>
          (case er_paths r of
             [] \<Rightarrow> (Inl ErrEOF, r)
           | p # ps \<Rightarrow> ReadNext (r\<lparr>er_paths := ps, er_file := Some p\<rparr>))
      | Some s \<Rightarrow>
          (case eo_ReadRecord s of
             (Inr rec, s') \<Rightarrow> (Inr rec, r\<lparr>er_file := Some s'\<rparr>)
           | (Inl e, s') \<Rightarrow> if e \<noteq> ErrEOF then (Inl e, r\<lparr>er_file := Some s'\<rparr>) else ReadNext (r\<lparr>er_file := None\<rparr>)))"
  by pat_completeness auto
termination
  by (relation "measure er_size") (auto simp: er_size_def)

declare ReadNext.simps [simp del]

lemma ReadNext_smaller: "ReadNext r = (Inr x, r') \<Longrightarrow> er_size r' < er_size r"
proof (induction "er_size r" arbitrary: r rule: less_induct)
  case less
  show ?case
  proof (cases "er_file r")
    case None
    with less.prems obtain p ps where p: "er_paths r = p # ps" by (cases "er_paths r") (simp_all add: ReadNext.simps [of r])
    let ?r = "r\<lparr>er_paths := ps, er_file := Some p\<rparr>"
    have "ReadNext ?r = (Inr x, r')" using less.prems None p by (simp add: ReadNext.simps [of r])
    moreover have "er_size ?r < er_size r" using None p by (simp add: er_size_def)
    ultimately show ?thesis using less.hyps by fastforce
  next
    case (Some s)
    obtain q s' where q: "eo_ReadRecord s = (q, s')" by fastforce
    show ?thesis
    proof (cases q)
      case (Inl e)
      then have "ReadNext (r\<lparr>er_file := None\<rparr>) = (Inr x, r')"
        using less.prems Some q by (simp add: ReadNext.simps [of r] split: if_splits)
      moreover have "er_size (r\<lparr>er_file := None\<rparr>) < er_size r" using Some by (simp add: er_size_def)
      ultimately show ?thesis using less.hyps by fastforce
    next
      case (Inr y)
      then have "r' = r\<lparr>er_file := Some s'\<rparr>" using less.prems Some q by (simp add: ReadNext.simps [of r])
      with eo_ReadRecord_consumes [of s y s'] Inr q Some show ?thesis by (simp add: er_size_def)
    qed
  qed
qed

function fetch_loop :: "uint64 \<Rightarrow> nat \<Rightarrow> eo_reader \<Rightarrow> eo_record list \<Rightarrow> err + eo_record list" where
  "fetch_loop afterSeq lim r out =
     (if lim \<le> length out then Inr out
      else (case ReadNext r of
              (Inl e, _) \<Rightarrow> if e = ErrEOF then Inr out else Inl e
            | (Inr rec, r1) \<Rightarrow>
                if eo_OutboxSeq rec \<le> afterSeq then fetch_loop afterSeq lim r1 out
                else fetch_loop afterSeq lim r1 (out @ [rec])))"
  by pat_completeness auto
termination
  by (relation "measure (\<lambda>(_, _, r, _). er_size r)") (auto dest: ReadNext_smaller [OF sym])

declare fetch_loop.simps [simp del]

definition eo_FetchUnpublished :: "disk \<Rightarrow> uint64 \<Rightarrow> int \<Rightarrow> err + eo_record list" where
  "eo_FetchUnpublished d afterSeq lim = fetch_loop afterSeq (nat (if lim \<le> 0 then 256 else lim)) (OpenReader d) []"

section \<open>What the reader returns\<close>

fun eo_scan_segments :: "bytes list \<Rightarrow> eo_record list \<times> err option" where
  "eo_scan_segments [] = ([], None)"
| "eo_scan_segments (p # ps) =
     (case eo_scan p of
        (rs, Some e) \<Rightarrow> (rs, Some e)
      | (rs, None) \<Rightarrow> (let (rs', e) = eo_scan_segments ps in (rs @ rs', e)))"

definition er_scan :: "eo_reader \<Rightarrow> eo_record list \<times> err option" where
  "er_scan r =
     (case er_file r of
        None \<Rightarrow> eo_scan_segments (er_paths r)
      | Some s \<Rightarrow>
          (case eo_scan s of
             (rs, Some e) \<Rightarrow> (rs, Some e)
           | (rs, None) \<Rightarrow> (let (rs', e) = eo_scan_segments (er_paths r) in (rs @ rs', e))))"

lemma ReadNext_scan:
  "er_scan r = (case ReadNext r of
     (Inl e, _) \<Rightarrow> ([], if e = ErrEOF then None else Some e)
   | (Inr x, r1) \<Rightarrow> (let (rs, e) = er_scan r1 in (x # rs, e)))"
proof (induction "er_size r" arbitrary: r rule: less_induct)
  case less
  show ?case
  proof (cases "er_file r")
    case None
    show ?thesis
    proof (cases "er_paths r")
      case Nil
      with None show ?thesis by (simp add: ReadNext.simps [of r] er_scan_def)
    next
      case (Cons p ps)
      let ?r = "r\<lparr>er_paths := ps, er_file := Some p\<rparr>"
      have "ReadNext r = ReadNext ?r" using None Cons by (simp add: ReadNext.simps [of r])
      moreover have "er_scan r = er_scan ?r" using None Cons by (simp add: er_scan_def)
      moreover have "er_size ?r < er_size r" using None Cons by (simp add: er_size_def)
      ultimately show ?thesis using less.hyps [of ?r] by simp
    qed
  next
    case (Some s)
    obtain q s' where q: "eo_ReadRecord s = (q, s')" by fastforce
    show ?thesis
    proof (cases q)
      case (Inl e)
      show ?thesis
      proof (cases "e = ErrEOF")
        case True
        let ?r = "r\<lparr>er_file := None\<rparr>"
        have "ReadNext r = ReadNext ?r" using Some q Inl True by (simp add: ReadNext.simps [of r])
        moreover have "er_scan r = er_scan ?r" using Some q Inl True by (simp add: er_scan_def eo_scan.simps [of s] split_beta)
        moreover have "er_size ?r < er_size r" using Some by (simp add: er_size_def)
        ultimately show ?thesis using less.hyps [of ?r] by simp
      next
        case False
        with Some q Inl show ?thesis by (simp add: ReadNext.simps [of r] er_scan_def eo_scan.simps [of s])
      qed
    next
      case (Inr x)
      obtain rs e where sc: "eo_scan s' = (rs, e)" by fastforce
      have "ReadNext r = (Inr x, r\<lparr>er_file := Some s'\<rparr>)" using Some q Inr by (simp add: ReadNext.simps [of r])
      moreover have "eo_scan s = (x # rs, e)" using q Inr sc by (simp add: eo_scan.simps [of s])
      ultimately show ?thesis using Some sc by (cases e) (simp_all add: er_scan_def split_beta Let_def)
    qed
  qed
qed

lemma fetch_loop_scan:
  assumes "er_scan r = (rs, e)" and "length out \<le> lim"
  shows "fetch_loop afterSeq lim r out =
    (let xs = out @ filter (\<lambda>x. afterSeq < eo_OutboxSeq x) rs
     in case e of Some er \<Rightarrow> if lim \<le> length xs then Inr (take lim xs) else Inl er | None \<Rightarrow> Inr (take lim xs))"
  using assms
proof (induction afterSeq lim r out arbitrary: rs rule: fetch_loop.induct)
  case (1 afterSeq lim r out)
  show ?case
  proof (cases "lim \<le> length out")
    case True
    with 1(4) show ?thesis by (auto simp: fetch_loop.simps [of _ _ r] Let_def split: option.splits)
  next
    case False
    obtain q r1 where q: "ReadNext r = (q, r1)" by fastforce
    show ?thesis
    proof (cases q)
      case (Inl er)
      with 1(3) q have "rs = []" "e = (if er = ErrEOF then None else Some er)" by (simp_all add: ReadNext_scan [of r])
      with False Inl q show ?thesis by (auto simp: fetch_loop.simps [of _ _ r])
    next
      case (Inr x)
      then obtain rs1 where r1: "er_scan r1 = (rs1, e)" "rs = x # rs1"
        using 1(3) q by (auto simp: ReadNext_scan [of r] split: prod.splits)
      show ?thesis
      proof (cases "eo_OutboxSeq x \<le> afterSeq")
        case True
        then have "\<not> afterSeq < eo_OutboxSeq x" by simp
        with 1(1) [OF False q [symmetric] Inr True r1(1)] True 1(4) False q Inr r1(2) show ?thesis
          by (simp add: fetch_loop.simps [of _ _ r])
      next
        case gt: False
        have "length (out @ [x]) \<le> lim" using False by simp
        moreover have "afterSeq < eo_OutboxSeq x" using gt by simp
        ultimately show ?thesis using 1(2) [OF False q [symmetric] Inr gt r1(1)] False q Inr r1(2) gt
          by (simp add: fetch_loop.simps [of _ _ r])
      qed
    qed
  qed
qed

section \<open>Its frames are frames of the write-ahead log\<close>

text \<open>
  The layout of a frame is that of \<open>WalRecord\<close> with a longer header: the record that has
  the same bytes, on which the durability proofs of theory \<open>WalDurable\<close> apply.
\<close>

definition as_wal :: "eo_record \<Rightarrow> wal_record" where
  "as_wal r = \<lparr> r_SeqID = eo_OutboxSeq r, r_Timestamp = ev_WalSeq r, r_EventType = ucast (ev_Timestamp r),
     r_Payload = le_bytes 7 (drop_bit 8 (ev_Timestamp r)) @ [ev_TopicID r] @ le_bytes 4 (ev_KafkaPartition r) @
       le_bytes 8 (ev_KafkaOffset r) @ le_bytes 2 (of_nat (length (ev_PartitionKey r)) :: 16 word) @
       key_bytes (ev_PartitionKey r) @ ev_Payload r \<rparr>"

lemma length_key_bytes [simp]: "length (key_bytes s) = length s"
  by (simp add: key_bytes_def)

lemma bytes_key_bytes [simp]: "bytes_key (key_bytes s) = s"
proof -
  have "char_of (unat (of_nat (of_char c) :: byte)) = c" for c
  proof -
    have "(of_char c :: nat) < 256" using of_char_mod_256 [of c] mod_less_divisor [of 256 "of_char c :: nat"] by simp
    then show ?thesis by (simp add: unsigned_of_nat take_bit_nat_eq_self)
  qed
  then show ?thesis by (simp add: key_bytes_def bytes_key_def o_def)
qed

lemma as_wal_head: "record_head (as_wal r) = eo_head r"
proof -
  have "le_bytes 8 (ev_Timestamp r) = ucast (ev_Timestamp r) # le_bytes 7 (drop_bit 8 (ev_Timestamp r))"
    using le_bytes_Suc [of 7 "ev_Timestamp r"] by (simp add: numeral_eq_Suc)
  then show ?thesis by (simp add: record_head_def as_wal_def eo_head_def)
qed

lemma as_wal_len: "BodyLen (as_wal r) = eo_bodyLen r"
  by (simp add: BodyLen_def as_wal_def eo_bodyLen_def eo_headerFixed_def recordMinBodyLen_def)

lemma eo_encode: "eo_encodeInto r (replicate (recordLenSize + eo_bodyLen r) 0) =
  (if fits (as_wal r) then Inr (frame_bytes (as_wal r)) else Inl (ErrMsg ''eventoutbox: record body too large''))"
  by (auto simp: eo_encodeInto_def fits_def as_wal_len as_wal_head frame_bytes_def)

text \<open>Records whose frame can be read back: the key's length is stored in 16 bits.\<close>

definition eo_fits :: "eo_record \<Rightarrow> bool" where
  "eo_fits r \<longleftrightarrow> fits (as_wal r) \<and> length (ev_PartitionKey r) < 2 ^ 16"

lemma of_le_bytes_16 [simp]: "of_le_bytes (le_bytes 2 (w :: 16 word)) = w"
proof -
  have "unat w < 2 ^ LENGTH(16)" by (rule unsigned_less)
  then show ?thesis by (simp add: of_le_bytes_def le_val_le_bytes)
qed

lemma eo_decode_encoded:
  assumes "length (ev_PartitionKey r) < 2 ^ 16"
  shows "eo_decodeBody (eo_head r @ le_bytes 4 (crc32_ieee (eo_head r))) = Inr r"
proof -
  let ?b = "eo_head r @ le_bytes 4 (crc32_ieee (eo_head r))"
  have lh: "length (eo_head r) = 39 + length (ev_PartitionKey r) + length (ev_Payload r)" by (simp add: eo_head_def)
  have k: "unat (of_le_bytes (take 2 (drop 37 ?b)) :: 16 word) = length (ev_PartitionKey r)"
    using assms by (simp add: eo_head_def unsigned_of_nat take_bit_nat_eq_self)
  have f: "of_le_bytes (take 8 ?b) = eo_OutboxSeq r" "of_le_bytes (take 8 (drop 8 ?b)) = ev_WalSeq r"
    "of_le_bytes (take 8 (drop 16 ?b)) = ev_Timestamp r" "?b ! 24 = ev_TopicID r"
    "of_le_bytes (take 4 (drop 25 ?b)) = ev_KafkaPartition r" "of_le_bytes (take 8 (drop 29 ?b)) = ev_KafkaOffset r"
    "take (length (ev_PartitionKey r)) (drop 39 ?b) = key_bytes (ev_PartitionKey r)"
    by (simp_all add: eo_head_def nth_append)
  have p: "drop (39 + length (ev_PartitionKey r)) (eo_head r) = ev_Payload r"
  proof -
    obtain h where h: "eo_head r = (h @ key_bytes (ev_PartitionKey r)) @ ev_Payload r" "length h = 39"
      by (rule that [of "le_bytes 8 (eo_OutboxSeq r) @ le_bytes 8 (ev_WalSeq r) @ le_bytes 8 (ev_Timestamp r) @ [ev_TopicID r] @
        le_bytes 4 (ev_KafkaPartition r) @ le_bytes 8 (ev_KafkaOffset r) @
        le_bytes 2 (of_nat (length (ev_PartitionKey r)) :: 16 word)"]) (simp_all add: eo_head_def)
    show ?thesis unfolding h(1) using h(2) by simp
  qed
  have t: "take (length (eo_head r)) ?b = eo_head r" "drop (length (eo_head r)) ?b = le_bytes 4 (crc32_ieee (eo_head r))" by simp_all
  have n: "length ?b - 4 = length (eo_head r)" by simp
  show ?thesis
    unfolding eo_decodeBody_def k n Let_def eo_headerFixed_def eo_minBodyLen_def
    using f p t lh by (simp add: eo_headerFixed_def)
qed

lemma eo_ReadRecord_frame:
  assumes "eo_fits r"
  shows "eo_ReadRecord (frame_bytes (as_wal r) @ rest) = (Inr r, rest)"
proof -
  let ?l = "le_bytes 4 (of_nat (BodyLen (as_wal r)) :: uint32)"
  let ?b = "eo_head r @ le_bytes 4 (crc32_ieee (eo_head r))"
  have fits: "fits (as_wal r)" using assms by (simp add: eo_fits_def)
  have a: "ReadFull recordLenSize (?l @ ?b @ rest) = (Inr ?l, ?b @ rest)"
    by (rule ReadFull_exact) (simp_all add: recordLenSize_def)
  have b: "ReadFull (BodyLen (as_wal r)) (?b @ rest) = (Inr ?b, rest)"
    by (rule ReadFull_exact) (simp_all add: as_wal_len eo_bodyLen_def eo_headerFixed_def eo_head_def)
  have c: "\<not> BodyLen (as_wal r) < eo_minBodyLen" "\<not> recordMaxBodyLen < BodyLen (as_wal r)"
    using fits by (simp_all add: as_wal_len eo_bodyLen_def eo_minBodyLen_def fits_def)
  have "frame_bytes (as_wal r) @ rest = ?l @ ?b @ rest" by (simp add: frame_bytes_def as_wal_head)
  then show ?thesis
    using a b c assms eo_decode_encoded [of r]
    by (simp add: eo_ReadRecord_def frame_len_encoded [OF fits] Let_def eo_fits_def)
qed

lemma eo_round_trip: "eo_fits r \<Longrightarrow> \<exists>frame. eo_Encode r = Inr frame \<and> eo_ReadRecord (frame @ rest) = (Inr r, rest)"
  using eo_ReadRecord_frame [of r rest] by (simp add: eo_Encode_def eo_encode eo_fits_def)

lemma eo_scan_frames:
  "\<forall>r \<in> set rs. eo_fits r \<Longrightarrow>
     eo_scan (frames (map as_wal rs) @ tail) = (let (rs', e) = eo_scan tail in (rs @ rs', e))"
proof (induction rs)
  case (Cons r rs)
  have "eo_scan (frames (map as_wal (r # rs)) @ tail) = (let (rs', e) = eo_scan (frames (map as_wal rs) @ tail) in (r # rs', e))"
    using eo_ReadRecord_frame [of r "frames (map as_wal rs) @ tail"] Cons.prems by (subst eo_scan.simps) simp
  with Cons show ?case by (simp add: split_beta Let_def)
qed simp

lemma eo_scan_empty: "eo_scan [] = ([], None)"
  by (subst eo_scan.simps) (simp add: eo_ReadRecord_def ReadFull_def recordLenSize_def)

lemma eo_scan_segments_frames:
  "\<forall>rs \<in> set rss. \<forall>r \<in> set rs. eo_fits r \<Longrightarrow>
     eo_scan_segments (map (\<lambda>rs. frames (map as_wal rs)) rss @ ps) = (let (rs, e) = eo_scan_segments ps in (concat rss @ rs, e))"
proof (induction rss)
  case (Cons rs rss)
  have "eo_scan (frames (map as_wal rs)) = (rs, None)"
    using eo_scan_frames [of rs "[]"] Cons.prems by (simp add: eo_scan_empty)
  with Cons show ?case by (simp add: split_beta Let_def)
qed simp

section \<open>Durability\<close>

definition eo_inv :: "eo_record list \<Rightarrow> wstate \<Rightarrow> bool" where
  "eo_inv hist st \<longleftrightarrow> log_inv (map as_wal hist) st \<and> (\<forall>r \<in> set hist. eo_fits r)"

definition short_key :: "eo_record \<Rightarrow> bool" where
  "short_key r \<longleftrightarrow> length (ev_PartitionKey r) < 2 ^ 16"

lemma eo_appendLocked_next:
  "eo_appendLocked (rec\<lparr>eo_OutboxSeq := w_lastSeq w + 1\<rparr>) (w, d, clk) =
     (if w_closed w then (Some ErrWriterClosed, w, d, clk)
      else if w_lastSeq w \<noteq> 0 \<and> w_lastSeq w + 1 \<le> w_lastSeq w then (Some ErrNonMonotonic, w, d, clk)
      else if fits (as_wal (rec\<lparr>eo_OutboxSeq := w_lastSeq w + 1\<rparr>))
           then write_frame (w_lastSeq w + 1) (frame_bytes (as_wal (rec\<lparr>eo_OutboxSeq := w_lastSeq w + 1\<rparr>))) (w, d, clk)
      else (Some (ErrMsg ''eventoutbox: record body too large''), w, d, clk))"
  by (cases "w_lastSeq w + 1 = 0") (simp_all add: eo_appendLocked_def Let_def eo_encode)

lemma eo_AppendNext_inv:
  assumes i: "eo_inv hist st" and k: "short_key rec" and ap: "eo_AppendNext rec st = (r, st')"
  shows "\<exists>new. eo_inv (hist @ new) st' \<and> w_cfg (fst st') = w_cfg (fst st) \<and> (\<forall>q. r = Inr q \<longrightarrow> 0 < q \<and> new = [rec\<lparr>eo_OutboxSeq := q\<rparr>])"
proof -
  obtain w d clk where st: "st = (w, d, clk)" by (metis prod_cases3)
  let ?q = "w_lastSeq w + 1"
  let ?rec = "rec\<lparr>eo_OutboxSeq := ?q\<rparr>"
  have wi: "wal_inv (map as_wal hist) (w, d, clk)" "w_ok w" using i st by (simp_all add: eo_inv_def log_inv_def)
  consider (refused) e where "r = Inl e" "st' = st"
    | (go) e where "\<not> w_closed w" "w_lastSeq w = 0 \<or> w_lastSeq w < ?q" "fits (as_wal ?rec)"
        "write_frame ?q (frame_bytes (as_wal ?rec)) st = (e, st')" "r = (case e of None \<Rightarrow> Inr ?q | Some x \<Rightarrow> Inl x)"
  proof (cases "w_closed w \<or> w_lastSeq w \<noteq> 0 \<and> ?q \<le> w_lastSeq w \<or> \<not> fits (as_wal ?rec)")
    case True
    then have "\<exists>e. r = Inl e \<and> st' = st" using ap st
      by (auto simp: eo_AppendNext_def eo_appendLocked_next Let_def split: if_splits)
    then show thesis using refused by blast
  next
    case False
    obtain e where wf: "write_frame ?q (frame_bytes (as_wal ?rec)) st = (e, st')" "r = (case e of None \<Rightarrow> Inr ?q | Some x \<Rightarrow> Inl x)"
      using ap st False by (auto simp: eo_AppendNext_def eo_appendLocked_next Let_def split: option.splits prod.splits if_splits)
    show thesis using go [OF _ _ _ wf] False by (auto simp: not_le)
  qed
  then show ?thesis
  proof cases
    case refused
    with i show ?thesis by (intro exI [of _ "[]"]) simp
  next
    case go
    obtain w' d' clk' where st': "st' = (w', d', clk')" by (metis prod_cases3)
    have "r_SeqID (as_wal ?rec) = ?q" by (simp add: as_wal_def)
    from write_frame_inv [OF wi go(1,2,3) this go(4) [unfolded st st']] obtain new where
      n: "wal_inv (map as_wal hist @ new) (w', d', clk')" "w_ok w'" "w_cfg w' = w_cfg w"
         "new = [] \<and> e \<noteq> None \<or> new = [as_wal ?rec]" by blast
    have "0 < ?q" using go(2) by (rule next_pos)
    moreover have "eo_fits ?rec" using go(3) k by (simp add: eo_fits_def short_key_def)
    ultimately show ?thesis using n i st st' go(5)
      by (intro exI [of _ "if new = [] then [] else [?rec]"]) (auto simp: eo_inv_def log_inv_def split: option.splits)
  qed
qed

lemma concat_map_split: "concat xss = map f ys \<Longrightarrow> \<exists>yss. xss = map (map f) yss \<and> concat yss = ys"
proof (induction xss arbitrary: ys)
  case (Cons xs xss)
  then obtain ys1 ys2 where y: "ys = ys1 @ ys2" "map f ys1 = xs" "concat xss = map f ys2"
    by (auto simp: append_eq_map_conv)
  from Cons.IH [OF y(3)] obtain yss where "xss = map (map f) yss" "concat yss = ys2" by blast
  with y show ?case by (intro exI [of _ "ys1 # yss"]) simp
qed simp

lemma seg_state_clean_crash:
  assumes st: "seg_state rss dur (frames dur) w d" and b: "w_buf w = Some []" "\<not> w_buf_err w" and cr: "crash d d'"
  shows "SegmentPaths d' = map frames (rss @ [dur])"
proof -
  obtain pre s where s: "d_segs d = pre @ [s]" "sorted_wrt (<) (map sg_num (pre @ [s]))"
    "list_all2 seg_clean pre rss" "open_seg dur (frames dur) w s" using st unfolding seg_state_def by blast
  have "seg_clean s dur" using s(4) b by (auto simp: open_seg_def seg_clean_def)
  then have "list_all2 seg_clean (d_segs d) (rss @ [dur])" using s(1,3) by (simp add: list_all2_appendI)
  moreover have "list_all2 crash_seg (d_segs d) (d_segs d')" using cr by (simp add: crash_def)
  ultimately have "map sg_data (d_segs d') = map frames (rss @ [dur])" by (metis crash_clean_all)
  moreover have "sort_key sg_num (d_segs d') = d_segs d'"
    using crash_nums [of "d_segs d" "d_segs d'"] cr s(1,2) by (intro sort_key_sorted) (simp add: crash_def)
  ultimately show ?thesis by (simp add: SegmentPaths_def)
qed

text \<open>After a sync, whatever a crash leaves, the reader finds the whole history, in order.\<close>

lemma eo_Sync_inv:
  assumes i: "eo_inv hist st" and sy: "eo_Sync st = (e, st')"
  shows "eo_inv hist st' \<and> w_cfg (fst st') = w_cfg (fst st) \<and>
    (e = None \<longrightarrow> (\<forall>d. crash (fst (snd st')) d \<longrightarrow> eo_scan_segments (SegmentPaths d) = (hist, None)))"
proof -
  obtain w d clk where st: "st = (w, d, clk)" by (metis prod_cases3)
  obtain w' d' clk' where st': "st' = (w', d', clk')" by (metis prod_cases3)
  have ms: "maybeSyncLocked True (w, d, clk) = (e, w', d', clk')" using sy st st' by (simp add: eo_Sync_def)
  have inv: "wal_inv (map as_wal hist) (w, d, clk)" and wo: "w_ok w" using i st by (simp_all add: eo_inv_def log_inv_def)
  note m = maybeSync_inv [OF inv ms]
  have "eo_scan_segments (SegmentPaths d2) = (hist, None)" if h: "e = None" "crash d' d2" for d2
  proof -
    obtain rss dur where rd: "map as_wal hist = concat rss @ dur" "seg_state rss dur (frames dur) w' d'"
      "w_buf w' = Some []" "\<not> w_buf_err w'" using m(6) [OF h(1)] by auto
    have "concat (rss @ [dur]) = map as_wal hist" using rd(1) by simp
    then obtain rss' where r': "rss @ [dur] = map (map as_wal) rss'" "concat rss' = hist" using concat_map_split by blast
    have sp: "SegmentPaths d2 = map (\<lambda>rs. frames (map as_wal rs)) rss' @ []"
      using seg_state_clean_crash [OF rd(2-4) h(2)] r'(1) by (simp add: o_def)
    have "\<forall>r \<in> set hist. eo_fits r" using i by (simp add: eo_inv_def)
    then have "\<forall>rs \<in> set rss'. \<forall>r \<in> set rs. eo_fits r" unfolding r'(2) [symmetric] set_concat by blast
    from eo_scan_segments_frames [OF this, of "[]"] show ?thesis unfolding sp using r'(2) by simp
  qed
  with m wo i st st' show ?thesis by (auto simp: eo_inv_def log_inv_def w_ok_def)
qed

text \<open>The outbox keeps the contract of a log of theory \<open>Journal\<close>.\<close>

definition eo_put :: "event \<Rightarrow> wstate \<Rightarrow> (err + uint64) \<times> wstate" where
  "eo_put e st =
     (if length (ev_PartitionKey e) < 2 ^ 16 then eo_AppendNext (event.extend e (eo_record.fields 0)) st
      else (Inl ErrInvalidLength, st))"

definition eo_survives :: "wstate \<Rightarrow> eo_record set \<Rightarrow> bool" where
  "eo_survives st R \<longleftrightarrow> (\<exists>d. crash (fst (snd st)) d \<and> R = set (fst (eo_scan_segments (SegmentPaths d))))"

interpretation eo: journal eo_inv eo_put eo_Sync eo_OutboxSeq event.truncate eo_survives
proof unfold_locales
  fix h s k r s' assume i: "eo_inv h s" and p: "eo_put k s = (r, s')"
  show "\<exists>new. eo_inv (h @ new) s' \<and> (\<forall>q. r = Inr q \<longrightarrow> 0 < q \<and> (\<exists>x. new = [x] \<and> eo_OutboxSeq x = q \<and> event.truncate x = k))"
  proof (cases "length (ev_PartitionKey k) < 2 ^ 16")
    case True
    with p have "eo_AppendNext (event.extend k (eo_record.fields 0)) s = (r, s')" by (simp add: eo_put_def)
    from eo_AppendNext_inv [OF i _ this] True show ?thesis
      by (fastforce simp: short_key_def event.defs eo_record.defs)
  next
    case False
    with p i show ?thesis by (intro exI [of _ "[]"]) (auto simp: eo_put_def)
  qed
next
  fix h s e s' assume "eo_inv h s" "eo_Sync s = (e, s')"
  then show "eo_inv h s'" using eo_Sync_inv by blast
next
  fix h s s' R x assume "eo_inv h s" "eo_Sync s = (None, s')" "eo_survives s' R" "x \<in> set h"
  then show "x \<in> R" using eo_Sync_inv [of h s None s'] by (fastforce simp: eo_survives_def)
qed

end
