(* ===== verification/EventRelay.thy ===== *)
theory EventRelay
  imports EventOutbox Kafka "HOL-Library.Sublist"
begin

text \<open>
  Model of \<open>internal/matching/eventrelay/relay.go\<close> with the cursor of
  \<open>pkg/eventoutbox/meta.go\<close>: one worker that sends the records of the event outbox to Kafka
  and remembers the last sequence number sent.
\<close>

section \<open>State\<close>

record er_config =
  ec_PollInterval :: int
  ec_BatchSize :: int
  ec_Workers :: int
  ec_MatchTopic :: string
  ec_TradeTopic :: string

definition er_normalizedConfig :: "er_config \<Rightarrow> er_config" where
  "er_normalizedConfig c = c\<lparr>
     ec_PollInterval := (if ec_PollInterval c \<le> 0 then 2000000 else ec_PollInterval c),
     ec_BatchSize := (if ec_BatchSize c \<le> 0 then 256 else ec_BatchSize c),
     ec_Workers := (if ec_Workers c \<le> 0 then 1 else ec_Workers c)\<rparr>"

text \<open>
  \<open>rv_meta\<close> is the number in \<open>meta.json\<close> (\<open>None\<close> without the file), \<open>rv_meta_crash\<close> what a
  crash may leave there: renames are not made durable. \<open>rv_io\<close> tells which of the successive
  file calls succeed.
\<close>

record event_relay =
  rv_disk :: disk
  rv_meta :: "uint64 option"
  rv_meta_crash :: "uint64 option set"
  rv_io :: "nat \<Rightarrow> bool"
  rv_iopos :: nat
  rv_published :: uint64
  rv_log :: "string \<Rightarrow> message list"
  rv_writes :: "nat \<Rightarrow> write_outcome"
  rv_wpos :: nat

section \<open>The cursor\<close>

definition LoadMeta :: "event_relay \<Rightarrow> (err + uint64) \<times> event_relay" where
  "LoadMeta r =
     (if rv_io r (rv_iopos r) then Inr (case rv_meta r of None \<Rightarrow> 0 | Some q \<Rightarrow> q) else Inl ErrIO,
      r\<lparr>rv_iopos := Suc (rv_iopos r)\<rparr>)"

text \<open>
  Make the directory, write, open, sync and close a temporary file, rename it: the calls up
  to the first that fails.
\<close>

definition SaveMeta :: "uint64 \<Rightarrow> event_relay \<Rightarrow> err option \<times> event_relay" where
  "SaveMeta q r =
     (let ok = takeWhile (rv_io r) [rv_iopos r ..< rv_iopos r + 6]
      in if length ok = 6
         then (None, r\<lparr>rv_iopos := rv_iopos r + 6, rv_meta := Some q, rv_meta_crash := insert (Some q) (rv_meta_crash r)\<rparr>)
         else (Some ErrIO, r\<lparr>rv_iopos := rv_iopos r + Suc (length ok)\<rparr>))"

definition PendingCount :: "uint64 \<Rightarrow> uint64 \<Rightarrow> uint64" where
  "PendingCount lastSeq publishedSeq = (if lastSeq \<le> publishedSeq then 0 else lastSeq - publishedSeq)"

definition loadPublished :: "event_relay \<Rightarrow> uint64 \<times> event_relay" where
  "loadPublished r =
     (if 0 < rv_published r then (rv_published r, r)
      else (case LoadMeta r of
              (Inl _, r1) \<Rightarrow> (0, r1)
            | (Inr q, r1) \<Rightarrow> (q, r1\<lparr>rv_published := q\<rparr>)))"

definition storePublished :: "uint64 \<Rightarrow> event_relay \<Rightarrow> err option \<times> event_relay" where
  "storePublished q r = SaveMeta q (r\<lparr>rv_published := q\<rparr>)"

section \<open>A poll\<close>

definition topicFor :: "er_config \<Rightarrow> byte \<Rightarrow> string option" where
  "topicFor cfg i =
     (if i = TopicMatch then Some (if ec_MatchTopic cfg = '''' then ''match.events'' else ec_MatchTopic cfg)
      else if i = TopicTrade then Some (if ec_TradeTopic cfg = '''' then ''trade.events'' else ec_TradeTopic cfg)
      else None)"

definition er_WriteBatch :: "string \<Rightarrow> string \<Rightarrow> bytes list \<Rightarrow> event_relay \<Rightarrow> bool \<times> event_relay" where
  "er_WriteBatch topic key vs r =
     (let oc = rv_writes r (rv_wpos r)
      in (oc = Written,
          r\<lparr>rv_wpos := Suc (rv_wpos r), rv_log := (rv_log r)(topic := rv_log r topic @ messages key (written oc vs))\<rparr>))"

definition same_run :: "uint64 \<Rightarrow> eo_record \<Rightarrow> eo_record \<Rightarrow> bool" where
  "same_run after rec x \<longleftrightarrow> after < eo_OutboxSeq x \<and> ev_TopicID x = ev_TopicID rec \<and> ev_PartitionKey x = ev_PartitionKey rec"

text \<open>The loop over the records, with the last number sent: neighbours of one topic and key are one batch.\<close>

function publish_runs :: "er_config \<Rightarrow> uint64 \<Rightarrow> eo_record list \<Rightarrow> uint64 \<Rightarrow> event_relay \<Rightarrow> uint64 \<times> event_relay" where
  "publish_runs cfg after [] lastOK r = (lastOK, r)"
| "publish_runs cfg after (rec # recs) lastOK r =
     (if eo_OutboxSeq rec \<le> after then publish_runs cfg after recs lastOK r
      else (case topicFor cfg (ev_TopicID rec) of
              None \<Rightarrow> publish_runs cfg after recs lastOK r
            | Some topic \<Rightarrow>
                (let run = rec # takeWhile (same_run after rec) recs
                 in case er_WriteBatch topic (ev_PartitionKey rec) (map ev_Payload run) r of
                      (False, r1) \<Rightarrow> (lastOK, r1)
                    | (True, r1) \<Rightarrow>
                        publish_runs cfg after (dropWhile (same_run after rec) recs) (eo_OutboxSeq (last run)) r1)))"
  by pat_completeness auto
termination
  by (relation "measure (\<lambda>(_, _, recs, _). length recs)") (auto simp: le_imp_less_Suc length_dropWhile_le)

definition er_pollOnce :: "er_config \<Rightarrow> event_relay \<Rightarrow> nat \<times> event_relay" where
  "er_pollOnce cfg r0 =
     (let (after, r) = loadPublished r0
      in case eo_FetchUnpublished (rv_disk r) after (ec_BatchSize cfg) of
           Inl e \<Rightarrow> (0, r)
         | Inr recs \<Rightarrow>
             if recs = [] then (0, r)
             else (let (lastOK, r1) = publish_runs cfg after recs after r
                   in (length recs, if after < lastOK then snd (storePublished lastOK r1) else r1)))"

text \<open>The loop of a worker over full batches.\<close>

partial_function (option) er_burst :: "er_config \<Rightarrow> event_relay \<Rightarrow> event_relay option" where
  "er_burst cfg r =
     (let (n, r1) = er_pollOnce cfg r
      in if ec_BatchSize cfg \<le> int n then er_burst cfg r1 else Some r1)"

section \<open>What is sent\<close>

definition sent_to :: "event_relay \<Rightarrow> string \<Rightarrow> string \<Rightarrow> bytes list" where
  "sent_to r topic key = with_key key (rv_log r topic)"

definition payloads_for :: "er_config \<Rightarrow> string \<Rightarrow> string \<Rightarrow> eo_record list \<Rightarrow> bytes list" where
  "payloads_for cfg topic key recs =
     map ev_Payload (filter (\<lambda>x. topicFor cfg (ev_TopicID x) = Some topic \<and> ev_PartitionKey x = key) recs)"

lemma payloads_for_simps [simp]:
  "payloads_for cfg topic key [] = []"
  "payloads_for cfg topic key (xs @ ys) = payloads_for cfg topic key xs @ payloads_for cfg topic key ys"
  by (simp_all add: payloads_for_def)

lemma er_WriteBatch_log:
  assumes "er_WriteBatch topic key vs r = (ok, r')"
  shows "\<exists>n. sent_to r' t k = sent_to r t k @ (if t = topic \<and> k = key then take n vs else []) \<and> (ok \<longrightarrow> length vs \<le> n)"
    and "rv_disk r' = rv_disk r" "rv_published r' = rv_published r" "rv_writes r' = rv_writes r" "rv_io r' = rv_io r"
    and "ok \<longleftrightarrow> rv_writes r (rv_wpos r) = Written"
proof -
  let ?oc = "rv_writes r (rv_wpos r)"
  have r': "ok = (?oc = Written)"
    "r' = r\<lparr>rv_wpos := Suc (rv_wpos r), rv_log := (rv_log r)(topic := rv_log r topic @ messages key (written ?oc vs))\<rparr>"
    using assms by (auto simp: er_WriteBatch_def Let_def)
  obtain n where "written ?oc vs = take n vs" "?oc = Written \<longrightarrow> length vs \<le> n"
    by (cases ?oc) (auto simp: written_def intro: that [of "length vs"])
  then show "\<exists>n. sent_to r' t k = sent_to r t k @ (if t = topic \<and> k = key then take n vs else []) \<and> (ok \<longrightarrow> length vs \<le> n)"
    by (intro exI [of _ n]) (auto simp: r' sent_to_def)
  show "rv_disk r' = rv_disk r" "rv_published r' = rv_published r" "rv_writes r' = rv_writes r" "rv_io r' = rv_io r"
    "ok \<longleftrightarrow> rv_writes r (rv_wpos r) = Written"
    by (simp_all add: r')
qed

text \<open>A run has one destination.\<close>

lemma payloads_run:
  assumes "topicFor cfg (ev_TopicID rec) = Some topic"
  shows "payloads_for cfg t k (rec # takeWhile (same_run after rec) recs) =
    (if t = topic \<and> k = ev_PartitionKey rec then map ev_Payload (rec # takeWhile (same_run after rec) recs) else [])"
proof -
  have "\<forall>x \<in> set (rec # takeWhile (same_run after rec) recs). topicFor cfg (ev_TopicID x) = Some topic \<and> ev_PartitionKey x = ev_PartitionKey rec"
    using assms by (auto simp: same_run_def dest: set_takeWhileD)
  then have f: "filter (\<lambda>x. topicFor cfg (ev_TopicID x) = Some t \<and> ev_PartitionKey x = k) xs =
      (if t = topic \<and> k = ev_PartitionKey rec then xs else [])"
    if "xs = rec # takeWhile (same_run after rec) recs" for xs
    using that by (auto simp: filter_id_conv filter_empty_conv)
  show ?thesis unfolding payloads_for_def by (simp only: f [OF refl]) simp
qed

text \<open>
  However the writes go: the records up to the returned number were all sent, in order, and
  of the rest at most a beginning.
\<close>

definition sent_upto :: "er_config \<Rightarrow> event_relay \<Rightarrow> event_relay \<Rightarrow> eo_record list \<Rightarrow> eo_record list \<Rightarrow> bool" where
  "sent_upto cfg r r' done1 rest \<longleftrightarrow>
     (\<forall>t k. \<exists>us. sent_to r' t k = sent_to r t k @ payloads_for cfg t k done1 @ us \<and> prefix us (payloads_for cfg t k rest))"

lemma publish_runs_sent:
  assumes "publish_runs cfg after recs lastOK r = (q, r')"
    and "\<forall>x \<in> set recs. after < eo_OutboxSeq x \<and> topicFor cfg (ev_TopicID x) \<noteq> None"
  shows "\<exists>done1 rest. recs = done1 @ rest \<and> sent_upto cfg r r' done1 rest \<and>
    q = (if done1 = [] then lastOK else eo_OutboxSeq (last done1)) \<and>
    rv_disk r' = rv_disk r \<and> rv_published r' = rv_published r \<and> rv_io r' = rv_io r \<and> rv_writes r' = rv_writes r \<and>
    (rv_writes r = (\<lambda>_. Written) \<longrightarrow> rest = [])"
  using assms
proof (induction cfg after recs lastOK r rule: publish_runs.induct)
  case (1 cfg after lastOK r)
  then show ?case by (simp add: sent_upto_def)
next
  case (2 cfg after rec recs lastOK r)
  obtain topic where t: "topicFor cfg (ev_TopicID rec) = Some topic" using 2(5) by auto
  have gt: "\<not> eo_OutboxSeq rec \<le> after" using 2(5) by auto
  let ?run = "rec # takeWhile (same_run after rec) recs" and ?rest = "dropWhile (same_run after rec) recs"
  obtain ok r1 where w: "er_WriteBatch topic (ev_PartitionKey rec) (map ev_Payload ?run) r = (ok, r1)" by fastforce
  note wl = er_WriteBatch_log [OF w]
  have split: "rec # recs = ?run @ ?rest" by simp
  show ?case
  proof (cases ok)
    case False
    with 2(4) gt t w have r': "q = lastOK" "r' = r1" by (simp_all add: Let_def)
    have "\<exists>us. sent_to r1 s k = sent_to r s k @ us \<and> prefix us (payloads_for cfg s k (rec # recs))" for s k
    proof -
      obtain n where "sent_to r1 s k = sent_to r s k @ (if s = topic \<and> k = ev_PartitionKey rec then take n (map ev_Payload ?run) else [])"
        using wl(1) [of s k] by blast
      then show ?thesis unfolding split payloads_for_simps payloads_run [OF t]
        by (auto simp: take_is_prefix intro: prefix_prefix)
    qed
    then have "sent_upto cfg r r' [] (rec # recs)" by (simp add: sent_upto_def r')
    with r' wl(2-6) False show ?thesis by (intro exI [of _ "[]"] exI [of _ "rec # recs"]) auto
  next
    case True
    then have p: "publish_runs cfg after ?rest (eo_OutboxSeq (last ?run)) r1 = (q, r')"
      using 2(4) gt t w by (simp add: Let_def)
    have "\<forall>x \<in> set ?rest. after < eo_OutboxSeq x \<and> topicFor cfg (ev_TopicID x) \<noteq> None"
      using 2(5) set_dropWhileD by fastforce
    with 2(3) [OF gt t refl] w True p obtain d2 rest2 where d: "?rest = d2 @ rest2" "sent_upto cfg r1 r' d2 rest2"
      "q = (if d2 = [] then eo_OutboxSeq (last ?run) else eo_OutboxSeq (last d2))" "rv_disk r' = rv_disk r1"
      "rv_published r' = rv_published r1" "rv_io r' = rv_io r1" "rv_writes r' = rv_writes r1"
      "rv_writes r1 = (\<lambda>_. Written) \<longrightarrow> rest2 = []"
      by (metis (no_types, lifting))
    have s1: "sent_to r1 s k = sent_to r s k @ payloads_for cfg s k ?run" for s k
      using wl(1) [of s k] True unfolding payloads_run [OF t] by auto
    have "sent_upto cfg r r' (?run @ d2) rest2"
      using d(2) unfolding sent_upto_def payloads_for_simps(2) s1 by (metis append.assoc)
    moreover have "rec # recs = (?run @ d2) @ rest2" using split d(1) by simp
    ultimately show ?thesis using d(3-8) wl(2-5)
      by (intro exI [of _ "?run @ d2"] exI [of _ rest2]) simp
  qed
qed

section \<open>The loop\<close>

text \<open>
  A log that scans to its end with increasing numbers and topics the relay knows.
\<close>

definition er_log :: "er_config \<Rightarrow> disk \<Rightarrow> eo_record list \<Rightarrow> bool" where
  "er_log cfg d hist \<longleftrightarrow>
     eo_scan_segments (SegmentPaths d) = (hist, None) \<and> sorted_wrt (<) (map eo_OutboxSeq hist) \<and>
     (\<forall>x \<in> set hist. topicFor cfg (ev_TopicID x) \<noteq> None)"

definition er_cursor :: "event_relay \<Rightarrow> uint64" where
  "er_cursor r = (if 0 < rv_published r then rv_published r else case rv_meta r of None \<Rightarrow> 0 | Some q \<Rightarrow> q)"

definition er_ok :: "event_relay \<Rightarrow> bool" where
  "er_ok r \<longleftrightarrow> rv_writes r = (\<lambda>_. Written) \<and> rv_io r = (\<lambda>_. True)"

lemma fetch_log:
  assumes "eo_scan_segments (SegmentPaths d) = (hist, None)" and "0 < lim"
  shows "eo_FetchUnpublished d after lim = Inr (take (nat lim) (filter (\<lambda>x. after < eo_OutboxSeq x) hist))"
  using fetch_loop_scan [of "OpenReader d" hist None "[]" "nat lim"] assms
  by (simp add: eo_FetchUnpublished_def OpenReader_def er_scan_def)

lemma loadPublished_ok:
  assumes "er_ok r"
  shows "\<exists>n. loadPublished r = (er_cursor r, r\<lparr>rv_iopos := n, rv_published := er_cursor r\<rparr>)"
proof (cases "0 < rv_published r")
  case True
  then have "loadPublished r = (er_cursor r, r\<lparr>rv_iopos := rv_iopos r, rv_published := er_cursor r\<rparr>)"
    by (simp add: loadPublished_def er_cursor_def)
  then show ?thesis by blast
next
  case False
  with assms show ?thesis by (auto simp: loadPublished_def LoadMeta_def er_cursor_def er_ok_def)
qed

lemma storePublished_ok:
  assumes "er_ok r"
  shows "\<exists>r'. snd (storePublished q r) = r' \<and> er_ok r' \<and> rv_disk r' = rv_disk r \<and> rv_log r' = rv_log r \<and> er_cursor r' = q"
proof -
  have "length (takeWhile (rv_io r) [rv_iopos r ..< rv_iopos r + 6]) = 6"
  proof -
    have "takeWhile (rv_io r) [rv_iopos r ..< rv_iopos r + 6] = [rv_iopos r ..< rv_iopos r + 6]"
      using assms by (simp add: er_ok_def takeWhile_eq_all_conv)
    then show ?thesis by (simp only: length_upt)
  qed
  then show ?thesis using assms by (simp add: storePublished_def SaveMeta_def er_ok_def er_cursor_def Let_def)
qed

lemma er_poll_ok:
  assumes "er_ok r" and "er_log cfg (rv_disk r) hist" and "0 < ec_BatchSize cfg"
    and B: "B = take (nat (ec_BatchSize cfg)) (filter (\<lambda>x. er_cursor r < eo_OutboxSeq x) hist)"
  shows "\<exists>r'. er_pollOnce cfg r = (length B, r') \<and> er_ok r' \<and> rv_disk r' = rv_disk r \<and>
    er_cursor r' = (if B = [] then er_cursor r else eo_OutboxSeq (last B)) \<and>
    (\<forall>t k. sent_to r' t k = sent_to r t k @ payloads_for cfg t k B)"
proof -
  obtain n where ld: "loadPublished r = (er_cursor r, r\<lparr>rv_iopos := n, rv_published := er_cursor r\<rparr>)"
    using loadPublished_ok [OF assms(1)] by blast
  let ?r = "r\<lparr>rv_iopos := n, rv_published := er_cursor r\<rparr>"
  have cur: "er_cursor ?r = er_cursor r" by (simp add: er_cursor_def)
  have ok: "er_ok ?r" using assms(1) by (simp add: er_ok_def)
  have fe: "eo_FetchUnpublished (rv_disk ?r) (er_cursor r) (ec_BatchSize cfg) = Inr B"
    using fetch_log [OF _ assms(3)] assms(2) B by (simp add: er_log_def)
  show ?thesis
  proof (cases "B = []")
    case True
    with ld fe ok cur show ?thesis by (simp add: er_pollOnce_def sent_to_def)
  next
    case False
    obtain q r1 where p: "publish_runs cfg (er_cursor r) B (er_cursor r) ?r = (q, r1)" by fastforce
    have B2: "\<forall>x \<in> set B. er_cursor r < eo_OutboxSeq x \<and> topicFor cfg (ev_TopicID x) \<noteq> None"
      using assms(2) unfolding B er_log_def by (auto dest: in_set_takeD)
    from publish_runs_sent [OF p B2] ok obtain done1 rest where d: "B = done1 @ rest" "sent_upto cfg ?r r1 done1 rest"
      "q = (if done1 = [] then er_cursor r else eo_OutboxSeq (last done1))" "rv_disk r1 = rv_disk r" "rv_io r1 = rv_io r"
      "rv_writes r1 = rv_writes r" "rest = []"
      by (auto simp: er_ok_def)
    have q: "q = eo_OutboxSeq (last B)" "er_cursor r < q" using d(1,3,7) False B2 by auto
    have ok1: "er_ok r1" using d(5,6) assms(1) by (simp add: er_ok_def)
    obtain r2 where r2: "snd (storePublished q r1) = r2" "er_ok r2" "rv_disk r2 = rv_disk r1" "rv_log r2 = rv_log r1" "er_cursor r2 = q"
      using storePublished_ok [OF ok1] by blast
    have "er_pollOnce cfg r = (length B, r2)" using ld fe False p q(2) r2(1) by (simp add: er_pollOnce_def)
    moreover have "sent_to r2 t k = sent_to r t k @ payloads_for cfg t k B" for t k
      using d(1,2,7) r2(4) by (auto simp: sent_upto_def sent_to_def)
    ultimately show ?thesis using r2 d(4) q(1) False by auto
  qed
qed

lemma filter_after_take:
  assumes "sorted_wrt (<) (map eo_OutboxSeq hist)" and "take n (filter (\<lambda>x. a < eo_OutboxSeq x) hist) \<noteq> []"
  shows "filter (\<lambda>x. eo_OutboxSeq (last (take n (filter (\<lambda>x. a < eo_OutboxSeq x) hist))) < eo_OutboxSeq x) hist =
    drop n (filter (\<lambda>x. a < eo_OutboxSeq x) hist)"
proof -
  let ?U = "filter (\<lambda>x. a < eo_OutboxSeq x) hist"
  let ?q = "eo_OutboxSeq (last (take n ?U))"
  have "last (take n ?U) \<in> set ?U" by (rule in_set_takeD [OF last_in_set [OF assms(2)]])
  then have q: "a < ?q" by simp
  have so: "sorted_wrt (\<lambda>x y. eo_OutboxSeq x < eo_OutboxSeq y) ?U"
    using assms(1) by (simp add: sorted_wrt_map sorted_wrt_filter)
  have "filter (\<lambda>x. ?q < eo_OutboxSeq x) hist = filter (\<lambda>x. ?q < eo_OutboxSeq x) ?U"
    using q by (auto intro!: filter_cong)
  also have "\<dots> = filter (\<lambda>x. ?q < eo_OutboxSeq x) (take n ?U @ drop n ?U)" by simp
  also have "\<dots> = drop n ?U"
  proof -
    have app: "sorted_wrt (\<lambda>x y. eo_OutboxSeq x < eo_OutboxSeq y) (take n ?U @ drop n ?U)" using so by simp
    have 1: "\<forall>x \<in> set (drop n ?U). ?q < eo_OutboxSeq x"
      using app last_in_set [OF assms(2)] unfolding sorted_wrt_append by blast
    have "\<forall>x \<in> set (take n ?U). x = last (take n ?U) \<or> eo_OutboxSeq x < ?q"
    proof -
      obtain ys where ys: "take n ?U = ys @ [last (take n ?U)]" using append_butlast_last_id [OF assms(2)] by metis
      have "sorted_wrt (\<lambda>x y. eo_OutboxSeq x < eo_OutboxSeq y) (take n ?U)"
        using app unfolding sorted_wrt_append by blast
      then have "sorted_wrt (\<lambda>x y. eo_OutboxSeq x < eo_OutboxSeq y) (ys @ [last (take n ?U)])"
        using ys by simp
      then have "\<forall>x \<in> set ys. eo_OutboxSeq x < ?q" by (simp add: sorted_wrt_append)
      moreover have "set (take n ?U) = insert (last (take n ?U)) (set ys)"
        by (subst ys) simp
      ultimately show ?thesis by blast
    qed
    then have "\<forall>x \<in> set (take n ?U). \<not> ?q < eo_OutboxSeq x" by auto
    with 1 show ?thesis unfolding filter_append by (simp add: filter_empty_conv filter_id_conv)
  qed
  finally show ?thesis .
qed


section \<open>A run of two batches\<close>

definition wit_event :: "uint64 \<Rightarrow> byte \<Rightarrow> eo_record" where
  "wit_event q i = \<lparr> ev_WalSeq = 7, ev_Timestamp = 5, ev_TopicID = i, ev_KafkaPartition = 0, ev_KafkaOffset = 3,
     ev_PartitionKey = ''BTCUSDT'', ev_Payload = [ucast q], eo_OutboxSeq = q \<rparr>"

definition wit_events :: "eo_record list" where
  "wit_events = [wit_event 1 TopicTrade, wit_event 2 TopicMatch, wit_event 3 TopicMatch]"

definition wit_event_relay :: event_relay where
  "wit_event_relay =
     \<lparr> rv_disk = \<lparr> d_segs = [\<lparr> sg_num = 1, sg_data = frames (map as_wal wit_events), sg_synced = 0 \<rparr>],
                  d_io = (\<lambda>_. None), d_pos = 0 \<rparr>,
       rv_meta = Some 1, rv_meta_crash = {Some 1}, rv_io = (\<lambda>_. True), rv_iopos = 0, rv_published = 0,
       rv_log = (\<lambda>_. []), rv_writes = (\<lambda>_. Written), rv_wpos = 0 \<rparr>"

definition wit_er_config :: er_config where
  "wit_er_config = er_normalizedConfig
     \<lparr> ec_PollInterval = 0, ec_BatchSize = 1, ec_Workers = 0, ec_MatchTopic = '''', ec_TradeTopic = '''' \<rparr>"

lemma wit_log: "er_log wit_er_config (rv_disk wit_event_relay) wit_events"
proof -
  have f: "\<forall>r \<in> set wit_events. eo_fits r"
    by (simp add: wit_events_def wit_event_def eo_fits_def fits_def as_wal_len eo_bodyLen_def eo_headerFixed_def
      recordMaxBodyLen_def)
  have "SegmentPaths (rv_disk wit_event_relay) = map (\<lambda>rs. frames (map as_wal rs)) [wit_events] @ []"
    by (simp add: wit_event_relay_def SegmentPaths_def)
  then have "eo_scan_segments (SegmentPaths (rv_disk wit_event_relay)) = (wit_events, None)"
    using eo_scan_segments_frames [of "[wit_events]" "[]"] f by simp
  then show ?thesis
    by (simp add: er_log_def) (simp add: wit_events_def wit_event_def topicFor_def TopicMatch_def TopicTrade_def)
qed


end
