(* ===== verification/ShardMgr.thy ===== *)
theory ShardMgr
  imports Recovery
begin

text \<open>
  Model of \<open>pkg/shardmgr\<close> (\<open>types.go\<close>, \<open>config.go\<close>, \<open>manager.go\<close>, \<open>migration.go\<close>): which
  shard and Kafka partition a trading pair belongs to, and the phases of moving it to another
  shard; and of \<open>internal/matching/shardbind\<close>, which applies it to a matching engine.
\<close>

section \<open>Routes and migrations\<close>

definition TierExclusive :: string where "TierExclusive = ''exclusive''"
definition TierShared :: string where "TierShared = ''shared''"

record route =
  ro_Symbol :: string
  ro_ShardID :: string
  ro_KafkaPartition :: int
  ro_Node :: string
  ro_Tier :: string

definition MigrationHaltOnlyCancel :: string where "MigrationHaltOnlyCancel = ''halt_only_cancel''"
definition MigrationHaltNoWrite :: string where "MigrationHaltNoWrite = ''halt_no_write''"
definition MigrationDrain :: string where "MigrationDrain = ''drain''"
definition MigrationCutover :: string where "MigrationCutover = ''cutover''"
definition MigrationComplete :: string where "MigrationComplete = ''complete''"

lemmas phase_defs = MigrationHaltOnlyCancel_def MigrationHaltNoWrite_def MigrationDrain_def
  MigrationCutover_def MigrationComplete_def

record migration_state =
  ms_From :: route
  ms_To :: route
  ms_Phase :: string

text \<open>A shard without entry in \<open>byShard\<close> reads as the empty list.\<close>

record manager =
  mg_routes :: "string \<rightharpoonup> route"
  mg_byShard :: "string \<Rightarrow> string list"
  mg_migrations :: "string \<rightharpoonup> migration_state"

definition phaseOrder :: "string list" where
  "phaseOrder = [MigrationHaltOnlyCancel, MigrationHaltNoWrite, MigrationDrain, MigrationCutover, MigrationComplete]"

fun index_from :: "int \<Rightarrow> string \<Rightarrow> string list \<Rightarrow> int" where
  "index_from i p [] = -1"
| "index_from i p (q # qs) = (if q = p then i else index_from (i + 1) p qs)"

definition phaseIndex :: "string \<Rightarrow> int" where
  "phaseIndex p = index_from 0 p phaseOrder"

section \<open>Migrations\<close>

definition removeSymbol :: "string list \<Rightarrow> string \<Rightarrow> string list" where
  "removeSymbol xs symbol = filter (\<lambda>s. s \<noteq> symbol) xs"

definition rebuildShardIndex :: "string \<Rightarrow> string \<Rightarrow> string \<Rightarrow> manager \<Rightarrow> manager" where
  "rebuildShardIndex symbol oldShard newShard m =
     (let f = (if oldShard \<noteq> '''' then (mg_byShard m)(oldShard := removeSymbol (mg_byShard m oldShard) symbol)
               else mg_byShard m)
      in m\<lparr>mg_byShard := f(newShard := f newShard @ [symbol])\<rparr>)"

definition completeMigrationLocked :: "string \<Rightarrow> manager \<Rightarrow> err option \<times> manager" where
  "completeMigrationLocked symbol m =
     (case mg_migrations m symbol of
        None \<Rightarrow> (Some ErrMigrationNotActive, m)
      | Some st \<Rightarrow>
          (None, rebuildShardIndex symbol (ro_ShardID (ms_From st)) (ro_ShardID (ms_To st))
             (m\<lparr>mg_routes := (mg_routes m)(symbol \<mapsto> ms_To st), mg_migrations := (mg_migrations m)(symbol := None)\<rparr>)))"

definition CompleteMigration :: "string \<Rightarrow> manager \<Rightarrow> err option \<times> manager" where
  "CompleteMigration symbol m = completeMigrationLocked (trim_space symbol) m"

definition StartMigration :: "string \<Rightarrow> route \<Rightarrow> manager \<Rightarrow> err option \<times> manager" where
  "StartMigration symbol0 to0 m =
     (let symbol = trim_space symbol0
      in if symbol = '''' then (Some ErrInvalidConfig, m)
         else case mg_routes m symbol of
           None \<Rightarrow> (Some ErrSymbolNotMapped, m)
         | Some from_r \<Rightarrow>
             if mg_migrations m symbol \<noteq> None then (Some ErrMigrationActive, m)
             else if trim_space (ro_ShardID to0) = '''' \<or> trim_space (ro_Node to0) = '''' \<or> ro_KafkaPartition to0 < 0
             then (Some ErrInvalidConfig, m)
             else if ro_ShardID to0 = ro_ShardID from_r \<and> ro_KafkaPartition to0 = ro_KafkaPartition from_r
             then (Some ErrInvalidConfig, m)
             else (let to1 = to0\<lparr>ro_Symbol := symbol,
                                 ro_Tier := (if ro_Tier to0 = '''' then TierExclusive else ro_Tier to0)\<rparr>
                   in (None, m\<lparr>mg_migrations := (mg_migrations m)(symbol \<mapsto>
                         \<lparr> ms_From = from_r, ms_To = to1, ms_Phase = MigrationHaltOnlyCancel \<rparr>)\<rparr>)))"

definition SetMigrationPhase :: "string \<Rightarrow> string \<Rightarrow> manager \<Rightarrow> err option \<times> manager" where
  "SetMigrationPhase symbol0 phase m =
     (let symbol = trim_space symbol0
      in case mg_migrations m symbol of
           None \<Rightarrow> (Some ErrMigrationNotActive, m)
         | Some st \<Rightarrow>
             if phase = MigrationComplete then completeMigrationLocked symbol m
             else (let cur = phaseIndex (ms_Phase st); nxt = phaseIndex phase
                   in if cur < 0 \<or> nxt < 0 \<or> nxt \<noteq> cur + 1 then (Some ErrInvalidPhase, m)
                      else (None, m\<lparr>mg_migrations := (mg_migrations m)(symbol \<mapsto> st\<lparr>ms_Phase := phase\<rparr>)\<rparr>)))"

section \<open>Configuration\<close>

record shard_def =
  sd_ShardID :: string
  sd_KafkaPartition :: int
  sd_Node :: string
  sd_Tier :: string
  sd_Symbols :: "string list"

record migration_def =
  md_Symbol :: string
  md_FromShardID :: string
  md_ToShardID :: string
  md_ToPartition :: int
  md_ToNode :: string
  md_Phase :: string

record file_config =
  fc_Shards :: "shard_def list"
  fc_Migrations :: "migration_def list"

text \<open>An error discards the manager that is being built.\<close>

fun add_symbols :: "route \<Rightarrow> string list \<Rightarrow> manager \<Rightarrow> err + manager" where
  "add_symbols r [] m = Inr m"
| "add_symbols r (s # ss) m =
     (let symbol = trim_space s
      in if symbol = '''' then add_symbols r ss m
         else if mg_routes m symbol \<noteq> None then Inl ErrDuplicateSymbol
         else add_symbols r ss
           (m\<lparr>mg_routes := (mg_routes m)(symbol \<mapsto> r\<lparr>ro_Symbol := symbol\<rparr>),
              mg_byShard := (mg_byShard m)(ro_ShardID r := mg_byShard m (ro_ShardID r) @ [symbol])\<rparr>))"

definition addShardDef :: "shard_def \<Rightarrow> manager \<Rightarrow> err + manager" where
  "addShardDef sh m =
     (let shardID = trim_space (sd_ShardID sh); node = trim_space (sd_Node sh);
          tier = (if sd_Tier sh = '''' then TierShared else sd_Tier sh)
      in if shardID = '''' then Inl ErrInvalidConfig
         else if sd_KafkaPartition sh < 0 then Inl ErrInvalidConfig
         else if node = '''' then Inl ErrInvalidConfig
         else if tier \<noteq> TierExclusive \<and> tier \<noteq> TierShared then Inl ErrInvalidConfig
         else add_symbols \<lparr> ro_Symbol = '''', ro_ShardID = shardID, ro_KafkaPartition = sd_KafkaPartition sh,
                            ro_Node = node, ro_Tier = tier \<rparr> (sd_Symbols sh) m)"

definition applyMigrationDef :: "migration_def \<Rightarrow> manager \<Rightarrow> err + manager" where
  "applyMigrationDef md m =
     (let symbol = trim_space (md_Symbol md)
      in if symbol = '''' then Inl ErrInvalidConfig
         else case mg_routes m symbol of
           None \<Rightarrow> Inl ErrSymbolNotMapped
         | Some from_r \<Rightarrow>
             if trim_space (md_FromShardID md) \<noteq> '''' \<and> md_FromShardID md \<noteq> ro_ShardID from_r then Inl ErrInvalidConfig
             else (let phase = (if md_Phase md = '''' then MigrationHaltOnlyCancel else md_Phase md);
                       toShard = trim_space (md_ToShardID md); toNode = trim_space (md_ToNode md)
                   in if phase = MigrationComplete
                      then (case completeMigrationLocked symbol m of (Some e, _) \<Rightarrow> Inl e | (None, m1) \<Rightarrow> Inr m1)
                      else if toShard = '''' then Inl ErrInvalidConfig
                      else if toNode = '''' then Inl ErrInvalidConfig
                      else if md_ToPartition md < 0 then Inl ErrInvalidConfig
                      else Inr (m\<lparr>mg_migrations := (mg_migrations m)(symbol \<mapsto>
                             \<lparr> ms_From = from_r,
                               ms_To = \<lparr> ro_Symbol = symbol, ro_ShardID = toShard, ro_KafkaPartition = md_ToPartition md,
                                         ro_Node = toNode, ro_Tier = TierExclusive \<rparr>,
                               ms_Phase = phase \<rparr>)\<rparr>)))"

fun add_shards :: "shard_def list \<Rightarrow> manager \<Rightarrow> err + manager" where
  "add_shards [] m = Inr m"
| "add_shards (sh # shs) m = (case addShardDef sh m of Inl e \<Rightarrow> Inl e | Inr m1 \<Rightarrow> add_shards shs m1)"

fun apply_migrations :: "migration_def list \<Rightarrow> manager \<Rightarrow> err + manager" where
  "apply_migrations [] m = Inr m"
| "apply_migrations (md # mds) m =
     (case applyMigrationDef md m of Inl e \<Rightarrow> Inl e | Inr m1 \<Rightarrow> apply_migrations mds m1)"

definition NewFromConfig :: "file_config \<Rightarrow> err + manager" where
  "NewFromConfig fc =
     (case add_shards (fc_Shards fc) \<lparr> mg_routes = Map.empty, mg_byShard = (\<lambda>_. []), mg_migrations = Map.empty \<rparr> of
        Inl e \<Rightarrow> Inl e
      | Inr m \<Rightarrow> apply_migrations (fc_Migrations fc) m)"

text \<open>The file's content, decoded from JSON, is a parameter: an error, or a configuration.\<close>

definition shards_LoadFile :: "string \<Rightarrow> err + file_config \<Rightarrow> err + manager" where
  "shards_LoadFile path content =
     (if trim_space path = '''' then Inl ErrInvalidConfig
      else case content of Inl e \<Rightarrow> Inl e | Inr fc \<Rightarrow> NewFromConfig fc)"

section \<open>Queries\<close>

text \<open>\<open>None\<close> is the nil manager.\<close>

definition Resolve :: "manager option \<Rightarrow> string \<Rightarrow> err + route" where
  "Resolve mo symbol =
     (case mo of None \<Rightarrow> Inl ErrInvalidConfig
      | Some m \<Rightarrow> (case mg_routes m (trim_space symbol) of None \<Rightarrow> Inl ErrSymbolNotMapped | Some r \<Rightarrow> Inr r))"

definition CommandRoute :: "manager option \<Rightarrow> string \<Rightarrow> err + route" where
  "CommandRoute mo symbol0 =
     (case mo of None \<Rightarrow> Inl ErrInvalidConfig
      | Some m \<Rightarrow>
          (let symbol = trim_space symbol0
           in case mg_migrations m symbol of
                Some st \<Rightarrow> Inr (if ms_Phase st = MigrationCutover \<or> ms_Phase st = MigrationComplete then ms_To st else ms_From st)
              | None \<Rightarrow> (case mg_routes m symbol of None \<Rightarrow> Inl ErrSymbolNotMapped | Some r \<Rightarrow> Inr r)))"

definition PartitionForSymbol :: "manager option \<Rightarrow> string \<Rightarrow> err + int" where
  "PartitionForSymbol mo symbol =
     (case CommandRoute mo symbol of Inl e \<Rightarrow> Inl e | Inr r \<Rightarrow> Inr (ro_KafkaPartition r))"

definition AssertPlaceOrder :: "manager option \<Rightarrow> string \<Rightarrow> err option" where
  "AssertPlaceOrder mo symbol0 =
     (case mo of None \<Rightarrow> None
      | Some m \<Rightarrow>
          (let symbol = trim_space symbol0
           in if mg_routes m symbol = None then Some ErrSymbolNotMapped
              else case mg_migrations m symbol of
                     None \<Rightarrow> None
                   | Some st \<Rightarrow>
                       if ms_Phase st = MigrationHaltOnlyCancel \<or> ms_Phase st = MigrationHaltNoWrite \<or> ms_Phase st = MigrationDrain
                       then Some ErrMigrationNotAllowed else None))"

definition AssertCancelOrder :: "manager option \<Rightarrow> string \<Rightarrow> err option" where
  "AssertCancelOrder mo symbol0 =
     (case mo of None \<Rightarrow> None
      | Some m \<Rightarrow>
          (let symbol = trim_space symbol0
           in if mg_routes m symbol = None then Some ErrSymbolNotMapped
              else case mg_migrations m symbol of
                     None \<Rightarrow> None
                   | Some st \<Rightarrow> if ms_Phase st = MigrationHaltNoWrite then Some ErrMigrationNotAllowed else None))"

definition SymbolsForShard :: "manager option \<Rightarrow> string \<Rightarrow> string list" where
  "SymbolsForShard mo shardID = (case mo of None \<Rightarrow> [] | Some m \<Rightarrow> mg_byShard m shardID)"

fun validate_symbols :: "manager \<Rightarrow> string \<Rightarrow> string list \<Rightarrow> err option" where
  "validate_symbols m shardID [] = None"
| "validate_symbols m shardID (s # ss) =
     (let symbol = trim_space s
      in if symbol = '''' then validate_symbols m shardID ss
         else case mg_routes m symbol of
           None \<Rightarrow> Some ErrSymbolNotMapped
         | Some r \<Rightarrow>
             (case mg_migrations m symbol of
                Some st \<Rightarrow>
                  if ms_Phase st = MigrationCutover
                  then (if ro_ShardID r \<noteq> shardID \<and> ro_ShardID (ms_To st) \<noteq> shardID then Some ErrSymbolNotOnShard
                        else validate_symbols m shardID ss)
                  else if ro_ShardID r \<noteq> shardID then Some ErrSymbolNotOnShard else validate_symbols m shardID ss
              | None \<Rightarrow> if ro_ShardID r \<noteq> shardID then Some ErrSymbolNotOnShard else validate_symbols m shardID ss))"

definition ValidateLocalShard :: "manager option \<Rightarrow> string \<Rightarrow> string list \<Rightarrow> err option" where
  "ValidateLocalShard mo shardID symbols =
     (case mo of None \<Rightarrow> None | Some m \<Rightarrow> validate_symbols m (trim_space shardID) symbols)"

definition mgr_MigrationPhase :: "manager option \<Rightarrow> string \<Rightarrow> string option" where
  "mgr_MigrationPhase mo symbol =
     (case mo of None \<Rightarrow> None
      | Some m \<Rightarrow> (case mg_migrations m (trim_space symbol) of None \<Rightarrow> None | Some st \<Rightarrow> Some (ms_Phase st)))"

definition ShouldSymbolReadOnly :: "manager option \<Rightarrow> string \<Rightarrow> string \<Rightarrow> bool" where
  "ShouldSymbolReadOnly mo symbol localShardID =
     (case mo of None \<Rightarrow> False
      | Some m \<Rightarrow>
          (case mg_migrations m (trim_space symbol) of
             None \<Rightarrow> False
           | Some st \<Rightarrow> (ms_Phase st = MigrationDrain \<or> ms_Phase st = MigrationCutover) \<and>
                        ro_ShardID (ms_From st) = trim_space localShardID))"

section \<open>A matching engine's share\<close>

fun set_read_only :: "manager \<Rightarrow> string \<Rightarrow> ('d::zero) spec list \<Rightarrow> 'd state \<Rightarrow> 'd state" where
  "set_read_only m shardID [] st = st"
| "set_read_only m shardID (sp # sps) st =
     set_read_only m shardID sps
       (if ShouldSymbolReadOnly (Some m) (sp_Symbol sp) shardID
        then SetSymbolReadOnly (sp_Symbol sp) ''shard migration: source shard read-only'' st else st)"

definition shardbind_Apply ::
  "string \<Rightarrow> string \<Rightarrow> err + file_config \<Rightarrow> ('d::zero) registry option \<Rightarrow> 'd state \<Rightarrow> (err + manager option) \<times> 'd state" where
  "shardbind_Apply shardID shardsFile content reg st =
     (if trim_space shardsFile = '''' then (Inr None, st)
      else case shards_LoadFile shardsFile content of
             Inl e \<Rightarrow> (Inl e, st)
           | Inr m \<Rightarrow>
               if reg = None then (Inr (Some m), st)
               else (case ValidateLocalShard (Some m) shardID (map sp_Symbol (registry_All reg)) of
                       Some e \<Rightarrow> (Inl e, st)
                     | None \<Rightarrow> (Inr (Some m), set_read_only m shardID (registry_All reg) st)))"

section \<open>The tables agree\<close>

text \<open>
  \<open>byShard\<close> lists each trading pair once, under the shard of its route; a migration starts at
  the route in force and has not been completed.
\<close>

definition mgr_ok :: "manager \<Rightarrow> bool" where
  "mgr_ok m \<longleftrightarrow>
     (\<forall>sh. distinct (mg_byShard m sh) \<and>
        set (mg_byShard m sh) = {s. \<exists>r. mg_routes m s = Some r \<and> ro_ShardID r = sh}) \<and>
     (\<forall>s r. mg_routes m s = Some r \<longrightarrow> ro_ShardID r \<noteq> '''') \<and>
     (\<forall>s st. mg_migrations m s = Some st \<longrightarrow>
        mg_routes m s = Some (ms_From st) \<and> ro_ShardID (ms_To st) \<noteq> '''' \<and> ms_Phase st \<noteq> MigrationComplete)"

lemma mgr_okD:
  assumes "mgr_ok m"
  shows "distinct (mg_byShard m sh)" "s \<in> set (mg_byShard m sh) \<longleftrightarrow> (\<exists>r. mg_routes m s = Some r \<and> ro_ShardID r = sh)"
    and "mg_routes m s = Some r \<Longrightarrow> ro_ShardID r \<noteq> ''''"
    and "mg_migrations m s = Some st \<Longrightarrow> mg_routes m s = Some (ms_From st)"
    and "mg_migrations m s = Some st \<Longrightarrow> ro_ShardID (ms_To st) \<noteq> ''''"
    and "mg_migrations m s = Some st \<Longrightarrow> ms_Phase st \<noteq> MigrationComplete"
  using assms by (auto simp: mgr_ok_def)

lemma trim_empty [simp]: "trim_space [] = []"
  by (simp add: trim_space_def)

lemma mgr_ok_empty: "mgr_ok \<lparr> mg_routes = Map.empty, mg_byShard = (\<lambda>_. []), mg_migrations = Map.empty \<rparr>"
  by (simp add: mgr_ok_def)

lemma completeMigration_ok:
  assumes m: "mgr_ok m" and c: "completeMigrationLocked symbol m = (e, m')"
  shows "mgr_ok m'"
proof (cases "mg_migrations m symbol")
  case None
  with c m show ?thesis by (simp add: completeMigrationLocked_def)
next
  case (Some st)
  note d = mgr_okD [OF m]
  let ?old = "ro_ShardID (ms_From st)" and ?new = "ro_ShardID (ms_To st)"
  have r: "mg_routes m symbol = Some (ms_From st)" by (rule d(4) [OF Some])
  have old: "?old \<noteq> ''''" and new: "?new \<noteq> ''''" using d(3) [OF r] d(5) [OF Some] by auto
  have m': "m' = m\<lparr>mg_routes := (mg_routes m)(symbol \<mapsto> ms_To st), mg_migrations := (mg_migrations m)(symbol := None),
      mg_byShard := (\<lambda>sh. (if sh = ?old then removeSymbol (mg_byShard m ?old) symbol else mg_byShard m sh) @
        (if sh = ?new then [symbol] else []))\<rparr>"
    using c Some old by (auto simp: completeMigrationLocked_def rebuildShardIndex_def Let_def fun_eq_iff)
  have out: "symbol \<notin> set (mg_byShard m sh)" if "sh \<noteq> ?old" for sh using that r d(2) [of symbol sh] by auto
  have "distinct (mg_byShard m' sh)" for sh using d(1) out by (auto simp: m' removeSymbol_def)
  moreover have "set (mg_byShard m' sh) = {s. \<exists>r. mg_routes m' s = Some r \<and> ro_ShardID r = sh}" for sh
    using d(2) r by (auto simp: m' removeSymbol_def)
  moreover have "ro_ShardID q \<noteq> ''''" if "mg_routes m' s = Some q" for s q
    using that d(3) new by (auto simp: m' split: if_splits)
  moreover have "mg_routes m' s = Some (ms_From q) \<and> ro_ShardID (ms_To q) \<noteq> '''' \<and> ms_Phase q \<noteq> MigrationComplete"
    if "mg_migrations m' s = Some q" for s q
    using that d(4-6) by (auto simp: m' split: if_splits)
  ultimately show ?thesis unfolding mgr_ok_def by blast
qed

lemma complete_ok: "mgr_ok m \<Longrightarrow> mgr_ok (snd (completeMigrationLocked symbol m))"
  by (rule completeMigration_ok [OF _ surjective_pairing])

lemma mgr_ok_migration:
  assumes "mgr_ok m" "mg_routes m s = Some (ms_From st)" "ro_ShardID (ms_To st) \<noteq> ''''" "ms_Phase st \<noteq> MigrationComplete"
  shows "mgr_ok (m\<lparr>mg_migrations := (mg_migrations m)(s \<mapsto> st)\<rparr>)"
  using assms by (auto simp: mgr_ok_def)

datatype migration_op = Start string route | SetPhase string string | Complete string

definition run_op :: "migration_op \<Rightarrow> manager \<Rightarrow> manager" where
  "run_op op m =
     (case op of Start s r \<Rightarrow> snd (StartMigration s r m) | SetPhase s p \<Rightarrow> snd (SetMigrationPhase s p m)
      | Complete s \<Rightarrow> snd (CompleteMigration s m))"

lemma run_op_ok:
  assumes "mgr_ok m"
  shows "mgr_ok (run_op op m)"
proof (cases op)
  case (Start s r)
  have "mgr_ok (snd (StartMigration s r m))"
    using assms by (auto simp: StartMigration_def Let_def phase_defs intro!: mgr_ok_migration split: option.splits)
  with Start show ?thesis by (simp add: run_op_def)
next
  case (SetPhase s p)
  show ?thesis
  proof (cases "mg_migrations m (trim_space s)")
    case None
    with assms SetPhase show ?thesis by (simp add: run_op_def SetMigrationPhase_def)
  next
    case (Some st)
    have "mgr_ok (m\<lparr>mg_migrations := (mg_migrations m)(trim_space s \<mapsto> st\<lparr>ms_Phase := p\<rparr>)\<rparr>)" if "p \<noteq> MigrationComplete"
      using that mgr_okD(4,5) [OF assms Some] by (intro mgr_ok_migration [OF assms]) auto
    with Some SetPhase assms complete_ok [OF assms] show ?thesis
      by (simp add: run_op_def SetMigrationPhase_def Let_def)
  qed
next
  case (Complete s)
  with complete_ok [OF assms] show ?thesis by (simp add: run_op_def CompleteMigration_def)
qed

lemma run_ops_ok: "mgr_ok m \<Longrightarrow> mgr_ok (fold run_op ops m)"
  by (induction ops arbitrary: m) (auto intro: run_op_ok)

lemma add_symbols_ok:
  "add_symbols r ss m = Inr m' \<Longrightarrow> mgr_ok m \<Longrightarrow> ro_ShardID r \<noteq> '''' \<Longrightarrow> mgr_ok m'"
proof (induction ss arbitrary: m)
  case (Cons s ss)
  let ?s = "trim_space s"
  show ?case
  proof (cases "?s = ''''")
    case True
    with Cons show ?thesis by simp
  next
    case False
    with Cons.prems(1) have n: "mg_routes m ?s = None" by (cases "mg_routes m ?s") (simp_all add: Let_def)
    let ?m = "m\<lparr>mg_routes := (mg_routes m)(?s \<mapsto> r\<lparr>ro_Symbol := ?s\<rparr>),
      mg_byShard := (mg_byShard m)(ro_ShardID r := mg_byShard m (ro_ShardID r) @ [?s])\<rparr>"
    note d = mgr_okD [OF Cons.prems(2)]
    have out: "?s \<notin> set (mg_byShard m sh)" for sh using n d(2) by simp
    have "distinct (mg_byShard ?m sh)" for sh using d(1) out by simp
    moreover have "set (mg_byShard ?m sh) = {x. \<exists>q. mg_routes ?m x = Some q \<and> ro_ShardID q = sh}" for sh
      using d(2) n by auto
    moreover have "ro_ShardID q \<noteq> ''''" if "mg_routes ?m x = Some q" for x q using that d(3) Cons.prems(3) by (auto split: if_splits)
    moreover have "mg_routes ?m x = Some (ms_From q) \<and> ro_ShardID (ms_To q) \<noteq> '''' \<and> ms_Phase q \<noteq> MigrationComplete"
      if "mg_migrations ?m x = Some q" for x q
      using that d(4-6) n by auto
    ultimately have "mgr_ok ?m" unfolding mgr_ok_def by blast
    moreover have "add_symbols r ss ?m = Inr m'" using Cons.prems(1) False n by (simp add: Let_def)
    ultimately show ?thesis using Cons.IH Cons.prems(3) by blast
  qed
qed simp

lemma add_shards_ok: "add_shards shs m = Inr m' \<Longrightarrow> mgr_ok m \<Longrightarrow> mgr_ok m'"
proof (induction shs arbitrary: m)
  case (Cons sh shs)
  obtain m1 where m1: "addShardDef sh m = Inr m1" "add_shards shs m1 = Inr m'"
    using Cons.prems(1) by (cases "addShardDef sh m") simp_all
  have "mgr_ok m1" using m1(1) Cons.prems(2) by (auto simp: addShardDef_def Let_def intro: add_symbols_ok split: if_splits)
  with Cons.IH m1(2) show ?case by blast
qed simp

lemma apply_migrations_ok: "apply_migrations mds m = Inr m' \<Longrightarrow> mgr_ok m \<Longrightarrow> mgr_ok m'"
proof (induction mds arbitrary: m)
  case (Cons md mds)
  obtain m1 where m1: "applyMigrationDef md m = Inr m1" "apply_migrations mds m1 = Inr m'"
    using Cons.prems(1) by (cases "applyMigrationDef md m") simp_all
  have "mgr_ok m1" using m1(1) Cons.prems(2)
    by (auto simp: applyMigrationDef_def Let_def intro!: mgr_ok_migration dest!: completeMigration_ok [OF Cons.prems(2)]
        split: if_splits option.splits prod.splits)
  with Cons.IH m1(2) show ?case by blast
qed simp

lemma NewFromConfig_ok: "NewFromConfig fc = Inr m \<Longrightarrow> mgr_ok m"
  by (auto simp: NewFromConfig_def intro: apply_migrations_ok add_shards_ok [OF _ mgr_ok_empty] split: sum.splits)

lemma distinct_count_in: "distinct xs \<Longrightarrow> count_list xs x = (if x \<in> set xs then 1 else 0)"
  by (induction xs) auto

text \<open>
  After any sequence of migration operations on a loaded configuration each trading pair is
  listed exactly once, under the shard it is routed to, and nowhere else.
\<close>

theorem routing_consistent:
  assumes "NewFromConfig fc = Inr m0" and "m = fold run_op ops m0"
  shows "count_list (SymbolsForShard (Some m) sh) s =
    (if \<exists>r. mg_routes m s = Some r \<and> ro_ShardID r = sh then 1 else 0)"
proof -
  have "mgr_ok m" unfolding assms(2) by (rule run_ops_ok [OF NewFromConfig_ok [OF assms(1)]])
  from mgr_okD(1) [OF this, of sh] mgr_okD(2) [OF this, of s sh] have "distinct (mg_byShard m sh)"
    "s \<in> set (mg_byShard m sh) \<longleftrightarrow> (\<exists>r. mg_routes m s = Some r \<and> ro_ShardID r = sh)" by auto
  then show ?thesis by (simp add: SymbolsForShard_def distinct_count_in)
qed

section \<open>When commands change their way\<close>

text \<open>An operation that completes the migration of a symbol.\<close>

definition completes :: "migration_op \<Rightarrow> string \<Rightarrow> bool" where
  "completes op symbol \<longleftrightarrow>
     (case op of Start s r \<Rightarrow> False | SetPhase s p \<Rightarrow> trim_space s = symbol \<and> p = MigrationComplete
      | Complete s \<Rightarrow> trim_space s = symbol)"

definition cuts_over :: "migration_op \<Rightarrow> string \<Rightarrow> bool" where
  "cuts_over op symbol \<longleftrightarrow>
     (case op of SetPhase s p \<Rightarrow> trim_space s = symbol \<and> p = MigrationCutover | _ \<Rightarrow> False)"

lemma phase_before_cutover: "phaseIndex p = phaseIndex MigrationCutover - 1 \<Longrightarrow> 0 \<le> phaseIndex p \<Longrightarrow> p = MigrationDrain"
  by (simp add: phaseIndex_def phaseOrder_def phase_defs split: if_splits)

lemma complete_elsewhere:
  assumes "completeMigrationLocked symbol m = (e, m')" "s \<noteq> symbol"
  shows "mg_routes m' s = mg_routes m s" "mg_migrations m' s = mg_migrations m s"
  using assms by (auto simp: completeMigrationLocked_def rebuildShardIndex_def Let_def split: option.splits)

lemma CommandRoute_cong:
  "mg_routes m' (trim_space s) = mg_routes m (trim_space s) \<Longrightarrow> mg_migrations m' (trim_space s) = mg_migrations m (trim_space s) \<Longrightarrow>
     CommandRoute (Some m') s = CommandRoute (Some m) s"
  by (simp add: CommandRoute_def Let_def split: option.splits)

lemma start_keeps_route:
  assumes "mgr_ok m"
  shows "CommandRoute (Some (run_op (Start x r) m)) s = CommandRoute (Some m) s"
  using assms
  by (auto simp: run_op_def StartMigration_def CommandRoute_def Let_def phase_defs split: option.splits)

lemma complete_route:
  assumes "completeMigrationLocked symbol m = (e, m')" "CommandRoute (Some m') s \<noteq> CommandRoute (Some m) s"
  shows "symbol = trim_space s \<and> (\<exists>st. mg_migrations m symbol = Some st \<and> ms_Phase st \<noteq> MigrationCutover \<and>
    CommandRoute (Some m') s = Inr (ms_To st))"
proof -
  have eq: "symbol = trim_space s"
    using complete_elsewhere [OF assms(1), of "trim_space s"] CommandRoute_cong assms(2) by blast
  show ?thesis using assms eq
    by (auto simp: completeMigrationLocked_def rebuildShardIndex_def CommandRoute_def Let_def split: option.splits if_splits)
qed

lemma set_phase_route:
  assumes "p \<noteq> MigrationComplete" and "CommandRoute (Some (run_op (SetPhase x p) m)) s \<noteq> CommandRoute (Some m) s"
    and ok: "mgr_ok m"
  shows "trim_space x = trim_space s \<and> p = MigrationCutover \<and>
    (\<exists>st. mg_migrations m (trim_space s) = Some st \<and> ms_Phase st = MigrationDrain \<and>
      CommandRoute (Some (run_op (SetPhase x p) m)) s = Inr (ms_To st))"
proof -
  let ?x = "trim_space x"
  obtain st where st: "mg_migrations m ?x = Some st"
    using assms(2) by (cases "mg_migrations m ?x") (simp_all add: run_op_def SetMigrationPhase_def)
  have step: "phaseIndex p = phaseIndex (ms_Phase st) + 1" "0 \<le> phaseIndex (ms_Phase st)"
    and m': "run_op (SetPhase x p) m = m\<lparr>mg_migrations := (mg_migrations m)(?x \<mapsto> st\<lparr>ms_Phase := p\<rparr>)\<rparr>"
    using assms(1,2) st by (auto simp: run_op_def SetMigrationPhase_def Let_def split: if_splits)
  have eq: "?x = trim_space s"
    using assms(2) CommandRoute_cong [of "run_op (SetPhase x p) m" s m] by (cases "?x = trim_space s") (auto simp: m')
  have nc: "ms_Phase st \<noteq> MigrationComplete" by (rule mgr_okD(6) [OF ok st])
  have p: "p = MigrationCutover \<or> ms_Phase st = MigrationCutover"
    using assms(2) st nc assms(1) eq by (auto simp: m' CommandRoute_def Let_def split: if_splits)
  have "ms_Phase st \<noteq> MigrationCutover"
    using step(1) assms(1) by (auto simp: phaseIndex_def phaseOrder_def phase_defs split: if_splits)
  with p have p: "p = MigrationCutover" by simp
  have "ms_Phase st = MigrationDrain" by (rule phase_before_cutover) (use step p in simp_all)
  moreover have "CommandRoute (Some (run_op (SetPhase x p) m)) s = Inr (ms_To st)"
    unfolding m' using p eq by (simp add: CommandRoute_def)
  ultimately show ?thesis using p st eq by simp
qed

text \<open>
  C20. Commands of a trading pair start going to another shard only by the cutover of a drained
  migration, when new orders for it are refused, or because a migration was completed before
  its cutover.
\<close>

theorem command_route_changes:
  assumes "NewFromConfig fc = Inr m0" and "m = fold run_op ops m0"
    and "CommandRoute (Some (run_op op m)) s \<noteq> CommandRoute (Some m) s"
  shows "\<exists>st. mg_migrations m (trim_space s) = Some st \<and> CommandRoute (Some (run_op op m)) s = Inr (ms_To st) \<and>
    (cuts_over op (trim_space s) \<and> ms_Phase st = MigrationDrain \<and> AssertPlaceOrder (Some m) s = Some ErrMigrationNotAllowed \<or>
     completes op (trim_space s) \<and> ms_Phase st \<noteq> MigrationCutover)"
proof -
  have ok: "mgr_ok m" unfolding assms(2) by (rule run_ops_ok [OF NewFromConfig_ok [OF assms(1)]])
  have refused: "AssertPlaceOrder (Some m) s = Some ErrMigrationNotAllowed"
    if "mg_migrations m (trim_space s) = Some st" "ms_Phase st = MigrationDrain" for st
    using mgr_okD(4) [OF ok that(1)] that by (simp add: AssertPlaceOrder_def)
  have comp: ?thesis if "run_op op m = snd (completeMigrationLocked x m)" "completes op x" for x
    using complete_route [of x m "fst (completeMigrationLocked x m)" "run_op op m" s] that assms(3) by auto
  show ?thesis
  proof (cases op)
    case (Start x r)
    with start_keeps_route [OF ok] assms(3) show ?thesis by simp
  next
    case (Complete x)
    then show ?thesis by (intro comp [of "trim_space x"]) (simp_all add: run_op_def CompleteMigration_def completes_def)
  next
    case (SetPhase x p)
    show ?thesis
    proof (cases "p = MigrationComplete")
      case False
      with set_phase_route [OF False _ ok, of x s] SetPhase assms(3) refused show ?thesis by (auto simp: cuts_over_def)
    next
      case True
      have "mg_migrations m (trim_space x) \<noteq> None"
        using assms(3) SetPhase by (cases "mg_migrations m (trim_space x)") (auto simp: run_op_def SetMigrationPhase_def Let_def)
      with True SetPhase show ?thesis
        by (intro comp [of "trim_space x"]) (auto simp: run_op_def SetMigrationPhase_def completes_def Let_def)
    qed
  qed
qed

section \<open>Examples\<close>

definition wit_shards :: file_config where
  "wit_shards =
     \<lparr> fc_Shards =
         [\<lparr> sd_ShardID = ''shard-btc'', sd_KafkaPartition = 0, sd_Node = ''matching-btc-0'', sd_Tier = ''exclusive'',
            sd_Symbols = [''BTC-USDT''] \<rparr>,
          \<lparr> sd_ShardID = ''shard-0'', sd_KafkaPartition = 1, sd_Node = ''matching-0-0'', sd_Tier = '''',
            sd_Symbols = [''ETH-USDT'', ''SOL-USDT''] \<rparr>],
       fc_Migrations = [] \<rparr>"

definition wit_target :: route where
  "wit_target = \<lparr> ro_Symbol = '''', ro_ShardID = ''shard-eth'', ro_KafkaPartition = 2, ro_Node = ''matching-eth-0'',
     ro_Tier = '''' \<rparr>"

definition wit_manager :: manager where
  "wit_manager = projr (NewFromConfig wit_shards)"

definition wit_drained :: "migration_op list" where
  "wit_drained = [Start ''ETH-USDT'' wit_target, SetPhase ''ETH-USDT'' MigrationHaltNoWrite, SetPhase ''ETH-USDT'' MigrationDrain]"

lemma trim_eth [simp]: "trim_space ''ETH-USDT'' = ''ETH-USDT''"
  by (simp add: trim_space_def is_space_def)

lemma wit_manager_eq:
  "NewFromConfig wit_shards = Inr wit_manager"
  "mg_routes wit_manager ''ETH-USDT'' = Some \<lparr> ro_Symbol = ''ETH-USDT'', ro_ShardID = ''shard-0'', ro_KafkaPartition = 1,
     ro_Node = ''matching-0-0'', ro_Tier = ''shared'' \<rparr>"
  "mg_migrations wit_manager = Map.empty"
  by (simp_all add: wit_manager_def wit_shards_def NewFromConfig_def addShardDef_def TierExclusive_def TierShared_def
     trim_space_def is_space_def Let_def)

lemmas migration_eval = run_op_def StartMigration_def SetMigrationPhase_def CommandRoute_def CompleteMigration_def
  completeMigrationLocked_def rebuildShardIndex_def phaseIndex_def phaseOrder_def phase_defs Let_def
  wit_target_def trim_space_def is_space_def

theorem routing_consistent_witness:
  "count_list (SymbolsForShard (Some (fold run_op [Start ''ETH-USDT'' wit_target, Complete ''ETH-USDT''] wit_manager)) ''shard-eth'') ''ETH-USDT'' = 1"
  unfolding routing_consistent [OF wit_manager_eq(1) refl]
  by (simp add: migration_eval wit_manager_eq)

theorem command_route_changes_witness:
  "\<exists>st. mg_migrations (fold run_op wit_drained wit_manager) ''ETH-USDT'' = Some st \<and> ms_Phase st = MigrationDrain \<and>
     AssertPlaceOrder (Some (fold run_op wit_drained wit_manager)) ''ETH-USDT'' = Some ErrMigrationNotAllowed \<and>
     CommandRoute (Some (run_op (SetPhase ''ETH-USDT'' MigrationCutover) (fold run_op wit_drained wit_manager))) ''ETH-USDT'' =
       Inr (wit_target\<lparr>ro_Symbol := ''ETH-USDT'', ro_Tier := TierExclusive\<rparr>)"
proof -
  let ?m = "fold run_op wit_drained wit_manager" and ?op = "SetPhase ''ETH-USDT'' MigrationCutover"
  have c: "CommandRoute (Some (run_op ?op ?m)) ''ETH-USDT'' = Inr (wit_target\<lparr>ro_Symbol := ''ETH-USDT'', ro_Tier := TierExclusive\<rparr>)"
    "CommandRoute (Some (run_op ?op ?m)) ''ETH-USDT'' \<noteq> CommandRoute (Some ?m) ''ETH-USDT''"
    by (simp_all add: migration_eval wit_manager_eq wit_drained_def TierExclusive_def)
  have "\<not> completes ?op ''ETH-USDT''" by (simp add: completes_def phase_defs)
  with command_route_changes [OF wit_manager_eq(1) refl c(2)] c(1) show ?thesis by auto
qed

text \<open>A migration that is completed right after its start moves the commands without any halt or drain.\<close>

lemma early_completion:
  "SetMigrationPhase ''ETH-USDT'' MigrationComplete (run_op (Start ''ETH-USDT'' wit_target) wit_manager) =
     (None, run_op (Complete ''ETH-USDT'') (run_op (Start ''ETH-USDT'' wit_target) wit_manager))"
  by (simp add: migration_eval wit_manager_eq)

text \<open>A configured migration in phase \<open>complete\<close> fails, since nothing has started it.\<close>

lemma configured_complete_fails:
  assumes "mg_migrations m (trim_space (md_Symbol md)) = None" "md_Phase md = MigrationComplete"
  shows "\<exists>e. applyMigrationDef md m = Inl e"
  using assms by (auto simp: applyMigrationDef_def completeMigrationLocked_def phase_defs Let_def split: option.splits)

end
