(* ===== verification/OrderService.thy ===== *)
theory OrderService
  imports RepoProps ShardMgr
begin

text \<open>
  Model of \<open>internal/order/service\<close> (\<open>order.go\<close>, \<open>balance.go\<close>) and of the idempotency cache
  \<open>internal/order/idempotency/redis.go\<close>: validation of requests, idempotent placing of orders,
  cancelling and the queries. The interface \<open>OrderStore\<close> is a record of functions, as the Go
  interface is; the repository of theory \<open>OrderRepo\<close> is its instance. Metrics are left out.
\<close>

section \<open>The store\<close>

record 's order_store =
  st_FindByClientOrderID :: "uint64 \<Rightarrow> string \<Rightarrow> 's \<Rightarrow> (err + porder option) \<times> 's"
  st_InsertPending :: "insert_pending_input \<Rightarrow> 's \<Rightarrow> (err + porder) \<times> 's"
  st_GetOrderByUser :: "uint64 \<Rightarrow> uint64 \<Rightarrow> 's \<Rightarrow> (err + porder) \<times> 's"
  st_BeginCancel :: "uint64 \<Rightarrow> uint64 \<Rightarrow> string \<Rightarrow> 's \<Rightarrow> (err + porder) \<times> 's"
  st_ListOrders :: "list_orders_filter \<Rightarrow> 's \<Rightarrow> (err + porder list) \<times> 's"
  st_ListTrades :: "list_trades_filter \<Rightarrow> 's \<Rightarrow> (err + user_trade list) \<times> 's"

definition repo_store :: "('d::linordered_idom) denv \<Rightarrow> env_codec \<Rightarrow> 'd db order_store" where
  "repo_store D C =
     \<lparr> st_FindByClientOrderID = FindByClientOrderID D, st_InsertPending = InsertPending D C,
       st_GetOrderByUser = GetOrderByUser D, st_BeginCancel = BeginCancel D C,
       st_ListOrders = ListOrders D, st_ListTrades = ListTrades \<rparr>"

section \<open>The idempotency cache\<close>

text \<open>
  The keys of the Redis server and the outcome of each call: answered, answered after the
  entry ran out, not executed, or executed with the answer lost.
\<close>

datatype cache_outcome = Answered | Expired | NotSent | AnswerLost

record cache =
  rd_data :: "string \<rightharpoonup> string"
  rd_calls :: "nat \<Rightarrow> cache_outcome"
  rd_pos :: nat

definition rd_call :: "cache \<Rightarrow> cache_outcome \<times> cache" where
  "rd_call c = (rd_calls c (rd_pos c), c\<lparr>rd_pos := Suc (rd_pos c)\<rparr>)"

definition rd_Get :: "string \<Rightarrow> cache \<Rightarrow> (err + string option) \<times> cache" where
  "rd_Get k c =
     (let (oc, c1) = rd_call c
      in case oc of
           Answered \<Rightarrow> (Inr (rd_data c1 k), c1)
         | Expired \<Rightarrow> (Inr None, c1\<lparr>rd_data := (rd_data c1)(k := None)\<rparr>)
         | _ \<Rightarrow> (Inl (ErrMsg ''redis''), c1))"

definition rd_Set :: "string \<Rightarrow> string \<Rightarrow> cache \<Rightarrow> (err + unit) \<times> cache" where
  "rd_Set k v c =
     (let (oc, c1) = rd_call c
      in case oc of
           NotSent \<Rightarrow> (Inl (ErrMsg ''redis''), c1)
         | AnswerLost \<Rightarrow> (Inl (ErrMsg ''redis''), c1\<lparr>rd_data := (rd_data c1)(k \<mapsto> v)\<rparr>)
         | _ \<Rightarrow> (Inr (), c1\<lparr>rd_data := (rd_data c1)(k \<mapsto> v)\<rparr>))"

definition keyPrefix :: string where "keyPrefix = ''idempotent:order:''"

definition cacheKey :: "uint64 \<Rightarrow> string \<Rightarrow> string" where
  "cacheKey userID clientOrderID = keyPrefix @ show_nat (unat userID) @ '':'' @ clientOrderID"

definition cache_Lookup :: "uint64 \<Rightarrow> string \<Rightarrow> cache \<Rightarrow> (err + uint64 option) \<times> cache" where
  "cache_Lookup userID clientOrderID c =
     (if userID = 0 \<or> trim_space clientOrderID = '''' then (Inr None, c)
      else case rd_Get (cacheKey userID clientOrderID) c of
             (Inl e, c1) \<Rightarrow> (Inl e, c1)
           | (Inr None, c1) \<Rightarrow> (Inr None, c1)
           | (Inr (Some v), c1) \<Rightarrow>
               (case parse_uint64 (trim_space v) of
                  None \<Rightarrow> (Inr None, c1)
                | Some n \<Rightarrow> (Inr (if n = 0 then None else Some (of_nat n)), c1)))"

definition Remember :: "uint64 \<Rightarrow> string \<Rightarrow> uint64 \<Rightarrow> cache \<Rightarrow> (err + unit) \<times> cache" where
  "Remember userID clientOrderID orderID c =
     (if userID = 0 \<or> orderID = 0 \<or> trim_space clientOrderID = '''' then (Inr (), c)
      else rd_Set (cacheKey userID clientOrderID) (show_nat (unat orderID)) c)"

section \<open>The service\<close>

text \<open>
  \<open>None\<close> is a nil dependency. The reference price comes from the market data service, a
  parameter.
\<close>

record 'd order_service =
  sv_OutboxTopic :: string
  sv_MarketData :: "(string \<Rightarrow> err + string) option"
  sv_SlippageBuffer :: 'd
  sv_Symbols :: "'d registry option"
  sv_Shards :: "manager option"

type_synonym 's service_state = "'s \<times> cache option"

definition symbolRules :: "'d libs \<Rightarrow> 'd order_service \<Rightarrow> string \<Rightarrow> err + 'd spec" where
  "symbolRules L sv symbolName =
     (if sv_Symbols sv \<noteq> None then Lookup (sv_Symbols sv) symbolName
      else case DefaultRegistry L of Inl e \<Rightarrow> Inl e | Inr reg \<Rightarrow> Lookup (Some reg) symbolName)"

definition shardPreconditionErr :: "err \<Rightarrow> err" where
  "shardPreconditionErr e = (if e = ErrSymbolNotMapped then ErrInvalidArgument else ErrFailedPrecondition)"

record place_order_request =
  pr_UserId :: uint64
  pr_ClientOrderId :: string
  pr_Symbol :: string
  pr_Side :: int
  pr_Type :: int
  pr_Quantity :: pb_decimal
  pr_Price :: pb_decimal

text \<open>
  The fields that the branches of \<open>validatePlaceOrder\<close> fill in: price, freeze price, slippage
  and frozen amount. \<open>the\<close> stands for \<open>NewFromString\<close> on text that has just been printed.
\<close>

type_synonym freeze_fields = "string option \<times> string option \<times> string option \<times> string option"

definition limit_fields ::
  "('d::linordered_idom) libs \<Rightarrow> 'd spec \<Rightarrow> place_order_request \<Rightarrow> 'd \<Rightarrow> err + freeze_fields" where
  "limit_fields L spec req qty =
     (case dec_of_string L (trim_space (GetValue (pr_Price req))) of
        None \<Rightarrow> Inl ErrInvalidArgument
      | Some price0 \<Rightarrow>
          if \<not> 0 < price0 then Inl ErrInvalidArgument
          else (case ValidatePrice L spec price0 of
            Inl e \<Rightarrow> Inl ErrInvalidArgument
          | Inr priceNorm \<Rightarrow>
              (let price = the (dec_of_string L priceNorm)
               in if CheckMinNotional spec price qty \<noteq> None then Inl ErrInvalidArgument
                  else Inr (Some priceNorm,
                            (if pr_Side req = Side_SIDE_BUY then Some priceNorm else None), None,
                            (if pr_Side req = Side_SIDE_BUY then Some (dec_to_string L (price * qty)) else None)))))"

definition market_price ::
  "('d::linordered_idom) libs \<Rightarrow> 'd order_service \<Rightarrow> 'd spec \<Rightarrow> place_order_request \<Rightarrow> string \<Rightarrow> err + 'd" where
  "market_price L sv spec req symbol =
     (if trim_space (GetValue (pr_Price req)) \<noteq> '''' then
        (case dec_of_string L (trim_space (GetValue (pr_Price req))) of
           None \<Rightarrow> Inl ErrInvalidArgument
         | Some p \<Rightarrow>
             if \<not> 0 < p then Inl ErrInvalidArgument
             else (case ValidatePrice L spec p of
                     Inl e \<Rightarrow> Inl ErrInvalidArgument | Inr priceNorm \<Rightarrow> Inr (the (dec_of_string L priceNorm))))
      else
        (case sv_MarketData sv of
           None \<Rightarrow> Inl ErrUnavailable
         | Some md \<Rightarrow>
             (case md symbol of
                Inl e \<Rightarrow> Inl ErrUnavailable
              | Inr ref \<Rightarrow>
                  (case dec_of_string L (trim_space ref) of
                     None \<Rightarrow> Inl ErrUnavailable
                   | Some p \<Rightarrow>
                       if \<not> 0 < p then Inl ErrUnavailable
                       else (case CeilPrice L spec p of
                               Inl e \<Rightarrow> Inl ErrInvalidArgument
                             | Inr priceNorm \<Rightarrow> Inr (the (dec_of_string L priceNorm)))))))"

definition market_buy_fields ::
  "('d::linordered_idom) libs \<Rightarrow> 'd order_service \<Rightarrow> 'd spec \<Rightarrow> place_order_request \<Rightarrow> string \<Rightarrow> 'd \<Rightarrow> err + freeze_fields" where
  "market_buy_fields L sv spec req symbol qty =
     (case market_price L sv spec req symbol of
        Inl e \<Rightarrow> Inl e
      | Inr freezePrice \<Rightarrow>
          if CheckMinNotional spec freezePrice qty \<noteq> None then Inl ErrInvalidArgument
          else (let slippage = (if sv_SlippageBuffer sv < 0 then 0 else sv_SlippageBuffer sv)
                in Inr (None, Some (dec_to_string L freezePrice), Some (dec_to_string L slippage),
                        Some (dec_to_string L (freezePrice * qty * (1 + slippage))))))"

definition validatePlaceOrder ::
  "('d::linordered_idom) libs \<Rightarrow> 'd order_service \<Rightarrow> place_order_request \<Rightarrow> err + insert_pending_input" where
  "validatePlaceOrder L sv req =
     (let clientOrderID = trim_space (pr_ClientOrderId req); symbol = trim_space (pr_Symbol req)
      in if pr_UserId req = 0 then Inl ErrInvalidArgument
         else if clientOrderID = '''' then Inl ErrInvalidArgument
         else if 64 < length clientOrderID then Inl ErrInvalidArgument
         else if symbol = '''' then Inl ErrInvalidArgument
         else if pr_Side req \<noteq> Side_SIDE_BUY \<and> pr_Side req \<noteq> Side_SIDE_SELL then Inl ErrInvalidArgument
         else if pr_Type req \<noteq> OrderType_LIMIT \<and> pr_Type req \<noteq> OrderType_MARKET then Inl ErrInvalidArgument
         else case symbolRules L sv symbol of
           Inl e \<Rightarrow> Inl ErrInvalidArgument
         | Inr spec \<Rightarrow>
             (case AssertPlaceOrder (sv_Shards sv) symbol of
                Some e \<Rightarrow> Inl (shardPreconditionErr e)
              | None \<Rightarrow>
             (case dec_of_string L (trim_space (GetValue (pr_Quantity req))) of
                None \<Rightarrow> Inl ErrInvalidArgument
              | Some qty0 \<Rightarrow>
                  if \<not> 0 < qty0 then Inl ErrInvalidArgument
                  else (case ValidateQuantity L spec qty0 of
                    Inl e \<Rightarrow> Inl ErrInvalidArgument
                  | Inr qtyNorm \<Rightarrow>
                      (let qty = the (dec_of_string L qtyNorm)
                       in case (if pr_Type req = OrderType_LIMIT then limit_fields L spec req qty
                                else if pr_Side req = Side_SIDE_BUY then market_buy_fields L sv spec req symbol qty
                                else Inr (None, None, None, None)) of
                            Inl e \<Rightarrow> Inl e
                          | Inr (price, freezePrice, freezeSlippage, frozenAmount) \<Rightarrow>
                              Inr \<lparr> ip_UserID = pr_UserId req, ip_ClientOrderID = clientOrderID, ip_Symbol = symbol,
                                    ip_Side = pr_Side req, ip_OrderType = pr_Type req, ip_Price = price,
                                    ip_FreezePrice = freezePrice, ip_FreezeSlippage = freezeSlippage,
                                    ip_FrozenAmount = frozenAmount, ip_Quantity = qtyNorm, ip_OutboxTopic = '''' \<rparr>)))))"

section \<open>Placing an order\<close>

record place_order_response =
  pp_OrderId :: uint64
  pp_ClientOrderId :: string
  pp_Symbol :: string
  pp_Status :: string
  pp_CreatedAt :: tstamp
  pp_IdempotentHit :: bool

definition toPlaceOrderResponse :: "'d libs \<Rightarrow> porder \<Rightarrow> bool \<Rightarrow> place_order_response" where
  "toPlaceOrderResponse L od hit =
     \<lparr> pp_OrderId = po_ID od, pp_ClientOrderId = po_ClientOrderID od, pp_Symbol = po_Symbol od,
       pp_Status = po_Status od, pp_CreatedAt = ts_new L (po_CreatedAt od), pp_IdempotentHit = hit \<rparr>"

text \<open>With a cache a miss skips the database: a duplicate is then found by \<open>InsertPending\<close>.\<close>

definition lookupIdempotentOrder ::
  "'s order_store \<Rightarrow> uint64 \<Rightarrow> string \<Rightarrow> 's service_state \<Rightarrow> (err + porder option) \<times> 's service_state" where
  "lookupIdempotentOrder S userID clientOrderID st =
     (case snd st of
        Some c \<Rightarrow>
          (let (r, c1) = cache_Lookup userID clientOrderID c
           in case r of
                Inr (Some orderID) \<Rightarrow>
                  (let (r2, s1) = st_GetOrderByUser S userID orderID (fst st)
                   in ((case r2 of Inr od \<Rightarrow> Inr (Some od) | Inl e \<Rightarrow> Inr None), s1, Some c1))
              | _ \<Rightarrow> (Inr None, fst st, Some c1))
      | None \<Rightarrow> (let (r, s1) = st_FindByClientOrderID S userID clientOrderID (fst st) in (r, s1, None)))"

definition remember :: "uint64 \<Rightarrow> string \<Rightarrow> uint64 \<Rightarrow> cache option \<Rightarrow> cache option" where
  "remember userID clientOrderID orderID co =
     map_option (\<lambda>c. snd (Remember userID clientOrderID orderID c)) co"

definition insert_order ::
  "'s order_store \<Rightarrow> 'd libs \<Rightarrow> insert_pending_input \<Rightarrow> 's service_state \<Rightarrow> (err + place_order_response) \<times> 's service_state" where
  "insert_order S L inp st =
     (let (s, co) = st; u = ip_UserID inp; c = ip_ClientOrderID inp
      in case st_InsertPending S inp s of
           (Inl e, s1) \<Rightarrow>
             if e = ErrDuplicateClientOrder then
               (case st_FindByClientOrderID S u c s1 of
                  (Inl e2, s2) \<Rightarrow> (Inl e2, s2, co)
                | (Inr None, s2) \<Rightarrow> (Inl (ErrMsg ''duplicate client_order_id but order not found''), s2, co)
                | (Inr (Some od), s2) \<Rightarrow> (Inr (toPlaceOrderResponse L od True), s2, remember u c (po_ID od) co))
             else if e = ErrInsufficientBalance then (Inl ErrFailedPrecondition, s1, co)
             else (Inl e, s1, co)
         | (Inr od, s1) \<Rightarrow> (Inr (toPlaceOrderResponse L od False), s1, remember u c (po_ID od) co))"

definition PlaceOrder ::
  "('d::linordered_idom) libs \<Rightarrow> 's order_store \<Rightarrow> 'd order_service \<Rightarrow> place_order_request option \<Rightarrow> 's service_state \<Rightarrow>
     (err + place_order_response) \<times> 's service_state" where
  "PlaceOrder L S sv reqo st =
     (case reqo of None \<Rightarrow> (Inl ErrInvalidArgument, st)
      | Some req \<Rightarrow>
     (case validatePlaceOrder L sv req of
        Inl e \<Rightarrow> (Inl e, st)
      | Inr inp0 \<Rightarrow>
          (let inp = inp0\<lparr>ip_OutboxTopic := sv_OutboxTopic sv\<rparr>
           in case lookupIdempotentOrder S (ip_UserID inp) (ip_ClientOrderID inp) st of
                (Inl e, st1) \<Rightarrow> (Inl e, st1)
              | (Inr (Some od), st1) \<Rightarrow> (Inr (toPlaceOrderResponse L od True), st1)
              | (Inr None, st1) \<Rightarrow> insert_order S L inp st1)))"

section \<open>Cancelling and reading\<close>

record cancel_order_response =
  cr_OrderId :: uint64
  cr_Symbol :: string
  cr_Status :: string

definition not_found :: "err \<Rightarrow> err" where
  "not_found e = (if e = ErrOrderNotFound then ErrNotFound else e)"

text \<open>A request is its user and order id.\<close>

definition srv_CancelOrder ::
  "'s order_store \<Rightarrow> 'd order_service \<Rightarrow> (uint64 \<times> uint64) option \<Rightarrow> 's \<Rightarrow> (err + cancel_order_response) \<times> 's" where
  "srv_CancelOrder S sv req s =
     (case req of None \<Rightarrow> (Inl ErrInvalidArgument, s)
      | Some (u, i) \<Rightarrow>
          if u = 0 then (Inl ErrInvalidArgument, s)
          else if i = 0 then (Inl ErrInvalidArgument, s)
          else (case st_GetOrderByUser S u i s of
                  (Inl e, s1) \<Rightarrow> (Inl (not_found e), s1)
                | (Inr existing, s1) \<Rightarrow>
                    (case AssertCancelOrder (sv_Shards sv) (po_Symbol existing) of
                       Some e \<Rightarrow> (Inl (shardPreconditionErr e), s1)
                     | None \<Rightarrow>
                         (case st_BeginCancel S u i (sv_OutboxTopic sv) s1 of
                            (Inl e, s2) \<Rightarrow> (Inl (if e = ErrOrderNotCancelable then ErrFailedPrecondition else not_found e), s2)
                          | (Inr od, s2) \<Rightarrow>
                              (Inr \<lparr> cr_OrderId = po_ID od, cr_Symbol = po_Symbol od, cr_Status = po_Status od \<rparr>, s2)))))"

record order_info =
  oi_OrderId :: uint64
  oi_ClientOrderId :: string
  oi_Symbol :: string
  oi_Side :: int
  oi_Type :: int
  oi_Price :: pb_decimal
  oi_Quantity :: pb_decimal
  oi_FilledQuantity :: pb_decimal
  oi_Status :: string
  oi_CreatedAt :: tstamp
  oi_UpdatedAt :: tstamp

definition toOrderInfoPB :: "'d libs \<Rightarrow> porder \<Rightarrow> order_info" where
  "toOrderInfoPB L od =
     \<lparr> oi_OrderId = po_ID od, oi_ClientOrderId = po_ClientOrderID od, oi_Symbol = po_Symbol od, oi_Side = po_Side od,
       oi_Type = po_OrderType od, oi_Price = po_Price od, oi_Quantity = Some (po_Quantity od),
       oi_FilledQuantity = Some (po_FilledQuantity od), oi_Status = po_Status od,
       oi_CreatedAt = ts_new L (po_CreatedAt od), oi_UpdatedAt = ts_new L (po_UpdatedAt od) \<rparr>"

definition srv_GetOrder ::
  "'d libs \<Rightarrow> 's order_store \<Rightarrow> (uint64 \<times> uint64) option \<Rightarrow> 's \<Rightarrow> (err + order_info) \<times> 's" where
  "srv_GetOrder L S req s =
     (case req of None \<Rightarrow> (Inl ErrInvalidArgument, s)
      | Some (u, i) \<Rightarrow>
          if u = 0 then (Inl ErrInvalidArgument, s)
          else if i = 0 then (Inl ErrInvalidArgument, s)
          else (case st_GetOrderByUser S u i s of
                  (Inl e, s1) \<Rightarrow> (Inl (not_found e), s1) | (Inr od, s1) \<Rightarrow> (Inr (toOrderInfoPB L od), s1)))"

record list_orders_request =
  lr_UserId :: uint64
  lr_Symbol :: string
  lr_Side :: int
  lr_Type :: int
  lr_Status :: string
  lr_CreatedAtFrom :: "tstamp option"
  lr_CreatedAtTo :: "tstamp option"
  lr_Page :: int
  lr_PageSize :: int

definition isValidOrderStatus :: "string \<Rightarrow> bool" where
  "isValidOrderStatus s \<longleftrightarrow> s \<in> {''PENDING'', ''ACCEPTED'', ''PARTIAL'', ''CANCELING'', ''FILLED'', ''CANCELED'', ''REJECTED''}"

definition as_time :: "'d libs \<Rightarrow> tstamp option \<Rightarrow> time option" where
  "as_time L ts = (case ts of None \<Rightarrow> None | Some x \<Rightarrow> Some (ts_as_time L (Some x)))"

definition after_opt :: "time option \<Rightarrow> time option \<Rightarrow> bool" where
  "after_opt a b = (case (a, b) of (Some x, Some y) \<Rightarrow> y < x | _ \<Rightarrow> False)"

definition buildListOrdersFilter :: "'d libs \<Rightarrow> list_orders_request \<Rightarrow> err + list_orders_filter" where
  "buildListOrdersFilter L req =
     (let status = trim_space (to_upper (lr_Status req));
          from_t = as_time L (lr_CreatedAtFrom req); to_t = as_time L (lr_CreatedAtTo req)
      in if lr_Side req \<noteq> Side_SIDE_UNSPECIFIED \<and> lr_Side req \<noteq> Side_SIDE_BUY \<and> lr_Side req \<noteq> Side_SIDE_SELL
         then Inl ErrInvalidArgument
         else if lr_Type req \<noteq> OrderType_UNSPECIFIED \<and> lr_Type req \<noteq> OrderType_LIMIT \<and> lr_Type req \<noteq> OrderType_MARKET
         then Inl ErrInvalidArgument
         else if status \<noteq> '''' \<and> \<not> isValidOrderStatus status then Inl ErrInvalidArgument
         else if after_opt from_t to_t then Inl ErrInvalidArgument
         else Inr \<lparr> lf_UserID = lr_UserId req, lf_Symbol = trim_space (lr_Symbol req), lf_Side = lr_Side req,
                    lf_OrderType = lr_Type req, lf_Status = status, lf_CreatedAtFrom = from_t, lf_CreatedAtTo = to_t,
                    lf_Page = lr_Page req, lf_PageSize = lr_PageSize req \<rparr>)"

definition srv_ListOrders ::
  "'d libs \<Rightarrow> 's order_store \<Rightarrow> list_orders_request option \<Rightarrow> 's \<Rightarrow> (err + order_info list) \<times> 's" where
  "srv_ListOrders L S reqo s =
     (case reqo of None \<Rightarrow> (Inl ErrInvalidArgument, s)
      | Some req \<Rightarrow>
          if lr_UserId req = 0 then (Inl ErrInvalidArgument, s)
          else (case buildListOrdersFilter L req of
                  Inl e \<Rightarrow> (Inl e, s)
                | Inr f \<Rightarrow>
                    (case st_ListOrders S f s of
                       (Inl e, s1) \<Rightarrow> (Inl e, s1) | (Inr os, s1) \<Rightarrow> (Inr (map (toOrderInfoPB L) os), s1))))"

record trade_info =
  ti_TradeId :: uint64
  ti_Symbol :: string
  ti_Price :: pb_decimal
  ti_Quantity :: pb_decimal
  ti_MakerOrderId :: uint64
  ti_TakerOrderId :: uint64
  ti_CreatedAt :: tstamp
  ti_OrderId :: uint64
  ti_Side :: string
  ti_IsMaker :: bool

definition tradeSideLabel :: "int \<Rightarrow> string" where
  "tradeSideLabel side =
     (if side = Side_SIDE_BUY then ''BUY'' else if side = Side_SIDE_SELL then ''SELL'' else '''')"

definition toTradeInfoPB :: "'d libs \<Rightarrow> user_trade \<Rightarrow> trade_info" where
  "toTradeInfoPB L t =
     \<lparr> ti_TradeId = ta_TradeID (ut_Trade t), ti_Symbol = ta_Symbol (ut_Trade t), ti_Price = Some (ta_Price (ut_Trade t)),
       ti_Quantity = Some (ta_Quantity (ut_Trade t)), ti_MakerOrderId = ta_MakerOrderID (ut_Trade t),
       ti_TakerOrderId = ta_TakerOrderID (ut_Trade t), ti_CreatedAt = ts_new L (ut_CreatedAt t),
       ti_OrderId = ut_UserOrderID t, ti_Side = tradeSideLabel (ut_Side t), ti_IsMaker = ut_IsMaker t \<rparr>"

record list_trades_request =
  lt_UserId :: uint64
  lt_Symbol :: string
  lt_OrderId :: uint64
  lt_CreatedAtFrom :: "tstamp option"
  lt_CreatedAtTo :: "tstamp option"
  lt_Page :: int
  lt_PageSize :: int

definition srv_ListTrades ::
  "'d libs \<Rightarrow> 's order_store \<Rightarrow> list_trades_request option \<Rightarrow> 's \<Rightarrow> (err + trade_info list) \<times> 's" where
  "srv_ListTrades L S reqo s =
     (case reqo of None \<Rightarrow> (Inl ErrInvalidArgument, s)
      | Some req \<Rightarrow>
          (let f = \<lparr> tf_UserID = lt_UserId req, tf_Symbol = trim_space (lt_Symbol req), tf_OrderID = lt_OrderId req,
                     tf_CreatedAtFrom = as_time L (lt_CreatedAtFrom req), tf_CreatedAtTo = as_time L (lt_CreatedAtTo req),
                     tf_Page = lt_Page req, tf_PageSize = lt_PageSize req \<rparr>
           in if lt_UserId req = 0 then (Inl ErrInvalidArgument, s)
              else if after_opt (tf_CreatedAtFrom f) (tf_CreatedAtTo f) then (Inl ErrInvalidArgument, s)
              else (case st_ListTrades S f s of
                      (Inl e, s1) \<Rightarrow> (Inl e, s1) | (Inr ts, s1) \<Rightarrow> (Inr (map (toTradeInfoPB L) ts), s1))))"

section \<open>Balances\<close>

record balance_pb =
  bp_Asset :: string
  bp_Balance :: pb_decimal
  bp_Frozen :: pb_decimal
  bp_Available :: pb_decimal

definition toBalancePB :: "('d::linordered_idom) libs \<Rightarrow> 'd balance_row \<Rightarrow> balance_pb" where
  "toBalancePB L r =
     \<lparr> bp_Asset = br_Asset r, bp_Balance = Some (dec_to_string L (br_Balance r)),
       bp_Frozen = Some (dec_to_string L (br_Frozen r)), bp_Available = Some (dec_to_string L (Available r)) \<rparr>"

definition validateBalanceUserAsset :: "uint64 \<Rightarrow> string \<Rightarrow> err + (uint64 \<times> string)" where
  "validateBalanceUserAsset userID asset0 =
     (let asset = trim_space (to_upper asset0)
      in if userID = 0 then Inl ErrInvalidArgument
         else if asset = '''' then Inl ErrInvalidArgument
         else if 16 < length asset then Inl ErrInvalidArgument
         else Inr (userID, asset))"

definition parseDecimalField :: "'d libs \<Rightarrow> pb_decimal \<Rightarrow> err + 'd" where
  "parseDecimalField L d =
     (if d = None \<or> trim_space (GetValue d) = '''' then Inl ErrInvalidArgument
      else case dec_of_string L (trim_space (GetValue d)) of None \<Rightarrow> Inl ErrInvalidArgument | Some v \<Rightarrow> Inr v)"

definition srv_GetBalance ::
  "('d::linordered_idom) libs \<Rightarrow> (uint64 \<times> string) option \<Rightarrow> ('d, balance_pb) tx" where
  "srv_GetBalance L req =
     (case req of None \<Rightarrow> fail_tx ErrInvalidArgument
      | Some (u0, a0) \<Rightarrow>
          (case validateBalanceUserAsset u0 a0 of
             Inl e \<Rightarrow> fail_tx e
           | Inr (u, a) \<Rightarrow> (\<lambda>db. case GetBalance u a db of
                 (Inl e, db1) \<Rightarrow> (Inl (if e = ErrBalanceNotFound then ErrNotFound else e), db1)
               | (Inr r, db1) \<Rightarrow> (Inr (toBalancePB L r), db1))))"

definition srv_ListBalances ::
  "('d::linordered_idom) libs \<Rightarrow> uint64 option \<Rightarrow> ('d, balance_pb list) tx" where
  "srv_ListBalances L req =
     (case req of None \<Rightarrow> fail_tx ErrInvalidArgument
      | Some u \<Rightarrow> if u = 0 then fail_tx ErrInvalidArgument
                  else bind_tx (ListBalances u) (\<lambda>rows. return_tx (map (toBalancePB L) rows)))"

record update_balance_request =
  uq_UserId :: uint64
  uq_Asset :: string
  uq_Business :: string
  uq_BusinessId :: uint64
  uq_Change :: pb_decimal

definition srv_UpdateBalance ::
  "('d::linordered_idom) libs \<Rightarrow> update_balance_request option \<Rightarrow> ('d, balance_pb) tx" where
  "srv_UpdateBalance L reqo =
     (case reqo of None \<Rightarrow> fail_tx ErrInvalidArgument
      | Some req \<Rightarrow>
          (case validateBalanceUserAsset (uq_UserId req) (uq_Asset req) of
             Inl e \<Rightarrow> fail_tx e
           | Inr (u, a) \<Rightarrow>
               (let business = trim_space (uq_Business req)
                in if business = '''' then fail_tx ErrInvalidArgument
                   else if 32 < length business then fail_tx ErrInvalidArgument
                   else (case parseDecimalField L (uq_Change req) of
                     Inl e \<Rightarrow> fail_tx e
                   | Inr change \<Rightarrow>
                       if change = 0 then fail_tx ErrInvalidArgument
                       else (\<lambda>db. case UpdateBalance \<lparr> ub_UserID = u, ub_Asset = a, ub_Business = business,
                                         ub_BusinessID = uq_BusinessId req, ub_Change = change \<rparr> db of
                               (Inl e, db1) \<Rightarrow> (Inl (if e = ErrInsufficientBalance then ErrFailedPrecondition else e), db1)
                             | (Inr r, db1) \<Rightarrow> (Inr (toBalancePB L r), db1))))))"

end
