(* ===== verification/PlacedOrders.thy ===== *)
theory PlacedOrders
  imports OrderService
begin

text \<open>
  What the order service accepts, the matching shard can execute: the request passes through
  \<open>validatePlaceOrder\<close>, the row of \<open>InsertPending\<close>, the command of the outbox and
  \<open>OrderFromProto\<close>, and the shard that was set up from the same rules takes it.
\<close>

section \<open>The rules of a pair\<close>

declare trim_trim [simp]

definition reg_ok :: "'d registry \<Rightarrow> bool" where
  "reg_ok reg \<longleftrightarrow> distinct (map fst reg) \<and> (\<forall>(k, sp) \<in> set reg. sp_Symbol sp = k)"

lemma parse_specs_symbols: "parse_specs L m = Inr sps \<Longrightarrow> \<forall>sp \<in> set sps. normalizeKey (sp_Symbol sp) = sp_Symbol sp"
proof (induction m arbitrary: sps)
  case (Cons x m)
  obtain s r where x: "x = (s, r)" by fastforce
  obtain sp sps' where p: "ParseSpec L s r = Inr sp" "parse_specs L m = Inr sps'" "sps = sp # sps'"
    using Cons.prems x by (auto split: sum.splits)
  have "sp_Symbol sp = normalizeKey s" using p(1) by (auto simp: ParseSpec_def Let_def split: if_splits option.splits sum.splits)
  then have "normalizeKey (sp_Symbol sp) = sp_Symbol sp" by (simp add: normalizeKey_def)
  with Cons.IH [OF p(2)] p(3) show ?case by simp
qed simp

lemma RegistryFromMap_ok:
  assumes "RegistryFromMap L m = Inr reg"
  shows "reg_ok reg"
proof -
  obtain sps where s: "parse_specs L m = Inr sps" "add_specs sps [] = Inr reg"
    using assms by (auto simp: RegistryFromMap_def NewRegistry_def split: sum.splits)
  from add_specs_Inr [OF s(2)] have a: "distinct (map fst reg)"
    "map fst reg = map (\<lambda>sp. normalizeKey (sp_Symbol sp)) sps" "map (sp_Symbol \<circ> snd) reg = map sp_Symbol sps" by auto
  have "map fst reg = map sp_Symbol sps"
    unfolding a(2) using parse_specs_symbols [OF s(1)] by (simp add: map_eq_conv)
  then have "map fst reg = map (sp_Symbol \<circ> snd) reg" using a(3) by simp
  then have "\<forall>x \<in> set reg. sp_Symbol (snd x) = fst x" by (simp add: map_eq_conv)
  with a(1) show ?thesis by (auto simp: reg_ok_def)
qed

section \<open>Shards that serve a registry\<close>

text \<open>A shard built from the registry, after any commands, cancellations and stops of pairs.\<close>

inductive served :: "('d::linordered_idom) registry \<Rightarrow> 'd shard \<Rightarrow> bool" for reg where
  start: "served reg (RegisterRegistry (Some reg) NewShard)"
| command: "served reg sh \<Longrightarrow> shard_Match L od seq (sh, clk) = (r, sh', clk') \<Longrightarrow> served reg sh'"
| cancel: "served reg sh \<Longrightarrow> shard_Cancel s k sh = (e, sh') \<Longrightarrow> served reg sh'"
| stop: "served reg sh \<Longrightarrow> served reg (SetReadOnly s m sh)"

text \<open>The engine of a pair, whatever its book and whether or not it is stopped.\<close>

definition pair_engine :: "'d spec \<Rightarrow> 'd symbol_engine \<Rightarrow> bool" where
  "pair_engine sp se \<longleftrightarrow>
     se\<lparr>se_OrderBook := NewOrderBook (sp_Symbol sp), se_ReadOnly := False, se_ReadOnlyReason := []\<rparr> = NewSymbolEngineFromSpec sp"

lemma pair_engine_New [simp]: "pair_engine sp (NewSymbolEngineFromSpec sp)"
  by (simp add: pair_engine_def NewSymbolEngineFromSpec_def)

lemma pair_engine_upd [simp]:
  "pair_engine sp (se\<lparr>se_OrderBook := b\<rparr>) = pair_engine sp se"
  "pair_engine sp (se\<lparr>se_ReadOnly := r, se_ReadOnlyReason := m\<rparr>) = pair_engine sp se"
  by (simp_all add: pair_engine_def NewSymbolEngineFromSpec_def)

definition has_rules :: "('d::linordered_idom) registry \<Rightarrow> 'd shard \<Rightarrow> bool" where
  "has_rules reg sh \<longleftrightarrow> (\<forall>k sp. map_of reg k = Some sp \<longrightarrow>
     (\<exists>se. sh k = Some se \<and> pair_engine sp se))"

lemma register_specs_other: "k \<notin> sp_Symbol ` set specs \<Longrightarrow> register_specs specs sh k = sh k"
  by (induction specs arbitrary: sh) (simp_all add: Register_def NewSymbolEngineFromSpec_def)

lemma register_specs_get:
  "sp \<in> set specs \<Longrightarrow> distinct (map sp_Symbol specs) \<Longrightarrow>
     register_specs specs sh (sp_Symbol sp) = Some (NewSymbolEngineFromSpec sp)"
proof (induction specs arbitrary: sh)
  case (Cons x specs)
  show ?case
  proof (cases "sp = x")
    case True
    with Cons.prems register_specs_other [of "sp_Symbol sp" specs] show ?thesis
      by (simp add: Register_def NewSymbolEngineFromSpec_def image_iff)
  next
    case False
    with Cons show ?thesis by simp
  qed
qed simp

lemma has_rules_start:
  assumes "reg_ok reg"
  shows "has_rules reg (RegisterRegistry (Some reg) NewShard)"
proof -
  have d: "distinct (map sp_Symbol (registry_All (Some reg)))"
  proof -
    have e: "map (sp_Symbol \<circ> snd) reg = map fst reg" using assms by (auto simp: reg_ok_def)
    have "distinct (map (sp_Symbol \<circ> snd) reg)" unfolding e using assms by (simp add: reg_ok_def)
    then have "distinct (map sp_Symbol (map snd reg))" by (simp only: map_map)
    then have "distinct (map sp_Symbol (sort_key sp_Symbol (map snd reg)))"
      by (metis distinct_map distinct_sort set_sort)
    then show ?thesis by (simp add: registry_All_def)
  qed
  have "RegisterRegistry (Some reg) NewShard k = Some (NewSymbolEngineFromSpec sp)" if "map_of reg k = Some sp" for k sp
  proof -
    have "(k, sp) \<in> set reg" using that by (rule map_of_SomeD)
    then have "sp \<in> set (registry_All (Some reg))" "sp_Symbol sp = k"
      using assms by (force simp: registry_All_def, auto simp: reg_ok_def)
    with register_specs_get [OF this(1) d, of NewShard] show ?thesis by (simp add: RegisterRegistry_def)
  qed
  then show ?thesis by (auto simp: has_rules_def)
qed

lemma has_rules_upd:
  assumes "has_rules reg sh" and "\<And>sp se0. sh k = Some se0 \<Longrightarrow> pair_engine sp se0 \<Longrightarrow> pair_engine sp se"
  shows "has_rules reg (sh(k \<mapsto> se))"
  using assms unfolding has_rules_def by (metis fun_upd_apply)

lemma has_rules_Match:
  assumes h: "has_rules reg sh" and m: "shard_Match L od seq (sh, clk) = (r, sh', clk')"
  shows "has_rules reg sh'"
proof (cases "sh' = sh")
  case False
  then obtain se r2 se' c where se: "sh (o_Symbol od) = Some se" "se_Match L od seq (se, clk) = (r2, se', c)"
    "sh' = sh(o_Symbol od \<mapsto> se')"
    using m by (auto simp: shard_Match_def shard_Get_def Let_def split: if_splits option.splits prod.splits)
  have "pair_engine sp se' = pair_engine sp se" for sp
    using se_Match_cases [OF se(2) refl] by auto
  then show ?thesis unfolding se(3) using se(1) by (intro has_rules_upd [OF h]) auto
qed (use h in simp)

lemma has_rules_Symbol:
  assumes "has_rules reg sh" and "shard_Symbol s sh = (se, sh1)" and "\<And>sp. pair_engine sp se' = pair_engine sp se"
  shows "has_rules reg (sh1(s \<mapsto> se'))"
proof (cases "sh s")
  case (Some x)
  then have "se = x" "sh1 = sh" using assms(2) by (simp_all add: shard_Symbol_def)
  with Some assms(1,3) show ?thesis by (intro has_rules_upd) auto
next
  case None
  then have "map_of reg s = None" using assms(1) unfolding has_rules_def by (metis not_None_eq)
  moreover have "sh1 = sh(s \<mapsto> se)" using assms(2) None by (auto simp: shard_Symbol_def Let_def)
  ultimately show ?thesis using assms(1) by (auto simp: has_rules_def)
qed

lemma has_rules_Cancel:
  assumes "has_rules reg sh" and "shard_Cancel s k sh = (e, sh')"
  shows "has_rules reg sh'"
  using assms has_rules_Symbol [OF assms(1)]
  by (auto simp: shard_Cancel_def se_Cancel_def split: if_splits prod.splits)

lemma has_rules_SetReadOnly: "has_rules reg sh \<Longrightarrow> has_rules reg (SetReadOnly s m sh)"
  by (auto simp: SetReadOnly_def intro!: has_rules_Symbol split: prod.splits)

lemma served_rules: "served reg sh \<Longrightarrow> reg_ok reg \<Longrightarrow> has_rules reg sh"
proof (induction rule: served.induct)
  case start
  then show ?case by (rule has_rules_start)
next
  case command
  then show ?case using has_rules_Match by blast
next
  case cancel
  then show ?case using has_rules_Cancel by blast
next
  case stop
  then show ?case using has_rules_SetReadOnly by blast
qed

lemma served_Match:
  assumes "served reg sh" "reg_ok reg" "map_of reg (o_Symbol od) = Some sp" "\<not> IsReadOnly sh (o_Symbol od)"
    and od: "o_Symbol od \<noteq> []" "o_Type od = OrderTypeLimit \<or> o_Type od = OrderTypeMarket"
    and v: "ValidateQuantity L sp (o_Quantity od) = Inr q" "o_Type od = OrderTypeLimit \<longrightarrow> (\<exists>p. ValidatePrice L sp (o_Price od) = Inr p)"
  shows "\<exists>trades sh' clk'. shard_Match L od seq (sh, clk) = (Inr trades, sh', clk')"
proof -
  obtain se where se: "sh (o_Symbol od) = Some se" "pair_engine sp se"
    using served_rules [OF assms(1,2)] assms(3) by (auto simp: has_rules_def)
  have sp: "sp_Symbol sp = o_Symbol od" using assms(2,3) by (auto simp: reg_ok_def dest!: map_of_SomeD)
  from se(2) have e: "se_Symbol se = o_Symbol od" "se_PricePrecision se = sp_PricePrecision sp"
    "se_QuantityPrecision se = sp_QuantityPrecision sp" "se_MinQuantity se = sp_MinQuantity sp"
    by (cases se, simp add: pair_engine_def NewSymbolEngineFromSpec_def sp)+
  have "ValidateOrder L se od = None"
    using v e by (auto simp: ValidateOrder_def rulesSpec_def ValidateQuantity_def ValidatePrice_def Let_def split: option.splits)
  moreover obtain r bk c where m: "Match od seq (se_OrderBook se, clk) = (r, bk, c)" by (metis prod_cases3)
  moreover obtain trades where "r = Inr trades" using Match_Inl [of od seq "(se_OrderBook se, clk)"] m od(2) by (cases r) auto
  ultimately show ?thesis using se(1) e(1) od(1) assms(4) by (simp add: shard_Match_def shard_Get_def se_Match_def Let_def)
qed

section \<open>From the request to the shard\<close>

lemma symbolRules_Inr:
  assumes "symbolRules L sv s = Inr sp" and "sv_Symbols sv = Some reg"
  shows "map_of reg (trim_space s) = Some sp"
  using assms by (auto simp: symbolRules_def Lookup_def normalizeKey_def Let_def split: if_splits option.splits)

lemma ValidateQuantity_Inr: "ValidateQuantity L sp q = Inr s \<Longrightarrow> s = dec_to_string L q"
  by (auto simp: ValidateQuantity_def split: option.splits if_splits)

lemma ValidatePrice_Inr: "ValidatePrice L sp p = Inr s \<Longrightarrow> s = dec_to_string L p \<and> 0 < p"
  by (auto simp: ValidatePrice_def split: option.splits if_splits)

text \<open>The amounts the service writes are printed decimals.\<close>

definition printed :: "'d libs \<Rightarrow> string option \<Rightarrow> bool" where
  "printed L s \<longleftrightarrow> (\<forall>x. s = Some x \<longrightarrow> (\<exists>d. x = dec_to_string L d))"

lemma printed_simps [simp]: "printed L None" "printed L (Some (dec_to_string L d))"
  by (auto simp: printed_def)

lemma printed_numeric:
  assumes "codec_ok L" and "printed L s"
  shows "\<exists>d. to_numeric L s = Some d"
  using assms codec_okD(1) [OF assms(1)] by (cases s) (auto simp: printed_def to_numeric_def)

lemma limit_fields_Inr:
  assumes "limit_fields L spec req qty = Inr (p, fp, fs, fa)"
  shows "\<exists>d v. p = Some (dec_to_string L d) \<and> 0 < d \<and> ValidatePrice L spec d = Inr v \<and> printed L fp \<and> fs = None \<and> printed L fa"
proof -
  obtain d v where d: "ValidatePrice L spec d = Inr v" "p = Some v" "fp = None \<or> fp = Some v" "fs = None" "printed L fa"
    using assms by (auto simp: limit_fields_def Let_def split: option.splits sum.splits if_splits)
  with ValidatePrice_Inr [OF d(1)] show ?thesis by auto
qed

lemma market_buy_fields_Inr:
  assumes "market_buy_fields L sv spec req symbol qty = Inr (p, fp, fs, fa)"
  shows "p = None \<and> printed L fp \<and> printed L fs \<and> printed L fa"
  using assms by (auto simp: market_buy_fields_def Let_def split: sum.splits if_splits)

lemma validatePlaceOrder_Inr:
  assumes "validatePlaceOrder L sv req = Inr inp" and "codec_ok L" and "sv_Symbols sv = Some reg"
  obtains sp qty q where
    "map_of reg (ip_Symbol inp) = Some sp" "ip_Symbol inp \<noteq> []" "trim_space (ip_ClientOrderID inp) \<noteq> []" "ip_UserID inp \<noteq> 0"
    "ip_UserID inp = pr_UserId req" "ip_ClientOrderID inp = trim_space (pr_ClientOrderId req)"
    "ip_Side inp = Side_SIDE_BUY \<or> ip_Side inp = Side_SIDE_SELL"
    "ip_OrderType inp = OrderType_LIMIT \<or> ip_OrderType inp = OrderType_MARKET"
    "0 < qty" "ValidateQuantity L sp qty = Inr q" "ip_Quantity inp = dec_to_string L qty"
    "printed L (ip_FreezePrice inp)" "printed L (ip_FreezeSlippage inp)" "printed L (ip_FrozenAmount inp)"
    "ip_OrderType inp = OrderType_LIMIT \<Longrightarrow>
       \<exists>d v. ip_Price inp = Some (dec_to_string L d) \<and> 0 < d \<and> ValidatePrice L sp d = Inr v"
    "ip_OrderType inp = OrderType_MARKET \<Longrightarrow> ip_Price inp = None"
proof -
  obtain spec qty0 qn p fp fs fa where v:
    "pr_UserId req \<noteq> 0" "trim_space (pr_ClientOrderId req) \<noteq> []" "trim_space (pr_Symbol req) \<noteq> []"
    "pr_Side req = Side_SIDE_BUY \<or> pr_Side req = Side_SIDE_SELL"
    "pr_Type req = OrderType_LIMIT \<or> pr_Type req = OrderType_MARKET"
    "symbolRules L sv (trim_space (pr_Symbol req)) = Inr spec"
    "0 < qty0" "ValidateQuantity L spec qty0 = Inr qn"
    and f: "(if pr_Type req = OrderType_LIMIT then limit_fields L spec req (the (dec_of_string L qn))
        else if pr_Side req = Side_SIDE_BUY then market_buy_fields L sv spec req (trim_space (pr_Symbol req)) (the (dec_of_string L qn))
        else Inr (None, None, None, None)) = Inr (p, fp, fs, fa)"
    and i: "inp = \<lparr> ip_UserID = pr_UserId req, ip_ClientOrderID = trim_space (pr_ClientOrderId req), ip_Symbol = trim_space (pr_Symbol req),
       ip_Side = pr_Side req, ip_OrderType = pr_Type req, ip_Price = p, ip_FreezePrice = fp, ip_FreezeSlippage = fs,
       ip_FrozenAmount = fa, ip_Quantity = qn, ip_OutboxTopic = [] \<rparr>"
    using assms(1) unfolding validatePlaceOrder_def Let_def
    by (auto simp del: disj_not1 split: if_split_asm option.split_asm sum.split_asm prod.split_asm)
  have t: "OrderType_LIMIT \<noteq> OrderType_MARKET" by (simp add: pb_enum_defs)
  show thesis
  proof (rule that [of spec qty0 qn])
    show "map_of reg (ip_Symbol inp) = Some spec" using symbolRules_Inr [OF v(6) assms(3)] i by simp
    show "ip_Quantity inp = dec_to_string L qty0" using ValidateQuantity_Inr [OF v(8)] i by simp
    show "printed L (ip_FreezePrice inp)" "printed L (ip_FreezeSlippage inp)" "printed L (ip_FrozenAmount inp)"
      using f i by (auto dest!: limit_fields_Inr market_buy_fields_Inr split: if_splits)
    show "ip_OrderType inp = OrderType_LIMIT \<Longrightarrow>
       \<exists>d v. ip_Price inp = Some (dec_to_string L d) \<and> 0 < d \<and> ValidatePrice L spec d = Inr v"
      using f i by (auto dest!: limit_fields_Inr)
    show "ip_OrderType inp = OrderType_MARKET \<Longrightarrow> ip_Price inp = None"
      using f i t by (auto dest!: market_buy_fields_Inr split: if_splits)
  qed (use v i in auto)
qed

lemma new_row_Inr:
  assumes v: "validatePlaceOrder L sv req = Inr inp" and L: "codec_ok L" and r: "sv_Symbols sv = Some reg"
  shows "\<exists>row. new_row L inp i t = Some row \<and> or_ID row = i \<and> or_Symbol row = ip_Symbol inp \<and> or_Side row = ip_Side inp \<and>
    or_OrderType row = ip_OrderType inp \<and> to_numeric L (ip_Price inp) = Some (or_Price row) \<and>
    dec_of_string L (ip_Quantity inp) = Some (or_Quantity row)"
proof -
  obtain sp qty q where
    w: "ip_OrderType inp = OrderType_LIMIT \<or> ip_OrderType inp = OrderType_MARKET" "ip_Quantity inp = dec_to_string L qty"
    "printed L (ip_FreezePrice inp)" "printed L (ip_FreezeSlippage inp)" "printed L (ip_FrozenAmount inp)"
    "ip_OrderType inp = OrderType_LIMIT \<Longrightarrow>
       \<exists>d v. ip_Price inp = Some (dec_to_string L d) \<and> 0 < d \<and> ValidatePrice L sp d = Inr v"
    "ip_OrderType inp = OrderType_MARKET \<Longrightarrow> ip_Price inp = None"
    using validatePlaceOrder_Inr [OF v L r] by metis
  have "printed L (ip_Price inp)" using w(1,6,7) by auto
  with w(3-5) printed_numeric [OF L] obtain p fp fs fa where
    "to_numeric L (ip_Price inp) = Some p" "to_numeric L (ip_FreezePrice inp) = Some fp"
    "to_numeric L (ip_FreezeSlippage inp) = Some fs" "to_numeric L (ip_FrozenAmount inp) = Some fa" by metis
  then show ?thesis by (simp add: new_row_def w(2) codec_okD(1) [OF L])
qed

lemma numeric_okD:
  assumes "numeric_ok D"
  shows "dec_of_string (de_libs D) (de_numeric D x) = Some x" "de_numeric D x \<noteq> []" "trim_space (de_numeric D x) \<noteq> []"
proof -
  have *: "dec_of_string (de_libs D) (de_numeric D x) = Some x \<and> trim_space (de_numeric D x) \<noteq> []"
    using assms by (simp add: numeric_ok_def)
  then show "dec_of_string (de_libs D) (de_numeric D x) = Some x" "trim_space (de_numeric D x) \<noteq> []" by simp_all
  have "trim_space [] = []" by (simp add: trim_space_def)
  with * show "de_numeric D x \<noteq> []" by metis
qed

text \<open>The type and the price of the command are those of the request.\<close>

lemma stored_price_read:
  assumes L: "codec_ok (de_libs D)" and N: "numeric_ok D"
    and ty: "ip_OrderType inp = OrderType_LIMIT \<or> ip_OrderType inp = OrderType_MARKET"
    and pb: "p_Type pb = ip_OrderType inp" "p_Price pb = column_text D price" and col: "to_numeric (de_libs D) (ip_Price inp) = Some price"
    and limit: "ip_OrderType inp = OrderType_LIMIT \<Longrightarrow>
       \<exists>d v. ip_Price inp = Some (dec_to_string (de_libs D) d) \<and> 0 < d \<and> ValidatePrice (de_libs D) sp d = Inr v"
    and market: "ip_OrderType inp = OrderType_MARKET \<Longrightarrow> ip_Price inp = None"
  obtains ot x where "orderTypeFromProto (p_Type pb) = Inr ot" "ot = OrderTypeLimit \<or> ot = OrderTypeMarket"
    "priceFromOrderProto (de_libs D) pb = Inr x" "ot = OrderTypeLimit \<longrightarrow> (\<exists>p. ValidatePrice (de_libs D) sp x = Inr p)"
proof (cases "ip_OrderType inp = OrderType_LIMIT")
  case True
  from limit [OF True] obtain d v where d: "ip_Price inp = Some (dec_to_string (de_libs D) d)" "0 < d" "ValidatePrice (de_libs D) sp d = Inr v" by blast
  then have "price = Some d" using col codec_okD(1) [OF L] by (simp add: to_numeric_def)
  then have "priceFromOrderProto (de_libs D) pb = Inr d" using numeric_okD [OF N] d(2) pb True
    by (simp add: priceFromOrderProto_def decimalFromProto_def GetValue_def column_text_def pb_enum_defs)
  with d(3) pb(1) True show thesis by (intro that [of OrderTypeLimit d]) (auto simp: orderTypeFromProto_def)
next
  case False
  with ty have m: "ip_OrderType inp = OrderType_MARKET" by simp
  then have "price = None" using market col by (simp add: to_numeric_def)
  then have "priceFromOrderProto (de_libs D) pb = Inr 0" using pb m by (simp add: priceFromOrderProto_def column_text_def)
  with pb(1) m show thesis by (intro that [of OrderTypeMarket 0]) (auto simp: orderTypeFromProto_def pb_enum_defs)
qed

text \<open>
  C21. Whatever request the order service accepts, the matching side can execute: the row is
  written, and the command made of the stored row decodes to an order that the shard serving the
  same rules matches without an error, unless the pair has been stopped there.
\<close>
theorem placed_order_matches:
  assumes L: "codec_ok (de_libs D)" and N: "numeric_ok D"
    and reg: "RegistryFromMap (de_libs D) m = Inr reg" and sv: "sv_Symbols sv = Some reg"
    and v: "validatePlaceOrder (de_libs D) sv req = Inr inp"
    and sh: "served reg sh" and ro: "\<not> IsReadOnly sh (ip_Symbol inp)" and i: "i \<noteq> 0"
  shows "\<exists>row cmd od trades sh' clk'. new_row (de_libs D) inp i t = Some row \<and>
    buildNewOrderEnvelope (de_libs D) (scanOrder D row) cid = EnvNewOrder cmd \<and>
    OrderFromProto (de_libs D) (no_Order cmd) = Inr od \<and> o_OrderID od = i \<and> o_Symbol od = ip_Symbol inp \<and>
    shard_Match (de_libs D) od cseq (sh, clk) = (Inr trades, sh', clk')"
proof -
  let ?L = "de_libs D"
  obtain sp qty q where
    w: "map_of reg (ip_Symbol inp) = Some sp" "ip_Symbol inp \<noteq> []"
    "ip_Side inp = Side_SIDE_BUY \<or> ip_Side inp = Side_SIDE_SELL"
    "ip_OrderType inp = OrderType_LIMIT \<or> ip_OrderType inp = OrderType_MARKET"
    "0 < qty" "ValidateQuantity ?L sp qty = Inr q" "ip_Quantity inp = dec_to_string ?L qty"
    "ip_OrderType inp = OrderType_LIMIT \<Longrightarrow>
       \<exists>d v. ip_Price inp = Some (dec_to_string ?L d) \<and> 0 < d \<and> ValidatePrice ?L sp d = Inr v"
    "ip_OrderType inp = OrderType_MARKET \<Longrightarrow> ip_Price inp = None"
    using validatePlaceOrder_Inr [OF v L sv] by metis
  obtain row where row: "new_row ?L inp i t = Some row" "or_ID row = i" "or_Symbol row = ip_Symbol inp" "or_Side row = ip_Side inp"
    "or_OrderType row = ip_OrderType inp" "to_numeric ?L (ip_Price inp) = Some (or_Price row)" "or_Quantity row = qty"
    using new_row_Inr [OF v L sv, of i t] codec_okD(1) [OF L] w(7) by auto
  have dec: "decimalFromProto ?L (Some (de_numeric D x)) = Inr x" if "0 < x" for x
    using numeric_okD(1,2) [OF N] that by (simp add: decimalFromProto_def GetValue_def)
  have rem: "remainingFromProto ?L (Some (de_numeric D qty)) qty = Inr qty"
    using numeric_okD(1,2) [OF N] by (simp add: remainingFromProto_def GetValue_def)
  obtain cmd pb where cmd: "buildNewOrderEnvelope ?L (scanOrder D row) cid = EnvNewOrder cmd" "no_Order cmd = Some pb"
    "p_OrderId pb = i" "p_Symbol pb = ip_Symbol inp" "p_Side pb = ip_Side inp" "p_Type pb = ip_OrderType inp"
    "p_Price pb = column_text D (or_Price row)" "p_Quantity pb = Some (de_numeric D qty)" "p_Remaining pb = Some (de_numeric D qty)"
    by (simp add: buildNewOrderEnvelope_def scanOrder_def row)
  obtain side where side: "sideFromProto (p_Side pb) = Inr side" using w(3) cmd(5) by (auto simp: sideFromProto_def pb_enum_defs)
  obtain ty price where ty: "orderTypeFromProto (p_Type pb) = Inr ty" "ty = OrderTypeLimit \<or> ty = OrderTypeMarket"
    "priceFromOrderProto ?L pb = Inr price" "ty = OrderTypeLimit \<longrightarrow> (\<exists>p. ValidatePrice ?L sp price = Inr p)"
    by (rule stored_price_read [OF L N w(4) cmd(6,7) row(6) w(8,9)])
  obtain od where od: "OrderFromProto ?L (no_Order cmd) = Inr od" "o_OrderID od = i" "o_Symbol od = ip_Symbol inp"
    "o_Type od = ty" "o_Price od = price" "o_Quantity od = qty"
    using cmd(2-4,8,9) i w(2,5) side ty(1,3) dec rem by (simp add: OrderFromProto_def)
  have "\<exists>trades sh' clk'. shard_Match ?L od cseq (sh, clk) = (Inr trades, sh', clk')"
    using served_Match [OF sh RegistryFromMap_ok [OF reg], where sp = sp and q = q] w(1,2,6) ro ty(2,4) od by simp
  with row(1) cmd(1) od show ?thesis by blast
qed

section \<open>A concrete order\<close>

definition wit_place_request :: place_order_request where
  "wit_place_request =
     \<lparr> pr_UserId = 7, pr_ClientOrderId = '' c1 '', pr_Symbol = ''ETH-USDT'', pr_Side = Side_SIDE_BUY,
       pr_Type = OrderType_LIMIT, pr_Quantity = Some ''2'', pr_Price = Some ''100'' \<rparr>"

definition wit_service :: "int order_service" where
  "wit_service =
     \<lparr> sv_OutboxTopic = ''orders'', sv_MarketData = None, sv_SlippageBuffer = 0,
       sv_Symbols = (case RegistryFromMap int_libs [(''ETH-USDT'', wit_rule)] of Inr reg \<Rightarrow> Some reg | Inl e \<Rightarrow> None),
       sv_Shards = None \<rparr>"

lemma wit_validate: "\<exists>inp. validatePlaceOrder int_libs wit_service wit_place_request = Inr inp \<and> ip_Symbol inp = ''ETH-USDT''"
proof -
  have "case validatePlaceOrder int_libs wit_service wit_place_request of Inr inp \<Rightarrow> ip_Symbol inp = ''ETH-USDT'' | Inl e \<Rightarrow> False"
    by code_simp
  then show ?thesis by (auto split: sum.splits)
qed

theorem placed_order_matches_witness:
  "\<exists>reg inp row cmd od trades sh' clk'. RegistryFromMap int_libs [(''ETH-USDT'', wit_rule)] = Inr reg \<and>
    validatePlaceOrder int_libs wit_service wit_place_request = Inr inp \<and> new_row int_libs inp 1 0 = Some row \<and>
    buildNewOrderEnvelope int_libs (scanOrder wit_denv row) 9 = EnvNewOrder cmd \<and>
    OrderFromProto int_libs (no_Order cmd) = Inr od \<and>
    shard_Match int_libs od 5 (RegisterRegistry (Some reg) NewShard, (\<lambda>i. 0, 0)) = (Inr trades, sh', clk')"
proof -
  have D: "de_libs wit_denv = int_libs" by (simp add: wit_denv_def)
  obtain inp where v: "validatePlaceOrder int_libs wit_service wit_place_request = Inr inp" "ip_Symbol inp = ''ETH-USDT''"
    using wit_validate by blast
  have "\<exists>reg. RegistryFromMap int_libs [(''ETH-USDT'', wit_rule)] = Inr reg"
    using wit_rules_load by (auto simp: LoadRulesFromConfig_def split: sum.splits)
  then obtain reg where r: "RegistryFromMap int_libs [(''ETH-USDT'', wit_rule)] = Inr reg" by blast
  then have s: "sv_Symbols wit_service = Some reg" by (simp add: wit_service_def)
  have "\<not> IsReadOnly (RegisterRegistry (Some reg) NewShard) (ip_Symbol inp)"
  proof -
    have "case RegistryFromMap int_libs [(''ETH-USDT'', wit_rule)] of
        Inr reg \<Rightarrow> \<not> IsReadOnly (RegisterRegistry (Some reg) NewShard) ''ETH-USDT'' | Inl e \<Rightarrow> False" by code_simp
    with r v(2) show ?thesis by simp
  qed
  from placed_order_matches [of wit_denv, unfolded D, OF codec_ok_int_libs wit_numeric_ok r s v(1) served.start this,
      where i = 1 and t = 0 and cid = 9 and cseq = 5 and clk = "(\<lambda>i. 0, 0)"]
  show ?thesis using r v(1) by auto
qed

end
