(* ===== verification/OrderIdempotency.thy ===== *)
theory OrderIdempotency
  imports OrderService
begin

text \<open>
  Placing an order twice: what the service promises for a client order id, proved once for any
  store that keeps the contract below, cache or no cache, and whatever calls fail.
\<close>

section \<open>The cache\<close>

definition cache_ok :: "(uint64 \<times> string \<rightharpoonup> uint64) \<Rightarrow> cache option \<Rightarrow> bool" where
  "cache_ok ow co \<longleftrightarrow>
     (\<forall>c u k v. co = Some c \<longrightarrow> rd_data c (cacheKey u k) = Some v \<longrightarrow>
        (\<exists>i. ow (u, k) = Some i \<and> v = show_nat (unat i)))"

lemma takeWhile_digits: "list_all is_digit ds \<Longrightarrow> takeWhile is_digit (ds @ CHR '':'' # r) = ds"
  by (induction ds) (auto simp: is_digit_def)

lemma cacheKey_inj [simp]: "cacheKey u k = cacheKey u' k' \<longleftrightarrow> u = u' \<and> k = k'"
proof
  assume a: "cacheKey u k = cacheKey u' k'"
  then have e: "show_nat (unat u) @ CHR '':'' # k = show_nat (unat u') @ CHR '':'' # k'" by (simp add: cacheKey_def)
  then have s: "show_nat (unat u) = show_nat (unat u')"
    using takeWhile_digits [OF show_nat_digits, of "unat u" k] takeWhile_digits [OF show_nat_digits, of "unat u'" k'] by metis
  then have "unat u = unat u'" by (metis digits_val_show)
  then have "u = u'" by (rule unsigned_word_eqI)
  with e show "u = u' \<and> k = k'" by simp
qed simp

lemma trim_show_nat [simp]: "trim_space (show_nat n) = show_nat n"
proof -
  have d: "list_all (\<lambda>c. \<not> is_space c) (show_nat n)"
    using show_nat_digits [of n] by (rule list.pred_mono_strong) (auto simp: is_digit_def is_space_def)
  have t: "dropWhile is_space xs = xs" if "list_all (\<lambda>c. \<not> is_space c) xs" for xs using that by (cases xs) auto
  show ?thesis using t [OF d] t [of "rev (show_nat n)"] d by (simp add: trim_space_def list_all_rev)
qed

lemma cache_okD: "cache_ok ow (Some c) \<Longrightarrow> rd_data c (cacheKey u k) = Some v \<Longrightarrow> \<exists>i. ow (u, k) = Some i \<and> v = show_nat (unat i)"
  by (simp add: cache_ok_def)

lemma cache_ok_mono: "cache_ok ow co \<Longrightarrow> ow \<subseteq>\<^sub>m ow' \<Longrightarrow> cache_ok ow' co"
  unfolding cache_ok_def map_le_def by (metis domI)

lemma cache_ok_sub: "cache_ok ow (Some c) \<Longrightarrow> rd_data c' \<subseteq>\<^sub>m rd_data c \<Longrightarrow> cache_ok ow (Some c')"
  unfolding cache_ok_def map_le_def by (metis domI option.inject)

lemma rd_call_data [simp]: "rd_data (snd (rd_call c)) = rd_data c"
  by (simp add: rd_call_def)

lemma cache_Lookup_ok:
  assumes "cache_ok ow (Some c)" and "cache_Lookup u k c = (r, c')"
  shows "cache_ok ow (Some c')" "r = Inr (Some i) \<Longrightarrow> ow (u, k) = Some i"
proof -
  obtain oc c1 where rc: "rd_call c = (oc, c1)" by fastforce
  then have c1: "rd_data c1 = rd_data c" by (metis rd_call_data snd_conv)
  have "rd_data c' \<subseteq>\<^sub>m rd_data c"
    using assms(2) rc c1 by (auto simp: cache_Lookup_def rd_Get_def map_le_def split: if_splits cache_outcome.splits option.splits)
  then show "cache_ok ow (Some c')" using assms(1) cache_ok_sub by blast
  assume r: "r = Inr (Some i)"
  then obtain v n where v: "rd_data c (cacheKey u k) = Some v" "parse_uint64 (trim_space v) = Some n" "i = of_nat n"
    using assms(2) rc c1 by (auto simp: cache_Lookup_def rd_Get_def split: if_splits cache_outcome.splits option.splits)
  from cache_okD [OF assms(1) v(1)] obtain j where j: "ow (u, k) = Some j" "v = show_nat (unat j)" by blast
  then have "n = unat j" using v(2) parse_show_uint64 [of "unat j"] unsigned_less [of j, where 'a = nat] by simp
  with j(1) v(3) show "ow (u, k) = Some i" by simp
qed

lemma remember_ok:
  assumes "cache_ok ow co" and "ow (u, k) = Some i"
  shows "cache_ok ow (remember u k i co)"
proof (cases co)
  case (Some c)
  obtain oc c1 where rc: "rd_call c = (oc, c1)" by fastforce
  then have c1: "rd_data c1 = rd_data c" by (metis rd_call_data snd_conv)
  have "rd_data (snd (Remember u k i c)) \<in> {rd_data c, (rd_data c)(cacheKey u k \<mapsto> show_nat (unat i))}"
    using rc c1 by (auto simp: Remember_def rd_Set_def split: cache_outcome.splits)
  then consider "rd_data (snd (Remember u k i c)) = rd_data c"
    | "rd_data (snd (Remember u k i c)) = (rd_data c)(cacheKey u k \<mapsto> show_nat (unat i))" by auto
  then show ?thesis
  proof cases
    case 1
    with assms(1) Some show ?thesis by (simp add: cache_ok_def remember_def)
  next
    case 2
    then show ?thesis using assms Some by (auto simp: cache_ok_def remember_def split: if_splits)
  qed
qed (simp add: remember_def cache_ok_def)

section \<open>The contract of a store\<close>

lemma validatePlaceOrder_key:
  "validatePlaceOrder L sv req = Inr inp \<Longrightarrow>
     ip_UserID inp = pr_UserId req \<and> ip_ClientOrderID inp = trim_space (pr_ClientOrderId req)"
  unfolding validatePlaceOrder_def Let_def
  by (auto split: if_split_asm option.split_asm sum.split_asm prod.split_asm)

text \<open>
  \<open>obs\<close> is what is stored and \<open>owner\<close> the order bound to a user and client order id. Reading
  changes nothing that is stored. Inserting binds the key, which was free, to the new order, or
  changes nothing; when the answer of the commit is lost it may have done either.
\<close>

locale idempotent_store =
  fixes S :: "'s order_store" and obs :: "'s \<Rightarrow> 'o" and owner :: "'o \<Rightarrow> (uint64 \<times> string \<rightharpoonup> uint64)"
  assumes find_reads: "st_FindByClientOrderID S u k s = (fr, s') \<Longrightarrow> obs s' = obs s"
    and find_owner: "st_FindByClientOrderID S u k s = (Inr (Some od), s') \<Longrightarrow> owner (obs s) (u, k) = Some (po_ID od)"
    and get_reads: "st_GetOrderByUser S u i s = (r, s') \<Longrightarrow> obs s' = obs s"
    and get_order: "st_GetOrderByUser S u i s = (Inr od, s') \<Longrightarrow> po_ID od = i"
    and insert_binds: "st_InsertPending S inp s = (r, s') \<Longrightarrow>
      (\<exists>e. r = Inl e) \<and> obs s' = obs s \<or>
      (\<exists>i. owner (obs s) (ip_UserID inp, ip_ClientOrderID inp) = None \<and>
         owner (obs s') = (owner (obs s))((ip_UserID inp, ip_ClientOrderID inp) \<mapsto> i) \<and>
         (\<forall>od. r = Inr od \<longrightarrow> po_ID od = i) \<and> r \<noteq> Inl ErrDuplicateClientOrder)"
begin

text \<open>What a call of the service for a key promises.\<close>

definition answered :: "uint64 \<Rightarrow> string \<Rightarrow> 's service_state \<Rightarrow> err + place_order_response \<Rightarrow> 's service_state \<Rightarrow> bool" where
  "answered u k st r st' \<longleftrightarrow>
     cache_ok (owner (obs (fst st'))) (snd st') \<and> owner (obs (fst st)) \<subseteq>\<^sub>m owner (obs (fst st')) \<and>
     (\<forall>resp. r = Inr resp \<longrightarrow> owner (obs (fst st')) (u, k) = Some (pp_OrderId resp)) \<and>
     (owner (obs (fst st)) (u, k) \<noteq> None \<longrightarrow>
        obs (fst st') = obs (fst st) \<and> (\<forall>resp. r = Inr resp \<longrightarrow> pp_IdempotentHit resp))"

lemma lookup_ok:
  assumes c: "cache_ok (owner (obs (fst st))) (snd st)" and l: "lookupIdempotentOrder S u k st = (r, st')"
  shows "obs (fst st') = obs (fst st)" "cache_ok (owner (obs (fst st))) (snd st')"
    "r = Inr (Some od) \<Longrightarrow> owner (obs (fst st)) (u, k) = Some (po_ID od)"
proof -
  obtain s co where st: "st = (s, co)" by fastforce
  have "obs (fst st') = obs (fst st) \<and> cache_ok (owner (obs (fst st))) (snd st') \<and>
    (\<forall>od. r = Inr (Some od) \<longrightarrow> owner (obs (fst st)) (u, k) = Some (po_ID od))"
  proof (cases co)
    case None
    with l st find_reads find_owner show ?thesis
      by (auto simp: lookupIdempotentOrder_def cache_ok_def split: prod.splits)
  next
    case (Some x)
    obtain lr c1 where lk: "cache_Lookup u k x = (lr, c1)" by fastforce
    have c1: "cache_ok (owner (obs s)) (Some c1)" using cache_Lookup_ok(1) [OF _ lk] c st Some by simp
    have ow: "lr = Inr (Some i) \<Longrightarrow> owner (obs s) (u, k) = Some i" for i
      using cache_Lookup_ok(2) [OF _ lk] c st Some by simp
    show ?thesis
    proof (cases "\<exists>i. lr = Inr (Some i)")
      case True
      then obtain i where i: "lr = Inr (Some i)" by blast
      obtain r2 s1 where g: "st_GetOrderByUser S u i s = (r2, s1)" by fastforce
      show ?thesis using l st Some lk i g get_reads [OF g] get_order [of u i s _ s1] c1 ow [OF i]
        by (auto simp: lookupIdempotentOrder_def split: sum.splits)
    next
      case False
      then have "r = Inr None" "st' = (s, Some c1)" using l st Some lk
        by (auto simp: lookupIdempotentOrder_def split: sum.splits option.splits)
      with c1 st show ?thesis by simp
    qed
  qed
  then show "obs (fst st') = obs (fst st)" "cache_ok (owner (obs (fst st))) (snd st')"
    "r = Inr (Some od) \<Longrightarrow> owner (obs (fst st)) (u, k) = Some (po_ID od)" by auto
qed

lemma insert_order_ok:
  assumes c: "cache_ok (owner (obs s)) co" and i: "insert_order S L inp (s, co) = (r, st')"
  shows "answered (ip_UserID inp) (ip_ClientOrderID inp) (s, co) r st'"
proof -
  let ?k = "(ip_UserID inp, ip_ClientOrderID inp)"
  obtain ir s1 where ins: "st_InsertPending S inp s = (ir, s1)" by fastforce
  obtain fr s2 where find: "st_FindByClientOrderID S (ip_UserID inp) (ip_ClientOrderID inp) s1 = (fr, s2)" by fastforce
  have s2: "obs s2 = obs s1" using find_reads [OF find] .
  from insert_binds [OF ins] show ?thesis
  proof (elim disjE exE conjE)
    fix e assume e: "ir = Inl e" "obs s1 = obs s"
    show ?thesis
    proof (cases "\<exists>od. e = ErrDuplicateClientOrder \<and> fr = Inr (Some od)")
      case True
      then obtain od where od: "e = ErrDuplicateClientOrder" "fr = Inr (Some od)" by blast
      then have ow: "owner (obs s) ?k = Some (po_ID od)" using find_owner [of _ _ s1] find e(2) by simp
      from i ins find e(1) od have "r = Inr (toPlaceOrderResponse L od True)"
        "st' = (s2, remember (ip_UserID inp) (ip_ClientOrderID inp) (po_ID od) co)" by (simp_all add: insert_order_def)
      with ow remember_ok [OF c ow] e(2) s2 show ?thesis by (simp add: answered_def toPlaceOrderResponse_def)
    next
      case False
      then have "(\<exists>e2. r = Inl e2) \<and> snd st' = co \<and> obs (fst st') = obs s"
        using i ins find e s2 by (auto simp: insert_order_def Let_def split: if_splits sum.splits option.splits)
      with c show ?thesis by (auto simp: answered_def)
    qed
  next
    fix j assume j: "owner (obs s) ?k = None" "owner (obs s1) = (owner (obs s))(?k \<mapsto> j)"
      "\<forall>od. ir = Inr od \<longrightarrow> po_ID od = j" "ir \<noteq> Inl ErrDuplicateClientOrder"
    have le: "owner (obs s) \<subseteq>\<^sub>m owner (obs s1)" using j(1,2) by (auto simp: map_le_def)
    then have c1: "cache_ok (owner (obs s1)) co" using cache_ok_mono c by blast
    show ?thesis
    proof (cases ir)
      case (Inl e)
      then have "(\<exists>e2. r = Inl e2) \<and> st' = (s1, co)" using i ins j(4) by (auto simp: insert_order_def split: if_splits)
      with c1 le j(1) show ?thesis by (auto simp: answered_def)
    next
      case (Inr od)
      then have "r = Inr (toPlaceOrderResponse L od False)"
        "st' = (s1, remember (ip_UserID inp) (ip_ClientOrderID inp) (po_ID od) co)" "owner (obs s1) ?k = Some (po_ID od)"
        using i ins j(2,3) by (simp_all add: insert_order_def)
      with remember_ok [OF c1] le j(1) show ?thesis by (simp add: answered_def toPlaceOrderResponse_def)
    qed
  qed
qed

lemma PlaceOrder_answered:
  assumes c: "cache_ok (owner (obs (fst st))) (snd st)" and p: "PlaceOrder L S sv (Some req) st = (r, st')"
  shows "answered (pr_UserId req) (trim_space (pr_ClientOrderId req)) st r st'"
proof (cases "validatePlaceOrder L sv req")
  case (Inl e)
  with p c show ?thesis by (auto simp: PlaceOrder_def answered_def)
next
  case (Inr inp0)
  let ?inp = "inp0\<lparr>ip_OutboxTopic := sv_OutboxTopic sv\<rparr>"
  have k: "ip_UserID ?inp = pr_UserId req" "ip_ClientOrderID ?inp = trim_space (pr_ClientOrderId req)"
    using validatePlaceOrder_key [OF Inr] by simp_all
  obtain lr st1 where l: "lookupIdempotentOrder S (pr_UserId req) (trim_space (pr_ClientOrderId req)) st = (lr, st1)"
    by (metis surj_pair)
  note lo = lookup_ok [OF c l]
  have p1: "(case (lr, st1) of (Inl e, st1) \<Rightarrow> (Inl e, st1)
      | (Inr (Some od), st1) \<Rightarrow> (Inr (toPlaceOrderResponse L od True), st1)
      | (Inr None, st1) \<Rightarrow> insert_order S L ?inp st1) = (r, st')"
    using p k l Inr by (simp add: PlaceOrder_def Let_def)
  show ?thesis
  proof (cases "lr = Inr None")
    case True
    have c1: "cache_ok (owner (obs (fst st1))) (snd st1)" using lo(1,2) by simp
    have "answered (pr_UserId req) (trim_space (pr_ClientOrderId req)) st1 r st'"
      using insert_order_ok [OF c1, of L ?inp r st'] p1 True k by simp
    then show ?thesis using lo(1) by (simp add: answered_def)
  next
    case False
    then have "st' = st1 \<and> ((\<exists>e. r = Inl e) \<or> (\<exists>od. lr = Inr (Some od) \<and> r = Inr (toPlaceOrderResponse L od True)))"
      using p1 by (auto split: sum.splits option.splits)
    with lo show ?thesis by (auto simp: answered_def toPlaceOrderResponse_def)
  qed
qed

end

section \<open>The repository keeps the contract\<close>

lemma find_order: "find P xs = Some r \<Longrightarrow> P r"
  by (auto simp: find_Some_iff)

lemma query_Inr: "query w f db = (Inr x, db') \<Longrightarrow> x = f (db_tables db)"
  by (auto simp: query_def stmt_def stmt_err_def db_call_def Let_def split: if_splits)

lemma repo_find:
  assumes "FindByClientOrderID D u k db = (Inr (Some od), db')"
  shows "t_idem (db_tables db) (u, k) = Some (po_ID od)"
proof -
  have "(case t_idem (db_tables db) (u, k) of None \<Rightarrow> None
       | Some i \<Rightarrow> map_option (scanOrder D) (find (\<lambda>r. or_ID r = i) (t_orders (db_tables db)))) = Some od"
    using query_Inr [OF assms [unfolded FindByClientOrderID_def]] by simp
  then show ?thesis by (auto simp: scanOrder_def dest!: find_order split: option.splits)
qed

lemma repo_get:
  assumes "GetOrderByUser D u i db = (Inr od, db')"
  shows "po_ID od = i"
proof -
  obtain row db1 where q: "query ''scan order'' (\<lambda>t. find (\<lambda>r. or_ID r = i \<and> or_UserID r = u) (t_orders t)) db = (Inr row, db1)"
    "(case row of None \<Rightarrow> fail_tx ErrOrderNotFound | Some r \<Rightarrow> return_tx (scanOrder D r)) db1 = (Inr od, db')"
    using assms unfolding GetOrderByUser_def by (rule bind_InrE)
  from query_Inr [OF q(1)] q(2) show ?thesis by (auto simp: scanOrder_def dest!: find_order split: option.splits)
qed

lemma reads_tables:
  assumes "\<And>t0. tx_keeps (\<lambda>t. t = t0) m" and "m db = (r, db')"
  shows "db_tables db' = db_tables db"
  using tx_keepsD [OF assms(1) _ assms(2), of "db_tables db"] by simp

interpretation repo: idempotent_store "repo_store D C" db_tables t_idem
proof unfold_locales
  fix u k s fr s'
  assume "st_FindByClientOrderID (repo_store D C) u k s = (fr, s')"
  then have "FindByClientOrderID D u k s = (fr, s')" by (simp add: repo_store_def)
  then show "db_tables s' = db_tables s" by (rule reads_tables [rotated]) (simp add: FindByClientOrderID_def keeps_query)
next
  fix u k s od s'
  assume "st_FindByClientOrderID (repo_store D C) u k s = (Inr (Some od), s')"
  then show "t_idem (db_tables s) (u, k) = Some (po_ID od)" using repo_find by (simp add: repo_store_def)
next
  fix u i s r s'
  assume "st_GetOrderByUser (repo_store D C) u i s = (r, s')"
  then have "GetOrderByUser D u i s = (r, s')" by (simp add: repo_store_def)
  then show "db_tables s' = db_tables s"
    by (rule reads_tables [rotated]) (auto simp: GetOrderByUser_def intro!: inv_intros)
next
  fix u i s od s'
  assume "st_GetOrderByUser (repo_store D C) u i s = (Inr od, s')"
  then show "po_ID od = i" using repo_get by (simp add: repo_store_def)
next
  fix inp s r s'
  assume "st_InsertPending (repo_store D C) inp s = (r, s')"
  then have "InsertPending D C inp s = (r, s')" by (simp add: repo_store_def)
  from InsertPending_placed [OF this] show "(\<exists>e. r = Inl e) \<and> db_tables s' = db_tables s \<or>
      (\<exists>i. t_idem (db_tables s) (ip_UserID inp, ip_ClientOrderID inp) = None \<and>
         t_idem (db_tables s') = (t_idem (db_tables s))((ip_UserID inp, ip_ClientOrderID inp) \<mapsto> i) \<and>
         (\<forall>od. r = Inr od \<longrightarrow> po_ID od = i) \<and> r \<noteq> Inl ErrDuplicateClientOrder)"
    by (auto simp: scanOrder_def)
qed

section \<open>Requests of the same client order id\<close>

text \<open>
  The service and its database over time: requests, whatever the other users of the repository
  do, and entries that the cache drops.
\<close>

inductive service_reach ::
  "('d::linordered_idom) denv \<Rightarrow> env_codec \<Rightarrow> 'd db service_state \<Rightarrow> 'd db service_state \<Rightarrow> bool" for D C where
  start: "service_reach D C st st"
| place: "service_reach D C st st1 \<Longrightarrow> PlaceOrder (de_libs D) (repo_store D C) sv (Some req) st1 = (r, st2) \<Longrightarrow> service_reach D C st st2"
| repo: "service_reach D C st (db, co) \<Longrightarrow>
     service_reach D C st (repo_run D C op (db\<lparr>db_now := t0, db_calls := calls\<rparr>), co)"
| drop_entries: "service_reach D C st (db, Some c) \<Longrightarrow> rd_data c' \<subseteq>\<^sub>m rd_data c \<Longrightarrow> service_reach D C st (db, Some c')"

definition service_ok :: "'d db service_state \<Rightarrow> bool" where
  "service_ok st \<longleftrightarrow> cache_ok (t_idem (db_tables (fst st))) (snd st)"

lemma repo_run_idem: "t_idem (db_tables db) \<subseteq>\<^sub>m t_idem (db_tables (repo_run D C op (db\<lparr>db_now := t0, db_calls := calls\<rparr>)))"
proof -
  have "bound_to k i (db_tables (repo_run D C op (db\<lparr>db_now := t0, db_calls := calls\<rparr>)))" if "bound_to k i (db_tables db)" for k i
    using that by (intro bnd.repo_run_keeps) simp
  then show ?thesis by (auto simp: map_le_def bound_to_def dom_def)
qed

lemma service_reach_ok:
  "service_reach D C st st' \<Longrightarrow> service_ok st \<Longrightarrow>
     service_ok st' \<and> t_idem (db_tables (fst st)) \<subseteq>\<^sub>m t_idem (db_tables (fst st'))"
proof (induction rule: service_reach.induct)
  case (place st st1 sv req r st2)
  with repo.PlaceOrder_answered [OF _ place.hyps(2)] show ?case
    by (auto simp: service_ok_def repo.answered_def intro: map_le_trans)
next
  case (repo st db co op t0 calls)
  with repo_run_idem [of db D C op t0 calls] show ?case
    by (auto simp: service_ok_def intro: cache_ok_mono map_le_trans)
next
  case (drop_entries st db c c')
  then show ?case using cache_ok_sub by (auto simp: service_ok_def)
qed simp

text \<open>
  C22. Placing is idempotent. Once a request has been answered with an order, every later request
  with the same user and client order id that is answered gets that same order, is marked as a
  repetition, and changes nothing in the database, whatever happened in between: other requests,
  cancels, fills, failed calls and lost answers of the database or the cache, dropped cache entries.
\<close>
theorem place_order_once:
  assumes "service_ok st0"
    and "PlaceOrder (de_libs D) (repo_store D C) sv (Some req) st0 = (Inr resp, st1)"
    and "service_reach D C st1 st2"
    and "PlaceOrder (de_libs D) (repo_store D C) sv' (Some req') st2 = (r, st3)"
    and "pr_UserId req' = pr_UserId req" "trim_space (pr_ClientOrderId req') = trim_space (pr_ClientOrderId req)"
  shows "db_tables (fst st3) = db_tables (fst st2) \<and>
    (\<forall>resp'. r = Inr resp' \<longrightarrow> pp_OrderId resp' = pp_OrderId resp \<and> pp_IdempotentHit resp')"
proof -
  let ?k = "(pr_UserId req, trim_space (pr_ClientOrderId req))"
  note a = repo.PlaceOrder_answered [OF assms(1) [unfolded service_ok_def] assms(2)]
  then have ok: "service_ok st1" and o1: "t_idem (db_tables (fst st1)) ?k = Some (pp_OrderId resp)"
    by (simp_all add: repo.answered_def service_ok_def)
  from service_reach_ok [OF assms(3) ok] o1 have ok2: "service_ok st2" and o2: "t_idem (db_tables (fst st2)) ?k = Some (pp_OrderId resp)"
    by (auto simp: map_le_def dom_def)
  from repo.PlaceOrder_answered [OF ok2 [unfolded service_ok_def] assms(4)] o2 assms(5,6) show ?thesis
    by (auto simp: repo.answered_def)
qed

definition wit_once_request :: place_order_request where
  "wit_once_request =
     \<lparr> pr_UserId = 1, pr_ClientOrderId = ''c1'', pr_Symbol = ''BTC-USDT'', pr_Side = Side_SIDE_BUY,
       pr_Type = OrderType_LIMIT, pr_Quantity = Some ''5'', pr_Price = Some ''100'' \<rparr>"

definition wit_once_service :: "int order_service" where
  "wit_once_service =
     \<lparr> sv_OutboxTopic = ''order.commands'', sv_MarketData = None, sv_SlippageBuffer = 0,
       sv_Symbols = (case RegistryFromMap int_libs [(''BTC-USDT'', wit_rule)] of Inr reg \<Rightarrow> Some reg | Inl e \<Rightarrow> None),
       sv_Shards = None \<rparr>"

definition wit_cache :: cache where
  "wit_cache = \<lparr> rd_data = Map.empty, rd_calls = (\<lambda>i. if i = 2 then NotSent else Answered), rd_pos = 0 \<rparr>"

definition wit_once_run :: "(err + place_order_response) \<times> int db service_state" where
  "wit_once_run = PlaceOrder int_libs (repo_store wit_denv wit_env_codec) wit_once_service (Some wit_once_request) (wit_db, Some wit_cache)"

lemma wit_once_first: "\<exists>resp. fst wit_once_run = Inr resp \<and> pp_OrderId resp = 1 \<and> \<not> pp_IdempotentHit resp"
proof -
  have "case fst wit_once_run of Inr resp \<Rightarrow> pp_OrderId resp = 1 \<and> \<not> pp_IdempotentHit resp | Inl e \<Rightarrow> False" by code_simp
  then show ?thesis by (auto split: sum.splits)
qed

theorem place_order_once_witness:
  "\<exists>resp. fst wit_once_run = Inr resp \<and>
    (\<forall>r st3. PlaceOrder int_libs (repo_store wit_denv wit_env_codec) wit_once_service (Some wit_once_request) (snd wit_once_run) = (r, st3) \<longrightarrow>
       db_tables (fst st3) = db_tables (fst (snd wit_once_run)) \<and> (\<forall>resp'. r = Inr resp' \<longrightarrow> pp_OrderId resp' = pp_OrderId resp))"
proof -
  have D: "de_libs wit_denv = int_libs" by (simp add: wit_denv_def)
  obtain resp where f: "fst wit_once_run = Inr resp" using wit_once_first by blast
  obtain st1 where p: "PlaceOrder int_libs (repo_store wit_denv wit_env_codec) wit_once_service (Some wit_once_request) (wit_db, Some wit_cache) = (Inr resp, st1)"
    using f unfolding wit_once_run_def by (metis prod.collapse)
  then have s: "snd wit_once_run = st1" by (simp add: wit_once_run_def)
  have "service_ok (wit_db, Some wit_cache)" by (simp add: service_ok_def cache_ok_def wit_cache_def)
  from place_order_once [of _ wit_denv, unfolded D, OF this p service_reach.start _ refl refl] s f show ?thesis by blast
qed

end
