(* ===== verification/MatchEvents.thy ===== *)
theory MatchEvents
  imports Recovery EventOutbox Kafka
begin

text \<open>
  Model of \<open>internal/matching/publisher\<close> (\<open>events.go\<close>, \<open>publisher.go\<close>, \<open>batch_write.go\<close>,
  \<open>marshal.go\<close>) and \<open>internal/matching/eventoutbox/append.go\<close>: the events that a command gives
  rise to, how they are written to Kafka directly and how they enter the event outbox.
  The pool of marshalling buffers and the metrics are left out.
\<close>

section \<open>Events\<close>

definition ORDER_ACCEPTED :: int where "ORDER_ACCEPTED = 1"
definition ORDER_FILLED :: int where "ORDER_FILLED = 2"
definition ORDER_PARTIAL_FILLED :: int where "ORDER_PARTIAL_FILLED = 3"
definition ORDER_CANCELED :: int where "ORDER_CANCELED = 4"

lemmas event_type_defs = ORDER_ACCEPTED_def ORDER_FILLED_def ORDER_PARTIAL_FILLED_def ORDER_CANCELED_def

record match_event =
  mv_CommandId :: uint64
  mv_Symbol :: string
  mv_OrderId :: uint64
  mv_EventType :: int
  mv_Order :: "pb_order option"
  mv_WalSeq :: uint64

record trade_event =
  tv_Trade :: "pb_trade option"
  tv_WalSeq :: uint64

record outbound =
  og_MatchEvents :: "match_event list"
  og_TradeEvents :: "trade_event list"

definition no_events :: outbound where
  "no_events = \<lparr> og_MatchEvents = [], og_TradeEvents = [] \<rparr>"

definition newMatchEvent :: "uint64 \<Rightarrow> string \<Rightarrow> uint64 \<Rightarrow> int \<Rightarrow> pb_order option \<Rightarrow> uint64 \<Rightarrow> match_event" where
  "newMatchEvent commandID symbolName orderID t od walSeq =
     \<lparr> mv_CommandId = commandID, mv_Symbol = symbolName, mv_OrderId = orderID, mv_EventType = t, mv_Order = od, mv_WalSeq = walSeq \<rparr>"

definition orderActive :: "'d shard \<Rightarrow> string \<Rightarrow> uint64 \<Rightarrow> bool" where
  "orderActive sh symbolName orderID =
     (case shard_Get sh symbolName of None \<Rightarrow> False | Some se \<Rightarrow> FindOrder orderID (se_OrderBook se) \<noteq> None)"

definition takerFillEvent :: "'d shard \<Rightarrow> string \<Rightarrow> uint64 \<Rightarrow> uint64 \<Rightarrow> pb_order option \<Rightarrow> uint64 \<Rightarrow> match_event" where
  "takerFillEvent sh symbolName orderID commandID od walSeq =
     newMatchEvent commandID symbolName orderID
       (if orderActive sh symbolName orderID then ORDER_PARTIAL_FILLED else ORDER_FILLED) od walSeq"

text \<open>The order of a maker that left the book: the fields the code sets, the others zero.\<close>

definition filled_order :: "'d libs \<Rightarrow> string \<Rightarrow> 'd trade \<Rightarrow> pb_order" where
  "filled_order L symbolName tr =
     \<lparr> p_OrderId = t_MakerOrderID tr, p_ClientOrderId = '''', p_Symbol = symbolName, p_CreateTime = None, p_UpdateTime = None,
       p_Side = 0, p_Type = 0, p_Price = None, p_Quantity = Some (dec_to_string L (t_Quantity tr)), p_Remaining = Some ''0'',
       p_Flags = 0 \<rparr>"

definition makerFillEvent ::
  "('d::linordered_idom) libs \<Rightarrow> 'd shard \<Rightarrow> string \<Rightarrow> 'd trade \<Rightarrow> uint64 \<Rightarrow> uint64 \<Rightarrow> match_event" where
  "makerFillEvent L sh symbolName tr commandID walSeq =
     (let orderID = t_MakerOrderID tr;
          t = (if orderActive sh symbolName orderID then ORDER_PARTIAL_FILLED else ORDER_FILLED);
          found = (case shard_Get sh symbolName of
                     None \<Rightarrow> None
                   | Some se \<Rightarrow> map_option (OrderToProto L) (FindOrder orderID (se_OrderBook se)));
          od = (if found = None \<and> t = ORDER_FILLED then Some (filled_order L symbolName tr) else found)
      in newMatchEvent commandID symbolName orderID t od walSeq)"

text \<open>The loop over the trades with the makers already reported.\<close>

fun maker_events ::
  "('d::linordered_idom) libs \<Rightarrow> 'd shard \<Rightarrow> string \<Rightarrow> uint64 \<Rightarrow> uint64 \<Rightarrow> uint64 set \<Rightarrow> 'd trade list \<Rightarrow> match_event list" where
  "maker_events L sh symbolName commandID walSeq seen [] = []"
| "maker_events L sh symbolName commandID walSeq seen (tr # trs) =
     (if t_MakerOrderID tr \<in> seen then maker_events L sh symbolName commandID walSeq seen trs
      else makerFillEvent L sh symbolName tr commandID walSeq #
           maker_events L sh symbolName commandID walSeq (insert (t_MakerOrderID tr) seen) trs)"

definition BuildNewOrderEvents ::
  "('d::linordered_idom) libs \<Rightarrow> 'd shard \<Rightarrow> new_order_cmd option \<Rightarrow> 'd trade list \<Rightarrow> uint64 \<Rightarrow> bool \<Rightarrow> outbound" where
  "BuildNewOrderEvents L sh cmdo trades walSeq duplicate =
     (case cmdo of None \<Rightarrow> no_events
      | Some cmd \<Rightarrow>
     (case no_Order cmd of None \<Rightarrow> no_events
      | Some pb \<Rightarrow>
          if duplicate then no_events
          else (let orderID = p_OrderId pb; symbolName = p_Symbol pb;
                    commandID = (if no_CommandId cmd = 0 then orderID else no_CommandId cmd)
                in \<lparr> og_MatchEvents =
                       newMatchEvent commandID symbolName orderID ORDER_ACCEPTED (Some pb) walSeq #
                       maker_events L sh symbolName commandID walSeq {} trades @
                       (if trades = [] then [] else [takerFillEvent sh symbolName orderID commandID (Some pb) walSeq]),
                     og_TradeEvents = map (\<lambda>tr. \<lparr> tv_Trade = Some (TradeToProto L tr), tv_WalSeq = walSeq \<rparr>) trades \<rparr>)))"

definition BuildCancelEvents :: "cancel_cmd option \<Rightarrow> uint64 \<Rightarrow> outbound" where
  "BuildCancelEvents cmdo walSeq =
     (case cmdo of None \<Rightarrow> no_events
      | Some cmd \<Rightarrow>
          \<lparr> og_MatchEvents =
              [newMatchEvent (if co_CommandId cmd = 0 then co_OrderId cmd else co_CommandId cmd)
                 (co_Symbol cmd) (co_OrderId cmd) ORDER_CANCELED None walSeq],
            og_TradeEvents = [] \<rparr>)"

section \<open>Writing to Kafka\<close>

text \<open>
  The producer: the log of each topic and the outcome of the successive writes to it. The protobuf
  coding of the events is a parameter.
\<close>

record producer =
  pd_log :: "string \<Rightarrow> message list"
  pd_writes :: "string \<Rightarrow> nat \<Rightarrow> write_outcome"
  pd_pos :: "string \<Rightarrow> nat"

record event_codec =
  MarshalMatchEvent :: "match_event \<Rightarrow> bytes option"
  MarshalTradeEvent :: "trade_event \<Rightarrow> bytes option"
  UnmarshalMatchEvent :: "bytes \<Rightarrow> match_event option"
  UnmarshalTradeEvent :: "bytes \<Rightarrow> trade_event option"

definition pd_WriteBatch :: "string \<Rightarrow> string \<Rightarrow> bytes list \<Rightarrow> producer \<Rightarrow> err option \<times> producer" where
  "pd_WriteBatch topic key vs p =
     (let oc = pd_writes p topic (pd_pos p topic)
      in (if oc = Written then None else Some (ErrMsg ''kafka write''),
          p\<lparr>pd_pos := (pd_pos p)(topic := Suc (pd_pos p topic)),
            pd_log := (pd_log p)(topic := pd_log p topic @ messages key (written oc vs))\<rparr>))"

definition matchSymbol :: "match_event \<Rightarrow> string" where
  "matchSymbol ev = mv_Symbol ev"

definition tradeSymbol :: "trade_event \<Rightarrow> string" where
  "tradeSymbol ev = (case tv_Trade ev of None \<Rightarrow> '''' | Some tr \<Rightarrow> pt_Symbol tr)"

fun marshal_batch :: "('a \<Rightarrow> bytes option) \<Rightarrow> 'a list \<Rightarrow> bytes list option" where
  "marshal_batch f [] = Some []"
| "marshal_batch f (x # xs) =
     (case f x of None \<Rightarrow> None
      | Some b \<Rightarrow> (case marshal_batch f xs of None \<Rightarrow> None | Some bs \<Rightarrow> Some (b # bs)))"

text \<open>The groups in the order of their first events.\<close>

fun group_order :: "('a \<Rightarrow> string) \<Rightarrow> 'a list \<Rightarrow> string list \<Rightarrow> string list option" where
  "group_order key [] seen = Some seen"
| "group_order key (ev # evs) seen =
     (if key ev = '''' then None
      else group_order key evs (if key ev \<in> set seen then seen else seen @ [key ev]))"

fun write_groups ::
  "string \<Rightarrow> 'a list \<Rightarrow> ('a \<Rightarrow> string) \<Rightarrow> ('a \<Rightarrow> bytes option) \<Rightarrow> string list \<Rightarrow> producer \<Rightarrow> err option \<times> producer" where
  "write_groups topic events key marsh [] p = (None, p)"
| "write_groups topic events key marsh (s # ss) p =
     (case marshal_batch marsh (filter (\<lambda>ev. key ev = s) events) of
        None \<Rightarrow> (Some (ErrMsg ''marshal''), p)
      | Some vs \<Rightarrow>
          (case pd_WriteBatch topic s vs p of
             (Some e, p1) \<Rightarrow> (Some e, p1)
           | (None, p1) \<Rightarrow> write_groups topic events key marsh ss p1))"

definition writeEventsBySymbol ::
  "string \<Rightarrow> 'a list \<Rightarrow> ('a \<Rightarrow> string) \<Rightarrow> ('a \<Rightarrow> bytes option) \<Rightarrow> producer \<Rightarrow> err option \<times> producer" where
  "writeEventsBySymbol topic events key marsh p =
     (if events = [] then (None, p)
      else (case group_order key events [] of
              None \<Rightarrow> (Some (ErrMsg ''publisher: event missing symbol''), p)
            | Some ss \<Rightarrow> write_groups topic events key marsh ss p))"

definition mergeOutbound :: "outbound list \<Rightarrow> outbound" where
  "mergeOutbound outs =
     \<lparr> og_MatchEvents = concat (map og_MatchEvents outs), og_TradeEvents = concat (map og_TradeEvents outs) \<rparr>"

record publisher_config =
  pc_MatchTopic :: string
  pc_TradeTopic :: string

text \<open>
  Both kinds are written at the same time; as the topics differ, the order does not matter, and
  the second write is made even if the first fails.
\<close>

definition PublishBatch :: "event_codec \<Rightarrow> publisher_config \<Rightarrow> outbound list \<Rightarrow> producer \<Rightarrow> err option \<times> producer" where
  "PublishBatch K cfg outs p =
     (let merged = mergeOutbound outs;
          (me, p1) = writeEventsBySymbol (pc_MatchTopic cfg) (og_MatchEvents merged) matchSymbol (MarshalMatchEvent K) p;
          (te, p2) = writeEventsBySymbol (pc_TradeTopic cfg) (og_TradeEvents merged) tradeSymbol (MarshalTradeEvent K) p1
      in (if me \<noteq> None then me else te, p2))"

definition Publish :: "event_codec \<Rightarrow> publisher_config \<Rightarrow> outbound \<Rightarrow> producer \<Rightarrow> err option \<times> producer" where
  "Publish K cfg out p = PublishBatch K cfg [out] p"

section \<open>The event outbox\<close>

record command_meta =
  cm_KafkaPartition :: uint32
  cm_KafkaOffset :: uint64

text \<open>A record of the outbox and its append; the time of the record is read from the clock.\<close>

definition append_event ::
  "command_meta \<Rightarrow> byte \<Rightarrow> uint64 \<Rightarrow> string \<Rightarrow> bytes option \<Rightarrow> wstate \<Rightarrow> err option \<times> wstate" where
  "append_event meta topic walSeq key payload st =
     (case payload of None \<Rightarrow> (Some (ErrMsg ''marshal''), st)
      | Some b \<Rightarrow>
          (let (w, d, clk) = st;
               (r, clk1) = eo_NewRecord 0 walSeq topic (cm_KafkaPartition meta) (cm_KafkaOffset meta) key b 0 clk
           in case eo_AppendNext r (w, d, clk1) of
                (Inl e, st1) \<Rightarrow> (Some e, st1) | (Inr _, st1) \<Rightarrow> (None, st1)))"

fun append_matches :: "event_codec \<Rightarrow> command_meta \<Rightarrow> match_event list \<Rightarrow> wstate \<Rightarrow> err option \<times> wstate" where
  "append_matches K meta [] st = (None, st)"
| "append_matches K meta (ev # evs) st =
     (case append_event meta TopicMatch (mv_WalSeq ev) (mv_Symbol ev) (MarshalMatchEvent K ev) st of
        (Some e, st1) \<Rightarrow> (Some e, st1)
      | (None, st1) \<Rightarrow> append_matches K meta evs st1)"

fun append_trades :: "event_codec \<Rightarrow> command_meta \<Rightarrow> trade_event list \<Rightarrow> wstate \<Rightarrow> err option \<times> wstate" where
  "append_trades K meta [] st = (None, st)"
| "append_trades K meta (ev # evs) st =
     (case append_event meta TopicTrade (tv_WalSeq ev) (tradeSymbol ev) (MarshalTradeEvent K ev) st of
        (Some e, st1) \<Rightarrow> (Some e, st1)
      | (None, st1) \<Rightarrow> append_trades K meta evs st1)"

definition AppendOutbound :: "event_codec \<Rightarrow> command_meta \<Rightarrow> outbound \<Rightarrow> wstate \<Rightarrow> err option \<times> wstate" where
  "AppendOutbound K meta out st =
     (case append_matches K meta (og_MatchEvents out) st of
        (Some e, st1) \<Rightarrow> (Some e, st1)
      | (None, st1) \<Rightarrow> append_trades K meta (og_TradeEvents out) st1)"

section \<open>What the fill events say\<close>

lemma consume_maker_map:
  "orderMap (fst (consume_maker w m (b, clk))) =
     (orderMap b)(o_OrderID m := (if o_Remaining m = 0 then None else Some (m\<lparr>o_UpdateTime := fst (now clk)\<rparr>)))"
  by (simp add: consume_maker_def Let_def split_beta)

text \<open>Each trade takes its quantity off one maker, which leaves the index when nothing is left.\<close>

definition maker_left :: "('d::linordered_idom) order \<Rightarrow> 'd trade \<Rightarrow> 'd order_book \<Rightarrow> bool" where
  "maker_left m tr b \<longleftrightarrow>
     t_MakerOrderID tr = o_OrderID m \<and> 0 < t_Quantity tr \<and> t_Quantity tr \<le> o_Remaining m \<and>
     (\<exists>t. orderMap b (o_OrderID m) =
        (if t_Quantity tr = o_Remaining m then None
         else Some (m\<lparr>o_Remaining := o_Remaining m - t_Quantity tr, o_UpdateTime := t\<rparr>)))"

lemma match_step_maker:
  assumes "match_step w seq taker m (b, clk) = (tr, taker1, b1, clk1)" and "0 < o_Remaining taker" "0 < o_Remaining m"
  shows "maker_left m tr b1" "\<And>k. k \<noteq> o_OrderID m \<Longrightarrow> orderMap b1 k = orderMap b k" "0 \<le> o_Remaining taker1"
  using assms by (auto simp: maker_left_def match_step_def Let_def split_beta consume_maker_map min_def split: if_splits)

lemma matchAgainstBook_makers:
  "matchAgainstBook w seq iter taker (b, clk) = (trs, taker', b', clk') \<Longrightarrow> distinct (map o_OrderID iter) \<Longrightarrow>
     \<forall>m \<in> set iter. 0 < o_Remaining m \<Longrightarrow> 0 \<le> o_Remaining taker \<Longrightarrow>
     (\<forall>tr \<in> set trs. \<exists>m \<in> set iter. maker_left m tr b') \<and> distinct (map t_MakerOrderID trs) \<and>
     (\<forall>k. k \<notin> t_MakerOrderID ` set trs \<longrightarrow> orderMap b' k = orderMap b k)"
proof (induction iter arbitrary: taker b clk trs)
  case Nil
  then show ?case by simp
next
  case (Cons m iter)
  from Cons.prems(1) show ?case
  proof (cases rule: loop_cases)
    case stop
    then show ?thesis by simp
  next
    case (step tr taker1 bc1 trs1)
    then obtain b1 clk1 where s: "match_step w seq taker m (b, clk) = (tr, taker1, b1, clk1)"
      and r: "matchAgainstBook w seq iter taker1 (b1, clk1) = (trs1, taker', b', clk')"
      by (cases bc1) auto
    have "0 < o_Remaining taker" using step(1) Cons.prems(4) by simp
    note ms = match_step_maker [OF s this]
    have ih: "(\<forall>tr \<in> set trs1. \<exists>m \<in> set iter. maker_left m tr b') \<and> distinct (map t_MakerOrderID trs1) \<and>
        (\<forall>k. k \<notin> t_MakerOrderID ` set trs1 \<longrightarrow> orderMap b' k = orderMap b1 k)"
      using Cons.IH [OF r] Cons.prems(2,3) ms(3) by simp
    have mk: "t_MakerOrderID tr = o_OrderID m" using match_step_fields(3) [OF s] .
    have fresh: "o_OrderID m \<notin> t_MakerOrderID ` set trs1"
    proof
      assume "o_OrderID m \<in> t_MakerOrderID ` set trs1"
      then obtain m' where "m' \<in> set iter" "o_OrderID m' = o_OrderID m" using ih by (auto simp: maker_left_def)
      then show False using Cons.prems(2) by (auto simp: image_iff)
    qed
    then have "maker_left m tr b'" using ms(1) ih Cons.prems(3) by (simp add: maker_left_def)
    with ih ms(2) fresh mk step(5) Cons.prems(3) show ?thesis by auto
  qed
qed

lemma book_ids_distinct:
  assumes "book_ok b"
  shows "distinct (map o_OrderID (book_list w b))"
proof -
  have "distinct (book_list w b)" using bk.ordered_distinct [OF book_okD(1) [OF assms]] .
  moreover have "inj_on o_OrderID (set (book_list w b))" using book_ok_same_id [OF assms] by (auto intro: inj_onI)
  ultimately show ?thesis by (simp add: distinct_map)
qed

lemma Match_makers:
  assumes ok: "book_ok b" and pos: "0 < o_Remaining (prepareTaker od)"
    and m: "Match od seq (b, clk) = (Inr trs, b', clk')" and new: "orderMap b (o_OrderID od) = None"
  shows "\<forall>tr \<in> set trs. \<exists>m. orderMap b (t_MakerOrderID tr) = Some m \<and> maker_left m tr b'"
    and "distinct (map t_MakerOrderID trs)" "o_OrderID od \<notin> t_MakerOrderID ` set trs"
    and "orderMap b' (o_OrderID od) \<noteq> None \<longleftrightarrow> o_Type od = OrderTypeLimit \<and> traded trs \<noteq> o_Remaining (prepareTaker od)"
proof -
  let ?w = "oppositeBook (o_Side od)"
  obtain taker' b1 clk1 where
    l: "matchAgainstBook ?w seq (book_list ?w b) (prepareTaker od) (b, clk) = (trs, taker', b1, clk1)"
    and e: "o_Type od = OrderTypeLimit \<and> 0 < o_Remaining taker' \<and> (b', clk') = InsertOrder taker' (b1, clk1)
     \<or> (o_Type od = OrderTypeLimit \<and> o_Remaining taker' \<le> 0 \<or> o_Type od = OrderTypeMarket) \<and> b' = b1 \<and> clk' = clk1"
    using Match_Inr [OF m] by metis
  have "distinct (map o_OrderID (book_list ?w b))" using book_ids_distinct [OF ok] .
  note mk = matchAgainstBook_makers [OF l this]
  have pr: "\<forall>m \<in> set (book_list ?w b). 0 < o_Remaining m" using book_okD(3) [OF ok] by blast
  have mk: "\<forall>tr \<in> set trs. \<exists>m \<in> set (book_list ?w b). maker_left m tr b1" "distinct (map t_MakerOrderID trs)"
    "\<forall>k. k \<notin> t_MakerOrderID ` set trs \<longrightarrow> orderMap b1 k = orderMap b k"
    using mk [OF pr less_imp_le [OF pos]] by blast+
  have fresh: "o_OrderID od \<notin> t_MakerOrderID ` set trs"
    using mk(1) book_ok_mapped [OF ok] new by (fastforce simp: maker_left_def)
  have "book_ok b1 \<and> (\<exists>t. taker' = (prepareTaker od)\<lparr>o_Remaining := o_Remaining (prepareTaker od) - traded trs, o_UpdateTime := t\<rparr>) \<and>
      0 \<le> o_Remaining taker'"
    using matchAgainstBook_book [OF l ok refl less_imp_le [OF pos]] by simp
  then have tk: "o_OrderID taker' = o_OrderID od" "o_Remaining taker' = o_Remaining (prepareTaker od) - traded trs" "0 \<le> o_Remaining taker'"
    by auto
  have none: "orderMap b1 (o_OrderID od) = None" using mk(3) fresh new by simp
  have b': "orderMap b' = orderMap b1 \<or> (\<exists>x. orderMap b' = (orderMap b1)(o_OrderID od \<mapsto> x))"
    using e InsertOrder_fresh [of b1 taker' clk1] none tk(1) by auto
  show "\<forall>tr \<in> set trs. \<exists>m. orderMap b (t_MakerOrderID tr) = Some m \<and> maker_left m tr b'"
  proof
    fix tr assume t: "tr \<in> set trs"
    then obtain x where x: "x \<in> set (book_list ?w b)" "maker_left x tr b1" using mk(1) by blast
    have "orderMap b (t_MakerOrderID tr) = Some x" using book_ok_mapped [OF ok x(1)] x(2) by (simp add: maker_left_def)
    moreover have "o_OrderID x \<noteq> o_OrderID od" using fresh t x(2) by (force simp: maker_left_def)
    then have "orderMap b' (o_OrderID x) = orderMap b1 (o_OrderID x)" using b' by auto
    with x(2) have "maker_left x tr b'" by (simp add: maker_left_def)
    ultimately show "\<exists>m. orderMap b (t_MakerOrderID tr) = Some m \<and> maker_left m tr b'" by blast
  qed
  show "distinct (map t_MakerOrderID trs)" "o_OrderID od \<notin> t_MakerOrderID ` set trs" by fact+
  show "orderMap b' (o_OrderID od) \<noteq> None \<longleftrightarrow> o_Type od = OrderTypeLimit \<and> traded trs \<noteq> o_Remaining (prepareTaker od)"
  proof (cases "o_Type od = OrderTypeLimit \<and> 0 < o_Remaining taker'")
    case True
    with e have "(b', clk') = InsertOrder taker' (b1, clk1)" by auto
    then have "orderMap b' (o_OrderID od) \<noteq> None" using InsertOrder_fresh [of b1 taker' clk1] none tk(1) by simp
    with True tk(2) show ?thesis by auto
  next
    case False
    then have "b' = b1" using e by blast
    moreover have "o_Type od = OrderTypeLimit \<Longrightarrow> o_Remaining taker' = 0" using False tk(3) by simp
    ultimately show ?thesis using none tk(2) by auto
  qed
qed

lemma Match_rest:
  assumes ok: "book_ok b" and pos: "0 < o_Remaining (prepareTaker od)"
    and m: "Match od seq (b, clk) = (Inr trs, b', clk')" and new: "orderMap b (o_OrderID od) = None"
  shows "k \<notin> t_MakerOrderID ` set trs \<Longrightarrow> k \<noteq> o_OrderID od \<Longrightarrow> orderMap b' k = orderMap b k"
    and "orderMap b' (o_OrderID od) = Some x \<Longrightarrow>
      o_Side x = o_Side od \<and> o_Price x = o_Price od \<and> o_Remaining x = o_Remaining (prepareTaker od) - traded trs"
proof -
  let ?w = "oppositeBook (o_Side od)"
  obtain taker' b1 clk1 where
    l: "matchAgainstBook ?w seq (book_list ?w b) (prepareTaker od) (b, clk) = (trs, taker', b1, clk1)"
    and e: "o_Type od = OrderTypeLimit \<and> 0 < o_Remaining taker' \<and> (b', clk') = InsertOrder taker' (b1, clk1)
     \<or> (o_Type od = OrderTypeLimit \<and> o_Remaining taker' \<le> 0 \<or> o_Type od = OrderTypeMarket) \<and> b' = b1 \<and> clk' = clk1"
    using Match_Inr [OF m] by metis
  have "\<forall>m \<in> set (book_list ?w b). 0 < o_Remaining m" using book_okD(3) [OF ok] by blast
  with matchAgainstBook_makers [OF l book_ids_distinct [OF ok]] pos
  have mk: "\<forall>tr \<in> set trs. \<exists>m \<in> set (book_list ?w b). maker_left m tr b1"
    "\<forall>k. k \<notin> t_MakerOrderID ` set trs \<longrightarrow> orderMap b1 k = orderMap b k" by auto
  have "o_OrderID od \<notin> t_MakerOrderID ` set trs"
    using mk(1) book_ok_mapped [OF ok] new by (fastforce simp: maker_left_def)
  then have none: "orderMap b1 (o_OrderID od) = None" using mk(2) new by simp
  obtain t where tk: "taker' = (prepareTaker od)\<lparr>o_Remaining := o_Remaining (prepareTaker od) - traded trs, o_UpdateTime := t\<rparr>"
    using matchAgainstBook_book [OF l ok refl less_imp_le [OF pos]] by auto
  then have id: "o_OrderID taker' = o_OrderID od" by simp
  have b': "b' = b1 \<or> orderMap b' = (orderMap b1)(o_OrderID od \<mapsto> stamped taker' clk1)"
    using e InsertOrder_fresh [of b1 taker' clk1] none id by auto
  show "orderMap b' k = orderMap b k" if "k \<notin> t_MakerOrderID ` set trs" "k \<noteq> o_OrderID od" for k
    using b' mk(2) that by auto
  show "o_Side x = o_Side od \<and> o_Price x = o_Price od \<and> o_Remaining x = o_Remaining (prepareTaker od) - traded trs"
    if "orderMap b' (o_OrderID od) = Some x"
    using b' none that tk by (auto simp: stamped_def prepareTaker_def)
qed

text \<open>What the event of one maker says, with the book \<open>b\<close> before the command.\<close>

definition maker_told :: "('d::linordered_idom) libs \<Rightarrow> 'd order_book \<Rightarrow> 'd trade \<Rightarrow> match_event \<Rightarrow> bool" where
  "maker_told L b tr ev \<longleftrightarrow> mv_OrderId ev = t_MakerOrderID tr \<and>
     (\<exists>m. FindOrder (t_MakerOrderID tr) b = Some m \<and>
        (if t_Quantity tr = o_Remaining m then mv_EventType ev = ORDER_FILLED
         else mv_EventType ev = ORDER_PARTIAL_FILLED \<and>
           (\<exists>pb. mv_Order ev = Some pb \<and> p_Quantity pb = Some (dec_to_string L (o_Quantity m)) \<and>
              p_Remaining pb = Some (dec_to_string L (o_Remaining m - t_Quantity tr)))))"

lemma maker_events_map:
  "distinct (map t_MakerOrderID trs) \<Longrightarrow> seen \<inter> t_MakerOrderID ` set trs = {} \<Longrightarrow>
     maker_events L sh s c q seen trs = map (\<lambda>tr. makerFillEvent L sh s tr c q) trs"
  by (induction trs arbitrary: seen) (auto simp: image_iff)

lemma makerFillEvent_told:
  assumes "shard_Get sh' s = Some se" and l: "maker_left m tr (se_OrderBook se)" and b: "orderMap b (t_MakerOrderID tr) = Some m"
  shows "maker_told L b tr (makerFillEvent L sh' s tr c q)"
proof -
  have id: "t_MakerOrderID tr = o_OrderID m" using l by (simp add: maker_left_def)
  show ?thesis
  proof (cases "t_Quantity tr = o_Remaining m")
    case True
    then have "FindOrder (t_MakerOrderID tr) (se_OrderBook se) = None" using l id by (simp add: maker_left_def FindOrder_def)
    then have "mv_EventType (makerFillEvent L sh' s tr c q) = ORDER_FILLED" "mv_OrderId (makerFillEvent L sh' s tr c q) = t_MakerOrderID tr"
      using assms(1) by (simp_all add: makerFillEvent_def orderActive_def newMatchEvent_def Let_def)
    with True b show ?thesis by (simp add: maker_told_def FindOrder_def)
  next
    case False
    then obtain t where "FindOrder (t_MakerOrderID tr) (se_OrderBook se) =
        Some (m\<lparr>o_Remaining := o_Remaining m - t_Quantity tr, o_UpdateTime := t\<rparr>)"
      using l id by (auto simp: maker_left_def FindOrder_def)
    moreover have "0 < o_Remaining m - t_Quantity tr" using l False by (simp add: maker_left_def order_le_less)
    ultimately show ?thesis using assms(1) b False
      by (simp add: maker_told_def makerFillEvent_def orderActive_def newMatchEvent_def Let_def FindOrder_def
          OrderToProto_def decimalToProto_def effectiveRemaining_def)
  qed
qed

lemma OrderFromProto_pos:
  assumes "OrderFromProto L pbo = Inr od"
  shows "0 < o_Remaining (prepareTaker od)" "\<exists>pb. pbo = Some pb \<and> p_OrderId pb = o_OrderID od \<and> p_Symbol pb = o_Symbol od"
  using assms
  by (auto simp: OrderFromProto_def prepareTaker_def split: option.splits if_splits sum.splits
      dest!: decimalFromProto_Inr intro: remainingFromProto_Inr)

text \<open>The same with the events spelt out: all bear the pair of the order.\<close>

lemma new_order_events:
  assumes sh: "shard_ok sh" and od: "OrderFromProto L (no_Order cmd) = Inr od"
    and m: "shard_Match L od seq (sh, clk) = (Inr trades, sh', clk')" and new: "\<not> orderActive sh (o_Symbol od) (o_OrderID od)"
  obtains se bk c pb fills acc t where "sh (o_Symbol od) = Some se" "book_ok (se_OrderBook se)"
    "no_Order cmd = Some pb" "0 < o_Remaining (prepareTaker od)"
    "Match od seq (se_OrderBook se, clk) = (Inr trades, bk, c)" "sh' = sh(o_Symbol od \<mapsto> se\<lparr>se_OrderBook := bk\<rparr>)"
    "orderMap (se_OrderBook se) (o_OrderID od) = None"
    "mv_EventType acc = ORDER_ACCEPTED" "mv_OrderId acc = o_OrderID od" "mv_Order acc = Some pb" "mv_Symbol acc = o_Symbol od"
    "list_all2 (maker_told L (se_OrderBook se)) trades fills" "\<forall>ev \<in> set fills. mv_Symbol ev = o_Symbol od"
    "mv_EventType t = (if o_Type od = OrderTypeLimit \<and> traded trades \<noteq> o_Remaining (prepareTaker od)
                      then ORDER_PARTIAL_FILLED else ORDER_FILLED)"
    "mv_OrderId t = o_OrderID od" "mv_Order t = Some pb" "mv_Symbol t = o_Symbol od"
    "BuildNewOrderEvents L sh' (Some cmd) trades walSeq False =
      \<lparr> og_MatchEvents = acc # fills @ (if trades = [] then [] else [t]),
        og_TradeEvents = map (\<lambda>tr. \<lparr> tv_Trade = Some (TradeToProto L tr), tv_WalSeq = walSeq \<rparr>) trades \<rparr>"
proof -
  obtain pb where pb: "no_Order cmd = Some pb" "p_OrderId pb = o_OrderID od" "p_Symbol pb = o_Symbol od" and pos: "0 < o_Remaining (prepareTaker od)"
    using OrderFromProto_pos [OF od] by blast
  obtain se r2 se' c where se: "sh (o_Symbol od) = Some se" "se_Match L od seq (se, clk) = (r2, se', c)"
    "r2 = Inr trades" "sh' = sh(o_Symbol od \<mapsto> se')" "o_Symbol od \<noteq> []"
    using m by (auto simp: shard_Match_def shard_Get_def Let_def split: if_splits option.splits prod.splits)
  have sy: "(if o_Symbol od = [] then od\<lparr>o_Symbol := se_Symbol se\<rparr> else od) = od" using se(5) by simp
  obtain bk where bk: "Match od seq (se_OrderBook se, clk) = (Inr trades, bk, c)" "se' = se\<lparr>se_OrderBook := bk\<rparr>"
    using se(2,3,5) by (auto simp: se_Match_def Let_def split: if_splits option.splits prod.splits)
  have ok: "book_ok (se_OrderBook se)" using shard_okD [OF sh se(1)] by (simp add: engine_ok_def)
  have free: "orderMap (se_OrderBook se) (o_OrderID od) = None" using new se(1) by (simp add: orderActive_def shard_Get_def FindOrder_def)
  note mk = Match_makers [OF ok pos bk(1) free]
  have g: "shard_Get sh' (o_Symbol od) = Some se'" using se(4) by (simp add: shard_Get_def)
  let ?cid = "if no_CommandId cmd = 0 then p_OrderId pb else no_CommandId cmd"
  let ?acc = "newMatchEvent ?cid (o_Symbol od) (o_OrderID od) ORDER_ACCEPTED (Some pb) walSeq"
  let ?t = "takerFillEvent sh' (o_Symbol od) (o_OrderID od) ?cid (Some pb) walSeq"
  let ?fills = "map (\<lambda>tr. makerFillEvent L sh' (o_Symbol od) tr ?cid walSeq) trades"
  have "maker_told L (se_OrderBook se) tr (makerFillEvent L sh' (o_Symbol od) tr ?cid walSeq)" if "tr \<in> set trades" for tr
    using mk(1) that makerFillEvent_told [OF g] bk(2) by fastforce
  then have told: "list_all2 (maker_told L (se_OrderBook se)) trades ?fills" by (simp add: list_all2_conv_all_nth)
  have "orderActive sh' (o_Symbol od) (o_OrderID od) \<longleftrightarrow> o_Type od = OrderTypeLimit \<and> traded trades \<noteq> o_Remaining (prepareTaker od)"
    using g bk(2) mk(4) by (simp add: orderActive_def FindOrder_def)
  then have ty: "mv_EventType ?t = (if o_Type od = OrderTypeLimit \<and> traded trades \<noteq> o_Remaining (prepareTaker od)
      then ORDER_PARTIAL_FILLED else ORDER_FILLED)" "mv_OrderId ?t = o_OrderID od"
    by (auto simp: takerFillEvent_def newMatchEvent_def)
  have me: "maker_events L sh' (o_Symbol od) c walSeq {} trades = map (\<lambda>tr. makerFillEvent L sh' (o_Symbol od) tr c walSeq) trades" for c
    using maker_events_map [OF mk(2)] by simp
  have "BuildNewOrderEvents L sh' (Some cmd) trades walSeq False =
      \<lparr> og_MatchEvents = ?acc # ?fills @ (if trades = [] then [] else [?t]),
        og_TradeEvents = map (\<lambda>tr. \<lparr> tv_Trade = Some (TradeToProto L tr), tv_WalSeq = walSeq \<rparr>) trades \<rparr>"
    using pb by (simp add: BuildNewOrderEvents_def Let_def me)
  moreover have "mv_EventType ?acc = ORDER_ACCEPTED" "mv_OrderId ?acc = o_OrderID od" "mv_Order ?acc = Some pb" "mv_Symbol ?acc = o_Symbol od"
    "mv_Order ?t = Some pb" "mv_Symbol ?t = o_Symbol od" "\<forall>ev \<in> set ?fills. mv_Symbol ev = o_Symbol od"
    using pb by (auto simp: newMatchEvent_def takerFillEvent_def makerFillEvent_def Let_def)
  moreover have "sh' = sh(o_Symbol od \<mapsto> se\<lparr>se_OrderBook := bk\<rparr>)" using se(4) bk(2) by simp
  ultimately show ?thesis using that [of se pb bk c ?acc ?fills ?t] told ty se(1) ok free pos bk(1) pb(1) by blast
qed

text \<open>
  C23. The events of a new order say what the match did to every order. After the acceptance comes
  one event per trade, about its maker: FILLED if the trade took all that was left of the maker,
  else PARTIAL_FILLED with the quantity now left; then, if anything was traded, one about the new
  order itself, PARTIAL_FILLED exactly if its remainder rests in the book. The trade events are the
  trades in order, under the number of the log record.
\<close>
theorem fill_events_exact:
  assumes sh: "shard_ok sh" and od: "OrderFromProto L (no_Order cmd) = Inr od"
    and m: "shard_Match L od seq (sh, clk) = (Inr trades, sh', clk')" and new: "\<not> orderActive sh (o_Symbol od) (o_OrderID od)"
  shows "\<exists>se acc fills t. shard_Get sh (o_Symbol od) = Some se \<and> mv_EventType acc = ORDER_ACCEPTED \<and> mv_OrderId acc = o_OrderID od \<and>
    list_all2 (maker_told L (se_OrderBook se)) trades fills \<and> mv_OrderId t = o_OrderID od \<and>
    mv_EventType t = (if o_Type od = OrderTypeLimit \<and> traded trades \<noteq> o_Remaining (prepareTaker od)
                      then ORDER_PARTIAL_FILLED else ORDER_FILLED) \<and>
    BuildNewOrderEvents L sh' (Some cmd) trades walSeq False =
      \<lparr> og_MatchEvents = acc # fills @ (if trades = [] then [] else [t]),
        og_TradeEvents = map (\<lambda>tr. \<lparr> tv_Trade = Some (TradeToProto L tr), tv_WalSeq = walSeq \<rparr>) trades \<rparr>"
proof -
  obtain se bk c pb fills acc t where e: "sh (o_Symbol od) = Some se"
    "mv_EventType acc = ORDER_ACCEPTED" "mv_OrderId acc = o_OrderID od"
    "list_all2 (maker_told L (se_OrderBook se)) trades fills"
    "mv_EventType t = (if o_Type od = OrderTypeLimit \<and> traded trades \<noteq> o_Remaining (prepareTaker od)
                      then ORDER_PARTIAL_FILLED else ORDER_FILLED)"
    "mv_OrderId t = o_OrderID od"
    "BuildNewOrderEvents L sh' (Some cmd) trades walSeq False =
      \<lparr> og_MatchEvents = acc # fills @ (if trades = [] then [] else [t]),
        og_TradeEvents = map (\<lambda>tr. \<lparr> tv_Trade = Some (TradeToProto L tr), tv_WalSeq = walSeq \<rparr>) trades \<rparr>"
    by (rule new_order_events [OF assms, of walSeq])
  then have "shard_Get sh (o_Symbol od) = Some se" by (simp add: shard_Get_def)
  with e(2-7) show ?thesis by blast
qed

definition wit_new_cmd :: new_order_cmd where
  "wit_new_cmd = \<lparr> no_CommandId = 77, no_Order = Some (OrderToProto int_libs wit_taker), no_KafkaPartition = 0, no_KafkaOffset = 5 \<rparr>"

lemma wit_new_cmd_order: "OrderFromProto int_libs (no_Order wit_new_cmd) = Inr wit_taker"
proof -
  have "order_valid wit_taker" by (simp add: order_valid_def wit_taker_def wit_order_def)
  then show ?thesis by (simp add: wit_new_cmd_def OrderFromTo [OF codec_ok_int_libs])
qed

lemma wit_match_run: "\<exists>trades sh' clk'. shard_Match int_libs wit_taker 7 (wit_shard, wit_clock) = (Inr trades, sh', clk') \<and> length trades = 2"
proof -
  have "case fst (shard_Match int_libs wit_taker 7 (wit_shard, wit_clock)) of Inr trades \<Rightarrow> length trades = 2 | Inl e \<Rightarrow> False"
    by (simp add: shard_Match_def shard_Get_def IsReadOnly_def wit_shard_def Register_def NewSymbolEngine_def NewShard_def se_Match_def
        ValidateOrder_def hasRules_def Match_def matchLimit_def matchOpposite_def wit_taker_def wit_order_def wit_book_def prepareTaker_def
        oppositeBook_def stopMatch_def match_step_def consume_maker_def now_def Let_def split_beta)
  then obtain trades where "fst (shard_Match int_libs wit_taker 7 (wit_shard, wit_clock)) = Inr trades" "length trades = 2"
    by (auto split: sum.splits)
  then show ?thesis by (metis prod.collapse)
qed

theorem fill_events_exact_witness:
  "\<exists>trades sh' clk' acc a1 a2 t. shard_Match int_libs wit_taker 7 (wit_shard, wit_clock) = (Inr trades, sh', clk') \<and>
    og_MatchEvents (BuildNewOrderEvents int_libs sh' (Some wit_new_cmd) trades 7 False) = [acc, a1, a2, t] \<and>
    mv_EventType acc = ORDER_ACCEPTED \<and> mv_OrderId t = 9"
proof -
  obtain trades sh' clk' where m: "shard_Match int_libs wit_taker 7 (wit_shard, wit_clock) = (Inr trades, sh', clk')" "length trades = 2"
    using wit_match_run by blast
  have "\<not> orderActive wit_shard (o_Symbol wit_taker) (o_OrderID wit_taker)"
    by (simp add: orderActive_def shard_Get_def FindOrder_def wit_shard_def Register_def NewSymbolEngine_def wit_taker_def wit_order_def wit_book_def)
  from fill_events_exact [OF wit_shard_ok wit_new_cmd_order m(1) this, of 7]
  obtain se acc fills t where b: "list_all2 (maker_told int_libs (se_OrderBook se)) trades fills" "mv_EventType acc = ORDER_ACCEPTED"
    "mv_OrderId t = o_OrderID wit_taker" "BuildNewOrderEvents int_libs sh' (Some wit_new_cmd) trades 7 False =
      \<lparr> og_MatchEvents = acc # fills @ (if trades = [] then [] else [t]),
        og_TradeEvents = map (\<lambda>tr. \<lparr> tv_Trade = Some (TradeToProto int_libs tr), tv_WalSeq = 7 \<rparr>) trades \<rparr>"
    and "shard_Get wit_shard (o_Symbol wit_taker) = Some se" by blast
  have "length fills = 2" using list_all2_lengthD [OF b(1)] m(2) by simp
  then obtain a1 a2 where "fills = [a1, a2]" by (auto simp: numeral_2_eq_2 length_Suc_conv)
  with m b show ?thesis by (auto simp: wit_taker_def wit_order_def)
qed

end
