(* ===== verification/CommandHandler.thy ===== *)
theory CommandHandler
  imports MatchEvents OrderRepo RecoveryDurable
begin

text \<open>
  Model of \<open>internal/matching/consumer\<close>: the handler of \<open>order.commands\<close> (\<open>handler.go\<close>,
  \<open>handler_batch.go\<close>, \<open>event_outbox.go\<close>) and the loops that read and commit (\<open>batch.go\<close>). The
  envelope of a message is decoded by the codec of theory \<open>OrderRepo\<close>, where the other end encodes
  it; \<open>None\<close> also stands for an envelope without a command, which is refused alike. Metrics are
  left out.
\<close>

section \<open>The handler\<close>

record command_msg =
  cg_Partition :: int
  cg_Offset :: int
  cg_Value :: bytes

text \<open>
  \<open>hd_outbox\<close> is the writer of the event outbox with the disk of its directory, \<open>None\<close> where the
  events are published directly.
\<close>

record 'd handler =
  hd_engine :: "'d state"
  hd_outbox :: "(file_writer \<times> disk) option"
  hd_producer :: producer

record 'd handler_env =
  he_engine :: "'d env"
  he_envelopes :: env_codec
  he_events :: event_codec
  he_publisher :: publisher_config

definition outbox_state :: "file_writer \<times> disk \<Rightarrow> 'd handler \<Rightarrow> wstate" where
  "outbox_state wd h = (fst wd, snd wd, g_clk (snd (hd_engine h)))"

definition set_outbox_state :: "wstate \<Rightarrow> 'd handler \<Rightarrow> 'd handler" where
  "set_outbox_state st h =
     h\<lparr>hd_outbox := Some (fst st, fst (snd st)),
       hd_engine := (fst (hd_engine h), (snd (hd_engine h))\<lparr>g_clk := snd (snd st)\<rparr>)\<rparr>"

definition meta_of :: "command_msg \<Rightarrow> command_meta" where
  "meta_of msg = \<lparr> cm_KafkaPartition = word_of_int (cg_Partition msg), cm_KafkaOffset = word_of_int (cg_Offset msg) \<rparr>"

text \<open>The end of \<open>processNewOrder\<close> and \<open>processCancel\<close>: append and sync, or publish.\<close>

definition deliver :: "'d handler_env \<Rightarrow> command_msg \<Rightarrow> outbound \<Rightarrow> 'd handler \<Rightarrow> err option \<times> 'd handler" where
  "deliver H msg out h =
     (case hd_outbox h of
        Some wd \<Rightarrow>
          if og_MatchEvents out = [] \<and> og_TradeEvents out = [] then (None, h)
          else (case AppendOutbound (he_events H) (meta_of msg) out (outbox_state wd h) of
                  (Some e, st) \<Rightarrow> (Some e, set_outbox_state st h)
                | (None, st) \<Rightarrow> (let (e, st1) = eo_Sync st in (e, set_outbox_state st1 h)))
      | None \<Rightarrow>
          (let (e, p) = Publish (he_events H) (he_publisher H) out (hd_producer h) in (e, h\<lparr>hd_producer := p\<rparr>)))"

definition processNewOrder ::
  "('d::linordered_idom) handler_env \<Rightarrow> new_order_cmd \<Rightarrow> command_msg \<Rightarrow> 'd handler \<Rightarrow> err option \<times> 'd handler" where
  "processNewOrder H cmd0 msg h =
     (let cmd = cmd0\<lparr>no_KafkaPartition := word_of_int (cg_Partition msg), no_KafkaOffset := word_of_int (cg_Offset msg)\<rparr>;
          before = LastSeq (hd_engine h);
          (r, e1) = ApplyNewOrder (he_engine H) (Some cmd) (hd_engine h);
          h1 = h\<lparr>hd_engine := e1\<rparr>
      in case r of
           Inl e \<Rightarrow> (if e = ErrSymbolReadOnly then None else Some e, h1)
         | Inr trades \<Rightarrow>
             (let walSeq = LastSeq e1
              in deliver H msg (BuildNewOrderEvents (env_libs (he_engine H)) (e_shard (fst e1)) (Some cmd) trades walSeq (walSeq = before)) h1))"

definition processCancel ::
  "('d::linordered_idom) handler_env \<Rightarrow> cancel_cmd \<Rightarrow> command_msg \<Rightarrow> 'd handler \<Rightarrow> err option \<times> 'd handler" where
  "processCancel H cmd0 msg h =
     (let cmd = cmd0\<lparr>co_KafkaPartition := word_of_int (cg_Partition msg), co_KafkaOffset := word_of_int (cg_Offset msg)\<rparr>;
          (r, e1) = ApplyCancel (he_engine H) (Some cmd) (hd_engine h);
          h1 = h\<lparr>hd_engine := e1\<rparr>
      in case r of
           Some e \<Rightarrow> (Some e, h1)
         | None \<Rightarrow> deliver H msg (BuildCancelEvents (Some cmd) (LastSeq e1)) h1)"

definition process :: "('d::linordered_idom) handler_env \<Rightarrow> command_msg \<Rightarrow> 'd handler \<Rightarrow> err option \<times> 'd handler" where
  "process H msg h =
     (case unmarshal_env (he_envelopes H) (cg_Value msg) of
        None \<Rightarrow> (Some (ErrMsg ''consumer: decode envelope''), h)
      | Some (EnvNewOrder no) \<Rightarrow> processNewOrder H no msg h
      | Some (EnvCancelOrder co) \<Rightarrow> processCancel H co msg h)"

section \<open>Batches\<close>

type_synonym staged_message = "command_msg \<times> envelope"

definition stageDecodedMessage ::
  "('d::linordered_idom) handler_env \<Rightarrow> command_msg \<Rightarrow> 'd handler \<Rightarrow> (err + staged_message) \<times> 'd handler" where
  "stageDecodedMessage H msg h =
     (case unmarshal_env (he_envelopes H) (cg_Value msg) of
        None \<Rightarrow> (Inl (ErrMsg ''decode envelope''), h)
      | Some (EnvNewOrder no0) \<Rightarrow>
          (let no = no0\<lparr>no_KafkaPartition := word_of_int (cg_Partition msg), no_KafkaOffset := word_of_int (cg_Offset msg)\<rparr>;
               (e, e1) = StageNewOrder (he_engine H) (Some no) (hd_engine h)
           in (case e of Some x \<Rightarrow> Inl x | None \<Rightarrow> Inr (msg, EnvNewOrder no), h\<lparr>hd_engine := e1\<rparr>))
      | Some (EnvCancelOrder co0) \<Rightarrow>
          (let co = co0\<lparr>co_KafkaPartition := word_of_int (cg_Partition msg), co_KafkaOffset := word_of_int (cg_Offset msg)\<rparr>;
               (e, e1) = StageCancel (he_engine H) (Some co) (hd_engine h)
           in (case e of Some x \<Rightarrow> Inl x | None \<Rightarrow> Inr (msg, EnvCancelOrder co), h\<lparr>hd_engine := e1\<rparr>)))"

fun stage_messages ::
  "('d::linordered_idom) handler_env \<Rightarrow> command_msg list \<Rightarrow> 'd handler \<Rightarrow> (err + staged_message list) \<times> 'd handler" where
  "stage_messages H [] h = (Inr [], h)"
| "stage_messages H (msg # msgs) h =
     (case stageDecodedMessage H msg h of
        (Inl e, h1) \<Rightarrow> (Inl e, h1)
      | (Inr sm, h1) \<Rightarrow>
          (case stage_messages H msgs h1 of
             (Inl e, h2) \<Rightarrow> (Inl e, h2) | (Inr sms, h2) \<Rightarrow> (Inr (sm # sms), h2)))"

definition staged_events :: "('d::linordered_idom) libs \<Rightarrow> 'd shard \<Rightarrow> envelope \<Rightarrow> 'd outcome \<Rightarrow> outbound" where
  "staged_events L sh env oc =
     (case env of
        EnvNewOrder no \<Rightarrow> BuildNewOrderEvents L sh (Some no) (oc_Trades oc) (oc_WalSeq oc) (oc_Duplicate oc)
      | EnvCancelOrder co \<Rightarrow> BuildCancelEvents (Some co) (oc_WalSeq oc))"

fun persist_items ::
  "('d::linordered_idom) libs \<Rightarrow> event_codec \<Rightarrow> 'd shard \<Rightarrow> (staged_message \<times> 'd outcome) list \<Rightarrow> wstate \<Rightarrow> err option \<times> wstate" where
  "persist_items L K sh [] st = (None, st)"
| "persist_items L K sh (((msg, env), oc) # xs) st =
     (if oc_ReadOnly oc \<or> oc_Duplicate oc then persist_items L K sh xs st
      else (let out = staged_events L sh env oc
            in if og_MatchEvents out = [] \<and> og_TradeEvents out = [] then persist_items L K sh xs st
               else (case AppendOutbound K (meta_of msg) out st of
                       (Some e, st1) \<Rightarrow> (Some e, st1)
                     | (None, st1) \<Rightarrow> persist_items L K sh xs st1)))"

definition persistOutboundBatch ::
  "('d::linordered_idom) handler_env \<Rightarrow> staged_message list \<Rightarrow> 'd outcome list \<Rightarrow> 'd handler \<Rightarrow> err option \<times> 'd handler" where
  "persistOutboundBatch H staged outcomes h =
     (case hd_outbox h of
        None \<Rightarrow> (Some (ErrMsg ''consumer: event outbox writer is nil''), h)
      | Some wd \<Rightarrow>
          (case persist_items (env_libs (he_engine H)) (he_events H) (e_shard (fst (hd_engine h))) (zip staged outcomes) (outbox_state wd h) of
             (Some e, st) \<Rightarrow> (Some e, set_outbox_state st h)
           | (None, st) \<Rightarrow> (let (e, st1) = eo_Sync st in (e, set_outbox_state st1 h))))"

definition buildOutboundBatch ::
  "('d::linordered_idom) libs \<Rightarrow> 'd shard \<Rightarrow> staged_message list \<Rightarrow> 'd outcome list \<Rightarrow> outbound list" where
  "buildOutboundBatch L sh staged outcomes =
     map (\<lambda>((msg, env), oc). staged_events L sh env oc)
       (filter (\<lambda>(sm, oc). \<not> (oc_ReadOnly oc \<or> oc_Duplicate oc)) (zip staged outcomes))"

definition ProcessBatch ::
  "('d::linordered_idom) handler_env \<Rightarrow> command_msg list \<Rightarrow> 'd handler \<Rightarrow> err option \<times> 'd handler" where
  "ProcessBatch H msgs h =
     (if \<not> GroupCommitEnabled (w_cfg (e_wal (fst (hd_engine h))))
      then (Some (ErrMsg ''consumer: ProcessBatch requires WAL group commit''), h)
      else if msgs = [] then (None, h)
      else (case stage_messages H msgs h of
              (Inl e, h1) \<Rightarrow> (Some e, h1)
            | (Inr staged, h1) \<Rightarrow>
                (let (r, e2) = CommitBatch (he_engine H) (hd_engine h1); h2 = h1\<lparr>hd_engine := e2\<rparr>
                 in case r of
                      Inl e \<Rightarrow> (Some e, h2)
                    | Inr outcomes \<Rightarrow>
                        if length outcomes \<noteq> length msgs then (Some (ErrMsg ''consumer: outcomes''), h2)
                        else if hd_outbox h2 \<noteq> None then persistOutboundBatch H staged outcomes h2
                        else (let outs = buildOutboundBatch (env_libs (he_engine H)) (e_shard (fst e2)) staged outcomes
                              in if outs = [] then (None, h2)
                                 else (let (e, p) = PublishBatch (he_events H) (he_publisher H) outs (hd_producer h2)
                                       in (e, h2\<lparr>hd_producer := p\<rparr>))))))"

section \<open>Reading and committing\<close>

definition StartOffset :: "uint64 \<Rightarrow> bool \<Rightarrow> int" where
  "StartOffset resume hasResume = (if \<not> hasResume then 0 else sint (resume + 1))"

text \<open>
  What successive reads return: a message, the end of the wait, an error, or that the context was
  cancelled. The list ends where we stop looking. \<open>commits\<close> tells which commits succeed; the
  messages committed are returned.
\<close>

datatype read_result = ReadMessage command_msg | ReadDeadline | ReadFailed | ReadCancelled

fun commit_all :: "(command_msg \<Rightarrow> bool) \<Rightarrow> command_msg list \<Rightarrow> err option \<times> command_msg list" where
  "commit_all commits [] = (None, [])"
| "commit_all commits (msg # msgs) =
     (if commits msg then (let (e, done_msgs) = commit_all commits msgs in (e, msg # done_msgs))
      else (Some (ErrMsg ''consumer: commit''), []))"

fun runSequential ::
  "('d::linordered_idom) handler_env \<Rightarrow> (command_msg \<Rightarrow> bool) \<Rightarrow> read_result list \<Rightarrow> 'd handler \<Rightarrow>
     err option \<times> command_msg list \<times> 'd handler" where
  "runSequential H commits [] h = (None, [], h)"
| "runSequential H commits (ReadCancelled # rs) h = (None, [], h)"
| "runSequential H commits (ReadDeadline # rs) h = (Some (ErrMsg ''consumer: read''), [], h)"
| "runSequential H commits (ReadFailed # rs) h = (Some (ErrMsg ''consumer: read''), [], h)"
| "runSequential H commits (ReadMessage msg # rs) h =
     (case process H msg h of
        (Some e, h1) \<Rightarrow> (Some e, [], h1)
      | (None, h1) \<Rightarrow>
          if commits msg then (let (e, done_msgs, h2) = runSequential H commits rs h1 in (e, msg # done_msgs, h2))
          else (Some (ErrMsg ''consumer: commit''), [], h1))"

definition flush_batch ::
  "('d::linordered_idom) handler_env \<Rightarrow> (command_msg \<Rightarrow> bool) \<Rightarrow> command_msg list \<Rightarrow> 'd handler \<Rightarrow>
     err option \<times> command_msg list \<times> 'd handler" where
  "flush_batch H commits batch h =
     (if batch = [] then (None, [], h)
      else (case ProcessBatch H batch h of
              (Some e, h1) \<Rightarrow> (Some e, [], h1)
            | (None, h1) \<Rightarrow> (let (e, done_msgs) = commit_all commits batch in (e, done_msgs, h1))))"

fun runBatched ::
  "('d::linordered_idom) handler_env \<Rightarrow> (command_msg \<Rightarrow> bool) \<Rightarrow> int \<Rightarrow> command_msg list \<Rightarrow> read_result list \<Rightarrow> 'd handler \<Rightarrow>
     err option \<times> command_msg list \<times> 'd handler" where
  "runBatched H commits batchMax batch [] h = (None, [], h)"
| "runBatched H commits batchMax batch (ReadCancelled # rs) h = flush_batch H commits batch h"
| "runBatched H commits batchMax batch (ReadFailed # rs) h = (Some (ErrMsg ''consumer: read''), [], h)"
| "runBatched H commits batchMax batch (ReadDeadline # rs) h =
     (case flush_batch H commits batch h of
        (Some e, done_msgs, h1) \<Rightarrow> (Some e, done_msgs, h1)
      | (None, done_msgs, h1) \<Rightarrow>
          (let (e, done2, h2) = runBatched H commits batchMax [] rs h1 in (e, done_msgs @ done2, h2)))"
| "runBatched H commits batchMax batch (ReadMessage msg # rs) h =
     (let batch1 = batch @ [msg]
      in if batchMax \<le> int (length batch1) then
           (case flush_batch H commits batch1 h of
              (Some e, done_msgs, h1) \<Rightarrow> (Some e, done_msgs, h1)
            | (None, done_msgs, h1) \<Rightarrow>
                (let (e, done2, h2) = runBatched H commits batchMax [] rs h1 in (e, done_msgs @ done2, h2)))
         else runBatched H commits batchMax batch1 rs h)"

definition Run ::
  "('d::linordered_idom) handler_env \<Rightarrow> (command_msg \<Rightarrow> bool) \<Rightarrow> int \<Rightarrow> read_result list \<Rightarrow> 'd handler \<Rightarrow>
     err option \<times> command_msg list \<times> 'd handler" where
  "Run H commits batchMax rs h =
     (if GroupCommitEnabled (w_cfg (e_wal (fst (hd_engine h)))) \<and> 1 < batchMax
      then runBatched H commits batchMax [] rs h else runSequential H commits rs h)"

section \<open>The records of a batch in the outbox\<close>

type_synonym event_row = "byte \<times> uint64 \<times> uint32 \<times> uint64 \<times> string \<times> bytes"

definition row_of :: "eo_record \<Rightarrow> event_row" where
  "row_of r = (ev_TopicID r, ev_WalSeq r, ev_KafkaPartition r, ev_KafkaOffset r, ev_PartitionKey r, ev_Payload r)"

text \<open>What must be recorded for an outbound: its match events, then its trade events.\<close>

definition outbound_rows :: "event_codec \<Rightarrow> command_meta \<Rightarrow> outbound \<Rightarrow> event_row list" where
  "outbound_rows K meta out =
     map (\<lambda>ev. (TopicMatch, mv_WalSeq ev, cm_KafkaPartition meta, cm_KafkaOffset meta, mv_Symbol ev, the (MarshalMatchEvent K ev)))
       (og_MatchEvents out) @
     map (\<lambda>ev. (TopicTrade, tv_WalSeq ev, cm_KafkaPartition meta, cm_KafkaOffset meta, tradeSymbol ev, the (MarshalTradeEvent K ev)))
       (og_TradeEvents out)"

definition short_symbols :: "outbound \<Rightarrow> bool" where
  "short_symbols out \<longleftrightarrow>
     (\<forall>ev \<in> set (og_MatchEvents out). length (mv_Symbol ev) < 2 ^ 16) \<and> (\<forall>ev \<in> set (og_TradeEvents out). length (tradeSymbol ev) < 2 ^ 16)"

lemma eo_inv_clock: "eo_inv h (w, d, clk) \<longleftrightarrow> eo_inv h (w, d, clk')"
  by (simp add: eo_inv_def log_inv_def wal_inv_def)

lemma append_event_inv:
  assumes i: "eo_inv h st" and k: "length key < 2 ^ 16" and a: "append_event meta t q key payload st = (e, st')"
  shows "\<exists>new. eo_inv (h @ new) st' \<and>
    (e = None \<longrightarrow> map row_of new = [(t, q, cm_KafkaPartition meta, cm_KafkaOffset meta, key, the payload)])"
proof (cases payload)
  case None
  with a i show ?thesis by (intro exI [of _ "[]"]) (auto simp: append_event_def)
next
  case (Some b)
  obtain w d clk where st: "st = (w, d, clk)" by (metis prod_cases3)
  obtain r clk1 where r: "eo_NewRecord 0 q t (cm_KafkaPartition meta) (cm_KafkaOffset meta) key b 0 clk = (r, clk1)" by (metis surj_pair)
  obtain x st1 where ap: "eo_AppendNext r (w, d, clk1) = (x, st1)" by (metis surj_pair)
  have rr: "row_of (r\<lparr>eo_OutboxSeq := n\<rparr>) = (t, q, cm_KafkaPartition meta, cm_KafkaOffset meta, key, b)" "short_key r" for n
    using r k by (auto simp: eo_NewRecord_def row_of_def short_key_def split: prod.splits)
  have "eo_inv h (w, d, clk1)" using i st eo_inv_clock by blast
  from eo_AppendNext_inv [OF this rr(2) ap] obtain new where
    "eo_inv (h @ new) st1" "\<forall>n. x = Inr n \<longrightarrow> new = [r\<lparr>eo_OutboxSeq := n\<rparr>]" by blast
  moreover have "st' = st1 \<and> (e = None \<longleftrightarrow> (\<exists>n. x = Inr n))" using a Some st r ap by (auto simp: append_event_def split: sum.splits)
  ultimately show ?thesis using Some rr(1) by (intro exI [of _ new]) auto
qed

text \<open>Both loops of \<open>AppendOutbound\<close> are one loop over different events.\<close>

fun append_each :: "('a \<Rightarrow> wstate \<Rightarrow> err option \<times> wstate) \<Rightarrow> 'a list \<Rightarrow> wstate \<Rightarrow> err option \<times> wstate" where
  "append_each f [] st = (None, st)"
| "append_each f (ev # evs) st =
     (case f ev st of (Some e, st1) \<Rightarrow> (Some e, st1) | (None, st1) \<Rightarrow> append_each f evs st1)"

lemma append_loops:
  "append_matches K meta ms st = append_each (\<lambda>ev. append_event meta TopicMatch (mv_WalSeq ev) (mv_Symbol ev) (MarshalMatchEvent K ev)) ms st"
  "append_trades K meta ts st = append_each (\<lambda>ev. append_event meta TopicTrade (tv_WalSeq ev) (tradeSymbol ev) (MarshalTradeEvent K ev)) ts st"
proof -
  show "append_matches K meta ms st = append_each (\<lambda>ev. append_event meta TopicMatch (mv_WalSeq ev) (mv_Symbol ev) (MarshalMatchEvent K ev)) ms st"
    by (induction ms arbitrary: st) (simp_all split: prod.splits option.splits)
  show "append_trades K meta ts st = append_each (\<lambda>ev. append_event meta TopicTrade (tv_WalSeq ev) (tradeSymbol ev) (MarshalTradeEvent K ev)) ts st"
    by (induction ts arbitrary: st) (simp_all split: prod.splits option.splits)
qed

lemma append_each_inv:
  assumes one: "\<And>ev h st e st'. ev \<in> set evs \<Longrightarrow> eo_inv h st \<Longrightarrow> f ev st = (e, st') \<Longrightarrow>
    \<exists>new. eo_inv (h @ new) st' \<and> (e = None \<longrightarrow> map row_of new = [row ev])"
  shows "eo_inv h st \<Longrightarrow> append_each f evs st = (e, st') \<Longrightarrow>
    \<exists>new. eo_inv (h @ new) st' \<and> (e = None \<longrightarrow> map row_of new = map row evs)"
  using one
proof (induction evs arbitrary: h st)
  case Nil
  then show ?case by (intro exI [of _ "[]"]) simp
next
  case (Cons ev evs)
  obtain e1 st1 where a: "f ev st = (e1, st1)" by (metis surj_pair)
  obtain n1 where n1: "eo_inv (h @ n1) st1" "e1 = None \<longrightarrow> map row_of n1 = [row ev]"
    using Cons.prems(3) [OF _ Cons.prems(1) a] by auto
  show ?case
  proof (cases e1)
    case None
    then have "append_each f evs st1 = (e, st')" using Cons.prems(2) a by simp
    from Cons.IH [OF n1(1) this] Cons.prems(3) obtain n2 where "eo_inv ((h @ n1) @ n2) st'"
      "e = None \<longrightarrow> map row_of n2 = map row evs" by fastforce
    with n1 None show ?thesis by (intro exI [of _ "n1 @ n2"]) auto
  next
    case (Some x)
    with Cons.prems(2) a n1(1) show ?thesis by auto
  qed
qed

lemma AppendOutbound_inv:
  assumes i: "eo_inv h st" and s: "short_symbols out" and a: "AppendOutbound K meta out st = (e, st')"
  shows "\<exists>new. eo_inv (h @ new) st' \<and> (e = None \<longrightarrow> map row_of new = outbound_rows K meta out)"
proof -
  obtain e1 st1 where m: "append_matches K meta (og_MatchEvents out) st = (e1, st1)" by (metis surj_pair)
  have "\<exists>n1. eo_inv (h @ n1) st1 \<and> (e1 = None \<longrightarrow> map row_of n1 = map (\<lambda>ev. (TopicMatch, mv_WalSeq ev, cm_KafkaPartition meta,
      cm_KafkaOffset meta, mv_Symbol ev, the (MarshalMatchEvent K ev))) (og_MatchEvents out))"
    using s by (intro append_each_inv [OF _ i m [unfolded append_loops]] append_event_inv) (auto simp: short_symbols_def)
  then obtain n1 where n1: "eo_inv (h @ n1) st1" "e1 = None \<longrightarrow> map row_of n1 = map (\<lambda>ev. (TopicMatch, mv_WalSeq ev,
      cm_KafkaPartition meta, cm_KafkaOffset meta, mv_Symbol ev, the (MarshalMatchEvent K ev))) (og_MatchEvents out)" by blast
  show ?thesis
  proof (cases e1)
    case None
    then have t: "append_trades K meta (og_TradeEvents out) st1 = (e, st')" using a m by (simp add: AppendOutbound_def)
    have "\<exists>n2. eo_inv ((h @ n1) @ n2) st' \<and> (e = None \<longrightarrow> map row_of n2 = map (\<lambda>ev. (TopicTrade, tv_WalSeq ev,
        cm_KafkaPartition meta, cm_KafkaOffset meta, tradeSymbol ev, the (MarshalTradeEvent K ev))) (og_TradeEvents out))"
      using s by (intro append_each_inv [OF _ n1(1) t [unfolded append_loops]] append_event_inv) (auto simp: short_symbols_def)
    then obtain n2 where "eo_inv ((h @ n1) @ n2) st'" "e = None \<longrightarrow> map row_of n2 = map (\<lambda>ev. (TopicTrade, tv_WalSeq ev,
        cm_KafkaPartition meta, cm_KafkaOffset meta, tradeSymbol ev, the (MarshalTradeEvent K ev))) (og_TradeEvents out)" by blast
    with n1 None show ?thesis by (intro exI [of _ "n1 @ n2"]) (auto simp: outbound_rows_def)
  next
    case (Some x)
    with a m n1(1) show ?thesis by (auto simp: AppendOutbound_def)
  qed
qed

section \<open>What a batch stages\<close>

definition item_of :: "envelope \<Rightarrow> staged_item \<Rightarrow> bool" where
  "item_of env x \<longleftrightarrow>
     (case env of EnvNewOrder no \<Rightarrow> \<exists>q dup ro. x = StagedNewOrder no q dup ro | EnvCancelOrder co \<Rightarrow> \<exists>q. x = StagedCancel co q)"

definition env_symbol :: "envelope \<Rightarrow> string" where
  "env_symbol env =
     (case env of
        EnvNewOrder no \<Rightarrow> (case no_Order no of None \<Rightarrow> '''' | Some pb \<Rightarrow> p_Symbol pb)
      | EnvCancelOrder co \<Rightarrow> co_Symbol co)"

lemma set_wal_pending [simp]: "e_pending (fst (set_wal_state ws st)) = e_pending (fst st)"
  by (simp add: set_wal_state_def)

lemma push_pending [simp]: "e_pending (fst (push_item x st)) = e_pending (fst st) @ [x]"
  by (simp add: push_item_def)

lemma StageNewOrder_pending:
  assumes "StageNewOrder E (Some cmd) st = (None, st')"
  shows "\<exists>x. e_pending (fst st') = e_pending (fst st) @ [x] \<and> item_of (EnvNewOrder cmd) x"
  using assms
  by (auto simp: StageNewOrder_def item_of_def split: option.splits if_splits sum.splits prod.splits)

lemma StageCancel_pending:
  assumes "StageCancel E (Some cmd) st = (None, st')"
  shows "\<exists>x. e_pending (fst st') = e_pending (fst st) @ [x] \<and> item_of (EnvCancelOrder cmd) x"
  using assms
  by (auto simp: StageCancel_def item_of_def split: option.splits if_splits sum.splits prod.splits)

lemma stageDecoded_Inr:
  assumes "stageDecodedMessage H msg h = (Inr sm, h')"
  shows "fst sm = msg" "\<exists>env. unmarshal_env (he_envelopes H) (cg_Value msg) = Some env \<and> env_symbol (snd sm) = env_symbol env"
    and "\<exists>x. e_pending (fst (hd_engine h')) = e_pending (fst (hd_engine h)) @ [x] \<and> item_of (snd sm) x"
    and "hd_outbox h' = hd_outbox h"
proof -
  obtain env where env: "unmarshal_env (he_envelopes H) (cg_Value msg) = Some env"
    using assms by (auto simp: stageDecodedMessage_def split: option.splits)
  have "fst sm = msg \<and> env_symbol (snd sm) = env_symbol env \<and> hd_outbox h' = hd_outbox h \<and>
    (\<exists>x. e_pending (fst (hd_engine h')) = e_pending (fst (hd_engine h)) @ [x] \<and> item_of (snd sm) x)"
  proof (cases env)
    case (EnvNewOrder no)
    let ?no = "no\<lparr>no_KafkaPartition := word_of_int (cg_Partition msg), no_KafkaOffset := word_of_int (cg_Offset msg)\<rparr>"
    obtain e1 where e1: "StageNewOrder (he_engine H) (Some ?no) (hd_engine h) = (None, e1)" "sm = (msg, EnvNewOrder ?no)" "h' = h\<lparr>hd_engine := e1\<rparr>"
      using assms env EnvNewOrder by (auto simp: stageDecodedMessage_def Let_def split: option.splits prod.splits)
    from StageNewOrder_pending [OF e1(1)] e1(2,3) EnvNewOrder show ?thesis by (simp add: env_symbol_def)
  next
    case (EnvCancelOrder co)
    let ?co = "co\<lparr>co_KafkaPartition := word_of_int (cg_Partition msg), co_KafkaOffset := word_of_int (cg_Offset msg)\<rparr>"
    obtain e1 where e1: "StageCancel (he_engine H) (Some ?co) (hd_engine h) = (None, e1)" "sm = (msg, EnvCancelOrder ?co)" "h' = h\<lparr>hd_engine := e1\<rparr>"
      using assms env EnvCancelOrder by (auto simp: stageDecodedMessage_def Let_def split: option.splits prod.splits)
    from StageCancel_pending [OF e1(1)] e1(2,3) EnvCancelOrder show ?thesis by (simp add: env_symbol_def)
  qed
  with env show "fst sm = msg" "\<exists>env. unmarshal_env (he_envelopes H) (cg_Value msg) = Some env \<and> env_symbol (snd sm) = env_symbol env"
    "\<exists>x. e_pending (fst (hd_engine h')) = e_pending (fst (hd_engine h)) @ [x] \<and> item_of (snd sm) x" "hd_outbox h' = hd_outbox h"
    by auto
qed

lemma stage_messages_Inr:
  "stage_messages H msgs h = (Inr staged, h') \<Longrightarrow>
     map fst staged = msgs \<and> hd_outbox h' = hd_outbox h \<and>
     (\<forall>sm \<in> set staged. \<exists>env. unmarshal_env (he_envelopes H) (cg_Value (fst sm)) = Some env \<and> env_symbol (snd sm) = env_symbol env) \<and>
     (\<exists>xs. e_pending (fst (hd_engine h')) = e_pending (fst (hd_engine h)) @ xs \<and> list_all2 (\<lambda>sm x. item_of (snd sm) x) staged xs)"
proof (induction msgs arbitrary: h staged)
  case Nil
  then show ?case by simp
next
  case (Cons msg msgs)
  obtain sm h1 sms where s: "stageDecodedMessage H msg h = (Inr sm, h1)" "stage_messages H msgs h1 = (Inr sms, h')" "staged = sm # sms"
    using Cons.prems by (auto split: prod.splits sum.splits)
  note d = stageDecoded_Inr [OF s(1)]
  obtain x where x: "e_pending (fst (hd_engine h1)) = e_pending (fst (hd_engine h)) @ [x]" "item_of (snd sm) x" using d(3) by blast
  from Cons.IH [OF s(2)] obtain xs where ih: "map fst sms = msgs" "hd_outbox h' = hd_outbox h1"
    "\<forall>sm \<in> set sms. \<exists>env. unmarshal_env (he_envelopes H) (cg_Value (fst sm)) = Some env \<and> env_symbol (snd sm) = env_symbol env"
    "e_pending (fst (hd_engine h')) = e_pending (fst (hd_engine h1)) @ xs" "list_all2 (\<lambda>sm x. item_of (snd sm) x) sms xs" by blast
  have "e_pending (fst (hd_engine h')) = e_pending (fst (hd_engine h)) @ (x # xs)" using x(1) ih(4) by simp
  moreover have "list_all2 (\<lambda>sm x. item_of (snd sm) x) staged (x # xs)" using x(2) ih(5) s(3) by simp
  ultimately show ?case using ih(1-3) d(1,2,4) s(3) by auto
qed

text \<open>The trades of an outcome are those of its own command, under its symbol.\<close>

lemma matchAgainstBook_symbol:
  "matchAgainstBook w seq iter taker bc = (trs, taker', bc') \<Longrightarrow> \<forall>tr \<in> set trs. t_Symbol tr = o_Symbol taker"
proof (induction iter arbitrary: taker bc trs)
  case (Cons m iter)
  from Cons.prems show ?case
  proof (cases rule: loop_cases)
    case (step tr taker1 bc1 trs1)
    then show ?thesis using Cons.IH [OF step(4)] match_step_fields(5,7) [OF step(3)] by auto
  qed simp
qed simp

lemma Match_symbol: "Match od seq (b, clk) = (Inr trs, b', clk') \<Longrightarrow> \<forall>tr \<in> set trs. t_Symbol tr = o_Symbol od"
  by (erule Match_Inr) (auto dest: matchAgainstBook_symbol)

lemma shard_Match_symbol:
  assumes "shard_Match L od seq (sh, clk) = (Inr trs, sh', clk')"
  shows "\<forall>tr \<in> set trs. t_Symbol tr = o_Symbol od"
proof -
  obtain se se' c where se: "se_Match L od seq (se, clk) = (Inr trs, se', c)" "o_Symbol od \<noteq> []"
    using assms by (auto simp: shard_Match_def shard_Get_def Let_def split: if_splits option.splits prod.splits)
  then obtain bk where "Match od seq (se_OrderBook se, clk) = (Inr trs, bk, c)"
    by (auto simp: se_Match_def Let_def split: if_splits option.splits prod.splits)
  then show ?thesis by (rule Match_symbol)
qed

definition outcome_ok :: "staged_item \<Rightarrow> 'd outcome \<Rightarrow> bool" where
  "outcome_ok x oc \<longleftrightarrow> (\<forall>tr \<in> set (oc_Trades oc). \<exists>cmd q dup ro. x = StagedNewOrder cmd q dup ro \<and> t_Symbol tr = env_symbol (EnvNewOrder cmd))"

lemma commit_item_ok:
  assumes "commit_item E x st = (Inr oc, st')"
  shows "outcome_ok x oc"
proof (cases x)
  case (StagedNewOrder cmd q dup ro)
  show ?thesis
  proof (cases "ro \<or> dup")
    case True
    with assms StagedNewOrder show ?thesis by (auto simp: commit_item_def outcome_ok_def split: if_splits)
  next
    case False
    then obtain st1 where a: "rec_applyNewOrder E cmd q st = (Inr (oc_Trades oc), st1)"
      using assms StagedNewOrder by (auto simp: commit_item_def split: sum.splits prod.splits)
    then obtain od where od: "OrderFromProto (env_libs E) (no_Order cmd) = Inr od" by (auto simp: rec_applyNewOrder_def split: sum.splits)
    then obtain sh clk where "shard_Match (env_libs E) od q (e_shard (fst st), g_clk (snd st)) = (Inr (oc_Trades oc), sh, clk)"
      using a by (auto simp: rec_applyNewOrder_def split_beta Let_def split: sum.splits) (metis prod.collapse)
    then have "\<forall>tr \<in> set (oc_Trades oc). t_Symbol tr = o_Symbol od" by (rule shard_Match_symbol)
    moreover have "o_Symbol od = env_symbol (EnvNewOrder cmd)" using OrderFromProto_pos(2) [OF od] by (auto simp: env_symbol_def)
    ultimately show ?thesis using StagedNewOrder by (simp add: outcome_ok_def)
  qed
next
  case (StagedCancel cmd q)
  with assms show ?thesis by (auto simp: commit_item_def outcome_ok_def Let_def split: option.splits prod.splits)
qed

lemma commit_items_ok: "commit_items E xs st = (Inr ocs, st') \<Longrightarrow> list_all2 outcome_ok xs ocs"
proof (induction xs arbitrary: st ocs)
  case (Cons x xs)
  then obtain oc st1 ocs1 where c: "commit_item E x st = (Inr oc, st1)" "commit_items E xs st1 = (Inr ocs1, st')" "ocs = oc # ocs1"
    by (auto split: prod.splits sum.splits)
  from Cons.IH [OF c(2)] commit_item_ok [OF c(1)] c(3) show ?case by simp
qed simp

lemma tick_fst [simp]: "fst (tick st) = fst st"
  by (simp add: tick_def)

lemma CommitBatch_ok:
  assumes "CommitBatch E st = (Inr ocs, st')"
  shows "list_all2 outcome_ok (e_pending (fst st)) ocs"
proof (cases "e_pending (fst st) = []")
  case True
  with assms show ?thesis by (simp add: CommitBatch_def)
next
  case False
  define st1 where "st1 = (if GroupCommitEnabled (w_cfg (e_wal (fst st)))
    then set_wal_state (snd (wal_Sync (wal_state (tick st)))) (tick st) else st)"
  have p: "e_pending (fst st1) = e_pending (fst st)" by (simp add: st1_def)
  have "\<exists>st2. commit_items E (e_pending (fst st1)) st1 = (Inr ocs, st2)"
    using assms False unfolding st1_def
    by (auto simp: CommitBatch_def Let_def split_beta split: option.splits sum.splits if_splits) (metis prod.collapse)+
  with p commit_items_ok show ?thesis by metis
qed

section \<open>The events of a batch survive\<close>

lemma maker_events_symbol: "ev \<in> set (maker_events L sh s c q seen trs) \<Longrightarrow> mv_Symbol ev = s"
  by (induction trs arbitrary: seen) (auto simp: makerFillEvent_def newMatchEvent_def Let_def split: if_splits)

lemma staged_events_short:
  assumes "item_of env x" "outcome_ok x oc" "length (env_symbol env) < 2 ^ 16"
  shows "short_symbols (staged_events L sh env oc)"
proof (cases env)
  case (EnvNewOrder no)
  show ?thesis
  proof (cases "no_Order no = None \<or> oc_Duplicate oc")
    case True
    then show ?thesis using EnvNewOrder
      by (auto simp: staged_events_def BuildNewOrderEvents_def no_events_def short_symbols_def split: option.splits)
  next
    case False
    then obtain pb where pb: "no_Order no = Some pb" "\<not> oc_Duplicate oc" by auto
    have "\<forall>tr \<in> set (oc_Trades oc). t_Symbol tr = p_Symbol pb"
      using assms(1,2) EnvNewOrder pb by (auto simp: item_of_def outcome_ok_def env_symbol_def)
    then show ?thesis using EnvNewOrder pb assms(3)
      by (auto dest: maker_events_symbol simp: staged_events_def BuildNewOrderEvents_def short_symbols_def env_symbol_def Let_def newMatchEvent_def
          takerFillEvent_def tradeSymbol_def TradeToProto_def split: if_splits)
  qed
next
  case (EnvCancelOrder co)
  with assms(3) show ?thesis
    by (simp add: staged_events_def BuildCancelEvents_def short_symbols_def newMatchEvent_def env_symbol_def)
qed

text \<open>The records for one command of a batch.\<close>

definition item_rows ::
  "('d::linordered_idom) libs \<Rightarrow> event_codec \<Rightarrow> 'd shard \<Rightarrow> staged_message \<times> 'd outcome \<Rightarrow> event_row list" where
  "item_rows L K sh x =
     (if oc_ReadOnly (snd x) \<or> oc_Duplicate (snd x) then []
      else outbound_rows K (meta_of (fst (fst x))) (staged_events L sh (snd (fst x)) (snd x)))"

lemma persist_items_inv:
  "eo_inv h st \<Longrightarrow> \<forall>x \<in> set xs. short_symbols (staged_events L sh (snd (fst x)) (snd x)) \<Longrightarrow>
     persist_items L K sh xs st = (e, st') \<Longrightarrow>
     \<exists>new. eo_inv (h @ new) st' \<and> (e = None \<longrightarrow> map row_of new = concat (map (item_rows L K sh) xs))"
proof (induction xs arbitrary: h st)
  case Nil
  then show ?case by (intro exI [of _ "[]"]) simp
next
  case (Cons x xs)
  obtain msg env oc where x: "x = ((msg, env), oc)" by (metis prod.collapse)
  let ?out = "staged_events L sh env oc"
  show ?case
  proof (cases "oc_ReadOnly oc \<or> oc_Duplicate oc \<or> og_MatchEvents ?out = [] \<and> og_TradeEvents ?out = []")
    case True
    then have p: "persist_items L K sh xs st = (e, st')" and r: "item_rows L K sh x = []"
      using Cons.prems(3) x by (auto simp: item_rows_def outbound_rows_def Let_def split: if_splits)
    from Cons.IH [OF Cons.prems(1) _ p] Cons.prems(2) r show ?thesis by simp
  next
    case False
    obtain e1 st1 where a: "AppendOutbound K (meta_of msg) ?out st = (e1, st1)" by (metis surj_pair)
    obtain n1 where n1: "eo_inv (h @ n1) st1" "e1 = None \<longrightarrow> map row_of n1 = outbound_rows K (meta_of msg) ?out"
      using AppendOutbound_inv [OF Cons.prems(1) _ a] Cons.prems(2) x by auto
    show ?thesis
    proof (cases e1)
      case None
      then have p: "persist_items L K sh xs st1 = (e, st')" using Cons.prems(3) x a False by (auto simp: Let_def)
      from Cons.IH [OF n1(1) _ p] Cons.prems(2) obtain n2 where "eo_inv ((h @ n1) @ n2) st'"
        "e = None \<longrightarrow> map row_of n2 = concat (map (item_rows L K sh) xs)" by auto
      moreover have "item_rows L K sh x = outbound_rows K (meta_of msg) ?out" using x False by (simp add: item_rows_def)
      ultimately show ?thesis using n1 None by (intro exI [of _ "n1 @ n2"]) auto
    next
      case (Some y)
      with Cons.prems(3) x a False n1(1) show ?thesis by (intro exI [of _ n1]) (auto simp: Let_def)
    qed
  qed
qed

text \<open>Every staged command comes from a message and keeps its pair, so the keys of its events are short.\<close>

lemma staged_short:
  assumes sg: "stage_messages H msgs h = (Inr staged, h1)" and cb: "CommitBatch (he_engine H) (hd_engine h1) = (Inr outcomes, e2)"
    "length outcomes = length msgs"
    and s: "\<forall>msg \<in> set msgs. \<forall>env. unmarshal_env (he_envelopes H) (cg_Value msg) = Some env \<longrightarrow> length (env_symbol env) < 2 ^ 16"
    and x: "x \<in> set (zip staged outcomes)"
  shows "short_symbols (staged_events L sh (snd (fst x)) (snd x))"
proof -
  note si = stage_messages_Inr [OF sg]
  have len: "length staged = length outcomes" using si cb(2) by (metis length_map)
  obtain xs where xs: "e_pending (fst (hd_engine h1)) = e_pending (fst (hd_engine h)) @ xs" "list_all2 (\<lambda>sm x. item_of (snd sm) x) staged xs"
    using si by blast
  have oc: "list_all2 outcome_ok (e_pending (fst (hd_engine h1))) outcomes" using CommitBatch_ok [OF cb(1)] .
  have "length (e_pending (fst (hd_engine h1))) = length xs"
    using list_all2_lengthD [OF oc] list_all2_lengthD [OF xs(2)] len by simp
  then have oc: "list_all2 outcome_ok xs outcomes" using oc xs(1) by simp
  obtain i where i: "i < length staged" "x = (staged ! i, outcomes ! i)" using x len by (auto simp: set_zip)
  have "item_of (snd (staged ! i)) (xs ! i)" "outcome_ok (xs ! i) (outcomes ! i)"
    using xs(2) oc i(1) list_all2_lengthD [OF xs(2)] by (simp_all add: list_all2_conv_all_nth)
  moreover have "length (env_symbol (snd (staged ! i))) < 2 ^ 16"
  proof -
    have m: "staged ! i \<in> set staged" using i(1) by simp
    then obtain env where "unmarshal_env (he_envelopes H) (cg_Value (fst (staged ! i))) = Some env"
      "env_symbol (snd (staged ! i)) = env_symbol env" using si by blast
    moreover have "fst (staged ! i) \<in> set msgs" using m si by (metis image_eqI set_map)
    ultimately show ?thesis using s by simp
  qed
  ultimately show ?thesis using staged_events_short i(2) by simp
qed


section \<open>A concrete batch\<close>

definition wit_event_codec :: event_codec where
  "wit_event_codec = \<lparr> MarshalMatchEvent = (\<lambda>_. Some [1]), MarshalTradeEvent = (\<lambda>_. Some [2]),
     UnmarshalMatchEvent = (\<lambda>_. None), UnmarshalTradeEvent = (\<lambda>_. None) \<rparr>"

definition wit_cancel_msg :: command_msg where
  "wit_cancel_msg = \<lparr> cg_Partition = 0, cg_Offset = 5, cg_Value = [3] \<rparr>"

definition wit_handler_env :: "int handler_env" where
  "wit_handler_env = \<lparr> he_engine = wit_env,
     he_envelopes = \<lparr> marshal_env = (\<lambda>_. None), unmarshal_env = (\<lambda>_. Some (EnvCancelOrder wit_cancel)) \<rparr>,
     he_events = wit_event_codec, he_publisher = \<lparr> pc_MatchTopic = ''match.events'', pc_TradeTopic = ''trade.events'' \<rparr> \<rparr>"

lemma wit_outbox:
  "\<exists>w d clk1. OpenFileWriter ''s1'' wit_gc_cfg (wit_disk [], wit_wclock) = (Inr w, d, clk1) \<and>
     (\<forall>clk. \<exists>st1 st2. AppendOutbound wit_event_codec meta (BuildCancelEvents (Some wit_cancel) q) (w, d, clk) = (None, st1) \<and>
        eo_Sync st1 = (None, st2))"
  by (simp add: wit_eval wit_gc_cfg_def AppendOutbound_def BuildCancelEvents_def newMatchEvent_def append_event_def wit_event_codec_def
     eo_NewRecord_def eo_AppendNext_def eo_appendLocked_def eo_encodeInto_def recordLenSize_def eo_bodyLen_def
     eo_headerFixed_def TopicMatch_def recordMaxBodyLen_def eo_head_def wit_cancel_def eo_Sync_def
     buf_write_def maybeSyncLocked_def GroupCommitEnabled_def flushAndSyncLocked_def buf_flush_def os_write_def durableSync_def os_sync_def upd_seg_def)
definition wit_handler :: "file_writer \<Rightarrow> disk \<Rightarrow> clock \<Rightarrow> file_writer \<Rightarrow> disk \<Rightarrow> int handler" where
  "wit_handler w d clk wo wd =
     \<lparr> hd_engine = (wit_engine w, wit_world d clk), hd_outbox = Some (wo, wd),
       hd_producer = \<lparr> pd_log = (\<lambda>_. []), pd_writes = (\<lambda>_ _. Written), pd_pos = (\<lambda>_. 0) \<rparr> \<rparr>"

lemma wit_process_batch:
  "\<exists>w d1 clk1 wo wd clk2 h'. OpenFileWriter ''s1'' wit_gc_cfg (wit_disk [], wit_wclock) = (Inr w, d1, clk1) \<and>
     OpenFileWriter ''s1'' wit_gc_cfg (wit_disk [], wit_wclock) = (Inr wo, wd, clk2) \<and>
     ProcessBatch wit_handler_env [wit_cancel_msg] (wit_handler w d1 clk1 wo wd) = (None, h')"
proof -
  obtain w d1 clk1 seq w2 d2 clk2 ws where o: "OpenFileWriter ''s1'' wit_gc_cfg (wit_disk [], wit_wclock) = (Inr w, d1, clk1)"
    and a: "AppendNext EventTypeCancelOrder [2] (w, d1, clk1) = (Inr seq, w2, d2, clk2)"
    and g: "GroupCommitEnabled (w_cfg w2)" and sy: "wal_Sync (w2, d2, snd (now clk2)) = (None, ws)"
    using wit_open_gc by blast
  obtain wo wd clk3 where ob: "OpenFileWriter ''s1'' wit_gc_cfg (wit_disk [], wit_wclock) = (Inr wo, wd, clk3)"
    "\<forall>clk. \<exists>st1 st2. AppendOutbound wit_event_codec (meta_of wit_cancel_msg) (BuildCancelEvents (Some wit_cancel) seq) (wo, wd, clk) = (None, st1) \<and>
        eo_Sync st1 = (None, st2)" using wit_outbox by blast
  let ?h = "wit_handler w d1 clk1 wo wd" and ?i = "StagedCancel wit_cancel seq"
  let ?st = "(wit_engine w, wit_world d1 clk1)"
  let ?st1 = "push_item ?i (set_wal_state (w2, d2, clk2) ?st)"
  have cfg: "w_cfg w = w_cfg w2"
    using AppendNext_inv [of "[]" "(w, d1, clk1)"] a Open_inv [OF o wit_clean_empty] by (fastforce simp: log_inv_def)
  have s0: "wal_state ?st = (w, d1, clk1)" by (simp add: wal_state_def wit_engine_def wit_world_def)
  have co: "wit_cancel\<lparr>co_KafkaPartition := word_of_int (cg_Partition wit_cancel_msg), co_KafkaOffset := word_of_int (cg_Offset wit_cancel_msg)\<rparr> = wit_cancel"
    by (simp add: wit_cancel_def wit_cancel_msg_def)
  have sc: "StageCancel wit_env (Some wit_cancel) ?st = (None, ?st1)"
    using a s0 by (simp add: StageCancel_def wit_env_def wit_cmd_codec_def) (simp add: wit_cancel_def)
  have s1: "stage_messages wit_handler_env [wit_cancel_msg] ?h = (Inr [(wit_cancel_msg, EnvCancelOrder wit_cancel)], ?h\<lparr>hd_engine := ?st1\<rparr>)"
    using sc co by (simp add: stageDecodedMessage_def wit_handler_env_def wit_handler_def Let_def)
  have p: "e_pending (fst ?st1) = [?i]" by (simp add: wit_engine_def)
  have gc: "GroupCommitEnabled (w_cfg (e_wal (fst ?st1)))" using g by (simp add: push_item_def set_wal_state_def)
  have ts: "wal_state (tick ?st1) = (w2, d2, snd (now clk2))"
    by (simp add: wal_state_def tick_def push_item_def set_wal_state_def)
  let ?st2 = "set_wal_state ws (tick ?st1)"
  obtain sh where sh: "shard_Cancel (co_Symbol wit_cancel) (co_OrderId wit_cancel) (e_shard (fst ?st2)) = (None, sh)"
    by (auto simp: shard_Cancel_def split_beta Let_def wit_cancel_def)
  obtain e2 g2 where st2: "?st2 = (e2, g2)" by (metis surj_pair)
  have pe: "e_pending (fst ?st2) = [?i]" using p by simp
  have "\<exists>st3. commit_items wit_env (e_pending (fst ?st2)) ?st2 =
      (Inr [\<lparr> oc_Trades = [], oc_WalSeq = seq, oc_Duplicate = False, oc_ReadOnly = False \<rparr>], st3)"
    unfolding pe using sh st2 by (simp add: commit_item_def)
  then obtain e3 g3 where "commit_items wit_env (e_pending (fst ?st2)) ?st2 =
      (Inr [\<lparr> oc_Trades = [], oc_WalSeq = seq, oc_Duplicate = False, oc_ReadOnly = False \<rparr>], e3, g3)" by (metis prod.collapse)
  then have c: "CommitBatch wit_env ?st1 =
      (Inr [\<lparr> oc_Trades = [], oc_WalSeq = seq, oc_Duplicate = False, oc_ReadOnly = False \<rparr>], e3\<lparr>e_pending := []\<rparr>, g3)"
    using p gc sy ts by (simp add: CommitBatch_def)
  obtain st4 st5 where ap: "AppendOutbound wit_event_codec (meta_of wit_cancel_msg) (BuildCancelEvents (Some wit_cancel) seq) (wo, wd, g_clk g3) = (None, st4)"
    "eo_Sync st4 = (None, st5)" using ob(2) by blast
  have ne: "og_MatchEvents (BuildCancelEvents (Some wit_cancel) seq) \<noteq> []" by (simp add: BuildCancelEvents_def)
  let ?h2 = "?h\<lparr>hd_engine := (e3\<lparr>e_pending := []\<rparr>, g3)\<rparr>"
  have "persistOutboundBatch wit_handler_env [(wit_cancel_msg, EnvCancelOrder wit_cancel)]
      [\<lparr> oc_Trades = [], oc_WalSeq = seq, oc_Duplicate = False, oc_ReadOnly = False \<rparr>] ?h2 = (None, set_outbox_state st5 ?h2)"
    using ap ne by (simp add: persistOutboundBatch_def wit_handler_env_def wit_handler_def outbox_state_def staged_events_def)
  moreover have "GroupCommitEnabled (w_cfg (e_wal (fst (hd_engine ?h))))" using g cfg by (simp add: wit_handler_def wit_engine_def)
  ultimately have "ProcessBatch wit_handler_env [wit_cancel_msg] ?h = (None, set_outbox_state st5 ?h2)"
    using s1 c by (simp add: ProcessBatch_def wit_handler_env_def wit_handler_def)
  with o ob(1) show ?thesis by blast
qed


end
