(* ===== verification/MarketStore.thy ===== *)
theory MarketStore
  imports MatchEvents "HOL-Library.AList" "HOL-Library.List_Lexorder" "HOL-Library.Char_ord"
begin

text \<open>
  Model of \<open>internal/marketdata/store\<close> (\<open>store.go\<close>, \<open>ticker_24h.go\<close>): per pair the ticker of the
  last 24 hours and a mirror of the order book kept from the events of the matching engine. Every
  operation runs under the lock of its pair, so an operation is one step. A Go map that the code
  iterates over is an association list with distinct keys; \<open>sha1\<close> and \<open>StringFixed\<close> are
  parameters.
\<close>

section \<open>State\<close>

record 'd ticker_state =
  tk_LastPrice :: 'd
  tk_OpenPrice :: 'd
  tk_HighPrice :: 'd
  tk_LowPrice :: 'd
  tk_Volume :: 'd
  tk_QuoteVolume :: 'd
  tk_PriceChangePercent :: 'd
  tk_UpdatedAtMs :: int

record 'd trade_tick =
  tt_TimeMs :: int
  tt_Price :: 'd
  tt_Qty :: 'd

record 'd order_entry =
  en_Side :: string
  en_Price :: 'd
  en_Remaining :: 'd

record 'd order_book_side =
  bs_Orders :: "uint64 \<Rightarrow> 'd order_entry option"
  bs_Levels :: "(string \<times> 'd) list"

record 'd order_book_state =
  bm_LastUpdateID :: uint64
  bm_Bids :: "'d order_book_side"
  bm_Asks :: "'d order_book_side"

record 'd symbol_state =
  sy_Ticker :: "'d ticker_state"
  sy_OrderBook :: "'d order_book_state"
  sy_trades24h :: "'d trade_tick list"

type_synonym 'd market_store = "(string \<times> 'd symbol_state) list"

record price_level =
  pl_Price :: string
  pl_Quantity :: string

record book_snapshot =
  ob_Symbol :: string
  ob_LastUpdateID :: uint64
  ob_Bids :: "price_level list"
  ob_Asks :: "price_level list"
  ob_UpdatedAtMs :: int

record 'd ticker_snapshot =
  tn_Symbol :: string
  tn_TickerState :: "'d ticker_state"

record 'd ticker_all_snapshot =
  ta_QuoteAsset :: string
  ta_SnapshotID :: string
  ta_SnapshotTime :: int
  ta_Count :: nat
  ta_Items :: "'d ticker_snapshot list"

datatype reference_kind = ReferencePriceBestAsk | ReferencePriceMark | ReferencePriceLast

record reference_price =
  rp_Price :: string
  rp_UpdatedAtMs :: int
  rp_Kind :: reference_kind

definition no_ticker :: "('d::zero) ticker_state" where
  "no_ticker =
     \<lparr> tk_LastPrice = 0, tk_OpenPrice = 0, tk_HighPrice = 0, tk_LowPrice = 0, tk_Volume = 0, tk_QuoteVolume = 0,
       tk_PriceChangePercent = 0, tk_UpdatedAtMs = 0 \<rparr>"

definition empty_side :: "'d order_book_side" where
  "empty_side = \<lparr> bs_Orders = (\<lambda>_. None), bs_Levels = [] \<rparr>"

definition new_symbol :: "('d::zero) symbol_state" where
  "new_symbol =
     \<lparr> sy_Ticker = no_ticker, sy_OrderBook = \<lparr> bm_LastUpdateID = 0, bm_Bids = empty_side, bm_Asks = empty_side \<rparr>,
       sy_trades24h = [] \<rparr>"

definition market_New :: "'d market_store" where
  "market_New = []"

definition getOrCreate :: "string \<Rightarrow> ('d::zero) market_store \<Rightarrow> 'd symbol_state \<times> 'd market_store" where
  "getOrCreate s ms =
     (case map_of ms s of Some st \<Rightarrow> (st, ms) | None \<Rightarrow> (new_symbol, AList.update s new_symbol ms))"

definition market_Symbols :: "'d market_store \<Rightarrow> string list" where
  "market_Symbols ms = sort (map fst ms)"

definition parseDecimal :: "'d libs \<Rightarrow> string \<Rightarrow> err + 'd" where
  "parseDecimal L v = (case dec_of_string L v of None \<Rightarrow> Inl (ErrMsg ''invalid decimal'') | Some d \<Rightarrow> Inr d)"

section \<open>The ticker\<close>

definition tickerWindowMs :: int where
  "tickerWindowMs = 24 * 60 * 60 * 1000"

definition priceChangePercent :: "('d::linordered_idom) libs \<Rightarrow> 'd \<Rightarrow> 'd \<Rightarrow> 'd" where
  "priceChangePercent L open_price last_price =
     (if open_price = 0 then 0 else dec_div L (last_price - open_price) open_price * dec_new L 100 0)"

text \<open>The loop over the trades, with high, low, volume and quote volume so far.\<close>

fun tick_stats :: "('d::linordered_idom) trade_tick list \<Rightarrow> 'd \<times> 'd \<times> 'd \<times> 'd \<Rightarrow> 'd \<times> 'd \<times> 'd \<times> 'd" where
  "tick_stats [] acc = acc"
| "tick_stats (tk # tks) (high, low, vol, qvol) =
     tick_stats tks
       (if high < tt_Price tk then tt_Price tk else high, if tt_Price tk < low then tt_Price tk else low,
        vol + tt_Qty tk, qvol + tt_Price tk * tt_Qty tk)"

definition recomputeTicker24h ::
  "('d::linordered_idom) libs \<Rightarrow> 'd trade_tick list \<Rightarrow> int \<Rightarrow> 'd ticker_state" where
  "recomputeTicker24h L ticks updatedAtMs =
     (case ticks of
        [] \<Rightarrow> no_ticker\<lparr>tk_UpdatedAtMs := updatedAtMs\<rparr>
      | t0 # _ \<Rightarrow>
          (let (high, low, vol, qvol) = tick_stats ticks (tt_Price t0, tt_Price t0, 0, 0);
               lastp = tt_Price (List.last ticks)
           in \<lparr> tk_LastPrice = lastp, tk_OpenPrice = tt_Price t0, tk_HighPrice = high, tk_LowPrice = low,
                tk_Volume = vol, tk_QuoteVolume = qvol,
                tk_PriceChangePercent = priceChangePercent L (tt_Price t0) lastp,
                tk_UpdatedAtMs = updatedAtMs \<rparr>))"

definition applyTrade24h ::
  "('d::linordered_idom) libs \<Rightarrow> 'd \<Rightarrow> 'd \<Rightarrow> int \<Rightarrow> 'd symbol_state \<Rightarrow> 'd symbol_state" where
  "applyTrade24h L price qty tradeTimeMs st =
     (let cutoff = tradeTimeMs - tickerWindowMs;
          ticks = dropWhile (\<lambda>tk. tt_TimeMs tk < cutoff)
                    (sy_trades24h st @ [\<lparr> tt_TimeMs = tradeTimeMs, tt_Price = price, tt_Qty = qty \<rparr>])
      in st\<lparr>sy_trades24h := ticks, sy_Ticker := recomputeTicker24h L ticks tradeTimeMs\<rparr>)"

definition ApplyTrade ::
  "('d::linordered_idom) libs \<Rightarrow> string \<Rightarrow> string \<Rightarrow> string \<Rightarrow> int \<Rightarrow> 'd market_store \<Rightarrow> err option \<times> 'd market_store" where
  "ApplyTrade L s priceStr qtyStr updatedAtMs ms =
     (if s = [] then (Some (ErrMsg ''symbol is required''), ms)
      else (case parseDecimal L priceStr of Inl e \<Rightarrow> (Some e, ms)
      | Inr price \<Rightarrow>
     (case parseDecimal L qtyStr of Inl e \<Rightarrow> (Some e, ms)
      | Inr qty \<Rightarrow>
          (let (st, ms1) = getOrCreate s ms
           in (None, AList.update s (applyTrade24h L price qty updatedAtMs st) ms1)))))"

definition FormatDecimal :: "('d::zero) libs \<Rightarrow> 'd \<Rightarrow> string" where
  "FormatDecimal L d = (if d = 0 then ''0'' else dec_to_string L d)"

definition FormatPercent :: "(int \<Rightarrow> 'd \<Rightarrow> string) \<Rightarrow> ('d::zero) \<Rightarrow> string" where
  "FormatPercent stringFixed d = (if d = 0 then ''0'' else stringFixed 2 d)"

section \<open>The mirror of the book\<close>

definition level_get :: "string \<Rightarrow> (string \<times> 'd) list \<Rightarrow> ('d::zero)" where
  "level_get k lv = (case map_of lv k of None \<Rightarrow> 0 | Some v \<Rightarrow> v)"

text \<open>\<open>if side.Levels[key].IsZero() { delete(side.Levels, key) }\<close>\<close>

definition drop_zero :: "string \<Rightarrow> (string \<times> 'd) list \<Rightarrow> (string \<times> ('d::zero)) list" where
  "drop_zero k lv = (if level_get k lv = 0 then AList.delete k lv else lv)"

definition applyUpsert ::
  "('d::linordered_idom) libs \<Rightarrow> uint64 \<Rightarrow> 'd order_entry \<Rightarrow> 'd order_book_side \<Rightarrow> 'd order_book_side" where
  "applyUpsert L orderID newEntry sd =
     (let lv = (case bs_Orders sd orderID of
                  None \<Rightarrow> bs_Levels sd
                | Some old \<Rightarrow>
                    (let key = dec_to_string L (en_Price old)
                     in drop_zero key
                          (AList.update key (level_get key (bs_Levels sd) - en_Remaining old) (bs_Levels sd))));
          key = dec_to_string L (en_Price newEntry)
      in \<lparr> bs_Orders = (bs_Orders sd)(orderID \<mapsto> newEntry),
           bs_Levels = AList.update key (level_get key lv + en_Remaining newEntry) lv \<rparr>)"

definition applyRemaining ::
  "('d::linordered_idom) libs \<Rightarrow> uint64 \<Rightarrow> 'd \<Rightarrow> 'd order_book_side \<Rightarrow> bool \<times> 'd order_book_side" where
  "applyRemaining L orderID newRemaining sd =
     (case bs_Orders sd orderID of
        None \<Rightarrow> (False, sd)
      | Some old \<Rightarrow>
          if en_Remaining old = newRemaining then (True, sd)
          else (let key = dec_to_string L (en_Price old);
                    delta = newRemaining - en_Remaining old
                in (True, \<lparr> bs_Orders = (bs_Orders sd)(orderID \<mapsto> old\<lparr>en_Remaining := newRemaining\<rparr>),
                            bs_Levels = drop_zero key
                              (AList.update key (level_get key (bs_Levels sd) + delta) (bs_Levels sd)) \<rparr>)))"

definition applyRemove ::
  "('d::linordered_idom) libs \<Rightarrow> uint64 \<Rightarrow> 'd order_book_side \<Rightarrow> bool \<times> 'd order_book_side" where
  "applyRemove L orderID sd =
     (case bs_Orders sd orderID of
        None \<Rightarrow> (False, sd)
      | Some old \<Rightarrow>
          (let key = dec_to_string L (en_Price old)
           in (True, \<lparr> bs_Orders = (bs_Orders sd)(orderID := None),
                       bs_Levels = drop_zero key
                         (AList.update key (level_get key (bs_Levels sd) - en_Remaining old) (bs_Levels sd)) \<rparr>)))"

definition bump :: "'d order_book_state \<Rightarrow> 'd order_book_state" where
  "bump ob = ob\<lparr>bm_LastUpdateID := bm_LastUpdateID ob + 1\<rparr>"

definition put_book :: "string \<Rightarrow> 'd symbol_state \<Rightarrow> 'd order_book_state \<Rightarrow> 'd market_store \<Rightarrow> 'd market_store" where
  "put_book s st ob ms = AList.update s (st\<lparr>sy_OrderBook := ob\<rparr>) ms"

definition ApplyOrderBookAccepted ::
  "('d::linordered_idom) libs \<Rightarrow> string \<Rightarrow> uint64 \<Rightarrow> string \<Rightarrow> string \<Rightarrow> string \<Rightarrow> 'd market_store \<Rightarrow> err option \<times> 'd market_store" where
  "ApplyOrderBookAccepted L s orderID side priceStr remainingStr ms =
     (if s = [] \<or> orderID = 0 then (Some (ErrMsg ''symbol and order_id are required''), ms)
      else (case parseDecimal L priceStr of Inl e \<Rightarrow> (Some e, ms)
      | Inr price \<Rightarrow>
     (case parseDecimal L remainingStr of Inl e \<Rightarrow> (Some e, ms)
      | Inr rm \<Rightarrow>
          if rm < 0 then (Some (ErrMsg ''remaining must be non-negative''), ms)
          else (let (st, ms1) = getOrCreate s ms;
                    entry = \<lparr> en_Side = side, en_Price = price, en_Remaining = rm \<rparr>;
                    ob = sy_OrderBook st
                in if side = ''BUY'' then
                     (None, put_book s st (bump (ob\<lparr>bm_Bids := applyUpsert L orderID entry (bm_Bids ob)\<rparr>)) ms1)
                   else if side = ''SELL'' then
                     (None, put_book s st (bump (ob\<lparr>bm_Asks := applyUpsert L orderID entry (bm_Asks ob)\<rparr>)) ms1)
                   else (Some (ErrMsg ''unknown side''), ms1)))))"

definition ApplyOrderBookRemaining ::
  "('d::linordered_idom) libs \<Rightarrow> string \<Rightarrow> uint64 \<Rightarrow> string \<Rightarrow> 'd market_store \<Rightarrow> err option \<times> 'd market_store" where
  "ApplyOrderBookRemaining L s orderID remainingStr ms =
     (if s = [] \<or> orderID = 0 then (Some (ErrMsg ''symbol and order_id are required''), ms)
      else (case parseDecimal L remainingStr of Inl e \<Rightarrow> (Some e, ms)
      | Inr rm \<Rightarrow>
          if rm < 0 then (Some (ErrMsg ''remaining must be non-negative''), ms)
          else (let (st, ms1) = getOrCreate s ms;
                    ob = sy_OrderBook st;
                    (okb, bids) = applyRemaining L orderID rm (bm_Bids ob);
                    (oka, asks) = applyRemaining L orderID rm (bm_Asks ob)
                in if okb then (None, put_book s st (bump (ob\<lparr>bm_Bids := bids\<rparr>)) ms1)
                   else if oka then (None, put_book s st (bump (ob\<lparr>bm_Asks := asks\<rparr>)) ms1)
                   else (None, ms1))))"

definition ApplyOrderBookRemove ::
  "('d::linordered_idom) libs \<Rightarrow> string \<Rightarrow> uint64 \<Rightarrow> 'd market_store \<Rightarrow> err option \<times> 'd market_store" where
  "ApplyOrderBookRemove L s orderID ms =
     (if s = [] \<or> orderID = 0 then (Some (ErrMsg ''symbol and order_id are required''), ms)
      else (let (st, ms1) = getOrCreate s ms;
                ob = sy_OrderBook st;
                (okb, bids) = applyRemove L orderID (bm_Bids ob);
                (oka, asks) = applyRemove L orderID (bm_Asks ob)
            in if okb then (None, put_book s st (bump (ob\<lparr>bm_Bids := bids\<rparr>)) ms1)
               else if oka then (None, put_book s st (bump (ob\<lparr>bm_Asks := asks\<rparr>)) ms1)
               else (None, ms1)))"

section \<open>What is read\<close>

definition snapshotLevels ::
  "('d::linordered_idom) libs \<Rightarrow> (string \<times> 'd) list \<Rightarrow> int \<Rightarrow> bool \<Rightarrow> price_level list" where
  "snapshotLevels L lvs limit desc =
     (let tmp = List.map_filter
            (\<lambda>(k, q). if q \<le> 0 then None else map_option (\<lambda>p. (p, q)) (dec_of_string L k)) lvs;
          sorted = (if desc then sort_key (\<lambda>x. - fst x) tmp else sort_key fst tmp);
          cut = (if int (length sorted) > limit then take (nat limit) sorted else sorted)
      in map (\<lambda>(p, q). \<lparr> pl_Price = dec_to_string L p, pl_Quantity = dec_to_string L q \<rparr>) cut)"

definition bestAsk :: "('d::linordered_idom) libs \<Rightarrow> (string \<times> 'd) list \<Rightarrow> string option" where
  "bestAsk L lvs = (case snapshotLevels L lvs 1 False of [] \<Rightarrow> None | a # _ \<Rightarrow> Some (pl_Price a))"

definition SnapshotTicker :: "string \<Rightarrow> 'd market_store \<Rightarrow> 'd ticker_state option" where
  "SnapshotTicker s ms = (if s = [] then None else map_option sy_Ticker (map_of ms s))"

definition SnapshotOrderBook ::
  "('d::linordered_idom) libs \<Rightarrow> string \<Rightarrow> int \<Rightarrow> 'd market_store \<Rightarrow> book_snapshot option" where
  "SnapshotOrderBook L s limit0 ms =
     (if s = [] then None
      else (let l1 = (if limit0 \<le> 0 then 20 else limit0);
                limit = (if l1 > 100 then 100 else l1)
            in case map_of ms s of
                 None \<Rightarrow> None
               | Some st \<Rightarrow>
                   Some \<lparr> ob_Symbol = s, ob_LastUpdateID = bm_LastUpdateID (sy_OrderBook st),
                          ob_Bids = snapshotLevels L (bs_Levels (bm_Bids (sy_OrderBook st))) limit True,
                          ob_Asks = snapshotLevels L (bs_Levels (bm_Asks (sy_OrderBook st))) limit False,
                          ob_UpdatedAtMs = tk_UpdatedAtMs (sy_Ticker st) \<rparr>))"

definition ReferencePrice ::
  "('d::linordered_idom) libs \<Rightarrow> string \<Rightarrow> reference_kind \<Rightarrow> 'd market_store \<Rightarrow> reference_price option" where
  "ReferencePrice L s kind ms =
     (case map_of ms s of
        None \<Rightarrow> None
      | Some st \<Rightarrow>
          (let at = tk_UpdatedAtMs (sy_Ticker st);
               lastp = (if tk_LastPrice (sy_Ticker st) = 0 then None
                        else Some \<lparr> rp_Price = dec_to_string L (tk_LastPrice (sy_Ticker st)), rp_UpdatedAtMs = at,
                                    rp_Kind = ReferencePriceLast \<rparr>)
           in case kind of
                ReferencePriceBestAsk \<Rightarrow>
                  (case bestAsk L (bs_Levels (bm_Asks (sy_OrderBook st))) of
                     Some price \<Rightarrow> Some \<lparr> rp_Price = price, rp_UpdatedAtMs = at, rp_Kind = ReferencePriceBestAsk \<rparr>
                   | None \<Rightarrow> lastp)
              | ReferencePriceMark \<Rightarrow> lastp
              | ReferencePriceLast \<Rightarrow> lastp))"

text \<open>\<open>symbol[idx+1:]\<close> after the last dash, empty without a dash or when nothing follows it.\<close>

definition symbolQuoteAsset :: "string \<Rightarrow> string" where
  "symbolQuoteAsset s =
     (if CHR ''-'' \<notin> set s then '''' else rev (takeWhile (\<lambda>c. c \<noteq> CHR ''-'') (rev s)))"

definition SnapshotTickerAll :: "string \<Rightarrow> 'd market_store \<Rightarrow> 'd ticker_snapshot list" where
  "SnapshotTickerAll quoteAsset ms =
     List.map_filter
       (\<lambda>s. case SnapshotTicker s ms of
              None \<Rightarrow> None
            | Some t \<Rightarrow> if tk_UpdatedAtMs t = 0 then None else Some \<lparr> tn_Symbol = s, tn_TickerState = t \<rparr>)
       (sort (filter (\<lambda>s. quoteAsset = [] \<or> symbolQuoteAsset s = quoteAsset) (map fst ms)))"

definition snapshot_text :: "'d libs \<Rightarrow> string \<Rightarrow> 'd ticker_snapshot list \<Rightarrow> string" where
  "snapshot_text L quoteAsset xs =
     quoteAsset @ ''|'' @
     concat (map (\<lambda>it. let t = tn_TickerState it in
       tn_Symbol it @ '':'' @ dec_to_string L (tk_LastPrice t) @ '':'' @ dec_to_string L (tk_OpenPrice t) @ '':'' @
       dec_to_string L (tk_HighPrice t) @ '':'' @ dec_to_string L (tk_LowPrice t) @ '':'' @
       dec_to_string L (tk_Volume t) @ '':'' @ dec_to_string L (tk_QuoteVolume t) @ '':'' @
       dec_to_string L (tk_PriceChangePercent t) @ '':'' @ int_to_string (tk_UpdatedAtMs t) @ ''|'') xs)"

definition computeTickerAllSnapshotID :: "'d libs \<Rightarrow> (string \<Rightarrow> string) \<Rightarrow> string \<Rightarrow> 'd ticker_snapshot list \<Rightarrow> string" where
  "computeTickerAllSnapshotID L sha1_hex quoteAsset xs = ''snap-'' @ sha1_hex (snapshot_text L quoteAsset xs)"

definition BuildTickerAllSnapshot :: "'d libs \<Rightarrow> (string \<Rightarrow> string) \<Rightarrow> string \<Rightarrow> 'd market_store \<Rightarrow> 'd ticker_all_snapshot" where
  "BuildTickerAllSnapshot L sha1_hex quoteAsset ms =
     (let xs = SnapshotTickerAll quoteAsset ms;
          maxTs = fold (\<lambda>it m. if tk_UpdatedAtMs (tn_TickerState it) > m then tk_UpdatedAtMs (tn_TickerState it) else m) xs 0
      in \<lparr> ta_QuoteAsset = quoteAsset, ta_SnapshotID = computeTickerAllSnapshotID L sha1_hex quoteAsset xs,
           ta_SnapshotTime = (if maxTs = 0 then 1 else maxTs), ta_Count = length xs, ta_Items = xs \<rparr>)"

end
