(* ===== verification/MarketDepth.thy ===== *)
theory MarketDepth
  imports MarketStore
begin

text \<open>
  What the mirror promises: the levels of a side are the sums of the orders it holds, so a depth
  snapshot is the best prices of those orders with the quantity resting at each; and the ticker of
  trades that arrive in order is that of the trades of the last 24 hours.
\<close>

section \<open>Levels and orders\<close>

definition share :: "'d \<Rightarrow> ('d::linordered_idom) order_entry option \<Rightarrow> 'd" where
  "share p e = (case e of None \<Rightarrow> 0 | Some x \<Rightarrow> if en_Price x = p then en_Remaining x else 0)"

definition resting_at :: "(uint64 \<Rightarrow> ('d::linordered_idom) order_entry option) \<Rightarrow> 'd \<Rightarrow> 'd" where
  "resting_at m p = (\<Sum>i \<in> dom m. share p (m i))"

definition side_ok :: "('d::linordered_idom) libs \<Rightarrow> 'd order_book_side \<Rightarrow> bool" where
  "side_ok L sd \<longleftrightarrow>
     distinct (map fst (bs_Levels sd)) \<and>
     (\<forall>i e. bs_Orders sd i = Some e \<longrightarrow> 0 \<le> en_Remaining e) \<and>
     (\<forall>k \<in> fst ` set (bs_Levels sd). \<exists>p. k = dec_to_string L p) \<and>
     (\<forall>p. level_get (dec_to_string L p) (bs_Levels sd) = resting_at (bs_Orders sd) p)"

lemma side_okD:
  assumes "side_ok L sd"
  shows "distinct (map fst (bs_Levels sd))" "bs_Orders sd i = Some e \<Longrightarrow> 0 \<le> en_Remaining e"
    "k \<in> fst ` set (bs_Levels sd) \<Longrightarrow> \<exists>p. k = dec_to_string L p"
    "level_get (dec_to_string L p) (bs_Levels sd) = resting_at (bs_Orders sd) p"
  using assms by (auto simp: side_ok_def)

lemma empty_side_ok: "side_ok L empty_side"
  by (simp add: side_ok_def empty_side_def level_get_def resting_at_def)

lemma share_None [simp]: "share p None = 0"
  by (simp add: share_def)

lemma resting_update: "resting_at (m(i := x)) p = resting_at m p - share p (m i) + share p x"
proof -
  have fin: "finite A" for A :: "uint64 set" by (rule finite)
  let ?D = "insert i (dom m)"
  have ext: "resting_at f p = (\<Sum>j \<in> ?D. share p (f j))" if "dom f \<subseteq> ?D" for f :: "uint64 \<Rightarrow> 'a order_entry option"
    unfolding resting_at_def by (rule sum.mono_neutral_left [OF fin that]) (metis Diff_iff domIff share_None)
  have split: "(\<Sum>j \<in> ?D. share p (f j)) = share p (f i) + (\<Sum>j \<in> ?D - {i}. share p (f j))" for f :: "uint64 \<Rightarrow> 'a order_entry option"
    by (rule sum.remove [OF fin]) simp
  have "(\<Sum>j \<in> ?D - {i}. share p ((m(i := x)) j)) = (\<Sum>j \<in> ?D - {i}. share p (m j))"
    by (rule sum.cong) auto
  moreover have "resting_at (m(i := x)) p = (\<Sum>j \<in> ?D. share p ((m(i := x)) j))" by (rule ext) auto
  moreover have "resting_at m p = (\<Sum>j \<in> ?D. share p (m j))" by (rule ext) auto
  ultimately show ?thesis using split [of m] split [of "m(i := x)"] by simp
qed

lemma level_get_update: "level_get k (AList.update k' v lv) = (if k = k' then v else level_get k lv)"
  by (auto simp: level_get_def update_conv')

lemma level_get_drop_zero [simp]: "level_get k (drop_zero k' lv) = level_get k lv"
  by (auto simp: level_get_def drop_zero_def delete_conv' split: option.splits if_splits)

lemma distinct_drop_zero: "distinct (map fst lv) \<Longrightarrow> distinct (map fst (drop_zero k lv))"
  by (simp add: drop_zero_def AList.delete_eq distinct_map_filter)

lemma keys_update: "fst ` set (AList.update k v lv) = insert k (fst ` set lv)"
  using dom_update [of k v lv] by (simp add: dom_map_of_conv_image_fst)

lemma update_key: "(a, b) \<in> set (AList.update k v lv) \<Longrightarrow> a = k \<or> a \<in> fst ` set lv"
  using keys_update [of k v lv] by force

lemma drop_zero_set: "(a, b) \<in> set (drop_zero k lv) \<Longrightarrow> (a, b) \<in> set lv"
  by (auto simp: drop_zero_def AList.delete_eq split: if_splits)

lemmas level_simps = level_get_update distinct_drop_zero distinct_update

text \<open>Two decimals with the same text are the same.\<close>

lemma text_inj: "codec_ok L \<Longrightarrow> dec_to_string L a = dec_to_string L b \<longleftrightarrow> a = b"
  by (metis codec_okD(1) option.inject)

lemma side_ok_change:
  assumes "side_ok L sd" and "distinct (map fst lv)"
    and "fst ` set lv \<subseteq> fst ` set (bs_Levels sd) \<union> range (dec_to_string L)"
    and "\<And>e. x = Some e \<Longrightarrow> 0 \<le> en_Remaining e"
    and "\<And>p. level_get (dec_to_string L p) lv = level_get (dec_to_string L p) (bs_Levels sd) - share p (bs_Orders sd i) + share p x"
  shows "side_ok L \<lparr> bs_Orders = (bs_Orders sd)(i := x), bs_Levels = lv \<rparr>"
proof -
  note ok = side_okD [OF assms(1)]
  have "\<exists>p. k = dec_to_string L p" if "k \<in> fst ` set lv" for k
    using assms(3) that ok(3) by blast
  moreover have "0 \<le> en_Remaining e" if "((bs_Orders sd)(i := x)) j = Some e" for j e
    using that ok(2) assms(4) by (cases "j = i") auto
  ultimately show ?thesis using assms(2,5) ok(4) by (simp add: side_ok_def resting_update)
qed

lemma applyUpsert_ok:
  assumes "codec_ok L" "side_ok L sd" "0 \<le> en_Remaining e"
  shows "side_ok L (applyUpsert L i e sd)"
proof -
  note d = side_okD(1) [OF assms(2)]
  show ?thesis
  proof (cases "bs_Orders sd i")
    case None
    then show ?thesis unfolding applyUpsert_def Let_def
      by (simp, intro side_ok_change [OF assms(2)])
        (auto simp: level_simps d text_inj [OF assms(1)] share_def assms(3) intro: rev_image_eqI dest!: update_key)
  next
    case (Some old)
    then show ?thesis unfolding applyUpsert_def Let_def
      by (simp, intro side_ok_change [OF assms(2)])
        (auto simp: level_simps d text_inj [OF assms(1)] share_def assms(3) intro: rev_image_eqI dest!: drop_zero_set update_key)
  qed
qed

lemma applyRemaining_ok:
  assumes "codec_ok L" "side_ok L sd" "0 \<le> v"
  shows "side_ok L (snd (applyRemaining L i v sd))"
proof (cases "bs_Orders sd i")
  case None
  with assms show ?thesis by (simp add: applyRemaining_def)
next
  case (Some old)
  note d = side_okD(1) [OF assms(2)]
  from Some show ?thesis using assms(2) unfolding applyRemaining_def Let_def
    by (simp, intro impI side_ok_change [OF assms(2)])
      (auto simp: level_simps d text_inj [OF assms(1)] share_def assms(3)
        intro: rev_image_eqI dest!: drop_zero_set update_key)
qed

lemma applyRemove_ok:
  assumes "codec_ok L" "side_ok L sd"
  shows "side_ok L (snd (applyRemove L i sd))"
proof (cases "bs_Orders sd i")
  case None
  with assms show ?thesis by (simp add: applyRemove_def)
next
  case (Some old)
  note d = side_okD(1) [OF assms(2)]
  from Some show ?thesis unfolding applyRemove_def Let_def
    by (simp, intro side_ok_change [OF assms(2)])
      (auto simp: level_simps d text_inj [OF assms(1)] share_def
        intro: rev_image_eqI dest!: drop_zero_set update_key)
qed


section \<open>A depth snapshot lists the resting orders\<close>

definition depth_of :: "(uint64 \<Rightarrow> ('d::linordered_idom) order_entry option) \<Rightarrow> bool \<Rightarrow> ('d \<times> 'd) list" where
  "depth_of m desc =
     (let ps = sorted_list_of_set {p. 0 < resting_at m p}
      in map (\<lambda>p. (p, resting_at m p)) (if desc then rev ps else ps))"

definition level_text :: "'d libs \<Rightarrow> 'd \<times> 'd \<Rightarrow> price_level" where
  "level_text L x = \<lparr> pl_Price = dec_to_string L (fst x), pl_Quantity = dec_to_string L (snd x) \<rparr>"

lemma sort_levels:
  fixes t :: "('a::linordered_idom \<times> 'b) list"
  assumes "distinct (map fst t)" "\<forall>x \<in> set t. snd x = f (fst x)"
  shows "sort_key fst t = map (\<lambda>p. (p, f p)) (sorted_list_of_set (fst ` set t))"
    and "sort_key (\<lambda>x. - fst x) t = map (\<lambda>p. (p, f p)) (rev (sorted_list_of_set (fst ` set t)))"
proof -
  have pairs: "map (\<lambda>p. (p, f p)) (map fst xs) = xs" if "set xs = set t" for xs
    using that assms(2) by (force simp: comp_def intro!: map_idI)
  have dist: "distinct (map fst (sort_key k t))" for k :: "_ \<Rightarrow> 'a"
  proof -
    have "distinct t" using assms(1) by (simp add: distinct_map)
    then show ?thesis using assms(1) by (simp add: distinct_map)
  qed
  have "map fst (sort_key fst t) = sorted_list_of_set (fst ` set t)"
    by (rule sorted_distinct_set_unique) (use dist in \<open>simp_all del: distinct_map\<close>)
  then show "sort_key fst t = map (\<lambda>p. (p, f p)) (sorted_list_of_set (fst ` set t))"
    using pairs [of "sort_key fst t"] by simp
  let ?d = "sort_key (\<lambda>x. - fst x) t"
  have "sorted (map (\<lambda>x. - fst x) ?d)" by simp
  then have "sorted_wrt (\<lambda>x y. fst y \<le> fst x) ?d" by (simp add: sorted_map)
  then have "sorted (rev (map fst ?d))" by (simp add: sorted_wrt_rev sorted_wrt_map)
  then have "rev (map fst ?d) = sorted_list_of_set (fst ` set t)"
    by (intro sorted_distinct_set_unique) (use dist in simp_all)
  then have "map fst ?d = rev (sorted_list_of_set (fst ` set t))" by (metis rev_rev_ident)
  then show "?d = map (\<lambda>p. (p, f p)) (rev (sorted_list_of_set (fst ` set t)))"
    using pairs [of ?d] by simp
qed

lemma level_get_member: "distinct (map fst lv) \<Longrightarrow> (k, q) \<in> set lv \<Longrightarrow> level_get k lv = q"
  by (simp add: level_get_def)

lemma level_get_pos: "level_get k lv \<noteq> 0 \<Longrightarrow> (k, level_get k lv) \<in> set lv"
  by (auto simp: level_get_def dest: map_of_SomeD split: option.splits)

lemma snapshotLevels_depth:
  assumes c: "codec_ok L" and ok: "side_ok L sd" and n: "0 \<le> limit"
  shows "snapshotLevels L (bs_Levels sd) limit desc = map (level_text L) (take (nat limit) (depth_of (bs_Orders sd) desc))"
proof -
  let ?f = "\<lambda>(k, q). if q \<le> 0 then None else map_option (\<lambda>p. (p, q)) (dec_of_string L k)"
  let ?t = "List.map_filter ?f (bs_Levels sd)"
  let ?r = "resting_at (bs_Orders sd)"
  note d = side_okD [OF ok]
  have el: "x \<in> set ?t \<longleftrightarrow> 0 < ?r (fst x) \<and> snd x = ?r (fst x)" for x
  proof
    assume "x \<in> set ?t"
    then obtain k q where kq: "(k, q) \<in> set (bs_Levels sd)" "0 < q" "dec_of_string L k = Some (fst x)" "snd x = q"
      by (auto simp: List.map_filter_def split: if_splits)
    from d(3) [of k] kq(1) obtain p where "k = dec_to_string L p" by (force simp: image_iff)
    with kq codec_okD(1) [OF c] have "k = dec_to_string L (fst x)" by simp
    with level_get_member [OF d(1) kq(1)] d(4) [of "fst x"] kq(2,4)
    show "0 < ?r (fst x) \<and> snd x = ?r (fst x)" by simp
  next
    assume a: "0 < ?r (fst x) \<and> snd x = ?r (fst x)"
    then have "(dec_to_string L (fst x), snd x) \<in> set (bs_Levels sd)"
      using level_get_pos [of "dec_to_string L (fst x)" "bs_Levels sd"] d(4) [of "fst x"] by simp
    with a codec_okD(1) [OF c] show "x \<in> set ?t"
      by (cases x) (force simp: List.map_filter_def image_iff)
  qed
  have keys: "fst ` set ?t = {p. 0 < ?r p}"
  proof -
    have "p \<in> fst ` set ?t" if "0 < ?r p" for p
      using el [of "(p, ?r p)"] that by (simp add: rev_image_eqI)
    then show ?thesis using el by blast
  qed
  have "distinct (map fst (List.map_filter ?f lv))"
    if "distinct (map fst lv)" "\<forall>k \<in> fst ` set lv. \<exists>p. k = dec_to_string L p" for lv
    using that
  proof (induction lv)
    case (Cons y ys)
    have "fst y \<in> fst ` set ys" if "(p, q) \<in> set (List.map_filter ?f ys)" "dec_of_string L (fst y) = Some p" for p q
    proof -
      from Cons.prems(2) obtain p0 where "fst y = dec_to_string L p0" by auto
      with that(2) codec_okD(1) [OF c] have "fst y = dec_to_string L p" by simp
      moreover from that(1) obtain k where "(k, q) \<in> set ys" "dec_of_string L k = Some p"
        by (auto simp: List.map_filter_def split: if_splits)
      moreover then have "k = dec_to_string L p" using Cons.prems(2) codec_okD(1) [OF c] by force
      ultimately show ?thesis by (auto simp: rev_image_eqI)
    qed
    with Cons show ?case by (cases y) (fastforce simp: List.map_filter_simps split: option.splits)
  qed (simp add: List.map_filter_simps)
  then have dist: "distinct (map fst ?t)" using d(1,3) by blast
  have cut: "(if int (length xs) > limit then take (nat limit) xs else xs) = take (nat limit) xs" for xs :: "('a \<times> 'a) list"
    using n by (simp add: zless_nat_eq_int_zless le_nat_iff)
  have "(if desc then sort_key (\<lambda>x. - fst x) ?t else sort_key fst ?t) = depth_of (bs_Orders sd) desc"
    using sort_levels [OF dist, of ?r] el unfolding keys depth_of_def Let_def by auto
  then show ?thesis
    unfolding snapshotLevels_def Let_def cut by (simp add: level_text_def [abs_def] case_prod_unfold)
qed


section \<open>The store\<close>

definition symbol_ok :: "('d::linordered_idom) libs \<Rightarrow> 'd symbol_state \<Rightarrow> bool" where
  "symbol_ok L st \<longleftrightarrow> side_ok L (bm_Bids (sy_OrderBook st)) \<and> side_ok L (bm_Asks (sy_OrderBook st))"

definition store_ok :: "('d::linordered_idom) libs \<Rightarrow> 'd market_store \<Rightarrow> bool" where
  "store_ok L ms \<longleftrightarrow> distinct (map fst ms) \<and> (\<forall>s st. map_of ms s = Some st \<longrightarrow> symbol_ok L st)"

text \<open>The calls that change the store, and the stores they lead to.\<close>

datatype store_call =
    Trade string string string int
  | Accepted string uint64 string string string
  | Remaining string uint64 string
  | Removed string uint64

fun store_apply :: "('d::linordered_idom) libs \<Rightarrow> store_call \<Rightarrow> 'd market_store \<Rightarrow> err option \<times> 'd market_store" where
  "store_apply L (Trade s p q t) ms = ApplyTrade L s p q t ms"
| "store_apply L (Accepted s i sd p q) ms = ApplyOrderBookAccepted L s i sd p q ms"
| "store_apply L (Remaining s i q) ms = ApplyOrderBookRemaining L s i q ms"
| "store_apply L (Removed s i) ms = ApplyOrderBookRemove L s i ms"

definition store_run :: "('d::linordered_idom) libs \<Rightarrow> store_call list \<Rightarrow> 'd market_store \<Rightarrow> 'd market_store" where
  "store_run L cs ms = fold (\<lambda>c m. snd (store_apply L c m)) cs ms"

lemma new_symbol_ok: "symbol_ok L new_symbol"
  by (simp add: symbol_ok_def new_symbol_def empty_side_ok)

lemma getOrCreate_ok:
  assumes "store_ok L ms" "getOrCreate s ms = (st, ms1)"
  shows "symbol_ok L st" "store_ok L ms1" "map_of ms1 = (map_of ms)(s \<mapsto> st)"
  using assms new_symbol_ok [of L]
  by (auto simp: getOrCreate_def store_ok_def distinct_update update_conv' split: option.splits if_splits)

lemma store_ok_update: "store_ok L ms \<Longrightarrow> symbol_ok L st \<Longrightarrow> store_ok L (AList.update s st ms)"
  by (auto simp: store_ok_def distinct_update update_conv')

lemma put_book_ok:
  assumes "store_ok L ms" "side_ok L (bm_Bids ob)" "side_ok L (bm_Asks ob)"
  shows "store_ok L (put_book s st (bump ob) ms)"
  using assms by (auto simp: put_book_def bump_def symbol_ok_def intro!: store_ok_update)

lemma ApplyTrade_ok: "store_ok L ms \<Longrightarrow> store_ok L (snd (ApplyTrade L s p q t ms))"
  by (auto simp: ApplyTrade_def applyTrade24h_def symbol_ok_def Let_def getOrCreate_ok split: sum.splits prod.splits
      intro!: store_ok_update dest: getOrCreate_ok(1))

lemma book_calls_ok:
  assumes "codec_ok L" "store_ok L ms"
  shows "store_ok L (snd (ApplyOrderBookAccepted L s i sd p q ms))"
    "store_ok L (snd (ApplyOrderBookRemaining L s i q ms))"
    "store_ok L (snd (ApplyOrderBookRemove L s i ms))"
proof -
  obtain st ms1 where g: "getOrCreate s ms = (st, ms1)" by (metis surj_pair)
  note k = getOrCreate_ok [OF assms(2) g]
  have b: "side_ok L (bm_Bids (sy_OrderBook st))" "side_ok L (bm_Asks (sy_OrderBook st))" using k(1) by (simp_all add: symbol_ok_def)
  show "store_ok L (snd (ApplyOrderBookAccepted L s i sd p q ms))"
    using k(2) assms(2) b
    by (auto simp: ApplyOrderBookAccepted_def g Let_def split: sum.splits intro!: put_book_ok applyUpsert_ok [OF assms(1)])
  show "store_ok L (snd (ApplyOrderBookRemaining L s i q ms))"
    using k(2) assms(2) b applyRemaining_ok [OF assms(1) b(1), of _ i] applyRemaining_ok [OF assms(1) b(2), of _ i]
    by (auto simp: ApplyOrderBookRemaining_def g Let_def split_beta not_less split: sum.splits intro!: put_book_ok)
  show "store_ok L (snd (ApplyOrderBookRemove L s i ms))"
    using k(2) assms(2) b applyRemove_ok [OF assms(1) b(1), of i] applyRemove_ok [OF assms(1) b(2), of i]
    by (auto simp: ApplyOrderBookRemove_def g Let_def split_beta intro!: put_book_ok)
qed

lemma store_apply_ok: "codec_ok L \<Longrightarrow> store_ok L ms \<Longrightarrow> store_ok L (snd (store_apply L c ms))"
  by (cases c) (auto intro: ApplyTrade_ok book_calls_ok)

lemma store_run_ok: "codec_ok L \<Longrightarrow> store_ok L ms \<Longrightarrow> store_ok L (store_run L cs ms)"
  unfolding store_run_def by (induction cs arbitrary: ms) (auto intro: store_apply_ok)

definition depth_limit :: "int \<Rightarrow> nat" where
  "depth_limit limit = nat (if limit \<le> 0 then 20 else min limit 100)"

text \<open>
  C25. Whatever sequence of trades and order events reached the store, accepted or refused, a depth
  snapshot of a pair lists per side the best prices at which an order of the mirror rests, each once
  with the sum of what rests there: bids from the highest price down, asks from the lowest up, at
  most as many as asked for (20 by default, at most 100). The reference price of a pair with an ask
  is the lowest one.
\<close>
theorem depth_snapshot_exact:
  assumes c: "codec_ok L" and st: "map_of (store_run L cs market_New) s = Some st" and s: "s \<noteq> []"
  shows "(\<exists>snap. SnapshotOrderBook L s limit (store_run L cs market_New) = Some snap \<and>
      ob_Bids snap = map (level_text L) (take (depth_limit limit) (depth_of (bs_Orders (bm_Bids (sy_OrderBook st))) True)) \<and>
      ob_Asks snap = map (level_text L) (take (depth_limit limit) (depth_of (bs_Orders (bm_Asks (sy_OrderBook st))) False))) \<and>
    (\<forall>p q r. depth_of (bs_Orders (bm_Asks (sy_OrderBook st))) False = (p, q) # r \<longrightarrow>
      ReferencePrice L s ReferencePriceBestAsk (store_run L cs market_New) =
        Some \<lparr> rp_Price = dec_to_string L p, rp_UpdatedAtMs = tk_UpdatedAtMs (sy_Ticker st), rp_Kind = ReferencePriceBestAsk \<rparr>)"
proof -
  have "store_ok L (store_run L cs market_New)"
    by (rule store_run_ok [OF c]) (simp add: store_ok_def market_New_def)
  with st have ok: "side_ok L (bm_Bids (sy_OrderBook st))" "side_ok L (bm_Asks (sy_OrderBook st))"
    by (auto simp: store_ok_def symbol_ok_def)
  note d = snapshotLevels_depth [OF c ok(1)] snapshotLevels_depth [OF c ok(2)]
  have "\<exists>snap. SnapshotOrderBook L s limit (store_run L cs market_New) = Some snap \<and>
      ob_Bids snap = map (level_text L) (take (depth_limit limit) (depth_of (bs_Orders (bm_Bids (sy_OrderBook st))) True)) \<and>
      ob_Asks snap = map (level_text L) (take (depth_limit limit) (depth_of (bs_Orders (bm_Asks (sy_OrderBook st))) False))"
    using s st by (auto simp: SnapshotOrderBook_def Let_def d depth_limit_def)
  moreover have "\<forall>p q r. depth_of (bs_Orders (bm_Asks (sy_OrderBook st))) False = (p, q) # r \<longrightarrow>
      ReferencePrice L s ReferencePriceBestAsk (store_run L cs market_New) =
        Some \<lparr> rp_Price = dec_to_string L p, rp_UpdatedAtMs = tk_UpdatedAtMs (sy_Ticker st), rp_Kind = ReferencePriceBestAsk \<rparr>"
    using st by (simp add: ReferencePrice_def bestAsk_def d Let_def level_text_def)
  ultimately show ?thesis ..
qed

definition wit_calls :: "store_call list" where
  "wit_calls = [Accepted ''AB'' 1 ''SELL'' ''7'' ''5'', Accepted ''AB'' 2 ''SELL'' ''6'' ''4'',
     Accepted ''AB'' 3 ''SELL'' ''7'' ''2'', Remaining ''AB'' 1 ''3'']"

lemma wit_calls_run:
  "\<exists>st. map_of (store_run int_libs wit_calls market_New) ''AB'' = Some st \<and>
     (\<forall>p. resting_at (bs_Orders (bm_Asks (sy_OrderBook st))) p = (if p = 6 then 4 else if p = 7 then 5 else 0)) \<and>
     bs_Orders (bm_Bids (sy_OrderBook st)) = Map.empty"
proof -
  have n: "int_of_string ''7'' = Some 7" "int_of_string ''6'' = Some 6" "int_of_string ''5'' = Some 5"
    "int_of_string ''4'' = Some 4" "int_of_string ''3'' = Some 3" "int_of_string ''2'' = Some 2"
    by code_simp+
  have r: "resting_at (m(i \<mapsto> e)) p = resting_at m p - share p (m i) + share p (Some e)" for m :: "uint64 \<Rightarrow> int order_entry option" and i e p
    by (rule resting_update)
  have z: "resting_at Map.empty p = 0" for p :: int by (simp add: resting_at_def)
  show ?thesis
    by (simp add: store_run_def wit_calls_def ApplyOrderBookAccepted_def ApplyOrderBookRemaining_def parseDecimal_def n
        int_libs_def getOrCreate_def market_New_def new_symbol_def put_book_def bump_def applyUpsert_def applyRemaining_def
        empty_side_def Let_def)
      (simp add: r z share_def)
qed

theorem depth_snapshot_exact_witness:
  "\<exists>snap. SnapshotOrderBook int_libs ''AB'' 0 (store_run int_libs wit_calls market_New) = Some snap \<and>
     ob_Bids snap = [] \<and> ob_Asks snap = [\<lparr> pl_Price = ''6'', pl_Quantity = ''4'' \<rparr>, \<lparr> pl_Price = ''7'', pl_Quantity = ''5'' \<rparr>]"
proof -
  obtain st where st: "map_of (store_run int_libs wit_calls market_New) ''AB'' = Some st"
    "\<forall>p. resting_at (bs_Orders (bm_Asks (sy_OrderBook st))) p = (if p = 6 then 4 else if p = 7 then 5 else 0)"
    "bs_Orders (bm_Bids (sy_OrderBook st)) = Map.empty" using wit_calls_run by blast
  have "{p :: int. 0 < (if p = 6 then 4 else if p = 7 then 5 else (0::int))} = {6, 7}" by (auto split: if_splits)
  then have "depth_of (bs_Orders (bm_Asks (sy_OrderBook st))) False = [(6, 4), (7, 5)]"
    using st(2) by (simp add: depth_of_def Let_def)
  moreover have "depth_of (bs_Orders (bm_Bids (sy_OrderBook st))) True = []"
    by (simp add: depth_of_def st(3) resting_at_def)
  moreover have "dec_to_string int_libs 6 = ''6''" "dec_to_string int_libs 7 = ''7''" "dec_to_string int_libs 4 = ''4''" "dec_to_string int_libs 5 = ''5''"
    by (code_simp)+
  ultimately show ?thesis
    using conjunct1 [OF depth_snapshot_exact [OF codec_ok_int_libs st(1), of 0]] by (simp add: depth_limit_def level_text_def)
qed

section \<open>The ticker\<close>

definition apply_tick :: "('d::linordered_idom) libs \<Rightarrow> 'd trade_tick \<Rightarrow> 'd symbol_state \<Rightarrow> 'd symbol_state" where
  "apply_tick L tk st = applyTrade24h L (tt_Price tk) (tt_Qty tk) (tt_TimeMs tk) st"

lemma dropWhile_sorted_filter:
  "sorted (map f xs) \<Longrightarrow> dropWhile (\<lambda>x. f x < c) xs = filter (\<lambda>x. c \<le> (f x :: int)) xs"
proof (induction xs)
  case (Cons x xs)
  then show ?case by (cases "f x < c") (auto simp: not_less intro!: filter_True [symmetric])
qed simp

lemma Max_Min_step:
  fixes a b :: "'a::linorder"
  assumes "finite S"
  shows "Max (insert a (insert b S)) = Max (insert (if a < b then b else a) S)"
    and "Min (insert a (insert b S)) = Min (insert (if b < a then b else a) S)"
  using assms by (cases "S = {}"; auto simp: max_def min_def)+

lemma tick_stats_spec:
  "tick_stats tks (h, l, v, q) =
     (Max (set (h # map tt_Price tks)), Min (set (l # map tt_Price tks)),
      v + (\<Sum>tk\<leftarrow>tks. tt_Qty tk), q + (\<Sum>tk\<leftarrow>tks. tt_Price tk * tt_Qty tk))"
proof (induction tks arbitrary: h l v q)
  case (Cons tk tks)
  show ?case
    unfolding tick_stats.simps Cons.IH list.map set_simps Max_Min_step [OF finite_set] by (simp add: add.assoc)
qed simp

text \<open>
  Trades that arrive in the order of their times, the last one at \<open>T\<close>: the trades kept are
  exactly those not older than 24 hours before \<open>T\<close>, and the ticker is theirs: the first is the
  open price, the last the last price, high and low are the maximum and minimum of their prices, and
  the two volumes the sums of their quantities and of their prices times quantities.
\<close>
theorem ticker_of_window:
  fixes tks :: "('d::linordered_idom) trade_tick list" and L :: "'d libs"
  assumes sorted: "sorted (map tt_TimeMs tks)" and ne: "tks \<noteq> []"
  defines "w \<equiv> filter (\<lambda>tk. tt_TimeMs (List.last tks) - tickerWindowMs \<le> tt_TimeMs tk) tks"
  defines "st \<equiv> fold (apply_tick L) tks new_symbol"
  shows "w \<noteq> [] \<and> sy_trades24h st = w \<and>
    sy_Ticker st =
      \<lparr> tk_LastPrice = tt_Price (List.last tks), tk_OpenPrice = tt_Price (hd w),
        tk_HighPrice = Max (tt_Price ` set w), tk_LowPrice = Min (tt_Price ` set w),
        tk_Volume = (\<Sum>tk\<leftarrow>w. tt_Qty tk), tk_QuoteVolume = (\<Sum>tk\<leftarrow>w. tt_Price tk * tt_Qty tk),
        tk_PriceChangePercent = priceChangePercent L (tt_Price (hd w)) (tt_Price (List.last tks)),
        tk_UpdatedAtMs = tt_TimeMs (List.last tks) \<rparr>"
proof -
  have kept: "sy_trades24h (fold (apply_tick L) xs new_symbol) =
      filter (\<lambda>tk. tt_TimeMs (List.last xs) - tickerWindowMs \<le> tt_TimeMs tk) xs"
    if "sorted (map tt_TimeMs xs)" for xs
    using that
  proof (induction xs rule: rev_induct)
    case Nil
    then show ?case by (simp add: new_symbol_def)
  next
    case (snoc x xs)
    let ?c = "tt_TimeMs x - tickerWindowMs"
    have le: "\<forall>y \<in> set xs. tt_TimeMs y \<le> tt_TimeMs x" and s: "sorted (map tt_TimeMs xs)"
      using snoc.prems by (auto simp: sorted_append)
    let ?k = "filter (\<lambda>tk. tt_TimeMs (List.last xs) - tickerWindowMs \<le> tt_TimeMs tk) xs"
    have "sorted (map tt_TimeMs (?k @ [x]))" using s le by (auto simp: sorted_append sorted_filter)
    then have "dropWhile (\<lambda>tk. tt_TimeMs tk < ?c) (?k @ [x]) = filter (\<lambda>tk. ?c \<le> tt_TimeMs tk) (?k @ [x])"
      by (rule dropWhile_sorted_filter)
    also have "\<dots> = filter (\<lambda>tk. ?c \<le> tt_TimeMs tk) (xs @ [x])"
    proof -
      have "tt_TimeMs (List.last xs) \<le> tt_TimeMs x" if "xs \<noteq> []" using le that by simp
      then show ?thesis by (force intro: filter_cong simp: filter_filter)
    qed
    finally have d: "dropWhile (\<lambda>tk. tt_TimeMs tk < ?c) (?k @ [x]) = filter (\<lambda>tk. ?c \<le> tt_TimeMs tk) (xs @ [x])" .
    have "\<lparr> tt_TimeMs = tt_TimeMs x, tt_Price = tt_Price x, tt_Qty = tt_Qty x \<rparr> = x" by simp
    then have "sy_trades24h (apply_tick L x st') = dropWhile (\<lambda>tk. tt_TimeMs tk < ?c) (sy_trades24h st' @ [x])" for st'
      by (simp only: apply_tick_def applyTrade24h_def Let_def) simp
    then have "sy_trades24h (fold (apply_tick L) (xs @ [x]) new_symbol) = dropWhile (\<lambda>tk. tt_TimeMs tk < ?c) (?k @ [x])"
      using snoc.IH [OF s] by simp
    then show ?case unfolding d by simp
  qed
  obtain xs x where x: "tks = xs @ [x]" using ne by (metis append_butlast_last_id)
  have w: "sy_trades24h st = w" using kept [OF sorted] by (simp add: st_def w_def)
  have wx: "w \<noteq> []" "List.last w = x" by (auto simp: w_def x tickerWindowMs_def)
  have "sy_Ticker st = recomputeTicker24h L (sy_trades24h st) (tt_TimeMs x)"
    by (simp add: st_def x apply_tick_def applyTrade24h_def Let_def)
  moreover have "recomputeTicker24h L w (tt_TimeMs x) =
      \<lparr> tk_LastPrice = tt_Price x, tk_OpenPrice = tt_Price (hd w),
        tk_HighPrice = Max (tt_Price ` set w), tk_LowPrice = Min (tt_Price ` set w),
        tk_Volume = (\<Sum>tk\<leftarrow>w. tt_Qty tk), tk_QuoteVolume = (\<Sum>tk\<leftarrow>w. tt_Price tk * tt_Qty tk),
        tk_PriceChangePercent = priceChangePercent L (tt_Price (hd w)) (tt_Price x), tk_UpdatedAtMs = tt_TimeMs x \<rparr>"
    using wx by (cases w) (simp_all add: recomputeTicker24h_def tick_stats_spec Let_def del: tick_stats.simps)
  ultimately show ?thesis using w wx(1) by (simp add: x)
qed

definition wit_tick :: "int \<Rightarrow> int \<Rightarrow> int trade_tick" where
  "wit_tick t p = \<lparr> tt_TimeMs = t, tt_Price = p, tt_Qty = 2 \<rparr>"

theorem ticker_of_window_witness:
  "tk_HighPrice (sy_Ticker (fold (apply_tick int_libs) [wit_tick 0 9, wit_tick 10 5, wit_tick 86400005 7] new_symbol)) = 7"
  using ticker_of_window [of "[wit_tick 0 9, wit_tick 10 5, wit_tick 86400005 7]" int_libs]
  by (simp add: wit_tick_def tickerWindowMs_def)

text \<open>
  A trade that arrives late stays behind a newer one and is counted although it is older than 24
  hours, and the last price becomes that of the late trade.
\<close>

lemma late_trade_counted:
  "tk_Volume (sy_Ticker (fold (apply_tick int_libs) [wit_tick 86400010 7, wit_tick 0 9, wit_tick 172800000 7] new_symbol)) = 6"
  "tk_LastPrice (sy_Ticker (fold (apply_tick int_libs) [wit_tick 86400010 7, wit_tick 0 9] new_symbol)) = 9"
  by (simp_all add: wit_tick_def tickerWindowMs_def apply_tick_def applyTrade24h_def new_symbol_def recomputeTicker24h_def)

end
