(* ===== verification/ConsumerLoop.thy ===== *)
theory ConsumerLoop
  imports Kafka
begin

text \<open>
  The loop with which the order service (\<open>internal/order/consumer/run.go\<close>) and the market data
  service (\<open>internal/marketdata/consumer/run.go\<close>) read a topic: read, process, commit, one message
  after the other. They differ in the errors they step over. The loop is a function of what the
  successive reads return and of which commits succeed.
\<close>

datatype 'm topic_read = Got 'm | ReadStopped | ReadBroken

fun consume ::
  "(err \<Rightarrow> bool) \<Rightarrow> ('m \<Rightarrow> 's \<Rightarrow> err option \<times> 's) \<Rightarrow> ('m \<Rightarrow> bool) \<Rightarrow> 'm topic_read list \<Rightarrow> 's \<Rightarrow>
     err option \<times> 'm list \<times> 's" where
  "consume skip proc commits [] s = (None, [], s)"
| "consume skip proc commits (ReadStopped # rs) s = (None, [], s)"
| "consume skip proc commits (ReadBroken # rs) s = (Some (ErrMsg ''consumer: read''), [], s)"
| "consume skip proc commits (Got m # rs) s =
     (case proc m s of
        (e, s1) \<Rightarrow>
          if e = None \<or> (\<exists>x. e = Some x \<and> skip x) then
            (if commits m then (let (r, ms, s2) = consume skip proc commits rs s1 in (r, m # ms, s2))
             else (Some (ErrMsg ''consumer: commit''), [], s1))
          else (e, [], s1))"

definition got :: "'m topic_read list \<Rightarrow> 'm list" where
  "got rs = List.map_filter (\<lambda>r. case r of Got m \<Rightarrow> Some m | _ \<Rightarrow> None) rs"

lemma got_simps [simp]:
  "got [] = []" "got (Got m # rs) = m # got rs" "got (ReadStopped # rs) = got rs" "got (ReadBroken # rs) = got rs"
  by (simp_all add: got_def List.map_filter_simps)

definition process_all :: "('m \<Rightarrow> 's \<Rightarrow> err option \<times> 's) \<Rightarrow> 'm list \<Rightarrow> 's \<Rightarrow> 's" where
  "process_all proc ms s = fold (\<lambda>m s. snd (proc m s)) ms s"

lemma process_all_simps [simp]:
  "process_all proc [] s = s"
  "process_all proc (m # ms) s = process_all proc ms (snd (proc m s))"
  by (simp_all add: process_all_def)

text \<open>
  Every offset committed belongs to a message that was processed, in the order of the topic and with
  none left out; at most one message more was processed than committed, and if the loop ends without
  an error all it processed is committed.
\<close>

lemma consume_prefix:
  "consume skip proc commits rs s = (e, ms, s') \<Longrightarrow>
     \<exists>rest. got rs = ms @ rest \<and>
       (s' = process_all proc ms s \<or> e \<noteq> None \<and> rest \<noteq> [] \<and> s' = process_all proc (ms @ [hd rest]) s)"
proof (induction skip proc commits rs s arbitrary: e ms s' rule: consume.induct)
  case (4 skip proc commits m rs s)
  obtain x s1 where p: "proc m s = (x, s1)" by (metis surj_pair)
  show ?case
  proof (cases "(x = None \<or> (\<exists>y. x = Some y \<and> skip y)) \<and> commits m")
    case True
    obtain r ms1 s2 where c: "consume skip proc commits rs s1 = (r, ms1, s2)" by (metis prod_cases3)
    from 4(1) [OF p [symmetric] conjunct1 [OF True] conjunct2 [OF True] c] True 4(2) p c
    show ?thesis by auto
  next
    case False
    with 4(2) p show ?thesis by (auto split: if_splits)
  qed
qed (simp_all add: got_def List.map_filter_simps)

end
