(* ===== verification/RedisClient.thy ===== *)
theory RedisClient
  imports Prelude
begin

text \<open>
  Model of \<open>pkg/redis/client.go\<close> with the server behind it, as far as the services use it: string
  keys, lists, and the messages published so far per channel. The type of values is a parameter.
  \<open>rc_calls\<close> gives the outcome of the successive calls: answered, failed before anything happened,
  or done with the answer lost. Expiry is left out: a key with a time to live stays.
\<close>

datatype redis_outcome = Answered | NotDone | AnswerLost

record 'v redis =
  rc_keys :: "string \<Rightarrow> 'v option"
  rc_lists :: "string \<Rightarrow> 'v list"
  rc_published :: "(string \<times> 'v) list"
  rc_calls :: "nat \<Rightarrow> redis_outcome"
  rc_pos :: nat

definition rc_call :: "string \<Rightarrow> ('v redis \<Rightarrow> 'a \<times> 'v redis) \<Rightarrow> 'v redis \<Rightarrow> (err + 'a) \<times> 'v redis" where
  "rc_call what f r =
     (let r1 = r\<lparr>rc_pos := Suc (rc_pos r)\<rparr>
      in case rc_calls r (rc_pos r) of
           Answered \<Rightarrow> (let (a, r2) = f r1 in (Inr a, r2))
         | NotDone \<Rightarrow> (Inl (ErrMsg what), r1)
         | AnswerLost \<Rightarrow> (Inl (ErrMsg what), snd (f r1)))"

definition error_of :: "(err + 'a) \<times> 's \<Rightarrow> err option \<times> 's" where
  "error_of x = (case x of (Inl e, s) \<Rightarrow> (Some e, s) | (Inr _, s) \<Rightarrow> (None, s))"

definition rc_Get :: "string \<Rightarrow> 'v redis \<Rightarrow> (err + 'v) \<times> 'v redis" where
  "rc_Get k r =
     (case rc_call ''redis: get'' (\<lambda>s. (rc_keys s k, s)) r of
        (Inl e, r1) \<Rightarrow> (Inl e, r1)
      | (Inr None, r1) \<Rightarrow> (Inl ErrNotFound, r1)
      | (Inr (Some v), r1) \<Rightarrow> (Inr v, r1))"

definition rc_Set :: "string \<Rightarrow> 'v \<Rightarrow> 'v redis \<Rightarrow> err option \<times> 'v redis" where
  "rc_Set k v r = error_of (rc_call ''redis: set'' (\<lambda>s. ((), s\<lparr>rc_keys := (rc_keys s)(k \<mapsto> v)\<rparr>)) r)"

definition rc_Del :: "string \<Rightarrow> 'v redis \<Rightarrow> err option \<times> 'v redis" where
  "rc_Del k r = error_of (rc_call ''redis: del'' (\<lambda>s. ((), s\<lparr>rc_keys := (rc_keys s)(k := None)\<rparr>)) r)"

definition rc_LPush :: "string \<Rightarrow> 'v \<Rightarrow> 'v redis \<Rightarrow> err option \<times> 'v redis" where
  "rc_LPush k v r = error_of (rc_call ''redis: lpush'' (\<lambda>s. ((), s\<lparr>rc_lists := (rc_lists s)(k := v # rc_lists s k)\<rparr>)) r)"

text \<open>\<open>RPop\<close> of an empty list is no error.\<close>

definition rc_RPop :: "string \<Rightarrow> 'v redis \<Rightarrow> (err + 'v option) \<times> 'v redis" where
  "rc_RPop k r =
     rc_call ''redis: rpop''
       (\<lambda>s. if rc_lists s k = [] then (None, s)
            else (Some (List.last (rc_lists s k)), s\<lparr>rc_lists := (rc_lists s)(k := butlast (rc_lists s k))\<rparr>)) r"

definition rc_LLen :: "string \<Rightarrow> 'v redis \<Rightarrow> (err + nat) \<times> 'v redis" where
  "rc_LLen k r = rc_call ''redis: llen'' (\<lambda>s. (length (rc_lists s k), s)) r"

definition rc_Publish :: "string \<Rightarrow> 'v \<Rightarrow> 'v redis \<Rightarrow> err option \<times> 'v redis" where
  "rc_Publish ch v r = error_of (rc_call ''redis: publish'' (\<lambda>s. ((), s\<lparr>rc_published := rc_published s @ [(ch, v)]\<rparr>)) r)"

lemmas rc_op_defs = rc_Get_def rc_Set_def rc_Del_def rc_LPush_def rc_RPop_def rc_LLen_def rc_Publish_def rc_call_def error_of_def Let_def

text \<open>What each call leaves alone.\<close>

lemma rc_Set_frame:
  "rc_Set k v r = (e, r') \<Longrightarrow> rc_published r' = rc_published r \<and> rc_lists r' = rc_lists r \<and> rc_calls r' = rc_calls r"
  by (auto simp: rc_op_defs split: redis_outcome.splits)

lemma rc_Set_ok: "rc_calls r (rc_pos r) = Answered \<Longrightarrow> fst (rc_Set k v r) = None"
  by (simp add: rc_op_defs)

lemma rc_Del_frame:
  "rc_Del k r = (e, r') \<Longrightarrow> rc_published r' = rc_published r \<and> rc_lists r' = rc_lists r \<and> rc_calls r' = rc_calls r"
  by (auto simp: rc_op_defs split: redis_outcome.splits)

lemma rc_Publish_frame:
  "rc_Publish ch v r = (e, r') \<Longrightarrow> rc_keys r' = rc_keys r \<and> rc_lists r' = rc_lists r \<and> rc_calls r' = rc_calls r"
  by (auto simp: rc_op_defs split: redis_outcome.splits)

lemma rc_Publish_log:
  assumes "rc_Publish ch v r = (e, r')" "rc_calls r (rc_pos r) \<noteq> AnswerLost"
  shows "rc_published r' = (if e = None then rc_published r @ [(ch, v)] else rc_published r)"
    and "e = None \<longleftrightarrow> rc_calls r (rc_pos r) = Answered"
  using assms by (auto simp: rc_op_defs split: redis_outcome.splits)

end
