(* ===== verification/MarketConsumer.thy ===== *)
theory MarketConsumer
  imports MarketDepth ConsumerLoop RedisClient
begin

text \<open>
  Model of \<open>internal/marketdata/consumer\<close> (\<open>match_handler.go\<close>, \<open>trade_handler.go\<close>),
  \<open>internal/marketdata/publisher\<close> and \<open>pkg/tradeevent/parse.go\<close>: the events of the matching engine
  applied to the store, and what goes to Redis. The protobuf coding is the parameter of theory
  \<open>MatchEvents\<close>; a JSON payload is the record that is encoded. Metrics are left out.
\<close>

section \<open>Order events\<close>

definition market_sideToString :: "int \<Rightarrow> string" where
  "market_sideToString s =
     (if s = Side_SIDE_BUY then ''BUY'' else if s = Side_SIDE_SELL then ''SELL'' else ''UNKNOWN'')"

definition market_applyAccepted ::
  "('d::linordered_idom) libs \<Rightarrow> match_event \<Rightarrow> 'd market_store \<Rightarrow> err option \<times> 'd market_store" where
  "market_applyAccepted L ev ms =
     (case mv_Order ev of
        None \<Rightarrow> (None, ms)
      | Some od \<Rightarrow>
          if p_Type od = OrderType_MARKET then (None, ms)
          else (let rm = (if p_Remaining od = None \<and> p_Quantity od \<noteq> None then p_Quantity od else p_Remaining od)
                in if p_Price od = None \<or> rm = None then (Some ErrSkipMatchEvent, ms)
                   else ApplyOrderBookAccepted L (mv_Symbol ev) (mv_OrderId ev) (market_sideToString (p_Side od))
                          (GetValue (p_Price od)) (GetValue rm) ms))"

definition market_applyPartial ::
  "('d::linordered_idom) libs \<Rightarrow> match_event \<Rightarrow> 'd market_store \<Rightarrow> err option \<times> 'd market_store" where
  "market_applyPartial L ev ms =
     (case mv_Order ev of
        None \<Rightarrow> (None, ms)
      | Some od \<Rightarrow>
          if p_Remaining od = None then (None, ms)
          else ApplyOrderBookRemaining L (mv_Symbol ev) (mv_OrderId ev) (GetValue (p_Remaining od)) ms)"

definition market_event ::
  "('d::linordered_idom) libs \<Rightarrow> match_event \<Rightarrow> 'd market_store \<Rightarrow> err option \<times> 'd market_store" where
  "market_event L ev ms =
     (if mv_OrderId ev = 0 then (Some (ErrMsg ''match handler: order_id is required''), ms)
      else if mv_Symbol ev = [] then (Some (ErrMsg ''match handler: symbol is required''), ms)
      else if mv_EventType ev = ORDER_ACCEPTED then market_applyAccepted L ev ms
      else if mv_EventType ev = ORDER_PARTIAL_FILLED then market_applyPartial L ev ms
      else if mv_EventType ev = ORDER_FILLED \<or> mv_EventType ev = ORDER_CANCELED then
        ApplyOrderBookRemove L (mv_Symbol ev) (mv_OrderId ev) ms
      else (None, ms))"

definition market_match_Process ::
  "('d::linordered_idom) libs \<Rightarrow> event_codec \<Rightarrow> message \<Rightarrow> 'd market_store \<Rightarrow> err option \<times> 'd market_store" where
  "market_match_Process L K msg ms =
     (case UnmarshalMatchEvent K (ms_value msg) of
        None \<Rightarrow> (Some (ErrMsg ''match handler: decode''), ms)
      | Some ev \<Rightarrow> market_event L ev ms)"

section \<open>Redis\<close>

record ticker_json =
  tj_Symbol :: string
  tj_LastPrice :: string
  tj_OpenPrice :: string
  tj_HighPrice :: string
  tj_LowPrice :: string
  tj_Volume :: string
  tj_QuoteVolume :: string
  tj_PriceChangePercent :: string
  tj_TimestampMs :: int

record depth_json =
  dj_Type :: string
  dj_Symbol :: string
  dj_LastUpdateID :: uint64
  dj_Bids :: "string list list"
  dj_Asks :: "string list list"
  dj_TimestampMs :: int

record trade_json =
  xj_TradeID :: string
  xj_Symbol :: string
  xj_Price :: string
  xj_Quantity :: string
  xj_MakerOrderID :: string
  xj_TakerOrderID :: string
  xj_TimestampMs :: int

record ticker_all_json =
  aj_SnapshotID :: string
  aj_SnapshotTime :: int
  aj_Count :: nat
  aj_Items :: "ticker_json list"

datatype payload =
    TickerPayload ticker_json
  | DepthPayload depth_json
  | TradePayloadJSON trade_json
  | TickerAllPayload ticker_all_json
  | FramePayload bytes

type_synonym redis_state = "payload redis"

definition ticker_json_of ::
  "('d::zero) libs \<Rightarrow> (int \<Rightarrow> 'd \<Rightarrow> string) \<Rightarrow> string \<Rightarrow> 'd ticker_state \<Rightarrow> ticker_json" where
  "ticker_json_of L stringFixed s t =
     \<lparr> tj_Symbol = s, tj_LastPrice = FormatDecimal L (tk_LastPrice t), tj_OpenPrice = FormatDecimal L (tk_OpenPrice t),
       tj_HighPrice = FormatDecimal L (tk_HighPrice t), tj_LowPrice = FormatDecimal L (tk_LowPrice t),
       tj_Volume = FormatDecimal L (tk_Volume t), tj_QuoteVolume = FormatDecimal L (tk_QuoteVolume t),
       tj_PriceChangePercent = FormatPercent stringFixed (tk_PriceChangePercent t), tj_TimestampMs = tk_UpdatedAtMs t \<rparr>"

definition PublishTicker ::
  "('d::zero) libs \<Rightarrow> (int \<Rightarrow> 'd \<Rightarrow> string) \<Rightarrow> string \<Rightarrow> 'd ticker_state \<Rightarrow> redis_state \<Rightarrow> err option \<times> redis_state" where
  "PublishTicker L stringFixed s t r =
     (if s = [] then (Some (ErrMsg ''redis publisher: symbol is required''), r)
      else (let payload = TickerPayload (ticker_json_of L stringFixed s t)
            in case rc_Set (''ticker:'' @ s) payload r of
                 (Some e, r1) \<Rightarrow> (Some e, r1)
               | (None, r1) \<Rightarrow> (None, snd (rc_Publish (''ticker:'' @ s) payload r1))))"

definition TradePayload ::
  "uint64 \<Rightarrow> string \<Rightarrow> string \<Rightarrow> string \<Rightarrow> uint64 \<Rightarrow> uint64 \<Rightarrow> int \<Rightarrow> trade_json" where
  "TradePayload tradeID s price qty makerOrderID takerOrderID ts =
     \<lparr> xj_TradeID = show_nat (unat tradeID), xj_Symbol = s, xj_Price = price, xj_Quantity = qty,
       xj_MakerOrderID = show_nat (unat makerOrderID), xj_TakerOrderID = show_nat (unat takerOrderID), xj_TimestampMs = ts \<rparr>"

definition PublishTrade :: "trade_json \<Rightarrow> redis_state \<Rightarrow> err option \<times> redis_state" where
  "PublishTrade tr r =
     (if xj_Symbol tr = [] then (Some (ErrMsg ''redis publisher: symbol is required''), r)
      else rc_Publish (''trade:'' @ xj_Symbol tr) (TradePayloadJSON tr) r)"

definition levelsToJSON :: "price_level list \<Rightarrow> string list list" where
  "levelsToJSON lvs = map (\<lambda>lv. [pl_Price lv, pl_Quantity lv]) lvs"

definition PublishDepth :: "book_snapshot \<Rightarrow> redis_state \<Rightarrow> err option \<times> redis_state" where
  "PublishDepth snap r =
     (if ob_Symbol snap = [] then (Some (ErrMsg ''redis publisher: symbol is required''), r)
      else (let payload = DepthPayload
                  \<lparr> dj_Type = ''snapshot'', dj_Symbol = ob_Symbol snap, dj_LastUpdateID = ob_LastUpdateID snap,
                    dj_Bids = levelsToJSON (ob_Bids snap), dj_Asks = levelsToJSON (ob_Asks snap),
                    dj_TimestampMs = ob_UpdatedAtMs snap \<rparr>
            in case rc_Set (''depth:'' @ ob_Symbol snap) payload r of
                 (Some e, r1) \<Rightarrow> (Some e, r1)
               | (None, r1) \<Rightarrow> (None, snd (rc_Publish (''depth:'' @ ob_Symbol snap) payload r1))))"

definition PublishDepthDelta ::
  "string \<Rightarrow> uint64 \<Rightarrow> price_level list \<Rightarrow> price_level list \<Rightarrow> int \<Rightarrow> redis_state \<Rightarrow> err option \<times> redis_state" where
  "PublishDepthDelta s lastUpdateID bidLevels askLevels ts r =
     rc_Publish (''depth:'' @ s)
       (DepthPayload \<lparr> dj_Type = ''delta'', dj_Symbol = s, dj_LastUpdateID = lastUpdateID, dj_Bids = levelsToJSON bidLevels,
                       dj_Asks = levelsToJSON askLevels, dj_TimestampMs = ts \<rparr>) r"

definition tickerAllRedisKey :: "string \<Rightarrow> string" where
  "tickerAllRedisKey quoteAsset =
     (let q = trim_space quoteAsset in if q = [] then ''ticker:all:ALL'' else ''ticker:all:'' @ q)"

definition marshalTickerAllREST ::
  "('d::zero) libs \<Rightarrow> (int \<Rightarrow> 'd \<Rightarrow> string) \<Rightarrow> 'd ticker_all_snapshot \<Rightarrow> ticker_all_json" where
  "marshalTickerAllREST L stringFixed snap =
     \<lparr> aj_SnapshotID = ta_SnapshotID snap, aj_SnapshotTime = ta_SnapshotTime snap, aj_Count = ta_Count snap,
       aj_Items = map (\<lambda>it. ticker_json_of L stringFixed (tn_Symbol it) (tn_TickerState it)) (ta_Items snap) \<rparr>"

definition SetTickerAllREST ::
  "('d::zero) libs \<Rightarrow> (int \<Rightarrow> 'd \<Rightarrow> string) \<Rightarrow> 'd ticker_all_snapshot \<Rightarrow> redis_state \<Rightarrow> err option \<times> redis_state" where
  "SetTickerAllREST L stringFixed snap r =
     rc_Set (tickerAllRedisKey (ta_QuoteAsset snap)) (TickerAllPayload (marshalTickerAllREST L stringFixed snap)) r"

definition PublishTickerAllWS :: "string \<Rightarrow> bytes \<Rightarrow> redis_state \<Rightarrow> err option \<times> redis_state" where
  "PublishTickerAllWS channel payload r =
     (if channel = [] then (Some (ErrMsg ''redis publisher: channel is required''), r)
      else rc_Publish channel (FramePayload payload) r)"

section \<open>Trade events\<close>

record parsed_trade =
  pr_TradeID :: uint64
  pr_Symbol :: string
  pr_Price :: string
  pr_Quantity :: string
  pr_MakerOrderID :: uint64
  pr_TakerOrderID :: uint64
  pr_TradeTimeMs :: int

definition unix_milli :: "time \<Rightarrow> int" where
  "unix_milli t = unix_nano t div 1000000"

definition ParseKafkaMessage ::
  "'d libs \<Rightarrow> event_codec \<Rightarrow> message \<Rightarrow> clock \<Rightarrow> (err + parsed_trade) \<times> clock" where
  "ParseKafkaMessage L K msg clk =
     (case UnmarshalTradeEvent K (ms_value msg) of
        None \<Rightarrow> (Inl (ErrMsg ''decode trade event''), clk)
      | Some ev \<Rightarrow>
     (case tv_Trade ev of
        None \<Rightarrow> (Inl (ErrMsg ''trade_id is required''), clk)
      | Some tr \<Rightarrow>
          if pt_TradeId tr = 0 then (Inl (ErrMsg ''trade_id is required''), clk)
          else if pt_Price tr = None \<or> pt_Quantity tr = None then (Inl (ErrMsg ''price and quantity are required''), clk)
          else if pt_Symbol tr = [] then (Inl (ErrMsg ''symbol is required''), clk)
          else (let (t, clk1) = now clk;
                    ms = (if pt_CreateTime tr = None then unix_milli t else unix_milli (ts_as_time L (pt_CreateTime tr)))
                in (Inr \<lparr> pr_TradeID = pt_TradeId tr, pr_Symbol = pt_Symbol tr, pr_Price = GetValue (pt_Price tr),
                          pr_Quantity = GetValue (pt_Quantity tr), pr_MakerOrderID = pt_MakerOrderId tr,
                          pr_TakerOrderID = pt_TakerOrderId tr, pr_TradeTimeMs = ms \<rparr>, clk1))))"

type_synonym 'd market_state = "'d market_store \<times> redis_state \<times> clock"

definition market_trade_Process ::
  "('d::linordered_idom) libs \<Rightarrow> (int \<Rightarrow> 'd \<Rightarrow> string) \<Rightarrow> event_codec \<Rightarrow> message \<Rightarrow> 'd market_state \<Rightarrow> err option \<times> 'd market_state" where
  "market_trade_Process L stringFixed K msg st =
     (case st of (ms, r, clk) \<Rightarrow>
      (case ParseKafkaMessage L K msg clk of
         (Inl e, clk1) \<Rightarrow> (Some e, ms, r, clk1)
       | (Inr tr, clk1) \<Rightarrow>
      (case ApplyTrade L (pr_Symbol tr) (pr_Price tr) (pr_Quantity tr) (pr_TradeTimeMs tr) ms of
         (Some e, ms1) \<Rightarrow> (Some e, ms1, r, clk1)
       | (None, ms1) \<Rightarrow>
      (case SnapshotTicker (pr_Symbol tr) ms1 of
         None \<Rightarrow> (None, ms1, r, clk1)
       | Some snap \<Rightarrow>
      (case PublishTicker L stringFixed (pr_Symbol tr) snap r of
         (Some e, r1) \<Rightarrow> (Some e, ms1, r1, clk1)
       | (None, r1) \<Rightarrow>
           (let (e, r2) = PublishTrade (TradePayload (pr_TradeID tr) (pr_Symbol tr) (pr_Price tr) (pr_Quantity tr)
                  (pr_MakerOrderID tr) (pr_TakerOrderID tr) (pr_TradeTimeMs tr)) r1
            in (e, ms1, r2, clk1)))))))"

text \<open>The loop of \<open>run.go\<close> on the match topic.\<close>

definition market_Run ::
  "('d::linordered_idom) libs \<Rightarrow> event_codec \<Rightarrow> (message \<Rightarrow> bool) \<Rightarrow> message topic_read list \<Rightarrow> 'd market_store \<Rightarrow>
     err option \<times> message list \<times> 'd market_store" where
  "market_Run L K commits rs ms = consume (\<lambda>e. e = ErrSkipMatchEvent) (market_match_Process L K) commits rs ms"

end
