(* ===== verification/MarketMirror.thy ===== *)
theory MarketMirror
  imports MarketConsumer
begin

text \<open>
  The mirror of the market data service against the book of the matching engine: both sides of the
  topic \<open>match.events\<close> put together. The events of a new order (theory \<open>MatchEvents\<close>) are applied
  to a mirror of the book before the match.
\<close>

section \<open>Applying events\<close>

fun market_events ::
  "('d::linordered_idom) libs \<Rightarrow> match_event list \<Rightarrow> 'd market_store \<Rightarrow> err option \<times> 'd market_store" where
  "market_events L [] ms = (None, ms)"
| "market_events L (ev # evs) ms =
     (case market_event L ev ms of (Some e, ms1) \<Rightarrow> (Some e, ms1) | (None, ms1) \<Rightarrow> market_events L evs ms1)"

lemma market_events_append:
  "market_events L evs ms = (None, ms1) \<Longrightarrow> market_events L (evs @ evs') ms = market_events L evs' ms1"
  by (induction evs arbitrary: ms) (auto split: prod.splits option.splits)

definition orders_at :: "('d::zero) market_store \<Rightarrow> string \<Rightarrow> book_side \<Rightarrow> uint64 \<Rightarrow> 'd order_entry option" where
  "orders_at ms s w =
     (let ob = sy_OrderBook (fst (getOrCreate s ms))
      in case w of Bids \<Rightarrow> bs_Orders (bm_Bids ob) | Asks \<Rightarrow> bs_Orders (bm_Asks ob))"

definition side_text :: "book_side \<Rightarrow> string" where
  "side_text w = (case w of Bids \<Rightarrow> ''BUY'' | Asks \<Rightarrow> ''SELL'')"

lemma getOrCreate_put [simp]:
  "fst (getOrCreate s (put_book s st ob ms)) = st\<lparr>sy_OrderBook := ob\<rparr>"
  by (simp add: getOrCreate_def put_book_def update_conv')

lemma getOrCreate_again [simp]:
  "fst (getOrCreate s (snd (getOrCreate s ms))) = fst (getOrCreate s ms)"
  by (simp add: getOrCreate_def update_conv' split: option.splits)

lemma accepted_effect:
  assumes "s \<noteq> []" "i \<noteq> 0" "dec_of_string L p = Some price" "dec_of_string L q = Some r" "0 \<le> r"
    and a: "ApplyOrderBookAccepted L s i (side_text w) p q ms = (e, ms')"
  shows "e = None" and "orders_at ms' s v = (if v = w then (orders_at ms s v)(i \<mapsto> \<lparr> en_Side = side_text w, en_Price = price, en_Remaining = r \<rparr>)
      else orders_at ms s v)"
  using assms
  by (auto simp: ApplyOrderBookAccepted_def parseDecimal_def Let_def split_beta side_text_def orders_at_def bump_def applyUpsert_def
      split: book_side.splits)

lemma remove_effect:
  assumes "s \<noteq> []" "i \<noteq> 0" and r: "ApplyOrderBookRemove L s i ms = (e, ms')"
    and one: "orders_at ms s Bids i = None \<or> orders_at ms s Asks i = None"
  shows "e = None" and "orders_at ms' s v = (orders_at ms s v)(i := None)"
  using assms
  by (auto simp: ApplyOrderBookRemove_def Let_def split_beta orders_at_def bump_def applyRemove_def fun_eq_iff
      split: book_side.splits option.splits if_splits)

lemma remaining_effect:
  assumes "s \<noteq> []" "i \<noteq> 0" "dec_of_string L q = Some r" "0 \<le> r" and a: "ApplyOrderBookRemaining L s i q ms = (e, ms')"
    and one: "orders_at ms s Bids i = None \<or> orders_at ms s Asks i = None"
  shows "e = None" and "orders_at ms' s v =
      (orders_at ms s v)(i := map_option (\<lambda>en. en\<lparr>en_Remaining := r\<rparr>) (orders_at ms s v i))"
  using assms
  by (auto simp: ApplyOrderBookRemaining_def parseDecimal_def Let_def split_beta orders_at_def bump_def applyRemaining_def fun_eq_iff
      split: book_side.splits option.splits if_splits)


section \<open>The mirror relation\<close>

text \<open>
  \<open>mirrors S ms s om\<close>: the mirror of pair \<open>s\<close> in the store holds exactly the orders of the index
  \<open>om\<close>, each on its side and with its price; the quantity shown is what is left of the order, except
  for the orders in \<open>S\<close>, where it may be more.
\<close>

definition shows_order :: "bool \<Rightarrow> book_side \<Rightarrow> ('d::linordered_idom) order option \<Rightarrow> 'd order_entry option \<Rightarrow> bool" where
  "shows_order exact w x e =
     (case x of
        None \<Rightarrow> e = None
      | Some y \<Rightarrow>
          if getSiteBook (o_Side y) = w then
            (case e of
               None \<Rightarrow> False
             | Some en \<Rightarrow> en_Side en = side_text w \<and> en_Price en = o_Price y \<and> o_Remaining y \<le> en_Remaining en \<and>
                 (exact \<longrightarrow> en_Remaining en = o_Remaining y))
          else e = None)"

definition mirrors ::
  "uint64 set \<Rightarrow> ('d::linordered_idom) market_store \<Rightarrow> string \<Rightarrow> (uint64 \<Rightarrow> 'd order option) \<Rightarrow> bool" where
  "mirrors S ms s om \<longleftrightarrow> om 0 = None \<and> (\<forall>i w. shows_order (i \<notin> S) w (om i) (orders_at ms s w i))"

lemma mirrorsD: "mirrors S ms s om \<Longrightarrow> shows_order (i \<notin> S) w (om i) (orders_at ms s w i)"
  by (simp add: mirrors_def)

lemma mirrors_one_side:
  assumes "mirrors S ms s om"
  shows "orders_at ms s Bids i = None \<or> orders_at ms s Asks i = None"
  using mirrorsD [OF assms, of i Bids] mirrorsD [OF assms, of i Asks] by (auto simp: shows_order_def split: option.splits if_splits)

lemma mirrors_absent: "mirrors S ms s om \<Longrightarrow> om i = None \<Longrightarrow> orders_at ms s w i = None"
  using mirrorsD [of S ms s om i w] by (simp add: shows_order_def)

lemma mirrors_change:
  assumes "mirrors S ms s om" "i \<noteq> 0" and "\<And>j v. j \<noteq> i \<Longrightarrow> orders_at ms' s v j = orders_at ms s v j"
    and "\<And>v. shows_order True v x (orders_at ms' s v i)"
  shows "mirrors (S - {i}) ms' s (om(i := x))"
  unfolding mirrors_def
proof (intro conjI allI)
  show "(om(i := x)) 0 = None" using assms(1,2) by (simp add: mirrors_def)
  show "shows_order (j \<notin> S - {i}) w ((om(i := x)) j) (orders_at ms' s w j)" for j w
    using assms(3) [of j w] assms(4) [of w] mirrorsD [OF assms(1), of j w] by (cases "j = i") simp_all
qed

lemma mirrors_accepted:
  assumes "mirrors S ms s om" "s \<noteq> []" "i \<noteq> 0" "om i = None" "dec_of_string L p = Some (o_Price x)"
    "dec_of_string L q = Some (o_Remaining x)" "0 \<le> o_Remaining x"
    and a: "ApplyOrderBookAccepted L s i (side_text (getSiteBook (o_Side x))) p q ms = (e, ms')"
  shows "e = None \<and> mirrors (S - {i}) ms' s (om(i \<mapsto> x))"
proof -
  note f = accepted_effect [OF assms(2,3,5,6,7) a]
  have "mirrors (S - {i}) ms' s (om(i \<mapsto> x))"
    using mirrors_absent [OF assms(1,4)]
    by (intro mirrors_change [OF assms(1,3)]) (auto simp: f(2) shows_order_def)
  with f(1) show ?thesis by simp
qed

lemma mirrors_removed:
  assumes "mirrors S ms s om" "s \<noteq> []" "i \<noteq> 0" and a: "ApplyOrderBookRemove L s i ms = (e, ms')"
  shows "e = None \<and> mirrors (S - {i}) ms' s (om(i := None))"
proof -
  note f = remove_effect [OF assms(2,3) a mirrors_one_side [OF assms(1)]]
  have "mirrors (S - {i}) ms' s (om(i := None))"
    by (intro mirrors_change [OF assms(1,3)]) (auto simp: f(2) shows_order_def)
  with f(1) show ?thesis by simp
qed

lemma mirrors_remaining:
  assumes "mirrors S ms s om" "s \<noteq> []" "om i = Some x" "dec_of_string L q = Some r" "0 \<le> r"
    and a: "ApplyOrderBookRemaining L s i q ms = (e, ms')"
  shows "e = None \<and> mirrors (S - {i}) ms' s (om(i \<mapsto> x\<lparr>o_Remaining := r\<rparr>))"
proof -
  have i: "i \<noteq> 0" using assms(1,3) by (auto simp: mirrors_def)
  note f = remaining_effect [OF assms(2) i assms(4,5) a mirrors_one_side [OF assms(1)]]
  have "mirrors (S - {i}) ms' s (om(i \<mapsto> x\<lparr>o_Remaining := r\<rparr>))"
  proof (rule mirrors_change [OF assms(1) i])
    show "shows_order True v (Some (x\<lparr>o_Remaining := r\<rparr>)) (orders_at ms' s v i)" for v
      using mirrorsD [OF assms(1), of i v] assms(3) by (auto simp: f(2) shows_order_def split: option.splits if_splits)
  qed (simp add: f(2))
  with f(1) show ?thesis by simp
qed

text \<open>Only side, price and remainder of an order matter, and more orders may be overstated.\<close>

lemma mirrors_weaken:
  assumes "mirrors S ms s om" and "om' 0 = None"
    and "\<And>i. i \<noteq> 0 \<Longrightarrow> rel_option (\<lambda>x y. o_Side x = o_Side y \<and> o_Price x = o_Price y \<and>
        (if i \<in> S' then o_Remaining y \<le> o_Remaining x else i \<notin> S \<and> o_Remaining y = o_Remaining x)) (om i) (om' i)"
  shows "mirrors S' ms s om'"
  unfolding mirrors_def
proof (intro conjI allI)
  show "om' 0 = None" by fact
  fix i w
  have m: "shows_order (i \<notin> S) w (om i) (orders_at ms s w i)" "om 0 = None" using assms(1) by (auto simp: mirrors_def)
  show "shows_order (i \<notin> S') w (om' i) (orders_at ms s w i)"
  proof (cases "i = 0")
    case True
    with m assms(2) show ?thesis by (simp add: shows_order_def)
  next
    case False
    from assms(3) [OF this] m(1) show ?thesis
      by (cases "om i"; cases "om' i") (auto simp: shows_order_def split: option.splits if_splits)
  qed
qed

section \<open>The events of the makers\<close>

lemma maker_event_mirrored:
  assumes c: "codec_ok L" and mi: "mirrors S ms s om" and s: "s \<noteq> []" and told: "maker_told L b tr ev" and sy: "mv_Symbol ev = s"
    and o: "orderMap b (t_MakerOrderID tr) = Some m" "om (t_MakerOrderID tr) = Some m" and le: "t_Quantity tr \<le> o_Remaining m"
    and a: "market_event L ev ms = (e, ms')"
  shows "e = None \<and> mirrors (S - {t_MakerOrderID tr}) ms' s (om(t_MakerOrderID tr :=
      (if t_Quantity tr = o_Remaining m then None else Some (m\<lparr>o_Remaining := o_Remaining m - t_Quantity tr\<rparr>))))"
proof -
  have i: "mv_OrderId ev = t_MakerOrderID tr" and n: "t_MakerOrderID tr \<noteq> 0"
    using told o(2) mi by (auto simp: maker_told_def mirrors_def)
  show ?thesis
  proof (cases "t_Quantity tr = o_Remaining m")
    case True
    then have "mv_EventType ev = ORDER_FILLED" using told o(1) by (simp add: maker_told_def FindOrder_def)
    then have "ApplyOrderBookRemove L s (t_MakerOrderID tr) ms = (e, ms')"
      using a i n s sy by (simp add: market_event_def event_type_defs)
    from mirrors_removed [OF mi s n this] True show ?thesis by simp
  next
    case False
    then obtain pb where pb: "mv_EventType ev = ORDER_PARTIAL_FILLED" "mv_Order ev = Some pb"
      "p_Remaining pb = Some (dec_to_string L (o_Remaining m - t_Quantity tr))"
      using told o(1) by (auto simp: maker_told_def FindOrder_def)
    then have "ApplyOrderBookRemaining L s (t_MakerOrderID tr) (dec_to_string L (o_Remaining m - t_Quantity tr)) ms = (e, ms')"
      using a i n s sy by (simp add: market_event_def event_type_defs market_applyPartial_def GetValue_def)
    from mirrors_remaining [OF mi s o(2) codec_okD(1) [OF c] _ this] le False show ?thesis by simp
  qed
qed

definition after_trade :: "('d::linordered_idom) trade list \<Rightarrow> (uint64 \<Rightarrow> 'd order option) \<Rightarrow> uint64 \<Rightarrow> 'd order option" where
  "after_trade trs om i =
     (case find (\<lambda>tr. t_MakerOrderID tr = i) trs of
        None \<Rightarrow> om i
      | Some tr \<Rightarrow>
          (case om i of
             None \<Rightarrow> None
           | Some m \<Rightarrow> if t_Quantity tr = o_Remaining m then None else Some (m\<lparr>o_Remaining := o_Remaining m - t_Quantity tr\<rparr>)))"

lemma after_trade_other: "i \<notin> t_MakerOrderID ` set trs \<Longrightarrow> after_trade trs om i = om i"
proof -
  assume "i \<notin> t_MakerOrderID ` set trs"
  then have "find (\<lambda>tr. t_MakerOrderID tr = i) trs = None" by (force simp: find_None_iff image_iff)
  then show ?thesis by (simp add: after_trade_def)
qed

lemma after_trade_maker:
  assumes "distinct (map t_MakerOrderID trs)" "tr \<in> set trs" "om (t_MakerOrderID tr) = Some m"
  shows "after_trade trs om (t_MakerOrderID tr) =
    (if t_Quantity tr = o_Remaining m then None else Some (m\<lparr>o_Remaining := o_Remaining m - t_Quantity tr\<rparr>))"
proof -
  have "find (\<lambda>x. t_MakerOrderID x = t_MakerOrderID tr) trs = Some tr"
    using assms(1,2) by (induction trs) (auto simp: image_iff)
  then show ?thesis using assms(3) by (simp add: after_trade_def)
qed

lemma after_trade_cong:
  assumes "om i = om' i"
  shows "after_trade trs om i = after_trade trs om' i"
  unfolding after_trade_def assms ..

lemma after_trade_Cons: "t_MakerOrderID tr \<noteq> i \<Longrightarrow> after_trade (tr # trs) om i = after_trade trs om i"
  by (simp add: after_trade_def)

lemma maker_events_mirrored:
  assumes c: "codec_ok L" and s: "s \<noteq> []"
  shows "mirrors S ms s om \<Longrightarrow> list_all2 (maker_told L b) trs fills \<Longrightarrow> \<forall>ev \<in> set fills. mv_Symbol ev = s \<Longrightarrow>
    distinct (map t_MakerOrderID trs) \<Longrightarrow>
    \<forall>tr \<in> set trs. \<exists>m. orderMap b (t_MakerOrderID tr) = Some m \<and> om (t_MakerOrderID tr) = Some m \<and> t_Quantity tr \<le> o_Remaining m \<Longrightarrow>
    market_events L fills ms = (e, ms') \<Longrightarrow>
    e = None \<and> mirrors (S - t_MakerOrderID ` set trs) ms' s (after_trade trs om)"
proof (induction trs fills arbitrary: S ms om rule: list_induct2')
  case 1
  then show ?case by (simp add: after_trade_def [abs_def])
next
  case (4 tr trs ev fills)
  let ?i = "t_MakerOrderID tr"
  obtain m where m: "orderMap b ?i = Some m" "om ?i = Some m" "t_Quantity tr \<le> o_Remaining m" using 4(6) by auto
  obtain e1 ms1 where a: "market_event L ev ms = (e1, ms1)" by (metis surj_pair)
  define om1 where "om1 = om(?i := (if t_Quantity tr = o_Remaining m then None else Some (m\<lparr>o_Remaining := o_Remaining m - t_Quantity tr\<rparr>)))"
  have "maker_told L b tr ev" "mv_Symbol ev = s" using 4(3,4) by auto
  from maker_event_mirrored [OF c 4(2) s this m a]
  have one: "e1 = None" "mirrors (S - {?i}) ms1 s om1" by (auto simp: om1_def)
  have fresh: "?i \<notin> t_MakerOrderID ` set trs" using 4(5) by auto
  have "\<forall>tr' \<in> set trs. \<exists>m. orderMap b (t_MakerOrderID tr') = Some m \<and> om1 (t_MakerOrderID tr') = Some m \<and> t_Quantity tr' \<le> o_Remaining m"
    using 4(6) fresh by (force simp: image_iff om1_def)
  moreover have "market_events L fills ms1 = (e, ms')" using 4(7) a one(1) by simp
  ultimately have ih: "e = None \<and> mirrors (S - {?i} - t_MakerOrderID ` set trs) ms' s (after_trade trs om1)"
    using 4(1) [OF one(2)] 4(3-5) by simp
  have om: "after_trade trs om1 = after_trade (tr # trs) om"
  proof
    fix j
    show "after_trade trs om1 j = after_trade (tr # trs) om j"
    proof (cases "j = ?i")
      case True
      have "after_trade trs om1 ?i = om1 ?i" by (rule after_trade_other [OF fresh])
      also have "\<dots> = after_trade (tr # trs) om ?i"
        using after_trade_maker [of "tr # trs" tr om m] 4(5) m(2) by (simp add: om1_def)
      finally show ?thesis unfolding True .
    next
      case False
      then have ne: "?i \<noteq> j" and "om1 j = om j" by (auto simp: om1_def)
      show ?thesis unfolding after_trade_Cons [OF ne] by (rule after_trade_cong) fact
    qed
  qed
  have "S - {?i} - t_MakerOrderID ` set trs = S - t_MakerOrderID ` set (tr # trs)" by auto
  with ih om show ?case by metis
qed simp_all


section \<open>A new order\<close>

definition book_index :: "'d shard \<Rightarrow> string \<Rightarrow> uint64 \<Rightarrow> 'd order option" where
  "book_index sh s = (case sh s of None \<Rightarrow> Map.empty | Some se \<Rightarrow> orderMap (se_OrderBook se))"

text \<open>The remainder in the message, if it is there, is a positive number.\<close>

definition remaining_sent :: "('d::linordered_idom) libs \<Rightarrow> pb_order \<Rightarrow> bool" where
  "remaining_sent L pb \<longleftrightarrow>
     (case p_Remaining pb of
        None \<Rightarrow> True
      | Some q \<Rightarrow> (case dec_of_string L q of None \<Rightarrow> False | Some v \<Rightarrow> q \<noteq> '''' \<and> 0 < v))"

lemma OrderFromProto_sent:
  assumes od: "OrderFromProto L (Some pb) = Inr od" and r: "remaining_sent L pb"
  shows "o_OrderID od \<noteq> 0" "o_Symbol od \<noteq> []" "0 < o_Remaining od" "prepareTaker od = od"
    "market_sideToString (p_Side pb) = side_text (getSiteBook (o_Side od))"
    "o_Type od = OrderTypeLimit \<and> p_Type pb \<noteq> OrderType_MARKET \<or> o_Type od = OrderTypeMarket \<and> p_Type pb = OrderType_MARKET"
    "p_Remaining pb = Some q \<Longrightarrow> dec_of_string L q = Some (o_Remaining od)"
    "p_Remaining pb = None \<Longrightarrow> \<exists>q. p_Quantity pb = Some q \<and> dec_of_string L q = Some (o_Remaining od)"
    "p_Type pb \<noteq> OrderType_MARKET \<Longrightarrow> \<exists>q. p_Price pb = Some q \<and> dec_of_string L q = Some (o_Price od)"
proof -
  from OrderFromProto_Inr [OF od] show p: "o_OrderID od \<noteq> 0" "o_Symbol od \<noteq> []" "0 < o_Remaining od" by auto
  from p(3) show "prepareTaker od = od" by (simp add: prepareTaker_def)
  obtain side ot price qty rm where f: "sideFromProto (p_Side pb) = Inr side" "orderTypeFromProto (p_Type pb) = Inr ot"
    "priceFromOrderProto L pb = Inr price" "decimalFromProto L (p_Quantity pb) = Inr qty" "remainingFromProto L (p_Remaining pb) qty = Inr rm"
    "o_Side od = side" "o_Type od = ot" "o_Price od = price" "o_Remaining od = rm"
    using od by (auto simp: OrderFromProto_def split: if_splits sum.splits)
  show "market_sideToString (p_Side pb) = side_text (getSiteBook (o_Side od))"
    using f(1,6) by (auto simp: sideFromProto_def market_sideToString_def side_text_def getSiteBook_def pb_enum_defs split: if_splits)
  show "o_Type od = OrderTypeLimit \<and> p_Type pb \<noteq> OrderType_MARKET \<or> o_Type od = OrderTypeMarket \<and> p_Type pb = OrderType_MARKET"
    using f(2,7) by (auto simp: orderTypeFromProto_def pb_enum_defs split: if_splits)
  show "dec_of_string L q = Some (o_Remaining od)" if "p_Remaining pb = Some q"
    using f(5,9) r that by (auto simp: remainingFromProto_def remaining_sent_def GetValue_def split: if_splits option.splits)
  show "\<exists>q. p_Quantity pb = Some q \<and> dec_of_string L q = Some (o_Remaining od)" if "p_Remaining pb = None"
    using f(4,5,9) that by (auto simp: remainingFromProto_def decimalFromProto_def GetValue_def split: if_splits option.splits)
  show "\<exists>q. p_Price pb = Some q \<and> dec_of_string L q = Some (o_Price od)" if "p_Type pb \<noteq> OrderType_MARKET"
    using f(3,8) that by (auto simp: priceFromOrderProto_def decimalFromProto_def GetValue_def split: if_splits option.splits)
qed

lemma accepted_event_mirrored:
  assumes od: "OrderFromProto L (Some pb) = Inr od" and r: "remaining_sent L pb"
    and ev: "mv_EventType ev = ORDER_ACCEPTED" "mv_OrderId ev = o_OrderID od" "mv_Order ev = Some pb" "mv_Symbol ev = o_Symbol od"
    and mi: "mirrors S ms (o_Symbol od) om" and new: "om (o_OrderID od) = None" and a: "market_event L ev ms = (e, ms')"
  shows "e = None \<and> mirrors (S - {o_OrderID od}) ms' (o_Symbol od)
    (if o_Type od = OrderTypeLimit then om(o_OrderID od \<mapsto> od) else om)"
proof -
  note f = OrderFromProto_sent [OF od r]
  show ?thesis
  proof (cases "p_Type pb = OrderType_MARKET")
    case True
    then have "e = None" "ms' = ms" "o_Type od \<noteq> OrderTypeLimit"
      using a ev f(1,2,6) by (auto simp: market_event_def market_applyAccepted_def event_type_defs)
    moreover have "mirrors (S - {o_OrderID od}) ms (o_Symbol od) om"
    proof (rule mirrors_weaken [OF mi])
      show "om 0 = None" using mi by (simp add: mirrors_def)
      show "rel_option (\<lambda>x y. o_Side x = o_Side y \<and> o_Price x = o_Price y \<and>
        (if i \<in> S - {o_OrderID od} then o_Remaining y \<le> o_Remaining x else i \<notin> S \<and> o_Remaining y = o_Remaining x)) (om i) (om i)" for i
        using new by (cases "om i") auto
    qed
    ultimately show ?thesis by simp
  next
    case False
    obtain pt where pt: "p_Price pb = Some pt" "dec_of_string L pt = Some (o_Price od)" using f(9) [OF False] by blast
    obtain qt where qt: "(if p_Remaining pb = None \<and> p_Quantity pb \<noteq> None then p_Quantity pb else p_Remaining pb) = Some qt"
      "dec_of_string L qt = Some (o_Remaining od)" using f(7,8) by (cases "p_Remaining pb") auto
    have "ApplyOrderBookAccepted L (o_Symbol od) (o_OrderID od) (side_text (getSiteBook (o_Side od))) pt qt ms = (e, ms')"
      using a ev f(1,2,5) False pt(1) qt(1)
      by (simp add: market_event_def market_applyAccepted_def event_type_defs GetValue_def Let_def)
    from mirrors_accepted [OF mi f(2,1) new pt(2) qt(2) less_imp_le [OF f(3)] this] False f(6) show ?thesis by simp
  qed
qed

lemma taker_event_mirrored:
  assumes od: "OrderFromProto L (Some pb) = Inr od" and r: "remaining_sent L pb"
    and ev: "mv_EventType ev = (if rests then ORDER_PARTIAL_FILLED else ORDER_FILLED)" "mv_OrderId ev = o_OrderID od"
      "mv_Order ev = Some pb" "mv_Symbol ev = o_Symbol od"
    and mi: "mirrors S ms (o_Symbol od) om" and rests: "rests \<Longrightarrow> om (o_OrderID od) = Some od"
    and a: "market_event L ev ms = (e, ms')" and fresh: "o_OrderID od \<notin> S"
  shows "e = None \<and> mirrors S ms' (o_Symbol od) (if rests then om else om(o_OrderID od := None))"
proof -
  note f = OrderFromProto_sent [OF od r]
  have S: "S - {o_OrderID od} = S" using fresh by simp
  show ?thesis
  proof (cases rests)
    case False
    then have "ApplyOrderBookRemove L (o_Symbol od) (o_OrderID od) ms = (e, ms')"
      using a ev f(1,2) by (simp add: market_event_def event_type_defs)
    from mirrors_removed [OF mi f(2,1) this] False S show ?thesis by simp
  next
    case True
    then have p: "market_applyPartial L ev ms = (e, ms')" using a ev f(1,2) by (simp add: market_event_def event_type_defs)
    show ?thesis
    proof (cases "p_Remaining pb")
      case None
      with p ev(3) mi True show ?thesis by (simp add: market_applyPartial_def)
    next
      case (Some q)
      then have "ApplyOrderBookRemaining L (o_Symbol od) (o_OrderID od) q ms = (e, ms')"
        using p ev by (simp add: market_applyPartial_def GetValue_def)
      from mirrors_remaining [OF mi f(2) rests [OF True] f(7) [OF Some] less_imp_le [OF f(3)] this] rests [OF True] True S
      show ?thesis by (simp add: map_upd_triv)
    qed
  qed
qed


lemma traded_nonneg: "\<forall>tr \<in> set trs. 0 \<le> t_Quantity tr \<Longrightarrow> 0 \<le> traded trs"
  by (induction trs) (auto simp: traded_def)

text \<open>The index that the events lead to, against the index of the book after the match.\<close>

lemma after_match_index:
  assumes ok: "book_ok b" and m: "Match od seq (b, clk) = (Inr trs, b', clk')" and new: "orderMap b (o_OrderID od) = None"
    and tk: "prepareTaker od = od" and pos: "0 < o_Remaining od"
  defines "b1 \<equiv> (if o_Type od = OrderTypeLimit then (orderMap b)(o_OrderID od \<mapsto> od) else orderMap b)"
  defines "b3 \<equiv> (if trs \<noteq> [] \<and> orderMap b' (o_OrderID od) = None then (after_trade trs b1)(o_OrderID od := None) else after_trade trs b1)"
  shows "rel_option (\<lambda>x y. o_Side x = o_Side y \<and> o_Price x = o_Price y \<and> o_Remaining y \<le> o_Remaining x \<and>
      (i = o_OrderID od \<and> trs \<noteq> [] \<or> o_Remaining y = o_Remaining x)) (b3 i) (orderMap b' i)"
proof -
  let ?i = "o_OrderID od" and ?M = "t_MakerOrderID ` set trs"
  have pos': "0 < o_Remaining (prepareTaker od)" using tk pos by simp
  note mk = Match_makers [OF ok pos' m new] and rest = Match_rest [OF ok pos' m new]
  have makers: "\<exists>m. b1 (t_MakerOrderID tr) = Some m \<and> maker_left m tr b'" if "tr \<in> set trs" for tr
    using mk(1,3) that by (force simp: b1_def)
  have "0 \<le> traded trs" using makers by (intro traded_nonneg) (force simp: maker_left_def)
  consider "i = ?i" | "i \<noteq> ?i" "i \<in> ?M" | "i \<noteq> ?i" "i \<notin> ?M" by blast
  then show ?thesis
  proof cases
    case 1
    have "after_trade trs b1 ?i = b1 ?i" by (rule after_trade_other [OF mk(3)])
    with 1 rest(2) mk(4) tk pos new \<open>0 \<le> traded trs\<close> show ?thesis
      by (cases "orderMap b' ?i") (auto simp: b3_def b1_def traded_def)
  next
    case 2
    then obtain tr where t: "tr \<in> set trs" "t_MakerOrderID tr = i" by auto
    from makers [OF t(1)] obtain x where x: "b1 i = Some x" "maker_left x tr b'" using t(2) by auto
    have "b3 i = (if t_Quantity tr = o_Remaining x then None else Some (x\<lparr>o_Remaining := o_Remaining x - t_Quantity tr\<rparr>))"
      using after_trade_maker [OF mk(2) t(1), of b1] x(1) t(2) 2(1) by (simp add: b3_def)
    moreover have "\<exists>u. orderMap b' i = (if t_Quantity tr = o_Remaining x then None
        else Some (x\<lparr>o_Remaining := o_Remaining x - t_Quantity tr, o_UpdateTime := u\<rparr>))"
      using x(2) t(2) by (auto simp: maker_left_def)
    ultimately show ?thesis by auto
  next
    case 3
    then have "b3 i = orderMap b i" using after_trade_other [OF 3(2), of b1] by (simp add: b3_def b1_def)
    with rest(1) 3 show ?thesis by (cases "orderMap b i") auto
  qed
qed

text \<open>
  C26. A mirror that agrees with the book follows it through a new order: all events of the command
  are applied without error, and afterwards the mirror holds exactly the orders of the new book, on
  their sides and at their prices; the makers that traded are shown with exactly what is left of
  them. Only the new order itself, if it traded and rests with a remainder, is shown with more than
  is left of it: its event carries the order as it was sent.
\<close>
theorem mirror_follows_book:
  assumes c: "codec_ok L" and sh: "shard_ok sh" and od: "OrderFromProto L (no_Order cmd) = Inr od"
    and m: "shard_Match L od seq (sh, clk) = (Inr trades, sh', clk')" and new: "\<not> orderActive sh (o_Symbol od) (o_OrderID od)"
    and r: "no_Order cmd = Some pb" "remaining_sent L pb"
    and mi: "mirrors S ms (o_Symbol od) (book_index sh (o_Symbol od))"
  shows "\<exists>ms'. market_events L (og_MatchEvents (BuildNewOrderEvents L sh' (Some cmd) trades walSeq False)) ms = (None, ms') \<and>
    mirrors (S - t_MakerOrderID ` set trades - {o_OrderID od} \<union>
        (if trades \<noteq> [] \<and> book_index sh' (o_Symbol od) (o_OrderID od) \<noteq> None then {o_OrderID od} else {}))
      ms' (o_Symbol od) (book_index sh' (o_Symbol od))"
proof -
  let ?s = "o_Symbol od" and ?i = "o_OrderID od" and ?M = "t_MakerOrderID ` set trades"
  have od': "OrderFromProto L (Some pb) = Inr od" using od r(1) by simp
  note f = OrderFromProto_sent [OF od' r(2)]
  obtain se bk c' pb' fills acc t where e: "sh ?s = Some se" "book_ok (se_OrderBook se)"
    "no_Order cmd = Some pb'" "0 < o_Remaining (prepareTaker od)"
    "Match od seq (se_OrderBook se, clk) = (Inr trades, bk, c')" "sh' = sh(?s \<mapsto> se\<lparr>se_OrderBook := bk\<rparr>)"
    "orderMap (se_OrderBook se) ?i = None"
    "mv_EventType acc = ORDER_ACCEPTED" "mv_OrderId acc = ?i" "mv_Order acc = Some pb'" "mv_Symbol acc = ?s"
    "list_all2 (maker_told L (se_OrderBook se)) trades fills" "\<forall>ev \<in> set fills. mv_Symbol ev = ?s"
    "mv_EventType t = (if o_Type od = OrderTypeLimit \<and> traded trades \<noteq> o_Remaining (prepareTaker od)
                      then ORDER_PARTIAL_FILLED else ORDER_FILLED)"
    "mv_OrderId t = ?i" "mv_Order t = Some pb'" "mv_Symbol t = ?s"
    "BuildNewOrderEvents L sh' (Some cmd) trades walSeq False =
      \<lparr> og_MatchEvents = acc # fills @ (if trades = [] then [] else [t]),
        og_TradeEvents = map (\<lambda>tr. \<lparr> tv_Trade = Some (TradeToProto L tr), tv_WalSeq = walSeq \<rparr>) trades \<rparr>"
    by (rule new_order_events [OF sh od m new, of walSeq])
  have pb: "pb' = pb" using e(3) r(1) by simp
  define b where "b = orderMap (se_OrderBook se)"
  define b' where "b' = orderMap bk"
  have bi: "book_index sh ?s = b" "book_index sh' ?s = b'" using e(1,6) by (simp_all add: book_index_def b_def b'_def)
  note mk = Match_makers [OF e(2,4,5,7), folded b_def b'_def]
  note rest = Match_rest [OF e(2,4,5,7), folded b_def b'_def]
  have tk: "prepareTaker od = od" by (rule f(4))
  define rests where "rests \<longleftrightarrow> o_Type od = OrderTypeLimit \<and> traded trades \<noteq> o_Remaining od"
  have rs: "b' ?i \<noteq> None \<longleftrightarrow> rests" using mk(4) tk by (simp add: rests_def)
  have bn: "b ?i = None" using e(7) by (simp add: b_def)
  have mb: "mirrors S ms ?s b" using mi bi by simp
  define b1 where "b1 = (if o_Type od = OrderTypeLimit then b(?i \<mapsto> od) else b)"
  obtain e1 ms1 where a1: "market_event L acc ms = (e1, ms1)" by (metis surj_pair)
  have ar: "e1 = None" "mirrors (S - {?i}) ms1 ?s b1"
    using accepted_event_mirrored [OF od' r(2) e(8,9) e(10) [unfolded pb] e(11) mb bn a1] by (auto simp: b1_def)
  have makers: "\<exists>m. b (t_MakerOrderID tr) = Some m \<and> b1 (t_MakerOrderID tr) = Some m \<and> maker_left m tr bk" if "tr \<in> set trades" for tr
    using mk(1,3) that by (force simp: b1_def)
  obtain e2 ms2 where a2: "market_events L fills ms1 = (e2, ms2)" by (metis surj_pair)
  have "\<forall>tr \<in> set trades. \<exists>m. orderMap (se_OrderBook se) (t_MakerOrderID tr) = Some m \<and> b1 (t_MakerOrderID tr) = Some m \<and> t_Quantity tr \<le> o_Remaining m"
    using makers by (fastforce simp: maker_left_def b_def)
  from maker_events_mirrored [OF c f(2) ar(2) e(12,13) mk(2) this a2]
  have fr: "e2 = None" "mirrors (S - {?i} - ?M) ms2 ?s (after_trade trades b1)" by auto
  define b2 where "b2 = after_trade trades b1"
  have b2i: "b2 ?i = b1 ?i" using after_trade_other mk(3) by (simp add: b2_def)
  obtain e3 ms3 where a3: "market_event L t ms2 = (e3, ms3)" by (metis surj_pair)
  have tr: "e3 = None \<and> mirrors (S - {?i} - ?M) ms3 ?s (if rests then b2 else b2(?i := None))"
  proof (rule taker_event_mirrored [OF od' r(2) _ e(15) e(16) [unfolded pb] e(17) _ _ a3])
    show "mv_EventType t = (if rests then ORDER_PARTIAL_FILLED else ORDER_FILLED)" using e(14) tk by (simp add: rests_def)
    show "rests \<Longrightarrow> b2 ?i = Some od" using b2i by (simp add: rests_def b1_def)
    show "mirrors (S - {?i} - ?M) ms2 ?s b2" using fr(2) by (simp add: b2_def)
  qed simp
  define ms' where "ms' = (if trades = [] then ms2 else ms3)"
  define b3 where "b3 = (if trades \<noteq> [] \<and> b' ?i = None then b2(?i := None) else b2)"
  have run: "market_events L (acc # fills @ (if trades = [] then [] else [t])) ms = (None, ms')"
    using a1 a2 a3 ar(1) fr(1) tr market_events_append [of L fills ms1 ms2] by (simp add: ms'_def)
  have m3: "mirrors (S - {?i} - ?M) ms' ?s b3" using fr(2) tr rs by (auto simp: ms'_def b3_def b2_def)
  let ?S = "S - ?M - {?i} \<union> (if trades \<noteq> [] \<and> b' ?i \<noteq> None then {?i} else {})"
  have "mirrors ?S ms' ?s b'"
  proof (rule mirrors_weaken [OF m3])
    have b0: "b 0 = None" using mb by (simp add: mirrors_def)
    then have "0 \<notin> ?M" using makers by force
    with b0 show "b' 0 = None" using rest(1) [of 0] f(1) by simp
    fix i
    note rel = after_match_index [OF e(2,5,7) tk f(3), of i, folded b_def b'_def, folded b1_def, folded b2_def, folded b3_def]
    show "rel_option (\<lambda>x y. o_Side x = o_Side y \<and> o_Price x = o_Price y \<and>
        (if i \<in> ?S then o_Remaining y \<le> o_Remaining x else i \<notin> S - {?i} - ?M \<and> o_Remaining y = o_Remaining x)) (b3 i) (b' i)"
      using rel by (rule option.rel_mono_strong) auto
  qed
  then show ?thesis using run by (simp add: e(18) bi)
qed


text \<open>The cancellation of an order, whether it rests or not.\<close>

lemma mirror_follows_cancel:
  assumes sh: "shard_ok sh" and c: "shard_Cancel (co_Symbol cmd) (co_OrderId cmd) sh = (None, sh')" and id: "co_OrderId cmd \<noteq> 0"
    and mi: "mirrors S ms (co_Symbol cmd) (book_index sh (co_Symbol cmd))"
  shows "\<exists>ms'. market_events L (og_MatchEvents (BuildCancelEvents (Some cmd) walSeq)) ms = (None, ms') \<and>
    mirrors (S - {co_OrderId cmd}) ms' (co_Symbol cmd) (book_index sh' (co_Symbol cmd))"
proof -
  let ?s = "co_Symbol cmd" and ?i = "co_OrderId cmd"
  have s: "?s \<noteq> []" using c by (auto simp: shard_Cancel_def split: if_splits)
  obtain se sh1 where g: "shard_Symbol ?s sh = (se, sh1)" by (metis surj_pair)
  have sh': "sh' = sh1(?s \<mapsto> se_Cancel ?i se)" using c s g by (simp add: shard_Cancel_def)
  have "orderMap (se_OrderBook se) = book_index sh ?s"
    using g s by (auto simp: shard_Symbol_def book_index_def NewSymbolEngine_def NewOrderBook_def Let_def split: option.splits)
  then have ix: "book_index sh' ?s = (book_index sh ?s)(?i := None)"
    by (simp add: sh' book_index_def se_Cancel_def RemoveOrder_map)
  obtain e ms1 where a: "market_event L (newMatchEvent (if co_CommandId cmd = 0 then ?i else co_CommandId cmd) ?s ?i ORDER_CANCELED None walSeq) ms = (e, ms1)"
    by (metis surj_pair)
  then have "ApplyOrderBookRemove L ?s ?i ms = (e, ms1)"
    using s id by (simp add: market_event_def newMatchEvent_def event_type_defs)
  from mirrors_removed [OF mi s id this] show ?thesis
    using a by (simp add: BuildCancelEvents_def ix)
qed

definition wit_entry :: "string \<Rightarrow> int \<Rightarrow> int \<Rightarrow> int order_entry" where
  "wit_entry s p r = \<lparr> en_Side = s, en_Price = p, en_Remaining = r \<rparr>"

definition wit_mirror :: "int market_store" where
  "wit_mirror =
     [(''BTC-USDT'', new_symbol\<lparr>sy_OrderBook :=
        \<lparr> bm_LastUpdateID = 3,
          bm_Bids = \<lparr> bs_Orders = [3 \<mapsto> wit_entry ''BUY'' 99 4], bs_Levels = [(''99'', 4)] \<rparr>,
          bm_Asks = \<lparr> bs_Orders = [1 \<mapsto> wit_entry ''SELL'' 100 10, 2 \<mapsto> wit_entry ''SELL'' 100 10], bs_Levels = [(''100'', 20)] \<rparr> \<rparr>\<rparr>)]"

lemma wit_mirrors: "mirrors {} wit_mirror ''BTC-USDT'' (book_index wit_shard ''BTC-USDT'')"
  by (simp add: mirrors_def all_book_side shows_order_def book_index_def wit_shard_def Register_def NewSymbolEngine_def wit_book_def
      wit_order_def wit_mirror_def wit_entry_def orders_at_def getOrCreate_def side_text_def getSiteBook_def)

theorem mirror_follows_book_witness:
  "\<exists>trades sh' clk' ms'. shard_Match int_libs wit_taker 7 (wit_shard, wit_clock) = (Inr trades, sh', clk') \<and>
    market_events int_libs (og_MatchEvents (BuildNewOrderEvents int_libs sh' (Some wit_new_cmd) trades 7 False)) wit_mirror = (None, ms') \<and>
    length trades = 2"
proof -
  obtain trades sh' clk' where m: "shard_Match int_libs wit_taker 7 (wit_shard, wit_clock) = (Inr trades, sh', clk')" "length trades = 2"
    using wit_match_run by blast
  have a: "\<not> orderActive wit_shard (o_Symbol wit_taker) (o_OrderID wit_taker)"
    by (simp add: orderActive_def shard_Get_def FindOrder_def wit_shard_def Register_def NewSymbolEngine_def wit_taker_def wit_order_def wit_book_def)
  have n: "no_Order wit_new_cmd = Some (OrderToProto int_libs wit_taker)" by (simp add: wit_new_cmd_def)
  have "dec_to_string int_libs 15 \<noteq> []" "dec_of_string int_libs (dec_to_string int_libs 15) = Some 15"
    using codec_ok_int_libs by (simp_all add: codec_ok_def)
  then have r: "remaining_sent int_libs (OrderToProto int_libs wit_taker)"
    by (simp add: remaining_sent_def OrderToProto_def decimalToProto_def effectiveRemaining_def wit_taker_def wit_order_def)
  have "mirrors {} wit_mirror (o_Symbol wit_taker) (book_index wit_shard (o_Symbol wit_taker))"
    using wit_mirrors by (simp add: wit_taker_def wit_order_def)
  from mirror_follows_book [OF codec_ok_int_libs wit_shard_ok wit_new_cmd_order m(1) a n r this, of 7] m show ?thesis by blast
qed

end
