(* ===== verification/TickerStream.thy ===== *)
theory TickerStream
  imports MarketConsumer
begin

text \<open>
  Model of \<open>pkg/tickerall\<close> (\<open>ws.go\<close>, \<open>frame.go\<close>) and \<open>internal/marketdata/tickerallpub\<close>: the
  tickers of all pairs pushed as a snapshot followed by deltas that carry only the fields that
  changed. Frames are encoded by a parameter. The Go maps of items are association lists.
\<close>

section \<open>Frames\<close>

definition TypeSnapshot :: string where "TypeSnapshot = ''snapshot''"
definition TypeDelta :: string where "TypeDelta = ''delta''"
definition TypeHeartbeat :: string where "TypeHeartbeat = ''heartbeat''"

lemmas frame_types = TypeSnapshot_def TypeDelta_def TypeHeartbeat_def

record compact_item =
  ci_S :: string
  ci_P :: string
  ci_V :: string
  ci_Q :: string
  ci_C :: string

datatype frame_data = NoData | SnapshotData int "compact_item list" | DeltaData "compact_item list"

record frame =
  fm_Stream :: string
  fm_Type :: string
  fm_SnapshotID :: string
  fm_Ts :: int
  fm_Data :: frame_data

definition NormalizeQuoteAsset :: "string \<Rightarrow> string" where
  "NormalizeQuoteAsset quoteAsset =
     (let q = trim_space quoteAsset in if q = [] \<or> to_upper q = ''ALL'' then ''ALL'' else q)"

definition WSStream :: "string \<Rightarrow> string" where
  "WSStream quoteAsset =
     (let q = NormalizeQuoteAsset quoteAsset in if q = [] \<or> q = ''ALL'' then ''ticker@all'' else ''ticker@all:'' @ q)"

definition PubSubChannel :: "string \<Rightarrow> string" where
  "PubSubChannel quoteAsset = WSStream quoteAsset"

definition RedisKey :: "string \<Rightarrow> string" where
  "RedisKey quoteAsset =
     (let q = NormalizeQuoteAsset quoteAsset in if q = [] then ''ticker:all:ALL'' else ''ticker:all:'' @ q)"

definition CompactItemFromFields :: "string \<Rightarrow> string \<Rightarrow> string \<Rightarrow> string \<Rightarrow> string \<Rightarrow> compact_item" where
  "CompactItemFromFields s lastPrice vol quoteVol changePercent =
     \<lparr> ci_S = s, ci_P = lastPrice, ci_V = vol, ci_Q = quoteVol, ci_C = changePercent \<rparr>"

type_synonym compact_map = "(string \<times> compact_item) list"

fun compact_items_into :: "compact_item list \<Rightarrow> compact_map \<Rightarrow> compact_map" where
  "compact_items_into [] m = m"
| "compact_items_into (it # its) m =
     compact_items_into its (if ci_S it = [] then m else AList.update (ci_S it) it m)"

definition CompactMapFromItems :: "compact_item list \<Rightarrow> compact_map" where
  "CompactMapFromItems its = compact_items_into its []"

definition ItemsFromCompactMap :: "compact_map \<Rightarrow> compact_item list" where
  "ItemsFromCompactMap m = map (\<lambda>s. the (map_of m s)) (sort (map fst m))"

definition diff_item :: "string \<Rightarrow> compact_item \<Rightarrow> compact_item \<Rightarrow> compact_item option" where
  "diff_item s p c =
     (if ci_P c = ci_P p \<and> ci_V c = ci_V p \<and> ci_Q c = ci_Q p \<and> ci_C c = ci_C p then None
      else Some \<lparr> ci_S = s,
        ci_P = (if ci_P c \<noteq> ci_P p then ci_P c else ''''), ci_V = (if ci_V c \<noteq> ci_V p then ci_V c else ''''),
        ci_Q = (if ci_Q c \<noteq> ci_Q p then ci_Q c else ''''), ci_C = (if ci_C c \<noteq> ci_C p then ci_C c else '''') \<rparr>)"

definition Diff :: "compact_map \<Rightarrow> compact_map \<Rightarrow> compact_item list" where
  "Diff prev cur =
     List.map_filter
       (\<lambda>s. let c = the (map_of cur s)
            in case map_of prev s of None \<Rightarrow> Some c | Some p \<Rightarrow> diff_item s p c)
       (sort (map fst cur))"

type_synonym frame_codec = "frame \<Rightarrow> bytes option"

definition MarshalSnapshot :: "frame_codec \<Rightarrow> string \<Rightarrow> string \<Rightarrow> int \<Rightarrow> int \<Rightarrow> compact_item list \<Rightarrow> bytes option" where
  "MarshalSnapshot enc stream snapshotID ts count its =
     enc \<lparr> fm_Stream = stream, fm_Type = TypeSnapshot, fm_SnapshotID = snapshotID, fm_Ts = ts, fm_Data = SnapshotData count its \<rparr>"

definition MarshalDelta :: "frame_codec \<Rightarrow> string \<Rightarrow> string \<Rightarrow> int \<Rightarrow> compact_item list \<Rightarrow> bytes option" where
  "MarshalDelta enc stream snapshotID ts its =
     (if its = [] then None
      else enc \<lparr> fm_Stream = stream, fm_Type = TypeDelta, fm_SnapshotID = snapshotID, fm_Ts = ts, fm_Data = DeltaData its \<rparr>)"

definition MarshalHeartbeat :: "frame_codec \<Rightarrow> string \<Rightarrow> string \<Rightarrow> int \<Rightarrow> bytes option" where
  "MarshalHeartbeat enc stream snapshotID ts =
     enc \<lparr> fm_Stream = stream, fm_Type = TypeHeartbeat, fm_SnapshotID = snapshotID, fm_Ts = ts, fm_Data = NoData \<rparr>"

definition ParseFrame :: "(bytes \<Rightarrow> frame option) \<Rightarrow> bytes \<Rightarrow> frame option" where
  "ParseFrame dec b =
     (if b = [] then None
      else (case dec b of
              None \<Rightarrow> None
            | Some f \<Rightarrow>
                if fm_Type f \<notin> {TypeSnapshot, TypeDelta, TypeHeartbeat} then None
                else if fm_Stream f = [] \<or> fm_SnapshotID f = [] then None
                else Some f))"

definition IsWSFrame :: "(bytes \<Rightarrow> frame option) \<Rightarrow> bytes \<Rightarrow> bool" where
  "IsWSFrame dec b \<longleftrightarrow> ParseFrame dec b \<noteq> None"

text \<open>The REST snapshot in Redis as a frame; \<open>None\<close> is JSON that does not decode.\<close>

definition WSSnapshotFromRedisREST :: "frame_codec \<Rightarrow> string \<Rightarrow> ticker_all_json option \<Rightarrow> clock \<Rightarrow> bytes option \<times> clock" where
  "WSSnapshotFromRedisREST enc wsStream rest clk =
     (case rest of
        None \<Rightarrow> (None, clk)
      | Some r \<Rightarrow>
          (let its = map (\<lambda>it. CompactItemFromFields (tj_Symbol it) (tj_LastPrice it) (tj_Volume it) (tj_QuoteVolume it)
                 (tj_PriceChangePercent it)) (aj_Items r);
               (ts, clk1) = (if aj_SnapshotTime r = 0 then (let (t, c) = now clk in (unix_milli t, c)) else (aj_SnapshotTime r, clk));
               count = (if aj_Count r = 0 then int (length its) else int (aj_Count r))
           in (MarshalSnapshot enc wsStream (aj_SnapshotID r) ts count its, clk1)))"

section \<open>The publisher\<close>

record stream_state =
  sp_lastItems :: "string \<Rightarrow> compact_map"
  sp_lastHeartbeat :: "string \<Rightarrow> time"
  sp_published :: nat

record 'd stream_env =
  sv_libs :: "'d libs"
  sv_fixed :: "int \<Rightarrow> 'd \<Rightarrow> string"
  sv_sha1 :: "string \<Rightarrow> string"
  sv_enc :: frame_codec

definition compactMapFromStore ::
  "('d::zero) libs \<Rightarrow> (int \<Rightarrow> 'd \<Rightarrow> string) \<Rightarrow> 'd ticker_all_snapshot \<Rightarrow> compact_map" where
  "compactMapFromStore L stringFixed snap =
     fold (\<lambda>it m. AList.update (tn_Symbol it)
        (CompactItemFromFields (tn_Symbol it) (FormatDecimal L (tk_LastPrice (tn_TickerState it)))
           (FormatDecimal L (tk_Volume (tn_TickerState it))) (FormatDecimal L (tk_QuoteVolume (tn_TickerState it)))
           (FormatPercent stringFixed (tk_PriceChangePercent (tn_TickerState it)))) m)
       (ta_Items snap) []"

text \<open>A frame that cannot be encoded counts as not sent, like a failed publication.\<close>

definition send_frame :: "string \<Rightarrow> bytes option \<Rightarrow> redis_state \<Rightarrow> bool \<times> redis_state" where
  "send_frame ch payload r =
     (case payload of
        None \<Rightarrow> (False, r)
      | Some b \<Rightarrow> (case PublishTickerAllWS ch b r of (e, r1) \<Rightarrow> (e = None, r1)))"

definition count_published :: "stream_state \<Rightarrow> stream_state" where
  "count_published p = p\<lparr>sp_published := Suc (sp_published p)\<rparr>"

definition stream_tick ::
  "('d::zero) stream_env \<Rightarrow> string \<Rightarrow> time \<Rightarrow> int \<Rightarrow> 'd market_store \<Rightarrow> redis_state \<times> stream_state \<Rightarrow> redis_state \<times> stream_state" where
  "stream_tick V quoteAsset at hb ms st =
     (let (r, p) = st;
          snap = BuildTickerAllSnapshot (sv_libs V) (sv_sha1 V) quoteAsset ms;
          stream = WSStream quoteAsset; ch = PubSubChannel quoteAsset;
          ts = (if 0 < ta_SnapshotTime snap then ta_SnapshotTime snap else unix_milli at)
      in case SetTickerAllREST (sv_libs V) (sv_fixed V) snap r of
           (Some e, r1) \<Rightarrow> (r1, p)
         | (None, r1) \<Rightarrow>
             (let cur = compactMapFromStore (sv_libs V) (sv_fixed V) snap;
                  qk = NormalizeQuoteAsset quoteAsset;
                  prev = sp_lastItems p qk;
                  needHB = (hb \<le> at - sp_lastHeartbeat p qk)
              in if prev = [] then
                   (case send_frame ch (MarshalSnapshot (sv_enc V) stream (ta_SnapshotID snap) ts (int (ta_Count snap))
                           (ItemsFromCompactMap cur)) r1 of
                      (False, r2) \<Rightarrow> (r2, p)
                    | (True, r2) \<Rightarrow>
                        (r2, count_published (p\<lparr>sp_lastItems := (sp_lastItems p)(qk := cur),
                               sp_lastHeartbeat := (sp_lastHeartbeat p)(qk := at)\<rparr>)))
                 else
                   (let delta = Diff prev cur;
                        (ok, r2, p1) =
                          (if delta = [] then (True, r1, p)
                           else (case send_frame ch (MarshalDelta (sv_enc V) stream (ta_SnapshotID snap) ts delta) r1 of
                                   (False, r2) \<Rightarrow> (False, r2, p)
                                 | (True, r2) \<Rightarrow> (True, r2, count_published (p\<lparr>sp_lastItems := (sp_lastItems p)(qk := cur)\<rparr>))))
                    in if \<not> ok \<or> \<not> needHB then (r2, p1)
                       else (case MarshalHeartbeat (sv_enc V) stream (ta_SnapshotID snap) ts of
                               None \<Rightarrow> (r2, p1)
                             | Some b \<Rightarrow>
                                 (snd (PublishTickerAllWS ch b r2),
                                  count_published (p1\<lparr>sp_lastHeartbeat := (sp_lastHeartbeat p1)(qk := at)\<rparr>))))))"

text \<open>
  One firing of the ticker of \<open>Run\<close>, over the quote assets configured (USDT if none). The code reads
  the defaults for the interval and the heartbeat once.
\<close>

definition stream_quotes :: "string list \<Rightarrow> string list" where
  "stream_quotes qs = (if qs = [] then [''USDT''] else qs)"

definition stream_heartbeat :: "int \<Rightarrow> int" where
  "stream_heartbeat hb = (if hb \<le> 0 then 60 * 1000000000 else hb)"

definition stream_round ::
  "('d::zero) stream_env \<Rightarrow> string list \<Rightarrow> int \<Rightarrow> time \<Rightarrow> 'd market_store \<Rightarrow> redis_state \<times> stream_state \<Rightarrow> redis_state \<times> stream_state" where
  "stream_round V qs hb at ms st = fold (\<lambda>q. stream_tick V q at (stream_heartbeat hb) ms) (stream_quotes qs) st"


section \<open>What a client sees\<close>

text \<open>
  A client of the stream: a snapshot replaces what it holds, an item of a delta replaces the fields
  that are not empty.
\<close>

definition merge_item :: "compact_item option \<Rightarrow> compact_item \<Rightarrow> compact_item" where
  "merge_item old d =
     (case old of
        None \<Rightarrow> d
      | Some x \<Rightarrow>
          \<lparr> ci_S = ci_S d, ci_P = (if ci_P d = [] then ci_P x else ci_P d), ci_V = (if ci_V d = [] then ci_V x else ci_V d),
            ci_Q = (if ci_Q d = [] then ci_Q x else ci_Q d), ci_C = (if ci_C d = [] then ci_C x else ci_C d) \<rparr>)"

definition client_item :: "compact_item \<Rightarrow> (string \<Rightarrow> compact_item option) \<Rightarrow> string \<Rightarrow> compact_item option" where
  "client_item d m = m(ci_S d \<mapsto> merge_item (m (ci_S d)) d)"

definition client_frame :: "frame \<Rightarrow> (string \<Rightarrow> compact_item option) \<Rightarrow> string \<Rightarrow> compact_item option" where
  "client_frame f m =
     (case fm_Data f of
        NoData \<Rightarrow> m
      | SnapshotData _ its \<Rightarrow> map_of (map (\<lambda>it. (ci_S it, it)) its)
      | DeltaData its \<Rightarrow> fold client_item its m)"

definition full_item :: "compact_item \<Rightarrow> bool" where
  "full_item c \<longleftrightarrow> ci_P c \<noteq> [] \<and> ci_V c \<noteq> [] \<and> ci_Q c \<noteq> [] \<and> ci_C c \<noteq> []"

definition items_ok :: "compact_map \<Rightarrow> bool" where
  "items_ok m \<longleftrightarrow> distinct (map fst m) \<and> (\<forall>s c. map_of m s = Some c \<longrightarrow> ci_S c = s \<and> full_item c)"

lemma fold_client_items:
  "distinct ks \<Longrightarrow> \<forall>k \<in> set ks. \<forall>d. g k = Some d \<longrightarrow> ci_S d = k \<Longrightarrow>
     fold client_item (List.map_filter g ks) m s =
       (if s \<in> set ks then (case g s of None \<Rightarrow> m s | Some d \<Rightarrow> Some (merge_item (m s) d)) else m s)"
proof (induction ks arbitrary: m)
  case (Cons k ks)
  show ?case
  proof (cases "g k")
    case None
    with Cons show ?thesis by (auto simp: List.map_filter_simps)
  next
    case (Some d)
    then have "ci_S d = k" using Cons.prems(2) by simp
    with Some Cons show ?thesis by (auto simp: List.map_filter_simps client_item_def)
  qed
qed (simp add: List.map_filter_simps)

lemma diff_item_S: "diff_item s p c = Some d \<Longrightarrow> ci_S d = s"
  by (auto simp: diff_item_def split: if_splits)

lemma diff_item_merge:
  assumes "ci_S p = s" "ci_S c = s" "full_item c"
  shows "(case diff_item s p c of None \<Rightarrow> p | Some d \<Rightarrow> merge_item (Some p) d) = c"
  using assms by (cases p; cases c) (auto simp: diff_item_def merge_item_def full_item_def)

lemma key_map_of: "s \<in> fst ` set m \<longleftrightarrow> map_of m s \<noteq> None"
  by (metis map_of_eq_None_iff)

lemma Diff_merges:
  assumes p: "items_ok prev" and c: "items_ok cur" and sub: "fst ` set prev \<subseteq> fst ` set cur"
  shows "fold client_item (Diff prev cur) (map_of prev) = map_of cur"
proof
  fix s
  let ?g = "\<lambda>s. let c = the (map_of cur s) in case map_of prev s of None \<Rightarrow> Some c | Some p \<Rightarrow> diff_item s p c"
  have d: "distinct (sort (map fst cur))" using c by (simp add: items_ok_def)
  have g: "\<forall>k \<in> set (sort (map fst cur)). \<forall>d. ?g k = Some d \<longrightarrow> ci_S d = k"
  proof (intro ballI allI impI)
    fix k d assume k: "k \<in> set (sort (map fst cur))" and e: "?g k = Some d"
    obtain x where "map_of cur k = Some x" using k key_map_of [of k cur] by auto
    with e c show "ci_S d = k" by (auto simp: items_ok_def Let_def dest: diff_item_S split: option.splits)
  qed
  have "fold client_item (Diff prev cur) (map_of prev) s =
      (if s \<in> set (sort (map fst cur)) then (case ?g s of None \<Rightarrow> map_of prev s | Some d \<Rightarrow> Some (merge_item (map_of prev s) d))
       else map_of prev s)"
    unfolding Diff_def by (rule fold_client_items [OF d g])
  also have "\<dots> = map_of cur s"
  proof (cases "map_of cur s")
    case None
    then have "s \<notin> fst ` set cur" using key_map_of by metis
    moreover from this sub have "map_of prev s = None" using key_map_of by (metis subsetD)
    ultimately show ?thesis using None by simp
  next
    case (Some x)
    then have k: "s \<in> fst ` set cur" using key_map_of by (metis option.distinct(1))
    have x: "ci_S x = s" "full_item x" using c Some by (auto simp: items_ok_def)
    show ?thesis
    proof (cases "map_of prev s")
      case None
      with k Some show ?thesis by (simp add: merge_item_def)
    next
      case p': (Some y)
      then have "ci_S y = s" using p by (simp add: items_ok_def)
      from diff_item_merge [OF this x] k Some p' show ?thesis by (auto split: option.splits)
    qed
  qed
  finally show "fold client_item (Diff prev cur) (map_of prev) s = map_of cur s" .
qed

lemma snapshot_items:
  assumes "items_ok m"
  shows "map_of (map (\<lambda>it. (ci_S it, it)) (ItemsFromCompactMap m)) = map_of m"
proof
  fix s
  have S: "ci_S (the (map_of m k)) = k" if "k \<in> fst ` set m" for k
    using that assms key_map_of [of k m] by (auto simp: items_ok_def)
  have "map (\<lambda>it. (ci_S it, it)) (ItemsFromCompactMap m) = map (\<lambda>k. (k, the (map_of m k))) (sort (map fst m))"
    using S by (auto simp: ItemsFromCompactMap_def)
  then show "map_of (map (\<lambda>it. (ci_S it, it)) (ItemsFromCompactMap m)) s = map_of m s"
    using key_map_of [of s m] by (cases "map_of m s") (auto simp: map_of_map_restrict restrict_map_def)
qed

lemma fold_update_ok:
  assumes "\<And>it. ci_S (f it) = k it \<and> full_item (f it)"
  shows "items_ok m \<Longrightarrow> items_ok (fold (\<lambda>it m. AList.update (k it) (f it) m) its m)"
proof (induction its arbitrary: m)
  case (Cons it its)
  have "items_ok (AList.update (k it) (f it) m)"
    using Cons.prems assms by (auto simp: items_ok_def distinct_update update_conv' split: if_splits)
  with Cons.IH show ?case by simp
qed simp

lemma compactMapFromStore_ok:
  assumes "codec_ok L" "\<And>n d. stringFixed n d \<noteq> []"
  shows "items_ok (compactMapFromStore L stringFixed snap)"
proof -
  have "FormatDecimal L d \<noteq> []" "FormatPercent stringFixed d \<noteq> []" for d
    using codec_okD(2) [OF assms(1)] assms(2) by (auto simp: FormatDecimal_def FormatPercent_def)
  then show ?thesis unfolding compactMapFromStore_def
    by (intro fold_update_ok) (auto simp: CompactItemFromFields_def full_item_def items_ok_def)
qed


definition client_payload ::
  "(bytes \<Rightarrow> frame option) \<Rightarrow> string \<Rightarrow> string \<times> payload \<Rightarrow> (string \<Rightarrow> compact_item option) \<Rightarrow> string \<Rightarrow> compact_item option" where
  "client_payload dec ch x m =
     (if fst x \<noteq> ch then m
      else (case snd x of
              FramePayload b \<Rightarrow> (case ParseFrame dec b of None \<Rightarrow> m | Some f \<Rightarrow> client_frame f m)
            | _ \<Rightarrow> m))"

definition client_view :: "(bytes \<Rightarrow> frame option) \<Rightarrow> string \<Rightarrow> redis_state \<Rightarrow> string \<Rightarrow> compact_item option" where
  "client_view dec ch r = fold (client_payload dec ch) (rc_published r) Map.empty"

definition frame_codec_ok :: "frame_codec \<Rightarrow> (bytes \<Rightarrow> frame option) \<Rightarrow> bool" where
  "frame_codec_ok enc dec \<longleftrightarrow> (\<forall>f b. enc f = Some b \<longrightarrow> b \<noteq> [] \<and> dec b = Some f)"

lemma ParseFrame_encoded:
  assumes "frame_codec_ok enc dec" "enc f = Some b" "fm_Type f \<in> {TypeSnapshot, TypeDelta, TypeHeartbeat}"
    "fm_Stream f \<noteq> []" "fm_SnapshotID f \<noteq> []"
  shows "ParseFrame dec b = Some f"
  using assms by (auto simp: frame_codec_ok_def ParseFrame_def)

lemma client_view_Set: "rc_Set k v r = (e, r') \<Longrightarrow> client_view dec ch r' = client_view dec ch r"
  using rc_Set_frame [of k v r e r'] by (simp add: client_view_def)

lemma client_view_WS:
  assumes "frame_codec_ok enc dec" "enc f = Some b" "fm_Type f \<in> {TypeSnapshot, TypeDelta, TypeHeartbeat}"
    "fm_Stream f \<noteq> []" "fm_SnapshotID f \<noteq> []" and "PublishTickerAllWS ch b r = (e, r')"
    "rc_calls r (rc_pos r) \<noteq> AnswerLost"
  shows "client_view dec ch r' = (if e = None then client_frame f (client_view dec ch r) else client_view dec ch r)"
  using assms(6) rc_Publish_log(1) [of ch "FramePayload b" r e r'] assms(7) ParseFrame_encoded [OF assms(1-5)]
  by (auto simp: PublishTickerAllWS_def client_view_def client_payload_def split: if_splits)

lemma WSStream_nonempty: "WSStream q \<noteq> []"
  by (simp add: WSStream_def Let_def)

lemma SnapshotID_nonempty: "ta_SnapshotID (BuildTickerAllSnapshot L sha q ms) \<noteq> []"
  by (simp add: BuildTickerAllSnapshot_def computeTickerAllSnapshotID_def Let_def)

text \<open>What one tick does to the client and to the items last sent, by its cases.\<close>

lemma stream_tick_cases:
  assumes t: "stream_tick V q at hb ms (r, p) = (r', p')" and fc: "frame_codec_ok (sv_enc V) dec"
    and lost: "\<forall>n. rc_calls r n \<noteq> AnswerLost"
  defines "cur \<equiv> compactMapFromStore (sv_libs V) (sv_fixed V) (BuildTickerAllSnapshot (sv_libs V) (sv_sha1 V) q ms)"
    and "qk \<equiv> NormalizeQuoteAsset q" and "view \<equiv> client_view dec (PubSubChannel q)"
  obtains (unsent) "view r' = view r" "sp_lastItems p' qk = sp_lastItems p qk"
      "(\<forall>n. rc_calls r n = Answered) \<and> (\<forall>f. sv_enc V f \<noteq> None) \<longrightarrow> sp_lastItems p qk \<noteq> [] \<and> Diff (sp_lastItems p qk) cur = []"
  | (snapshot) "view r' = map_of (map (\<lambda>it. (ci_S it, it)) (ItemsFromCompactMap cur))" "sp_lastItems p' qk = cur"
  | (delta) "view r' = fold client_item (Diff (sp_lastItems p qk) cur) (view r)" "sp_lastItems p' qk = cur" "sp_lastItems p qk \<noteq> []"
proof -
  let ?snap = "BuildTickerAllSnapshot (sv_libs V) (sv_sha1 V) q ms"
  let ?prev = "sp_lastItems p qk" and ?ch = "PubSubChannel q"
  define fine where "fine \<longleftrightarrow> (\<forall>n. rc_calls r n = Answered) \<and> (\<forall>f. sv_enc V f \<noteq> None)"
  note unsent = unsent [folded fine_def]
  define ts where "ts = (if 0 < ta_SnapshotTime ?snap then ta_SnapshotTime ?snap else unix_milli at)"
  define fr where "fr ty d = \<lparr> fm_Stream = WSStream q, fm_Type = ty, fm_SnapshotID = ta_SnapshotID ?snap, fm_Ts = ts, fm_Data = d \<rparr>" for ty d
  have ws: "view r2 = (if e = None then client_frame (fr ty d) (view r1) else view r1)"
    if "sv_enc V (fr ty d) = Some b" "PublishTickerAllWS ?ch b r1 = (e, r2)" "ty \<in> {TypeSnapshot, TypeDelta, TypeHeartbeat}"
      "rc_calls r1 = rc_calls r" for ty d b r1 r2 e
    unfolding view_def using that(3,4) WSStream_nonempty SnapshotID_nonempty lost
    by (intro client_view_WS [OF fc that(1) _ _ _ that(2)]) (simp_all add: fr_def)
  have up: "e = None \<longleftrightarrow> rc_calls r (rc_pos r1) = Answered" "rc_calls r2 = rc_calls r"
    if "PublishTickerAllWS ?ch b r1 = (e, r2)" "rc_calls r1 = rc_calls r" for b r1 r2 e
    using that WSStream_nonempty [of q] rc_Publish_log(2) [of ?ch "FramePayload b" r1 e r2] rc_Publish_frame [of ?ch "FramePayload b" r1 e r2] lost
    by (auto simp: PublishTickerAllWS_def PubSubChannel_def split: if_splits)
  obtain e1 r1 where s: "SetTickerAllREST (sv_libs V) (sv_fixed V) ?snap r = (e1, r1)" by (metis surj_pair)
  have v1: "view r1 = view r" using s client_view_Set unfolding view_def by (auto simp: SetTickerAllREST_def)
  have same: "rc_calls r2 = rc_calls r" if "send_frame ?ch x r1 = (k, r2)" "rc_calls r1 = rc_calls r" for x k r1 r2
    using that up(2) by (auto simp: send_frame_def split: option.splits prod.splits)
  have ok1: "rc_calls r (rc_pos r) = Answered \<Longrightarrow> e1 = None" "rc_calls r1 = rc_calls r"
    using s rc_Set_ok rc_Set_frame unfolding SetTickerAllREST_def by (metis fst_conv, metis)
  show ?thesis
  proof (cases e1)
    case (Some e)
    with t s have "r' = r1" "p' = p" by (simp_all add: stream_tick_def Let_def)
    with v1 Some ok1 show ?thesis by (intro unsent) (auto simp: fine_def)
  next
    case None
    show ?thesis
    proof (cases "?prev = []")
      case True
      let ?m = "MarshalSnapshot (sv_enc V) (WSStream q) (ta_SnapshotID ?snap) ts (int (ta_Count ?snap)) (ItemsFromCompactMap cur)"
      have m: "?m = sv_enc V (fr TypeSnapshot (SnapshotData (int (ta_Count ?snap)) (ItemsFromCompactMap cur)))"
        by (simp add: MarshalSnapshot_def fr_def)
      obtain ok r2 where sf: "send_frame ?ch ?m r1 = (ok, r2)" by (metis surj_pair)
      have res: "(r', p') = (case ok of False \<Rightarrow> (r2, p) | True \<Rightarrow>
          (r2, count_published (p\<lparr>sp_lastItems := (sp_lastItems p)(qk := cur), sp_lastHeartbeat := (sp_lastHeartbeat p)(qk := at)\<rparr>)))"
        using t s None True sf unfolding stream_tick_def Let_def cur_def qk_def ts_def by (simp split: bool.splits)
      show ?thesis
      proof (cases "send_frame ?ch ?m r1 = (True, r2)")
        case sent: True
        then obtain b where b: "?m = Some b" "PublishTickerAllWS ?ch b r1 = (None, r2)"
          by (auto simp: send_frame_def split: option.splits prod.splits)
        from ws [OF b(1) [unfolded m] b(2) _ ok1(2)] sent sf res show ?thesis
          by (intro snapshot) (auto simp: client_frame_def fr_def count_published_def)
      next
        case False
        then have "\<not> ok" using sf by auto
        moreover have "view r2 = view r1"
          using sf \<open>\<not> ok\<close> ws m ok1(2) by (fastforce simp: send_frame_def split: option.splits prod.splits)
        moreover have "\<not> fine"
          unfolding fine_def using sf \<open>\<not> ok\<close> up(1) ok1 m by (auto simp: send_frame_def split: option.splits prod.splits)
        ultimately show ?thesis using res v1 by (intro unsent) auto
      qed
    next
      case prev: False
      let ?delta = "Diff ?prev cur"
      let ?m = "MarshalDelta (sv_enc V) (WSStream q) (ta_SnapshotID ?snap) ts ?delta"
      have m: "?m = sv_enc V (fr TypeDelta (DeltaData ?delta))" if "?delta \<noteq> []"
        using that by (simp add: MarshalDelta_def fr_def)
      define mid where "mid = (if ?delta = [] then (True, r1, p)
           else (case send_frame ?ch ?m r1 of
                   (False, r2) \<Rightarrow> (False, r2, p)
                 | (True, r2) \<Rightarrow> (True, r2, count_published (p\<lparr>sp_lastItems := (sp_lastItems p)(qk := cur)\<rparr>))))"
      obtain ok r2 p1 where md: "mid = (ok, r2, p1)" by (metis prod_cases3)
      let ?h = "MarshalHeartbeat (sv_enc V) (WSStream q) (ta_SnapshotID ?snap) ts"
      have res: "(r', p') = (if \<not> ok \<or> \<not> hb \<le> at - sp_lastHeartbeat p qk then (r2, p1)
          else (case ?h of None \<Rightarrow> (r2, p1)
                | Some b \<Rightarrow> (snd (PublishTickerAllWS ?ch b r2), count_published (p1\<lparr>sp_lastHeartbeat := (sp_lastHeartbeat p1)(qk := at)\<rparr>))))"
        using t s None prev md unfolding mid_def stream_tick_def Let_def cur_def qk_def ts_def by simp
      have "rc_calls r2 = rc_calls r" using md same ok1(2) by (auto simp: mid_def split: if_splits prod.splits bool.splits)
      then have "view (snd (PublishTickerAllWS ?ch b r2)) = view r2" if "?h = Some b" for b
        using ws [of TypeHeartbeat NoData b r2 "fst (PublishTickerAllWS ?ch b r2)" "snd (PublishTickerAllWS ?ch b r2)"] that
        by (simp add: MarshalHeartbeat_def fr_def client_frame_def)
      then have fin: "view r' = view r2" "sp_lastItems p' = sp_lastItems p1"
        using res by (auto simp: count_published_def split: if_splits option.splits)
      show ?thesis
      proof (cases "?delta = []")
        case True
        with md fin v1 prev show ?thesis by (intro unsent) (auto simp: mid_def)
      next
        case d: False
        obtain ok2 r3 where sf: "send_frame ?ch ?m r1 = (ok2, r3)" by (metis surj_pair)
        show ?thesis
        proof (cases ok2)
          case True
          then obtain b where b: "?m = Some b" "PublishTickerAllWS ?ch b r1 = (None, r3)"
            using sf by (auto simp: send_frame_def split: option.splits prod.splits)
          from ws [OF b(1) [unfolded m [OF d]] b(2) _ ok1(2)] sf md fin True d v1 prev show ?thesis
            by (intro delta) (auto simp: mid_def client_frame_def fr_def count_published_def)
        next
          case False
          have "view r3 = view r1"
            using sf False ws m [OF d] ok1(2) by (fastforce simp: send_frame_def split: option.splits prod.splits)
          moreover have "\<not> fine"
            unfolding fine_def using sf False up(1) ok1 m [OF d] by (auto simp: send_frame_def split: option.splits prod.splits)
          ultimately show ?thesis using sf md fin False d v1 by (intro unsent) (auto simp: mid_def)
        qed
      qed
    qed
  qed
qed

text \<open>
  C27. A client that takes the snapshot and applies the deltas holds, for every pair of the stream,
  the values last sent, also when writes to Redis fail in between (as long as no publication is carried
  out whose answer is lost); after a tick without failure these
  are the current tickers. It is required that no pair lost its ticker since the last frame.
\<close>
theorem ticker_stream_exact:
  assumes c: "codec_ok (sv_libs V)" "\<forall>n d. sv_fixed V n d \<noteq> []" and fc: "frame_codec_ok (sv_enc V) dec"
    and t: "stream_tick V q at hb ms (r, p) = (r', p')" and lost: "\<forall>n. rc_calls r n \<noteq> AnswerLost"
  defines "cur \<equiv> compactMapFromStore (sv_libs V) (sv_fixed V) (BuildTickerAllSnapshot (sv_libs V) (sv_sha1 V) q ms)"
    and "qk \<equiv> NormalizeQuoteAsset q" and "view \<equiv> client_view dec (PubSubChannel q)"
  assumes ok: "items_ok (sp_lastItems p qk)" and sub: "fst ` set (sp_lastItems p qk) \<subseteq> fst ` set cur"
    and v: "view r = map_of (sp_lastItems p qk)"
  shows "view r' = map_of (sp_lastItems p' qk) \<and> items_ok (sp_lastItems p' qk) \<and>
    ((\<forall>n. rc_calls r n = Answered) \<and> (\<forall>f. sv_enc V f \<noteq> None) \<longrightarrow> view r' = map_of cur)"
proof -
  have cur: "items_ok cur" unfolding cur_def using c by (intro compactMapFromStore_ok) auto
  from t fc lost show ?thesis
  proof (cases rule: stream_tick_cases [where dec = dec])
    case unsent
    then show ?thesis using v ok Diff_merges [OF ok cur sub] by (auto simp: cur_def qk_def view_def)
  next
    case snapshot
    then show ?thesis using snapshot_items [OF cur] cur by (simp add: cur_def qk_def view_def)
  next
    case delta
    then show ?thesis using Diff_merges [OF ok cur sub] cur v by (simp add: cur_def qk_def view_def)
  qed
qed


definition wit_tickers :: "int market_store" where
  "wit_tickers = [(''A-USDT'', new_symbol\<lparr>sy_Ticker := no_ticker\<lparr>tk_LastPrice := 5, tk_UpdatedAtMs := 9\<rparr>\<rparr>)]"

definition wit_item :: compact_item where
  "wit_item = \<lparr> ci_S = ''A-USDT'', ci_P = ''5'', ci_V = ''0'', ci_Q = ''0'', ci_C = ''0'' \<rparr>"

definition wit_frame :: frame where
  "wit_frame = \<lparr> fm_Stream = ''ticker@all:USDT'', fm_Type = ''snapshot'', fm_SnapshotID = ''snap-x'', fm_Ts = 9,
     fm_Data = SnapshotData 1 [wit_item] \<rparr>"

definition wit_stream :: "int stream_env" where
  "wit_stream =
     \<lparr> sv_libs = int_libs, sv_fixed = (\<lambda>_ _. ''0.00''), sv_sha1 = (\<lambda>_. ''x''),
       sv_enc = (\<lambda>f. if f = wit_frame then Some [1] else None) \<rparr>"

definition wit_redis :: redis_state where
  "wit_redis = \<lparr> rc_keys = Map.empty, rc_lists = (\<lambda>_. []), rc_published = [], rc_calls = (\<lambda>_. Answered), rc_pos = 0 \<rparr>"

definition wit_publisher :: stream_state where
  "wit_publisher = \<lparr> sp_lastItems = (\<lambda>_. []), sp_lastHeartbeat = (\<lambda>_. 0), sp_published = 0 \<rparr>"

lemma wit_tick_sends:
  "sp_lastItems (snd (stream_tick wit_stream ''USDT'' 100 60 wit_tickers (wit_redis, wit_publisher))) ''USDT'' = [(''A-USDT'', wit_item)]"
proof -
  have q: "symbolQuoteAsset ''A-USDT'' = ''USDT''" "NormalizeQuoteAsset ''USDT'' = ''USDT''" by code_simp+
  have d: "dec_to_string int_libs 5 = ''5''" by code_simp
  show ?thesis
    by (simp add: stream_tick_def wit_stream_def wit_tickers_def wit_redis_def wit_publisher_def Let_def BuildTickerAllSnapshot_def
        SnapshotTickerAll_def SnapshotTicker_def q d List.map_filter_simps no_ticker_def new_symbol_def computeTickerAllSnapshotID_def
        SetTickerAllREST_def rc_op_defs compactMapFromStore_def CompactItemFromFields_def FormatDecimal_def FormatPercent_def
        MarshalSnapshot_def WSStream_def PubSubChannel_def ItemsFromCompactMap_def frame_types send_frame_def wit_frame_def wit_item_def
        PublishTickerAllWS_def count_published_def)
qed

theorem ticker_stream_exact_witness:
  "client_view (\<lambda>b. if b = [1] then Some wit_frame else None) (PubSubChannel ''USDT'')
     (fst (stream_tick wit_stream ''USDT'' 100 60 wit_tickers (wit_redis, wit_publisher))) = [''A-USDT'' \<mapsto> wit_item]"
proof -
  obtain r' p' where t: "stream_tick wit_stream ''USDT'' 100 60 wit_tickers (wit_redis, wit_publisher) = (r', p')" by (metis surj_pair)
  have q: "NormalizeQuoteAsset ''USDT'' = ''USDT''" by code_simp
  have "client_view (\<lambda>b. if b = [1] then Some wit_frame else None) (PubSubChannel ''USDT'') r' = map_of (sp_lastItems p' (NormalizeQuoteAsset ''USDT''))"
  proof (rule conjunct1 [OF ticker_stream_exact [OF _ _ _ t]])
    show "codec_ok (sv_libs wit_stream)" using codec_ok_int_libs by (simp add: wit_stream_def)
    show "\<forall>n d. sv_fixed wit_stream n d \<noteq> []" by (simp add: wit_stream_def)
    show "frame_codec_ok (sv_enc wit_stream) (\<lambda>b. if b = [1] then Some wit_frame else None)"
      by (simp add: wit_stream_def frame_codec_ok_def)
  qed (simp_all add: wit_publisher_def wit_redis_def items_ok_def client_view_def)
  moreover have "sp_lastItems p' ''USDT'' = [(''A-USDT'', wit_item)]" using wit_tick_sends t by simp
  ultimately show ?thesis using t q by (simp only: q fst_conv) simp
qed

end
