(* ===== verification/MarketServer.thy ===== *)
theory MarketServer
  imports MarketDepth
begin

text \<open>
  Model of \<open>internal/marketdata/handler/server.go\<close>: the gRPC answers read from the store. A
  gRPC status is the error with the code's name; a protobuf decimal is its text. \<open>timestamppb\<close> is
  the parameter of theory \<open>Prelude\<close>.
\<close>

definition millisToTimestamp :: "'d libs \<Rightarrow> int \<Rightarrow> clock \<Rightarrow> tstamp \<times> clock" where
  "millisToTimestamp L ms clk =
     (if ms \<le> 0 then (let (t, clk1) = now clk in (ts_new L t, clk1))
      else (ts_new L (unix_epoch + ms * 1000000), clk))"

record pb_book_response =
  gb_Symbol :: string
  gb_LastUpdateId :: uint64
  gb_Bids :: "(string \<times> string) list"
  gb_Asks :: "(string \<times> string) list"
  gb_Timestamp :: tstamp

record pb_ticker =
  gt_Symbol :: string
  gt_LastPrice :: string
  gt_OpenPrice :: string
  gt_HighPrice :: string
  gt_LowPrice :: string
  gt_Volume :: string
  gt_QuoteVolume :: string
  gt_PriceChangePercent :: string
  gt_Timestamp :: tstamp

datatype pb_ticker_response = OneTicker pb_ticker | TickerItems "pb_ticker list"

record pb_reference_response =
  gr_Price :: string
  gr_UpdatedAtMs :: int
  gr_ResolvedKind :: int

record pb_ticker_all_item =
  gi_Symbol :: string
  gi_LastPrice :: string
  gi_Volume :: string
  gi_QuoteVolume :: string
  gi_PriceChangePercent :: string
  gi_Timestamp :: tstamp

record pb_ticker_all_response =
  ga_SnapshotId :: string
  ga_SnapshotTime :: "tstamp option"
  ga_Count :: nat
  ga_Items :: "pb_ticker_all_item list"
  ga_NotModified :: bool

definition toPBLevels :: "price_level list \<Rightarrow> (string \<times> string) list" where
  "toPBLevels lvs = map (\<lambda>lv. (pl_Price lv, pl_Quantity lv)) lvs"

definition GetOrderBook ::
  "('d::linordered_idom) libs \<Rightarrow> string \<Rightarrow> int \<Rightarrow> 'd market_store \<Rightarrow> clock \<Rightarrow> (err + pb_book_response) \<times> clock" where
  "GetOrderBook L s limit ms clk =
     (if s = [] then (Inl ErrInvalidArgument, clk)
      else (case SnapshotOrderBook L s limit ms of
              None \<Rightarrow> (Inl ErrNotFound, clk)
            | Some snap \<Rightarrow>
                (let (ts, clk1) = millisToTimestamp L (ob_UpdatedAtMs snap) clk
                 in (Inr \<lparr> gb_Symbol = ob_Symbol snap, gb_LastUpdateId = ob_LastUpdateID snap, gb_Bids = toPBLevels (ob_Bids snap),
                          gb_Asks = toPBLevels (ob_Asks snap), gb_Timestamp = ts \<rparr>, clk1))))"

definition toPBTicker ::
  "('d::zero) libs \<Rightarrow> (int \<Rightarrow> 'd \<Rightarrow> string) \<Rightarrow> string \<Rightarrow> 'd ticker_state \<Rightarrow> clock \<Rightarrow> pb_ticker \<times> clock" where
  "toPBTicker L stringFixed s t clk =
     (let (ts, clk1) = millisToTimestamp L (tk_UpdatedAtMs t) clk
      in (\<lparr> gt_Symbol = s, gt_LastPrice = FormatDecimal L (tk_LastPrice t), gt_OpenPrice = FormatDecimal L (tk_OpenPrice t),
            gt_HighPrice = FormatDecimal L (tk_HighPrice t), gt_LowPrice = FormatDecimal L (tk_LowPrice t),
            gt_Volume = FormatDecimal L (tk_Volume t), gt_QuoteVolume = FormatDecimal L (tk_QuoteVolume t),
            gt_PriceChangePercent = FormatPercent stringFixed (tk_PriceChangePercent t), gt_Timestamp = ts \<rparr>, clk1))"

fun ticker_list ::
  "('d::zero) libs \<Rightarrow> (int \<Rightarrow> 'd \<Rightarrow> string) \<Rightarrow> 'd market_store \<Rightarrow> string list \<Rightarrow> clock \<Rightarrow> pb_ticker list \<times> clock" where
  "ticker_list L stringFixed ms [] clk = ([], clk)"
| "ticker_list L stringFixed ms (s # ss) clk =
     (case SnapshotTicker s ms of
        None \<Rightarrow> ticker_list L stringFixed ms ss clk
      | Some t \<Rightarrow>
          if tk_UpdatedAtMs t = 0 then ticker_list L stringFixed ms ss clk
          else (let (x, clk1) = toPBTicker L stringFixed s t clk; (xs, clk2) = ticker_list L stringFixed ms ss clk1
                in (x # xs, clk2)))"

definition GetTicker ::
  "('d::zero) libs \<Rightarrow> (int \<Rightarrow> 'd \<Rightarrow> string) \<Rightarrow> string \<Rightarrow> string list \<Rightarrow> 'd market_store \<Rightarrow> clock \<Rightarrow>
     (err + pb_ticker_response) \<times> clock" where
  "GetTicker L stringFixed s ss ms clk =
     (if s \<noteq> [] then
        (case SnapshotTicker s ms of
           None \<Rightarrow> (Inl ErrNotFound, clk)
         | Some t \<Rightarrow>
             if tk_UpdatedAtMs t = 0 then (Inl ErrNotFound, clk)
             else (let (x, clk1) = toPBTicker L stringFixed s t clk in (Inr (OneTicker x), clk1)))
      else if ss = [] then (Inl ErrInvalidArgument, clk)
      else if 100 < length ss then (Inl ErrInvalidArgument, clk)
      else (let (xs, clk1) = ticker_list L stringFixed ms ss clk in (Inr (TickerItems xs), clk1)))"

definition KIND_UNSPECIFIED :: int where "KIND_UNSPECIFIED = 0"
definition KIND_BEST_ASK :: int where "KIND_BEST_ASK = 1"
definition KIND_MARK :: int where "KIND_MARK = 2"
definition KIND_LAST :: int where "KIND_LAST = 3"

definition toStoreReferenceKind :: "int \<Rightarrow> err + reference_kind" where
  "toStoreReferenceKind kind =
     (if kind = KIND_UNSPECIFIED \<or> kind = KIND_BEST_ASK then Inr ReferencePriceBestAsk
      else if kind = KIND_MARK then Inr ReferencePriceMark
      else if kind = KIND_LAST then Inr ReferencePriceLast
      else Inl ErrInvalidArgument)"

definition toPBReferenceKind :: "reference_kind \<Rightarrow> int" where
  "toPBReferenceKind kind =
     (case kind of ReferencePriceBestAsk \<Rightarrow> KIND_BEST_ASK | ReferencePriceMark \<Rightarrow> KIND_MARK | ReferencePriceLast \<Rightarrow> KIND_LAST)"

definition GetReferencePrice ::
  "('d::linordered_idom) libs \<Rightarrow> string \<Rightarrow> int \<Rightarrow> 'd market_store \<Rightarrow> err + pb_reference_response" where
  "GetReferencePrice L s kind ms =
     (if s = [] then Inl ErrInvalidArgument
      else (case toStoreReferenceKind kind of
              Inl e \<Rightarrow> Inl e
            | Inr k \<Rightarrow>
                (case ReferencePrice L s k ms of
                   None \<Rightarrow> Inl ErrFailedPrecondition
                 | Some ref \<Rightarrow>
                     Inr \<lparr> gr_Price = rp_Price ref, gr_UpdatedAtMs = rp_UpdatedAtMs ref, gr_ResolvedKind = toPBReferenceKind (rp_Kind ref) \<rparr>)))"

fun ticker_all_items ::
  "('d::zero) libs \<Rightarrow> (int \<Rightarrow> 'd \<Rightarrow> string) \<Rightarrow> 'd ticker_snapshot list \<Rightarrow> clock \<Rightarrow> pb_ticker_all_item list \<times> clock" where
  "ticker_all_items L stringFixed [] clk = ([], clk)"
| "ticker_all_items L stringFixed (it # its) clk =
     (let t = tn_TickerState it;
          (ts, clk1) = millisToTimestamp L (tk_UpdatedAtMs t) clk;
          (xs, clk2) = ticker_all_items L stringFixed its clk1
      in (\<lparr> gi_Symbol = tn_Symbol it, gi_LastPrice = FormatDecimal L (tk_LastPrice t), gi_Volume = FormatDecimal L (tk_Volume t),
            gi_QuoteVolume = FormatDecimal L (tk_QuoteVolume t),
            gi_PriceChangePercent = FormatPercent stringFixed (tk_PriceChangePercent t), gi_Timestamp = ts \<rparr> # xs, clk2))"

definition GetTickerAllSnapshot ::
  "('d::zero) libs \<Rightarrow> (int \<Rightarrow> 'd \<Rightarrow> string) \<Rightarrow> (string \<Rightarrow> string) \<Rightarrow> string \<Rightarrow> string \<Rightarrow> 'd market_store \<Rightarrow> clock \<Rightarrow>
     pb_ticker_all_response \<times> clock" where
  "GetTickerAllSnapshot L stringFixed sha1_hex quoteAsset snapshotId ms clk =
     (let snap = BuildTickerAllSnapshot L sha1_hex quoteAsset ms
      in if snapshotId \<noteq> [] \<and> snapshotId = ta_SnapshotID snap then
           (\<lparr> ga_SnapshotId = ta_SnapshotID snap, ga_SnapshotTime = None, ga_Count = ta_Count snap, ga_Items = [], ga_NotModified = True \<rparr>, clk)
         else (let (its, clk1) = ticker_all_items L stringFixed (ta_Items snap) clk;
                   (ts, clk2) = millisToTimestamp L (ta_SnapshotTime snap) clk1
               in (\<lparr> ga_SnapshotId = ta_SnapshotID snap, ga_SnapshotTime = Some ts, ga_Count = ta_Count snap, ga_Items = its,
                     ga_NotModified = False \<rparr>, clk2)))"

text \<open>
  The reference price that the order service freezes market orders by: when the pair has an ask in
  the mirror, it is the lowest one, whatever was traded before.
\<close>

lemma reference_price_is_best_ask:
  assumes "codec_ok L" "side_ok L (bm_Asks (sy_OrderBook st))" "map_of ms s = Some st" "s \<noteq> []"
    and "depth_of (bs_Orders (bm_Asks (sy_OrderBook st))) False = (p, q) # r"
  shows "GetReferencePrice L s KIND_UNSPECIFIED ms =
    Inr \<lparr> gr_Price = dec_to_string L p, gr_UpdatedAtMs = tk_UpdatedAtMs (sy_Ticker st), gr_ResolvedKind = KIND_BEST_ASK \<rparr>"
  using assms snapshotLevels_depth [OF assms(1,2), of 1 False]
  by (simp add: GetReferencePrice_def toStoreReferenceKind_def ReferencePrice_def bestAsk_def toPBReferenceKind_def Let_def level_text_def)

text \<open>A client that repeats a request with the id it was given is told nothing changed.\<close>

lemma not_modified:
  assumes "GetTickerAllSnapshot L f sha q i ms clk = (resp, clk1)"
  shows "ga_NotModified (fst (GetTickerAllSnapshot L f sha q (ga_SnapshotId resp) ms clk2))"
proof -
  have id: "ga_SnapshotId resp = ta_SnapshotID (BuildTickerAllSnapshot L sha q ms)"
    using assms by (auto simp: GetTickerAllSnapshot_def Let_def split: if_splits prod.splits)
  moreover have "ta_SnapshotID (BuildTickerAllSnapshot L sha q ms) \<noteq> []"
    by (simp add: BuildTickerAllSnapshot_def computeTickerAllSnapshotID_def Let_def)
  ultimately show ?thesis by (simp add: GetTickerAllSnapshot_def Let_def)
qed

end
