(* ===== verification/OrderConsumer.thy ===== *)
theory OrderConsumer
  imports RepoProps MatchEvents ConsumerLoop RedisClient
begin

text \<open>
  Model of \<open>internal/order/consumer\<close> (\<open>match_handler.go\<close>, \<open>trade_handler.go\<close>, \<open>run.go\<close>) and
  \<open>internal/order/publisher/redis.go\<close>: the events of the matching engine booked into the order
  database, and the update pushed to the user. A delivery is a message with the time at which it is
  handled. The JSON text of a frame is its record.
\<close>

type_synonym delivery = "message \<times> time"

section \<open>Handlers\<close>

record order_update =
  ou_OrderID :: string
  ou_UserID :: uint64
  ou_Symbol :: string
  ou_Status :: string
  ou_Side :: int
  ou_OrderType :: int
  ou_Quantity :: string
  ou_FilledQuantity :: string
  ou_EventType :: int
  ou_WalSeq :: uint64

record order_frame =
  of_Stream :: string
  of_Type :: string
  of_Ts :: int
  of_Data :: order_update

definition order_frame_of :: "porder \<Rightarrow> int \<Rightarrow> uint64 \<Rightarrow> time \<Rightarrow> order_frame" where
  "order_frame_of od eventType walSeq t =
     \<lparr> of_Stream = ''order'', of_Type = ''update'', of_Ts = unix_nano t div 1000000,
       of_Data = \<lparr> ou_OrderID = show_nat (unat (po_ID od)), ou_UserID = po_UserID od, ou_Symbol = po_Symbol od,
         ou_Status = po_Status od, ou_Side = po_Side od, ou_OrderType = po_OrderType od, ou_Quantity = po_Quantity od,
         ou_FilledQuantity = po_FilledQuantity od, ou_EventType = eventType, ou_WalSeq = walSeq \<rparr> \<rparr>"

definition PublishOrderUpdate ::
  "porder \<Rightarrow> int \<Rightarrow> uint64 \<Rightarrow> time \<Rightarrow> order_frame redis \<Rightarrow> err option \<times> order_frame redis" where
  "PublishOrderUpdate od eventType walSeq t r =
     (if po_UserID od = 0 then (Some (ErrMsg ''order publisher: order with user_id is required''), r)
      else rc_Publish (''order:'' @ show_nat (unat (po_UserID od))) (order_frame_of od eventType walSeq t) r)"

text \<open>The publisher may be absent.\<close>

type_synonym 'd order_side = "'d db \<times> order_frame redis option"

definition match_apply_of :: "('d::linordered_idom) libs \<Rightarrow> match_event \<Rightarrow> err + match_apply" where
  "match_apply_of L ev =
     (let apply = (\<lambda>filled. \<lparr> me_OrderID = mv_OrderId ev, me_Symbol = mv_Symbol ev, me_EventType = mv_EventType ev,
             me_WalSeq = mv_WalSeq ev, me_FilledQuantity = filled \<rparr>)
      in case mv_Order ev of
           None \<Rightarrow> Inr (apply None)
         | Some od \<Rightarrow>
             if p_Quantity od = None \<or> p_Remaining od = None then Inr (apply None)
             else (case FilledQuantityFromRemaining L (GetValue (p_Quantity od)) (GetValue (p_Remaining od)) of
                     Inl e \<Rightarrow> Inl e
                   | Inr s \<Rightarrow> Inr (apply (Some s))))"

definition order_match_Process ::
  "('d::linordered_idom) denv \<Rightarrow> event_codec \<Rightarrow> delivery \<Rightarrow> 'd order_side \<Rightarrow> err option \<times> 'd order_side" where
  "order_match_Process D K m st =
     (case m of (msg, t) \<Rightarrow>
      let (db0, pub) = st; db = db0\<lparr>db_now := t\<rparr>
      in case UnmarshalMatchEvent K (ms_value msg) of
           None \<Rightarrow> (Some (ErrMsg ''match handler: decode''), db, pub)
         | Some ev \<Rightarrow>
             if mv_OrderId ev = 0 then (Some (ErrMsg ''match handler: order_id is required''), db, pub)
             else if mv_EventType ev = 0 then (Some (ErrMsg ''match handler: event_type is required''), db, pub)
             else (case match_apply_of (de_libs D) ev of
                     Inl e \<Rightarrow> (Some e, db, pub)
                   | Inr inp \<Rightarrow>
                  (case ApplyMatchEvent D inp db of
                     (Inl e, db1) \<Rightarrow> (Some e, db1, pub)
                   | (Inr applied, db1) \<Rightarrow>
                  (case pub of
                     None \<Rightarrow> (None, db1, pub)
                   | Some r \<Rightarrow>
                       if \<not> applied then (None, db1, pub)
                       else (case getOrderByID D (mv_OrderId ev) db1 of
                               (Inl e, db2) \<Rightarrow> (Some e, db2, pub)
                             | (Inr od, db2) \<Rightarrow>
                                 (let (e, r1) = PublishOrderUpdate od (mv_EventType ev) (mv_WalSeq ev) t r
                                  in (e, db2, Some r1)))))))"

definition trade_apply_of :: "trade_event \<Rightarrow> err + trade_apply" where
  "trade_apply_of ev =
     (case tv_Trade ev of
        None \<Rightarrow> Inl (ErrMsg ''trade handler: trade_id is required'')
      | Some tr \<Rightarrow>
          if pt_TradeId tr = 0 then Inl (ErrMsg ''trade handler: trade_id is required'')
          else if pt_Price tr = None \<or> pt_Quantity tr = None then Inl (ErrMsg ''trade handler: price and quantity are required'')
          else Inr \<lparr> ta_TradeID = pt_TradeId tr, ta_Symbol = pt_Symbol tr, ta_Price = GetValue (pt_Price tr),
                     ta_Quantity = GetValue (pt_Quantity tr), ta_MakerOrderID = pt_MakerOrderId tr,
                     ta_TakerOrderID = pt_TakerOrderId tr, ta_WalSeq = tv_WalSeq ev \<rparr>)"

definition order_trade_Process ::
  "('d::linordered_idom) denv \<Rightarrow> event_codec \<Rightarrow> delivery \<Rightarrow> 'd db \<Rightarrow> err option \<times> 'd db" where
  "order_trade_Process D K m db0 =
     (case m of (msg, t) \<Rightarrow>
      let db = db0\<lparr>db_now := t\<rparr>
      in case UnmarshalTradeEvent K (ms_value msg) of
           None \<Rightarrow> (Some (ErrMsg ''trade handler: decode''), db)
         | Some ev \<Rightarrow>
             (case trade_apply_of ev of
                Inl e \<Rightarrow> (Some e, db)
              | Inr inp \<Rightarrow> (case ApplyTradeEvent D inp db of (Inl e, db1) \<Rightarrow> (Some e, db1) | (Inr _, db1) \<Rightarrow> (None, db1))))"

definition StaleEventError :: "err \<Rightarrow> bool" where
  "StaleEventError e \<longleftrightarrow> e = ErrOrderNotFound \<or> e = ErrSkippableEvent"

definition order_Run :: "('m \<Rightarrow> 's \<Rightarrow> err option \<times> 's) \<Rightarrow> ('m \<Rightarrow> bool) \<Rightarrow> 'm topic_read list \<Rightarrow> 's \<Rightarrow> err option \<times> 'm list \<times> 's" where
  "order_Run proc commits rs s = consume StaleEventError proc commits rs s"

section \<open>Every trade is booked once\<close>

definition trade_id_of :: "event_codec \<Rightarrow> delivery \<Rightarrow> uint64 option" where
  "trade_id_of K m =
     (case UnmarshalTradeEvent K (ms_value (fst m)) of
        None \<Rightarrow> None
      | Some ev \<Rightarrow> (case trade_apply_of ev of Inl _ \<Rightarrow> None | Inr inp \<Rightarrow> Some (ta_TradeID inp)))"

text \<open>One delivery: what it leaves of the invariants, and what an acknowledgement means.\<close>

lemma order_trade_Process_keeps:
  "traded k (db_tables db) \<Longrightarrow> traded k (db_tables (snd (order_trade_Process D K m db)))"
  "accounts_ok (db_tables db) \<Longrightarrow> accounts_ok (db_tables (snd (order_trade_Process D K m db)))"
  using trd.repo_run_keeps [of k "db\<lparr>db_now := snd m\<rparr>" D undefined "RTrade inp" for inp]
    acc.repo_run_keeps [of "db\<lparr>db_now := snd m\<rparr>" D undefined "RTrade inp" for inp]
  by (auto simp: order_trade_Process_def Let_def split: prod.splits option.splits sum.splits) (metis snd_conv)+

lemma order_trade_Process_done:
  assumes "order_trade_Process D K m db = (None, db')"
  shows "\<exists>k. trade_id_of K m = Some k \<and> traded k (db_tables db')"
  using assms trade_recorded [of D _ "db\<lparr>db_now := snd m\<rparr>" "Inr ()" db']
  by (auto simp: order_trade_Process_def trade_id_of_def Let_def split: prod.splits option.splits sum.splits)

lemma order_trade_Process_again:
  assumes "trade_id_of K m = Some k" "traded k (db_tables db)"
  shows "db_tables (snd (order_trade_Process D K m db)) = db_tables db"
proof -
  obtain ev inp where i: "UnmarshalTradeEvent K (ms_value (fst m)) = Some ev" "trade_apply_of ev = Inr inp" "ta_TradeID inp = k"
    using assms(1) by (auto simp: trade_id_of_def split: option.splits sum.splits)
  obtain r db' where a: "ApplyTradeEvent D inp (db\<lparr>db_now := snd m\<rparr>) = (r, db')" by (metis surj_pair)
  have "db_tables db' = db_tables (db\<lparr>db_now := snd m\<rparr>)"
    by (rule trade_known_unchanged [OF _ a]) (use i(3) assms(2) in simp)
  with a i show ?thesis by (cases m) (auto simp: order_trade_Process_def Let_def split: sum.splits)
qed


text \<open>What the offsets that a run commits say of the tables after it.\<close>

lemma run_traded:
  assumes run: "order_Run (order_trade_Process D K) commits rs db = (e, ms, db')" and acc: "accounts_ok (db_tables db)"
  shows "(\<forall>m \<in> set ms. (\<exists>k. trade_id_of K m = Some k \<and> traded k (db_tables db')) \<or>
      (\<exists>db1 x. order_trade_Process D K m db1 = (Some x, snd (order_trade_Process D K m db1)) \<and> StaleEventError x)) \<and>
    accounts_ok (db_tables db') \<and> (\<forall>k. traded k (db_tables db) \<longrightarrow> traded k (db_tables db'))"
  using run acc unfolding order_Run_def
proof (induction rs arbitrary: db e ms db')
  case (Cons rd rs)
  show ?case
  proof (cases rd)
    case (Got m)
    obtain x db1 where p: "order_trade_Process D K m db = (x, db1)" by (metis surj_pair)
    have keep: "accounts_ok (db_tables db1)" "traded k (db_tables db) \<Longrightarrow> traded k (db_tables db1)" for k
      using order_trade_Process_keeps(1) [of k db D K m] order_trade_Process_keeps(2) [of db D K m] Cons.prems(2) p by auto
    show ?thesis
    proof (cases "(x = None \<or> (\<exists>y. x = Some y \<and> StaleEventError y)) \<and> commits m")
      case True
      obtain r ms1 db2 where c: "consume StaleEventError (order_trade_Process D K) commits rs db1 = (r, ms1, db2)" by (metis prod_cases3)
      have e: "ms = m # ms1" "db' = db2" using Cons.prems(1) Got p True c by auto
      note ih = Cons.IH [OF c keep(1)]
      have "(\<exists>k. trade_id_of K m = Some k \<and> traded k (db_tables db2)) \<or>
          (\<exists>db1 x. order_trade_Process D K m db1 = (Some x, snd (order_trade_Process D K m db1)) \<and> StaleEventError x)"
      proof (cases x)
        case None
        with order_trade_Process_done [of D K m db db1] p ih show ?thesis by auto
      next
        case (Some y)
        with True p have "order_trade_Process D K m db = (Some y, snd (order_trade_Process D K m db)) \<and> StaleEventError y" by simp
        then show ?thesis by blast
      qed
      with ih keep(2) e show ?thesis by auto
    next
      case False
      with Cons.prems(1) Got p have "ms = []" "db' = db1" by (auto split: if_splits)
      with keep show ?thesis by auto
    qed
  qed (use Cons.prems in auto)
qed auto



definition wit_event_codec :: event_codec where
  "wit_event_codec =
     \<lparr> MarshalMatchEvent = (\<lambda>_. None), MarshalTradeEvent = (\<lambda>_. None), UnmarshalMatchEvent = (\<lambda>_. None),
       UnmarshalTradeEvent = (\<lambda>_. Some \<lparr> tv_Trade = Some \<lparr> pt_TradeId = 11, pt_Symbol = ''BTC-USDT'', pt_CreateTime = None,
         pt_Price = Some ''90'', pt_Quantity = Some ''5'', pt_MakerOrderId = 1, pt_TakerOrderId = 2 \<rparr>, tv_WalSeq = 3 \<rparr>) \<rparr>"

definition wit_delivery :: delivery where
  "wit_delivery = (\<lparr> ms_key = ''BTC-USDT'', ms_value = [] \<rparr>, 7)"


end
