(* ===== verification/KlineBars.thy ===== *)
theory KlineBars
  imports MarketConsumer
begin

text \<open>
  Model of \<open>pkg/kline/interval\<close>, \<open>pkg/kline/bar\<close> and \<open>internal/kline/aggregator\<close>: candles. An
  interval is its name, as in the code; times are milliseconds. Each pair has its own lock, so a trade
  is applied to one interval of a pair in one step. The callback \<open>onClose\<close> is replaced by the list
  of the bars it is called with.
\<close>

section \<open>Intervals\<close>

definition Sec1 :: string where "Sec1 = ''1s''"
definition Min1 :: string where "Min1 = ''1m''"
definition Min15 :: string where "Min15 = ''15m''"
definition Hour1 :: string where "Hour1 = ''1h''"
definition Hour4 :: string where "Hour4 = ''4h''"
definition Hour6 :: string where "Hour6 = ''6h''"
definition Day1 :: string where "Day1 = ''1d''"

lemmas interval_defs = Sec1_def Min1_def Min15_def Hour1_def Hour4_def Hour6_def Day1_def

definition DefaultIntervals :: "string list" where
  "DefaultIntervals = [Sec1, Min1, Min15, Hour1, Hour4, Hour6, Day1]"

definition interval_Parse :: "string \<Rightarrow> err + string" where
  "interval_Parse s =
     (let iv = trim_space s in if iv \<in> set DefaultIntervals then Inr iv else Inl (ErrMsg ''unsupported interval''))"

text \<open>\<open>Duration\<close> in nanoseconds.\<close>

definition interval_Duration :: "string \<Rightarrow> int" where
  "interval_Duration i =
     (if i = Sec1 then 1000000000
      else if i = Min1 then 60 * 1000000000
      else if i = Min15 then 15 * (60 * 1000000000)
      else if i = Hour1 then 3600 * 1000000000
      else if i = Hour4 then 4 * (3600 * 1000000000)
      else if i = Hour6 then 6 * (3600 * 1000000000)
      else if i = Day1 then 24 * (3600 * 1000000000)
      else 0)"

definition DurationMs :: "string \<Rightarrow> int" where
  "DurationMs i = interval_Duration i div 1000000"

text \<open>The \<open>%\<close> of Go has the sign of the dividend.\<close>

definition go_rem :: "int \<Rightarrow> int \<Rightarrow> int" where
  "go_rem a b = sgn a * (\<bar>a\<bar> mod \<bar>b\<bar>)"

definition BucketStartMs :: "string \<Rightarrow> int \<Rightarrow> int" where
  "BucketStartMs i tradeTimeMs =
     (let d = DurationMs i in if d \<le> 0 then tradeTimeMs else tradeTimeMs - go_rem tradeTimeMs d)"

definition CloseTimeMs :: "string \<Rightarrow> int \<Rightarrow> int" where
  "CloseTimeMs i openTimeMs = openTimeMs + DurationMs i - 1"

section \<open>Bars\<close>

record 'd ohlcv =
  kb_OpenTimeMs :: int
  kb_Open :: 'd
  kb_High :: 'd
  kb_Low :: 'd
  kb_Close :: 'd
  kb_Volume :: 'd
  kb_UpdatedAtMs :: int

definition NewFromTrade :: "int \<Rightarrow> 'd \<Rightarrow> 'd \<Rightarrow> int \<Rightarrow> 'd ohlcv" where
  "NewFromTrade openTimeMs price qty tradeTimeMs =
     \<lparr> kb_OpenTimeMs = openTimeMs, kb_Open = price, kb_High = price, kb_Low = price, kb_Close = price, kb_Volume = qty,
       kb_UpdatedAtMs = tradeTimeMs \<rparr>"

definition bar_ApplyTrade :: "('d::linordered_idom) \<Rightarrow> 'd \<Rightarrow> int \<Rightarrow> 'd ohlcv \<Rightarrow> 'd ohlcv" where
  "bar_ApplyTrade price qty tradeTimeMs b =
     b\<lparr>kb_High := max (kb_High b) price, kb_Low := min (kb_Low b) price, kb_Close := price,
       kb_Volume := kb_Volume b + qty, kb_UpdatedAtMs := tradeTimeMs\<rparr>"

record bar_json =
  bj_Symbol :: string
  bj_Interval :: string
  bj_OpenTimeMs :: int
  bj_CloseTimeMs :: int
  bj_Open :: string
  bj_High :: string
  bj_Low :: string
  bj_Close :: string
  bj_Volume :: string
  bj_IsClosed :: bool
  bj_TimestampMs :: int

definition bar_ToJSON :: "'d libs \<Rightarrow> string \<Rightarrow> string \<Rightarrow> 'd ohlcv \<Rightarrow> bool \<Rightarrow> bar_json" where
  "bar_ToJSON L s iv b closed =
     \<lparr> bj_Symbol = s, bj_Interval = iv, bj_OpenTimeMs = kb_OpenTimeMs b, bj_CloseTimeMs = CloseTimeMs iv (kb_OpenTimeMs b),
       bj_Open = dec_to_string L (kb_Open b), bj_High = dec_to_string L (kb_High b), bj_Low = dec_to_string L (kb_Low b),
       bj_Close = dec_to_string L (kb_Close b), bj_Volume = dec_to_string L (kb_Volume b), bj_IsClosed = closed,
       bj_TimestampMs = kb_UpdatedAtMs b \<rparr>"

section \<open>The aggregator\<close>

record 'd closed_event =
  ce_Symbol :: string
  ce_Interval :: string
  ce_Bar :: "'d ohlcv"

type_synonym 'd aggregator = "string \<Rightarrow> (string \<Rightarrow> 'd ohlcv option) option"

definition NewAggregator :: "'d aggregator" where
  "NewAggregator = (\<lambda>_. None)"

definition agg_getOrCreate :: "string \<Rightarrow> 'd aggregator \<Rightarrow> (string \<Rightarrow> 'd ohlcv option) \<times> 'd aggregator" where
  "agg_getOrCreate s a = (case a s of Some st \<Rightarrow> (st, a) | None \<Rightarrow> (Map.empty, a(s \<mapsto> Map.empty)))"

definition RestoreOpen :: "string \<Rightarrow> string \<Rightarrow> 'd ohlcv \<Rightarrow> 'd aggregator \<Rightarrow> 'd aggregator" where
  "RestoreOpen s iv b a = (let (st, a1) = agg_getOrCreate s a in a1(s \<mapsto> st(iv \<mapsto> b)))"

definition SnapshotOpen :: "string \<Rightarrow> string \<Rightarrow> 'd aggregator \<Rightarrow> 'd ohlcv option \<times> 'd aggregator" where
  "SnapshotOpen s iv a = (let (st, a1) = agg_getOrCreate s a in (st iv, a1))"

definition applyOneInterval ::
  "string \<Rightarrow> string \<Rightarrow> ('d::linordered_idom) \<Rightarrow> 'd \<Rightarrow> int \<Rightarrow> 'd aggregator \<Rightarrow> 'd closed_event option \<times> 'd aggregator" where
  "applyOneInterval s iv price qty tradeTimeMs a =
     (let bucketStart = BucketStartMs iv tradeTimeMs;
          (st, a1) = agg_getOrCreate s a
      in case st iv of
           None \<Rightarrow> (None, a1(s \<mapsto> st(iv \<mapsto> NewFromTrade bucketStart price qty tradeTimeMs)))
         | Some cur \<Rightarrow>
             if tradeTimeMs < kb_OpenTimeMs cur then (None, a1)
             else if bucketStart = kb_OpenTimeMs cur then (None, a1(s \<mapsto> st(iv \<mapsto> bar_ApplyTrade price qty tradeTimeMs cur)))
             else (Some \<lparr> ce_Symbol = s, ce_Interval = iv, ce_Bar = cur \<rparr>,
                   a1(s \<mapsto> st(iv \<mapsto> NewFromTrade bucketStart price qty tradeTimeMs))))"

fun apply_intervals ::
  "string \<Rightarrow> ('d::linordered_idom) \<Rightarrow> 'd \<Rightarrow> int \<Rightarrow> string list \<Rightarrow> 'd aggregator \<Rightarrow> 'd closed_event list \<times> 'd aggregator" where
  "apply_intervals s price qty t [] a = ([], a)"
| "apply_intervals s price qty t (iv # ivs) a =
     (let (ev, a1) = applyOneInterval s iv price qty t a; (evs, a2) = apply_intervals s price qty t ivs a1
      in (case ev of None \<Rightarrow> evs | Some e \<Rightarrow> e # evs, a2))"

definition agg_ApplyTrade ::
  "('d::linordered_idom) libs \<Rightarrow> string \<Rightarrow> string \<Rightarrow> string \<Rightarrow> int \<Rightarrow> 'd aggregator \<Rightarrow> (err + 'd closed_event list) \<times> 'd aggregator" where
  "agg_ApplyTrade L s priceStr qtyStr tradeTimeMs a =
     (if s = [] then (Inl (ErrMsg ''symbol is required''), a)
      else (case parseDecimal L priceStr of Inl e \<Rightarrow> (Inl e, a)
      | Inr price \<Rightarrow>
     (case parseDecimal L qtyStr of Inl e \<Rightarrow> (Inl e, a)
      | Inr qty \<Rightarrow> (let (evs, a1) = apply_intervals s price qty tradeTimeMs DefaultIntervals a in (Inr evs, a1)))))"

section \<open>Candles are the buckets of the trades\<close>

text \<open>
  The reference: the bar of one bucket from its trades, and the bars of a run of trades whose buckets
  do not decrease.
\<close>

definition bar_of :: "int \<Rightarrow> ('d::linordered_idom) trade_tick list \<Rightarrow> 'd ohlcv" where
  "bar_of b tks =
     \<lparr> kb_OpenTimeMs = b, kb_Open = tt_Price (hd tks), kb_High = Max (tt_Price ` set tks), kb_Low = Min (tt_Price ` set tks),
       kb_Close = tt_Price (List.last tks), kb_Volume = (\<Sum>tk\<leftarrow>tks. tt_Qty tk), kb_UpdatedAtMs = tt_TimeMs (List.last tks) \<rparr>"

definition bucket :: "string \<Rightarrow> 'd trade_tick \<Rightarrow> int" where
  "bucket iv tk = BucketStartMs iv (tt_TimeMs tk)"

definition bars_of :: "string \<Rightarrow> ('d::linordered_idom) trade_tick list \<Rightarrow> 'd ohlcv list" where
  "bars_of iv tks = map (\<lambda>b. bar_of b (filter (\<lambda>tk. bucket iv tk = b) tks)) (remdups_adj (map (bucket iv) tks))"

definition bars_at :: "'d aggregator \<Rightarrow> string \<Rightarrow> string \<Rightarrow> 'd ohlcv option" where
  "bars_at a s iv = (case a s of None \<Rightarrow> None | Some st \<Rightarrow> st iv)"

definition closed_bars :: "string \<Rightarrow> 'd closed_event list \<Rightarrow> 'd ohlcv list" where
  "closed_bars iv evs = map ce_Bar (filter (\<lambda>e. ce_Interval e = iv) evs)"

text \<open>One trade on the bar of one interval, on its own.\<close>

definition bar_step :: "string \<Rightarrow> ('d::linordered_idom) trade_tick \<Rightarrow> 'd ohlcv option \<Rightarrow> 'd ohlcv list \<times> 'd ohlcv option" where
  "bar_step iv tk c =
     (case c of
        None \<Rightarrow> ([], Some (NewFromTrade (bucket iv tk) (tt_Price tk) (tt_Qty tk) (tt_TimeMs tk)))
      | Some cur \<Rightarrow>
          if tt_TimeMs tk < kb_OpenTimeMs cur then ([], Some cur)
          else if bucket iv tk = kb_OpenTimeMs cur then ([], Some (bar_ApplyTrade (tt_Price tk) (tt_Qty tk) (tt_TimeMs tk) cur))
          else ([cur], Some (NewFromTrade (bucket iv tk) (tt_Price tk) (tt_Qty tk) (tt_TimeMs tk))))"

lemma applyOneInterval_step:
  assumes "applyOneInterval s iv (tt_Price tk) (tt_Qty tk) (tt_TimeMs tk) a = (ev, a')"
  shows "bars_at a' s iv = snd (bar_step iv tk (bars_at a s iv))"
    and "closed_bars iv (case ev of None \<Rightarrow> [] | Some e \<Rightarrow> [e]) = fst (bar_step iv tk (bars_at a s iv))"
    and "iv' \<noteq> iv \<Longrightarrow> bars_at a' s iv' = bars_at a s iv'"
    and "iv' \<noteq> iv \<Longrightarrow> closed_bars iv' (case ev of None \<Rightarrow> [] | Some e \<Rightarrow> [e]) = []"
  using assms
  by (auto simp: applyOneInterval_def agg_getOrCreate_def bars_at_def bar_step_def bucket_def closed_bars_def Let_def
      split: option.splits if_splits) (metis closed_event.select_convs(3))

lemma closed_bars_append: "closed_bars iv (xs @ ys) = closed_bars iv xs @ closed_bars iv ys"
  by (simp add: closed_bars_def)

lemma apply_intervals_step:
  assumes "distinct ivs" "apply_intervals s (tt_Price tk) (tt_Qty tk) (tt_TimeMs tk) ivs a = (evs, a')"
  shows "if iv \<in> set ivs then bars_at a' s iv = snd (bar_step iv tk (bars_at a s iv)) \<and> closed_bars iv evs = fst (bar_step iv tk (bars_at a s iv))
    else bars_at a' s iv = bars_at a s iv \<and> closed_bars iv evs = []"
  using assms
proof (induction ivs arbitrary: a evs a')
  case Nil
  then show ?case by (simp add: closed_bars_def)
next
  case (Cons i ivs)
  obtain ev a1 where o: "applyOneInterval s i (tt_Price tk) (tt_Qty tk) (tt_TimeMs tk) a = (ev, a1)" by (metis surj_pair)
  obtain evs1 a2 where r: "apply_intervals s (tt_Price tk) (tt_Qty tk) (tt_TimeMs tk) ivs a1 = (evs1, a2)" by (metis surj_pair)
  have e: "evs = (case ev of None \<Rightarrow> [] | Some e \<Rightarrow> [e]) @ evs1" "a' = a2" using Cons.prems(2) o r by (auto split: option.splits)
  note st = applyOneInterval_step [OF o]
  have ih: "if iv \<in> set ivs then bars_at a2 s iv = snd (bar_step iv tk (bars_at a1 s iv)) \<and> closed_bars iv evs1 = fst (bar_step iv tk (bars_at a1 s iv))
    else bars_at a2 s iv = bars_at a1 s iv \<and> closed_bars iv evs1 = []" by (rule Cons.IH) (use Cons.prems(1) r in auto)
  show ?case
  proof (cases "iv = i")
    case True
    with ih st(1,2) e Cons.prems(1) show ?thesis by (simp add: closed_bars_append)
  next
    case False
    with ih st(3,4) [of iv] e show ?thesis by (simp add: closed_bars_append)
  qed
qed

fun bar_run :: "string \<Rightarrow> ('d::linordered_idom) trade_tick list \<Rightarrow> 'd ohlcv option \<Rightarrow> 'd ohlcv list \<times> 'd ohlcv option" where
  "bar_run iv [] c = ([], c)"
| "bar_run iv (tk # tks) c = (let (xs, c1) = bar_step iv tk c; (ys, c2) = bar_run iv tks c1 in (xs @ ys, c2))"

lemma bar_run_append:
  "bar_run iv (xs @ ys) c = (let (a, c1) = bar_run iv xs c; (b, c2) = bar_run iv ys c1 in (a @ b, c2))"
  by (induction xs arbitrary: c) (auto simp: Let_def split: prod.splits)

lemma remdups_adj_snoc:
  "remdups_adj (ys @ [y]) = (if ys \<noteq> [] \<and> List.last ys = y then remdups_adj ys else remdups_adj ys @ [y])"
  by (induction ys rule: remdups_adj.induct) auto

lemma sorted_distinct_adj: "sorted (ys :: int list) \<Longrightarrow> distinct (remdups_adj ys)"
  by (induction ys rule: remdups_adj.induct) (auto simp: order_le_less)

lemma DurationMs_pos: "iv \<in> set DefaultIntervals \<Longrightarrow> 0 < DurationMs iv"
  by (auto simp: DefaultIntervals_def DurationMs_def interval_Duration_def interval_defs)

lemma bucket_bounds:
  assumes "iv \<in> set DefaultIntervals" "0 \<le> t"
  shows "BucketStartMs iv t \<le> t" "t \<le> CloseTimeMs iv (BucketStartMs iv t)"
    "BucketStartMs iv t = DurationMs iv * (t div DurationMs iv)"
proof -
  have d: "0 < DurationMs iv" using DurationMs_pos assms(1) by blast
  have r: "go_rem t (DurationMs iv) = t mod DurationMs iv" using assms(2) d by (cases "t = 0") (auto simp: go_rem_def)
  show "BucketStartMs iv t \<le> t" "t \<le> CloseTimeMs iv (BucketStartMs iv t)" "BucketStartMs iv t = DurationMs iv * (t div DurationMs iv)"
    using d r pos_mod_bound [OF d, of t] pos_mod_sign [OF d, of t] mult_div_mod_eq [of "DurationMs iv" t]
    by (simp_all add: BucketStartMs_def CloseTimeMs_def Let_def algebra_simps)
qed

lemma bucket_mono: "iv \<in> set DefaultIntervals \<Longrightarrow> 0 \<le> t \<Longrightarrow> t \<le> u \<Longrightarrow> BucketStartMs iv t \<le> BucketStartMs iv u"
  using bucket_bounds(3) [of iv t] bucket_bounds(3) [of iv u] DurationMs_pos [of iv]
  by (simp add: zdiv_mono1)

lemma buckets_sorted:
  "iv \<in> set DefaultIntervals \<Longrightarrow> sorted (map tt_TimeMs xs) \<Longrightarrow> \<forall>tk \<in> set xs. 0 \<le> tt_TimeMs tk \<Longrightarrow> sorted (map (bucket iv) xs)"
  by (auto simp: sorted_map bucket_def sorted_wrt_iff_nth_less intro!: bucket_mono)

lemma sorted_last_ge: "sorted (map f xs) \<Longrightarrow> y \<in> set xs \<Longrightarrow> f y \<le> f (List.last xs)" for f :: "'a \<Rightarrow> int"
  by (induction xs) auto

lemma bar_of_single: "bar_of b [tk] = NewFromTrade b (tt_Price tk) (tt_Qty tk) (tt_TimeMs tk)"
  by (simp add: bar_of_def NewFromTrade_def)

lemma bar_of_snoc:
  "tks \<noteq> [] \<Longrightarrow> bar_of b (tks @ [tk]) = bar_ApplyTrade (tt_Price tk) (tt_Qty tk) (tt_TimeMs tk) (bar_of b tks)"
  by (simp add: bar_of_def bar_ApplyTrade_def max.commute min.commute)

lemma bars_of_snoc:
  assumes iv: "iv \<in> set DefaultIntervals" and s: "sorted (map tt_TimeMs (xs @ [x]))" and nn: "\<forall>tk \<in> set (xs @ [x]). 0 \<le> tt_TimeMs tk"
    and ne: "xs \<noteq> []"
  shows "bars_of iv (xs @ [x]) =
    (if bucket iv x = bucket iv (List.last xs)
     then butlast (bars_of iv xs) @ [bar_ApplyTrade (tt_Price x) (tt_Qty x) (tt_TimeMs x) (List.last (bars_of iv xs))]
     else bars_of iv xs @ [NewFromTrade (bucket iv x) (tt_Price x) (tt_Qty x) (tt_TimeMs x)])"
proof -
  let ?bs = "map (bucket iv) xs"
  let ?R = "remdups_adj ?bs"
  let ?bar = "\<lambda>ys b. bar_of b (filter (\<lambda>tk. bucket iv tk = b) ys)"
  have "sorted (map tt_TimeMs xs)" using s by (simp add: sorted_append)
  then have "sorted ?bs" by (rule buckets_sorted [OF iv]) (use nn in auto)
  then have dist: "distinct ?R" by (rule sorted_distinct_adj)
  have R: "?R \<noteq> []" "List.last ?R = bucket iv (List.last xs)" using ne by (simp_all add: last_map)
  have split: "?R = butlast ?R @ [bucket iv (List.last xs)]" using append_butlast_last_id [OF R(1)] R(2) by simp
  have other: "?bar (xs @ [x]) b = ?bar xs b" if "b \<noteq> bucket iv x" for b using that by simp
  show ?thesis
  proof (cases "bucket iv x = bucket iv (List.last xs)")
    case True
    have "remdups_adj (map (bucket iv) (xs @ [x])) = ?R" using True ne by (simp add: remdups_adj_snoc last_map)
    then have "bars_of iv (xs @ [x]) = map (?bar (xs @ [x])) (butlast ?R @ [bucket iv (List.last xs)])"
      unfolding bars_of_def using split by simp
    also have "\<dots> = map (?bar xs) (butlast ?R) @ [?bar (xs @ [x]) (bucket iv x)]"
    proof -
      have "\<forall>b \<in> set (butlast ?R). b \<noteq> bucket iv x" using dist split True by (metis distinct_append disjoint_iff list.set_intros(1))
      then have "map (?bar (xs @ [x])) (butlast ?R) = map (?bar xs) (butlast ?R)" using other by (auto intro!: map_cong)
      then show ?thesis unfolding map_append True [symmetric] list.map by (rule arg_cong)
    qed
    also have "?bar (xs @ [x]) (bucket iv x) = bar_ApplyTrade (tt_Price x) (tt_Qty x) (tt_TimeMs x) (?bar xs (bucket iv x))"
    proof -
      have "List.last xs \<in> set (filter (\<lambda>tk. bucket iv tk = bucket iv x) xs)" using ne True by simp
      then have "filter (\<lambda>tk. bucket iv tk = bucket iv x) xs \<noteq> []" by force
      then show ?thesis by (simp add: bar_of_snoc)
    qed
    finally show ?thesis using True R by (simp add: bars_of_def map_butlast last_map)
  next
    case False
    have "bucket iv x \<notin> set ?bs"
    proof
      assume "bucket iv x \<in> set ?bs"
      then obtain y where y: "y \<in> set xs" "bucket iv y = bucket iv x" by auto
      have le: "tt_TimeMs y \<le> tt_TimeMs (List.last xs)" "tt_TimeMs (List.last xs) \<le> tt_TimeMs x"
        using s ne sorted_last_ge [of tt_TimeMs xs y] y(1) by (simp_all add: sorted_append)
      have "bucket iv y \<le> bucket iv (List.last xs)" "bucket iv (List.last xs) \<le> bucket iv x"
        unfolding bucket_def using iv nn y(1) ne le by (auto intro!: bucket_mono)
      with y(2) False show False by simp
    qed
    then have "filter (\<lambda>tk. bucket iv tk = bucket iv x) xs = []" "\<forall>b \<in> set ?R. b \<noteq> bucket iv x" by (auto simp: filter_empty_conv image_iff)
    moreover have "remdups_adj (map (bucket iv) (xs @ [x])) = ?R @ [bucket iv x]" using False ne by (simp add: remdups_adj_snoc last_map)
    ultimately show ?thesis using False other by (auto simp: bars_of_def bar_of_single)
  qed
qed

text \<open>The calls of \<open>ApplyTrade\<close> the consumer makes, in their order, with the bars they close.\<close>

fun agg_calls ::
  "('d::linordered_idom) libs \<Rightarrow> (string \<times> string \<times> string \<times> int) list \<Rightarrow> 'd aggregator \<Rightarrow> 'd closed_event list \<times> 'd aggregator" where
  "agg_calls L [] a = ([], a)"
| "agg_calls L ((s, p, q, t) # cs) a =
     (let (r, a1) = agg_ApplyTrade L s p q t a; (evs, a2) = agg_calls L cs a1
      in ((case r of Inl e \<Rightarrow> [] | Inr xs \<Rightarrow> xs) @ evs, a2))"

definition call_tick :: "'d libs \<Rightarrow> string \<times> string \<times> string \<times> int \<Rightarrow> 'd trade_tick \<Rightarrow> bool" where
  "call_tick L c tk \<longleftrightarrow>
     (case c of (s, p, q, t) \<Rightarrow> parseDecimal L p = Inr (tt_Price tk) \<and> parseDecimal L q = Inr (tt_Qty tk) \<and> t = tt_TimeMs tk)"

definition closed_of :: "string \<Rightarrow> string \<Rightarrow> 'd closed_event list \<Rightarrow> 'd ohlcv list" where
  "closed_of s iv evs = closed_bars iv (filter (\<lambda>e. ce_Symbol e = s) evs)"

lemma apply_intervals_frame:
  "apply_intervals s' p q t ivs a = (evs, a') \<Longrightarrow> (\<forall>e \<in> set evs. ce_Symbol e = s') \<and> (s \<noteq> s' \<longrightarrow> a' s = a s)"
proof (induction ivs arbitrary: a evs a')
  case Nil
  then show ?case by simp
next
  case (Cons iv ivs)
  obtain ev a1 where o: "applyOneInterval s' iv p q t a = (ev, a1)" by (metis surj_pair)
  obtain evs1 a2 where r: "apply_intervals s' p q t ivs a1 = (evs1, a2)" by (metis surj_pair)
  have "(\<forall>e. ev = Some e \<longrightarrow> ce_Symbol e = s') \<and> (s \<noteq> s' \<longrightarrow> a1 s = a s)"
    using o by (auto simp: applyOneInterval_def agg_getOrCreate_def Let_def split: option.splits if_splits)
  with Cons.IH [OF r] Cons.prems o r show ?case by (auto split: option.splits)
qed

lemma closed_of_append: "closed_of s iv (xs @ ys) = closed_of s iv xs @ closed_of s iv ys"
  by (simp add: closed_of_def closed_bars_append)

lemma closed_of_one: "\<forall>e \<in> set evs. ce_Symbol e = s' \<Longrightarrow> closed_of s iv evs = (if s = s' then closed_bars iv evs else [])"
  by (auto simp: closed_of_def closed_bars_def filter_empty_conv intro!: arg_cong [where f = "map ce_Bar"] filter_cong)

lemma agg_calls_bars:
  assumes iv: "iv \<in> set DefaultIntervals" and s: "s \<noteq> []"
  shows "list_all2 (call_tick L) (filter (\<lambda>c. fst c = s) cs) tks \<Longrightarrow> agg_calls L cs a = (evs, a') \<Longrightarrow>
    (closed_of s iv evs, bars_at a' s iv) = bar_run iv tks (bars_at a s iv)"
proof (induction cs arbitrary: a evs a' tks)
  case Nil
  then show ?case by (simp add: closed_of_def closed_bars_def)
next
  case (Cons c cs)
  obtain s' p q t where c: "c = (s', p, q, t)" by (metis surj_pair)
  obtain r a1 where o: "agg_ApplyTrade L s' p q t a = (r, a1)" by (metis surj_pair)
  obtain e2 a2 where r: "agg_calls L cs a1 = (e2, a2)" by (metis surj_pair)
  obtain e1 where e1: "e1 = (case r of Inl e \<Rightarrow> [] | Inr xs \<Rightarrow> xs)" by simp
  have e: "evs = e1 @ e2" "a' = a2" using Cons.prems(2) c o r e1 by auto
  show ?case
  proof (cases "s' = s")
    case True
    from Cons.prems(1) c True obtain tk ts where t: "tks = tk # ts" "call_tick L c tk" "list_all2 (call_tick L) (filter (\<lambda>c. fst c = s) cs) ts"
      by (auto simp: list_all2_Cons1)
    then have one: "apply_intervals s (tt_Price tk) (tt_Qty tk) (tt_TimeMs tk) DefaultIntervals a = (e1, a1)"
      using o True s c e1 by (auto simp: call_tick_def agg_ApplyTrade_def Let_def split: prod.splits)
    have d: "distinct DefaultIntervals" by (simp add: DefaultIntervals_def interval_defs)
    have "\<forall>e \<in> set e1. ce_Symbol e = s" using apply_intervals_frame [OF one] by blast
    with Cons.IH [OF t(3) r] apply_intervals_step [OF d one, of iv] iv e t(1) show ?thesis
      by (auto simp: closed_of_append closed_of_one [of e1 s] Let_def split: prod.splits)
  next
    case False
    have "(\<forall>e \<in> set e1. ce_Symbol e = s') \<and> a1 s = a s"
    proof (cases "(case r of Inl e \<Rightarrow> a1 = a | Inr xs \<Rightarrow> False)")
      case True
      with e1 show ?thesis by (auto split: sum.splits)
    next
      case False': False
      then obtain pr qt where "apply_intervals s' pr qt t DefaultIntervals a = (e1, a1)"
        using o e1 by (auto simp: agg_ApplyTrade_def Let_def split: if_splits sum.splits prod.splits)
      from apply_intervals_frame [OF this, of s] False show ?thesis by simp
    qed
    with Cons.IH [OF _ r, of tks] Cons.prems(1) c False e show ?thesis
      by (auto simp: closed_of_append closed_of_one [of e1 s'] bars_at_def)
  qed
qed

lemma bar_run_exact:
  assumes iv: "iv \<in> set DefaultIntervals"
  shows "tks \<noteq> [] \<Longrightarrow> sorted (map tt_TimeMs tks) \<Longrightarrow> \<forall>tk \<in> set tks. 0 \<le> tt_TimeMs tk \<Longrightarrow>
    bar_run iv tks None = (butlast (bars_of iv tks), Some (List.last (bars_of iv tks))) \<and> bars_of iv tks \<noteq> [] \<and>
    kb_OpenTimeMs (List.last (bars_of iv tks)) = bucket iv (List.last tks)"
proof (induction tks rule: rev_induct)
  case Nil
  then show ?case by simp
next
  case (snoc x xs)
  show ?case
  proof (cases "xs = []")
    case True
    then show ?thesis by (simp add: bars_of_def bar_of_single bar_step_def NewFromTrade_def)
  next
    case False
    have ih: "bar_run iv xs None = (butlast (bars_of iv xs), Some (List.last (bars_of iv xs)))" "bars_of iv xs \<noteq> []"
      "kb_OpenTimeMs (List.last (bars_of iv xs)) = bucket iv (List.last xs)"
      using snoc.IH False snoc.prems(2,3) by (simp_all add: sorted_append)
    have le: "tt_TimeMs (List.last xs) \<le> tt_TimeMs x" using snoc.prems(2) False by (simp add: sorted_append)
    have "bucket iv (List.last xs) \<le> tt_TimeMs (List.last xs)"
      unfolding bucket_def using bucket_bounds(1) [OF iv] snoc.prems(3) False by simp
    with le ih(3) have early: "\<not> tt_TimeMs x < kb_OpenTimeMs (List.last (bars_of iv xs))" by simp
    have run: "bar_run iv (xs @ [x]) None =
      (butlast (bars_of iv xs) @ fst (bar_step iv x (Some (List.last (bars_of iv xs)))), snd (bar_step iv x (Some (List.last (bars_of iv xs)))))"
      by (simp add: bar_run_append ih(1) split: prod.splits)
    show ?thesis
      unfolding run bars_of_snoc [OF iv snoc.prems(2,3) False]
      using early ih(2,3) by (auto simp: bar_step_def bar_ApplyTrade_def NewFromTrade_def)
  qed
qed

lemma bars_of_times: "map kb_OpenTimeMs (bars_of iv tks) = remdups_adj (map (bucket iv) tks)"
  by (simp add: bars_of_def bar_of_def comp_def)

lemma bars_of_distinct:
  "iv \<in> set DefaultIntervals \<Longrightarrow> sorted (map tt_TimeMs tks) \<Longrightarrow> \<forall>tk \<in> set tks. 0 \<le> tt_TimeMs tk \<Longrightarrow>
    distinct (map kb_OpenTimeMs (bars_of iv tks)) \<and> sorted (map kb_OpenTimeMs (bars_of iv tks))"
  unfolding bars_of_times using buckets_sorted sorted_distinct_adj by (metis sorted_remdups_adj)

text \<open>What one pair and interval come to, for the trades of all pairs.\<close>

lemma agg_calls_candles:
  assumes "iv \<in> set DefaultIntervals" "s \<noteq> []"
    and "list_all2 (call_tick L) (filter (\<lambda>c. fst c = s) cs) tks" "tks \<noteq> []"
    and "sorted (map tt_TimeMs tks)" "\<forall>tk \<in> set tks. 0 \<le> tt_TimeMs tk"
    and "agg_calls L cs NewAggregator = (evs, a)"
  shows "closed_of s iv evs = butlast (bars_of iv tks)" "bars_at a s iv = Some (List.last (bars_of iv tks))" "bars_of iv tks \<noteq> []"
proof -
  have "(closed_of s iv evs, bars_at a s iv) = bar_run iv tks None"
    using agg_calls_bars [OF assms(1,2,3,7)] by (simp add: bars_at_def NewAggregator_def)
  with bar_run_exact [OF assms(1,4,5,6)]
  show "closed_of s iv evs = butlast (bars_of iv tks)" "bars_at a s iv = Some (List.last (bars_of iv tks))" "bars_of iv tks \<noteq> []"
    by simp_all
qed

text \<open>
  C29. Candles. The aggregator starts without bars and the trade consumer hands \<open>ApplyTrade\<close> the
  trades of any number of pairs, interleaved, those of the pair \<open>s\<close> in the order of their times. Then
  for every interval of \<open>DefaultIntervals\<close> the bars of \<open>s\<close> reported to \<open>onClose\<close>, in their order,
  followed by the bar still open, are exactly the candles of the trades of \<open>s\<close>: one for each
  interval-aligned bucket that holds a trade, none twice, opened with the bucket's first price, closed
  with its last, with the extremes and the summed quantity of precisely the trades of that bucket.
\<close>

theorem candles_exact:
  assumes "iv \<in> set DefaultIntervals" "s \<noteq> []"
    and "list_all2 (call_tick L) (filter (\<lambda>c. fst c = s) cs) tks" "tks \<noteq> []"
    and "sorted (map tt_TimeMs tks)" "\<forall>tk \<in> set tks. 0 \<le> tt_TimeMs tk"
    and "agg_calls L cs NewAggregator = (evs, a)"
  shows "\<exists>b. fst (SnapshotOpen s iv a) = Some b \<and> closed_of s iv evs @ [b] = bars_of iv tks \<and>
    distinct (map kb_OpenTimeMs (bars_of iv tks))"
proof -
  note c = agg_calls_candles [OF assms]
  have "fst (SnapshotOpen s iv a) = bars_at a s iv"
    by (auto simp: SnapshotOpen_def agg_getOrCreate_def bars_at_def split: option.splits)
  with c bars_of_distinct [OF assms(1,5,6)] show ?thesis by (simp add: append_butlast_last_id)
qed

definition wit_bar_calls :: "(string \<times> string \<times> string \<times> int) list" where
  "wit_bar_calls =
     [(''BTC-USDT'', ''10'', ''1'', 0), (''ETH-USDT'', ''3'', ''1'', 90000), (''BTC-USDT'', ''12'', ''2'', 59999), (''BTC-USDT'', ''11'', ''3'', 60000)]"

theorem candles_exact_witness:
  "\<exists>b. fst (SnapshotOpen ''BTC-USDT'' Min1 (snd (agg_calls int_libs wit_bar_calls NewAggregator))) = Some b \<and>
     map kb_Volume (closed_of ''BTC-USDT'' Min1 (fst (agg_calls int_libs wit_bar_calls NewAggregator)) @ [b]) = [3, 3]"
proof -
  let ?tks = "[\<lparr> tt_TimeMs = 0, tt_Price = 10, tt_Qty = 1 \<rparr>, \<lparr> tt_TimeMs = 59999, tt_Price = 12, tt_Qty = 2 \<rparr>,
    \<lparr> tt_TimeMs = 60000, tt_Price = 11, tt_Qty = 3 \<rparr>] :: int trade_tick list"
  have p: "int_of_string ''10'' = Some 10" "int_of_string ''12'' = Some 12" "int_of_string ''11'' = Some 11"
    "int_of_string ''1'' = Some 1" "int_of_string ''2'' = Some 2" "int_of_string ''3'' = Some 3" by code_simp+
  have b: "map kb_Volume (bars_of Min1 ?tks) = [3, 3]"
    by (simp add: bars_of_def bar_of_def bucket_def BucketStartMs_def DurationMs_def interval_Duration_def interval_defs go_rem_def)
  have "list_all2 (call_tick int_libs) (filter (\<lambda>c. fst c = ''BTC-USDT'') wit_bar_calls) ?tks"
    by (simp add: wit_bar_calls_def call_tick_def parseDecimal_def int_libs_def p)
  then show ?thesis
    using candles_exact [of Min1 "''BTC-USDT''" int_libs wit_bar_calls ?tks "fst (agg_calls int_libs wit_bar_calls NewAggregator)"
        "snd (agg_calls int_libs wit_bar_calls NewAggregator)"] b
    by (auto simp: DefaultIntervals_def)
qed

end
