(* ===== verification/KlineWorker.thy ===== *)
theory KlineWorker
  imports KlineBars
begin

text \<open>
  Model of \<open>internal/kline/worker\<close>, \<open>publisher\<close>, \<open>repository\<close>, \<open>consumer\<close> and \<open>recovery\<close>: what the
  candle service does with its bars. A closed bar enters a list of Redis and a queue in memory; the
  worker stores it in the table \<open>klines\<close>, deletes the snapshot of the open bar and announces it. Open
  bars are kept in Redis and read back at the start. Each call to Redis, to the database or to Kafka has
  an outcome of its own. JSON payloads are kept as records, a \<open>NUMERIC\<close> column returns the digits it
  was given, and waits, log lines and metrics are left out.
\<close>

section \<open>State\<close>

record closed_bar =
  cb_Symbol :: string
  cb_Interval :: string
  cb_OpenTime :: time
  cb_CloseTime :: time
  cb_Open :: string
  cb_High :: string
  cb_Low :: string
  cb_Close :: string
  cb_Volume :: string

record kline_closed_event =
  ke_Symbol :: string
  ke_Interval :: string
  ke_OpenTimeMs :: int
  ke_CloseTimeMs :: int
  ke_Open :: string
  ke_High :: string
  ke_Low :: string
  ke_Close :: string
  ke_Volume :: string
  ke_TsMs :: int

text \<open>
  \<open>ks_ch\<close> is the channel of the worker with its capacity \<open>ks_queueSize\<close>; \<open>ks_topic\<close> is the topic
  \<open>kline.raw\<close>.
\<close>

record 'd kline_state =
  ks_redis :: "bar_json redis"
  ks_klines :: "closed_bar list"
  ks_stmts :: "nat \<Rightarrow> redis_outcome"
  ks_stmtPos :: nat
  ks_topic :: "message list"
  ks_writes :: "nat \<Rightarrow> write_outcome"
  ks_writePos :: nat
  ks_ch :: "'d closed_event list"
  ks_queueSize :: nat

text \<open>The encoding of \<open>kline.raw\<close>; \<open>None\<close> if the service runs without a Kafka publisher.\<close>

record 'd kline_env =
  kn_libs :: "'d libs"
  kn_kafka :: "(kline_closed_event \<Rightarrow> bytes option) option"

definition on_redis :: "(bar_json redis \<Rightarrow> 'a \<times> bar_json redis) \<Rightarrow> 'd kline_state \<Rightarrow> 'a \<times> 'd kline_state" where
  "on_redis f st = (let (a, r) = f (ks_redis st) in (a, st\<lparr>ks_redis := r\<rparr>))"

definition defaultQueueSize :: int where
  "defaultQueueSize = 4096"

definition worker_queue :: "int \<Rightarrow> nat" where
  "worker_queue queueSize = nat (if queueSize \<le> 0 then defaultQueueSize else queueSize)"

section \<open>The Redis publisher\<close>

definition pendingCloseKey :: string where
  "pendingCloseKey = ''kline:pending:close''"

definition openKeyPrefix :: string where
  "openKeyPrefix = ''kline:open:''"

definition openKey :: "string \<Rightarrow> string \<Rightarrow> string" where
  "openKey s iv = openKeyPrefix @ s @ '':'' @ iv"

definition pubChannel :: "string \<Rightarrow> string \<Rightarrow> string" where
  "pubChannel s iv = ''kline:'' @ s @ '':'' @ iv"

definition SaveOpenBar :: "'d libs \<Rightarrow> string \<Rightarrow> string \<Rightarrow> 'd ohlcv \<Rightarrow> bar_json redis \<Rightarrow> err option \<times> bar_json redis" where
  "SaveOpenBar L s iv b = rc_Set (openKey s iv) (bar_ToJSON L s iv b False)"

definition PublishOpenUpdate :: "'d libs \<Rightarrow> string \<Rightarrow> string \<Rightarrow> 'd ohlcv \<Rightarrow> bar_json redis \<Rightarrow> err option \<times> bar_json redis" where
  "PublishOpenUpdate L s iv b = rc_Publish (pubChannel s iv) (bar_ToJSON L s iv b False)"

definition redis_PublishClosed :: "'d libs \<Rightarrow> string \<Rightarrow> string \<Rightarrow> 'd ohlcv \<Rightarrow> bar_json redis \<Rightarrow> err option \<times> bar_json redis" where
  "redis_PublishClosed L s iv b r =
     (let (_, r1) = rc_Del (openKey s iv) r in rc_Publish (pubChannel s iv) (bar_ToJSON L s iv b True) r1)"

definition EnqueueClosed :: "'d libs \<Rightarrow> string \<Rightarrow> string \<Rightarrow> 'd ohlcv \<Rightarrow> bar_json redis \<Rightarrow> err option \<times> bar_json redis" where
  "EnqueueClosed L s iv b = rc_LPush pendingCloseKey (bar_ToJSON L s iv b True)"

definition PendingCloseCount :: "bar_json redis \<Rightarrow> (err + nat) \<times> bar_json redis" where
  "PendingCloseCount = rc_LLen pendingCloseKey"

definition PopPendingClosed :: "bar_json redis \<Rightarrow> (err + bar_json option) \<times> bar_json redis" where
  "PopPendingClosed = rc_RPop pendingCloseKey"

definition barJSONToOHLCV :: "'d libs \<Rightarrow> bar_json \<Rightarrow> err + 'd ohlcv" where
  "barJSONToOHLCV L j =
     (case parseDecimal L (bj_Open j) of Inl e \<Rightarrow> Inl e | Inr op \<Rightarrow>
     (case parseDecimal L (bj_High j) of Inl e \<Rightarrow> Inl e | Inr hi \<Rightarrow>
     (case parseDecimal L (bj_Low j) of Inl e \<Rightarrow> Inl e | Inr lo \<Rightarrow>
     (case parseDecimal L (bj_Close j) of Inl e \<Rightarrow> Inl e | Inr cl \<Rightarrow>
     (case parseDecimal L (bj_Volume j) of Inl e \<Rightarrow> Inl e | Inr vol \<Rightarrow>
        Inr \<lparr> kb_OpenTimeMs = bj_OpenTimeMs j, kb_Open = op, kb_High = hi, kb_Low = lo, kb_Close = cl, kb_Volume = vol,
              kb_UpdatedAtMs = bj_TimestampMs j \<rparr>)))))"

definition closedFromJSON :: "'d libs \<Rightarrow> bar_json \<Rightarrow> err + 'd closed_event" where
  "closedFromJSON L j =
     (case interval_Parse (bj_Interval j) of Inl e \<Rightarrow> Inl e
      | Inr iv \<Rightarrow> (case barJSONToOHLCV L j of Inl e \<Rightarrow> Inl e
      | Inr b \<Rightarrow> Inr \<lparr> ce_Symbol = bj_Symbol j, ce_Interval = iv, ce_Bar = b \<rparr>))"

text \<open>\<open>splitSymbolInterval\<close> looks for the last colon; both parts must not be empty.\<close>

definition splitSymbolInterval :: "string \<Rightarrow> (string \<times> string) option" where
  "splitSymbolInterval suffix =
     (let iv = rev (takeWhile (\<lambda>c. c \<noteq> CHR '':'') (rev suffix));
          rest = rev (dropWhile (\<lambda>c. c \<noteq> CHR '':'') (rev suffix))
      in if length rest < 2 \<or> iv = [] then None else Some (butlast rest, iv))"

text \<open>
  \<open>LoadOpenBar\<close>. A key that is missing makes \<open>Get\<close> return an error, so the code's case of an empty
  answer does not arise.
\<close>

definition LoadOpenBar :: "'d libs \<Rightarrow> string \<Rightarrow> string \<Rightarrow> bar_json redis \<Rightarrow> (err + 'd ohlcv) \<times> bar_json redis" where
  "LoadOpenBar L s iv r =
     (case rc_Get (openKey s iv) r of
        (Inl e, r1) \<Rightarrow> (Inl e, r1)
      | (Inr j, r1) \<Rightarrow> (barJSONToOHLCV L j, r1))"

text \<open>The callback of \<open>ScanOpenBars\<close> for one key, with \<open>RestoreOpen\<close> as what is done with the bar.\<close>

definition scan_key ::
  "'d libs \<Rightarrow> string \<Rightarrow> 'd aggregator \<times> bar_json redis \<Rightarrow> err option \<times> 'd aggregator \<times> bar_json redis" where
  "scan_key L key ar =
     (case ar of (a, r) \<Rightarrow>
      (case splitSymbolInterval (trim_prefix key openKeyPrefix) of
         None \<Rightarrow> (None, a, r)
       | Some (s, iv0) \<Rightarrow>
      (case interval_Parse iv0 of
         Inl e \<Rightarrow> (None, a, r)
       | Inr iv \<Rightarrow>
      (case rc_Get key r of
         (Inl e, r1) \<Rightarrow> (Some e, a, r1)
       | (Inr j, r1) \<Rightarrow>
           if bj_IsClosed j then (None, a, r1)
           else (case barJSONToOHLCV L j of
                   Inl e \<Rightarrow> (Some e, a, r1)
                 | Inr b \<Rightarrow> (None, RestoreOpen s iv b a, r1))))))"

text \<open>\<open>ScanKeys\<close> hands over the keys that the server returns, in its order and perhaps more than once.\<close>

fun ScanOpenBars ::
  "'d libs \<Rightarrow> string list \<Rightarrow> 'd aggregator \<times> bar_json redis \<Rightarrow> err option \<times> 'd aggregator \<times> bar_json redis" where
  "ScanOpenBars L [] ar = (None, ar)"
| "ScanOpenBars L (k # ks) ar =
     (case scan_key L k ar of (Some e, ar1) \<Rightarrow> (Some e, ar1) | (None, ar1) \<Rightarrow> ScanOpenBars L ks ar1)"

section \<open>The Kafka publisher\<close>

definition raw_event :: "'d libs \<Rightarrow> 'd closed_event \<Rightarrow> kline_closed_event" where
  "raw_event L ev =
     (let b = ce_Bar ev
      in \<lparr> ke_Symbol = ce_Symbol ev, ke_Interval = ce_Interval ev, ke_OpenTimeMs = kb_OpenTimeMs b,
           ke_CloseTimeMs = CloseTimeMs (ce_Interval ev) (kb_OpenTimeMs b),
           ke_Open = dec_to_string L (kb_Open b), ke_High = dec_to_string L (kb_High b), ke_Low = dec_to_string L (kb_Low b),
           ke_Close = dec_to_string L (kb_Close b), ke_Volume = dec_to_string L (kb_Volume b), ke_TsMs = kb_UpdatedAtMs b \<rparr>)"

definition kafka_PublishClosed ::
  "'d kline_env \<Rightarrow> (kline_closed_event \<Rightarrow> bytes option) \<Rightarrow> 'd closed_event \<Rightarrow> 'd kline_state \<Rightarrow> err option \<times> 'd kline_state" where
  "kafka_PublishClosed E enc ev st =
     (if ce_Symbol ev = [] then (Some (ErrMsg ''kline kafka publisher: symbol is required''), st)
      else (case enc (raw_event (kn_libs E) ev) of
              None \<Rightarrow> (Some (ErrMsg ''kline kafka publisher: marshal''), st)
            | Some v \<Rightarrow>
                (let oc = ks_writes st (ks_writePos st)
                 in ((if oc = Written then None else Some (ErrMsg ''kafka write'')),
                     st\<lparr>ks_writePos := Suc (ks_writePos st), ks_topic := ks_topic st @ written oc (messages (ce_Symbol ev) [v])\<rparr>))))"

definition PublishClosedFromJSON ::
  "'d kline_env \<Rightarrow> (kline_closed_event \<Rightarrow> bytes option) \<Rightarrow> bar_json \<Rightarrow> 'd kline_state \<Rightarrow> err option \<times> 'd kline_state" where
  "PublishClosedFromJSON E enc j st =
     (case closedFromJSON (kn_libs E) j of Inl e \<Rightarrow> (Some e, st) | Inr ev \<Rightarrow> kafka_PublishClosed E enc ev st)"

section \<open>The table of closed bars\<close>

definition time_of_milli :: "int \<Rightarrow> time" where
  "time_of_milli ms = unix_epoch + ms * 1000000"

definition ClosedBarFromOHLCV :: "'d libs \<Rightarrow> string \<Rightarrow> string \<Rightarrow> 'd ohlcv \<Rightarrow> closed_bar" where
  "ClosedBarFromOHLCV L s iv b =
     \<lparr> cb_Symbol = s, cb_Interval = iv, cb_OpenTime = time_of_milli (kb_OpenTimeMs b),
       cb_CloseTime = time_of_milli (CloseTimeMs iv (kb_OpenTimeMs b)),
       cb_Open = dec_to_string L (kb_Open b), cb_High = dec_to_string L (kb_High b), cb_Low = dec_to_string L (kb_Low b),
       cb_Close = dec_to_string L (kb_Close b), cb_Volume = dec_to_string L (kb_Volume b) \<rparr>"

definition bar_key :: "closed_bar \<Rightarrow> string \<times> string \<times> time" where
  "bar_key cb = (cb_Symbol cb, cb_Interval cb, cb_OpenTime cb)"

text \<open>\<open>INSERT \<dots> ON CONFLICT (symbol, interval, open_time) DO NOTHING\<close>\<close>

definition insert_kline :: "closed_bar \<Rightarrow> closed_bar list \<Rightarrow> closed_bar list" where
  "insert_kline cb rows = (if bar_key cb \<in> bar_key ` set rows then rows else rows @ [cb])"

definition InsertClosed :: "closed_bar \<Rightarrow> 'd kline_state \<Rightarrow> err option \<times> 'd kline_state" where
  "InsertClosed cb st =
     (let st1 = st\<lparr>ks_stmtPos := Suc (ks_stmtPos st)\<rparr>; st2 = st1\<lparr>ks_klines := insert_kline cb (ks_klines st)\<rparr>
      in case ks_stmts st (ks_stmtPos st) of
           Answered \<Rightarrow> (None, st2)
         | NotDone \<Rightarrow> (Some (ErrMsg ''insert closed kline''), st1)
         | AnswerLost \<Rightarrow> (Some (ErrMsg ''insert closed kline''), st2))"

record list_query =
  lq_Symbol :: string
  lq_Interval :: string
  lq_StartTime :: "time option"
  lq_EndTime :: "time option"
  lq_Limit :: int

definition list_limit :: "int \<Rightarrow> nat" where
  "list_limit limit = nat (if limit \<le> 0 then 500 else if 1500 < limit then 1500 else limit)"

definition list_where :: "list_query \<Rightarrow> closed_bar \<Rightarrow> bool" where
  "list_where q cb \<longleftrightarrow>
     cb_Symbol cb = lq_Symbol q \<and> cb_Interval cb = lq_Interval q \<and>
     (case lq_StartTime q of None \<Rightarrow> True | Some t \<Rightarrow> t \<le> cb_OpenTime cb) \<and>
     (case lq_EndTime q of None \<Rightarrow> True | Some t \<Rightarrow> cb_OpenTime cb \<le> t)"

definition ListClosed :: "list_query \<Rightarrow> 'd kline_state \<Rightarrow> (err + closed_bar list) \<times> 'd kline_state" where
  "ListClosed q st =
     (let st1 = st\<lparr>ks_stmtPos := Suc (ks_stmtPos st)\<rparr>
      in if ks_stmts st (ks_stmtPos st) \<noteq> Answered then (Inl (ErrMsg ''list klines''), st1)
         else (Inr (take (list_limit (lq_Limit q)) (rev (sort_key cb_OpenTime (filter (list_where q) (ks_klines st))))), st1))"

section \<open>The worker\<close>

definition HandleClose :: "'d libs \<Rightarrow> 'd closed_event \<Rightarrow> 'd kline_state \<Rightarrow> 'd kline_state" where
  "HandleClose L ev st =
     (case on_redis (EnqueueClosed L (ce_Symbol ev) (ce_Interval ev) (ce_Bar ev)) st of
        (Some e, st1) \<Rightarrow> st1
      | (None, st1) \<Rightarrow>
          if length (ks_ch st1) < ks_queueSize st1 then st1\<lparr>ks_ch := ks_ch st1 @ [ev]\<rparr> else st1)"

definition processOne :: "'d kline_env \<Rightarrow> 'd closed_event \<Rightarrow> 'd kline_state \<Rightarrow> err option \<times> 'd kline_state" where
  "processOne E ev st =
     (case InsertClosed (ClosedBarFromOHLCV (kn_libs E) (ce_Symbol ev) (ce_Interval ev) (ce_Bar ev)) st of
        (Some e, st1) \<Rightarrow> (Some e, st1)
      | (None, st1) \<Rightarrow>
     (case on_redis (redis_PublishClosed (kn_libs E) (ce_Symbol ev) (ce_Interval ev) (ce_Bar ev)) st1 of
        (Some e, st2) \<Rightarrow> (Some e, st2)
      | (None, st2) \<Rightarrow>
     (case kn_kafka E of None \<Rightarrow> (None, st2) | Some enc \<Rightarrow> kafka_PublishClosed E enc ev st2)))"

fun process_tries :: "nat \<Rightarrow> 'd kline_env \<Rightarrow> 'd closed_event \<Rightarrow> 'd kline_state \<Rightarrow> bool \<times> 'd kline_state" where
  "process_tries 0 E ev st = (False, st)"
| "process_tries (Suc n) E ev st =
     (case processOne E ev st of (None, st1) \<Rightarrow> (True, st1) | (Some e, st1) \<Rightarrow> process_tries n E ev st1)"

definition maxRetries :: nat where
  "maxRetries = 3"

definition processWithRetry :: "'d kline_env \<Rightarrow> 'd closed_event \<Rightarrow> 'd kline_state \<Rightarrow> 'd kline_state" where
  "processWithRetry E ev st = snd (process_tries maxRetries E ev st)"

text \<open>A bar taken from the list in Redis; one that cannot be read is dropped.\<close>

definition process_pending :: "'d kline_env \<Rightarrow> bar_json \<Rightarrow> 'd kline_state \<Rightarrow> 'd kline_state" where
  "process_pending E j st =
     (case closedFromJSON (kn_libs E) j of Inl e \<Rightarrow> st | Inr ev \<Rightarrow> processWithRetry E ev st)"

text \<open>
  One round of \<open>Run\<close> while the context is not cancelled: the channel first, then the list in Redis,
  then the wait, after which the next round looks again.
\<close>

definition worker_turn :: "'d kline_env \<Rightarrow> 'd kline_state \<Rightarrow> 'd kline_state" where
  "worker_turn E st =
     (case ks_ch st of
        ev # evs \<Rightarrow> processWithRetry E ev (st\<lparr>ks_ch := evs\<rparr>)
      | [] \<Rightarrow>
          (case on_redis PopPendingClosed st of
             (Inl e, st1) \<Rightarrow> st1
           | (Inr None, st1) \<Rightarrow> st1
           | (Inr (Some j), st1) \<Rightarrow> process_pending E j st1))"

text \<open>What the operations leave of the list of pending bars, for the loops that empty it.\<close>

abbreviation pending :: "'d kline_state \<Rightarrow> bar_json list" where
  "pending st \<equiv> rc_lists (ks_redis st) pendingCloseKey"

lemma rc_keeps_lists:
  "rc_lists (snd (rc_Set k v r)) = rc_lists r" "rc_lists (snd (rc_Del k r)) = rc_lists r"
  "rc_lists (snd (rc_Publish c v r)) = rc_lists r" "rc_lists (snd (rc_LLen k r)) = rc_lists r"
  "rc_lists (snd (rc_Get k r)) = rc_lists r"
  by (auto simp: rc_op_defs split: redis_outcome.splits option.splits)

lemma redis_PublishClosed_lists: "rc_lists (snd (redis_PublishClosed L s iv b r)) = rc_lists r"
  by (simp add: redis_PublishClosed_def rc_keeps_lists split_beta)

lemma on_redis_simps:
  "fst (on_redis f st) = fst (f (ks_redis st))" "ks_redis (snd (on_redis f st)) = snd (f (ks_redis st))"
  "ks_klines (snd (on_redis f st)) = ks_klines st" "ks_topic (snd (on_redis f st)) = ks_topic st" "ks_ch (snd (on_redis f st)) = ks_ch st"
  "ks_stmts (snd (on_redis f st)) = ks_stmts st" "ks_writes (snd (on_redis f st)) = ks_writes st"
  by (simp_all add: on_redis_def split_beta)

lemma InsertClosed_keeps: "ks_redis (snd (InsertClosed cb st)) = ks_redis st" "ks_ch (snd (InsertClosed cb st)) = ks_ch st"
  by (auto simp: InsertClosed_def Let_def split: redis_outcome.splits)

lemma kafka_PublishClosed_keeps:
  "ks_redis (snd (kafka_PublishClosed E enc ev st)) = ks_redis st" "ks_ch (snd (kafka_PublishClosed E enc ev st)) = ks_ch st"
  by (auto simp: kafka_PublishClosed_def Let_def split: option.splits)

lemma processOne_keeps: "pending (snd (processOne E ev st)) = pending st" "ks_ch (snd (processOne E ev st)) = ks_ch st"
proof -
  obtain e1 st1 where i: "InsertClosed (ClosedBarFromOHLCV (kn_libs E) (ce_Symbol ev) (ce_Interval ev) (ce_Bar ev)) st = (e1, st1)"
    by (metis surj_pair)
  obtain e2 st2 where p: "on_redis (redis_PublishClosed (kn_libs E) (ce_Symbol ev) (ce_Interval ev) (ce_Bar ev)) st1 = (e2, st2)"
    by (metis surj_pair)
  have "ks_redis st1 = ks_redis st" "ks_ch st1 = ks_ch st" using InsertClosed_keeps i by (metis snd_conv)+
  moreover have "rc_lists (ks_redis st2) = rc_lists (ks_redis st1)" "ks_ch st2 = ks_ch st1"
    using on_redis_simps(2,5) [of "redis_PublishClosed (kn_libs E) (ce_Symbol ev) (ce_Interval ev) (ce_Bar ev)" st1] p
    by (simp_all add: redis_PublishClosed_lists)
  ultimately show "pending (snd (processOne E ev st)) = pending st" "ks_ch (snd (processOne E ev st)) = ks_ch st"
    using i p by (auto simp: processOne_def kafka_PublishClosed_keeps split: option.splits)
qed

lemma process_tries_keeps: "pending (snd (process_tries n E ev st)) = pending st" "ks_ch (snd (process_tries n E ev st)) = ks_ch st"
proof (induction n arbitrary: st)
  case (Suc n)
  case 1 show ?case using Suc(1) processOne_keeps(1) [of E ev st] by (auto split: prod.splits option.splits)
  case 2 show ?case using Suc(2) processOne_keeps(2) [of E ev st] by (auto split: prod.splits option.splits)
qed simp_all

lemma process_pending_keeps: "pending (process_pending E j st) = pending st" "ks_ch (process_pending E j st) = ks_ch st"
  by (auto simp: process_pending_def processWithRetry_def process_tries_keeps split: sum.splits)

lemma pending_count: "fst (on_redis PendingCloseCount st) = Inr n \<Longrightarrow> n = length (pending st)"
  by (auto simp: on_redis_simps PendingCloseCount_def rc_op_defs split: redis_outcome.splits)

lemma pending_count_keeps: "pending (snd (on_redis PendingCloseCount st)) = pending st"
  by (simp add: on_redis_simps PendingCloseCount_def rc_keeps_lists)

lemma pop_shrinks: "fst (on_redis PopPendingClosed st) = Inr (Some j) \<Longrightarrow> pending st \<noteq> [] \<and> j = List.last (pending st) \<and> pending (snd (on_redis PopPendingClosed st)) = butlast (pending st)"
  by (auto simp: on_redis_simps PopPendingClosed_def rc_op_defs split: redis_outcome.splits if_splits)

lemma pop_nothing: "fst (on_redis PopPendingClosed st) = Inr None \<Longrightarrow> pending (snd (on_redis PopPendingClosed st)) = pending st"
  by (auto simp: on_redis_simps PopPendingClosed_def rc_op_defs split: redis_outcome.splits if_splits)

section \<open>Emptying the list\<close>

function DrainPending :: "'d kline_env \<Rightarrow> 'd kline_state \<Rightarrow> err option \<times> 'd kline_state" where
  "DrainPending E st =
     (case on_redis PendingCloseCount st of
        (Inl e, st1) \<Rightarrow> (Some e, st1)
      | (Inr n, st1) \<Rightarrow>
          if n = 0 then (None, st1)
          else (case on_redis PopPendingClosed st1 of
                  (Inl e, st2) \<Rightarrow> (Some e, st2)
                | (Inr None, st2) \<Rightarrow> (None, st2)
                | (Inr (Some j), st2) \<Rightarrow> DrainPending E (process_pending E j st2)))"
  by pat_completeness auto

termination
proof (relation "measure (\<lambda>(E, st). length (pending st))")
  fix E :: "'a kline_env" and st :: "'a kline_state" and x st1 n y st2 z j
  assume a: "(x, st1) = on_redis PendingCloseCount st" "(y, st2) = on_redis PopPendingClosed st1" "y = Inr z" "z = Some j"
  have "pending st1 = pending st" using pending_count_keeps [of st] by (simp flip: a(1))
  moreover have "pending st1 \<noteq> []" "pending st2 = butlast (pending st1)" using pop_shrinks [of st1 j] by (simp_all add: a(3,4) flip: a(2))
  ultimately show "((E, process_pending E j st2), E, st) \<in> measure (\<lambda>(E, st). length (pending st))"
    by (cases "pending st1") (simp_all add: process_pending_keeps)
qed simp

declare DrainPending.simps [simp del]

text \<open>\<open>Drain\<close> at the shutdown also empties the channel.\<close>

function Drain :: "'d kline_env \<Rightarrow> 'd kline_state \<Rightarrow> 'd kline_state" where
  "Drain E st =
     (case on_redis PendingCloseCount st of
        (Inl e, st1) \<Rightarrow> st1
      | (Inr n, st1) \<Rightarrow>
          if n = 0 \<and> ks_ch st1 = [] then st1
          else (case on_redis PopPendingClosed st1 of
                  (Inl e, st2) \<Rightarrow> st2
                | (Inr None, st2) \<Rightarrow>
                    (case ks_ch st2 of [] \<Rightarrow> st2 | ev # evs \<Rightarrow> Drain E (processWithRetry E ev (st2\<lparr>ks_ch := evs\<rparr>)))
                | (Inr (Some j), st2) \<Rightarrow> Drain E (process_pending E j st2)))"
  by pat_completeness auto

termination
proof (relation "measure (\<lambda>(E, st). length (pending st) + length (ks_ch st))")
  fix E :: "'a kline_env" and st :: "'a kline_state" and x st1 n y st2 z
  assume a: "(x, st1) = on_redis PendingCloseCount st" "(y, st2) = on_redis PopPendingClosed st1" "y = Inr z"
  have k: "pending st1 = pending st" "ks_ch st1 = ks_ch st" "ks_ch st2 = ks_ch st1"
    using pending_count_keeps [of st] on_redis_simps(5) [of PendingCloseCount st] on_redis_simps(5) [of PopPendingClosed st1]
    by (simp_all flip: a(1,2))
  show "((E, process_pending E j st2), E, st) \<in> measure (\<lambda>(E, st). length (pending st) + length (ks_ch st))" if "z = Some j" for j
  proof -
    have "pending st1 \<noteq> []" "pending st2 = butlast (pending st1)" using pop_shrinks [of st1 j] by (simp_all add: a(3) that flip: a(2))
    with k show ?thesis by (cases "pending st1") (simp_all add: process_pending_keeps)
  qed
  show "((E, processWithRetry E ev (st2\<lparr>ks_ch := evs\<rparr>)), E, st) \<in> measure (\<lambda>(E, st). length (pending st) + length (ks_ch st))"
    if "z = None" "ks_ch st2 = ev # evs" for ev evs
  proof -
    have "pending st2 = pending st1" using pop_nothing [of st1] by (simp add: a(3) that flip: a(2))
    moreover have "length (ks_ch st) = Suc (length evs)" using k that(2) by (metis length_Cons)
    ultimately show ?thesis using k that(2) by (simp add: processWithRetry_def process_tries_keeps)
  qed
qed simp

declare Drain.simps [simp del]

end
