(* ===== verification/KlineService.thy ===== *)
theory KlineService
  imports KlineWorker "HOL-Library.Multiset"
begin

text \<open>
  The candle service put together: the handler of the trade topic (\<open>internal/kline/consumer\<close>), the
  recovery at the start (\<open>internal/kline/recovery\<close>) and the query of the gRPC server
  (\<open>internal/kline/service\<close>), over the aggregator of theory \<open>KlineBars\<close> and the worker of theory
  \<open>KlineWorker\<close>.
\<close>

section \<open>The trade handler\<close>

fun publishOpenBars ::
  "'d libs \<Rightarrow> string \<Rightarrow> string list \<Rightarrow> 'd aggregator \<Rightarrow> bar_json redis \<Rightarrow> err option \<times> 'd aggregator \<times> bar_json redis" where
  "publishOpenBars L s [] a r = (None, a, r)"
| "publishOpenBars L s (iv # ivs) a r =
     (case SnapshotOpen s iv a of
        (None, a1) \<Rightarrow> publishOpenBars L s ivs a1 r
      | (Some b, a1) \<Rightarrow>
          (case SaveOpenBar L s iv b r of
             (Some e, r1) \<Rightarrow> (Some e, a1, r1)
           | (None, r1) \<Rightarrow>
          (case PublishOpenUpdate L s iv b r1 of
             (Some e, r2) \<Rightarrow> (Some e, a1, r2)
           | (None, r2) \<Rightarrow> publishOpenBars L s ivs a1 r2)))"

type_synonym 'd kline_service = "'d aggregator \<times> 'd kline_state \<times> clock"

definition kline_Process ::
  "('d::linordered_idom) kline_env \<Rightarrow> event_codec \<Rightarrow> message \<Rightarrow> 'd kline_service \<Rightarrow> err option \<times> 'd kline_service" where
  "kline_Process E K msg sv =
     (case sv of (a, st, clk) \<Rightarrow>
      (case ParseKafkaMessage (kn_libs E) K msg clk of
         (Inl e, clk1) \<Rightarrow> (Some e, a, st, clk1)
       | (Inr tr, clk1) \<Rightarrow>
      (case agg_ApplyTrade (kn_libs E) (pr_Symbol tr) (pr_Price tr) (pr_Quantity tr) (pr_TradeTimeMs tr) a of
         (Inl e, a1) \<Rightarrow> (Some e, a1, st, clk1)
       | (Inr evs, a1) \<Rightarrow>
           (let st1 = fold (HandleClose (kn_libs E)) evs st;
                (e, a2, r) = publishOpenBars (kn_libs E) (pr_Symbol tr) DefaultIntervals a1 (ks_redis st1)
            in (e, a2, st1\<lparr>ks_redis := r\<rparr>, clk1)))))"

section \<open>Recovery\<close>

text \<open>\<open>Restore\<close> on the keys that the scan of Redis returns.\<close>

definition kline_Restore ::
  "'d kline_env \<Rightarrow> string list \<Rightarrow> 'd aggregator \<Rightarrow> 'd kline_state \<Rightarrow> err option \<times> 'd aggregator \<times> 'd kline_state" where
  "kline_Restore E scan a st =
     (case ScanOpenBars (kn_libs E) scan (a, ks_redis st) of
        (Some e, a1, r) \<Rightarrow> (Some e, a1, st\<lparr>ks_redis := r\<rparr>)
      | (None, a1, r) \<Rightarrow> (let (e, st1) = DrainPending E (st\<lparr>ks_redis := r\<rparr>) in (e, a1, st1)))"

section \<open>The query\<close>

record pb_kline =
  pk_OpenTime :: tstamp
  pk_CloseTime :: tstamp
  pk_Open :: string
  pk_High :: string
  pk_Low :: string
  pk_Close :: string
  pk_Volume :: string
  pk_IsClosed :: bool

definition closedBarToPB :: "'d libs \<Rightarrow> closed_bar \<Rightarrow> pb_kline" where
  "closedBarToPB L cb =
     \<lparr> pk_OpenTime = ts_new L (cb_OpenTime cb), pk_CloseTime = ts_new L (cb_CloseTime cb), pk_Open = cb_Open cb,
       pk_High = cb_High cb, pk_Low = cb_Low cb, pk_Close = cb_Close cb, pk_Volume = cb_Volume cb, pk_IsClosed = True \<rparr>"

definition openBarToPB :: "'d libs \<Rightarrow> string \<Rightarrow> 'd ohlcv \<Rightarrow> pb_kline" where
  "openBarToPB L iv b =
     \<lparr> pk_OpenTime = ts_new L (time_of_milli (kb_OpenTimeMs b)),
       pk_CloseTime = ts_new L (time_of_milli (CloseTimeMs iv (kb_OpenTimeMs b))),
       pk_Open = dec_to_string L (kb_Open b), pk_High = dec_to_string L (kb_High b), pk_Low = dec_to_string L (kb_Low b),
       pk_Close = dec_to_string L (kb_Close b), pk_Volume = dec_to_string L (kb_Volume b), pk_IsClosed = False \<rparr>"

definition sameOpenTime :: "'d libs \<Rightarrow> pb_kline \<Rightarrow> pb_kline \<Rightarrow> bool" where
  "sameOpenTime L x y \<longleftrightarrow> ts_as_time L (Some (pk_OpenTime x)) = ts_as_time L (Some (pk_OpenTime y))"

record get_klines_request =
  gq_Symbol :: string
  gq_Interval :: string
  gq_StartTime :: "tstamp option"
  gq_EndTime :: "tstamp option"
  gq_Limit :: int

definition opt_time :: "'d libs \<Rightarrow> tstamp option \<Rightarrow> time option" where
  "opt_time L t = (case t of None \<Rightarrow> None | Some x \<Rightarrow> Some (ts_as_time L (Some x)))"

definition GetKlines ::
  "'d libs \<Rightarrow> get_klines_request \<Rightarrow> 'd aggregator \<Rightarrow> 'd kline_state \<Rightarrow> (err + pb_kline list) \<times> 'd aggregator \<times> 'd kline_state" where
  "GetKlines L req a st =
     (if gq_Symbol req = [] then (Inl ErrInvalidArgument, a, st)
      else (case interval_Parse (gq_Interval req) of
              Inl e \<Rightarrow> (Inl ErrInvalidArgument, a, st)
            | Inr iv \<Rightarrow>
           (case ListClosed \<lparr> lq_Symbol = gq_Symbol req, lq_Interval = iv, lq_StartTime = opt_time L (gq_StartTime req),
                              lq_EndTime = opt_time L (gq_EndTime req), lq_Limit = gq_Limit req \<rparr> st of
              (Inl e, st1) \<Rightarrow> (Inl e, a, st1)
            | (Inr closed, st1) \<Rightarrow>
                (let out = map (closedBarToPB L) (rev closed); (ob, a1) = SnapshotOpen (gq_Symbol req) iv a
                 in (Inr (case ob of
                            None \<Rightarrow> out
                          | Some b \<Rightarrow> (let pb = openBarToPB L iv b
                                       in if out = [] \<or> \<not> sameOpenTime L (List.last out) pb then out @ [pb] else out)),
                     a1, st1)))))"

section \<open>Runs\<close>

text \<open>The service between two starts: messages of the trade topic and rounds of the worker, in any order.\<close>

datatype kline_step = TradeIn message | WorkerTurn

fun kline_exec ::
  "('d::linordered_idom) kline_env \<Rightarrow> event_codec \<Rightarrow> kline_step \<Rightarrow> 'd kline_service \<Rightarrow> 'd kline_service" where
  "kline_exec E K (TradeIn m) sv = snd (kline_Process E K m sv)"
| "kline_exec E K WorkerTurn (a, st, clk) = (a, worker_turn E st, clk)"

definition kline_run ::
  "('d::linordered_idom) kline_env \<Rightarrow> event_codec \<Rightarrow> kline_step list \<Rightarrow> 'd kline_service \<Rightarrow> 'd kline_service" where
  "kline_run E K steps sv = fold (kline_exec E K) steps sv"

definition rc_calm :: "'v redis \<Rightarrow> bool" where
  "rc_calm r \<longleftrightarrow> (\<forall>n. rc_calls r n = Answered)"

text \<open>Nothing fails: every call is answered, every write arrives and every event can be encoded.\<close>

definition kline_calm :: "'d kline_env \<Rightarrow> 'd kline_state \<Rightarrow> bool" where
  "kline_calm E st \<longleftrightarrow>
     rc_calm (ks_redis st) \<and> (\<forall>n. ks_stmts st n = Answered) \<and> (\<forall>n. ks_writes st n = Written) \<and>
     (\<forall>enc x. kn_kafka E = Some enc \<longrightarrow> enc x \<noteq> None)"

section \<open>When nothing fails\<close>

lemma rc_calm_calls: "rc_calm r \<Longrightarrow> rc_calls r' = rc_calls r \<Longrightarrow> rc_calm r'"
  by (simp add: rc_calm_def)

lemma rc_calm_ops:
  assumes "rc_calm r"
  shows "rc_Set k v r = (None, r\<lparr>rc_pos := Suc (rc_pos r), rc_keys := (rc_keys r)(k \<mapsto> v)\<rparr>)"
    and "rc_Del k r = (None, r\<lparr>rc_pos := Suc (rc_pos r), rc_keys := (rc_keys r)(k := None)\<rparr>)"
    and "rc_LPush k v r = (None, r\<lparr>rc_pos := Suc (rc_pos r), rc_lists := (rc_lists r)(k := v # rc_lists r k)\<rparr>)"
    and "rc_Publish c v r = (None, r\<lparr>rc_pos := Suc (rc_pos r), rc_published := rc_published r @ [(c, v)]\<rparr>)"
    and "rc_LLen k r = (Inr (length (rc_lists r k)), r\<lparr>rc_pos := Suc (rc_pos r)\<rparr>)"
    and "rc_keys r k = Some v \<Longrightarrow> rc_Get k r = (Inr v, r\<lparr>rc_pos := Suc (rc_pos r)\<rparr>)"
    and "rc_lists r k = [] \<Longrightarrow> rc_RPop k r = (Inr None, r\<lparr>rc_pos := Suc (rc_pos r)\<rparr>)"
    and "rc_lists r k \<noteq> [] \<Longrightarrow> rc_RPop k r =
      (Inr (Some (List.last (rc_lists r k))), r\<lparr>rc_pos := Suc (rc_pos r), rc_lists := (rc_lists r)(k := butlast (rc_lists r k))\<rparr>)"
  using assms by (auto simp: rc_calm_def rc_op_defs)

lemma rc_calm_upd [simp]:
  "rc_calm (r\<lparr>rc_pos := n, rc_keys := ks\<rparr>) = rc_calm r" "rc_calm (r\<lparr>rc_pos := n, rc_lists := ls\<rparr>) = rc_calm r"
  "rc_calm (r\<lparr>rc_pos := n, rc_published := ps\<rparr>) = rc_calm r" "rc_calm (r\<lparr>rc_pos := n\<rparr>) = rc_calm r"
  "rc_calm (r\<lparr>rc_keys := ks\<rparr>) = rc_calm r" "rc_calm (r\<lparr>rc_published := ps\<rparr>) = rc_calm r" "rc_calm (r\<lparr>rc_lists := ls\<rparr>) = rc_calm r"
  by (simp_all add: rc_calm_def)

definition closed_rec :: "'d libs \<Rightarrow> 'd closed_event \<Rightarrow> closed_bar" where
  "closed_rec L ev = ClosedBarFromOHLCV L (ce_Symbol ev) (ce_Interval ev) (ce_Bar ev)"

definition closed_json :: "'d libs \<Rightarrow> 'd closed_event \<Rightarrow> bar_json" where
  "closed_json L ev = bar_ToJSON L (ce_Symbol ev) (ce_Interval ev) (ce_Bar ev) True"

lemma interval_Parse_default: "iv \<in> set DefaultIntervals \<Longrightarrow> interval_Parse iv = Inr iv"
  by (auto simp: interval_Parse_def DefaultIntervals_def interval_defs trim_space_def is_space_def Let_def)

lemma bar_ToJSON_fields:
  "bj_Symbol (bar_ToJSON L s iv b c) = s" "bj_Interval (bar_ToJSON L s iv b c) = iv" "bj_IsClosed (bar_ToJSON L s iv b c) = c"
  by (simp_all add: bar_ToJSON_def)

lemma barJSON_round_trip: "codec_ok L \<Longrightarrow> barJSONToOHLCV L (bar_ToJSON L s iv b c) = Inr b"
  by (simp add: barJSONToOHLCV_def bar_ToJSON_def parseDecimal_def codec_okD)

lemma closedFromJSON_json: "codec_ok L \<Longrightarrow> ce_Interval ev \<in> set DefaultIntervals \<Longrightarrow> closedFromJSON L (closed_json L ev) = Inr ev"
  unfolding closedFromJSON_def closed_json_def barJSON_round_trip by (simp add: bar_ToJSON_fields barJSON_round_trip interval_Parse_default)

lemma InsertClosed_calm:
  "kline_calm E st \<Longrightarrow> InsertClosed cb st = (None, st\<lparr>ks_stmtPos := Suc (ks_stmtPos st), ks_klines := insert_kline cb (ks_klines st)\<rparr>)"
  by (simp add: InsertClosed_def kline_calm_def Let_def)

lemma redis_PublishClosed_calm:
  assumes "rc_calm r"
  obtains r' where "redis_PublishClosed L s iv b r = (None, r')" "rc_calm r'" "rc_keys r' = (rc_keys r)(openKey s iv := None)"
  using that assms by (simp add: redis_PublishClosed_def rc_calm_ops)

lemma kafka_PublishClosed_calm:
  assumes "kline_calm E st" "kn_kafka E = Some enc" "ce_Symbol ev \<noteq> []"
  obtains st' where "kafka_PublishClosed E enc ev st = (None, st')" "kline_calm E st'" "ks_klines st' = ks_klines st" "ks_redis st' = ks_redis st"
proof -
  have "enc (raw_event (kn_libs E) ev) \<noteq> None" using assms(1,2) unfolding kline_calm_def by blast
  then obtain v where "enc (raw_event (kn_libs E) ev) = Some v" by blast
  then show ?thesis using that assms(1,3) by (simp add: kafka_PublishClosed_def kline_calm_def Let_def)
qed

text \<open>What the worker does with a bar, then: it stores it and deletes the snapshot under the key of its interval.\<close>

lemma processWithRetry_calm:
  assumes "kline_calm E st" "ce_Symbol ev \<noteq> []"
  defines "st' \<equiv> processWithRetry E ev st"
  shows "kline_calm E st'" "ks_klines st' = insert_kline (closed_rec (kn_libs E) ev) (ks_klines st)" "pending st' = pending st"
    "ks_ch st' = ks_ch st" "rc_keys (ks_redis st') = (rc_keys (ks_redis st))(openKey (ce_Symbol ev) (ce_Interval ev) := None)"
proof -
  let ?L = "kn_libs E" and ?rec = "closed_rec (kn_libs E) ev"
  define st1 where "st1 = st\<lparr>ks_stmtPos := Suc (ks_stmtPos st), ks_klines := insert_kline ?rec (ks_klines st)\<rparr>"
  have i: "InsertClosed ?rec st = (None, st1)" using InsertClosed_calm [OF assms(1)] by (simp add: st1_def)
  have "rc_calm (ks_redis st1)" using assms(1) by (simp add: st1_def kline_calm_def)
  then obtain r where r: "redis_PublishClosed ?L (ce_Symbol ev) (ce_Interval ev) (ce_Bar ev) (ks_redis st1) = (None, r)" "rc_calm r"
    "rc_keys r = (rc_keys (ks_redis st1))(openKey (ce_Symbol ev) (ce_Interval ev) := None)"
    by (rule redis_PublishClosed_calm)
  have c: "kline_calm E (st1\<lparr>ks_redis := r\<rparr>)" using assms(1) r(2) by (simp add: st1_def kline_calm_def)
  obtain st2 where st2: "processOne E ev st = (None, st2)" "kline_calm E st2" "ks_klines st2 = ks_klines st1" "ks_redis st2 = r"
  proof (cases "kn_kafka E")
    case None
    then show ?thesis using i r(1) c that by (simp add: processOne_def closed_rec_def on_redis_def)
  next
    case (Some enc)
    obtain st2 where "kafka_PublishClosed E enc ev (st1\<lparr>ks_redis := r\<rparr>) = (None, st2)" "kline_calm E st2" "ks_klines st2 = ks_klines st1"
      "ks_redis st2 = r" by (rule kafka_PublishClosed_calm [OF c Some assms(2)]) simp
    with Some show ?thesis using i r(1) that by (simp add: processOne_def closed_rec_def on_redis_def)
  qed
  then have "st' = st2" by (simp add: st'_def processWithRetry_def maxRetries_def numeral_3_eq_3)
  with st2 r(3) processOne_keeps [of E ev st]
  show "kline_calm E st'" "ks_klines st' = insert_kline ?rec (ks_klines st)" "pending st' = pending st"
    "ks_ch st' = ks_ch st" "rc_keys (ks_redis st') = (rc_keys (ks_redis st))(openKey (ce_Symbol ev) (ce_Interval ev) := None)"
    by (simp_all add: st1_def)
qed

section \<open>Every closed bar is stored\<close>

text \<open>
  \<open>F\<close> is a set of closed bars of which no two have the same pair, interval and opening time. Of
  those closed so far, each is in the table or in the list of Redis, and nothing else is.
\<close>

definition bars_ok :: "'d libs \<Rightarrow> 'd closed_event set \<Rightarrow> bool" where
  "bars_ok L F \<longleftrightarrow>
     codec_ok L \<and> inj_on (bar_key \<circ> closed_rec L) F \<and> (\<forall>ev \<in> F. ce_Symbol ev \<noteq> [] \<and> ce_Interval ev \<in> set DefaultIntervals)"

lemma bars_okD:
  assumes "bars_ok L F" "evs \<subseteq> F" "ev \<in> evs"
  shows "codec_ok L" "ce_Symbol ev \<noteq> []" "ce_Interval ev \<in> set DefaultIntervals" "closedFromJSON L (closed_json L ev) = Inr ev"
    and "ev' \<in> evs \<Longrightarrow> bar_key (closed_rec L ev) = bar_key (closed_rec L ev') \<Longrightarrow> ev = ev'"
proof -
  have ev: "ev \<in> F" using assms(2,3) by blast
  with assms(1) show a: "codec_ok L" "ce_Symbol ev \<noteq> []" "ce_Interval ev \<in> set DefaultIntervals" by (simp_all add: bars_ok_def)
  then show "closedFromJSON L (closed_json L ev) = Inr ev" by (intro closedFromJSON_json)
  show "ev = ev'" if "ev' \<in> evs" "bar_key (closed_rec L ev) = bar_key (closed_rec L ev')"
    using assms(1,2) ev that unfolding bars_ok_def by (metis comp_def inj_onD subsetD)
qed

definition stored_or_pending :: "'d kline_env \<Rightarrow> 'd closed_event set \<Rightarrow> 'd kline_state \<Rightarrow> bool" where
  "stored_or_pending E evs st \<longleftrightarrow>
     kline_calm E st \<and> set (pending st) \<subseteq> closed_json (kn_libs E) ` evs \<and> set (ks_ch st) \<subseteq> evs \<and>
     set (ks_klines st) \<subseteq> closed_rec (kn_libs E) ` evs \<and> distinct (map bar_key (ks_klines st)) \<and>
     (\<forall>ev \<in> evs. closed_rec (kn_libs E) ev \<in> set (ks_klines st) \<or> closed_json (kn_libs E) ev \<in> set (pending st))"

lemma insert_kline_known:
  assumes "bars_ok L F" "evs \<subseteq> F" "ev \<in> evs" "set rows \<subseteq> closed_rec L ` evs"
  shows "set (insert_kline (closed_rec L ev) rows) = insert (closed_rec L ev) (set rows)"
proof (cases "bar_key (closed_rec L ev) \<in> bar_key ` set rows")
  case True
  then obtain ev' where e: "ev' \<in> evs" "closed_rec L ev' \<in> set rows" "bar_key (closed_rec L ev) = bar_key (closed_rec L ev')"
    using assms(4) by force
  have "ev = ev'" by (rule bars_okD(5) [OF assms(1-3) e(1,3)])
  with e(2) True show ?thesis by (auto simp: insert_kline_def)
qed (simp add: insert_kline_def)

lemma insert_kline_distinct: "distinct (map bar_key rows) \<Longrightarrow> distinct (map bar_key (insert_kline cb rows))"
  by (simp add: insert_kline_def)

text \<open>The worker handles one of the bars closed so far.\<close>

lemma process_stored:
  assumes F: "bars_ok (kn_libs E) F" "evs \<subseteq> F" and ev: "ev \<in> evs" and calm: "kline_calm E st"
    and sub: "set (pending st) \<subseteq> closed_json (kn_libs E) ` evs" "set (ks_ch st) \<subseteq> evs"
      "set (ks_klines st) \<subseteq> closed_rec (kn_libs E) ` evs" "distinct (map bar_key (ks_klines st))"
    and all: "\<forall>x \<in> evs. x \<noteq> ev \<longrightarrow> closed_rec (kn_libs E) x \<in> set (ks_klines st) \<or> closed_json (kn_libs E) x \<in> set (pending st)"
  shows "stored_or_pending E evs (processWithRetry E ev st)"
proof -
  have "ce_Symbol ev \<noteq> []" by (rule bars_okD(2) [OF F ev])
  note p = processWithRetry_calm [OF calm this]
  have "set (ks_klines (processWithRetry E ev st)) = insert (closed_rec (kn_libs E) ev) (set (ks_klines st))"
    using p(2) insert_kline_known [OF F ev sub(3)] by simp
  with p all sub ev insert_kline_distinct [OF sub(4)] show ?thesis by (auto simp: stored_or_pending_def)
qed

lemma worker_turn_stored:
  assumes F: "bars_ok (kn_libs E) F" "evs \<subseteq> F" and st: "stored_or_pending E evs st"
  shows "stored_or_pending E evs (worker_turn E st)"
proof (cases "ks_ch st")
  case (Cons ev rest)
  then have ev: "ev \<in> evs" using st by (auto simp: stored_or_pending_def)
  have "stored_or_pending E evs (processWithRetry E ev (st\<lparr>ks_ch := rest\<rparr>))"
    by (rule process_stored [OF F ev]) (use st Cons in \<open>auto simp: stored_or_pending_def kline_calm_def\<close>)
  with Cons show ?thesis by (simp add: worker_turn_def)
next
  case Nil
  have c: "rc_calm (ks_redis st)" using st by (simp add: stored_or_pending_def kline_calm_def)
  show ?thesis
  proof (cases "pending st = []")
    case True
    then show ?thesis using st Nil c by (simp add: worker_turn_def on_redis_def PopPendingClosed_def rc_calm_ops stored_or_pending_def kline_calm_def)
  next
    case False
    define st1 where "st1 = st\<lparr>ks_redis := (ks_redis st)\<lparr>rc_pos := Suc (rc_pos (ks_redis st)),
      rc_lists := (rc_lists (ks_redis st))(pendingCloseKey := butlast (pending st))\<rparr>\<rparr>"
    have pop: "on_redis PopPendingClosed st = (Inr (Some (List.last (pending st))), st1)"
      using False c by (simp add: on_redis_def PopPendingClosed_def rc_calm_ops st1_def)
    have "List.last (pending st) \<in> closed_json (kn_libs E) ` evs"
      using st False last_in_set by (fastforce simp: stored_or_pending_def)
    then obtain ev where ev: "ev \<in> evs" "List.last (pending st) = closed_json (kn_libs E) ev" by blast
    have inj: "x = ev" if "x \<in> evs" "closed_json (kn_libs E) x = closed_json (kn_libs E) ev" for x
      using trans [OF bars_okD(4) [OF F that(1), symmetric, unfolded that(2)] bars_okD(4) [OF F ev(1)]] by (rule Inr_inject)
    have un: "set (pending st) = insert (closed_json (kn_libs E) ev) (set (butlast (pending st)))"
      using arg_cong [OF append_butlast_last_id [OF False], of set] unfolding ev(2) set_append by auto
    note st' = st [unfolded stored_or_pending_def un]
    have "stored_or_pending E evs (processWithRetry E ev st1)"
    proof (rule process_stored [OF F ev(1)])
      show "\<forall>x \<in> evs. x \<noteq> ev \<longrightarrow> closed_rec (kn_libs E) x \<in> set (ks_klines st1) \<or> closed_json (kn_libs E) x \<in> set (pending st1)"
        using st' inj by (simp add: st1_def) metis
    qed (use st' in \<open>simp_all add: st1_def kline_calm_def\<close>)
    moreover have "closedFromJSON (kn_libs E) (closed_json (kn_libs E) ev) = Inr ev" by (rule bars_okD(4) [OF F ev(1)])
    ultimately show ?thesis using Nil pop ev(2) by (simp add: worker_turn_def process_pending_def)
  qed
qed

lemma HandleClose_stored:
  assumes "stored_or_pending E evs st"
  shows "stored_or_pending E (insert ev evs) (HandleClose (kn_libs E) ev st)"
  using assms
  by (auto simp: HandleClose_def on_redis_def EnqueueClosed_def rc_calm_ops stored_or_pending_def kline_calm_def closed_json_def)

lemma HandleClose_all_stored:
  "stored_or_pending E evs st \<Longrightarrow> stored_or_pending E (evs \<union> set new) (fold (HandleClose (kn_libs E)) new st)"
proof (induction new arbitrary: evs st)
  case (Cons ev new)
  then show ?case using Cons.IH [OF HandleClose_stored [OF Cons.prems, of ev]] by simp
qed simp

section \<open>Runs of trades and rounds of the worker\<close>

fun trades_in :: "kline_step list \<Rightarrow> message list" where
  "trades_in [] = []"
| "trades_in (TradeIn m # xs) = m # trades_in xs"
| "trades_in (WorkerTurn # xs) = trades_in xs"

text \<open>A message that carries a trade: pair, price, quantity and time as the parser finds them, at whatever time it is read.\<close>

definition trade_message :: "'d libs \<Rightarrow> event_codec \<Rightarrow> message \<Rightarrow> string \<times> string \<times> string \<times> int \<Rightarrow> bool" where
  "trade_message L K m c \<longleftrightarrow>
     (\<forall>clk. \<exists>tr. fst (ParseKafkaMessage L K m clk) = Inr tr \<and> c = (pr_Symbol tr, pr_Price tr, pr_Quantity tr, pr_TradeTimeMs tr))"

definition call_time :: "string \<times> string \<times> string \<times> int \<Rightarrow> int" where
  "call_time c = snd (snd (snd c))"

definition call_ok :: "'d libs \<Rightarrow> string \<times> string \<times> string \<times> int \<Rightarrow> bool" where
  "call_ok L c \<longleftrightarrow>
     fst c \<noteq> [] \<and> (\<exists>x. parseDecimal L (fst (snd c)) = Inr x) \<and> (\<exists>x. parseDecimal L (fst (snd (snd c))) = Inr x) \<and> 0 \<le> call_time c"

definition tick_of :: "'d libs \<Rightarrow> string \<times> string \<times> string \<times> int \<Rightarrow> 'd trade_tick" where
  "tick_of L c =
     \<lparr> tt_TimeMs = call_time c, tt_Price = projr (parseDecimal L (fst (snd c))), tt_Qty = projr (parseDecimal L (fst (snd (snd c)))) \<rparr>"

lemma call_tick_of: "call_ok L c \<Longrightarrow> call_tick L c (tick_of L c)"
  by (auto simp: call_ok_def call_tick_def tick_of_def call_time_def split: prod.splits)

lemma agg_ApplyTrade_ok:
  assumes "call_ok L (s, p, q, t)"
  obtains evs a' where "agg_ApplyTrade L s p q t a = (Inr evs, a')" "a' s \<noteq> None"
proof -
  obtain pr qt where x: "parseDecimal L p = Inr pr" "parseDecimal L q = Inr qt" "s \<noteq> []" using assms by (auto simp: call_ok_def)
  obtain evs a' where r: "apply_intervals s pr qt t DefaultIntervals a = (evs, a')" by (metis surj_pair)
  obtain ev1 a1 evs1 where o: "applyOneInterval s Sec1 pr qt t a = (ev1, a1)"
    "apply_intervals s pr qt t (tl DefaultIntervals) a1 = (evs1, a')"
    using r by (auto simp: DefaultIntervals_def split: prod.splits)
  have one: "a1 s \<noteq> None" if "applyOneInterval s iv pr qt t a = (ev1, a1)" for iv a ev1 a1
    using that by (auto simp: applyOneInterval_def agg_getOrCreate_def Let_def split: option.splits if_splits)
  have "apply_intervals s pr qt t ivs a1 = (evs1, a') \<Longrightarrow> a1 s \<noteq> None \<Longrightarrow> a' s \<noteq> None" for ivs a1 evs1
  proof (induction ivs arbitrary: a1 evs1)
    case (Cons iv ivs)
    then show ?case using one by (auto split: prod.splits)
  qed simp
  with o one have "a' s \<noteq> None" by blast
  with x r that show ?thesis by (simp add: agg_ApplyTrade_def)
qed

lemma SnapshotOpen_known: "a s \<noteq> None \<Longrightarrow> SnapshotOpen s iv a = (bars_at a s iv, a)"
  by (auto simp: SnapshotOpen_def agg_getOrCreate_def bars_at_def)

text \<open>Publishing the open bars only writes their snapshots.\<close>

lemma publishOpenBars_calm:
  "rc_calm r \<Longrightarrow> a s \<noteq> None \<Longrightarrow> \<exists>r'. publishOpenBars L s ivs a r = (None, a, r') \<and> rc_calm r' \<and> rc_lists r' = rc_lists r \<and>
    (\<forall>iv \<in> set ivs. \<forall>b. bars_at a s iv = Some b \<longrightarrow> rc_keys r' (openKey s iv) = Some (bar_ToJSON L s iv b False)) \<and>
    (\<forall>k. (\<forall>iv \<in> set ivs. bars_at a s iv = None \<or> k \<noteq> openKey s iv) \<longrightarrow> rc_keys r' k = rc_keys r k)"
proof (induction ivs arbitrary: r)
  case (Cons iv ivs)
  show ?case
  proof (cases "bars_at a s iv")
    case None
    then show ?thesis using Cons by (simp add: SnapshotOpen_known)
  next
    case (Some b)
    define r1 where "r1 = snd (PublishOpenUpdate L s iv b (snd (SaveOpenBar L s iv b r)))"
    have r1: "rc_calm r1" "rc_lists r1 = rc_lists r" "rc_keys r1 = (rc_keys r)(openKey s iv \<mapsto> bar_ToJSON L s iv b False)"
      "publishOpenBars L s (iv # ivs) a r = publishOpenBars L s ivs a r1"
      using Some Cons.prems by (simp_all add: r1_def PublishOpenUpdate_def SaveOpenBar_def rc_calm_ops SnapshotOpen_known)
    from Cons.IH [OF r1(1) Cons.prems(2)] obtain r' where r': "publishOpenBars L s ivs a r1 = (None, a, r')" "rc_calm r'"
      "rc_lists r' = rc_lists r1"
      "\<forall>iv \<in> set ivs. \<forall>b. bars_at a s iv = Some b \<longrightarrow> rc_keys r' (openKey s iv) = Some (bar_ToJSON L s iv b False)"
      "\<forall>k. (\<forall>iv \<in> set ivs. bars_at a s iv = None \<or> k \<noteq> openKey s iv) \<longrightarrow> rc_keys r' k = rc_keys r1 k" by blast
    have "rc_keys r' (openKey s iv) = Some (bar_ToJSON L s iv b False)"
    proof (cases "iv \<in> set ivs")
      case True
      then show ?thesis using r'(4) Some by simp
    next
      case False
      then have "\<forall>i \<in> set ivs. openKey s iv \<noteq> openKey s i" by (auto simp: openKey_def)
      then show ?thesis using r'(5) r1(3) by simp
    qed
    then show ?thesis using r' r1 Some by auto
  qed
qed simp

lemma HandleClose_calm_keys:
  "rc_calm (ks_redis st) \<Longrightarrow> rc_keys (ks_redis (fold (HandleClose L) evs st)) = rc_keys (ks_redis st) \<and> rc_calm (ks_redis (fold (HandleClose L) evs st))"
proof (induction evs arbitrary: st)
  case (Cons ev evs)
  have "rc_keys (ks_redis (HandleClose L ev st)) = rc_keys (ks_redis st) \<and> rc_calm (ks_redis (HandleClose L ev st))"
    using Cons.prems by (simp add: HandleClose_def on_redis_def EnqueueClosed_def rc_calm_ops)
  with Cons.IH [of "HandleClose L ev st"] show ?case by simp
qed simp

lemma kline_Process_calm:
  assumes m: "trade_message (kn_libs E) K m (s, p, q, t)" and c: "call_ok (kn_libs E) (s, p, q, t)" and st: "rc_calm (ks_redis st)"
    and a: "agg_ApplyTrade (kn_libs E) s p q t a = (Inr evs, a1)"
  obtains r clk' where "kline_Process E K m (a, st, clk) = (None, a1, (fold (HandleClose (kn_libs E)) evs st)\<lparr>ks_redis := r\<rparr>, clk')"
    "rc_calm r" "rc_lists r = rc_lists (ks_redis (fold (HandleClose (kn_libs E)) evs st))"
    "\<forall>iv \<in> set DefaultIntervals. \<forall>b. bars_at a1 s iv = Some b \<longrightarrow> rc_keys r (openKey s iv) = Some (bar_ToJSON (kn_libs E) s iv b False)"
    "\<forall>k. (\<forall>iv \<in> set DefaultIntervals. bars_at a1 s iv = None \<or> k \<noteq> openKey s iv) \<longrightarrow> rc_keys r k = rc_keys (ks_redis st) k"
proof -
  let ?st1 = "fold (HandleClose (kn_libs E)) evs st"
  obtain tr where tr: "fst (ParseKafkaMessage (kn_libs E) K m clk) = Inr tr"
    "(s, p, q, t) = (pr_Symbol tr, pr_Price tr, pr_Quantity tr, pr_TradeTimeMs tr)"
    using m unfolding trade_message_def by blast
  have k: "rc_keys (ks_redis ?st1) = rc_keys (ks_redis st)" "rc_calm (ks_redis ?st1)" using HandleClose_calm_keys [OF st] by blast+
  have "a1 s \<noteq> None" using agg_ApplyTrade_ok [OF c] a by (metis prod.inject)
  from publishOpenBars_calm [where a = a1 and s = s and L = "kn_libs E" and ivs = DefaultIntervals, OF k(2) this] obtain r where
    r: "publishOpenBars (kn_libs E) s DefaultIntervals a1 (ks_redis ?st1) = (None, a1, r)" "rc_calm r" "rc_lists r = rc_lists (ks_redis ?st1)"
    "\<forall>iv \<in> set DefaultIntervals. \<forall>b. bars_at a1 s iv = Some b \<longrightarrow> rc_keys r (openKey s iv) = Some (bar_ToJSON (kn_libs E) s iv b False)"
    "\<forall>k. (\<forall>iv \<in> set DefaultIntervals. bars_at a1 s iv = None \<or> k \<noteq> openKey s iv) \<longrightarrow> rc_keys r k = rc_keys (ks_redis ?st1) k" by blast
  have "kline_Process E K m (a, st, clk) = (None, a1, ?st1\<lparr>ks_redis := r\<rparr>, snd (ParseKafkaMessage (kn_libs E) K m clk))"
    using tr a r(1) by (auto simp: kline_Process_def split: prod.splits sum.splits)
  from that [OF this r(2,3,4)] r(5) k(1) show ?thesis by simp
qed

lemma stored_or_pending_redis:
  "stored_or_pending E evs st \<Longrightarrow> rc_calm r \<Longrightarrow> rc_lists r = rc_lists (ks_redis st) \<Longrightarrow> stored_or_pending E evs (st\<lparr>ks_redis := r\<rparr>)"
  by (simp add: stored_or_pending_def kline_calm_def)

text \<open>The bars a run closes are those of the trades it reads, and each is stored or waits.\<close>

lemma kline_run_stored:
  assumes F: "bars_ok (kn_libs E) F"
  shows "list_all2 (trade_message (kn_libs E) K) (trades_in steps) cs \<Longrightarrow> \<forall>c \<in> set cs. call_ok (kn_libs E) c \<Longrightarrow>
    agg_calls (kn_libs E) cs a = (new, a') \<Longrightarrow> evs \<union> set new \<subseteq> F \<Longrightarrow> stored_or_pending E evs st \<Longrightarrow>
    kline_run E K steps (a, st, clk) = (a2, st', clk') \<Longrightarrow> a2 = a' \<and> stored_or_pending E (evs \<union> set new) st'"
proof (induction steps arbitrary: a st clk cs new evs)
  case Nil
  then show ?case by (simp add: kline_run_def)
next
  case (Cons x steps)
  show ?case
  proof (cases x)
    case WorkerTurn
    have "stored_or_pending E evs (worker_turn E st)" by (rule worker_turn_stored [OF F _ Cons.prems(5)]) (use Cons.prems(4) in blast)
    from Cons.IH [OF _ Cons.prems(2-4) this] Cons.prems(1,6) WorkerTurn show ?thesis by (simp add: kline_run_def)
  next
    case (TradeIn m)
    from Cons.prems(1) TradeIn obtain s p q t cs' where cs: "cs = (s, p, q, t) # cs'" "trade_message (kn_libs E) K m (s, p, q, t)"
      "list_all2 (trade_message (kn_libs E) K) (trades_in steps) cs'" by (auto simp: list_all2_Cons1)
    have ok: "call_ok (kn_libs E) (s, p, q, t)" using Cons.prems(2) cs(1) by simp
    obtain e1 a1 where a1: "agg_ApplyTrade (kn_libs E) s p q t a = (Inr e1, a1)" by (rule agg_ApplyTrade_ok [OF ok])
    obtain e2 a2' where r: "agg_calls (kn_libs E) cs' a1 = (e2, a2')" by (metis surj_pair)
    have new: "new = e1 @ e2" "a2' = a'" using Cons.prems(3) cs(1) a1 r by auto
    have "rc_calm (ks_redis st)" using Cons.prems(5) by (simp add: stored_or_pending_def kline_calm_def)
    from kline_Process_calm [OF cs(2) ok this a1, of clk] obtain rr clk1 where
      p: "kline_Process E K m (a, st, clk) = (None, a1, (fold (HandleClose (kn_libs E)) e1 st)\<lparr>ks_redis := rr\<rparr>, clk1)"
      "rc_calm rr" "rc_lists rr = rc_lists (ks_redis (fold (HandleClose (kn_libs E)) e1 st))" by metis
    have "stored_or_pending E (evs \<union> set e1) ((fold (HandleClose (kn_libs E)) e1 st)\<lparr>ks_redis := rr\<rparr>)"
      by (rule stored_or_pending_redis [OF HandleClose_all_stored [OF Cons.prems(5)] p(2,3)])
    from Cons.IH [OF cs(3) _ r [unfolded new(2)] _ this] Cons.prems(2,4,6) cs(1) new(1) p(1) TradeIn
    show ?thesis by (simp add: kline_run_def Un_assoc)
  qed
qed

text \<open>No two bars that the aggregator closes have the same pair, interval and opening time.\<close>

lemma agg_calls_events:
  "agg_calls L cs a = (evs, a') \<Longrightarrow> \<forall>c \<in> set cs. call_ok L c \<Longrightarrow>
     \<forall>ev \<in> set evs. ce_Symbol ev \<in> fst ` set cs \<and> ce_Interval ev \<in> set DefaultIntervals"
proof (induction cs arbitrary: a evs)
  case (Cons c cs)
  obtain s p q t where c: "c = (s, p, q, t)" by (metis surj_pair)
  have "call_ok L (s, p, q, t)" using Cons.prems(2) c by simp
  then obtain e1 a1 where o: "agg_ApplyTrade L s p q t a = (Inr e1, a1)" by (rule agg_ApplyTrade_ok)
  obtain e2 a2 where r: "agg_calls L cs a1 = (e2, a2)" by (metis surj_pair)
  obtain pr qt where i: "apply_intervals s pr qt t DefaultIntervals a = (e1, a1)"
    using o by (auto simp: agg_ApplyTrade_def Let_def split: if_splits sum.splits prod.splits)
  have "apply_intervals s pr qt t ivs a = (e1, a1) \<Longrightarrow> \<forall>ev \<in> set e1. ce_Interval ev \<in> set ivs" for ivs a e1
  proof (induction ivs arbitrary: a e1)
    case (Cons iv ivs)
    obtain ev a3 where o: "applyOneInterval s iv pr qt t a = (ev, a3)" by (metis surj_pair)
    obtain evs3 a4 where r: "apply_intervals s pr qt t ivs a3 = (evs3, a4)" by (metis surj_pair)
    have "ev = Some e \<Longrightarrow> ce_Interval e = iv" for e
      using o by (auto simp: applyOneInterval_def agg_getOrCreate_def Let_def split: option.splits if_splits)
    with Cons.IH [of a3 evs3] Cons.prems o r show ?case by (auto split: option.splits)
  qed simp
  with i apply_intervals_frame [OF i] Cons.IH [of a1 e2] Cons.prems c o r show ?case by force
qed simp

text \<open>The trades of one pair.\<close>

lemma pair_ticks:
  assumes ok: "\<forall>c \<in> set cs. call_ok L c" and ord: "\<forall>s. sorted (map call_time (filter (\<lambda>c. fst c = s) cs))" and s: "s \<in> fst ` set cs"
  defines "tks \<equiv> map (tick_of L) (filter (\<lambda>c. fst c = s) cs)"
  shows "s \<noteq> []" "tks \<noteq> []" "list_all2 (call_tick L) (filter (\<lambda>c. fst c = s) cs) tks" "sorted (map tt_TimeMs tks)"
    "\<forall>tk \<in> set tks. 0 \<le> tt_TimeMs tk"
proof -
  from s obtain c where c: "c \<in> set cs" "fst c = s" by blast
  then show "s \<noteq> []" "tks \<noteq> []" using ok by (auto simp: call_ok_def tks_def filter_empty_conv)
  show "list_all2 (call_tick L) (filter (\<lambda>c. fst c = s) cs) tks"
    unfolding tks_def list_all2_map2 list_all2_same using ok by (auto intro!: call_tick_of)
  have "map tt_TimeMs tks = map call_time (filter (\<lambda>c. fst c = s) cs)" by (simp add: tks_def tick_of_def)
  then show "sorted (map tt_TimeMs tks)" using ord by simp
  show "\<forall>tk \<in> set tks. 0 \<le> tt_TimeMs tk" using ok by (simp add: tks_def tick_of_def call_ok_def)
qed

lemma agg_calls_bars_ok:
  assumes c: "codec_ok L" and ok: "\<forall>c \<in> set cs. call_ok L c"
    and ord: "\<forall>s. sorted (map call_time (filter (\<lambda>c. fst c = s) cs))" and r: "agg_calls L cs NewAggregator = (evs, a)"
  shows "bars_ok L (set evs)"
proof -
  have ev: "\<forall>ev \<in> set evs. ce_Symbol ev \<in> fst ` set cs \<and> ce_Interval ev \<in> set DefaultIntervals"
    by (rule agg_calls_events [OF r ok])
  have "x = y" if x: "x \<in> set evs" and y: "y \<in> set evs" and k: "bar_key (closed_rec L x) = bar_key (closed_rec L y)" for x y
  proof -
    let ?s = "ce_Symbol x" and ?iv = "ce_Interval x"
    let ?cs = "filter (\<lambda>c. fst c = ?s) cs"
    have same: "ce_Symbol y = ?s" "ce_Interval y = ?iv" "kb_OpenTimeMs (ce_Bar y) = kb_OpenTimeMs (ce_Bar x)"
      using k by (simp_all add: closed_rec_def ClosedBarFromOHLCV_def bar_key_def time_of_milli_def)
    have iv: "?iv \<in> set DefaultIntervals" "?s \<in> fst ` set cs" using ev x by simp_all
    note t = pair_ticks [OF ok ord iv(2)]
    have "closed_of ?s ?iv evs = butlast (bars_of ?iv (map (tick_of L) ?cs))"
      by (rule agg_calls_candles(1) [OF iv(1) t(1,3,2,4,5) r])
    moreover have "distinct (map kb_OpenTimeMs (bars_of ?iv (map (tick_of L) ?cs)))" using bars_of_distinct [OF iv(1) t(4,5)] by blast
    ultimately have "distinct (map kb_OpenTimeMs (closed_of ?s ?iv evs))" by (simp add: map_butlast distinct_butlast)
    moreover have "ce_Bar x \<in> set (closed_of ?s ?iv evs)" "ce_Bar y \<in> set (closed_of ?s ?iv evs)"
      using x y same by (auto simp: closed_of_def closed_bars_def)
    ultimately have "ce_Bar x = ce_Bar y" using same(3) by (auto simp: distinct_map dest: inj_onD)
    with same show ?thesis by simp
  qed
  moreover have "\<forall>ev \<in> set evs. ce_Symbol ev \<noteq> []" using ev pair_ticks(1) [OF ok ord] by blast
  ultimately show ?thesis using c ev by (simp add: bars_ok_def inj_on_def)
qed

lemma sort_key_unique:
  assumes "set xs = set ys" "distinct (map f xs)" "distinct (map f ys)" "sorted (map f ys)"
  shows "sort_key f xs = ys"
proof (rule sort_key_inj_key_eq)
  show "mset xs = mset ys" using assms(1-3) by (metis distinct_map set_eq_iff_mset_eq_distinct)
qed (use assms in \<open>auto simp: distinct_map\<close>)

text \<open>The rows of one pair and interval, in the order of their opening times, are the bars closed.\<close>

lemma klines_of_pair:
  assumes st: "stored_or_pending E (set evs) st" "pending st = []"
    and d: "distinct (map kb_OpenTimeMs (closed_of s iv evs))" "sorted (map kb_OpenTimeMs (closed_of s iv evs))"
  shows "sort_key cb_OpenTime (filter (\<lambda>cb. cb_Symbol cb = s \<and> cb_Interval cb = iv) (ks_klines st)) =
    map (ClosedBarFromOHLCV (kn_libs E) s iv) (closed_of s iv evs)"
proof (rule sort_key_unique)
  let ?L = "kn_libs E"
  have "set (ks_klines st) = closed_rec ?L ` set evs" using st by (auto simp: stored_or_pending_def)
  then show "set (filter (\<lambda>cb. cb_Symbol cb = s \<and> cb_Interval cb = iv) (ks_klines st)) = set (map (ClosedBarFromOHLCV ?L s iv) (closed_of s iv evs))"
    by (auto simp: closed_of_def closed_bars_def closed_rec_def ClosedBarFromOHLCV_def image_iff)
  have "distinct (map bar_key (filter (\<lambda>cb. cb_Symbol cb = s \<and> cb_Interval cb = iv) (ks_klines st)))"
    using st by (simp add: stored_or_pending_def distinct_map_filter)
  then show "distinct (map cb_OpenTime (filter (\<lambda>cb. cb_Symbol cb = s \<and> cb_Interval cb = iv) (ks_klines st)))"
    by (auto simp: distinct_map inj_on_def bar_key_def)
  have m: "map cb_OpenTime (map (ClosedBarFromOHLCV ?L s iv) (closed_of s iv evs)) = map time_of_milli (map kb_OpenTimeMs (closed_of s iv evs))"
    by (simp add: ClosedBarFromOHLCV_def)
  show "distinct (map cb_OpenTime (map (ClosedBarFromOHLCV ?L s iv) (closed_of s iv evs)))"
    unfolding m using d(1) by (subst distinct_map) (auto simp: time_of_milli_def inj_on_def)
  show "sorted (map cb_OpenTime (map (ClosedBarFromOHLCV ?L s iv) (closed_of s iv evs)))"
    unfolding m using d(2) by (simp add: sorted_map time_of_milli_def)
qed

lemma GetKlines_served:
  assumes c: "codec_ok L" and st: "\<forall>n. ks_stmts st n = Answered" and iv: "iv \<in> set DefaultIntervals" and s: "s \<noteq> []"
    and op: "bars_at a s iv = Some (List.last bars)" "bars \<noteq> []" and d: "distinct (map kb_OpenTimeMs bars)"
    and rows: "sort_key cb_OpenTime (filter (\<lambda>cb. cb_Symbol cb = s \<and> cb_Interval cb = iv) (ks_klines st)) = map (ClosedBarFromOHLCV L s iv) (butlast bars)"
  shows "fst (GetKlines L \<lparr> gq_Symbol = s, gq_Interval = iv, gq_StartTime = None, gq_EndTime = None, gq_Limit = limit \<rparr> a st) =
    Inr (map (closedBarToPB L \<circ> ClosedBarFromOHLCV L s iv) (drop (length (butlast bars) - list_limit limit) (butlast bars)) @
      [openBarToPB L iv (List.last bars)])"
proof -
  define out where "out = map (closedBarToPB L) (drop (length (butlast bars) - list_limit limit) (map (ClosedBarFromOHLCV L s iv) (butlast bars)))"
  have w: "list_where \<lparr> lq_Symbol = s, lq_Interval = iv, lq_StartTime = None, lq_EndTime = None, lq_Limit = limit \<rparr> = (\<lambda>cb. cb_Symbol cb = s \<and> cb_Interval cb = iv)"
    by (simp add: list_where_def fun_eq_iff)
  have sn: "fst (SnapshotOpen s iv a) = Some (List.last bars)"
    using op(1) by (auto simp: SnapshotOpen_def agg_getOrCreate_def bars_at_def split: option.splits)
  have last: "\<not> sameOpenTime L (List.last out) (openBarToPB L iv (List.last bars))" if "out \<noteq> []"
  proof -
    have "List.last out \<in> set out" using that by simp
    then obtain b where b: "b \<in> set (butlast bars)" "List.last out = closedBarToPB L (ClosedBarFromOHLCV L s iv b)"
      by (auto simp: out_def dest!: in_set_dropD)
    obtain xs x where "bars = xs @ [x]" using op(2) by (cases bars rule: rev_cases) auto
    with b(1) d have "kb_OpenTimeMs (List.last bars) \<notin> kb_OpenTimeMs ` set xs" "b \<in> set xs" by simp_all
    then have "kb_OpenTimeMs b \<noteq> kb_OpenTimeMs (List.last bars)" by (metis imageI)
    with b(2) c show ?thesis
      by (simp add: sameOpenTime_def closedBarToPB_def openBarToPB_def ClosedBarFromOHLCV_def codec_okD time_of_milli_def)
  qed
  have "fst (GetKlines L \<lparr> gq_Symbol = s, gq_Interval = iv, gq_StartTime = None, gq_EndTime = None, gq_Limit = limit \<rparr> a st) =
      Inr (if out = [] \<or> \<not> sameOpenTime L (List.last out) (openBarToPB L iv (List.last bars)) then out @ [openBarToPB L iv (List.last bars)] else out)"
  proof -
    obtain a1 where sn': "SnapshotOpen s iv a = (Some (List.last bars), a1)" using sn by (metis prod.collapse)
    have r: "map (closedBarToPB L) (rev (take (list_limit limit) (rev (map (ClosedBarFromOHLCV L s iv) (butlast bars))))) = out"
      by (simp add: rev_take out_def)
    show ?thesis
      using s st by (simp add: GetKlines_def interval_Parse_default [OF iv] ListClosed_def opt_time_def w rows r sn' Let_def del: rev_map)
  qed
  with last have "fst (GetKlines L \<lparr> gq_Symbol = s, gq_Interval = iv, gq_StartTime = None, gq_EndTime = None, gq_Limit = limit \<rparr> a st) =
      Inr (out @ [openBarToPB L iv (List.last bars)])" by auto
  then show ?thesis by (simp add: out_def drop_map)
qed

text \<open>
  C30. From trades to the answer of \<open>GetKlines\<close>. A service that starts with nothing reads the trades of
  any number of pairs, those of each pair in the order of their times, while its worker runs between any
  two of them, and nothing fails. Then, once the list of closed bars in Redis is empty, the query for a
  pair and an interval is answered with exactly the candles of the pair's trades, the oldest first: the
  closed ones as stored, as many of the newest as the limit allows (500 by default, at most 1500), and
  the open one.
\<close>

theorem klines_served:
  assumes c: "codec_ok (kn_libs E)" and st0: "kline_calm E st0" "ks_klines st0 = []" "pending st0 = []" "ks_ch st0 = []"
    and cs: "list_all2 (trade_message (kn_libs E) K) (trades_in steps) cs" "\<forall>c \<in> set cs. call_ok (kn_libs E) c"
      "\<forall>s. sorted (map call_time (filter (\<lambda>c. fst c = s) cs))"
    and run: "kline_run E K steps (NewAggregator, st0, clk) = (a, st, clk')" and idle: "pending st = []"
    and iv: "iv \<in> set DefaultIntervals" and s: "s \<in> fst ` set cs"
  shows "fst (GetKlines (kn_libs E) \<lparr> gq_Symbol = s, gq_Interval = iv, gq_StartTime = None, gq_EndTime = None, gq_Limit = limit \<rparr> a st) =
    (let bars = bars_of iv (map (tick_of (kn_libs E)) (filter (\<lambda>c. fst c = s) cs)); closed = butlast bars
     in Inr (map (closedBarToPB (kn_libs E) \<circ> ClosedBarFromOHLCV (kn_libs E) s iv) (drop (length closed - list_limit limit) closed) @
         [openBarToPB (kn_libs E) iv (List.last bars)]))"
proof -
  let ?L = "kn_libs E" and ?cs = "filter (\<lambda>c. fst c = s) cs"
  obtain evs a' where r: "agg_calls ?L cs NewAggregator = (evs, a')" by (metis surj_pair)
  have "stored_or_pending E {} st0" using st0 by (simp add: stored_or_pending_def)
  from kline_run_stored [OF agg_calls_bars_ok [OF c cs(2,3) r] cs(1,2) r _ this run]
  have fin: "a = a'" "stored_or_pending E (set evs) st" by simp_all
  note t = pair_ticks [OF cs(2,3) s]
  define bars where "bars = bars_of iv (map (tick_of ?L) ?cs)"
  have b: "closed_of s iv evs = butlast bars" "bars_at a s iv = Some (List.last bars)" "bars \<noteq> []"
    using agg_calls_candles [OF iv t(1,3,2,4,5) r] fin(1) by (simp_all add: bars_def)
  have d: "distinct (map kb_OpenTimeMs bars)" "sorted (map kb_OpenTimeMs bars)" using bars_of_distinct [OF iv t(4,5)] by (simp_all add: bars_def)
  then have d': "distinct (map kb_OpenTimeMs (butlast bars))" "sorted (map kb_OpenTimeMs (butlast bars))"
    by (simp_all add: map_butlast distinct_butlast sorted_butlast)
  have rows: "sort_key cb_OpenTime (filter (\<lambda>cb. cb_Symbol cb = s \<and> cb_Interval cb = iv) (ks_klines st)) = map (ClosedBarFromOHLCV ?L s iv) (butlast bars)"
    using klines_of_pair [OF fin(2) idle, of s iv] d' b(1) by simp
  show ?thesis
    using GetKlines_served [OF c _ iv t(1) b(2) b(3) d(1) rows] fin(2)
    by (simp add: stored_or_pending_def kline_calm_def flip: bars_def)
qed

definition wit_bar_codec :: event_codec where
  "wit_bar_codec =
     \<lparr> MarshalMatchEvent = (\<lambda>_. None), MarshalTradeEvent = (\<lambda>_. None), UnmarshalMatchEvent = (\<lambda>_. None),
       UnmarshalTradeEvent = (\<lambda>v. Some \<lparr> tv_Trade = Some \<lparr> pt_TradeId = 11, pt_Symbol = ''AB'',
         pt_CreateTime = Some (62135596800 + int (length v), 0),
         pt_Price = Some ''90'', pt_Quantity = Some ''5'', pt_MakerOrderId = 1, pt_TakerOrderId = 2 \<rparr>, tv_WalSeq = 3 \<rparr>) \<rparr>"

definition wit_kline_env :: "int kline_env" where
  "wit_kline_env = \<lparr> kn_libs = int_libs, kn_kafka = None \<rparr>"

definition wit_kline_state :: "int kline_state" where
  "wit_kline_state =
     \<lparr> ks_redis = \<lparr> rc_keys = Map.empty, rc_lists = (\<lambda>_. []), rc_published = [], rc_calls = (\<lambda>_. Answered), rc_pos = 0 \<rparr>,
       ks_klines = [], ks_stmts = (\<lambda>_. Answered), ks_stmtPos = 0, ks_topic = [], ks_writes = (\<lambda>_. Written), ks_writePos = 0,
       ks_ch = [], ks_queueSize = 4 \<rparr>"

definition wit_kline_steps :: "kline_step list" where
  "wit_kline_steps =
     [TradeIn \<lparr> ms_key = ''AB'', ms_value = [] \<rparr>, WorkerTurn, TradeIn \<lparr> ms_key = ''AB'', ms_value = [0] \<rparr>, WorkerTurn, WorkerTurn]"

definition wit_kline_calls :: "(string \<times> string \<times> string \<times> int) list" where
  "wit_kline_calls = [(''AB'', ''90'', ''5'', 0), (''AB'', ''90'', ''5'', 1000)]"

definition wit_kline_end :: "int kline_service" where
  "wit_kline_end = kline_run wit_kline_env wit_bar_codec wit_kline_steps (NewAggregator, wit_kline_state, ((\<lambda>_. 0), 0))"

lemma wit_kline_trades:
  "list_all2 (trade_message (kn_libs wit_kline_env) wit_bar_codec) (trades_in wit_kline_steps) wit_kline_calls"
  "\<forall>c \<in> set wit_kline_calls. call_ok (kn_libs wit_kline_env) c"
proof -
  have n: "int_of_string ''90'' = Some 90" "int_of_string ''5'' = Some 5" by code_simp+
  show "list_all2 (trade_message (kn_libs wit_kline_env) wit_bar_codec) (trades_in wit_kline_steps) wit_kline_calls"
    by (simp add: wit_kline_steps_def wit_kline_calls_def trade_message_def ParseKafkaMessage_def wit_bar_codec_def wit_kline_env_def
        GetValue_def unix_milli_def unix_nano_def unix_epoch_def int_libs_def Let_def split_beta)
  show "\<forall>c \<in> set wit_kline_calls. call_ok (kn_libs wit_kline_env) c"
    by (simp add: wit_kline_calls_def call_ok_def call_time_def parseDecimal_def wit_kline_env_def int_libs_def n)
qed

lemma wit_kline_idle: "pending (fst (snd wit_kline_end)) = []"
proof -
  have n: "int_of_string ''90'' = Some 90" "int_of_string ''5'' = Some 5" by code_simp+
  show ?thesis
    by (simp add: wit_kline_end_def kline_run_def wit_kline_steps_def kline_Process_def ParseKafkaMessage_def wit_bar_codec_def
        wit_kline_env_def GetValue_def unix_milli_def unix_nano_def unix_epoch_def wit_kline_state_def now_def agg_ApplyTrade_def parseDecimal_def
        n int_libs_def Let_def DefaultIntervals_def interval_defs applyOneInterval_def agg_getOrCreate_def NewAggregator_def BucketStartMs_def
        DurationMs_def interval_Duration_def go_rem_def NewFromTrade_def SnapshotOpen_def SaveOpenBar_def PublishOpenUpdate_def rc_op_defs
        HandleClose_def on_redis_def EnqueueClosed_def worker_turn_def PopPendingClosed_def processWithRetry_def maxRetries_def
        numeral_3_eq_3 processOne_def InsertClosed_def redis_PublishClosed_def process_pending_keeps)
qed

theorem klines_served_witness:
  "fst (GetKlines int_libs \<lparr> gq_Symbol = ''AB'', gq_Interval = Sec1, gq_StartTime = None, gq_EndTime = None, gq_Limit = 0 \<rparr>
     (fst wit_kline_end) (fst (snd wit_kline_end))) =
   (let bars = bars_of Sec1 (map (tick_of int_libs) wit_kline_calls)
    in Inr (map (closedBarToPB int_libs \<circ> ClosedBarFromOHLCV int_libs ''AB'' Sec1) (butlast bars) @ [openBarToPB int_libs Sec1 (List.last bars)])) \<and>
   length (bars_of Sec1 (map (tick_of int_libs) wit_kline_calls)) = 2"
proof -
  have b: "length (bars_of Sec1 (map (tick_of int_libs) wit_kline_calls)) = 2"
    by (simp add: bars_of_def wit_kline_calls_def tick_of_def call_time_def bucket_def BucketStartMs_def DurationMs_def interval_Duration_def
        interval_defs go_rem_def)
  have f: "filter (\<lambda>c. fst c = ''AB'') wit_kline_calls = wit_kline_calls" by (simp add: wit_kline_calls_def)
  have e: "kn_libs wit_kline_env = int_libs" by (simp add: wit_kline_env_def)
  have s: "\<forall>s. sorted (map call_time (filter (\<lambda>c. fst c = s) wit_kline_calls))" by (simp add: wit_kline_calls_def call_time_def)
  have run: "kline_run wit_kline_env wit_bar_codec wit_kline_steps (NewAggregator, wit_kline_state, ((\<lambda>_. 0), 0)) =
    (fst wit_kline_end, fst (snd wit_kline_end), snd (snd wit_kline_end))" by (simp add: wit_kline_end_def)
  have st: "kline_calm wit_kline_env wit_kline_state" "ks_klines wit_kline_state = []" "pending wit_kline_state = []" "ks_ch wit_kline_state = []"
    by (simp_all add: kline_calm_def rc_calm_def wit_kline_state_def wit_kline_env_def)
  have m: "''AB'' \<in> fst ` set wit_kline_calls" "Sec1 \<in> set DefaultIntervals" by (simp_all add: wit_kline_calls_def DefaultIntervals_def)
  from klines_served [OF _ st wit_kline_trades s run wit_kline_idle m(2,1), of 0] b show ?thesis
    using codec_ok_int_libs by (simp add: e f Let_def list_limit_def)
qed

end
