(* ===== verification/KlineRestart.thy ===== *)
theory KlineRestart
  imports KlineService
begin

text \<open>
  A restart of the candle service: what \<open>Restore\<close> makes of the snapshots of the open bars and of the
  list of closed ones that the service of theory \<open>KlineService\<close> left in Redis.
\<close>

section \<open>The keys of the open bars\<close>

lemma default_no_colon: "iv \<in> set DefaultIntervals \<Longrightarrow> CHR '':'' \<notin> set iv \<and> iv \<noteq> []"
  by (auto simp: DefaultIntervals_def interval_defs)

lemma splitSymbolInterval_key:
  assumes "CHR '':'' \<notin> set iv" "iv \<noteq> []" "s \<noteq> []"
  shows "splitSymbolInterval (s @ '':'' @ iv) = Some (s, iv)"
proof -
  have "takeWhile (\<lambda>c. c \<noteq> CHR '':'') (rev iv @ CHR '':'' # rev s) = rev iv" "dropWhile (\<lambda>c. c \<noteq> CHR '':'') (rev iv @ CHR '':'' # rev s) = CHR '':'' # rev s"
    by (subst takeWhile_append2; use assms(1) in force) (subst dropWhile_append2; use assms(1) in force)
  with assms(2,3) show ?thesis by (cases s) (simp_all add: splitSymbolInterval_def Let_def)
qed

lemma split_openKey:
  "iv \<in> set DefaultIntervals \<Longrightarrow> s \<noteq> [] \<Longrightarrow> splitSymbolInterval (trim_prefix (openKey s iv) openKeyPrefix) = Some (s, iv)"
  using default_no_colon [of iv] splitSymbolInterval_key [of iv s] by (simp add: openKey_def)

lemma openKey_eq:
  assumes "openKey s iv = openKey s' iv'" "iv \<in> set DefaultIntervals" "iv' \<in> set DefaultIntervals" "s \<noteq> []" "s' \<noteq> []"
  shows "s = s' \<and> iv = iv'"
  using trans [OF split_openKey [OF assms(2,4), symmetric, unfolded assms(1)] split_openKey [OF assms(3,5)]] by simp

section \<open>Snapshots are current or missing\<close>

definition snapshots_current :: "'d libs \<Rightarrow> 'd aggregator \<Rightarrow> bar_json redis \<Rightarrow> bool" where
  "snapshots_current L a r \<longleftrightarrow>
     (\<forall>k j. has_prefix k openKeyPrefix \<longrightarrow> rc_keys r k = Some j \<longrightarrow>
        (\<exists>s iv b. k = openKey s iv \<and> s \<noteq> [] \<and> iv \<in> set DefaultIntervals \<and> bars_at a s iv = Some b \<and> j = bar_ToJSON L s iv b False))"

definition pair_saved :: "'d aggregator \<Rightarrow> bar_json redis \<Rightarrow> string \<Rightarrow> bool" where
  "pair_saved a r s \<longleftrightarrow> (\<forall>iv \<in> set DefaultIntervals. bars_at a s iv \<noteq> None \<and> rc_keys r (openKey s iv) \<noteq> None)"

lemma openKey_prefix: "has_prefix (openKey s iv) openKeyPrefix"
  by (simp add: openKey_def)

text \<open>A trade opens or extends a bar of each interval of its pair, and no bar of another.\<close>

lemma agg_ApplyTrade_bars:
  assumes c: "call_ok L (s, p, q, t)" and a: "agg_ApplyTrade L s p q t a = (Inr evs, a1)"
  shows "iv \<in> set DefaultIntervals \<Longrightarrow> bars_at a1 s iv \<noteq> None" and "s' \<noteq> s \<Longrightarrow> bars_at a1 s' iv = bars_at a s' iv"
proof -
  obtain pr qt where i: "apply_intervals s pr qt t DefaultIntervals a = (evs, a1)"
    using a by (auto simp: agg_ApplyTrade_def Let_def split: if_splits sum.splits prod.splits)
  define tk where "tk = \<lparr> tt_TimeMs = t, tt_Price = pr, tt_Qty = qt \<rparr>"
  have d: "distinct DefaultIntervals" by (simp add: DefaultIntervals_def interval_defs)
  have "apply_intervals s (tt_Price tk) (tt_Qty tk) (tt_TimeMs tk) DefaultIntervals a = (evs, a1)" using i by (simp add: tk_def)
  from apply_intervals_step [OF d this, of iv] show "iv \<in> set DefaultIntervals \<Longrightarrow> bars_at a1 s iv \<noteq> None"
    by (simp add: bar_step_def split: option.splits)
  show "s' \<noteq> s \<Longrightarrow> bars_at a1 s' iv = bars_at a s' iv" using apply_intervals_frame [OF i, of s'] by (simp add: bars_at_def)
qed

lemma trade_snapshots:
  assumes cur: "snapshots_current L a r0" and c: "call_ok L (s, p, q, t)" and a: "agg_ApplyTrade L s p q t a = (Inr evs, a1)"
    and saved: "\<forall>iv \<in> set DefaultIntervals. \<forall>b. bars_at a1 s iv = Some b \<longrightarrow> rc_keys r (openKey s iv) = Some (bar_ToJSON L s iv b False)"
    and frame: "\<forall>k. (\<forall>iv \<in> set DefaultIntervals. bars_at a1 s iv = None \<or> k \<noteq> openKey s iv) \<longrightarrow> rc_keys r k = rc_keys r0 k"
  shows "snapshots_current L a1 r \<and> pair_saved a1 r s"
proof -
  note b = agg_ApplyTrade_bars [OF c a]
  have "\<exists>s' iv b. k = openKey s' iv \<and> s' \<noteq> [] \<and> iv \<in> set DefaultIntervals \<and> bars_at a1 s' iv = Some b \<and> j = bar_ToJSON L s' iv b False"
    if k: "has_prefix k openKeyPrefix" "rc_keys r k = Some j" for k j
  proof (cases "\<exists>iv \<in> set DefaultIntervals. k = openKey s iv")
    case True
    then obtain iv where iv: "iv \<in> set DefaultIntervals" "k = openKey s iv" by blast
    from b(1) [OF iv(1)] obtain x where "bars_at a1 s iv = Some x" by blast
    with iv saved k(2) c show ?thesis by (auto simp: call_ok_def)
  next
    case False
    then have "rc_keys r0 k = Some j" using frame k(2) by auto
    with cur k(1) obtain s' iv x where x: "k = openKey s' iv" "s' \<noteq> []" "iv \<in> set DefaultIntervals" "bars_at a s' iv = Some x"
      "j = bar_ToJSON L s' iv x False" unfolding snapshots_current_def by blast
    with False have "s' \<noteq> s" by blast
    with x b(2) [of s' iv] show ?thesis by auto
  qed
  then have "snapshots_current L a1 r" by (simp add: snapshots_current_def)
  moreover have "pair_saved a1 r s" using b(1) saved by (fastforce simp: pair_saved_def)
  ultimately show ?thesis by blast
qed

lemma snapshots_deleted:
  "snapshots_current L a r \<Longrightarrow> rc_keys r' = rc_keys r \<or> (\<exists>k. rc_keys r' = (rc_keys r)(k := None)) \<Longrightarrow> snapshots_current L a r'"
  by (auto simp: snapshots_current_def split: if_splits)

lemma worker_turn_keys:
  assumes F: "bars_ok (kn_libs E) F" "evs \<subseteq> F" and st: "stored_or_pending E evs st"
  shows "rc_keys (ks_redis (worker_turn E st)) = rc_keys (ks_redis st) \<or>
    (\<exists>k. rc_keys (ks_redis (worker_turn E st)) = (rc_keys (ks_redis st))(k := None))"
proof (cases "ks_ch st")
  case (Cons ev rest)
  then have "ce_Symbol ev \<noteq> []" using st bars_okD(2) [OF F] by (auto simp: stored_or_pending_def)
  moreover have "kline_calm E (st\<lparr>ks_ch := rest\<rparr>)" using st by (simp add: stored_or_pending_def kline_calm_def)
  ultimately show ?thesis using Cons processWithRetry_calm(5) [of E "st\<lparr>ks_ch := rest\<rparr>" ev] by (auto simp: worker_turn_def)
next
  case Nil
  have c: "rc_calm (ks_redis st)" "kline_calm E st" using st by (simp_all add: stored_or_pending_def kline_calm_def)
  show ?thesis
  proof (cases "pending st = []")
    case True
    then show ?thesis using Nil c by (simp add: worker_turn_def on_redis_def PopPendingClosed_def rc_calm_ops)
  next
    case False
    then have "List.last (pending st) \<in> closed_json (kn_libs E) ` evs" using st last_in_set by (fastforce simp: stored_or_pending_def)
    then obtain ev where ev: "ev \<in> evs" "List.last (pending st) = closed_json (kn_libs E) ev" by blast
    define st1 where "st1 = st\<lparr>ks_redis := (ks_redis st)\<lparr>rc_pos := Suc (rc_pos (ks_redis st)),
      rc_lists := (rc_lists (ks_redis st))(pendingCloseKey := butlast (pending st))\<rparr>\<rparr>"
    have "on_redis PopPendingClosed st = (Inr (Some (closed_json (kn_libs E) ev)), st1)"
      using False c ev(2) by (simp add: on_redis_def PopPendingClosed_def rc_calm_ops st1_def)
    then have "worker_turn E st = processWithRetry E ev st1" using Nil bars_okD(4) [OF F ev(1)] by (simp add: worker_turn_def process_pending_def)
    moreover have "kline_calm E st1" using c by (simp add: st1_def kline_calm_def)
    ultimately show ?thesis using processWithRetry_calm(5) [of E st1 ev] bars_okD(2) [OF F ev(1)] by (auto simp: st1_def)
  qed
qed

text \<open>Along a run, and right after a trade of a pair all its snapshots are there.\<close>

lemma kline_run_snapshots:
  assumes F: "bars_ok (kn_libs E) F"
  shows "list_all2 (trade_message (kn_libs E) K) (trades_in steps) cs \<Longrightarrow> \<forall>c \<in> set cs. call_ok (kn_libs E) c \<Longrightarrow>
    agg_calls (kn_libs E) cs a = (new, a') \<Longrightarrow> evs \<union> set new \<subseteq> F \<Longrightarrow> stored_or_pending E evs st \<Longrightarrow>
    snapshots_current (kn_libs E) a (ks_redis st) \<Longrightarrow>
    kline_run E K steps (a, st, clk) = (a2, st', clk') \<Longrightarrow>
    snapshots_current (kn_libs E) a2 (ks_redis st') \<and> (\<forall>m. steps \<noteq> [] \<longrightarrow> List.last steps = TradeIn m \<longrightarrow> pair_saved a2 (ks_redis st') (fst (List.last cs)))"
proof (induction steps arbitrary: a st clk cs new evs)
  case Nil
  then show ?case by (simp add: kline_run_def)
next
  case (Cons x steps)
  show ?case
  proof (cases x)
    case WorkerTurn
    have w: "stored_or_pending E evs (worker_turn E st)" by (rule worker_turn_stored [OF F _ Cons.prems(5)]) (use Cons.prems(4) in blast)
    have "snapshots_current (kn_libs E) a (ks_redis (worker_turn E st))"
      by (rule snapshots_deleted [OF Cons.prems(6) worker_turn_keys [OF F _ Cons.prems(5)]]) (use Cons.prems(4) in blast)
    from Cons.IH [OF _ Cons.prems(2-4) w this] Cons.prems(1,7) WorkerTurn show ?thesis by (auto simp: kline_run_def)
  next
    case (TradeIn m)
    from Cons.prems(1) TradeIn obtain s p q t cs' where cs: "cs = (s, p, q, t) # cs'" "trade_message (kn_libs E) K m (s, p, q, t)"
      "list_all2 (trade_message (kn_libs E) K) (trades_in steps) cs'" by (auto simp: list_all2_Cons1)
    have ok: "call_ok (kn_libs E) (s, p, q, t)" using Cons.prems(2) cs(1) by simp
    obtain e1 a1 where a1: "agg_ApplyTrade (kn_libs E) s p q t a = (Inr e1, a1)" by (rule agg_ApplyTrade_ok [OF ok])
    obtain e2 a2' where r: "agg_calls (kn_libs E) cs' a1 = (e2, a2')" by (metis surj_pair)
    have new: "new = e1 @ e2" "a2' = a'" using Cons.prems(3) cs(1) a1 r by auto
    have "rc_calm (ks_redis st)" using Cons.prems(5) by (simp add: stored_or_pending_def kline_calm_def)
    from kline_Process_calm [OF cs(2) ok this a1, of clk] obtain rr clk1 where
      p: "kline_Process E K m (a, st, clk) = (None, a1, (fold (HandleClose (kn_libs E)) e1 st)\<lparr>ks_redis := rr\<rparr>, clk1)"
      "rc_calm rr" "rc_lists rr = rc_lists (ks_redis (fold (HandleClose (kn_libs E)) e1 st))"
      "\<forall>iv \<in> set DefaultIntervals. \<forall>b. bars_at a1 s iv = Some b \<longrightarrow> rc_keys rr (openKey s iv) = Some (bar_ToJSON (kn_libs E) s iv b False)"
      "\<forall>k. (\<forall>iv \<in> set DefaultIntervals. bars_at a1 s iv = None \<or> k \<noteq> openKey s iv) \<longrightarrow> rc_keys rr k = rc_keys (ks_redis st) k" .
    note now1 = trade_snapshots [OF Cons.prems(6) ok a1 p(4,5)]
    have st1: "stored_or_pending E (evs \<union> set e1) ((fold (HandleClose (kn_libs E)) e1 st)\<lparr>ks_redis := rr\<rparr>)"
      by (rule stored_or_pending_redis [OF HandleClose_all_stored [OF Cons.prems(5)] p(2,3)])
    have run: "kline_run E K steps (a1, (fold (HandleClose (kn_libs E)) e1 st)\<lparr>ks_redis := rr\<rparr>, clk1) = (a2, st', clk')"
      using Cons.prems(7) p(1) TradeIn by (simp add: kline_run_def)
    show ?thesis
    proof (cases "steps = []")
      case True
      then show ?thesis using run now1 cs TradeIn by (auto simp: kline_run_def)
    next
      case False
      then have "(\<exists>m. List.last steps = TradeIn m) \<Longrightarrow> trades_in steps \<noteq> []"
        by (induction steps rule: trades_in.induct) (auto split: if_splits)
      with cs(1,3) have "List.last steps = TradeIn m' \<Longrightarrow> List.last cs = List.last cs'" for m' by auto
      with Cons.IH [OF cs(3) _ r [unfolded new(2)] _ st1 _ run] Cons.prems(2,4) cs(1) new(1) now1 False
      show ?thesis by (simp add: Un_assoc)
    qed
  qed
qed

section \<open>Reading them back\<close>

lemma scan_key_restores:
  assumes L: "codec_ok L" and r: "rc_calm r" "rc_keys r (openKey s iv) = Some (bar_ToJSON L s iv b False)"
    and iv: "iv \<in> set DefaultIntervals" and s: "s \<noteq> []"
  shows "scan_key L (openKey s iv) (a, r) = (None, RestoreOpen s iv b a, r\<lparr>rc_pos := Suc (rc_pos r)\<rparr>)"
  using L r by (simp add: scan_key_def split_openKey [OF iv s] interval_Parse_default [OF iv] rc_calm_ops barJSON_round_trip bar_ToJSON_fields)

lemma RestoreOpen_bars: "bars_at (RestoreOpen s iv b a) s' iv' = (if s' = s \<and> iv' = iv then Some b else bars_at a s' iv')"
  by (auto simp: RestoreOpen_def agg_getOrCreate_def bars_at_def split: option.splits)

text \<open>Whatever the order of the keys, and if some come more than once.\<close>

lemma ScanOpenBars_restores:
  assumes L: "codec_ok L"
  shows "rc_calm r \<Longrightarrow> snapshots_current L a r \<Longrightarrow> \<forall>k \<in> set ks. has_prefix k openKeyPrefix \<and> rc_keys r k \<noteq> None \<Longrightarrow>
    \<exists>a' n. ScanOpenBars L ks (a0, r) = (None, a', r\<lparr>rc_pos := n\<rparr>) \<and>
      (\<forall>s iv. s \<noteq> [] \<longrightarrow> iv \<in> set DefaultIntervals \<longrightarrow>
        bars_at a' s iv = (if openKey s iv \<in> set ks then bars_at a s iv else bars_at a0 s iv))"
proof (induction ks arbitrary: a0 r)
  case Nil
  then show ?case by (auto intro: exI [of _ "rc_pos r"])
next
  case (Cons k ks)
  from Cons.prems(2,3) obtain s iv b where k: "k = openKey s iv" "s \<noteq> []" "iv \<in> set DefaultIntervals" "bars_at a s iv = Some b"
    "rc_keys r k = Some (bar_ToJSON L s iv b False)" unfolding snapshots_current_def by (metis list.set_intros(1) not_Some_eq)
  have one: "ScanOpenBars L (k # ks) (a0, r) = ScanOpenBars L ks (RestoreOpen s iv b a0, r\<lparr>rc_pos := Suc (rc_pos r)\<rparr>)"
    using scan_key_restores [OF L Cons.prems(1) _ k(3,2)] k(1,5) by simp
  have "snapshots_current L a (r\<lparr>rc_pos := Suc (rc_pos r)\<rparr>)" using Cons.prems(2) by (simp add: snapshots_current_def)
  from Cons.IH [OF _ this, of "RestoreOpen s iv b a0"] Cons.prems(1,3) one obtain a' n where
    a': "ScanOpenBars L (k # ks) (a0, r) = (None, a', r\<lparr>rc_pos := n\<rparr>)"
    "\<forall>s' iv'. s' \<noteq> [] \<longrightarrow> iv' \<in> set DefaultIntervals \<longrightarrow>
      bars_at a' s' iv' = (if openKey s' iv' \<in> set ks then bars_at a s' iv' else bars_at (RestoreOpen s iv b a0) s' iv')" by auto
  have "bars_at a' s' iv' = (if openKey s' iv' \<in> set (k # ks) then bars_at a s' iv' else bars_at a0 s' iv')"
    if "s' \<noteq> []" "iv' \<in> set DefaultIntervals" for s' iv'
    using a'(2) that k openKey_eq [of s' iv' s iv] by (auto simp: RestoreOpen_bars)
  with a'(1) show ?case by blast
qed

text \<open>\<open>DrainPending\<close> gets through the list.\<close>

lemma DrainPending_calm:
  assumes F: "bars_ok (kn_libs E) F" "evs \<subseteq> F"
  shows "stored_or_pending E evs st \<Longrightarrow> ks_ch st = [] \<Longrightarrow>
    \<exists>st'. DrainPending E st = (None, st') \<and> pending st' = [] \<and> stored_or_pending E evs st'"
proof (induction "length (pending st)" arbitrary: st)
  define count where "count = (\<lambda>st :: 'a kline_state. st\<lparr>ks_redis := (ks_redis st)\<lparr>rc_pos := Suc (rc_pos (ks_redis st))\<rparr>\<rparr>)"
  have count: "on_redis PendingCloseCount st = (Inr (length (pending st)), count st) \<and> stored_or_pending E evs (count st) \<and>
      pending (count st) = pending st \<and> ks_ch (count st) = ks_ch st" if "stored_or_pending E evs st" for st
    using that by (auto simp: on_redis_def PendingCloseCount_def rc_calm_ops stored_or_pending_def kline_calm_def count_def)
  {
    case 0
    then show ?case using count [OF 0(2)] by (auto simp: DrainPending.simps [of E st])
  next
    case (Suc n)
    note ct = count [OF Suc.prems(1)]
    have ne: "pending (count st) \<noteq> []" using Suc.hyps(2) ct by auto
    obtain y st2 where pop: "on_redis PopPendingClosed (count st) = (y, st2)" by (metis surj_pair)
    have "rc_calm (ks_redis (count st))" using ct by (simp add: stored_or_pending_def kline_calm_def)
    then have y: "y = Inr (Some (List.last (pending (count st))))" "pending st2 = butlast (pending (count st))" "ks_ch st2 = []"
      using ne pop ct Suc.prems(2) by (auto simp: on_redis_def PopPendingClosed_def rc_calm_ops)
    have turn: "worker_turn E (count st) = process_pending E (List.last (pending (count st))) st2"
      using ct Suc.prems(2) pop y(1) by (simp add: worker_turn_def)
    have w: "stored_or_pending E evs (worker_turn E (count st))" by (rule worker_turn_stored [OF F]) (use ct in blast)
    have k: "length (pending (worker_turn E (count st))) = n" "ks_ch (worker_turn E (count st)) = []"
      using turn y Suc.hyps(2) ct by (simp_all add: process_pending_keeps)
    have "DrainPending E st = DrainPending E (worker_turn E (count st))"
      using ct pop y(1) turn ne by (simp add: DrainPending.simps [of E st])
    then show ?case using Suc.hyps(1) [OF k(1) [symmetric] w k(2)] by simp
  }
qed


definition wit_crash_steps :: "kline_step list" where
  "wit_crash_steps = [TradeIn \<lparr> ms_key = ''AB'', ms_value = [] \<rparr>, WorkerTurn, TradeIn \<lparr> ms_key = ''AB'', ms_value = [0] \<rparr>]"

definition wit_crash :: "int kline_service" where
  "wit_crash = kline_run wit_kline_env wit_bar_codec wit_crash_steps (NewAggregator, wit_kline_state, ((\<lambda>_. 0), 0))"

lemma wit_crash_keys:
  "set (map (openKey ''AB'') DefaultIntervals) = {k. has_prefix k openKeyPrefix \<and> rc_keys (ks_redis (fst (snd wit_crash))) k \<noteq> None}"
proof -
  have n: "int_of_string ''90'' = Some 90" "int_of_string ''5'' = Some 5" by code_simp+
  have "rc_keys (ks_redis (fst (snd wit_crash))) k \<noteq> None \<longleftrightarrow> k \<in> openKey ''AB'' ` set DefaultIntervals" for k
    by (simp add: wit_crash_def kline_run_def wit_crash_steps_def kline_Process_def ParseKafkaMessage_def wit_bar_codec_def
        wit_kline_env_def GetValue_def unix_milli_def unix_nano_def unix_epoch_def wit_kline_state_def now_def agg_ApplyTrade_def parseDecimal_def
        n int_libs_def Let_def DefaultIntervals_def interval_defs applyOneInterval_def agg_getOrCreate_def NewAggregator_def BucketStartMs_def
        DurationMs_def interval_Duration_def go_rem_def NewFromTrade_def SnapshotOpen_def SaveOpenBar_def PublishOpenUpdate_def rc_op_defs
        HandleClose_def on_redis_def EnqueueClosed_def worker_turn_def PopPendingClosed_def)
  then show ?thesis by (auto simp: openKey_prefix)
qed


end
