(* ===== verification/IndexPrice.thy ===== *)
theory IndexPrice
  imports MarketConsumer
begin

text \<open>
  Model of \<open>internal/indexprice\<close>: the service that computes an index price per pair from the prices of
  several exchanges. \<open>aggregator\<close> filters the quotes and takes a weighted median, \<open>collector\<close> fetches them,
  \<open>engine\<close> polls, stores and publishes, \<open>service\<close> answers queries. HTTP answers and the decoding of JSON
  are parameters. Metrics, log lines and time limits are left out: a fetch that runs out of time is one
  that fails.
\<close>

section \<open>Aggregation\<close>

record 'd quote =
  qo_Source :: string
  qo_Price :: 'd
  qo_Weight :: 'd

record 'd index_result =
  ir_Price :: 'd
  ir_Sources :: "string list"

record 'd index_config =
  ic_DeviationThreshold :: 'd
  ic_MinSources :: int

definition withinDeviation :: "('d::linordered_idom) libs \<Rightarrow> 'd \<Rightarrow> 'd \<Rightarrow> 'd \<Rightarrow> bool" where
  "withinDeviation L price median threshold \<longleftrightarrow>
     (if \<not> 0 < median then 0 < price
      else if threshold < 0 then False
      else \<not> threshold < dec_div L \<bar>price - median\<bar> median)"

definition medianDecimal :: "('d::linordered_idom) libs \<Rightarrow> 'd list \<Rightarrow> 'd" where
  "medianDecimal L vs =
     (if vs = [] then 0
      else (let sorted = sort vs; mid = length sorted div 2
            in if length sorted mod 2 = 1 then sorted ! mid else dec_div L (sorted ! (mid - 1) + sorted ! mid) 2))"

text \<open>The loop of \<open>weightedMedian\<close>: the first quote at which the weights reach the half.\<close>

fun reach_half :: "('d::linordered_idom) \<Rightarrow> 'd \<Rightarrow> 'd quote list \<Rightarrow> 'd option" where
  "reach_half half cum [] = None"
| "reach_half half cum (q # qs) = (if half \<le> cum + qo_Weight q then Some (qo_Price q) else reach_half half (cum + qo_Weight q) qs)"

definition weightedMedian :: "('d::linordered_idom) libs \<Rightarrow> 'd quote list \<Rightarrow> 'd" where
  "weightedMedian L quotes =
     (if quotes = [] then 0
      else if length quotes = 1 then qo_Price (quotes ! 0)
      else (let sorted = sort_key qo_Price quotes; total = sum_list (map qo_Weight sorted)
            in if \<not> 0 < total then qo_Price (sorted ! (length sorted div 2))
               else (case reach_half (dec_div L total 2) 0 sorted of
                       Some p \<Rightarrow> p
                     | None \<Rightarrow> qo_Price (sorted ! (length sorted - 1)))))"

definition accepted :: "('d::linordered_idom) libs \<Rightarrow> 'd index_config \<Rightarrow> 'd quote list \<Rightarrow> 'd quote list" where
  "accepted L cfg quotes =
     (let median = medianDecimal L (map qo_Price (filter (\<lambda>q. 0 < qo_Price q) quotes))
      in map (\<lambda>q. q\<lparr>qo_Weight := (if 0 < qo_Weight q then qo_Weight q else 1)\<rparr>)
           (filter (\<lambda>q. 0 < qo_Price q \<and> withinDeviation L (qo_Price q) median (ic_DeviationThreshold cfg)) quotes))"

definition Aggregate :: "('d::linordered_idom) libs \<Rightarrow> 'd quote list \<Rightarrow> 'd index_config \<Rightarrow> 'd index_result option" where
  "Aggregate L quotes cfg0 =
     (let cfg = (if ic_MinSources cfg0 \<le> 0 then cfg0\<lparr>ic_MinSources := 1\<rparr> else cfg0)
      in if quotes = [] then None
         else if filter (\<lambda>q. 0 < qo_Price q) quotes = [] then None
         else (let filtered = accepted L cfg quotes
               in if int (length filtered) < ic_MinSources cfg then None
                  else Some \<lparr> ir_Price = weightedMedian L filtered, ir_Sources = sort (map qo_Source filtered) \<rparr>))"

definition ParseDeviation :: "('d::linordered_idom) libs \<Rightarrow> string \<Rightarrow> err + 'd" where
  "ParseDeviation L s =
     (if s = [] then Inr (dec_new L 3 (- 2))
      else (case dec_of_string L s of
              None \<Rightarrow> Inl (ErrMsg ''aggregator: invalid deviation threshold'')
            | Some d \<Rightarrow> if d < 0 then Inl (ErrMsg ''aggregator: deviation threshold must be non-negative'') else Inr d))"

section \<open>Collectors\<close>

text \<open>
  A request is its address, its query and the number of bytes read of the answer; the answer is a
  status and a body.
\<close>

record http_request =
  hr_URL :: string
  hr_Query :: "(string \<times> string) list"

type_synonym http_answers = "http_request \<Rightarrow> err + (int \<times> bytes)"

definition httpGetJSON :: "http_answers \<Rightarrow> http_request \<Rightarrow> int \<Rightarrow> err + bytes" where
  "httpGetJSON web req maxBytes =
     (case web req of
        Inl e \<Rightarrow> Inl e
      | Inr (status, body) \<Rightarrow>
          if status \<noteq> 200 then Inl (ErrMsg ''http'')
          else Inr (take (nat (if maxBytes \<le> 0 then 2 ^ 20 else maxBytes)) body))"

text \<open>What \<open>json.Unmarshal\<close> makes of the answers, and the encoding of the event.\<close>

record okx_ticker =
  ok_Code :: string
  ok_Last :: "string list"

record bybit_ticker =
  by_RetCode :: int
  by_LastPrice :: "string list"

record index_price_event =
  ip_Symbol :: string
  ip_Price :: string
  ip_TsMs :: int
  ip_Sources :: "string list"

record index_codec =
  UnmarshalBinanceTicker :: "bytes \<Rightarrow> string option"
  UnmarshalOKXTicker :: "bytes \<Rightarrow> okx_ticker option"
  UnmarshalBybitTicker :: "bytes \<Rightarrow> bybit_ticker option"
  MarshalIndexPriceEvent :: "index_price_event \<Rightarrow> bytes option"

definition parseDecimalString :: "('d::linordered_idom) libs \<Rightarrow> string \<Rightarrow> err + 'd" where
  "parseDecimalString L s =
     (case dec_of_string L s of
        None \<Rightarrow> Inl (ErrMsg ''invalid decimal'')
      | Some d \<Rightarrow> if \<not> 0 < d then Inl (ErrMsg ''non-positive price'') else Inr d)"

definition ParseBinanceTickerPrice :: "('d::linordered_idom) libs \<Rightarrow> index_codec \<Rightarrow> bytes \<Rightarrow> err + 'd" where
  "ParseBinanceTickerPrice L C body =
     (case UnmarshalBinanceTicker C body of None \<Rightarrow> Inl (ErrMsg ''json'') | Some price \<Rightarrow> parseDecimalString L price)"

definition ParseOKXTicker :: "('d::linordered_idom) libs \<Rightarrow> index_codec \<Rightarrow> bytes \<Rightarrow> err + 'd" where
  "ParseOKXTicker L C body =
     (case UnmarshalOKXTicker C body of
        None \<Rightarrow> Inl (ErrMsg ''json'')
      | Some v \<Rightarrow> if ok_Code v \<noteq> ''0'' \<or> ok_Last v = [] then Inl (ErrMsg ''okx: empty or error response'')
                  else parseDecimalString L (ok_Last v ! 0))"

definition ParseBybitTicker :: "('d::linordered_idom) libs \<Rightarrow> index_codec \<Rightarrow> bytes \<Rightarrow> err + 'd" where
  "ParseBybitTicker L C body =
     (case UnmarshalBybitTicker C body of
        None \<Rightarrow> Inl (ErrMsg ''json'')
      | Some v \<Rightarrow> if by_RetCode v \<noteq> 0 \<or> by_LastPrice v = [] then Inl (ErrMsg ''bybit: empty or error response'')
                  else parseDecimalString L (by_LastPrice v ! 0))"

definition ToBinanceSymbol :: "string \<Rightarrow> string" where
  "ToBinanceSymbol s = filter (\<lambda>c. c \<noteq> CHR ''-'') s"

definition ToOKXInstID :: "string \<Rightarrow> string" where
  "ToOKXInstID s = s"

definition ToBybitSymbol :: "string \<Rightarrow> string" where
  "ToBybitSymbol s = filter (\<lambda>c. c \<noteq> CHR ''-'') s"

record 'd exchange =
  ex_Weight :: 'd
  ex_BaseURL :: string

record 'd mock_source =
  mk_Weight :: 'd
  mk_BasePrices :: "string \<Rightarrow> 'd option"
  mk_DefaultBase :: 'd

datatype 'd collector = Mock "'d mock_source" | Binance "'d exchange" | OKX "'d exchange" | Bybit "'d exchange"

fun collector_Name :: "'d collector \<Rightarrow> string" where
  "collector_Name (Mock m) = ''mock''"
| "collector_Name (Binance x) = ''binance''"
| "collector_Name (OKX x) = ''okx''"
| "collector_Name (Bybit x) = ''bybit''"

fun collector_Weight :: "'d collector \<Rightarrow> 'd" where
  "collector_Weight (Mock m) = mk_Weight m"
| "collector_Weight (Binance x) = ex_Weight x"
| "collector_Weight (OKX x) = ex_Weight x"
| "collector_Weight (Bybit x) = ex_Weight x"

definition new_exchange :: "string \<Rightarrow> ('d::linordered_idom) exchange \<Rightarrow> 'd exchange" where
  "new_exchange base cfg =
     \<lparr> ex_Weight = (if \<not> 0 < ex_Weight cfg then 1 else ex_Weight cfg),
       ex_BaseURL = (if ex_BaseURL cfg = [] then base else ex_BaseURL cfg) \<rparr>"

definition NewBinance :: "('d::linordered_idom) exchange \<Rightarrow> 'd collector" where
  "NewBinance cfg = Binance (new_exchange ''https://api.binance.com'' cfg)"

definition NewOKX :: "('d::linordered_idom) exchange \<Rightarrow> 'd collector" where
  "NewOKX cfg = OKX (new_exchange ''https://www.okx.com'' cfg)"

definition NewBybit :: "('d::linordered_idom) exchange \<Rightarrow> 'd collector" where
  "NewBybit cfg = Bybit (new_exchange ''https://api.bybit.com'' cfg)"

definition NewMock :: "('d::linordered_idom) libs \<Rightarrow> 'd \<Rightarrow> (string \<Rightarrow> string option) \<Rightarrow> string \<Rightarrow> 'd collector" where
  "NewMock L weight prices base =
     Mock \<lparr> mk_Weight = (if \<not> 0 < weight then 1 else weight),
            mk_BasePrices = (\<lambda>s. case prices s of None \<Rightarrow> None
                                 | Some x \<Rightarrow> (case dec_of_string L x of None \<Rightarrow> None | Some p \<Rightarrow> if \<not> 0 < p then None else Some p)),
            mk_DefaultBase = (case dec_of_string L base of None \<Rightarrow> 65000 | Some d \<Rightarrow> if \<not> 0 < d then 65000 else d) \<rparr>"

text \<open>\<open>hash/fnv\<close>, 32-bit FNV-1a.\<close>

definition fnv32a :: "bytes \<Rightarrow> uint32" where
  "fnv32a bs = foldl (\<lambda>h b. (h XOR ucast b) * 16777619) 2166136261 bs"

text \<open>The mock source counts its fetches in \<open>tick\<close>.\<close>

definition mock_price :: "('d::linordered_idom) libs \<Rightarrow> 'd mock_source \<Rightarrow> string \<Rightarrow> uint64 \<Rightarrow> 'd" where
  "mock_price L m s tk =
     (let base = (case mk_BasePrices m s of None \<Rightarrow> mk_DefaultBase m | Some p \<Rightarrow> p);
          noise = uint (fnv32a (map of_char s @ [ucast tk])) mod 2001 - 1000;
          delta = dec_div L (of_int noise) 100000
      in base + base * delta)"

fun FetchPrice ::
  "('d::linordered_idom) libs \<Rightarrow> index_codec \<Rightarrow> http_answers \<Rightarrow> 'd collector \<Rightarrow> string \<Rightarrow> uint64 \<Rightarrow> (err + 'd) \<times> uint64" where
  "FetchPrice L C web (Mock m) s tk = (Inr (mock_price L m s (tk + 1)), tk + 1)"
| "FetchPrice L C web (Binance x) s tk =
     ((case httpGetJSON web \<lparr> hr_URL = ex_BaseURL x @ ''/api/v3/ticker/price'', hr_Query = [(''symbol'', ToBinanceSymbol s)] \<rparr> (64 * 1024) of
         Inl e \<Rightarrow> Inl (ErrMsg ''binance fetch'')
       | Inr body \<Rightarrow> ParseBinanceTickerPrice L C body), tk)"
| "FetchPrice L C web (OKX x) s tk =
     ((case httpGetJSON web \<lparr> hr_URL = ex_BaseURL x @ ''/api/v5/market/ticker'', hr_Query = [(''instId'', ToOKXInstID s)] \<rparr> (128 * 1024) of
         Inl e \<Rightarrow> Inl (ErrMsg ''okx fetch'')
       | Inr body \<Rightarrow> ParseOKXTicker L C body), tk)"
| "FetchPrice L C web (Bybit x) s tk =
     ((case httpGetJSON web \<lparr> hr_URL = ex_BaseURL x @ ''/v5/market/tickers'', hr_Query = [(''category'', ''spot''), (''symbol'', ToBybitSymbol s)] \<rparr>
              (256 * 1024) of
         Inl e \<Rightarrow> Inl (ErrMsg ''bybit fetch'')
       | Inr body \<Rightarrow> ParseBybitTicker L C body), tk)"

definition parseWeight :: "('d::linordered_idom) libs \<Rightarrow> string \<Rightarrow> 'd" where
  "parseWeight L s =
     (if s = [] then 1 else (case dec_of_string L s of None \<Rightarrow> 1 | Some d \<Rightarrow> if \<not> 0 < d then 1 else d))"

record source_config =
  so_Enabled :: bool
  so_Weight :: string
  so_BaseURL :: string

record sources_config =
  so_Mock :: source_config
  so_Binance :: source_config
  so_OKX :: source_config
  so_Bybit :: source_config
  so_BasePrices :: "string \<Rightarrow> string option"
  so_DefaultBase :: string

definition exchange_config :: "('d::linordered_idom) libs \<Rightarrow> source_config \<Rightarrow> 'd exchange" where
  "exchange_config L c = \<lparr> ex_Weight = parseWeight L (so_Weight c), ex_BaseURL = so_BaseURL c \<rparr>"

definition Build :: "('d::linordered_idom) libs \<Rightarrow> sources_config \<Rightarrow> err + 'd collector list" where
  "Build L cfg =
     (let out = (if so_Enabled (so_Mock cfg)
                 then [NewMock L (parseWeight L (so_Weight (so_Mock cfg))) (so_BasePrices cfg) (so_DefaultBase cfg)] else []) @
                (if so_Enabled (so_Binance cfg) then [NewBinance (exchange_config L (so_Binance cfg))] else []) @
                (if so_Enabled (so_OKX cfg) then [NewOKX (exchange_config L (so_OKX cfg))] else []) @
                (if so_Enabled (so_Bybit cfg) then [NewBybit (exchange_config L (so_Bybit cfg))] else [])
      in if out = [] then Inl (ErrMsg ''collector: no enabled sources'') else Inr out)"

section \<open>The engine\<close>

record 'd index_snapshot =
  is_Symbol :: string
  is_Price :: 'd
  is_Sources :: "string list"
  is_Updated :: time
  is_Stale :: bool

type_synonym 'd index_store = "string \<Rightarrow> 'd index_snapshot option"

definition index_Update :: "string \<Rightarrow> 'd \<Rightarrow> string list \<Rightarrow> time \<Rightarrow> bool \<Rightarrow> 'd index_store \<Rightarrow> 'd index_store" where
  "index_Update s price srcs at stale data =
     data(s \<mapsto> \<lparr> is_Symbol = s, is_Price = price, is_Sources = srcs, is_Updated = at, is_Stale = stale \<rparr>)"

record index_json =
  ij_Symbol :: string
  ij_Price :: string
  ij_Ts :: int
  ij_Sources :: "string list"

record index_audit =
  ia_Symbol :: string
  ia_Price :: string
  ia_Ts :: time
  ia_Sources :: "string list"

text \<open>
  The state of the engine with what it talks to: Redis, the topic \<open>index.price\<close>, the table
  \<open>index_prices\<close>, and the successive answers of the exchanges.
\<close>

record 'd index_state =
  ix_store :: "'d index_store"
  ix_redis :: "index_json redis"
  ix_topic :: "message list"
  ix_writes :: "nat \<Rightarrow> write_outcome"
  ix_writePos :: nat
  ix_audit :: "index_audit list"
  ix_stmts :: "nat \<Rightarrow> redis_outcome"
  ix_stmtPos :: nat
  ix_web :: "nat \<Rightarrow> http_answers"
  ix_webPos :: nat
  ix_tick :: uint64
  ix_clock :: clock

record 'd index_env =
  ie_libs :: "'d libs"
  ie_codec :: index_codec
  ie_Symbols :: "string list"
  ie_StaleAfterMs :: int
  ie_aggCfg :: "'d index_config"
  ie_collectors :: "'d collector list"
  ie_ProducerEnabled :: bool

definition index_redis_Publish :: "'d libs \<Rightarrow> string \<Rightarrow> 'd \<Rightarrow> time \<Rightarrow> string list \<Rightarrow> index_json redis \<Rightarrow> err option \<times> index_json redis" where
  "index_redis_Publish L s price ts srcs r =
     (let payload = \<lparr> ij_Symbol = s, ij_Price = dec_to_string L price, ij_Ts = unix_milli ts, ij_Sources = srcs \<rparr>
      in case rc_Set (''index:'' @ s) payload r of
           (Some e, r1) \<Rightarrow> (Some e, r1)
         | (None, r1) \<Rightarrow> (None, snd (rc_Publish (''index:'' @ s) payload r1)))"

definition index_kafka_Publish :: "'d index_env \<Rightarrow> string \<Rightarrow> 'd \<Rightarrow> int \<Rightarrow> string list \<Rightarrow> 'd index_state \<Rightarrow> err option \<times> 'd index_state" where
  "index_kafka_Publish E s price tsMs srcs st =
     (case MarshalIndexPriceEvent (ie_codec E)
             \<lparr> ip_Symbol = s, ip_Price = dec_to_string (ie_libs E) price, ip_TsMs = tsMs, ip_Sources = srcs \<rparr> of
        None \<Rightarrow> (Some (ErrMsg ''kafka publisher: marshal''), st)
      | Some b \<Rightarrow>
          (let oc = ix_writes st (ix_writePos st)
           in ((if oc = Written then None else Some (ErrMsg ''kafka write'')),
               st\<lparr>ix_writePos := Suc (ix_writePos st), ix_topic := ix_topic st @ written oc (messages s [b])\<rparr>)))"

definition InsertAudit :: "string \<Rightarrow> string \<Rightarrow> time \<Rightarrow> string list \<Rightarrow> 'd index_state \<Rightarrow> err option \<times> 'd index_state" where
  "InsertAudit s price ts srcs st =
     (let st1 = st\<lparr>ix_stmtPos := Suc (ix_stmtPos st)\<rparr>;
          st2 = st1\<lparr>ix_audit := ix_audit st @ [\<lparr> ia_Symbol = s, ia_Price = price, ia_Ts = ts, ia_Sources = srcs \<rparr>]\<rparr>
      in case ix_stmts st (ix_stmtPos st) of
           Answered \<Rightarrow> (None, st2)
         | NotDone \<Rightarrow> (Some (ErrMsg ''insert index price audit''), st1)
         | AnswerLost \<Rightarrow> (Some (ErrMsg ''insert index price audit''), st2))"

text \<open>
  The sources are asked at the same time and their quotes are collected as they arrive; theorem
  \<open>Aggregate_order\<close> shows that their order makes no difference. Here it is that of the collectors.
\<close>

fun fetch_all ::
  "('d::linordered_idom) libs \<Rightarrow> index_codec \<Rightarrow> http_answers \<Rightarrow> string \<Rightarrow> 'd collector list \<Rightarrow> uint64 \<Rightarrow> 'd quote list \<times> uint64" where
  "fetch_all L C web s [] tk = ([], tk)"
| "fetch_all L C web s (c # cs) tk =
     (case FetchPrice L C web c s tk of
        (Inl e, t1) \<Rightarrow> fetch_all L C web s cs t1
      | (Inr price, t1) \<Rightarrow>
          (let (qs, t2) = fetch_all L C web s cs t1
           in (\<lparr> qo_Source = collector_Name c, qo_Price = price, qo_Weight = collector_Weight c \<rparr> # qs, t2)))"

definition fetchQuotes :: "('d::linordered_idom) index_env \<Rightarrow> string \<Rightarrow> 'd index_state \<Rightarrow> 'd quote list \<times> 'd index_state" where
  "fetchQuotes E s st =
     (let (qs, t) = fetch_all (ie_libs E) (ie_codec E) (ix_web st (ix_webPos st)) s (ie_collectors E) (ix_tick st)
      in (qs, st\<lparr>ix_webPos := Suc (ix_webPos st), ix_tick := t\<rparr>))"

definition applyStale :: "'d index_env \<Rightarrow> string \<Rightarrow> time \<Rightarrow> 'd index_state \<Rightarrow> 'd index_state" where
  "applyStale E s t st =
     (case ix_store st s of
        None \<Rightarrow> st
      | Some prev \<Rightarrow>
          st\<lparr>ix_store := index_Update s (is_Price prev) (is_Sources prev) (is_Updated prev)
                           (ie_StaleAfterMs E * 1000000 < t - is_Updated prev) (ix_store st)\<rparr>)"

text \<open>The row of the audit is written by a goroutine of its own, so its place among the rows may differ.\<close>

definition index_publish :: "'d index_env \<Rightarrow> string \<Rightarrow> 'd \<Rightarrow> string list \<Rightarrow> time \<Rightarrow> bool \<Rightarrow> 'd index_state \<Rightarrow> 'd index_state" where
  "index_publish E s price srcs at stale st =
     (let st1 = st\<lparr>ix_store := index_Update s price srcs at stale (ix_store st)\<rparr>;
          st2 = st1\<lparr>ix_redis := snd (index_redis_Publish (ie_libs E) s price at srcs (ix_redis st1))\<rparr>;
          st3 = (if ie_ProducerEnabled E then snd (index_kafka_Publish E s price (unix_milli at) srcs st2) else st2)
      in snd (InsertAudit s (dec_to_string (ie_libs E) price) at srcs st3))"

definition processSymbol :: "('d::linordered_idom) index_env \<Rightarrow> string \<Rightarrow> 'd index_state \<Rightarrow> 'd index_state" where
  "processSymbol E s st =
     (let (quotes, st1) = fetchQuotes E s st; res = Aggregate (ie_libs E) quotes (ie_aggCfg E);
          (t, clk) = now (ix_clock st1); st2 = st1\<lparr>ix_clock := clk\<rparr>
      in case res of
           None \<Rightarrow> applyStale E s t st2
         | Some r \<Rightarrow> index_publish E s (ir_Price r) (ir_Sources r) t False st2)"

definition index_tick :: "('d::linordered_idom) index_env \<Rightarrow> 'd index_state \<Rightarrow> 'd index_state" where
  "index_tick E st = fold (processSymbol E) (ie_Symbols E) st"

text \<open>\<open>Run\<close> up to its \<open>n\<close>-th tick.\<close>

definition index_Run :: "('d::linordered_idom) index_env \<Rightarrow> nat \<Rightarrow> 'd index_state \<Rightarrow> 'd index_state" where
  "index_Run E n st = (index_tick E ^^ n) st"

section \<open>Queries\<close>

record pb_index_price =
  px_Symbol :: string
  px_Price :: string
  px_UpdatedAt :: tstamp
  px_Sources :: "string list"
  px_Stale :: bool

definition isStale :: "time \<Rightarrow> time \<Rightarrow> bool" where
  "isStale updated t \<longleftrightarrow> 60 * 1000000000 < t - updated"

definition GetIndexPrice :: "'d libs \<Rightarrow> string \<Rightarrow> 'd index_store \<Rightarrow> clock \<Rightarrow> (err + pb_index_price) \<times> clock" where
  "GetIndexPrice L s data clk =
     (if s = [] then (Inl ErrInvalidArgument, clk)
      else (case data s of
              None \<Rightarrow> (Inl ErrNotFound, clk)
            | Some snap \<Rightarrow>
                (let (t, clk1) = (if is_Stale snap then (0, clk) else now clk)
                 in (Inr \<lparr> px_Symbol = is_Symbol snap, px_Price = dec_to_string L (is_Price snap), px_UpdatedAt = ts_new L (is_Updated snap),
                           px_Sources = is_Sources snap, px_Stale = is_Stale snap \<or> isStale (is_Updated snap) t \<rparr>, clk1))))"

end
