(* ===== verification/IndexProps.thy ===== *)
theory IndexProps
  imports IndexPrice "HOL-Library.Multiset"
begin

text \<open>
  What the index price service of theory \<open>IndexPrice\<close> promises: the index is a price of a source close to
  the others, sources that hold less than half of the weight cannot move it out of the range of the rest,
  it does not depend on the order in which the quotes arrive, and a query gets the newest one.
\<close>

section \<open>The weighted median\<close>

definition total_weight :: "('d::linordered_idom) quote list \<Rightarrow> 'd" where
  "total_weight qs = sum_list (map qo_Weight qs)"

definition weight_upto :: "('d::linordered_idom) quote list \<Rightarrow> 'd \<Rightarrow> 'd" where
  "weight_upto qs p = total_weight (filter (\<lambda>q. qo_Price q \<le> p) qs)"

lemma total_weight_simps [simp]:
  "total_weight [] = 0" "total_weight (q # qs) = qo_Weight q + total_weight qs"
  "total_weight (xs @ ys) = total_weight xs + total_weight ys"
  by (simp_all add: total_weight_def)

lemma total_weight_nonneg: "\<forall>q \<in> set qs. 0 < qo_Weight q \<Longrightarrow> 0 \<le> total_weight qs"
  by (induction qs) auto

lemma total_weight_pos: "\<forall>q \<in> set qs. 0 < qo_Weight q \<Longrightarrow> qs \<noteq> [] \<Longrightarrow> 0 < total_weight qs"
  using total_weight_nonneg by (cases qs) (auto intro!: add_pos_nonneg)

lemma total_weight_split: "total_weight (filter P qs) + total_weight (filter (\<lambda>q. \<not> P q) qs) = total_weight qs"
  by (induction qs) (auto simp: algebra_simps)

lemma total_weight_mono:
  "\<forall>q \<in> set qs. 0 < qo_Weight q \<Longrightarrow> (\<And>q. q \<in> set qs \<Longrightarrow> P q \<Longrightarrow> Q q) \<Longrightarrow> total_weight (filter P qs) \<le> total_weight (filter Q qs)"
  by (induction qs) (fastforce intro: add_increasing add_left_mono)+

lemma total_weight_mset: "mset xs = mset ys \<Longrightarrow> total_weight xs = total_weight ys"
  unfolding total_weight_def by (metis mset_map sum_mset_sum_list)

lemma weight_upto_mset: "mset xs = mset ys \<Longrightarrow> weight_upto xs p = weight_upto ys p"
  unfolding weight_upto_def by (rule total_weight_mset) (simp add: mset_filter)

text \<open>The loop stops at the least price up to which the weights reach the half.\<close>

lemma reach_half_spec:
  "sorted (map qo_Price qs) \<Longrightarrow> \<forall>q \<in> set qs. 0 < qo_Weight q \<Longrightarrow>
   (case reach_half half cum qs of
      None \<Rightarrow> qs = [] \<or> cum + total_weight qs < half
    | Some p \<Rightarrow> p \<in> qo_Price ` set qs \<and> half \<le> cum + weight_upto qs p \<and>
                (\<forall>q \<in> set qs. qo_Price q < p \<longrightarrow> cum + weight_upto qs (qo_Price q) < half))"
proof (induction qs arbitrary: cum)
  case (Cons q qs)
  have le: "qo_Price q \<le> qo_Price x" if "x \<in> set qs" for x using Cons.prems(1) that by auto
  have up: "weight_upto (q # qs) x = qo_Weight q + weight_upto qs x" if "qo_Price q \<le> x" for x
    using that by (simp add: weight_upto_def)
  show ?case
  proof (cases "half \<le> cum + qo_Weight q")
    case True
    have "0 \<le> weight_upto qs (qo_Price q)" unfolding weight_upto_def using Cons.prems(2) by (intro total_weight_nonneg) auto
    with True up [of "qo_Price q"] have "half \<le> cum + weight_upto (q # qs) (qo_Price q)" by (simp add: add.assoc [symmetric] add_increasing2)
    with True le show ?thesis by (auto simp: not_less [symmetric])
  next
    case False
    note IH = Cons.IH [of "cum + qo_Weight q"]
    show ?thesis
    proof (cases "reach_half half (cum + qo_Weight q) qs")
      case None
      with False IH Cons.prems show ?thesis by (auto simp: add.assoc)
    next
      case (Some p)
      with IH Cons.prems have p: "p \<in> qo_Price ` set qs" "half \<le> cum + qo_Weight q + weight_upto qs p"
        "\<forall>x \<in> set qs. qo_Price x < p \<longrightarrow> cum + qo_Weight q + weight_upto qs (qo_Price x) < half" by auto
      have first: "cum + qo_Weight q + weight_upto qs (qo_Price q) < half" if l: "qo_Price q < p"
      proof (cases "\<exists>x \<in> set qs. qo_Price x = qo_Price q")
        case True
        with p(3) l show ?thesis by metis
      next
        case F: False
        then have "filter (\<lambda>x. qo_Price x \<le> qo_Price q) qs = []" using le by (force simp: filter_empty_conv)
        with False show ?thesis by (simp add: weight_upto_def)
      qed
      have "qo_Price q \<le> p" using p(1) le by auto
      with p first False Some up le show ?thesis by (auto simp: add.assoc)
    qed
  qed
qed simp

definition is_weighted_median :: "('d::linordered_idom) \<Rightarrow> 'd quote list \<Rightarrow> 'd \<Rightarrow> bool" where
  "is_weighted_median half qs m \<longleftrightarrow>
     m \<in> qo_Price ` set qs \<and>
     (length qs = 1 \<or>
      (half \<le> weight_upto qs m \<and> (\<forall>q \<in> set qs. qo_Price q < m \<longrightarrow> weight_upto qs (qo_Price q) < half)) \<or>
      (total_weight qs < half \<and> (\<forall>q \<in> set qs. qo_Price q \<le> m)))"

lemma weightedMedian_spec:
  assumes qs: "qs \<noteq> []" "\<forall>q \<in> set qs. 0 < qo_Weight q"
  shows "is_weighted_median (dec_div L (total_weight qs) 2) qs (weightedMedian L qs)"
proof (cases "length qs = 1")
  case True
  with qs(1) show ?thesis by (simp add: is_weighted_median_def weightedMedian_def)
next
  case False
  let ?s = "sort_key qo_Price qs" and ?half = "dec_div L (total_weight qs) 2"
  have t: "sum_list (map qo_Weight ?s) = total_weight qs" using total_weight_mset [of ?s qs] by (simp add: total_weight_def)
  have up: "weight_upto ?s p = weight_upto qs p" for p by (rule weight_upto_mset) simp
  have ts: "total_weight ?s = total_weight qs" by (rule total_weight_mset) simp
  have r: "case reach_half ?half 0 ?s of
      None \<Rightarrow> ?s = [] \<or> 0 + total_weight ?s < ?half
    | Some p \<Rightarrow> p \<in> qo_Price ` set ?s \<and> ?half \<le> 0 + weight_upto ?s p \<and>
                (\<forall>q \<in> set ?s. qo_Price q < p \<longrightarrow> 0 + weight_upto ?s (qo_Price q) < ?half)"
    by (rule reach_half_spec) (use qs(2) in simp_all)
  show ?thesis
  proof (cases "reach_half ?half 0 ?s")
    case (Some p)
    with r False qs total_weight_pos [OF qs(2,1)] show ?thesis
      by (simp add: is_weighted_median_def weightedMedian_def t up Let_def)
  next
    case None
    have sne: "?s \<noteq> []" using qs(1) by (metis length_0_conv length_sort)
    have "\<forall>q \<in> set ?s. qo_Price q \<le> qo_Price (List.last ?s)"
    proof
      fix q assume "q \<in> set ?s"
      then obtain i where i: "i < length ?s" "q = ?s ! i" by (metis in_set_conv_nth)
      have "map qo_Price ?s ! i \<le> map qo_Price ?s ! (length ?s - 1)" using i(1) by (intro sorted_nth_mono) auto
      with i sne show "qo_Price q \<le> qo_Price (List.last ?s)" by (simp add: last_conv_nth)
    qed
    moreover have "List.last ?s \<in> set qs" using last_in_set [OF sne] by simp
    ultimately show ?thesis using None r False qs total_weight_pos [OF qs(2,1)] sne
      by (simp add: is_weighted_median_def weightedMedian_def t ts Let_def last_conv_nth)
  qed
qed

lemma weighted_median_unique:
  assumes pos: "\<forall>q \<in> set qs. 0 < qo_Weight q" and a: "is_weighted_median half qs m" and b: "is_weighted_median half qs m'"
  shows "m = m'"
proof -
  have no: "\<not> m < m'" if a: "is_weighted_median half qs m" and b: "is_weighted_median half qs m'" for m m'
  proof
    assume l: "m < m'"
    obtain x y where x: "x \<in> set qs" "qo_Price x = m" and y: "y \<in> set qs" "qo_Price y = m'"
      using a b by (auto simp: is_weighted_median_def)
    have len: "length qs \<noteq> 1"
    proof
      assume "length qs = 1"
      then obtain z where "qs = [z]" by (cases qs) auto
      with x y l show False by simp
    qed
    have le: "weight_upto qs m \<le> total_weight qs" "weight_upto qs m' \<le> total_weight qs"
      unfolding weight_upto_def using total_weight_mono [OF pos, of "\<lambda>q. qo_Price q \<le> _" "\<lambda>_. True"] by simp_all
    from len a x y l have "half \<le> weight_upto qs m" by (auto simp: is_weighted_median_def)
    with len b x l le show False by (auto simp: is_weighted_median_def)
  qed
  show ?thesis using no [OF a b] no [OF b a] by (meson linorder_neqE)
qed

lemma is_weighted_median_mset: "mset xs = mset ys \<Longrightarrow> is_weighted_median half xs m = is_weighted_median half ys m"
  using weight_upto_mset [of xs ys] total_weight_mset [of xs ys] mset_eq_setD [of xs ys] mset_eq_length [of xs ys]
  by (simp add: is_weighted_median_def)

section \<open>The order of the quotes\<close>

lemma sort_mset: "mset xs = mset ys \<Longrightarrow> sort xs = sort ys"
  by (metis sorted_list_of_multiset_mset)

lemma accepted_positive: "\<forall>q \<in> set (accepted L cfg qs). 0 < qo_Weight q"
  by (auto simp: accepted_def Let_def)

lemma Aggregate_order:
  assumes m: "mset xs = mset ys"
  shows "Aggregate L xs cfg = Aggregate L ys cfg"
proof -
  have med: "medianDecimal L (map qo_Price (filter (\<lambda>q. 0 < qo_Price q) xs)) = medianDecimal L (map qo_Price (filter (\<lambda>q. 0 < qo_Price q) ys))"
  proof -
    have e: "mset (map qo_Price (filter (\<lambda>q. 0 < qo_Price q) xs)) = mset (map qo_Price (filter (\<lambda>q. 0 < qo_Price q) ys))"
      using m by (simp add: mset_filter)
    show ?thesis using sort_mset [OF e] mset_eq_length [OF e] by (auto simp: medianDecimal_def Let_def)
  qed
  have acc: "mset (accepted L c xs) = mset (accepted L c ys)" for c using m by (simp add: accepted_def med Let_def mset_filter)
  have wm: "weightedMedian L (accepted L c xs) = weightedMedian L (accepted L c ys)" for c
  proof (cases "accepted L c xs = []")
    case True
    then show ?thesis using acc [of c] by simp
  next
    case False
    then have ne: "accepted L c ys \<noteq> []" using acc [of c] by auto
    have "is_weighted_median (dec_div L (total_weight (accepted L c ys)) 2) (accepted L c ys) (weightedMedian L (accepted L c xs))"
      using weightedMedian_spec [OF False accepted_positive, of L] total_weight_mset [OF acc] is_weighted_median_mset [OF acc] by metis
    then show ?thesis by (rule weighted_median_unique [OF accepted_positive _ weightedMedian_spec [OF ne accepted_positive]])
  qed
  have "sort (map qo_Source (accepted L c xs)) = sort (map qo_Source (accepted L c ys))" for c
    using acc [of c] by (intro sort_mset) simp
  moreover have "length (accepted L c xs) = length (accepted L c ys)" for c using acc by (rule mset_eq_length)
  moreover have "xs = [] \<longleftrightarrow> ys = []" using m by auto
  moreover have "filter (\<lambda>q. 0 < qo_Price q) xs = [] \<longleftrightarrow> filter (\<lambda>q. 0 < qo_Price q) ys = []"
    using mset_eq_setD [OF m] by (simp add: filter_empty_conv)
  ultimately show ?thesis by (simp add: Aggregate_def wm Let_def)
qed

section \<open>How far a source can move the index\<close>

lemma majority_bounds:
  assumes pos: "\<forall>q \<in> set qs. 0 < qo_Weight q" and half: "half + half = total_weight qs" and m: "is_weighted_median half qs m"
    and G: "total_weight qs < 2 * total_weight (filter (\<lambda>q. lo \<le> qo_Price q \<and> qo_Price q \<le> hi) qs)"
  shows "lo \<le> m \<and> m \<le> hi"
proof -
  let ?in = "\<lambda>q. lo \<le> qo_Price q \<and> qo_Price q \<le> hi"
  obtain x where x: "x \<in> set qs" "qo_Price x = m" using m by (auto simp: is_weighted_median_def)
  have big: "half < total_weight (filter ?in qs)" using half G by linarith
  have h0: "0 \<le> half" using half total_weight_nonneg [OF pos] by linarith
  then have "filter ?in qs \<noteq> []" using big by auto
  then obtain g where g: "g \<in> set qs" "?in g" by (auto simp: filter_empty_conv)
  consider (one) "length qs = 1" | (mid) "half \<le> weight_upto qs m" "\<forall>q \<in> set qs. qo_Price q < m \<longrightarrow> weight_upto qs (qo_Price q) < half"
    using m half h0 by (auto simp: is_weighted_median_def)
  then show ?thesis
  proof cases
    case one
    then obtain z where "qs = [z]" by (cases qs) auto
    with x g show ?thesis by simp
  next
    case mid
    have "lo \<le> m"
    proof (rule ccontr)
      assume "\<not> lo \<le> m"
      then have "weight_upto qs m \<le> total_weight (filter (\<lambda>q. \<not> ?in q) qs)"
        unfolding weight_upto_def by (intro total_weight_mono [OF pos]) auto
      with total_weight_split [of ?in qs] big half mid(1) show False by linarith
    qed
    moreover have "m \<le> hi"
    proof (rule ccontr)
      assume c: "\<not> m \<le> hi"
      let ?p = "Max (qo_Price ` {q \<in> set qs. ?in q})"
      have "?p \<in> qo_Price ` {q \<in> set qs. ?in q}" using g by (intro Max_in) auto
      then obtain y where y: "y \<in> set qs" "?in y" "qo_Price y = ?p" by auto
      have "total_weight (filter ?in qs) \<le> weight_upto qs (qo_Price y)"
        unfolding weight_upto_def y(3) by (intro total_weight_mono [OF pos]) auto
      moreover have "weight_upto qs (qo_Price y) < half" using mid(2) y(1,2) c by (meson le_less_trans not_le)
      ultimately show False using big by linarith
    qed
    ultimately show ?thesis by blast
  qed
qed

text \<open>
  C32. The index is the price of one of the accepted sources, those with a positive price that deviates from
  the median of all of them by no more than the threshold, and there are at least as many of these as
  required; and if sources with prices in a range hold more than half of the accepted weight, the index
  lies in that range, whatever the other sources report. The quotes may arrive in any order. The
  hypothesis says that halving the accepted weight is exact, as it is for weights of few digits.
\<close>

theorem index_price_robust:
  assumes ok: "Aggregate L quotes cfg = Some r"
    and half: "dec_div L (total_weight (accepted L cfg quotes)) 2 + dec_div L (total_weight (accepted L cfg quotes)) 2 =
      total_weight (accepted L cfg quotes)"
  shows "ir_Price r \<in> qo_Price ` set (accepted L cfg quotes) \<and> max 1 (ic_MinSources cfg) \<le> int (length (accepted L cfg quotes)) \<and>
    (\<forall>lo hi. total_weight (accepted L cfg quotes) < 2 * total_weight (filter (\<lambda>q. lo \<le> qo_Price q \<and> qo_Price q \<le> hi) (accepted L cfg quotes)) \<longrightarrow>
       lo \<le> ir_Price r \<and> ir_Price r \<le> hi) \<and>
    (\<forall>arrived. mset arrived = mset quotes \<longrightarrow> Aggregate L arrived cfg = Some r)"
proof -
  let ?acc = "accepted L cfg quotes"
  have acc: "accepted L (cfg\<lparr>ic_MinSources := n\<rparr>) quotes = ?acc" for n by (simp add: accepted_def)
  have r: "ir_Price r = weightedMedian L ?acc" "max 1 (ic_MinSources cfg) \<le> int (length ?acc)"
    using ok by (auto simp: Aggregate_def acc Let_def Suc_le_eq split: if_splits)
  then have "?acc \<noteq> []" by auto
  from weightedMedian_spec [OF this accepted_positive] have m: "is_weighted_median (dec_div L (total_weight ?acc) 2) ?acc (ir_Price r)"
    using r(1) by metis
  moreover have "ir_Price r \<in> qo_Price ` set ?acc" using m by (simp add: is_weighted_median_def)
  ultimately show ?thesis using r(2) ok majority_bounds [OF accepted_positive half m] Aggregate_order [of _ quotes L cfg] by metis
qed

definition wit_quotes :: "int quote list" where
  "wit_quotes =
     [\<lparr> qo_Source = ''okx'', qo_Price = 102, qo_Weight = 2 \<rparr>, \<lparr> qo_Source = ''bad'', qo_Price = 500, qo_Weight = 9 \<rparr>,
      \<lparr> qo_Source = ''binance'', qo_Price = 100, qo_Weight = 2 \<rparr>, \<lparr> qo_Source = ''off'', qo_Price = 0, qo_Weight = 1 \<rparr>]"

definition wit_index_cfg :: "int index_config" where
  "wit_index_cfg = \<lparr> ic_DeviationThreshold = 1, ic_MinSources = 2 \<rparr>"

lemma wit_index_accepted: "accepted int_libs wit_index_cfg wit_quotes = [wit_quotes ! 0, wit_quotes ! 2]"
  by (simp add: accepted_def wit_index_cfg_def wit_quotes_def medianDecimal_def withinDeviation_def int_libs_def Let_def)

theorem index_price_robust_witness:
  "\<exists>r. Aggregate int_libs wit_quotes wit_index_cfg = Some r \<and> 100 \<le> ir_Price r \<and> ir_Price r \<le> 102 \<and>
     Aggregate int_libs (rev wit_quotes) wit_index_cfg = Some r"
proof -
  have "int (length (accepted int_libs wit_index_cfg wit_quotes)) = 2" by (simp add: wit_index_accepted)
  then obtain r where r: "Aggregate int_libs wit_quotes wit_index_cfg = Some r"
    by (simp add: Aggregate_def wit_index_cfg_def wit_quotes_def Let_def)
  have t: "total_weight (accepted int_libs wit_index_cfg wit_quotes) = 4"
    "total_weight (filter (\<lambda>q. 100 \<le> qo_Price q \<and> qo_Price q \<le> 102) (accepted int_libs wit_index_cfg wit_quotes)) = 4"
    by (simp_all add: wit_index_accepted) (simp_all add: wit_quotes_def)
  have "dec_div int_libs 4 2 + dec_div int_libs 4 2 = (4 :: int)" by (simp add: int_libs_def)
  from index_price_robust [OF r, unfolded t(1), OF this] r t(2) show ?thesis by (metis mset_rev numeral_less_iff semiring_norm(76,78,80) mult_2 numeral_Bit0)
qed

section \<open>What a query gets\<close>

text \<open>
  The calls of \<open>processSymbol\<close> in \<open>n\<close> ticks, the state before the \<open>i\<close>-th of them, and what it aggregates.
\<close>

definition index_calls :: "'d index_env \<Rightarrow> nat \<Rightarrow> string list" where
  "index_calls E n = concat (replicate n (ie_Symbols E))"

definition index_before :: "('d::linordered_idom) index_env \<Rightarrow> string list \<Rightarrow> 'd index_state \<Rightarrow> nat \<Rightarrow> 'd index_state" where
  "index_before E calls st i = fold (processSymbol E) (take i calls) st"

definition index_found :: "('d::linordered_idom) index_env \<Rightarrow> string list \<Rightarrow> 'd index_state \<Rightarrow> nat \<Rightarrow> 'd index_result option" where
  "index_found E calls st i = Aggregate (ie_libs E) (fst (fetchQuotes E (calls ! i) (index_before E calls st i))) (ie_aggCfg E)"

lemma index_Run_calls: "index_Run E n st = fold (processSymbol E) (index_calls E n) st"
proof -
  have "index_Run E n st = fold (processSymbol E) (concat (replicate n (ie_Symbols E))) st" for st
    by (induction n arbitrary: st) (simp_all add: index_Run_def index_tick_def funpow_Suc_right del: funpow.simps(2))
  then show ?thesis by (simp add: index_calls_def)
qed

lemma fetchQuotes_keeps: "ix_store (snd (fetchQuotes E s st)) = ix_store st" "ix_clock (snd (fetchQuotes E s st)) = ix_clock st"
  by (simp_all add: fetchQuotes_def split_beta Let_def)

lemma index_publish_store: "ix_store (index_publish E s price srcs at stale st) = index_Update s price srcs at stale (ix_store st)"
proof -
  have a: "ix_store (snd (InsertAudit s p ts srcs st)) = ix_store st" for s p ts srcs and st :: "'a index_state"
    by (simp add: InsertAudit_def Let_def split: redis_outcome.splits)
  have k: "ix_store (snd (index_kafka_Publish E s p ms srcs st)) = ix_store st" for p ms srcs and st :: "'a index_state"
    by (simp add: index_kafka_Publish_def Let_def split: option.splits)
  show ?thesis by (simp add: index_publish_def Let_def a k)
qed

text \<open>One call: a result replaces the entry of the pair, a failure only sets its flag.\<close>

lemma processSymbol_store:
  "ix_store (processSymbol E s st) =
     (case Aggregate (ie_libs E) (fst (fetchQuotes E s st)) (ie_aggCfg E) of
        Some r \<Rightarrow> index_Update s (ir_Price r) (ir_Sources r) (fst (now (ix_clock st))) False (ix_store st)
      | None \<Rightarrow> (case ix_store st s of
          None \<Rightarrow> ix_store st
        | Some p \<Rightarrow> index_Update s (is_Price p) (is_Sources p) (is_Updated p)
            (ie_StaleAfterMs E * 1000000 < fst (now (ix_clock st)) - is_Updated p) (ix_store st)))"
  using fetchQuotes_keeps [of E s st]
  by (auto simp: processSymbol_def applyStale_def index_publish_store Let_def split: prod.splits option.splits)

text \<open>The entry of a pair after some calls is that of its last successful aggregation.\<close>

lemma index_store_latest:
  assumes "ix_store st Sy = None"
  shows "case ix_store (fold (processSymbol E) calls st) Sy of
      None \<Rightarrow> \<forall>i < length calls. calls ! i = Sy \<longrightarrow> index_found E calls st i = None
    | Some snap \<Rightarrow> is_Symbol snap = Sy \<and> (\<exists>i < length calls. \<exists>r. calls ! i = Sy \<and> index_found E calls st i = Some r \<and>
        (\<forall>j. i < j \<longrightarrow> j < length calls \<longrightarrow> calls ! j = Sy \<longrightarrow> index_found E calls st j = None) \<and>
        is_Price snap = ir_Price r \<and> is_Sources snap = ir_Sources r \<and>
        is_Updated snap = fst (now (ix_clock (index_before E calls st i))))"
proof (induction calls rule: rev_induct)
  case Nil
  then show ?case using assms by simp
next
  case (snoc s calls)
  let ?st = "fold (processSymbol E) calls st"
  have old: "i < length calls \<Longrightarrow> (calls @ [s]) ! i = calls ! i" "i \<le> length calls \<Longrightarrow> index_before E (calls @ [s]) st i = index_before E calls st i"
    "i < length calls \<Longrightarrow> index_found E (calls @ [s]) st i = index_found E calls st i" for i
    by (simp_all add: nth_append index_before_def index_found_def)
  have new: "index_before E (calls @ [s]) st (length calls) = ?st"
    "index_found E (calls @ [s]) st (length calls) = Aggregate (ie_libs E) (fst (fetchQuotes E s ?st)) (ie_aggCfg E)"
    by (simp_all add: index_before_def index_found_def)
  note step = processSymbol_store [of E s ?st]
  show ?case
  proof (cases "s = Sy \<and> Aggregate (ie_libs E) (fst (fetchQuotes E s ?st)) (ie_aggCfg E) \<noteq> None")
    case True
    then obtain r where "Aggregate (ie_libs E) (fst (fetchQuotes E s ?st)) (ie_aggCfg E) = Some r" by blast
    with step True new show ?thesis by (auto simp: index_Update_def intro!: exI [of _ "length calls"])
  next
    case False
    then have none: "s = Sy \<Longrightarrow> index_found E (calls @ [s]) st (length calls) = None" using new(2) by simp
    show ?thesis
    proof (cases "ix_store ?st Sy")
      case None
      then have "ix_store (fold (processSymbol E) (calls @ [s]) st) Sy = None"
        using step False by (auto simp: index_Update_def split: option.splits)
      with snoc None old none show ?thesis by (simp add: less_Suc_eq)
    next
      case (Some p)
      have "\<exists>p'. ix_store (fold (processSymbol E) (calls @ [s]) st) Sy = Some p' \<and> is_Price p' = is_Price p \<and>
        is_Sources p' = is_Sources p \<and> is_Updated p' = is_Updated p \<and> (is_Symbol p' = is_Symbol p \<or> is_Symbol p' = Sy)"
      proof (cases "s = Sy")
        case True
        with False Some step show ?thesis by (simp add: index_Update_def)
      next
        case s: False
        then have "ix_store (processSymbol E s ?st) Sy = ix_store ?st Sy" using step by (simp add: index_Update_def split: option.splits)
        with Some show ?thesis by simp
      qed
      then obtain p' where p': "ix_store (fold (processSymbol E) (calls @ [s]) st) Sy = Some p'" "is_Price p' = is_Price p"
        "is_Sources p' = is_Sources p" "is_Updated p' = is_Updated p" "is_Symbol p' = is_Symbol p \<or> is_Symbol p' = Sy" by blast
      from snoc Some obtain i r where i: "is_Symbol p = Sy" "i < length calls" "calls ! i = Sy" "index_found E calls st i = Some r"
        "\<forall>j. i < j \<longrightarrow> j < length calls \<longrightarrow> calls ! j = Sy \<longrightarrow> index_found E calls st j = None"
        "is_Price p = ir_Price r" "is_Sources p = ir_Sources r" "is_Updated p = fst (now (ix_clock (index_before E calls st i)))" by auto
      have "\<forall>j. i < j \<longrightarrow> j < length (calls @ [s]) \<longrightarrow> (calls @ [s]) ! j = Sy \<longrightarrow> index_found E (calls @ [s]) st j = None"
        using i(5) old none by (auto simp: less_Suc_eq)
      with p' i(1-4,6-) old show ?thesis unfolding p'(1) option.case by (intro conjI exI [of _ i] exI [of _ r]) auto
    qed
  qed
qed

text \<open>
  C33. After any number of ticks, whatever fetches, writes and insertions failed, a query for a pair is
  answered with the result of the newest successful aggregation of its quotes, with the time of that
  aggregation, and with not found exactly if there was none; a price that is not marked stale is at most
  60 seconds old.
\<close>

theorem index_price_served:
  fixes E :: "('d::linordered_idom) index_env"
  assumes "ix_store st s = None" "s \<noteq> []"
  shows "case fst (GetIndexPrice (ie_libs E) s (ix_store (index_Run E n st)) clk) of
      Inl e \<Rightarrow> e = ErrNotFound \<and> (\<forall>i < length (index_calls E n). index_calls E n ! i = s \<longrightarrow> index_found E (index_calls E n) st i = None)
    | Inr px \<Rightarrow> px_Symbol px = s \<and>
        (\<exists>i < length (index_calls E n). \<exists>r at. index_calls E n ! i = s \<and> index_found E (index_calls E n) st i = Some r \<and>
          (\<forall>j. i < j \<longrightarrow> j < length (index_calls E n) \<longrightarrow> index_calls E n ! j = s \<longrightarrow> index_found E (index_calls E n) st j = None) \<and>
          at = fst (now (ix_clock (index_before E (index_calls E n) st i))) \<and>
          px_Price px = dec_to_string (ie_libs E) (ir_Price r) \<and> px_Sources px = ir_Sources r \<and> px_UpdatedAt px = ts_new (ie_libs E) at \<and>
          (\<not> px_Stale px \<longrightarrow> fst (now clk) - at \<le> 60 * 1000000000))"
proof -
  note l = index_store_latest [OF assms(1), where E = E and calls = "index_calls E n", folded index_Run_calls]
  show ?thesis
  proof (cases "ix_store (index_Run E n st) s")
    case None
    with l assms(2) show ?thesis by (simp add: GetIndexPrice_def)
  next
    case (Some snap)
    with l obtain i r where i: "is_Symbol snap = s" "i < length (index_calls E n)" "index_calls E n ! i = s"
      "index_found E (index_calls E n) st i = Some r"
      "\<forall>j. i < j \<longrightarrow> j < length (index_calls E n) \<longrightarrow> index_calls E n ! j = s \<longrightarrow> index_found E (index_calls E n) st j = None"
      "is_Price snap = ir_Price r" "is_Sources snap = ir_Sources r"
      "is_Updated snap = fst (now (ix_clock (index_before E (index_calls E n) st i)))" by auto
    obtain px where px: "fst (GetIndexPrice (ie_libs E) s (ix_store (index_Run E n st)) clk) = Inr px" "px_Symbol px = is_Symbol snap"
      "px_Price px = dec_to_string (ie_libs E) (is_Price snap)" "px_Sources px = is_Sources snap"
      "px_UpdatedAt px = ts_new (ie_libs E) (is_Updated snap)" "\<not> px_Stale px \<longrightarrow> fst (now clk) - is_Updated snap \<le> 60 * 1000000000"
      using Some assms(2) that by (cases "is_Stale snap"; cases "now clk") (auto simp: GetIndexPrice_def isStale_def Let_def)
    show ?thesis unfolding px(1) sum.case using px(2-) i by (intro conjI exI [of _ i] exI [of _ r] exI) simp_all
  qed
qed

definition wit_index_env :: "int index_env" where
  "wit_index_env =
     \<lparr> ie_libs = int_libs,
       ie_codec = \<lparr> UnmarshalBinanceTicker = (\<lambda>b. Some ''90''), UnmarshalOKXTicker = (\<lambda>_. None), UnmarshalBybitTicker = (\<lambda>_. None),
         MarshalIndexPriceEvent = (\<lambda>_. None) \<rparr>,
       ie_Symbols = [''AB''], ie_StaleAfterMs = 1000, ie_aggCfg = \<lparr> ic_DeviationThreshold = 0, ic_MinSources = 1 \<rparr>,
       ie_collectors = [NewBinance \<lparr> ex_Weight = 2, ex_BaseURL = [] \<rparr>, NewOKX \<lparr> ex_Weight = 2, ex_BaseURL = [] \<rparr>],
       ie_ProducerEnabled = True \<rparr>"

text \<open>The exchanges answer at the first tick and not at the second.\<close>

definition wit_index_state :: "int index_state" where
  "wit_index_state =
     \<lparr> ix_store = Map.empty,
       ix_redis = \<lparr> rc_keys = Map.empty, rc_lists = (\<lambda>_. []), rc_published = [], rc_calls = (\<lambda>_. NotDone), rc_pos = 0 \<rparr>,
       ix_topic = [], ix_writes = (\<lambda>_. Written), ix_writePos = 0, ix_audit = [], ix_stmts = (\<lambda>_. AnswerLost), ix_stmtPos = 0,
       ix_web = (\<lambda>n req. if n = 0 then Inr (200, [1]) else Inl (ErrMsg ''timeout'')), ix_webPos = 0, ix_tick = 0,
       ix_clock = ((\<lambda>n. 1000 * int n), 0) \<rparr>"

theorem index_price_served_witness:
  "\<exists>px. fst (GetIndexPrice int_libs ''AB'' (ix_store (index_Run wit_index_env 2 wit_index_state)) ((\<lambda>n. 2000), 0)) = Inr px \<and>
     px_Symbol px = ''AB'' \<and> (\<not> px_Stale px \<longrightarrow> (\<exists>at. px_UpdatedAt px = ts_new int_libs at \<and> 2000 - at \<le> 60 * 1000000000))"
proof -
  have e: "ie_libs wit_index_env = int_libs" "ix_store wit_index_state ''AB'' = None" by (simp_all add: wit_index_env_def wit_index_state_def)
  note t = index_price_served [OF e(2), of wit_index_env 2 "((\<lambda>n. 2000), 0)", unfolded e(1)]
  have calls: "index_calls wit_index_env 2 = [''AB'', ''AB'']" by (simp add: index_calls_def wit_index_env_def numeral_2_eq_2)
  have n: "int_of_string ''90'' = Some 90" by code_simp
  have "fst (fetchQuotes wit_index_env ''AB'' wit_index_state) = [\<lparr> qo_Source = ''binance'', qo_Price = 90, qo_Weight = 2 \<rparr>]"
    by (simp add: fetchQuotes_def wit_index_env_def wit_index_state_def NewBinance_def NewOKX_def new_exchange_def httpGetJSON_def
        ParseBinanceTickerPrice_def ParseOKXTicker_def parseDecimalString_def int_libs_def n)
  moreover have "Aggregate int_libs [\<lparr> qo_Source = ''binance'', qo_Price = 90, qo_Weight = 2 \<rparr>] (ie_aggCfg wit_index_env) \<noteq> None"
    by (simp add: wit_index_env_def Aggregate_def accepted_def medianDecimal_def withinDeviation_def int_libs_def Let_def)
  ultimately have "index_found wit_index_env (index_calls wit_index_env 2) wit_index_state 0 \<noteq> None"
    by (simp add: index_found_def index_before_def calls e(1))
  then obtain px where px: "fst (GetIndexPrice int_libs ''AB'' (ix_store (index_Run wit_index_env 2 wit_index_state)) ((\<lambda>n. 2000), 0)) = Inr px"
    using t by (cases "fst (GetIndexPrice int_libs ''AB'' (ix_store (index_Run wit_index_env 2 wit_index_state)) ((\<lambda>n. 2000), 0))")
      (auto simp: calls)
  show ?thesis using t [unfolded px sum.case] px by (auto simp: now_def)
qed

end
