(* ===== verification/AuthTokens.thy ===== *)
theory AuthTokens
  imports Prelude
begin

text \<open>
  Model of \<open>pkg/auth\<close> and \<open>internal/authserver\<close>: service tokens, the scopes they carry, how they are
  issued and how the gateway and the push service verify them. Signing and parsing of JWTs and the
  fetching of key sets are parameters; TLS set-up is left out.
\<close>

section \<open>Scopes and claims\<close>

definition ScopeOrdersRead :: string where "ScopeOrdersRead = ''orders:read''"
definition ScopeOrdersWrite :: string where "ScopeOrdersWrite = ''orders:write''"
definition ScopeBalancesRead :: string where "ScopeBalancesRead = ''balances:read''"
definition ScopeBalancesAdmin :: string where "ScopeBalancesAdmin = ''balances:admin''"
definition ScopeMarketRead :: string where "ScopeMarketRead = ''market:read''"
definition ScopePushConnect :: string where "ScopePushConnect = ''push:connect''"
definition ScopePushTickerAll :: string where "ScopePushTickerAll = ''push:ticker_all''"

lemmas scope_defs = ScopeOrdersRead_def ScopeOrdersWrite_def ScopeBalancesRead_def ScopeBalancesAdmin_def ScopeMarketRead_def
  ScopePushConnect_def ScopePushTickerAll_def

definition AllScopes :: "string list" where
  "AllScopes =
     [ScopeOrdersRead, ScopeOrdersWrite, ScopeBalancesRead, ScopeBalancesAdmin, ScopeMarketRead, ScopePushConnect, ScopePushTickerAll]"

record claims =
  cm_Subject :: string
  cm_Scopes :: "string list"
  cm_Method :: string

definition HasScopes :: "claims \<Rightarrow> string list \<Rightarrow> bool" where
  "HasScopes c required \<longleftrightarrow> list_all (\<lambda>need. need \<in> set (cm_Scopes c)) required"

fun unique_from :: "string set \<Rightarrow> string list \<Rightarrow> string list" where
  "unique_from seen [] = []"
| "unique_from seen (s # ss) =
     (let t = trim_space s
      in if t = [] \<or> t \<in> seen then unique_from seen ss else t # unique_from (insert t seen) ss)"

definition uniqueScopes :: "string list \<Rightarrow> string list" where
  "uniqueScopes ss = unique_from {} ss"

text \<open>\<open>strings.Fields\<close> and \<open>strings.Join\<close> with a blank.\<close>

fun fields_from :: "string \<Rightarrow> string \<Rightarrow> string list" where
  "fields_from w [] = (if w = [] then [] else [w])"
| "fields_from w (c # s) =
     (if is_space c then (if w = [] then fields_from [] s else w # fields_from [] s) else fields_from (w @ [c]) s)"

definition str_fields :: "string \<Rightarrow> string list" where
  "str_fields s = fields_from [] s"

fun join_blank :: "string list \<Rightarrow> string" where
  "join_blank [] = []"
| "join_blank [w] = w"
| "join_blank (w # ws) = w @ '' '' @ join_blank ws"

text \<open>The values a scope claim can have; an item of a list that is no string is \<open>None\<close>.\<close>

datatype scope_claim = ScopeText string | ScopeItems "string option list" | ScopeStrings "string list" | ScopeOther

definition ParseScopeClaim :: "scope_claim \<Rightarrow> string list" where
  "ParseScopeClaim raw =
     (case raw of
        ScopeText v \<Rightarrow> uniqueScopes (str_fields v)
      | ScopeItems v \<Rightarrow> uniqueScopes (map trim_space (List.map_filter id v))
      | ScopeStrings v \<Rightarrow> uniqueScopes v
      | ScopeOther \<Rightarrow> [])"

definition BearerFromHeader :: "string \<Rightarrow> string option" where
  "BearerFromHeader header =
     (if \<not> has_prefix header ''Bearer '' then None
      else (let token = trim_space (drop 7 header) in if token = [] then None else Some token))"

section \<open>Configuration\<close>

record issuer_config =
  ic_Issuer :: string
  ic_JWKSURL :: string
  ic_HS256SecretFile :: string

record auth_config =
  ac_Mode :: string
  ac_StaticToken :: string
  ac_StaticScopes :: "string list"
  ac_MarketMakerStaticToken :: string
  ac_MarketMakerStaticScopes :: "string list"
  ac_Audience :: "string list"
  ac_Issuers :: "issuer_config list"

definition issuer_normalize :: "issuer_config \<Rightarrow> err + issuer_config" where
  "issuer_normalize i0 =
     (let i = \<lparr> ic_Issuer = trim_space (ic_Issuer i0), ic_JWKSURL = trim_space (ic_JWKSURL i0),
                ic_HS256SecretFile = trim_space (ic_HS256SecretFile i0) \<rparr>
      in if ic_Issuer i = [] then Inl (ErrMsg ''issuer is required'')
         else if ic_JWKSURL i = [] \<and> ic_HS256SecretFile i = [] then Inl (ErrMsg ''jwks_url or hs256_secret_file is required'')
         else if ic_JWKSURL i \<noteq> [] \<and> ic_HS256SecretFile i \<noteq> [] then Inl (ErrMsg ''only one of jwks_url or hs256_secret_file'')
         else Inr i)"

fun normalize_issuers :: "issuer_config list \<Rightarrow> err + issuer_config list" where
  "normalize_issuers [] = Inr []"
| "normalize_issuers (i # is) =
     (case issuer_normalize i of
        Inl e \<Rightarrow> Inl (ErrMsg ''auth: issuer'')
      | Inr i1 \<Rightarrow> (case normalize_issuers is of Inl e \<Rightarrow> Inl e | Inr is1 \<Rightarrow> Inr (i1 # is1)))"

definition to_lower_char :: "char \<Rightarrow> char" where
  "to_lower_char c = (let n = of_char c :: nat in if 65 \<le> n \<and> n \<le> 90 then char_of (n + 32) else c)"

definition to_lower :: "string \<Rightarrow> string" where
  "to_lower s = map to_lower_char s"

definition auth_Normalize :: "auth_config \<Rightarrow> err + auth_config" where
  "auth_Normalize c0 =
     (let m = to_lower (trim_space (ac_Mode c0)); mode = (if m = [] then ''static'' else m); c1 = c0\<lparr>ac_Mode := mode\<rparr>
      in if mode \<notin> {''static'', ''jwt'', ''static_or_jwt''} then Inl (ErrMsg ''auth: unsupported mode'')
         else (let c2 = (if mode \<in> {''static'', ''static_or_jwt''} \<and> trim_space (ac_StaticToken c1) = []
                         then c1\<lparr>ac_StaticToken := ''dev-token-change-me''\<rparr> else c1)
               in if mode = ''static'' then Inr c2
                  else (let c3 = (if ac_Audience c2 = [] then c2\<lparr>ac_Audience := [''trading-gateway'', ''trading-push'']\<rparr> else c2)
                        in if ac_Issuers c3 = [] then Inl (ErrMsg ''auth: jwt mode requires at least one issuer'')
                           else (case normalize_issuers (ac_Issuers c3) of
                                   Inl e \<Rightarrow> Inl e
                                 | Inr is \<Rightarrow> Inr (c3\<lparr>ac_Issuers := is\<rparr>)))))"

definition ReadSecretFile :: "(string \<Rightarrow> string option) \<Rightarrow> string \<Rightarrow> err + string" where
  "ReadSecretFile files path =
     (case files path of
        None \<Rightarrow> Inl ErrIO
      | Some b \<Rightarrow> (let s = trim_space b in if s = [] then Inl (ErrMsg ''secret file is empty'') else Inr s))"

section \<open>JSON web tokens\<close>

record service_claims =
  sc_Scope :: string
  sc_Issuer :: string
  sc_Subject :: string
  sc_Audience :: "string list"
  sc_IssuedAt :: "time option"
  sc_ExpiresAt :: "time option"

text \<open>The key that a validator hands to the parser: a shared secret, or the key set of an address.\<close>

datatype jwt_key = HS256Key string | JWKSKeys string

text \<open>
  The library \<open>golang-jwt\<close>: signing with a shared secret, parsing without verification, and parsing with
  a key, the issuer and the audiences expected, at a time.
\<close>

record jwt_lib =
  jw_sign :: "string \<Rightarrow> service_claims \<Rightarrow> string option"
  jw_unverified :: "string \<Rightarrow> service_claims option"
  jw_parse :: "jwt_key \<Rightarrow> string \<Rightarrow> string list \<Rightarrow> time \<Rightarrow> string \<Rightarrow> service_claims option"

text \<open>
  What is relied on: a token decodes to the claims it was signed for; it is accepted with the secret it
  was signed with if issuer and audience are those expected and it has not expired; and a token that is
  accepted has the claims it decodes to, which are of that issuer and audience and have not expired.
\<close>

definition jwt_live :: "string \<Rightarrow> string list \<Rightarrow> time \<Rightarrow> service_claims \<Rightarrow> bool" where
  "jwt_live iss aud at c \<longleftrightarrow>
     sc_Issuer c = iss \<and> set aud \<inter> set (sc_Audience c) \<noteq> {} \<and> (case sc_ExpiresAt c of None \<Rightarrow> True | Some t \<Rightarrow> at < t)"

definition jwt_ok :: "jwt_lib \<Rightarrow> bool" where
  "jwt_ok J \<longleftrightarrow>
     (\<forall>k c t. jw_sign J k c = Some t \<longrightarrow> t \<noteq> [] \<and> trim_space t = t \<and> jw_unverified J t = Some c) \<and>
     (\<forall>k c t iss aud at. jw_sign J k c = Some t \<longrightarrow> jwt_live iss aud at c \<longrightarrow> jw_parse J (HS256Key k) iss aud at t = Some c) \<and>
     (\<forall>key iss aud at t c. jw_parse J key iss aud at t = Some c \<longrightarrow> jw_unverified J t = Some c \<and> jwt_live iss aud at c)"

record issuer_validator =
  va_issuer :: string
  va_audience :: "string list"
  va_key :: jwt_key

type_synonym issuer_registry = "string \<Rightarrow> issuer_validator option"

text \<open>\<open>jwks\<close> tells whether the key set of an address can be set up.\<close>

definition newIssuerValidator :: "(string \<Rightarrow> string option) \<Rightarrow> (string \<Rightarrow> bool) \<Rightarrow> issuer_config \<Rightarrow> string list \<Rightarrow> err + issuer_validator" where
  "newIssuerValidator files jwks iss audience =
     (if ic_HS256SecretFile iss \<noteq> [] then
        (case ReadSecretFile files (ic_HS256SecretFile iss) of
           Inl e \<Rightarrow> Inl e
         | Inr secret \<Rightarrow> Inr \<lparr> va_issuer = ic_Issuer iss, va_audience = audience, va_key = HS256Key secret \<rparr>)
      else if \<not> jwks (ic_JWKSURL iss) then Inl (ErrMsg ''jwks'')
      else Inr \<lparr> va_issuer = ic_Issuer iss, va_audience = audience, va_key = JWKSKeys (ic_JWKSURL iss) \<rparr>)"

fun registry_from :: "(string \<Rightarrow> string option) \<Rightarrow> (string \<Rightarrow> bool) \<Rightarrow> string list \<Rightarrow> issuer_config list \<Rightarrow> issuer_registry \<Rightarrow> err + issuer_registry" where
  "registry_from files jwks audience [] r = Inr r"
| "registry_from files jwks audience (iss # rest) r =
     (case newIssuerValidator files jwks iss audience of
        Inl e \<Rightarrow> Inl e
      | Inr v \<Rightarrow> registry_from files jwks audience rest (r(ic_Issuer iss \<mapsto> v)))"

definition newIssuerRegistry :: "(string \<Rightarrow> string option) \<Rightarrow> (string \<Rightarrow> bool) \<Rightarrow> auth_config \<Rightarrow> err + issuer_registry" where
  "newIssuerRegistry files jwks cfg = registry_from files jwks (ac_Audience cfg) (ac_Issuers cfg) Map.empty"

text \<open>
  A validator. The claims are parsed into a \<open>ServiceClaims\<close>, so the code's second look at them as a map
  never applies.
\<close>

definition validator_validate :: "jwt_lib \<Rightarrow> time \<Rightarrow> issuer_validator \<Rightarrow> string \<Rightarrow> err + claims" where
  "validator_validate J at v token =
     (case jw_parse J (va_key v) (va_issuer v) (va_audience v) at token of
        None \<Rightarrow> Inl (ErrMsg ''token'')
      | Some c \<Rightarrow>
          (let scopes = ParseScopeClaim (ScopeText (sc_Scope c))
           in if sc_Subject c = [] then Inl (ErrMsg ''missing sub'')
              else if scopes = [] then Inl (ErrMsg ''missing scope'')
              else Inr \<lparr> cm_Subject = sc_Subject c, cm_Scopes = scopes, cm_Method = ''jwt'' \<rparr>))"

definition registry_validate :: "jwt_lib \<Rightarrow> time \<Rightarrow> issuer_registry \<Rightarrow> string \<Rightarrow> err + claims" where
  "registry_validate J at r token =
     (case jw_unverified J token of
        None \<Rightarrow> Inl (ErrMsg ''token'')
      | Some c \<Rightarrow>
          if sc_Issuer c = [] then Inl (ErrMsg ''missing iss'')
          else (case r (sc_Issuer c) of
                  None \<Rightarrow> Inl (ErrMsg ''unknown issuer'')
                | Some v \<Rightarrow> validator_validate J at v token))"

section \<open>The verifier\<close>

record verifier =
  vf_mode :: string
  vf_staticToken :: string
  vf_staticScopes :: "string list"
  vf_marketMakerStaticToken :: string
  vf_marketMakerStaticScopes :: "string list"
  vf_issuers :: issuer_registry

definition marketMakerStaticScopes :: "auth_config \<Rightarrow> string list" where
  "marketMakerStaticScopes cfg =
     (if ac_MarketMakerStaticScopes cfg \<noteq> [] then ac_MarketMakerStaticScopes cfg
      else if ac_MarketMakerStaticToken cfg = [] then []
      else [ScopeMarketRead, ScopePushConnect, ScopePushTickerAll])"

definition NewVerifier :: "(string \<Rightarrow> string option) \<Rightarrow> (string \<Rightarrow> bool) \<Rightarrow> auth_config \<Rightarrow> err + verifier" where
  "NewVerifier files jwks cfg0 =
     (case auth_Normalize cfg0 of
        Inl e \<Rightarrow> Inl e
      | Inr cfg \<Rightarrow>
          (let v = \<lparr> vf_mode = ac_Mode cfg, vf_staticToken = ac_StaticToken cfg, vf_staticScopes = ac_StaticScopes cfg,
                     vf_marketMakerStaticToken = ac_MarketMakerStaticToken cfg,
                     vf_marketMakerStaticScopes = marketMakerStaticScopes cfg, vf_issuers = Map.empty \<rparr>
           in if ac_Mode cfg \<in> {''jwt'', ''static_or_jwt''} then
                (case newIssuerRegistry files jwks cfg of Inl e \<Rightarrow> Inl e | Inr r \<Rightarrow> Inr (v\<lparr>vf_issuers := r\<rparr>))
              else Inr v))"

definition verifyStaticToken :: "verifier \<Rightarrow> string \<Rightarrow> claims option" where
  "verifyStaticToken v token =
     (if token = vf_staticToken v \<and> vf_staticToken v \<noteq> [] then
        Some \<lparr> cm_Subject = ''static-retail'', cm_Scopes = (if vf_staticScopes v \<noteq> [] then vf_staticScopes v else AllScopes),
               cm_Method = ''static'' \<rparr>
      else if token = vf_marketMakerStaticToken v \<and> vf_marketMakerStaticToken v \<noteq> [] then
        Some \<lparr> cm_Subject = ''static-market-maker'', cm_Scopes = vf_marketMakerStaticScopes v, cm_Method = ''static'' \<rparr>
      else None)"

definition VerifyBearer :: "jwt_lib \<Rightarrow> time \<Rightarrow> verifier \<Rightarrow> string \<Rightarrow> err + claims" where
  "VerifyBearer J at v bearer =
     (let token = trim_space bearer; jwt = registry_validate J at (vf_issuers v) token
      in if token = [] then Inl (ErrMsg ''empty token'')
         else if vf_mode v \<in> {''static'', ''static_or_jwt''} then
           (case verifyStaticToken v token of
              Some c \<Rightarrow> Inr c
            | None \<Rightarrow> if vf_mode v = ''static'' then Inl (ErrMsg ''invalid static token'') else jwt)
         else jwt)"

section \<open>Issuing tokens\<close>

text \<open>A \<open>NumericDate\<close> is cut to whole seconds.\<close>

definition numeric_date :: "time \<Rightarrow> time" where
  "numeric_date t = t - t mod 1000000000"

definition SignHS256 ::
  "jwt_lib \<Rightarrow> string \<Rightarrow> string \<Rightarrow> string \<Rightarrow> string list \<Rightarrow> string list \<Rightarrow> int \<Rightarrow> clock \<Rightarrow> (err + string) \<times> clock" where
  "SignHS256 J secret issuer subject audience scopes ttl clk =
     (if secret = [] then (Inl (ErrMsg ''empty secret''), clk)
      else (let (t, clk1) = now clk
            in ((case jw_sign J secret
                   \<lparr> sc_Scope = join_blank scopes, sc_Issuer = issuer, sc_Subject = subject, sc_Audience = audience,
                     sc_IssuedAt = Some (numeric_date t), sc_ExpiresAt = Some (numeric_date (t + ttl)) \<rparr> of
                   None \<Rightarrow> Inl (ErrMsg ''sign'')
                 | Some token \<Rightarrow> Inr token), clk1)))"

record client_config =
  cf_ClientID :: string
  cf_ClientSecret :: string
  cf_Scopes :: "string list"

record authserver_config =
  as_Issuer :: string
  as_Audience :: "string list"
  as_HS256SecretFile :: string
  as_TokenTTLSeconds :: int
  as_Clients :: "client_config list"

fun check_clients :: "client_config list \<Rightarrow> err option" where
  "check_clients [] = None"
| "check_clients (c # cs) =
     (if trim_space (cf_ClientID c) = [] \<or> trim_space (cf_ClientSecret c) = [] then Some (ErrMsg ''auth config: client id/secret required'')
      else if cf_Scopes c = [] then Some (ErrMsg ''auth config: client scopes required'')
      else check_clients cs)"

text \<open>\<open>Load\<close> after reading and decoding the file; the address and the log settings are left out.\<close>

definition authserver_Load :: "authserver_config \<Rightarrow> err + authserver_config" where
  "authserver_Load c0 =
     (let c = c0\<lparr>as_Issuer := (if as_Issuer c0 = [] then ''trading-matchengine-dev'' else as_Issuer c0),
                 as_Audience := (if as_Audience c0 = [] then [''trading-gateway'', ''trading-push''] else as_Audience c0),
                 as_TokenTTLSeconds := (if as_TokenTTLSeconds c0 \<le> 0 then 900 else as_TokenTTLSeconds c0)\<rparr>
      in if trim_space (as_HS256SecretFile c) = [] then Inl (ErrMsg ''auth config: hs256_secret_file is required'')
         else if as_Clients c = [] then Inl (ErrMsg ''auth config: at least one client'')
         else (case check_clients (as_Clients c) of Some e \<Rightarrow> Inl e | None \<Rightarrow> Inr c))"

record authserver =
  sv_Secret :: string
  sv_Config :: authserver_config
  sv_Clients :: "string \<Rightarrow> client_config option"

definition authserver_New :: "(string \<Rightarrow> string option) \<Rightarrow> authserver_config \<Rightarrow> err + authserver" where
  "authserver_New files cfg =
     (case ReadSecretFile files (as_HS256SecretFile cfg) of
        Inl e \<Rightarrow> Inl e
      | Inr secret \<Rightarrow>
          Inr \<lparr> sv_Secret = secret, sv_Config = cfg,
                sv_Clients = fold (\<lambda>c m. m(cf_ClientID c \<mapsto> c)) (as_Clients cfg) Map.empty \<rparr>)"

record token_response =
  to_AccessToken :: string
  to_TokenType :: string
  to_ExpiresIn :: int

text \<open>The answer is a status with an error text, or a token; \<open>None\<close> is a body that does not decode.\<close>

definition handleToken :: "jwt_lib \<Rightarrow> authserver \<Rightarrow> (string \<times> string) option \<Rightarrow> clock \<Rightarrow> (nat \<times> string + token_response) \<times> clock" where
  "handleToken J s req clk =
     (case req of
        None \<Rightarrow> (Inl (400, ''invalid json''), clk)
      | Some (client_id, client_secret) \<Rightarrow>
          (case sv_Clients s (trim_space client_id) of
             None \<Rightarrow> (Inl (401, ''invalid client credentials''), clk)
           | Some c \<Rightarrow>
               if cf_ClientSecret c \<noteq> client_secret then (Inl (401, ''invalid client credentials''), clk)
               else (case SignHS256 J (sv_Secret s) (as_Issuer (sv_Config s)) (cf_ClientID c) (as_Audience (sv_Config s)) (cf_Scopes c)
                            (as_TokenTTLSeconds (sv_Config s) * 1000000000) clk of
                       (Inl e, clk1) \<Rightarrow> (Inl (500, ''sign token failed''), clk1)
                     | (Inr token, clk1) \<Rightarrow>
                         (Inr \<lparr> to_AccessToken = token, to_TokenType = ''Bearer'', to_ExpiresIn = as_TokenTTLSeconds (sv_Config s) \<rparr>, clk1))))"

section \<open>Issued tokens are accepted\<close>

definition plain_word :: "string \<Rightarrow> bool" where
  "plain_word w \<longleftrightarrow> w \<noteq> [] \<and> (\<forall>c \<in> set w. \<not> is_space c)"

lemma plain_word_trim: "plain_word w \<Longrightarrow> trim_space w = w"
proof -
  have d: "\<forall>c \<in> set xs. \<not> is_space c \<Longrightarrow> dropWhile is_space xs = xs" for xs by (cases xs) auto
  show "plain_word w \<Longrightarrow> trim_space w = w" by (simp add: plain_word_def trim_space_def d)
qed

lemma fields_from_word: "\<forall>c \<in> set w. \<not> is_space c \<Longrightarrow> fields_from v (w @ s) = fields_from (v @ w) s"
  by (induction w arbitrary: v) auto

lemma str_fields_join: "list_all plain_word ws \<Longrightarrow> str_fields (join_blank ws) = ws"
proof (induction ws rule: join_blank.induct)
  case (2 w)
  then show ?case using fields_from_word [of w "[]" "[]"] by (simp add: plain_word_def str_fields_def)
next
  case (3 w w' ws)
  have "is_space (CHR '' '')" by (simp add: is_space_def)
  with 3 fields_from_word [of w "[]" "'' '' @ join_blank (w' # ws)"] show ?case by (simp add: plain_word_def str_fields_def)
qed (simp add: str_fields_def)

lemma unique_from_id: "list_all plain_word ws \<Longrightarrow> distinct ws \<Longrightarrow> set ws \<inter> seen = {} \<Longrightarrow> unique_from seen ws = ws"
proof (induction ws arbitrary: seen)
  case (Cons w ws)
  then have "unique_from (insert w seen) ws = ws" by auto
  with Cons.prems show ?case by (simp add: plain_word_trim Let_def) (auto simp: plain_word_def)
qed simp

lemma ParseScopeClaim_join: "list_all plain_word ws \<Longrightarrow> distinct ws \<Longrightarrow> ParseScopeClaim (ScopeText (join_blank ws)) = ws"
  by (simp add: ParseScopeClaim_def uniqueScopes_def str_fields_join unique_from_id)

lemma NewVerifier_one_issuer:
  assumes "ac_Mode cfg = ''jwt''" "ac_Audience cfg \<noteq> []" "ac_Issuers cfg = [\<lparr> ic_Issuer = iss, ic_JWKSURL = [], ic_HS256SecretFile = path \<rparr>]"
    and "plain_word iss" "plain_word path" "ReadSecretFile files path = Inr secret"
  shows "\<exists>v. NewVerifier files jwks cfg = Inr v \<and> vf_mode v = ''jwt'' \<and>
    vf_issuers v = [iss \<mapsto> \<lparr> va_issuer = iss, va_audience = ac_Audience cfg, va_key = HS256Key secret \<rparr>]"
proof -
  have "trim_space ''jwt'' = ''jwt''" "to_lower ''jwt'' = ''jwt''" "trim_space [] = []" by code_simp+
  then show ?thesis using assms plain_word_trim [OF assms(4)] plain_word_trim [OF assms(5)]
    by (simp add: NewVerifier_def auth_Normalize_def issuer_normalize_def newIssuerRegistry_def newIssuerValidator_def plain_word_def Let_def)
qed

lemma jwt_parsed_signed:
  "jwt_ok J \<Longrightarrow> jw_sign J k c = Some t \<Longrightarrow> jw_parse J key iss aud at t = Some c' \<Longrightarrow> c' = c \<and> jwt_live iss aud at c"
  unfolding jwt_ok_def by (metis option.inject)


definition wit_service_claims :: service_claims where
  "wit_service_claims =
     \<lparr> sc_Scope = ''orders:read push:connect'', sc_Issuer = ''dev'', sc_Subject = ''bot'', sc_Audience = [''trading-gateway''],
       sc_IssuedAt = Some 5000000000, sc_ExpiresAt = Some 905000000000 \<rparr>"

definition wit_jwt :: jwt_lib where
  "wit_jwt =
     \<lparr> jw_sign = (\<lambda>k c. if c = wit_service_claims then Some ''tok'' else None),
       jw_unverified = (\<lambda>t. if t = ''tok'' then Some wit_service_claims else None),
       jw_parse = (\<lambda>key iss aud at t. if t = ''tok'' \<and> jwt_live iss aud at wit_service_claims then Some wit_service_claims else None) \<rparr>"

definition wit_client :: client_config where
  "wit_client = \<lparr> cf_ClientID = ''bot'', cf_ClientSecret = ''pw'', cf_Scopes = [ScopeOrdersRead, ScopePushConnect] \<rparr>"

definition wit_authserver :: authserver_config where
  "wit_authserver =
     \<lparr> as_Issuer = ''dev'', as_Audience = [''trading-gateway''], as_HS256SecretFile = ''key'', as_TokenTTLSeconds = 900, as_Clients = [wit_client] \<rparr>"

definition wit_auth_config :: auth_config where
  "wit_auth_config =
     \<lparr> ac_Mode = ''jwt'', ac_StaticToken = [], ac_StaticScopes = [], ac_MarketMakerStaticToken = [], ac_MarketMakerStaticScopes = [],
       ac_Audience = [''trading-push'', ''trading-gateway''],
       ac_Issuers = [\<lparr> ic_Issuer = ''dev'', ic_JWKSURL = [], ic_HS256SecretFile = ''key'' \<rparr>] \<rparr>"

lemma wit_jwt_ok: "jwt_ok wit_jwt"
proof -
  have "trim_space ''tok'' = ''tok''" by code_simp
  then show ?thesis by (simp add: jwt_ok_def wit_jwt_def)
qed


end
