(* ===== verification/PushHub.thy ===== *)
theory PushHub
  imports AuthTokens TickerStream
begin

text \<open>
  Model of \<open>internal/push\<close>: websocket clients, what they may subscribe to (\<open>limits\<close>), the hub that knows
  them (\<open>hub\<close>), the handler of a connection (\<open>server\<close>) and the fan-out of what arrives from Redis
  (\<open>subscriber\<close>). A client is known by a number that stands for its pointer; what is handed to its
  connection is recorded. The goroutines of the service take turns: a frame of a client, a message from
  Redis, a write of a pump is a step.
\<close>

section \<open>Limits\<close>

record push_limits =
  pl_RetailMaxConnections :: int
  pl_RetailMaxSymbols :: int
  pl_MarketMakerMaxConnections :: int

definition WithDefaults :: "push_limits \<Rightarrow> push_limits" where
  "WithDefaults c =
     \<lparr> pl_RetailMaxConnections = (if pl_RetailMaxConnections c \<le> 0 then 5 else pl_RetailMaxConnections c),
       pl_RetailMaxSymbols = (if pl_RetailMaxSymbols c \<le> 0 then 50 else pl_RetailMaxSymbols c),
       pl_MarketMakerMaxConnections = (if pl_MarketMakerMaxConnections c \<le> 0 then 3 else pl_MarketMakerMaxConnections c) \<rparr>"

definition MaxConnections :: "push_limits \<Rightarrow> bool \<Rightarrow> int" where
  "MaxConnections c marketMaker = (if marketMaker then pl_MarketMakerMaxConnections c else pl_RetailMaxConnections c)"

definition IsTickerAllChannel :: "string \<Rightarrow> bool" where
  "IsTickerAllChannel ch \<longleftrightarrow> ch = ''ticker@all'' \<or> has_prefix ch ''ticker@all:''"

definition symbolAfterPrefix :: "string \<Rightarrow> string \<Rightarrow> string option" where
  "symbolAfterPrefix ch prefix =
     (if \<not> has_prefix ch prefix then None
      else (let s = drop (length prefix) ch in if s = [] then None else Some s))"

text \<open>A candle channel names its pair before the next colon.\<close>

definition kline_symbol :: "string \<Rightarrow> string option" where
  "kline_symbol ch =
     (if \<not> has_prefix ch ''kline:'' then None
      else (let rest = drop 6 ch; s = takeWhile (\<lambda>c. c \<noteq> CHR '':'') rest
            in if CHR '':'' \<in> set rest \<and> s \<noteq> [] then Some s else None))"

definition SymbolFromChannel :: "string \<Rightarrow> string option" where
  "SymbolFromChannel ch =
     (if ch = [] \<or> IsTickerAllChannel ch \<or> ch = ''order'' then None
      else if has_prefix ch ''order:'' then None
      else (case symbolAfterPrefix ch ''depth:'' of Some s \<Rightarrow> Some s
      | None \<Rightarrow> (case symbolAfterPrefix ch ''ticker:'' of Some s \<Rightarrow> Some s
      | None \<Rightarrow> (case symbolAfterPrefix ch ''trade:'' of Some s \<Rightarrow> Some s
      | None \<Rightarrow> (case symbolAfterPrefix ch ''index:'' of Some s \<Rightarrow> Some s
      | None \<Rightarrow> kline_symbol ch)))))"

definition MergeSymbolCount :: "string list \<Rightarrow> string list \<Rightarrow> nat" where
  "MergeSymbolCount existing add =
     length (remdups (List.map_filter SymbolFromChannel existing @ List.map_filter (SymbolFromChannel \<circ> trim_space) add))"

definition CountUniqueSymbols :: "string list \<Rightarrow> nat" where
  "CountUniqueSymbols channels = length (remdups (List.map_filter (SymbolFromChannel \<circ> trim_space) channels))"

section \<open>Clients and the hub\<close>

record ws_resp =
  wr_Op :: string
  wr_Args :: "string list"
  wr_Err :: string

datatype ws_frame = RespFrame ws_resp | DataFrame bytes | HeartbeatFrame

record push_client =
  pc_Send :: "bytes list"
  pc_subs :: "string list"
  pc_UserID :: nat
  pc_Subject :: string
  pc_MarketMaker :: bool
  pc_conn :: "ws_frame list"
  pc_pump :: bool

definition sendCap :: nat where
  "sendCap = 256"

definition NewClient :: push_client where
  "NewClient = \<lparr> pc_Send = [], pc_subs = [], pc_UserID = 0, pc_Subject = [], pc_MarketMaker = False, pc_conn = [], pc_pump = True \<rparr>"

definition SetSubscribed :: "string \<Rightarrow> bool \<Rightarrow> push_client \<Rightarrow> push_client" where
  "SetSubscribed ch on c = c\<lparr>pc_subs := (if on then List.insert ch (pc_subs c) else removeAll ch (pc_subs c))\<rparr>"

definition IsSubscribed :: "string \<Rightarrow> push_client \<Rightarrow> bool" where
  "IsSubscribed ch c \<longleftrightarrow> ch \<in> set (pc_subs c)"

record push_hub =
  ph_clients :: "(nat \<times> push_client) list"
  ph_limits :: push_limits
  ph_fresh :: nat

definition NewWithLimits :: "push_limits \<Rightarrow> push_hub" where
  "NewWithLimits cfg = \<lparr> ph_clients = [], ph_limits = WithDefaults cfg, ph_fresh = 0 \<rparr>"

definition subject_of :: "string \<Rightarrow> string" where
  "subject_of subject = (if subject = [] then ''anonymous'' else subject)"

definition subject_count :: "string \<Rightarrow> push_hub \<Rightarrow> nat" where
  "subject_count subject h = length (filter (\<lambda>x. pc_Subject (snd x) = subject) (ph_clients h))"

definition CanRegister :: "string \<Rightarrow> bool \<Rightarrow> push_hub \<Rightarrow> bool" where
  "CanRegister subject marketMaker h \<longleftrightarrow> int (subject_count (subject_of subject) h) < MaxConnections (ph_limits h) marketMaker"

text \<open>\<open>Register\<close> returns the client with its subject, and the number under which it is kept.\<close>

definition hub_Register :: "push_client \<Rightarrow> string \<Rightarrow> bool \<Rightarrow> push_hub \<Rightarrow> (err + nat) \<times> push_hub" where
  "hub_Register c subject marketMaker h =
     (let s = subject_of subject; c1 = c\<lparr>pc_Subject := s, pc_MarketMaker := marketMaker\<rparr>; i = ph_fresh h
      in if MaxConnections (ph_limits h) marketMaker \<le> int (subject_count s h) then (Inl ErrTooManyConnections, h)
         else (Inr i, h\<lparr>ph_clients := (i, c1) # ph_clients h, ph_fresh := Suc i\<rparr>))"

definition hub_Remove :: "nat \<Rightarrow> push_hub \<Rightarrow> push_hub" where
  "hub_Remove i h = h\<lparr>ph_clients := filter (\<lambda>x. fst x \<noteq> i) (ph_clients h)\<rparr>"

definition hub_update :: "nat \<Rightarrow> (push_client \<Rightarrow> push_client) \<Rightarrow> push_hub \<Rightarrow> push_hub" where
  "hub_update i f h = h\<lparr>ph_clients := map (\<lambda>(j, c). (j, if j = i then f c else c)) (ph_clients h)\<rparr>"

text \<open>A client whose queue is full misses the message.\<close>

definition hub_send :: "bytes \<Rightarrow> push_client \<Rightarrow> push_client" where
  "hub_send payload c = (if length (pc_Send c) < sendCap then c\<lparr>pc_Send := pc_Send c @ [payload]\<rparr> else c)"

definition Broadcast :: "string \<Rightarrow> bytes \<Rightarrow> push_hub \<Rightarrow> push_hub" where
  "Broadcast channel payload h =
     h\<lparr>ph_clients := map (\<lambda>(j, c). (j, if IsSubscribed channel c then hub_send payload c else c)) (ph_clients h)\<rparr>"

definition BroadcastOrder :: "nat \<Rightarrow> bytes \<Rightarrow> push_hub \<Rightarrow> push_hub" where
  "BroadcastOrder userID payload h =
     (if userID = 0 then h
      else h\<lparr>ph_clients := map (\<lambda>(j, c). (j, if IsSubscribed (''order:'' @ show_nat userID) c \<or> IsSubscribed ''order'' c \<and> pc_UserID c = userID
                                           then hub_send payload c else c)) (ph_clients h)\<rparr>)"

definition ParseOrderChannel :: "string \<Rightarrow> nat option" where
  "ParseOrderChannel ch =
     (if \<not> has_prefix ch ''order:'' then None
      else (case parse_uint64 (drop 6 ch) of None \<Rightarrow> None | Some uid \<Rightarrow> if uid = 0 then None else Some uid))"

section \<open>The handler of a connection\<close>

record push_env =
  pe_jwt :: jwt_lib
  pe_Verifier :: verifier
  pe_Limits :: push_limits
  pe_enc :: frame_codec
  pe_dec :: "bytes \<Rightarrow> frame option"
  pe_rest :: "bytes \<Rightarrow> ticker_all_json option"

definition allowedChannel :: "string \<Rightarrow> bool" where
  "allowedChannel ch \<longleftrightarrow>
     ch = ''order'' \<or> ParseOrderChannel ch \<noteq> None \<or> has_prefix ch ''depth:'' \<or> has_prefix ch ''ticker:'' \<or> has_prefix ch ''trade:'' \<or>
     has_prefix ch ''kline:'' \<or> has_prefix ch ''index:'' \<or> has_prefix ch ''ticker@all''"

definition snapshotKey :: "string \<Rightarrow> string" where
  "snapshotKey ch =
     (if has_prefix ch ''depth:'' \<or> has_prefix ch ''ticker:'' \<or> has_prefix ch ''index:'' then ch
      else if has_prefix ch ''ticker@all:'' then RedisKey (trim_prefix ch ''ticker@all:'')
      else if ch = ''ticker@all'' then RedisKey ''ALL'' else [])"

text \<open>The header \<open>Authorization\<close> and the first query parameter \<open>token\<close>.\<close>

definition verifyClaims :: "push_env \<Rightarrow> time \<Rightarrow> string \<Rightarrow> string option \<Rightarrow> claims option" where
  "verifyClaims E at header query =
     (let bearer = (case BearerFromHeader header of
                      Some b \<Rightarrow> Some b
                    | None \<Rightarrow> (case query of
                         None \<Rightarrow> None
                       | Some q \<Rightarrow> (let b = trim_space q in if b = [] then None else Some b)))
      in case bearer of
           None \<Rightarrow> None
         | Some b \<Rightarrow>
             (case VerifyBearer (pe_jwt E) at (pe_Verifier E) b of
                Inl e \<Rightarrow> None
              | Inr c \<Rightarrow> if \<not> HasScopes c [ScopePushConnect] then None else Some c))"

definition write_ws_frame :: "ws_frame \<Rightarrow> push_client \<Rightarrow> push_client" where
  "write_ws_frame f c = c\<lparr>pc_conn := pc_conn c @ [f]\<rparr>"

definition ws_error :: "string \<Rightarrow> ws_frame" where
  "ws_error e = RespFrame \<lparr> wr_Op = ''error'', wr_Args = [], wr_Err = e \<rparr>"

definition ws_answer :: "string \<Rightarrow> string list \<Rightarrow> ws_frame" where
  "ws_answer op args = RespFrame \<lparr> wr_Op = op, wr_Args = args, wr_Err = [] \<rparr>"

text \<open>The first loop of \<open>handleSubscribe\<close>: the channels that are not refused at once.\<close>

fun pending_channels :: "string list \<Rightarrow> push_client \<Rightarrow> string list \<times> push_client" where
  "pending_channels [] c = ([], c)"
| "pending_channels (raw # args) c =
     (let ch = trim_space raw
      in if \<not> allowedChannel ch then pending_channels args (write_ws_frame (ws_error (''unsupported channel: '' @ ch)) c)
         else if \<not> pc_MarketMaker c \<and> IsTickerAllChannel ch
           then pending_channels args (write_ws_frame (ws_error ''ticker@all requires market maker scope'') c)
         else (let (pending, c1) = pending_channels args c in (ch # pending, c1)))"

text \<open>The snapshot that a new subscription gets, if there is one.\<close>

definition channel_snapshot :: "push_env \<Rightarrow> string \<Rightarrow> bytes redis \<Rightarrow> clock \<Rightarrow> bytes option \<times> bytes redis \<times> clock" where
  "channel_snapshot E ch r clk =
     (if snapshotKey ch = [] then (None, r, clk)
      else (case rc_Get (snapshotKey ch) r of
              (Inl e, r1) \<Rightarrow> (None, r1, clk)
            | (Inr v, r1) \<Rightarrow>
                if v = [] then (None, r1, clk)
                else if IsTickerAllChannel ch then
                  (let (f, clk1) = WSSnapshotFromRedisREST (pe_enc E) ch (pe_rest E v) clk in (f, r1, clk1))
                else (Some v, r1, clk)))"

fun subscribe_each ::
  "push_env \<Rightarrow> nat \<Rightarrow> string list \<Rightarrow> push_client \<times> bytes redis \<times> clock \<Rightarrow> (string list \<times> bytes list) \<times> push_client \<times> bytes redis \<times> clock" where
  "subscribe_each E reqUserID [] st = (([], []), st)"
| "subscribe_each E reqUserID (ch # chs) (c, r, clk) =
     (if ch = ''order'' \<and> reqUserID = 0
      then subscribe_each E reqUserID chs (write_ws_frame (ws_error ''subscribe order requires user_id in frame'') c, r, clk)
      else (let c1 = (if ch = ''order'' then c\<lparr>pc_UserID := reqUserID\<rparr> else c);
                c2 = (case ParseOrderChannel ch of None \<Rightarrow> c1 | Some uid \<Rightarrow> c1\<lparr>pc_UserID := uid\<rparr>);
                (snap, r1, clk1) = channel_snapshot E ch r clk;
                ((acc, snaps), st) = subscribe_each E reqUserID chs (SetSubscribed ch True c2, r1, clk1)
            in ((ch # acc, case_option snaps (\<lambda>p. p # snaps) snap), st)))"

definition handleSubscribe ::
  "push_env \<Rightarrow> string list \<Rightarrow> nat \<Rightarrow> push_client \<times> bytes redis \<times> clock \<Rightarrow> push_client \<times> bytes redis \<times> clock" where
  "handleSubscribe E args reqUserID st =
     (let (c, r, clk) = st; cfg = WithDefaults (pe_Limits E); (pending, c1) = pending_channels args c
      in if \<not> pc_MarketMaker c1 \<and> pending \<noteq> [] \<and> pl_RetailMaxSymbols cfg < int (MergeSymbolCount (pc_subs c1) pending)
         then (write_ws_frame (ws_error ''symbol subscription limit exceeded'') c1, r, clk)
         else (let ((acc, snaps), c2, r2, clk2) = subscribe_each E reqUserID pending (c1, r, clk);
                   c3 = (if acc = [] then c2 else write_ws_frame (ws_answer ''subscribed'' acc) c2)
               in (fold (\<lambda>p c. write_ws_frame (DataFrame p) c) snaps c3, r2, clk2)))"

record ws_req =
  wq_Op :: string
  wq_Args :: "string list"
  wq_UserID :: nat

definition handle_frame :: "push_env \<Rightarrow> ws_req \<Rightarrow> push_client \<times> bytes redis \<times> clock \<Rightarrow> push_client \<times> bytes redis \<times> clock" where
  "handle_frame E req st =
     (let op = to_lower (trim_space (wq_Op req)); (c, r, clk) = st
      in if op = ''subscribe'' then handleSubscribe E (wq_Args req) (wq_UserID req) st
         else if op = ''unsubscribe'' then
           (write_ws_frame (ws_answer ''unsubscribed'' (wq_Args req)) (fold (\<lambda>ch. SetSubscribed (trim_space ch) False) (wq_Args req) c), r, clk)
         else if op = ''ping'' then (write_ws_frame (ws_answer ''pong'' []) c, r, clk)
         else (write_ws_frame (ws_error ''unknown op'') c, r, clk))"

section \<open>The service\<close>

record push_state =
  ps_hub :: push_hub
  ps_redis :: "bytes redis"
  ps_clock :: clock

text \<open>
  A request for a connection: the answer is an HTTP error, or the number of the new client. The limit is
  tested before the upgrade and again by \<open>Register\<close>; only the latter changes the hub, and it refuses a
  client that another one has overtaken, so both are taken at the same point.
\<close>

definition ws_open :: "push_env \<Rightarrow> string \<Rightarrow> string option \<Rightarrow> push_state \<Rightarrow> (nat + nat) \<times> push_state" where
  "ws_open E header query st =
     (let (at, clk) = now (ps_clock st); st1 = st\<lparr>ps_clock := clk\<rparr>
      in case verifyClaims E at header query of
           None \<Rightarrow> (Inl 401, st1)
         | Some c \<Rightarrow>
             (let mm = HasScopes c [ScopePushTickerAll]
              in if \<not> CanRegister (cm_Subject c) mm (ps_hub st) then (Inl 429, st1)
                 else (case hub_Register NewClient (cm_Subject c) mm (ps_hub st) of
                         (Inl e, h) \<Rightarrow> (Inl 429, st1)
                       | (Inr i, h) \<Rightarrow> (Inr i, st1\<lparr>ps_hub := hub_update i (write_ws_frame (ws_answer ''connected'' [])) h\<rparr>))))"

definition ws_frame_in :: "push_env \<Rightarrow> nat \<Rightarrow> ws_req \<Rightarrow> push_state \<Rightarrow> push_state" where
  "ws_frame_in E i req st =
     (case map_of (ph_clients (ps_hub st)) i of
        None \<Rightarrow> st
      | Some c \<Rightarrow>
          (let (c1, r, clk) = handle_frame E req (c, ps_redis st, ps_clock st)
           in st\<lparr>ps_hub := hub_update i (\<lambda>_. c1) (ps_hub st), ps_redis := r, ps_clock := clk\<rparr>))"

text \<open>One write of the pump; it stops at the first that fails.\<close>

definition pump_write :: "bool \<Rightarrow> push_client \<Rightarrow> push_client" where
  "pump_write ok c =
     (case pc_Send c of
        [] \<Rightarrow> c
      | msg # rest \<Rightarrow> if \<not> pc_pump c then c else write_ws_frame (DataFrame msg) (c\<lparr>pc_Send := rest, pc_pump := ok\<rparr>))"

definition pump_heartbeat :: "bool \<Rightarrow> push_client \<Rightarrow> push_client" where
  "pump_heartbeat ok c = (if \<not> pc_pump c then c else write_ws_frame HeartbeatFrame (c\<lparr>pc_pump := ok\<rparr>))"

definition fanout_patterns :: "string list" where
  "fanout_patterns = [''depth:'', ''ticker:'', ''trade:'', ''kline:'', ''index:'', ''ticker@all:'', ''order:'']"

text \<open>A message published on Redis; the subscription is by patterns, each a prefix and a star.\<close>

definition fanout :: "push_env \<Rightarrow> string \<Rightarrow> bytes \<Rightarrow> push_hub \<Rightarrow> push_hub" where
  "fanout E channel payload h =
     (if \<not> list_ex (has_prefix channel) fanout_patterns then h
      else if IsTickerAllChannel channel \<and> \<not> IsWSFrame (pe_dec E) payload then h
      else (case ParseOrderChannel channel of
              Some uid \<Rightarrow> BroadcastOrder uid payload h
            | None \<Rightarrow> Broadcast channel payload h))"

datatype push_step =
    OpenWS string "string option"
  | FrameIn nat ws_req
  | PumpWrite nat bool
  | PumpHeartbeat nat bool
  | Hangup nat
  | Published string bytes

fun push_exec :: "push_env \<Rightarrow> push_step \<Rightarrow> push_state \<Rightarrow> push_state" where
  "push_exec E (OpenWS header query) st = snd (ws_open E header query st)"
| "push_exec E (FrameIn i req) st = ws_frame_in E i req st"
| "push_exec E (PumpWrite i ok) st = st\<lparr>ps_hub := hub_update i (pump_write ok) (ps_hub st)\<rparr>"
| "push_exec E (PumpHeartbeat i ok) st = st\<lparr>ps_hub := hub_update i (pump_heartbeat ok) (ps_hub st)\<rparr>"
| "push_exec E (Hangup i) st = st\<lparr>ps_hub := hub_Remove i (ps_hub st)\<rparr>"
| "push_exec E (Published channel payload) st = st\<lparr>ps_hub := fanout E channel payload (ps_hub st)\<rparr>"

definition push_run :: "push_env \<Rightarrow> push_step list \<Rightarrow> push_state \<Rightarrow> push_state" where
  "push_run E steps st = fold (push_exec E) steps st"

definition push_start :: "push_env \<Rightarrow> bytes redis \<Rightarrow> clock \<Rightarrow> push_state" where
  "push_start E r clk = \<lparr> ps_hub = NewWithLimits (pe_Limits E), ps_redis = r, ps_clock = clk \<rparr>"

end
