(* ===== verification/PushProps.thy ===== *)
theory PushProps
  imports PushHub
begin

text \<open>
  What the push service of theory \<open>PushHub\<close> promises, for every sequence of connections, frames, messages
  and disconnections: no subject has more connections than it may, no retail client follows more pairs
  than it may or the tickers of all pairs, and a message reaches those who subscribed to it.
\<close>

declare trim_trim [simp]

section \<open>Clients\<close>

definition client_symbols :: "string list \<Rightarrow> string set" where
  "client_symbols chs = {s. \<exists>ch \<in> set chs. SymbolFromChannel ch = Some s}"

lemma set_map_filter: "set (List.map_filter f xs) = {y. \<exists>x \<in> set xs. f x = Some y}"
  by (induction xs) (auto simp: List.map_filter_simps split: option.splits)

lemma finite_symbols: "finite (client_symbols chs)"
  unfolding client_symbols_def by (metis List.finite_set set_map_filter)

lemma client_symbols_Un: "set zs \<subseteq> set xs \<union> set ys \<Longrightarrow> card (client_symbols zs) \<le> card (client_symbols xs \<union> client_symbols ys)"
  by (rule card_mono) (auto simp: finite_symbols, auto simp: client_symbols_def)

lemma MergeSymbolCount_card:
  assumes "\<forall>ch \<in> set ys. trim_space ch = ch"
  shows "MergeSymbolCount xs ys = card (client_symbols xs \<union> client_symbols ys)"
proof -
  have "set (List.map_filter (SymbolFromChannel \<circ> trim_space) ys) = client_symbols ys"
    using assms by (auto simp: set_map_filter client_symbols_def)
  then show ?thesis by (simp add: MergeSymbolCount_def length_remdups_card_conv set_map_filter client_symbols_def)
qed

definition client_ok :: "push_limits \<Rightarrow> push_client \<Rightarrow> bool" where
  "client_ok lim c \<longleftrightarrow>
     length (pc_Send c) \<le> sendCap \<and> distinct (pc_subs c) \<and> (\<forall>ch \<in> set (pc_subs c). allowedChannel ch) \<and>
     (\<not> pc_MarketMaker c \<longrightarrow>
        (\<forall>ch \<in> set (pc_subs c). \<not> IsTickerAllChannel ch) \<and> int (card (client_symbols (pc_subs c))) \<le> pl_RetailMaxSymbols lim)"

definition same_client :: "push_client \<Rightarrow> push_client \<Rightarrow> bool" where
  "same_client c c' \<longleftrightarrow> pc_Subject c' = pc_Subject c \<and> pc_MarketMaker c' = pc_MarketMaker c"

lemma same_client_refl [simp]: "same_client c c"
  by (simp add: same_client_def)

lemma write_ws_frame_simps [simp]:
  "pc_Send (write_ws_frame f c) = pc_Send c" "pc_subs (write_ws_frame f c) = pc_subs c" "pc_UserID (write_ws_frame f c) = pc_UserID c"
  "pc_Subject (write_ws_frame f c) = pc_Subject c" "pc_MarketMaker (write_ws_frame f c) = pc_MarketMaker c" "pc_pump (write_ws_frame f c) = pc_pump c"
  by (simp_all add: write_ws_frame_def)

lemma client_ok_frame [simp]: "client_ok lim (write_ws_frame f c) = client_ok lim c"
  by (simp add: client_ok_def)

lemma write_frames_keep:
  "client_ok lim (fold (\<lambda>p c. write_ws_frame (DataFrame p) c) ps c) = client_ok lim c \<and> same_client c (fold (\<lambda>p c. write_ws_frame (DataFrame p) c) ps c)"
  by (induction ps arbitrary: c) (auto simp: same_client_def)

lemma pending_channels_spec:
  "pending_channels args c = (p, c1) \<Longrightarrow>
     (\<forall>ch \<in> set p. allowedChannel ch \<and> trim_space ch = ch \<and> (\<not> pc_MarketMaker c \<longrightarrow> \<not> IsTickerAllChannel ch)) \<and>
     (client_ok lim c1 = client_ok lim c \<and> pc_subs c1 = pc_subs c \<and> same_client c c1)"
proof (induction args arbitrary: c p)
  case (Cons raw args)
  let ?ch = "trim_space raw"
  consider "\<not> allowedChannel ?ch" | "allowedChannel ?ch" "\<not> pc_MarketMaker c \<and> IsTickerAllChannel ?ch"
    | "allowedChannel ?ch" "\<not> (\<not> pc_MarketMaker c \<and> IsTickerAllChannel ?ch)" by blast
  then show ?case
  proof cases
    case 1
    with Cons show ?thesis by (fastforce simp: same_client_def)
  next
    case 2
    with Cons show ?thesis by (fastforce simp: same_client_def)
  next
    case 3
    obtain p' where "pending_channels args c = (p', c1)" "p = ?ch # p'" using Cons.prems 3 by (auto simp: Let_def split: prod.splits)
    with Cons.IH [OF this(1)] 3 show ?thesis by auto
  qed
qed (simp add: same_client_def)

lemma subscribe_each_spec:
  "subscribe_each E uid chs (c, r, clk) = (res, c', r', clk') \<Longrightarrow>
     same_client c c' \<and> pc_Send c' = pc_Send c \<and> (distinct (pc_subs c) \<longrightarrow> distinct (pc_subs c')) \<and> set (pc_subs c') \<subseteq> set (pc_subs c) \<union> set chs"
proof (induction chs arbitrary: c r clk res)
  case (Cons ch chs)
  show ?case
  proof (cases "ch = ''order'' \<and> uid = 0")
    case True
    with Cons.prems have "subscribe_each E uid chs (write_ws_frame (ws_error ''subscribe order requires user_id in frame'') c, r, clk) = (res, c', r', clk')"
      by simp
    from Cons.IH [OF this] show ?thesis by (auto simp: same_client_def)
  next
    case False
    define c2 where "c2 = (case ParseOrderChannel ch of None \<Rightarrow> if ch = ''order'' then c\<lparr>pc_UserID := uid\<rparr> else c
      | Some u \<Rightarrow> (if ch = ''order'' then c\<lparr>pc_UserID := uid\<rparr> else c)\<lparr>pc_UserID := u\<rparr>)"
    obtain snap r1 clk1 where s: "channel_snapshot E ch r clk = (snap, r1, clk1)" by (metis surj_pair)
    obtain res' where "subscribe_each E uid chs (SetSubscribed ch True c2, r1, clk1) = (res', c', r', clk')"
      using Cons.prems False s by (auto simp: c2_def Let_def simp del: subscribe_each.simps(2) simp: subscribe_each.simps(2) [of E uid ch chs c r clk]
          split: prod.splits)
    from Cons.IH [OF this] show ?thesis
      by (auto simp: c2_def SetSubscribed_def same_client_def split: option.splits if_splits)
  qed
qed (simp add: same_client_def)

lemma handleSubscribe_ok:
  assumes "client_ok (WithDefaults (pe_Limits E)) c" "handleSubscribe E args uid (c, r, clk) = (c', r', clk')"
  shows "client_ok (WithDefaults (pe_Limits E)) c' \<and> same_client c c'"
proof -
  let ?lim = "WithDefaults (pe_Limits E)"
  obtain p c1 where p: "pending_channels args c = (p, c1)" by (metis surj_pair)
  note ps = pending_channels_spec [OF p, of ?lim]
  obtain acc snaps c2 r2 clk2 where e: "subscribe_each E uid p (c1, r, clk) = ((acc, snaps), c2, r2, clk2)" by (metis surj_pair)
  note es = subscribe_each_spec [OF e]
  show ?thesis
  proof (cases "\<not> pc_MarketMaker c1 \<and> p \<noteq> [] \<and> pl_RetailMaxSymbols ?lim < int (MergeSymbolCount (pc_subs c1) p)")
    case True
    then have "c' = write_ws_frame (ws_error ''symbol subscription limit exceeded'') c1"
      using assms(2) p e by (simp add: handleSubscribe_def Let_def split: prod.splits)
    then show ?thesis using assms(1) ps by (simp add: same_client_def)
  next
    case False
    then have c': "c' = fold (\<lambda>p c. write_ws_frame (DataFrame p) c) snaps (if acc = [] then c2 else write_ws_frame (ws_answer ''subscribed'' acc) c2)"
      using assms(2) p e by (auto simp: handleSubscribe_def Let_def split: if_splits)
    have "client_ok ?lim c2"
    proof -
      have mm: "pc_MarketMaker c2 = pc_MarketMaker c" "pc_MarketMaker c1 = pc_MarketMaker c" using ps es by (simp_all add: same_client_def)
      have "int (card (client_symbols (pc_subs c2))) \<le> pl_RetailMaxSymbols ?lim" if r: "\<not> pc_MarketMaker c"
      proof -
        have u: "card (client_symbols (pc_subs c2)) \<le> card (client_symbols (pc_subs c1) \<union> client_symbols p)"
          using es by (intro client_symbols_Un) blast
        show ?thesis
        proof (cases "p = []")
          case True
          have "client_symbols [] = {}" by (simp add: client_symbols_def)
          with u True ps assms(1) r show ?thesis by (simp add: client_ok_def)
        next
          case p: False
          then have "int (MergeSymbolCount (pc_subs c1) p) \<le> pl_RetailMaxSymbols ?lim" using False r mm by simp
          with u MergeSymbolCount_card [of p "pc_subs c1"] ps show ?thesis by simp
        qed
      qed
      then show ?thesis using ps es assms(1) mm by (auto simp: client_ok_def)
    qed
    then show ?thesis using c' write_frames_keep [of ?lim snaps] ps es by (simp add: same_client_def)
  qed
qed

lemma handle_frame_ok:
  assumes "client_ok (WithDefaults (pe_Limits E)) c" "handle_frame E req (c, r, clk) = (c', r', clk')"
  shows "client_ok (WithDefaults (pe_Limits E)) c' \<and> same_client c c'"
proof -
  have un: "client_ok lim (fold (\<lambda>ch. SetSubscribed (trim_space ch) False) chs c) \<and> same_client c (fold (\<lambda>ch. SetSubscribed (trim_space ch) False) chs c)"
    if "client_ok lim c" for lim chs c
    using that
  proof (induction chs arbitrary: c)
    case (Cons ch chs)
    have "client_symbols (removeAll x xs) \<subseteq> client_symbols xs" for x xs by (auto simp: client_symbols_def)
    then have "int (card (client_symbols (removeAll x xs))) \<le> int (card (client_symbols xs))" for x xs
      by (intro of_nat_mono card_mono finite_symbols)
    from order_trans [OF this [of "trim_space ch" "pc_subs c"]] Cons.prems have "client_ok lim (SetSubscribed (trim_space ch) False c)"
      by (auto simp: client_ok_def SetSubscribed_def distinct_removeAll)
    from Cons.IH [OF this] show ?case by (simp add: same_client_def SetSubscribed_def)
  qed (simp add: same_client_def)
  show ?thesis
    using assms un [OF assms(1)] handleSubscribe_ok [OF assms(1)]
    by (auto simp: handle_frame_def Let_def same_client_def split: if_splits)
qed

section \<open>The hub\<close>

definition connection_count :: "string \<Rightarrow> bool \<Rightarrow> push_hub \<Rightarrow> nat" where
  "connection_count s mm h = length (filter (\<lambda>x. pc_Subject (snd x) = s \<and> pc_MarketMaker (snd x) = mm) (ph_clients h))"

definition hub_ok :: "push_limits \<Rightarrow> push_hub \<Rightarrow> bool" where
  "hub_ok lim h \<longleftrightarrow>
     ph_limits h = lim \<and> distinct (map fst (ph_clients h)) \<and> (\<forall>x \<in> set (ph_clients h). fst x < ph_fresh h \<and> client_ok lim (snd x)) \<and>
     (\<forall>s mm. int (connection_count s mm h) \<le> MaxConnections lim mm)"

lemma hub_map_ok:
  assumes "hub_ok lim h" and f: "\<And>j c. (j, c) \<in> set (ph_clients h) \<Longrightarrow> client_ok lim (f j c) \<and> same_client c (f j c)"
  shows "hub_ok lim (h\<lparr>ph_clients := map (\<lambda>(j, c). (j, f j c)) (ph_clients h)\<rparr>)"
proof -
  have len: "length (filter P (map g xs)) = length (filter P xs)" if "\<And>x. x \<in> set xs \<Longrightarrow> P (g x) = P x"
    for P and g :: "nat \<times> push_client \<Rightarrow> nat \<times> push_client" and xs
    using that by (induction xs) auto
  have "connection_count s mm (h\<lparr>ph_clients := map (\<lambda>(j, c). (j, f j c)) (ph_clients h)\<rparr>) = connection_count s mm h" for s mm
  proof -
    have e: "ph_clients (h\<lparr>ph_clients := ys\<rparr>) = ys" for ys by simp
    show ?thesis unfolding connection_count_def e by (rule len) (use f in \<open>auto simp: same_client_def\<close>)
  qed
  moreover have "fst \<circ> (\<lambda>(j, c). (j, f j c)) = fst" by (auto simp: fun_eq_iff)
  moreover have "\<forall>x \<in> set (map (\<lambda>(j, c). (j, f j c)) (ph_clients h)). fst x < ph_fresh h \<and> client_ok lim (snd x)"
    using assms by (auto simp: hub_ok_def)
  ultimately show ?thesis using assms(1) by (simp add: hub_ok_def)
qed

lemma hub_update_ok:
  assumes "hub_ok lim h" "\<And>c. (i, c) \<in> set (ph_clients h) \<Longrightarrow> client_ok lim (f c) \<and> same_client c (f c)"
  shows "hub_ok lim (hub_update i f h)"
proof -
  have "client_ok lim c" if "(j, c) \<in> set (ph_clients h)" for j c using assms(1) that by (auto simp: hub_ok_def)
  then show ?thesis
    unfolding hub_update_def using assms(2) by (intro hub_map_ok [OF assms(1), of "\<lambda>j c. if j = i then f c else c"]) auto
qed

lemma hub_send_ok: "client_ok lim c \<Longrightarrow> client_ok lim (hub_send payload c) \<and> same_client c (hub_send payload c)"
  by (simp add: hub_send_def client_ok_def same_client_def)

lemma hub_send_same: "same_client c (hub_send payload c)"
  by (simp add: hub_send_def same_client_def)

lemma fanout_ok: "hub_ok lim h \<Longrightarrow> hub_ok lim (fanout E channel payload h)"
proof -
  assume h: "hub_ok lim h"
  have ok: "client_ok lim c" if "(j, c) \<in> set (ph_clients h)" for j c using h that by (auto simp: hub_ok_def)
  have b: "hub_ok lim (h\<lparr>ph_clients := map (\<lambda>(j, c). (j, if P c then hub_send payload c else c)) (ph_clients h)\<rparr>)" for P
    by (intro hub_map_ok [OF h, of "\<lambda>j c. if P c then hub_send payload c else c"]) (simp add: ok hub_send_ok hub_send_same)
  show ?thesis using h b by (simp add: fanout_def BroadcastOrder_def Broadcast_def split: option.splits)
qed

lemma hub_Register_ok:
  assumes h: "hub_ok (WithDefaults cfg) h" and r: "hub_Register NewClient subject mm h = (Inr i, h')"
  shows "hub_ok (WithDefaults cfg) h'"
proof -
  let ?s = "subject_of subject"
  have h': "h' = h\<lparr>ph_clients := (i, NewClient\<lparr>pc_Subject := ?s, pc_MarketMaker := mm\<rparr>) # ph_clients h, ph_fresh := Suc i\<rparr>" "i = ph_fresh h"
    "int (subject_count ?s h) < MaxConnections (ph_limits h) mm"
    using r by (auto simp: hub_Register_def Let_def split: if_splits)
  have "length (filter (\<lambda>x. P x \<and> Q x) xs) \<le> length (filter P xs)" for P Q and xs :: "(nat \<times> push_client) list"
    by (induction xs) auto
  then have "connection_count ?s mm h \<le> subject_count ?s h" by (simp add: connection_count_def subject_count_def)
  with h h'(3) have one: "int (Suc (connection_count ?s mm h)) \<le> MaxConnections (WithDefaults cfg) mm" by (simp add: hub_ok_def)
  have c: "connection_count s m h' = (if s = ?s \<and> m = mm then Suc (connection_count s m h) else connection_count s m h)" for s m
    by (auto simp: h'(1) connection_count_def)
  have "0 \<le> pl_RetailMaxSymbols (WithDefaults cfg)" by (simp add: WithDefaults_def)
  then have "client_ok (WithDefaults cfg) (NewClient\<lparr>pc_Subject := ?s, pc_MarketMaker := mm\<rparr>)"
    by (simp add: client_ok_def NewClient_def client_symbols_def)
  moreover have "\<forall>x \<in> set (ph_clients h'). fst x < ph_fresh h' \<and> client_ok (WithDefaults cfg) (snd x)"
    using h calculation unfolding h'(1,2) hub_ok_def by (auto simp: less_Suc_eq)
  moreover have "distinct (map fst (ph_clients h'))" using h unfolding h'(1,2) hub_ok_def by (auto simp: image_iff)
  moreover have "\<forall>s m. int (connection_count s m h') \<le> MaxConnections (WithDefaults cfg) m" using h one by (simp add: c hub_ok_def)
  ultimately show ?thesis using h by (simp add: hub_ok_def h'(1))
qed

lemma push_exec_ok:
  assumes "hub_ok (WithDefaults (pe_Limits E)) (ps_hub st)"
  shows "hub_ok (WithDefaults (pe_Limits E)) (ps_hub (push_exec E x st))"
proof (cases x)
  case (OpenWS header query)
  obtain at clk where t: "now (ps_clock st) = (at, clk)" by (metis surj_pair)
  show ?thesis
  proof (cases "ws_open E header query st")
    case (Pair res st')
    show ?thesis
    proof (cases "ps_hub st' = ps_hub st")
      case True
      then show ?thesis using assms OpenWS Pair by simp
    next
      case False
      then obtain subject mm i h where r: "hub_Register NewClient subject mm (ps_hub st) = (Inr i, h)"
        "ps_hub st' = hub_update i (write_ws_frame (ws_answer ''connected'' [])) h"
        using Pair t by (auto simp: ws_open_def Let_def split: option.splits if_splits sum.splits prod.splits)
      have h: "hub_ok (WithDefaults (pe_Limits E)) h" by (rule hub_Register_ok [OF assms r(1)])
      have "hub_ok (WithDefaults (pe_Limits E)) (ps_hub st')"
        unfolding r(2) by (rule hub_update_ok [OF h]) (use h in \<open>auto simp: hub_ok_def same_client_def\<close>)
      then show ?thesis using OpenWS Pair by simp
    qed
  qed
next
  case (FrameIn i req)
  show ?thesis
  proof (cases "map_of (ph_clients (ps_hub st)) i")
    case None
    then show ?thesis using assms FrameIn by (simp add: ws_frame_in_def)
  next
    case (Some c)
    obtain c1 r clk where f: "handle_frame E req (c, ps_redis st, ps_clock st) = (c1, r, clk)" by (metis surj_pair)
    have "(i, c) \<in> set (ph_clients (ps_hub st))" using Some by (rule map_of_SomeD)
    then have "client_ok (WithDefaults (pe_Limits E)) c" using assms by (auto simp: hub_ok_def)
    from handle_frame_ok [OF this f] have c1: "client_ok (WithDefaults (pe_Limits E)) c1" "same_client c c1" by blast+
    have "hub_ok (WithDefaults (pe_Limits E)) (hub_update i (\<lambda>_. c1) (ps_hub st))"
    proof (rule hub_update_ok [OF assms])
      fix d assume "(i, d) \<in> set (ph_clients (ps_hub st))"
      then have "d = c" using Some assms by (simp add: hub_ok_def)
      with c1 show "client_ok (WithDefaults (pe_Limits E)) c1 \<and> same_client d c1" by simp
    qed
    then show ?thesis using FrameIn Some f by (simp add: ws_frame_in_def)
  qed
next
  case (PumpWrite i ok)
  have "client_ok lim (pump_write ok c) \<and> same_client c (pump_write ok c)" if "client_ok lim c" for lim c
    using that by (auto simp: pump_write_def client_ok_def same_client_def split: list.splits)
  then show ?thesis using PumpWrite hub_update_ok [OF assms, of i "pump_write ok"] assms by (fastforce simp: hub_ok_def)
next
  case (PumpHeartbeat i ok)
  have "client_ok lim (pump_heartbeat ok c) \<and> same_client c (pump_heartbeat ok c)" if "client_ok lim c" for lim c
    using that by (auto simp: pump_heartbeat_def client_ok_def same_client_def)
  then show ?thesis using PumpHeartbeat hub_update_ok [OF assms, of i "pump_heartbeat ok"] assms by (fastforce simp: hub_ok_def)
next
  case (Hangup i)
  have "length (filter P (filter Q xs)) \<le> length (filter P xs)" for P Q and xs :: "(nat \<times> push_client) list" by (induction xs) auto
  then have "connection_count s mm (hub_Remove i (ps_hub st)) \<le> connection_count s mm (ps_hub st)" for s mm
    by (simp add: connection_count_def hub_Remove_def)
  then have "int (connection_count s mm (hub_Remove i (ps_hub st))) \<le> MaxConnections (WithDefaults (pe_Limits E)) mm" for s mm
    using assms by (meson hub_ok_def of_nat_mono order_trans)
  then show ?thesis using Hangup assms by (auto simp: hub_ok_def hub_Remove_def distinct_map_filter)
next
  case (Published channel payload)
  then show ?thesis using fanout_ok [OF assms] by simp
qed

lemma push_run_ok: "hub_ok (WithDefaults (pe_Limits E)) (ps_hub (push_run E steps (push_start E r clk)))"
proof -
  have "hub_ok (WithDefaults (pe_Limits E)) (ps_hub st) \<Longrightarrow> hub_ok (WithDefaults (pe_Limits E)) (ps_hub (push_run E steps st))" for st
  proof (induction steps arbitrary: st)
    case (Cons x steps)
    from Cons.IH [OF push_exec_ok [OF Cons.prems, of x]] show ?case by (simp add: push_run_def)
  qed (simp add: push_run_def)
  moreover have "hub_ok (WithDefaults (pe_Limits E)) (ps_hub (push_start E r clk))"
    by (simp add: push_start_def NewWithLimits_def hub_ok_def connection_count_def MaxConnections_def WithDefaults_def)
  ultimately show ?thesis by blast
qed

text \<open>
  C35. After any sequence of connections, frames, pump writes, messages and disconnections, and whatever
  the calls to Redis return: a subject has at most as many retail connections, and as many connections
  with the scope of a market maker, as the limits say; a client's queue never exceeds its capacity; and a
  retail client is subscribed to none of the tickers of all pairs and to at most the allowed number of
  pairs.
\<close>

theorem push_limits_hold:
  "list_all (\<lambda>(i, c). length (pc_Send c) \<le> sendCap \<and>
       int (connection_count (pc_Subject c) (pc_MarketMaker c) (ps_hub (push_run E steps (push_start E r clk))))
         \<le> MaxConnections (WithDefaults (pe_Limits E)) (pc_MarketMaker c) \<and>
       (if pc_MarketMaker c then True
        else \<not> list_ex IsTickerAllChannel (pc_subs c) \<and> int (MergeSymbolCount (pc_subs c) []) \<le> pl_RetailMaxSymbols (WithDefaults (pe_Limits E))))
     (ph_clients (ps_hub (push_run E steps (push_start E r clk))))"
proof -
  let ?h = "ps_hub (push_run E steps (push_start E r clk))" and ?lim = "WithDefaults (pe_Limits E)"
  note ok = push_run_ok [of E steps r clk]
  have "length (pc_Send c) \<le> sendCap \<and>
      int (connection_count (pc_Subject c) (pc_MarketMaker c) ?h) \<le> MaxConnections ?lim (pc_MarketMaker c) \<and>
      (if pc_MarketMaker c then True
       else \<not> list_ex IsTickerAllChannel (pc_subs c) \<and> int (MergeSymbolCount (pc_subs c) []) \<le> pl_RetailMaxSymbols ?lim)"
    if "(i, c) \<in> set (ph_clients ?h)" for i c
  proof -
    have c: "client_ok ?lim c" using ok that by (auto simp: hub_ok_def)
    have "client_symbols [] = {}" by (simp add: client_symbols_def)
    then have "MergeSymbolCount (pc_subs c) [] = card (client_symbols (pc_subs c))" by (simp add: MergeSymbolCount_card)
    moreover have "int (connection_count (pc_Subject c) (pc_MarketMaker c) ?h) \<le> MaxConnections ?lim (pc_MarketMaker c)"
      using ok by (simp add: hub_ok_def)
    ultimately show ?thesis using c by (simp add: client_ok_def list_ex_iff)
  qed
  then show ?thesis unfolding list_all_iff by blast
qed

section \<open>Who gets a message\<close>

text \<open>
  C36. In any state the service can reach, a message published on Redis changes nothing of a client but
  its queue, and is put there if there is room, exactly if its channel matches one of the patterns and
  the client subscribed to it: to the channel itself, or for the orders of a user to \<open>order:\<close> with that
  user, or to \<open>order\<close> with that user as its last choice. A frame of the tickers of all pairs must be
  well formed, and only market makers get it.
\<close>

theorem push_delivery:
  fixes E :: push_env and r :: "bytes redis" and clk :: clock
  defines "h \<equiv> \<lambda>steps. ps_hub (push_run E steps (push_start E r clk))"
  assumes c: "map_of (ph_clients (h steps)) i = Some c"
  shows "\<exists>gets. map_of (ph_clients (h (steps @ [Published channel payload]))) i = Some (if gets then hub_send payload c else c) \<and>
    (gets \<longleftrightarrow> list_ex (has_prefix channel) fanout_patterns \<and> (IsTickerAllChannel channel \<longrightarrow> IsWSFrame (pe_dec E) payload) \<and>
       (case ParseOrderChannel channel of
          Some uid \<Rightarrow> IsSubscribed (''order:'' @ show_nat uid) c \<or> IsSubscribed ''order'' c \<and> pc_UserID c = uid
        | None \<Rightarrow> IsSubscribed channel c)) \<and>
    (gets \<longrightarrow> IsTickerAllChannel channel \<longrightarrow> pc_MarketMaker c)"
proof -
  have m: "map_of (map (\<lambda>(j, c). (j, f c)) xs) i = map_option f (map_of xs i)" for f :: "push_client \<Rightarrow> push_client" and xs
    by (induction xs) auto
  define gets where "gets \<longleftrightarrow> list_ex (has_prefix channel) fanout_patterns \<and> (IsTickerAllChannel channel \<longrightarrow> IsWSFrame (pe_dec E) payload) \<and>
       (case ParseOrderChannel channel of
          Some uid \<Rightarrow> IsSubscribed (''order:'' @ show_nat uid) c \<or> IsSubscribed ''order'' c \<and> pc_UserID c = uid
        | None \<Rightarrow> IsSubscribed channel c)"
  have "h (steps @ [Published channel payload]) = fanout E channel payload (h steps)" by (simp add: h_def push_run_def)
  moreover have "ParseOrderChannel channel = Some uid \<Longrightarrow> uid \<noteq> 0" for uid
    by (auto simp: ParseOrderChannel_def split: if_splits option.splits)
  ultimately have e: "map_of (ph_clients (h (steps @ [Published channel payload]))) i = Some (if gets then hub_send payload c else c)"
    using c by (auto simp: gets_def fanout_def Broadcast_def BroadcastOrder_def m split: option.splits)
  moreover have "pc_MarketMaker c" if g: "gets" "IsTickerAllChannel channel"
  proof (rule ccontr)
    assume "\<not> pc_MarketMaker c"
    have "(i, c) \<in> set (ph_clients (h steps))" using c by (rule map_of_SomeD)
    then have "client_ok (WithDefaults (pe_Limits E)) c" using push_run_ok [of E steps r clk] by (auto simp: hub_ok_def h_def)
    moreover have "ParseOrderChannel channel = None"
      using g(2) by (auto simp: IsTickerAllChannel_def ParseOrderChannel_def has_prefix_iff)
    then have "channel \<in> set (pc_subs c)" using g(1) by (simp add: gets_def IsSubscribed_def)
    ultimately show False using g(2) \<open>\<not> pc_MarketMaker c\<close> by (auto simp: client_ok_def)
  qed
  ultimately show ?thesis using gets_def by blast
qed

definition wit_push_env :: push_env where
  "wit_push_env =
     \<lparr> pe_jwt = wit_jwt,
       pe_Verifier = \<lparr> vf_mode = ''static'', vf_staticToken = ''tok'', vf_staticScopes = [ScopePushConnect], vf_marketMakerStaticToken = [],
         vf_marketMakerStaticScopes = [], vf_issuers = Map.empty \<rparr>,
       pe_Limits = \<lparr> pl_RetailMaxConnections = 1, pl_RetailMaxSymbols = 1, pl_MarketMakerMaxConnections = 0 \<rparr>,
       pe_enc = (\<lambda>_. None), pe_dec = (\<lambda>_. None), pe_rest = (\<lambda>_. None) \<rparr>"

definition wit_push_redis :: "bytes redis" where
  "wit_push_redis = \<lparr> rc_keys = Map.empty, rc_lists = (\<lambda>_. []), rc_published = [], rc_calls = (\<lambda>_. Answered), rc_pos = 0 \<rparr>"

definition wit_push_client :: push_client where
  "wit_push_client =
     \<lparr> pc_Send = [], pc_subs = [''trade:AB''], pc_UserID = 0, pc_Subject = ''static-retail'', pc_MarketMaker = False,
       pc_conn = [ws_answer ''connected'' [], ws_answer ''subscribed'' [''trade:AB'']], pc_pump = True \<rparr>"

definition wit_push_steps :: "push_step list" where
  "wit_push_steps =
     [OpenWS ''Bearer tok'' None, FrameIn 0 \<lparr> wq_Op = ''subscribe'', wq_Args = ['' trade:AB''], wq_UserID = 0 \<rparr>]"

lemma wit_push_state:
  "ph_clients (ps_hub (push_run wit_push_env wit_push_steps (push_start wit_push_env wit_push_redis ((\<lambda>_. 0), 0)))) = [(0, wit_push_client)]"
proof -
  have t: "trim_space ''tok'' = ''tok''" "trim_space '' trade:AB'' = ''trade:AB''" "to_lower (trim_space ''subscribe'') = ''subscribe''"
    "trim_space ''trade:AB'' = ''trade:AB''" by code_simp+
  have b: "BearerFromHeader ''Bearer tok'' = Some ''tok''" using t(1) by (simp add: BearerFromHeader_def)
  have m: "MergeSymbolCount [] [''trade:AB''] = 1"
    by (simp add: MergeSymbolCount_def t List.map_filter_simps SymbolFromChannel_def IsTickerAllChannel_def symbolAfterPrefix_def)
  show ?thesis
    by (simp add: wit_push_steps_def push_run_def push_start_def wit_push_env_def NewWithLimits_def WithDefaults_def ws_open_def now_def
        verifyClaims_def b VerifyBearer_def t verifyStaticToken_def HasScopes_def scope_defs CanRegister_def subject_of_def subject_count_def
        MaxConnections_def hub_Register_def NewClient_def hub_update_def write_ws_frame_def ws_frame_in_def handle_frame_def handleSubscribe_def
        allowedChannel_def ParseOrderChannel_def IsTickerAllChannel_def m channel_snapshot_def snapshotKey_def SetSubscribed_def
        wit_push_client_def Let_def)
qed

theorem push_delivery_witness:
  "\<exists>c. map_of (ph_clients (ps_hub (push_run wit_push_env (wit_push_steps @ [Published ''trade:AB'' [7]])
      (push_start wit_push_env wit_push_redis ((\<lambda>_. 0), 0))))) 0 = Some c \<and> pc_Send c = [[7]]"
proof -
  have c: "map_of (ph_clients (ps_hub (push_run wit_push_env wit_push_steps (push_start wit_push_env wit_push_redis ((\<lambda>_. 0), 0))))) 0 = Some wit_push_client"
    by (simp add: wit_push_state)
  have p: "ParseOrderChannel ''trade:AB'' = None" "\<not> IsTickerAllChannel ''trade:AB''" "list_ex (has_prefix ''trade:AB'') fanout_patterns"
    "IsSubscribed ''trade:AB'' wit_push_client" "hub_send [7] wit_push_client = wit_push_client\<lparr>pc_Send := [[7]]\<rparr>"
    by (simp_all add: ParseOrderChannel_def IsTickerAllChannel_def fanout_patterns_def IsSubscribed_def hub_send_def sendCap_def wit_push_client_def)
  from push_delivery [OF c, of "''trade:AB''" "[7]"] p show ?thesis by auto
qed

end
