(* ===== verification/TimeText.thy ===== *)
theory TimeText
  imports Prelude
begin

text \<open>
  The text of instants as the gateway reads and writes it: \<open>time.Time.Format\<close> with milliseconds in UTC, and
  \<open>time.Parse\<close> with the layouts of \<open>internal/gateway/convert/time.go\<close>, over the Gregorian calendar of
  package \<open>time\<close>. What is printed parses to the instant it was printed from, cut to milliseconds.
\<close>

section \<open>The calendar\<close>

text \<open>Year and day in the year, from the days since the first of January of year 1.\<close>

definition year_day :: "int \<Rightarrow> int \<times> int" where
  "year_day days =
     (let era = days div 146097; d = days mod 146097;
          c = min (d div 36524) 3; d1 = d - 36524 * c;
          q = d1 div 1461; d2 = d1 - 1461 * q;
          y = min (d2 div 365) 3
      in (400 * era + 100 * c + 4 * q + y + 1, d2 - 365 * y))"

definition isLeap :: "int \<Rightarrow> bool" where
  "isLeap y \<longleftrightarrow> y mod 4 = 0 \<and> (y mod 100 \<noteq> 0 \<or> y mod 400 = 0)"

definition month_lengths :: "int \<Rightarrow> int list" where
  "month_lengths y = [31, if isLeap y then 29 else 28, 31, 30, 31, 30, 31, 31, 30, 31, 30, 31]"

fun month_day :: "int list \<Rightarrow> int \<Rightarrow> int \<times> int" where
  "month_day [] d = (1, d + 1)"
| "month_day (l # ls) d = (if d < l then (1, d + 1) else (let (m, x) = month_day ls (d - l) in (m + 1, x)))"

definition year_start :: "int \<Rightarrow> int" where
  "year_start y = 365 * (y - 1) + (y - 1) div 4 - (y - 1) div 100 + (y - 1) div 400"

text \<open>\<open>time.Date\<close> in UTC.\<close>

definition time_of_date :: "int \<Rightarrow> int \<Rightarrow> int \<Rightarrow> int \<Rightarrow> int \<Rightarrow> int \<Rightarrow> int \<Rightarrow> time" where
  "time_of_date y mo d h mi s ns =
     (let days = year_start y + sum_list (take (nat (mo - 1)) (month_lengths y)) + (d - 1)
      in ((days * 86400) + h * 3600 + mi * 60 + s) * 1000000000 + ns)"

lemma year_day_start:
  assumes "year_day n = (y, d)"
  shows "year_start y + d = n" "0 \<le> d" "d < (if isLeap y then 366 else 365)"
proof -
  define e where "e = n div 146097"
  define m where "m = n mod 146097"
  define c where "c = min (m div 36524) 3"
  define m1 where "m1 = m - 36524 * c"
  define q where "q = m1 div 1461"
  define m2 where "m2 = m1 - 1461 * q"
  define r where "r = min (m2 div 365) 3"
  have y: "y = 400 * e + 100 * c + 4 * q + r + 1" and d: "d = m2 - 365 * r"
    using assms by (auto simp: year_day_def Let_def e_def m_def c_def m1_def q_def m2_def r_def)
  have n: "n = 146097 * e + m" "0 \<le> m" "m < 146097" by (simp_all add: e_def m_def)
  have c: "0 \<le> c" "c \<le> 3" "0 \<le> m1" "c < 3 \<Longrightarrow> m1 < 36524" "m1 \<le> 36524" using n unfolding c_def m1_def by auto
  have q: "0 \<le> q" "q \<le> 24" "0 \<le> m2" "m2 < 1461" "c < 3 \<and> q = 24 \<Longrightarrow> m2 < 1460"
  proof -
    have "m1 = 1461 * q + m2" "0 \<le> m2" "m2 < 1461" by (simp_all add: q_def m2_def)
    with c(3-5) show "0 \<le> q" "q \<le> 24" "0 \<le> m2" "m2 < 1461" "c < 3 \<and> q = 24 \<Longrightarrow> m2 < 1460" by linarith+
  qed
  have r: "0 \<le> r" "r \<le> 3" "0 \<le> d" "r < 3 \<Longrightarrow> d < 365" "d \<le> 365" using q unfolding r_def d by auto
  have dv: "(y - 1) div 4 = 100 * e + 25 * c + q" using y r by (intro int_div_pos_eq [where r = r]) auto
  have dv2: "(y - 1) div 100 = 4 * e + c" using y q r by (intro int_div_pos_eq [where r = "4 * q + r"]) auto
  have dv3: "(y - 1) div 400 = e" using y c q r by (intro int_div_pos_eq [where r = "100 * c + 4 * q + r"]) auto
  show "year_start y + d = n" unfolding year_start_def dv dv2 dv3 using n(1) y d by (simp add: m1_def m2_def)
  show "0 \<le> d" by (rule r(3))
  have "y = (r + 1) + 4 * (100 * e + 25 * c + q)" "y = (4 * q + r + 1) + 100 * (4 * e + c)" "y = (100 * c + 4 * q + r + 1) + 400 * e"
    using y by simp_all
  then have "y mod 4 = (r + 1) mod 4" "y mod 100 = (4 * q + r + 1) mod 100" "y mod 400 = (100 * c + 4 * q + r + 1) mod 400"
    by (metis mod_mult_self2)+
  moreover have "(r + 1) mod 4 = 0 \<longleftrightarrow> r = 3" using r(1,2) by (cases "r = 3") (auto simp: mod_pos_pos_trivial)
  moreover have "(4 * q + r + 1) mod 100 = 0 \<longleftrightarrow> 4 * q + r + 1 = 100"
    using q(1,2) r(1,2) by (cases "4 * q + r + 1 = 100") (auto simp: mod_pos_pos_trivial)
  moreover have "4 * q + r + 1 = 100 \<longleftrightarrow> q = 24 \<and> r = 3" using q(1,2) r(1,2) by presburger
  moreover have "(100 * c + 4 * q + r + 1) mod 400 = 0 \<longleftrightarrow> 100 * c + 4 * q + r + 1 = 400"
  proof (cases "100 * c + 4 * q + r + 1 = 400")
    case True
    then have "(100 * c + 4 * q + r + 1) mod 400 = 0" by (simp only: mod_self)
    with True show ?thesis by (simp only: refl)
  next
    case False
    then have "(100 * c + 4 * q + r + 1) mod 400 = 100 * c + 4 * q + r + 1" using c(1,2) q(1,2) r(1,2) by (intro mod_pos_pos_trivial) linarith+
    with False c(1) q(1) r(1) show ?thesis by linarith
  qed
  moreover have "100 * c + 4 * q + r + 1 = 400 \<longleftrightarrow> c = 3 \<and> q = 24 \<and> r = 3" using c(1,2) q(1,2) r(1,2) by presburger
  ultimately have "isLeap y \<longleftrightarrow> r = 3 \<and> (q \<noteq> 24 \<or> c = 3)" unfolding isLeap_def by auto
  then show "d < (if isLeap y then 366 else 365)" using r q c d by auto
qed

lemma month_day_sum:
  "month_day ls d = (m, x) \<Longrightarrow> 0 \<le> d \<Longrightarrow> d < sum_list ls \<Longrightarrow>
     1 \<le> m \<and> m \<le> int (length ls) \<and> sum_list (take (nat (m - 1)) ls) + (x - 1) = d \<and> 1 \<le> x \<and> x \<le> ls ! nat (m - 1)"
proof (induction ls arbitrary: d m)
  case (Cons l ls)
  show ?case
  proof (cases "d < l")
    case True
    with Cons.prems show ?thesis by auto
  next
    case False
    obtain m' where m': "month_day ls (d - l) = (m', x)" "m = m' + 1" using Cons.prems(1) False by (auto split: prod.splits)
    from Cons.IH [OF m'(1)] False Cons.prems have
      i: "1 \<le> m'" "m' \<le> int (length ls)" "sum_list (take (nat (m' - 1)) ls) + (x - 1) = d - l" "1 \<le> x" "x \<le> ls ! nat (m' - 1)" by auto
    have "nat (m - 1) = Suc (nat (m' - 1))" using i(1) m'(2) by simp
    with i m'(2) show ?thesis by simp
  qed
qed simp

lemma month_lengths_sum: "sum_list (month_lengths y) = (if isLeap y then 366 else 365)"
  by (simp add: month_lengths_def)

lemma length_month_lengths [simp]: "length (month_lengths y) = 12"
  by (simp add: month_lengths_def)

section \<open>Printing\<close>

definition pad_int :: "nat \<Rightarrow> int \<Rightarrow> string" where
  "pad_int w n = (if n < 0 then CHR ''-'' # pad_zero w (show_nat (nat (- n))) else pad_zero w (show_nat (nat n)))"

text \<open>\<open>Format("2006-01-02T15:04:05.000Z")\<close> in UTC; \<open>Z07:00\<close> prints the same there.\<close>

definition FormatTimeUTC :: "time \<Rightarrow> string" where
  "FormatTimeUTC t =
     (let secs = t div 1000000000; ns = t mod 1000000000; (y, yd) = year_day (secs div 86400); sod = secs mod 86400;
          (mo, d) = month_day (month_lengths y) yd
      in pad_int 4 y @ ''-'' @ pad_int 2 mo @ ''-'' @ pad_int 2 d @ ''T'' @ pad_int 2 (sod div 3600) @ '':'' @
         pad_int 2 (sod mod 3600 div 60) @ '':'' @ pad_int 2 (sod mod 60) @ ''.'' @ pad_int 3 (ns div 1000000) @ ''Z'')"

section \<open>Parsing\<close>

text \<open>\<open>getnum\<close> of package \<open>time\<close>: two digits, or one where the layout allows it.\<close>

definition getnum :: "bool \<Rightarrow> string \<Rightarrow> (int \<times> string) option" where
  "getnum fixed s =
     (case s of
        [] \<Rightarrow> None
      | c # r \<Rightarrow>
          if \<not> is_digit c then None
          else (case r of
                  [] \<Rightarrow> if fixed then None else Some (int (digit_val c), r)
                | d # r2 \<Rightarrow>
                    if is_digit d then Some (10 * int (digit_val c) + int (digit_val d), r2)
                    else if fixed then None else Some (int (digit_val c), r)))"

definition get_year :: "string \<Rightarrow> (int \<times> string) option" where
  "get_year s = (if 4 \<le> length s \<and> list_all is_digit (take 4 s) then Some (int (digits_val (take 4 s)), drop 4 s) else None)"

definition skip_char :: "char \<Rightarrow> string \<Rightarrow> string option" where
  "skip_char c s = (case s of [] \<Rightarrow> None | x # r \<Rightarrow> if x = c then Some r else None)"

text \<open>A number with a bound, after a separator.\<close>

definition get_part :: "char \<Rightarrow> bool \<Rightarrow> int \<Rightarrow> string \<Rightarrow> (int \<times> string) option" where
  "get_part c fixed bound s =
     Option.bind (skip_char c s) (\<lambda>r. Option.bind (getnum fixed r) (\<lambda>(n, r2). if bound \<le> n then None else Some (n, r2)))"

text \<open>The fraction of a second may be left out; digits after the ninth are dropped.\<close>

definition get_fraction :: "string \<Rightarrow> int \<times> string" where
  "get_fraction s =
     (case s of
        p # d # r \<Rightarrow>
          if (p = CHR ''.'' \<or> p = CHR '','') \<and> is_digit d
          then (let ds = takeWhile is_digit (d # r); used = take 9 ds
                in (int (digits_val used * 10 ^ (9 - length used)), dropWhile is_digit (d # r)))
          else (0, s)
      | _ \<Rightarrow> (0, s))"

text \<open>The zone: \<open>Z\<close>, or a sign with hours and minutes; the offset is in seconds.\<close>

definition get_zone :: "string \<Rightarrow> (int \<times> string) option" where
  "get_zone s =
     (case s of
        [] \<Rightarrow> None
      | z # r \<Rightarrow>
          if z = CHR ''Z'' then Some (0, r)
          else if length s < 6 \<or> s ! 3 \<noteq> CHR '':'' then None
          else Option.bind (getnum True (take 2 r)) (\<lambda>(hr, _). Option.bind (getnum True (take 2 (drop 4 s))) (\<lambda>(mm, _).
                 if 24 < hr \<or> 60 < mm then None
                 else if z = CHR ''+'' then Some ((hr * 60 + mm) * 60, drop 6 s)
                 else if z = CHR ''-'' then Some (- ((hr * 60 + mm) * 60), drop 6 s)
                 else None)))"

definition parse_rfc3339 :: "string \<Rightarrow> time option" where
  "parse_rfc3339 s =
     Option.bind (get_year s) (\<lambda>(y, s1).
     Option.bind (get_part (CHR ''-'') True 13 s1) (\<lambda>(mo, s2).
     Option.bind (get_part (CHR ''-'') True 100 s2) (\<lambda>(d, s3).
     Option.bind (get_part (CHR ''T'') False 24 s3) (\<lambda>(h, s4).
     Option.bind (get_part (CHR '':'') True 60 s4) (\<lambda>(mi, s5).
     Option.bind (get_part (CHR '':'') True 60 s5) (\<lambda>(sec, s6).
       (let (ns, s7) = get_fraction s6
        in Option.bind (get_zone s7) (\<lambda>(off, s8).
             if s8 \<noteq> [] \<or> mo < 1 \<or> d < 1 \<or> month_lengths y ! nat (mo - 1) < d then None
             else Some (time_of_date y mo d h mi sec ns - off * 1000000000)))))))))"

text \<open>
  \<open>ParseTimeQuery\<close> tries four layouts. The first, \<open>RFC3339Nano\<close>, accepts what the others accept, as a fraction
  of a second is optional in all but the third.
\<close>

definition ParseTimeQuery :: "string \<Rightarrow> time option" where
  "ParseTimeQuery s0 = (let s = trim_space s0 in if s = [] then None else parse_rfc3339 s)"

section \<open>What is printed parses\<close>

lemma show_nat_two: "10 \<le> n \<Longrightarrow> n < 100 \<Longrightarrow> show_nat n = [digit_char (n div 10), digit_char (n mod 10)]"
  by (subst show_nat.simps, subst show_nat.simps) auto

lemma pad_two: "n < 100 \<Longrightarrow> pad_zero 2 (show_nat n) = [digit_char (n div 10), digit_char (n mod 10)]"
proof (cases "n < 10")
  case True
  have "digit_char 0 = CHR ''0''" by code_simp
  moreover have "show_nat n = [digit_char n]" using True by (subst show_nat.simps) simp
  ultimately show ?thesis using True by (simp add: pad_zero_def)
qed (simp add: show_nat_two pad_zero_def)

lemma getnum_pad: "0 \<le> n \<Longrightarrow> n < 100 \<Longrightarrow> getnum b (pad_int 2 n @ s) = Some (n, s)"
proof -
  assume "0 \<le> n" "n < 100"
  then obtain k where k: "n = int k" "k < 100" by (metis nonneg_int_cases of_nat_less_numeral_iff)
  then have "k div 10 < 10" "k mod 10 < 10" "10 * int (k div 10) + int (k mod 10) = int k" by presburger+
  then show ?thesis using k by (simp add: pad_int_def pad_two getnum_def)
qed

lemma get_part_pad: "0 \<le> n \<Longrightarrow> n < 100 \<Longrightarrow> n < bound \<Longrightarrow> get_part c b bound (c # pad_int 2 n @ s) = Some (n, s)"
  by (simp add: get_part_def skip_char_def getnum_pad)

lemma length_show_nat: "0 < k \<Longrightarrow> n < 10 ^ k \<Longrightarrow> length (show_nat n) \<le> k"
proof (induction k arbitrary: n)
  case (Suc k)
  show ?case
  proof (cases "n < 10")
    case True
    then show ?thesis by (subst show_nat.simps) simp
  next
    case False
    then have "n div 10 < 10 ^ k" "0 < k" using Suc.prems by (auto simp: less_mult_imp_div_less mult.commute) (cases k, auto)
    with Suc.IH [of "n div 10"] False show ?thesis by (subst show_nat.simps) simp
  qed
qed simp

lemma length_pad: "0 < w \<Longrightarrow> n < 10 ^ w \<Longrightarrow> length (pad_zero w (show_nat n)) = w"
  using length_show_nat [of w n] by (simp add: pad_zero_def)

lemma get_year_pad: "0 \<le> n \<Longrightarrow> n < 10000 \<Longrightarrow> get_year (pad_int 4 n @ s) = Some (n, s)"
proof -
  assume n: "0 \<le> n" "n < 10000"
  then have "length (pad_zero 4 (show_nat (nat n))) = 4" by (intro length_pad) auto
  then show ?thesis using n by (simp add: get_year_def pad_int_def pad_zero_digits show_nat_digits)
qed

lemma get_fraction_pad: "0 \<le> n \<Longrightarrow> n < 1000 \<Longrightarrow> get_fraction (CHR ''.'' # pad_int 3 n @ CHR ''Z'' # s) = (n * 1000000, CHR ''Z'' # s)"
proof -
  assume n: "0 \<le> n" "n < 1000"
  define p where "p = pad_zero 3 (show_nat (nat n))"
  have len: "length p = 3" unfolding p_def using n by (intro length_pad) auto
  have dg: "list_all is_digit p" by (simp add: p_def pad_zero_digits show_nat_digits)
  have z: "\<not> is_digit (CHR ''Z'')" by (simp add: is_digit_def)
  obtain a q where p: "p = a # q" "is_digit a" using len dg by (cases p) auto
  have "takeWhile is_digit (p @ CHR ''Z'' # s) = p" "dropWhile is_digit (p @ CHR ''Z'' # s) = CHR ''Z'' # s"
    using dg z by (simp_all add: list_all_iff)
  moreover have "int (digits_val p) = n" using n by (simp add: p_def)
  moreover have "pad_int 3 n = p" using n by (simp add: pad_int_def p_def)
  ultimately show ?thesis using p len by (simp add: get_fraction_def Let_def)
qed

lemma year_start_mono: "y \<le> z \<Longrightarrow> year_start y \<le> year_start z"
proof -
  assume le: "y \<le> z"
  have "(z - 1) div 100 \<le> ((y - 1) + (z - y) * 100) div 100" using le by (intro zdiv_mono1) auto
  also have "\<dots> = (y - 1) div 100 + (z - y)" by (subst div_mult_self1) simp_all
  finally have "(z - 1) div 100 \<le> (y - 1) div 100 + (z - y)" .
  moreover have "(y - 1) div 4 \<le> (z - 1) div 4" "(y - 1) div 400 \<le> (z - 1) div 400" using le by (auto intro: zdiv_mono1)
  ultimately show ?thesis using le by (simp add: year_start_def)
qed

lemma month_lengths_le: "i < 12 \<Longrightarrow> month_lengths y ! i \<le> 31"
  by (auto simp: month_lengths_def nth_Cons split: nat.splits)

text \<open>The parts of a date, and the time they make.\<close>

lemma date_parts:
  assumes dbound: "0 \<le> days" "days < year_start 10000" and yd: "year_day days = (y, yd)" and md: "month_day (month_lengths y) yd = (mo, d)"
  shows "1 \<le> y" "y < 10000" "1 \<le> mo" "mo \<le> 12" "1 \<le> d" "d < 100" "d \<le> month_lengths y ! nat (mo - 1)"
    "year_start y + sum_list (take (nat (mo - 1)) (month_lengths y)) + (d - 1) = days"
proof -
  note st = year_day_start [OF yd]
  have "year_start 0 = - 366" by (simp add: year_start_def)
  moreover have "yd < 366" using st(3) by (simp split: if_splits)
  ultimately show "1 \<le> y" using dbound(1) st(1) year_start_mono [of y 0] by (cases "1 \<le> y") auto
  show "y < 10000" using dbound(2) st(1,2) year_start_mono [of 10000 y] by (cases "y < 10000") auto
  show m: "1 \<le> mo" "mo \<le> 12" "1 \<le> d" "d \<le> month_lengths y ! nat (mo - 1)"
    and "year_start y + sum_list (take (nat (mo - 1)) (month_lengths y)) + (d - 1) = days"
    using month_day_sum [OF md] st by (auto simp: month_lengths_sum)
  have "nat (mo - 1) < 12" using m(2) by simp
  from month_lengths_le [OF this, of y] m(4) show "d < 100" by simp
qed

lemma time_of_parts:
  assumes date: "year_start y + sum_list (take (nat (mo - 1)) (month_lengths y)) + (d - 1) = t div 1000000000 div 86400"
    and sod: "sod = t div 1000000000 mod 86400" and ms: "ms = t mod 1000000000 div 1000000"
  shows "time_of_date y mo d (sod div 3600) (sod mod 3600 div 60) (sod mod 60) (ms * 1000000) = t - t mod 1000000"
proof -
  have "sod mod 3600 mod 60 = sod mod 60" by (simp add: mod_mod_cancel)
  then have "sod mod 3600 div 60 * 60 + sod mod 60 = sod mod 3600" by (metis div_mult_mod_eq)
  moreover have "sod div 3600 * 3600 + sod mod 3600 = sod" "t div 1000000000 div 86400 * 86400 + sod = t div 1000000000" by (simp_all add: sod)
  ultimately have 1: "t div 1000000000 div 86400 * 86400 + sod div 3600 * 3600 + sod mod 3600 div 60 * 60 + sod mod 60 = t div 1000000000"
    by linarith
  have "t mod 1000000000 mod 1000000 = t mod 1000000" by (simp add: mod_mod_cancel)
  then have "ms * 1000000 + t mod 1000000 = t mod 1000000000" unfolding ms by (metis div_mult_mod_eq)
  then have "t div 1000000000 * 1000000000 + ms * 1000000 = t - t mod 1000000" using div_mult_mod_eq [of t 1000000000] by linarith
  then show ?thesis unfolding time_of_date_def Let_def date 1 .
qed

abbreviation printed_time :: "int \<Rightarrow> int \<Rightarrow> int \<Rightarrow> int \<Rightarrow> int \<Rightarrow> string" where
  "printed_time y mo d sod ms \<equiv> pad_int 4 y @ ''-'' @ pad_int 2 mo @ ''-'' @ pad_int 2 d @ ''T'' @ pad_int 2 (sod div 3600) @ '':'' @
    pad_int 2 (sod mod 3600 div 60) @ '':'' @ pad_int 2 (sod mod 60) @ ''.'' @ pad_int 3 ms @ ''Z''"

lemma parse_printed:
  assumes "1 \<le> y" "y < 10000" "1 \<le> mo" "mo \<le> 12" "1 \<le> d" "d < 100" "d \<le> month_lengths y ! nat (mo - 1)"
    and b: "0 \<le> sod" "sod < 86400" "0 \<le> ms" "ms < 1000"
  shows "parse_rfc3339 (printed_time y mo d sod ms) =
    Some (time_of_date y mo d (sod div 3600) (sod mod 3600 div 60) (sod mod 60) (ms * 1000000))"
proof -
  have p: "get_part c b' bound (c # pad_int 2 n @ s) = Some (n, s)" if "0 \<le> n" "n < 100" "n < bound" for c b' bound n s
    using that by (rule get_part_pad)
  have g: "0 \<le> sod div 3600" "sod div 3600 < 24" "0 \<le> sod mod 3600 div 60" "sod mod 3600 div 60 < 60" "0 \<le> sod mod 60" "sod mod 60 < 60"
    using b by auto
  show ?thesis
    unfolding parse_rfc3339_def using assms g
    by (simp add: get_year_pad p get_fraction_pad [of _ "[]", simplified] get_zone_def del: month_lengths_def)
qed

lemma trim_printed:
  assumes "1 \<le> y"
  shows "trim_space (pad_int 4 y @ s @ ''Z'') = pad_int 4 y @ s @ ''Z''"
proof -
  have "pad_zero 4 (show_nat (nat y)) \<noteq> []" by (simp add: pad_zero_nonempty)
  then obtain a u where a: "pad_int 4 y = a # u" "is_digit a"
    using assms pad_zero_digits [OF show_nat_digits, of 4 "nat y"] by (cases "pad_zero 4 (show_nat (nat y))") (auto simp: pad_int_def)
  have "\<not> is_space a" "\<not> is_space (CHR ''Z'')" using a(2) by (auto simp: is_digit_def is_space_def)
  then have "trim_space (a # v @ ''Z'') = a # v @ ''Z''" for v by (rule trim_space_id)
  from this [of "u @ s"] show ?thesis using a(1) by simp
qed

text \<open>
  C37. What the gateway prints for an instant of the years 1 to 9999 is accepted back in a query, and
  means the same instant up to the fraction of a millisecond that the text does not show.
\<close>

theorem time_text_round_trip:
  assumes "0 \<le> t" "t < year_start 10000 * 86400 * 1000000000"
  shows "ParseTimeQuery (FormatTimeUTC t) = Some (t - t mod 1000000)"
proof -
  define days where "days = t div 1000000000 div 86400"
  define sod where "sod = t div 1000000000 mod 86400"
  define ms where "ms = t mod 1000000000 div 1000000"
  obtain y yd where yd: "year_day days = (y, yd)" by (metis surj_pair)
  obtain mo d where md: "month_day (month_lengths y) yd = (mo, d)" by (metis surj_pair)
  have "0 \<le> days" "days < year_start 10000" using assms by (auto simp: days_def year_start_def)
  note m = date_parts [OF this yd md]
  have b: "0 \<le> sod" "sod < 86400" "0 \<le> ms" "ms < 1000" by (auto simp: sod_def ms_def)
  have f: "FormatTimeUTC t = printed_time y mo d sod ms"
    unfolding FormatTimeUTC_def Let_def days_def [symmetric] sod_def [symmetric] ms_def [symmetric] yd md prod.case ..
  have "\<exists>s. printed_time y mo d sod ms = pad_int 4 y @ s @ ''Z''" by (metis append_assoc)
  then have "trim_space (FormatTimeUTC t) = FormatTimeUTC t" unfolding f using trim_printed [OF m(1)] by metis
  moreover have "FormatTimeUTC t \<noteq> []" by (simp add: f)
  moreover have "parse_rfc3339 (FormatTimeUTC t) = Some (t - t mod 1000000)"
    unfolding f parse_printed [OF m(1-7) b] time_of_parts [OF m(8) [unfolded days_def] sod_def ms_def] ..
  ultimately show ?thesis by (simp add: ParseTimeQuery_def)
qed

theorem time_text_round_trip_witness:
  "FormatTimeUTC 63713440425123456789 = ''2020-01-01T01:53:45.123Z'' \<and>
   ParseTimeQuery (FormatTimeUTC 63713440425123456789) = Some 63713440425123000000"
proof -
  have "FormatTimeUTC 63713440425123456789 = ''2020-01-01T01:53:45.123Z''" by code_simp
  then show ?thesis using time_text_round_trip [of 63713440425123456789] by (simp add: year_start_def)
qed

end
