(* ===== verification/OrderApi.thy ===== *)
theory OrderApi
  imports OrderService
begin

text \<open>
  Model of \<open>internal/order/handler\<close>: the gRPC servers of the order service, which hand a request to the
  service of theory \<open>OrderService\<close> and turn its errors into gRPC statuses. The models of the service keep
  the kind of an error and not its text, so the text that goes into a status is an argument. The tests
  for a nil request compare an interface that holds a typed pointer with nil and never succeed; the
  service makes the same test on the pointer.
\<close>

datatype grpc_code =
    CodeCanceled
  | CodeUnknown
  | CodeInvalidArgument
  | CodeDeadlineExceeded
  | CodeNotFound
  | CodeFailedPrecondition
  | CodeInternal
  | CodeUnavailable
  | CodeUnauthenticated

record grpc_status =
  gs_Code :: grpc_code
  gs_Message :: string

abbreviation status_error :: "grpc_code \<Rightarrow> string \<Rightarrow> grpc_status" where
  "status_error c m \<equiv> \<lparr> gs_Code = c, gs_Message = m \<rparr>"

section \<open>Orders\<close>

definition mapOrderError :: "string \<Rightarrow> err \<Rightarrow> grpc_status" where
  "mapOrderError msg e =
     (if e = ErrInvalidArgument then status_error CodeInvalidArgument msg
      else if e = ErrNotFound then status_error CodeNotFound msg
      else if e = ErrFailedPrecondition then status_error CodeFailedPrecondition msg
      else if e = ErrUnavailable then status_error CodeUnavailable msg
      else status_error CodeInternal msg)"

text \<open>The service may be missing.\<close>

definition invokeOrder ::
  "'v option \<Rightarrow> string \<Rightarrow> ('v \<Rightarrow> 's \<Rightarrow> (err + 'r) \<times> 's) \<Rightarrow> 's \<Rightarrow> (grpc_status + 'r) \<times> 's" where
  "invokeOrder svc msg fn st =
     (case svc of
        None \<Rightarrow> (Inl (status_error CodeInternal ''service unavailable''), st)
      | Some sv \<Rightarrow>
          (case fn sv st of
             (Inl e, st1) \<Rightarrow> (Inl (mapOrderError msg e), st1)
           | (Inr resp, st1) \<Rightarrow> (Inr resp, st1)))"

text \<open>All calls but the first leave the cache alone.\<close>

definition on_store :: "('s \<Rightarrow> 'r \<times> 's) \<Rightarrow> 's service_state \<Rightarrow> 'r \<times> 's service_state" where
  "on_store f st = (let (r, s1) = f (fst st) in (r, s1, snd st))"

definition grpc_PlaceOrder ::
  "('d::linordered_idom) libs \<Rightarrow> 's order_store \<Rightarrow> 'd order_service option \<Rightarrow> string \<Rightarrow> place_order_request \<Rightarrow> 's service_state \<Rightarrow>
     (grpc_status + place_order_response) \<times> 's service_state" where
  "grpc_PlaceOrder L S svc msg req = invokeOrder svc msg (\<lambda>sv. PlaceOrder L S sv (Some req))"

definition grpc_CancelOrder ::
  "'s order_store \<Rightarrow> 'd order_service option \<Rightarrow> string \<Rightarrow> uint64 \<times> uint64 \<Rightarrow> 's service_state \<Rightarrow>
     (grpc_status + cancel_order_response) \<times> 's service_state" where
  "grpc_CancelOrder S svc msg req = invokeOrder svc msg (\<lambda>sv. on_store (srv_CancelOrder S sv (Some req)))"

definition grpc_GetOrder ::
  "'d libs \<Rightarrow> 's order_store \<Rightarrow> 'd order_service option \<Rightarrow> string \<Rightarrow> uint64 \<times> uint64 \<Rightarrow> 's service_state \<Rightarrow>
     (grpc_status + order_info) \<times> 's service_state" where
  "grpc_GetOrder L S svc msg req = invokeOrder svc msg (\<lambda>sv. on_store (srv_GetOrder L S (Some req)))"

definition grpc_ListOrders ::
  "'d libs \<Rightarrow> 's order_store \<Rightarrow> 'd order_service option \<Rightarrow> string \<Rightarrow> list_orders_request \<Rightarrow> 's service_state \<Rightarrow>
     (grpc_status + order_info list) \<times> 's service_state" where
  "grpc_ListOrders L S svc msg req = invokeOrder svc msg (\<lambda>sv. on_store (srv_ListOrders L S (Some req)))"

definition grpc_ListTrades ::
  "'d libs \<Rightarrow> 's order_store \<Rightarrow> 'd order_service option \<Rightarrow> string \<Rightarrow> list_trades_request \<Rightarrow> 's service_state \<Rightarrow>
     (grpc_status + trade_info list) \<times> 's service_state" where
  "grpc_ListTrades L S svc msg req = invokeOrder svc msg (\<lambda>sv. on_store (srv_ListTrades L S (Some req)))"

section \<open>Balances\<close>

definition mapBalanceError :: "string \<Rightarrow> err \<Rightarrow> grpc_status" where
  "mapBalanceError msg e =
     (if e = ErrInvalidArgument then status_error CodeInvalidArgument msg
      else if e = ErrNotFound then status_error CodeNotFound msg
      else if e = ErrFailedPrecondition then status_error CodeFailedPrecondition msg
      else if e = ErrInsufficientBalance then status_error CodeFailedPrecondition msg
      else status_error CodeInternal msg)"

definition invokeBalance :: "bool \<Rightarrow> string \<Rightarrow> ('s \<Rightarrow> (err + 'r) \<times> 's) \<Rightarrow> 's \<Rightarrow> (grpc_status + 'r) \<times> 's" where
  "invokeBalance configured msg fn st =
     (if \<not> configured then (Inl (status_error CodeInternal ''balance service unavailable''), st)
      else (case fn st of
              (Inl e, st1) \<Rightarrow> (Inl (mapBalanceError msg e), st1)
            | (Inr resp, st1) \<Rightarrow> (Inr resp, st1)))"

definition grpc_GetBalance ::
  "('d::linordered_idom) libs \<Rightarrow> bool \<Rightarrow> string \<Rightarrow> uint64 \<times> string \<Rightarrow> 'd db service_state \<Rightarrow> (grpc_status + balance_pb) \<times> 'd db service_state" where
  "grpc_GetBalance L configured msg req = invokeBalance configured msg (on_store (srv_GetBalance L (Some req)))"

definition grpc_ListBalances ::
  "('d::linordered_idom) libs \<Rightarrow> bool \<Rightarrow> string \<Rightarrow> uint64 \<Rightarrow> 'd db service_state \<Rightarrow> (grpc_status + balance_pb list) \<times> 'd db service_state" where
  "grpc_ListBalances L configured msg u = invokeBalance configured msg (on_store (srv_ListBalances L (Some u)))"

definition grpc_UpdateBalance ::
  "('d::linordered_idom) libs \<Rightarrow> bool \<Rightarrow> string \<Rightarrow> update_balance_request \<Rightarrow> 'd db service_state \<Rightarrow>
     (grpc_status + balance_pb) \<times> 'd db service_state" where
  "grpc_UpdateBalance L configured msg req = invokeBalance configured msg (on_store (srv_UpdateBalance L (Some req)))"

section \<open>The check at the start of the matching service\<close>

record order_status_ref =
  sr_OrderId :: uint64
  sr_Found :: bool
  sr_Status :: string

definition admin_ListReconcileOrders :: "bool \<Rightarrow> string \<Rightarrow> string \<Rightarrow> 'd db \<Rightarrow> (grpc_status + (uint64 \<times> string) list) \<times> 'd db" where
  "admin_ListReconcileOrders configured msg symbol0 db =
     (let symbol = trim_space symbol0
      in if \<not> configured then (Inl (status_error CodeUnavailable ''repository not configured''), db)
         else if symbol = [] then (Inl (status_error CodeInvalidArgument ''symbol is required''), db)
         else (case ListReconcileOrders symbol db of
                 (Inl e, db1) \<Rightarrow> (Inl (status_error CodeInternal (''list reconcile orders: '' @ msg)), db1)
               | (Inr rows, db1) \<Rightarrow> (Inr rows, db1)))"

definition admin_GetOrderStatuses ::
  "bool \<Rightarrow> string \<Rightarrow> string \<Rightarrow> uint64 list \<Rightarrow> 'd db \<Rightarrow> (grpc_status + order_status_ref list) \<times> 'd db" where
  "admin_GetOrderStatuses configured msg symbol0 ids db =
     (let symbol = trim_space symbol0
      in if \<not> configured then (Inl (status_error CodeUnavailable ''repository not configured''), db)
         else if symbol = [] then (Inl (status_error CodeInvalidArgument ''symbol is required''), db)
         else (case GetOrderStatuses symbol ids db of
                 (Inl e, db1) \<Rightarrow> (Inl (status_error CodeInternal (''get order statuses: '' @ msg)), db1)
               | (Inr statuses, db1) \<Rightarrow>
                   (Inr (map (\<lambda>i. \<lparr> sr_OrderId = i, sr_Found = statuses i \<noteq> None, sr_Status = (case statuses i of None \<Rightarrow> [] | Some s \<Rightarrow> s) \<rparr>) ids),
                    db1)))"

text \<open>The client of the matching service keeps the statuses that were found.\<close>

definition client_GetOrderStatuses :: "order_status_ref list \<Rightarrow> (uint64 \<rightharpoonup> string)" where
  "client_GetOrderStatuses refs = fold (\<lambda>o1 m. if sr_Found o1 then m(sr_OrderId o1 \<mapsto> sr_Status o1) else m) refs Map.empty"

end
