(* ===== verification/Gateway.thy ===== *)
theory Gateway
  imports OrderApi AuthTokens TimeText MarketServer KlineService IndexPrice
begin

text \<open>
  Model of \<open>internal/gateway\<close>: the router with its table of scopes, the middleware, the handlers that turn an
  HTTP request into calls of the other services and their answers into JSON (\<open>handler\<close>, \<open>convert\<close>), and the
  mapping of gRPC statuses (\<open>grpcerr\<close>). The gRPC clients are a record of functions over the state of the
  services; theory \<open>GatewayProps\<close> gives the instance that calls the models of the services. JSON is a
  parameter where it is read and a record per object where it is written. Error messages keep their fixed
  part.
\<close>

section \<open>Requests and answers\<close>

text \<open>\<open>hq_Query k\<close> is the first value of a query parameter, empty if there is none; the path needs no unescaping.\<close>

record rest_request =
  hq_Method :: string
  hq_Path :: string
  hq_RequestID :: string
  hq_Authorization :: string
  hq_UserID :: string
  hq_IfNoneMatch :: string
  hq_Query :: "string \<Rightarrow> string"
  hq_Body :: bytes

record place_order_data =
  pd_OrderID :: string
  pd_ClientOrderID :: string
  pd_Symbol :: string
  pd_Status :: string
  pd_CreatedAt :: string

record cancel_order_data =
  cd_OrderID :: string
  cd_Status :: string
  cd_UpdatedAt :: string

record order_json =
  oj_OrderID :: string
  oj_ClientOrderID :: string
  oj_Symbol :: string
  oj_Side :: string
  oj_Type :: string
  oj_Price :: string
  oj_Quantity :: string
  oj_FilledQuantity :: string
  oj_AvgPrice :: string
  oj_Status :: string
  oj_TimeInForce :: string
  oj_CreatedAt :: string
  oj_UpdatedAt :: string

record rest_trade_json =
  tj_TradeID :: string
  tj_OrderID :: string
  tj_Symbol :: string
  tj_Side :: string
  tj_Price :: string
  tj_Quantity :: string
  tj_Fee :: string
  tj_FeeAsset :: string
  tj_IsMaker :: bool
  tj_TradedAt :: string

record balance_json =
  bj_Asset :: string
  bj_Balance :: string
  bj_Frozen :: string
  bj_Available :: string

record rest_depth_json =
  dj_Symbol :: string
  dj_LastUpdateID :: string
  dj_Bids :: "(string \<times> string) list"
  dj_Asks :: "(string \<times> string) list"
  dj_Timestamp :: string

record rest_ticker_json =
  kj_Symbol :: string
  kj_LastPrice :: string
  kj_OpenPrice :: string
  kj_HighPrice :: string
  kj_LowPrice :: string
  kj_Volume :: string
  kj_QuoteVolume :: string
  kj_PriceChangePercent :: string
  kj_Timestamp :: string

record ticker_item_json =
  ik_Symbol :: string
  ik_LastPrice :: string
  ik_Volume :: string
  ik_QuoteVolume :: string
  ik_PriceChangePercent :: string
  ik_Timestamp :: string

record symbol_json =
  sj_Symbol :: string
  sj_BaseAsset :: string
  sj_QuoteAsset :: string
  sj_PricePrecision :: int
  sj_QuantityPrecision :: int
  sj_MinQuantity :: string
  sj_MinNotional :: string
  sj_Status :: string
  sj_AssetPrecisions :: "(int \<times> int) option"

record kline_json =
  lj_OpenTime :: string
  lj_CloseTime :: string
  lj_Open :: string
  lj_High :: string
  lj_Low :: string
  lj_Close :: string
  lj_Volume :: string
  lj_IsClosed :: bool

record index_price_json =
  xj_Symbol :: string
  xj_Price :: string
  xj_Sources :: "string list"
  xj_Stale :: bool
  xj_Timestamp :: string

datatype rest_data =
    NoData
  | HealthData
  | TimeData string int
  | PlacedData place_order_data
  | CanceledData cancel_order_data
  | OrderData order_json
  | OrdersData "order_json list" bool
  | TradesData "rest_trade_json list" bool
  | BalanceData balance_json
  | BalancesData "balance_json list"
  | DepthData rest_depth_json
  | TickerData rest_ticker_json
  | TickersData "rest_ticker_json list"
  | TickerAllData string nat "ticker_item_json list" "string option"
  | SymbolsData "symbol_json list"
  | KlinesData "kline_json list"
  | IndexData index_price_json

record rest_envelope =
  re_Code :: int
  re_Message :: string
  re_RequestID :: string
  re_Data :: rest_data

text \<open>The answers of the router itself and \<open>304\<close> have no envelope.\<close>

record rest_response =
  rr_Status :: nat
  rr_RequestID :: string
  rr_Headers :: "(string \<times> string) list"
  rr_Envelope :: "rest_envelope option"

record rest_ctx =
  cx_RequestID :: string
  cx_UserID :: uint64
  cx_Claims :: "claims option"

definition WriteOK :: "rest_ctx \<Rightarrow> nat \<Rightarrow> rest_data \<Rightarrow> rest_response" where
  "WriteOK ctx status dat =
     \<lparr> rr_Status = status, rr_RequestID = cx_RequestID ctx, rr_Headers = [],
       rr_Envelope = Some \<lparr> re_Code = 0, re_Message = ''ok'', re_RequestID = cx_RequestID ctx, re_Data = dat \<rparr> \<rparr>"

definition WriteError :: "rest_ctx \<Rightarrow> nat \<Rightarrow> int \<Rightarrow> string \<Rightarrow> rest_response" where
  "WriteError ctx status code msg =
     \<lparr> rr_Status = status, rr_RequestID = cx_RequestID ctx, rr_Headers = [],
       rr_Envelope = Some \<lparr> re_Code = code, re_Message = msg, re_RequestID = cx_RequestID ctx, re_Data = NoData \<rparr> \<rparr>"

definition bare_response :: "rest_ctx \<Rightarrow> nat \<Rightarrow> (string \<times> string) list \<Rightarrow> rest_response" where
  "bare_response ctx status hs = \<lparr> rr_Status = status, rr_RequestID = cx_RequestID ctx, rr_Headers = hs, rr_Envelope = None \<rparr>"

section \<open>Errors\<close>

record api_error =
  ae_HTTPStatus :: nat
  ae_Code :: int
  ae_Message :: string

fun str_contains :: "string \<Rightarrow> string \<Rightarrow> bool" where
  "str_contains [] p = (p = [])"
| "str_contains (c # s) p = (has_prefix (c # s) p \<or> str_contains s p)"

definition mapFailedPrecondition :: "string \<Rightarrow> api_error" where
  "mapFailedPrecondition msg =
     (let lower = to_lower msg
      in if str_contains lower ''insufficient'' \<or> str_contains lower ''balance''
         then \<lparr> ae_HTTPStatus = 422, ae_Code = 42201, ae_Message = msg \<rparr>
         else if str_contains lower ''cancel'' then \<lparr> ae_HTTPStatus = 422, ae_Code = 42202, ae_Message = msg \<rparr>
         else \<lparr> ae_HTTPStatus = 422, ae_Code = 42201, ae_Message = msg \<rparr>)"

definition Map_status :: "grpc_status \<Rightarrow> api_error" where
  "Map_status st =
     (let msg = gs_Message st
      in case gs_Code st of
           CodeInvalidArgument \<Rightarrow> \<lparr> ae_HTTPStatus = 400, ae_Code = 40000, ae_Message = msg \<rparr>
         | CodeUnauthenticated \<Rightarrow> \<lparr> ae_HTTPStatus = 401, ae_Code = 40100, ae_Message = msg \<rparr>
         | CodeNotFound \<Rightarrow> \<lparr> ae_HTTPStatus = 404, ae_Code = 40400, ae_Message = msg \<rparr>
         | CodeFailedPrecondition \<Rightarrow> mapFailedPrecondition msg
         | CodeUnavailable \<Rightarrow> \<lparr> ae_HTTPStatus = 503, ae_Code = 50300, ae_Message = msg \<rparr>
         | _ \<Rightarrow> \<lparr> ae_HTTPStatus = 500, ae_Code = 50000, ae_Message = msg \<rparr>)"

definition BadRequest :: "string \<Rightarrow> api_error" where
  "BadRequest msg = \<lparr> ae_HTTPStatus = 400, ae_Code = 40000, ae_Message = msg \<rparr>"

definition write_api :: "rest_ctx \<Rightarrow> api_error \<Rightarrow> rest_response" where
  "write_api ctx e = WriteError ctx (ae_HTTPStatus e) (ae_Code e) (ae_Message e)"

abbreviation bad_request :: "rest_ctx \<Rightarrow> string \<Rightarrow> rest_response" where
  "bad_request ctx msg \<equiv> write_api ctx (BadRequest msg)"

text \<open>A handler calls a service and shows its answer or its status.\<close>

definition answer_call :: "rest_ctx \<Rightarrow> ('r \<Rightarrow> rest_response) \<Rightarrow> (grpc_status + 'r) \<times> 's \<Rightarrow> rest_response \<times> 's" where
  "answer_call ctx f res = (case res of (Inl st, s) \<Rightarrow> (write_api ctx (Map_status st), s) | (Inr resp, s) \<Rightarrow> (f resp, s))"

text \<open>Checks of a request stop at the first error.\<close>

definition check_bind :: "string + 'a \<Rightarrow> ('a \<Rightarrow> string + 'b) \<Rightarrow> string + 'b" where
  "check_bind x f = (case x of Inl e \<Rightarrow> Inl e | Inr a \<Rightarrow> f a)"

lemma check_bind_simps [simp]: "check_bind (Inl e) f = Inl e" "check_bind (Inr a) f = f a"
  by (simp_all add: check_bind_def)

lemma check_bind_Inr: "check_bind x f = Inr b \<longleftrightarrow> (\<exists>a. x = Inr a \<and> f a = Inr b)"
  by (simp add: check_bind_def split: sum.split)

section \<open>The user\<close>

definition parseUserIDString :: "string \<Rightarrow> string + uint64" where
  "parseUserIDString s =
     (case parse_uint64 s of
        None \<Rightarrow> Inl ''invalid user_id''
      | Some n \<Rightarrow> if n = 0 then Inl ''invalid user_id'' else Inr (of_nat n))"

definition parseUserIDHeaderOrQuery :: "rest_request \<Rightarrow> string + uint64" where
  "parseUserIDHeaderOrQuery rq =
     (let h = trim_space (hq_UserID rq); q = trim_space (hq_Query rq ''user_id'')
      in if h \<noteq> [] then parseUserIDString h
         else if q \<noteq> [] then parseUserIDString q
         else Inl ''user_id is required'')"

definition ResolveUserID :: "rest_ctx \<Rightarrow> rest_request \<Rightarrow> uint64 \<Rightarrow> string + uint64" where
  "ResolveUserID ctx rq fromBody =
     (if 0 < fromBody then Inr fromBody
      else if 0 < cx_UserID ctx then Inr (cx_UserID ctx)
      else parseUserIDHeaderOrQuery rq)"

section \<open>Conversions\<close>

definition ParseSide :: "string \<Rightarrow> string + int" where
  "ParseSide s =
     (let u = to_upper (trim_space s)
      in if u = ''BUY'' then Inr Side_SIDE_BUY else if u = ''SELL'' then Inr Side_SIDE_SELL else Inl ''side must be BUY or SELL'')"

definition SideToString :: "int \<Rightarrow> string" where
  "SideToString s = (if s = Side_SIDE_BUY then ''BUY'' else if s = Side_SIDE_SELL then ''SELL'' else [])"

definition ParseOrderType :: "string \<Rightarrow> string + int" where
  "ParseOrderType s =
     (let u = to_upper (trim_space s)
      in if u = ''LIMIT'' then Inr OrderType_LIMIT else if u = ''MARKET'' then Inr OrderType_MARKET else Inl ''type must be LIMIT or MARKET'')"

definition OrderTypeToString :: "int \<Rightarrow> string" where
  "OrderTypeToString t = (if t = OrderType_LIMIT then ''LIMIT'' else if t = OrderType_MARKET then ''MARKET'' else [])"

definition DecimalFromString :: "string \<Rightarrow> string + pb_decimal" where
  "DecimalFromString s0 = (let s = trim_space s0 in if s = [] then Inl ''decimal value is required'' else Inr (Some s))"

definition DecimalToString :: "pb_decimal \<Rightarrow> string" where
  "DecimalToString d = (case d of None \<Rightarrow> [] | Some s \<Rightarrow> trim_space s)"

definition OrderIDToString :: "uint64 \<Rightarrow> string" where
  "OrderIDToString i = show_nat (unat i)"

definition ParseOrderID :: "string \<Rightarrow> string + uint64" where
  "ParseOrderID s0 =
     (let s = trim_space s0
      in if s = [] then Inl ''order_id is required''
         else (case parse_uint64 s of None \<Rightarrow> Inl ''order_id must be a decimal uint64'' | Some n \<Rightarrow> Inr (of_nat n)))"

text \<open>A protobuf timestamp is valid within the years 1 to 9999.\<close>

definition ts_valid :: "tstamp \<Rightarrow> bool" where
  "ts_valid ts \<longleftrightarrow> - 62135596800 \<le> fst ts \<and> fst ts \<le> 253402300799 \<and> 0 \<le> snd ts \<and> snd ts < 1000000000"

definition FormatTimestamp :: "'d libs \<Rightarrow> tstamp \<Rightarrow> string" where
  "FormatTimestamp L ts = (if \<not> ts_valid ts then [] else FormatTimeUTC (ts_as_time L (Some ts)))"

definition format_pb_time :: "'d libs \<Rightarrow> tstamp option \<Rightarrow> string" where
  "format_pb_time L ts = FormatTimeUTC (ts_as_time L ts)"

fun status_parts :: "string set \<Rightarrow> string list \<Rightarrow> string list" where
  "status_parts seen [] = []"
| "status_parts seen (p0 # ps) =
     (let p = trim_space (to_upper p0)
      in if p = [] then status_parts seen ps
         else if p \<in> seen then status_parts seen ps
         else p # status_parts (insert p seen) ps)"

definition ParseStatusList :: "string \<Rightarrow> string list" where
  "ParseStatusList s0 = (let s = trim_space s0 in if s = [] then [] else status_parts {} (split_on (CHR '','') s))"

definition PlaceOrderResponseFromPB :: "'d libs \<Rightarrow> place_order_response \<Rightarrow> place_order_data" where
  "PlaceOrderResponseFromPB L r =
     \<lparr> pd_OrderID = OrderIDToString (pp_OrderId r), pd_ClientOrderID = pp_ClientOrderId r, pd_Symbol = pp_Symbol r,
       pd_Status = pp_Status r, pd_CreatedAt = FormatTimestamp L (pp_CreatedAt r) \<rparr>"

definition CancelOrderResponseFromPB :: "cancel_order_response \<Rightarrow> cancel_order_data" where
  "CancelOrderResponseFromPB r = \<lparr> cd_OrderID = OrderIDToString (cr_OrderId r), cd_Status = cr_Status r, cd_UpdatedAt = [] \<rparr>"

definition OrderFromPB :: "'d libs \<Rightarrow> order_info \<Rightarrow> order_json" where
  "OrderFromPB L x =
     \<lparr> oj_OrderID = OrderIDToString (oi_OrderId x), oj_ClientOrderID = oi_ClientOrderId x, oj_Symbol = oi_Symbol x,
       oj_Side = SideToString (oi_Side x), oj_Type = OrderTypeToString (oi_Type x), oj_Price = DecimalToString (oi_Price x),
       oj_Quantity = DecimalToString (oi_Quantity x), oj_FilledQuantity = DecimalToString (oi_FilledQuantity x), oj_AvgPrice = [],
       oj_Status = oi_Status x, oj_TimeInForce = [], oj_CreatedAt = FormatTimestamp L (oi_CreatedAt x),
       oj_UpdatedAt = FormatTimestamp L (oi_UpdatedAt x) \<rparr>"

definition FilterOrdersByStatus :: "order_json list \<Rightarrow> string list \<Rightarrow> order_json list" where
  "FilterOrdersByStatus xs statuses = (if statuses = [] then xs else filter (\<lambda>x. oj_Status x \<in> set statuses) xs)"

definition TradeFromPB :: "'d libs \<Rightarrow> trade_info \<Rightarrow> rest_trade_json" where
  "TradeFromPB L t =
     \<lparr> tj_TradeID = OrderIDToString (ti_TradeId t),
       tj_OrderID = OrderIDToString (if ti_OrderId t = 0 then ti_TakerOrderId t else ti_OrderId t), tj_Symbol = ti_Symbol t,
       tj_Side = ti_Side t, tj_Price = DecimalToString (ti_Price t), tj_Quantity = DecimalToString (ti_Quantity t), tj_Fee = ''0'',
       tj_FeeAsset = [], tj_IsMaker = ti_IsMaker t, tj_TradedAt = FormatTimestamp L (ti_CreatedAt t) \<rparr>"

definition GetBalanceResponseFromPB :: "balance_pb \<Rightarrow> balance_json" where
  "GetBalanceResponseFromPB b =
     \<lparr> bj_Asset = bp_Asset b, bj_Balance = DecimalToString (bp_Balance b), bj_Frozen = DecimalToString (bp_Frozen b),
       bj_Available = DecimalToString (bp_Available b) \<rparr>"

definition price_levels :: "(string \<times> string) list \<Rightarrow> (string \<times> string) list" where
  "price_levels lvs = map (\<lambda>(p, q). (trim_space p, trim_space q)) lvs"

definition pbDepthToJSON :: "'d libs \<Rightarrow> pb_book_response \<Rightarrow> rest_depth_json" where
  "pbDepthToJSON L r =
     \<lparr> dj_Symbol = gb_Symbol r, dj_LastUpdateID = show_nat (unat (gb_LastUpdateId r)), dj_Bids = price_levels (gb_Bids r),
       dj_Asks = price_levels (gb_Asks r), dj_Timestamp = format_pb_time L (Some (gb_Timestamp r)) \<rparr>"

text \<open>A ticker that is missing shows as its zero value.\<close>

definition pbTickerToJSON :: "'d libs \<Rightarrow> pb_ticker option \<Rightarrow> rest_ticker_json" where
  "pbTickerToJSON L to =
     (case to of
        None \<Rightarrow> \<lparr> kj_Symbol = [], kj_LastPrice = [], kj_OpenPrice = [], kj_HighPrice = [], kj_LowPrice = [], kj_Volume = [],
                  kj_QuoteVolume = [], kj_PriceChangePercent = [], kj_Timestamp = format_pb_time L None \<rparr>
      | Some t \<Rightarrow>
          \<lparr> kj_Symbol = gt_Symbol t, kj_LastPrice = trim_space (gt_LastPrice t), kj_OpenPrice = trim_space (gt_OpenPrice t),
            kj_HighPrice = trim_space (gt_HighPrice t), kj_LowPrice = trim_space (gt_LowPrice t), kj_Volume = trim_space (gt_Volume t),
            kj_QuoteVolume = trim_space (gt_QuoteVolume t), kj_PriceChangePercent = trim_space (gt_PriceChangePercent t),
            kj_Timestamp = format_pb_time L (Some (gt_Timestamp t)) \<rparr>)"

fun GetTickerField :: "pb_ticker_response \<Rightarrow> pb_ticker option" where
  "GetTickerField (OneTicker t) = Some t"
| "GetTickerField (TickerItems ts) = None"

fun GetItemsField :: "pb_ticker_response \<Rightarrow> pb_ticker list" where
  "GetItemsField (OneTicker t) = []"
| "GetItemsField (TickerItems ts) = ts"

definition pbTickerAllItemToJSON :: "'d libs \<Rightarrow> pb_ticker_all_item \<Rightarrow> ticker_item_json" where
  "pbTickerAllItemToJSON L i =
     \<lparr> ik_Symbol = gi_Symbol i, ik_LastPrice = trim_space (gi_LastPrice i), ik_Volume = trim_space (gi_Volume i),
       ik_QuoteVolume = trim_space (gi_QuoteVolume i), ik_PriceChangePercent = trim_space (gi_PriceChangePercent i),
       ik_Timestamp = format_pb_time L (Some (gi_Timestamp i)) \<rparr>"

definition filterTickerAllItems :: "'d libs \<Rightarrow> pb_ticker_all_item list \<Rightarrow> 'd registry option \<Rightarrow> string \<Rightarrow> ticker_item_json list" where
  "filterTickerAllItems L xs rules status =
     (let wantStatus = to_upper (trim_space status)
      in map (pbTickerAllItemToJSON L)
           (filter (\<lambda>i. \<not> (rules \<noteq> None \<and> wantStatus \<noteq> []) \<or>
                       (case Lookup rules (gi_Symbol i) of Inl e \<Rightarrow> False | Inr sp \<Rightarrow> to_upper (sp_Status sp) = wantStatus)) xs))"

definition setTickerAllSnapshotHeaders :: "'d libs \<Rightarrow> string \<Rightarrow> tstamp option \<Rightarrow> (string \<times> string) list" where
  "setTickerAllSnapshotHeaders L snapshotID snapshotTime =
     (if snapshotID \<noteq> [] then [(''X-Snapshot-Id'', snapshotID)] else []) @
     (if snapshotTime \<noteq> None then [(''X-Snapshot-Time'', format_pb_time L snapshotTime)] else [])"

definition symbolSpecToJSON :: "'d libs \<Rightarrow> 'd spec \<Rightarrow> asset_registry option \<Rightarrow> symbol_json" where
  "symbolSpecToJSON L sp assets =
     \<lparr> sj_Symbol = sp_Symbol sp, sj_BaseAsset = sp_BaseAsset sp, sj_QuoteAsset = sp_QuoteAsset sp,
       sj_PricePrecision = sp_PricePrecision sp, sj_QuantityPrecision = sp_QuantityPrecision sp,
       sj_MinQuantity = dec_to_string L (sp_MinQuantity sp), sj_MinNotional = dec_to_string L (sp_MinNotional sp),
       sj_Status = sp_Status sp,
       sj_AssetPrecisions = (if assets = None then None else Some (Precision assets (sp_BaseAsset sp), Precision assets (sp_QuoteAsset sp))) \<rparr>"

definition pbKlineToJSON :: "'d libs \<Rightarrow> pb_kline \<Rightarrow> kline_json" where
  "pbKlineToJSON L k =
     \<lparr> lj_OpenTime = format_pb_time L (Some (pk_OpenTime k)), lj_CloseTime = format_pb_time L (Some (pk_CloseTime k)),
       lj_Open = trim_space (pk_Open k), lj_High = trim_space (pk_High k), lj_Low = trim_space (pk_Low k),
       lj_Close = trim_space (pk_Close k), lj_Volume = trim_space (pk_Volume k), lj_IsClosed = pk_IsClosed k \<rparr>"

definition pbIndexPriceToJSON :: "'d libs \<Rightarrow> pb_index_price \<Rightarrow> index_price_json" where
  "pbIndexPriceToJSON L p =
     \<lparr> xj_Symbol = px_Symbol p, xj_Price = trim_space (px_Price p), xj_Sources = px_Sources p, xj_Stale = px_Stale p,
       xj_Timestamp = format_pb_time L (Some (px_UpdatedAt p)) \<rparr>"

section \<open>The clients and the configuration\<close>

record 's gateway_clients =
  gc_PlaceOrder :: "place_order_request \<Rightarrow> 's \<Rightarrow> (grpc_status + place_order_response) \<times> 's"
  gc_CancelOrder :: "uint64 \<times> uint64 \<Rightarrow> 's \<Rightarrow> (grpc_status + cancel_order_response) \<times> 's"
  gc_GetOrder :: "uint64 \<times> uint64 \<Rightarrow> 's \<Rightarrow> (grpc_status + order_info) \<times> 's"
  gc_ListOrders :: "list_orders_request \<Rightarrow> 's \<Rightarrow> (grpc_status + order_info list) \<times> 's"
  gc_ListTrades :: "list_trades_request \<Rightarrow> 's \<Rightarrow> (grpc_status + trade_info list) \<times> 's"
  gc_UpdateBalance :: "update_balance_request \<Rightarrow> 's \<Rightarrow> (grpc_status + balance_pb) \<times> 's"
  gc_ListBalances :: "uint64 \<Rightarrow> 's \<Rightarrow> (grpc_status + balance_pb list) \<times> 's"
  gc_GetBalance :: "uint64 \<times> string \<Rightarrow> 's \<Rightarrow> (grpc_status + balance_pb) \<times> 's"
  gc_GetOrderBook :: "string \<times> int \<Rightarrow> 's \<Rightarrow> (grpc_status + pb_book_response) \<times> 's"
  gc_GetTicker :: "string \<times> string list \<Rightarrow> 's \<Rightarrow> (grpc_status + pb_ticker_response) \<times> 's"
  gc_GetTickerAllSnapshot :: "string \<times> string \<Rightarrow> 's \<Rightarrow> (grpc_status + pb_ticker_all_response) \<times> 's"
  gc_GetKlines :: "(get_klines_request \<Rightarrow> 's \<Rightarrow> (grpc_status + pb_kline list) \<times> 's) option"
  gc_GetIndexPrice :: "string \<Rightarrow> 's \<Rightarrow> (grpc_status + pb_index_price option) \<times> 's"

record place_order_body =
  yb_UserID :: uint64
  yb_ClientOrderID :: string
  yb_Symbol :: string
  yb_Side :: string
  yb_Type :: string
  yb_Price :: string
  yb_Quantity :: string

record update_balance_body =
  zb_UserID :: uint64
  zb_Asset :: string
  zb_Business :: string
  zb_BusinessID :: uint64
  zb_Change :: string

text \<open>What a decoder finds in a body of at most \<open>maxOrderBodyBytes\<close>: nothing, an error, one object, or something after it.\<close>

datatype 'a json_in = JsonEOF | JsonError string | JsonValue 'a | JsonMore 'a

record 'd gateway_env =
  ge_libs :: "'d libs"
  ge_jwt :: jwt_lib
  ge_Verifier :: verifier
  ge_PlaceBody :: "bytes \<Rightarrow> place_order_body json_in"
  ge_BalanceBody :: "bytes \<Rightarrow> update_balance_body json_in"
  ge_Symbols :: "'d registry option"
  ge_Assets :: "asset_registry option"

fun decodeJSON :: "'a json_in \<Rightarrow> string + 'a" where
  "decodeJSON JsonEOF = Inl ''request body is required''"
| "decodeJSON (JsonError e) = Inl e"
| "decodeJSON (JsonMore a) = Inl ''request body must be a single JSON object''"
| "decodeJSON (JsonValue a) = Inr a"

section \<open>Orders\<close>

text \<open>What a handler makes of a request before it calls the service.\<close>

definition place_order_of :: "'d gateway_env \<Rightarrow> rest_ctx \<Rightarrow> rest_request \<Rightarrow> string + place_order_request" where
  "place_order_of E ctx rq =
     check_bind (decodeJSON (ge_PlaceBody E (hq_Body rq))) (\<lambda>body.
     check_bind (ResolveUserID ctx rq (yb_UserID body)) (\<lambda>userID.
     check_bind (ParseSide (yb_Side body)) (\<lambda>side.
     check_bind (ParseOrderType (yb_Type body)) (\<lambda>typ.
     check_bind (map_sum (\<lambda>e. ''quantity: '' @ e) id (DecimalFromString (yb_Quantity body))) (\<lambda>qty.
     check_bind (if typ = OrderType_LIMIT then map_sum (\<lambda>e. ''price: '' @ e) id (DecimalFromString (yb_Price body)) else Inr None) (\<lambda>price.
       Inr \<lparr> pr_UserId = userID, pr_ClientOrderId = trim_space (yb_ClientOrderID body), pr_Symbol = trim_space (yb_Symbol body),
             pr_Side = side, pr_Type = typ, pr_Quantity = qty, pr_Price = price \<rparr>))))))"

definition gw_PlaceOrder :: "'d gateway_env \<Rightarrow> 's gateway_clients \<Rightarrow> rest_ctx \<Rightarrow> rest_request \<Rightarrow> 's \<Rightarrow> rest_response \<times> 's" where
  "gw_PlaceOrder E G ctx rq s =
     (case place_order_of E ctx rq of
        Inl e \<Rightarrow> (bad_request ctx e, s)
      | Inr req \<Rightarrow>
          answer_call ctx (\<lambda>resp. WriteOK ctx (if pp_IdempotentHit resp then 200 else 201) (PlacedData (PlaceOrderResponseFromPB (ge_libs E) resp)))
            (gc_PlaceOrder G req s))"

definition user_order_of :: "rest_ctx \<Rightarrow> rest_request \<Rightarrow> string \<Rightarrow> string + uint64 \<times> uint64" where
  "user_order_of ctx rq param =
     check_bind (ResolveUserID ctx rq 0) (\<lambda>userID. check_bind (ParseOrderID param) (\<lambda>orderID. Inr (userID, orderID)))"

text \<open>A symbol in the query that is not that of the order is only logged.\<close>

definition gw_CancelOrder :: "'s gateway_clients \<Rightarrow> rest_ctx \<Rightarrow> rest_request \<Rightarrow> string \<Rightarrow> 's \<Rightarrow> rest_response \<times> 's" where
  "gw_CancelOrder G ctx rq param s =
     (case user_order_of ctx rq param of
        Inl e \<Rightarrow> (bad_request ctx e, s)
      | Inr req \<Rightarrow> answer_call ctx (\<lambda>resp. WriteOK ctx 200 (CanceledData (CancelOrderResponseFromPB resp))) (gc_CancelOrder G req s))"

definition gw_GetOrder :: "'d gateway_env \<Rightarrow> 's gateway_clients \<Rightarrow> rest_ctx \<Rightarrow> rest_request \<Rightarrow> string \<Rightarrow> 's \<Rightarrow> rest_response \<times> 's" where
  "gw_GetOrder E G ctx rq param s =
     (case user_order_of ctx rq param of
        Inl e \<Rightarrow> (bad_request ctx e, s)
      | Inr req \<Rightarrow> answer_call ctx (\<lambda>resp. WriteOK ctx 200 (OrderData (OrderFromPB (ge_libs E) resp))) (gc_GetOrder G req s))"

text \<open>\<open>limit\<close> is cut to 200 and then to 100.\<close>

definition page_limit :: "string \<Rightarrow> string + int" where
  "page_limit limit0 =
     (let limitStr = trim_space limit0
      in if limitStr = [] then Inr 50
         else (case atoi limitStr of
                 None \<Rightarrow> Inl ''limit must be a positive integer''
               | Some n \<Rightarrow>
                   if n < 1 then Inl ''limit must be a positive integer''
                   else (let pageSize = (if 200 < n then 200 else n) in Inr (if 100 < pageSize then 100 else pageSize))))"

definition query_time :: "'d libs \<Rightarrow> string \<Rightarrow> string \<Rightarrow> string + tstamp option" where
  "query_time L label txt =
     (if trim_space txt = [] then Inr None
      else (case ParseTimeQuery (trim_space txt) of None \<Rightarrow> Inl (label @ '': invalid time'') | Some t \<Rightarrow> Inr (Some (ts_new L t))))"

definition list_orders_of :: "'d gateway_env \<Rightarrow> rest_ctx \<Rightarrow> rest_request \<Rightarrow> string + list_orders_request \<times> string list" where
  "list_orders_of E ctx rq =
     check_bind (ResolveUserID ctx rq 0) (\<lambda>userID.
     check_bind (page_limit (hq_Query rq ''limit'')) (\<lambda>pageSize.
     check_bind (if trim_space (hq_Query rq ''side'') = [] then Inr Side_SIDE_UNSPECIFIED else ParseSide (trim_space (hq_Query rq ''side''))) (\<lambda>side.
     check_bind (query_time (ge_libs E) ''start_time'' (hq_Query rq ''start_time'')) (\<lambda>start_t.
     check_bind (query_time (ge_libs E) ''end_time'' (hq_Query rq ''end_time'')) (\<lambda>end_t.
       (let statuses = ParseStatusList (hq_Query rq ''status'')
        in Inr (\<lparr> lr_UserId = userID, lr_Symbol = trim_space (hq_Query rq ''symbol''), lr_Side = side, lr_Type = OrderType_UNSPECIFIED,
                  lr_Status = (case statuses of [st] \<Rightarrow> st | _ \<Rightarrow> []), lr_CreatedAtFrom = start_t, lr_CreatedAtTo = end_t,
                  lr_Page = 1, lr_PageSize = pageSize \<rparr>, statuses)))))))"

definition gw_ListOrders :: "'d gateway_env \<Rightarrow> 's gateway_clients \<Rightarrow> rest_ctx \<Rightarrow> rest_request \<Rightarrow> 's \<Rightarrow> rest_response \<times> 's" where
  "gw_ListOrders E G ctx rq s =
     (case list_orders_of E ctx rq of
        Inl e \<Rightarrow> (bad_request ctx e, s)
      | Inr (req, statuses) \<Rightarrow>
          answer_call ctx (\<lambda>resp.
              (let xs0 = map (OrderFromPB (ge_libs E)) resp;
                   xs = (if 1 < length statuses then FilterOrdersByStatus xs0 statuses else xs0)
               in WriteOK ctx 200 (OrdersData xs (lr_PageSize req \<le> int (length xs)))))
            (gc_ListOrders G req s))"

definition list_trades_of :: "'d gateway_env \<Rightarrow> rest_ctx \<Rightarrow> rest_request \<Rightarrow> string + list_trades_request" where
  "list_trades_of E ctx rq =
     check_bind (ResolveUserID ctx rq 0) (\<lambda>userID.
     check_bind (page_limit (hq_Query rq ''limit'')) (\<lambda>pageSize.
     check_bind (if trim_space (hq_Query rq ''order_id'') = [] then Inr 0 else ParseOrderID (trim_space (hq_Query rq ''order_id''))) (\<lambda>orderID.
     check_bind (query_time (ge_libs E) ''start_time'' (hq_Query rq ''start_time'')) (\<lambda>start_t.
     check_bind (query_time (ge_libs E) ''end_time'' (hq_Query rq ''end_time'')) (\<lambda>end_t.
       Inr \<lparr> lt_UserId = userID, lt_Symbol = trim_space (hq_Query rq ''symbol''), lt_OrderId = orderID,
             lt_CreatedAtFrom = start_t, lt_CreatedAtTo = end_t, lt_Page = 1, lt_PageSize = pageSize \<rparr>)))))"

definition gw_ListTrades :: "'d gateway_env \<Rightarrow> 's gateway_clients \<Rightarrow> rest_ctx \<Rightarrow> rest_request \<Rightarrow> 's \<Rightarrow> rest_response \<times> 's" where
  "gw_ListTrades E G ctx rq s =
     (case list_trades_of E ctx rq of
        Inl e \<Rightarrow> (bad_request ctx e, s)
      | Inr req \<Rightarrow>
          answer_call ctx (\<lambda>resp. WriteOK ctx 200 (TradesData (map (TradeFromPB (ge_libs E)) resp) (lt_PageSize req \<le> int (length resp))))
            (gc_ListTrades G req s))"

section \<open>Balances\<close>

definition update_balance_of :: "'d gateway_env \<Rightarrow> rest_ctx \<Rightarrow> rest_request \<Rightarrow> string + update_balance_request" where
  "update_balance_of E ctx rq =
     check_bind (decodeJSON (ge_BalanceBody E (hq_Body rq))) (\<lambda>body.
     check_bind (ResolveUserID ctx rq (zb_UserID body)) (\<lambda>userID.
     check_bind (map_sum (\<lambda>e. ''change: '' @ e) id (DecimalFromString (zb_Change body))) (\<lambda>change.
       Inr \<lparr> uq_UserId = userID, uq_Asset = to_upper (trim_space (zb_Asset body)), uq_Business = trim_space (zb_Business body),
             uq_BusinessId = zb_BusinessID body, uq_Change = change \<rparr>)))"

definition gw_UpdateBalance :: "'d gateway_env \<Rightarrow> 's gateway_clients \<Rightarrow> rest_ctx \<Rightarrow> rest_request \<Rightarrow> 's \<Rightarrow> rest_response \<times> 's" where
  "gw_UpdateBalance E G ctx rq s =
     (case update_balance_of E ctx rq of
        Inl e \<Rightarrow> (bad_request ctx e, s)
      | Inr req \<Rightarrow> answer_call ctx (\<lambda>b. WriteOK ctx 200 (BalanceData (GetBalanceResponseFromPB b))) (gc_UpdateBalance G req s))"

definition gw_ListBalances :: "'s gateway_clients \<Rightarrow> rest_ctx \<Rightarrow> rest_request \<Rightarrow> 's \<Rightarrow> rest_response \<times> 's" where
  "gw_ListBalances G ctx rq s =
     (case ResolveUserID ctx rq 0 of
        Inl e \<Rightarrow> (bad_request ctx e, s)
      | Inr userID \<Rightarrow> answer_call ctx (\<lambda>bs. WriteOK ctx 200 (BalancesData (map GetBalanceResponseFromPB bs))) (gc_ListBalances G userID s))"

definition gw_GetBalance :: "'s gateway_clients \<Rightarrow> rest_ctx \<Rightarrow> rest_request \<Rightarrow> string \<Rightarrow> 's \<Rightarrow> rest_response \<times> 's" where
  "gw_GetBalance G ctx rq param s =
     (case ResolveUserID ctx rq 0 of
        Inl e \<Rightarrow> (bad_request ctx e, s)
      | Inr userID \<Rightarrow>
          (let asset = to_upper (trim_space param)
           in if asset = [] then (bad_request ctx ''asset is required'', s)
              else answer_call ctx (\<lambda>b. WriteOK ctx 200 (BalanceData (GetBalanceResponseFromPB b))) (gc_GetBalance G (userID, asset) s)))"

section \<open>Market data\<close>

definition positive_limit :: "int \<Rightarrow> int \<Rightarrow> string \<Rightarrow> string + int" where
  "positive_limit default0 cap txt =
     (let s = trim_space txt
      in if s = [] then Inr default0
         else (case atoi s of
                 None \<Rightarrow> Inl ''limit must be positive integer''
               | Some n \<Rightarrow> if n \<le> 0 then Inl ''limit must be positive integer'' else Inr (if cap < n then cap else n)))"

definition gw_Depth :: "'d gateway_env \<Rightarrow> 's gateway_clients \<Rightarrow> rest_ctx \<Rightarrow> rest_request \<Rightarrow> 's \<Rightarrow> rest_response \<times> 's" where
  "gw_Depth E G ctx rq s =
     (let symbol = trim_space (hq_Query rq ''symbol'')
      in if symbol = [] then (bad_request ctx ''symbol is required'', s)
         else (case positive_limit 20 100 (hq_Query rq ''limit'') of
                 Inl e \<Rightarrow> (bad_request ctx e, s)
               | Inr limit \<Rightarrow> answer_call ctx (\<lambda>r. WriteOK ctx 200 (DepthData (pbDepthToJSON (ge_libs E) r))) (gc_GetOrderBook G (symbol, limit) s)))"

definition gw_Ticker :: "'d gateway_env \<Rightarrow> 's gateway_clients \<Rightarrow> rest_ctx \<Rightarrow> rest_request \<Rightarrow> 's \<Rightarrow> rest_response \<times> 's" where
  "gw_Ticker E G ctx rq s =
     (let symbol = trim_space (hq_Query rq ''symbol''); symbols = trim_space (hq_Query rq ''symbols'')
      in if symbol = [] \<and> symbols = [] then (bad_request ctx ''symbol or symbols is required'', s)
         else (let parts = (if symbols = [] then [] else filter (\<lambda>x. x \<noteq> []) (map trim_space (split_on (CHR '','') symbols)))
               in answer_call ctx (\<lambda>r. WriteOK ctx 200
                      (if symbol \<noteq> [] then TickerData (pbTickerToJSON (ge_libs E) (GetTickerField r))
                       else TickersData (map (\<lambda>t. pbTickerToJSON (ge_libs E) (Some t)) (GetItemsField r))))
                    (gc_GetTicker G (symbol, parts) s)))"

text \<open>\<open>strings.Trim\<close> of double quotes.\<close>

definition trim_quotes :: "string \<Rightarrow> string" where
  "trim_quotes s = rev (dropWhile (\<lambda>c. c = CHR 0x22) (rev (dropWhile (\<lambda>c. c = CHR 0x22) s)))"

definition gw_TickerAll :: "'d gateway_env \<Rightarrow> 's gateway_clients \<Rightarrow> rest_ctx \<Rightarrow> rest_request \<Rightarrow> 's \<Rightarrow> rest_response \<times> 's" where
  "gw_TickerAll E G ctx rq s =
     (let quoteAsset = trim_space (hq_Query rq ''quote_asset''); status0 = trim_space (hq_Query rq ''status'');
          statusFilter = (if status0 = [] then ''TRADING'' else status0);
          format = to_lower (trim_space (hq_Query rq ''format''));
          id0 = trim_space (hq_Query rq ''snapshot_id'');
          snapshotID = (if id0 = [] then trim_quotes (trim_space (hq_IfNoneMatch rq)) else id0)
      in if format \<noteq> [] \<and> format \<noteq> ''json'' then (bad_request ctx ''only format=json is supported'', s)
         else answer_call ctx (\<lambda>r.
                (let hs = setTickerAllSnapshotHeaders (ge_libs E) (ga_SnapshotId r) (ga_SnapshotTime r)
                 in if ga_NotModified r then bare_response ctx 304 hs
                    else (let xs = filterTickerAllItems (ge_libs E) (ga_Items r) (ge_Symbols E) statusFilter
                          in (WriteOK ctx 200 (TickerAllData (ga_SnapshotId r) (length xs) xs
                               (map_option (\<lambda>t. format_pb_time (ge_libs E) (Some t)) (ga_SnapshotTime r))))\<lparr>rr_Headers := hs\<rparr>)))
              (gc_GetTickerAllSnapshot G (quoteAsset, snapshotID) s))"

definition gw_Symbols :: "'d gateway_env \<Rightarrow> rest_ctx \<Rightarrow> rest_response" where
  "gw_Symbols E ctx =
     (if ge_Symbols E = None then bad_request ctx ''symbols not configured''
      else WriteOK ctx 200 (SymbolsData (map (\<lambda>sp. symbolSpecToJSON (ge_libs E) sp (ge_Assets E)) (registry_All (ge_Symbols E)))))"

definition kline_time :: "'d libs \<Rightarrow> string \<Rightarrow> string \<Rightarrow> string + tstamp option" where
  "kline_time L label txt =
     (let s = trim_space txt
      in if s = [] then Inr None
         else (case parse_rfc3339 s of None \<Rightarrow> Inl (''invalid '' @ label) | Some t \<Rightarrow> Inr (Some (ts_new L t))))"

definition klines_of :: "'d gateway_env \<Rightarrow> rest_request \<Rightarrow> string + get_klines_request" where
  "klines_of E rq =
     (let symbol = trim_space (hq_Query rq ''symbol''); interval = trim_space (hq_Query rq ''interval'')
      in if symbol = [] \<or> interval = [] then Inl ''symbol and interval are required''
         else check_bind (kline_time (ge_libs E) ''start_time'' (hq_Query rq ''start_time'')) (\<lambda>start_t.
              check_bind (kline_time (ge_libs E) ''end_time'' (hq_Query rq ''end_time'')) (\<lambda>end_t.
              check_bind (positive_limit 0 1500 (hq_Query rq ''limit'')) (\<lambda>limit.
                Inr \<lparr> gq_Symbol = symbol, gq_Interval = interval, gq_StartTime = start_t, gq_EndTime = end_t, gq_Limit = limit \<rparr>))))"

definition gw_Klines ::
  "'d gateway_env \<Rightarrow> (get_klines_request \<Rightarrow> 's \<Rightarrow> (grpc_status + pb_kline list) \<times> 's) \<Rightarrow> rest_ctx \<Rightarrow> rest_request \<Rightarrow> 's \<Rightarrow> rest_response \<times> 's" where
  "gw_Klines E client ctx rq s =
     (case klines_of E rq of
        Inl e \<Rightarrow> (bad_request ctx e, s)
      | Inr req \<Rightarrow> answer_call ctx (\<lambda>ks. WriteOK ctx 200 (KlinesData (map (pbKlineToJSON (ge_libs E)) ks))) (client req s))"

definition gw_GetIndexPrice :: "'d gateway_env \<Rightarrow> 's gateway_clients \<Rightarrow> rest_ctx \<Rightarrow> rest_request \<Rightarrow> 's \<Rightarrow> rest_response \<times> 's" where
  "gw_GetIndexPrice E G ctx rq s =
     (let symbol = trim_space (hq_Query rq ''symbol'')
      in if symbol = [] then (bad_request ctx ''symbol is required'', s)
         else answer_call ctx (\<lambda>po. case po of
                  None \<Rightarrow> write_api ctx (Map_status (status_error CodeNotFound ''index price not available''))
                | Some p \<Rightarrow> WriteOK ctx 200 (IndexData (pbIndexPriceToJSON (ge_libs E) p)))
              (gc_GetIndexPrice G symbol s))"

section \<open>The router\<close>

datatype rest_route =
    RouteHealth
  | RouteTime
  | RoutePlaceOrder
  | RouteListOrders
  | RouteGetOrder string
  | RouteListTrades
  | RouteCancelOrder string
  | RouteUpdateBalance
  | RouteListBalances
  | RouteGetBalance string
  | RouteIndexPrice
  | RouteDepth
  | RouteTicker
  | RouteSymbols
  | RouteTickerAll
  | RouteKlines

text \<open>A parameter is a segment of the path that is not empty.\<close>

definition path_param :: "string \<Rightarrow> string \<Rightarrow> string option" where
  "path_param prefix path =
     (if has_prefix path prefix
      then (let p = drop (length prefix) path in if p \<noteq> [] \<and> CHR ''/'' \<notin> set p then Some p else None)
      else None)"

text \<open>The methods at a path; candles are served if there is a client for them.\<close>

definition path_routes :: "bool \<Rightarrow> string \<Rightarrow> (string \<times> rest_route) list" where
  "path_routes klines path =
     (if path = ''/v1/health'' then [(''GET'', RouteHealth)]
      else if path = ''/v1/time'' then [(''GET'', RouteTime)]
      else if path = ''/v1/orders'' then [(''POST'', RoutePlaceOrder), (''GET'', RouteListOrders)]
      else if path = ''/v1/trades'' then [(''GET'', RouteListTrades)]
      else if path = ''/v1/balances'' then [(''POST'', RouteUpdateBalance), (''GET'', RouteListBalances)]
      else if path = ''/v1/index-price'' then [(''GET'', RouteIndexPrice)]
      else if path = ''/v1/market/depth'' then [(''GET'', RouteDepth)]
      else if path = ''/v1/market/ticker'' then [(''GET'', RouteTicker)]
      else if path = ''/v1/market/symbols'' then [(''GET'', RouteSymbols)]
      else if path = ''/v1/market/ticker/all'' then [(''GET'', RouteTickerAll)]
      else if path = ''/v1/klines'' \<and> klines then [(''GET'', RouteKlines)]
      else (case path_param ''/v1/orders/'' path of
              Some p \<Rightarrow> [(''GET'', RouteGetOrder p), (''DELETE'', RouteCancelOrder p)]
            | None \<Rightarrow> (case path_param ''/v1/balances/'' path of Some p \<Rightarrow> [(''GET'', RouteGetBalance p)] | None \<Rightarrow> [])))"

text \<open>The groups of \<open>NewRouter\<close>: the scopes that a route asks for, \<open>None\<close> without authentication.\<close>

fun route_scopes :: "rest_route \<Rightarrow> string list option" where
  "route_scopes RoutePlaceOrder = Some [ScopeOrdersWrite]"
| "route_scopes RouteListOrders = Some [ScopeOrdersRead]"
| "route_scopes (RouteGetOrder p) = Some [ScopeOrdersRead]"
| "route_scopes RouteListTrades = Some [ScopeOrdersRead]"
| "route_scopes (RouteCancelOrder p) = Some [ScopeOrdersWrite]"
| "route_scopes RouteUpdateBalance = Some [ScopeBalancesAdmin]"
| "route_scopes RouteListBalances = Some [ScopeBalancesRead]"
| "route_scopes (RouteGetBalance p) = Some [ScopeBalancesRead]"
| "route_scopes RouteTickerAll = Some [ScopePushTickerAll]"
| "route_scopes RouteKlines = Some [ScopeMarketRead]"
| "route_scopes RouteHealth = None"
| "route_scopes RouteTime = None"
| "route_scopes RouteIndexPrice = None"
| "route_scopes RouteDepth = None"
| "route_scopes RouteTicker = None"
| "route_scopes RouteSymbols = None"

definition isPublicRoute :: "string \<Rightarrow> string \<Rightarrow> bool" where
  "isPublicRoute method path \<longleftrightarrow>
     method = ''GET'' \<and> path \<in> {''/v1/health'', ''/v1/time'', ''/v1/market/depth'', ''/v1/market/ticker'', ''/v1/market/symbols''}"

section \<open>The middleware\<close>

text \<open>The gateway with the state of the services it calls, its clock and its random numbers, which may fail.\<close>

record 's gateway_state =
  wg_Services :: 's
  wg_Clock :: clock
  wg_Random :: "nat \<Rightarrow> bytes option"
  wg_RandomPos :: nat

definition hex_digit :: "nat \<Rightarrow> char" where
  "hex_digit n = (if n < 10 then digit_char n else char_of (87 + n))"

definition hex_text :: "bytes \<Rightarrow> string" where
  "hex_text bs = concat (map (\<lambda>b. [hex_digit (unat b div 16), hex_digit (unat b mod 16)]) bs)"

definition newRequestUUID :: "'s gateway_state \<Rightarrow> string \<times> 's gateway_state" where
  "newRequestUUID st =
     (let st1 = st\<lparr>wg_RandomPos := Suc (wg_RandomPos st)\<rparr>
      in case wg_Random st (wg_RandomPos st) of
           None \<Rightarrow> (let (t, clk) = now (wg_Clock st1) in (''req-'' @ pad_int 0 (unix_nano t), st1\<lparr>wg_Clock := clk\<rparr>))
         | Some b0 \<Rightarrow>
             (let b = b0[6 := ((b0 ! 6) AND 0x0f) OR 0x40, 8 := ((b0 ! 8) AND 0x3f) OR 0x80]
              in (hex_text (take 4 b) @ ''-'' @ hex_text (take 2 (drop 4 b)) @ ''-'' @ hex_text (take 2 (drop 6 b)) @ ''-'' @
                  hex_text (take 2 (drop 8 b)) @ ''-'' @ hex_text (take 6 (drop 10 b)), st1)))"

definition RequestID :: "rest_request \<Rightarrow> 's gateway_state \<Rightarrow> rest_ctx \<times> 's gateway_state" where
  "RequestID rq st =
     (let i = trim_space (hq_RequestID rq); (i1, st1) = (if i = [] then newRequestUUID st else (i, st))
      in (\<lparr> cx_RequestID = i1, cx_UserID = 0, cx_Claims = None \<rparr>, st1))"

text \<open>A middleware answers, or passes its context on. A user id in the header that does not parse is not an error here.\<close>

definition Authenticate :: "'d gateway_env \<Rightarrow> time \<Rightarrow> rest_request \<Rightarrow> rest_ctx \<Rightarrow> rest_response + rest_ctx" where
  "Authenticate E at rq ctx =
     (if isPublicRoute (hq_Method rq) (hq_Path rq) then Inr ctx
      else (case BearerFromHeader (hq_Authorization rq) of
              None \<Rightarrow> Inl (WriteError ctx 401 40100 ''unauthorized'')
            | Some bearer \<Rightarrow>
                (case VerifyBearer (ge_jwt E) at (ge_Verifier E) bearer of
                   Inl e \<Rightarrow> Inl (WriteError ctx 401 40100 ''unauthorized'')
                 | Inr c \<Rightarrow>
                     Inr (ctx\<lparr>cx_Claims := Some c,
                              cx_UserID := (case parseUserIDHeaderOrQuery rq of Inl e \<Rightarrow> cx_UserID ctx | Inr i \<Rightarrow> i)\<rparr>))))"

definition RequireScopes :: "string list \<Rightarrow> rest_request \<Rightarrow> rest_ctx \<Rightarrow> rest_response + rest_ctx" where
  "RequireScopes scopes rq ctx =
     (if isPublicRoute (hq_Method rq) (hq_Path rq) then Inr ctx
      else (case cx_Claims ctx of
              None \<Rightarrow> Inl (WriteError ctx 403 40300 ''insufficient scope'')
            | Some c \<Rightarrow> if \<not> HasScopes c scopes then Inl (WriteError ctx 403 40300 ''insufficient scope'') else Inr ctx))"

section \<open>Serving a request\<close>

definition call_services :: "('s \<Rightarrow> rest_response \<times> 's) \<Rightarrow> 's gateway_state \<Rightarrow> rest_response \<times> 's gateway_state" where
  "call_services h st = (let (resp, s) = h (wg_Services st) in (resp, st\<lparr>wg_Services := s\<rparr>))"

definition gw_Time :: "rest_ctx \<Rightarrow> 's gateway_state \<Rightarrow> rest_response \<times> 's gateway_state" where
  "gw_Time ctx st =
     (let (t, clk) = now (wg_Clock st)
      in (WriteOK ctx 200 (TimeData (FormatTimeUTC t) (unix_nano t div 1000000)), st\<lparr>wg_Clock := clk\<rparr>))"

fun dispatch ::
  "'d gateway_env \<Rightarrow> 's gateway_clients \<Rightarrow> rest_route \<Rightarrow> rest_ctx \<Rightarrow> rest_request \<Rightarrow> 's gateway_state \<Rightarrow> rest_response \<times> 's gateway_state" where
  "dispatch E G RouteHealth ctx rq st = (WriteOK ctx 200 HealthData, st)"
| "dispatch E G RouteTime ctx rq st = gw_Time ctx st"
| "dispatch E G RoutePlaceOrder ctx rq st = call_services (gw_PlaceOrder E G ctx rq) st"
| "dispatch E G RouteListOrders ctx rq st = call_services (gw_ListOrders E G ctx rq) st"
| "dispatch E G (RouteGetOrder p) ctx rq st = call_services (gw_GetOrder E G ctx rq p) st"
| "dispatch E G RouteListTrades ctx rq st = call_services (gw_ListTrades E G ctx rq) st"
| "dispatch E G (RouteCancelOrder p) ctx rq st = call_services (gw_CancelOrder G ctx rq p) st"
| "dispatch E G RouteUpdateBalance ctx rq st = call_services (gw_UpdateBalance E G ctx rq) st"
| "dispatch E G RouteListBalances ctx rq st = call_services (gw_ListBalances G ctx rq) st"
| "dispatch E G (RouteGetBalance p) ctx rq st = call_services (gw_GetBalance G ctx rq p) st"
| "dispatch E G RouteIndexPrice ctx rq st = call_services (gw_GetIndexPrice E G ctx rq) st"
| "dispatch E G RouteDepth ctx rq st = call_services (gw_Depth E G ctx rq) st"
| "dispatch E G RouteTicker ctx rq st = call_services (gw_Ticker E G ctx rq) st"
| "dispatch E G RouteSymbols ctx rq st = (gw_Symbols E ctx, st)"
| "dispatch E G RouteTickerAll ctx rq st = call_services (gw_TickerAll E G ctx rq) st"
| "dispatch E G RouteKlines ctx rq st =
     (case gc_GetKlines G of None \<Rightarrow> (bare_response ctx 404 [], st) | Some client \<Rightarrow> call_services (gw_Klines E client ctx rq) st)"

definition serve :: "'d gateway_env \<Rightarrow> 's gateway_clients \<Rightarrow> rest_request \<Rightarrow> 's gateway_state \<Rightarrow> rest_response \<times> 's gateway_state" where
  "serve E G rq st =
     (let (ctx, st1) = RequestID rq st; rs = path_routes (gc_GetKlines G \<noteq> None) (hq_Path rq)
      in if rs = [] then (bare_response ctx 404 [], st1)
         else (case map_of rs (hq_Method rq) of
                 None \<Rightarrow> (bare_response ctx 405 [], st1)
               | Some r \<Rightarrow>
                   (case route_scopes r of
                      None \<Rightarrow> dispatch E G r ctx rq st1
                    | Some scopes \<Rightarrow>
                        (let (at, clk) = now (wg_Clock st1); st2 = st1\<lparr>wg_Clock := clk\<rparr>
                         in case Authenticate E at rq ctx of
                              Inl resp \<Rightarrow> (resp, st2)
                            | Inr ctx1 \<Rightarrow>
                                (case RequireScopes scopes rq ctx1 of
                                   Inl resp \<Rightarrow> (resp, st2)
                                 | Inr ctx2 \<Rightarrow> dispatch E G r ctx2 rq st2)))))"

end
