(* ===== verification/GatewayProps.thy ===== *)
theory GatewayProps
  imports Gateway OrderIdempotency PlacedOrders
begin

text \<open>
  What the gateway of theory \<open>Gateway\<close> promises together with the services behind it: which requests may
  change what, and what the answer to an order says of the database.
\<close>

section \<open>The services behind the gateway\<close>

text \<open>
  A call over gRPC is answered, or fails before or after the service has executed it; the text of an
  error of the service comes with the outcome. The services run between the calls on their own, which
  changes only the state a call starts from.
\<close>

datatype transport_failure = NoConnection | CallCanceled | CallDeadline | CallBroken

fun transport_code :: "transport_failure \<Rightarrow> grpc_code" where
  "transport_code NoConnection = CodeUnavailable"
| "transport_code CallCanceled = CodeCanceled"
| "transport_code CallDeadline = CodeDeadlineExceeded"
| "transport_code CallBroken = CodeUnknown"

datatype rpc_outcome = RpcDone string | RpcNotSent transport_failure string | RpcLost transport_failure string

record 'd backend =
  bk_order :: "'d db service_state"
  bk_market :: "'d market_store"
  bk_kline :: "'d aggregator \<times> 'd kline_state"
  bk_index :: "'d index_store"
  bk_clock :: clock
  bk_rpc :: "nat \<Rightarrow> rpc_outcome"
  bk_rpcPos :: nat

record 'd backend_env =
  bv_denv :: "'d denv"
  bv_codec :: env_codec
  bv_Orders :: "'d order_service option"
  bv_Balances :: bool
  bv_fixed :: "int \<Rightarrow> 'd \<Rightarrow> string"
  bv_sha1 :: "string \<Rightarrow> string"
  bv_Klines :: bool

definition rpc :: "(string \<Rightarrow> 'd backend \<Rightarrow> (grpc_status + 'r) \<times> 'd backend) \<Rightarrow> 'd backend \<Rightarrow> (grpc_status + 'r) \<times> 'd backend" where
  "rpc call st =
     (let st1 = st\<lparr>bk_rpcPos := Suc (bk_rpcPos st)\<rparr>
      in case bk_rpc st (bk_rpcPos st) of
           RpcDone msg \<Rightarrow> call msg st1
         | RpcNotSent f msg \<Rightarrow> (Inl (status_error (transport_code f) msg), st1)
         | RpcLost f msg \<Rightarrow> (Inl (status_error (transport_code f) msg), snd (call msg st1)))"

text \<open>A call of the order service sees the database at the time of the call.\<close>

definition order_call :: "('d db service_state \<Rightarrow> 'r \<times> 'd db service_state) \<Rightarrow> 'd backend \<Rightarrow> 'r \<times> 'd backend" where
  "order_call f st =
     (let (t, clk) = now (bk_clock st); (db, co) = bk_order st; (r, os) = f (db\<lparr>db_now := t\<rparr>, co)
      in (r, st\<lparr>bk_order := os, bk_clock := clk\<rparr>))"

definition clock_call :: "('d backend \<Rightarrow> clock \<Rightarrow> (err + 'r) \<times> clock) \<Rightarrow> string \<Rightarrow> 'd backend \<Rightarrow> (grpc_status + 'r) \<times> 'd backend" where
  "clock_call f msg st =
     (let (r, clk) = f st (bk_clock st) in (map_sum (mapOrderError msg) id r, st\<lparr>bk_clock := clk\<rparr>))"

definition kline_call :: "'d libs \<Rightarrow> get_klines_request \<Rightarrow> string \<Rightarrow> 'd backend \<Rightarrow> (grpc_status + pb_kline list) \<times> 'd backend" where
  "kline_call L req msg st =
     (let (r, k) = GetKlines L req (fst (bk_kline st)) (snd (bk_kline st)) in (map_sum (mapOrderError msg) id r, st\<lparr>bk_kline := k\<rparr>))"

definition backend_clients :: "('d::linordered_idom) backend_env \<Rightarrow> 'd backend gateway_clients" where
  "backend_clients B =
     (let D = bv_denv B; L = de_libs D; S = repo_store D (bv_codec B); sv = bv_Orders B
      in \<lparr> gc_PlaceOrder = (\<lambda>req. rpc (\<lambda>msg. order_call (grpc_PlaceOrder L S sv msg req))),
           gc_CancelOrder = (\<lambda>req. rpc (\<lambda>msg. order_call (grpc_CancelOrder S sv msg req))),
           gc_GetOrder = (\<lambda>req. rpc (\<lambda>msg. order_call (grpc_GetOrder L S sv msg req))),
           gc_ListOrders = (\<lambda>req. rpc (\<lambda>msg. order_call (grpc_ListOrders L S sv msg req))),
           gc_ListTrades = (\<lambda>req. rpc (\<lambda>msg. order_call (grpc_ListTrades L S sv msg req))),
           gc_UpdateBalance = (\<lambda>req. rpc (\<lambda>msg. order_call (grpc_UpdateBalance L (bv_Balances B) msg req))),
           gc_ListBalances = (\<lambda>u. rpc (\<lambda>msg. order_call (grpc_ListBalances L (bv_Balances B) msg u))),
           gc_GetBalance = (\<lambda>req. rpc (\<lambda>msg. order_call (grpc_GetBalance L (bv_Balances B) msg req))),
           gc_GetOrderBook = (\<lambda>(s, limit). rpc (clock_call (\<lambda>st. GetOrderBook L s limit (bk_market st)))),
           gc_GetTicker = (\<lambda>(s, ss). rpc (clock_call (\<lambda>st. GetTicker L (bv_fixed B) s ss (bk_market st)))),
           gc_GetTickerAllSnapshot = (\<lambda>(q, i). rpc (clock_call (\<lambda>st clk.
             (let (r, clk1) = GetTickerAllSnapshot L (bv_fixed B) (bv_sha1 B) q i (bk_market st) clk in (Inr r, clk1))))),
           gc_GetKlines = (if bv_Klines B then Some (\<lambda>req. rpc (kline_call L req)) else None),
           gc_GetIndexPrice = (\<lambda>s. rpc (clock_call (\<lambda>st clk.
             (let (r, clk1) = GetIndexPrice L s (bk_index st) clk in (map_sum id Some r, clk1))))) \<rparr>)"

section \<open>Authorization\<close>

definition authorized :: "'d gateway_env \<Rightarrow> time \<Rightarrow> rest_request \<Rightarrow> string list \<Rightarrow> bool" where
  "authorized E at rq scopes \<longleftrightarrow>
     (\<exists>b c. BearerFromHeader (hq_Authorization rq) = Some b \<and> VerifyBearer (ge_jwt E) at (ge_Verifier E) b = Inr c \<and> HasScopes c scopes)"

text \<open>The reading of the clock at which the token of a request is verified.\<close>

definition auth_time :: "rest_request \<Rightarrow> 's gateway_state \<Rightarrow> time" where
  "auth_time rq st = fst (now (wg_Clock (snd (RequestID rq st))))"

definition route_of :: "'s gateway_clients \<Rightarrow> rest_request \<Rightarrow> rest_route option" where
  "route_of G rq = map_of (path_routes (gc_GetKlines G \<noteq> None) (hq_Path rq)) (hq_Method rq)"

lemma public_unprotected:
  "isPublicRoute m p \<Longrightarrow> map_of (path_routes k p) m = Some r \<Longrightarrow> route_scopes r = None"
  by (auto simp: isPublicRoute_def path_routes_def)

lemma RequestID_services [simp]: "wg_Services (snd (RequestID rq st)) = wg_Services st"
  by (simp add: RequestID_def newRequestUUID_def Let_def split: option.splits prod.splits)

text \<open>What becomes of a request that the router knows.\<close>

lemma serve_route:
  assumes r: "route_of G rq = Some r" and s: "serve E G rq st = (resp, st')"
  obtains (open_route) ctx st1 where "route_scopes r = None" "dispatch E G r ctx rq st1 = (resp, st')" "wg_Services st1 = wg_Services st"
  | (no_token) scopes ctx where "route_scopes r = Some scopes" "resp = WriteError ctx 401 40100 ''unauthorized''" "wg_Services st' = wg_Services st"
  | (no_scope) scopes ctx where "route_scopes r = Some scopes" "resp = WriteError ctx 403 40300 ''insufficient scope''" "wg_Services st' = wg_Services st"
  | (allowed) scopes ctx st1 where "route_scopes r = Some scopes" "authorized E (auth_time rq st) rq scopes"
      "dispatch E G r ctx rq st1 = (resp, st')" "wg_Services st1 = wg_Services st"
      "cx_UserID ctx = (case parseUserIDHeaderOrQuery rq of Inl e \<Rightarrow> 0 | Inr i \<Rightarrow> i)"
proof -
  obtain ctx st1 where c: "RequestID rq st = (ctx, st1)" by (metis surj_pair)
  then have st1: "wg_Services st1 = wg_Services st" "cx_UserID ctx = 0" "cx_Claims ctx = None"
    using RequestID_services [of rq st] by (auto simp: RequestID_def Let_def split: prod.splits)
  have rs: "map_of (path_routes (gc_GetKlines G \<noteq> None) (hq_Path rq)) (hq_Method rq) = Some r" using r by (simp add: route_of_def)
  then have ne: "path_routes (gc_GetKlines G \<noteq> None) (hq_Path rq) \<noteq> []" by auto
  show thesis
  proof (cases "route_scopes r")
    case None
    then have "dispatch E G r ctx rq st1 = (resp, st')" using s c ne rs by (simp add: serve_def)
    from open_route [OF None this st1(1)] show thesis .
  next
    case (Some scopes)
    then have np: "\<not> isPublicRoute (hq_Method rq) (hq_Path rq)" using public_unprotected [OF _ rs] by auto
    obtain at clk where n: "now (wg_Clock st1) = (at, clk)" by (metis surj_pair)
    then have at: "auth_time rq st = at" using c by (simp add: auth_time_def)
    let ?st2 = "st1\<lparr>wg_Clock := clk\<rparr>"
    have s2: "(case Authenticate E at rq ctx of
        Inl resp \<Rightarrow> (resp, ?st2)
      | Inr ctx1 \<Rightarrow> (case RequireScopes scopes rq ctx1 of Inl resp \<Rightarrow> (resp, ?st2) | Inr ctx2 \<Rightarrow> dispatch E G r ctx2 rq ?st2)) = (resp, st')"
      using s c ne rs Some n by (simp add: serve_def Let_def)
    show thesis
    proof (cases "\<exists>b cl. BearerFromHeader (hq_Authorization rq) = Some b \<and> VerifyBearer (ge_jwt E) at (ge_Verifier E) b = Inr cl")
      case False
      then have "Authenticate E at rq ctx = Inl (WriteError ctx 401 40100 ''unauthorized'')"
        using np by (auto simp: Authenticate_def split: option.splits sum.splits)
      with s2 have "resp = WriteError ctx 401 40100 ''unauthorized''" "wg_Services st' = wg_Services st" using st1 by auto
      with Some show thesis by (rule no_token)
    next
      case True
      then obtain b cl where b: "BearerFromHeader (hq_Authorization rq) = Some b" "VerifyBearer (ge_jwt E) at (ge_Verifier E) b = Inr cl" by blast
      let ?ctx1 = "ctx\<lparr>cx_Claims := Some cl, cx_UserID := (case parseUserIDHeaderOrQuery rq of Inl e \<Rightarrow> 0 | Inr i \<Rightarrow> i)\<rparr>"
      have a: "Authenticate E at rq ctx = Inr ?ctx1" using np b st1 by (simp add: Authenticate_def split: sum.splits)
      show thesis
      proof (cases "HasScopes cl scopes")
        case True
        then have "dispatch E G r ?ctx1 rq ?st2 = (resp, st')" using s2 a np by (simp add: RequireScopes_def)
        moreover have "authorized E (auth_time rq st) rq scopes" using b True at by (auto simp: authorized_def)
        ultimately show thesis using Some st1 by (intro allowed [of scopes ?ctx1 ?st2]) simp_all
      next
        case False
        then have "resp = WriteError ?ctx1 403 40300 ''insufficient scope''" "wg_Services st' = wg_Services st"
          using s2 a np st1 by (auto simp: RequireScopes_def)
        with Some show thesis by (rule no_scope)
      qed
    qed
  qed
qed

section \<open>Calls that keep a property of the services\<close>

text \<open>The clients, where every call keeps \<open>P\<close> except those that the routes in \<open>may\<close> make.\<close>

locale service_calls =
  fixes G :: "'s gateway_clients" and P :: "'s \<Rightarrow> bool" and may :: "rest_route \<Rightarrow> bool"
  assumes place: "\<not> may RoutePlaceOrder \<Longrightarrow> P s \<Longrightarrow> P (snd (gc_PlaceOrder G req s))"
    and cancel: "\<not> may (RouteCancelOrder p) \<Longrightarrow> P s \<Longrightarrow> P (snd (gc_CancelOrder G ref s))"
    and update: "\<not> may RouteUpdateBalance \<Longrightarrow> P s \<Longrightarrow> P (snd (gc_UpdateBalance G ubal s))"
    and order_reads: "P s \<Longrightarrow> P (snd (gc_GetOrder G ref s))" "P s \<Longrightarrow> P (snd (gc_ListOrders G lo s))" "P s \<Longrightarrow> P (snd (gc_ListTrades G lt s))"
    and balance_reads: "P s \<Longrightarrow> P (snd (gc_ListBalances G u s))" "P s \<Longrightarrow> P (snd (gc_GetBalance G ua s))"
    and market_reads: "P s \<Longrightarrow> P (snd (gc_GetOrderBook G bk s))" "P s \<Longrightarrow> P (snd (gc_GetTicker G tk s))"
      "P s \<Longrightarrow> P (snd (gc_GetTickerAllSnapshot G ta s))"
    and kline_reads: "gc_GetKlines G = Some kl \<Longrightarrow> P s \<Longrightarrow> P (snd (kl kr s))"
    and index_reads: "P s \<Longrightarrow> P (snd (gc_GetIndexPrice G sy s))"
begin

lemma answered_keeps: "P (snd x) \<Longrightarrow> P (snd (answer_call ctx f x))"
  by (cases x) (simp add: answer_call_def split: sum.split)

lemma reading_handlers:
  assumes "P s"
  shows "P (snd (gw_ListOrders E G ctx rq s))" "P (snd (gw_GetOrder E G ctx rq p s))" "P (snd (gw_ListTrades E G ctx rq s))"
    "P (snd (gw_ListBalances G ctx rq s))" "P (snd (gw_GetBalance G ctx rq p s))" "P (snd (gw_GetIndexPrice E G ctx rq s))"
    "P (snd (gw_Depth E G ctx rq s))" "P (snd (gw_Ticker E G ctx rq s))" "P (snd (gw_TickerAll E G ctx rq s))"
    "gc_GetKlines G = Some kl \<Longrightarrow> P (snd (gw_Klines E kl ctx rq s))"
  unfolding gw_ListOrders_def gw_GetOrder_def gw_ListTrades_def gw_ListBalances_def gw_GetBalance_def gw_GetIndexPrice_def gw_Depth_def
    gw_Ticker_def gw_TickerAll_def gw_Klines_def Let_def
  using assms order_reads balance_reads market_reads kline_reads index_reads
  by (simp_all add: answered_keeps split: sum.splits prod.splits)

lemma changing_handlers:
  assumes "P s"
  shows "\<not> may RoutePlaceOrder \<Longrightarrow> P (snd (gw_PlaceOrder E G ctx rq s))" "\<not> may (RouteCancelOrder p) \<Longrightarrow> P (snd (gw_CancelOrder G ctx rq p s))"
    "\<not> may RouteUpdateBalance \<Longrightarrow> P (snd (gw_UpdateBalance E G ctx rq s))"
  unfolding gw_PlaceOrder_def gw_CancelOrder_def gw_UpdateBalance_def
  using assms place cancel update by (simp_all add: answered_keeps split: sum.splits)

lemma dispatch_keeps:
  assumes "\<not> may r" "P (wg_Services st)" "dispatch E G r ctx rq st = (resp, st')"
  shows "P (wg_Services st')"
proof -
  have "P (snd (h (wg_Services st))) \<Longrightarrow> P (wg_Services (snd (call_services h st)))" for h
    by (cases "h (wg_Services st)") (simp add: call_services_def)
  note k = this reading_handlers [OF assms(2)] changing_handlers [OF assms(2)]
  have "P (wg_Services (snd (dispatch E G r ctx rq st)))"
    using assms(1,2) by (cases r) (simp_all add: k gw_Time_def split: option.split prod.split)
  then show ?thesis using assms(3) by simp
qed

lemma serve_keeps:
  assumes s: "serve E G rq st = (resp, st')" and "P (wg_Services st)" "\<not> P (wg_Services st')"
  shows "\<exists>r. route_of G rq = Some r \<and> may r \<and> (\<forall>scopes. route_scopes r = Some scopes \<longrightarrow> authorized E (auth_time rq st) rq scopes)"
proof (cases "route_of G rq")
  case None
  then have "wg_Services st' = wg_Services st"
    using s RequestID_services [of rq st]
    by (auto simp: serve_def route_of_def Let_def split: prod.splits if_splits simp del: RequestID_services)
  with assms show ?thesis by simp
next
  case (Some r)
  from Some s show ?thesis
  proof (cases rule: serve_route)
    case (open_route ctx st1)
    then show ?thesis using assms Some dispatch_keeps by (metis option.distinct(1))
  next
    case (allowed scopes ctx st1)
    then show ?thesis using assms Some dispatch_keeps by (metis option.inject)
  qed (use assms in auto)
qed

end

section \<open>What calls of the order service keep\<close>

definition backend_inv :: "('d tables \<Rightarrow> bool) \<Rightarrow> 'd backend \<Rightarrow> bool" where
  "backend_inv I s \<longleftrightarrow> I (db_tables (fst (bk_order s)))"

definition call_keeps :: "('d tables \<Rightarrow> bool) \<Rightarrow> ('d db service_state \<Rightarrow> 'r \<times> 'd db service_state) \<Rightarrow> bool" where
  "call_keeps I f \<longleftrightarrow> (\<forall>st. I (db_tables (fst st)) \<longrightarrow> I (db_tables (fst (snd (f st)))))"

lemma rpc_keeps:
  "(\<And>msg s. backend_inv I s \<Longrightarrow> backend_inv I (snd (call msg s))) \<Longrightarrow> backend_inv I s \<Longrightarrow> backend_inv I (snd (rpc call s))"
  by (simp add: rpc_def backend_inv_def Let_def split: rpc_outcome.splits)

lemma order_call_keeps: "call_keeps I f \<Longrightarrow> backend_inv I s \<Longrightarrow> backend_inv I (snd (order_call f s))"
  by (simp add: backend_inv_def call_keeps_def order_call_def Let_def split: prod.splits) (metis db.select_convs(1) db.surjective db.update_convs(4) fst_conv snd_conv)

lemma clock_call_keeps: "backend_inv I s \<Longrightarrow> backend_inv I (snd (clock_call f msg s))"
  by (simp add: backend_inv_def clock_call_def split: prod.splits)

lemma kline_call_keeps: "backend_inv I s \<Longrightarrow> backend_inv I (snd (kline_call L req msg s))"
  by (simp add: backend_inv_def kline_call_def split: prod.splits)

lemma invokeOrder_keeps: "(\<And>sv. call_keeps I (fn sv)) \<Longrightarrow> call_keeps I (invokeOrder svc msg fn)"
proof -
  assume k: "\<And>sv. call_keeps I (fn sv)"
  have "I (db_tables (fst (snd (invokeOrder svc msg fn st))))" if "I (db_tables (fst st))" for st
  proof (cases svc)
    case (Some sv)
    obtain r st1 where f: "fn sv st = (r, st1)" by (metis surj_pair)
    with k [of sv] that have "I (db_tables (fst st1))" unfolding call_keeps_def by (metis snd_conv)
    with Some f show ?thesis by (cases r) (simp_all add: invokeOrder_def)
  qed (use that in \<open>simp add: invokeOrder_def\<close>)
  then show ?thesis by (simp add: call_keeps_def)
qed

lemma invokeBalance_keeps: "call_keeps I fn \<Longrightarrow> call_keeps I (invokeBalance b msg fn)"
proof -
  assume k: "call_keeps I fn"
  have "I (db_tables (fst (snd (invokeBalance b msg fn st))))" if "I (db_tables (fst st))" for st
  proof -
    obtain r st1 where f: "fn st = (r, st1)" by (metis surj_pair)
    with k that have "I (db_tables (fst st1))" unfolding call_keeps_def by (metis snd_conv)
    with f that show ?thesis by (cases r) (simp_all add: invokeBalance_def)
  qed
  then show ?thesis by (simp add: call_keeps_def)
qed

lemma on_store_keeps: "tx_keeps I m \<Longrightarrow> call_keeps I (on_store m)"
  by (auto simp: call_keeps_def on_store_def tx_keeps_def split: prod.splits)

lemma keeps_reads [inv_intros]:
  "tx_keeps I (FindByClientOrderID D u k)" "tx_keeps I (GetOrderByUser D u i)" "tx_keeps I (ListOrders D lf)" "tx_keeps I (ListTrades tf)"
  "tx_keeps I (GetBalance u a)" "tx_keeps I (ListBalances u)"
  unfolding FindByClientOrderID_def GetOrderByUser_def ListOrders_def ListTrades_def GetBalance_def ListBalances_def Let_def
  by (intro inv_intros)+

lemma keeps_stepD: "m db = (r, db') \<Longrightarrow> tx_keeps I m \<Longrightarrow> I (db_tables db) \<Longrightarrow> I (db_tables db')"
  by (rule tx_keepsD)

lemma keeps_srv_reads:
  "tx_keeps I (srv_GetOrder L (repo_store D C) req)" "tx_keeps I (srv_ListOrders L (repo_store D C) lo)"
  "tx_keeps I (srv_ListTrades L (repo_store D C) lt)" "tx_keeps I (srv_GetBalance L ua)" "tx_keeps I (srv_ListBalances L u)"
proof -
  note k = keeps_reads [where I = I, THEN [2] keeps_stepD]
  show "tx_keeps I (srv_GetOrder L (repo_store D C) req)"
    unfolding tx_keeps_def srv_GetOrder_def by (auto simp: repo_store_def dest: k(2) split: option.splits sum.splits prod.splits)
  show "tx_keeps I (srv_ListOrders L (repo_store D C) lo)"
    unfolding tx_keeps_def srv_ListOrders_def by (auto simp: repo_store_def dest: k(3) split: option.splits sum.splits prod.splits)
  show "tx_keeps I (srv_ListTrades L (repo_store D C) lt)"
    unfolding tx_keeps_def srv_ListTrades_def Let_def by (auto simp: repo_store_def dest: k(4) split: option.splits sum.splits prod.splits)
  show "tx_keeps I (srv_GetBalance L ua)"
    unfolding tx_keeps_def srv_GetBalance_def by (auto simp: fail_tx_def dest: k(5) split: option.splits sum.splits prod.splits)
  show "tx_keeps I (srv_ListBalances L u)"
    unfolding srv_ListBalances_def by (intro inv_intros)
qed

lemma keeps_PlaceOrder:
  assumes "\<And>inp. tx_keeps I (InsertPending D C inp)"
  shows "call_keeps I (PlaceOrder L (repo_store D C) sv req)"
proof -
  note k = keeps_reads [where I = I, THEN [2] keeps_stepD] and i = assms [THEN [2] keeps_stepD]
  have l: "I (db_tables (fst st1))" if "lookupIdempotentOrder (repo_store D C) u key st = (r, st1)" "I (db_tables (fst st))" for u key st r st1
    using that unfolding lookupIdempotentOrder_def
    by (auto simp: repo_store_def dest: k(1,2) split: option.splits sum.splits prod.splits)
  have o: "I (db_tables (fst st1))" if "insert_order (repo_store D C) L inp st = (r, st1)" "I (db_tables (fst st))" for inp st r st1
    using that unfolding insert_order_def Let_def
    by (auto simp: repo_store_def dest: k(1) i split: option.splits sum.splits prod.splits if_splits)
  have o': "I (db_tables (fst (snd (insert_order (repo_store D C) L inp (db, co)))))" if "I (db_tables db)" for db co inp
  proof -
    obtain r st1 where e: "insert_order (repo_store D C) L inp (db, co) = (r, st1)" by (rule prod.exhaust)
    from o [OF e] that show ?thesis unfolding e by simp
  qed
  show ?thesis
    unfolding call_keeps_def PlaceOrder_def Let_def by (auto dest: l intro!: o' split: option.splits sum.splits prod.splits)
qed

lemma keeps_srv_Cancel:
  assumes "\<And>u i tp. tx_keeps I (BeginCancel D C u i tp)"
  shows "tx_keeps I (srv_CancelOrder (repo_store D C) sv req)"
  unfolding tx_keeps_def srv_CancelOrder_def
  by (auto simp: repo_store_def dest: keeps_stepD [OF _ keeps_reads(2)] keeps_stepD [OF _ assms] split: option.splits sum.splits prod.splits)

lemma keeps_srv_Update:
  assumes "\<And>inp. tx_keeps I (UpdateBalance inp)"
  shows "tx_keeps I (srv_UpdateBalance L req)"
  unfolding tx_keeps_def srv_UpdateBalance_def Let_def
  by (auto simp: fail_tx_def dest: keeps_stepD [OF _ assms] split: option.splits sum.splits prod.splits)

text \<open>
  So the clients satisfy the contract for every property of the tables that the statements of a call keep.
\<close>

lemma backend_service_calls:
  assumes p: "\<not> may RoutePlaceOrder \<Longrightarrow> (\<And>inp. tx_keeps I (InsertPending (bv_denv B) (bv_codec B) inp))"
    and c: "\<And>p. \<not> may (RouteCancelOrder p) \<Longrightarrow> (\<And>u i tp. tx_keeps I (BeginCancel (bv_denv B) (bv_codec B) u i tp))"
    and u: "\<not> may RouteUpdateBalance \<Longrightarrow> (\<And>inp. tx_keeps I (UpdateBalance inp))"
  shows "service_calls (backend_clients B) (backend_inv I) may"
proof -
  note gc = backend_clients_def Let_def gateway_clients.simps
  note reads = rpc_keeps [OF order_call_keeps] invokeOrder_keeps invokeBalance_keeps on_store_keeps keeps_srv_reads
  show ?thesis
  proof
    fix s :: "'a backend" and req
    assume "\<not> may RoutePlaceOrder" "backend_inv I s"
    then show "backend_inv I (snd (gc_PlaceOrder (backend_clients B) req s))"
      unfolding gc grpc_PlaceOrder_def by (intro rpc_keeps order_call_keeps invokeOrder_keeps keeps_PlaceOrder p)
  next
    fix s :: "'a backend" and q ref
    assume "\<not> may (RouteCancelOrder q)" "backend_inv I s"
    then show "backend_inv I (snd (gc_CancelOrder (backend_clients B) ref s))"
      unfolding gc grpc_CancelOrder_def by (intro rpc_keeps order_call_keeps invokeOrder_keeps on_store_keeps keeps_srv_Cancel c)
  next
    fix s :: "'a backend" and ubal
    assume "\<not> may RouteUpdateBalance" "backend_inv I s"
    then show "backend_inv I (snd (gc_UpdateBalance (backend_clients B) ubal s))"
      unfolding gc grpc_UpdateBalance_def by (intro rpc_keeps order_call_keeps invokeBalance_keeps on_store_keeps keeps_srv_Update u)
  next
    fix s :: "'a backend" and ref lo lt and uid :: uint64 and ua
    assume s: "backend_inv I s"
    show "backend_inv I (snd (gc_GetOrder (backend_clients B) ref s))" "backend_inv I (snd (gc_ListOrders (backend_clients B) lo s))"
      "backend_inv I (snd (gc_ListTrades (backend_clients B) lt s))"
      unfolding gc grpc_GetOrder_def grpc_ListOrders_def grpc_ListTrades_def
      by (intro rpc_keeps order_call_keeps invokeOrder_keeps on_store_keeps keeps_srv_reads s; assumption)+
    show "backend_inv I (snd (gc_ListBalances (backend_clients B) uid s))" "backend_inv I (snd (gc_GetBalance (backend_clients B) ua s))"
      unfolding gc grpc_ListBalances_def grpc_GetBalance_def
      by (intro rpc_keeps order_call_keeps invokeBalance_keeps on_store_keeps keeps_srv_reads s; assumption)+
  next
    fix s :: "'a backend" and bk tk ta
    assume s: "backend_inv I s"
    show "backend_inv I (snd (gc_GetOrderBook (backend_clients B) bk s))" "backend_inv I (snd (gc_GetTicker (backend_clients B) tk s))"
      "backend_inv I (snd (gc_GetTickerAllSnapshot (backend_clients B) ta s))"
      unfolding gc by (auto split: prod.splits intro!: rpc_keeps clock_call_keeps s)
  next
    fix s :: "'a backend" and kl kr
    assume "gc_GetKlines (backend_clients B) = Some kl" "backend_inv I s"
    then show "backend_inv I (snd (kl kr s))" unfolding gc by (auto split: if_splits intro!: rpc_keeps kline_call_keeps)
  next
    fix s :: "'a backend" and sy
    assume "backend_inv I s"
    then show "backend_inv I (snd (gc_GetIndexPrice (backend_clients B) sy s))" unfolding gc by (intro rpc_keeps clock_call_keeps)
  qed
qed

section \<open>Who may change what\<close>

fun changes_orders :: "rest_route \<Rightarrow> bool" where
  "changes_orders RoutePlaceOrder = True"
| "changes_orders (RouteCancelOrder p) = True"
| "changes_orders RouteUpdateBalance = True"
| "changes_orders r = False"

interpretation unchanged: service_calls "backend_clients B" "backend_inv (\<lambda>t. t = t0)" changes_orders
  by (rule backend_service_calls) simp_all

interpretation holding: service_calls "backend_clients B" "backend_inv (supplied b c)" "\<lambda>r. r = RouteUpdateBalance"
  by (rule backend_service_calls) (simp_all add: sup.keeps_InsertPending sup.keeps_BeginCancel)

lemma route_of_changes:
  "route_of G rq = Some r \<Longrightarrow> changes_orders r \<Longrightarrow>
     r = RouteUpdateBalance \<and> hq_Method rq = ''POST'' \<and> hq_Path rq = ''/v1/balances'' \<or>
     r = RoutePlaceOrder \<and> hq_Method rq = ''POST'' \<and> hq_Path rq = ''/v1/orders'' \<or>
     (\<exists>p. r = RouteCancelOrder p \<and> hq_Method rq = ''DELETE'' \<and> hq_Path rq = ''/v1/orders/'' @ p)"
  by (auto simp: route_of_def path_routes_def path_param_def has_prefix_iff Let_def split: if_splits option.splits)

abbreviation order_tables_of :: "'d backend gateway_state \<Rightarrow> 'd tables" where
  "order_tables_of st \<equiv> db_tables (fst (bk_order (wg_Services st)))"

text \<open>A concrete gateway with its services: a static token, an order in JSON, a database with funds.\<close>

definition wit_rest_body :: place_order_body where
  "wit_rest_body = \<lparr> yb_UserID = 1, yb_ClientOrderID = ''c1'', yb_Symbol = '' BTC-USDT'', yb_Side = ''buy'', yb_Type = ''limit'',
     yb_Price = ''100'', yb_Quantity = ''5'' \<rparr>"

definition wit_gateway :: "int gateway_env" where
  "wit_gateway =
     \<lparr> ge_libs = int_libs, ge_jwt = wit_jwt,
       ge_Verifier = \<lparr> vf_mode = ''static'', vf_staticToken = ''key'', vf_staticScopes = [ScopeOrdersWrite], vf_marketMakerStaticToken = [],
         vf_marketMakerStaticScopes = [], vf_issuers = Map.empty \<rparr>,
       ge_PlaceBody = (\<lambda>b. if b = [7] then JsonValue wit_rest_body else JsonEOF), ge_BalanceBody = (\<lambda>_. JsonEOF),
       ge_Symbols = None, ge_Assets = None \<rparr>"

definition wit_backend_env :: "int backend_env" where
  "wit_backend_env =
     \<lparr> bv_denv = wit_denv, bv_codec = wit_env_codec, bv_Orders = Some wit_once_service, bv_Balances = True,
       bv_fixed = (\<lambda>_. int_to_string), bv_sha1 = (\<lambda>s. s), bv_Klines = False \<rparr>"

definition wit_backend :: "int backend gateway_state" where
  "wit_backend =
     \<lparr> wg_Services = \<lparr> bk_order = (wit_db, Some wit_cache), bk_market = market_New, bk_kline = (NewAggregator, wit_kline_state), bk_index = Map.empty,
         bk_clock = ((\<lambda>_. 7), 0), bk_rpc = (\<lambda>_. RpcDone []), bk_rpcPos = 0 \<rparr>,
       wg_Clock = ((\<lambda>_. 7), 0), wg_Random = (\<lambda>_. None), wg_RandomPos = 0 \<rparr>"

definition wit_rest_request :: rest_request where
  "wit_rest_request =
     \<lparr> hq_Method = ''POST'', hq_Path = ''/v1/orders'', hq_RequestID = ''r1'', hq_Authorization = ''Bearer key'', hq_UserID = [],
       hq_IfNoneMatch = [], hq_Query = (\<lambda>_. []), hq_Body = [7] \<rparr>"

definition wit_rest_run :: "rest_response \<times> int backend gateway_state" where
  "wit_rest_run = serve wit_gateway (backend_clients wit_backend_env) wit_rest_request wit_backend"

lemma wit_rest_request_of: "place_order_of wit_gateway ctx wit_rest_request = Inr wit_once_request"
proof -
  have "trim_space '' BTC-USDT'' = ''BTC-USDT''" "trim_space ''c1'' = ''c1''" "trim_space ''5'' = ''5''" "trim_space ''100'' = ''100''"
    "ParseSide ''buy'' = Inr Side_SIDE_BUY" "ParseOrderType ''limit'' = Inr OrderType_LIMIT" by code_simp+
  then show ?thesis
    by (simp add: place_order_of_def wit_gateway_def wit_rest_request_def wit_rest_body_def ResolveUserID_def DecimalFromString_def wit_once_request_def Let_def)
qed

text \<open>The request is let through and placed.\<close>

lemma wit_rest_created:
  "rr_Status (fst wit_rest_run) = 201"
  "\<exists>i. t_idem (order_tables_of (snd wit_rest_run)) (1, ''c1'') = Some i"
proof -
  obtain presp where p: "fst wit_once_run = Inr presp" "\<not> pp_IdempotentHit presp" using wit_once_first by blast
  then obtain os where run: "PlaceOrder int_libs (repo_store wit_denv wit_env_codec) wit_once_service (Some wit_once_request) (wit_db, Some wit_cache) = (Inr presp, os)"
    unfolding wit_once_run_def by (metis prod.collapse)
  have db: "wit_db\<lparr>db_now := 7\<rparr> = wit_db" "wit_denv\<lparr>de_libs := int_libs\<rparr> = wit_denv" by (simp_all add: wit_db_def wit_denv_def)
  have L: "de_libs wit_denv = int_libs" by (simp add: wit_denv_def)
  have tok: "BearerFromHeader ''Bearer key'' = Some ''key''" "trim_space ''key'' = ''key''" "trim_space ''r1'' = ''r1''" by code_simp+
  have auth: "VerifyBearer (ge_jwt wit_gateway) at (ge_Verifier wit_gateway) ''key'' =
      Inr \<lparr> cm_Subject = ''static-retail'', cm_Scopes = [ScopeOrdersWrite], cm_Method = ''static'' \<rparr>" for at
    by (simp add: VerifyBearer_def wit_gateway_def verifyStaticToken_def tok(2) Let_def)
  have call: "gc_PlaceOrder (backend_clients wit_backend_env) wit_once_request (wg_Services wit_backend) =
      (Inr presp, (wg_Services wit_backend)\<lparr>bk_rpcPos := 1, bk_order := os, bk_clock := (fst (bk_clock (wg_Services wit_backend)), 1)\<rparr>)"
    by (simp add: backend_clients_def Let_def rpc_def order_call_def grpc_PlaceOrder_def invokeOrder_def wit_backend_env_def wit_backend_def
        now_def db L run)
  have e: "wit_rest_run = call_services (gw_PlaceOrder wit_gateway (backend_clients wit_backend_env)
      \<lparr> cx_RequestID = ''r1'', cx_UserID = (case parseUserIDHeaderOrQuery wit_rest_request of Inl e \<Rightarrow> 0 | Inr i \<Rightarrow> i),
        cx_Claims = Some \<lparr> cm_Subject = ''static-retail'', cm_Scopes = [ScopeOrdersWrite], cm_Method = ''static'' \<rparr> \<rparr> wit_rest_request)
      (wit_backend\<lparr>wg_Clock := (fst (wg_Clock wit_backend), 1)\<rparr>)"
    unfolding wit_rest_run_def serve_def RequestID_def Let_def Authenticate_def RequireScopes_def
    by (simp add: path_routes_def isPublicRoute_def auth HasScopes_def now_def tok(1,3) wit_rest_request_def wit_backend_def Let_def split: sum.split)
  have r: "rr_Status (fst wit_rest_run) = 201" "bk_order (wg_Services (snd wit_rest_run)) = os"
    unfolding e
    by (simp_all add: call_services_def gw_PlaceOrder_def wit_rest_request_of call answer_call_def p(2) WriteOK_def)
  then show "rr_Status (fst wit_rest_run) = 201" by simp
  have "cache_ok (t_idem (db_tables (fst (wit_db, Some wit_cache)))) (snd (wit_db, Some wit_cache))" by (simp add: cache_ok_def wit_cache_def)
  from repo.PlaceOrder_answered [OF this run] have "t_idem (db_tables (fst os)) (1, trim_space ''c1'') = Some (pp_OrderId presp)"
    by (simp add: repo.answered_def wit_once_request_def)
  moreover have "trim_space ''c1'' = ''c1''" by code_simp
  ultimately show "\<exists>i. t_idem (order_tables_of (snd wit_rest_run)) (1, ''c1'') = Some i" using r(2) by simp
qed

text \<open>
  C38. Through the gateway only three requests can change the order database, and each only with a bearer token
  that is valid when it is verified and holds the scope for it: placing and cancelling an order need
  \<open>orders:write\<close>, and adjusting a balance needs \<open>balances:admin\<close>. Only the last can change what all users hold
  of an asset together.
\<close>

theorem gateway_changes_authorized:
  assumes s: "serve E (backend_clients B) rq st = (resp, st')" and "order_tables_of st' \<noteq> order_tables_of st"
  shows "(hq_Method rq = ''POST'' \<and> hq_Path rq = ''/v1/orders'' \<and> authorized E (auth_time rq st) rq [ScopeOrdersWrite] \<or>
     hq_Method rq = ''DELETE'' \<and> (\<exists>p. hq_Path rq = ''/v1/orders/'' @ p) \<and> authorized E (auth_time rq st) rq [ScopeOrdersWrite] \<or>
     hq_Method rq = ''POST'' \<and> hq_Path rq = ''/v1/balances'' \<and> authorized E (auth_time rq st) rq [ScopeBalancesAdmin]) \<and>
    (accounts_ok (order_tables_of st) \<and> holdings b (order_tables_of st') \<noteq> holdings b (order_tables_of st) \<longrightarrow>
       hq_Path rq = ''/v1/balances'')"
proof -
  obtain r where r: "route_of (backend_clients B) rq = Some r" "changes_orders r"
    "\<And>scopes. route_scopes r = Some scopes \<Longrightarrow> authorized E (auth_time rq st) rq scopes"
    using unchanged.serve_keeps [OF s, of "order_tables_of st"] assms(2) by (auto simp: backend_inv_def)
  have "hq_Path rq = ''/v1/balances''"
    if "accounts_ok (order_tables_of st)" "holdings b (order_tables_of st') \<noteq> holdings b (order_tables_of st)"
  proof -
    have "route_of (backend_clients B) rq = Some RouteUpdateBalance"
      using holding.serve_keeps [OF s, of b "holdings b (order_tables_of st)"] that by (auto simp: backend_inv_def supplied_def)
    from route_of_changes [OF this] show ?thesis by simp
  qed
  moreover from route_of_changes [OF r(1,2)] r(3) show ?thesis using calculation by auto
qed

theorem gateway_changes_authorized_witness:
  "order_tables_of (snd wit_rest_run) \<noteq> order_tables_of wit_backend \<and>
     authorized wit_gateway (auth_time wit_rest_request wit_backend) wit_rest_request [ScopeOrdersWrite] \<and>
     holdings ''USDT'' (order_tables_of (snd wit_rest_run)) = holdings ''USDT'' (order_tables_of wit_backend)"
proof -
  obtain resp st' where s: "serve wit_gateway (backend_clients wit_backend_env) wit_rest_request wit_backend = (resp, st')" by (rule prod.exhaust)
  then have r: "snd wit_rest_run = st'" by (simp add: wit_rest_run_def)
  have t: "order_tables_of wit_backend = wit_tables" by (simp add: wit_backend_def wit_db_def)
  have d: "order_tables_of st' \<noteq> order_tables_of wit_backend" using wit_rest_created(2) unfolding r t by (auto simp: wit_tables_def)
  have p: "hq_Method wit_rest_request = ''POST''" "hq_Path wit_rest_request = ''/v1/orders''" by (simp_all add: wit_rest_request_def)
  from gateway_changes_authorized [OF s d, of "''USDT''"] d show ?thesis unfolding r t p using wit_accounts_ok(1) by auto
qed

end
