(* ===== verification/RestOrders.thy ===== *)
theory RestOrders
  imports GatewayProps
begin

text \<open>
  What the answer to an order tells: the call that places it, over the network and through the service, followed
  from the body of the REST request to the row in the database.
\<close>

section \<open>What the answer to an order says\<close>

text \<open>The user of a request with a body: the one in the body, or else the header, or else the query.\<close>

definition stated_user :: "rest_request \<Rightarrow> uint64 \<Rightarrow> string + uint64" where
  "stated_user rq fromBody = (if 0 < fromBody then Inr fromBody else parseUserIDHeaderOrQuery rq)"

lemma ResolveUserID_stated:
  "cx_UserID ctx = (case parseUserIDHeaderOrQuery rq of Inl e \<Rightarrow> 0 | Inr i \<Rightarrow> i) \<Longrightarrow> ResolveUserID ctx rq u = stated_user rq u"
proof -
  assume c: "cx_UserID ctx = (case parseUserIDHeaderOrQuery rq of Inl e \<Rightarrow> 0 | Inr i \<Rightarrow> i)"
  have "of_nat n \<noteq> (0 :: uint64)" if "parse_uint64 s = Some n" "n \<noteq> 0" for n s
  proof -
    have "n < 2 ^ 64" using that(1) by (auto simp: parse_uint64_def split: if_splits)
    then have "unat (of_nat n :: uint64) = n" by (simp add: unat_of_nat take_bit_nat_eq_self)
    with that(2) show ?thesis by auto
  qed
  then have "parseUserIDHeaderOrQuery rq = Inr i \<Longrightarrow> 0 < i" for i
    by (auto simp: parseUserIDHeaderOrQuery_def parseUserIDString_def Let_def word_greater_zero_iff split: if_splits option.splits)
  with c show ?thesis by (auto simp: ResolveUserID_def stated_user_def split: sum.splits)
qed

lemma place_order_of_Inr:
  assumes "place_order_of E ctx rq = Inr req"
  obtains body where "ge_PlaceBody E (hq_Body rq) = JsonValue body" "ResolveUserID ctx rq (yb_UserID body) = Inr (pr_UserId req)"
    "pr_ClientOrderId req = trim_space (yb_ClientOrderID body)" "place_order_request.pr_Symbol req = trim_space (yb_Symbol body)"
    "SideToString (pr_Side req) = to_upper (trim_space (yb_Side body))" "OrderTypeToString (pr_Type req) = to_upper (trim_space (yb_Type body))"
    "place_order_request.pr_Quantity req = Some (trim_space (yb_Quantity body))"
proof -
  obtain body where b: "decodeJSON (ge_PlaceBody E (hq_Body rq)) = Inr body"
    using assms by (auto simp: place_order_of_def check_bind_Inr)
  then have "ge_PlaceBody E (hq_Body rq) = JsonValue body" by (cases "ge_PlaceBody E (hq_Body rq)") auto
  moreover have "SideToString (pr_Side req) = to_upper (trim_space (yb_Side body)) \<and>
      OrderTypeToString (pr_Type req) = to_upper (trim_space (yb_Type body)) \<and>
      place_order_request.pr_Quantity req = Some (trim_space (yb_Quantity body)) \<and> ResolveUserID ctx rq (yb_UserID body) = Inr (pr_UserId req) \<and>
      pr_ClientOrderId req = trim_space (yb_ClientOrderID body) \<and> place_order_request.pr_Symbol req = trim_space (yb_Symbol body)"
    using assms b
    by (auto simp: place_order_of_def check_bind_Inr ParseSide_def ParseOrderType_def SideToString_def OrderTypeToString_def
        DecimalFromString_def pb_enum_defs Let_def split: if_splits)
  ultimately show thesis using that by blast
qed

text \<open>What a call of the service does: nothing that is stored changes, or the order is there.\<close>

lemma PlaceOrder_cases:
  assumes p: "PlaceOrder L (repo_store D C) sv (Some req) (db, co) = (r, db', co')" and C: "env_codec_ok C"
    and c: "cache_ok (t_idem (db_tables db)) co"
  obtains (same) "db_tables db' = db_tables db"
      "\<And>resp. r = Inr resp \<Longrightarrow> pp_IdempotentHit resp \<and>
         t_idem (db_tables db) (pr_UserId req, trim_space (pr_ClientOrderId req)) = Some (pp_OrderId resp)"
  | (stored) inp row t where "validatePlaceOrder L sv req = Inr inp" "new_row (de_libs D) inp (or_ID row) t = Some row"
      "t_orders (db_tables db') = t_orders (db_tables db) @ [row]"
      "r = Inr (toPlaceOrderResponse L (scanOrder D row) False) \<or> r = Inl (ErrMsg ''commit tx'')"
proof (cases "validatePlaceOrder L sv req")
  case (Inl e)
  with p show thesis by (intro same) (auto simp: PlaceOrder_def)
next
  case (Inr inp0)
  let ?inp = "inp0\<lparr>ip_OutboxTopic := sv_OutboxTopic sv\<rparr>" and ?u = "pr_UserId req" and ?k = "trim_space (pr_ClientOrderId req)"
  have k: "ip_UserID inp0 = ?u" "ip_ClientOrderID inp0 = ?k" using validatePlaceOrder_key [OF Inr] by simp_all
  obtain lr db1 co1 where l: "lookupIdempotentOrder (repo_store D C) ?u ?k (db, co) = (lr, db1, co1)" by (metis prod_cases3)
  note lo = repo.lookup_ok [OF _ l, unfolded fst_conv snd_conv, OF c]
  have p1: "(case lr of Inl e \<Rightarrow> (Inl e, db1, co1)
      | Inr (Some od) \<Rightarrow> (Inr (toPlaceOrderResponse L od True), db1, co1)
      | Inr None \<Rightarrow> insert_order (repo_store D C) L ?inp (db1, co1)) = (r, db', co')"
    using p l k Inr by (simp add: PlaceOrder_def Let_def split: sum.splits option.splits)
  show thesis
  proof (cases "lr = Inr None")
    case False
    then show thesis using p1 lo by (intro same) (auto simp: toPlaceOrderResponse_def split: sum.splits option.splits)
  next
    case True
    then have i: "insert_order (repo_store D C) L ?inp (db1, co1) = (r, db', co')" using p1 by simp
    obtain ir db2 where ins: "InsertPending D C ?inp db1 = (ir, db2)" by (metis surj_pair)
    obtain fr db3 where find: "FindByClientOrderID D ?u ?k db2 = (fr, db3)" by (metis surj_pair)
    have db3: "db_tables db3 = db_tables db2" using repo.find_reads [of D C ?u ?k db2 fr db3] find by (simp add: repo_store_def)
    have nr: "new_row (de_libs D) ?inp i t = new_row (de_libs D) inp0 i t" for i t by (simp add: new_row_def split: option.split)
    consider (failed) e where "ir = Inl e" "db_tables db2 = db_tables db1"
      | (placed) row x where "new_row (de_libs D) ?inp (db_nextOrder db1) (db_now db1) = Some row"
          "env_codec_ok C \<longrightarrow> placed D C ?inp db1 (db_tables db2) row x"
          "ir = Inr (scanOrder D row) \<or> ir = Inl (ErrMsg ''commit tx'')"
      using InsertPending_placed [OF ins] by blast
    then show thesis
    proof cases
      case e: failed
      have "db_tables db' = db_tables db \<and> (\<forall>resp. r = Inr resp \<longrightarrow> pp_IdempotentHit resp \<and>
          t_idem (db_tables db) (?u, ?k) = Some (pp_OrderId resp))"
        using i ins find e k lo(1) db3 repo_find [of D ?u ?k db2]
        by (auto simp: insert_order_def Let_def repo_store_def toPlaceOrderResponse_def split: if_splits sum.splits option.splits)
      then show thesis by (intro same) auto
    next
      case (placed row x)
      note n = placed(1) and pl = placed(2) and ir = placed(3)
      have row: "t_orders (db_tables db2) = t_orders (db_tables db) @ [row]" "or_ID row = db_nextOrder db1"
        using pl C lo(1) by (simp_all add: placed_def)
      have "db' = db2 \<and> (r = Inr (toPlaceOrderResponse L (scanOrder D row) False) \<or> r = Inl (ErrMsg ''commit tx''))"
        using i ins ir by (auto simp: insert_order_def Let_def repo_store_def)
      then show thesis using stored [OF Inr, of row "db_now db1"] n row nr by simp
    qed
  qed
qed

lemma Map_status_client_error:
  "ae_HTTPStatus (Map_status s) < 500 \<Longrightarrow> gs_Code s \<in> {CodeInvalidArgument, CodeUnauthenticated, CodeNotFound, CodeFailedPrecondition}"
  by (auto simp: Map_status_def Let_def split: grpc_code.splits)

lemma Map_status_bounds: "400 \<le> ae_HTTPStatus (Map_status s)"
  by (auto simp: Map_status_def mapFailedPrecondition_def Let_def split: grpc_code.splits)

lemma validatePlaceOrder_fields:
  assumes "validatePlaceOrder L sv req = Inr inp"
  shows "ip_UserID inp = pr_UserId req \<and> ip_ClientOrderID inp = trim_space (pr_ClientOrderId req) \<and>
    insert_pending_input.ip_Symbol inp = trim_space (place_order_request.pr_Symbol req) \<and> ip_Side inp = pr_Side req \<and> ip_OrderType inp = pr_Type req \<and>
    (\<exists>q. dec_of_string L (trim_space (GetValue (place_order_request.pr_Quantity req))) = Some q \<and> ip_Quantity inp = dec_to_string L q)"
  using assms unfolding validatePlaceOrder_def Let_def
  by (auto dest!: ValidateQuantity_Inr split: if_split_asm option.split_asm sum.split_asm prod.split_asm)

lemma new_row_fields:
  "new_row L inp i t = Some row \<Longrightarrow> or_UserID row = ip_UserID inp \<and> or_ClientOrderID row = ip_ClientOrderID inp \<and> or_Symbol row = insert_pending_input.ip_Symbol inp \<and>
     or_Side row = ip_Side inp \<and> or_OrderType row = ip_OrderType inp \<and> or_Status row = Pending \<and> dec_of_string L (ip_Quantity inp) = Some (or_Quantity row)"
  by (auto simp: new_row_def split: option.splits)

text \<open>The same over the network.\<close>

abbreviation tables_of :: "'d backend \<Rightarrow> 'd tables" where
  "tables_of s \<equiv> db_tables (fst (bk_order s))"

lemma called_PlaceOrder:
  assumes "order_call (grpc_PlaceOrder L S svc msg req) s = (y, s')"
  obtains (no_service) "y = Inl (status_error CodeInternal ''service unavailable'')" "tables_of s' = tables_of s"
  | (served) sv t r where "PlaceOrder L S sv (Some req) ((fst (bk_order s))\<lparr>db_now := t\<rparr>, snd (bk_order s)) = (r, bk_order s')"
      "y = map_sum (mapOrderError msg) id r"
proof (cases svc)
  case None
  then show thesis
    using assms by (intro no_service) (auto simp: order_call_def grpc_PlaceOrder_def invokeOrder_def Let_def split: prod.splits)
next
  case (Some sv)
  obtain t clk where n: "now (bk_clock s) = (t, clk)" by (rule prod.exhaust)
  obtain r os where "PlaceOrder L S sv (Some req) ((fst (bk_order s))\<lparr>db_now := t\<rparr>, snd (bk_order s)) = (r, os)" by (rule prod.exhaust)
  with Some n assms show thesis
    by (intro served [of sv t r]) (auto simp: order_call_def grpc_PlaceOrder_def invokeOrder_def Let_def split: prod.splits sum.splits)
qed

text \<open>A failed call and a failed commit are errors of the server.\<close>

lemma server_error_statuses:
  "500 \<le> ae_HTTPStatus (Map_status (status_error (transport_code f) m))"
  "500 \<le> ae_HTTPStatus (Map_status (mapOrderError m (ErrMsg w)))"
  by (cases f) (simp_all add: Map_status_def mapOrderError_def)

lemma call_PlaceOrder_cases:
  assumes o: "order_call (grpc_PlaceOrder (de_libs D) (repo_store D C) svc msg req) s = (y, s')" and C: "env_codec_ok C"
    and c: "service_ok (bk_order s)"
  obtains (same) "tables_of s' = tables_of s"
      "\<And>resp. y = Inr resp \<Longrightarrow> pp_IdempotentHit resp \<and>
         t_idem (tables_of s) (pr_UserId req, trim_space (pr_ClientOrderId req)) = Some (pp_OrderId resp)"
  | (stored) sv inp row t where "validatePlaceOrder (de_libs D) sv req = Inr inp"
      "new_row (de_libs D) inp (or_ID row) t = Some row" "t_orders (tables_of s') = t_orders (tables_of s) @ [row]"
      "y = Inr (toPlaceOrderResponse (de_libs D) (scanOrder D row) False) \<or>
       (\<exists>e. y = Inl e \<and> 500 \<le> ae_HTTPStatus (Map_status e))"
  using o
proof (cases rule: called_PlaceOrder)
  case no_service
  then show thesis by (intro same) simp_all
next
  case (served sv t r)
  obtain db' co' where b: "bk_order s' = (db', co')" by (rule prod.exhaust)
  have "cache_ok (t_idem (db_tables ((fst (bk_order s))\<lparr>db_now := t\<rparr>))) (snd (bk_order s))" using c by (simp add: service_ok_def)
  from served(1) [unfolded b] C this show thesis
  proof (cases rule: PlaceOrder_cases)
    case same
    then show thesis using served(2) b by (intro that(1)) (cases r; simp)+
  next
    case (stored inp row t')
    then show thesis using served(2) b server_error_statuses(2)
      by (intro that(2) [of sv inp row t']) auto
  qed
qed

lemma rpc_PlaceOrder_cases:
  assumes p: "gc_PlaceOrder (backend_clients B) req s = (x, s')" and C: "env_codec_ok (bv_codec B)" and c: "service_ok (bk_order s)"
  obtains (same) "tables_of s' = tables_of s"
      "\<And>resp. x = Inr resp \<Longrightarrow> pp_IdempotentHit resp \<and>
         t_idem (tables_of s) (pr_UserId req, trim_space (pr_ClientOrderId req)) = Some (pp_OrderId resp)"
  | (stored) sv inp row t where "validatePlaceOrder (de_libs (bv_denv B)) sv req = Inr inp"
      "new_row (de_libs (bv_denv B)) inp (or_ID row) t = Some row" "t_orders (tables_of s') = t_orders (tables_of s) @ [row]"
      "x = Inr (toPlaceOrderResponse (de_libs (bv_denv B)) (scanOrder (bv_denv B) row) False) \<or>
       (\<exists>e. x = Inl e \<and> 500 \<le> ae_HTTPStatus (Map_status e))"
proof -
  let ?D = "bv_denv B" let ?L = "de_libs ?D" let ?S = "repo_store ?D (bv_codec B)"
  define s1 where "s1 = s\<lparr>bk_rpcPos := Suc (bk_rpcPos s)\<rparr>"
  have s1: "tables_of s1 = tables_of s" "service_ok (bk_order s1)" using c by (simp_all add: s1_def)
  have g: "gc_PlaceOrder (backend_clients B) req s = rpc (\<lambda>msg. order_call (grpc_PlaceOrder ?L ?S (bv_Orders B) msg req)) s"
    by (simp add: backend_clients_def Let_def)
  consider (not_sent) f m where "x = Inl (status_error (transport_code f) m)" "s' = s1"
    | (called) msg where "order_call (grpc_PlaceOrder ?L ?S (bv_Orders B) msg req) s1 = (x, s')"
    | (lost) f m y where "order_call (grpc_PlaceOrder ?L ?S (bv_Orders B) m req) s1 = (y, s')" "x = Inl (status_error (transport_code f) m)"
  proof (cases "bk_rpc s (bk_rpcPos s)")
    case (RpcLost f m)
    obtain y s2 where "order_call (grpc_PlaceOrder ?L ?S (bv_Orders B) m req) s1 = (y, s2)" by (rule prod.exhaust)
    with p RpcLost show thesis unfolding g rpc_def s1_def [symmetric] Let_def by (intro lost) auto
  qed (use p in \<open>auto simp: g rpc_def s1_def [symmetric] intro: not_sent called\<close>)
  then show thesis
  proof cases
    case not_sent
    then show thesis using s1 by (intro same) simp_all
  next
    case called
    from called C s1(2) show thesis
      by (cases rule: call_PlaceOrder_cases) (use same stored s1(1) in \<open>simp_all\<close>)
  next
    case lost
    from lost(1) C s1(2) show thesis
    proof (cases rule: call_PlaceOrder_cases)
      case same
      then show thesis using lost(2) s1(1) that(1) by simp
    next
      case (stored sv inp row t)
      then show thesis using lost(2) s1(1) server_error_statuses(1) by (intro that(2) [of sv inp row t]) auto
    qed
  qed
qed

text \<open>The row of an order is what the body of a request asks for.\<close>

definition asked_for :: "'g gateway_env \<Rightarrow> 'd libs \<Rightarrow> rest_request \<Rightarrow> 'd order_row \<Rightarrow> bool" where
  "asked_for E L rq row \<longleftrightarrow>
     (\<exists>body. ge_PlaceBody E (hq_Body rq) = JsonValue body \<and> stated_user rq (yb_UserID body) = Inr (or_UserID row) \<and>
        or_ClientOrderID row = trim_space (yb_ClientOrderID body) \<and> or_Symbol row = trim_space (yb_Symbol body) \<and>
        SideToString (or_Side row) = to_upper (trim_space (yb_Side body)) \<and>
        OrderTypeToString (or_OrderType row) = to_upper (trim_space (yb_Type body)) \<and>
        dec_of_string L (trim_space (yb_Quantity body)) = Some (or_Quantity row) \<and> or_Status row = Pending)"

text \<open>The order that an answer shows.\<close>

definition shows_order :: "rest_response \<Rightarrow> uint64 \<Rightarrow> bool" where
  "shows_order resp i \<longleftrightarrow> (\<exists>e d. rr_Envelope resp = Some e \<and> re_Data e = PlacedData d \<and> pd_OrderID d = OrderIDToString i)"

lemma stored_row_asked:
  assumes p: "place_order_of E ctx rq = Inr req" and v: "validatePlaceOrder L sv req = Inr inp"
    and n: "new_row L inp i t = Some row" and K: "codec_ok L"
    and u: "\<And>x. ResolveUserID ctx rq x = stated_user rq x"
  shows "asked_for E L rq row"
proof -
  obtain body where b: "ge_PlaceBody E (hq_Body rq) = JsonValue body" "ResolveUserID ctx rq (yb_UserID body) = Inr (pr_UserId req)"
    "pr_ClientOrderId req = trim_space (yb_ClientOrderID body)" "place_order_request.pr_Symbol req = trim_space (yb_Symbol body)"
    "SideToString (pr_Side req) = to_upper (trim_space (yb_Side body))" "OrderTypeToString (pr_Type req) = to_upper (trim_space (yb_Type body))"
    "place_order_request.pr_Quantity req = Some (trim_space (yb_Quantity body))"
    using p by (rule place_order_of_Inr)
  note f = validatePlaceOrder_fields [OF v] new_row_fields [OF n]
  obtain q where q: "dec_of_string L (trim_space (yb_Quantity body)) = Some q" "ip_Quantity inp = dec_to_string L q"
    using f b(7) by (auto simp: GetValue_def trim_trim)
  then have "or_Quantity row = q" using f K by (simp add: codec_ok_def)
  then show ?thesis using b f q u by (auto simp: asked_for_def trim_trim)
qed



end
