(* ===== verification/StartupVerify.thy ===== *)
theory StartupVerify
  imports OrderApi RecoveryDurable Reconciler RepoProps
begin

text \<open>
  Model of the check that the matching service makes at its start: \<open>internal/matching/recovery/verify.go\<close>, its
  client \<open>internal/matching/orderclient\<close>, \<open>runRecoveryVerify\<close> of \<open>cmd/matching\<close>, and the queries the other way
  round, \<open>internal/matching/admin\<close> and \<open>internal/order/matching\<close>. The restored books are compared with the order
  database, and pairs that differ refuse orders from then on. Nothing is consumed while the check runs, so
  the engine does not change. A time-out makes a query fail.
\<close>

section \<open>The check\<close>

text \<open>The interface \<open>OrderQuerier\<close>.\<close>

record 's order_querier =
  oq_ListReconcileOrders :: "string \<Rightarrow> 's \<Rightarrow> (err + (uint64 \<times> string) list) \<times> 's"
  oq_GetOrderStatuses :: "string \<Rightarrow> uint64 list \<Rightarrow> 's \<Rightarrow> (err + (uint64 \<rightharpoonup> string)) \<times> 's"

record symbol_diff =
  df_Symbol :: string
  df_OnlyInDB :: "uint64 list"
  df_OnlyInBook :: "uint64 list"

definition HasMismatch :: "symbol_diff \<Rightarrow> bool" where
  "HasMismatch d \<longleftrightarrow> df_OnlyInDB d \<noteq> [] \<or> df_OnlyInBook d \<noteq> []"

definition isDBOnlyMismatch :: "('d::linorder) state \<Rightarrow> string \<Rightarrow> uint64 \<Rightarrow> string \<Rightarrow> bool" where
  "isDBOnlyMismatch st symbol orderID dbStatus \<longleftrightarrow>
     (if dbStatus = Partial then True
      else if dbStatus = Pending then LookupOrderPresence st symbol orderID = InOrderbook
      else False)"

text \<open>Where the code ranges over a map the order is arbitrary; here it is that of the rows and of the ids.\<close>

definition verifySymbol :: "('d::linorder) state \<Rightarrow> 's order_querier \<Rightarrow> string \<Rightarrow> 's \<Rightarrow> (err + symbol_diff) \<times> 's" where
  "verifySymbol st Q symbol q =
     (case oq_ListReconcileOrders Q symbol q of
        (Inl e, q1) \<Rightarrow> (Inl e, q1)
      | (Inr dbRows, q1) \<Rightarrow>
          (let bookSet = ActiveOrderIDs st symbol;
               dbMap = fold (\<lambda>(i, x) m. m(i \<mapsto> x)) dbRows Map.empty;
               onlyInDB = filter (\<lambda>i. i \<notin> bookSet \<and> (case dbMap i of None \<Rightarrow> False | Some x \<Rightarrow> isDBOnlyMismatch st symbol i x))
                            (remdups (map fst dbRows));
               bookOnly = sorted_list_of_set {i \<in> bookSet. dbMap i = None}
           in if bookOnly = [] then (Inr \<lparr> df_Symbol = symbol, df_OnlyInDB = onlyInDB, df_OnlyInBook = [] \<rparr>, q1)
              else (case oq_GetOrderStatuses Q symbol bookOnly q1 of
                      (Inl e, q2) \<Rightarrow> (Inl e, q2)
                    | (Inr statuses, q2) \<Rightarrow>
                        (Inr \<lparr> df_Symbol = symbol, df_OnlyInDB = onlyInDB,
                               df_OnlyInBook = filter (\<lambda>i. case statuses i of
                                   None \<Rightarrow> True | Some x \<Rightarrow> IsTerminal x \<or> x = Pending \<or> x = Partial) bookOnly \<rparr>, q2))))"

fun VerifyAll ::
  "('d::linorder) state \<Rightarrow> 's order_querier \<Rightarrow> string list \<Rightarrow> 's \<Rightarrow> (err option \<times> symbol_diff list) \<times> 's" where
  "VerifyAll st Q [] q = ((None, []), q)"
| "VerifyAll st Q (s # ss) q =
     (case verifySymbol st Q s q of
        (Inl e, q1) \<Rightarrow> ((Some e, []), q1)
      | (Inr d, q1) \<Rightarrow>
          (let ((e, ds), q2) = VerifyAll st Q ss q1 in ((e, if HasMismatch d then d # ds else ds), q2)))"

definition ApplyReadOnly :: "symbol_diff list \<Rightarrow> string \<Rightarrow> ('d::zero) state \<Rightarrow> 'd state" where
  "ApplyReadOnly diffs reason st =
     fold (\<lambda>d st. if \<not> HasMismatch d then st else SetSymbolReadOnly (df_Symbol d) reason st) diffs st"

section \<open>At the start of the service\<close>

fun unique_symbols :: "string set \<Rightarrow> string list \<Rightarrow> string list" where
  "unique_symbols seen [] = []"
| "unique_symbols seen (s # ss) =
     (if s = [] then unique_symbols seen ss
      else if s \<in> seen then unique_symbols seen ss
      else s # unique_symbols (insert s seen) ss)"

text \<open>
  \<open>runRecoveryVerify\<close> when the order service is enabled and connected; \<open>names\<close> are the pairs of the shard. If
  it fails the service does not start.
\<close>

definition runRecoveryVerify ::
  "'s order_querier \<Rightarrow> 'd registry option \<Rightarrow> string list \<Rightarrow> ('d::linordered_idom) state \<Rightarrow> 's \<Rightarrow> err option \<times> 'd state \<times> 's" where
  "runRecoveryVerify Q reg names st q =
     (let symbols = unique_symbols {} (names @ (if reg = None then [] else map sp_Symbol (registry_All reg)))
      in if symbols = [] then (None, st, q)
         else (case VerifyAll st Q symbols q of
                 ((Some e, ds), q1) \<Rightarrow> (Some e, st, q1)
               | ((None, ds), q1) \<Rightarrow> if ds = [] then (None, st, q1) else (None, ApplyReadOnly ds ''orderbook_db_mismatch'' st, q1)))"

section \<open>The queries of the order service\<close>

text \<open>The querier that calls the admin server of the order service.\<close>

definition client_ListReconcileOrders :: "bool \<Rightarrow> string \<Rightarrow> string \<Rightarrow> 'd db \<Rightarrow> (err + (uint64 \<times> string) list) \<times> 'd db" where
  "client_ListReconcileOrders configured msg symbol db =
     (case admin_ListReconcileOrders configured msg symbol db of
        (Inl st, db1) \<Rightarrow> (Inl (ErrMsg (gs_Message st)), db1)
      | (Inr orders, db1) \<Rightarrow> (Inr orders, db1))"

definition order_client :: "bool \<Rightarrow> string \<Rightarrow> 'd db order_querier" where
  "order_client configured msg =
     \<lparr> oq_ListReconcileOrders = client_ListReconcileOrders configured msg,
       oq_GetOrderStatuses = (\<lambda>symbol ids db.
         (case admin_GetOrderStatuses configured msg symbol ids db of
            (Inl st, db1) \<Rightarrow> (Inl (ErrMsg (gs_Message st)), db1)
          | (Inr refs, db1) \<Rightarrow> (Inr (client_GetOrderStatuses refs), db1))) \<rparr>"

text \<open>The admin server of the matching service, and the client that the reconciler of the order service uses.\<close>

definition ORDER_PRESENCE_UNKNOWN :: int where "ORDER_PRESENCE_UNKNOWN = 1"

definition presence_toPB :: "presence \<Rightarrow> int" where
  "presence_toPB k =
     (case k of InOrderbook \<Rightarrow> ORDER_PRESENCE_IN_ORDERBOOK | KnownNotInOrderbook \<Rightarrow> ORDER_PRESENCE_KNOWN_NOT_IN_ORDERBOOK
      | Unknown \<Rightarrow> ORDER_PRESENCE_UNKNOWN)"

definition admin_GetOrderPresence :: "('d::linorder) state option \<Rightarrow> string \<Rightarrow> uint64 \<Rightarrow> grpc_status + int" where
  "admin_GetOrderPresence eng symbol orderID =
     (case eng of
        None \<Rightarrow> Inl (status_error CodeUnavailable ''matching engine not configured'')
      | Some st \<Rightarrow>
          if symbol = [] \<or> orderID = 0 then Inl (status_error CodeInvalidArgument ''symbol and order_id are required'')
          else Inr (presence_toPB (LookupOrderPresence st symbol orderID)))"

definition admin_ReconcileOrders :: "('d::linorder) state option \<Rightarrow> (string \<times> uint64) list \<Rightarrow> grpc_status + (uint64 \<times> int) list" where
  "admin_ReconcileOrders eng refs =
     (case eng of
        None \<Rightarrow> Inl (status_error CodeUnavailable ''matching engine not configured'')
      | Some st \<Rightarrow> Inr (map (\<lambda>(s, i). (i, presence_toPB (LookupOrderPresence st s i))) (filter (\<lambda>(s, i). i \<noteq> 0) refs)))"

text \<open>A client that is connected; a call that fails is an error.\<close>

definition matching_client :: "('d::linorder) state option \<Rightarrow> (string \<Rightarrow> uint64 \<Rightarrow> bool) \<Rightarrow> matching_admin" where
  "matching_client eng lost =
     Some (\<lambda>symbol orderID.
       if lost symbol orderID then Inl (ErrMsg ''rpc'')
       else (case admin_GetOrderPresence eng symbol orderID of Inl st \<Rightarrow> Inl (ErrMsg (gs_Message st)) | Inr p \<Rightarrow> Inr p))"

section \<open>What the check finds\<close>

lemma mem_unique_symbols: "s \<in> set (unique_symbols seen ss) \<longleftrightarrow> s \<in> set ss \<and> s \<noteq> [] \<and> s \<notin> seen"
  by (induction ss arbitrary: seen) auto

lemma fold_map_of: "fold (\<lambda>(i, x) m. m(i \<mapsto> x)) rows m = m ++ map_of (rev rows)"
  by (induction rows arbitrary: m) (auto simp: fun_eq_iff map_add_def split: option.splits)

lemma active_in_book:
  assumes "shard_ok sh" "shard_Get sh s = Some se"
  shows "HasActiveOrder i (se_OrderBook se) \<longleftrightarrow> i \<in> dom (ActiveOrders (se_OrderBook se))"
proof -
  have b: "book_ok (se_OrderBook se)" using shard_okD [OF assms(1)] assms(2) by (auto simp: shard_Get_def engine_ok_def)
  have "o_OrderID x = i" if "orderMap (se_OrderBook se) i = Some x" for x using book_okD(4) [OF b] that by blast
  then show ?thesis
    by (cases "orderMap (se_OrderBook se) i") (simp_all add: HasActiveOrder_def findInBook_iff [OF b] ActiveOrders_def dom_def)
qed

text \<open>
  What a querier promises for a pair: \<open>row_of q s i\<close> is the status of the order in the database. The list holds
  the orders that wait or are filled in part, and asking changes nothing.
\<close>

locale querier =
  fixes Q :: "'s order_querier" and ok :: "'s \<Rightarrow> bool" and row_of :: "'s \<Rightarrow> string \<Rightarrow> (uint64 \<rightharpoonup> string)"
  assumes list_keeps: "ok q \<Longrightarrow> oq_ListReconcileOrders Q s q = (r, q') \<Longrightarrow> ok q' \<and> row_of q' = row_of q"
    and list_rows: "ok q \<Longrightarrow> trim_space s = s \<Longrightarrow> oq_ListReconcileOrders Q s q = (Inr rows, q') \<Longrightarrow>
      map_of (rev rows) = (\<lambda>i. if row_of q s i \<in> {Some Pending, Some Partial} then row_of q s i else None)"
    and statuses_keep: "ok q \<Longrightarrow> oq_GetOrderStatuses Q s ids q = (r', q') \<Longrightarrow> ok q' \<and> row_of q' = row_of q"
    and statuses_rows: "ok q \<Longrightarrow> trim_space s = s \<Longrightarrow> oq_GetOrderStatuses Q s ids q = (Inr m, q') \<Longrightarrow> i \<in> set ids \<Longrightarrow> m i = row_of q s i"
begin

lemma verifySymbol_keeps: "ok q \<Longrightarrow> verifySymbol st Q s q = (r, q') \<Longrightarrow> ok q' \<and> row_of q' = row_of q"
proof -
  assume a: "ok q" "verifySymbol st Q s q = (r, q')"
  obtain x q1 where l: "oq_ListReconcileOrders Q s q = (x, q1)" by (metis surj_pair)
  note k = list_keeps [OF a(1) l]
  have "q' = q1 \<or> (\<exists>ids y. oq_GetOrderStatuses Q s ids q1 = (y, q'))"
    using a(2) l unfolding verifySymbol_def Let_def by (auto split: sum.splits prod.splits if_splits)
  with k statuses_keep show ?thesis by metis
qed

text \<open>The orders of a pair that make it differ.\<close>

definition differs :: "('d::linorder) state \<Rightarrow> string \<Rightarrow> (uint64 \<rightharpoonup> string) \<Rightarrow> bool" where
  "differs st s rows \<longleftrightarrow>
     (\<exists>i. rows i = Some Partial \<and> i \<notin> ActiveOrderIDs st s) \<or>
     (\<exists>i \<in> ActiveOrderIDs st s. case rows i of None \<Rightarrow> True | Some x \<Rightarrow> IsTerminal x)"

lemma verifySymbol_exact:
  assumes q: "ok q" "trim_space s = s" and v: "verifySymbol st Q s q = (Inr d, q')" and sh: "shard_ok (e_shard (fst st))"
  shows "df_Symbol d = s" "HasMismatch d \<longleftrightarrow> differs st s (row_of q s)"
proof -
  obtain rows q1 where l: "oq_ListReconcileOrders Q s q = (Inr rows, q1)"
    using v unfolding verifySymbol_def by (auto split: sum.splits prod.splits)
  have m: "fold (\<lambda>(i, x) m. m(i \<mapsto> x)) rows Map.empty = (\<lambda>i. if row_of q s i \<in> {Some Pending, Some Partial} then row_of q s i else None)"
    using list_rows [OF q l] by (simp add: fold_map_of)
  note k = list_keeps [OF q(1) l]
  have dom: "i \<in> fst ` set rows \<longleftrightarrow> row_of q s i \<in> {Some Pending, Some Partial}" for i
  proof -
    have "i \<in> fst ` set rows \<longleftrightarrow> map_of (rev rows) i \<noteq> None" by (simp add: map_of_eq_None_iff)
    then show ?thesis using list_rows [OF q l] by auto
  qed
  have pend: "LookupOrderPresence st s i \<noteq> InOrderbook" if "i \<notin> ActiveOrderIDs st s" for i
    using that active_in_book [OF sh, of s _ i] by (auto simp: LookupOrderPresence_def ActiveOrderIDs_def split: option.splits)
  let ?db = "filter (\<lambda>i. i \<notin> ActiveOrderIDs st s \<and>
      (case (if row_of q s i \<in> {Some Pending, Some Partial} then row_of q s i else None) of None \<Rightarrow> False | Some x \<Rightarrow> isDBOnlyMismatch st s i x))
      (remdups (map fst rows))"
  have db: "?db \<noteq> [] \<longleftrightarrow> (\<exists>i. row_of q s i = Some Partial \<and> i \<notin> ActiveOrderIDs st s)"
    using dom pend by (fastforce simp: filter_empty_conv isDBOnlyMismatch_def split: if_splits option.splits)
  let ?bo = "{i \<in> ActiveOrderIDs st s. row_of q s i \<notin> {Some Pending, Some Partial}}"
  have bo: "{i \<in> ActiveOrderIDs st s. (if row_of q s i \<in> {Some Pending, Some Partial} then row_of q s i else None) = None} = ?bo" by auto
  have fin: "finite ?bo" by simp
  have vs: "verifySymbol st Q s q =
     (if sorted_list_of_set ?bo = [] then (Inr \<lparr> df_Symbol = s, df_OnlyInDB = ?db, df_OnlyInBook = [] \<rparr>, q1)
      else (case oq_GetOrderStatuses Q s (sorted_list_of_set ?bo) q1 of
              (Inl e, q2) \<Rightarrow> (Inl e, q2)
            | (Inr statuses, q2) \<Rightarrow>
                (Inr \<lparr> df_Symbol = s, df_OnlyInDB = ?db,
                       df_OnlyInBook = filter (\<lambda>i. case statuses i of
                           None \<Rightarrow> True | Some x \<Rightarrow> IsTerminal x \<or> x = Pending \<or> x = Partial) (sorted_list_of_set ?bo) \<rparr>, q2)))"
    unfolding verifySymbol_def l prod.case sum.case Let_def m bo by (rule refl)
  have diff: "df_Symbol d = s \<and> df_OnlyInDB d = ?db \<and>
     (df_OnlyInBook d \<noteq> [] \<longleftrightarrow> (\<exists>i \<in> ?bo. case row_of q s i of None \<Rightarrow> True | Some x \<Rightarrow> IsTerminal x \<or> x = Pending \<or> x = Partial))"
  proof (cases "?bo = {}")
    case True
    have "d = \<lparr> df_Symbol = s, df_OnlyInDB = ?db, df_OnlyInBook = [] \<rparr>"
      using v unfolding vs True by simp
    then show ?thesis unfolding True by simp
  next
    case False
    with fin have ne: "sorted_list_of_set ?bo \<noteq> []" by (simp only: sorted_list_of_set_eq_Nil_iff not_False_eq_True)
    obtain sm where g: "oq_GetOrderStatuses Q s (sorted_list_of_set ?bo) q1 = (Inr sm, q')"
      "d = \<lparr> df_Symbol = s, df_OnlyInDB = ?db, df_OnlyInBook = filter (\<lambda>i. case sm i of
         None \<Rightarrow> True | Some x \<Rightarrow> IsTerminal x \<or> x = Pending \<or> x = Partial) (sorted_list_of_set ?bo) \<rparr>"
      using v unfolding vs if_not_P [OF ne] by (simp split: sum.splits prod.splits)
    have "sm i = row_of q s i" if "i \<in> ?bo" for i
      using statuses_rows [OF _ q(2) g(1), of i] k that fin by simp
    then show ?thesis using g(2) fin by (fastforce simp: filter_empty_conv)
  qed
  then show "df_Symbol d = s" by simp
  show "HasMismatch d \<longleftrightarrow> differs st s (row_of q s)"
    using diff db by (auto simp: HasMismatch_def differs_def IsTerminal_def split: option.splits)
qed

lemma VerifyAll_exact:
  "ok q \<Longrightarrow> \<forall>s \<in> set ss. trim_space s = s \<Longrightarrow> shard_ok (e_shard (fst st)) \<Longrightarrow> VerifyAll st Q ss q = ((None, ds), q') \<Longrightarrow>
     (\<forall>d \<in> set ds. HasMismatch d) \<and> df_Symbol ` set ds = {s \<in> set ss. differs st s (row_of q s)}"
proof (induction ss arbitrary: q ds)
  case (Cons s ss)
  then obtain d q1 ds1 where v: "verifySymbol st Q s q = (Inr d, q1)" "VerifyAll st Q ss q1 = ((None, ds1), q')"
    "ds = (if HasMismatch d then d # ds1 else ds1)"
    by (auto split: sum.splits prod.splits)
  note k = verifySymbol_keeps [OF Cons.prems(1) v(1)]
  have t: "trim_space s = s" using Cons.prems(2) by simp
  note e = verifySymbol_exact [OF Cons.prems(1) t v(1) Cons.prems(3)]
  have "(\<forall>d \<in> set ds1. HasMismatch d) \<and> df_Symbol ` set ds1 = {x \<in> set ss. differs st x (row_of q1 x)}"
    by (rule Cons.IH) (use k Cons.prems v in auto)
  then show ?case using v(3) e k by auto
qed simp

end

lemma ApplyReadOnly_only:
  "\<forall>d \<in> set ds. HasMismatch d \<Longrightarrow> \<forall>d \<in> set ds. df_Symbol d \<noteq> [] \<Longrightarrow>
     rec_IsSymbolReadOnly (ApplyReadOnly ds reason st) s \<longleftrightarrow> rec_IsSymbolReadOnly st s \<or> s \<in> df_Symbol ` set ds"
proof (induction ds arbitrary: st)
  case (Cons d ds)
  have "ApplyReadOnly (d # ds) reason st = ApplyReadOnly ds reason (SetSymbolReadOnly (df_Symbol d) reason st)"
    using Cons.prems by (simp add: ApplyReadOnly_def)
  moreover have "rec_IsSymbolReadOnly (SetSymbolReadOnly (df_Symbol d) reason st) s \<longleftrightarrow> rec_IsSymbolReadOnly st s \<or> s = df_Symbol d"
    using Cons.prems by (simp add: rec_IsSymbolReadOnly_def SetSymbolReadOnly_def SetReadOnly_def IsReadOnly_def split: prod.splits)
      (auto simp: shard_Symbol_def Let_def split: option.splits)
  ultimately show ?case using Cons by auto
qed (simp add: ApplyReadOnly_def)

section \<open>The order database answers the check\<close>

definition db_row_of :: "'d db \<Rightarrow> string \<Rightarrow> (uint64 \<rightharpoonup> string)" where
  "db_row_of db s = map_of (map (\<lambda>r. (or_ID r, or_Status r)) (filter (\<lambda>r. or_Symbol r = s) (t_orders (db_tables db))))"

definition ids_distinct :: "'d db \<Rightarrow> bool" where
  "ids_distinct db \<longleftrightarrow> distinct (map or_ID (t_orders (db_tables db)))"

lemma db_row_of_Some:
  "ids_distinct db \<Longrightarrow> db_row_of db s i = Some x \<longleftrightarrow> (\<exists>r \<in> set (t_orders (db_tables db)). or_ID r = i \<and> or_Symbol r = s \<and> or_Status r = x)"
proof -
  assume "ids_distinct db"
  then have "distinct (map or_ID (filter (\<lambda>r. or_Symbol r = s) (t_orders (db_tables db))))"
    by (simp add: ids_distinct_def distinct_map_filter)
  then have "distinct (map fst (map (\<lambda>r. (or_ID r, or_Status r)) (filter (\<lambda>r. or_Symbol r = s) (t_orders (db_tables db)))))"
    by (simp add: comp_def)
  from map_of_eq_Some_iff [OF this, of i x] show ?thesis unfolding db_row_of_def by auto
qed

lemma query_reads: "query w f db = (r, db') \<Longrightarrow> db_tables db' = db_tables db \<and> (\<forall>x. r = Inr x \<longrightarrow> x = f (db_tables db))"
  by (auto simp: query_def stmt_def stmt_err_def db_call_def Let_def split: if_splits)

lemma client_statuses:
  "client_GetOrderStatuses (map (\<lambda>i. \<lparr> sr_OrderId = i, sr_Found = m i \<noteq> None, sr_Status = (case m i of None \<Rightarrow> [] | Some s \<Rightarrow> s) \<rparr>) ids) i =
     (if i \<in> set ids then m i else None)"
proof -
  have "fold (\<lambda>o1 m. if sr_Found o1 then m(sr_OrderId o1 \<mapsto> sr_Status o1) else m)
      (map (\<lambda>i. \<lparr> sr_OrderId = i, sr_Found = m i \<noteq> None, sr_Status = (case m i of None \<Rightarrow> [] | Some s \<Rightarrow> s) \<rparr>) ids) m0 i =
     (if i \<in> set ids \<and> m i \<noteq> None then m i else m0 i)" for m0
    by (induction ids arbitrary: m0) (auto split: option.splits)
  then show ?thesis by (auto simp: client_GetOrderStatuses_def)
qed

lemma reconcile_rows:
  assumes "ids_distinct db" "trim_space s = s"
    and rows: "rows = map (\<lambda>r. (or_ID r, or_Status r)) (sort_key or_ID (filter
       (\<lambda>r. or_Symbol r = s \<and> or_Status r \<in> {Pending, Partial}) (t_orders (db_tables db))))"
  shows "map_of (rev rows) = (\<lambda>i. if db_row_of db s i \<in> {Some Pending, Some Partial} then db_row_of db s i else None)"
proof
  fix i
  let ?f = "filter (\<lambda>r. or_Symbol r = s \<and> or_Status r \<in> {Pending, Partial}) (t_orders (db_tables db))"
  have "distinct (map or_ID ?f)" using assms(1) by (simp add: ids_distinct_def distinct_map_filter)
  then have "distinct (map or_ID (sort_key or_ID ?f))" by (simp add: distinct_map)
  then have "distinct (map fst (rev rows))" unfolding rows by (simp add: comp_def rev_map [symmetric])
  then have m: "map_of (rev rows) i = Some x \<longleftrightarrow> (i, x) \<in> set rows" for x by simp
  have r: "(i, x) \<in> set rows \<longleftrightarrow> db_row_of db s i = Some x \<and> x \<in> {Pending, Partial}" for x
    unfolding rows db_row_of_Some [OF assms(1)] by auto
  show "map_of (rev rows) i = (if db_row_of db s i \<in> {Some Pending, Some Partial} then db_row_of db s i else None)"
  proof (cases "map_of (rev rows) i")
    case None
    then have "\<not> (\<exists>x. (i, x) \<in> set rows)" using m by auto
    with r None show ?thesis by auto
  next
    case (Some x)
    with m r show ?thesis by auto
  qed
qed

interpretation od: querier "order_client configured msg" ids_distinct db_row_of
proof unfold_locales
  fix q r q' and s :: string
  assume ok: "ids_distinct q" and c: "oq_ListReconcileOrders (order_client configured msg) s q = (r, q')"
  then have "db_tables q' = db_tables q"
    using query_reads by (fastforce simp: order_client_def client_ListReconcileOrders_def admin_ListReconcileOrders_def ListReconcileOrders_def
      fail_tx_def Let_def split: if_splits sum.splits prod.splits)
  with ok show "ids_distinct q' \<and> db_row_of q' = db_row_of q" by (auto simp: ids_distinct_def db_row_of_def fun_eq_iff)
next
  fix q q' rows and s :: string
  assume ok: "ids_distinct q" and t: "trim_space s = s" and c: "oq_ListReconcileOrders (order_client configured msg) s q = (Inr rows, q')"
  then have "rows = map (\<lambda>r. (or_ID r, or_Status r)) (sort_key or_ID (filter
       (\<lambda>r. or_Symbol r = s \<and> or_Status r \<in> {Pending, Partial}) (t_orders (db_tables q))))"
    using query_reads by (fastforce simp: order_client_def client_ListReconcileOrders_def admin_ListReconcileOrders_def ListReconcileOrders_def
      fail_tx_def Let_def split: if_splits sum.splits prod.splits)
  with ok t show "map_of (rev rows) = (\<lambda>i. if db_row_of q s i \<in> {Some Pending, Some Partial} then db_row_of q s i else None)"
    by (rule reconcile_rows)
next
  fix q r q' ids and s :: string
  assume ok: "ids_distinct q" and c: "oq_GetOrderStatuses (order_client configured msg) s ids q = (r, q')"
  then have "db_tables q' = db_tables q"
    using query_reads by (fastforce simp: order_client_def admin_GetOrderStatuses_def GetOrderStatuses_def
      fail_tx_def return_tx_def Let_def split: if_splits sum.splits prod.splits)
  with ok show "ids_distinct q' \<and> db_row_of q' = db_row_of q" by (auto simp: ids_distinct_def db_row_of_def fun_eq_iff)
next
  fix q q' ids m i and s :: string
  assume ok: "ids_distinct q" and t: "trim_space s = s" and i: "i \<in> set ids"
    and c: "oq_GetOrderStatuses (order_client configured msg) s ids q = (Inr m, q')"
  obtain statuses q1 where g: "GetOrderStatuses s ids q = (Inr statuses, q1)"
    "m = client_GetOrderStatuses (map (\<lambda>i. \<lparr> sr_OrderId = i, sr_Found = statuses i \<noteq> None,
       sr_Status = (case statuses i of None \<Rightarrow> [] | Some s \<Rightarrow> s) \<rparr>) ids)"
    using c t by (auto simp: order_client_def admin_GetOrderStatuses_def Let_def split: if_splits sum.splits prod.splits)
  have "query ''get order statuses'' (\<lambda>t. map_of (map (\<lambda>r. (or_ID r, or_Status r)) (filter
           (\<lambda>r. or_Symbol r = s \<and> or_ID r \<in> set ids) (t_orders t)))) q = (Inr statuses, q1)"
    using g(1) t i by (auto simp: GetOrderStatuses_def Let_def fail_tx_def split: if_splits)
  then have st: "statuses = map_of (map (\<lambda>r. (or_ID r, or_Status r)) (filter (\<lambda>r. or_Symbol r = s \<and> or_ID r \<in> set ids) (t_orders (db_tables q))))"
    using query_reads by blast
  have "map_of (map (\<lambda>r. (or_ID r, or_Status r)) (filter (\<lambda>r. or_Symbol r = s \<and> or_ID r \<in> set ids) xs)) i =
      map_of (map (\<lambda>r. (or_ID r, or_Status r)) (filter (\<lambda>r. or_Symbol r = s) xs)) i" for xs :: "'b order_row list"
    using i by (induction xs) auto
  with st i show "m i = db_row_of q s i" unfolding g(2) client_statuses db_row_of_def by simp
qed

text \<open>
  C40. If the check at the start of the matching service completes, exactly the pairs in question refuse orders
  from then on, apart from those that did before: pairs for which an order that is filled in part in the
  database is not in the restored book, or the book holds an order that the database does not know under
  that pair or knows as finished. The database is not changed.
\<close>

theorem startup_check_exact:
  assumes ids: "ids_distinct db" and sh: "shard_ok (e_shard (fst st))"
    and run: "runRecoveryVerify (order_client configured msg) reg names st db = (None, st', db')"
    and symbols: "symbols = set names \<union> (if reg = None then {} else sp_Symbol ` set (registry_All reg)) - {[]}"
      "\<forall>s \<in> symbols. trim_space s = s"
  shows "rec_IsSymbolReadOnly st' s \<longleftrightarrow>
      rec_IsSymbolReadOnly st s \<or>
      s \<in> symbols \<and>
      ((\<exists>r \<in> set (t_orders (db_tables db)). or_Symbol r = s \<and> or_Status r = Partial \<and> or_ID r \<notin> ActiveOrderIDs st s) \<or>
       (\<exists>i \<in> ActiveOrderIDs st s. \<forall>r \<in> set (t_orders (db_tables db)). or_ID r = i \<and> or_Symbol r = s \<longrightarrow> IsTerminal (or_Status r)))"
    (is "_ \<longleftrightarrow> _ \<or> _ \<and> ?diff")
proof -
  define ss where "ss = unique_symbols {} (names @ (if reg = None then [] else map sp_Symbol (registry_All reg)))"
  have set: "set ss = symbols" unfolding ss_def symbols(1) by (auto simp: mem_unique_symbols)
  obtain ds where ds: "(\<forall>d \<in> set ds. HasMismatch d) \<and> df_Symbol ` set ds = {s \<in> symbols. od.differs st s (db_row_of db s)}"
    "st' = ApplyReadOnly ds ''orderbook_db_mismatch'' st"
  proof (cases "ss = []")
    case True
    then have "symbols = {}" using set by simp
    moreover have "st' = st" using run True by (simp add: runRecoveryVerify_def ss_def [symmetric])
    ultimately show thesis using that [of "[]"] by (simp add: ApplyReadOnly_def)
  next
    case False
    then obtain ds where v: "VerifyAll st (order_client configured msg) ss db = ((None, ds), db')"
      "st' = ApplyReadOnly ds ''orderbook_db_mismatch'' st"
      using run unfolding runRecoveryVerify_def ss_def [symmetric] Let_def
      by (auto simp: ApplyReadOnly_def split: prod.splits option.splits if_splits)
    from od.VerifyAll_exact [OF ids _ sh v(1)] symbols(2) v(2) that show thesis unfolding set by blast
  qed
  have "od.differs st s (db_row_of db s) \<longleftrightarrow> ?diff"
  proof -
    have "(case db_row_of db s i of None \<Rightarrow> True | Some x \<Rightarrow> IsTerminal x) \<longleftrightarrow>
        (\<forall>r \<in> set (t_orders (db_tables db)). or_ID r = i \<and> or_Symbol r = s \<longrightarrow> IsTerminal (or_Status r))" for i
    proof (cases "db_row_of db s i")
      case None
      then show ?thesis using db_row_of_Some [OF ids, of s i] by auto
    next
      case (Some x)
      moreover have "x' = x" if "db_row_of db s i = Some x'" for x' using that Some by simp
      ultimately show ?thesis using db_row_of_Some [OF ids, of s i] by (metis option.simps(5))
    qed
    then show ?thesis unfolding od.differs_def using db_row_of_Some [OF ids] by auto
  qed
  moreover have "\<forall>d \<in> set ds. df_Symbol d \<noteq> []"
  proof
    fix d
    assume "d \<in> set ds"
    then have "df_Symbol d \<in> symbols" using ds(1) by blast
    then show "df_Symbol d \<noteq> []" using set by (metis mem_unique_symbols ss_def)
  qed
  then have "rec_IsSymbolReadOnly st' s \<longleftrightarrow> rec_IsSymbolReadOnly st s \<or> s \<in> df_Symbol ` set ds"
    unfolding ds(2) using ds(1) ApplyReadOnly_only by blast
  ultimately show ?thesis using ds(1) by blast
qed

text \<open>With the database up the check completes.\<close>

lemma query_works: "\<forall>i. db_calls db i = Done \<Longrightarrow> \<exists>db'. query w f db = (Inr (f (db_tables db)), db') \<and> (\<forall>i. db_calls db' i = Done)"
  by (simp add: query_def stmt_def stmt_err_def db_call_def Let_def)

lemma verifySymbol_completes:
  assumes "\<forall>i. db_calls db i = Done" "trim_space s \<noteq> []"
  shows "\<exists>d db'. verifySymbol st (order_client True msg) s db = (Inr d, db') \<and> (\<forall>i. db_calls db' i = Done)"
proof -
  let ?rows = "\<lambda>t. map (\<lambda>r. (or_ID r, or_Status r)) (sort_key or_ID (filter
     (\<lambda>r. or_Symbol r = trim_space s \<and> or_Status r \<in> {Pending, Partial}) (t_orders t)))"
  obtain db1 where "query ''list reconcile orders'' ?rows db = (Inr (?rows (db_tables db)), db1)" "\<forall>i. db_calls db1 i = Done"
    using query_works [OF assms(1)] by blast
  then have "\<exists>rows db1. oq_ListReconcileOrders (order_client True msg) s db = (Inr rows, db1) \<and> (\<forall>i. db_calls db1 i = Done)"
    using assms(2)
    by (simp add: order_client_def client_ListReconcileOrders_def admin_ListReconcileOrders_def ListReconcileOrders_def Let_def trim_trim)
  then obtain rows db1 where l: "oq_ListReconcileOrders (order_client True msg) s db = (Inr rows, db1)" "\<forall>i. db_calls db1 i = Done" by blast
  have "\<exists>m db2. oq_GetOrderStatuses (order_client True msg) s ids db1 = (Inr m, db2) \<and> (\<forall>i. db_calls db2 i = Done)" for ids
  proof -
    have "\<exists>m db2. GetOrderStatuses (trim_space s) ids db1 = (Inr m, db2) \<and> (\<forall>i. db_calls db2 i = Done)"
    proof (cases "ids = []")
      case False
      let ?m = "\<lambda>t. map_of (map (\<lambda>r. (or_ID r, or_Status r)) (filter (\<lambda>r. or_Symbol r = trim_space s \<and> or_ID r \<in> set ids) (t_orders t)))"
      have eq: "GetOrderStatuses (trim_space s) ids = query ''get order statuses'' ?m"
        using assms(2) False by (simp add: GetOrderStatuses_def trim_trim)
      obtain db2 where "query ''get order statuses'' ?m db1 = (Inr (?m (db_tables db1)), db2)" "\<forall>i. db_calls db2 i = Done"
        using query_works [OF l(2)] by blast
      then show ?thesis unfolding eq by blast
    qed (use assms(2) l(2) in \<open>simp add: GetOrderStatuses_def trim_trim return_tx_def\<close>)
    then show ?thesis using assms(2) by (auto simp: order_client_def admin_GetOrderStatuses_def Let_def)
  qed
  then obtain m db2 where "\<And>ids. oq_GetOrderStatuses (order_client True msg) s ids db1 = (Inr (m ids), db2 ids)"
    "\<And>ids i. db_calls (db2 ids) i = Done" by metis
  with l show ?thesis by (simp add: verifySymbol_def Let_def)
qed

lemma VerifyAll_completes:
  "\<forall>i. db_calls db i = Done \<Longrightarrow> \<forall>s \<in> set ss. trim_space s \<noteq> [] \<Longrightarrow> \<exists>ds db'. VerifyAll st (order_client True msg) ss db = ((None, ds), db')"
proof (induction ss arbitrary: db)
  case (Cons s ss)
  obtain d db1 where v: "verifySymbol st (order_client True msg) s db = (Inr d, db1)" "\<forall>i. db_calls db1 i = Done"
    using verifySymbol_completes [OF Cons.prems(1)] Cons.prems(2) by (metis list.set_intros(1))
  with Cons.IH [OF v(2)] Cons.prems(2) show ?case by auto
qed simp

text \<open>
  The book of \<open>BTC-USDT\<close> holds orders that the database does not know; of \<open>ETH-USDT\<close> an order waits that
  has not reached the engine, which is no difference.
\<close>

definition wit_check_db :: "int db" where
  "wit_check_db = wit_db\<lparr> db_tables := wit_tables\<lparr> t_orders := [wit_row 1 2 2, (wit_row 9 1 1)\<lparr>or_Symbol := ''ETH-USDT''\<rparr>] \<rparr> \<rparr>"

theorem startup_check_exact_witness:
  "\<exists>w d1 clk1 st' db'. runRecoveryVerify (order_client True []) None [''BTC-USDT'', ''ETH-USDT''] (wit_engine w, wit_world d1 clk1) wit_check_db = (None, st', db') \<and>
     rec_IsSymbolReadOnly st' ''BTC-USDT'' \<and> \<not> rec_IsSymbolReadOnly st' ''ETH-USDT''"
proof -
  obtain w d1 clk1 where o: "OpenFileWriter ''s1'' wit_cfg (wit_disk [], wit_wclock) = (Inr w, d1, clk1)" using wit_open_append by blast
  let ?st = "(wit_engine w, wit_world d1 clk1)" and ?ss = "[''BTC-USDT'', ''ETH-USDT'']"
  have u: "unique_symbols {} (?ss @ (if (None :: int registry option) = None then [] else map sp_Symbol (registry_All (None :: int registry option)))) = ?ss" by simp
  have t: "trim_space ''BTC-USDT'' = ''BTC-USDT''" "trim_space ''ETH-USDT'' = ''ETH-USDT''" by code_simp+
  have "\<exists>ds db'. VerifyAll ?st (order_client True []) ?ss wit_check_db = ((None, ds), db')"
    by (rule VerifyAll_completes) (simp_all add: wit_check_db_def wit_db_def t)
  then obtain ds db' where v: "VerifyAll ?st (order_client True []) ?ss wit_check_db = ((None, ds), db')" by blast
  obtain st' where run: "runRecoveryVerify (order_client True []) None ?ss ?st wit_check_db = (None, st', db')"
    unfolding runRecoveryVerify_def u using v by (cases "ds = []") (simp_all add: Let_def del: VerifyAll.simps)
  have ids: "ids_distinct wit_check_db" by (simp add: ids_distinct_def wit_check_db_def wit_row_def)
  have sh: "shard_ok (e_shard (fst ?st))" by (simp add: wit_engine_def wit_shard_ok)
  have sy: "\<forall>s \<in> {''BTC-USDT'', ''ETH-USDT''}. trim_space s = s" using t by simp
  have sy': "{''BTC-USDT'', ''ETH-USDT''} = set ?ss \<union> (if (None :: int registry option) = None then {} else sp_Symbol ` set (registry_All (None :: int registry option))) - {[]}" by simp
  note e = startup_check_exact [OF ids sh run sy' sy]
  have sh_btc: "ActiveOrderIDs ?st ''BTC-USDT'' = {1, 2, 3}" "ActiveOrderIDs ?st ''ETH-USDT'' = {}"
    by (auto simp: ActiveOrderIDs_def wit_engine_def wit_shard_def shard_Get_def Register_def NewShard_def NewSymbolEngine_def
        ActiveOrders_def wit_book_def wit_order_def split: if_splits)
  have "rec_IsSymbolReadOnly st' ''BTC-USDT''"
    unfolding e sh_btc by (simp add: wit_check_db_def wit_row_def)
  moreover have "\<not> rec_IsSymbolReadOnly st' ''ETH-USDT''"
    unfolding e sh_btc by (simp add: wit_check_db_def wit_row_def Pending_def Partial_def rec_IsSymbolReadOnly_def IsReadOnly_def
        wit_engine_def wit_shard_def Register_def NewShard_def NewSymbolEngine_def)
  ultimately show ?thesis using run by blast
qed

end
