(* ===== verification/Spec2Isabelle.thy ===== *)
theory Spec2Isabelle
  imports OrderStatus SnapshotRestart RepoProps RelayProps Reconciler EventRelay PlacedOrders OrderIdempotency CommandHandler
    MarketMirror TickerStream MarketServer OrderConsumer KlineRestart
    IndexProps PushProps TimeText OrderApi RestOrders StartupVerify
begin

text \<open>
  A verification library of the trading system. The program is a set of Go services that talk over
  Kafka, gRPC, Redis and PostgreSQL; this development models their own logic and proves the
  properties listed at the theorems marked \<open>C1\<close>, \<open>C2\<close>, and so on. This theory gathers the others.

  \<^bold>\<open>How the services work together.\<close> The order service (\<open>internal/order\<close>) validates a request, freezes the
  funds and stores the order and a command in one transaction; its outbox relay writes the command to
  the topic \<open>order.commands\<close>, keyed by the pair. The matching service (\<open>internal/matching\<close>) reads that topic,
  appends each command to a write-ahead log (\<open>pkg/wal\<close>), applies it to the order book of the pair, and
  records the events it gives rise to, either straight to Kafka or through the event outbox
  (\<open>pkg/eventoutbox\<close>) and its relay. The order service books these events and trades; the market data
  service (\<open>internal/marketdata\<close>) mirrors the books and keeps the tickers; the candle service
  (\<open>internal/kline\<close>) aggregates the trades; the index price
  service (\<open>internal/indexprice\<close>) polls exchanges; the push service (\<open>internal/push\<close>) fans tickers out to
  websockets; and the gateway (\<open>internal/gateway\<close>) turns REST requests, whose tokens (\<open>pkg/auth\<close>) it
  verifies, into calls of the others.

  \<^bold>\<open>Theories and the code they model.\<close>

  \<^item> \<open>Prelude\<close>: machine words, bytes, time and the clock, the error values of all packages, the Go string
    functions used, the parameters for third-party libraries, the hint collections, lemmas on lists.
  \<^item> \<open>SkipList\<close>: \<open>pkg/skiplist\<close> as nodes with forward pointers in a store; \<open>Insert\<close>, \<open>Search\<close>, \<open>Delete\<close>.
  \<^item> \<open>Engine\<close>: \<open>internal/matching/engine\<close>. A record for the order and the book, \<open>Match\<close> with its loop
    \<open>match_step\<close>, \<open>RemoveOrder\<close>, the checks. \<open>EngineConvert\<close>: \<open>convert.go\<close>. \<open>EngineSnapshot\<close>: \<open>snapshot.go\<close>.
  \<^item> \<open>SymbolRules\<close>: \<open>pkg/symbolrules\<close>. \<open>SymbolShard\<close>: \<open>internal/matching/symbol\<close>, the engines of a shard.
  \<^item> \<open>WalRecord\<close>, \<open>WalFile\<close>: \<open>pkg/wal\<close>, the frames and the writer and reader over files that keep after a
    crash only what was synced. \<open>SnapshotStore\<close>: \<open>pkg/snapshot\<close> over such a file system.
  \<^item> \<open>Recovery\<close>: \<open>internal/matching/recovery\<close>, the engine that logs before it applies, group commits, takes
    snapshots and replays. \<open>RecoveryDurable\<close>, \<open>SnapshotRestart\<close>: its proofs.
  \<^item> \<open>EventOutbox\<close>, \<open>EventRelay\<close>, \<open>Kafka\<close>: \<open>pkg/eventoutbox\<close>, \<open>internal/matching/eventrelay\<close>, and the topics.
  \<^item> \<open>MatchEvents\<close>: \<open>internal/matching/publisher\<close> and \<open>eventoutbox/append.go\<close>. \<open>CommandHandler\<close>:
    \<open>internal/matching/consumer\<close>, from a message to the log, the books, the events and the offsets.
  \<^item> \<open>ShardMgr\<close>: \<open>pkg/shardmgr\<close> and \<open>internal/matching/shardbind\<close>.
  \<^item> \<open>OrderStatus\<close>: \<open>internal/order/status\<close>. \<open>OrderDb\<close>: tables, statements and transactions. \<open>Ledger\<close>,
    \<open>OrderRepo\<close>: \<open>internal/order/repository\<close>. \<open>OutboxRelay\<close>: \<open>internal/order/outbox\<close>. \<open>Reconciler\<close>:
    \<open>internal/order/reconciler\<close>. \<open>OrderService\<close>: \<open>internal/order/service\<close> and \<open>idempotency\<close>.
    \<open>OrderConsumer\<close>, \<open>ConsumerLoop\<close>: \<open>internal/order/consumer\<close> and \<open>publisher\<close>.
  \<^item> \<open>MarketStore\<close>, \<open>MarketConsumer\<close>, \<open>MarketServer\<close>, \<open>TickerStream\<close>: \<open>internal/marketdata\<close>, \<open>pkg/tradeevent\<close>
    and \<open>pkg/tickerall\<close>. \<open>RedisClient\<close>: \<open>pkg/redis\<close>.
  \<^item> \<open>KlineBars\<close>, \<open>KlineWorker\<close>, \<open>KlineService\<close>: \<open>pkg/kline\<close> and \<open>internal/kline\<close>.
  \<^item> \<open>IndexPrice\<close>: \<open>internal/indexprice\<close>. \<open>AuthTokens\<close>: \<open>pkg/auth\<close> and \<open>internal/authserver\<close>. \<open>PushHub\<close>:
    \<open>internal/push\<close>.
  \<^item> \<open>OrderApi\<close>: \<open>internal/order/handler\<close>, the gRPC servers over \<open>OrderService\<close> with the status of every error, and
    \<open>internal/matching/orderclient\<close>. \<open>TimeText\<close>: times as text and back, from the calendar up
    (\<open>internal/gateway/convert/time.go\<close> and what it uses of Go's package \<open>time\<close>). \<open>Gateway\<close>:
    \<open>internal/gateway\<close>, its router, middleware, handlers, conversions and error mapping.
  \<^item> \<open>StartupVerify\<close>: \<open>internal/matching/recovery/verify.go\<close>, \<open>internal/matching/admin\<close>, \<open>internal/order/matching\<close>
    and \<open>runRecoveryVerify\<close> of \<open>cmd/matching\<close>, the comparison of the restored books with the database.
  \<^item> The theories \<open>IndexProps\<close>, \<open>PushProps\<close>, \<open>GatewayProps\<close>, \<open>RestOrders\<close> and those ending in \<open>Durable\<close> or \<open>Restart\<close> hold proofs
    and the definitions their statements need.

  A Go struct is a record whose fields keep their names under a prefix, an operation is a function from
  the state (and the outcomes of the calls it makes) to a result and the new state, and an error is a
  value of \<open>err\<close>. The names of operations are those of the code; where two packages share a name a prefix
  tells them apart. A method that runs under a mutex is one step.

  \<^bold>\<open>What the groups of lemmas show.\<close>

  \<^item> The book: its invariant, which makers a taker meets and at what prices, that no quantity is lost,
    replay, exact cancellation, and that the pointer structure refines the sorted list (\<open>Engine\<close>).
  \<^item> Round trips: log records, snapshots, order messages, snapshot files after a crash.
  \<^item> Durability: the theories \<open>WalDurable\<close>, \<open>EventOutbox\<close> and \<open>RecoveryDurable\<close> quantify over the outcome of
    every system call and over the point at which a crash cuts each file.
  \<^item> Money: \<open>RepoInvariant\<close> reduces every operation of the repository to a few kinds of row updates;
    \<open>RepoSafety\<close> and \<open>RepoMoney\<close> show for each invariant that it respects those.
  \<^item> Delivery: \<open>RelayProps\<close>, \<open>EventRelay\<close>, \<open>OrderConsumer\<close> and \<open>CommandHandler\<close> show what was sent, marked or
    committed when any of the calls may have failed.
  \<^item> Composition: \<open>PlacedOrders\<close> follows an order from the request to the book, \<open>MarketMirror\<close> the book to the
    depth shown, \<open>KlineService\<close> and \<open>KlineRestart\<close> the trades to the candles served.
  \<^item> \<open>IndexProps\<close>: the index price is a weighted median of quotes that are close enough, and what is served is
    what was computed. \<open>AuthTokens\<close>: a token carries only granted scopes. \<open>PushProps\<close>: who receives what.
    \<open>TimeText\<close>: a printed time is read back.
  \<^item> \<open>GatewayProps\<close> composes the gateway with the models of all services it calls: which requests can change the
    order database; \<open>RestOrders\<close>: what the answer to an order says of it.
  \<^item> \<open>StartupVerify\<close>: which pairs refuse orders after the check at the start.

  \<^bold>\<open>Interfaces.\<close> The locale \<open>comparator\<close> and its extension \<open>ordered_store\<close> (\<open>SkipList\<close>) are what the book asks of
  its sides; \<open>Engine\<close> interprets them by the skip list and by sorted lists. \<open>journal\<close> and \<open>write_through\<close>
  (\<open>Journal\<close>) are what a client asks of a log; \<open>WalDurable\<close> and \<open>EventOutbox\<close> interpret them by the two logs of
  the program. \<open>order_tables\<close> and \<open>settled_tables\<close> (\<open>RepoInvariant\<close>) are the contract between an invariant
  and the repository, interpreted by seven invariants. \<open>idempotent_store\<close> (\<open>OrderIdempotency\<close>) is what the
  order service relies on in its store, interpreted by the repository.
  \<open>service_calls\<close> (\<open>GatewayProps\<close>) is what the gateway relies on in its clients, interpreted twice by the
  services. \<open>querier\<close> (\<open>StartupVerify\<close>) is what the check relies on in the order service, which interprets it.

  \<^bold>\<open>Parameters.\<close> Decimal arithmetic ranges over any ordered integral domain; parsing, printing, division
  and truncation of decimals, the conversions of \<open>timestamppb\<close>, protobuf encodings, JSON and SHA-1 are
  arguments of the definitions. The hypotheses on them (\<open>codec_ok\<close>, \<open>trunc_ok\<close> and the like: what is
  encoded decodes to itself) state their documented behaviour, and each has an instance that the
  witnesses use. The outcomes of system calls, database statements, Redis calls and writes to Kafka are
  arguments too, so that a theorem holds for every pattern of failures unless it says otherwise. Readings
  of the clock are an arbitrary sequence.

  \<^bold>\<open>Loops and termination.\<close> Loops over lists are structural; \<open>Match\<close>, the readers of log and outbox, the relay
  loops and the drains of the candle worker carry termination proofs. The walks of the skip list and the
  relay's loop over full batches, which a blocked call may stop, are functions to an option or to an
  outcome with a case of its own, and theorems show when they return. No model uses fuel that a caller
  has to choose: \<open>maxRetries\<close> and the retry counts are constants of the code.

  \<^bold>\<open>Not modelled.\<close>

  \<^item> The \<open>main\<close> programs under \<open>cmd\<close>, configuration loading, logging, metrics and HTTP servers: wiring around
    the components.
  \<^item> Generated code (\<open>pkg/pb\<close>), and the third-party clients under \<open>pkg/kafka\<close>, \<open>pkg/redis\<close> and \<open>pgx\<close> beyond the
    effect of the calls made.
  \<^item> Interleavings below one method: a method that takes a lock is atomic, and a transaction is atomic.
  \<^item> Timers and waits: a poll, a tick or a worker's round is a step; the sequence of steps is arbitrary.
  \<^item> Expiry of Redis keys, except that the idempotency cache may lose a key at any read.
  \<^item> \<open>internal/order/handler/handler.go\<close>, which no program uses, the benchmark programs, the dump tools and
    the interactive client of the matching engine.
  \<^item> TLS, and HTTP below a parsed request: reading bodies, routing of escaped paths.
\<close>

end
